(* ===== verification/MF_Prelude.thy ===== *)
theory MF_Prelude
  imports Complex_Main "HOL-Library.List_Lexorder" "HOL-Library.Product_Lexorder"
    "HOL-Library.Char_ord"
begin

text \<open>
  Shared vocabulary of the development.  Python strings are lists of code points
  (\<open>pystr\<close>); the error contract of the API (\<open>app_error\<close> and \<open>HTTPException\<close>) is a
  datatype; tables of the relational schema are lists of rows with generic
  lookup, update and delete; \<open>db_table\<close> is the interface every table of the
  database state offers to the handlers.
\<close>

named_theorems table_simps \<open>rewriting of table reads over table writes\<close>
named_theorems text_simps \<open>rewriting of text normalisation\<close>

subsection \<open>Text as lists of code points\<close>

type_synonym pystr = "int list"

definition lit :: "string \<Rightarrow> pystr" where
  "lit s = map of_char s"

lemma lit_Nil [simp, text_simps]: "lit [] = []"
  by (simp add: lit_def)

lemma lit_eq_Nil_iff [simp, text_simps]: "lit s = [] \<longleftrightarrow> s = []"
  by (simp add: lit_def)

lemma lit_eq_iff [simp]: "lit a = lit b \<longleftrightarrow> a = b"
  by (simp add: lit_def inj_map_eq_map inj_def)

text \<open>The white-space code points of \<open>str.strip\<close> and \<open>str.split\<close>.\<close>

definition py_space :: "int \<Rightarrow> bool" where
  "py_space c \<longleftrightarrow>
     (9 \<le> c \<and> c \<le> 13) \<or> (28 \<le> c \<and> c \<le> 32) \<or> c = 133 \<or> c = 160 \<or> c = 5760
     \<or> (8192 \<le> c \<and> c \<le> 8202) \<or> c = 8232 \<or> c = 8233 \<or> c = 8239 \<or> c = 8287 \<or> c = 12288"

definition strip_by :: "(int \<Rightarrow> bool) \<Rightarrow> pystr \<Rightarrow> pystr" where
  "strip_by p s = rev (dropWhile p (rev (dropWhile p s)))"

definition py_strip :: "pystr \<Rightarrow> pystr" where
  "py_strip s = strip_by py_space s"

text \<open>
  \<open>str.lower\<close> and \<open>str.upper\<close> on Latin-1 and on scripts without case (Hangul, digits,
  punctuation); cased letters of other scripts are left alone by the model.
\<close>

definition lower_cp :: "int \<Rightarrow> int" where
  "lower_cp c = (if (65 \<le> c \<and> c \<le> 90) \<or> (192 \<le> c \<and> c \<le> 222 \<and> c \<noteq> 215) then c + 32 else c)"

definition py_lower :: "pystr \<Rightarrow> pystr" where
  "py_lower s = map lower_cp s"

definition upper_cp :: "int \<Rightarrow> pystr" where
  "upper_cp c =
     (if (97 \<le> c \<and> c \<le> 122) \<or> (224 \<le> c \<and> c \<le> 254 \<and> c \<noteq> 247) then [c - 32]
      else if c = 181 then [924] else if c = 255 then [376] else if c = 223 then [83, 83]
      else [c])"

definition py_upper :: "pystr \<Rightarrow> pystr" where
  "py_upper s = concat (map upper_cp s)"

text \<open>\<open>s.split()\<close>: the maximal runs of characters that are not white space.\<close>

function py_split :: "pystr \<Rightarrow> pystr list" where
  "py_split s =
     (let s' = dropWhile py_space s
      in if s' = [] then []
         else takeWhile (\<lambda>c. \<not> py_space c) s' # py_split (dropWhile (\<lambda>c. \<not> py_space c) s'))"
  by pat_completeness auto
termination
proof (relation "measure length", goal_cases)
  case 1
  show ?case by simp
next
  case (2 s s')
  then obtain c cs where s': "dropWhile py_space s = c # cs"
    by (cases "dropWhile py_space s") auto
  then have "\<not> py_space c"
    by (metis dropWhile_eq_Cons_conv)
  then have "length (dropWhile (\<lambda>c. \<not> py_space c) (c # cs)) \<le> length cs"
    by (simp add: length_dropWhile_le)
  moreover have "length (c # cs) \<le> length s"
    by (metis s' length_dropWhile_le)
  ultimately show ?case
    using 2 s' by simp
qed

declare py_split.simps [simp del]

text \<open>\<open>s.split(sep)\<close> at every character that satisfies \<open>p\<close>.\<close>

fun split_on :: "(int \<Rightarrow> bool) \<Rightarrow> pystr \<Rightarrow> pystr list" where
  "split_on p [] = [[]]"
| "split_on p (c # cs) =
     (if p c then [] # split_on p cs
      else (case split_on p cs of [] \<Rightarrow> [[c]] | x # xs \<Rightarrow> (c # x) # xs))"

definition py_startswith :: "pystr \<Rightarrow> pystr \<Rightarrow> bool" where
  "py_startswith s prefix \<longleftrightarrow> take (length prefix) s = prefix"

definition py_endswith :: "pystr \<Rightarrow> pystr \<Rightarrow> bool" where
  "py_endswith s suffix \<longleftrightarrow>
     length suffix \<le> length s \<and> drop (length s - length suffix) s = suffix"

text \<open>\<open>sep.join(parts)\<close>.\<close>

fun join_with :: "pystr \<Rightarrow> pystr list \<Rightarrow> pystr" where
  "join_with sep [] = []"
| "join_with sep [x] = x"
| "join_with sep (x # y # ys) = x @ sep @ join_with sep (y # ys)"

lemma dropWhile_idem: "dropWhile p (dropWhile p s) = dropWhile p s"
  by (induction s) auto

lemma dropWhile_rev_dropWhile:
  "dropWhile p (rev (dropWhile p (rev (dropWhile p s)))) = rev (dropWhile p (rev (dropWhile p s)))"
proof (cases "dropWhile p s")
  case Nil
  show ?thesis unfolding Nil by simp
next
  case (Cons c cs)
  then have c: "\<not> p c" by (metis dropWhile_eq_Cons_conv)
  have "dropWhile p (rev cs @ [c]) = dropWhile p (rev cs) @ [c]"
  proof (cases "\<exists>x \<in> set (rev cs). \<not> p x")
    case True
    then show ?thesis by (auto intro: dropWhile_append1)
  next
    case False
    then have "dropWhile p (rev cs @ [c]) = dropWhile p [c]"
      by (intro dropWhile_append2) auto
    with False c show ?thesis by simp
  qed
  with Cons c show ?thesis by simp
qed

lemma strip_by_idem [text_simps]: "strip_by p (strip_by p s) = strip_by p s"
  unfolding strip_by_def dropWhile_rev_dropWhile by (simp add: dropWhile_idem)

lemma py_strip_idem [simp, text_simps]: "py_strip (py_strip s) = py_strip s"
  by (simp add: py_strip_def strip_by_idem)

lemma strip_by_Nil_iff: "strip_by p s = [] \<longleftrightarrow> (\<forall>c \<in> set s. p c)"
proof
  assume "strip_by p s = []"
  then have "\<forall>c \<in> set (dropWhile p s). p c"
    by (simp add: strip_by_def)
  then show "\<forall>c \<in> set s. p c"
    by (metis dropWhile_eq_Nil_conv hd_dropWhile hd_in_set)
next
  assume "\<forall>c \<in> set s. p c"
  then have "dropWhile p s = []" by simp
  then show "strip_by p s = []" unfolding strip_by_def by (simp only:) simp
qed

lemma py_strip_Nil [simp, text_simps]: "py_strip [] = []"
  by (simp add: py_strip_def strip_by_def)

lemma set_strip_by: "set (strip_by p s) \<subseteq> set s"
  unfolding strip_by_def by (metis set_dropWhileD set_rev subsetI)

text \<open>A rewriting of characters that neither makes nor removes white space commutes with stripping.\<close>

lemma dropWhile_concat_map:
  assumes "\<And>c. p c \<Longrightarrow> f c = [c]" and "\<And>c. \<not> p c \<Longrightarrow> f c \<noteq> [] \<and> (\<forall>x \<in> set (f c). \<not> p x)"
  shows "dropWhile p (concat (map f s)) = concat (map f (dropWhile p s))"
proof (induction s)
  case (Cons c s)
  show ?case
  proof (cases "p c")
    case True
    with Cons assms(1) show ?thesis by simp
  next
    case False
    with assms(2) obtain x xs where "f c = x # xs" "\<not> p x" by (metis list.exhaust list.set_intros(1))
    with False show ?thesis by simp
  qed
qed simp

lemma strip_by_concat_map:
  assumes "\<And>c. p c \<Longrightarrow> f c = [c]" and "\<And>c. \<not> p c \<Longrightarrow> f c \<noteq> [] \<and> (\<forall>x \<in> set (f c). \<not> p x)"
  shows "strip_by p (concat (map f s)) = concat (map f (strip_by p s))"
proof -
  have fwd: "dropWhile p (concat (map f t)) = concat (map f (dropWhile p t))" for t
    by (rule dropWhile_concat_map) (use assms in auto)
  have r: "rev (concat (map f t)) = concat (map (\<lambda>c. rev (f c)) (rev t))" for t
    by (simp add: rev_concat rev_map comp_def)
  have bwd: "dropWhile p (concat (map (\<lambda>c. rev (f c)) t)) = concat (map (\<lambda>c. rev (f c)) (dropWhile p t))" for t
    by (rule dropWhile_concat_map) (use assms in auto)
  show ?thesis
    unfolding strip_by_def fwd r bwd by (simp add: rev_concat rev_map comp_def)
qed

lemma upper_cp_space: "py_space c \<Longrightarrow> upper_cp c = [c]"
  unfolding py_space_def by (elim disjE conjE) (simp_all add: upper_cp_def)

lemma upper_cp_cases:
  obtains "97 \<le> c" "c \<le> 122" "upper_cp c = [c - 32]" | "224 \<le> c" "c \<le> 254" "upper_cp c = [c - 32]"
  | "upper_cp c = [924]" | "upper_cp c = [376]" | "upper_cp c = [83, 83]" | "upper_cp c = [c]"
proof -
  consider "97 \<le> c \<and> c \<le> 122 \<or> 224 \<le> c \<and> c \<le> 254 \<and> c \<noteq> 247" | "upper_cp c \<in> {[924], [376], [83, 83], [c]}"
    unfolding upper_cp_def by (cases "97 \<le> c \<and> c \<le> 122 \<or> 224 \<le> c \<and> c \<le> 254 \<and> c \<noteq> 247") auto
  then show ?thesis by cases (use that in \<open>auto simp: upper_cp_def\<close>)
qed

lemma upper_cp_not_space:
  assumes "\<not> py_space c"
  shows "upper_cp c \<noteq> [] \<and> (\<forall>x \<in> set (upper_cp c). \<not> py_space x)"
  by (cases c rule: upper_cp_cases) (use assms in \<open>simp_all add: py_space_def\<close>)

lemma py_strip_upper: "py_strip (py_upper s) = py_upper (py_strip s)"
  unfolding py_strip_def py_upper_def
  by (rule strip_by_concat_map [OF upper_cp_space upper_cp_not_space])

lemma py_upper_idem [simp]: "py_upper (py_upper s) = py_upper s"
proof -
  have "concat (map upper_cp (upper_cp c)) = upper_cp c" for c
    by (auto simp: upper_cp_def)
  then show ?thesis
    unfolding py_upper_def by (induction s) simp_all
qed

lemma py_upper_Nil_iff [simp]: "py_upper s = [] \<longleftrightarrow> s = []"
  by (cases s) (auto simp: py_upper_def upper_cp_def)

text \<open>The truth value of an optional string.\<close>

definition truthy_text :: "pystr option \<Rightarrow> bool" where
  "truthy_text v \<longleftrightarrow> v \<noteq> None \<and> v \<noteq> Some []"

text \<open>A property every step keeps holds along every run.\<close>

lemma rtranclp_keeps: "r\<^sup>*\<^sup>* x y \<Longrightarrow> (\<And>x y. r x y \<Longrightarrow> P x \<Longrightarrow> P y) \<Longrightarrow> P x \<Longrightarrow> P y"
  by (induction rule: rtranclp_induct) blast+

subsection \<open>Positions in a list\<close>

text \<open>\<open>next((i for i, y in enumerate(ys) if y == x), None)\<close>.\<close>

fun index_of :: "'a \<Rightarrow> 'a list \<Rightarrow> nat option" where
  "index_of x [] = None"
| "index_of x (y # ys) = (if y = x then Some 0 else map_option Suc (index_of x ys))"

lemma index_of_SomeD: "index_of x ys = Some i \<Longrightarrow> i < length ys \<and> ys ! i = x"
  by (induction ys arbitrary: i) (auto split: if_splits)

lemma index_of_None_iff: "index_of x ys = None \<longleftrightarrow> x \<notin> set ys"
  by (induction ys) auto

text \<open>\<open>list(dict.fromkeys(xs))\<close>: the first occurrence of every element.\<close>

fun dedup :: "'a list \<Rightarrow> 'a list" where
  "dedup [] = []"
| "dedup (x # xs) = x # filter (\<lambda>y. y \<noteq> x) (dedup xs)"

lemma set_dedup [simp]: "set (dedup xs) = set xs"
  by (induction xs) auto

lemma distinct_dedup [simp]: "distinct (dedup xs)"
  by (induction xs) auto

subsection \<open>Dates and instants\<close>

text \<open>
  A \<open>date\<close> is the triple (year, month, day); the lexicographic order of the library is
  the order of \<open>datetime.date\<close>.  An instant is the number of microseconds since the
  epoch in UTC, what \<open>_as_utc\<close> makes of a stored time stamp.
\<close>

type_synonym date = "int \<times> int \<times> int"
type_synonym instant = int

definition seconds :: "int \<Rightarrow> instant" where
  "seconds n = n * 1000000"

definition leap_year :: "int \<Rightarrow> bool" where
  "leap_year y \<longleftrightarrow> y mod 4 = 0 \<and> (y mod 100 \<noteq> 0 \<or> y mod 400 = 0)"

definition days_in_month :: "int \<Rightarrow> int \<Rightarrow> int" where
  "days_in_month y m =
     (if m = 2 then (if leap_year y then 29 else 28) else if m \<in> {4, 6, 9, 11} then 30 else 31)"

text \<open>The constructor \<open>date(y, m, d)\<close>: \<open>None\<close> is its \<open>ValueError\<close>.\<close>

definition mk_date :: "int \<Rightarrow> int \<Rightarrow> int \<Rightarrow> date option" where
  "mk_date y m d =
     (if 1 \<le> y \<and> y \<le> 9999 \<and> 1 \<le> m \<and> m \<le> 12 \<and> 1 \<le> d \<and> d \<le> days_in_month y m
      then Some (y, m, d) else None)"

text \<open>Sorting by this key is sorting by descending dates.\<close>

definition date_desc :: "date \<Rightarrow> int \<times> int \<times> int" where
  "date_desc dt = (case dt of (y, m, d) \<Rightarrow> (- y, - m, - d))"

lemma date_desc_le: "date_desc a \<le> date_desc b \<longleftrightarrow> b \<le> a"
  by (cases a; cases b) (auto simp: date_desc_def less_eq_prod_def)

subsection \<open>The error contract of the API\<close>

text \<open>
  \<open>app_error(status_code, code, ...)\<close> keeps its status and code, an
  \<open>HTTPException(status_code, detail)\<close> its status and detail; the texts shown to the user
  are dropped.  \<open>ServerError\<close> is an exception no handler catches (status 500).
\<close>

datatype http_error =
    AppError nat string
  | HttpDetail nat string
  | AppErrorCtx nat string "pystr list"
  | PatchConflict string pystr int "string list"
  | ServerError

fun error_status :: "http_error \<Rightarrow> nat" where
  "error_status (AppError n _) = n"
| "error_status (HttpDetail n _) = n"
| "error_status (AppErrorCtx n _ _) = n"
| "error_status (PatchConflict _ _ _ _) = 409"
| "error_status ServerError = 500"

subsection \<open>Rows of a table\<close>

definition row_get :: "('r \<Rightarrow> 'k) \<Rightarrow> 'k \<Rightarrow> 'r list \<Rightarrow> 'r option" where
  "row_get key k rows = find (\<lambda>r. key r = k) rows"

definition row_update :: "('r \<Rightarrow> 'k) \<Rightarrow> 'k \<Rightarrow> ('r \<Rightarrow> 'r) \<Rightarrow> 'r list \<Rightarrow> 'r list" where
  "row_update key k f rows = map (\<lambda>r. if key r = k then f r else r) rows"

definition row_delete :: "('r \<Rightarrow> 'k) \<Rightarrow> 'k \<Rightarrow> 'r list \<Rightarrow> 'r list" where
  "row_delete key k rows = filter (\<lambda>r. key r \<noteq> k) rows"

definition unique_keys :: "('r \<Rightarrow> 'k) \<Rightarrow> 'r list \<Rightarrow> bool" where
  "unique_keys key rows \<longleftrightarrow> distinct (map key rows)"

lemma find_SomeD: "find p xs = Some x \<Longrightarrow> x \<in> set xs \<and> p x"
  by (auto simp: find_Some_iff)

lemma find_append: "find p (xs @ ys) = (case find p xs of Some x \<Rightarrow> Some x | None \<Rightarrow> find p ys)"
  by (induction xs) auto

lemma row_get_SomeD: "row_get key k rows = Some r \<Longrightarrow> r \<in> set rows \<and> key r = k"
  by (auto simp: row_get_def find_Some_iff)

lemma row_get_None_iff: "row_get key k rows = None \<longleftrightarrow> k \<notin> key ` set rows"
  by (auto simp: row_get_def find_None_iff)

lemma row_get_unique:
  "unique_keys key rows \<Longrightarrow> r \<in> set rows \<Longrightarrow> row_get key (key r) rows = Some r"
  by (induction rows) (auto simp: row_get_def unique_keys_def)

lemma find_unique_key:
  "unique_keys key rows \<Longrightarrow> r \<in> set rows \<Longrightarrow> p r \<Longrightarrow>
   (\<And>y. y \<in> set rows \<Longrightarrow> p y \<Longrightarrow> key y = key r) \<Longrightarrow> find p rows = Some r"
proof (induction rows)
  case (Cons x rows)
  show ?case
  proof (cases "p x")
    case True
    then have "key x = key r" using Cons.prems(4) by simp
    with Cons.prems(1,2) have "x = r" by (auto simp: unique_keys_def)
    with True show ?thesis by simp
  next
    case False
    with Cons.prems(2,3) have "r \<in> set rows" by auto
    moreover from Cons.prems(1) have "unique_keys key rows" by (simp add: unique_keys_def)
    ultimately have "find p rows = Some r"
      using Cons.IH Cons.prems(3,4) by (metis list.set_intros(2))
    with False show ?thesis by simp
  qed
qed simp

lemma row_get_Nil [simp, table_simps]: "row_get key k [] = None"
  by (simp add: row_get_def)

lemma row_get_Cons [simp, table_simps]:
  "row_get key k (r # rows) = (if key r = k then Some r else row_get key k rows)"
  by (simp add: row_get_def)

lemma row_get_append [table_simps]:
  "row_get key k (xs @ ys) = (case row_get key k xs of Some r \<Rightarrow> Some r | None \<Rightarrow> row_get key k ys)"
  by (induction xs) auto

lemma row_get_update [table_simps]:
  "(\<And>r. key (f r) = key r) \<Longrightarrow>
   row_get key k (row_update key j f rows) =
     (if k = j then map_option f (row_get key k rows) else row_get key k rows)"
  by (induction rows) (auto simp: row_update_def)

lemma row_get_delete [table_simps]:
  "row_get key k (row_delete key j rows) = (if k = j then None else row_get key k rows)"
  by (induction rows) (auto simp: row_delete_def)

lemma map_key_update [table_simps]:
  "(\<And>r. key (f r) = key r) \<Longrightarrow> map key (row_update key j f rows) = map key rows"
  by (induction rows) (auto simp: row_update_def)

lemma set_row_delete [simp, table_simps]: "set (row_delete key k rows) = {r \<in> set rows. key r \<noteq> k}"
  by (auto simp: row_delete_def)

lemma unique_keys_append [table_simps]:
  "unique_keys key (rows @ [r]) \<longleftrightarrow> unique_keys key rows \<and> row_get key (key r) rows = None"
  by (auto simp: unique_keys_def row_get_None_iff)

lemma unique_keys_update [table_simps]:
  "(\<And>r. key (f r) = key r) \<Longrightarrow> unique_keys key (row_update key j f rows) = unique_keys key rows"
  by (simp add: unique_keys_def map_key_update)

lemma unique_keys_filter: "unique_keys key rows \<Longrightarrow> unique_keys key (filter p rows)"
  by (auto simp: unique_keys_def distinct_map inj_on_def)

lemma unique_keys_delete: "unique_keys key rows \<Longrightarrow> unique_keys key (row_delete key k rows)"
  by (simp add: row_delete_def unique_keys_filter)

lemma set_row_update:
  "set (row_update key k f rows) = (\<lambda>r. if key r = k then f r else r) ` set rows"
  by (simp add: row_update_def)

lemma filter_row_update_other:
  "(\<And>r. p (f r) = p r) \<Longrightarrow> filter p (row_update key k f rows) = row_update key k f (filter p rows)"
  by (induction rows) (auto simp: row_update_def)

lemma length_filter_update:
  "unique_keys key rows \<Longrightarrow> r \<in> set rows \<Longrightarrow> key r = k \<Longrightarrow>
   length (filter p (row_update key k f rows)) + (if p r then 1 else 0) =
   length (filter p rows) + (if p (f r) then 1 else 0)"
proof (induction rows)
  case (Cons x rows)
  have u: "unique_keys key rows" using Cons.prems(1) by (simp add: unique_keys_def)
  show ?case
  proof (cases "x = r")
    case True
    with Cons.prems(1,3) have "\<forall>y \<in> set rows. key y \<noteq> k"
      by (force simp: unique_keys_def image_iff)
    then have "map (\<lambda>r. if key r = k then f r else r) rows = rows" by (simp add: map_idI)
    with True Cons.prems(3) show ?thesis by (simp add: row_update_def)
  next
    case False
    with Cons.prems have r: "r \<in> set rows" by auto
    with Cons.prems(1,3) have "key x \<noteq> k" by (auto simp: unique_keys_def)
    with Cons.IH [OF u r Cons.prems(3)] show ?thesis by (auto simp: row_update_def)
  qed
qed simp

lemma length_filter_delete:
  "unique_keys key rows \<Longrightarrow> r \<in> set rows \<Longrightarrow> key r = k \<Longrightarrow>
   length (filter p (row_delete key k rows)) + (if p r then 1 else 0) = length (filter p rows)"
proof (induction rows)
  case (Cons x rows)
  have u: "unique_keys key rows" using Cons.prems(1) by (simp add: unique_keys_def)
  show ?case
  proof (cases "x = r")
    case True
    with Cons.prems(1,3) have "\<forall>y \<in> set rows. key y \<noteq> k"
      by (force simp: unique_keys_def image_iff)
    then have "filter (\<lambda>r. key r \<noteq> k) rows = rows" by (auto intro: filter_True)
    with True Cons.prems(3) show ?thesis by (simp add: row_delete_def)
  next
    case False
    with Cons.prems have r: "r \<in> set rows" by auto
    with Cons.prems(1,3) have "key x \<noteq> k" by (auto simp: unique_keys_def)
    with Cons.IH [OF u r Cons.prems(3)] show ?thesis by (auto simp: row_delete_def)
  qed
qed simp

lemma length_filter_map_eq:
  "map p xs = map p ys \<Longrightarrow> length (filter p xs) = length (filter p ys)"
proof -
  have "length (filter p zs) = length (filter id (map p zs))" for zs
    by (simp add: filter_map comp_def)
  moreover assume "map p xs = map p ys"
  ultimately show ?thesis by metis
qed

lemma distinct_map_filter_weaken:
  "distinct (map k (filter p xs)) \<Longrightarrow> (\<And>x. x \<in> set xs \<Longrightarrow> q (f x) \<Longrightarrow> p x) \<Longrightarrow>
   (\<And>x. x \<in> set xs \<Longrightarrow> k (f x) = k x) \<Longrightarrow> distinct (map k (filter q (map f xs)))"
proof (induction xs)
  case (Cons x xs)
  have IH: "distinct (map k (filter q (map f xs)))"
    using Cons by (cases "p x") auto
  show ?case
  proof (cases "q (f x)")
    case True
    with Cons.prems(2) have "p x" by simp
    with Cons.prems(1) have "k x \<notin> k ` {y \<in> set xs. p y}" by simp
    moreover have "k ` {y \<in> f ` set xs. q y} \<subseteq> k ` {y \<in> set xs. p y}"
      using Cons.prems(2,3) by fastforce
    ultimately show ?thesis
      using True IH Cons.prems(3) [of x] by auto
  next
    case False
    with IH show ?thesis by simp
  qed
qed simp

subsection \<open>The interface of a table of the database state\<close>

text \<open>
  What a handler relies on when it reads and writes one table: reading gives back what
  was written, and writing back what was read changes nothing.
\<close>

locale db_table =
  fixes rows :: "'db \<Rightarrow> 'r list"
    and set_rows :: "'r list \<Rightarrow> 'db \<Rightarrow> 'db"
    and key :: "'r \<Rightarrow> 'k"
  assumes rows_set: "rows (set_rows rs d) = rs"
    and set_rows_rows: "set_rows (rows d) d = d"
    and set_rows_set: "set_rows rs (set_rows rs' d) = set_rows rs d"
begin

lemma get_after_insert:
  "row_get key (key r) (rows d) = None \<Longrightarrow>
   row_get key k (rows (set_rows (rows d @ [r]) d)) =
     (if k = key r then Some r else row_get key k (rows d))"
  by (auto simp: rows_set row_get_append split: option.splits)

lemma get_after_update:
  "(\<And>r. key (f r) = key r) \<Longrightarrow>
   row_get key k (rows (set_rows (row_update key j f (rows d)) d)) =
     (if k = j then map_option f (row_get key k (rows d)) else row_get key k (rows d))"
  by (simp add: rows_set row_get_update)

lemma get_after_delete:
  "row_get key k (rows (set_rows (row_delete key j (rows d)) d)) =
     (if k = j then None else row_get key k (rows d))"
  by (simp add: rows_set row_get_delete)

lemma unique_after_insert:
  "unique_keys key (rows d) \<Longrightarrow> row_get key (key r) (rows d) = None \<Longrightarrow>
   unique_keys key (rows (set_rows (rows d @ [r]) d))"
  by (simp add: rows_set unique_keys_append)

lemma insert_delete:
  "row_get key (key r) (rows d) = None \<Longrightarrow>
   set_rows (row_delete key (key r) (rows (set_rows (rows d @ [r]) d))) (set_rows (rows d @ [r]) d) = d"
proof -
  assume new: "row_get key (key r) (rows d) = None"
  then have "filter (\<lambda>x. key x \<noteq> key r) (rows d) = rows d"
    by (auto simp: row_get_None_iff image_iff intro!: filter_True)
  then have "row_delete key (key r) (rows d @ [r]) = rows d"
    by (simp add: row_delete_def)
  then show ?thesis
    by (simp add: rows_set set_rows_set set_rows_rows)
qed

end

end
