(* ===== verification/MF_Models.thy ===== *)
theory MF_Models
  imports MF_Prelude
begin

text \<open>
  The relational schema of \<open>backend/app/db/models.py\<close>: one datatype per enumeration, one
  record per table, and the state of the database as a record of tables.  Columns keep
  their names with the table's prefix; a nullable column is an option (so are the owner and
  account name of a holding, which a handler may hold as \<open>None\<close> until it commits); a \<open>Decimal\<close> is a
  rational; a time stamp is an instant in UTC.  The live-update events handed to the
  web-socket hub are a datatype.
\<close>

subsection \<open>Enumerations\<close>

datatype member_role = Role_owner | Role_co_owner | Role_editor | Role_viewer

datatype display_name_mode = Mode_real_name | Mode_nickname

datatype invitation_status = Inv_pending | Inv_accepted | Inv_revoked | Inv_expired

datatype flow_type = Flow_income | Flow_expense | Flow_investment | Flow_transfer

datatype asset_type =
  Asset_stock | Asset_crypto | Asset_cash | Asset_real_estate | Asset_pension | Asset_other

text \<open>The stored value of an enumeration member, e.g. \<open>FlowType.income.value\<close>.\<close>

fun flow_value :: "flow_type \<Rightarrow> string" where
  "flow_value Flow_income = ''income''"
| "flow_value Flow_expense = ''expense''"
| "flow_value Flow_investment = ''investment''"
| "flow_value Flow_transfer = ''transfer''"

fun asset_value :: "asset_type \<Rightarrow> string" where
  "asset_value Asset_stock = ''stock''"
| "asset_value Asset_crypto = ''crypto''"
| "asset_value Asset_cash = ''cash''"
| "asset_value Asset_real_estate = ''real_estate''"
| "asset_value Asset_pension = ''pension''"
| "asset_value Asset_other = ''other''"

fun mode_value :: "display_name_mode \<Rightarrow> string" where
  "mode_value Mode_real_name = ''real_name''"
| "mode_value Mode_nickname = ''nickname''"

subsection \<open>JSON columns\<close>

datatype json =
    JNull
  | JBool bool
  | JInt int
  | JFloat rat
  | JStr pystr
  | JList "json list"
  | JObj "(pystr \<times> json) list"

subsection \<open>Tables\<close>

record user =
  us_id :: pystr
  us_email :: pystr
  us_password_hash :: pystr
  us_real_name :: "pystr option"
  us_nickname :: "pystr option"
  us_display_name_mode :: pystr
  us_display_name :: pystr
  us_email_verified :: bool
  us_email_verified_at :: "instant option"
  us_active_household_id :: "pystr option"
  us_created_at :: instant

record revoked_token =
  rt_jti :: pystr
  rt_expires_at :: instant

record household =
  hh_id :: pystr
  hh_name :: pystr
  hh_base_currency :: pystr
  hh_transaction_row_colors :: "(pystr \<times> pystr) list"
  hh_holding_settings :: "(pystr \<times> json) list"
  hh_created_at :: instant

record household_member =
  mb_id :: pystr
  mb_household_id :: pystr
  mb_user_id :: pystr
  mb_role :: member_role
  mb_created_at :: instant

record invitation =
  iv_id :: pystr
  iv_household_id :: pystr
  iv_email :: pystr
  iv_inviter_user_id :: "pystr option"
  iv_accepted_user_id :: "pystr option"
  iv_role :: member_role
  iv_status :: invitation_status
  iv_token_hash :: pystr
  iv_expires_at :: instant
  iv_accepted_at :: "instant option"
  iv_revoked_at :: "instant option"
  iv_created_at :: instant

record category =
  ct_id :: pystr
  ct_household_id :: pystr
  ct_flow_type :: flow_type
  ct_major :: pystr
  ct_minor :: pystr
  ct_sort_order :: int
  ct_created_at :: instant

record transaction =
  tx_id :: pystr
  tx_household_id :: pystr
  tx_category_id :: "pystr option"
  tx_flow_type :: flow_type
  tx_occurred_on :: date
  tx_amount :: rat
  tx_installment_months :: "int option"
  tx_currency :: pystr
  tx_memo :: pystr
  tx_order_key :: int
  tx_owner_user_id :: "pystr option"
  tx_owner_name :: "pystr option"
  tx_source_ref :: "pystr option"
  tx_version :: int
  tx_created_by_user_id :: "pystr option"
  tx_created_at :: instant
  tx_updated_at :: instant

record holding =
  hd_id :: pystr
  hd_household_id :: pystr
  hd_asset_type :: asset_type
  hd_symbol :: pystr
  hd_market_symbol :: pystr
  hd_name :: pystr
  hd_type_key :: "pystr option"
  hd_category :: pystr
  hd_owner_user_id :: "pystr option"
  hd_owner_name :: "pystr option"
  hd_account_name :: "pystr option"
  hd_quantity :: rat
  hd_average_cost :: rat
  hd_currency :: pystr
  hd_display_order :: int
  hd_source_ref :: "pystr option"
  hd_version :: int
  hd_updated_at :: instant

record patch_log =
  pl_household_id :: pystr
  pl_entity_type :: string
  pl_entity_id :: pystr
  pl_base_version :: int
  pl_resulting_version :: int
  pl_changed_fields :: "string list"
  pl_merged :: bool
  pl_conflict_fields :: "string list"
  pl_actor_user_id :: "pystr option"

record refresh_status =
  rs_household_id :: pystr
  rs_in_progress :: bool
  rs_queued :: bool
  rs_started_at :: "instant option"
  rs_finished_at :: "instant option"
  rs_target_count :: int
  rs_completed_count :: int
  rs_refreshed_count :: int
  rs_last_duration_ms :: "int option"
  rs_last_error :: "pystr option"
  rs_updated_at :: "instant option"

subsection \<open>The database state\<close>

record db =
  db_users :: "user list"
  db_revoked :: "revoked_token list"
  db_households :: "household list"
  db_members :: "household_member list"
  db_invitations :: "invitation list"
  db_categories :: "category list"
  db_transactions :: "transaction list"
  db_holdings :: "holding list"
  db_patch_logs :: "patch_log list"

abbreviation set_users :: "user list \<Rightarrow> db \<Rightarrow> db" where
  "set_users rs \<equiv> db_users_update (\<lambda>_. rs)"

abbreviation set_households :: "household list \<Rightarrow> db \<Rightarrow> db" where
  "set_households rs \<equiv> db_households_update (\<lambda>_. rs)"

abbreviation set_members :: "household_member list \<Rightarrow> db \<Rightarrow> db" where
  "set_members rs \<equiv> db_members_update (\<lambda>_. rs)"

abbreviation set_invitations :: "invitation list \<Rightarrow> db \<Rightarrow> db" where
  "set_invitations rs \<equiv> db_invitations_update (\<lambda>_. rs)"

abbreviation set_categories :: "category list \<Rightarrow> db \<Rightarrow> db" where
  "set_categories rs \<equiv> db_categories_update (\<lambda>_. rs)"

abbreviation set_transactions :: "transaction list \<Rightarrow> db \<Rightarrow> db" where
  "set_transactions rs \<equiv> db_transactions_update (\<lambda>_. rs)"

abbreviation set_holdings :: "holding list \<Rightarrow> db \<Rightarrow> db" where
  "set_holdings rs \<equiv> db_holdings_update (\<lambda>_. rs)"

abbreviation set_patch_logs :: "patch_log list \<Rightarrow> db \<Rightarrow> db" where
  "set_patch_logs rs \<equiv> db_patch_logs_update (\<lambda>_. rs)"

interpretation users_table: db_table db_users set_users us_id
  by unfold_locales simp_all

interpretation households_table: db_table db_households set_households hh_id
  by unfold_locales simp_all

interpretation members_table: db_table db_members set_members mb_id
  by unfold_locales simp_all

interpretation invitations_table: db_table db_invitations set_invitations iv_id
  by unfold_locales simp_all

interpretation categories_table: db_table db_categories set_categories ct_id
  by unfold_locales simp_all

interpretation transactions_table: db_table db_transactions set_transactions tx_id
  by unfold_locales simp_all

interpretation holdings_table: db_table db_holdings set_holdings hd_id
  by unfold_locales simp_all

subsection \<open>Live-update events and the outcome of a handler\<close>

datatype event =
    Transaction_created pystr int
  | Transaction_patched pystr int "string list" bool
  | Transaction_bulk_deleted "pystr list"
  | Transaction_deleted pystr
  | Holding_created pystr int
  | Holding_patched pystr int "string list" bool
  | Holding_deleted pystr
  | Legacy_owner_remapped pystr pystr int int
  | Member_disconnected pystr

text \<open>
  A handler answers with an error or a value, the committed database and the events sent
  to a household's hub.  The session of a failed request is closed, so what it had not
  committed is lost: an error normally comes with the state the handler started from.
\<close>

type_synonym 'a outcome = "(http_error + 'a) \<times> db \<times> (pystr \<times> event) list"

definition fail :: "db \<Rightarrow> http_error \<Rightarrow> 'a outcome" where
  "fail d e = (Inl e, d, [])"

definition done_with :: "db \<Rightarrow> (pystr \<times> event) list \<Rightarrow> 'a \<Rightarrow> 'a outcome" where
  "done_with d evs x = (Inr x, d, evs)"

definition outcome_db :: "'a outcome \<Rightarrow> db" where
  "outcome_db out = fst (snd out)"

definition outcome_events :: "'a outcome \<Rightarrow> (pystr \<times> event) list" where
  "outcome_events out = snd (snd out)"

lemma outcome_simps [simp]:
  "outcome_db (fail d e) = d" "outcome_events (fail d e) = []"
  "outcome_db (done_with d evs x) = d" "outcome_events (done_with d evs x) = evs"
  "fst (fail d e) = Inl e" "fst (done_with d evs x) = Inr x"
  by (simp_all add: fail_def done_with_def outcome_db_def outcome_events_def)

lemma outcome_eq_simps [simp]:
  "fail d e = (r, d', evs) \<longleftrightarrow> r = Inl e \<and> d' = d \<and> evs = []"
  "done_with d evs x = (r, d', evs') \<longleftrightarrow> r = Inr x \<and> d' = d \<and> evs' = evs"
  "done_with d evs x = done_with d' evs' x' \<longleftrightarrow> d = d' \<and> evs = evs' \<and> x = x'"
  by (auto simp: fail_def done_with_def)

text \<open>
  What a request takes from outside the database: the clock of the process and that of the
  database (\<open>func.now()\<close>), the identifier \<open>_uuid()\<close> gives a new row, the text functions of the
  database engine (\<open>lower\<close>, \<open>upper\<close> and \<open>trim\<close> of SQL), the keyed hash of opaque tokens and
  the settings of \<open>core/config.py\<close> the handlers read.
\<close>

record env =
  ev_now :: instant
  ev_db_now :: instant
  ev_new_id :: pystr
  ev_sql_lower :: "pystr \<Rightarrow> pystr"
  ev_sql_upper :: "pystr \<Rightarrow> pystr"
  ev_sql_trim :: "pystr \<Rightarrow> pystr"
  ev_hash_token :: "pystr \<Rightarrow> pystr"
  ev_invite_window_seconds :: int
  ev_invite_max_attempts :: int
  ev_invite_token_hours :: int
  ev_blocks_email_failures :: bool

text \<open>The household and membership a guarded handler runs for.\<close>

type_synonym ctx = "household \<times> household_member"

end
