(* ===== verification/Merge.thy ===== *)
theory Merge
  imports MF_Models
begin

text \<open>
  \<open>backend/app/services/merge.py\<close>: optimistic merging of a patch against the version the
  client read.  A patch is a list of typed field updates; \<open>entity_ops\<close> gathers what the
  routine does with an entity through \<open>getattr\<close> and \<open>setattr\<close>.  The locale \<open>patchable\<close>
  states the laws of field access; inside it the merge is shown to set exactly the changed
  fields, to raise the version by one, and never to overwrite a field another patch has
  changed since the version the client read.
\<close>

subsection \<open>Entities and updates\<close>

text \<open>
  \<open>op_key u\<close> is the name of the field the update \<open>u\<close> sets, \<open>op_same u e\<close> the comparison
  \<open>getattr(entity, key) == value\<close> and \<open>op_set u e\<close> the call \<open>setattr(entity, key, value)\<close>.
\<close>

record ('u, 'e) entity_ops =
  op_type :: string
  op_key :: "'u \<Rightarrow> string"
  op_same :: "'u \<Rightarrow> 'e \<Rightarrow> bool"
  op_set :: "'u \<Rightarrow> 'e \<Rightarrow> 'e"
  op_id :: "'e \<Rightarrow> pystr"
  op_version :: "'e \<Rightarrow> int"
  op_set_version :: "int \<Rightarrow> 'e \<Rightarrow> 'e"

definition apply_updates :: "('u, 'e) entity_ops \<Rightarrow> 'u list \<Rightarrow> 'e \<Rightarrow> 'e" where
  "apply_updates ops us e = fold (op_set ops) us e"

subsection \<open>The routine\<close>

text \<open>The rows of the patch log an entity's merge reads.\<close>

definition logs_since :: "patch_log list \<Rightarrow> string \<Rightarrow> pystr \<Rightarrow> int \<Rightarrow> patch_log list" where
  "logs_since logs entity_type entity_id base_version =
     filter (\<lambda>r. pl_entity_type r = entity_type \<and> pl_entity_id r = entity_id
                 \<and> base_version < pl_resulting_version r) logs"

definition changed_fields_since ::
  "patch_log list \<Rightarrow> string \<Rightarrow> pystr \<Rightarrow> int \<Rightarrow> string list \<times> int list" where
  "changed_fields_since logs entity_type entity_id base_version =
     (let rows = logs_since logs entity_type entity_id base_version
      in (concat (map pl_changed_fields rows), map pl_resulting_version rows))"

definition effective_patch :: "('u, 'e) entity_ops \<Rightarrow> 'e \<Rightarrow> 'u list \<Rightarrow> 'u list" where
  "effective_patch ops e patch_data = filter (\<lambda>u. \<not> op_same ops u e) patch_data"

text \<open>The value is \<open>(merged, patch_fields)\<close>, the changed entity and the rows added to the log.\<close>

definition merge_patch_or_raise ::
  "('u, 'e) entity_ops \<Rightarrow> patch_log list \<Rightarrow> 'e \<Rightarrow> pystr \<Rightarrow> pystr option \<Rightarrow> int \<Rightarrow> 'u list
   \<Rightarrow> http_error + (bool \<times> string list \<times> 'e \<times> patch_log list)" where
  "merge_patch_or_raise ops logs entity household_id actor_user_id base_version patch_data =
     (let current_version = op_version ops entity;
          effective = effective_patch ops entity patch_data;
          patch_fields = sort (map (op_key ops) effective);
          conflict = (\<lambda>flds. Inl (PatchConflict (op_type ops) (op_id ops entity) current_version flds));
          accept = (\<lambda>merged.
            Inr (merged, patch_fields,
                 op_set_version ops (current_version + 1) (apply_updates ops effective entity),
                 [\<lparr>pl_household_id = household_id, pl_entity_type = op_type ops,
                    pl_entity_id = op_id ops entity, pl_base_version = base_version,
                    pl_resulting_version = current_version + 1, pl_changed_fields = patch_fields,
                    pl_merged = merged, pl_conflict_fields = [], pl_actor_user_id = actor_user_id\<rparr>]))
      in if patch_fields = [] then Inr (False, [], entity, [])
         else if base_version < current_version then
           (let (changed, covered) =
                  changed_fields_since logs (op_type ops) (op_id ops entity) base_version;
                missing_versions = filter (\<lambda>v. v \<notin> set covered) [base_version + 1..current_version];
                conflict_fields = sort (filter (\<lambda>f. f \<in> set changed) patch_fields)
            in if missing_versions \<noteq> [] then conflict patch_fields
               else if conflict_fields \<noteq> [] then conflict conflict_fields
               else accept True)
         else if base_version > current_version then conflict patch_fields
         else accept False)"

text \<open>
  A client's request against the stored entity: a conflict leaves everything as it is
  (the handler answers 409 without committing), a success is committed with its log row.
\<close>

type_synonym 'u patch_request = "pystr \<times> pystr option \<times> int \<times> 'u list"

fun merge_request ::
  "('u, 'e) entity_ops \<Rightarrow> patch_log list \<times> 'e \<Rightarrow> 'u patch_request \<Rightarrow> patch_log list \<times> 'e" where
  "merge_request ops (logs, e) (hh, actor, base, patch) =
     (case merge_patch_or_raise ops logs e hh actor base patch of
        Inl _ \<Rightarrow> (logs, e)
      | Inr (_, _, e', new) \<Rightarrow> (logs @ new, e'))"

definition merge_run ::
  "('u, 'e) entity_ops \<Rightarrow> patch_log list \<times> 'e \<Rightarrow> 'u patch_request list \<Rightarrow> patch_log list \<times> 'e" where
  "merge_run ops s reqs = foldl (merge_request ops) s reqs"

text \<open>Every log row of the entity belongs to a version it has already reached.\<close>

definition logs_up_to_date :: "('u, 'e) entity_ops \<Rightarrow> patch_log list \<Rightarrow> 'e \<Rightarrow> bool" where
  "logs_up_to_date ops logs e \<longleftrightarrow> logs_since logs (op_type ops) (op_id ops e) (op_version ops e) = []"

subsection \<open>The shape of the result\<close>

lemma merge_noop:
  "effective_patch ops e us = [] \<Longrightarrow>
   merge_patch_or_raise ops logs e hh actor base us = Inr (False, [], e, [])"
  by (simp add: merge_patch_or_raise_def Let_def)

lemma sort_eq_Nil_iff: "sort xs = [] \<longleftrightarrow> xs = []"
  by (metis set_empty set_sort)

lemma merge_okE:
  assumes "merge_patch_or_raise ops logs e hh actor base us = Inr (merged, flds, e', new)"
  obtains (noop) "effective_patch ops e us = []" "\<not> merged" "flds = []" "e' = e" "new = []"
    | (accepted) "effective_patch ops e us \<noteq> []"
        "flds = sort (map (op_key ops) (effective_patch ops e us))"
        "e' = op_set_version ops (op_version ops e + 1) (apply_updates ops (effective_patch ops e us) e)"
        "new = [\<lparr>pl_household_id = hh, pl_entity_type = op_type ops, pl_entity_id = op_id ops e,
           pl_base_version = base, pl_resulting_version = op_version ops e + 1,
           pl_changed_fields = flds, pl_merged = merged, pl_conflict_fields = [],
           pl_actor_user_id = actor\<rparr>]"
        "base \<le> op_version ops e" "merged \<longleftrightarrow> base < op_version ops e"
        "base < op_version ops e \<Longrightarrow>
           (\<forall>v. base < v \<longrightarrow> v \<le> op_version ops e \<longrightarrow>
              v \<in> set (snd (changed_fields_since logs (op_type ops) (op_id ops e) base)))
           \<and> (\<forall>f \<in> set flds.
              f \<notin> set (fst (changed_fields_since logs (op_type ops) (op_id ops e) base)))"
proof (cases "effective_patch ops e us = []")
  case True
  with assms show ?thesis
    by (intro noop) (simp_all add: merge_noop)
next
  case False
  then have nz: "sort (map (op_key ops) (effective_patch ops e us)) \<noteq> []"
    by (simp add: sort_eq_Nil_iff)
  obtain changed covered where
    cc: "changed_fields_since logs (op_type ops) (op_id ops e) base = (changed, covered)"
    by force
  from assms show ?thesis
    unfolding merge_patch_or_raise_def Let_def cc
    using False nz
    by (intro accepted)
      (auto simp: cc sort_eq_Nil_iff filter_empty_conv split: if_splits)
qed

lemma merge_conflict_iff:
  assumes "base = op_version ops e"
  shows "\<not> (\<exists>x. merge_patch_or_raise ops logs e hh actor base us = Inl x)"
  using assms by (auto simp: merge_patch_or_raise_def Let_def)

lemma merge_stale:
  assumes "base \<le> op_version ops e"
    and "\<forall>v. base < v \<longrightarrow> v \<le> op_version ops e \<longrightarrow>
           v \<in> set (snd (changed_fields_since logs (op_type ops) (op_id ops e) base))"
    and "\<forall>u \<in> set us. \<not> op_same ops u e \<longrightarrow>
           op_key ops u \<notin> set (fst (changed_fields_since logs (op_type ops) (op_id ops e) base))"
  shows "\<exists>m f new. merge_patch_or_raise ops logs e hh actor base us =
           Inr (m, f, if effective_patch ops e us = [] then e
             else op_set_version ops (op_version ops e + 1) (apply_updates ops (effective_patch ops e us) e),
             new)"
proof -
  obtain changed covered where
    cc: "changed_fields_since logs (op_type ops) (op_id ops e) base = (changed, covered)"
    by force
  have 1: "filter (\<lambda>v. v \<notin> set covered) [base + 1..op_version ops e] = []"
    using assms(2) cc by (auto simp: filter_empty_conv)
  have 2: "filter (\<lambda>f. f \<in> set changed) (sort (map (op_key ops) (effective_patch ops e us))) = []"
    using assms(3) cc by (auto simp: filter_empty_conv effective_patch_def)
  show ?thesis
    unfolding merge_patch_or_raise_def Let_def cc
    using assms(1) 1 2 by (simp add: sort_eq_Nil_iff) blast
qed

subsection \<open>The laws of field access\<close>

locale patchable =
  fixes ops :: "('u, 'e) entity_ops"
  assumes same_set: "op_same ops u (op_set ops u e)"
    and same_set_other: "op_key ops u \<noteq> op_key ops v \<Longrightarrow> op_same ops u (op_set ops v e) = op_same ops u e"
    and set_commute: "op_key ops u \<noteq> op_key ops v \<Longrightarrow>
          op_set ops u (op_set ops v e) = op_set ops v (op_set ops u e)"
    and set_same: "op_same ops u e \<Longrightarrow> op_set ops u e = e"
    and version_set: "op_version ops (op_set ops u e) = op_version ops e"
    and id_set: "op_id ops (op_set ops u e) = op_id ops e"
    and version_version: "op_version ops (op_set_version ops n e) = n"
    and id_version: "op_id ops (op_set_version ops n e) = op_id ops e"
    and same_version: "op_same ops u (op_set_version ops n e) = op_same ops u e"
    and set_version: "op_set ops u (op_set_version ops n e) = op_set_version ops n (op_set ops u e)"
    and version_twice: "op_set_version ops n (op_set_version ops m e) = op_set_version ops n e"
begin

lemma same_apply:
  "op_key ops w \<notin> op_key ops ` set us \<Longrightarrow> op_same ops w (apply_updates ops us e) = op_same ops w e"
  by (induction us arbitrary: e) (auto simp: apply_updates_def same_set_other)

lemma same_apply_in:
  "distinct (map (op_key ops) us) \<Longrightarrow> u \<in> set us \<Longrightarrow> op_same ops u (apply_updates ops us e)"
proof (induction us arbitrary: e)
  case (Cons v us)
  show ?case
  proof (cases "u = v")
    case True
    with Cons.prems(1) have "op_key ops u \<notin> op_key ops ` set us" by auto
    then have "op_same ops u (apply_updates ops us (op_set ops v e)) = op_same ops u (op_set ops v e)"
      by (rule same_apply)
    with True show ?thesis by (simp add: apply_updates_def same_set)
  next
    case False
    with Cons show ?thesis by (simp add: apply_updates_def)
  qed
qed simp

lemma version_apply: "op_version ops (apply_updates ops us e) = op_version ops e"
  by (induction us arbitrary: e) (simp_all add: apply_updates_def version_set)

lemma id_apply: "op_id ops (apply_updates ops us e) = op_id ops e"
  by (induction us arbitrary: e) (simp_all add: apply_updates_def id_set)

lemma set_apply_commute:
  "op_key ops u \<notin> op_key ops ` set us \<Longrightarrow>
   op_set ops u (apply_updates ops us e) = apply_updates ops us (op_set ops u e)"
proof (induction us arbitrary: e)
  case (Cons v us)
  then have "op_key ops u \<noteq> op_key ops v" by auto
  with Cons show ?case by (simp add: apply_updates_def set_commute)
qed (simp add: apply_updates_def)

lemma apply_commute:
  "op_key ops ` set us \<inter> op_key ops ` set vs = {} \<Longrightarrow>
   apply_updates ops us (apply_updates ops vs e) = apply_updates ops vs (apply_updates ops us e)"
proof (induction us arbitrary: e)
  case (Cons u us)
  then have u: "op_key ops u \<notin> op_key ops ` set vs" by auto
  show ?case
    using Cons by (simp add: apply_updates_def set_apply_commute [OF u, unfolded apply_updates_def])
qed (simp add: apply_updates_def)

lemma apply_version:
  "apply_updates ops us (op_set_version ops n e) = op_set_version ops n (apply_updates ops us e)"
  by (induction us arbitrary: e) (simp_all add: apply_updates_def set_version)

lemma set_effective: "set (effective_patch ops e us) = {u \<in> set us. \<not> op_same ops u e}"
  by (simp add: effective_patch_def)

lemma distinct_effective:
  "distinct (map (op_key ops) us) \<Longrightarrow> distinct (map (op_key ops) (effective_patch ops e us))"
  by (simp add: effective_patch_def distinct_map_filter)

lemma merge_sets:
  assumes "merge_patch_or_raise ops logs e hh actor base us = Inr (merged, flds, e', new)"
    and "distinct (map (op_key ops) us)" and "u \<in> set us"
  shows "op_same ops u e'"
  using assms(1)
proof (cases rule: merge_okE)
  case noop
  with assms(3) show ?thesis by (auto simp: effective_patch_def filter_empty_conv)
next
  case accepted
  show ?thesis
  proof (cases "op_same ops u e")
    case True
    have "op_key ops u \<notin> op_key ops ` set (effective_patch ops e us)"
      using True assms(2,3) by (auto simp: set_effective distinct_map inj_on_def)
    with accepted True show ?thesis by (simp add: same_version same_apply)
  next
    case False
    with assms(3) have "u \<in> set (effective_patch ops e us)" by (simp add: set_effective)
    with accepted show ?thesis
      by (simp add: same_version same_apply_in distinct_effective assms(2))
  qed
qed

lemma merge_keeps:
  assumes "merge_patch_or_raise ops logs e hh actor base us = Inr (merged, flds, e', new)"
    and "op_key ops w \<notin> set flds"
  shows "op_same ops w e' = op_same ops w e"
  using assms(1)
proof (cases rule: merge_okE)
  case accepted
  with assms(2) have "op_key ops w \<notin> op_key ops ` set (effective_patch ops e us)" by simp
  with accepted show ?thesis by (simp add: same_version same_apply)
qed simp

lemma merge_version:
  assumes "merge_patch_or_raise ops logs e hh actor base us = Inr (merged, flds, e', new)"
  shows "op_version ops e' = (if flds = [] then op_version ops e else op_version ops e + 1)"
    and "op_id ops e' = op_id ops e"
    and "flds = [] \<longleftrightarrow> new = []"
    and "flds = [] \<Longrightarrow> e' = e"
  using assms
  by (cases rule: merge_okE; simp add: version_version id_version id_apply sort_eq_Nil_iff)+

text \<open>
  What a run of requests keeps true about the version \<open>base\<close> at which a client read \<open>e0\<close>:
  every later version has its log row, and a field no such row names has its old value.
\<close>

definition since :: "int \<Rightarrow> 'e \<Rightarrow> patch_log list \<Rightarrow> 'e \<Rightarrow> bool" where
  "since base e0 logs e \<longleftrightarrow>
     op_id ops e = op_id ops e0 \<and> base \<le> op_version ops e \<and>
     logs_up_to_date ops logs e \<and>
     (\<forall>v. base < v \<longrightarrow> v \<le> op_version ops e \<longrightarrow>
        v \<in> set (snd (changed_fields_since logs (op_type ops) (op_id ops e) base))) \<and>
     (\<forall>w. op_key ops w \<notin> set (fst (changed_fields_since logs (op_type ops) (op_id ops e) base)) \<longrightarrow>
        op_same ops w e = op_same ops w e0)"

lemma since_refl: "logs_up_to_date ops logs e \<Longrightarrow> since (op_version ops e) e logs e"
  by (simp add: since_def)

lemma since_covered:
  "since base e0 logs e \<Longrightarrow> base < v \<Longrightarrow> v \<le> op_version ops e \<Longrightarrow>
   v \<in> set (snd (changed_fields_since logs (op_type ops) (op_id ops e) base))"
  unfolding since_def by blast

lemma since_same:
  "since base e0 logs e \<Longrightarrow>
   op_key ops w \<notin> set (fst (changed_fields_since logs (op_type ops) (op_id ops e) base)) \<Longrightarrow>
   op_same ops w e = op_same ops w e0"
  unfolding since_def by blast

lemma since_fresh_logs:
  "since base e0 logs e \<Longrightarrow> logs_since logs (op_type ops) (op_id ops e) (op_version ops e) = []"
  unfolding since_def logs_up_to_date_def by blast

lemma since_fresh:
  "since base e0 logs e \<Longrightarrow>
   changed_fields_since logs (op_type ops) (op_id ops e) (op_version ops e) = ([], [])"
  by (drule since_fresh_logs) (simp add: changed_fields_since_def)

lemma since_request:
  assumes "since base e0 logs e"
    and "merge_request ops (logs, e) (hh, actor, b, us) = (logs', e')"
  shows "since base e0 logs' e'"
proof (cases "merge_patch_or_raise ops logs e hh actor b us")
  case (Inl err)
  with assms show ?thesis by simp
next
  case (Inr res)
  obtain merged flds e'' new where res: "res = (merged, flds, e'', new)" by (cases res)
  with Inr assms(2) have e': "e'' = e'" "logs' = logs @ new" by auto
  note ok = Inr [unfolded res e']
  show ?thesis
  proof (cases "flds = []")
    case True
    with merge_version [OF ok] assms(1) e' show ?thesis by simp
  next
    case False
    from ok False have new: "new = [\<lparr>pl_household_id = hh, pl_entity_type = op_type ops,
        pl_entity_id = op_id ops e, pl_base_version = b, pl_resulting_version = op_version ops e + 1,
        pl_changed_fields = flds, pl_merged = merged, pl_conflict_fields = [],
        pl_actor_user_id = actor\<rparr>]"
      by (cases rule: merge_okE) simp_all
    have up: "logs_since logs (op_type ops) (op_id ops e) (op_version ops e) = []"
      by (rule since_fresh_logs [OF assms(1)])
    have "logs_since logs (op_type ops) (op_id ops e) (op_version ops e + 1) = []"
      using up by (auto simp: logs_since_def filter_empty_conv)
    then have logs': "logs_up_to_date ops logs' e'"
      using merge_version [OF ok] False e' new
      by (simp add: logs_up_to_date_def logs_since_def)
    have ext: "changed_fields_since logs' (op_type ops) (op_id ops e) base =
        (fst (changed_fields_since logs (op_type ops) (op_id ops e) base) @ flds,
         snd (changed_fields_since logs (op_type ops) (op_id ops e) base) @ [op_version ops e + 1])"
      using new e' assms(1) by (simp add: changed_fields_since_def logs_since_def Let_def since_def)
    have id: "op_id ops e' = op_id ops e" and ver: "op_version ops e' = op_version ops e + 1"
      using merge_version [OF ok] False by simp_all
    show ?thesis
      unfolding since_def id ver ext
    proof (intro conjI allI impI)
      show "op_id ops e = op_id ops e0" "base \<le> op_version ops e + 1"
        using assms(1) by (simp_all add: since_def)
      show "logs_up_to_date ops logs' e'" by (rule logs')
      show "v \<in> set (snd (fst (changed_fields_since logs (op_type ops) (op_id ops e) base) @ flds,
          snd (changed_fields_since logs (op_type ops) (op_id ops e) base) @ [op_version ops e + 1]))"
        if "base < v" "v \<le> op_version ops e + 1" for v
        using that since_covered [OF assms(1), of v] by (cases "v = op_version ops e + 1") simp_all
      show "op_same ops w e' = op_same ops w e0"
        if "op_key ops w \<notin> set (fst (fst (changed_fields_since logs (op_type ops) (op_id ops e) base) @ flds,
          snd (changed_fields_since logs (op_type ops) (op_id ops e) base) @ [op_version ops e + 1]))" for w
        using that since_same [OF assms(1), of w] merge_keeps [OF ok, of w] by simp
    qed
  qed
qed

lemma since_run:
  "since base e0 logs e \<Longrightarrow> merge_run ops (logs, e) reqs = (logs', e') \<Longrightarrow> since base e0 logs' e'"
proof (induction reqs arbitrary: logs e)
  case Nil
  then show ?case by (simp add: merge_run_def)
next
  case (Cons r reqs)
  obtain hh actor b us where r: "r = (hh, actor, b, us)" by (cases r)
  obtain logs1 e1 where 1: "merge_request ops (logs, e) r = (logs1, e1)" by force
  have "since base e0 logs1 e1"
    using since_request [OF Cons.prems(1)] 1 r by blast
  moreover have "merge_run ops (logs1, e1) reqs = (logs', e')"
    using Cons.prems(2) 1 by (simp add: merge_run_def)
  ultimately show ?case by (rule Cons.IH)
qed

text \<open>A field an accepted stale patch writes still has the value the client read.\<close>

lemma no_silent_overwrite:
  assumes "logs_up_to_date ops logs0 e0"
    and run: "merge_run ops (logs0, e0) reqs = (logs1, e1)"
    and ok: "merge_patch_or_raise ops logs1 e1 hh actor (op_version ops e0) us = Inr (merged, flds, e2, new)"
    and w: "op_key ops w \<in> set flds"
  shows "op_same ops w e1 = op_same ops w e0"
proof -
  have inv: "since (op_version ops e0) e0 logs1 e1"
    by (rule since_run [OF since_refl [OF assms(1)] run])
  from ok show ?thesis
  proof (cases rule: merge_okE)
    case noop
    with w show ?thesis by simp
  next
    case accepted
    have "op_key ops w \<notin>
        set (fst (changed_fields_since logs1 (op_type ops) (op_id ops e1) (op_version ops e0)))"
    proof (cases "op_version ops e0 < op_version ops e1")
      case True
      with accepted w show ?thesis by blast
    next
      case False
      with inv have "op_version ops e0 = op_version ops e1" by (simp add: since_def)
      with since_fresh [OF inv] show ?thesis by simp
    qed
    with inv show ?thesis by (simp add: since_def)
  qed
qed

text \<open>
  A stale patch is refused exactly when it changes a field that a patch accepted in the
  meantime has changed.
\<close>

lemma stale_accepted_iff:
  assumes "logs_up_to_date ops logs0 e0"
    and run: "merge_run ops (logs0, e0) reqs = (logs1, e1)"
  shows "(\<exists>res. merge_patch_or_raise ops logs1 e1 hh actor (op_version ops e0) us = Inr res) \<longleftrightarrow>
    (\<forall>u \<in> set us. op_same ops u e1 \<or> op_key ops u \<notin>
       set (fst (changed_fields_since logs1 (op_type ops) (op_id ops e1) (op_version ops e0))))"
    (is "?ok \<longleftrightarrow> ?disj")
proof -
  have inv: "since (op_version ops e0) e0 logs1 e1"
    by (rule since_run [OF since_refl [OF assms(1)] run])
  show ?thesis
  proof
    assume ?ok
    then obtain merged flds e2 new where
      ok: "merge_patch_or_raise ops logs1 e1 hh actor (op_version ops e0) us = Inr (merged, flds, e2, new)"
      by (metis prod.exhaust)
    from ok show ?disj
    proof (cases rule: merge_okE)
      case noop
      then show ?thesis by (auto simp: effective_patch_def filter_empty_conv)
    next
      case accepted
      show ?thesis
      proof (cases "op_version ops e0 < op_version ops e1")
        case True
        with accepted show ?thesis by (auto simp: effective_patch_def)
      next
        case False
        with inv have "op_version ops e0 = op_version ops e1" by (simp add: since_def)
        with since_fresh [OF inv] show ?thesis by simp
      qed
    qed
  next
    assume ?disj
    with inv have "\<exists>m f new. merge_patch_or_raise ops logs1 e1 hh actor (op_version ops e0) us =
           Inr (m, f, if effective_patch ops e1 us = [] then e1
             else op_set_version ops (op_version ops e1 + 1)
               (apply_updates ops (effective_patch ops e1 us) e1), new)"
      by (intro merge_stale) (auto simp: since_def)
    then show ?ok by blast
  qed
qed

end

end
