(* ===== verification/Profile.thy ===== *)
theory Profile
  imports MF_Models
begin

text \<open>
  \<open>backend/app/services/profile.py\<close>: normalisation of optional text, the display name
  of a user, the row colours of a household and its holding settings.  Untyped JSON
  payloads are the datatype \<open>json\<close>; \<open>str()\<close> of a JSON value that is not a string is the
  parameter \<open>rp\<close>.  The lemmas show the normal forms the rest of the service relies on.
\<close>

subsection \<open>JSON values\<close>

fun py_truthy :: "json \<Rightarrow> bool" where
  "py_truthy JNull = False"
| "py_truthy (JBool b) = b"
| "py_truthy (JInt n) = (n \<noteq> 0)"
| "py_truthy (JFloat r) = (r \<noteq> 0)"
| "py_truthy (JStr s) = (s \<noteq> [])"
| "py_truthy (JList xs) = (xs \<noteq> [])"
| "py_truthy (JObj kvs) = (kvs \<noteq> [])"

text \<open>\<open>str(value or "")\<close>.\<close>

definition str_or_empty :: "(json \<Rightarrow> pystr) \<Rightarrow> json \<Rightarrow> pystr" where
  "str_or_empty rp v = (if py_truthy v then (case v of JStr s \<Rightarrow> s | _ \<Rightarrow> rp v) else [])"

text \<open>\<open>d.get(key)\<close> with \<open>None\<close> for a missing key.\<close>

definition json_get :: "(pystr \<times> json) list \<Rightarrow> pystr \<Rightarrow> json" where
  "json_get kvs k = (case map_of kvs k of Some v \<Rightarrow> v | None \<Rightarrow> JNull)"

definition json_get_bool :: "(pystr \<times> json) list \<Rightarrow> pystr \<Rightarrow> bool \<Rightarrow> bool" where
  "json_get_bool kvs k dflt = (case map_of kvs k of Some v \<Rightarrow> py_truthy v | None \<Rightarrow> dflt)"

text \<open>\<open>int(value)\<close> on a JSON value; \<open>None\<close> is its exception.\<close>

definition digit_cp :: "int \<Rightarrow> bool" where
  "digit_cp c \<longleftrightarrow> 48 \<le> c \<and> c \<le> 57"

fun int_digits :: "int \<Rightarrow> pystr \<Rightarrow> int option" where
  "int_digits acc [] = Some acc"
| "int_digits acc (c # cs) =
     (if digit_cp c then int_digits (acc * 10 + (c - 48)) cs
      else if c = 95 then
        (case cs of d # ds \<Rightarrow> if digit_cp d then int_digits acc cs else None | [] \<Rightarrow> None)
      else None)"

definition int_of_str :: "pystr \<Rightarrow> int option" where
  "int_of_str s =
     (let t = py_strip s;
          (sg, ds) = (case t of c # cs \<Rightarrow> if c = 43 then (1, cs) else if c = 45 then (-1, cs) else (1, t)
                      | [] \<Rightarrow> (1 :: int, []))
      in case ds of d # _ \<Rightarrow> if digit_cp d then map_option ((*) sg) (int_digits 0 ds) else None
         | [] \<Rightarrow> None)"

fun json_int :: "json \<Rightarrow> int option" where
  "json_int (JInt n) = Some n"
| "json_int (JBool b) = Some (if b then 1 else 0)"
| "json_int (JFloat r) = Some (if 0 \<le> r then \<lfloor>r\<rfloor> else \<lceil>r\<rceil>)"
| "json_int (JStr s) = int_of_str s"
| "json_int _ = None"

text \<open>Assigning to a key of a dictionary keeps the position of an existing key.\<close>

fun dict_put :: "'k \<Rightarrow> 'v \<Rightarrow> ('k \<times> 'v) list \<Rightarrow> ('k \<times> 'v) list" where
  "dict_put k v [] = [(k, v)]"
| "dict_put k v ((k', v') # kvs) = (if k' = k then (k, v) # kvs else (k', v') # dict_put k v kvs)"

lemma map_of_dict_put: "map_of (dict_put k v kvs) = (map_of kvs)(k \<mapsto> v)"
  by (induction kvs) auto

lemma keys_dict_put: "fst ` set (dict_put k v kvs) = insert k (fst ` set kvs)"
  by (induction k v kvs rule: dict_put.induct) (simp_all add: insert_commute)

lemma distinct_dict_put: "distinct (map fst kvs) \<Longrightarrow> distinct (map fst (dict_put k v kvs))"
proof (induction k v kvs rule: dict_put.induct)
  case (2 k v k' v' kvs)
  then show ?case
    by (auto simp: keys_dict_put)
qed simp

lemma set_dict_put: "set (dict_put k v kvs) \<subseteq> insert (k, v) (set kvs)"
  by (induction kvs) (auto split: if_splits)

lemma dict_put_fresh: "k \<notin> fst ` set kvs \<Longrightarrow> dict_put k v kvs = kvs @ [(k, v)]"
  by (induction kvs) auto

subsection \<open>Optional text and display names\<close>

definition normalize_optional_text :: "pystr option \<Rightarrow> pystr option" where
  "normalize_optional_text v =
     (let t = py_strip (case v of Some s \<Rightarrow> s | None \<Rightarrow> []) in if t = [] then None else Some t)"

lemma normalize_optional_text_None [simp]: "normalize_optional_text None = None"
  by (simp add: normalize_optional_text_def)

lemma normalize_optional_text_SomeD:
  "normalize_optional_text v = Some t \<Longrightarrow> t \<noteq> [] \<and> py_strip t = t"
  by (auto simp: normalize_optional_text_def Let_def split: if_splits)

lemma normalize_optional_text_idem [simp]:
  "normalize_optional_text (normalize_optional_text v) = normalize_optional_text v"
  by (auto simp: normalize_optional_text_def Let_def)

lemma normalize_optional_text_stripped:
  "py_strip t = t \<Longrightarrow> t \<noteq> [] \<Longrightarrow> normalize_optional_text (Some t) = Some t"
  by (simp add: normalize_optional_text_def)

definition normalize_display_name_mode :: "pystr option \<Rightarrow> pystr" where
  "normalize_display_name_mode v =
     (let t = py_strip (case v of Some s \<Rightarrow> s | None \<Rightarrow> [])
      in if t \<in> {lit (mode_value Mode_real_name), lit (mode_value Mode_nickname)} then t
         else lit (mode_value Mode_real_name))"

definition resolve_display_name ::
  "pystr option \<Rightarrow> pystr option \<Rightarrow> pystr option \<Rightarrow> pystr option \<Rightarrow> pystr" where
  "resolve_display_name real_name nickname mode fallback =
     (let r = normalize_optional_text real_name;
          n = normalize_optional_text nickname;
          m = normalize_display_name_mode mode
      in if m = lit (mode_value Mode_nickname) \<and> n \<noteq> None then the n
         else case r of Some t \<Rightarrow> t
              | None \<Rightarrow> (case n of Some t \<Rightarrow> t
                 | None \<Rightarrow> (case normalize_optional_text fallback of Some t \<Rightarrow> t | None \<Rightarrow> [])))"

definition sync_user_display_name :: "user \<Rightarrow> user" where
  "sync_user_display_name u =
     (let r = normalize_optional_text (us_real_name u);
          n = normalize_optional_text (us_nickname u);
          m = normalize_display_name_mode (Some (us_display_name_mode u))
      in u\<lparr>us_real_name := r, us_nickname := n, us_display_name_mode := m,
           us_display_name := resolve_display_name r n (Some m) (Some (us_display_name u))\<rparr>)"

definition effective_user_real_name :: "user \<Rightarrow> pystr option" where
  "effective_user_real_name u =
     (case normalize_optional_text (us_real_name u) of
        Some t \<Rightarrow> Some t
      | None \<Rightarrow> normalize_optional_text (Some (us_display_name u)))"

lemma normalize_display_name_mode_values:
  "normalize_display_name_mode v \<in> {lit (mode_value Mode_real_name), lit (mode_value Mode_nickname)}"
  by (auto simp: normalize_display_name_mode_def Let_def)

lemma normalize_display_name_mode_fix:
  "py_strip m = m \<Longrightarrow> m \<in> {lit (mode_value Mode_real_name), lit (mode_value Mode_nickname)} \<Longrightarrow>
   normalize_display_name_mode (Some m) = m"
  by (simp add: normalize_display_name_mode_def)

lemma mode_values_stripped:
  "py_strip (lit (mode_value m)) = lit (mode_value m)"
  by (cases m) (simp_all add: lit_def py_strip_def strip_by_def py_space_def)

lemma normalize_display_name_mode_idem:
  "normalize_display_name_mode (Some (normalize_display_name_mode v)) = normalize_display_name_mode v"
proof -
  obtain m where m: "normalize_display_name_mode v = lit (mode_value m)"
    using normalize_display_name_mode_values [of v] by blast
  have "lit (mode_value m) \<in> {lit (mode_value Mode_real_name), lit (mode_value Mode_nickname)}"
    by (cases m) simp_all
  then show ?thesis
    unfolding m by (rule normalize_display_name_mode_fix [OF mode_values_stripped])
qed

lemma resolve_display_name_stripped:
  "py_strip (resolve_display_name r n m f) = resolve_display_name r n m f"
  by (auto simp: resolve_display_name_def Let_def split: option.split
      dest: normalize_optional_text_SomeD)

lemma resolve_display_name_normalized:
  "resolve_display_name (normalize_optional_text r) (normalize_optional_text n) m f =
   resolve_display_name r n m f"
  by (simp add: resolve_display_name_def)

lemma resolve_display_name_keeps:
  "resolve_display_name r n m (Some (resolve_display_name r n m f)) = resolve_display_name r n m f"
  by (auto simp: resolve_display_name_def Let_def normalize_optional_text_stripped
      split: option.split dest: normalize_optional_text_SomeD)
     (simp add: normalize_optional_text_def)

text \<open>A second synchronisation changes nothing.\<close>

lemma sync_user_display_name_fixpoint:
  "sync_user_display_name (sync_user_display_name u) = sync_user_display_name u"
  by (simp add: sync_user_display_name_def Let_def normalize_display_name_mode_idem
      resolve_display_name_keeps)

subsection \<open>Row colours\<close>

definition hex_digit_cp :: "int \<Rightarrow> bool" where
  "hex_digit_cp c \<longleftrightarrow> digit_cp c \<or> (97 \<le> c \<and> c \<le> 102) \<or> (65 \<le> c \<and> c \<le> 70)"

text \<open>\<open>_HEX_COLOR_RE.fullmatch\<close>.\<close>

definition hex_color :: "pystr \<Rightarrow> bool" where
  "hex_color s \<longleftrightarrow> length s = 7 \<and> hd s = 35 \<and> list_all hex_digit_cp (tl s)"

definition default_transaction_row_colors :: "(pystr \<times> pystr) list" where
  "default_transaction_row_colors =
     [(lit ''income'', lit ''#edf9f0''), (lit ''expense'', lit ''#fff1f0''),
      (lit ''investment'', lit ''#eff4ff''), (lit ''transfer'', lit ''#fff7e8'')]"

definition flow_values :: "pystr list" where
  "flow_values = map (lit \<circ> flow_value) [Flow_income, Flow_expense, Flow_investment, Flow_transfer]"

fun merge_row_colors ::
  "(pystr \<times> pystr) list \<Rightarrow> (pystr \<times> pystr) list \<Rightarrow> (pystr \<times> pystr) list option" where
  "merge_row_colors merged [] = Some merged"
| "merge_row_colors merged ((raw_key, raw_color) # items) =
     (let key = py_lower (py_strip raw_key); color = py_strip raw_color
      in if key \<notin> set flow_values then None
         else if \<not> hex_color color then None
         else merge_row_colors (dict_put key (py_upper color) merged) items)"

text \<open>\<open>None\<close> is the \<open>ValueError\<close> of an unsupported key or an invalid colour.\<close>

definition normalize_transaction_row_colors ::
  "(pystr \<times> pystr) list option \<Rightarrow> (pystr \<times> pystr) list option" where
  "normalize_transaction_row_colors v =
     (case v of None \<Rightarrow> Some default_transaction_row_colors
      | Some items \<Rightarrow> merge_row_colors default_transaction_row_colors items)"

lemma merge_row_colors_keys:
  "merge_row_colors merged items = Some out \<Longrightarrow>
   fst ` set out = fst ` set merged \<union> (\<lambda>kv. py_lower (py_strip (fst kv))) ` set items
   \<and> (\<forall>kv \<in> set items. py_lower (py_strip (fst kv)) \<in> set flow_values)
   \<and> (\<forall>kv \<in> set items. hex_color (py_strip (snd kv)))"
proof (induction merged items arbitrary: out rule: merge_row_colors.induct)
  case (2 merged raw_key raw_color items)
  from 2(2) have "py_lower (py_strip raw_key) \<in> set flow_values" "hex_color (py_strip raw_color)"
    and "merge_row_colors
      (dict_put (py_lower (py_strip raw_key)) (py_upper (py_strip raw_color)) merged) items = Some out"
    by (auto simp: Let_def split: if_splits)
  with 2(1) [OF refl refl] show ?case by (auto simp: keys_dict_put)
qed simp

lemma default_colors_keys: "fst ` set default_transaction_row_colors = set flow_values"
  by code_simp

lemma normalized_row_colors_keys:
  assumes "normalize_transaction_row_colors v = Some out"
  shows "fst ` set out = set flow_values"
proof (cases v)
  case None
  with assms show ?thesis
    by (simp add: normalize_transaction_row_colors_def default_colors_keys [symmetric])
next
  case (Some items)
  with assms have m: "merge_row_colors default_transaction_row_colors items = Some out"
    by (simp add: normalize_transaction_row_colors_def)
  have "(\<lambda>kv. py_lower (py_strip (fst kv))) ` set items \<subseteq> set flow_values"
    using merge_row_colors_keys [OF m] by blast
  then show ?thesis
    using merge_row_colors_keys [OF m] unfolding default_colors_keys by blast
qed

end
