(* ===== verification/Owner_Links.thy ===== *)
theory Owner_Links
  imports Profile
begin

text \<open>
  \<open>backend/app/services/owner_links.py\<close>: the owner of a transaction or a holding is a
  member of the household (\<open>owner_user_id\<close>) or a bare legacy name.  Lookups of members,
  the key under which legacy names are compared, the uniqueness of display names in a
  household, the resolution of the owner fields of a payload and the back-fill of links.
\<close>

subsection \<open>Members of a household\<close>

definition get_household_member_user :: "db \<Rightarrow> pystr \<Rightarrow> pystr option \<Rightarrow> user option" where
  "get_household_member_user d household_id user_id =
     (case normalize_optional_text user_id of
        None \<Rightarrow> None
      | Some uid \<Rightarrow>
          find (\<lambda>u. us_id u = uid \<and>
                  (\<exists>m \<in> set (db_members d). mb_user_id m = us_id u \<and> mb_household_id m = household_id))
            (db_users d))"

definition require_household_member_user ::
  "db \<Rightarrow> pystr \<Rightarrow> pystr option \<Rightarrow> string \<Rightarrow> http_error + user" where
  "require_household_member_user d household_id user_id code =
     (case get_household_member_user d household_id user_id of
        Some u \<Rightarrow> Inr u
      | None \<Rightarrow> Inl (AppError 400 code))"

text \<open>A household knows a user when one of its memberships names the user.\<close>

definition is_member :: "db \<Rightarrow> pystr \<Rightarrow> pystr \<Rightarrow> bool" where
  "is_member d household_id user_id \<longleftrightarrow>
     (\<exists>m \<in> set (db_members d). mb_user_id m = user_id \<and> mb_household_id m = household_id)"

lemma get_household_member_user_SomeD:
  assumes "get_household_member_user d h uid = Some u"
  shows "u \<in> set (db_users d)" "is_member d h (us_id u)" "normalize_optional_text uid = Some (us_id u)"
  using assms
  by (auto simp: get_household_member_user_def is_member_def find_Some_iff split: option.splits)

subsection \<open>Legacy owner names\<close>

definition normalize_legacy_owner_name :: "pystr option \<Rightarrow> pystr option" where
  "normalize_legacy_owner_name v =
     (case normalize_optional_text v of
        None \<Rightarrow> None
      | Some t \<Rightarrow> (let c = join_with [32] (py_split t) in if c = [] then None else Some c))"

definition legacy_owner_name_key :: "pystr option \<Rightarrow> pystr" where
  "legacy_owner_name_key v =
     py_lower (case normalize_legacy_owner_name v of Some t \<Rightarrow> t | None \<Rightarrow> [])"

definition member_user_rows :: "db \<Rightarrow> pystr \<Rightarrow> user list" where
  "member_user_rows d household_id =
     map snd
       (sort_key (\<lambda>(m, u). (mb_created_at m, us_created_at u))
          (concat (map (\<lambda>m. map (Pair m) (filter (\<lambda>u. us_id u = mb_user_id m) (db_users d)))
             (filter (\<lambda>m. mb_household_id m = household_id) (db_members d)))))"

definition find_unique_household_member_by_display_name ::
  "db \<Rightarrow> pystr \<Rightarrow> pystr option \<Rightarrow> user option" where
  "find_unique_household_member_by_display_name d household_id display_name =
     (let owner_key = legacy_owner_name_key display_name
      in if owner_key = [] then None
         else (let matches = filter (\<lambda>u. legacy_owner_name_key (Some (us_display_name u)) = owner_key)
                               (member_user_rows d household_id)
               in if length matches \<noteq> 1 then None else Some (hd matches)))"

lemma set_member_user_rows:
  "set (member_user_rows d h) = {u \<in> set (db_users d). is_member d h (us_id u)}"
  by (force simp: member_user_rows_def is_member_def)

lemma find_unique_SomeD:
  assumes "find_unique_household_member_by_display_name d h name = Some u"
  shows "u \<in> set (db_users d)" "is_member d h (us_id u)"
    "legacy_owner_name_key (Some (us_display_name u)) = legacy_owner_name_key name"
    "v \<in> set (db_users d) \<Longrightarrow> is_member d h (us_id v) \<Longrightarrow>
     legacy_owner_name_key (Some (us_display_name v)) = legacy_owner_name_key name \<Longrightarrow> v = u"
proof -
  from assms obtain ms where
    ms: "ms = filter (\<lambda>u. legacy_owner_name_key (Some (us_display_name u)) = legacy_owner_name_key name)
               (member_user_rows d h)" and one: "length ms = 1" "u = hd ms"
    by (auto simp: find_unique_household_member_by_display_name_def Let_def split: if_splits)
  from one have "ms = [u]" by (cases ms) auto
  then have "set ms = {u}" by simp
  then have S: "{v \<in> set (db_users d). is_member d h (us_id v) \<and>
      legacy_owner_name_key (Some (us_display_name v)) = legacy_owner_name_key name} = {u}"
    unfolding ms by (auto simp: set_member_user_rows)
  show "u \<in> set (db_users d)" "is_member d h (us_id u)"
    "legacy_owner_name_key (Some (us_display_name u)) = legacy_owner_name_key name"
    using S by blast+
  show "v = u" if "v \<in> set (db_users d)" "is_member d h (us_id v)"
    "legacy_owner_name_key (Some (us_display_name v)) = legacy_owner_name_key name"
    using S that by blast
qed

subsection \<open>Unique display names\<close>

text \<open>\<open>None\<close> is the plain return, \<open>Some e\<close> the raised conflict.\<close>

definition ensure_unique_household_member_display_name ::
  "env \<Rightarrow> db \<Rightarrow> pystr \<Rightarrow> pystr option \<Rightarrow> pystr option \<Rightarrow> http_error option" where
  "ensure_unique_household_member_display_name ev d household_id user_id display_name =
     (case normalize_optional_text display_name of
        None \<Rightarrow> None
      | Some name \<Rightarrow>
          (if \<exists>u \<in> set (db_users d). is_member d household_id (us_id u)
                \<and> Some (us_id u) \<noteq> normalize_optional_text user_id
                \<and> ev_sql_lower ev (us_display_name u) = py_lower name
           then Some (AppError 409 ''HOUSEHOLD_MEMBER_DISPLAY_NAME_DUPLICATE'')
           else None))"

subsection \<open>Resolving the owner of a payload\<close>

definition resolve_owner_fields ::
  "db \<Rightarrow> pystr \<Rightarrow> pystr option \<Rightarrow> pystr option \<Rightarrow> string
   \<Rightarrow> http_error + (pystr option \<times> pystr option)" where
  "resolve_owner_fields d household_id owner_user_id owner_name invalid_code =
     (let normalized_owner_name = normalize_optional_text owner_name
      in if normalize_optional_text owner_user_id = None then Inr (None, normalized_owner_name)
         else case require_household_member_user d household_id owner_user_id invalid_code of
                Inl e \<Rightarrow> Inl e
              | Inr u \<Rightarrow> Inr (Some (us_id u), normalize_optional_text (Some (us_display_name u))))"

text \<open>What an accepted owner looks like: a bare normalised name, or a member with his display name.\<close>

definition owner_fields_ok :: "db \<Rightarrow> pystr \<Rightarrow> pystr option \<Rightarrow> pystr option \<Rightarrow> bool" where
  "owner_fields_ok d household_id uid name \<longleftrightarrow>
     normalize_optional_text name = name \<and>
     (case uid of None \<Rightarrow> True
      | Some i \<Rightarrow> (\<exists>u \<in> set (db_users d). us_id u = i \<and> is_member d household_id i
                    \<and> name = normalize_optional_text (Some (us_display_name u))))"

lemma resolve_owner_fields_ok:
  "resolve_owner_fields d h uid name code = Inr (uid', name') \<Longrightarrow> owner_fields_ok d h uid' name'"
  by (auto simp: resolve_owner_fields_def owner_fields_ok_def require_household_member_user_def Let_def
      split: if_splits option.splits sum.splits dest: get_household_member_user_SomeD)

lemma resolve_owner_fields_error:
  "resolve_owner_fields d h uid name code = Inl e \<longleftrightarrow>
   e = AppError 400 code \<and> normalize_optional_text uid \<noteq> None
   \<and> get_household_member_user d h uid = None"
  by (auto simp: resolve_owner_fields_def require_household_member_user_def Let_def
      split: if_splits option.splits sum.splits)

lemma resolve_owner_fields_idem:
  assumes uid: "\<And>u. u \<in> set (db_users d) \<Longrightarrow> py_strip (us_id u) = us_id u \<and> us_id u \<noteq> []"
    and uniq: "unique_keys us_id (db_users d)"
    and first: "resolve_owner_fields d h uid name code = Inr (uid', name')"
  shows "resolve_owner_fields d h uid' name' code = Inr (uid', name')"
proof (cases uid')
  case None
  with first have "normalize_optional_text name' = name'"
    by (auto simp: resolve_owner_fields_def Let_def split: if_splits sum.splits)
  with None show ?thesis by (simp add: resolve_owner_fields_def)
next
  case (Some i)
  with first obtain u where u: "u \<in> set (db_users d)" "us_id u = i" "is_member d h i"
    "name' = normalize_optional_text (Some (us_display_name u))"
    using resolve_owner_fields_ok [OF first] by (auto simp: owner_fields_ok_def)
  from uid [OF u(1)] u(2) have i: "normalize_optional_text (Some i) = Some i"
    by (simp add: normalize_optional_text_stripped)
  have "find (\<lambda>u. us_id u = i \<and>
          (\<exists>m \<in> set (db_members d). mb_user_id m = us_id u \<and> mb_household_id m = h)) (db_users d) = Some u"
    by (rule find_unique_key [OF uniq u(1)]) (use u in \<open>auto simp: is_member_def\<close>)
  with i u Some show ?thesis
    by (simp add: resolve_owner_fields_def require_household_member_user_def
        get_household_member_user_def)
qed

subsection \<open>Back-filling owner links\<close>

definition link_owner :: "db \<Rightarrow> pystr \<Rightarrow> pystr option \<Rightarrow> pystr option" where
  "link_owner d household_id owner_name =
     map_option us_id (find_unique_household_member_by_display_name d household_id owner_name)"

text \<open>The rows the two loops of \<open>backfill_owner_links_for_household\<close> change.\<close>

definition tx_linkable :: "db \<Rightarrow> pystr \<Rightarrow> transaction \<Rightarrow> bool" where
  "tx_linkable d household_id t \<longleftrightarrow>
     tx_household_id t = household_id \<and> tx_owner_user_id t = None
     \<and> link_owner d household_id (tx_owner_name t) \<noteq> None"

definition hd_linkable :: "db \<Rightarrow> pystr \<Rightarrow> holding \<Rightarrow> bool" where
  "hd_linkable d household_id x \<longleftrightarrow>
     hd_household_id x = household_id \<and> hd_owner_user_id x = None
     \<and> link_owner d household_id (hd_owner_name x) \<noteq> None"

text \<open>The pair counts the linked transactions and holdings.\<close>

definition backfill_owner_links_for_household :: "db \<Rightarrow> pystr \<Rightarrow> db \<times> nat \<times> nat" where
  "backfill_owner_links_for_household d household_id =
     (let txs = map (\<lambda>t. if tx_linkable d household_id t
                      then t\<lparr>tx_owner_user_id := link_owner d household_id (tx_owner_name t)\<rparr> else t)
                  (db_transactions d);
          hds = map (\<lambda>x. if hd_linkable d household_id x
                      then x\<lparr>hd_owner_user_id := link_owner d household_id (hd_owner_name x)\<rparr> else x)
                  (db_holdings d)
      in (set_holdings hds (set_transactions txs d),
          length (filter (tx_linkable d household_id) (db_transactions d)),
          length (filter (hd_linkable d household_id) (db_holdings d))))"

lemma link_owner_members:
  "db_users d' = db_users d \<Longrightarrow> db_members d' = db_members d \<Longrightarrow>
   link_owner d' h name = link_owner d h name"
proof -
  assume "db_users d' = db_users d" "db_members d' = db_members d"
  then have "member_user_rows d' h = member_user_rows d h"
    unfolding member_user_rows_def by simp
  then show ?thesis
    by (simp add: link_owner_def find_unique_household_member_by_display_name_def Let_def
        cong: if_cong)
qed

lemma link_owner_is_member:
  "link_owner d h name = Some i \<Longrightarrow> is_member d h i"
  by (auto simp: link_owner_def dest: find_unique_SomeD)

lemma map_if_none: "(\<And>x. x \<in> set xs \<Longrightarrow> \<not> p x) \<Longrightarrow> map (\<lambda>x. if p x then f x else x) xs = xs"
  by (simp add: map_idI)

lemma filter_none: "(\<And>x. x \<in> set xs \<Longrightarrow> \<not> p x) \<Longrightarrow> filter p xs = []"
  by simp

text \<open>A second back-fill finds nothing to link.\<close>

lemma backfill_twice:
  assumes "backfill_owner_links_for_household d h = (d', n, k)"
  shows "backfill_owner_links_for_household d' h = (d', 0, 0)"
proof -
  from assms have m: "db_users d' = db_users d" "db_members d' = db_members d"
    by (auto simp: backfill_owner_links_for_household_def Let_def)
  from assms have d': "db_transactions d' = map (\<lambda>t. if tx_linkable d h t
      then t\<lparr>tx_owner_user_id := link_owner d h (tx_owner_name t)\<rparr> else t) (db_transactions d)"
    "db_holdings d' = map (\<lambda>x. if hd_linkable d h x
      then x\<lparr>hd_owner_user_id := link_owner d h (hd_owner_name x)\<rparr> else x) (db_holdings d)"
    by (auto simp: backfill_owner_links_for_household_def Let_def)
  note l = link_owner_members [OF m]
  have t: "\<not> tx_linkable d' h t" if "t \<in> set (db_transactions d')" for t
    using that unfolding d' by (auto simp: tx_linkable_def l split: if_splits)
  have x: "\<not> hd_linkable d' h x" if "x \<in> set (db_holdings d')" for x
    using that unfolding d' by (auto simp: hd_linkable_def l split: if_splits)
  show ?thesis
    unfolding backfill_owner_links_for_household_def Let_def
    by (simp only: map_if_none [of "db_transactions d'", OF t] map_if_none [of "db_holdings d'", OF x]
        filter_none [of "db_transactions d'", OF t] filter_none [of "db_holdings d'", OF x]) simp
qed

end
