(* ===== verification/Tx_Order.thy ===== *)
theory Tx_Order
  imports MF_Models "HOL-Library.Multiset"
begin

text \<open>
  The manual order of the transactions of one day
  (\<open>backend/app/api/routes/transactions.py\<close>, \<open>_same_day_transactions\<close> to
  \<open>_allocate_order_key\<close>): sparse integer keys, the midpoint between two neighbours, and
  rebalancing to multiples of 1024 when there is no room.  The lemmas show that
  rebalancing keeps the order of the rows, that the second attempt always finds room, and
  that a row with the allocated key lands directly above or below its anchor.
\<close>

definition transaction_order_step :: int where
  "transaction_order_step = 1024"

datatype insert_position = Pos_above | Pos_below

subsection \<open>The rows of a day\<close>

definition same_day_key :: "transaction \<Rightarrow> int \<times> instant \<times> pystr" where
  "same_day_key t = (tx_order_key t, tx_created_at t, tx_id t)"

definition on_day :: "pystr \<Rightarrow> date \<Rightarrow> transaction \<Rightarrow> bool" where
  "on_day household_id day t \<longleftrightarrow> tx_household_id t = household_id \<and> tx_occurred_on t = day"

definition same_day_transactions :: "db \<Rightarrow> pystr \<Rightarrow> date \<Rightarrow> transaction list" where
  "same_day_transactions d household_id occurred_on =
     sort_key same_day_key (filter (on_day household_id occurred_on) (db_transactions d))"

text \<open>
  The assignment \<open>transaction.order_key = k\<close> followed by a flush; \<open>onupdate\<close> stamps the row
  when the value is a new one.
\<close>

definition set_order_key :: "env \<Rightarrow> int \<Rightarrow> transaction \<Rightarrow> transaction" where
  "set_order_key ev k t =
     (if tx_order_key t = k then t else t\<lparr>tx_order_key := k, tx_updated_at := ev_db_now ev\<rparr>)"

definition rebalanced_keys :: "transaction list \<Rightarrow> pystr \<Rightarrow> int option" where
  "rebalanced_keys rows =
     map_of (map (\<lambda>(index, t). (tx_id t, int index * transaction_order_step)) (List.enumerate 1 rows))"

definition rekey :: "env \<Rightarrow> transaction list \<Rightarrow> transaction \<Rightarrow> transaction" where
  "rekey ev rows t =
     (case rebalanced_keys rows (tx_id t) of None \<Rightarrow> t | Some k \<Rightarrow> set_order_key ev k t)"

definition rebalance_order_keys :: "env \<Rightarrow> db \<Rightarrow> pystr \<Rightarrow> date \<Rightarrow> db" where
  "rebalance_order_keys ev d household_id occurred_on =
     set_transactions
       (map (rekey ev (same_day_transactions d household_id occurred_on)) (db_transactions d)) d"

subsection \<open>Allocating a key\<close>

definition next_append_order_key :: "db \<Rightarrow> pystr \<Rightarrow> date \<Rightarrow> pystr option \<Rightarrow> int" where
  "next_append_order_key d household_id occurred_on exclude_transaction_id =
     (let keys = map tx_order_key
            (filter (\<lambda>t. on_day household_id occurred_on t
                       \<and> (truthy_text exclude_transaction_id \<longrightarrow> Some (tx_id t) \<noteq> exclude_transaction_id))
               (db_transactions d));
          max_key = (if keys = [] then 0 else Max (set keys))
      in max_key + transaction_order_step)"

text \<open>\<open>None\<close> after a rebalancing, whose new state is returned beside it.\<close>

definition midpoint_or_rebalance ::
  "env \<Rightarrow> db \<Rightarrow> pystr \<Rightarrow> date \<Rightarrow> int option \<Rightarrow> int option \<Rightarrow> int option \<times> db" where
  "midpoint_or_rebalance ev d household_id occurred_on before_key after_key =
     (let low = (case before_key of None \<Rightarrow> 0 | Some k \<Rightarrow> k)
      in case after_key of
           None \<Rightarrow> (Some (low + transaction_order_step), d)
         | Some high \<Rightarrow>
             (if high - low > 1 then (Some (low + (high - low) div 2), d)
              else (None, rebalance_order_keys ev d household_id occurred_on)))"

text \<open>The rows before and after the place where the new row goes.\<close>

definition neighbours ::
  "transaction list \<Rightarrow> nat \<Rightarrow> insert_position \<Rightarrow> transaction option \<times> transaction option" where
  "neighbours rows i pos =
     (case pos of
        Pos_above \<Rightarrow> (if i > 0 then Some (rows ! (i - 1)) else None, Some (rows ! i))
      | Pos_below \<Rightarrow> (Some (rows ! i), if i + 1 < length rows then Some (rows ! (i + 1)) else None))"

primrec allocate_loop ::
  "nat \<Rightarrow> env \<Rightarrow> pystr \<Rightarrow> date \<Rightarrow> pystr \<Rightarrow> insert_position \<Rightarrow> db \<Rightarrow> http_error + (int \<times> db)" where
  "allocate_loop 0 ev household_id occurred_on anchor pos d =
     Inl (AppError 409 ''TRANSACTION_ORDER_REBALANCE_FAILED'')"
| "allocate_loop (Suc n) ev household_id occurred_on anchor pos d =
     (let rows = same_day_transactions d household_id occurred_on
      in case index_of anchor (map tx_id rows) of
           None \<Rightarrow>
             (case row_get tx_id anchor (db_transactions d) of
                Some a \<Rightarrow>
                  (if tx_household_id a = household_id \<and> tx_occurred_on a \<noteq> occurred_on
                   then Inl (AppError 400 ''TRANSACTION_INSERT_ANCHOR_DATE_MISMATCH'')
                   else Inl (HttpDetail 404 ''transaction anchor not found''))
              | None \<Rightarrow> Inl (HttpDetail 404 ''transaction anchor not found''))
         | Some i \<Rightarrow>
             (let (before, after) = neighbours rows i pos
              in case midpoint_or_rebalance ev d household_id occurred_on
                        (map_option tx_order_key before) (map_option tx_order_key after) of
                   (Some k, d') \<Rightarrow> Inr (k, d')
                 | (None, d') \<Rightarrow> allocate_loop n ev household_id occurred_on anchor pos d'))"

definition allocate_order_key ::
  "env \<Rightarrow> db \<Rightarrow> pystr \<Rightarrow> date \<Rightarrow> pystr option \<Rightarrow> insert_position option \<Rightarrow> http_error + (int \<times> db)" where
  "allocate_order_key ev d household_id occurred_on anchor insert_position =
     (if truthy_text anchor \<noteq> (insert_position \<noteq> None)
      then Inl (AppError 400 ''TRANSACTION_INSERT_ANCHOR_REQUIRED'')
      else case (anchor, insert_position) of
             (Some a, Some pos) \<Rightarrow> allocate_loop 2 ev household_id occurred_on a pos d
           | _ \<Rightarrow> Inr (next_append_order_key d household_id occurred_on None, d))"

subsection \<open>Rebalancing keeps the order\<close>

lemma set_same_day: "set (same_day_transactions d h day) = {t \<in> set (db_transactions d). on_day h day t}"
  by (auto simp: same_day_transactions_def)

lemma sorted_same_day: "sorted (map same_day_key (same_day_transactions d h day))"
  by (simp add: same_day_transactions_def)

lemma distinct_same_day_ids:
  "unique_keys tx_id (db_transactions d) \<Longrightarrow> distinct (map tx_id (same_day_transactions d h day))"
proof -
  assume "unique_keys tx_id (db_transactions d)"
  then have "distinct (map tx_id (filter (on_day h day) (db_transactions d)))"
    using unique_keys_filter by (auto simp: unique_keys_def)
  moreover have "mset (map tx_id (same_day_transactions d h day))
      = mset (map tx_id (filter (on_day h day) (db_transactions d)))"
    by (simp add: same_day_transactions_def)
  ultimately show ?thesis
    by (metis mset_eq_imp_distinct_iff)
qed

lemma inj_same_day_key:
  "unique_keys tx_id rows \<Longrightarrow> inj_on same_day_key (set rows)"
  by (auto simp: unique_keys_def distinct_map inj_on_def same_day_key_def)

text \<open>A list of the day's rows in key order is the result of the query.\<close>

lemma same_day_eqI:
  assumes "unique_keys tx_id (db_transactions d)"
    and "mset rows = mset (filter (on_day h day) (db_transactions d))"
    and "sorted (map same_day_key rows)"
  shows "same_day_transactions d h day = rows"
  unfolding same_day_transactions_def
proof (rule sort_key_inj_key_eq)
  show "mset (filter (on_day h day) (db_transactions d)) = mset rows"
    using assms(2) by simp
  show "inj_on same_day_key (set (filter (on_day h day) (db_transactions d)))"
    by (rule inj_same_day_key [OF unique_keys_filter [OF assms(1)]])
qed fact

lemma rekey_fields [simp]:
  "tx_id (rekey ev rows t) = tx_id t" "tx_household_id (rekey ev rows t) = tx_household_id t"
  "tx_occurred_on (rekey ev rows t) = tx_occurred_on t"
  "tx_created_at (rekey ev rows t) = tx_created_at t"
  "on_day h day (rekey ev rows t) = on_day h day t"
  by (simp_all add: rekey_def set_order_key_def on_day_def split: option.split)

lemma rebalanced_keys_nth:
  assumes "distinct (map tx_id rows)" "i < length rows"
  shows "rebalanced_keys rows (tx_id (rows ! i)) = Some (int (i + 1) * transaction_order_step)"
proof -
  let ?kvs = "map (\<lambda>(index, t). (tx_id t, int index * transaction_order_step)) (List.enumerate 1 rows)"
  have "map fst ?kvs = map tx_id rows"
    by (rule nth_equalityI) (simp_all add: nth_enumerate_eq case_prod_beta)
  then have "distinct (map fst ?kvs)" using assms(1) by simp
  moreover have "?kvs ! i = (tx_id (rows ! i), int (i + 1) * transaction_order_step)"
    using assms(2) by (simp add: nth_enumerate_eq)
  then have "(tx_id (rows ! i), int (i + 1) * transaction_order_step) \<in> set ?kvs"
    using assms(2) by (metis length_enumerate length_map nth_mem)
  ultimately show ?thesis
    unfolding rebalanced_keys_def by (rule map_of_is_SomeI)
qed

lemma rekey_nth_key:
  assumes "distinct (map tx_id rows)" "i < length rows"
  shows "tx_order_key (rekey ev rows (rows ! i)) = int (i + 1) * transaction_order_step"
  using rebalanced_keys_nth [OF assms] by (simp add: rekey_def set_order_key_def)

lemma rebalance_same_day:
  assumes "unique_keys tx_id (db_transactions d)"
  shows "same_day_transactions (rebalance_order_keys ev d h day) h day =
         map (rekey ev (same_day_transactions d h day)) (same_day_transactions d h day)"
    (is "_ = map ?f ?rows")
proof (rule same_day_eqI)
  show "unique_keys tx_id (db_transactions (rebalance_order_keys ev d h day))"
    using assms by (simp add: rebalance_order_keys_def unique_keys_def comp_def)
  show "mset (map ?f ?rows) =
      mset (filter (on_day h day) (db_transactions (rebalance_order_keys ev d h day)))"
    by (simp add: rebalance_order_keys_def filter_map comp_def same_day_transactions_def)
  show "sorted (map same_day_key (map ?f ?rows))"
    unfolding sorted_iff_nth_mono
    by (auto simp: same_day_key_def rekey_nth_key distinct_same_day_ids [OF assms]
        transaction_order_step_def less_eq_prod_def le_less)
qed

lemma rebalance_ids:
  assumes "unique_keys tx_id (db_transactions d)"
  shows "map tx_id (same_day_transactions (rebalance_order_keys ev d h day) h day) =
         map tx_id (same_day_transactions d h day)"
  by (simp add: rebalance_same_day [OF assms])

lemma rebalance_nth_key:
  assumes "unique_keys tx_id (db_transactions d)" "i < length (same_day_transactions d h day)"
  shows "tx_order_key (same_day_transactions (rebalance_order_keys ev d h day) h day ! i) =
         int (i + 1) * transaction_order_step"
  using assms by (simp add: rebalance_same_day rekey_nth_key distinct_same_day_ids)

lemma rebalance_unique:
  "unique_keys tx_id (db_transactions d) \<Longrightarrow>
   unique_keys tx_id (db_transactions (rebalance_order_keys ev d h day))"
  by (simp add: rebalance_order_keys_def unique_keys_def comp_def)

subsection \<open>Where a row with the allocated key goes\<close>

text \<open>The slot in the list of rows where the new row belongs.\<close>

definition slot :: "nat \<Rightarrow> insert_position \<Rightarrow> nat" where
  "slot i pos = (case pos of Pos_above \<Rightarrow> i | Pos_below \<Rightarrow> i + 1)"

text \<open>A key fits a slot when it lies strictly between its neighbours.\<close>

definition fits :: "transaction list \<Rightarrow> nat \<Rightarrow> int \<Rightarrow> bool" where
  "fits rows j k \<longleftrightarrow>
     (0 < j \<longrightarrow> tx_order_key (rows ! (j - 1)) < k) \<and> (j < length rows \<longrightarrow> k < tx_order_key (rows ! j))"

lemma order_key_mono:
  "i \<le> j \<Longrightarrow> j < length (same_day_transactions d h day) \<Longrightarrow>
   tx_order_key (same_day_transactions d h day ! i) \<le> tx_order_key (same_day_transactions d h day ! j)"
  using sorted_nth_mono [OF sorted_same_day, of i j d h day]
  by (auto simp: same_day_key_def less_eq_prod_def)

lemma insert_at_fitting_slot:
  assumes uniq: "unique_keys tx_id (db_transactions d @ [t])"
    and t: "on_day h day t"
    and rows: "rows = same_day_transactions d h day"
    and j: "j \<le> length rows" and fit: "fits rows j (tx_order_key t)"
  shows "same_day_transactions (set_transactions (db_transactions d @ [t]) d) h day =
         take j rows @ t # drop j rows"
proof (rule same_day_eqI)
  show "unique_keys tx_id (db_transactions (set_transactions (db_transactions d @ [t]) d))"
    using uniq by simp
  have "mset (take j rows @ t # drop j rows) = add_mset t (mset rows)"
    by (metis append_take_drop_id mset.simps(2) mset_append union_mset_add_mset_right)
  also have "mset rows = mset (filter (on_day h day) (db_transactions d))"
    by (simp add: rows same_day_transactions_def)
  finally show "mset (take j rows @ t # drop j rows) =
      mset (filter (on_day h day) (db_transactions (set_transactions (db_transactions d @ [t]) d)))"
    using t by simp
  have before: "tx_order_key x < tx_order_key t" if x: "x \<in> set (take j rows)" for x
  proof -
    obtain i where "i < j" "i < length rows" "x = rows ! i"
      using x by (auto simp: in_set_conv_nth)
    moreover from this have "tx_order_key (rows ! i) \<le> tx_order_key (rows ! (j - 1))"
      unfolding rows using j rows by (intro order_key_mono) auto
    ultimately show ?thesis using fit by (auto simp: fits_def)
  qed
  have after: "tx_order_key t < tx_order_key x" if x: "x \<in> set (drop j rows)" for x
  proof -
    from x obtain i where "i < length rows - j" "x = drop j rows ! i"
      by (auto simp: in_set_conv_nth)
    with j have i: "j + i < length rows" "x = rows ! (j + i)" by simp_all
    then have "tx_order_key (rows ! j) \<le> tx_order_key (rows ! (j + i))"
      unfolding rows by (intro order_key_mono) auto
    with i fit show ?thesis by (auto simp: fits_def)
  qed
  have s: "sorted (map same_day_key rows)"
    unfolding rows by (rule sorted_same_day)
  then have "sorted (take j (map same_day_key rows))" "sorted (drop j (map same_day_key rows))"
    by (rule sorted_wrt_take, rule sorted_wrt_drop)
  moreover have "x \<le> y" if "x \<in> set (take j (map same_day_key rows))"
      "y \<in> set (drop j (map same_day_key rows))" for x y
    using s that by (metis append_take_drop_id sorted_append)
  ultimately show "sorted (map same_day_key (take j rows @ t # drop j rows))"
    using before after
    by (auto simp: sorted_append take_map drop_map same_day_key_def less_eq_prod_def)
qed

lemma midpoint_fits:
  assumes nb: "neighbours rows i pos = (before, after)" and i: "i < length rows"
    and mid: "midpoint_or_rebalance ev d h day (map_option tx_order_key before)
           (map_option tx_order_key after) = (Some k, d')"
  shows "d' = d" "fits rows (slot i pos) k" "slot i pos \<le> length rows"
  using assms
  by (auto simp: neighbours_def midpoint_or_rebalance_def fits_def slot_def Let_def
      transaction_order_step_def split: insert_position.splits if_splits)

lemma midpoint_None:
  "midpoint_or_rebalance ev d h day b a = (None, d') \<Longrightarrow> d' = rebalance_order_keys ev d h day"
  by (auto simp: midpoint_or_rebalance_def Let_def split: option.splits if_splits)

text \<open>After a rebalancing there is always room.\<close>

lemma midpoint_after_rebalance:
  assumes uniq: "unique_keys tx_id (db_transactions d)"
    and rows: "rows = same_day_transactions (rebalance_order_keys ev d h day) h day"
    and i: "i < length rows"
    and nb: "neighbours rows i pos = (before, after)"
  shows "\<exists>k. midpoint_or_rebalance ev d'' h day (map_option tx_order_key before)
           (map_option tx_order_key after) = (Some k, d'')"
proof -
  have len: "length rows = length (same_day_transactions d h day)"
    using rebalance_ids [OF uniq, of ev h day] rows by (metis length_map)
  have key: "tx_order_key (rows ! m) = int (m + 1) * 1024" if "m < length rows" for m
    using rebalance_nth_key [OF uniq, of m h day ev] that len rows
    by (simp add: transaction_order_step_def)
  show ?thesis
    using nb i key [of i] key [of "i - 1"] key [of "i + 1"]
    by (cases pos; cases "i > 0"; cases "i + 1 < length rows")
      (auto simp: neighbours_def midpoint_or_rebalance_def Let_def)
qed

lemma allocate_loop_ok:
  assumes uniq: "unique_keys tx_id (db_transactions d)"
    and ok: "allocate_loop n ev h day a pos d = Inr (k, d')"
  shows "unique_keys tx_id (db_transactions d') \<and>
    map tx_id (same_day_transactions d' h day) = map tx_id (same_day_transactions d h day) \<and>
    (\<exists>i. index_of a (map tx_id (same_day_transactions d' h day)) = Some i
       \<and> fits (same_day_transactions d' h day) (slot i pos) k
       \<and> slot i pos \<le> length (same_day_transactions d' h day))"
  using assms
proof (induction n arbitrary: d)
  case (Suc n)
  let ?rows = "same_day_transactions d h day"
  from Suc.prems(2) obtain i where i: "index_of a (map tx_id ?rows) = Some i"
    by (auto simp: Let_def split: option.splits if_splits)
  then have il: "i < length ?rows" by (auto dest: index_of_SomeD)
  obtain before after where nb: "neighbours ?rows i pos = (before, after)" by force
  obtain mk d1 where mid: "midpoint_or_rebalance ev d h day (map_option tx_order_key before)
      (map_option tx_order_key after) = (mk, d1)" by force
  show ?case
  proof (cases mk)
    case (Some k1)
    with Suc.prems(2) i nb mid have "k1 = k" "d1 = d'" by (simp_all add: Let_def)
    with midpoint_fits [OF nb il mid [unfolded Some]] Suc.prems(1) i show ?thesis by simp
  next
    case None
    with midpoint_None mid have d1: "d1 = rebalance_order_keys ev d h day" by blast
    with Suc.prems(2) i nb mid None have "allocate_loop n ev h day a pos d1 = Inr (k, d')"
      by (simp add: Let_def)
    note IH = Suc.IH [OF _ this, unfolded d1 rebalance_ids [OF Suc.prems(1)]]
    show ?thesis by (rule IH [OF rebalance_unique [OF Suc.prems(1)]])
  qed
qed simp

text \<open>The second attempt never fails.\<close>

lemma allocate_loop_two:
  assumes uniq: "unique_keys tx_id (db_transactions d)"
    and i: "index_of a (map tx_id (same_day_transactions d h day)) = Some i"
  shows "\<exists>k d'. allocate_loop (Suc (Suc n)) ev h day a pos d = Inr (k, d')"
proof -
  let ?rows = "same_day_transactions d h day"
  let ?d1 = "rebalance_order_keys ev d h day"
  obtain before after where nb: "neighbours ?rows i pos = (before, after)" by force
  obtain mk d1 where mid: "midpoint_or_rebalance ev d h day (map_option tx_order_key before)
      (map_option tx_order_key after) = (mk, d1)" by force
  show ?thesis
  proof (cases mk)
    case (Some k)
    with i nb mid show ?thesis by (simp add: Let_def)
  next
    case None
    with midpoint_None mid have d1: "d1 = ?d1" by blast
    let ?rows1 = "same_day_transactions ?d1 h day"
    have i1: "index_of a (map tx_id ?rows1) = Some i"
      using i by (simp only: rebalance_ids [OF uniq])
    then have il: "i < length ?rows1" by (auto dest: index_of_SomeD)
    obtain b1 a1 where nb1: "neighbours ?rows1 i pos = (b1, a1)" by force
    from midpoint_after_rebalance [OF uniq refl il nb1] obtain k where
      "midpoint_or_rebalance ev ?d1 h day (map_option tx_order_key b1)
         (map_option tx_order_key a1) = (Some k, ?d1)" by blast
    with i nb mid None d1 i1 nb1 show ?thesis by (simp add: Let_def)
  qed
qed

lemma allocate_loop_not_found:
  assumes "index_of a (map tx_id (same_day_transactions d h day)) = None"
  shows "\<exists>e. allocate_loop (Suc n) ev h day a pos d = Inl e
           \<and> e \<in> {AppError 400 ''TRANSACTION_INSERT_ANCHOR_DATE_MISMATCH'',
                  HttpDetail 404 ''transaction anchor not found''}"
  using assms by (auto simp: Let_def split: option.split)

lemma next_append_greatest:
  assumes "t \<in> set (db_transactions d)" "on_day h day t"
    and "truthy_text ex \<Longrightarrow> Some (tx_id t) \<noteq> ex"
  shows "tx_order_key t < next_append_order_key d h day ex"
proof -
  let ?ts = "filter (\<lambda>t. on_day h day t \<and> (truthy_text ex \<longrightarrow> Some (tx_id t) \<noteq> ex)) (db_transactions d)"
  have "t \<in> set ?ts" using assms by auto
  then have "tx_order_key t \<in> set (map tx_order_key ?ts)" by simp
  then have "map tx_order_key ?ts \<noteq> []" "tx_order_key t \<le> Max (set (map tx_order_key ?ts))"
    by (force, intro Max_ge) auto
  then show ?thesis
    unfolding next_append_order_key_def Let_def by (simp add: transaction_order_step_def)
qed

text \<open>What a rebalancing preserves, an allocation preserves.\<close>

lemma allocate_loop_preserves:
  assumes step: "\<And>d. P d \<Longrightarrow> P (rebalance_order_keys ev d h day)"
  shows "P d \<Longrightarrow> allocate_loop n ev h day a pos d = Inr (k, d') \<Longrightarrow> P d'"
proof (induction n arbitrary: d)
  case (Suc n)
  let ?rows = "same_day_transactions d h day"
  from Suc.prems(2) obtain i where i: "index_of a (map tx_id ?rows) = Some i"
    by (auto simp: Let_def split: option.splits if_splits)
  obtain before after where nb: "neighbours ?rows i pos = (before, after)" by force
  obtain mk d1 where mid: "midpoint_or_rebalance ev d h day (map_option tx_order_key before)
      (map_option tx_order_key after) = (mk, d1)" by force
  show ?case
  proof (cases mk)
    case None
    with midpoint_None mid have "d1 = rebalance_order_keys ev d h day" by blast
    with step [OF Suc.prems(1)] Suc.IH [of d1] Suc.prems(2) i nb mid None show ?thesis
      by (simp add: Let_def)
  next
    case (Some k1)
    from mid Some have "d1 = d"
      by (auto simp: midpoint_or_rebalance_def Let_def split: option.splits if_splits)
    with Some Suc.prems i nb mid show ?thesis by (simp add: Let_def)
  qed
qed simp

lemma allocate_preserves:
  assumes step: "\<And>d. P d \<Longrightarrow> P (rebalance_order_keys ev d h day)"
    and "P d" and ok: "allocate_order_key ev d h day a pos = Inr (k, d')"
  shows "P d'"
proof (cases "a \<noteq> None \<and> pos \<noteq> None")
  case True
  then obtain i q where "a = Some i" "pos = Some q" by auto
  with ok have "allocate_loop 2 ev h day i q d = Inr (k, d')"
    by (auto simp: allocate_order_key_def split: if_splits)
  with assms(1,2) show ?thesis by (rule allocate_loop_preserves)
next
  case False
  with ok have "d' = d"
    by (auto simp: allocate_order_key_def split: if_splits option.splits)
  with assms(2) show ?thesis by simp
qed

end
