(* ===== verification/Transactions.thy ===== *)
theory Transactions
  imports Merge Owner_Links Tx_Order
begin

text \<open>
  The handlers of \<open>backend/app/api/routes/transactions.py\<close> that create, patch, delete and
  list transactions, with the payload schemas they validate.  \<open>tx_ops\<close> is the field access
  the merge routine uses on a transaction.  The lemmas show the invariant of the table
  (unique identifiers and source references, category links that agree in household and
  flow type, instalments only on expenses) and what each operation changes.
\<close>

subsection \<open>Payloads\<close>

record transaction_create =
  tc_occurred_on :: date
  tc_flow_type :: flow_type
  tc_amount :: rat
  tc_installment_months :: "int option"
  tc_currency :: pystr
  tc_category_id :: "pystr option"
  tc_memo :: pystr
  tc_owner_user_id :: "pystr option"
  tc_owner_name :: "pystr option"
  tc_source_ref :: "pystr option"
  tc_anchor_transaction_id :: "pystr option"
  tc_insert_position :: "insert_position option"

text \<open>
  \<open>None\<close> in the outer option is a field the client did not send (\<open>model_fields_set\<close>);
  \<open>Some None\<close> an explicit \<open>null\<close>.
\<close>

record transaction_patch =
  tp_base_version :: int
  tp_occurred_on :: "date option option"
  tp_flow_type :: "flow_type option option"
  tp_amount :: "rat option option"
  tp_installment_months :: "int option option"
  tp_currency :: "pystr option option"
  tp_category_id :: "pystr option option"
  tp_memo :: "pystr option option"
  tp_owner_user_id :: "pystr option option"
  tp_owner_name :: "pystr option option"

text \<open>\<open>validate_krw_transaction_amount\<close> with the constraint \<open>gt=0\<close> of the field.\<close>

definition krw_amount_ok :: "rat \<Rightarrow> bool" where
  "krw_amount_ok a \<longleftrightarrow> 0 < a \<and> a = of_int \<lfloor>a\<rfloor>"

definition max_len :: "nat \<Rightarrow> pystr option \<Rightarrow> bool" where
  "max_len n v = (case v of None \<Rightarrow> True | Some s \<Rightarrow> length s \<le> n)"

definition installment_range :: "int option \<Rightarrow> bool" where
  "installment_range v = (case v of None \<Rightarrow> True | Some n \<Rightarrow> 2 \<le> n \<and> n \<le> 120)"

definition krw_code :: "pystr \<Rightarrow> pystr option" where
  "krw_code v = (let code = py_upper (py_strip v)
     in if 3 \<le> length v \<and> length v \<le> 8 \<and> code = lit ''KRW'' then Some code else None)"

text \<open>\<open>None\<close> is a validation error (status 400).\<close>

definition validate_transaction_create :: "transaction_create \<Rightarrow> transaction_create option" where
  "validate_transaction_create p =
     (case krw_code (tc_currency p) of
        None \<Rightarrow> None
      | Some code \<Rightarrow>
          (if krw_amount_ok (tc_amount p) \<and> installment_range (tc_installment_months p)
              \<and> length (tc_memo p) \<le> 2000 \<and> max_len 36 (tc_owner_user_id p)
              \<and> max_len 80 (tc_owner_name p) \<and> max_len 120 (tc_source_ref p)
              \<and> max_len 36 (tc_anchor_transaction_id p)
              \<and> (tc_installment_months p \<noteq> None \<longrightarrow> tc_flow_type p = Flow_expense)
           then Some (p\<lparr>tc_currency := code,
                        tc_category_id := normalize_optional_text (tc_category_id p),
                        tc_owner_user_id := normalize_optional_text (tc_owner_user_id p),
                        tc_anchor_transaction_id := normalize_optional_text (tc_anchor_transaction_id p),
                        tc_owner_name := normalize_optional_text (tc_owner_name p),
                        tc_source_ref := normalize_optional_text (tc_source_ref p)\<rparr>)
           else None))"

definition given :: "('a \<Rightarrow> bool) \<Rightarrow> 'a option option \<Rightarrow> bool" where
  "given ok v = (case v of Some (Some x) \<Rightarrow> ok x | _ \<Rightarrow> True)"

definition validate_transaction_patch :: "transaction_patch \<Rightarrow> transaction_patch option" where
  "validate_transaction_patch p =
     (if 1 \<le> tp_base_version p \<and> given krw_amount_ok (tp_amount p)
         \<and> given (\<lambda>n. installment_range (Some n)) (tp_installment_months p)
         \<and> given (\<lambda>v. krw_code v \<noteq> None) (tp_currency p)
         \<and> given (\<lambda>v. length v \<le> 2000) (tp_memo p)
         \<and> given (\<lambda>v. length v \<le> 36) (tp_owner_user_id p)
         \<and> given (\<lambda>v. length v \<le> 80) (tp_owner_name p)
      then Some (p\<lparr>tp_currency := map_option (\<lambda>v. Option.bind v krw_code) (tp_currency p),
                   tp_category_id := map_option normalize_optional_text (tp_category_id p),
                   tp_owner_user_id := map_option normalize_optional_text (tp_owner_user_id p),
                   tp_owner_name := map_option normalize_optional_text (tp_owner_name p)\<rparr>)
      else None)"

subsection \<open>Reading a transaction\<close>

record transaction_read =
  tr_id :: pystr
  tr_household_id :: pystr
  tr_category_id :: "pystr option"
  tr_occurred_on :: date
  tr_flow_type :: flow_type
  tr_amount :: rat
  tr_installment_months :: "int option"
  tr_currency :: pystr
  tr_memo :: pystr
  tr_order_key :: int
  tr_owner_user_id :: "pystr option"
  tr_owner_name :: "pystr option"
  tr_source_ref :: "pystr option"
  tr_version :: int
  tr_created_at :: instant
  tr_updated_at :: instant

text \<open>\<open>a or b\<close> on optional strings.\<close>

definition or_text :: "pystr option \<Rightarrow> pystr option \<Rightarrow> pystr option" where
  "or_text a b = (if truthy_text a then a else b)"

definition to_transaction_read :: "transaction \<Rightarrow> pystr option \<Rightarrow> transaction_read" where
  "to_transaction_read t linked_owner_name =
     \<lparr>tr_id = tx_id t, tr_household_id = tx_household_id t,
      tr_category_id = normalize_optional_text (tx_category_id t),
      tr_occurred_on = tx_occurred_on t, tr_flow_type = tx_flow_type t, tr_amount = tx_amount t,
      tr_installment_months = tx_installment_months t, tr_currency = tx_currency t,
      tr_memo = tx_memo t, tr_order_key = tx_order_key t,
      tr_owner_user_id = normalize_optional_text (tx_owner_user_id t),
      tr_owner_name = normalize_optional_text (or_text linked_owner_name (tx_owner_name t)),
      tr_source_ref = normalize_optional_text (tx_source_ref t), tr_version = tx_version t,
      tr_created_at = tx_created_at t, tr_updated_at = tx_updated_at t\<rparr>"

text \<open>The outer join with the user the transaction is linked to.\<close>

definition linked_owner_name :: "db \<Rightarrow> pystr option \<Rightarrow> pystr option" where
  "linked_owner_name d owner_user_id =
     (case owner_user_id of
        None \<Rightarrow> None
      | Some i \<Rightarrow> map_option us_display_name (row_get us_id i (db_users d)))"

definition load_transaction_read :: "db \<Rightarrow> pystr \<Rightarrow> http_error + transaction_read" where
  "load_transaction_read d transaction_id =
     (case row_get tx_id transaction_id (db_transactions d) of
        None \<Rightarrow> Inl (HttpDetail 404 ''transaction not found'')
      | Some t \<Rightarrow> Inr (to_transaction_read t (linked_owner_name d (tx_owner_user_id t))))"

text \<open>A read that ends a handler, in the state it has reached.\<close>

definition answer_with :: "db \<Rightarrow> (pystr \<times> event) list \<Rightarrow> http_error + 'a \<Rightarrow> 'a outcome" where
  "answer_with d evs r = (r, d, evs)"

lemma answer_with_simps [simp]:
  "fst (answer_with d evs r) = r" "outcome_db (answer_with d evs r) = d"
  "outcome_events (answer_with d evs r) = evs"
  "answer_with d evs r = (r', d', evs') \<longleftrightarrow> r' = r \<and> d' = d \<and> evs' = evs"
  by (auto simp: answer_with_def outcome_db_def outcome_events_def)

subsection \<open>Checks\<close>

definition ensure_category_flow_matches :: "category \<Rightarrow> flow_type \<Rightarrow> http_error option" where
  "ensure_category_flow_matches c f =
     (if ct_flow_type c = f then None
      else Some (AppError 400 ''TRANSACTION_CATEGORY_FLOW_TYPE_MISMATCH''))"

text \<open>The category block \<open>create_transaction\<close> and \<open>patch_transaction\<close> share.\<close>

definition check_category :: "db \<Rightarrow> pystr \<Rightarrow> pystr option \<Rightarrow> flow_type \<Rightarrow> http_error option" where
  "check_category d household_id category_id f =
     (if truthy_text category_id then
        (case row_get ct_id (the category_id) (db_categories d) of
           None \<Rightarrow> Some (HttpDetail 400 ''invalid category_id'')
         | Some c \<Rightarrow>
             (if ct_household_id c \<noteq> household_id then Some (HttpDetail 400 ''invalid category_id'')
              else ensure_category_flow_matches c f))
      else None)"

definition transaction_replay_window_seconds :: int where
  "transaction_replay_window_seconds = 120"

definition recent_match ::
  "env \<Rightarrow> pystr \<Rightarrow> transaction_create \<Rightarrow> pystr option \<Rightarrow> pystr option \<Rightarrow> pystr \<Rightarrow> pystr \<Rightarrow> pystr
   \<Rightarrow> transaction \<Rightarrow> bool" where
  "recent_match ev household_id p owner_user_id owner_name currency memo created_by t \<longleftrightarrow>
     tx_household_id t = household_id \<and> tx_source_ref t = None \<and> tx_created_by_user_id t = Some created_by
     \<and> tx_occurred_on t = tc_occurred_on p \<and> tx_flow_type t = tc_flow_type p
     \<and> tx_amount t = tc_amount p \<and> tx_installment_months t = tc_installment_months p
     \<and> tx_currency t = currency \<and> tx_memo t = memo
     \<and> ev_now ev - seconds transaction_replay_window_seconds \<le> tx_created_at t
     \<and> tx_category_id t = tc_category_id p \<and> tx_owner_user_id t = owner_user_id
     \<and> tx_owner_name t = owner_name"

definition recent_matching_transaction_id ::
  "env \<Rightarrow> db \<Rightarrow> pystr \<Rightarrow> transaction_create \<Rightarrow> pystr option \<Rightarrow> pystr option \<Rightarrow> pystr \<Rightarrow> pystr \<Rightarrow> pystr
   \<Rightarrow> pystr option" where
  "recent_matching_transaction_id ev d household_id p owner_user_id owner_name currency memo created_by =
     (case rev (sort_key (\<lambda>t. (tx_created_at t, tx_id t))
             (filter (recent_match ev household_id p owner_user_id owner_name currency memo created_by)
                (db_transactions d))) of
        [] \<Rightarrow> None
      | t # _ \<Rightarrow> Some (tx_id t))"

subsection \<open>Creating a transaction\<close>

datatype integrity_error = Source_ref_violation | Category_fk_violation

definition by_source_ref :: "db \<Rightarrow> pystr \<Rightarrow> pystr \<Rightarrow> transaction option" where
  "by_source_ref d household_id ref =
     find (\<lambda>t. tx_household_id t = household_id \<and> tx_source_ref t = Some ref) (db_transactions d)"

definition category_fk_ok :: "db \<Rightarrow> pystr option \<Rightarrow> bool" where
  "category_fk_ok d category_id =
     (case category_id of None \<Rightarrow> True | Some c \<Rightarrow> row_get ct_id c (db_categories d) \<noteq> None)"

text \<open>The constraints the database checks when the new row is committed.\<close>

definition commit_transaction :: "db \<Rightarrow> transaction \<Rightarrow> integrity_error + db" where
  "commit_transaction d t =
     (if (case tx_source_ref t of
            None \<Rightarrow> False | Some r \<Rightarrow> by_source_ref d (tx_household_id t) r \<noteq> None)
      then Inl Source_ref_violation
      else if \<not> category_fk_ok d (tx_category_id t) then Inl Category_fk_violation
      else Inr (set_transactions (db_transactions d @ [t]) d))"

definition new_transaction ::
  "env \<Rightarrow> pystr \<Rightarrow> pystr \<Rightarrow> transaction_create \<Rightarrow> pystr option \<Rightarrow> pystr option \<Rightarrow> int \<Rightarrow> transaction" where
  "new_transaction ev household_id user_id p owner_user_id owner_name order_key =
     \<lparr>tx_id = ev_new_id ev, tx_household_id = household_id, tx_category_id = tc_category_id p,
      tx_flow_type = tc_flow_type p, tx_occurred_on = tc_occurred_on p, tx_amount = tc_amount p,
      tx_installment_months = tc_installment_months p, tx_currency = py_upper (tc_currency p),
      tx_memo = py_strip (tc_memo p), tx_order_key = order_key, tx_owner_user_id = owner_user_id,
      tx_owner_name = owner_name, tx_source_ref = normalize_optional_text (tc_source_ref p),
      tx_version = 1, tx_created_by_user_id = Some user_id, tx_created_at = ev_db_now ev,
      tx_updated_at = ev_db_now ev\<rparr>"

text \<open>
  The replay lookups: the answer of an earlier request with the same source reference, or
  of a recent identical one when neither a reference nor a position is given.
\<close>

definition replay_by_source_ref :: "db \<Rightarrow> pystr \<Rightarrow> transaction_create \<Rightarrow> pystr option" where
  "replay_by_source_ref d household_id p =
     (case normalize_optional_text (tc_source_ref p) of
        None \<Rightarrow> None
      | Some ref \<Rightarrow> map_option tx_id (by_source_ref d household_id ref))"

definition replay_recent ::
  "env \<Rightarrow> db \<Rightarrow> pystr \<Rightarrow> pystr \<Rightarrow> transaction_create \<Rightarrow> pystr option \<Rightarrow> pystr option \<Rightarrow> pystr option" where
  "replay_recent ev d household_id user_id p owner_user_id owner_name =
     (if normalize_optional_text (tc_source_ref p) = None
         \<and> \<not> (truthy_text (tc_anchor_transaction_id p) \<or> tc_insert_position p \<noteq> None)
      then recent_matching_transaction_id ev d household_id p owner_user_id owner_name
             (py_upper (tc_currency p)) (py_strip (tc_memo p)) user_id
      else None)"

text \<open>
  The end of the handler: allocation of the order key and the commit, on the state \<open>c\<close> the
  other sessions have left.  The answer is \<open>(created, row)\<close>; status 201 or 200.
\<close>

definition insert_transaction ::
  "env \<Rightarrow> db \<Rightarrow> pystr \<Rightarrow> pystr \<Rightarrow> transaction_create \<Rightarrow> pystr option \<Rightarrow> pystr option
   \<Rightarrow> (bool \<times> transaction_read) outcome" where
  "insert_transaction ev c household_id user_id p owner_user_id owner_name =
     (case allocate_order_key ev c household_id (tc_occurred_on p)
             (tc_anchor_transaction_id p) (tc_insert_position p) of
        Inl e \<Rightarrow> fail c e
      | Inr (order_key, c1) \<Rightarrow>
          (case commit_transaction c1 (new_transaction ev household_id user_id p owner_user_id owner_name order_key) of
             Inr c2 \<Rightarrow>
               answer_with c2 [(household_id, Transaction_created (ev_new_id ev) 1)]
                 (map_sum id (Pair True) (load_transaction_read c2 (ev_new_id ev)))
           | Inl Source_ref_violation \<Rightarrow>
               (case replay_by_source_ref c household_id p of
                  Some i \<Rightarrow> answer_with c [] (map_sum id (Pair False) (load_transaction_read c i))
                | None \<Rightarrow> fail c ServerError)
           | Inl Category_fk_violation \<Rightarrow> fail c (AppError 400 ''CATEGORY_INVALID'')))"

text \<open>
  \<open>create_transaction\<close>: \<open>interleave\<close> is what other sessions commit between the checks and
  the insertion; with \<open>id\<close> the handler runs alone.
\<close>

definition create_transaction ::
  "env \<Rightarrow> (db \<Rightarrow> db) \<Rightarrow> db \<Rightarrow> ctx \<Rightarrow> pystr \<Rightarrow> transaction_create
   \<Rightarrow> (bool \<times> transaction_read) outcome" where
  "create_transaction ev interleave d ctx user_id p =
     (let household_id = hh_id (fst ctx)
      in case replay_by_source_ref d household_id p of
           Some i \<Rightarrow> answer_with d [] (map_sum id (Pair False) (load_transaction_read d i))
         | None \<Rightarrow>
        (case check_category d household_id (tc_category_id p) (tc_flow_type p) of
           Some e \<Rightarrow> fail d e
         | None \<Rightarrow>
        (case resolve_owner_fields d household_id (tc_owner_user_id p) (tc_owner_name p)
                ''TRANSACTION_OWNER_INVALID'' of
           Inl e \<Rightarrow> fail d e
         | Inr (owner_user_id, owner_name) \<Rightarrow>
        (case replay_recent ev d household_id user_id p owner_user_id owner_name of
           Some i \<Rightarrow> answer_with d [] (map_sum id (Pair False) (load_transaction_read d i))
         | None \<Rightarrow>
             insert_transaction ev (interleave d) household_id user_id p owner_user_id owner_name))))"

subsection \<open>Patching a transaction\<close>

datatype transaction_update =
    Upd_occurred_on date
  | Upd_flow_type flow_type
  | Upd_amount rat
  | Upd_installment_months "int option"
  | Upd_currency pystr
  | Upd_category_id "pystr option"
  | Upd_memo pystr
  | Upd_owner_user_id "pystr option"
  | Upd_owner_name "pystr option"

fun transaction_update_key :: "transaction_update \<Rightarrow> string" where
  "transaction_update_key (Upd_occurred_on _) = ''occurred_on''"
| "transaction_update_key (Upd_flow_type _) = ''flow_type''"
| "transaction_update_key (Upd_amount _) = ''amount''"
| "transaction_update_key (Upd_installment_months _) = ''installment_months''"
| "transaction_update_key (Upd_currency _) = ''currency''"
| "transaction_update_key (Upd_category_id _) = ''category_id''"
| "transaction_update_key (Upd_memo _) = ''memo''"
| "transaction_update_key (Upd_owner_user_id _) = ''owner_user_id''"
| "transaction_update_key (Upd_owner_name _) = ''owner_name''"

fun transaction_same :: "transaction_update \<Rightarrow> transaction \<Rightarrow> bool" where
  "transaction_same (Upd_occurred_on v) t = (tx_occurred_on t = v)"
| "transaction_same (Upd_flow_type v) t = (tx_flow_type t = v)"
| "transaction_same (Upd_amount v) t = (tx_amount t = v)"
| "transaction_same (Upd_installment_months v) t = (tx_installment_months t = v)"
| "transaction_same (Upd_currency v) t = (tx_currency t = v)"
| "transaction_same (Upd_category_id v) t = (tx_category_id t = v)"
| "transaction_same (Upd_memo v) t = (tx_memo t = v)"
| "transaction_same (Upd_owner_user_id v) t = (tx_owner_user_id t = v)"
| "transaction_same (Upd_owner_name v) t = (tx_owner_name t = v)"

fun transaction_set :: "transaction_update \<Rightarrow> transaction \<Rightarrow> transaction" where
  "transaction_set (Upd_occurred_on v) t = t\<lparr>tx_occurred_on := v\<rparr>"
| "transaction_set (Upd_flow_type v) t = t\<lparr>tx_flow_type := v\<rparr>"
| "transaction_set (Upd_amount v) t = t\<lparr>tx_amount := v\<rparr>"
| "transaction_set (Upd_installment_months v) t = t\<lparr>tx_installment_months := v\<rparr>"
| "transaction_set (Upd_currency v) t = t\<lparr>tx_currency := v\<rparr>"
| "transaction_set (Upd_category_id v) t = t\<lparr>tx_category_id := v\<rparr>"
| "transaction_set (Upd_memo v) t = t\<lparr>tx_memo := v\<rparr>"
| "transaction_set (Upd_owner_user_id v) t = t\<lparr>tx_owner_user_id := v\<rparr>"
| "transaction_set (Upd_owner_name v) t = t\<lparr>tx_owner_name := v\<rparr>"

definition tx_ops :: "(transaction_update, transaction) entity_ops" where
  "tx_ops =
     \<lparr>op_type = ''transaction'', op_key = transaction_update_key, op_same = transaction_same,
      op_set = transaction_set, op_id = tx_id, op_version = tx_version,
      op_set_version = (\<lambda>n t. t\<lparr>tx_version := n\<rparr>)\<rparr>"

lemma tx_ops_simps [simp]:
  "op_type tx_ops = ''transaction''" "op_key tx_ops = transaction_update_key"
  "op_same tx_ops = transaction_same" "op_set tx_ops = transaction_set" "op_id tx_ops = tx_id"
  "op_version tx_ops = tx_version" "op_set_version tx_ops = (\<lambda>n t. t\<lparr>tx_version := n\<rparr>)"
  by (simp_all add: tx_ops_def)

interpretation tx_patch: patchable tx_ops
proof unfold_locales
  fix u v t n m
  show "op_same tx_ops u (op_set tx_ops u t)" by (cases u) simp_all
  show "op_version tx_ops (op_set tx_ops u t) = op_version tx_ops t" by (cases u) simp_all
  show "op_id tx_ops (op_set tx_ops u t) = op_id tx_ops t" by (cases u) simp_all
  show "op_same tx_ops u (op_set_version tx_ops n t) = op_same tx_ops u t" by (cases u) simp_all
  show "op_set tx_ops u (op_set_version tx_ops n t) = op_set_version tx_ops n (op_set tx_ops u t)"
    by (cases u) simp_all
  show "op_version tx_ops (op_set_version tx_ops n t) = n" by simp
  show "op_id tx_ops (op_set_version tx_ops n t) = op_id tx_ops t" by simp
  show "op_set_version tx_ops n (op_set_version tx_ops m t) = op_set_version tx_ops n t" by simp
  show "op_set tx_ops u t = t" if "op_same tx_ops u t" using that by (cases u) auto
  show "op_same tx_ops u (op_set tx_ops v t) = op_same tx_ops u t"
    if "op_key tx_ops u \<noteq> op_key tx_ops v" using that by (cases u; cases v) simp_all
  show "op_set tx_ops u (op_set tx_ops v t) = op_set tx_ops v (op_set tx_ops u t)"
    if "op_key tx_ops u \<noteq> op_key tx_ops v" using that by (cases u; cases v) simp_all
qed

text \<open>The update a sent field stands for; a \<open>null\<close> is refused before for the first kind.\<close>

definition required_update :: "('a \<Rightarrow> 'u) \<Rightarrow> 'a option option \<Rightarrow> 'u list" where
  "required_update upd v = (case v of Some (Some x) \<Rightarrow> [upd x] | _ \<Rightarrow> [])"

definition nullable_update :: "('a option \<Rightarrow> 'u) \<Rightarrow> 'a option option \<Rightarrow> 'u list" where
  "nullable_update upd v = (case v of Some x \<Rightarrow> [upd x] | None \<Rightarrow> [])"

definition is_null :: "'a option option \<Rightarrow> bool" where
  "is_null v \<longleftrightarrow> v = Some None"

text \<open>\<open>patch_data.get(field, current)\<close>.\<close>

definition get_or :: "'a option \<Rightarrow> 'a \<Rightarrow> 'a" where
  "get_or v current = (case v of Some x \<Rightarrow> x | None \<Rightarrow> current)"

definition transaction_null_fields :: "transaction_patch \<Rightarrow> string list" where
  "transaction_null_fields p =
     sort (map fst (filter snd
       [(''occurred_on'', is_null (tp_occurred_on p)), (''flow_type'', is_null (tp_flow_type p)),
        (''amount'', is_null (tp_amount p)), (''currency'', is_null (tp_currency p)),
        (''memo'', is_null (tp_memo p))]))"

definition patch_owner_fields ::
  "db \<Rightarrow> pystr \<Rightarrow> transaction \<Rightarrow> transaction_patch \<Rightarrow> http_error + (pystr option \<times> pystr option) option" where
  "patch_owner_fields d household_id t p =
     (if tp_owner_user_id p \<noteq> None \<or> tp_owner_name p \<noteq> None then
        map_sum id Some
          (resolve_owner_fields d household_id (get_or (tp_owner_user_id p) (tx_owner_user_id t))
             (get_or (tp_owner_name p) (tx_owner_name t)) ''TRANSACTION_OWNER_INVALID'')
      else Inr None)"

text \<open>\<open>patch_data\<close> once normalised: \<open>owner\<close> is the resolved pair of owner fields.\<close>

definition transaction_patch_data ::
  "transaction_patch \<Rightarrow> (pystr option \<times> pystr option) option \<Rightarrow> transaction_update list" where
  "transaction_patch_data p owner =
     required_update Upd_occurred_on (tp_occurred_on p)
     @ required_update Upd_flow_type (tp_flow_type p)
     @ required_update Upd_amount (tp_amount p)
     @ nullable_update Upd_installment_months (tp_installment_months p)
     @ required_update Upd_currency (map_option (map_option py_upper) (tp_currency p))
     @ nullable_update Upd_category_id (tp_category_id p)
     @ required_update Upd_memo (map_option (map_option py_strip) (tp_memo p))
     @ (case owner of None \<Rightarrow> [] | Some (uid, name) \<Rightarrow> [Upd_owner_user_id uid, Upd_owner_name name])"

definition next_flow_type :: "transaction \<Rightarrow> transaction_patch \<Rightarrow> flow_type" where
  "next_flow_type t p = (case tp_flow_type p of Some (Some f) \<Rightarrow> f | _ \<Rightarrow> tx_flow_type t)"

text \<open>The row the merge leaves behind, with the order key of its new day and the time stamp.\<close>

definition finish_patch :: "env \<Rightarrow> db \<Rightarrow> string list \<Rightarrow> transaction \<Rightarrow> transaction" where
  "finish_patch ev d changed_fields t =
     (if ''occurred_on'' \<in> set changed_fields
      then t\<lparr>tx_order_key := next_append_order_key d (tx_household_id t) (tx_occurred_on t) (Some (tx_id t)),
             tx_updated_at := ev_db_now ev\<rparr>
      else t\<lparr>tx_updated_at := ev_db_now ev\<rparr>)"

definition write_transaction :: "db \<Rightarrow> transaction \<Rightarrow> patch_log list \<Rightarrow> db" where
  "write_transaction c t new_logs =
     set_patch_logs (db_patch_logs c @ new_logs)
       (set_transactions (row_update tx_id (tx_id t) (\<lambda>_. t) (db_transactions c)) c)"

text \<open>
  \<open>patch_transaction\<close>.  The row is locked (\<open>with_for_update\<close>), so \<open>interleave\<close> may change
  other tables and other rows before the commit.
\<close>

definition patch_transaction ::
  "env \<Rightarrow> (db \<Rightarrow> db) \<Rightarrow> db \<Rightarrow> ctx \<Rightarrow> pystr \<Rightarrow> pystr \<Rightarrow> transaction_patch \<Rightarrow> transaction_read outcome" where
  "patch_transaction ev interleave d ctx user_id transaction_id p =
     (let household_id = hh_id (fst ctx)
      in case find (\<lambda>t. tx_id t = transaction_id \<and> tx_household_id t = household_id) (db_transactions d) of
           None \<Rightarrow> fail d (HttpDetail 404 ''transaction not found'')
         | Some t \<Rightarrow>
        (if transaction_null_fields p \<noteq> [] then
           fail d (AppErrorCtx 400 ''TRANSACTION_PATCH_NULL_NOT_ALLOWED'' (map lit (transaction_null_fields p)))
         else case patch_owner_fields d household_id t p of
           Inl e \<Rightarrow> fail d e
         | Inr owner \<Rightarrow>
        (if get_or (tp_installment_months p) (tx_installment_months t) \<noteq> None
            \<and> next_flow_type t p \<noteq> Flow_expense then
           fail d (AppError 400 ''TRANSACTION_INSTALLMENT_FLOW_TYPE_MISMATCH'')
         else case check_category d household_id (get_or (tp_category_id p) (tx_category_id t))
                     (next_flow_type t p) of
           Some e \<Rightarrow> fail d e
         | None \<Rightarrow>
        (case merge_patch_or_raise tx_ops (db_patch_logs d) t household_id (Some user_id)
                (tp_base_version p) (transaction_patch_data p owner) of
           Inl e \<Rightarrow> fail d e
         | Inr (merged, changed_fields, t', new_logs) \<Rightarrow>
        (if changed_fields = [] then answer_with d [] (load_transaction_read d transaction_id)
         else
           (let c = interleave d; t'' = finish_patch ev d changed_fields t'
            in if \<not> category_fk_ok c (tx_category_id t'')
               then fail c (AppError 400 ''CATEGORY_INVALID'')
               else (let c' = write_transaction c t'' new_logs
                     in answer_with c'
                          [(household_id, Transaction_patched transaction_id (tx_version t'') changed_fields merged)]
                          (load_transaction_read c' transaction_id))))))))"

subsection \<open>Deleting transactions\<close>

definition bulk_delete_transactions :: "db \<Rightarrow> ctx \<Rightarrow> pystr list \<Rightarrow> (nat \<times> pystr list) outcome" where
  "bulk_delete_transactions d ctx transaction_ids =
     (let household_id = hh_id (fst ctx);
          deleted_ids = dedup transaction_ids;
          found_ids = map tx_id (filter (\<lambda>t. tx_id t \<in> set deleted_ids \<and> tx_household_id t = household_id)
                        (db_transactions d))
      in if card (set found_ids) \<noteq> length deleted_ids then
           fail d (AppErrorCtx 404 ''TRANSACTION_BULK_DELETE_NOT_FOUND''
             (filter (\<lambda>i. i \<notin> set found_ids) deleted_ids))
         else
           done_with
             (set_transactions (filter (\<lambda>t. tx_id t \<notin> set deleted_ids) (db_transactions d)) d)
             [(household_id, Transaction_bulk_deleted deleted_ids)]
             (length deleted_ids, deleted_ids))"

definition delete_transaction :: "db \<Rightarrow> ctx \<Rightarrow> pystr \<Rightarrow> unit outcome" where
  "delete_transaction d ctx transaction_id =
     (case row_get tx_id transaction_id (db_transactions d) of
        None \<Rightarrow> fail d (HttpDetail 404 ''transaction not found'')
      | Some t \<Rightarrow>
          (if tx_household_id t \<noteq> hh_id (fst ctx) then fail d (HttpDetail 404 ''transaction not found'')
           else done_with (set_transactions (row_delete tx_id transaction_id (db_transactions d)) d)
                  [(hh_id (fst ctx), Transaction_deleted transaction_id)] ()))"

subsection \<open>Listing transactions\<close>

definition list_ordering :: "transaction \<Rightarrow> (int \<times> int \<times> int) \<times> int \<times> instant \<times> pystr" where
  "list_ordering t = (date_desc (tx_occurred_on t), tx_order_key t, tx_created_at t, tx_id t)"

text \<open>The filter on \<open>occurred_on\<close> the query parameters stand for.\<close>

definition list_filter ::
  "int option \<Rightarrow> int option \<Rightarrow> date option \<Rightarrow> date option \<Rightarrow> http_error + (date \<Rightarrow> bool)" where
  "list_filter year month start_date end_date =
     (if (start_date = None) \<noteq> (end_date = None)
      then Inl (HttpDetail 400 ''start_date and end_date must be provided together'')
      else case (start_date, end_date) of
             (Some s, Some e) \<Rightarrow>
               (if e < s then Inl (HttpDetail 400 ''start_date must be <= end_date'')
                else Inr (\<lambda>dt. s \<le> dt \<and> dt \<le> e))
           | _ \<Rightarrow>
          (case (year, month) of
             (Some y, Some m) \<Rightarrow>
               Inr (\<lambda>dt. (y, m, 1) \<le> dt
                      \<and> dt < (if m = 12 then (y + 1, 1, 1) else (y, m + 1, 1)))
           | (Some y, None) \<Rightarrow> Inr (\<lambda>dt. (y, 1, 1) \<le> dt \<and> dt < (y + 1, 1, 1))
           | (None, Some _) \<Rightarrow> Inl (HttpDetail 400 ''month filter requires year'')
           | (None, None) \<Rightarrow> Inr (\<lambda>_. True)))"

definition list_transactions ::
  "db \<Rightarrow> ctx \<Rightarrow> int option \<Rightarrow> int option \<Rightarrow> date option \<Rightarrow> date option \<Rightarrow> nat \<Rightarrow> nat
   \<Rightarrow> http_error + transaction_read list" where
  "list_transactions d ctx year month start_date end_date page_limit page_offset =
     (case list_filter year month start_date end_date of
        Inl e \<Rightarrow> Inl e
      | Inr ok \<Rightarrow>
          Inr (map (\<lambda>t. to_transaction_read t (linked_owner_name d (tx_owner_user_id t)))
            (take page_limit (drop page_offset (sort_key list_ordering
               (filter (\<lambda>t. tx_household_id t = hh_id (fst ctx) \<and> ok (tx_occurred_on t))
                  (db_transactions d)))))))"

subsection \<open>The invariant of the table\<close>

text \<open>
  A category link names a category of the same household and flow type, instalments are
  for expenses only, identifiers are unique and a source reference is used once in a
  household (\<open>uq_transaction_source_ref\<close>).
\<close>

definition category_link_ok :: "db \<Rightarrow> transaction \<Rightarrow> bool" where
  "category_link_ok d t =
     (case tx_category_id t of
        None \<Rightarrow> True
      | Some i \<Rightarrow> (case row_get ct_id i (db_categories d) of
          None \<Rightarrow> False
        | Some c \<Rightarrow> ct_household_id c = tx_household_id t \<and> ct_flow_type c = tx_flow_type t))"

definition transaction_ok :: "db \<Rightarrow> transaction \<Rightarrow> bool" where
  "transaction_ok d t \<longleftrightarrow>
     category_link_ok d t \<and> (tx_installment_months t \<noteq> None \<longrightarrow> tx_flow_type t = Flow_expense)
     \<and> tx_category_id t \<noteq> Some []"

definition source_refs_unique :: "db \<Rightarrow> bool" where
  "source_refs_unique d \<longleftrightarrow>
     distinct (map (\<lambda>t. (tx_household_id t, tx_source_ref t))
       (filter (\<lambda>t. tx_source_ref t \<noteq> None) (db_transactions d)))"

definition transactions_inv :: "db \<Rightarrow> bool" where
  "transactions_inv d \<longleftrightarrow>
     unique_keys tx_id (db_transactions d) \<and> source_refs_unique d
     \<and> list_all (transaction_ok d) (db_transactions d)"

text \<open>Other sessions may delete categories, but a category they leave keeps household and flow type.\<close>

definition categories_stable :: "db \<Rightarrow> db \<Rightarrow> bool" where
  "categories_stable d c \<longleftrightarrow>
     (\<forall>k \<in> set (db_categories c). \<forall>k' \<in> set (db_categories d). ct_id k = ct_id k' \<longrightarrow>
        ct_household_id k = ct_household_id k' \<and> ct_flow_type k = ct_flow_type k')"

lemma categories_stable_refl: "unique_keys ct_id (db_categories d) \<Longrightarrow> categories_stable d d"
  by (auto simp: categories_stable_def unique_keys_def distinct_map inj_on_def)

text \<open>A check that passed, seen from the state the commit finds.\<close>

lemma check_category_commit:
  assumes ok: "check_category d h cid f = None" and st: "categories_stable d c"
    and fk: "category_fk_ok c cid" and t: "tx_category_id t = cid" "tx_household_id t = h" "tx_flow_type t = f"
    and ne: "cid \<noteq> Some []"
  shows "category_link_ok c t"
proof (cases cid)
  case None
  with t show ?thesis by (simp add: category_link_ok_def)
next
  case (Some i)
  with fk obtain k where k: "row_get ct_id i (db_categories c) = Some k"
    by (auto simp: category_fk_ok_def)
  from ok Some ne obtain k' where k': "row_get ct_id i (db_categories d) = Some k'"
    "ct_household_id k' = h" "ct_flow_type k' = f"
    by (auto simp: check_category_def truthy_text_def ensure_category_flow_matches_def
        split: option.splits if_splits)
  have "ct_household_id k = ct_household_id k' \<and> ct_flow_type k = ct_flow_type k'"
    using st row_get_SomeD [OF k] row_get_SomeD [OF k'(1)] unfolding categories_stable_def by simp
  with Some k k' t show ?thesis by (simp add: category_link_ok_def)
qed

lemma transaction_ok_cong:
  "db_categories d' = db_categories d \<Longrightarrow> transaction_ok d' t = transaction_ok d t"
  by (simp add: transaction_ok_def category_link_ok_def cong: option.case_cong)

lemma by_source_ref_None_iff:
  "by_source_ref d h r = None \<longleftrightarrow> (h, Some r) \<notin> (\<lambda>t. (tx_household_id t, tx_source_ref t)) ` set (db_transactions d)"
  by (auto simp: by_source_ref_def find_None_iff)

text \<open>A change of the rows that keeps what the invariant reads keeps the invariant.\<close>

lemma transactions_inv_map:
  assumes "transactions_inv d" "db_categories d' = db_categories d"
    and "db_transactions d' = map f (db_transactions d)"
    and "\<And>t. t \<in> set (db_transactions d) \<Longrightarrow> tx_id (f t) = tx_id t \<and> tx_household_id (f t) = tx_household_id t
           \<and> tx_source_ref (f t) = tx_source_ref t"
    and "\<And>t. t \<in> set (db_transactions d) \<Longrightarrow> transaction_ok d t \<Longrightarrow> transaction_ok d (f t)"
  shows "transactions_inv d'"
proof -
  have "map tx_id (db_transactions d') = map tx_id (db_transactions d)"
    using assms(3,4) by simp
  then have "unique_keys tx_id (db_transactions d')"
    using assms(1) by (simp only: transactions_inv_def unique_keys_def)
  moreover
  have refs: "map (\<lambda>t. (tx_household_id t, tx_source_ref t)) (filter (\<lambda>t. tx_source_ref t \<noteq> None) (map f ts))
      = map (\<lambda>t. (tx_household_id t, tx_source_ref t)) (filter (\<lambda>t. tx_source_ref t \<noteq> None) ts)"
    if "set ts \<subseteq> set (db_transactions d)" for ts
    using that assms(4) by (induction ts) auto
  have "source_refs_unique d'"
    using assms(1) unfolding transactions_inv_def source_refs_unique_def assms(3) refs [OF order_refl]
    by blast
  moreover have "list_all (transaction_ok d') (db_transactions d')"
    using assms(1,5) unfolding list_all_iff assms(3) transaction_ok_cong [OF assms(2)]
      transactions_inv_def by auto
  ultimately show ?thesis by (simp only: transactions_inv_def)
qed

lemma transactions_inv_filter:
  assumes "transactions_inv d"
  shows "transactions_inv (set_transactions (filter p (db_transactions d)) d)"
proof -
  have "distinct (map k (filter q (filter p ts)))" if "distinct (map k (filter q ts))"
    for k :: "transaction \<Rightarrow> pystr \<times> pystr option" and q ts
    using that by (induction ts) auto
  moreover have "transaction_ok (set_transactions ts d) t = transaction_ok d t" for ts t
    by (rule transaction_ok_cong) simp
  ultimately show ?thesis
    using assms
    by (auto simp: transactions_inv_def unique_keys_filter source_refs_unique_def list_all_iff)
qed

lemma rebalance_inv:
  "transactions_inv d \<Longrightarrow> transactions_inv (rebalance_order_keys ev d h day)"
  by (erule transactions_inv_map
        [where f = "rekey ev (same_day_transactions d h day)"])
    (auto simp: rebalance_order_keys_def rekey_def set_order_key_def transaction_ok_def
      category_link_ok_def split: option.splits)

lemma rebalance_db [simp]:
  "db_categories (rebalance_order_keys ev d h day) = db_categories d"
  "db_users (rebalance_order_keys ev d h day) = db_users d"
  "map tx_id (db_transactions (rebalance_order_keys ev d h day)) = map tx_id (db_transactions d)"
  by (simp_all add: rebalance_order_keys_def)

lemma allocate_inv:
  assumes "transactions_inv d" "allocate_order_key ev d h day a pos = Inr (k, d')"
  shows "transactions_inv d'" "db_categories d' = db_categories d"
    "map tx_id (db_transactions d') = map tx_id (db_transactions d)"
proof -
  let ?P = "\<lambda>c. transactions_inv c \<and> db_categories c = db_categories d
    \<and> map tx_id (db_transactions c) = map tx_id (db_transactions d)"
  have "?P d'"
    by (rule allocate_preserves [where P = ?P, OF _ _ assms(2)]) (use assms(1) in \<open>simp_all add: rebalance_inv\<close>)
  then show "transactions_inv d'" "db_categories d' = db_categories d"
    "map tx_id (db_transactions d') = map tx_id (db_transactions d)" by blast+
qed

subsection \<open>What the operations do to the table\<close>

lemma commit_transaction_InrD:
  assumes "commit_transaction c t = Inr c'"
  shows "c' = set_transactions (db_transactions c @ [t]) c"
    and "tx_source_ref t = Some r \<Longrightarrow> by_source_ref c (tx_household_id t) r = None"
    and "category_fk_ok c (tx_category_id t)"
  using assms by (auto simp: commit_transaction_def split: if_splits option.splits)

lemma commit_transaction_inv:
  assumes inv: "transactions_inv c" and ok: "commit_transaction c t = Inr c'"
    and fresh: "tx_id t \<notin> tx_id ` set (db_transactions c)" and t: "transaction_ok c t"
  shows "transactions_inv c'"
proof -
  note c' = commit_transaction_InrD(1) [OF ok] and ref = commit_transaction_InrD(2) [OF ok]
  have "unique_keys tx_id (db_transactions c')"
    using inv fresh by (simp add: c' transactions_inv_def unique_keys_append row_get_None_iff)
  moreover have "source_refs_unique c'"
  proof (cases "tx_source_ref t")
    case None
    with inv show ?thesis by (simp add: c' transactions_inv_def source_refs_unique_def)
  next
    case (Some r)
    with ref have "(tx_household_id t, Some r) \<notin>
        (\<lambda>t. (tx_household_id t, tx_source_ref t)) ` set (db_transactions c)"
      by (simp add: by_source_ref_None_iff)
    with inv Some show ?thesis
      by (auto simp: c' transactions_inv_def source_refs_unique_def)
  qed
  moreover have "list_all (transaction_ok c') (db_transactions c')"
    using inv t transaction_ok_cong [of c' c] by (simp add: c' transactions_inv_def list_all_iff)
  ultimately show ?thesis by (simp only: transactions_inv_def)
qed

lemma validated_create:
  assumes "validate_transaction_create raw = Some p"
  shows "tc_category_id p \<noteq> Some []"
    and "tc_installment_months p \<noteq> None \<Longrightarrow> tc_flow_type p = Flow_expense"
    and "normalize_optional_text (tc_source_ref p) = tc_source_ref p"
proof -
  have n: "normalize_optional_text v \<noteq> Some []" for v
    by (auto dest: normalize_optional_text_SomeD)
  from assms n show "tc_category_id p \<noteq> Some []"
    by (auto simp: validate_transaction_create_def split: option.splits if_splits)
  from assms show "tc_installment_months p \<noteq> None \<Longrightarrow> tc_flow_type p = Flow_expense"
    by (auto simp: validate_transaction_create_def split: option.splits if_splits)
  from assms show "normalize_optional_text (tc_source_ref p) = tc_source_ref p"
    by (auto simp: validate_transaction_create_def split: option.splits if_splits)
qed

text \<open>The four ends of \<open>insert_transaction\<close>.\<close>

lemma insert_transaction_cases:
  obtains (failed) e where "insert_transaction ev c h user_id p uid name = fail c e"
    | (replayed) i where "replay_by_source_ref c h p = Some i"
        "insert_transaction ev c h user_id p uid name =
           answer_with c [] (map_sum id (Pair False) (load_transaction_read c i))"
    | (inserted) k c1 c2 where
        "allocate_order_key ev c h (tc_occurred_on p) (tc_anchor_transaction_id p)
           (tc_insert_position p) = Inr (k, c1)"
        "commit_transaction c1 (new_transaction ev h user_id p uid name k) = Inr c2"
        "insert_transaction ev c h user_id p uid name =
           answer_with c2 [(h, Transaction_created (ev_new_id ev) 1)]
             (map_sum id (Pair True) (load_transaction_read c2 (ev_new_id ev)))"
proof (cases "allocate_order_key ev c h (tc_occurred_on p) (tc_anchor_transaction_id p)
    (tc_insert_position p)")
  case (Inl e)
  then show ?thesis by (intro failed) (simp add: insert_transaction_def)
next
  case (Inr kc)
  obtain k c1 where kc: "kc = (k, c1)" by force
  let ?com = "commit_transaction c1 (new_transaction ev h user_id p uid name k)"
  show ?thesis
  proof (cases ?com)
    case (Inr c2)
    with \<open>_ = Inr kc\<close> kc show ?thesis by (intro inserted) (simp_all add: insert_transaction_def)
  next
    case (Inl ie)
    show ?thesis
    proof (cases ie)
      case Category_fk_violation
      with Inl \<open>_ = Inr kc\<close> kc show ?thesis by (intro failed) (simp add: insert_transaction_def)
    next
      case Source_ref_violation
      show ?thesis
      proof (cases "replay_by_source_ref c h p")
        case None
        with Source_ref_violation Inl \<open>_ = Inr kc\<close> kc show ?thesis
          by (intro failed) (simp add: insert_transaction_def)
      next
        case (Some i)
        with Source_ref_violation Inl \<open>_ = Inr kc\<close> kc show ?thesis
          by (intro replayed) (simp_all add: insert_transaction_def)
      qed
    qed
  qed
qed

text \<open>The ends of \<open>create_transaction\<close>.\<close>

lemma create_transaction_cases:
  obtains (failed) e where "create_transaction ev w d ctx user_id p = fail d e"
    | (replayed) i where "create_transaction ev w d ctx user_id p =
         answer_with d [] (map_sum id (Pair False) (load_transaction_read d i))"
    | (insert) uid name where
        "check_category d (hh_id (fst ctx)) (tc_category_id p) (tc_flow_type p) = None"
        "owner_fields_ok d (hh_id (fst ctx)) uid name"
        "replay_by_source_ref d (hh_id (fst ctx)) p = None"
        "create_transaction ev w d ctx user_id p =
           insert_transaction ev (w d) (hh_id (fst ctx)) user_id p uid name"
proof -
  let ?h = "hh_id (fst ctx)"
  consider (a) i where "replay_by_source_ref d ?h p = Some i"
    | (b) e where "replay_by_source_ref d ?h p = None"
        "check_category d ?h (tc_category_id p) (tc_flow_type p) = Some e"
    | (c) e where "replay_by_source_ref d ?h p = None"
        "check_category d ?h (tc_category_id p) (tc_flow_type p) = None"
        "resolve_owner_fields d ?h (tc_owner_user_id p) (tc_owner_name p) ''TRANSACTION_OWNER_INVALID'' = Inl e"
    | (d) uid name where "replay_by_source_ref d ?h p = None"
        "check_category d ?h (tc_category_id p) (tc_flow_type p) = None"
        "resolve_owner_fields d ?h (tc_owner_user_id p) (tc_owner_name p) ''TRANSACTION_OWNER_INVALID'' = Inr (uid, name)"
    by (metis not_None_eq sum.exhaust prod.exhaust)
  then show ?thesis
  proof cases
    case a
    then show ?thesis by (intro replayed) (simp add: create_transaction_def)
  next
    case b
    then show ?thesis by (intro failed) (simp add: create_transaction_def)
  next
    case c
    then show ?thesis by (intro failed) (simp add: create_transaction_def)
  next
    case d
    show ?thesis
    proof (cases "replay_recent ev d ?h user_id p uid name")
      case (Some i)
      with d show ?thesis by (intro replayed) (simp add: create_transaction_def)
    next
      case None
      with d resolve_owner_fields_ok [OF d(3)] show ?thesis
        by (intro insert) (simp_all add: create_transaction_def)
    qed
  qed
qed

lemma insert_transaction_inv:
  assumes inv: "transactions_inv c" and st: "categories_stable d c"
    and cat: "check_category d h (tc_category_id p) (tc_flow_type p) = None"
    and val: "validate_transaction_create raw = Some p"
    and fresh: "ev_new_id ev \<notin> tx_id ` set (db_transactions c)"
  shows "transactions_inv (outcome_db (insert_transaction ev c h user_id p uid name))"
proof (cases rule: insert_transaction_cases [of ev c h user_id p uid name])
  case (inserted k c1 c2)
  let ?t = "new_transaction ev h user_id p uid name k"
  note al = allocate_inv [OF inv inserted(1)]
  have fk: "category_fk_ok c1 (tc_category_id p)"
    using commit_transaction_InrD(3) [OF inserted(2)] by (simp add: new_transaction_def)
  have "categories_stable d c1"
    using st by (simp add: categories_stable_def al(2))
  from check_category_commit [OF cat this fk, of ?t] validated_create [OF val]
  have "transaction_ok c1 ?t"
    by (simp add: transaction_ok_def new_transaction_def)
  moreover have "tx_id ?t \<notin> tx_id ` set (db_transactions c1)"
    using fresh al(3) by (metis (no_types, lifting) image_set new_transaction_def transaction.select_convs(1))
  ultimately have "transactions_inv c2"
    using commit_transaction_inv [OF al(1) inserted(2)] by blast
  with inserted show ?thesis by simp
qed (use inv in simp_all)

lemma write_transaction_inv:
  assumes inv: "transactions_inv c" and old: "row_get tx_id (tx_id t) (db_transactions c) = Some t0"
    and t: "tx_household_id t = tx_household_id t0" "tx_source_ref t = tx_source_ref t0"
    and ok: "transaction_ok c t"
  shows "transactions_inv (write_transaction c t new_logs)"
proof (rule transactions_inv_map [OF inv, where f = "\<lambda>r. if tx_id r = tx_id t then t else r"])
  show "db_categories (write_transaction c t new_logs) = db_categories c"
    by (simp add: write_transaction_def)
  show "db_transactions (write_transaction c t new_logs) =
      map (\<lambda>r. if tx_id r = tx_id t then t else r) (db_transactions c)"
    by (simp add: write_transaction_def row_update_def)
next
  fix r assume r: "r \<in> set (db_transactions c)"
  have "r = t0" if "tx_id r = tx_id t"
    using row_get_unique [OF _ r, of tx_id] inv old that by (simp add: transactions_inv_def)
  then show "tx_id (if tx_id r = tx_id t then t else r) = tx_id r \<and>
      tx_household_id (if tx_id r = tx_id t then t else r) = tx_household_id r \<and>
      tx_source_ref (if tx_id r = tx_id t then t else r) = tx_source_ref r"
    using t by auto
  show "transaction_ok c r \<Longrightarrow> transaction_ok c (if tx_id r = tx_id t then t else r)"
    using ok by simp
qed

text \<open>The fields of the row a successful merge produces.\<close>

lemma in_required_update: "u \<in> set (required_update upd v) \<Longrightarrow> \<exists>x. u = upd x \<and> v = Some (Some x)"
  by (auto simp: required_update_def split: option.splits)

lemma in_nullable_update: "u \<in> set (nullable_update upd v) \<Longrightarrow> \<exists>x. u = upd x \<and> v = Some x"
  by (auto simp: nullable_update_def split: option.splits)

lemma distinct_required_update [simp]: "distinct (map key (required_update upd v))"
  by (auto simp: required_update_def split: option.splits)

lemma distinct_nullable_update [simp]: "distinct (map key (nullable_update upd v))"
  by (auto simp: nullable_update_def split: option.splits)

lemma distinct_patch_keys:
  "distinct (map transaction_update_key (transaction_patch_data p owner))"
proof -
  have "distinct (map transaction_update_key
      (case owner of None \<Rightarrow> [] | Some (uid, name) \<Rightarrow> [Upd_owner_user_id uid, Upd_owner_name name]))"
    by (simp split: option.split)
  moreover have "u = Upd_owner_user_id uid \<or> u = Upd_owner_name name"
    if "u \<in> set (case owner of None \<Rightarrow> [] | Some (uid, name) \<Rightarrow> [Upd_owner_user_id uid, Upd_owner_name name])"
      "owner = Some (uid, name)" for u uid name
    using that by auto
  ultimately show ?thesis
    unfolding transaction_patch_data_def
    by (auto dest!: in_required_update in_nullable_update split: option.splits)
qed

lemma apply_updates_fixed:
  "tx_id (apply_updates tx_ops us t) = tx_id t"
  "tx_household_id (apply_updates tx_ops us t) = tx_household_id t"
  "tx_source_ref (apply_updates tx_ops us t) = tx_source_ref t"
  "tx_order_key (apply_updates tx_ops us t) = tx_order_key t"
  "tx_created_at (apply_updates tx_ops us t) = tx_created_at t"
proof -
  have *: "tx_id (transaction_set u t) = tx_id t \<and> tx_household_id (transaction_set u t) = tx_household_id t
      \<and> tx_source_ref (transaction_set u t) = tx_source_ref t \<and> tx_order_key (transaction_set u t) = tx_order_key t
      \<and> tx_created_at (transaction_set u t) = tx_created_at t" for u t
    by (cases u) simp_all
  have "tx_id (apply_updates tx_ops us t) = tx_id t \<and>
      tx_household_id (apply_updates tx_ops us t) = tx_household_id t \<and>
      tx_source_ref (apply_updates tx_ops us t) = tx_source_ref t \<and>
      tx_order_key (apply_updates tx_ops us t) = tx_order_key t \<and>
      tx_created_at (apply_updates tx_ops us t) = tx_created_at t"
    by (induction us arbitrary: t) (simp_all add: apply_updates_def *)
  then show "tx_id (apply_updates tx_ops us t) = tx_id t"
    "tx_household_id (apply_updates tx_ops us t) = tx_household_id t"
    "tx_source_ref (apply_updates tx_ops us t) = tx_source_ref t"
    "tx_order_key (apply_updates tx_ops us t) = tx_order_key t"
    "tx_created_at (apply_updates tx_ops us t) = tx_created_at t" by blast+
qed

lemma merge_fixed:
  assumes "merge_patch_or_raise tx_ops logs t hh actor base us = Inr (merged, flds, t', new)"
  shows "tx_id t' = tx_id t" "tx_household_id t' = tx_household_id t" "tx_source_ref t' = tx_source_ref t"
  using assms by (cases rule: merge_okE; simp add: apply_updates_fixed)+

text \<open>The value a field has after the merge is the one the payload asks for, or the old one.\<close>

lemma merged_field:
  assumes ok: "merge_patch_or_raise tx_ops logs t hh actor base us = Inr (merged, flds, t', new)"
    and dist: "distinct (map transaction_update_key us)"
  shows "upd \<in> set us \<Longrightarrow> transaction_same upd t'"
    and "transaction_update_key w \<notin> transaction_update_key ` set us \<Longrightarrow>
         transaction_same w t' = transaction_same w t"
proof -
  show "upd \<in> set us \<Longrightarrow> transaction_same upd t'"
    using tx_patch.merge_sets [OF ok] dist by simp
  have "set flds \<subseteq> transaction_update_key ` set us"
    using ok by (cases rule: merge_okE) (auto simp: effective_patch_def)
  then show "transaction_update_key w \<notin> transaction_update_key ` set us \<Longrightarrow>
         transaction_same w t' = transaction_same w t"
    using tx_patch.merge_keeps [OF ok, of w] by auto
qed

lemma merged_transaction:
  assumes ok: "merge_patch_or_raise tx_ops logs t hh actor base (transaction_patch_data p owner) =
        Inr (merged, flds, t', new)"
  shows "tx_category_id t' = get_or (tp_category_id p) (tx_category_id t)"
    and "tx_flow_type t' = next_flow_type t p"
    and "tx_installment_months t' = get_or (tp_installment_months p) (tx_installment_months t)"
proof -
  let ?us = "transaction_patch_data p owner"
  note m = merged_field [OF ok distinct_patch_keys]
  show "tx_category_id t' = get_or (tp_category_id p) (tx_category_id t)"
  proof (cases "tp_category_id p")
    case None
    then have "''category_id'' \<notin> transaction_update_key ` set ?us"
      by (auto simp: transaction_patch_data_def nullable_update_def split: option.splits
          dest!: in_required_update)
    with m(2) [of "Upd_category_id (tx_category_id t)"] None show ?thesis by (simp add: get_or_def)
  next
    case (Some v)
    then have "Upd_category_id v \<in> set ?us"
      by (simp add: transaction_patch_data_def nullable_update_def)
    with m(1) Some show ?thesis by (force simp: get_or_def)
  qed
  show "tx_installment_months t' = get_or (tp_installment_months p) (tx_installment_months t)"
  proof (cases "tp_installment_months p")
    case None
    then have "''installment_months'' \<notin> transaction_update_key ` set ?us"
      by (auto simp: transaction_patch_data_def nullable_update_def split: option.splits
          dest!: in_required_update)
    with m(2) [of "Upd_installment_months (tx_installment_months t)"] None
    show ?thesis by (simp add: get_or_def)
  next
    case (Some v)
    then have "Upd_installment_months v \<in> set ?us"
      by (simp add: transaction_patch_data_def nullable_update_def)
    with m(1) Some show ?thesis by (force simp: get_or_def)
  qed
  show "tx_flow_type t' = next_flow_type t p"
  proof (cases "\<exists>f. tp_flow_type p = Some (Some f)")
    case False
    then have "''flow_type'' \<notin> transaction_update_key ` set ?us"
      by (auto simp: transaction_patch_data_def split: option.splits
          dest!: in_required_update in_nullable_update)
    with m(2) [of "Upd_flow_type (tx_flow_type t)"] False
    show ?thesis by (auto simp: next_flow_type_def split: option.splits)
  next
    case True
    then obtain f where f: "tp_flow_type p = Some (Some f)" by blast
    then have "Upd_flow_type f \<in> set ?us"
      by (simp add: transaction_patch_data_def required_update_def)
    with m(1) f show ?thesis by (force simp: next_flow_type_def)
  qed
qed

lemma finish_patch_fields [simp]:
  "tx_id (finish_patch ev d flds t) = tx_id t"
  "tx_household_id (finish_patch ev d flds t) = tx_household_id t"
  "tx_source_ref (finish_patch ev d flds t) = tx_source_ref t"
  "tx_category_id (finish_patch ev d flds t) = tx_category_id t"
  "tx_flow_type (finish_patch ev d flds t) = tx_flow_type t"
  "tx_installment_months (finish_patch ev d flds t) = tx_installment_months t"
  "tx_version (finish_patch ev d flds t) = tx_version t"
  by (simp_all add: finish_patch_def)

text \<open>The ends of \<open>patch_transaction\<close>.\<close>

lemma patch_transaction_cases:
  obtains (failed) e where "patch_transaction ev w d ctx user_id i p = fail d e"
    | (unchanged) "patch_transaction ev w d ctx user_id i p = answer_with d [] (load_transaction_read d i)"
    | (fk) "patch_transaction ev w d ctx user_id i p = fail (w d) (AppError 400 ''CATEGORY_INVALID'')"
    | (patched) t owner merged flds t' new where
        "t \<in> set (db_transactions d)" "tx_id t = i" "tx_household_id t = hh_id (fst ctx)"
        "transaction_null_fields p = []"
        "patch_owner_fields d (hh_id (fst ctx)) t p = Inr owner"
        "get_or (tp_installment_months p) (tx_installment_months t) = None \<or> next_flow_type t p = Flow_expense"
        "check_category d (hh_id (fst ctx)) (get_or (tp_category_id p) (tx_category_id t))
           (next_flow_type t p) = None"
        "merge_patch_or_raise tx_ops (db_patch_logs d) t (hh_id (fst ctx)) (Some user_id)
           (tp_base_version p) (transaction_patch_data p owner) = Inr (merged, flds, t', new)"
        "flds \<noteq> []"
        "category_fk_ok (w d) (tx_category_id t')"
        "patch_transaction ev w d ctx user_id i p =
           answer_with (write_transaction (w d) (finish_patch ev d flds t') new)
             [(hh_id (fst ctx), Transaction_patched i (tx_version t') flds merged)]
             (load_transaction_read (write_transaction (w d) (finish_patch ev d flds t') new) i)"
proof -
  let ?h = "hh_id (fst ctx)"
  show ?thesis
  proof (cases "find (\<lambda>t. tx_id t = i \<and> tx_household_id t = ?h) (db_transactions d)")
    case None
    then show ?thesis by (intro failed) (simp add: patch_transaction_def)
  next
    case (Some t)
    then have t: "t \<in> set (db_transactions d)" "tx_id t = i" "tx_household_id t = ?h"
      by (auto simp: find_Some_iff)
    show ?thesis
    proof (cases "transaction_null_fields p = []")
      case False
      with Some show ?thesis by (intro failed) (simp add: patch_transaction_def)
    next
      case null: True
      show ?thesis
      proof (cases "patch_owner_fields d ?h t p")
        case (Inl e)
        with Some null show ?thesis by (intro failed) (simp add: patch_transaction_def)
      next
        case owner: (Inr owner)
        show ?thesis
        proof (cases "get_or (tp_installment_months p) (tx_installment_months t) \<noteq> None
            \<and> next_flow_type t p \<noteq> Flow_expense")
          case True
          with Some null owner show ?thesis by (intro failed) (simp add: patch_transaction_def)
        next
          case inst: False
          show ?thesis
          proof (cases "check_category d ?h (get_or (tp_category_id p) (tx_category_id t)) (next_flow_type t p)")
            case (Some e)
            with \<open>find _ _ = Some t\<close> null owner inst show ?thesis
              by (intro failed) (auto simp: patch_transaction_def)
          next
            case cat: None
            let ?m = "merge_patch_or_raise tx_ops (db_patch_logs d) t ?h (Some user_id)
              (tp_base_version p) (transaction_patch_data p owner)"
            show ?thesis
            proof (cases ?m)
              case (Inl e)
              with Some null owner inst cat show ?thesis
                by (intro failed) (auto simp: patch_transaction_def)
            next
              case (Inr r)
              obtain merged flds t' new where r: "r = (merged, flds, t', new)" by (cases r)
              note all = Some null owner inst cat Inr [unfolded r]
              show ?thesis
              proof (cases "flds = []")
                case True
                with all show ?thesis by (intro unchanged) (auto simp: patch_transaction_def)
              next
                case flds: False
                show ?thesis
                proof (cases "category_fk_ok (w d) (tx_category_id t')")
                  case False
                  with all flds show ?thesis
                    by (intro fk) (auto simp: patch_transaction_def Let_def)
                next
                  case True
                  show ?thesis
                    by (rule patched [OF t null owner _ cat Inr [unfolded r] flds True])
                      (use all flds True in \<open>auto simp: patch_transaction_def Let_def\<close>)
                qed
              qed
            qed
          qed
        qed
      qed
    qed
  qed
qed

lemma patch_validated_category:
  "validate_transaction_patch raw = Some p \<Longrightarrow> tp_category_id p \<noteq> Some (Some [])"
  by (auto simp: validate_transaction_patch_def split: if_splits
      dest: normalize_optional_text_SomeD)

text \<open>The rows of the other households.\<close>

definition foreign_transactions :: "pystr \<Rightarrow> db \<Rightarrow> transaction list" where
  "foreign_transactions household_id d =
     filter (\<lambda>t. tx_household_id t \<noteq> household_id) (db_transactions d)"

lemma filter_map_id:
  "(\<And>x. x \<in> set xs \<Longrightarrow> p (f x) = p x) \<Longrightarrow> (\<And>x. x \<in> set xs \<Longrightarrow> p x \<Longrightarrow> f x = x) \<Longrightarrow>
   filter p (map f xs) = filter p xs"
  by (induction xs) auto

lemma rebalanced_keys_dom:
  "rebalanced_keys rows i \<noteq> None \<Longrightarrow> i \<in> tx_id ` set rows"
proof -
  assume "rebalanced_keys rows i \<noteq> None"
  then have "i \<in> fst ` set (map (\<lambda>(index, t). (tx_id t, int index * transaction_order_step))
      (List.enumerate 1 rows))"
    unfolding rebalanced_keys_def by (simp only: map_of_eq_None_iff not_not)
  then show ?thesis
    by (auto simp: in_set_enumerate_eq)
qed

lemma rekey_other:
  assumes "unique_keys tx_id (db_transactions d)" "t \<in> set (db_transactions d)"
    and "tx_household_id t \<noteq> h"
  shows "rekey ev (same_day_transactions d h day) t = t"
proof (rule ccontr)
  assume "rekey ev (same_day_transactions d h day) t \<noteq> t"
  then have "tx_id t \<in> tx_id ` set (same_day_transactions d h day)"
    by (intro rebalanced_keys_dom) (auto simp: rekey_def split: option.splits)
  then obtain t' where "t' \<in> set (db_transactions d)" "on_day h day t'" "tx_id t' = tx_id t"
    by (auto simp: set_same_day)
  moreover from this assms(1,2) have "t' = t"
    by (auto simp: unique_keys_def distinct_map inj_on_def)
  ultimately show False using assms(3) by (simp add: on_day_def)
qed

lemma rebalance_foreign:
  "unique_keys tx_id (db_transactions d) \<Longrightarrow>
   foreign_transactions h (rebalance_order_keys ev d h day) = foreign_transactions h d"
  unfolding foreign_transactions_def
  by (simp add: rebalance_order_keys_def rekey_other filter_map_id)

lemma allocate_foreign:
  assumes "unique_keys tx_id (db_transactions d)"
    and "allocate_order_key ev d h day a pos = Inr (k, d')"
  shows "foreign_transactions h d' = foreign_transactions h d"
proof -
  let ?P = "\<lambda>c. unique_keys tx_id (db_transactions c) \<and> foreign_transactions h c = foreign_transactions h d"
  have "?P d'"
    by (rule allocate_preserves [where P = ?P, OF _ _ assms(2)])
      (use assms(1) in \<open>simp_all add: rebalance_unique rebalance_foreign\<close>)
  then show ?thesis by blast
qed

lemma write_foreign:
  assumes "tx_household_id t = h"
    and "\<And>r. r \<in> set (db_transactions c) \<Longrightarrow> tx_id r = tx_id t \<Longrightarrow> tx_household_id r = h"
  shows "foreign_transactions h (write_transaction c t new) = foreign_transactions h c"
proof -
  have "filter (\<lambda>t. tx_household_id t \<noteq> h) (map (\<lambda>r. if tx_id r = tx_id t then t else r) (db_transactions c))
      = filter (\<lambda>t. tx_household_id t \<noteq> h) (db_transactions c)"
  proof (rule filter_map_id)
    fix r assume r: "r \<in> set (db_transactions c)"
    show "(tx_household_id (if tx_id r = tx_id t then t else r) \<noteq> h) = (tx_household_id r \<noteq> h)"
      using assms(1) assms(2) [OF r] by (cases "tx_id r = tx_id t") simp_all
    show "(if tx_id r = tx_id t then t else r) = r" if "tx_household_id r \<noteq> h"
      using that assms(2) [OF r] by (cases "tx_id r = tx_id t") simp_all
  qed
  then show ?thesis
    by (simp add: foreign_transactions_def write_transaction_def row_update_def)
qed

text \<open>A replay lookup names a row that can be read back.\<close>

lemma replay_answer:
  assumes inv: "transactions_inv d" and r: "replay_by_source_ref d h p = Some i"
  shows "\<exists>row. load_transaction_read d i = Inr row \<and> tr_id row = i"
proof -
  from r obtain t where "t \<in> set (db_transactions d)" "tx_id t = i"
    by (auto simp: replay_by_source_ref_def by_source_ref_def split: option.splits dest: find_SomeD)
  with inv have "row_get tx_id i (db_transactions d) = Some t"
    using row_get_unique [of tx_id "db_transactions d" t] by (simp add: transactions_inv_def)
  with \<open>tx_id t = i\<close> show ?thesis
    by (simp add: load_transaction_read_def to_transaction_read_def)
qed

lemma load_after_commit:
  assumes ok: "commit_transaction c t = Inr c'" and fresh: "tx_id t \<notin> tx_id ` set (db_transactions c)"
  shows "load_transaction_read c' (tx_id t) = Inr (to_transaction_read t (linked_owner_name c (tx_owner_user_id t)))"
    and "tx_source_ref t = Some ref \<Longrightarrow> by_source_ref c' (tx_household_id t) ref = Some t"
proof -
  note c' = commit_transaction_InrD(1) [OF ok]
  have "row_get tx_id (tx_id t) (db_transactions c) = None"
    using fresh by (simp add: row_get_None_iff)
  then have "row_get tx_id (tx_id t) (db_transactions c') = Some t"
    by (simp add: c' row_get_append)
  then show "load_transaction_read c' (tx_id t) = Inr (to_transaction_read t (linked_owner_name c (tx_owner_user_id t)))"
    by (simp add: load_transaction_read_def linked_owner_name_def c' cong: option.case_cong)
  assume "tx_source_ref t = Some ref"
  then have "by_source_ref c (tx_household_id t) ref = None"
    by (rule commit_transaction_InrD(2) [OF ok])
  with \<open>tx_source_ref t = Some ref\<close> show "by_source_ref c' (tx_household_id t) ref = Some t"
    by (simp add: by_source_ref_def c' find_append)
qed

text \<open>\<open>normalize_transaction_ids\<close> of the bulk request; \<open>None\<close> is a validation error.\<close>

definition normalize_transaction_ids :: "pystr list \<Rightarrow> pystr list option" where
  "normalize_transaction_ids value =
     (let ids = map py_strip value
      in if length value < 1 \<or> 500 < length value \<or> [] \<in> set ids then None else Some ids)"

end
