(* ===== verification/Samples.thy ===== *)
theory Samples
  imports Transactions
begin

text \<open>
  A small concrete household on which the witnesses of the properties evaluate: two members,
  one category per flow type used, three transactions of one day.  No definition of this
  theory models code.
\<close>

definition sample_env :: env where
  "sample_env =
     \<lparr>ev_now = seconds 1000, ev_db_now = seconds 1000, ev_new_id = lit ''t9'',
      ev_sql_lower = py_lower, ev_sql_upper = py_upper, ev_sql_trim = py_strip,
      ev_hash_token = id, ev_invite_window_seconds = 3600, ev_invite_max_attempts = 3,
      ev_invite_token_hours = 24, ev_blocks_email_failures = True\<rparr>"

definition sample_user :: "string \<Rightarrow> string \<Rightarrow> user" where
  "sample_user i name =
     \<lparr>us_id = lit i, us_email = lit (i @ ''@x.io''), us_password_hash = [], us_real_name = Some (lit name),
      us_nickname = None, us_display_name_mode = lit ''real_name'', us_display_name = lit name,
      us_email_verified = True, us_email_verified_at = None, us_active_household_id = None,
      us_created_at = 0\<rparr>"

definition sample_member :: "string \<Rightarrow> string \<Rightarrow> string \<Rightarrow> member_role \<Rightarrow> household_member" where
  "sample_member i h u r =
     \<lparr>mb_id = lit i, mb_household_id = lit h, mb_user_id = lit u, mb_role = r, mb_created_at = 0\<rparr>"

definition sample_household :: household where
  "sample_household =
     \<lparr>hh_id = lit ''h1'', hh_name = lit ''Home'', hh_base_currency = lit ''KRW'',
      hh_transaction_row_colors = [], hh_holding_settings = [], hh_created_at = 0\<rparr>"

definition sample_category :: "string \<Rightarrow> string \<Rightarrow> flow_type \<Rightarrow> category" where
  "sample_category i h f =
     \<lparr>ct_id = lit i, ct_household_id = lit h, ct_flow_type = f, ct_major = lit ''food'',
      ct_minor = lit i, ct_sort_order = 100, ct_created_at = 0\<rparr>"

definition sample_tx :: "string \<Rightarrow> int \<Rightarrow> string \<Rightarrow> transaction" where
  "sample_tx i k memo =
     \<lparr>tx_id = lit i, tx_household_id = lit ''h1'', tx_category_id = Some (lit ''c1''),
      tx_flow_type = Flow_expense, tx_occurred_on = (2024, 5, 1), tx_amount = 10,
      tx_installment_months = None, tx_currency = lit ''KRW'', tx_memo = lit memo, tx_order_key = k,
      tx_owner_user_id = None, tx_owner_name = None, tx_source_ref = None, tx_version = 1,
      tx_created_by_user_id = Some (lit ''u1''), tx_created_at = 0, tx_updated_at = 0\<rparr>"

definition sample_db :: db where
  "sample_db =
     \<lparr>db_users = [sample_user ''u1'' ''Ann'', sample_user ''u2'' ''Ben''], db_revoked = [],
      db_households = [sample_household],
      db_members = [sample_member ''m1'' ''h1'' ''u1'' Role_owner, sample_member ''m2'' ''h1'' ''u2'' Role_editor],
      db_invitations = [],
      db_categories = [sample_category ''c1'' ''h1'' Flow_expense, sample_category ''c2'' ''h1'' Flow_income],
      db_transactions = [sample_tx ''t1'' 1 ''a'', sample_tx ''t2'' 2 ''b'', sample_tx ''t3'' 2048 ''c''],
      db_holdings = [], db_patch_logs = []\<rparr>"

definition sample_ctx :: ctx where
  "sample_ctx = (sample_household, sample_member ''m1'' ''h1'' ''u1'' Role_owner)"

definition sample_create :: transaction_create where
  "sample_create =
     \<lparr>tc_occurred_on = (2024, 5, 1), tc_flow_type = Flow_expense, tc_amount = 7,
      tc_installment_months = None, tc_currency = lit ''krw'', tc_category_id = Some (lit '' c1 ''),
      tc_memo = lit ''milk'', tc_owner_user_id = Some (lit ''u2''), tc_owner_name = None,
      tc_source_ref = Some (lit ''ref-1''), tc_anchor_transaction_id = Some (lit ''t2''),
      tc_insert_position = Some Pos_above\<rparr>"

definition sample_patch :: "pystr \<Rightarrow> transaction_patch" where
  "sample_patch memo =
     \<lparr>tp_base_version = 1, tp_occurred_on = None, tp_flow_type = None, tp_amount = None,
      tp_installment_months = None, tp_currency = None, tp_category_id = None, tp_memo = Some (Some memo),
      tp_owner_user_id = None, tp_owner_name = None\<rparr>"

lemmas sample_defs = sample_env_def sample_user_def sample_member_def sample_household_def
  sample_category_def sample_tx_def sample_db_def sample_ctx_def sample_create_def sample_patch_def

end
