(* ===== verification/Transaction_Claims.thy ===== *)
theory Transaction_Claims
  imports Samples
begin

text \<open>
  The properties of the transaction handlers: optimistic merging, manual order, creation,
  replay, patching and deletion.
\<close>

subsection \<open>Merging\<close>

text \<open>C1 (no silent overwrite): whatever patches have been accepted since a client read a
transaction, a patch of his that is accepted writes only fields that still have the value
he read; \<open>w\<close> ranges over all values the field could have had.\<close>

theorem transaction_no_silent_overwrite:
  assumes "logs_up_to_date tx_ops logs0 t0"
    and "merge_run tx_ops (logs0, t0) reqs = (logs1, t1)"
    and "merge_patch_or_raise tx_ops logs1 t1 hh actor (tx_version t0) us = Inr (merged, changed, t2, new)"
    and "transaction_update_key w \<in> set changed"
  shows "transaction_same w t1 = transaction_same w t0"
  using tx_patch.no_silent_overwrite [of logs0 t0 reqs logs1 t1 hh actor us merged changed t2 new w] assms
  by simp

lemma transaction_no_silent_overwrite_witness:
  "transaction_same (Upd_amount 10)
     (snd (merge_run tx_ops ([], sample_tx ''t1'' 1 ''a'') [(lit ''h1'', None, 1, [Upd_memo (lit ''x'')])]))
   = transaction_same (Upd_amount 10) (sample_tx ''t1'' 1 ''a'')"
proof -
  obtain logs1 t1 where r: "merge_run tx_ops ([], sample_tx ''t1'' 1 ''a'')
      [(lit ''h1'', None, 1, [Upd_memo (lit ''x'')])] = (logs1, t1)" by force
  moreover have "case merge_run tx_ops ([], sample_tx ''t1'' 1 ''a'') [(lit ''h1'', None, 1, [Upd_memo (lit ''x'')])]
      of (logs1, t1) \<Rightarrow> (case merge_patch_or_raise tx_ops logs1 t1 (lit ''h1'') None
        (tx_version (sample_tx ''t1'' 1 ''a'')) [Upd_amount 5] of
          Inr (m, f, t2, new) \<Rightarrow> ''amount'' \<in> set f | Inl _ \<Rightarrow> False)" by code_simp
  then have "\<exists>m f t2 new. merge_patch_or_raise tx_ops logs1 t1 (lit ''h1'') None
      (tx_version (sample_tx ''t1'' 1 ''a'')) [Upd_amount 5] = Inr (m, f, t2, new) \<and> ''amount'' \<in> set f"
    unfolding r by (auto split: sum.splits)
  moreover have "logs_up_to_date tx_ops [] (sample_tx ''t1'' 1 ''a'')"
    by (simp add: logs_up_to_date_def logs_since_def)
  moreover have "transaction_update_key (Upd_amount 10) = ''amount''" by simp
  ultimately show ?thesis
    using transaction_no_silent_overwrite [of "[]" "sample_tx ''t1'' 1 ''a''" _ logs1 t1 "lit ''h1''" None
        "[Upd_amount 5]" _ _ _ _ "Upd_amount 10"] by fastforce
qed

text \<open>(a stale patch is refused exactly on overlap): a patch based on the version the
client read is accepted if and only if none of the fields it would change is among the fields
changed by the patches accepted in the meantime.\<close>

theorem transaction_stale_patch_iff:
  assumes "logs_up_to_date tx_ops logs0 t0"
    and "merge_run tx_ops (logs0, t0) reqs = (logs1, t1)"
  shows "(\<exists>res. merge_patch_or_raise tx_ops logs1 t1 hh actor (tx_version t0) us = Inr res) \<longleftrightarrow>
    (\<forall>u \<in> set us. transaction_same u t1 \<or> transaction_update_key u \<notin>
       set (fst (changed_fields_since logs1 ''transaction'' (tx_id t1) (tx_version t0))))"
  using tx_patch.stale_accepted_iff [of logs0 t0 reqs logs1 t1 hh actor us] assms by simp

lemma transaction_stale_patch_iff_witness:
  "\<not> (\<exists>res. merge_patch_or_raise tx_ops
        (fst (merge_run tx_ops ([], sample_tx ''t1'' 1 ''a'') [(lit ''h1'', None, 1, [Upd_memo (lit ''x'')])]))
        (snd (merge_run tx_ops ([], sample_tx ''t1'' 1 ''a'') [(lit ''h1'', None, 1, [Upd_memo (lit ''x'')])]))
        (lit ''h1'') None 1 [Upd_memo (lit ''y'')] = Inr res)"
proof -
  obtain logs1 t1 where r: "merge_run tx_ops ([], sample_tx ''t1'' 1 ''a'')
      [(lit ''h1'', None, 1, [Upd_memo (lit ''x'')])] = (logs1, t1)" by force
  have "logs_up_to_date tx_ops [] (sample_tx ''t1'' 1 ''a'')"
    by (simp add: logs_up_to_date_def logs_since_def)
  note iff = transaction_stale_patch_iff [OF this r, of "lit ''h1''" None "[Upd_memo (lit ''y'')]"]
  have "case merge_run tx_ops ([], sample_tx ''t1'' 1 ''a'') [(lit ''h1'', None, 1, [Upd_memo (lit ''x'')])]
      of (logs1, t1) \<Rightarrow> \<not> transaction_same (Upd_memo (lit ''y'')) t1 \<and> ''memo'' \<in>
         set (fst (changed_fields_since logs1 ''transaction'' (tx_id t1) (tx_version (sample_tx ''t1'' 1 ''a''))))"
    by code_simp
  moreover have "tx_version (sample_tx ''t1'' 1 ''a'') = 1" by (simp add: sample_tx_def)
  ultimately show ?thesis
    using iff unfolding r by simp
qed

subsection \<open>Manual order\<close>

text \<open>C3 (insertion is adjacent): a new row with the allocated order key appears directly
above or below its anchor in the day's list, and the other rows keep their order, whether or
not the day had to be rebalanced.\<close>

theorem inserted_row_is_adjacent:
  assumes "unique_keys tx_id (db_transactions d)" and "anchor \<noteq> []"
    and "allocate_order_key ev d h day (Some anchor) (Some pos) = Inr (k, d')"
    and "on_day h day t" and "tx_order_key t = k" and "tx_id t \<notin> tx_id ` set (db_transactions d')"
  shows "\<exists>above below. map tx_id (same_day_transactions d h day) = above @ anchor # below
    \<and> map tx_id (same_day_transactions (set_transactions (db_transactions d' @ [t]) d') h day) =
      (case pos of Pos_above \<Rightarrow> above @ tx_id t # anchor # below
       | Pos_below \<Rightarrow> above @ anchor # tx_id t # below)"
proof -
  let ?rows = "same_day_transactions d' h day"
  have loop: "allocate_loop 2 ev h day anchor pos d = Inr (k, d')"
    using assms(2,3) by (simp add: allocate_order_key_def truthy_text_def)
  from allocate_loop_ok [OF assms(1) loop] obtain i where
    u: "unique_keys tx_id (db_transactions d')" and ids: "map tx_id ?rows = map tx_id (same_day_transactions d h day)"
    and i: "index_of anchor (map tx_id ?rows) = Some i"
    and fit: "fits ?rows (slot i pos) k" "slot i pos \<le> length ?rows" by blast
  have "unique_keys tx_id (db_transactions d' @ [t])"
    using u assms(6) by (simp add: unique_keys_append row_get_None_iff)
  from insert_at_fitting_slot [OF this assms(4) refl fit(2)] fit(1) assms(5)
  have new: "map tx_id (same_day_transactions (set_transactions (db_transactions d' @ [t]) d') h day) =
      take (slot i pos) (map tx_id ?rows) @ tx_id t # drop (slot i pos) (map tx_id ?rows)"
    by (simp add: take_map drop_map)
  have il: "i < length (map tx_id ?rows)" "map tx_id ?rows ! i = anchor"
    using index_of_SomeD [OF i] by blast+
  then have split: "map tx_id ?rows = take i (map tx_id ?rows) @ anchor # drop (Suc i) (map tx_id ?rows)"
    using id_take_nth_drop by metis
  have "take (Suc i) (map tx_id ?rows) = take i (map tx_id ?rows) @ [anchor]"
    "drop i (map tx_id ?rows) = anchor # drop (Suc i) (map tx_id ?rows)"
    using il by (metis take_Suc_conv_app_nth, metis Cons_nth_drop_Suc)
  with new split ids show ?thesis
    by (intro exI [of _ "take i (map tx_id ?rows)"] exI [of _ "drop (Suc i) (map tx_id ?rows)"])
      (simp add: slot_def split: insert_position.split)
qed

lemma inserted_row_is_adjacent_witness:
  "\<exists>above below. map tx_id (same_day_transactions sample_db (lit ''h1'') (2024, 5, 1)) = above @ lit ''t2'' # below
    \<and> map tx_id (same_day_transactions
        (set_transactions (db_transactions (rebalance_order_keys sample_env sample_db (lit ''h1'') (2024, 5, 1))
           @ [sample_tx ''t9'' 1536 ''n'']) (rebalance_order_keys sample_env sample_db (lit ''h1'') (2024, 5, 1)))
        (lit ''h1'') (2024, 5, 1)) = above @ lit ''t9'' # lit ''t2'' # below"
proof -
  have "allocate_order_key sample_env sample_db (lit ''h1'') (2024, 5, 1) (Some (lit ''t2'')) (Some Pos_above)
      = Inr (1536, rebalance_order_keys sample_env sample_db (lit ''h1'') (2024, 5, 1))"
    by code_simp
  moreover have "unique_keys tx_id (db_transactions sample_db)" by code_simp
  moreover have "on_day (lit ''h1'') (2024, 5, 1) (sample_tx ''t9'' 1536 ''n'')" by code_simp
  moreover have "tx_id (sample_tx ''t9'' 1536 ''n'') \<notin> tx_id `
      set (db_transactions (rebalance_order_keys sample_env sample_db (lit ''h1'') (2024, 5, 1)))" by code_simp
  moreover have "tx_order_key (sample_tx ''t9'' 1536 ''n'') = 1536" "tx_id (sample_tx ''t9'' 1536 ''n'') = lit ''t9''"
    by (simp_all add: sample_tx_def)
  ultimately show ?thesis
    using inserted_row_is_adjacent [of sample_db "lit ''t2''" sample_env "lit ''h1''" "(2024, 5, 1)" Pos_above
        1536 _ "sample_tx ''t9'' 1536 ''n''"] by (simp add: lit_def)
qed

text \<open>(the rebalance error is unreachable): with unique identifiers, allocating an order
key never ends in \<open>TRANSACTION_ORDER_REBALANCE_FAILED\<close>: after one rebalancing there is room.\<close>

theorem order_rebalance_never_fails:
  assumes "unique_keys tx_id (db_transactions d)"
  shows "allocate_order_key ev d h day anchor pos \<noteq> Inl (AppError 409 ''TRANSACTION_ORDER_REBALANCE_FAILED'')"
proof (cases "truthy_text anchor \<and> pos \<noteq> None")
  case True
  then obtain a q where aq: "anchor = Some a" "pos = Some q" by (auto simp: truthy_text_def)
  show ?thesis
  proof (cases "index_of a (map tx_id (same_day_transactions d h day))")
    case None
    with allocate_loop_not_found [OF None, of 1 ev q] aq True show ?thesis
      by (auto simp: allocate_order_key_def numeral_2_eq_2)
  next
    case (Some i)
    with allocate_loop_two [OF assms Some, of 0 ev q] aq True show ?thesis
      by (auto simp: allocate_order_key_def numeral_2_eq_2)
  qed
next
  case False
  then show ?thesis
    by (auto simp: allocate_order_key_def truthy_text_def split: option.split)
qed

lemma order_rebalance_never_fails_witness:
  "allocate_order_key sample_env sample_db (lit ''h1'') (2024, 5, 1) (Some (lit ''t1'')) (Some Pos_above)
   \<noteq> Inl (AppError 409 ''TRANSACTION_ORDER_REBALANCE_FAILED'')"
  by (rule order_rebalance_never_fails) code_simp

subsection \<open>Creating, patching and deleting\<close>

text \<open>C5 (creation keeps the invariant): creating a transaction from a validated payload
keeps identifiers and source references unique, category links in the right household and
flow type and instalments on expenses only, even when other sessions commit between the
checks and the insertion.\<close>

theorem create_transaction_inv:
  assumes "transactions_inv d" and "transactions_inv (w d)" and "categories_stable d (w d)"
    and "validate_transaction_create raw = Some p"
    and "ev_new_id ev \<notin> tx_id ` set (db_transactions (w d))"
  shows "transactions_inv (outcome_db (create_transaction ev w d ctx user_id p))"
proof (cases rule: create_transaction_cases [of ev w d ctx user_id p])
  case (insert uid name)
  from insert_transaction_inv [OF assms(2,3) insert(1) assms(4,5)] insert(4) show ?thesis by simp
qed (use assms(1) in simp_all)

lemma create_transaction_inv_witness:
  "transactions_inv (outcome_db (create_transaction sample_env id sample_db sample_ctx (lit ''u1'')
     (the (validate_transaction_create sample_create))))"
proof (rule create_transaction_inv)
  show "transactions_inv sample_db" by code_simp
  then show "transactions_inv (id sample_db)" by simp
  have "unique_keys ct_id (db_categories sample_db)" by code_simp
  then show "categories_stable sample_db (id sample_db)" by (simp add: categories_stable_refl)
  show "validate_transaction_create sample_create = Some (the (validate_transaction_create sample_create))"
    by (simp add: validate_transaction_create_def sample_create_def krw_code_def krw_amount_ok_def
        installment_range_def max_len_def lit_def py_strip_def strip_by_def py_space_def py_upper_def upper_cp_def)
  show "ev_new_id sample_env \<notin> tx_id ` set (db_transactions (id sample_db))" by code_simp
qed

text \<open>(patching keeps the invariant): so does patching a transaction with a validated
payload, when the locked row is not changed by other sessions.\<close>

theorem patch_transaction_inv:
  assumes "transactions_inv d" and "transactions_inv (w d)" and "categories_stable d (w d)"
    and "validate_transaction_patch raw = Some p"
    and "row_get tx_id i (db_transactions (w d)) = row_get tx_id i (db_transactions d)"
  shows "transactions_inv (outcome_db (patch_transaction ev w d ctx user_id i p))"
proof (cases rule: patch_transaction_cases [of ev w d ctx user_id i p])
  case (patched t owner merged flds t' new)
  note f = merge_fixed [OF patched(8)] and v = merged_transaction [OF patched(8)]
  let ?t = "finish_patch ev d flds t'"
  have old: "row_get tx_id (tx_id ?t) (db_transactions (w d)) = Some t"
    using assms(1,5) row_get_unique [OF _ patched(1), of tx_id] patched(2) f(1)
    by (simp add: transactions_inv_def)
  have ne: "tx_category_id ?t \<noteq> Some []"
    using patch_validated_category [OF assms(4)] assms(1) patched(1) v(1)
    by (cases "tp_category_id p") (auto simp: get_or_def transactions_inv_def list_all_iff transaction_ok_def)
  have "category_link_ok (w d) ?t"
    by (rule check_category_commit [OF patched(7) assms(3)])
      (use patched(3,10) v f ne in simp_all)
  then have "transaction_ok (w d) ?t"
    using patched(6) v ne by (auto simp: transaction_ok_def)
  with write_transaction_inv [OF assms(2) old] f patched(11) show ?thesis by simp
qed (use assms(1,2) in simp_all)

lemma patch_transaction_inv_witness:
  "transactions_inv (outcome_db (patch_transaction sample_env id sample_db sample_ctx (lit ''u1'') (lit ''t1'')
     (the (validate_transaction_patch (sample_patch (lit '' new ''))))))"
proof (rule patch_transaction_inv)
  show "transactions_inv sample_db" by code_simp
  then show "transactions_inv (id sample_db)" by simp
  have "unique_keys ct_id (db_categories sample_db)" by code_simp
  then show "categories_stable sample_db (id sample_db)" by (simp add: categories_stable_refl)
  show "validate_transaction_patch (sample_patch (lit '' new '')) =
      Some (the (validate_transaction_patch (sample_patch (lit '' new ''))))"
    by (simp add: validate_transaction_patch_def sample_patch_def given_def lit_def)
  show "row_get tx_id (lit ''t1'') (db_transactions (id sample_db)) = row_get tx_id (lit ''t1'') (db_transactions sample_db)"
    by simp
qed

text \<open>C4 (a source reference is created once): after a creation has answered for a source
reference, by inserting or by replaying, every later creation with that reference in the
household answers 200 with the same row and writes nothing.\<close>

theorem create_transaction_replays:
  assumes "transactions_inv d" and "transactions_inv (w d)"
    and "ev_new_id ev \<notin> tx_id ` set (db_transactions (w d))"
    and "normalize_optional_text (tc_source_ref p) = Some ref"
    and "normalize_optional_text (tc_source_ref p2) = Some ref"
    and "create_transaction ev w d ctx user_id p = (Inr (created, row), d', evs)"
  shows "\<exists>row2. create_transaction ev' w' d' ctx user' p2 = (Inr (False, row2), d', []) \<and> tr_id row2 = tr_id row"
proof -
  let ?h = "hh_id (fst ctx)"
  have again: "\<exists>row2. create_transaction ev' w' c ctx user' p2 = (Inr (False, row2), c, []) \<and> tr_id row2 = i"
    if "transactions_inv c" "map_option tx_id (by_source_ref c ?h ref) = Some i" for c i
  proof -
    have r: "replay_by_source_ref c ?h p2 = Some i"
      using that(2) assms(5) by (simp add: replay_by_source_ref_def)
    with replay_answer [OF that(1) r] show ?thesis
      by (auto simp: create_transaction_def answer_with_def)
  qed
  have hit: "map_option tx_id (by_source_ref c ?h ref) = Some i"
    if "replay_by_source_ref c ?h p = Some i" for c i
    using that assms(4) by (simp add: replay_by_source_ref_def)
  show ?thesis
  proof (cases "replay_by_source_ref d ?h p")
    case (Some i)
    with assms(6) replay_answer [OF assms(1) Some] have "d' = d" "tr_id row = i"
      by (auto simp: create_transaction_def)
    with again [OF assms(1) hit [OF Some]] show ?thesis by simp
  next
    case None
    have no_recent: "replay_recent ev d ?h user_id p uid name = None" for uid name
      using assms(4) by (simp add: replay_recent_def)
    obtain uid name where
      ins: "insert_transaction ev (w d) ?h user_id p uid name = (Inr (created, row), d', evs)"
    proof (cases "check_category d ?h (tc_category_id p) (tc_flow_type p)")
      case (Some e)
      with None assms(6) show ?thesis by (simp add: create_transaction_def)
    next
      case cat: None
      show ?thesis
      proof (cases "resolve_owner_fields d ?h (tc_owner_user_id p) (tc_owner_name p) ''TRANSACTION_OWNER_INVALID''")
        case (Inl e)
        with None cat assms(6) show ?thesis by (simp add: create_transaction_def)
      next
        case (Inr own)
        obtain uid name where "own = (uid, name)" by force
        with None cat Inr no_recent assms(6) show ?thesis
          by (intro that [of uid name]) (simp add: create_transaction_def)
      qed
    qed
    show ?thesis
    proof (cases rule: insert_transaction_cases [of ev "w d" ?h user_id p uid name])
      case (failed e)
      with ins show ?thesis by simp
    next
      case (replayed i)
      with ins replay_answer [OF assms(2) replayed(1)] have "d' = w d" "tr_id row = i" by auto
      with again [OF assms(2) hit [OF replayed(1)]] show ?thesis by simp
    next
      case (inserted k c1 c2)
      let ?t = "new_transaction ev ?h user_id p uid name k"
      note al = allocate_inv [OF assms(2) inserted(1)]
      have id: "tx_id ?t = ev_new_id ev" "tx_household_id ?t = ?h" "tx_source_ref ?t = Some ref"
        using assms(4) by (simp_all add: new_transaction_def)
      have fresh: "tx_id ?t \<notin> tx_id ` set (db_transactions c1)"
        using assms(3) al(3) id(1) by (metis image_set)
      note ld = load_after_commit [OF inserted(2) fresh]
      from ins inserted(3) ld(1) id(1) have d': "d' = c2" "tr_id row = ev_new_id ev"
        by (auto simp: to_transaction_read_def)
      have r: "by_source_ref c2 ?h ref = Some ?t"
        using ld(2) [of ref] id by simp
      have inv2: "\<exists>row2. load_transaction_read c2 (ev_new_id ev) = Inr row2 \<and> tr_id row2 = ev_new_id ev"
        using ld(1) id(1) by (simp add: to_transaction_read_def)
      have "replay_by_source_ref c2 ?h p2 = Some (ev_new_id ev)"
        using r id(1) assms(5) by (simp add: replay_by_source_ref_def)
      with inv2 d' show ?thesis
        by (auto simp: create_transaction_def answer_with_def)
    qed
  qed
qed

lemma create_transaction_replays_witness:
  "\<exists>row d' row2. fst (create_transaction sample_env id sample_db sample_ctx (lit ''u1'')
        (sample_create\<lparr>tc_category_id := Some (lit ''c1'')\<rparr>)) = Inr (True, row)
     \<and> d' = outcome_db (create_transaction sample_env id sample_db sample_ctx (lit ''u1'')
        (sample_create\<lparr>tc_category_id := Some (lit ''c1'')\<rparr>))
     \<and> create_transaction sample_env id d' sample_ctx (lit ''u2'') sample_create = (Inr (False, row2), d', [])
     \<and> tr_id row2 = tr_id row"
proof -
  let ?out = "create_transaction sample_env id sample_db sample_ctx (lit ''u1'')
        (sample_create\<lparr>tc_category_id := Some (lit ''c1'')\<rparr>)"
  have "case fst ?out of Inr (created, row) \<Rightarrow> created | Inl _ \<Rightarrow> False" by code_simp
  then obtain row d' evs where out: "?out = (Inr (True, row), d', evs)"
    by (cases ?out) (auto split: sum.splits)
  have inv: "transactions_inv sample_db" by code_simp
  have fresh: "ev_new_id sample_env \<notin> tx_id ` set (db_transactions (id sample_db))" by code_simp
  have ref: "normalize_optional_text (tc_source_ref (sample_create\<lparr>tc_category_id := Some (lit ''c1'')\<rparr>)) = Some (lit ''ref-1'')"
    "normalize_optional_text (tc_source_ref sample_create) = Some (lit ''ref-1'')" by code_simp+
  have inv': "transactions_inv (id sample_db)" using inv by simp
  from create_transaction_replays [OF inv inv' fresh ref out, where ev' = sample_env and w' = id and user' = "lit ''u2''"]
    out show ?thesis by (auto simp: outcome_db_def)
qed

text \<open>(bulk deletion is all or nothing): the request succeeds exactly when every listed
identifier is a transaction of the household; then exactly the listed rows disappear and each
identifier is reported once.  Otherwise nothing is deleted, no event is sent and the error
names exactly the identifiers that were not found.\<close>

theorem bulk_delete_all_or_nothing:
  fixes d ctx ids
  defines "found \<equiv> tx_id ` {t \<in> set (db_transactions d). tx_household_id t = hh_id (fst ctx)}"
  shows "bulk_delete_transactions d ctx ids =
    (if set ids \<subseteq> found then
       done_with (set_transactions (filter (\<lambda>t. tx_id t \<notin> set ids) (db_transactions d)) d)
         [(hh_id (fst ctx), Transaction_bulk_deleted (dedup ids))] (card (set ids), dedup ids)
     else fail d (AppErrorCtx 404 ''TRANSACTION_BULK_DELETE_NOT_FOUND'' (filter (\<lambda>i. i \<notin> found) (dedup ids))))"
proof -
  let ?found = "map tx_id (filter (\<lambda>t. tx_id t \<in> set (dedup ids) \<and> tx_household_id t = hh_id (fst ctx))
    (db_transactions d))"
  have f: "set ?found = set ids \<inter> found" by (auto simp: found_def)
  have len: "length (dedup ids) = card (set ids)"
    using distinct_card [of "dedup ids"] by simp
  have eq: "card (set ids \<inter> found) = card (set ids) \<longleftrightarrow> set ids \<subseteq> found"
    by (metis Int_lower1 List.finite_set card_subset_eq inf.absorb_iff1)
  have "filter (\<lambda>i. i \<notin> set ids \<inter> found) (dedup ids) = filter (\<lambda>i. i \<notin> found) (dedup ids)"
    by (rule filter_cong) auto
  then show ?thesis
    unfolding bulk_delete_transactions_def Let_def f len eq by simp
qed

text \<open>C7 (households are isolated): none of the four operations that write transactions
changes a transaction of another household, whatever the outcome.\<close>

theorem transaction_household_isolation:
  assumes "unique_keys tx_id (db_transactions d)" and "h = hh_id (fst ctx)"
  shows "foreign_transactions h (outcome_db (create_transaction ev id d ctx user_id p)) = foreign_transactions h d
    \<and> foreign_transactions h (outcome_db (patch_transaction ev id d ctx user_id i q)) = foreign_transactions h d
    \<and> foreign_transactions h (outcome_db (bulk_delete_transactions d ctx ids)) = foreign_transactions h d
    \<and> foreign_transactions h (outcome_db (delete_transaction d ctx i)) = foreign_transactions h d"
proof (intro conjI)
  show "foreign_transactions h (outcome_db (create_transaction ev id d ctx user_id p)) = foreign_transactions h d"
  proof (cases rule: create_transaction_cases [of ev id d ctx user_id p])
    case (insert uid name)
    show ?thesis
    proof (cases rule: insert_transaction_cases [of ev d h user_id p uid name])
      case (inserted k c1 c2)
      have "foreign_transactions h c2 = foreign_transactions h c1"
        using commit_transaction_InrD(1) [OF inserted(2)]
        by (simp add: foreign_transactions_def new_transaction_def)
      with allocate_foreign [OF assms(1) inserted(1)] inserted(3) insert(4) assms(2)
      show ?thesis by simp
    qed (use insert(4) assms(2) in simp_all)
  qed simp_all
next
  show "foreign_transactions h (outcome_db (patch_transaction ev id d ctx user_id i q)) = foreign_transactions h d"
  proof (cases rule: patch_transaction_cases [of ev id d ctx user_id i q])
    case (patched t owner merged flds t' new)
    note f = merge_fixed [OF patched(8)]
    have "r = t" if "r \<in> set (db_transactions d)" "tx_id r = tx_id t" for r
      using that assms(1) patched(1) by (auto simp: unique_keys_def distinct_map inj_on_def)
    then have "foreign_transactions h (write_transaction d (finish_patch ev d flds t') new) = foreign_transactions h d"
      using patched(3) f assms(2) by (intro write_foreign) auto
    with patched(11) show ?thesis by simp
  qed simp_all
next
  show "foreign_transactions h (outcome_db (bulk_delete_transactions d ctx ids)) = foreign_transactions h d"
  proof (cases "\<exists>e. fst (bulk_delete_transactions d ctx ids) = Inl e")
    case True
    then show ?thesis
      by (auto simp: bulk_delete_transactions_def Let_def split: if_splits)
  next
    case False
    let ?found = "map tx_id (filter (\<lambda>t. tx_id t \<in> set (dedup ids) \<and> tx_household_id t = h) (db_transactions d))"
    from False have "card (set ?found) = length (dedup ids)"
      using assms(2) by (auto simp: bulk_delete_transactions_def Let_def split: if_splits)
    also have "\<dots> = card (set ids)"
      using distinct_card [of "dedup ids"] by simp
    finally have "set ?found = set ids"
      by (intro card_subset_eq) auto
    then have "tx_household_id t = h" if "t \<in> set (db_transactions d)" "tx_id t \<in> set ids" for t
      using that assms(1) by (auto simp: unique_keys_def distinct_map inj_on_def)
    then have "filter (\<lambda>t. tx_household_id t \<noteq> h) (filter (\<lambda>t. tx_id t \<notin> set ids) (db_transactions d))
        = filter (\<lambda>t. tx_household_id t \<noteq> h) (db_transactions d)"
      by (auto simp: filter_filter intro!: filter_cong)
    with \<open>card (set ?found) = length (dedup ids)\<close> assms(2) show ?thesis
      by (simp add: bulk_delete_transactions_def foreign_transactions_def Let_def)
  qed
next
  show "foreign_transactions h (outcome_db (delete_transaction d ctx i)) = foreign_transactions h d"
  proof (cases "row_get tx_id i (db_transactions d)")
    case None
    then show ?thesis by (simp add: delete_transaction_def)
  next
    case (Some t)
    have "tx_household_id r = tx_household_id t" if "r \<in> set (db_transactions d)" "tx_id r = i" for r
      using that assms(1) row_get_SomeD [OF Some] by (auto simp: unique_keys_def distinct_map inj_on_def)
    then have "filter (\<lambda>r. tx_household_id r \<noteq> tx_household_id t) (row_delete tx_id i (db_transactions d))
        = filter (\<lambda>r. tx_household_id r \<noteq> tx_household_id t) (db_transactions d)"
      by (auto simp: row_delete_def filter_filter intro!: filter_cong)
    with Some assms(2) show ?thesis
      by (cases "tx_household_id t = h") (simp_all add: delete_transaction_def foreign_transactions_def)
  qed
qed

lemma transaction_household_isolation_witness:
  "foreign_transactions (lit ''h1'') (outcome_db (delete_transaction sample_db sample_ctx (lit ''t1'')))
   = foreign_transactions (lit ''h1'') sample_db"
proof -
  have "unique_keys tx_id (db_transactions sample_db)" by code_simp
  moreover have "lit ''h1'' = hh_id (fst sample_ctx)" by code_simp
  ultimately show ?thesis
    using transaction_household_isolation [of sample_db "lit ''h1''" sample_ctx] by blast
qed

end
