(* ===== verification/Access.thy ===== *)
theory Access
  imports Profile
begin

text \<open>
  Tokens and the guards every request passes: \<open>backend/app/core/security.py\<close> (claims of the
  access, refresh and web-socket tokens) and \<open>backend/app/api/deps.py\<close> (CSRF check of cookie
  sessions, the current user, the current household and the role guards).  Signing and
  checking a JWT is the library's: \<open>jwt_decode\<close> is a parameter; a request is its method,
  headers, cookies and bearer credentials.
\<close>

subsection \<open>Token claims\<close>

type_synonym claims = "(pystr \<times> json) list"

definition reserved_jwt_claims :: "pystr list" where
  "reserved_jwt_claims = map lit [''sub'', ''typ'', ''jti'', ''iat'', ''exp'']"

definition timestamp :: "instant \<Rightarrow> int" where
  "timestamp t = t div 1000000"

text \<open>\<open>payload.update(extra)\<close> without the reserved claims.\<close>

definition with_extra :: "claims \<Rightarrow> claims option \<Rightarrow> claims" where
  "with_extra payload extra =
     (case extra of
        None \<Rightarrow> payload
      | Some kvs \<Rightarrow> fold (\<lambda>(k, v). dict_put k v)
                     (filter (\<lambda>kv. fst kv \<notin> set reserved_jwt_claims) kvs) payload)"

definition base_claims :: "pystr \<Rightarrow> string \<Rightarrow> pystr \<Rightarrow> instant \<Rightarrow> instant \<Rightarrow> claims" where
  "base_claims subject typ jti now expires =
     [(lit ''sub'', JStr subject), (lit ''typ'', JStr (lit typ)), (lit ''jti'', JStr jti),
      (lit ''iat'', JInt (timestamp now)), (lit ''exp'', JInt (timestamp expires))]"

definition access_token_claims :: "int \<Rightarrow> instant \<Rightarrow> pystr \<Rightarrow> pystr \<Rightarrow> claims option \<Rightarrow> claims" where
  "access_token_claims access_token_minutes now jti subject extra =
     with_extra (base_claims subject ''access'' jti now (now + seconds (60 * access_token_minutes))) extra"

definition refresh_token_claims :: "int \<Rightarrow> instant \<Rightarrow> pystr \<Rightarrow> pystr \<Rightarrow> claims option \<Rightarrow> claims" where
  "refresh_token_claims refresh_token_days now jti subject extra =
     with_extra (base_claims subject ''refresh'' jti now
       (now + seconds (86400 * max 1 refresh_token_days))) extra"

definition ws_ticket_claims :: "int \<Rightarrow> instant \<Rightarrow> pystr \<Rightarrow> pystr \<Rightarrow> pystr \<Rightarrow> claims" where
  "ws_ticket_claims ttl_seconds now jti subject household_id =
     [(lit ''sub'', JStr subject), (lit ''household_id'', JStr household_id),
      (lit ''typ'', JStr (lit ''ws_ticket'')), (lit ''jti'', JStr jti),
      (lit ''iat'', JInt (timestamp now)), (lit ''exp'', JInt (timestamp (now + seconds (max 5 ttl_seconds))))]"

text \<open>The checks of \<open>decode_access_token\<close> and its siblings on the claims the library verified.\<close>

definition check_claims :: "(json \<Rightarrow> pystr) \<Rightarrow> string \<Rightarrow> claims \<Rightarrow> claims option" where
  "check_claims rp typ payload =
     (if str_or_empty rp (json_get payload (lit ''typ'')) \<noteq> lit typ then None
      else if py_strip (str_or_empty rp (json_get payload (lit ''jti''))) = [] then None
      else Some payload)"

definition decode_access_token ::
  "(json \<Rightarrow> pystr) \<Rightarrow> (pystr \<Rightarrow> claims option) \<Rightarrow> pystr \<Rightarrow> claims option" where
  "decode_access_token rp jwt_decode token = Option.bind (jwt_decode token) (check_claims rp ''access'')"

definition decode_refresh_token ::
  "(json \<Rightarrow> pystr) \<Rightarrow> (pystr \<Rightarrow> claims option) \<Rightarrow> pystr \<Rightarrow> claims option" where
  "decode_refresh_token rp jwt_decode token = Option.bind (jwt_decode token) (check_claims rp ''refresh'')"

definition decode_ws_ticket ::
  "(json \<Rightarrow> pystr) \<Rightarrow> (pystr \<Rightarrow> claims option) \<Rightarrow> pystr \<Rightarrow> claims option" where
  "decode_ws_ticket rp jwt_decode token = Option.bind (jwt_decode token) (check_claims rp ''ws_ticket'')"

lemma map_of_with_extra:
  "k \<in> set reserved_jwt_claims \<Longrightarrow> map_of (with_extra payload extra) k = map_of payload k"
proof (cases extra)
  case (Some kvs)
  assume k: "k \<in> set reserved_jwt_claims"
  have "map_of (fold (\<lambda>(k, v). dict_put k v) (filter (\<lambda>kv. fst kv \<notin> set reserved_jwt_claims) kvs) p) k
      = map_of p k" for p
    using k by (induction kvs arbitrary: p) (auto simp: map_of_dict_put)
  with Some show ?thesis by (simp add: with_extra_def)
qed (simp add: with_extra_def)

lemma claims_typ:
  "json_get (access_token_claims m now jti sub extra) (lit ''typ'') = JStr (lit ''access'')"
  "json_get (refresh_token_claims n now jti sub extra) (lit ''typ'') = JStr (lit ''refresh'')"
  "json_get (ws_ticket_claims ttl now jti sub h) (lit ''typ'') = JStr (lit ''ws_ticket'')"
  by (simp_all add: json_get_def access_token_claims_def refresh_token_claims_def ws_ticket_claims_def
      map_of_with_extra reserved_jwt_claims_def) (simp_all add: base_claims_def lit_def)

lemma claims_jti:
  "json_get (access_token_claims m now jti sub extra) (lit ''jti'') = JStr jti"
  "json_get (refresh_token_claims n now jti sub extra) (lit ''jti'') = JStr jti"
  "json_get (ws_ticket_claims ttl now jti sub h) (lit ''jti'') = JStr jti"
  by (simp_all add: json_get_def access_token_claims_def refresh_token_claims_def ws_ticket_claims_def
      map_of_with_extra reserved_jwt_claims_def) (simp_all add: base_claims_def lit_def)

lemma check_claims_SomeD:
  "check_claims rp typ payload = Some p \<Longrightarrow>
   p = payload \<and> str_or_empty rp (json_get payload (lit ''typ'')) = lit typ
   \<and> py_strip (str_or_empty rp (json_get payload (lit ''jti''))) \<noteq> []"
  by (auto simp: check_claims_def split: if_splits)

lemma lit_inj: "lit s = lit t \<longleftrightarrow> s = t"
proof
  assume "lit s = lit t"
  then have "map (of_char :: char \<Rightarrow> int) s = map of_char t" by (simp add: lit_def)
  moreover have "inj (of_char :: char \<Rightarrow> int)"
    by (auto intro: injI)
  ultimately show "s = t" by (simp add: inj_map_eq_map)
qed simp

subsection \<open>Origins\<close>

text \<open>
  \<open>urlparse\<close> as far as \<open>scheme\<close> and \<open>netloc\<close> go; \<open>None\<close> is its \<open>ValueError\<close> on unbalanced
  brackets.  The compatibility check of non-ASCII host names is left out.
\<close>

definition ascii_alpha :: "int \<Rightarrow> bool" where
  "ascii_alpha c \<longleftrightarrow> (65 \<le> c \<and> c \<le> 90) \<or> (97 \<le> c \<and> c \<le> 122)"

definition scheme_char :: "int \<Rightarrow> bool" where
  "scheme_char c \<longleftrightarrow> ascii_alpha c \<or> digit_cp c \<or> c = 43 \<or> c = 45 \<or> c = 46"

definition url_scheme_netloc :: "pystr \<Rightarrow> (pystr \<times> pystr) option" where
  "url_scheme_netloc s =
     (let u = filter (\<lambda>c. c \<noteq> 9 \<and> c \<noteq> 10 \<and> c \<noteq> 13) (dropWhile (\<lambda>c. c \<le> 32) s);
          before = takeWhile (\<lambda>c. c \<noteq> 58) u;
          has_scheme = (length before < length u \<and> before \<noteq> [] \<and> ascii_alpha (hd u)
                        \<and> list_all scheme_char before);
          scheme = (if has_scheme then py_lower before else []);
          rest = (if has_scheme then drop (length before + 1) u else u);
          netloc = (if take 2 rest = [47, 47]
                    then takeWhile (\<lambda>c. c \<noteq> 47 \<and> c \<noteq> 63 \<and> c \<noteq> 35) (drop 2 rest) else [])
      in if (91 \<in> set netloc) \<noteq> (93 \<in> set netloc) then None else Some (scheme, netloc))"

definition normalize_origin :: "pystr option \<Rightarrow> pystr option" where
  "normalize_origin v =
     (let t = py_strip (case v of Some s \<Rightarrow> s | None \<Rightarrow> [])
      in if t = [] then Some []
         else map_option (\<lambda>(scheme, netloc).
                if scheme = [] \<or> netloc = [] then []
                else py_lower scheme @ lit ''://'' @ py_lower netloc) (url_scheme_netloc t))"

subsection \<open>Requests\<close>

record http_request =
  rq_method :: pystr
  rq_headers :: "pystr \<Rightarrow> pystr option"
  rq_cookies :: "pystr \<Rightarrow> pystr option"
  rq_credentials :: "pystr option"

record config =
  cf_allowed_origins :: "pystr list"
  cf_csrf_cookie_name :: pystr
  cf_csrf_header_name :: pystr
  cf_access_cookie_name :: pystr

definition text_of :: "pystr option \<Rightarrow> pystr" where
  "text_of v = py_strip (case v of Some s \<Rightarrow> s | None \<Rightarrow> [])"

text \<open>\<open>hmac.compare_digest\<close> on strings: \<open>None\<close> is the \<open>TypeError\<close> on a character outside ASCII.\<close>

definition compare_digest :: "pystr \<Rightarrow> pystr \<Rightarrow> bool option" where
  "compare_digest a b =
     (if list_all (\<lambda>c. c < 128) a \<and> list_all (\<lambda>c. c < 128) b then Some (a = b) else None)"

text \<open>\<open>None\<close> is the plain return.\<close>

definition enforce_cookie_csrf :: "config \<Rightarrow> http_request \<Rightarrow> http_error option" where
  "enforce_cookie_csrf cf rq =
     (if py_upper (rq_method rq) \<in> {lit ''GET'', lit ''HEAD'', lit ''OPTIONS''} then None
      else
        (case normalize_origin (rq_headers rq (lit ''origin'')) of
           None \<Rightarrow> Some ServerError
         | Some origin \<Rightarrow>
            (let allowed = map (\<lambda>item. normalize_origin (Some item)) (cf_allowed_origins cf);
                 csrf_cookie = text_of (rq_cookies rq (cf_csrf_cookie_name cf));
                 csrf_header = text_of (rq_headers rq (cf_csrf_header_name cf))
             in if origin \<noteq> [] \<and> None \<in> set allowed then Some ServerError
                else if origin \<noteq> [] \<and> Some origin \<notin> set allowed
                then Some (AppError 403 ''AUTH_CSRF_ORIGIN_FORBIDDEN'')
                else if csrf_cookie = [] \<or> csrf_header = []
                then Some (AppError 403 ''AUTH_CSRF_INVALID'')
                else (case compare_digest csrf_cookie csrf_header of
                        None \<Rightarrow> Some ServerError
                      | Some True \<Rightarrow> None
                      | Some False \<Rightarrow> Some (AppError 403 ''AUTH_CSRF_INVALID'')))))"

subsection \<open>The current user\<close>

definition revoked_get :: "db \<Rightarrow> pystr \<Rightarrow> revoked_token option" where
  "revoked_get d jti = row_get rt_jti jti (db_revoked d)"

definition get_current_user ::
  "(json \<Rightarrow> pystr) \<Rightarrow> (pystr \<Rightarrow> claims option) \<Rightarrow> config \<Rightarrow> env \<Rightarrow> db \<Rightarrow> http_request \<Rightarrow> user outcome" where
  "get_current_user rp jwt_decode cf ev d rq =
     (let bearer = text_of (rq_credentials rq);
          cookie = (if bearer = [] then text_of (rq_cookies rq (cf_access_cookie_name cf)) else []);
          raw_token = (if bearer = [] then cookie else bearer);
          used_cookie_auth = (bearer = [] \<and> cookie \<noteq> []);
          csrf = (if used_cookie_auth then enforce_cookie_csrf cf rq else None)
      in case csrf of
           Some e \<Rightarrow> fail d e
         | None \<Rightarrow>
        (if raw_token = [] then fail d (AppError 401 ''AUTH_TOKEN_MISSING'')
         else case decode_access_token rp jwt_decode raw_token of
           None \<Rightarrow> fail d (AppError 401 ''AUTH_TOKEN_INVALID'')
         | Some payload \<Rightarrow>
        (case map_of payload (lit ''sub'') of
           None \<Rightarrow> fail d (AppError 401 ''AUTH_TOKEN_INVALID'')
         | Some sub \<Rightarrow>
        (let user_id = (case sub of JStr s \<Rightarrow> s | _ \<Rightarrow> rp sub);
             token_jti = str_or_empty rp (json_get payload (lit ''jti''))
         in case row_get us_id user_id (db_users d) of
              None \<Rightarrow> fail d (AppError 401 ''AUTH_USER_NOT_FOUND'')
            | Some user \<Rightarrow>
           (case (if token_jti = [] then None else revoked_get d token_jti) of
              None \<Rightarrow> done_with d [] user
            | Some revoked \<Rightarrow>
               (if rt_expires_at revoked \<le> ev_now ev
                then fail (db_revoked_update (row_delete rt_jti token_jti) d) (AppError 401 ''AUTH_TOKEN_INVALID'')
                else fail d (AppError 401 ''AUTH_TOKEN_INVALID'')))))))"

subsection \<open>The current household and the role guards\<close>

definition memberships :: "db \<Rightarrow> pystr \<Rightarrow> household_member list" where
  "memberships d user_id =
     sort_key mb_created_at (filter (\<lambda>m. mb_user_id m = user_id) (db_members d))"

definition household_header :: pystr where
  "household_header = lit ''x-household-id''"

definition get_current_household :: "db \<Rightarrow> http_request \<Rightarrow> user \<Rightarrow> http_error + ctx" where
  "get_current_household d rq user =
     (let ms = memberships d (us_id user);
          requested = text_of (rq_headers rq household_header);
          by_household_id = map_of (rev (map (\<lambda>m. (mb_household_id m, m)) ms))
      in if ms = [] then Inl (AppError 403 ''HOUSEHOLD_MEMBERSHIP_MISSING'')
         else
           (case (if requested \<noteq> [] then by_household_id requested
                  else (case by_household_id (text_of (us_active_household_id user)) of
                          Some m \<Rightarrow> Some m | None \<Rightarrow> Some (hd ms))) of
              None \<Rightarrow> Inl (AppError 403 ''HOUSEHOLD_ACCESS_FORBIDDEN'')
            | Some m \<Rightarrow>
                (case row_get hh_id (mb_household_id m) (db_households d) of
                   None \<Rightarrow> Inl (AppError 404 ''HOUSEHOLD_NOT_FOUND'')
                 | Some h \<Rightarrow> Inr (h, m))))"

definition require_role :: "member_role list \<Rightarrow> ctx \<Rightarrow> http_error + ctx" where
  "require_role roles ctx =
     (if mb_role (snd ctx) \<in> set roles then Inr ctx else Inl (AppError 403 ''HOUSEHOLD_ROLE_FORBIDDEN''))"

definition require_editor_household :: "ctx \<Rightarrow> http_error + ctx" where
  "require_editor_household = require_role [Role_owner, Role_co_owner, Role_editor]"

definition require_co_owner_household :: "ctx \<Rightarrow> http_error + ctx" where
  "require_co_owner_household = require_role [Role_owner, Role_co_owner]"

definition require_owner_household :: "ctx \<Rightarrow> http_error + ctx" where
  "require_owner_household = require_role [Role_owner]"

text \<open>A context the guards hand to a handler: a membership of the user in that household.\<close>

definition ctx_ok :: "db \<Rightarrow> pystr \<Rightarrow> ctx \<Rightarrow> bool" where
  "ctx_ok d user_id ctx \<longleftrightarrow>
     fst ctx \<in> set (db_households d) \<and> snd ctx \<in> set (db_members d)
     \<and> mb_user_id (snd ctx) = user_id \<and> mb_household_id (snd ctx) = hh_id (fst ctx)"

lemma set_memberships: "set (memberships d u) = {m \<in> set (db_members d). mb_user_id m = u}"
  by (auto simp: memberships_def)

lemma by_household_id_member:
  "map_of (rev (map (\<lambda>m. (mb_household_id m, m)) ms)) h = Some m \<Longrightarrow>
   m \<in> set ms \<and> mb_household_id m = h"
  by (auto dest!: map_of_SomeD)

lemma current_household_ok:
  assumes "get_current_household d rq u = Inr ctx"
  shows "ctx_ok d (us_id u) ctx"
    and "text_of (rq_headers rq household_header) \<noteq> [] \<Longrightarrow>
         hh_id (fst ctx) = text_of (rq_headers rq household_header)"
proof -
  let ?ms = "memberships d (us_id u)"
  let ?by = "map_of (rev (map (\<lambda>m. (mb_household_id m, m)) ?ms))"
  let ?req = "text_of (rq_headers rq household_header)"
  from assms obtain m h where ne: "?ms \<noteq> []"
    and m: "(if ?req \<noteq> [] then ?by ?req
       else (case ?by (text_of (us_active_household_id u)) of Some m \<Rightarrow> Some m | None \<Rightarrow> Some (hd ?ms))) = Some m"
    and h: "row_get hh_id (mb_household_id m) (db_households d) = Some h" and ctx: "ctx = (h, m)"
    by (auto simp: get_current_household_def Let_def split: if_splits option.splits)
  from m ne have "m \<in> set ?ms" "?req \<noteq> [] \<Longrightarrow> mb_household_id m = ?req"
    by (auto split: if_splits option.splits dest: by_household_id_member)
  with row_get_SomeD [OF h] ctx show "ctx_ok d (us_id u) ctx"
    and "?req \<noteq> [] \<Longrightarrow> hh_id (fst ctx) = ?req"
    by (auto simp: ctx_ok_def set_memberships)
qed

end
