(* ===== verification/Access_Claims.thy ===== *)
theory Access_Claims
  imports Access Samples
begin

text \<open>
  The properties of the token layer and of the request guards.
\<close>

text \<open>(token kinds are disjoint): the claims of a fresh token pass the check of their own
kind and of no other, whatever extra claims the caller asked for; in particular an extra
\<open>typ\<close> cannot turn a refresh token into an access token.\<close>

theorem token_kinds_disjoint:
  assumes "py_strip jti \<noteq> []" and "typ \<in> {''access'', ''refresh'', ''ws_ticket''}"
  shows "(check_claims rp typ (access_token_claims m now jti sub extra) \<noteq> None \<longleftrightarrow> typ = ''access'')
    \<and> (check_claims rp typ (refresh_token_claims n now jti sub extra) \<noteq> None \<longleftrightarrow> typ = ''refresh'')
    \<and> (check_claims rp typ (ws_ticket_claims ttl now jti sub h) \<noteq> None \<longleftrightarrow> typ = ''ws_ticket'')"
proof -
  from assms(1) have "jti \<noteq> []" by auto
  with assms show ?thesis
    by (auto simp: check_claims_def str_or_empty_def claims_typ claims_jti lit_inj)
qed

lemma token_kinds_disjoint_witness:
  "check_claims (\<lambda>_. []) ''access''
     (refresh_token_claims 7 0 (lit ''j'') (lit ''u'') (Some [(lit ''typ'', JStr (lit ''access''))])) = None"
  using token_kinds_disjoint [of "lit ''j''" "''access''" "\<lambda>_. []" 0 0 "lit ''u''"
      "Some [(lit ''typ'', JStr (lit ''access''))]" 7 0 "[]"]
  by (simp add: lit_def py_strip_def strip_by_def py_space_def)

text \<open>The token a request presents, and whether it came in the cookie.\<close>

definition presented_token :: "config \<Rightarrow> http_request \<Rightarrow> pystr" where
  "presented_token cf rq =
     (if text_of (rq_credentials rq) = [] then text_of (rq_cookies rq (cf_access_cookie_name cf))
      else text_of (rq_credentials rq))"

text \<open>C8 (who gets in): when the guard lets a request pass as a user, the token it presents
carries valid access claims with the user's identifier and an identifier of its own that is
not revoked, and the database is untouched; a cookie session on a changing method has in
addition shown equal, non-blank CSRF texts.\<close>

theorem current_user_sound:
  assumes "get_current_user rp jwt_decode cf ev d rq = (Inr u, d', evs)"
  shows "d' = d \<and> evs = [] \<and> u \<in> set (db_users d)
    \<and> (\<exists>payload. decode_access_token rp jwt_decode (presented_token cf rq) = Some payload
        \<and> str_or_empty rp (json_get payload (lit ''jti'')) \<notin> rt_jti ` set (db_revoked d)
        \<and> (case map_of payload (lit ''sub'') of Some (JStr s) \<Rightarrow> us_id u = s
            | Some v \<Rightarrow> us_id u = rp v | None \<Rightarrow> False))
    \<and> (text_of (rq_credentials rq) = [] \<longrightarrow> py_upper (rq_method rq) \<notin> {lit ''GET'', lit ''HEAD'', lit ''OPTIONS''} \<longrightarrow>
        text_of (rq_cookies rq (cf_csrf_cookie_name cf)) = text_of (rq_headers rq (cf_csrf_header_name cf))
        \<and> text_of (rq_cookies rq (cf_csrf_cookie_name cf)) \<noteq> [])"
proof -
  let ?tok = "presented_token cf rq"
  from assms obtain payload sub where
    p: "decode_access_token rp jwt_decode ?tok = Some payload" and sub: "map_of payload (lit ''sub'') = Some sub"
    and u: "row_get us_id (case sub of JStr s \<Rightarrow> s | _ \<Rightarrow> rp sub) (db_users d) = Some u"
    and rev: "str_or_empty rp (json_get payload (lit ''jti'')) = [] \<or>
       revoked_get d (str_or_empty rp (json_get payload (lit ''jti''))) = None"
    and d': "d' = d" "evs = []" and tok: "?tok \<noteq> []"
    and csrf: "text_of (rq_credentials rq) = [] \<Longrightarrow> enforce_cookie_csrf cf rq = None"
    by (auto simp: get_current_user_def Let_def presented_token_def split: if_splits option.splits)
  from p have "py_strip (str_or_empty rp (json_get payload (lit ''jti''))) \<noteq> []"
    by (auto simp: decode_access_token_def bind_eq_Some_conv dest: check_claims_SomeD)
  then have "str_or_empty rp (json_get payload (lit ''jti'')) \<noteq> []" by auto
  with rev have r: "str_or_empty rp (json_get payload (lit ''jti'')) \<notin> rt_jti ` set (db_revoked d)"
    by (simp add: revoked_get_def row_get_None_iff)
  have uid: "u \<in> set (db_users d)" "us_id u = (case sub of JStr s \<Rightarrow> s | _ \<Rightarrow> rp sub)"
    using row_get_SomeD [OF u] by blast+
  have sub': "case map_of payload (lit ''sub'') of Some (JStr s) \<Rightarrow> us_id u = s
      | Some v \<Rightarrow> us_id u = rp v | None \<Rightarrow> False"
    unfolding sub using uid(2) by (cases sub) simp_all
  have "text_of (rq_cookies rq (cf_csrf_cookie_name cf)) = text_of (rq_headers rq (cf_csrf_header_name cf))
        \<and> text_of (rq_cookies rq (cf_csrf_cookie_name cf)) \<noteq> []"
    if "text_of (rq_credentials rq) = []" "py_upper (rq_method rq) \<notin> {lit ''GET'', lit ''HEAD'', lit ''OPTIONS''}"
    using csrf [OF that(1)] that(2)
    by (auto simp: enforce_cookie_csrf_def Let_def compare_digest_def split: if_splits option.splits bool.splits)
  with d' uid(1) p r sub' show ?thesis by blast
qed

lemma current_user_sound_witness:
  "us_id (sample_user ''u1'' ''Ann'') = lit ''u1''"
proof -
  let ?payload = "access_token_claims 30 0 (lit ''j1'') (lit ''u1'') None"
  let ?cf = "\<lparr>cf_allowed_origins = [], cf_csrf_cookie_name = lit ''csrf'', cf_csrf_header_name = lit ''x-csrf'',
    cf_access_cookie_name = lit ''access''\<rparr>"
  let ?rq = "\<lparr>rq_method = lit ''POST'', rq_headers = (\<lambda>_. None), rq_cookies = (\<lambda>_. None),
    rq_credentials = Some (lit ''tok'')\<rparr>"
  have r: "get_current_user (\<lambda>_. []) (\<lambda>_. Some ?payload) ?cf sample_env sample_db ?rq
      = (Inr (sample_user ''u1'' ''Ann''), sample_db, [])" by code_simp
  have d: "decode_access_token (\<lambda>_. []) (\<lambda>_. Some ?payload) (presented_token ?cf ?rq) = Some ?payload" by code_simp
  have s: "map_of ?payload (lit ''sub'') = Some (JStr (lit ''u1''))" by code_simp
  from current_user_sound [OF r] d s show ?thesis by auto
qed

text \<open>The guards hand over a membership: a handler behind a role guard runs for a
household of the caller, in a role the guard admits, and for the household the
\<open>x-household-id\<close> header names when it names one.\<close>

theorem guarded_context:
  assumes "get_current_household d rq u = Inr ctx"
  shows "ctx_ok d (us_id u) ctx
    \<and> (text_of (rq_headers rq household_header) = [] \<or> hh_id (fst ctx) = text_of (rq_headers rq household_header))
    \<and> (require_editor_household ctx = Inr ctx \<longleftrightarrow> mb_role (snd ctx) \<noteq> Role_viewer)
    \<and> (require_co_owner_household ctx = Inr ctx \<longleftrightarrow> mb_role (snd ctx) \<in> {Role_owner, Role_co_owner})
    \<and> (require_owner_household ctx = Inr ctx \<longleftrightarrow> mb_role (snd ctx) = Role_owner)"
proof -
  have "mb_role (snd ctx) \<noteq> Role_viewer \<longleftrightarrow> mb_role (snd ctx) \<in> {Role_owner, Role_co_owner, Role_editor}"
    by (cases "mb_role (snd ctx)") simp_all
  with current_household_ok [OF assms] show ?thesis
    by (auto simp: require_editor_household_def require_co_owner_household_def
        require_owner_household_def require_role_def)
qed

lemma guarded_context_witness:
  "ctx_ok sample_db (lit ''u1'') sample_ctx \<and> require_owner_household sample_ctx = Inr sample_ctx"
proof -
  let ?rq = "\<lparr>rq_method = lit ''POST'', rq_headers = (\<lambda>k. if k = household_header then Some (lit ''h1'') else None),
    rq_cookies = (\<lambda>_. None), rq_credentials = None\<rparr>"
  have c: "get_current_household sample_db ?rq (sample_user ''u1'' ''Ann'') = Inr sample_ctx" by code_simp
  have "us_id (sample_user ''u1'' ''Ann'') = lit ''u1''" "mb_role (snd sample_ctx) = Role_owner" by code_simp+
  with guarded_context [OF c] show ?thesis by simp
qed

end
