(* ===== verification/Holding_Settings.thy ===== *)
theory Holding_Settings
  imports Profile
begin

text \<open>
  \<open>normalize_holding_settings\<close> of \<open>backend/app/services/profile.py\<close>: the JSON document of a
  household's holding settings, whatever a client or an old row put there, becomes a
  well-formed record.  The lemmas state the well-formedness of its parts.
\<close>

subsection \<open>Keys, colours and texts\<close>

fun str_of_nat :: "nat \<Rightarrow> pystr" where
  "str_of_nat n = (if n < 10 then [48 + int n] else str_of_nat (n div 10) @ [48 + int (n mod 10)])"

declare str_of_nat.simps [simp del]

definition type_key_char :: "int \<Rightarrow> bool" where
  "type_key_char c \<longleftrightarrow> (97 \<le> c \<and> c \<le> 122) \<or> digit_cp c \<or> c = 95 \<or> c = 45"

text \<open>\<open>_HOLDING_TYPE_KEY_RE.sub("_", key)\<close>: a run of other characters becomes one underscore.\<close>

fun sub_runs :: "bool \<Rightarrow> pystr \<Rightarrow> pystr" where
  "sub_runs inside [] = []"
| "sub_runs inside (c # cs) =
     (if type_key_char c then c # sub_runs False cs
      else if inside then sub_runs True cs else 95 # sub_runs True cs)"

definition normalize_holding_type_key :: "(json \<Rightarrow> pystr) \<Rightarrow> json \<Rightarrow> pystr \<Rightarrow> pystr" where
  "normalize_holding_type_key rp value fallback =
     (let key = strip_by (\<lambda>c. c = 95) (sub_runs False (py_lower (py_strip (str_or_empty rp value))))
      in if key = [] then fallback else key)"

fun color_map_items :: "(json \<Rightarrow> pystr) \<Rightarrow> (pystr \<times> pystr) list \<Rightarrow> (pystr \<times> json) list \<Rightarrow> (pystr \<times> pystr) list" where
  "color_map_items rp normalized [] = normalized"
| "color_map_items rp normalized ((raw_key, raw_color) # items) =
     (let key = py_strip raw_key; color = py_strip (str_or_empty rp raw_color)
      in if key = [] then color_map_items rp normalized items
         else if \<not> hex_color color then color_map_items rp normalized items
         else color_map_items rp (dict_put key (py_upper color) normalized) items)"

definition normalize_color_map :: "(json \<Rightarrow> pystr) \<Rightarrow> json \<Rightarrow> (pystr \<times> pystr) list" where
  "normalize_color_map rp value =
     (case value of JObj items \<Rightarrow> color_map_items rp [] items | _ \<Rightarrow> [])"

subsection \<open>Holding types\<close>

record holding_type_setting =
  hs_key :: pystr
  hs_label :: pystr
  hs_asset_type :: pystr
  hs_tracked :: bool
  hs_show_average_cost :: bool
  hs_show_gain_loss :: bool

definition asset_values :: "pystr list" where
  "asset_values = map (lit \<circ> asset_value)
     [Asset_stock, Asset_crypto, Asset_cash, Asset_real_estate, Asset_pension, Asset_other]"

definition default_type :: "asset_type \<Rightarrow> pystr \<Rightarrow> bool \<Rightarrow> bool \<Rightarrow> holding_type_setting" where
  "default_type a label tracked gain_loss =
     \<lparr>hs_key = lit (asset_value a), hs_label = label, hs_asset_type = lit (asset_value a),
      hs_tracked = tracked, hs_show_average_cost = True, hs_show_gain_loss = gain_loss\<rparr>"

text \<open>\<open>DEFAULT_HOLDING_TYPES\<close>; the labels are Hangul.\<close>

definition default_holding_types :: "holding_type_setting list" where
  "default_holding_types =
     [default_type Asset_cash [0xD604, 0xAE08, 0xC131] False False,
      default_type Asset_stock [0xC8FC, 0xC2DD] True True,
      default_type Asset_crypto [0xAC00, 0xC0C1, 0xC790, 0xC0B0] True True,
      default_type Asset_pension [0xC5F0, 0xAE08] False False,
      default_type Asset_real_estate [0xBD80, 0xB3D9, 0xC0B0] False False,
      default_type Asset_other [0xAE30, 0xD0C0] False False]"

text \<open>The label a raw entry gets: stripped, cut to 80 characters, the key when nothing is left.\<close>

definition holding_label :: "pystr \<Rightarrow> pystr \<Rightarrow> pystr" where
  "holding_label shown key =
     (let cut = take 80 (py_strip shown) in if cut = [] then key else cut)"

definition holding_type_of ::
  "(json \<Rightarrow> pystr) \<Rightarrow> pystr \<Rightarrow> (pystr \<times> json) list \<Rightarrow> holding_type_setting" where
  "holding_type_of rp key raw =
     (let label_src = json_get raw (lit ''label''); name_src = json_get raw (lit ''name'');
          shown = (if py_truthy label_src then str_or_empty rp label_src
                   else if py_truthy name_src then str_or_empty rp name_src else key);
          label = holding_label shown key;
          asset_src = json_get raw (lit ''asset_type'');
          asset0 = py_lower (py_strip (if py_truthy asset_src then str_or_empty rp asset_src
                                       else lit (asset_value Asset_other)));
          asset = (if asset0 \<in> set asset_values then asset0 else lit (asset_value Asset_other));
          tracked_default = (asset \<in> {lit (asset_value Asset_stock), lit (asset_value Asset_crypto)});
          tracked = json_get_bool raw (lit ''tracked'') tracked_default
      in \<lparr>hs_key = key, hs_label = label, hs_asset_type = asset, hs_tracked = tracked,
          hs_show_average_cost = json_get_bool raw (lit ''show_average_cost'') True,
          hs_show_gain_loss = json_get_bool raw (lit ''show_gain_loss'') tracked\<rparr>)"

text \<open>The loop over \<open>raw_types\<close>: \<open>index\<close> counts the raw entries, \<open>acc\<close> is in reverse.\<close>

fun holding_types_loop ::
  "(json \<Rightarrow> pystr) \<Rightarrow> nat \<Rightarrow> holding_type_setting list \<Rightarrow> json list \<Rightarrow> holding_type_setting list" where
  "holding_types_loop rp index acc [] = rev acc"
| "holding_types_loop rp index acc (JObj raw # raws) =
     (let key = normalize_holding_type_key rp (json_get raw (lit ''key''))
                  (lit ''type_'' @ str_of_nat (index + 1))
      in if key \<in> hs_key ` set acc then holding_types_loop rp (index + 1) acc raws
         else holding_types_loop rp (index + 1) (holding_type_of rp key raw # acc) raws)"
| "holding_types_loop rp index acc (_ # raws) = holding_types_loop rp (index + 1) acc raws"

subsection \<open>Category order and column widths\<close>

fun category_order_loop :: "(json \<Rightarrow> pystr) \<Rightarrow> pystr list \<Rightarrow> json list \<Rightarrow> pystr list" where
  "category_order_loop rp acc [] = rev acc"
| "category_order_loop rp acc (item # items) =
     (let t = py_strip (str_or_empty rp item)
      in category_order_loop rp (if t \<noteq> [] \<and> t \<notin> set acc then t # acc else acc) items)"

fun column_widths_loop :: "(pystr \<times> int) list \<Rightarrow> (pystr \<times> json) list \<Rightarrow> (pystr \<times> int) list" where
  "column_widths_loop widths [] = widths"
| "column_widths_loop widths ((raw_key, raw_value) # items) =
     (let key = py_strip raw_key
      in if key = [] then column_widths_loop widths items
         else case json_int raw_value of
                None \<Rightarrow> column_widths_loop widths items
              | Some w \<Rightarrow> (if w < 80 \<or> 600 < w then column_widths_loop widths items
                         else column_widths_loop (dict_put key w widths) items))"

record holding_settings =
  ns_types :: "holding_type_setting list"
  ns_owner_colors :: "(pystr \<times> pystr) list"
  ns_category_colors :: "(pystr \<times> pystr) list"
  ns_type_colors :: "(pystr \<times> pystr) list"
  ns_category_order :: "pystr list"
  ns_column_widths :: "(pystr \<times> int) list"

definition normalize_holding_settings :: "(json \<Rightarrow> pystr) \<Rightarrow> json \<Rightarrow> holding_settings" where
  "normalize_holding_settings rp value =
     (let payload = (case value of JObj kvs \<Rightarrow> kvs | _ \<Rightarrow> []);
          types = (case json_get payload (lit ''types'') of
                     JList raws \<Rightarrow> holding_types_loop rp 0 [] raws | _ \<Rightarrow> [])
      in \<lparr>ns_types = (if types = [] then default_holding_types else types),
          ns_owner_colors = normalize_color_map rp (json_get payload (lit ''owner_colors'')),
          ns_category_colors = normalize_color_map rp (json_get payload (lit ''category_colors'')),
          ns_type_colors = normalize_color_map rp (json_get payload (lit ''type_colors'')),
          ns_category_order = (case json_get payload (lit ''category_order'') of
             JList items \<Rightarrow> category_order_loop rp [] items | _ \<Rightarrow> []),
          ns_column_widths = (case json_get payload (lit ''column_widths'') of
             JObj items \<Rightarrow> column_widths_loop [] items | _ \<Rightarrow> [])\<rparr>)"

subsection \<open>Well-formedness\<close>

definition holding_type_ok :: "holding_type_setting \<Rightarrow> bool" where
  "holding_type_ok s \<longleftrightarrow>
     hs_key s \<noteq> [] \<and> hs_label s \<noteq> [] \<and> hs_asset_type s \<in> set asset_values"

definition color_map_ok :: "(pystr \<times> pystr) list \<Rightarrow> bool" where
  "color_map_ok m \<longleftrightarrow> distinct (map fst m) \<and>
     list_all (\<lambda>(k, c). k \<noteq> [] \<and> py_strip k = k \<and> hex_color c) m"

definition holding_settings_ok :: "holding_settings \<Rightarrow> bool" where
  "holding_settings_ok s \<longleftrightarrow>
     ns_types s \<noteq> [] \<and> list_all holding_type_ok (ns_types s) \<and> distinct (map hs_key (ns_types s))
     \<and> color_map_ok (ns_owner_colors s) \<and> color_map_ok (ns_category_colors s) \<and> color_map_ok (ns_type_colors s)
     \<and> distinct (ns_category_order s) \<and> [] \<notin> set (ns_category_order s)
     \<and> distinct (map fst (ns_column_widths s))
     \<and> list_all (\<lambda>(k, w). k \<noteq> [] \<and> 80 \<le> w \<and> w \<le> 600) (ns_column_widths s)"

lemma hex_color_upper:
  "hex_color s \<Longrightarrow> hex_color (py_upper s)"
proof -
  have up: "length (py_upper s) = length s" "list_all hex_digit_cp (py_upper s)"
    if "list_all hex_digit_cp s" for s
    using that by (induction s) (auto simp: py_upper_def upper_cp_def hex_digit_cp_def digit_cp_def)
  assume h: "hex_color s"
  then obtain t where s: "s = 35 # t" by (cases s) (auto simp: hex_color_def)
  have "py_upper s = 35 # py_upper t" by (simp add: s py_upper_def upper_cp_def)
  with h up [of t] s show ?thesis by (simp add: hex_color_def)
qed

lemma color_map_items_ok:
  "color_map_ok m \<Longrightarrow> color_map_ok (color_map_items rp m items)"
proof (induction rp m items rule: color_map_items.induct)
  case (2 rp m raw_key raw_color items)
  show ?case
  proof (cases "py_strip raw_key = [] \<or> \<not> hex_color (py_strip (str_or_empty rp raw_color))")
    case True
    with 2 show ?thesis by (auto simp: Let_def)
  next
    case False
    let ?m = "dict_put (py_strip raw_key) (py_upper (py_strip (str_or_empty rp raw_color))) m"
    have "list_all (\<lambda>(k, c). k \<noteq> [] \<and> py_strip k = k \<and> hex_color c) ?m"
      using 2(4) False hex_color_upper set_dict_put [of "py_strip raw_key" _ m]
      unfolding list_all_iff color_map_ok_def by fastforce
    with 2(4) have "color_map_ok ?m"
      by (simp add: color_map_ok_def distinct_dict_put)
    with 2(3) False show ?thesis by (simp add: Let_def)
  qed
qed simp

lemma normalize_color_map_ok: "color_map_ok (normalize_color_map rp v)"
proof -
  have e: "color_map_ok []" by (simp add: color_map_ok_def)
  then show ?thesis
    by (cases v) (simp_all add: normalize_color_map_def color_map_items_ok [OF e])
qed

lemma normalize_holding_type_key_nonempty:
  "fallback \<noteq> [] \<Longrightarrow> normalize_holding_type_key rp v fallback \<noteq> []"
  by (simp add: normalize_holding_type_key_def Let_def)

lemma asset_other_value: "lit (asset_value Asset_other) \<in> set asset_values"
  by (simp add: asset_values_def)

lemma holding_type_of_ok: "key \<noteq> [] \<Longrightarrow> holding_type_ok (holding_type_of rp key raw)"
  using asset_other_value by (auto simp: holding_type_of_def holding_type_ok_def holding_label_def Let_def)

lemma holding_type_of_key [simp]: "hs_key (holding_type_of rp key raw) = key"
  by (simp add: holding_type_of_def Let_def)

lemma holding_types_loop_ok:
  "list_all holding_type_ok acc \<Longrightarrow> distinct (map hs_key acc) \<Longrightarrow>
   list_all holding_type_ok (holding_types_loop rp index acc raws)
   \<and> distinct (map hs_key (holding_types_loop rp index acc raws))"
proof (induction rp index acc raws rule: holding_types_loop.induct)
  case (2 rp index acc raw raws)
  have "lit ''type_'' @ str_of_nat (index + 1) \<noteq> []" by (simp add: lit_def)
  note ne = normalize_holding_type_key_nonempty [OF this]
  with 2 show ?case
    by (simp add: Let_def holding_type_of_ok)
qed (auto simp: rev_map [symmetric] list_all_iff)

lemma category_order_loop_ok:
  "distinct acc \<Longrightarrow> [] \<notin> set acc \<Longrightarrow>
   distinct (category_order_loop rp acc items) \<and> [] \<notin> set (category_order_loop rp acc items)"
  by (induction rp acc items rule: category_order_loop.induct) (auto simp: Let_def)

lemma column_widths_loop_ok:
  "distinct (map fst ws) \<Longrightarrow> list_all (\<lambda>(k, w). k \<noteq> [] \<and> 80 \<le> w \<and> w \<le> 600) ws \<Longrightarrow>
   distinct (map fst (column_widths_loop ws items))
   \<and> list_all (\<lambda>(k, w). k \<noteq> [] \<and> 80 \<le> w \<and> w \<le> 600) (column_widths_loop ws items)"
proof (induction ws items rule: column_widths_loop.induct)
  case (2 ws raw_key raw_value items)
  have put: "list_all (\<lambda>(k, w). k \<noteq> [] \<and> 80 \<le> w \<and> w \<le> 600) (dict_put (py_strip raw_key) w ws)"
    if "py_strip raw_key \<noteq> []" "80 \<le> w" "w \<le> 600" for w
    using that 2(6) set_dict_put [of "py_strip raw_key" w ws] unfolding list_all_iff by fastforce
  show ?case
  proof (cases "py_strip raw_key = []")
    case True
    with 2 show ?thesis by simp
  next
    case False
    show ?thesis
    proof (cases "json_int raw_value")
      case None
      with False 2 show ?thesis by simp
    next
      case (Some w)
      show ?thesis
      proof (cases "w < 80 \<or> 600 < w")
        case True
        with Some False 2 show ?thesis by simp
      next
        case w: False
        with Some False put [of w] 2(4) [OF refl False Some w] distinct_dict_put [OF 2(5)] show ?thesis
          by simp
      qed
    qed
  qed
qed simp

lemma default_types_ok:
  "list_all holding_type_ok default_holding_types \<and> distinct (map hs_key default_holding_types)"
  by code_simp

lemma normalize_holding_settings_ok: "holding_settings_ok (normalize_holding_settings rp v)"
proof -
  define payload where "payload = (case v of JObj kvs \<Rightarrow> kvs | _ \<Rightarrow> [])"
  define types where "types = (case json_get payload (lit ''types'') of
     JList raws \<Rightarrow> holding_types_loop rp 0 [] raws | _ \<Rightarrow> [])"
  have t: "list_all holding_type_ok types \<and> distinct (map hs_key types)"
    by (cases "json_get payload (lit ''types'')") (simp_all add: types_def holding_types_loop_ok)
  have o: "distinct os \<and> [] \<notin> set os"
    if "os = (case json_get payload (lit ''category_order'') of
       JList items \<Rightarrow> category_order_loop rp [] items | _ \<Rightarrow> [])" for os
    using that category_order_loop_ok [of "[]" rp]
    by (cases "json_get payload (lit ''category_order'')") simp_all
  have w: "distinct (map fst ws) \<and> list_all (\<lambda>(k, w). k \<noteq> [] \<and> 80 \<le> w \<and> w \<le> 600) ws"
    if "ws = (case json_get payload (lit ''column_widths'') of
       JObj items \<Rightarrow> column_widths_loop [] items | _ \<Rightarrow> [])" for ws
    using that column_widths_loop_ok [of "[]"]
    by (cases "json_get payload (lit ''column_widths'')") simp_all
  have d: "default_holding_types \<noteq> []" by (simp add: default_holding_types_def)
  show ?thesis
    unfolding holding_settings_ok_def normalize_holding_settings_def Let_def
      payload_def [symmetric] types_def [symmetric]
    using t default_types_ok d o [OF refl] w [OF refl] normalize_color_map_ok by simp
qed

subsection \<open>Properties\<close>

text \<open>(holding settings are well formed): whatever JSON value a client sends or an old row
holds, its normal form lists at least one holding type, each with a key of its own, a label and
a known asset type; its colour maps have stripped keys and hexadecimal colours, its category
order no blank or repeated text and its column widths lie between 80 and 600.\<close>

theorem holding_settings_wellformed:
  "holding_settings_ok (normalize_holding_settings rp v)"
  by (rule normalize_holding_settings_ok)

text \<open>
  The cut to 80 characters comes after the stripping, so a label may end in white space and
  normalising it once more changes it.
\<close>

lemma holding_label_not_idempotent:
  "holding_label (holding_label (replicate 79 97 @ [32, 98]) key) key
   \<noteq> holding_label (replicate 79 97 @ [32, 98]) key"
  by (simp add: holding_label_def py_strip_def strip_by_def py_space_def eval_nat_numeral)

end
