(* ===== verification/Household.thy ===== *)
theory Household
  imports Access Owner_Links Holding_Settings
begin

text \<open>
  Members and invitations of a household (\<open>backend/app/api/routes/household.py\<close>): accepting,
  creating and revoking invitations, changing roles, removing members, selecting the active
  household, settings and the listings.  A handler receives the context its guard computed
  and re-reads the rows it locks; \<open>d\<close> is the state those locked reads see.  The lemmas
  establish the membership invariant: one owner per household, one membership per user, no
  invitation for the owner role and one pending invitation per address.
\<close>

subsection \<open>Roles\<close>

fun role_rank :: "member_role \<Rightarrow> nat" where
  "role_rank Role_viewer = 0"
| "role_rank Role_editor = 1"
| "role_rank Role_co_owner = 2"
| "role_rank Role_owner = 3"

definition lock_household_members :: "db \<Rightarrow> pystr \<Rightarrow> household_member list" where
  "lock_household_members d household_id =
     filter (\<lambda>m. mb_household_id m = household_id) (db_members d)"

text \<open>\<open>locked_members.get(member_id)\<close> on the dictionary by identifier.\<close>

definition locked_get :: "db \<Rightarrow> pystr \<Rightarrow> pystr \<Rightarrow> household_member option" where
  "locked_get d household_id member_id =
     row_get mb_id member_id (rev (lock_household_members d household_id))"

subsection \<open>Read models\<close>

record member_read =
  mr_member_id :: pystr
  mr_user_id :: pystr
  mr_email :: pystr
  mr_display_name :: pystr
  mr_role :: member_role
  mr_created_at :: instant

definition to_member_read :: "household_member \<Rightarrow> user \<Rightarrow> member_read" where
  "to_member_read m u =
     \<lparr>mr_member_id = mb_id m, mr_user_id = us_id u, mr_email = us_email u,
      mr_display_name = us_display_name u, mr_role = mb_role m, mr_created_at = mb_created_at m\<rparr>"

record invitation_read =
  ir_id :: pystr
  ir_household_id :: pystr
  ir_household_name :: "pystr option"
  ir_email :: pystr
  ir_role :: member_role
  ir_status :: invitation_status
  ir_expires_at :: instant
  ir_accepted_at :: "instant option"
  ir_created_at :: instant
  ir_inviter_user_id :: "pystr option"
  ir_inviter_display_name :: "pystr option"
  ir_debug_invite_token :: "pystr option"

definition to_invitation_read ::
  "invitation \<Rightarrow> pystr option \<Rightarrow> pystr option \<Rightarrow> invitation_status option \<Rightarrow> pystr option \<Rightarrow> invitation_read" where
  "to_invitation_read ivn inviter_display_name debug_invite_token status_override household_name =
     \<lparr>ir_id = iv_id ivn, ir_household_id = iv_household_id ivn, ir_household_name = household_name,
      ir_email = iv_email ivn, ir_role = iv_role ivn,
      ir_status = (case status_override of Some s \<Rightarrow> s | None \<Rightarrow> iv_status ivn),
      ir_expires_at = iv_expires_at ivn, ir_accepted_at = iv_accepted_at ivn,
      ir_created_at = iv_created_at ivn,
      ir_inviter_user_id = normalize_optional_text (iv_inviter_user_id ivn),
      ir_inviter_display_name = inviter_display_name, ir_debug_invite_token = debug_invite_token\<rparr>"

record household_settings_read =
  sr_household_id :: pystr
  sr_name :: pystr
  sr_base_currency :: pystr
  sr_transaction_row_colors :: "(pystr \<times> pystr) list"
  sr_holding_settings :: holding_settings

text \<open>A stored colour the normalisation rejects is an uncaught \<open>ValueError\<close>.\<close>

definition to_household_settings_read ::
  "(json \<Rightarrow> pystr) \<Rightarrow> household \<Rightarrow> http_error + household_settings_read" where
  "to_household_settings_read rp h =
     (case normalize_transaction_row_colors (Some (hh_transaction_row_colors h)) of
        None \<Rightarrow> Inl ServerError
      | Some colors \<Rightarrow>
          Inr \<lparr>sr_household_id = hh_id h, sr_name = hh_name h, sr_base_currency = hh_base_currency h,
               sr_transaction_row_colors = colors,
               sr_holding_settings = normalize_holding_settings rp (JObj (hh_holding_settings h))\<rparr>)"

subsection \<open>Accepting an invitation\<close>

definition expire_if_needed :: "invitation \<Rightarrow> instant \<Rightarrow> bool \<times> invitation" where
  "expire_if_needed ivn now =
     (if iv_status ivn = Inv_pending \<and> iv_expires_at ivn < now
      then (True, ivn\<lparr>iv_status := Inv_expired\<rparr>) else (False, ivn))"

record accept_response =
  ar_invitation_id :: pystr
  ar_household_id :: pystr
  ar_household_name :: pystr
  ar_role :: member_role
  ar_active_household_selected :: bool

definition find_membership :: "db \<Rightarrow> pystr \<Rightarrow> pystr \<Rightarrow> household_member option" where
  "find_membership d household_id user_id =
     find (\<lambda>m. mb_household_id m = household_id \<and> mb_user_id m = user_id) (db_members d)"

text \<open>\<open>uq_household_member\<close> at the commit of a new membership.\<close>

definition member_conflict :: "db \<Rightarrow> household_member \<Rightarrow> bool" where
  "member_conflict d m \<longleftrightarrow> find_membership d (mb_household_id m) (mb_user_id m) \<noteq> None"

text \<open>The conditional update of the invitation: the rows it matches and the state after it.\<close>

definition mark_accepted :: "db \<Rightarrow> pystr \<Rightarrow> pystr \<Rightarrow> instant \<Rightarrow> nat \<times> db" where
  "mark_accepted d invitation_id user_id now =
     (let hit = (\<lambda>i. iv_id i = invitation_id \<and> iv_status i = Inv_pending \<and> now \<le> iv_expires_at i)
      in (length (filter hit (db_invitations d)),
          set_invitations (map (\<lambda>i. if hit i
            then i\<lparr>iv_status := Inv_accepted, iv_accepted_user_id := Some user_id, iv_accepted_at := Some now\<rparr>
            else i) (db_invitations d)) d))"

definition select_active :: "db \<Rightarrow> pystr \<Rightarrow> pystr option \<Rightarrow> db" where
  "select_active d user_id household_id =
     set_users (row_update us_id user_id (\<lambda>u. u\<lparr>us_active_household_id := household_id\<rparr>) (db_users d)) d"

definition household_name_or_default :: "db \<Rightarrow> pystr \<Rightarrow> pystr" where
  "household_name_or_default d household_id =
     (case row_get hh_id household_id (db_households d) of
        None \<Rightarrow> [0xAC00, 0xACC4]
      | Some h \<Rightarrow> (if hh_name h = [] then [0xAC00, 0xACC4] else hh_name h))"

text \<open>The membership after the acceptance, and whether it is a new row.\<close>

definition accepted_membership :: "env \<Rightarrow> db \<Rightarrow> invitation \<Rightarrow> user \<Rightarrow> bool \<times> household_member" where
  "accepted_membership ev d ivn u =
     (case find_membership d (iv_household_id ivn) (us_id u) of
        None \<Rightarrow> (True, \<lparr>mb_id = ev_new_id ev, mb_household_id = iv_household_id ivn, mb_user_id = us_id u,
                      mb_role = iv_role ivn, mb_created_at = ev_db_now ev\<rparr>)
      | Some m \<Rightarrow> (False, if role_rank (mb_role m) < role_rank (iv_role ivn)
                         then m\<lparr>mb_role := iv_role ivn\<rparr> else m))"

definition write_membership :: "bool \<Rightarrow> household_member \<Rightarrow> db \<Rightarrow> db" where
  "write_membership is_new m d =
     (if is_new then set_members (db_members d @ [m]) d
      else set_members (row_update mb_id (mb_id m) (\<lambda>_. m) (db_members d)) d)"

text \<open>
  \<open>_accept_invitation_record\<close> on a locked invitation: an expiry is committed even though the
  request fails.  \<open>interleave\<close> is what other sessions commit before the final commit.
\<close>

definition accept_invitation_record ::
  "env \<Rightarrow> (db \<Rightarrow> db) \<Rightarrow> db \<Rightarrow> invitation \<Rightarrow> user \<Rightarrow> accept_response outcome" where
  "accept_invitation_record ev interleave d invitation u =
     (let now = ev_now ev;
          (expired, ivn) = expire_if_needed invitation now;
          d1 = (if expired then
                  set_invitations (row_update iv_id (iv_id ivn) (\<lambda>_. ivn) (db_invitations d)) d else d)
      in if iv_status ivn = Inv_expired then fail d1 (AppError 400 ''HOUSEHOLD_INVITE_EXPIRED'')
         else if iv_status ivn \<noteq> Inv_pending then fail d1 (AppError 400 ''HOUSEHOLD_INVITE_INVALID'')
         else if py_lower (us_email u) \<noteq> py_lower (iv_email ivn)
         then fail d1 (AppError 403 ''HOUSEHOLD_INVITE_EMAIL_MISMATCH'')
         else case ensure_unique_household_member_display_name ev d1 (iv_household_id ivn)
                     (Some (us_id u)) (Some (us_display_name u)) of
           Some e \<Rightarrow> fail d1 e
         | None \<Rightarrow>
        (let (is_new, m) = accepted_membership ev d1 ivn u;
             c = interleave d1;
             (updated_rows, c1) = mark_accepted c (iv_id ivn) (us_id u) now;
             active = (if us_active_household_id u = None then Some (iv_household_id ivn)
                       else us_active_household_id u);
             c2 = (if us_active_household_id u = None
                   then select_active c1 (us_id u) (Some (iv_household_id ivn)) else c1)
         in if updated_rows \<noteq> 1 then fail c (AppError 400 ''HOUSEHOLD_INVITE_INVALID'')
            else if is_new \<and> member_conflict c2 m then fail c (AppError 400 ''HOUSEHOLD_INVITE_INVALID'')
            else done_with (write_membership is_new m c2) []
                   \<lparr>ar_invitation_id = iv_id ivn, ar_household_id = iv_household_id ivn,
                    ar_household_name = household_name_or_default d1 (iv_household_id ivn),
                    ar_role = mb_role m,
                    ar_active_household_selected = (active = Some (iv_household_id ivn))\<rparr>))"

definition hash_opaque_token :: "env \<Rightarrow> pystr \<Rightarrow> pystr" where
  "hash_opaque_token ev token = ev_hash_token ev (py_strip token)"

definition accept_invitation ::
  "env \<Rightarrow> (db \<Rightarrow> db) \<Rightarrow> db \<Rightarrow> user \<Rightarrow> pystr \<Rightarrow> accept_response outcome" where
  "accept_invitation ev interleave d u token =
     (case find (\<lambda>i. iv_token_hash i = hash_opaque_token ev token) (db_invitations d) of
        None \<Rightarrow> fail d (AppError 400 ''HOUSEHOLD_INVITE_INVALID'')
      | Some ivn \<Rightarrow> accept_invitation_record ev interleave d ivn u)"

definition accept_invitation_by_id ::
  "env \<Rightarrow> (db \<Rightarrow> db) \<Rightarrow> db \<Rightarrow> user \<Rightarrow> pystr \<Rightarrow> accept_response outcome" where
  "accept_invitation_by_id ev interleave d u invitation_id =
     (case row_get iv_id invitation_id (db_invitations d) of
        None \<Rightarrow> fail d (AppError 404 ''HOUSEHOLD_INVITE_NOT_FOUND'')
      | Some ivn \<Rightarrow> accept_invitation_record ev interleave d ivn u)"

subsection \<open>Creating and revoking invitations\<close>

definition revoke_if :: "(invitation \<Rightarrow> bool) \<Rightarrow> instant \<Rightarrow> db \<Rightarrow> db" where
  "revoke_if hit now d =
     set_invitations (map (\<lambda>i. if hit i then i\<lparr>iv_status := Inv_revoked, iv_revoked_at := Some now\<rparr> else i)
       (db_invitations d)) d"

text \<open>\<open>_revoke_pending_invitation_after_delivery_failure\<close>.\<close>

definition revoke_pending_invitation :: "env \<Rightarrow> db \<Rightarrow> pystr \<Rightarrow> db" where
  "revoke_pending_invitation ev d invitation_id =
     revoke_if (\<lambda>i. iv_id i = invitation_id \<and> iv_status i = Inv_pending) (ev_now ev) d"

text \<open>\<open>_raise_if_invite_email_delivery_failed\<close>: the state afterwards and the error raised.\<close>

definition raise_if_invite_email_delivery_failed ::
  "env \<Rightarrow> bool \<Rightarrow> db \<Rightarrow> pystr \<Rightarrow> db \<times> http_error option" where
  "raise_if_invite_email_delivery_failed ev sent d invitation_id =
     (if sent \<or> \<not> ev_blocks_email_failures ev then (d, None)
      else (if invitation_id \<noteq> [] then revoke_pending_invitation ev d invitation_id else d,
            Some (AppError 503 ''HOUSEHOLD_INVITE_EMAIL_DELIVERY_FAILED'')))"

definition pending_for :: "env \<Rightarrow> pystr \<Rightarrow> pystr \<Rightarrow> invitation \<Rightarrow> bool" where
  "pending_for ev household_id email i \<longleftrightarrow>
     iv_household_id i = household_id \<and> ev_sql_lower ev (iv_email i) = email \<and> iv_status i = Inv_pending"

text \<open>
  The unique indexes at the commit of a new invitation: \<open>uq_household_invitation_token_hash\<close>
  and \<open>uq_household_invite_pending_household_email\<close>.
\<close>

definition invitation_conflict :: "env \<Rightarrow> db \<Rightarrow> invitation \<Rightarrow> bool" where
  "invitation_conflict ev d ivn \<longleftrightarrow>
     (\<exists>i \<in> set (db_invitations d). iv_token_hash i = iv_token_hash ivn
        \<or> pending_for ev (iv_household_id ivn) (ev_sql_lower ev (iv_email ivn)) i)"

definition recent_invite_count :: "env \<Rightarrow> db \<Rightarrow> pystr \<Rightarrow> pystr \<Rightarrow> nat" where
  "recent_invite_count ev d household_id user_id =
     (let window_start = ev_now ev - seconds (max 60 (ev_invite_window_seconds ev))
      in length (filter (\<lambda>i. iv_household_id i = household_id \<and> iv_inviter_user_id i = Some user_id
             \<and> iv_status i \<noteq> Inv_revoked \<and> window_start \<le> iv_created_at i) (db_invitations d)))"

definition new_invitation ::
  "env \<Rightarrow> pystr \<Rightarrow> pystr \<Rightarrow> pystr \<Rightarrow> member_role \<Rightarrow> pystr \<Rightarrow> invitation" where
  "new_invitation ev household_id user_id email role raw_token =
     \<lparr>iv_id = ev_new_id ev, iv_household_id = household_id, iv_email = email,
      iv_inviter_user_id = Some user_id, iv_accepted_user_id = None, iv_role = role,
      iv_status = Inv_pending, iv_token_hash = hash_opaque_token ev raw_token,
      iv_expires_at = ev_now ev + seconds (3600 * max 1 (ev_invite_token_hours ev)),
      iv_accepted_at = None, iv_revoked_at = None, iv_created_at = ev_db_now ev\<rparr>"

text \<open>The checks before anything is written: \<open>None\<close> lets the request go on.\<close>

definition check_new_invitation ::
  "env \<Rightarrow> db \<Rightarrow> ctx \<Rightarrow> user \<Rightarrow> pystr \<Rightarrow> http_error option" where
  "check_new_invitation ev d ctx u email =
     (let household_id = hh_id (fst ctx)
      in case find (\<lambda>m. mb_id m = mb_id (snd ctx) \<and> mb_household_id m = household_id
                      \<and> mb_user_id m = us_id u) (db_members d) of
           None \<Rightarrow> Some (AppError 403 ''HOUSEHOLD_ROLE_FORBIDDEN'')
         | Some actor \<Rightarrow>
        (if mb_role actor \<notin> {Role_owner, Role_co_owner} then Some (AppError 403 ''HOUSEHOLD_ROLE_FORBIDDEN'')
         else case (case find (\<lambda>x. ev_sql_lower ev (us_email x) = email) (db_users d) of
               None \<Rightarrow> None
             | Some x \<Rightarrow>
                 (case ensure_unique_household_member_display_name ev d household_id
                         (Some (us_id x)) (Some (us_display_name x)) of
                    Some e \<Rightarrow> Some e
                  | None \<Rightarrow> (if find_membership d household_id (us_id x) \<noteq> None
                            then Some (AppError 409 ''HOUSEHOLD_MEMBER_ALREADY_EXISTS'') else None))) of
           Some e \<Rightarrow> Some e
         | None \<Rightarrow>
             (if max 1 (ev_invite_max_attempts ev) \<le> int (recent_invite_count ev d household_id (us_id u))
              then Some (AppError 429 ''HOUSEHOLD_INVITE_RATE_LIMITED'') else None)))"

text \<open>
  \<open>create_invitation\<close>: \<open>raw_token\<close> is the generated token, \<open>sent\<close> whether the mail went out and
  \<open>debug\<close> whether tokens are shown in responses.  On a conflict at the commit the pending
  invitation of the other session is answered.
\<close>

definition create_invitation ::
  "env \<Rightarrow> (db \<Rightarrow> db) \<Rightarrow> db \<Rightarrow> ctx \<Rightarrow> user \<Rightarrow> pystr \<Rightarrow> member_role \<Rightarrow> pystr \<Rightarrow> bool \<Rightarrow> bool
   \<Rightarrow> invitation_read outcome" where
  "create_invitation ev interleave d ctx u payload_email role raw_token sent debug =
     (let household_id = hh_id (fst ctx);
          email = py_strip (py_lower payload_email)
      in if role = Role_owner then fail d (AppError 400 ''HOUSEHOLD_INVITE_ROLE_INVALID'')
         else case check_new_invitation ev d ctx u email of
           Some e \<Rightarrow> fail d e
         | None \<Rightarrow>
        (let pending = map iv_id (filter (pending_for ev household_id email) (db_invitations d));
             ivn = new_invitation ev household_id (us_id u) email role raw_token;
             c = interleave d;
             c1 = revoke_if (\<lambda>i. iv_id i \<in> set pending) (ev_now ev) c
         in if invitation_conflict ev c1 ivn then
              (case rev (sort_key iv_created_at (filter (pending_for ev household_id email) (db_invitations c))) of
                 [] \<Rightarrow> fail c (AppError 409 ''HOUSEHOLD_INVITE_CONFLICT'')
               | i # _ \<Rightarrow> done_with c [] (to_invitation_read i None None None None))
            else
              (case raise_if_invite_email_delivery_failed ev sent
                      (set_invitations (db_invitations c1 @ [ivn]) c1) (iv_id ivn) of
                 (c2, Some e) \<Rightarrow> fail c2 e
               | (c2, None) \<Rightarrow>
                   done_with c2 []
                     (to_invitation_read ivn (Some (us_display_name u))
                        (if debug then Some raw_token else None) None None))))"

definition revoke_invitation :: "env \<Rightarrow> db \<Rightarrow> ctx \<Rightarrow> pystr \<Rightarrow> unit outcome" where
  "revoke_invitation ev d ctx invitation_id =
     (let household_id = hh_id (fst ctx);
          hit = (\<lambda>i. iv_id i = invitation_id \<and> iv_household_id i = household_id \<and> iv_status i = Inv_pending)
      in case find (\<lambda>i. iv_id i = invitation_id \<and> iv_household_id i = household_id) (db_invitations d) of
           None \<Rightarrow> fail d (AppError 404 ''HOUSEHOLD_INVITE_NOT_FOUND'')
         | Some _ \<Rightarrow>
             (if length (filter hit (db_invitations d)) \<noteq> 1
              then fail d (AppError 409 ''HOUSEHOLD_INVITE_ALREADY_PROCESSED'')
              else done_with (revoke_if hit (ev_now ev) d) [] ()))"

subsection \<open>Roles and removal\<close>

definition owner_count :: "db \<Rightarrow> pystr \<Rightarrow> nat" where
  "owner_count d household_id =
     length (filter (\<lambda>m. mb_role m = Role_owner) (lock_household_members d household_id))"

definition set_role :: "pystr \<Rightarrow> member_role \<Rightarrow> db \<Rightarrow> db" where
  "set_role member_id role d =
     set_members (row_update mb_id member_id (\<lambda>m. m\<lparr>mb_role := role\<rparr>) (db_members d)) d"

definition patch_member_role :: "db \<Rightarrow> ctx \<Rightarrow> pystr \<Rightarrow> member_role \<Rightarrow> member_read outcome" where
  "patch_member_role d ctx member_id next_role =
     (let household_id = hh_id (fst ctx)
      in case locked_get d household_id member_id of
           None \<Rightarrow> fail d (AppError 404 ''HOUSEHOLD_MEMBER_NOT_FOUND'')
         | Some target \<Rightarrow>
        (case locked_get d household_id (mb_id (snd ctx)) of
           None \<Rightarrow> fail d (AppError 403 ''HOUSEHOLD_ROLE_FORBIDDEN'')
         | Some actor \<Rightarrow>
        (if mb_role actor \<notin> {Role_owner, Role_co_owner} then fail d (AppError 403 ''HOUSEHOLD_ROLE_FORBIDDEN'')
         else case row_get us_id (mb_user_id target) (db_users d) of
           None \<Rightarrow> fail d (AppError 404 ''HOUSEHOLD_MEMBER_NOT_FOUND'')
         | Some target_user \<Rightarrow>
        (if mb_role target = Role_owner \<and> mb_role actor \<noteq> Role_owner
         then fail d (AppError 403 ''HOUSEHOLD_ROLE_FORBIDDEN'')
         else if next_role = Role_owner \<and> mb_role actor \<noteq> Role_owner
         then fail d (AppError 403 ''HOUSEHOLD_ROLE_FORBIDDEN'')
         else if mb_role target = Role_owner \<and> next_role \<noteq> Role_owner \<and> owner_count d household_id \<le> 1
         then fail d (AppError 409 ''HOUSEHOLD_OWNER_REQUIRED'')
         else
           (let d1 = (if next_role = Role_owner \<and> mb_role target \<noteq> Role_owner \<and> mb_id actor \<noteq> mb_id target
                      then set_role (mb_id actor) Role_co_owner d else d);
                d2 = set_role (mb_id target) next_role d1
            in done_with d2 [] (to_member_read (target\<lparr>mb_role := next_role\<rparr>) target_user))))))"

definition remove_member :: "db \<Rightarrow> ctx \<Rightarrow> pystr \<Rightarrow> unit outcome" where
  "remove_member d ctx member_id =
     (let household_id = hh_id (fst ctx)
      in case locked_get d household_id (mb_id (snd ctx)) of
           None \<Rightarrow> fail d (AppError 403 ''HOUSEHOLD_ROLE_FORBIDDEN'')
         | Some actor \<Rightarrow>
        (if mb_role actor \<notin> {Role_owner, Role_co_owner} then fail d (AppError 403 ''HOUSEHOLD_ROLE_FORBIDDEN'')
         else case locked_get d household_id member_id of
           None \<Rightarrow> fail d (AppError 404 ''HOUSEHOLD_MEMBER_NOT_FOUND'')
         | Some target \<Rightarrow>
        (if mb_role target = Role_owner \<and> mb_role actor \<noteq> Role_owner
         then fail d (AppError 403 ''HOUSEHOLD_ROLE_FORBIDDEN'')
         else if mb_role target = Role_owner \<and> owner_count d household_id \<le> 1
         then fail d (AppError 409 ''HOUSEHOLD_OWNER_REQUIRED'')
         else
           (let removed_user_id = mb_user_id target;
                d1 = set_members (row_delete mb_id (mb_id target) (db_members d)) d;
                d2 = (case row_get us_id removed_user_id (db_users d) of
                        Some u \<Rightarrow> (if us_active_household_id u = Some household_id
                                  then select_active d1 removed_user_id None else d1)
                      | None \<Rightarrow> d1)
            in done_with d2 [(household_id, Member_disconnected removed_user_id)] ()))))"

subsection \<open>Selecting, settings and listings\<close>

definition select_household :: "db \<Rightarrow> user \<Rightarrow> pystr \<Rightarrow> (household \<times> member_role) outcome" where
  "select_household d u household_id =
     (case find (\<lambda>m. mb_user_id m = us_id u \<and> mb_household_id m = household_id) (db_members d) of
        None \<Rightarrow> fail d (AppError 404 ''HOUSEHOLD_NOT_FOUND'')
      | Some m \<Rightarrow>
          (case row_get hh_id (mb_household_id m) (db_households d) of
             None \<Rightarrow> fail d (AppError 404 ''HOUSEHOLD_NOT_FOUND'')
           | Some h \<Rightarrow> done_with (select_active d (us_id u) (Some (hh_id h))) [] (h, mb_role m)))"

record settings_patch =
  sp_name :: "pystr option"
  sp_transaction_row_colors :: "(pystr \<times> pystr) list option"
  sp_holding_settings :: "json option"

text \<open>
  The writer of \<open>household.holding_settings\<close>: the JSON object of a normal form.
\<close>

definition holding_type_json :: "holding_type_setting \<Rightarrow> json" where
  "holding_type_json s = JObj
     [(lit ''key'', JStr (hs_key s)), (lit ''label'', JStr (hs_label s)),
      (lit ''asset_type'', JStr (hs_asset_type s)), (lit ''tracked'', JBool (hs_tracked s)),
      (lit ''show_average_cost'', JBool (hs_show_average_cost s)),
      (lit ''show_gain_loss'', JBool (hs_show_gain_loss s))]"

definition holding_settings_json :: "holding_settings \<Rightarrow> (pystr \<times> json) list" where
  "holding_settings_json s =
     (let colors = (\<lambda>m. JObj (map (\<lambda>(k, v). (k, JStr v)) m))
      in [(lit ''types'', JList (map holding_type_json (ns_types s))),
          (lit ''owner_colors'', colors (ns_owner_colors s)),
          (lit ''category_colors'', colors (ns_category_colors s)),
          (lit ''type_colors'', colors (ns_type_colors s)),
          (lit ''category_order'', JList (map JStr (ns_category_order s))),
          (lit ''column_widths'', JObj (map (\<lambda>(k, w). (k, JInt w)) (ns_column_widths s)))])"

text \<open>\<open>patch_household_settings\<close>; the stored columns are not nullable.\<close>

definition patch_household_settings ::
  "(json \<Rightarrow> pystr) \<Rightarrow> db \<Rightarrow> ctx \<Rightarrow> settings_patch \<Rightarrow> household_settings_read outcome" where
  "patch_household_settings rp d ctx p =
     (let h = fst ctx;
          h1 = (case sp_name p of Some n \<Rightarrow> h\<lparr>hh_name := n\<rparr> | None \<Rightarrow> h)
      in case (case sp_transaction_row_colors p of
                 None \<Rightarrow> Some h1
               | Some colors \<Rightarrow> map_option (\<lambda>c. h1\<lparr>hh_transaction_row_colors := c\<rparr>)
                                  (normalize_transaction_row_colors (Some colors))) of
           None \<Rightarrow> fail d ServerError
         | Some h2 \<Rightarrow>
             (let h3 = (case sp_holding_settings p of
                          None \<Rightarrow> h2
                        | Some v \<Rightarrow> h2\<lparr>hh_holding_settings := holding_settings_json (normalize_holding_settings rp v)\<rparr>);
                  d' = set_households (row_update hh_id (hh_id h) (\<lambda>_. h3) (db_households d)) d
              in (to_household_settings_read rp h3, d', [])))"

definition list_households :: "db \<Rightarrow> user \<Rightarrow> (household \<times> member_role \<times> bool) list" where
  "list_households d u =
     concat (map (\<lambda>m. case row_get hh_id (mb_household_id m) (db_households d) of
         None \<Rightarrow> []
       | Some h \<Rightarrow> [(h, mb_role m, us_active_household_id u = Some (mb_household_id m))])
       (memberships d (us_id u)))"

definition list_members :: "db \<Rightarrow> ctx \<Rightarrow> member_read list" where
  "list_members d ctx =
     concat (map (\<lambda>m. map (to_member_read m) (filter (\<lambda>u. us_id u = mb_user_id m) (db_users d)))
       (sort_key mb_created_at (filter (\<lambda>m. mb_household_id m = hh_id (fst ctx)) (db_members d))))"

definition shown_status :: "instant \<Rightarrow> invitation \<Rightarrow> invitation_status" where
  "shown_status now i =
     (if iv_status i = Inv_pending \<and> iv_expires_at i < now then Inv_expired else iv_status i)"

definition inviter_name :: "db \<Rightarrow> invitation \<Rightarrow> pystr option" where
  "inviter_name d i =
     (case iv_inviter_user_id i of
        None \<Rightarrow> None
      | Some x \<Rightarrow> map_option us_display_name (row_get us_id x (db_users d)))"

definition list_invitations :: "env \<Rightarrow> db \<Rightarrow> ctx \<Rightarrow> invitation_read list" where
  "list_invitations ev d ctx =
     map (\<lambda>i. to_invitation_read i (inviter_name d i) None (Some (shown_status (ev_now ev) i)) None)
       (rev (sort_key iv_created_at
          (rev (filter (\<lambda>i. iv_household_id i = hh_id (fst ctx)) (db_invitations d)))))"

definition list_received_invitations :: "env \<Rightarrow> db \<Rightarrow> user \<Rightarrow> invitation_read list" where
  "list_received_invitations ev d u =
     concat (map (\<lambda>i. case row_get hh_id (iv_household_id i) (db_households d) of
         None \<Rightarrow> []
       | Some h \<Rightarrow>
           [to_invitation_read i (inviter_name d i) None (Some (shown_status (ev_now ev) i)) (Some (hh_name h))])
       (rev (sort_key iv_created_at
          (rev (filter (\<lambda>i. ev_sql_lower ev (iv_email i) = py_lower (us_email u)) (db_invitations d))))))"

subsection \<open>The membership invariant\<close>

text \<open>
  Identifiers are unique, a user has one membership in a household, no invitation is for the
  owner role and a household has one pending invitation per address (in the database's lower
  case \<open>lower\<close>).
\<close>

definition household_inv :: "(pystr \<Rightarrow> pystr) \<Rightarrow> db \<Rightarrow> bool" where
  "household_inv lower d \<longleftrightarrow>
     unique_keys mb_id (db_members d)
     \<and> distinct (map (\<lambda>m. (mb_household_id m, mb_user_id m)) (db_members d))
     \<and> unique_keys iv_id (db_invitations d)
     \<and> list_all (\<lambda>i. iv_role i \<noteq> Role_owner) (db_invitations d)
     \<and> distinct (map (\<lambda>i. (iv_household_id i, lower (iv_email i)))
         (filter (\<lambda>i. iv_status i = Inv_pending) (db_invitations d)))"

lemma household_inv_invitations:
  assumes "household_inv lower d"
    and "db_members d' = db_members d" "db_invitations d' = map f (db_invitations d)"
    and "\<And>i. i \<in> set (db_invitations d) \<Longrightarrow> iv_id (f i) = iv_id i \<and> iv_household_id (f i) = iv_household_id i
           \<and> iv_email (f i) = iv_email i \<and> iv_role (f i) = iv_role i"
    and "\<And>i. i \<in> set (db_invitations d) \<Longrightarrow> iv_status (f i) = Inv_pending \<Longrightarrow> iv_status i = Inv_pending"
  shows "household_inv lower d'"
proof -
  have "map iv_id (db_invitations d') = map iv_id (db_invitations d)"
    using assms(3,4) by simp
  then have "unique_keys iv_id (db_invitations d')"
    using assms(1) by (simp only: household_inv_def unique_keys_def)
  moreover have "distinct (map (\<lambda>i. (iv_household_id i, lower (iv_email i)))
      (filter (\<lambda>i. iv_status i = Inv_pending) (db_invitations d')))"
    unfolding assms(3)
    by (rule distinct_map_filter_weaken [where p = "\<lambda>i. iv_status i = Inv_pending"])
      (use assms(1,4,5) in \<open>simp_all add: household_inv_def\<close>)
  ultimately show ?thesis
    using assms(1,2,3,4) by (auto simp: household_inv_def list_all_iff)
qed

lemma household_inv_members:
  assumes "household_inv lower d" "db_invitations d' = db_invitations d"
    and "unique_keys mb_id (db_members d')"
    and "distinct (map (\<lambda>m. (mb_household_id m, mb_user_id m)) (db_members d'))"
  shows "household_inv lower d'"
  using assms by (simp add: household_inv_def)

lemma household_inv_cong:
  "db_members d' = db_members d \<Longrightarrow> db_invitations d' = db_invitations d \<Longrightarrow>
   household_inv lower d' = household_inv lower d"
  by (simp add: household_inv_def)

lemma owner_count_cong: "db_members d' = db_members d \<Longrightarrow> owner_count d' h = owner_count d h"
  by (simp add: owner_count_def lock_household_members_def)

lemma owner_count_filter:
  "owner_count d h = length (filter (\<lambda>m. mb_role m = Role_owner \<and> mb_household_id m = h) (db_members d))"
  by (simp add: owner_count_def lock_household_members_def conj_commute)

lemma locked_getD:
  "locked_get d h i = Some m \<Longrightarrow> m \<in> set (db_members d) \<and> mb_id m = i \<and> mb_household_id m = h"
  unfolding locked_get_def lock_household_members_def by (drule row_get_SomeD) simp

lemma update_members_inv:
  assumes "household_inv lower d" and "\<And>m. mb_id (f m) = mb_id m"
    and "\<And>m. mb_household_id (f m) = mb_household_id m" "\<And>m. mb_user_id (f m) = mb_user_id m"
  shows "household_inv lower (set_members (row_update mb_id i f (db_members d)) d)"
proof (rule household_inv_members [OF assms(1)])
  show "unique_keys mb_id (db_members (set_members (row_update mb_id i f (db_members d)) d))"
    using assms(1) by (simp add: unique_keys_update assms(2) household_inv_def)
  have "map (\<lambda>m. (mb_household_id m, mb_user_id m)) (row_update mb_id i f ms)
      = map (\<lambda>m. (mb_household_id m, mb_user_id m)) ms" for ms
    by (induction ms) (auto simp: row_update_def assms(3,4))
  then show "distinct (map (\<lambda>m. (mb_household_id m, mb_user_id m))
      (db_members (set_members (row_update mb_id i f (db_members d)) d)))"
    using assms(1) by (simp add: household_inv_def)
qed simp

lemma set_role_inv: "household_inv lower d \<Longrightarrow> household_inv lower (set_role i r d)"
  unfolding set_role_def by (rule update_members_inv) simp_all

lemma set_role_count:
  assumes "unique_keys mb_id (db_members d)" "m \<in> set (db_members d)"
  shows "owner_count (set_role (mb_id m) r d) h
      + (if mb_role m = Role_owner \<and> mb_household_id m = h then 1 else 0)
    = owner_count d h + (if r = Role_owner \<and> mb_household_id m = h then 1 else 0)"
  using length_filter_update [OF assms refl, where f = "\<lambda>m. m\<lparr>mb_role := r\<rparr>"
      and p = "\<lambda>m. mb_role m = Role_owner \<and> mb_household_id m = h"]
  by (simp add: owner_count_filter set_role_def)

lemma set_role_members:
  "m \<in> set (db_members d) \<Longrightarrow> mb_id m \<noteq> i \<Longrightarrow> m \<in> set (db_members (set_role i r d))"
  by (auto simp: set_role_def row_update_def image_iff)

subsubsection \<open>Each operation\<close>

lemma select_active_members [simp]:
  "db_members (select_active d u x) = db_members d"
  "db_invitations (select_active d u x) = db_invitations d"
  by (simp_all add: select_active_def)

lemma select_active_inv [simp]:
  "household_inv lower (select_active d u x) = household_inv lower d"
  "owner_count (select_active d u x) h = owner_count d h"
  by (simp_all add: household_inv_cong [of "select_active d u x" d] owner_count_cong [of "select_active d u x" d])

lemma select_household_inv:
  "household_inv lower d \<Longrightarrow> household_inv lower (outcome_db (select_household d u h))"
  "owner_count (outcome_db (select_household d u h)) h' = owner_count d h'"
  by (auto simp: select_household_def split: option.split)

lemma revoke_if_inv: "household_inv lower d \<Longrightarrow> household_inv lower (revoke_if hit now d)"
  by (erule household_inv_invitations
      [where f = "\<lambda>i. if hit i then i\<lparr>iv_status := Inv_revoked, iv_revoked_at := Some now\<rparr> else i"])
    (auto simp: revoke_if_def split: if_splits)

lemma revoke_if_members [simp]: "db_members (revoke_if hit now d) = db_members d"
  "map iv_id (db_invitations (revoke_if hit now d)) = map iv_id (db_invitations d)"
  by (simp_all add: revoke_if_def)

lemma revoke_if_count [simp]: "owner_count (revoke_if hit now d) h = owner_count d h"
  by (rule owner_count_cong) simp

lemma revoke_invitation_inv:
  "household_inv lower d \<Longrightarrow> household_inv lower (outcome_db (revoke_invitation ev d ctx i))"
  "owner_count (outcome_db (revoke_invitation ev d ctx i)) h = owner_count d h"
  by (auto simp: revoke_invitation_def Let_def revoke_if_inv split: option.split)

lemma append_invitation_inv:
  assumes "household_inv (ev_sql_lower ev) d" "\<not> invitation_conflict ev d ivn"
    and "iv_id ivn \<notin> iv_id ` set (db_invitations d)" "iv_role ivn \<noteq> Role_owner"
  shows "household_inv (ev_sql_lower ev) (set_invitations (db_invitations d @ [ivn]) d)"
proof -
  have "(iv_household_id ivn, ev_sql_lower ev (iv_email ivn)) \<notin>
      (\<lambda>i. (iv_household_id i, ev_sql_lower ev (iv_email i))) `
        {i \<in> set (db_invitations d). iv_status i = Inv_pending}"
    using assms(2) by (auto simp: invitation_conflict_def pending_for_def)
  with assms(1,3,4) show ?thesis
    by (auto simp: household_inv_def unique_keys_append row_get_None_iff)
qed

lemma email_failure_inv:
  assumes "raise_if_invite_email_delivery_failed ev sent d i = (d', e)" "household_inv lower d"
  shows "household_inv lower d'" "db_members d' = db_members d"
  using assms
  by (auto simp: raise_if_invite_email_delivery_failed_def revoke_pending_invitation_def revoke_if_inv
      split: if_splits)

text \<open>The ends of \<open>create_invitation\<close> without other sessions.\<close>

lemma create_invitation_cases:
  obtains (unchanged) "outcome_db (create_invitation ev w d ctx u em role tok sent debug) = d"
    | (raced) "outcome_db (create_invitation ev w d ctx u em role tok sent debug) = w d"
    | (created) c1 c2 e where
        "role \<noteq> Role_owner"
        "check_new_invitation ev d ctx u (py_strip (py_lower em)) = None"
        "c1 = revoke_if (\<lambda>i. iv_id i \<in> set (map iv_id (filter (pending_for ev (hh_id (fst ctx)) (py_strip (py_lower em)))
                (db_invitations d)))) (ev_now ev) (w d)"
        "\<not> invitation_conflict ev c1 (new_invitation ev (hh_id (fst ctx)) (us_id u) (py_strip (py_lower em)) role tok)"
        "raise_if_invite_email_delivery_failed ev sent
           (set_invitations (db_invitations c1 @
              [new_invitation ev (hh_id (fst ctx)) (us_id u) (py_strip (py_lower em)) role tok]) c1)
           (ev_new_id ev) = (c2, e)"
        "outcome_db (create_invitation ev w d ctx u em role tok sent debug) = c2"
        "fst (create_invitation ev w d ctx u em role tok sent debug) =
           (case e of Some err \<Rightarrow> Inl err | None \<Rightarrow> Inr (to_invitation_read
              (new_invitation ev (hh_id (fst ctx)) (us_id u) (py_strip (py_lower em)) role tok)
              (Some (us_display_name u)) (if debug then Some tok else None) None None))"
proof -
  let ?h = "hh_id (fst ctx)" and ?em = "py_strip (py_lower em)"
  let ?inv = "new_invitation ev ?h (us_id u) ?em role tok"
  let ?c1 = "revoke_if (\<lambda>i. iv_id i \<in> set (map iv_id (filter (pending_for ev ?h ?em) (db_invitations d))))
      (ev_now ev) (w d)"
  show ?thesis
  proof (cases "role = Role_owner")
    case True
    then show ?thesis by (intro unchanged) (simp add: create_invitation_def)
  next
    case role: False
    show ?thesis
    proof (cases "check_new_invitation ev d ctx u ?em")
      case (Some e)
      with role show ?thesis by (intro unchanged) (simp add: create_invitation_def)
    next
      case chk: None
      show ?thesis
      proof (cases "invitation_conflict ev ?c1 ?inv")
        case True
        with role chk show ?thesis
          by (intro raced) (simp add: create_invitation_def Let_def split: list.split)
      next
        case False
        obtain c2 e where r: "raise_if_invite_email_delivery_failed ev sent
            (set_invitations (db_invitations ?c1 @ [?inv]) ?c1) (ev_new_id ev) = (c2, e)" by force
        have i: "iv_id ?inv = ev_new_id ev" by (simp add: new_invitation_def)
        have eq: "create_invitation ev w d ctx u em role tok sent debug =
            (case e of Some err \<Rightarrow> fail c2 err | None \<Rightarrow> done_with c2 [] (to_invitation_read ?inv
               (Some (us_display_name u)) (if debug then Some tok else None) None None))"
          using role chk False r by (simp add: create_invitation_def Let_def i split: option.split)
        show ?thesis
          by (rule created [OF role chk refl False r]) (simp_all add: eq split: option.split)
      qed
    qed
  qed
qed

lemma create_invitation_inv:
  assumes "household_inv (ev_sql_lower ev) d" and "ev_new_id ev \<notin> iv_id ` set (db_invitations d)"
  shows "household_inv (ev_sql_lower ev) (outcome_db (create_invitation ev id d ctx u em role tok sent debug))"
    and "owner_count (outcome_db (create_invitation ev id d ctx u em role tok sent debug)) h = owner_count d h"
proof -
  have "household_inv (ev_sql_lower ev) (outcome_db (create_invitation ev id d ctx u em role tok sent debug))
    \<and> db_members (outcome_db (create_invitation ev id d ctx u em role tok sent debug)) = db_members d"
  proof (cases rule: create_invitation_cases [of ev id d ctx u em role tok sent debug])
    case (created c1 c2 e)
    let ?inv = "new_invitation ev (hh_id (fst ctx)) (us_id u) (py_strip (py_lower em)) role tok"
    have c1: "household_inv (ev_sql_lower ev) c1"
      using created(3) assms(1) by (simp add: revoke_if_inv)
    have "map iv_id (db_invitations c1) = map iv_id (db_invitations d)"
      unfolding created(3) by simp
    then have "iv_id ` set (db_invitations c1) = iv_id ` set (db_invitations d)"
      by (metis image_set)
    then have "iv_id ?inv \<notin> iv_id ` set (db_invitations c1)"
      using assms(2) by (simp add: new_invitation_def)
    moreover have "iv_role ?inv \<noteq> Role_owner"
      using created(1) by (simp add: new_invitation_def)
    ultimately have "household_inv (ev_sql_lower ev) (set_invitations (db_invitations c1 @ [?inv]) c1)"
      using append_invitation_inv [OF c1 created(4)] by blast
    with email_failure_inv [OF created(5)] created(3,6) show ?thesis by simp
  qed (use assms(1) in simp_all)
  then show "household_inv (ev_sql_lower ev) (outcome_db (create_invitation ev id d ctx u em role tok sent debug))"
    and "owner_count (outcome_db (create_invitation ev id d ctx u em role tok sent debug)) h = owner_count d h"
    using owner_count_cong [of _ d h] by blast+
qed

text \<open>The ends of \<open>patch_member_role\<close>.\<close>

lemma patch_member_role_cases:
  obtains (failed) e where "patch_member_role d ctx i r = fail d e"
    | (done_ok) target actor tu where
        "locked_get d (hh_id (fst ctx)) i = Some target"
        "locked_get d (hh_id (fst ctx)) (mb_id (snd ctx)) = Some actor"
        "row_get us_id (mb_user_id target) (db_users d) = Some tu"
        "mb_role actor \<in> {Role_owner, Role_co_owner}"
        "mb_role target = Role_owner \<or> r = Role_owner \<Longrightarrow> mb_role actor = Role_owner"
        "mb_role target = Role_owner \<Longrightarrow> r \<noteq> Role_owner \<Longrightarrow> 1 < owner_count d (hh_id (fst ctx))"
        "patch_member_role d ctx i r =
           done_with (set_role i r
             (if r = Role_owner \<and> mb_role target \<noteq> Role_owner \<and> mb_id actor \<noteq> mb_id target
              then set_role (mb_id actor) Role_co_owner d else d)) []
             (to_member_read (target\<lparr>mb_role := r\<rparr>) tu)"
proof -
  let ?h = "hh_id (fst ctx)"
  show ?thesis
  proof (cases "locked_get d ?h i")
    case None
    then show ?thesis by (intro failed) (simp add: patch_member_role_def)
  next
    case t: (Some target)
    show ?thesis
    proof (cases "locked_get d ?h (mb_id (snd ctx))")
      case None
      with t show ?thesis by (intro failed) (simp add: patch_member_role_def)
    next
      case a: (Some actor)
      show ?thesis
      proof (cases "mb_role actor \<in> {Role_owner, Role_co_owner}")
        case False
        with t a show ?thesis by (intro failed) (simp add: patch_member_role_def)
      next
        case role: True
        show ?thesis
        proof (cases "row_get us_id (mb_user_id target) (db_users d)")
          case None
          with t a role show ?thesis by (intro failed) (simp add: patch_member_role_def)
        next
          case u: (Some tu)
          show ?thesis
          proof (cases "(mb_role target = Role_owner \<and> mb_role actor \<noteq> Role_owner)
              \<or> (r = Role_owner \<and> mb_role actor \<noteq> Role_owner)
              \<or> (mb_role target = Role_owner \<and> r \<noteq> Role_owner \<and> owner_count d ?h \<le> 1)")
            case True
            with t a role u have "\<exists>e. patch_member_role d ctx i r = fail d e"
              by (auto simp: patch_member_role_def)
            then show ?thesis using failed by blast
          next
            case False
            have id: "mb_id target = i" using locked_getD [OF t] by blast
            show ?thesis
              by (rule done_ok [OF t a u role])
                (use False t a role u id in \<open>auto simp: patch_member_role_def Let_def\<close>)
          qed
        qed
      qed
    qed
  qed
qed

lemma patch_member_role_inv:
  assumes "household_inv lower d"
  shows "household_inv lower (outcome_db (patch_member_role d ctx i r))"
    and "owner_count d h = 1 \<Longrightarrow> owner_count (outcome_db (patch_member_role d ctx i r)) h = 1"
proof -
  show "household_inv lower (outcome_db (patch_member_role d ctx i r))"
    by (cases rule: patch_member_role_cases [of d ctx i r]) (auto simp: assms set_role_inv)
  assume one: "owner_count d h = 1"
  show "owner_count (outcome_db (patch_member_role d ctx i r)) h = 1"
  proof (cases rule: patch_member_role_cases [of d ctx i r])
    case (failed e)
    with one show ?thesis by simp
  next
    case (done_ok target actor tu)
    note t = locked_getD [OF done_ok(1)] and a = locked_getD [OF done_ok(2)]
    have u: "unique_keys mb_id (db_members d)" using assms by (simp add: household_inv_def)
    show ?thesis
    proof (cases "r = Role_owner \<and> mb_role target \<noteq> Role_owner \<and> mb_id actor \<noteq> mb_id target")
      case True
      let ?d1 = "set_role (mb_id actor) Role_co_owner d"
      from True done_ok(5) have ao: "mb_role actor = Role_owner" by blast
      have c1: "owner_count ?d1 h + (if mb_household_id actor = h then 1 else 0) = owner_count d h"
        using set_role_count [OF u, of actor Role_co_owner h] a ao by simp
      have tm: "target \<in> set (db_members ?d1)"
        using t True by (intro set_role_members) auto
      have u1: "unique_keys mb_id (db_members ?d1)"
        using set_role_inv [OF assms] by (simp add: household_inv_def)
      have "owner_count (set_role i r ?d1) h = owner_count ?d1 h + (if mb_household_id target = h then 1 else 0)"
        using set_role_count [OF u1 tm, of r h] t True by simp
      with c1 one t a True done_ok(7) show ?thesis by simp
    next
      case False
      have "owner_count (set_role i r d) h + (if mb_role target = Role_owner \<and> mb_household_id target = h then 1 else 0)
          = owner_count d h + (if r = Role_owner \<and> mb_household_id target = h then 1 else 0)"
        using set_role_count [OF u, of target r h] t by simp
      moreover have "mb_role target = Role_owner" if "r = Role_owner"
      proof (rule ccontr)
        assume "mb_role target \<noteq> Role_owner"
        with False that have "mb_id actor = mb_id target" by blast
        with a t u have "actor = target" by (auto simp: unique_keys_def distinct_map inj_on_def)
        with that done_ok(5) \<open>mb_role target \<noteq> Role_owner\<close> show False by blast
      qed
      moreover have "mb_household_id target \<noteq> h" if "mb_role target = Role_owner" "r \<noteq> Role_owner"
        using done_ok(6) [OF that] t one by auto
      ultimately show ?thesis
        using False one done_ok(7) by (auto split: if_splits)
    qed
  qed
qed

text \<open>The ends of \<open>remove_member\<close>.\<close>

lemma remove_member_cases:
  obtains (failed) e where "remove_member d ctx i = fail d e"
    | (removed) target actor d2 where
        "locked_get d (hh_id (fst ctx)) i = Some target"
        "locked_get d (hh_id (fst ctx)) (mb_id (snd ctx)) = Some actor"
        "mb_role actor \<in> {Role_owner, Role_co_owner}"
        "mb_role target = Role_owner \<Longrightarrow> mb_role actor = Role_owner \<and> 1 < owner_count d (hh_id (fst ctx))"
        "db_members d2 = row_delete mb_id i (db_members d)" "db_invitations d2 = db_invitations d"
        "remove_member d ctx i =
           done_with d2 [(hh_id (fst ctx), Member_disconnected (mb_user_id target))] ()"
proof -
  let ?h = "hh_id (fst ctx)"
  show ?thesis
  proof (cases "locked_get d ?h (mb_id (snd ctx))")
    case None
    then show ?thesis by (intro failed) (simp add: remove_member_def)
  next
    case a: (Some actor)
    show ?thesis
    proof (cases "mb_role actor \<in> {Role_owner, Role_co_owner}")
      case False
      with a show ?thesis by (intro failed) (simp add: remove_member_def)
    next
      case role: True
      show ?thesis
      proof (cases "locked_get d ?h i")
        case None
        with a role show ?thesis by (intro failed) (simp add: remove_member_def)
      next
        case t: (Some target)
        show ?thesis
        proof (cases "mb_role target = Role_owner \<and> (mb_role actor \<noteq> Role_owner \<or> owner_count d ?h \<le> 1)")
          case True
          with a t role have "\<exists>e. remove_member d ctx i = fail d e"
            by (auto simp: remove_member_def)
          then show ?thesis using failed by blast
        next
          case False
          have id: "mb_id target = i" using locked_getD [OF t] by blast
          let ?d1 = "set_members (row_delete mb_id i (db_members d)) d"
          define d2 where "d2 = (case row_get us_id (mb_user_id target) (db_users d) of
              Some u \<Rightarrow> (if us_active_household_id u = Some ?h
                        then select_active ?d1 (mb_user_id target) None else ?d1) | None \<Rightarrow> ?d1)"
          have "db_members d2 = row_delete mb_id i (db_members d)" "db_invitations d2 = db_invitations d"
            by (simp_all add: d2_def split: option.split)
          moreover have "remove_member d ctx i =
              done_with d2 [(?h, Member_disconnected (mb_user_id target))] ()"
            using a t role False id by (auto simp: remove_member_def Let_def d2_def)
          ultimately show ?thesis
            by (intro removed [OF t a role]) (use False in auto)
        qed
      qed
    qed
  qed
qed

lemma remove_member_inv:
  assumes "household_inv lower d"
  shows "household_inv lower (outcome_db (remove_member d ctx i))"
    and "owner_count d h = 1 \<Longrightarrow> owner_count (outcome_db (remove_member d ctx i)) h = 1"
proof -
  have u: "unique_keys mb_id (db_members d)"
    and p: "distinct (map (\<lambda>m. (mb_household_id m, mb_user_id m)) (db_members d))"
    using assms by (simp_all add: household_inv_def)
  show "household_inv lower (outcome_db (remove_member d ctx i))"
  proof (cases rule: remove_member_cases [of d ctx i])
    case (removed target actor d2)
    have "distinct (map (\<lambda>m. (mb_household_id m, mb_user_id m)) (db_members d2))"
      using p unfolding removed(5) row_delete_def by (simp add: distinct_map_filter)
    then have "household_inv lower d2"
      by (intro household_inv_members [OF assms removed(6)]) (simp_all add: removed(5) unique_keys_delete u)
    with removed(7) show ?thesis by simp
  qed (use assms in simp)
  assume one: "owner_count d h = 1"
  show "owner_count (outcome_db (remove_member d ctx i)) h = 1"
  proof (cases rule: remove_member_cases [of d ctx i])
    case (removed target actor d2)
    note t = locked_getD [OF removed(1)]
    have "owner_count d2 h + (if mb_role target = Role_owner \<and> mb_household_id target = h then 1 else 0) = owner_count d h"
      using length_filter_delete [OF u, of target i "\<lambda>m. mb_role m = Role_owner \<and> mb_household_id m = h"] t
      by (simp only: owner_count_filter removed(5))
    moreover have "\<not> (mb_role target = Role_owner \<and> mb_household_id target = h)"
      using removed(4) t one by auto
    ultimately show ?thesis using one removed(7) by simp
  qed (use one in simp)
qed

subsubsection \<open>Accepting\<close>

lemma mark_accepted_inv:
  assumes "household_inv lower d" "mark_accepted d i u now = (n, d')"
  shows "household_inv lower d'" "db_members d' = db_members d"
proof -
  have d': "d' = set_invitations (map (\<lambda>x. if iv_id x = i \<and> iv_status x = Inv_pending \<and> now \<le> iv_expires_at x
      then x\<lparr>iv_status := Inv_accepted, iv_accepted_user_id := Some u, iv_accepted_at := Some now\<rparr>
      else x) (db_invitations d)) d"
    using assms(2) by (simp add: mark_accepted_def Let_def)
  then show "db_members d' = db_members d" by simp
  show "household_inv lower d'"
    by (rule household_inv_invitations [OF assms(1), of d' "\<lambda>x. if iv_id x = i \<and> iv_status x = Inv_pending \<and> now \<le> iv_expires_at x
      then x\<lparr>iv_status := Inv_accepted, iv_accepted_user_id := Some u, iv_accepted_at := Some now\<rparr> else x"])
      (simp_all add: d' split: if_splits)
qed

lemma expire_row_inv:
  assumes "household_inv lower d" "x \<in> set (db_invitations d)"
  shows "household_inv lower (set_invitations
     (row_update iv_id (iv_id x) (\<lambda>_. x\<lparr>iv_status := Inv_expired\<rparr>) (db_invitations d)) d)"
proof (rule household_inv_invitations [OF assms(1), where f = "\<lambda>i. if iv_id i = iv_id x then x\<lparr>iv_status := Inv_expired\<rparr> else i"])
  show "db_invitations (set_invitations
     (row_update iv_id (iv_id x) (\<lambda>_. x\<lparr>iv_status := Inv_expired\<rparr>) (db_invitations d)) d)
     = map (\<lambda>i. if iv_id i = iv_id x then x\<lparr>iv_status := Inv_expired\<rparr> else i) (db_invitations d)"
    by (simp add: row_update_def)
next
  fix i assume i: "i \<in> set (db_invitations d)"
  have "i = x" if "iv_id i = iv_id x"
    using that i assms by (auto simp: household_inv_def unique_keys_def distinct_map inj_on_def)
  then show "iv_id (if iv_id i = iv_id x then x\<lparr>iv_status := Inv_expired\<rparr> else i) = iv_id i \<and>
      iv_household_id (if iv_id i = iv_id x then x\<lparr>iv_status := Inv_expired\<rparr> else i) = iv_household_id i \<and>
      iv_email (if iv_id i = iv_id x then x\<lparr>iv_status := Inv_expired\<rparr> else i) = iv_email i \<and>
      iv_role (if iv_id i = iv_id x then x\<lparr>iv_status := Inv_expired\<rparr> else i) = iv_role i"
    by auto
qed (simp_all split: if_splits)

lemma accepted_membership_cases:
  assumes "accepted_membership ev d i u = (is_new, m)"
  shows "mb_household_id m = iv_household_id i \<and> mb_user_id m = us_id u \<and>
    (if is_new then find_membership d (iv_household_id i) (us_id u) = None \<and> mb_id m = ev_new_id ev \<and> mb_role m = iv_role i
     else (\<exists>m0 \<in> set (db_members d). m = m0\<lparr>mb_role := if role_rank (mb_role m0) < role_rank (iv_role i) then iv_role i else mb_role m0\<rparr>))"
proof (cases "find_membership d (iv_household_id i) (us_id u)")
  case None
  with assms show ?thesis by (auto simp: accepted_membership_def)
next
  case (Some m0)
  then have "m0 \<in> set (db_members d)" "mb_household_id m0 = iv_household_id i" "mb_user_id m0 = us_id u"
    by (auto simp: find_membership_def dest: find_SomeD)
  with assms Some show ?thesis
    by (auto simp: accepted_membership_def intro!: bexI [of _ m0] split: if_splits)
qed

lemma write_membership_inv:
  assumes inv: "household_inv lower c" and mem: "db_members c = db_members d"
    and m: "accepted_membership ev d i u = (is_new, m)"
    and fresh: "ev_new_id ev \<notin> mb_id ` set (db_members d)" and role: "iv_role i \<noteq> Role_owner"
    and nc: "\<not> (is_new \<and> member_conflict c m)"
  shows "household_inv lower (write_membership is_new m c)"
    and "owner_count (write_membership is_new m c) h = owner_count d h"
proof -
  note acc = accepted_membership_cases [OF m]
  have u: "unique_keys mb_id (db_members c)" using inv by (simp add: household_inv_def)
  have "household_inv lower (write_membership is_new m c) \<and>
      owner_count (write_membership is_new m c) h = owner_count c h"
  proof (cases is_new)
    case True
    with acc have a: "mb_id m = ev_new_id ev" "mb_role m = iv_role i" by auto
    from nc True have "find_membership c (mb_household_id m) (mb_user_id m) = None"
      by (simp add: member_conflict_def)
    then have "(mb_household_id m, mb_user_id m) \<notin> (\<lambda>m. (mb_household_id m, mb_user_id m)) ` set (db_members c)"
      by (auto simp: find_membership_def find_None_iff)
    with inv fresh a True role mem show ?thesis
      by (auto simp: write_membership_def household_inv_def unique_keys_append row_get_None_iff
          owner_count_filter)
  next
    case False
    with acc obtain m0 where m0m: "m0 \<in> set (db_members d)"
      "m = m0\<lparr>mb_role := if role_rank (mb_role m0) < role_rank (iv_role i) then iv_role i else mb_role m0\<rparr>"
      by (simp only: if_False) blast
    then have m0: "m0 \<in> set (db_members d)" "mb_id m0 = mb_id m"
      "mb_household_id m0 = mb_household_id m" "mb_user_id m0 = mb_user_id m"
      by simp_all
    have up: "r = m0" if "r \<in> set (db_members c)" "mb_id r = mb_id m" for r
      using that m0 u mem by (auto simp: unique_keys_def distinct_map inj_on_def)
    have mm: "map k (row_update mb_id (mb_id m) (\<lambda>_. m) (db_members c)) = map k (db_members c)"
      if "k m = k m0" for k :: "household_member \<Rightarrow> 'b"
      using that up by (auto simp: row_update_def)
    have "mb_role m = Role_owner \<longleftrightarrow> mb_role m0 = Role_owner"
      unfolding m0m(2) using role by (cases "mb_role m0"; cases "iv_role i") simp_all
    then have "map (\<lambda>x. mb_role x = Role_owner \<and> mb_household_id x = h) (row_update mb_id (mb_id m) (\<lambda>_. m) (db_members c))
        = map (\<lambda>x. mb_role x = Role_owner \<and> mb_household_id x = h) (db_members c)"
      using m0(3) by (intro mm) simp
    from length_filter_map_eq [OF this] have "owner_count (write_membership False m c) h = owner_count c h"
      by (simp add: owner_count_filter write_membership_def)
    moreover have "household_inv lower (write_membership False m c)"
    proof (rule household_inv_members [OF inv])
      have ids: "map mb_id (row_update mb_id (mb_id m) (\<lambda>_. m) (db_members c)) = map mb_id (db_members c)"
        by (rule mm) (simp add: m0(2))
      show "unique_keys mb_id (db_members (write_membership False m c))"
        using u by (simp add: write_membership_def unique_keys_def ids)
      have "map (\<lambda>m. (mb_household_id m, mb_user_id m)) (row_update mb_id (mb_id m) (\<lambda>_. m) (db_members c))
          = map (\<lambda>m. (mb_household_id m, mb_user_id m)) (db_members c)"
        by (rule mm) (simp add: m0(3,4))
      then show "distinct (map (\<lambda>m. (mb_household_id m, mb_user_id m)) (db_members (write_membership False m c)))"
        using inv by (simp add: write_membership_def household_inv_def)
    qed (simp add: write_membership_def)
    ultimately show ?thesis using False by simp
  qed
  then show "household_inv lower (write_membership is_new m c)"
    "owner_count (write_membership is_new m c) h = owner_count d h"
    using owner_count_cong [OF mem] by simp_all
qed

text \<open>The ends of \<open>_accept_invitation_record\<close> without other sessions.\<close>

lemma accept_record_cases:
  fixes ev d x u
  defines "d1 \<equiv> (if iv_status x = Inv_pending \<and> iv_expires_at x < ev_now ev
     then set_invitations (row_update iv_id (iv_id x) (\<lambda>_. x\<lparr>iv_status := Inv_expired\<rparr>) (db_invitations d)) d else d)"
  obtains (failed) e where "accept_invitation_record ev id d x u = fail d1 e"
    | (accepted) is_new m c1 res where
        "iv_status x = Inv_pending" "ev_now ev \<le> iv_expires_at x"
        "py_lower (us_email u) = py_lower (iv_email x)"
        "accepted_membership ev d x u = (is_new, m)"
        "mark_accepted d (iv_id x) (us_id u) (ev_now ev) = (1, c1)"
        "\<not> (is_new \<and> member_conflict
            (if us_active_household_id u = None then select_active c1 (us_id u) (Some (iv_household_id x)) else c1) m)"
        "accept_invitation_record ev id d x u = done_with (write_membership is_new m
            (if us_active_household_id u = None then select_active c1 (us_id u) (Some (iv_household_id x)) else c1)) [] res"
        "ar_role res = mb_role m"
proof (cases "iv_status x = Inv_pending \<and> iv_expires_at x < ev_now ev")
  case True
  then show ?thesis
    by (intro failed) (simp add: accept_invitation_record_def expire_if_needed_def d1_def)
next
  case ne: False
  then have d1: "d1 = d" "expire_if_needed x (ev_now ev) = (False, x)"
    by (auto simp: d1_def expire_if_needed_def)
  obtain is_new m where am: "accepted_membership ev d x u = (is_new, m)" by force
  obtain n c1 where ma: "mark_accepted d (iv_id x) (us_id u) (ev_now ev) = (n, c1)" by force
  show ?thesis
  proof (cases "iv_status x \<noteq> Inv_pending \<or> py_lower (us_email u) \<noteq> py_lower (iv_email x)")
    case True
    then have "\<exists>e. accept_invitation_record ev id d x u = fail d1 e"
      by (auto simp: accept_invitation_record_def d1)
    then show ?thesis using failed by blast
  next
    case ok: False
    show ?thesis
    proof (cases "ensure_unique_household_member_display_name ev d (iv_household_id x)
        (Some (us_id u)) (Some (us_display_name u))")
      case (Some e)
      with ok show ?thesis
        by (intro failed) (simp add: accept_invitation_record_def d1)
    next
      case None
      let ?c2 = "if us_active_household_id u = None then select_active c1 (us_id u) (Some (iv_household_id x)) else c1"
      show ?thesis
      proof (cases "n \<noteq> 1 \<or> (is_new \<and> member_conflict ?c2 m)")
        case True
        then have "accept_invitation_record ev id d x u = fail d1 (AppError 400 ''HOUSEHOLD_INVITE_INVALID'')"
          using ok None am ma by (auto simp: accept_invitation_record_def d1 Let_def)
        then show ?thesis by (rule failed)
      next
        case False
        then have "\<exists>res. accept_invitation_record ev id d x u = done_with (write_membership is_new m ?c2) [] res
            \<and> ar_role res = mb_role m"
          using ok None am ma
          by (cases "us_active_household_id u") (auto simp: accept_invitation_record_def d1 Let_def)
        then obtain res where "accept_invitation_record ev id d x u = done_with (write_membership is_new m ?c2) [] res"
          "ar_role res = mb_role m" by blast
        with False ok ne am ma show ?thesis by (intro accepted [of is_new m c1 res]) auto
      qed
    qed
  qed
qed

lemma accept_record_inv:
  assumes inv: "household_inv lower d" and x: "x \<in> set (db_invitations d)"
    and fresh: "ev_new_id ev \<notin> mb_id ` set (db_members d)"
  shows "household_inv lower (outcome_db (accept_invitation_record ev id d x u))"
    and "owner_count (outcome_db (accept_invitation_record ev id d x u)) h = owner_count d h"
proof -
  have role: "iv_role x \<noteq> Role_owner"
    using inv x by (auto simp: household_inv_def list_all_iff)
  have "household_inv lower (outcome_db (accept_invitation_record ev id d x u))
    \<and> owner_count (outcome_db (accept_invitation_record ev id d x u)) h = owner_count d h"
  proof (cases rule: accept_record_cases [of ev d x u])
    case (failed e)
    let ?d1 = "set_invitations (row_update iv_id (iv_id x) (\<lambda>_. x\<lparr>iv_status := Inv_expired\<rparr>) (db_invitations d)) d"
    have "owner_count ?d1 h = owner_count d h" by (rule owner_count_cong) simp
    with failed expire_row_inv [OF inv x] inv show ?thesis by simp
  next
    case (accepted is_new m c1 res)
    let ?c2 = "if us_active_household_id u = None then select_active c1 (us_id u) (Some (iv_household_id x)) else c1"
    note ma = mark_accepted_inv [OF inv accepted(5)]
    have "household_inv lower ?c2" "db_members ?c2 = db_members d"
      using ma by simp_all
    from write_membership_inv [OF this accepted(4) fresh role accepted(6)] accepted(7)
    show ?thesis by simp
  qed
  then show "household_inv lower (outcome_db (accept_invitation_record ev id d x u))"
    "owner_count (outcome_db (accept_invitation_record ev id d x u)) h = owner_count d h" by blast+
qed

lemma accept_invitation_inv:
  assumes "household_inv lower d" "ev_new_id ev \<notin> mb_id ` set (db_members d)"
  shows "household_inv lower (outcome_db (accept_invitation ev id d u tok))"
    and "owner_count (outcome_db (accept_invitation ev id d u tok)) h = owner_count d h"
    and "household_inv lower (outcome_db (accept_invitation_by_id ev id d u i))"
    and "owner_count (outcome_db (accept_invitation_by_id ev id d u i)) h = owner_count d h"
  using assms
  by (auto simp: accept_invitation_def accept_invitation_by_id_def accept_record_inv
      split: option.split dest: find_SomeD row_get_SomeD)

subsection \<open>Sequences of requests\<close>

text \<open>
  One request of any kind that changes members or invitations; the identifiers the database
  draws are fresh.
\<close>

inductive membership_step :: "(pystr \<Rightarrow> pystr) \<Rightarrow> db \<Rightarrow> db \<Rightarrow> bool" for lower where
  accept: "ev_new_id ev \<notin> mb_id ` set (db_members d) \<Longrightarrow>
    membership_step lower d (outcome_db (accept_invitation ev id d u tok))"
| accept_by_id: "ev_new_id ev \<notin> mb_id ` set (db_members d) \<Longrightarrow>
    membership_step lower d (outcome_db (accept_invitation_by_id ev id d u i))"
| invite: "ev_sql_lower ev = lower \<Longrightarrow> ev_new_id ev \<notin> iv_id ` set (db_invitations d) \<Longrightarrow>
    membership_step lower d (outcome_db (create_invitation ev id d ctx u em role tok sent debug))"
| revoke: "membership_step lower d (outcome_db (revoke_invitation ev d ctx i))"
| role: "membership_step lower d (outcome_db (patch_member_role d ctx i r))"
| remove: "membership_step lower d (outcome_db (remove_member d ctx i))"
| select: "membership_step lower d (outcome_db (select_household d u h))"

inductive_cases membership_stepE: "membership_step lower d d'"

lemma membership_step_inv:
  assumes "membership_step lower d d'" "household_inv lower d"
  shows "household_inv lower d' \<and> (owner_count d h = 1 \<longrightarrow> owner_count d' h = 1)"
  using assms
proof (induction rule: membership_step.induct)
  case (role d ctx i r)
  then show ?case using patch_member_role_inv by blast
next
  case (remove d ctx i)
  then show ?case using remove_member_inv by blast
next
  case (invite ev d ctx u em role tok sent debug)
  then show ?case using create_invitation_inv [of ev d] by auto
qed (simp_all add: accept_invitation_inv revoke_invitation_inv select_household_inv)

lemma membership_run_inv:
  assumes "(membership_step lower)\<^sup>*\<^sup>* d d'" "household_inv lower d"
  shows "household_inv lower d' \<and> (owner_count d h = 1 \<longrightarrow> owner_count d' h = 1)"
  using assms by (induction rule: rtranclp_induct) (auto dest: membership_step_inv)

end
