(* ===== verification/Household_Claims.thy ===== *)
theory Household_Claims
  imports Household Samples
begin

text \<open>
  The properties of members and invitations: the invariant over any sequence of requests,
  who may change which role, what an acceptance grants, how a new invitation replaces the
  pending one, and what a removal leaves behind.
\<close>

definition sample_invitation :: "string \<Rightarrow> string \<Rightarrow> member_role \<Rightarrow> invitation" where
  "sample_invitation i em r =
     \<lparr>iv_id = lit i, iv_household_id = lit ''h1'', iv_email = lit em, iv_inviter_user_id = Some (lit ''u1''),
      iv_accepted_user_id = None, iv_role = r, iv_status = Inv_pending, iv_token_hash = lit (''hash-'' @ i),
      iv_expires_at = seconds 2000, iv_accepted_at = None, iv_revoked_at = None, iv_created_at = 0\<rparr>"

definition sample_invited_db :: db where
  "sample_invited_db =
     sample_db\<lparr>db_users := db_users sample_db @ [sample_user ''u3'' ''Cho''],
       db_invitations := [sample_invitation ''i1'' ''u3@x.io'' Role_co_owner]\<rparr>"

text \<open>C2 (membership invariant): along every sequence of acceptances, invitations,
revocations, role changes, removals and selections, memberships and invitations keep their
uniqueness rules, no invitation is for the owner role, and a household that had exactly one
owner has exactly one owner.\<close>

theorem membership_invariant:
  assumes "(membership_step lower)\<^sup>*\<^sup>* d d'" and "household_inv lower d"
  shows "household_inv lower d' \<and> (owner_count d h = 1 \<longrightarrow> owner_count d' h = 1)"
  using assms by (rule membership_run_inv)

lemma membership_invariant_witness:
  "owner_count (outcome_db (patch_member_role sample_db sample_ctx (lit ''m2'') Role_owner)) (lit ''h1'') = 1"
proof -
  have s: "(membership_step py_lower)\<^sup>*\<^sup>* sample_db
      (outcome_db (patch_member_role sample_db sample_ctx (lit ''m2'') Role_owner))"
    by (rule r_into_rtranclp) (rule membership_step.role)
  have i: "household_inv py_lower sample_db" by code_simp
  have c: "owner_count sample_db (lit ''h1'') = 1" by code_simp
  from membership_invariant [OF s i, of "lit ''h1''"] c show ?thesis by simp
qed

text \<open>Who may change a role: a role change succeeds exactly when the target and the
acting member are members of the household, the actor is owner or co-owner, only an owner
touches the owner role on either side, and the last owner keeps it.\<close>

theorem role_change_allowed_iff:
  fixes d ctx i r
  defines "h \<equiv> hh_id (fst ctx)"
  assumes "unique_keys mb_id (db_members d)"
  shows "(\<exists>x. fst (patch_member_role d ctx i r) = Inr x) \<longleftrightarrow>
    (\<exists>target \<in> set (db_members d). \<exists>actor \<in> set (db_members d).
       mb_id target = i \<and> mb_household_id target = h \<and> mb_id actor = mb_id (snd ctx) \<and> mb_household_id actor = h
       \<and> mb_user_id target \<in> us_id ` set (db_users d)
       \<and> mb_role actor \<in> {Role_owner, Role_co_owner}
       \<and> (mb_role target = Role_owner \<or> r = Role_owner \<longrightarrow> mb_role actor = Role_owner)
       \<and> (mb_role target = Role_owner \<and> r \<noteq> Role_owner \<longrightarrow> 1 < owner_count d h))"
    (is "?ok \<longleftrightarrow> ?cond")
proof
  assume ok: ?ok
  show ?cond
  proof (cases rule: patch_member_role_cases [of d ctx i r])
    case (done_ok target actor tu)
    have "mb_user_id target \<in> us_id ` set (db_users d)"
      using row_get_SomeD [OF done_ok(3)] by force
    with locked_getD [OF done_ok(1)] locked_getD [OF done_ok(2)] done_ok(4-6) show ?thesis
      unfolding h_def by blast
  qed (use ok in simp)
next
  have get: "locked_get d h k = Some m"
    if "m \<in> set (db_members d)" "mb_id m = k" "mb_household_id m = h" for k m
  proof -
    have "unique_keys mb_id (rev (lock_household_members d h))"
      using assms(2) unique_keys_filter [of mb_id "db_members d" "\<lambda>m. mb_household_id m = h"]
      by (simp add: lock_household_members_def unique_keys_def rev_map [symmetric])
    moreover have "m \<in> set (rev (lock_household_members d h))"
      using that by (simp add: lock_household_members_def)
    ultimately show ?thesis using that(2) by (auto simp: locked_get_def row_get_unique)
  qed
  assume ?cond
  then obtain target actor where c: "target \<in> set (db_members d)" "actor \<in> set (db_members d)"
    "mb_id target = i" "mb_household_id target = h" "mb_id actor = mb_id (snd ctx)" "mb_household_id actor = h"
    "mb_user_id target \<in> us_id ` set (db_users d)" "mb_role actor \<in> {Role_owner, Role_co_owner}"
    "mb_role target = Role_owner \<or> r = Role_owner \<longrightarrow> mb_role actor = Role_owner"
    "mb_role target = Role_owner \<and> r \<noteq> Role_owner \<longrightarrow> 1 < owner_count d h" by blast
  have t: "locked_get d h i = Some target" and a: "locked_get d h (mb_id (snd ctx)) = Some actor"
    by (rule get [OF c(1,3,4)], rule get [OF c(2,5,6)])
  obtain tu where "row_get us_id (mb_user_id target) (db_users d) = Some tu"
    using c(7) row_get_None_iff [of us_id "mb_user_id target" "db_users d"] by auto
  then show ?ok
    using t a c(8-10) unfolding h_def by (auto simp: patch_member_role_def Let_def)
qed

lemma role_change_allowed_iff_witness:
  "\<not> (\<exists>x. fst (patch_member_role sample_db sample_ctx (lit ''m1'') Role_viewer) = Inr x)"
proof -
  have u: "unique_keys mb_id (db_members sample_db)" by code_simp
  have c: "\<forall>t \<in> set (db_members sample_db). mb_id t = lit ''m1'' \<longrightarrow> mb_role t = Role_owner"
    "owner_count sample_db (hh_id (fst sample_ctx)) = 1" by code_simp+
  from role_change_allowed_iff [OF u, of sample_ctx "lit ''m1''" Role_viewer] c show ?thesis by auto
qed

text \<open>C6 (what an acceptance grants): an invitation is accepted only while it is pending, not
expired and addressed to the user; afterwards it is marked accepted, and the user's membership
of the household has the invited role, or the higher role he already had.\<close>

theorem acceptance_grants_role:
  assumes "household_inv lower d" and "ev_new_id ev \<notin> mb_id ` set (db_members d)"
    and "accept_invitation_by_id ev id d u i = (Inr res, d', evs)"
  shows "\<exists>x \<in> set (db_invitations d). iv_id x = i \<and> iv_status x = Inv_pending \<and> ev_now ev \<le> iv_expires_at x
      \<and> py_lower (us_email u) = py_lower (iv_email x)
      \<and> (\<exists>y \<in> set (db_invitations d'). iv_id y = i \<and> iv_status y = Inv_accepted \<and> iv_accepted_user_id y = Some (us_id u))
      \<and> (\<exists>m \<in> set (db_members d'). mb_household_id m = iv_household_id x \<and> mb_user_id m = us_id u
          \<and> mb_role m = ar_role res
          \<and> role_rank (mb_role m) = (case find_membership d (iv_household_id x) (us_id u) of
               None \<Rightarrow> role_rank (iv_role x) | Some m0 \<Rightarrow> max (role_rank (mb_role m0)) (role_rank (iv_role x))))"
proof -
  from assms(3) obtain x where g: "row_get iv_id i (db_invitations d) = Some x"
    and acc: "accept_invitation_record ev id d x u = (Inr res, d', evs)"
    by (auto simp: accept_invitation_by_id_def split: option.splits)
  have x: "x \<in> set (db_invitations d)" "iv_id x = i" using row_get_SomeD [OF g] by blast+
  show ?thesis
  proof (cases rule: accept_record_cases [of ev d x u])
    case (failed e)
    with acc show ?thesis by simp
  next
    case (accepted is_new m c1 res')
    let ?c2 = "if us_active_household_id u = None then select_active c1 (us_id u) (Some (iv_household_id x)) else c1"
    have d': "d' = write_membership is_new m ?c2" "res' = res"
      using acc accepted(7) by auto
    have inv': "db_invitations d' = db_invitations c1"
      by (simp add: d' write_membership_def)
    have c1: "c1 = set_invitations (map (\<lambda>y. if iv_id y = iv_id x \<and> iv_status y = Inv_pending \<and> ev_now ev \<le> iv_expires_at y
        then y\<lparr>iv_status := Inv_accepted, iv_accepted_user_id := Some (us_id u), iv_accepted_at := Some (ev_now ev)\<rparr>
        else y) (db_invitations d)) d"
      using accepted(5) by (simp add: mark_accepted_def Let_def)
    have "x\<lparr>iv_status := Inv_accepted, iv_accepted_user_id := Some (us_id u), iv_accepted_at := Some (ev_now ev)\<rparr>
        \<in> set (db_invitations d')"
      unfolding inv' c1 using x accepted(1,2) by (force simp: image_iff)
    then have y: "\<exists>y \<in> set (db_invitations d'). iv_id y = i \<and> iv_status y = Inv_accepted \<and> iv_accepted_user_id y = Some (us_id u)"
      by (rule bexI [rotated]) (simp add: x(2))
    note am = accepted_membership_cases [OF accepted(4)]
    have mem: "db_members ?c2 = db_members d" by (simp add: c1)
    have m_in: "m \<in> set (db_members d')"
    proof (cases is_new)
      case True
      then show ?thesis by (simp add: d' write_membership_def)
    next
      case False
      with am obtain m0 where "m0 \<in> set (db_members d)" "mb_id m0 = mb_id m" by auto
      with False mem show ?thesis by (force simp: d' write_membership_def row_update_def image_iff)
    qed
    have rank: "role_rank (mb_role m) = (case find_membership d (iv_household_id x) (us_id u) of
        None \<Rightarrow> role_rank (iv_role x) | Some m0 \<Rightarrow> max (role_rank (mb_role m0)) (role_rank (iv_role x)))"
      using accepted(4) by (auto simp: accepted_membership_def split: option.splits if_splits)
    have "mb_household_id m = iv_household_id x \<and> mb_user_id m = us_id u \<and> mb_role m = ar_role res"
      using am accepted(8) d'(2) by simp
    with x y m_in rank accepted(1-3) show ?thesis by blast
  qed
qed

lemma acceptance_grants_role_witness:
  "\<exists>x \<in> set (db_invitations sample_invited_db). iv_id x = lit ''i1'' \<and> iv_status x = Inv_pending
     \<and> (\<exists>m \<in> set (db_members (outcome_db
          (accept_invitation_by_id sample_env id sample_invited_db (sample_user ''u3'' ''Cho'') (lit ''i1'')))).
        mb_user_id m = lit ''u3'')"
proof -
  let ?out = "accept_invitation_by_id sample_env id sample_invited_db (sample_user ''u3'' ''Cho'') (lit ''i1'')"
  have "case fst ?out of Inr _ \<Rightarrow> True | Inl _ \<Rightarrow> False" by code_simp
  then obtain res d' evs where o: "?out = (Inr res, d', evs)"
    by (cases ?out) (auto split: sum.splits)
  have i: "household_inv py_lower sample_invited_db" by code_simp
  have f: "ev_new_id sample_env \<notin> mb_id ` set (db_members sample_invited_db)" by code_simp
  have u: "us_id (sample_user ''u3'' ''Cho'') = lit ''u3''" by code_simp
  from acceptance_grants_role [OF i f o] o u show ?thesis by (auto simp: outcome_db_def)
qed

text \<open>(one pending invitation): when an invitation is created and its mail sent, the
address has exactly one pending invitation in the household, the new one, and it does not
carry the owner role; the pending ones before it are revoked.\<close>

theorem new_invitation_is_the_pending_one:
  fixes ev d ctx u em role tok debug
  defines "h \<equiv> hh_id (fst ctx)" and "email \<equiv> py_strip (py_lower em)"
  assumes "create_invitation ev id d ctx u em role tok True debug = (Inr r, d', evs)"
    and "ev_sql_lower ev email = email"
    and "hash_opaque_token ev tok \<notin> iv_token_hash ` set (db_invitations d)"
  shows "filter (pending_for ev h email) (db_invitations d') = [new_invitation ev h (us_id u) email role tok]
    \<and> role \<noteq> Role_owner"
proof -
  let ?inv = "new_invitation ev h (us_id u) email role tok"
  let ?c1 = "revoke_if (\<lambda>i. iv_id i \<in> set (map iv_id (filter (pending_for ev h email) (db_invitations d)))) (ev_now ev) d"
  from assms(3) have role: "role \<noteq> Role_owner" and chk: "check_new_invitation ev d ctx u email = None"
    by (auto simp: create_invitation_def Let_def email_def split: if_splits option.splits)
  have none: "filter (pending_for ev h email) (db_invitations ?c1) = []"
    by (auto simp: revoke_if_def filter_empty_conv pending_for_def)
  have "map iv_token_hash (db_invitations ?c1) = map iv_token_hash (db_invitations d)"
    by (simp add: revoke_if_def)
  then have hash: "iv_token_hash ` set (db_invitations ?c1) = iv_token_hash ` set (db_invitations d)"
    by (metis image_set)
  have hash': "hash_opaque_token ev tok \<noteq> iv_token_hash i" if "i \<in> set (db_invitations ?c1)" for i
    using that hash assms(5) by (metis imageI)
  have none': "\<not> pending_for ev h email i" if "i \<in> set (db_invitations ?c1)" for i
    using that none unfolding filter_empty_conv by blast
  have fields: "iv_token_hash ?inv = hash_opaque_token ev tok" "iv_household_id ?inv = h" "iv_email ?inv = email"
    by (simp_all add: new_invitation_def)
  have nc: "\<not> invitation_conflict ev ?c1 ?inv"
    unfolding invitation_conflict_def fields assms(4) using hash' none' by metis
  have "create_invitation ev id d ctx u em role tok True debug =
      done_with (set_invitations (db_invitations ?c1 @ [?inv]) ?c1) []
        (to_invitation_read ?inv (Some (us_display_name u)) (if debug then Some tok else None) None None)"
    using role chk nc unfolding h_def email_def
    by (simp add: create_invitation_def Let_def raise_if_invite_email_delivery_failed_def)
  with assms(3) have "d' = set_invitations (db_invitations ?c1 @ [?inv]) ?c1" by simp
  then show ?thesis
    using none role assms(4) by (simp add: pending_for_def new_invitation_def)
qed

lemma new_invitation_is_the_pending_one_witness:
  "filter (pending_for sample_env (lit ''h1'') (lit ''u3@x.io''))
     (db_invitations (outcome_db (create_invitation sample_env id sample_invited_db sample_ctx
        (sample_user ''u1'' ''Ann'') (lit ''U3@x.io'') Role_viewer (lit ''tok'') True False)))
     = [new_invitation sample_env (lit ''h1'') (lit ''u1'') (lit ''u3@x.io'') Role_viewer (lit ''tok'')]"
proof -
  let ?out = "create_invitation sample_env id sample_invited_db sample_ctx (sample_user ''u1'' ''Ann'')
    (lit ''U3@x.io'') Role_viewer (lit ''tok'') True False"
  have "case fst ?out of Inr _ \<Rightarrow> True | Inl _ \<Rightarrow> False" by code_simp
  then obtain r d' evs where o: "?out = (Inr r, d', evs)"
    by (cases ?out) (auto split: sum.splits)
  have e: "py_strip (py_lower (lit ''U3@x.io'')) = lit ''u3@x.io''" by code_simp
  have l: "ev_sql_lower sample_env (py_strip (py_lower (lit ''U3@x.io''))) = py_strip (py_lower (lit ''U3@x.io''))"
    by code_simp
  have t: "hash_opaque_token sample_env (lit ''tok'') \<notin> iv_token_hash ` set (db_invitations sample_invited_db)"
    by code_simp
  have n: "hh_id (fst sample_ctx) = lit ''h1''" "us_id (sample_user ''u1'' ''Ann'') = lit ''u1''" by code_simp+
  from new_invitation_is_the_pending_one [OF o l t] show ?thesis
    unfolding e n o outcome_db_def by simp
qed

text \<open>What a removal leaves: after a removal the user has no membership in the household,
it is not his active household, and exactly one event asks the hub to drop his sockets.\<close>

theorem removal_is_complete:
  assumes "household_inv lower d" and "unique_keys us_id (db_users d)"
    and "remove_member d ctx i = (Inr r, d', evs)"
  shows "\<exists>m \<in> set (db_members d). mb_id m = i \<and> mb_household_id m = hh_id (fst ctx)
     \<and> find_membership d' (hh_id (fst ctx)) (mb_user_id m) = None
     \<and> (\<forall>u \<in> set (db_users d'). us_id u = mb_user_id m \<longrightarrow> us_active_household_id u \<noteq> Some (hh_id (fst ctx)))
     \<and> evs = [(hh_id (fst ctx), Member_disconnected (mb_user_id m))]"
proof -
  let ?h = "hh_id (fst ctx)"
  from assms(3) obtain actor target where t: "locked_get d ?h i = Some target"
    and d': "d' = (case row_get us_id (mb_user_id target) (db_users d) of
       Some u \<Rightarrow> (if us_active_household_id u = Some ?h
          then select_active (set_members (row_delete mb_id (mb_id target) (db_members d)) d) (mb_user_id target) None
          else set_members (row_delete mb_id (mb_id target) (db_members d)) d)
       | None \<Rightarrow> set_members (row_delete mb_id (mb_id target) (db_members d)) d)"
    and evs: "evs = [(?h, Member_disconnected (mb_user_id target))]"
    by (auto simp: remove_member_def Let_def split: option.splits if_splits)
  note tm = locked_getD [OF t]
  have mem: "db_members d' = row_delete mb_id i (db_members d)"
    using tm by (auto simp: d' split: option.split)
  have "m = target" if "m \<in> set (db_members d)" "mb_household_id m = ?h" "mb_user_id m = mb_user_id target" for m
    using that tm assms(1) by (auto simp: household_inv_def distinct_map inj_on_def)
  then have "find_membership d' ?h (mb_user_id target) = None"
    using tm by (auto simp: find_membership_def find_None_iff mem)
  moreover have "\<forall>u \<in> set (db_users d'). us_id u = mb_user_id target \<longrightarrow> us_active_household_id u \<noteq> Some ?h"
  proof (cases "row_get us_id (mb_user_id target) (db_users d)")
    case None
    then have "db_users d' = db_users d" by (simp add: d')
    with None show ?thesis by (metis imageI row_get_None_iff)
  next
    case (Some u)
    have "v = u" if "v \<in> set (db_users d)" "us_id v = mb_user_id target" for v
      using that row_get_unique [OF assms(2) that(1)] Some by simp
    with Some show ?thesis
      by (auto simp: d' select_active_def row_update_def split: if_splits)
  qed
  ultimately show ?thesis using tm evs by blast
qed

lemma removal_is_complete_witness:
  "find_membership (outcome_db (remove_member sample_db sample_ctx (lit ''m2''))) (lit ''h1'') (lit ''u2'') = None"
proof -
  let ?out = "remove_member sample_db sample_ctx (lit ''m2'')"
  have "case fst ?out of Inr _ \<Rightarrow> True | Inl _ \<Rightarrow> False" by code_simp
  then obtain r d' evs where o: "?out = (Inr r, d', evs)"
    by (cases ?out) (auto split: sum.splits)
  have i: "household_inv py_lower sample_db" by code_simp
  have u: "unique_keys us_id (db_users sample_db)" by code_simp
  have m: "\<forall>m \<in> set (db_members sample_db). mb_id m = lit ''m2'' \<longrightarrow> mb_user_id m = lit ''u2''"
    "hh_id (fst sample_ctx) = lit ''h1''" by code_simp+
  from removal_is_complete [OF i u o] m o show ?thesis by (auto simp: outcome_db_def)
qed

end
