(* ===== verification/Holdings.thy ===== *)
theory Holdings
  imports Merge Owner_Links Transactions
begin

text \<open>
  The handlers of \<open>backend/app/api/routes/holdings.py\<close>: identity of a holding, the search for
  duplicates, creation, patching, deletion and listing, with the payload schemas.  The
  unique index \<open>uq_holding_identity\<close> is modelled with the \<open>trim\<close> and \<open>upper\<close> of the database
  as parameters.  \<open>hd_ops\<close> is the field access the merge routine uses on a holding.
\<close>

subsection \<open>Identity\<close>

text \<open>\<open>_normalize_identity_text\<close>.\<close>

definition normalize_identity_text :: "pystr option \<Rightarrow> pystr" where
  "normalize_identity_text v = py_strip (case v of Some s \<Rightarrow> s | None \<Rightarrow> [])"

definition legacy_owner_prefix :: pystr where
  "legacy_owner_prefix = lit ''__legacy_null_owner__:''"

text \<open>The f-string shows a missing owner name as the text \<open>None\<close>.\<close>

definition holding_owner_identity_key :: "pystr option \<Rightarrow> pystr option \<Rightarrow> pystr" where
  "holding_owner_identity_key owner_user_id owner_name =
     (case normalize_optional_text owner_user_id of
        Some uid \<Rightarrow> uid
      | None \<Rightarrow> legacy_owner_prefix
          @ (case normalize_optional_text owner_name of Some t \<Rightarrow> t | None \<Rightarrow> lit ''None''))"

definition same_owner_identity :: "holding \<Rightarrow> pystr option \<Rightarrow> pystr option \<Rightarrow> bool" where
  "same_owner_identity x owner_user_id owner_name \<longleftrightarrow>
     holding_owner_identity_key (hd_owner_user_id x) (hd_owner_name x)
     = holding_owner_identity_key owner_user_id owner_name"

definition sql_coalesce :: "pystr option \<Rightarrow> pystr" where
  "sql_coalesce v = (case v of Some s \<Rightarrow> s | None \<Rightarrow> [])"

definition find_duplicate_holding ::
  "env \<Rightarrow> db \<Rightarrow> pystr \<Rightarrow> asset_type \<Rightarrow> pystr \<Rightarrow> pystr option \<Rightarrow> pystr option \<Rightarrow> pystr \<Rightarrow> pystr option
   \<Rightarrow> holding option" where
  "find_duplicate_holding ev d household_id asset market_symbol owner_user_id owner_name account_name exclude =
     (let market = py_upper (normalize_identity_text (Some market_symbol));
          account = normalize_identity_text (Some account_name)
      in find (\<lambda>x. hd_household_id x = household_id \<and> hd_asset_type x = asset
              \<and> ev_sql_upper ev (ev_sql_trim ev (hd_market_symbol x)) = market
              \<and> ev_sql_trim ev (sql_coalesce (hd_account_name x)) = account
              \<and> \<not> (truthy_text exclude \<and> Some (hd_id x) = exclude)
              \<and> same_owner_identity x owner_user_id owner_name) (db_holdings d))"

text \<open>The expressions of the unique index \<open>uq_holding_identity\<close>.\<close>

definition identity_index ::
  "env \<Rightarrow> holding \<Rightarrow> pystr \<times> asset_type \<times> pystr \<times> pystr \<times> pystr" where
  "identity_index ev x =
     (let uid = (case hd_owner_user_id x of None \<Rightarrow> [] | Some s \<Rightarrow> ev_sql_trim ev s)
      in (hd_household_id x, hd_asset_type x, ev_sql_upper ev (ev_sql_trim ev (hd_market_symbol x)),
          if uid = [] then legacy_owner_prefix @ ev_sql_trim ev (sql_coalesce (hd_owner_name x)) else uid,
          ev_sql_trim ev (sql_coalesce (hd_account_name x))))"

definition identity_conflict :: "env \<Rightarrow> db \<Rightarrow> holding \<Rightarrow> bool" where
  "identity_conflict ev d x \<longleftrightarrow>
     (\<exists>y \<in> set (db_holdings d). hd_id y \<noteq> hd_id x \<and> identity_index ev y = identity_index ev x)"

subsection \<open>Payloads\<close>

record holding_create =
  hc_asset_type :: asset_type
  hc_type_key :: "pystr option"
  hc_symbol :: pystr
  hc_market_symbol :: pystr
  hc_name :: pystr
  hc_category :: pystr
  hc_owner_user_id :: "pystr option"
  hc_owner_name :: "pystr option"
  hc_account_name :: "pystr option"
  hc_quantity :: rat
  hc_average_cost :: rat
  hc_currency :: pystr
  hc_display_order :: "int option"

definition supported_currencies :: "pystr list" where
  "supported_currencies = map lit [''KRW'', ''USD'', ''JPY'', ''EUR'']"

text \<open>\<open>normalize_currency\<close>: every supported code matches the pattern \<open>[A-Z]{3,8}\<close>.\<close>

definition holding_currency :: "pystr \<Rightarrow> pystr option" where
  "holding_currency v =
     (let code = py_upper (py_strip v)
      in if 3 \<le> length v \<and> length v \<le> 8 \<and> code \<in> set supported_currencies then Some code else None)"

definition required_text :: "nat \<Rightarrow> pystr \<Rightarrow> pystr option" where
  "required_text n v =
     (let t = py_strip v in if 1 \<le> length v \<and> length v \<le> n \<and> t \<noteq> [] then Some t else None)"

definition validate_holding_create :: "holding_create \<Rightarrow> holding_create option" where
  "validate_holding_create p =
     (case (required_text 40 (hc_symbol p), required_text 40 (hc_market_symbol p),
            required_text 120 (hc_name p), required_text 80 (hc_category p), holding_currency (hc_currency p)) of
        (Some sy, Some ms, Some n, Some c, Some cur) \<Rightarrow>
          (if max_len 80 (hc_type_key p) \<and> max_len 36 (hc_owner_user_id p) \<and> max_len 80 (hc_owner_name p)
              \<and> max_len 120 (hc_account_name p) \<and> 0 < hc_quantity p \<and> 0 \<le> hc_average_cost p
              \<and> (case hc_display_order p of None \<Rightarrow> True | Some k \<Rightarrow> 1 \<le> k)
           then Some (p\<lparr>hc_symbol := sy, hc_market_symbol := ms, hc_name := n, hc_category := c,
                        hc_currency := cur, hc_owner_user_id := normalize_optional_text (hc_owner_user_id p),
                        hc_type_key := normalize_optional_text (hc_type_key p),
                        hc_owner_name := normalize_optional_text (hc_owner_name p),
                        hc_account_name := normalize_optional_text (hc_account_name p)\<rparr>)
           else None)
      | _ \<Rightarrow> None)"

record holding_patch =
  hp_base_version :: int
  hp_type_key :: "pystr option option"
  hp_market_symbol :: "pystr option option"
  hp_name :: "pystr option option"
  hp_category :: "pystr option option"
  hp_owner_user_id :: "pystr option option"
  hp_owner_name :: "pystr option option"
  hp_account_name :: "pystr option option"
  hp_quantity :: "rat option option"
  hp_average_cost :: "rat option option"
  hp_currency :: "pystr option option"
  hp_display_order :: "int option option"

definition len_between :: "nat \<Rightarrow> nat \<Rightarrow> pystr \<Rightarrow> bool" where
  "len_between a b v \<longleftrightarrow> a \<le> length v \<and> length v \<le> b"

definition validate_holding_patch :: "holding_patch \<Rightarrow> holding_patch option" where
  "validate_holding_patch p =
     (if 1 \<le> hp_base_version p \<and> given (len_between 0 80) (hp_type_key p)
         \<and> given (len_between 1 40) (hp_market_symbol p) \<and> given (len_between 1 120) (hp_name p)
         \<and> given (len_between 1 80) (hp_category p) \<and> given (len_between 0 36) (hp_owner_user_id p)
         \<and> given (len_between 0 80) (hp_owner_name p) \<and> given (len_between 0 120) (hp_account_name p)
         \<and> given (\<lambda>q. 0 < q) (hp_quantity p) \<and> given (\<lambda>q. 0 \<le> q) (hp_average_cost p)
         \<and> given (\<lambda>v. holding_currency v \<noteq> None) (hp_currency p) \<and> given (\<lambda>k. 1 \<le> k) (hp_display_order p)
      then Some (p\<lparr>hp_owner_user_id := map_option normalize_optional_text (hp_owner_user_id p),
                   hp_type_key := map_option normalize_optional_text (hp_type_key p),
                   hp_owner_name := map_option normalize_optional_text (hp_owner_name p),
                   hp_account_name := map_option normalize_optional_text (hp_account_name p),
                   hp_currency := map_option (\<lambda>v. Option.bind v holding_currency) (hp_currency p)\<rparr>)
      else None)"

subsection \<open>Reading a holding\<close>

record holding_read =
  hr_id :: pystr
  hr_household_id :: pystr
  hr_asset_type :: asset_type
  hr_type_key :: "pystr option"
  hr_symbol :: pystr
  hr_market_symbol :: pystr
  hr_name :: pystr
  hr_category :: pystr
  hr_owner_user_id :: "pystr option"
  hr_owner_name :: "pystr option"
  hr_account_name :: "pystr option"
  hr_quantity :: rat
  hr_average_cost :: rat
  hr_currency :: pystr
  hr_display_order :: int
  hr_source_ref :: "pystr option"
  hr_version :: int
  hr_updated_at :: instant

definition to_holding_read :: "holding \<Rightarrow> pystr option \<Rightarrow> holding_read" where
  "to_holding_read x linked =
     \<lparr>hr_id = hd_id x, hr_household_id = hd_household_id x, hr_asset_type = hd_asset_type x,
      hr_type_key = normalize_optional_text (hd_type_key x), hr_symbol = hd_symbol x,
      hr_market_symbol = hd_market_symbol x, hr_name = hd_name x, hr_category = hd_category x,
      hr_owner_user_id = normalize_optional_text (hd_owner_user_id x),
      hr_owner_name = normalize_optional_text (or_text linked (hd_owner_name x)),
      hr_account_name = normalize_optional_text (hd_account_name x), hr_quantity = hd_quantity x,
      hr_average_cost = hd_average_cost x, hr_currency = hd_currency x,
      hr_display_order = hd_display_order x, hr_source_ref = normalize_optional_text (hd_source_ref x),
      hr_version = hd_version x, hr_updated_at = hd_updated_at x\<rparr>"

definition load_holding_read :: "db \<Rightarrow> pystr \<Rightarrow> http_error + holding_read" where
  "load_holding_read d holding_id =
     (case row_get hd_id holding_id (db_holdings d) of
        None \<Rightarrow> Inl (HttpDetail 404 ''holding not found'')
      | Some x \<Rightarrow> Inr (to_holding_read x (linked_owner_name d (hd_owner_user_id x))))"

definition list_holdings :: "db \<Rightarrow> ctx \<Rightarrow> holding_read list" where
  "list_holdings d ctx =
     map (\<lambda>x. to_holding_read x (linked_owner_name d (hd_owner_user_id x)))
       (sort_key (\<lambda>x. (hd_display_order x, sql_coalesce (hd_owner_name x), hd_category x,
                     sql_coalesce (hd_account_name x), hd_symbol x))
          (filter (\<lambda>x. hd_household_id x = hh_id (fst ctx)) (db_holdings d)))"

subsection \<open>Creating a holding\<close>

definition next_display_order :: "db \<Rightarrow> pystr \<Rightarrow> int" where
  "next_display_order d household_id =
     (let orders = map hd_display_order (filter (\<lambda>x. hd_household_id x = household_id) (db_holdings d))
      in (if orders = [] then 0 else Max (set orders)) + 1)"

definition new_holding ::
  "env \<Rightarrow> pystr \<Rightarrow> holding_create \<Rightarrow> pystr option \<Rightarrow> pystr option \<Rightarrow> int \<Rightarrow> holding" where
  "new_holding ev household_id p owner_user_id owner_name display_order =
     \<lparr>hd_id = ev_new_id ev, hd_household_id = household_id, hd_asset_type = hc_asset_type p,
      hd_symbol = py_upper (py_strip (hc_symbol p)), hd_market_symbol = py_upper (py_strip (hc_market_symbol p)),
      hd_name = py_strip (hc_name p), hd_type_key = hc_type_key p, hd_category = py_strip (hc_category p),
      hd_owner_user_id = owner_user_id, hd_owner_name = Some (sql_coalesce owner_name),
      hd_account_name = Some (normalize_identity_text (hc_account_name p)), hd_quantity = hc_quantity p,
      hd_average_cost = hc_average_cost p, hd_currency = py_upper (hc_currency p),
      hd_display_order = display_order, hd_source_ref = None, hd_version = 1, hd_updated_at = ev_db_now ev\<rparr>"

definition already_exists :: http_error where
  "already_exists = AppError 409 ''HOLDING_ALREADY_EXISTS''"

text \<open>\<open>int(payload.display_order or next_display_order)\<close>.\<close>

definition order_or :: "int option \<Rightarrow> int \<Rightarrow> int" where
  "order_or v dflt = (case v of Some k \<Rightarrow> if k = 0 then dflt else k | None \<Rightarrow> dflt)"

definition create_holding ::
  "env \<Rightarrow> (db \<Rightarrow> db) \<Rightarrow> db \<Rightarrow> ctx \<Rightarrow> holding_create \<Rightarrow> holding_read outcome" where
  "create_holding ev interleave d ctx p =
     (let household_id = hh_id (fst ctx)
      in case resolve_owner_fields d household_id (hc_owner_user_id p) (hc_owner_name p)
                ''HOLDING_OWNER_INVALID'' of
           Inl e \<Rightarrow> fail d e
         | Inr (owner_user_id, owner_name) \<Rightarrow>
        (if find_duplicate_holding ev d household_id (hc_asset_type p) (py_upper (py_strip (hc_market_symbol p)))
              owner_user_id owner_name (normalize_identity_text (hc_account_name p)) None \<noteq> None
         then fail d already_exists
         else
           (let x = new_holding ev household_id p owner_user_id owner_name
                      (order_or (hc_display_order p) (next_display_order d household_id));
                c = interleave d
            in if identity_conflict ev c x then fail c already_exists
               else (let c' = set_holdings (db_holdings c @ [x]) c
                     in answer_with c' [(household_id, Holding_created (hd_id x) 1)]
                          (load_holding_read c' (hd_id x))))))"

subsection \<open>Patching a holding\<close>

datatype holding_update =
    Hupd_type_key "pystr option"
  | Hupd_market_symbol pystr
  | Hupd_name pystr
  | Hupd_category pystr
  | Hupd_owner_user_id "pystr option"
  | Hupd_owner_name "pystr option"
  | Hupd_account_name "pystr option"
  | Hupd_quantity rat
  | Hupd_average_cost rat
  | Hupd_currency pystr
  | Hupd_display_order int

fun holding_update_key :: "holding_update \<Rightarrow> string" where
  "holding_update_key (Hupd_type_key _) = ''type_key''"
| "holding_update_key (Hupd_market_symbol _) = ''market_symbol''"
| "holding_update_key (Hupd_name _) = ''name''"
| "holding_update_key (Hupd_category _) = ''category''"
| "holding_update_key (Hupd_owner_user_id _) = ''owner_user_id''"
| "holding_update_key (Hupd_owner_name _) = ''owner_name''"
| "holding_update_key (Hupd_account_name _) = ''account_name''"
| "holding_update_key (Hupd_quantity _) = ''quantity''"
| "holding_update_key (Hupd_average_cost _) = ''average_cost''"
| "holding_update_key (Hupd_currency _) = ''currency''"
| "holding_update_key (Hupd_display_order _) = ''display_order''"

fun holding_same :: "holding_update \<Rightarrow> holding \<Rightarrow> bool" where
  "holding_same (Hupd_type_key v) x = (hd_type_key x = v)"
| "holding_same (Hupd_market_symbol v) x = (hd_market_symbol x = v)"
| "holding_same (Hupd_name v) x = (hd_name x = v)"
| "holding_same (Hupd_category v) x = (hd_category x = v)"
| "holding_same (Hupd_owner_user_id v) x = (hd_owner_user_id x = v)"
| "holding_same (Hupd_owner_name v) x = (hd_owner_name x = v)"
| "holding_same (Hupd_account_name v) x = (hd_account_name x = v)"
| "holding_same (Hupd_quantity v) x = (hd_quantity x = v)"
| "holding_same (Hupd_average_cost v) x = (hd_average_cost x = v)"
| "holding_same (Hupd_currency v) x = (hd_currency x = v)"
| "holding_same (Hupd_display_order v) x = (hd_display_order x = v)"

fun holding_set :: "holding_update \<Rightarrow> holding \<Rightarrow> holding" where
  "holding_set (Hupd_type_key v) x = x\<lparr>hd_type_key := v\<rparr>"
| "holding_set (Hupd_market_symbol v) x = x\<lparr>hd_market_symbol := v\<rparr>"
| "holding_set (Hupd_name v) x = x\<lparr>hd_name := v\<rparr>"
| "holding_set (Hupd_category v) x = x\<lparr>hd_category := v\<rparr>"
| "holding_set (Hupd_owner_user_id v) x = x\<lparr>hd_owner_user_id := v\<rparr>"
| "holding_set (Hupd_owner_name v) x = x\<lparr>hd_owner_name := v\<rparr>"
| "holding_set (Hupd_account_name v) x = x\<lparr>hd_account_name := v\<rparr>"
| "holding_set (Hupd_quantity v) x = x\<lparr>hd_quantity := v\<rparr>"
| "holding_set (Hupd_average_cost v) x = x\<lparr>hd_average_cost := v\<rparr>"
| "holding_set (Hupd_currency v) x = x\<lparr>hd_currency := v\<rparr>"
| "holding_set (Hupd_display_order v) x = x\<lparr>hd_display_order := v\<rparr>"

definition hd_ops :: "(holding_update, holding) entity_ops" where
  "hd_ops =
     \<lparr>op_type = ''holding'', op_key = holding_update_key, op_same = holding_same,
      op_set = holding_set, op_id = hd_id, op_version = hd_version,
      op_set_version = (\<lambda>n x. x\<lparr>hd_version := n\<rparr>)\<rparr>"

lemma hd_ops_simps [simp]:
  "op_type hd_ops = ''holding''" "op_key hd_ops = holding_update_key"
  "op_same hd_ops = holding_same" "op_set hd_ops = holding_set" "op_id hd_ops = hd_id"
  "op_version hd_ops = hd_version" "op_set_version hd_ops = (\<lambda>n x. x\<lparr>hd_version := n\<rparr>)"
  by (simp_all add: hd_ops_def)

interpretation hd_patch: patchable hd_ops
proof unfold_locales
  fix u v t n m
  show "op_same hd_ops u (op_set hd_ops u t)" by (cases u) simp_all
  show "op_version hd_ops (op_set hd_ops u t) = op_version hd_ops t" by (cases u) simp_all
  show "op_id hd_ops (op_set hd_ops u t) = op_id hd_ops t" by (cases u) simp_all
  show "op_same hd_ops u (op_set_version hd_ops n t) = op_same hd_ops u t" by (cases u) simp_all
  show "op_set hd_ops u (op_set_version hd_ops n t) = op_set_version hd_ops n (op_set hd_ops u t)"
    by (cases u) simp_all
  show "op_version hd_ops (op_set_version hd_ops n t) = n" by simp
  show "op_id hd_ops (op_set_version hd_ops n t) = op_id hd_ops t" by simp
  show "op_set_version hd_ops n (op_set_version hd_ops m t) = op_set_version hd_ops n t" by simp
  show "op_set hd_ops u t = t" if "op_same hd_ops u t" using that by (cases u) auto
  show "op_same hd_ops u (op_set hd_ops v t) = op_same hd_ops u t"
    if "op_key hd_ops u \<noteq> op_key hd_ops v" using that by (cases u; cases v) simp_all
  show "op_set hd_ops u (op_set hd_ops v t) = op_set hd_ops v (op_set hd_ops u t)"
    if "op_key hd_ops u \<noteq> op_key hd_ops v" using that by (cases u; cases v) simp_all
qed

definition holding_null_fields :: "holding_patch \<Rightarrow> string list" where
  "holding_null_fields p =
     sort (map fst (filter snd
       [(''market_symbol'', is_null (hp_market_symbol p)), (''name'', is_null (hp_name p)),
        (''category'', is_null (hp_category p)), (''quantity'', is_null (hp_quantity p)),
        (''average_cost'', is_null (hp_average_cost p)), (''currency'', is_null (hp_currency p)),
        (''display_order'', is_null (hp_display_order p))]))"

definition is_blank :: "pystr option option \<Rightarrow> bool" where
  "is_blank v = (case v of Some (Some s) \<Rightarrow> py_strip s = [] | _ \<Rightarrow> False)"

definition holding_blank_fields :: "holding_patch \<Rightarrow> string list" where
  "holding_blank_fields p =
     sort (map fst (filter snd
       [(''market_symbol'', is_blank (hp_market_symbol p)), (''name'', is_blank (hp_name p)),
        (''category'', is_blank (hp_category p))]))"

definition holding_owner_fields ::
  "db \<Rightarrow> pystr \<Rightarrow> holding \<Rightarrow> holding_patch \<Rightarrow> http_error + (pystr option \<times> pystr option) option" where
  "holding_owner_fields d household_id x p =
     (if hp_owner_user_id p \<noteq> None \<or> hp_owner_name p \<noteq> None then
        map_sum id Some
          (resolve_owner_fields d household_id (get_or (hp_owner_user_id p) (hd_owner_user_id x))
             (get_or (hp_owner_name p) (hd_owner_name x)) ''HOLDING_OWNER_INVALID'')
      else Inr None)"

definition holding_patch_data ::
  "holding_patch \<Rightarrow> (pystr option \<times> pystr option) option \<Rightarrow> holding_update list" where
  "holding_patch_data p owner =
     nullable_update Hupd_type_key (map_option normalize_optional_text (hp_type_key p))
     @ required_update Hupd_market_symbol (map_option (map_option (\<lambda>s. py_upper (py_strip s))) (hp_market_symbol p))
     @ required_update Hupd_name (map_option (map_option py_strip) (hp_name p))
     @ required_update Hupd_category (map_option (map_option py_strip) (hp_category p))
     @ nullable_update Hupd_account_name (map_option (map_option py_strip) (hp_account_name p))
     @ required_update Hupd_quantity (hp_quantity p)
     @ required_update Hupd_average_cost (hp_average_cost p)
     @ required_update Hupd_currency (map_option (map_option (\<lambda>s. py_upper (py_strip s))) (hp_currency p))
     @ required_update Hupd_display_order (hp_display_order p)
     @ (case owner of None \<Rightarrow> [] | Some (uid, name) \<Rightarrow> [Hupd_owner_user_id uid, Hupd_owner_name name])"

text \<open>The identity the patched holding would have, as \<open>target_identity\<close> computes it.\<close>

definition target_duplicate ::
  "env \<Rightarrow> db \<Rightarrow> pystr \<Rightarrow> holding \<Rightarrow> holding_patch \<Rightarrow> (pystr option \<times> pystr option) option \<Rightarrow> holding option" where
  "target_duplicate ev d household_id x p owner =
     (let market = (case hp_market_symbol p of
                      Some (Some s) \<Rightarrow> py_upper (py_strip (py_upper (py_strip s)))
                    | _ \<Rightarrow> py_upper (py_strip (hd_market_symbol x)));
          uid = normalize_optional_text (case owner of Some (u, _) \<Rightarrow> u | None \<Rightarrow> hd_owner_user_id x);
          name = normalize_optional_text (case owner of Some (_, n) \<Rightarrow> n | None \<Rightarrow> hd_owner_name x);
          account = normalize_identity_text
                      (case hp_account_name p of
                         Some v \<Rightarrow> map_option py_strip v | None \<Rightarrow> hd_account_name x)
      in find_duplicate_holding ev d household_id (hd_asset_type x) market uid name account (Some (hd_id x)))"

definition blank_missing :: "string list \<Rightarrow> holding \<Rightarrow> holding" where
  "blank_missing changed_fields x =
     (let x1 = (if ''owner_name'' \<in> set changed_fields \<and> hd_owner_name x = None
                then x\<lparr>hd_owner_name := Some []\<rparr> else x)
      in if ''account_name'' \<in> set changed_fields \<and> hd_account_name x1 = None
         then x1\<lparr>hd_account_name := Some []\<rparr> else x1)"

definition write_holding :: "db \<Rightarrow> holding \<Rightarrow> patch_log list \<Rightarrow> db" where
  "write_holding c x new_logs =
     set_patch_logs (db_patch_logs c @ new_logs)
       (set_holdings (row_update hd_id (hd_id x) (\<lambda>_. x) (db_holdings c)) c)"

definition patch_holding ::
  "env \<Rightarrow> (db \<Rightarrow> db) \<Rightarrow> db \<Rightarrow> ctx \<Rightarrow> pystr \<Rightarrow> pystr \<Rightarrow> holding_patch \<Rightarrow> holding_read outcome" where
  "patch_holding ev interleave d ctx user_id holding_id p =
     (let household_id = hh_id (fst ctx)
      in case find (\<lambda>x. hd_id x = holding_id \<and> hd_household_id x = household_id) (db_holdings d) of
           None \<Rightarrow> fail d (HttpDetail 404 ''holding not found'')
         | Some x \<Rightarrow>
        (if holding_null_fields p \<noteq> [] then
           fail d (AppErrorCtx 400 ''HOLDING_PATCH_NULL_NOT_ALLOWED'' (map lit (holding_null_fields p)))
         else if holding_blank_fields p \<noteq> [] then
           fail d (AppErrorCtx 400 ''HOLDING_PATCH_BLANK_NOT_ALLOWED'' (map lit (holding_blank_fields p)))
         else case holding_owner_fields d household_id x p of
           Inl e \<Rightarrow> fail d e
         | Inr owner \<Rightarrow>
        (if target_duplicate ev d household_id x p owner \<noteq> None then fail d already_exists
         else case merge_patch_or_raise hd_ops (db_patch_logs d) x household_id (Some user_id)
                     (hp_base_version p) (holding_patch_data p owner) of
           Inl e \<Rightarrow> fail d e
         | Inr (merged, changed_fields, x', new_logs) \<Rightarrow>
        (if changed_fields = [] then answer_with d [] (load_holding_read d holding_id)
         else
           (let c = interleave d;
                x'' = (blank_missing changed_fields x')\<lparr>hd_updated_at := ev_db_now ev\<rparr>
            in if identity_conflict ev c x'' then fail c already_exists
               else (let c' = write_holding c x'' new_logs
                     in answer_with c'
                          [(household_id, Holding_patched holding_id (hd_version x'') changed_fields merged)]
                          (load_holding_read c' holding_id)))))))"

definition delete_holding :: "db \<Rightarrow> ctx \<Rightarrow> pystr \<Rightarrow> unit outcome" where
  "delete_holding d ctx holding_id =
     (case row_get hd_id holding_id (db_holdings d) of
        None \<Rightarrow> fail d (HttpDetail 404 ''holding not found'')
      | Some x \<Rightarrow>
          (if hd_household_id x \<noteq> hh_id (fst ctx) then fail d (HttpDetail 404 ''holding not found'')
           else done_with (set_holdings (row_delete hd_id holding_id (db_holdings d)) d)
                  [(hh_id (fst ctx), Holding_deleted holding_id)] ()))"

subsection \<open>The invariant\<close>

definition stripped :: "pystr option \<Rightarrow> bool" where
  "stripped v \<longleftrightarrow> py_strip (sql_coalesce v) = sql_coalesce v"

definition holding_ok :: "holding \<Rightarrow> bool" where
  "holding_ok x \<longleftrightarrow>
     py_strip (hd_market_symbol x) = hd_market_symbol x \<and> py_upper (hd_market_symbol x) = hd_market_symbol x
     \<and> hd_market_symbol x \<noteq> [] \<and> py_strip (hd_name x) = hd_name x \<and> hd_name x \<noteq> []
     \<and> py_strip (hd_category x) = hd_category x \<and> hd_category x \<noteq> []
     \<and> stripped (hd_owner_name x) \<and> stripped (hd_account_name x)
     \<and> 0 < hd_quantity x \<and> 0 \<le> hd_average_cost x \<and> hd_currency x \<in> set supported_currencies
     \<and> 1 \<le> hd_display_order x \<and> 1 \<le> hd_version x"

definition holdings_inv :: "env \<Rightarrow> db \<Rightarrow> bool" where
  "holdings_inv ev d \<longleftrightarrow>
     unique_keys hd_id (db_holdings d) \<and> distinct (map (identity_index ev) (db_holdings d))
     \<and> list_all (\<lambda>x. holding_ok x \<and> hd_owner_name x \<noteq> None \<and> hd_account_name x \<noteq> None) (db_holdings d)"

lemma identity_conflict_insert:
  "hd_id x \<notin> hd_id ` set (db_holdings c) \<Longrightarrow>
   \<not> identity_conflict ev c x \<longleftrightarrow> identity_index ev x \<notin> identity_index ev ` set (db_holdings c)"
  unfolding identity_conflict_def image_iff by metis

lemma currency_upper: "c \<in> set supported_currencies \<Longrightarrow> py_upper c = c \<and> py_strip c = c"
  by (auto simp: supported_currencies_def lit_def py_upper_def upper_cp_def py_strip_def strip_by_def py_space_def)

lemma holding_currency_SomeD: "holding_currency v = Some c \<Longrightarrow> c \<in> set supported_currencies"
  by (auto simp: holding_currency_def Let_def split: if_splits)

lemma required_text_SomeD: "required_text n v = Some t \<Longrightarrow> py_strip t = t \<and> t \<noteq> []"
  by (auto simp: required_text_def Let_def split: if_splits)

lemma validated_holding_create:
  assumes "validate_holding_create raw = Some p"
  shows "py_strip (hc_market_symbol p) = hc_market_symbol p" "hc_market_symbol p \<noteq> []"
    "py_strip (hc_name p) = hc_name p" "hc_name p \<noteq> []"
    "py_strip (hc_category p) = hc_category p" "hc_category p \<noteq> []"
    "0 < hc_quantity p" "0 \<le> hc_average_cost p" "hc_currency p \<in> set supported_currencies"
    "\<And>k. hc_display_order p = Some k \<Longrightarrow> 1 \<le> k"
  using assms
  by (auto simp: validate_holding_create_def split: option.splits if_splits
      dest: required_text_SomeD holding_currency_SomeD)

lemma next_display_order_pos:
  assumes "holdings_inv ev d"
  shows "1 \<le> next_display_order d h"
proof (cases "filter (\<lambda>x. hd_household_id x = h) (db_holdings d)")
  case (Cons x xs)
  then have "x \<in> set (filter (\<lambda>x. hd_household_id x = h) (db_holdings d))" by simp
  with assms have "1 \<le> hd_display_order x"
    by (auto simp: holdings_inv_def list_all_iff holding_ok_def)
  moreover have "hd_display_order x \<le> Max (insert (hd_display_order x) (hd_display_order ` set xs))"
    by (intro Max_ge) auto
  ultimately have "0 \<le> Max (insert (hd_display_order x) (hd_display_order ` set xs))"
    by linarith
  then show ?thesis
    unfolding next_display_order_def Let_def by (simp add: Cons)
qed (simp add: next_display_order_def)

lemma new_holding_ok:
  assumes "validate_holding_create raw = Some p" and "holdings_inv ev d"
    and "normalize_optional_text name = name"
  shows "holding_ok (new_holding ev' h p uid name (order_or (hc_display_order p) (next_display_order d h)))"
proof -
  note v = validated_holding_create [OF assms(1)]
  have "1 \<le> order_or (hc_display_order p) (next_display_order d h)"
    using v(10) next_display_order_pos [OF assms(2)] by (auto simp: order_or_def split: option.splits)
  moreover have "stripped (Some (sql_coalesce name))"
    using assms(3) by (cases name) (auto simp: stripped_def sql_coalesce_def dest: normalize_optional_text_SomeD)
  ultimately show ?thesis
    using v by (simp add: holding_ok_def new_holding_def py_strip_upper currency_upper stripped_def
        normalize_identity_text_def sql_coalesce_def)
qed

lemma find_filter_ids:
  "find (\<lambda>x. hd_id x = i \<and> p x) rows = Some x \<Longrightarrow> x \<in> set rows \<and> hd_id x = i \<and> p x"
  by (auto dest: find_SomeD)

lemma create_holding_cases:
  obtains (failed) e where "create_holding ev w d ctx p = fail d e"
    | (conflict) "create_holding ev w d ctx p = fail (w d) already_exists"
    | (created) uid name x c where
        "resolve_owner_fields d (hh_id (fst ctx)) (hc_owner_user_id p) (hc_owner_name p)
           ''HOLDING_OWNER_INVALID'' = Inr (uid, name)"
        "x = new_holding ev (hh_id (fst ctx)) p uid name
           (order_or (hc_display_order p) (next_display_order d (hh_id (fst ctx))))"
        "find_duplicate_holding ev d (hh_id (fst ctx)) (hc_asset_type p) (py_upper (py_strip (hc_market_symbol p)))
           uid name (normalize_identity_text (hc_account_name p)) None = None"
        "\<not> identity_conflict ev (w d) x" "c = set_holdings (db_holdings (w d) @ [x]) (w d)"
        "create_holding ev w d ctx p =
           answer_with c [(hh_id (fst ctx), Holding_created (hd_id x) 1)] (load_holding_read c (hd_id x))"
proof (cases "resolve_owner_fields d (hh_id (fst ctx)) (hc_owner_user_id p) (hc_owner_name p)
           ''HOLDING_OWNER_INVALID''")
  case (Inl e)
  then show ?thesis by (intro failed) (simp add: create_holding_def)
next
  case (Inr r)
  obtain uid name where r: "r = (uid, name)" by force
  let ?dup = "find_duplicate_holding ev d (hh_id (fst ctx)) (hc_asset_type p)
      (py_upper (py_strip (hc_market_symbol p))) uid name (normalize_identity_text (hc_account_name p)) None"
  let ?x = "new_holding ev (hh_id (fst ctx)) p uid name
           (order_or (hc_display_order p) (next_display_order d (hh_id (fst ctx))))"
  consider (a) "?dup \<noteq> None" | (b) "?dup = None" "identity_conflict ev (w d) ?x"
    | (c) "?dup = None" "\<not> identity_conflict ev (w d) ?x" by blast
  then show ?thesis
  proof cases
    case a
    with Inr r show ?thesis by (intro failed) (simp add: create_holding_def)
  next
    case b
    with Inr r show ?thesis by (intro conflict) (simp add: create_holding_def Let_def)
  next
    case c
    with Inr r show ?thesis
      by (intro created [OF Inr [unfolded r] refl c(1) c(2) refl]) (simp add: create_holding_def Let_def)
  qed
qed

fun holding_update_ok :: "holding_update \<Rightarrow> bool" where
  "holding_update_ok (Hupd_type_key v) \<longleftrightarrow> True"
| "holding_update_ok (Hupd_market_symbol v) \<longleftrightarrow> py_strip v = v \<and> py_upper v = v \<and> v \<noteq> []"
| "holding_update_ok (Hupd_name v) \<longleftrightarrow> py_strip v = v \<and> v \<noteq> []"
| "holding_update_ok (Hupd_category v) \<longleftrightarrow> py_strip v = v \<and> v \<noteq> []"
| "holding_update_ok (Hupd_owner_user_id v) \<longleftrightarrow> True"
| "holding_update_ok (Hupd_owner_name v) \<longleftrightarrow> stripped v"
| "holding_update_ok (Hupd_account_name v) \<longleftrightarrow> stripped v"
| "holding_update_ok (Hupd_quantity v) \<longleftrightarrow> 0 < v"
| "holding_update_ok (Hupd_average_cost v) \<longleftrightarrow> 0 \<le> v"
| "holding_update_ok (Hupd_currency v) \<longleftrightarrow> v \<in> set supported_currencies"
| "holding_update_ok (Hupd_display_order v) \<longleftrightarrow> 1 \<le> v"

lemma holding_set_ok: "holding_update_ok u \<Longrightarrow> holding_ok x \<Longrightarrow> holding_ok (holding_set u x)"
  by (cases u) (simp_all add: holding_ok_def)

lemma apply_updates_ok:
  "list_all holding_update_ok us \<Longrightarrow> holding_ok x \<Longrightarrow> holding_ok (apply_updates hd_ops us x)"
  by (induction us arbitrary: x) (simp_all add: apply_updates_def holding_set_ok)

lemma merged_holding_ok:
  assumes "merge_patch_or_raise hd_ops logs x hh actor base us = Inr (merged, flds, x', new)"
    and "list_all holding_update_ok us" and "holding_ok x"
  shows "holding_ok x'"
  using assms(1)
proof (cases rule: merge_okE)
  case accepted
  have "list_all holding_update_ok (effective_patch hd_ops x us)"
    using assms(2) by (auto simp: effective_patch_def list_all_iff)
  from apply_updates_ok [OF this assms(3)] assms(3) accepted show ?thesis
    by (simp add: holding_ok_def)
qed (use assms(3) in simp)

lemma apply_updates_holding_fixed:
  "hd_household_id (apply_updates hd_ops us x) = hd_household_id x"
  "hd_asset_type (apply_updates hd_ops us x) = hd_asset_type x"
proof -
  have *: "hd_household_id (holding_set u x) = hd_household_id x \<and> hd_asset_type (holding_set u x) = hd_asset_type x"
    for u x by (cases u) simp_all
  have "hd_household_id (apply_updates hd_ops us x) = hd_household_id x
      \<and> hd_asset_type (apply_updates hd_ops us x) = hd_asset_type x"
    by (induction us arbitrary: x) (simp_all add: apply_updates_def *)
  then show "hd_household_id (apply_updates hd_ops us x) = hd_household_id x"
    "hd_asset_type (apply_updates hd_ops us x) = hd_asset_type x" by blast+
qed

lemma merged_holding_fixed:
  assumes "merge_patch_or_raise hd_ops logs x hh actor base us = Inr (merged, flds, x', new)"
  shows "hd_id x' = hd_id x" "hd_household_id x' = hd_household_id x" "hd_asset_type x' = hd_asset_type x"
  using assms hd_patch.merge_version(2) [OF assms]
  by (cases rule: merge_okE; simp add: apply_updates_holding_fixed)+

lemma stripped_normalize [simp]: "stripped (normalize_optional_text v)"
  by (cases "normalize_optional_text v")
    (auto simp: stripped_def sql_coalesce_def dest: normalize_optional_text_SomeD)

lemma stripped_simps [simp]: "stripped None" "stripped (Some v) \<longleftrightarrow> py_strip v = v"
  by (simp_all add: stripped_def sql_coalesce_def)

lemma null_fields_Nil:
  "holding_blank_fields p = [] \<Longrightarrow> \<not> is_blank (hp_market_symbol p) \<and> \<not> is_blank (hp_name p) \<and> \<not> is_blank (hp_category p)"
  by (auto simp: holding_blank_fields_def sort_eq_Nil_iff split: if_splits)

lemma validated_holding_patch:
  assumes "validate_holding_patch raw = Some p"
  shows "\<And>q. hp_quantity p = Some (Some q) \<Longrightarrow> 0 < q"
    "\<And>q. hp_average_cost p = Some (Some q) \<Longrightarrow> 0 \<le> q"
    "\<And>v. hp_currency p = Some (Some v) \<Longrightarrow> v \<in> set supported_currencies"
    "\<And>k. hp_display_order p = Some (Some k) \<Longrightarrow> 1 \<le> k"
  using assms
  by (auto simp: validate_holding_patch_def given_def Option.bind_eq_Some_conv split: if_splits
      dest: holding_currency_SomeD)

lemma list_all_updates:
  "list_all P (required_update f v) \<longleftrightarrow> (\<forall>x. v = Some (Some x) \<longrightarrow> P (f x))"
  "list_all P (nullable_update g v') \<longleftrightarrow> (\<forall>x. v' = Some x \<longrightarrow> P (g x))"
  by (cases v; simp add: required_update_def split: option.split) (cases v'; simp add: nullable_update_def)

lemma holding_patch_data_ok:
  assumes "validate_holding_patch raw = Some p" and "holding_blank_fields p = []"
    and owner: "\<And>uid name. owner = Some (uid, name) \<Longrightarrow> normalize_optional_text name = name"
  shows "list_all holding_update_ok (holding_patch_data p owner)"
proof -
  note v = validated_holding_patch [OF assms(1)] and b = null_fields_Nil [OF assms(2)]
  have o: "stripped name" if "owner = Some (uid, name)" for uid name
    using owner [OF that] stripped_normalize [of name] by simp
  have l: "list_all holding_update_ok (case owner of None \<Rightarrow> [] | Some (uid, name) \<Rightarrow> [Hupd_owner_user_id uid, Hupd_owner_name name])"
    using o by (simp split: option.split prod.split)
  have a: "stripped (map_option py_strip w)" for w by (cases w) simp_all
  have c: "py_upper (py_strip c) = c" if "c \<in> set supported_currencies" for c
    using currency_upper [OF that] by simp
  show ?thesis
    unfolding holding_patch_data_def list_all_append list_all_updates
    using v b by (intro conjI) (auto simp: l a c currency_upper py_strip_upper is_blank_def sql_coalesce_def)
qed

lemma blank_missing_fields [simp]:
  "hd_id (blank_missing f x) = hd_id x" "hd_household_id (blank_missing f x) = hd_household_id x"
  "hd_asset_type (blank_missing f x) = hd_asset_type x" "hd_market_symbol (blank_missing f x) = hd_market_symbol x"
  "hd_owner_user_id (blank_missing f x) = hd_owner_user_id x" "hd_version (blank_missing f x) = hd_version x"
  by (simp_all add: blank_missing_def Let_def)

lemma blank_missing_ok: "holding_ok x \<Longrightarrow> holding_ok (blank_missing f x)"
  by (simp add: blank_missing_def Let_def holding_ok_def)

lemma blank_missing_total:
  assumes "hd_owner_name x = None \<Longrightarrow> ''owner_name'' \<in> set f"
    and "hd_account_name x = None \<Longrightarrow> ''account_name'' \<in> set f"
  shows "hd_owner_name (blank_missing f x) \<noteq> None" "hd_account_name (blank_missing f x) \<noteq> None"
  using assms by (auto simp: blank_missing_def Let_def)

lemma patch_holding_cases:
  obtains (failed) e where "patch_holding ev w d ctx user_id i p = fail d e"
    | (unchanged) "patch_holding ev w d ctx user_id i p = answer_with d [] (load_holding_read d i)"
    | (conflict) "patch_holding ev w d ctx user_id i p = fail (w d) already_exists"
    | (patched) x owner merged flds x' new x'' where
        "x \<in> set (db_holdings d)" "hd_id x = i" "hd_household_id x = hh_id (fst ctx)"
        "holding_null_fields p = []" "holding_blank_fields p = []"
        "holding_owner_fields d (hh_id (fst ctx)) x p = Inr owner"
        "target_duplicate ev d (hh_id (fst ctx)) x p owner = None"
        "merge_patch_or_raise hd_ops (db_patch_logs d) x (hh_id (fst ctx)) (Some user_id)
           (hp_base_version p) (holding_patch_data p owner) = Inr (merged, flds, x', new)"
        "flds \<noteq> []" "x'' = (blank_missing flds x')\<lparr>hd_updated_at := ev_db_now ev\<rparr>"
        "\<not> identity_conflict ev (w d) x''"
        "patch_holding ev w d ctx user_id i p =
           answer_with (write_holding (w d) x'' new)
             [(hh_id (fst ctx), Holding_patched i (hd_version x'') flds merged)]
             (load_holding_read (write_holding (w d) x'' new) i)"
proof -
  let ?h = "hh_id (fst ctx)"
  show ?thesis
  proof (cases "find (\<lambda>x. hd_id x = i \<and> hd_household_id x = ?h) (db_holdings d)")
    case None
    then show ?thesis by (intro failed) (simp add: patch_holding_def)
  next
    case (Some x)
    then have x: "x \<in> set (db_holdings d)" "hd_id x = i" "hd_household_id x = ?h"
      by (auto simp: find_Some_iff)
    note step = Some
    show ?thesis
    proof (cases "holding_null_fields p = [] \<and> holding_blank_fields p = []")
      case False
      then consider "holding_null_fields p \<noteq> []" | "holding_null_fields p = []" "holding_blank_fields p \<noteq> []"
        by blast
      then show ?thesis
        by cases (use step in \<open>intro failed; simp add: patch_holding_def\<close>)+
    next
      case nb: True
      show ?thesis
      proof (cases "holding_owner_fields d ?h x p")
        case (Inl e)
        with step nb show ?thesis by (intro failed) (simp add: patch_holding_def)
      next
        case owner: (Inr owner)
        show ?thesis
        proof (cases "target_duplicate ev d ?h x p owner")
          case (Some y)
          with step nb owner show ?thesis by (intro failed) (simp add: patch_holding_def)
        next
          case dup: None
          show ?thesis
          proof (cases "merge_patch_or_raise hd_ops (db_patch_logs d) x ?h (Some user_id)
                (hp_base_version p) (holding_patch_data p owner)")
            case (Inl e)
            with step nb owner dup show ?thesis by (intro failed) (simp add: patch_holding_def)
          next
            case (Inr r)
            obtain merged flds x' new where r: "r = (merged, flds, x', new)" by (cases r)
            let ?x = "(blank_missing flds x')\<lparr>hd_updated_at := ev_db_now ev\<rparr>"
            note all = step nb owner dup Inr [unfolded r]
            consider (a) "flds = []" | (b) "flds \<noteq> []" "identity_conflict ev (w d) ?x"
              | (c) "flds \<noteq> []" "\<not> identity_conflict ev (w d) ?x" by blast
            then show ?thesis
            proof cases
              case a
              with all show ?thesis by (intro unchanged) (simp add: patch_holding_def)
            next
              case b
              with all show ?thesis by (intro conflict) (simp add: patch_holding_def Let_def)
            next
              case c
              from nb have n: "holding_null_fields p = []" "holding_blank_fields p = []" by blast+
              show ?thesis
                by (rule patched [OF x n owner dup Inr [unfolded r] c(1) refl c(2)])
                  (use all c in \<open>simp add: patch_holding_def Let_def\<close>)
            qed
          qed
        qed
      qed
    qed
  qed
qed

lemma holding_owner_fields_name:
  "holding_owner_fields d h x p = Inr (Some (uid, name)) \<Longrightarrow> normalize_optional_text name = name"
  by (cases "resolve_owner_fields d h (get_or (hp_owner_user_id p) (hd_owner_user_id x))
             (get_or (hp_owner_name p) (hd_owner_name x)) ''HOLDING_OWNER_INVALID''")
    (auto simp: holding_owner_fields_def owner_fields_ok_def split: if_splits
      dest!: resolve_owner_fields_ok)

lemma row_update_distinct:
  assumes "unique_keys hd_id rows" and "distinct (map k rows)"
    and "\<And>y. y \<in> set rows \<Longrightarrow> hd_id y \<noteq> hd_id x \<Longrightarrow> k y \<noteq> k x"
  shows "distinct (map k (row_update hd_id (hd_id x) (\<lambda>_. x) rows))"
  using assms
proof (induction rows)
  case (Cons r rows)
  have IH: "distinct (map k (row_update hd_id (hd_id x) (\<lambda>_. x) rows))"
    using Cons by (simp add: unique_keys_def)
  show ?case
  proof (cases "hd_id r = hd_id x")
    case True
    with Cons.prems(1) have no: "\<forall>y \<in> set rows. hd_id y \<noteq> hd_id x"
      by (force simp: unique_keys_def image_iff)
    then have "row_update hd_id (hd_id x) (\<lambda>_. x) rows = rows"
      by (simp add: row_update_def map_idI)
    moreover have "k x \<notin> k ` set rows"
      using Cons.prems(3) no by (auto simp: image_iff) metis
    ultimately show ?thesis using True Cons.prems(2) by (simp add: row_update_def)
  next
    case False
    with Cons.prems(2,3) have "k r \<noteq> k (if hd_id y = hd_id x then x else y)" if "y \<in> set rows" for y
      using that by auto
    with False IH show ?thesis by (auto simp: row_update_def)
  qed
qed (simp add: row_update_def)

lemma delete_holding_keeps_inv:
  "holdings_inv ev d \<Longrightarrow> holdings_inv ev (outcome_db (delete_holding d ctx i))"
  by (auto simp: delete_holding_def holdings_inv_def unique_keys_filter distinct_map row_delete_def
      list_all_iff inj_on_def split: option.split)

subsection \<open>Identity\<close>

text \<open>An owner whose key the handlers and the index form alike.\<close>

definition plain_owner :: "holding \<Rightarrow> bool" where
  "plain_owner x \<longleftrightarrow>
     (case hd_owner_user_id x of
        None \<Rightarrow> True
      | Some i \<Rightarrow> i \<noteq> [] \<and> py_strip i = i \<and> take (length legacy_owner_prefix) i \<noteq> legacy_owner_prefix)
     \<and> sql_coalesce (hd_owner_name x) \<noteq> lit ''None''"

definition owner_index :: "env \<Rightarrow> holding \<Rightarrow> pystr" where
  "owner_index ev x = fst (snd (snd (snd (identity_index ev x))))"

lemma identity_index_eq_iff:
  "identity_index ev x = identity_index ev y \<longleftrightarrow>
     hd_household_id x = hd_household_id y \<and> hd_asset_type x = hd_asset_type y
     \<and> ev_sql_upper ev (ev_sql_trim ev (hd_market_symbol x)) = ev_sql_upper ev (ev_sql_trim ev (hd_market_symbol y))
     \<and> owner_index ev x = owner_index ev y
     \<and> ev_sql_trim ev (sql_coalesce (hd_account_name x)) = ev_sql_trim ev (sql_coalesce (hd_account_name y))"
  by (auto simp: identity_index_def owner_index_def Let_def)

lemma normalize_stripped:
  "stripped v \<Longrightarrow> normalize_optional_text v = (if sql_coalesce v = [] then None else Some (sql_coalesce v))"
  by (cases v) (auto simp: normalize_optional_text_def stripped_def sql_coalesce_def)

lemma take_prefix_append: "take (length xs) (xs @ ys) = xs"
  by simp

lemma owner_key_matches_index:
  assumes trim: "\<And>s. py_strip s = s \<Longrightarrow> ev_sql_trim ev s = s"
    and "plain_owner x" "plain_owner y" "stripped (hd_owner_name x)" "stripped (hd_owner_name y)"
  shows "same_owner_identity y (hd_owner_user_id x) (hd_owner_name x) \<longleftrightarrow> owner_index ev y = owner_index ev x"
proof -
  let ?legacy = "\<lambda>n. if n = [] then lit ''None'' else n"
  have key: "holding_owner_identity_key (hd_owner_user_id z) (hd_owner_name z) =
      (case hd_owner_user_id z of Some i \<Rightarrow> i | None \<Rightarrow> legacy_owner_prefix @ ?legacy (sql_coalesce (hd_owner_name z)))"
    and idx: "owner_index ev z =
      (case hd_owner_user_id z of Some i \<Rightarrow> i | None \<Rightarrow> legacy_owner_prefix @ sql_coalesce (hd_owner_name z))"
    if "plain_owner z" "stripped (hd_owner_name z)" for z
    using that trim
    by (auto simp: plain_owner_def holding_owner_identity_key_def owner_index_def identity_index_def
        normalize_stripped normalize_optional_text_stripped stripped_def split: option.splits)
  have mixed: "i \<noteq> legacy_owner_prefix @ t" if "plain_owner z" "hd_owner_user_id z = Some i" for z i t
    using that take_prefix_append [of legacy_owner_prefix t] by (auto simp: plain_owner_def)
  have none: "sql_coalesce (hd_owner_name x) \<noteq> lit ''None''" "sql_coalesce (hd_owner_name y) \<noteq> lit ''None''"
    using assms(2,3) by (simp_all add: plain_owner_def)
  show ?thesis
    unfolding same_owner_identity_def key [OF assms(2,4)] key [OF assms(3,5)] idx [OF assms(2,4)] idx [OF assms(3,5)]
    using none mixed [OF assms(2)] mixed [OF assms(3)] mixed [OF assms(2), symmetric] mixed [OF assms(3), symmetric]
    by (auto split: option.splits)
qed

lemma load_holding_after_write:
  assumes "row_get hd_id (hd_id x) (db_holdings c) \<noteq> None"
  shows "\<exists>row. load_holding_read (write_holding c x new) (hd_id x) = Inr row \<and> hr_version row = hd_version x"
proof -
  have "row_get hd_id (hd_id x) (row_update hd_id (hd_id x) (\<lambda>_. x) rows) = Some x"
    if "row_get hd_id (hd_id x) rows \<noteq> None" for rows
    using that by (induction rows) (auto simp: row_update_def)
  with assms show ?thesis
    by (auto simp: load_holding_read_def write_holding_def to_holding_read_def)
qed

end
