(* ===== verification/Holding_Claims.thy ===== *)
theory Holding_Claims
  imports Holdings Samples
begin

text \<open>
  The properties of the holding handlers: the invariant of the table, the agreement between
  the search for duplicates and the unique index, what a creation answers, and two places
  where the code departs from what the index and the versions mean.
\<close>

subsection \<open>Samples\<close>

definition sample_holding :: "string \<Rightarrow> string \<Rightarrow> pystr option \<Rightarrow> holding" where
  "sample_holding i symbol owner =
     \<lparr>hd_id = lit i, hd_household_id = lit ''h1'', hd_asset_type = Asset_stock, hd_symbol = lit symbol,
      hd_market_symbol = lit symbol, hd_name = lit ''Fund'', hd_type_key = None, hd_category = lit ''etf'',
      hd_owner_user_id = None, hd_owner_name = owner, hd_account_name = Some [], hd_quantity = 3,
      hd_average_cost = 10, hd_currency = lit ''KRW'', hd_display_order = 1, hd_source_ref = None,
      hd_version = 4, hd_updated_at = 0\<rparr>"

definition sample_holdings_db :: db where
  "sample_holdings_db =
     sample_db\<lparr>db_holdings := [sample_holding ''s1'' ''AAA'' (Some []), sample_holding ''s2'' ''BBB'' (Some (lit ''Ann''))]\<rparr>"

definition sample_holding_create :: "string \<Rightarrow> pystr option \<Rightarrow> holding_create" where
  "sample_holding_create symbol owner =
     \<lparr>hc_asset_type = Asset_stock, hc_type_key = None, hc_symbol = lit symbol, hc_market_symbol = lit symbol,
      hc_name = lit ''Fund'', hc_category = lit ''etf'', hc_owner_user_id = None, hc_owner_name = owner,
      hc_account_name = None, hc_quantity = 1, hc_average_cost = 0, hc_currency = lit ''krw'',
      hc_display_order = None\<rparr>"

lemmas holding_sample_defs = sample_holding_def sample_holdings_db_def sample_holding_create_def sample_env_def

definition account_null_patch :: "int \<Rightarrow> holding_patch" where
  "account_null_patch base =
     \<lparr>hp_base_version = base, hp_type_key = None, hp_market_symbol = None, hp_name = None, hp_category = None,
      hp_owner_user_id = None, hp_owner_name = None, hp_account_name = Some None, hp_quantity = None,
      hp_average_cost = None, hp_currency = None, hp_display_order = None\<rparr>"

lemma sample_engine:
  "py_strip s = s \<Longrightarrow> ev_sql_trim sample_env s = s" "py_upper s = s \<Longrightarrow> ev_sql_upper sample_env s = s"
  by (simp_all add: sample_env_def)

subsection \<open>The properties\<close>

text \<open>C9 (creation keeps the holdings invariant): a creation with a validated payload keeps
identifiers and identities of the holdings unique and every holding well formed (normal market
symbol, positive quantity, supported currency, owner and account never null), also when other
sessions commit between the check and the commit.\<close>

theorem create_holding_inv:
  assumes "holdings_inv ev d" and "holdings_inv ev (w d)" and "validate_holding_create raw = Some p"
    and fresh: "ev_new_id ev \<notin> hd_id ` set (db_holdings (w d))"
  shows "holdings_inv ev (outcome_db (create_holding ev w d ctx p))"
proof (cases rule: create_holding_cases [of ev w d ctx p])
  case (created uid name x c)
  have "normalize_optional_text name = name"
    using resolve_owner_fields_ok [OF created(1)] by (simp add: owner_fields_ok_def)
  with new_holding_ok [OF assms(3,1)] have "holding_ok x" by (simp add: created(2))
  moreover have "hd_id x = ev_new_id ev" "hd_owner_name x \<noteq> None" "hd_account_name x \<noteq> None"
    by (simp_all add: created(2) new_holding_def)
  moreover from this fresh created(4) have "identity_index ev x \<notin> identity_index ev ` set (db_holdings (w d))"
    using identity_conflict_insert [of x "w d" ev] by simp
  ultimately have "holdings_inv ev c"
    using assms(2) fresh by (simp add: holdings_inv_def created(5) unique_keys_append row_get_None_iff)
  with created(6) show ?thesis by simp
qed (use assms(1,2) in simp_all)

lemma create_holding_inv_witness:
  "holdings_inv sample_env (outcome_db (create_holding sample_env id sample_holdings_db sample_ctx
     (the (validate_holding_create (sample_holding_create ''ccc'' None)))))"
proof (rule create_holding_inv)
  show "holdings_inv sample_env sample_holdings_db" by code_simp
  then show "holdings_inv sample_env (id sample_holdings_db)" by simp
  have "validate_holding_create (sample_holding_create ''ccc'' None) \<noteq> None" by code_simp
  then show "validate_holding_create (sample_holding_create ''ccc'' None) =
      Some (the (validate_holding_create (sample_holding_create ''ccc'' None)))" by simp
  show "ev_new_id sample_env \<notin> hd_id ` set (db_holdings (id sample_holdings_db))" by code_simp
qed

text \<open>(patching keeps the holdings invariant): so does a patch with a validated payload.\<close>

theorem patch_holding_inv:
  assumes "holdings_inv ev d" and "holdings_inv ev (w d)" and "validate_holding_patch raw = Some p"
  shows "holdings_inv ev (outcome_db (patch_holding ev w d ctx user_id i p))"
proof (cases rule: patch_holding_cases [of ev w d ctx user_id i p])
  case (patched x owner merged flds x' new x'')
  from assms(1) patched(1) have x: "holding_ok x" "hd_owner_name x \<noteq> None" "hd_account_name x \<noteq> None"
    by (auto simp: holdings_inv_def list_all_iff)
  have "normalize_optional_text name = name" if "owner = Some (uid, name)" for uid name
    using holding_owner_fields_name patched(6) that by blast
  then have "list_all holding_update_ok (holding_patch_data p owner)"
    by (rule holding_patch_data_ok [OF assms(3) patched(5)])
  from merged_holding_ok [OF patched(8) this x(1)] have ok: "holding_ok x''"
    using blank_missing_ok [of x' flds] by (simp add: patched(10) holding_ok_def)
  have "hd_owner_name x' = None \<Longrightarrow> ''owner_name'' \<in> set flds"
    using hd_patch.merge_keeps [OF patched(8), of "Hupd_owner_name None"] x(2) by auto
  moreover have "hd_account_name x' = None \<Longrightarrow> ''account_name'' \<in> set flds"
    using hd_patch.merge_keeps [OF patched(8), of "Hupd_account_name None"] x(3) by auto
  ultimately have total: "hd_owner_name x'' \<noteq> None" "hd_account_name x'' \<noteq> None"
    using blank_missing_total [of x' flds] by (simp_all add: patched(10))
  have u: "unique_keys hd_id (db_holdings (w d))" "distinct (map (identity_index ev) (db_holdings (w d)))"
    "\<forall>y \<in> set (db_holdings (w d)). holding_ok y \<and> hd_owner_name y \<noteq> None \<and> hd_account_name y \<noteq> None"
    using assms(2) by (simp_all add: holdings_inv_def list_all_iff)
  have "map hd_id (row_update hd_id (hd_id x'') (\<lambda>_. x'') (db_holdings (w d))) = map hd_id (db_holdings (w d))"
    by (simp add: row_update_def)
  then have "unique_keys hd_id (row_update hd_id (hd_id x'') (\<lambda>_. x'') (db_holdings (w d)))"
    using u(1) by (simp only: unique_keys_def)
  moreover have "distinct (map (identity_index ev) (row_update hd_id (hd_id x'') (\<lambda>_. x'') (db_holdings (w d))))"
    by (rule row_update_distinct [OF u(1,2)]) (use patched(11) in \<open>auto simp: identity_conflict_def\<close>)
  moreover have "\<forall>y \<in> set (row_update hd_id (hd_id x'') (\<lambda>_. x'') (db_holdings (w d))).
      holding_ok y \<and> hd_owner_name y \<noteq> None \<and> hd_account_name y \<noteq> None"
    using u(3) ok total by (auto simp: set_row_update)
  ultimately have "holdings_inv ev (write_holding (w d) x'' new)"
    by (simp add: holdings_inv_def write_holding_def list_all_iff)
  with patched(12) show ?thesis by simp
qed (use assms(1,2) in simp_all)

lemma patch_holding_inv_witness:
  "holdings_inv sample_env (outcome_db (patch_holding sample_env id sample_holdings_db sample_ctx (lit ''u1'')
     (lit ''s1'') (the (validate_holding_patch (account_null_patch 4)))))"
proof (rule patch_holding_inv)
  show "holdings_inv sample_env sample_holdings_db" by code_simp
  then show "holdings_inv sample_env (id sample_holdings_db)" by simp
  have "validate_holding_patch (account_null_patch 4) \<noteq> None" by code_simp
  then show "validate_holding_patch (account_null_patch 4) =
      Some (the (validate_holding_patch (account_null_patch 4)))" by simp
qed

text \<open>C10 (the duplicate check is the unique index, for plain owners): on well-formed rows none of
which has an owner called \<open>None\<close> or an owner's user identifier that is blank, padded or starts with the
marker of legacy owners, the search for a duplicate before the insertion finds one exactly when the unique index
would refuse the new row; \<open>trim\<close> and \<open>upper\<close> of the engine need only leave normal text alone.  With an
owner called \<open>None\<close> the two differ (\<open>none_owner_collision\<close>).\<close>

theorem duplicate_check_matches_index:
  assumes trim: "\<And>s. py_strip s = s \<Longrightarrow> ev_sql_trim ev s = s"
    and upper: "\<And>s. py_upper s = s \<Longrightarrow> ev_sql_upper ev s = s"
    and "holdings_inv ev d" and "\<And>y. y \<in> set (db_holdings d) \<Longrightarrow> plain_owner y"
    and "holding_ok x" and "plain_owner x" and "hd_id x \<notin> hd_id ` set (db_holdings d)"
  shows "find_duplicate_holding ev d (hd_household_id x) (hd_asset_type x) (hd_market_symbol x)
      (hd_owner_user_id x) (hd_owner_name x) (sql_coalesce (hd_account_name x)) None \<noteq> None
    \<longleftrightarrow> identity_conflict ev d x"
proof -
  have row: "(hd_household_id y = hd_household_id x \<and> hd_asset_type y = hd_asset_type x
        \<and> ev_sql_upper ev (ev_sql_trim ev (hd_market_symbol y)) = hd_market_symbol x
        \<and> ev_sql_trim ev (sql_coalesce (hd_account_name y)) = sql_coalesce (hd_account_name x)
        \<and> same_owner_identity y (hd_owner_user_id x) (hd_owner_name x))
      \<longleftrightarrow> identity_index ev y = identity_index ev x" if y: "y \<in> set (db_holdings d)" for y
  proof -
    have "holding_ok y" using assms(3) y by (auto simp: holdings_inv_def list_all_iff)
    with owner_key_matches_index [OF trim assms(6) assms(4) [OF y]] assms(5) trim upper
    show ?thesis
      by (auto simp: identity_index_eq_iff holding_ok_def stripped_def)
  qed
  have "find_duplicate_holding ev d (hd_household_id x) (hd_asset_type x) (hd_market_symbol x)
      (hd_owner_user_id x) (hd_owner_name x) (sql_coalesce (hd_account_name x)) None \<noteq> None
    \<longleftrightarrow> (\<exists>y \<in> set (db_holdings d). hd_household_id y = hd_household_id x \<and> hd_asset_type y = hd_asset_type x
        \<and> ev_sql_upper ev (ev_sql_trim ev (hd_market_symbol y)) = hd_market_symbol x
        \<and> ev_sql_trim ev (sql_coalesce (hd_account_name y)) = sql_coalesce (hd_account_name x)
        \<and> same_owner_identity y (hd_owner_user_id x) (hd_owner_name x))"
    using assms(5)
    by (simp add: find_duplicate_holding_def find_None_iff truthy_text_def normalize_identity_text_def
        holding_ok_def stripped_def) blast
  also have "\<dots> \<longleftrightarrow> (\<exists>y \<in> set (db_holdings d). identity_index ev y = identity_index ev x)"
    using row by blast
  also have "\<dots> \<longleftrightarrow> identity_conflict ev d x"
    using assms(7) unfolding identity_conflict_def image_iff by metis
  finally show ?thesis .
qed

lemma duplicate_check_matches_index_witness:
  "identity_conflict sample_env sample_holdings_db (sample_holding ''s3'' ''BBB'' (Some (lit ''Ann'')))"
proof -
  let ?x = "sample_holding ''s3'' ''BBB'' (Some (lit ''Ann''))"
  have 1: "holdings_inv sample_env sample_holdings_db" "holding_ok ?x" "plain_owner ?x"
    "hd_id ?x \<notin> hd_id ` set (db_holdings sample_holdings_db)"
    "list_all plain_owner (db_holdings sample_holdings_db)" by code_simp+
  from 1(5) have 2: "\<And>y. y \<in> set (db_holdings sample_holdings_db) \<Longrightarrow> plain_owner y"
    by (simp add: list_all_iff)
  have "find_duplicate_holding sample_env sample_holdings_db (hd_household_id ?x) (hd_asset_type ?x)
      (hd_market_symbol ?x) (hd_owner_user_id ?x) (hd_owner_name ?x) (sql_coalesce (hd_account_name ?x)) None \<noteq> None"
    by code_simp
  with duplicate_check_matches_index [OF sample_engine 1(1) 2 1(2-4)] show ?thesis by blast
qed

text \<open>(the owner called \<open>None\<close>): a new holding whose legacy owner is called \<open>None\<close> is refused
as a duplicate of the holding without an owner, although the unique index tells them apart.\<close>

theorem none_owner_collision:
  assumes "y \<in> set (db_holdings d)" and "hd_owner_user_id y = None" and "stripped (hd_owner_name y)"
    and "sql_coalesce (hd_owner_name y) = []"
    and "hd_household_id y = hh_id (fst ctx)" and "hd_asset_type y = hc_asset_type p"
    and "ev_sql_upper ev (ev_sql_trim ev (hd_market_symbol y)) = py_upper (py_strip (hc_market_symbol p))"
    and "ev_sql_trim ev (sql_coalesce (hd_account_name y)) = normalize_identity_text (hc_account_name p)"
    and "hc_owner_user_id p = None" and "hc_owner_name p = Some (lit ''None'')"
    and "\<And>s. py_strip s = s \<Longrightarrow> ev_sql_trim ev s = s"
  shows "create_holding ev w d ctx p = fail d already_exists
    \<and> identity_index ev y \<noteq> identity_index ev (new_holding ev (hh_id (fst ctx)) p None (Some (lit ''None'')) k)"
proof -
  have n: "normalize_optional_text (Some (lit ''None'')) = Some (lit ''None'')" "py_strip (lit ''None'') = lit ''None''"
    by (simp_all add: normalize_optional_text_def lit_def py_strip_def strip_by_def py_space_def)
  have own: "resolve_owner_fields d h None (Some (lit ''None'')) c = Inr (None, Some (lit ''None''))" for h c
    by (simp add: resolve_owner_fields_def n)
  have "same_owner_identity y None (Some (lit ''None''))"
    using assms(2,3,4) by (simp add: same_owner_identity_def holding_owner_identity_key_def n normalize_stripped)
  then have "find_duplicate_holding ev d (hh_id (fst ctx)) (hc_asset_type p) (py_upper (py_strip (hc_market_symbol p)))
      None (Some (lit ''None'')) (normalize_identity_text (hc_account_name p)) None \<noteq> None"
    using assms(1,5-8)
    by (auto simp: find_duplicate_holding_def find_None_iff truthy_text_def normalize_identity_text_def py_strip_upper)
  moreover have "ev_sql_trim ev (lit ''None'') \<noteq> ev_sql_trim ev []"
    using assms(11) n by simp
  ultimately show ?thesis
    using assms(2,4,9,10) own
    by (auto simp: create_holding_def identity_index_def new_holding_def sql_coalesce_def split: option.splits)
qed

lemma none_owner_collision_witness:
  "fst (create_holding sample_env id sample_holdings_db sample_ctx
     (sample_holding_create ''AAA'' (Some (lit ''None'')))) = Inl already_exists"
proof -
  let ?y = "sample_holding ''s1'' ''AAA'' (Some [])"
  have y: "?y \<in> set (db_holdings sample_holdings_db)" by (simp add: sample_holdings_db_def)
  have "hd_owner_user_id ?y = None" "stripped (hd_owner_name ?y)" "sql_coalesce (hd_owner_name ?y) = []"
    "hd_household_id ?y = hh_id (fst sample_ctx)"
    "hd_asset_type ?y = hc_asset_type (sample_holding_create ''AAA'' (Some (lit ''None'')))"
    "ev_sql_upper sample_env (ev_sql_trim sample_env (hd_market_symbol ?y)) =
       py_upper (py_strip (hc_market_symbol (sample_holding_create ''AAA'' (Some (lit ''None'')))))"
    "ev_sql_trim sample_env (sql_coalesce (hd_account_name ?y)) =
       normalize_identity_text (hc_account_name (sample_holding_create ''AAA'' (Some (lit ''None''))))"
    "hc_owner_user_id (sample_holding_create ''AAA'' (Some (lit ''None''))) = None"
    "hc_owner_name (sample_holding_create ''AAA'' (Some (lit ''None''))) = Some (lit ''None'')"
    by code_simp+
  from none_owner_collision [OF y this sample_engine(1)] show ?thesis by simp
qed

text \<open>(a null for a blank account counts as a change): clearing the account of a holding
whose account is already blank raises its version and sends an event, though
nothing but version and time stamp differs afterwards.\<close>

theorem blank_account_patch_bumps_version:
  assumes inv: "holdings_inv ev d" and x: "x \<in> set (db_holdings d)" "hd_household_id x = hh_id (fst ctx)"
    and blank: "hd_account_name x = Some []"
    and dup: "target_duplicate ev d (hh_id (fst ctx)) x (account_null_patch (hd_version x)) None = None"
  shows "\<exists>row d'. patch_holding ev id d ctx user_id (hd_id x) (account_null_patch (hd_version x)) =
      (Inr row, d', [(hh_id (fst ctx), Holding_patched (hd_id x) (hd_version x + 1) [''account_name''] False)])
    \<and> db_holdings d' = row_update hd_id (hd_id x)
        (\<lambda>_. x\<lparr>hd_version := hd_version x + 1, hd_updated_at := ev_db_now ev\<rparr>) (db_holdings d)"
proof -
  let ?p = "account_null_patch (hd_version x)" and ?h = "hh_id (fst ctx)"
  let ?y = "x\<lparr>hd_version := hd_version x + 1, hd_updated_at := ev_db_now ev\<rparr>"
  have u: "unique_keys hd_id (db_holdings d)" and dist: "distinct (map (identity_index ev) (db_holdings d))"
    using inv by (simp_all add: holdings_inv_def)
  have f: "find (\<lambda>y. hd_id y = hd_id x \<and> hd_household_id y = ?h) (db_holdings d) = Some x"
    by (rule find_unique_key [OF u x(1)]) (use x(2) in simp_all)
  have no: "holding_null_fields ?p = []" "holding_blank_fields ?p = []" "holding_owner_fields d ?h x ?p = Inr None"
    by (simp_all add: holding_null_fields_def holding_blank_fields_def holding_owner_fields_def
        account_null_patch_def is_null_def is_blank_def)
  have data: "holding_patch_data ?p None = [Hupd_account_name None]"
    by (simp add: holding_patch_data_def account_null_patch_def required_update_def nullable_update_def)
  have base: "hp_base_version ?p = hd_version x" by (simp add: account_null_patch_def)
  obtain new where m: "merge_patch_or_raise hd_ops (db_patch_logs d) x ?h (Some user_id) (hp_base_version ?p)
      (holding_patch_data ?p None) =
      Inr (False, [''account_name''], x\<lparr>hd_account_name := None, hd_version := hd_version x + 1\<rparr>, new)"
    unfolding data base
    by (simp add: merge_patch_or_raise_def effective_patch_def blank apply_updates_def Let_def)
  have y: "(blank_missing [''account_name''] (x\<lparr>hd_account_name := None, hd_version := hd_version x + 1\<rparr>))
      \<lparr>hd_updated_at := ev_db_now ev\<rparr> = ?y"
    using blank by (simp add: blank_missing_def)
  have same: "identity_index ev ?y = identity_index ev x" by (simp add: identity_index_def Let_def)
  have nc: "\<not> identity_conflict ev d ?y"
  proof -
    have "z = x" if "z \<in> set (db_holdings d)" "identity_index ev z = identity_index ev x" for z
      using dist x(1) that by (auto simp: distinct_map inj_on_def)
    then show ?thesis by (auto simp: identity_conflict_def same)
  qed
  have "row_get hd_id (hd_id ?y) (db_holdings d) \<noteq> None"
    using row_get_unique [OF u x(1)] by simp
  from load_holding_after_write [OF this] obtain row where
    row: "load_holding_read (write_holding d ?y new) (hd_id x) = Inr row" by auto
  have "patch_holding ev id d ctx user_id (hd_id x) ?p =
      answer_with (write_holding d ?y new)
        [(?h, Holding_patched (hd_id x) (hd_version x + 1) [''account_name''] False)] (Inr row)"
    using f no dup m y nc row by (simp add: patch_holding_def Let_def)
  then show ?thesis
    by (simp add: write_holding_def)
qed

lemma blank_account_patch_bumps_version_witness:
  "\<exists>d'. fst (snd (patch_holding sample_env id sample_holdings_db sample_ctx (lit ''u1'')
        (hd_id (sample_holding ''s1'' ''AAA'' (Some []))) (account_null_patch (hd_version (sample_holding ''s1'' ''AAA'' (Some [])))))) = d'
     \<and> map hd_version (db_holdings d') = [5, 4]"
proof -
  let ?x = "sample_holding ''s1'' ''AAA'' (Some [])"
  have x: "?x \<in> set (db_holdings sample_holdings_db)" by (simp add: sample_holdings_db_def)
  have "holdings_inv sample_env sample_holdings_db" "hd_household_id ?x = hh_id (fst sample_ctx)"
    "hd_account_name ?x = Some []"
    "target_duplicate sample_env sample_holdings_db (hh_id (fst sample_ctx)) ?x (account_null_patch (hd_version ?x)) None = None"
    by code_simp+
  from blank_account_patch_bumps_version [OF this(1) x this(2-4), of "lit ''u1''"] obtain row d' where
    o: "patch_holding sample_env id sample_holdings_db sample_ctx (lit ''u1'') (hd_id ?x)
        (account_null_patch (hd_version ?x)) =
        (Inr row, d', [(hh_id (fst sample_ctx), Holding_patched (hd_id ?x) (hd_version ?x + 1) [''account_name''] False)])"
    and d': "db_holdings d' = row_update hd_id (hd_id ?x)
      (\<lambda>_. ?x\<lparr>hd_version := hd_version ?x + 1, hd_updated_at := ev_db_now sample_env\<rparr>) (db_holdings sample_holdings_db)"
    by blast
  have "lit ''s2'' \<noteq> lit ''s1''" by code_simp
  with d' have "map hd_version (db_holdings d') = [5, 4]"
    by (simp add: row_update_def sample_holdings_db_def sample_holding_def)
  with o show ?thesis by simp
qed

text \<open>(what a creation answers): a successful creation appends exactly one row, the one the
payload and the resolved owner describe, answers that row and announces it once.\<close>

theorem created_holding_is_answered:
  assumes "ev_new_id ev \<notin> hd_id ` set (db_holdings (w d))"
    and "create_holding ev w d ctx p = (Inr row, d', evs)"
  shows "\<exists>uid name x. owner_fields_ok d (hh_id (fst ctx)) uid name
    \<and> x = new_holding ev (hh_id (fst ctx)) p uid name
        (order_or (hc_display_order p) (next_display_order d (hh_id (fst ctx))))
    \<and> d' = set_holdings (db_holdings (w d) @ [x]) (w d)
    \<and> row = to_holding_read x (linked_owner_name (w d) uid)
    \<and> evs = [(hh_id (fst ctx), Holding_created (ev_new_id ev) 1)]"
proof (cases rule: create_holding_cases [of ev w d ctx p])
  case (created uid name x c)
  have x: "hd_id x = ev_new_id ev" "hd_owner_user_id x = uid" by (simp_all add: created(2) new_holding_def)
  with assms(1) have "row_get hd_id (hd_id x) (db_holdings (w d)) = None"
    by (simp add: row_get_None_iff)
  then have "load_holding_read c (hd_id x) = Inr (to_holding_read x (linked_owner_name c uid))"
    by (simp add: load_holding_read_def created(5) row_get_append x(2))
  moreover have "linked_owner_name c uid = linked_owner_name (w d) uid"
    by (simp add: linked_owner_name_def created(5) cong: option.case_cong)
  ultimately have "row = to_holding_read x (linked_owner_name (w d) uid)" "d' = c"
    "evs = [(hh_id (fst ctx), Holding_created (ev_new_id ev) 1)]"
    using assms(2) created(6) x by simp_all
  with created(2,5) resolve_owner_fields_ok [OF created(1)] show ?thesis by blast
qed (use assms(2) in \<open>simp_all add: fail_def\<close>)

lemma created_holding_is_answered_witness:
  "\<exists>row. fst (create_holding sample_env id sample_holdings_db sample_ctx (sample_holding_create ''ccc'' None)) = Inr row
     \<and> hr_id row = lit ''t9'' \<and> hr_owner_user_id row = None"
proof -
  let ?out = "create_holding sample_env id sample_holdings_db sample_ctx (sample_holding_create ''ccc'' None)"
  have f: "ev_new_id sample_env \<notin> hd_id ` set (db_holdings (id sample_holdings_db))" by code_simp
  have "case fst ?out of Inr row \<Rightarrow> hr_owner_user_id row = None | Inl _ \<Rightarrow> False" by code_simp
  then obtain row d' evs where o: "?out = (Inr row, d', evs)" "hr_owner_user_id row = None"
    by (cases ?out) (auto split: sum.splits)
  from created_holding_is_answered [OF f o(1)] have "hr_id row = ev_new_id sample_env"
    by (auto simp: to_holding_read_def new_holding_def)
  with o show ?thesis by (simp add: sample_env_def)
qed

end
