(* ===== verification/Categories.thy ===== *)
theory Categories
  imports Transactions
begin

text \<open>
  The handlers of \<open>backend/app/api/routes/categories.py\<close>: usage counts, the listing by month,
  creation, renaming of one category or of a whole major group, and deletion, with the payload
  schemas.  A request that writes commits in the state \<open>interleave d\<close>, where other sessions have
  committed after its checks.  The lemmas show that the table keeps its uniqueness rule and that
  no operation breaks the category link of a transaction.
\<close>

subsection \<open>Payloads and answers\<close>

record category_read =
  cr_id :: pystr
  cr_flow_type :: flow_type
  cr_major :: pystr
  cr_minor :: pystr
  cr_sort_order :: int
  cr_usage_count :: nat

record category_create =
  cc_flow_type :: flow_type
  cc_major :: pystr
  cc_minor :: pystr

record category_patch =
  cp_major :: "pystr option option"
  cp_minor :: "pystr option option"

record category_rename_major =
  rm_flow_type :: flow_type
  rm_current_major :: pystr
  rm_next_major :: pystr

record usage_entry =
  ue_transaction_id :: pystr
  ue_occurred_on :: date
  ue_amount :: rat
  ue_memo :: pystr
  ue_owner_name :: "pystr option"

record usage_month =
  um_month :: pystr
  um_total_amount :: rat
  um_count :: nat
  um_items :: "usage_entry list"

text \<open>A category text: length 1 to 120 as sent, not blank, stripped.\<close>

definition category_text :: "pystr \<Rightarrow> pystr option" where
  "category_text v =
     (let t = py_strip v in if 1 \<le> length v \<and> length v \<le> 120 \<and> t \<noteq> [] then Some t else None)"

definition validate_category_create :: "category_create \<Rightarrow> category_create option" where
  "validate_category_create p =
     (case (category_text (cc_major p), category_text (cc_minor p)) of
        (Some a, Some b) \<Rightarrow> Some (p\<lparr>cc_major := a, cc_minor := b\<rparr>)
      | _ \<Rightarrow> None)"

definition validate_category_patch :: "category_patch \<Rightarrow> category_patch option" where
  "validate_category_patch p =
     (if given (\<lambda>v. category_text v \<noteq> None) (cp_major p) \<and> given (\<lambda>v. category_text v \<noteq> None) (cp_minor p)
         \<and> (cp_major p \<noteq> None \<or> cp_minor p \<noteq> None)
      then Some (p\<lparr>cp_major := map_option (\<lambda>v. Option.bind v category_text) (cp_major p),
                   cp_minor := map_option (\<lambda>v. Option.bind v category_text) (cp_minor p)\<rparr>)
      else None)"

definition validate_category_rename_major :: "category_rename_major \<Rightarrow> category_rename_major option" where
  "validate_category_rename_major p =
     (case (category_text (rm_current_major p), category_text (rm_next_major p)) of
        (Some a, Some b) \<Rightarrow> Some (p\<lparr>rm_current_major := a, rm_next_major := b\<rparr>)
      | _ \<Rightarrow> None)"

subsection \<open>Reading categories\<close>

definition duplicate_category_error :: http_error where
  "duplicate_category_error = AppError 409 ''CATEGORY_DUPLICATE''"

definition to_category_read :: "category \<Rightarrow> nat \<Rightarrow> category_read" where
  "to_category_read k n =
     \<lparr>cr_id = ct_id k, cr_flow_type = ct_flow_type k, cr_major = ct_major k, cr_minor = ct_minor k,
      cr_sort_order = ct_sort_order k, cr_usage_count = n\<rparr>"

text \<open>\<open>func.count(Transaction.id)\<close> over the transactions linked to the category.\<close>

definition usage_count :: "db \<Rightarrow> pystr \<Rightarrow> nat" where
  "usage_count d category_id = length (filter (\<lambda>t. tx_category_id t = Some category_id) (db_transactions d))"

definition category_usage_map :: "db \<Rightarrow> pystr \<Rightarrow> (pystr \<times> nat) list" where
  "category_usage_map d household_id =
     map (\<lambda>k. (ct_id k, usage_count d (ct_id k)))
       (filter (\<lambda>k. ct_household_id k = household_id) (db_categories d))"

definition load_household_category :: "db \<Rightarrow> pystr \<Rightarrow> pystr \<Rightarrow> http_error + category" where
  "load_household_category d household_id category_id =
     (case row_get ct_id category_id (db_categories d) of
        None \<Rightarrow> Inl (HttpDetail 404 ''category not found'')
      | Some k \<Rightarrow> if ct_household_id k = household_id then Inr k
                  else Inl (HttpDetail 404 ''category not found''))"

text \<open>The order of the enumeration in the database is that of its declaration.\<close>

fun flow_position :: "flow_type \<Rightarrow> nat" where
  "flow_position Flow_income = 0"
| "flow_position Flow_expense = 1"
| "flow_position Flow_investment = 2"
| "flow_position Flow_transfer = 3"

definition list_categories :: "db \<Rightarrow> ctx \<Rightarrow> category_read list" where
  "list_categories d ctx =
     map (\<lambda>k. to_category_read k (usage_count d (ct_id k)))
       (sort_key (\<lambda>k. (flow_position (ct_flow_type k), ct_sort_order k, ct_major k, ct_minor k))
          (filter (\<lambda>k. ct_household_id k = hh_id (fst ctx)) (db_categories d)))"

text \<open>\<open>strftime("%Y-%m")\<close> for years of four digits.\<close>

definition month_key :: "date \<Rightarrow> pystr" where
  "month_key dt =
     (case dt of (y, m, _) \<Rightarrow>
        [48 + y div 1000, 48 + (y div 100) mod 10, 48 + (y div 10) mod 10, 48 + y mod 10, 45,
         48 + m div 10, 48 + m mod 10])"

definition usage_entry_of :: "transaction \<Rightarrow> usage_entry" where
  "usage_entry_of t =
     \<lparr>ue_transaction_id = tx_id t, ue_occurred_on = tx_occurred_on t, ue_amount = tx_amount t,
      ue_memo = tx_memo t, ue_owner_name = normalize_optional_text (tx_owner_name t)\<rparr>"

definition usage_rows :: "db \<Rightarrow> pystr \<Rightarrow> pystr \<Rightarrow> transaction list" where
  "usage_rows d household_id category_id =
     sort_key (\<lambda>t. (date_desc (tx_occurred_on t), - tx_created_at t))
       (filter (\<lambda>t. tx_household_id t = household_id \<and> tx_category_id t = Some category_id) (db_transactions d))"

text \<open>
  The two dictionaries of the handler: every row adds its amount and its entry to its month.
  The keys are answered in descending order.
\<close>

definition usage_step ::
  "transaction \<Rightarrow> (pystr \<Rightarrow> rat) \<times> (pystr \<Rightarrow> usage_entry list) \<Rightarrow> (pystr \<Rightarrow> rat) \<times> (pystr \<Rightarrow> usage_entry list)" where
  "usage_step t acc =
     (case acc of (totals, items) \<Rightarrow>
        let k = month_key (tx_occurred_on t)
        in (totals(k := totals k + tx_amount t), items(k := items k @ [usage_entry_of t])))"

definition list_category_usage :: "db \<Rightarrow> ctx \<Rightarrow> pystr \<Rightarrow> http_error + usage_month list" where
  "list_category_usage d ctx category_id =
     (case load_household_category d (hh_id (fst ctx)) category_id of
        Inl e \<Rightarrow> Inl e
      | Inr k \<Rightarrow>
          (let rows = usage_rows d (hh_id (fst ctx)) (ct_id k);
               acc = fold usage_step rows (\<lambda>_. 0, \<lambda>_. []);
               months = rev (sort (dedup (map (\<lambda>t. month_key (tx_occurred_on t)) rows)))
           in Inr (map (\<lambda>m. \<lparr>um_month = m, um_total_amount = fst acc m, um_count = length (snd acc m),
                              um_items = snd acc m\<rparr>) months)))"

subsection \<open>The unique constraint\<close>

definition category_key :: "category \<Rightarrow> pystr \<times> flow_type \<times> pystr \<times> pystr" where
  "category_key k = (ct_household_id k, ct_flow_type k, ct_major k, ct_minor k)"

definition categories_unique :: "category list \<Rightarrow> bool" where
  "categories_unique ks \<longleftrightarrow> distinct (map category_key ks)"

text \<open>A write the constraint refuses raises \<open>IntegrityError\<close>, which no handler here catches.\<close>

definition commit_categories :: "db \<Rightarrow> category list \<Rightarrow> http_error + db" where
  "commit_categories c ks = (if categories_unique ks then Inr (set_categories ks c) else Inl ServerError)"

subsection \<open>Writing categories\<close>

definition next_sort_order :: "db \<Rightarrow> pystr \<Rightarrow> int" where
  "next_sort_order d household_id =
     (let orders = map ct_sort_order (filter (\<lambda>k. ct_household_id k = household_id) (db_categories d))
      in (if orders = [] then 0 else Max (set orders)) + 1)"

definition create_category ::
  "env \<Rightarrow> (db \<Rightarrow> db) \<Rightarrow> db \<Rightarrow> ctx \<Rightarrow> category_create \<Rightarrow> category_read outcome" where
  "create_category ev interleave d ctx p =
     (let household_id = hh_id (fst ctx);
          k = \<lparr>ct_id = ev_new_id ev, ct_household_id = household_id, ct_flow_type = cc_flow_type p,
               ct_major = cc_major p, ct_minor = cc_minor p, ct_sort_order = next_sort_order d household_id,
               ct_created_at = ev_db_now ev\<rparr>
      in if category_key k \<in> category_key ` set (db_categories d) then fail d duplicate_category_error
         else (let c = interleave d
               in case commit_categories c (db_categories c @ [k]) of
                    Inl e \<Rightarrow> fail c e
                  | Inr c' \<Rightarrow> done_with c' [] (to_category_read k 0)))"

definition patched_category :: "category_patch \<Rightarrow> category \<Rightarrow> category" where
  "patched_category p k =
     k\<lparr>ct_major := (case cp_major p of Some (Some v) \<Rightarrow> v | _ \<Rightarrow> ct_major k),
       ct_minor := (case cp_minor p of Some (Some v) \<Rightarrow> v | _ \<Rightarrow> ct_minor k)\<rparr>"

text \<open>
  An update of a row that another session has deleted fails (\<open>StaleDataError\<close>, or the refresh
  after the commit), which no handler catches.
\<close>

text \<open>The session writes the columns whose value it has changed, and no others.\<close>

definition write_category :: "category \<Rightarrow> category \<Rightarrow> category \<Rightarrow> category" where
  "write_category old new r =
     r\<lparr>ct_major := (if ct_major new = ct_major old then ct_major r else ct_major new),
       ct_minor := (if ct_minor new = ct_minor old then ct_minor r else ct_minor new)\<rparr>"

definition patch_category ::
  "(db \<Rightarrow> db) \<Rightarrow> db \<Rightarrow> ctx \<Rightarrow> pystr \<Rightarrow> category_patch \<Rightarrow> category_read outcome" where
  "patch_category interleave d ctx category_id p =
     (case load_household_category d (hh_id (fst ctx)) category_id of
        Inl e \<Rightarrow> fail d e
      | Inr k \<Rightarrow>
          (let k' = patched_category p k
           in if \<exists>y \<in> set (db_categories d). category_key y = category_key k' \<and> ct_id y \<noteq> ct_id k
              then fail d duplicate_category_error
              else (let c = interleave d
                    in case row_get ct_id (ct_id k) (db_categories c) of
                         None \<Rightarrow> fail c ServerError
                       | Some r \<Rightarrow>
                           (case commit_categories c
                                   (row_update ct_id (ct_id k) (write_category k k') (db_categories c)) of
                              Inl e \<Rightarrow> fail c e
                            | Inr c' \<Rightarrow>
                                done_with c' [] (to_category_read (write_category k k' r) (usage_count c' (ct_id k)))))))"

text \<open>
  Deleting a category detaches the transactions that another session has linked to it since
  the count (\<open>ondelete\<close> is \<open>SET NULL\<close>).
\<close>

definition detach_category :: "pystr \<Rightarrow> transaction \<Rightarrow> transaction" where
  "detach_category category_id t =
     (if tx_category_id t = Some category_id then t\<lparr>tx_category_id := None\<rparr> else t)"

definition delete_category :: "(db \<Rightarrow> db) \<Rightarrow> db \<Rightarrow> ctx \<Rightarrow> pystr \<Rightarrow> unit outcome" where
  "delete_category interleave d ctx category_id =
     (case load_household_category d (hh_id (fst ctx)) category_id of
        Inl e \<Rightarrow> fail d e
      | Inr k \<Rightarrow>
          (if 0 < usage_count d (ct_id k) then fail d (AppError 409 ''CATEGORY_IN_USE'')
           else (let c = interleave d
                 in done_with
                      (set_transactions (map (detach_category (ct_id k)) (db_transactions c))
                        (set_categories (row_delete ct_id (ct_id k) (db_categories c)) c)) [] ())))"

definition in_group :: "pystr \<Rightarrow> flow_type \<Rightarrow> pystr \<Rightarrow> category \<Rightarrow> bool" where
  "in_group household_id flow major k \<longleftrightarrow>
     ct_household_id k = household_id \<and> ct_flow_type k = flow \<and> ct_major k = major"

definition rename_major :: "category_rename_major \<Rightarrow> category \<Rightarrow> category" where
  "rename_major p k =
     (if rm_next_major p = rm_current_major p then k else k\<lparr>ct_major := rm_next_major p\<rparr>)"

definition rename_major_category_group ::
  "(db \<Rightarrow> db) \<Rightarrow> db \<Rightarrow> ctx \<Rightarrow> category_rename_major \<Rightarrow> category_read list outcome" where
  "rename_major_category_group interleave d ctx p =
     (let household_id = hh_id (fst ctx);
          categories = sort_key (\<lambda>k. (ct_sort_order k, ct_minor k))
            (filter (in_group household_id (rm_flow_type p) (rm_current_major p)) (db_categories d));
          ids = set (map ct_id categories); minors = set (map ct_minor categories)
      in if categories = [] then fail d (HttpDetail 404 ''category group not found'')
         else if \<exists>k \<in> set (db_categories d). in_group household_id (rm_flow_type p) (rm_next_major p) k
                   \<and> ct_minor k \<in> minors \<and> ct_id k \<notin> ids
         then fail d duplicate_category_error
         else (let c = interleave d
               in if \<not> ids \<subseteq> ct_id ` set (db_categories c) then fail c ServerError
                  else case commit_categories c
                         (map (\<lambda>k. if ct_id k \<in> ids then rename_major p k else k) (db_categories c)) of
                         Inl e \<Rightarrow> fail c e
                       | Inr c' \<Rightarrow>
                           (let usage_map = category_usage_map c' household_id
                            in done_with c' []
                                 (map (\<lambda>k. to_category_read k
                                             (case map_of usage_map (ct_id k) of Some n \<Rightarrow> n | None \<Rightarrow> 0))
                                    (map (\<lambda>k. case row_get ct_id (ct_id k) (db_categories c') of
                                                Some r \<Rightarrow> r | None \<Rightarrow> k) categories)))))"

subsection \<open>The invariant of categories and their links\<close>

definition category_ok :: "category \<Rightarrow> bool" where
  "category_ok k \<longleftrightarrow>
     py_strip (ct_major k) = ct_major k \<and> ct_major k \<noteq> [] \<and> py_strip (ct_minor k) = ct_minor k \<and> ct_minor k \<noteq> []"

definition catalog_inv :: "db \<Rightarrow> bool" where
  "catalog_inv d \<longleftrightarrow>
     unique_keys ct_id (db_categories d) \<and> categories_unique (db_categories d)
     \<and> list_all category_ok (db_categories d) \<and> transactions_inv d"

lemma category_text_SomeD: "category_text v = Some t \<Longrightarrow> py_strip t = t \<and> t \<noteq> []"
  by (auto simp: category_text_def Let_def split: if_splits)

lemma commit_categories_InrD:
  "commit_categories c ks = Inr c' \<Longrightarrow> c' = set_categories ks c \<and> categories_unique ks"
  by (simp add: commit_categories_def split: if_splits)

text \<open>New rows of a category table whose links still hold.\<close>

lemma catalog_inv_set:
  assumes inv: "catalog_inv c" and "unique_keys ct_id ks" "categories_unique ks" "list_all category_ok ks"
    and link: "\<And>i k. row_get ct_id i (db_categories c) = Some k \<Longrightarrow>
      \<exists>k'. row_get ct_id i ks = Some k' \<and> ct_household_id k' = ct_household_id k \<and> ct_flow_type k' = ct_flow_type k"
  shows "catalog_inv (set_categories ks c)"
proof -
  have "transaction_ok (set_categories ks c) t" if "transaction_ok c t" for t
    using that link
    by (fastforce simp: transaction_ok_def category_link_ok_def split: option.splits)
  then have "list_all (transaction_ok (set_categories ks c)) (db_transactions c)"
    using inv by (auto simp: catalog_inv_def transactions_inv_def list_all_iff)
  with assms show ?thesis
    by (simp add: catalog_inv_def transactions_inv_def source_refs_unique_def)
qed

lemma catalog_inv_map:
  assumes inv: "catalog_inv c" and "categories_unique (map f (db_categories c))"
    and f: "\<And>k. ct_id (f k) = ct_id k \<and> ct_household_id (f k) = ct_household_id k \<and> ct_flow_type (f k) = ct_flow_type k"
    and ok: "\<And>k. category_ok k \<Longrightarrow> category_ok (f k)"
  shows "catalog_inv (set_categories (map f (db_categories c)) c)"
proof (rule catalog_inv_set [OF inv])
  have "map ct_id (map f (db_categories c)) = map ct_id (db_categories c)" using f by simp
  then show "unique_keys ct_id (map f (db_categories c))"
    using inv by (simp only: catalog_inv_def unique_keys_def)
  show "list_all category_ok (map f (db_categories c))"
    using inv ok by (auto simp: catalog_inv_def list_all_iff)
  show "\<exists>k'. row_get ct_id i (map f (db_categories c)) = Some k' \<and> ct_household_id k' = ct_household_id k
      \<and> ct_flow_type k' = ct_flow_type k" if "row_get ct_id i (db_categories c) = Some k" for i k
  proof -
    have "row_get ct_id i (map f ks) = map_option f (row_get ct_id i ks)" for ks
      using f by (induction ks) simp_all
    with that f show ?thesis by simp
  qed
qed (rule assms(2))

lemma create_category_inv:
  assumes "catalog_inv (w d)" and d: "catalog_inv d" and "validate_category_create raw = Some p"
    and fresh: "ev_new_id ev \<notin> ct_id ` set (db_categories (w d))"
  shows "catalog_inv (outcome_db (create_category ev w d ctx p))"
proof -
  let ?k = "\<lparr>ct_id = ev_new_id ev, ct_household_id = hh_id (fst ctx), ct_flow_type = cc_flow_type p,
    ct_major = cc_major p, ct_minor = cc_minor p, ct_sort_order = next_sort_order d (hh_id (fst ctx)),
    ct_created_at = ev_db_now ev\<rparr>"
  have k: "category_ok ?k"
    using assms(3) by (auto simp: validate_category_create_def category_ok_def split: option.splits
        dest: category_text_SomeD)
  show ?thesis
  proof (cases "commit_categories (w d) (db_categories (w d) @ [?k])")
    case (Inl e)
    then show ?thesis using assms(1,2) by (simp add: create_category_def Let_def)
  next
    case (Inr c')
    have "catalog_inv c'"
      unfolding commit_categories_InrD [OF Inr, THEN conjunct1]
      by (rule catalog_inv_set [OF assms(1)])
        (use assms(1) fresh k commit_categories_InrD [OF Inr] in
          \<open>auto simp: catalog_inv_def unique_keys_append row_get_None_iff row_get_append\<close>)
    then show ?thesis using Inr d by (simp add: create_category_def Let_def)
  qed
qed

lemma patched_category_ok:
  assumes "validate_category_patch raw = Some p" and "category_ok k" and "category_ok r"
  shows "category_ok (write_category k (patched_category p k) r)"
  using assms
  by (auto simp: validate_category_patch_def category_ok_def write_category_def patched_category_def
      given_def Option.bind_eq_Some_conv split: if_splits option.splits dest: category_text_SomeD)

lemma write_category_fixed [simp]:
  "ct_id (write_category k k' r) = ct_id r" "ct_household_id (write_category k k' r) = ct_household_id r"
  "ct_flow_type (write_category k k' r) = ct_flow_type r"
  by (simp_all add: write_category_def)

lemma load_household_category_InrD:
  "load_household_category d h i = Inr k \<Longrightarrow>
   k \<in> set (db_categories d) \<and> ct_id k = i \<and> ct_household_id k = h \<and> row_get ct_id i (db_categories d) = Some k"
  by (auto simp: load_household_category_def split: option.splits if_splits dest: row_get_SomeD)

lemma patch_category_inv:
  assumes "catalog_inv (w d)" and d: "catalog_inv d" and "validate_category_patch raw = Some p"
  shows "catalog_inv (outcome_db (patch_category w d ctx i p))"
proof (cases "load_household_category d (hh_id (fst ctx)) i")
  case (Inl e)
  with d show ?thesis by (simp add: patch_category_def)
next
  case (Inr k)
  let ?f = "\<lambda>r. if ct_id r = ct_id k then write_category k (patched_category p k) r else r"
  have k: "category_ok k"
    using d load_household_category_InrD [OF Inr] by (auto simp: catalog_inv_def list_all_iff)
  show ?thesis
  proof (cases "commit_categories (w d) (map ?f (db_categories (w d)))")
    case (Inl e)
    with Inr assms(1) d show ?thesis
      by (simp add: patch_category_def row_update_def Let_def split: option.split)
  next
    case com: (Inr c')
    have "catalog_inv (set_categories (map ?f (db_categories (w d))) (w d))"
      by (rule catalog_inv_map [OF assms(1)])
        (use commit_categories_InrD [OF com] patched_category_ok [OF assms(3) k] in auto)
    with Inr com commit_categories_InrD [OF com] assms(1) d show ?thesis
      by (simp add: patch_category_def row_update_def Let_def split: option.split)
  qed
qed

lemma detach_links:
  assumes "transactions_inv c"
  shows "transactions_inv (set_transactions (map (detach_category i) (db_transactions c))
    (set_categories (row_delete ct_id i (db_categories c)) c))" (is "transactions_inv ?c")
proof -
  have "transactions_inv (set_transactions (map (detach_category i) (db_transactions c)) c)"
    by (rule transactions_inv_map [OF assms, where f = "detach_category i"])
      (auto simp: detach_category_def transaction_ok_def category_link_ok_def)
  moreover have "transaction_ok ?c t"
    if "transaction_ok (set_transactions (map (detach_category i) (db_transactions c)) c) t"
      "t \<in> detach_category i ` set (db_transactions c)" for t
    using that
    by (auto simp: transaction_ok_def category_link_ok_def detach_category_def row_get_delete
        split: option.splits if_splits)
  ultimately show ?thesis
    by (auto simp: transactions_inv_def source_refs_unique_def list_all_iff)
qed

lemma delete_category_inv:
  assumes "catalog_inv (w d)" and d: "catalog_inv d"
  shows "catalog_inv (outcome_db (delete_category w d ctx i))"
proof (cases "load_household_category d (hh_id (fst ctx)) i")
  case (Inl e)
  with d show ?thesis by (simp add: delete_category_def)
next
  case (Inr k)
  have "distinct (map category_key (row_delete ct_id (ct_id k) (db_categories (w d))))"
    "unique_keys ct_id (row_delete ct_id (ct_id k) (db_categories (w d)))"
    using assms(1) by (auto simp: catalog_inv_def categories_unique_def row_delete_def distinct_map_filter
        unique_keys_filter)
  with detach_links [of "w d" "ct_id k"] assms Inr show ?thesis
    by (auto simp: delete_category_def Let_def catalog_inv_def categories_unique_def list_all_iff)
qed

lemma rename_major_group_inv:
  assumes "catalog_inv (w d)" and d: "catalog_inv d" and "validate_category_rename_major raw = Some p"
  shows "catalog_inv (outcome_db (rename_major_category_group w d ctx p))"
proof -
  let ?ids = "ct_id ` {k \<in> set (db_categories d). in_group (hh_id (fst ctx)) (rm_flow_type p) (rm_current_major p) k}"
  let ?f = "\<lambda>k. if ct_id k \<in> ?ids then rename_major p k else k"
  show ?thesis
  proof (cases "commit_categories (w d) (map ?f (db_categories (w d)))")
    case (Inl e)
    with assms(1) d show ?thesis
      by (simp add: rename_major_category_group_def Let_def)
  next
    case com: (Inr c')
    have "catalog_inv (set_categories (map ?f (db_categories (w d))) (w d))"
      by (rule catalog_inv_map [OF assms(1)])
        (use commit_categories_InrD [OF com] assms(3) in
          \<open>auto simp: rename_major_def category_ok_def validate_category_rename_major_def split: option.splits
             dest: category_text_SomeD\<close>)
    with com commit_categories_InrD [OF com] assms(1) d show ?thesis
      by (simp add: rename_major_category_group_def Let_def)
  qed
qed

text \<open>
  A request of this module, during which other sessions may have made requests of it, or a
  commit to the transactions that keeps their invariant.
\<close>

inductive category_step :: "db \<Rightarrow> db \<Rightarrow> bool" where
  create: "\<lbrakk>category_step\<^sup>*\<^sup>* d (w d); validate_category_create raw = Some p;
            ev_new_id ev \<notin> ct_id ` set (db_categories (w d))\<rbrakk>
    \<Longrightarrow> category_step d (outcome_db (create_category ev w d ctx p))"
| patch: "\<lbrakk>category_step\<^sup>*\<^sup>* d (w d); validate_category_patch raw = Some p\<rbrakk>
    \<Longrightarrow> category_step d (outcome_db (patch_category w d ctx i p))"
| delete: "category_step\<^sup>*\<^sup>* d (w d) \<Longrightarrow> category_step d (outcome_db (delete_category w d ctx i))"
| rename: "\<lbrakk>category_step\<^sup>*\<^sup>* d (w d); validate_category_rename_major raw = Some p\<rbrakk>
    \<Longrightarrow> category_step d (outcome_db (rename_major_category_group w d ctx p))"
| other: "transactions_inv (set_transactions ts d) \<Longrightarrow> category_step d (set_transactions ts d)"

lemma category_step_inv: "category_step d d' \<Longrightarrow> catalog_inv d \<Longrightarrow> catalog_inv d'"
proof (induction rule: category_step.induct)
  case (create d w raw p ev ctx)
  then have "catalog_inv (w d)"
    by (auto elim!: rtranclp_keeps [where P = catalog_inv])
  with create create_category_inv show ?case by blast
next
  case (patch d w raw p ctx i)
  then have "catalog_inv (w d)"
    by (auto elim!: rtranclp_keeps [where P = catalog_inv])
  with patch patch_category_inv show ?case by blast
next
  case (delete d w ctx i)
  then have "catalog_inv (w d)"
    by (auto elim!: rtranclp_keeps [where P = catalog_inv])
  with delete delete_category_inv show ?case by blast
next
  case (rename d w raw p ctx)
  then have "catalog_inv (w d)"
    by (auto elim!: rtranclp_keeps [where P = catalog_inv])
  with rename rename_major_group_inv show ?case by blast
next
  case (other ts d)
  then show ?case by (simp add: catalog_inv_def)
qed

subsection \<open>Renaming a group\<close>

lemma rename_group_unique:
  assumes inv: "catalog_inv d"
    and no: "\<not> (\<exists>k \<in> set (db_categories d). in_group h f b k
      \<and> ct_minor k \<in> ct_minor ` {k \<in> set (db_categories d). in_group h f a k} \<and> \<not> in_group h f a k)"
  shows "categories_unique (map (\<lambda>k. if in_group h f a k then k\<lparr>ct_major := b\<rparr> else k) (db_categories d))"
proof -
  let ?g = "\<lambda>k. if in_group h f a k then k\<lparr>ct_major := b\<rparr> else k"
  have d: "distinct (db_categories d)" "inj_on category_key (set (db_categories d))"
    using inv by (auto simp: catalog_inv_def categories_unique_def distinct_map)
  have "inj_on (category_key \<circ> ?g) (set (db_categories d))"
  proof (rule inj_onI)
    fix x y assume x: "x \<in> set (db_categories d)" and y: "y \<in> set (db_categories d)"
      and e: "(category_key \<circ> ?g) x = (category_key \<circ> ?g) y"
    have key: "category_key (?g k) = (ct_household_id k, ct_flow_type k, if in_group h f a k then b else ct_major k, ct_minor k)" for k
      by (simp add: category_key_def)
    note e = e [unfolded comp_def key prod.inject]
    show "x = y"
    proof (cases "in_group h f a x")
      case gx: True
      show ?thesis
      proof (cases "in_group h f a y")
        case True
        with gx e have "category_key x = category_key y" by (simp add: category_key_def in_group_def)
        with d(2) x y show ?thesis by (simp add: inj_on_def)
      next
        case False
        with gx e have "in_group h f b y" "ct_minor y = ct_minor x" by (auto simp: in_group_def)
        with no x y gx False show ?thesis by blast
      qed
    next
      case gx: False
      show ?thesis
      proof (cases "in_group h f a y")
        case True
        with gx e have "in_group h f b x" "ct_minor x = ct_minor y" by (auto simp: in_group_def)
        with no x y gx True show ?thesis by blast
      next
        case False
        with gx e have "category_key x = category_key y" by (simp add: category_key_def)
        with d(2) x y show ?thesis by (simp add: inj_on_def)
      qed
    qed
  qed
  with d(1) show ?thesis by (simp add: categories_unique_def distinct_map)
qed

subsection \<open>Usage by month\<close>

lemma fold_usage_step:
  "fold usage_step rows (totals, items) =
     (\<lambda>m. totals m + sum_list (map tx_amount (filter (\<lambda>t. month_key (tx_occurred_on t) = m) rows)),
      \<lambda>m. items m @ map usage_entry_of (filter (\<lambda>t. month_key (tx_occurred_on t) = m) rows))"
  by (induction rows arbitrary: totals items) (auto simp: usage_step_def Let_def fun_eq_iff)

lemma sum_filter_lengths:
  "finite S \<Longrightarrow> f ` set xs \<subseteq> S \<Longrightarrow> (\<Sum>m\<in>S. length (filter (\<lambda>x. f x = m) xs)) = length xs"
proof (induction xs)
  case (Cons x xs)
  have "(\<Sum>m\<in>S. length (filter (\<lambda>y. f y = m) (x # xs))) =
      (\<Sum>m\<in>S. (if m = f x then 1 else 0) + length (filter (\<lambda>y. f y = m) xs))"
    by (rule sum.cong) auto
  also have "\<dots> = (\<Sum>m\<in>S. if m = f x then 1 else 0) + (\<Sum>m\<in>S. length (filter (\<lambda>y. f y = m) xs))"
    by (rule sum.distrib)
  also have "\<dots> = length (x # xs)"
    using Cons by (simp add: sum.delta)
  finally show ?case .
qed simp

lemma sum_list_filter_lengths:
  "distinct ms \<Longrightarrow> set ms = f ` set xs \<Longrightarrow>
   sum_list (map (\<lambda>m. length (filter (\<lambda>x. f x = m) xs)) ms) = length xs"
  using sum_filter_lengths [of "set ms" f xs] by (simp add: sum_list_distinct_conv_sum_set)

lemma usage_rows_all:
  assumes "transactions_inv d" and "row_get ct_id i (db_categories d) = Some k" and "ct_household_id k = h"
  shows "length (usage_rows d h i) = usage_count d i"
proof -
  have "tx_household_id t = h" if "t \<in> set (db_transactions d)" "tx_category_id t = Some i" for t
  proof -
    from assms(1) that(1) have "category_link_ok d t"
      by (auto simp: transactions_inv_def list_all_iff transaction_ok_def)
    with that(2) assms(2,3) show ?thesis by (simp add: category_link_ok_def)
  qed
  then have "filter (\<lambda>t. tx_household_id t = h \<and> tx_category_id t = Some i) (db_transactions d)
      = filter (\<lambda>t. tx_category_id t = Some i) (db_transactions d)"
    by (intro filter_cong) auto
  then show ?thesis by (simp add: usage_rows_def usage_count_def)
qed

end
