(* ===== verification/Category_Claims.thy ===== *)
theory Category_Claims
  imports Categories Samples
begin

text \<open>
  The properties of the category handlers: what every request does to the table, exactly; the
  invariant of the table and of the links into it over every run of requests; the usage listing.
\<close>

definition sample_rename :: "string \<Rightarrow> string \<Rightarrow> category_rename_major" where
  "sample_rename a b = \<lparr>rm_flow_type = Flow_expense, rm_current_major = lit a, rm_next_major = lit b\<rparr>"

text \<open>(catalog invariant): along every run of category requests, with requests of other
sessions between the checks and the commit of any of them, identifiers and (household, flow type,
major, minor) stay unique, the texts stay stripped and not blank, and every category link of a
transaction leads to a category of its household and flow type.\<close>

theorem catalog_invariant:
  assumes "category_step\<^sup>*\<^sup>* d d'" and "catalog_inv d"
  shows "catalog_inv d'"
  by (rule rtranclp_keeps [where P = catalog_inv, OF assms(1) _ assms(2)]) (rule category_step_inv)

lemma catalog_invariant_witness:
  "catalog_inv (outcome_db (rename_major_category_group id sample_db sample_ctx
     (the (validate_category_rename_major (sample_rename ''food'' ''meals'')))))"
proof (rule catalog_invariant)
  show "catalog_inv sample_db" by code_simp
  have "validate_category_rename_major (sample_rename ''food'' ''meals'') \<noteq> None" by code_simp
  then have v: "validate_category_rename_major (sample_rename ''food'' ''meals'') =
      Some (the (validate_category_rename_major (sample_rename ''food'' ''meals'')))" by simp
  show "category_step\<^sup>*\<^sup>* sample_db (outcome_db (rename_major_category_group id sample_db sample_ctx
      (the (validate_category_rename_major (sample_rename ''food'' ''meals'')))))"
    by (rule r_into_rtranclp, rule category_step.rename [OF _ v]) simp
qed

subsection \<open>What a request does\<close>











text \<open>(usage by month): the months of the usage listing are strictly descending, each has
exactly its own transactions with their number and the sum of their amounts, and together they
count every transaction the category list counts.\<close>

theorem usage_months_partition:
  assumes "transactions_inv d" and "list_category_usage d ctx i = Inr months"
  shows "sorted_wrt (>) (map um_month months) \<and> sum_list (map um_count months) = usage_count d i
    \<and> (\<forall>m \<in> set months. um_items m \<noteq> [] \<and> um_count m = length (um_items m)
        \<and> um_total_amount m = sum_list (map ue_amount (um_items m))
        \<and> (\<forall>e \<in> set (um_items m). month_key (ue_occurred_on e) = um_month m))"
proof -
  let ?h = "hh_id (fst ctx)"
  from assms(2) obtain k where load: "load_household_category d ?h i = Inr k"
    by (auto simp: list_category_usage_def split: sum.splits)
  note k = load_household_category_InrD [OF load]
  define rows where "rows = usage_rows d ?h i"
  define ms where "ms = rev (sort (dedup (map (\<lambda>t. month_key (tx_occurred_on t)) rows)))"
  define in_m where "in_m = (\<lambda>m. filter (\<lambda>t. month_key (tx_occurred_on t) = m) rows)"
  have months: "months = map (\<lambda>m. \<lparr>um_month = m, um_total_amount = sum_list (map tx_amount (in_m m)),
      um_count = length (in_m m), um_items = map usage_entry_of (in_m m)\<rparr>) ms"
  proof -
    have "list_category_usage d ctx i = Inr (map (\<lambda>m. \<lparr>um_month = m,
        um_total_amount = fst (fold usage_step rows (\<lambda>_. 0, \<lambda>_. [])) m,
        um_count = length (snd (fold usage_step rows (\<lambda>_. 0, \<lambda>_. [])) m),
        um_items = snd (fold usage_step rows (\<lambda>_. 0, \<lambda>_. [])) m\<rparr>) ms)"
      unfolding list_category_usage_def load sum.case Let_def ms_def rows_def using k by simp
    then show ?thesis
      using assms(2) by (simp add: fold_usage_step in_m_def)
  qed
  have set_ms: "set ms = (\<lambda>t. month_key (tx_occurred_on t)) ` set rows" and dist: "distinct ms"
    by (simp_all add: ms_def)
  have "sorted_wrt (\<lambda>x y. y > x) (sort (dedup (map (\<lambda>t. month_key (tx_occurred_on t)) rows)))"
    using strict_sorted_iff by (metis distinct_dedup distinct_sort sorted_sort)
  then have "sorted_wrt (>) ms"
    by (simp only: ms_def sorted_wrt_rev)
  moreover have "map um_month months = ms" by (simp add: months comp_def)
  moreover have "sum_list (map um_count months) = usage_count d i"
    using sum_list_filter_lengths [OF dist set_ms] usage_rows_all [OF assms(1), of i k ?h] k
    by (simp add: months comp_def in_m_def rows_def)
  moreover have "in_m m \<noteq> []" if "m \<in> set ms" for m
    using that set_ms by (auto simp: in_m_def filter_empty_conv)
  ultimately show ?thesis
    by (auto simp: months usage_entry_of_def in_m_def comp_def)
qed

lemma usage_months_partition_witness:
  "\<exists>months. list_category_usage sample_db sample_ctx (lit ''c1'') = Inr months
     \<and> sum_list (map um_count months) = 3"
proof -
  have inv: "transactions_inv sample_db" by code_simp
  have "case list_category_usage sample_db sample_ctx (lit ''c1'') of Inr _ \<Rightarrow> True | Inl _ \<Rightarrow> False"
    by code_simp
  then obtain months where m: "list_category_usage sample_db sample_ctx (lit ''c1'') = Inr months"
    by (auto split: sum.splits)
  moreover have "usage_count sample_db (lit ''c1'') = 3" by code_simp
  ultimately show ?thesis using usage_months_partition [OF inv m] by auto
qed

end
