(* ===== verification/Ws_Hub.thy ===== *)
theory Ws_Hub
  imports MF_Prelude
begin

text \<open>
  \<open>backend/app/services/ws_hub.py\<close>: the hub of open web sockets, three dictionaries that must
  agree.  A set of sockets is a list without duplicates (\<open>List.insert\<close>), a missing key of a
  dictionary is \<open>None\<close>; \<open>entries (m k)\<close> is \<open>m.get(k, set())\<close>.  Steps interleave wherever the code
  releases its lock.
\<close>

subsection \<open>State and operations\<close>

type_synonym socket = int

record hub =
  hb_clients :: "pystr \<Rightarrow> socket list option"
  hb_member_clients :: "pystr \<times> pystr \<Rightarrow> socket list option"
  hb_socket_member :: "socket \<Rightarrow> (pystr \<times> pystr) option"

definition hub_empty :: hub where
  "hub_empty = \<lparr>hb_clients = (\<lambda>_. None), hb_member_clients = (\<lambda>_. None), hb_socket_member = (\<lambda>_. None)\<rparr>"

definition entries :: "'a list option \<Rightarrow> 'a list" where
  "entries v = (case v of None \<Rightarrow> [] | Some xs \<Rightarrow> xs)"

definition hub_connect :: "pystr \<Rightarrow> pystr \<Rightarrow> socket \<Rightarrow> hub \<Rightarrow> hub" where
  "hub_connect household_id user_id s hb =
     (let member_key = (household_id, user_id)
      in \<lparr>hb_clients = (hb_clients hb)(household_id := Some (List.insert s (entries (hb_clients hb household_id)))),
          hb_member_clients = (hb_member_clients hb)
            (member_key := Some (List.insert s (entries (hb_member_clients hb member_key)))),
          hb_socket_member = (hb_socket_member hb)(s := Some member_key)\<rparr>)"

text \<open>The part of \<open>disconnect\<close> that forgets the member of a socket.\<close>

definition drop_member :: "socket \<Rightarrow> hub \<Rightarrow> hub" where
  "drop_member s hb =
     (case hb_socket_member hb s of
        None \<Rightarrow> hb
      | Some member_key \<Rightarrow>
          (let hb' = hb\<lparr>hb_socket_member := (hb_socket_member hb)(s := None)\<rparr>;
               member_sockets = entries (hb_member_clients hb member_key);
               left = removeAll s member_sockets
           in if member_sockets = [] then hb'
              else hb'\<lparr>hb_member_clients := (hb_member_clients hb)
                         (member_key := (if left = [] then None else Some left))\<rparr>))"

definition hub_disconnect :: "pystr \<Rightarrow> socket \<Rightarrow> hub \<Rightarrow> hub" where
  "hub_disconnect household_id s hb =
     (let sockets = entries (hb_clients hb household_id)
      in if sockets = [] then drop_member s hb
         else (let left = removeAll s sockets;
                   hb1 = drop_member s (hb\<lparr>hb_clients := (hb_clients hb)(household_id := Some left)\<rparr>)
               in if left = [] then hb1\<lparr>hb_clients := (hb_clients hb1)(household_id := None)\<rparr> else hb1))"

text \<open>
  The lock is held inside one operation only: between the snapshot and each \<open>disconnect\<close>
  other tasks may run (\<open>interleave\<close>).  Closing a socket and its errors do not touch the hub.
\<close>

definition hub_drop_all :: "(hub \<Rightarrow> hub) \<Rightarrow> pystr \<Rightarrow> socket list \<Rightarrow> hub \<Rightarrow> hub" where
  "hub_drop_all interleave household_id sockets hb =
     fold (\<lambda>s h. hub_disconnect household_id s (interleave h)) sockets hb"

definition hub_disconnect_member :: "(hub \<Rightarrow> hub) \<Rightarrow> pystr \<Rightarrow> pystr \<Rightarrow> hub \<Rightarrow> hub" where
  "hub_disconnect_member interleave household_id user_id hb =
     hub_drop_all interleave household_id (entries (hb_member_clients hb (household_id, user_id))) hb"

text \<open>
  \<open>sends s\<close> holds when \<open>send_json\<close> to \<open>s\<close> ends in time without an exception; the first component
  lists the sockets the payload is sent to.
\<close>

definition hub_broadcast :: "(hub \<Rightarrow> hub) \<Rightarrow> (socket \<Rightarrow> bool) \<Rightarrow> pystr \<Rightarrow> hub \<Rightarrow> socket list \<times> hub" where
  "hub_broadcast interleave sends household_id hb =
     (let sockets = entries (hb_clients hb household_id)
      in (sockets, hub_drop_all interleave household_id (filter (\<lambda>s. \<not> sends s) sockets) hb))"

subsection \<open>Consistency of the three maps\<close>

text \<open>\<open>home s\<close> is the household of the connection \<open>s\<close> was opened for.\<close>

definition hub_ok :: "(socket \<Rightarrow> pystr) \<Rightarrow> hub \<Rightarrow> bool" where
  "hub_ok home hb \<longleftrightarrow>
     (\<forall>h s. s \<in> set (entries (hb_clients hb h)) \<longleftrightarrow> (\<exists>u. hb_socket_member hb s = Some (h, u)))
     \<and> (\<forall>k s. s \<in> set (entries (hb_member_clients hb k)) \<longleftrightarrow> hb_socket_member hb s = Some k)
     \<and> (\<forall>s h u. hb_socket_member hb s = Some (h, u) \<longrightarrow> home s = h)
     \<and> (\<forall>h. hb_clients hb h \<noteq> Some []) \<and> (\<forall>k. hb_member_clients hb k \<noteq> Some [])"

lemma hub_okD:
  assumes "hub_ok home hb"
  shows "s \<in> set (entries (hb_clients hb h)) \<longleftrightarrow> (\<exists>u. hb_socket_member hb s = Some (h, u))"
    and "s \<in> set (entries (hb_member_clients hb k)) \<longleftrightarrow> hb_socket_member hb s = Some k"
    and "hb_socket_member hb s = Some (h, u) \<Longrightarrow> home s = h"
    and "hb_clients hb h \<noteq> Some []" and "hb_member_clients hb k \<noteq> Some []"
  using assms unfolding hub_ok_def by blast+

lemma entries_simps [simp]: "entries None = []" "entries (Some xs) = xs"
  by (simp_all add: entries_def)

lemma hub_empty_ok [simp]: "hub_ok home hub_empty"
  by (simp add: hub_ok_def hub_empty_def)

lemma hub_empty_member [simp]: "hb_socket_member hub_empty s = None"
  by (simp add: hub_empty_def)

lemma hub_connect_ok:
  assumes "hub_ok home hb" "home s = h" "hb_socket_member hb s = None"
  shows "hub_ok home (hub_connect h u s hb)"
  using assms hub_okD(1-3) [OF assms(1)] hub_okD(4,5) [OF assms(1)]
  unfolding hub_ok_def by (auto simp: hub_connect_def Let_def List.insert_def)

text \<open>What remains after a socket of the household has gone.\<close>

lemma disconnect_member_map:
  assumes "hub_ok home hb" "home s = h"
  shows "hb_socket_member (hub_disconnect h s hb) = (hb_socket_member hb)(s := None)"
  using assms by (auto simp: hub_disconnect_def drop_member_def Let_def fun_eq_iff split: option.split)

lemma disconnect_entries:
  assumes "hub_ok home hb" "home s = h"
  shows "entries (hb_clients (hub_disconnect h s hb) h') = removeAll s (entries (hb_clients hb h'))"
    and "entries (hb_member_clients (hub_disconnect h s hb) k) = removeAll s (entries (hb_member_clients hb k))"
proof -
  have other: "removeAll s (entries (hb_clients hb h')) = entries (hb_clients hb h')" if "h' \<noteq> h"
    using hub_okD(1) [OF assms(1), of s h'] hub_okD(3) [OF assms(1), of s h'] assms(2) that
    by (intro removeAll_id) auto
  have mem: "removeAll s (entries (hb_member_clients hb k)) = entries (hb_member_clients hb k)"
    if "hb_socket_member hb s \<noteq> Some k"
    using hub_okD(2) [OF assms(1), of s k] that by (intro removeAll_id) simp
  show "entries (hb_clients (hub_disconnect h s hb) h') = removeAll s (entries (hb_clients hb h'))"
    using other by (auto simp: hub_disconnect_def drop_member_def Let_def split: option.split)
  show "entries (hb_member_clients (hub_disconnect h s hb) k) = removeAll s (entries (hb_member_clients hb k))"
    using mem hub_okD(2) [OF assms(1), of s]
    by (auto simp: hub_disconnect_def drop_member_def Let_def split: option.split)
qed

lemma disconnect_nonempty:
  assumes "hub_ok home hb" "home s = h"
  shows "hb_clients (hub_disconnect h s hb) h' \<noteq> Some []" "hb_member_clients (hub_disconnect h s hb) k \<noteq> Some []"
  using hub_okD(4,5) [OF assms(1)]
  by (auto simp: hub_disconnect_def drop_member_def Let_def split: option.split)

lemma hub_disconnect_ok:
  assumes "hub_ok home hb" "home s = h"
  shows "hub_ok home (hub_disconnect h s hb)"
proof -
  have "s' \<in> set (entries (hb_clients (hub_disconnect h s hb) h')) \<longleftrightarrow>
      (\<exists>u. hb_socket_member (hub_disconnect h s hb) s' = Some (h', u))" for s' h'
    unfolding disconnect_entries [OF assms] disconnect_member_map [OF assms]
    using hub_okD(1) [OF assms(1), of s' h'] by simp
  moreover have "s' \<in> set (entries (hb_member_clients (hub_disconnect h s hb) k)) \<longleftrightarrow>
      hb_socket_member (hub_disconnect h s hb) s' = Some k" for s' k
    unfolding disconnect_entries [OF assms] disconnect_member_map [OF assms]
    using hub_okD(2) [OF assms(1), of s' k] by simp
  moreover have "home s' = h'" if "hb_socket_member (hub_disconnect h s hb) s' = Some (h', u)" for s' h' u
    using that hub_okD(3) [OF assms(1), of s' h' u]
    unfolding disconnect_member_map [OF assms] by (simp split: if_splits)
  ultimately show ?thesis
    unfolding hub_ok_def using disconnect_nonempty [OF assms] by blast
qed

subsection \<open>Runs\<close>

inductive hub_step :: "(socket \<Rightarrow> pystr) \<Rightarrow> hub \<Rightarrow> hub \<Rightarrow> bool" for home where
  connect: "home s = h \<Longrightarrow> hb_socket_member hb s = None \<Longrightarrow> hub_step home hb (hub_connect h u s hb)"
| disconnect: "home s = h \<Longrightarrow> hub_step home hb (hub_disconnect h s hb)"
| disconnect_member: "(\<And>hb'. (hub_step home)\<^sup>*\<^sup>* hb' (w hb')) \<Longrightarrow> hub_step home hb (hub_disconnect_member w h u hb)"
| broadcast: "(\<And>hb'. (hub_step home)\<^sup>*\<^sup>* hb' (w hb')) \<Longrightarrow> hub_step home hb (snd (hub_broadcast w sends h hb))"

lemma hub_drop_all_ok:
  assumes "\<And>hb. hub_ok home hb \<Longrightarrow> hub_ok home (w hb)" and "hub_ok home hb" and "\<forall>s \<in> set ss. home s = h"
  shows "hub_ok home (hub_drop_all w h ss hb)"
  using assms(2,3) unfolding hub_drop_all_def
  by (induction ss arbitrary: hb) (simp_all add: assms(1) hub_disconnect_ok)

lemma hub_step_ok: "hub_step home hb hb' \<Longrightarrow> hub_ok home hb \<Longrightarrow> hub_ok home hb'"
proof (induction rule: hub_step.induct)
  case (connect s h hb u)
  then show ?case by (simp add: hub_connect_ok)
next
  case (disconnect s h hb)
  then show ?case by (simp add: hub_disconnect_ok)
next
  case (disconnect_member w hb h u)
  have w: "hub_ok home (w hb')" if "hub_ok home hb'" for hb'
    by (rule rtranclp_keeps [where P = "hub_ok home", OF disconnect_member.IH _ that]) blast
  have "\<forall>s \<in> set (entries (hb_member_clients hb (h, u))). home s = h"
    using hub_okD(2,3) [OF disconnect_member.prems] by blast
  with hub_drop_all_ok [OF w disconnect_member.prems] show ?case
    by (simp add: hub_disconnect_member_def)
next
  case (broadcast w hb sends h)
  have w: "hub_ok home (w hb')" if "hub_ok home hb'" for hb'
    by (rule rtranclp_keeps [where P = "hub_ok home", OF broadcast.IH _ that]) blast
  have "\<forall>s \<in> set (entries (hb_clients hb h)). home s = h"
    using hub_okD(1,3) [OF broadcast.prems] by blast
  with hub_drop_all_ok [OF w broadcast.prems] show ?case
    by (simp add: hub_broadcast_def Let_def)
qed

lemma drop_all_alone:
  assumes "hub_ok home hb" and "\<forall>s \<in> set ss. home s = h"
  shows "hb_socket_member (hub_drop_all id h ss hb) s = (if s \<in> set ss then None else hb_socket_member hb s)"
  using assms unfolding hub_drop_all_def
  by (induction ss arbitrary: hb) (auto simp: hub_disconnect_ok disconnect_member_map)

subsection \<open>The properties\<close>

lemma sample_hub_run:
  "(hub_step (\<lambda>_. lit ''h1''))\<^sup>*\<^sup>* hub_empty
     (hub_connect (lit ''h1'') (lit ''u2'') 2 (hub_connect (lit ''h1'') (lit ''u1'') 1 hub_empty))"
  by (rule rtranclp_trans [OF r_into_rtranclp r_into_rtranclp]; rule hub_step.connect)
    (simp_all add: hub_connect_def Let_def)

text \<open>C12 (the hub stays consistent): in every reachable state of the hub, whatever the
interleaving of connections, disconnections, removals and broadcasts, a socket is listed under a
household exactly when it is registered for a member of it, and under a member exactly when it is
registered for that member, and no empty entry is kept.\<close>

theorem hub_consistent:
  assumes "(hub_step home)\<^sup>*\<^sup>* hub_empty hb"
  shows "hub_ok home hb"
  by (rule rtranclp_keeps [where P = "hub_ok home", OF assms]) (simp_all add: hub_step_ok)

lemma hub_consistent_witness:
  "hub_ok (\<lambda>_. lit ''h1'')
     (hub_connect (lit ''h1'') (lit ''u2'') 2 (hub_connect (lit ''h1'') (lit ''u1'') 1 hub_empty))"
  by (rule hub_consistent [OF sample_hub_run])

text \<open>(a removed member is cut off): after \<open>disconnect_member\<close> no socket of the member is
registered, no later broadcast reaches one, and every other socket is as before.\<close>

theorem disconnected_member_is_gone:
  assumes "hub_ok home hb"
  shows "let hb' = hub_disconnect_member id h u hb
    in (\<forall>s. hb_socket_member hb' s = (if hb_socket_member hb s = Some (h, u) then None else hb_socket_member hb s))
      \<and> (\<forall>s w sends. s \<in> set (fst (hub_broadcast w sends h hb')) \<longleftrightarrow>
            s \<in> set (fst (hub_broadcast w sends h hb)) \<and> hb_socket_member hb s \<noteq> Some (h, u))"
proof -
  let ?ss = "entries (hb_member_clients hb (h, u))"
  have home: "\<forall>s \<in> set ?ss. home s = h" using hub_okD(2,3) [OF assms] by blast
  have ok: "hub_ok home (hub_disconnect_member id h u hb)"
    unfolding hub_disconnect_member_def by (rule hub_drop_all_ok [OF _ assms home]) simp
  have m: "hb_socket_member (hub_disconnect_member id h u hb) s =
      (if hb_socket_member hb s = Some (h, u) then None else hb_socket_member hb s)" for s
    unfolding hub_disconnect_member_def drop_all_alone [OF assms home] hub_okD(2) [OF assms] ..
  then show ?thesis
    by (simp add: hub_broadcast_def Let_def hub_okD(1) [OF ok] hub_okD(1) [OF assms])
qed

lemma disconnected_member_is_gone_witness:
  "hb_socket_member (hub_disconnect_member id (lit ''h1'') (lit ''u1'')
     (hub_connect (lit ''h1'') (lit ''u1'') 1 hub_empty)) 1 = None"
proof -
  have "hub_ok (\<lambda>_. lit ''h1'') (hub_connect (lit ''h1'') (lit ''u1'') 1 hub_empty)"
    by (rule hub_connect_ok) simp_all
  from disconnected_member_is_gone [OF this, of "lit ''h1''" "lit ''u1''"]
  show ?thesis by (simp add: Let_def hub_connect_def)
qed

text \<open>(a broadcast drops exactly the stale sockets): a broadcast is sent to exactly the sockets
of the household and unregisters exactly those whose sending failed.\<close>

theorem broadcast_drops_exactly_stale:
  assumes "hub_ok home hb"
  shows "let (sent, hb') = hub_broadcast id sends h hb
    in (\<forall>s. s \<in> set sent \<longleftrightarrow> (\<exists>u. hb_socket_member hb s = Some (h, u)))
      \<and> (\<forall>s. hb_socket_member hb' s =
            (if (\<exists>u. hb_socket_member hb s = Some (h, u)) \<and> \<not> sends s then None else hb_socket_member hb s))"
proof -
  let ?ss = "filter (\<lambda>s. \<not> sends s) (entries (hb_clients hb h))"
  have home: "\<forall>s \<in> set ?ss. home s = h" using hub_okD(1,3) [OF assms] by auto
  show ?thesis
    using hub_okD(1) [OF assms, of _ h]
    by (auto simp: hub_broadcast_def Let_def drop_all_alone [OF assms home])
qed

lemma broadcast_drops_exactly_stale_witness:
  "hb_socket_member (snd (hub_broadcast id (\<lambda>_. False) (lit ''h1'')
     (hub_connect (lit ''h1'') (lit ''u1'') 1 hub_empty))) 1 = None"
proof -
  have "hub_ok (\<lambda>_. lit ''h1'') (hub_connect (lit ''h1'') (lit ''u1'') 1 hub_empty)"
    by (rule hub_connect_ok) simp_all
  from broadcast_drops_exactly_stale [OF this, of "\<lambda>_. False" "lit ''h1''"]
  show ?thesis by (simp add: Let_def hub_connect_def split: prod.splits)
qed

end
