(* ===== verification/Tx_History.thy ===== *)
theory Tx_History
  imports Transactions
begin

text \<open>
  The history pages of \<open>backend/app/api/routes/transactions.py\<close>: signed cursors
  (\<open>_encode_history_cursor\<close>, \<open>_decode_history_cursor\<close>), the comparison of rows with a cursor and
  the handler \<open>list_transaction_history\<close>.  The locale \<open>keyset\<close> states what paging by a key relies
  on; its lemmas show that a page is the slice of the ordered history next to its cursor.
\<close>

subsection \<open>Cursors\<close>

text \<open>
  What the cursor functions take from the environment: the keyed hash (HMAC-SHA256 over the
  JSON text of a dictionary), the JSON and base64 transport, the texts of dates and instants, and
  the conversions \<open>str\<close> and \<open>int\<close> of JSON values.
\<close>

record cursor_codec =
  cd_sign :: "(pystr \<times> json) list \<Rightarrow> pystr"
  cd_token :: "(pystr \<times> json) list \<Rightarrow> pystr"
  cd_parse :: "pystr \<Rightarrow> json option"
  cd_iso_date :: "date \<Rightarrow> pystr"
  cd_parse_date :: "pystr \<Rightarrow> date option"
  cd_iso_instant :: "instant \<Rightarrow> pystr"
  cd_parse_instant :: "pystr \<Rightarrow> instant option"
  cd_str :: "json \<Rightarrow> pystr"
  cd_int :: "json \<Rightarrow> int option"

record history_cursor =
  cu_household_id :: pystr
  cu_occurred_on :: date
  cu_order_key :: int
  cu_created_at :: instant
  cu_transaction_id :: pystr

definition history_cursor_version :: int where
  "history_cursor_version = 2"

text \<open>\<open>json.dumps(payload, sort_keys=True)\<close> reads a dictionary in the order of its keys.\<close>

definition by_key :: "(pystr \<times> json) list \<Rightarrow> (pystr \<times> json) list" where
  "by_key payload = sort_key fst payload"

definition history_cursor_signature :: "cursor_codec \<Rightarrow> (pystr \<times> json) list \<Rightarrow> pystr" where
  "history_cursor_signature cd payload = cd_sign cd (by_key payload)"

definition cursor_payload :: "cursor_codec \<Rightarrow> transaction \<Rightarrow> pystr \<Rightarrow> (pystr \<times> json) list" where
  "cursor_payload cd t household_id =
     [(lit ''v'', JInt history_cursor_version), (lit ''household_id'', JStr household_id),
      (lit ''occurred_on'', JStr (cd_iso_date cd (tx_occurred_on t))), (lit ''order_key'', JInt (tx_order_key t)),
      (lit ''created_at'', JStr (cd_iso_instant cd (tx_created_at t))), (lit ''id'', JStr (tx_id t))]"

definition encode_history_cursor :: "cursor_codec \<Rightarrow> transaction \<Rightarrow> pystr \<Rightarrow> pystr" where
  "encode_history_cursor cd t household_id =
     (let payload = cursor_payload cd t household_id
      in cd_token cd (by_key (payload @ [(lit ''sig'', JStr (history_cursor_signature cd payload))])))"

text \<open>The truth value of a JSON value, and \<open>str(payload.get(key) or "")\<close>.\<close>

fun json_truthy :: "json \<Rightarrow> bool" where
  "json_truthy JNull \<longleftrightarrow> False"
| "json_truthy (JBool b) \<longleftrightarrow> b"
| "json_truthy (JInt n) \<longleftrightarrow> n \<noteq> 0"
| "json_truthy (JFloat r) \<longleftrightarrow> r \<noteq> 0"
| "json_truthy (JStr s) \<longleftrightarrow> s \<noteq> []"
| "json_truthy (JList xs) \<longleftrightarrow> xs \<noteq> []"
| "json_truthy (JObj xs) \<longleftrightarrow> xs \<noteq> []"

definition get_text :: "cursor_codec \<Rightarrow> (pystr \<times> json) list \<Rightarrow> string \<Rightarrow> pystr" where
  "get_text cd payload key =
     (case map_of payload (lit key) of
        Some (JStr s) \<Rightarrow> s
      | Some v \<Rightarrow> (if json_truthy v then cd_str cd v else [])
      | None \<Rightarrow> [])"

text \<open>\<open>int(v)\<close>, where a missing value raises.\<close>

definition get_int :: "cursor_codec \<Rightarrow> (pystr \<times> json) list \<Rightarrow> string \<Rightarrow> int option" where
  "get_int cd payload key =
     (case map_of payload (lit key) of
        Some (JInt n) \<Rightarrow> Some n
      | Some v \<Rightarrow> cd_int cd v
      | None \<Rightarrow> None)"

definition cursor_version_of :: "cursor_codec \<Rightarrow> (pystr \<times> json) list \<Rightarrow> int option" where
  "cursor_version_of cd payload =
     (case map_of payload (lit ''v'') of
        None \<Rightarrow> Some 0
      | Some v \<Rightarrow> if json_truthy v then get_int cd payload ''v'' else Some 0)"

definition cursor_invalid :: http_error where
  "cursor_invalid = AppError 400 ''TRANSACTION_HISTORY_CURSOR_INVALID''"

definition decode_history_cursor :: "cursor_codec \<Rightarrow> pystr \<Rightarrow> pystr \<Rightarrow> http_error + history_cursor" where
  "decode_history_cursor cd raw_cursor household_id =
     (let normalized = py_strip raw_cursor
      in if normalized = [] then Inl cursor_invalid
         else case cd_parse cd normalized of
           Some (JObj payload) \<Rightarrow>
             (let supplied_sig = get_text cd payload ''sig'';
                  unsigned = filter (\<lambda>(k, _). k \<noteq> lit ''sig'') payload
              in if supplied_sig = [] \<or> supplied_sig \<noteq> history_cursor_signature cd unsigned
                   \<or> cursor_version_of cd payload \<noteq> Some history_cursor_version
                   \<or> get_text cd payload ''household_id'' \<noteq> household_id
                 then Inl cursor_invalid
                 else case (cd_parse_date cd (get_text cd payload ''occurred_on''),
                            get_int cd payload ''order_key'',
                            cd_parse_instant cd (get_text cd payload ''created_at'')) of
                        (Some occurred_on, Some order_key, Some created_at) \<Rightarrow>
                          (let transaction_id = py_strip (get_text cd payload ''id'')
                           in if transaction_id = [] then Inl cursor_invalid
                              else Inr \<lparr>cu_household_id = household_id, cu_occurred_on = occurred_on,
                                        cu_order_key = order_key, cu_created_at = created_at,
                                        cu_transaction_id = transaction_id\<rparr>)
                      | _ \<Rightarrow> Inl cursor_invalid)
         | _ \<Rightarrow> Inl cursor_invalid)"

subsection \<open>Comparing rows with a cursor\<close>

definition older_than_cursor :: "history_cursor \<Rightarrow> transaction \<Rightarrow> bool" where
  "older_than_cursor c t \<longleftrightarrow>
     tx_occurred_on t < cu_occurred_on c
     \<or> (tx_occurred_on t = cu_occurred_on c \<and> tx_order_key t < cu_order_key c)
     \<or> (tx_occurred_on t = cu_occurred_on c \<and> tx_order_key t = cu_order_key c \<and> tx_created_at t < cu_created_at c)
     \<or> (tx_occurred_on t = cu_occurred_on c \<and> tx_order_key t = cu_order_key c \<and> tx_created_at t = cu_created_at c
        \<and> tx_id t < cu_transaction_id c)"

definition newer_than_cursor :: "history_cursor \<Rightarrow> transaction \<Rightarrow> bool" where
  "newer_than_cursor c t \<longleftrightarrow>
     tx_occurred_on t > cu_occurred_on c
     \<or> (tx_occurred_on t = cu_occurred_on c \<and> tx_order_key t > cu_order_key c)
     \<or> (tx_occurred_on t = cu_occurred_on c \<and> tx_order_key t = cu_order_key c \<and> tx_created_at t > cu_created_at c)
     \<or> (tx_occurred_on t = cu_occurred_on c \<and> tx_order_key t = cu_order_key c \<and> tx_created_at t = cu_created_at c
        \<and> tx_id t > cu_transaction_id c)"

text \<open>The orders of the two queries; the identifier makes the key of a row unique.\<close>

definition history_key :: "transaction \<Rightarrow> date \<times> int \<times> instant \<times> pystr" where
  "history_key t = (tx_occurred_on t, tx_order_key t, tx_created_at t, tx_id t)"

definition history_ordering_asc :: "transaction list \<Rightarrow> transaction list" where
  "history_ordering_asc ts = sort_key history_key ts"

definition history_ordering_desc :: "transaction list \<Rightarrow> transaction list" where
  "history_ordering_desc ts = rev (sort_key history_key ts)"

subsection \<open>The handler\<close>

datatype history_direction = Dir_initial | Dir_older | Dir_newer

record history_page =
  pg_items :: "transaction_read list"
  pg_older_cursor :: "pystr option"
  pg_newer_cursor :: "pystr option"
  pg_has_older :: bool
  pg_has_newer :: bool
  pg_anchor_date :: date
  pg_today :: date

definition history_rows :: "db \<Rightarrow> pystr \<Rightarrow> date \<Rightarrow> transaction list" where
  "history_rows d household_id upper =
     filter (\<lambda>t. tx_household_id t = household_id \<and> tx_occurred_on t \<le> upper) (db_transactions d)"

definition cursor_required :: http_error where
  "cursor_required = AppError 400 ''TRANSACTION_HISTORY_CURSOR_REQUIRED''"

text \<open>The rows of the page with \<open>has_older\<close> and \<open>has_newer\<close>.\<close>

definition history_page_rows ::
  "db \<Rightarrow> pystr \<Rightarrow> date \<Rightarrow> date \<Rightarrow> history_direction \<Rightarrow> history_cursor option \<Rightarrow> nat
   \<Rightarrow> http_error + (transaction list \<times> bool \<times> bool)" where
  "history_page_rows d household_id active_anchor today direction decoded_cursor limit =
     (let fetch_limit = limit + 1
      in case direction of
           Dir_older \<Rightarrow>
             (case decoded_cursor of
                None \<Rightarrow> Inl cursor_required
              | Some c \<Rightarrow>
                  (let raw_rows = take fetch_limit (history_ordering_desc
                         (filter (older_than_cursor c) (history_rows d household_id active_anchor)))
                   in Inr (rev (take limit raw_rows), limit < length raw_rows, True)))
         | Dir_newer \<Rightarrow>
             (case decoded_cursor of
                None \<Rightarrow> Inl cursor_required
              | Some c \<Rightarrow>
                  (let raw_rows = take fetch_limit (history_ordering_asc
                         (filter (newer_than_cursor c) (history_rows d household_id (max active_anchor today))))
                   in Inr (take limit raw_rows, True, limit < length raw_rows)))
         | Dir_initial \<Rightarrow>
             (let raw_rows = take fetch_limit (history_ordering_desc (history_rows d household_id active_anchor))
              in Inr (rev (take limit raw_rows), limit < length raw_rows, active_anchor < today)))"

definition list_transaction_history ::
  "cursor_codec \<Rightarrow> date \<Rightarrow> db \<Rightarrow> ctx \<Rightarrow> date option \<Rightarrow> history_direction \<Rightarrow> pystr option \<Rightarrow> nat
   \<Rightarrow> http_error + history_page" where
  "list_transaction_history cd today d ctx anchor_date direction cursor limit =
     (let household_id = hh_id (fst ctx);
          active_anchor = (case anchor_date of Some a \<Rightarrow> a | None \<Rightarrow> today);
          decoded = (if truthy_text cursor
                     then map_sum id Some (decode_history_cursor cd (the cursor) household_id) else Inr None)
      in case decoded of
           Inl e \<Rightarrow> Inl e
         | Inr decoded_cursor \<Rightarrow>
             (case history_page_rows d household_id active_anchor today direction decoded_cursor limit of
                Inl e \<Rightarrow> Inl e
              | Inr (page_rows, has_older, has_newer) \<Rightarrow>
                  Inr \<lparr>pg_items = map (\<lambda>t. to_transaction_read t (linked_owner_name d (tx_owner_user_id t))) page_rows,
                       pg_older_cursor = (case page_rows of [] \<Rightarrow> None
                         | t # _ \<Rightarrow> Some (encode_history_cursor cd t household_id)),
                       pg_newer_cursor = (if page_rows = [] then None
                         else Some (encode_history_cursor cd (last page_rows) household_id)),
                       pg_has_older = has_older, pg_has_newer = has_newer,
                       pg_anchor_date = active_anchor, pg_today = today\<rparr>))"

subsection \<open>Paging by a key\<close>

locale keyset =
  fixes key :: "'r \<Rightarrow> 'k::linorder"
    and pos :: "'c \<Rightarrow> 'k"
    and older :: "'c \<Rightarrow> 'r \<Rightarrow> bool"
    and newer :: "'c \<Rightarrow> 'r \<Rightarrow> bool"
  assumes older_iff: "older c r \<longleftrightarrow> key r < pos c"
    and newer_iff: "newer c r \<longleftrightarrow> pos c < key r"
begin

lemma sorted_split:
  assumes "distinct (map key rows)" and "sort_key key rows = pre @ x # post"
  shows "\<forall>r \<in> set pre. key r < key x" and "\<forall>r \<in> set post. key x < key r"
proof -
  have s: "sorted (map key (pre @ x # post))"
    using sorted_sort_key [of key rows] by (simp only: assms(2))
  have "distinct (map key (sort_key key rows))"
    using assms(1) by (simp add: distinct_map)
  then have d: "distinct (map key (pre @ x # post))" by (simp only: assms(2))
  show "\<forall>r \<in> set pre. key r < key x"
    using s d by (auto simp: sorted_append order.strict_iff_order image_iff)
  show "\<forall>r \<in> set post. key x < key r"
    using s d by (auto simp: sorted_append order.strict_iff_order image_iff)
qed

lemma older_slice:
  assumes "distinct (map key rows)" and "sort_key key rows = pre @ x # post" and "pos c = key x"
  shows "sort_key key (filter (older c) rows) = pre"
proof -
  note split = sorted_split [OF assms(1,2)]
  have "filter (older c) (sort_key key rows) = pre"
    unfolding assms(2) using split by (auto simp: older_iff assms(3) filter_empty_conv filter_id_conv)
  then show ?thesis by (simp only: filter_sort)
qed

lemma newer_slice:
  assumes "distinct (map key rows)" and "sort_key key rows = pre @ x # post" and "pos c = key x"
  shows "sort_key key (filter (newer c) rows) = post"
proof -
  note split = sorted_split [OF assms(1,2)]
  have "filter (newer c) (sort_key key rows) = post"
    unfolding assms(2) using split by (auto simp: newer_iff assms(3) filter_empty_conv filter_id_conv)
  then show ?thesis by (simp only: filter_sort)
qed

end

definition cursor_key :: "history_cursor \<Rightarrow> date \<times> int \<times> instant \<times> pystr" where
  "cursor_key c = (cu_occurred_on c, cu_order_key c, cu_created_at c, cu_transaction_id c)"

lemma less_quadruple:
  fixes a a' :: "'a::linorder" and b b' :: "'b::linorder" and c c' :: "'c::linorder" and d d' :: "'d::linorder"
  shows "(a, b, c, d) < (a', b', c', d') \<longleftrightarrow>
    a < a' \<or> (a = a' \<and> b < b') \<or> (a = a' \<and> b = b' \<and> c < c') \<or> (a = a' \<and> b = b' \<and> c = c' \<and> d < d')"
  by (auto simp: less_prod_simp order.strict_iff_order)

interpretation tx_pages: keyset history_key cursor_key older_than_cursor newer_than_cursor
proof unfold_locales
  fix c t
  show "older_than_cursor c t \<longleftrightarrow> history_key t < cursor_key c"
    unfolding older_than_cursor_def history_key_def cursor_key_def less_quadruple ..
  show "newer_than_cursor c t \<longleftrightarrow> cursor_key c < history_key t"
    unfolding newer_than_cursor_def history_key_def cursor_key_def less_quadruple by auto
qed

definition cursor_of :: "pystr \<Rightarrow> transaction \<Rightarrow> history_cursor" where
  "cursor_of household_id t =
     \<lparr>cu_household_id = household_id, cu_occurred_on = tx_occurred_on t, cu_order_key = tx_order_key t,
      cu_created_at = tx_created_at t, cu_transaction_id = tx_id t\<rparr>"

lemma cursor_key_of [simp]: "cursor_key (cursor_of h t) = history_key t"
  by (simp add: cursor_key_def cursor_of_def history_key_def)

text \<open>The specification of paging: the ordered history up to a day.\<close>

definition history :: "db \<Rightarrow> pystr \<Rightarrow> date \<Rightarrow> transaction list" where
  "history d household_id upper = sort_key history_key (history_rows d household_id upper)"

lemma history_keys_distinct:
  assumes "unique_keys tx_id (db_transactions d)"
  shows "distinct (map history_key (history_rows d h upper))"
proof -
  have "distinct (map tx_id (history_rows d h upper))"
    using assms unique_keys_filter [of tx_id "db_transactions d"] by (simp add: unique_keys_def history_rows_def)
  then have "distinct (map (\<lambda>(_, _, _, i). i) (map history_key (history_rows d h upper)))"
    by (simp add: history_key_def comp_def)
  then show ?thesis by (simp only: distinct_map)
qed

text \<open>The three kinds of pages as slices of the ordered history.\<close>

lemma last_page: "rev (take n (take (n + 1) (rev xs))) = drop (length xs - n) xs"
  by (simp add: rev_take min_def)

lemma more_than_page: "n < length (take (n + 1) xs) \<longleftrightarrow> n < length xs"
  by auto

lemma initial_rows:
  "history_page_rows d h a today Dir_initial c limit =
     Inr (drop (length (history d h a) - limit) (history d h a), limit < length (history d h a), a < today)"
  unfolding history_page_rows_def history_ordering_desc_def Let_def history_direction.case
    last_page more_than_page by (simp add: history_def)

lemma older_rows:
  assumes "unique_keys tx_id (db_transactions d)" and "history d h a = pre @ x # post"
  shows "history_page_rows d h a today Dir_older (Some (cursor_of h x)) limit =
     Inr (drop (length pre - limit) pre, limit < length pre, True)"
proof -
  have "sort_key history_key (filter (older_than_cursor (cursor_of h x)) (history_rows d h a)) = pre"
    by (rule tx_pages.older_slice [OF history_keys_distinct [OF assms(1)] assms(2) [unfolded history_def]]) simp
  then show ?thesis
    unfolding history_page_rows_def history_ordering_desc_def Let_def history_direction.case option.case
      last_page more_than_page by simp
qed

lemma newer_rows:
  assumes "unique_keys tx_id (db_transactions d)" and "history d h (max a today) = pre @ x # post"
  shows "history_page_rows d h a today Dir_newer (Some (cursor_of h x)) limit =
     Inr (take limit post, True, limit < length post)"
proof -
  have "sort_key history_key (filter (newer_than_cursor (cursor_of h x)) (history_rows d h (max a today))) = post"
    by (rule tx_pages.newer_slice [OF history_keys_distinct [OF assms(1)] assms(2) [unfolded history_def]]) simp
  then show ?thesis
    unfolding history_page_rows_def history_ordering_asc_def Let_def history_direction.case option.case
      more_than_page by simp
qed

subsection \<open>Cursors come back\<close>

text \<open>The transport gives back what it was given, and so do the texts of dates and instants.\<close>

definition codec_ok :: "cursor_codec \<Rightarrow> bool" where
  "codec_ok cd \<longleftrightarrow>
     (\<forall>payload. distinct (map fst payload) \<longrightarrow> cd_parse cd (cd_token cd payload) = Some (JObj payload))
     \<and> (\<forall>payload. py_strip (cd_token cd payload) = cd_token cd payload \<and> cd_token cd payload \<noteq> [])
     \<and> (\<forall>payload. cd_sign cd payload \<noteq> [])
     \<and> (\<forall>dt. cd_parse_date cd (cd_iso_date cd dt) = Some dt)
     \<and> (\<forall>i. cd_parse_instant cd (cd_iso_instant cd i) = Some i)"

lemma map_of_by_key: "distinct (map fst xs) \<Longrightarrow> map_of (by_key xs) = map_of xs"
  by (rule map_of_inject_set [THEN iffD2]) (simp_all add: by_key_def distinct_map)

lemma distinct_by_key: "distinct (map fst (by_key xs)) \<longleftrightarrow> distinct (map fst xs)"
  by (simp add: by_key_def distinct_map)

lemma signature_cong: "by_key xs = by_key ys \<Longrightarrow> history_cursor_signature cd xs = history_cursor_signature cd ys"
  by (simp add: history_cursor_signature_def)

lemma decode_encode:
  assumes "codec_ok cd" and "py_strip (tx_id t) = tx_id t" and "tx_id t \<noteq> []"
  shows "decode_history_cursor cd (encode_history_cursor cd t h) h' =
    (if h' = h then Inr (cursor_of h t) else Inl cursor_invalid)"
proof -
  let ?unsigned = "cursor_payload cd t h"
  let ?sig = "history_cursor_signature cd ?unsigned"
  let ?q = "?unsigned @ [(lit ''sig'', JStr ?sig)]"
  let ?p = "by_key ?q"
  have dist: "distinct (map fst ?q)" by (simp add: cursor_payload_def)
  note get = map_of_by_key [OF dist]
  have distp: "distinct (map fst ?p)"
    using dist by (simp only: distinct_by_key)
  have uns: "by_key (filter (\<lambda>(k, _). k \<noteq> lit ''sig'') ?p) = by_key ?unsigned"
  proof -
    have "filter (\<lambda>(k, _). k \<noteq> lit ''sig'') ?q = ?unsigned"
      by (simp add: cursor_payload_def)
    then show ?thesis
      unfolding by_key_def filter_sort by (simp add: sort_key_id_if_sorted)
  qed
  have parse: "cd_parse cd (py_strip (encode_history_cursor cd t h)) = Some (JObj ?p)"
    "py_strip (encode_history_cursor cd t h) \<noteq> []"
    using assms(1) distp by (simp_all add: codec_ok_def encode_history_cursor_def Let_def)
  have look: "map_of ?p (lit ''sig'') = Some (JStr ?sig)" "map_of ?p (lit ''household_id'') = Some (JStr h)"
    "map_of ?p (lit ''occurred_on'') = Some (JStr (cd_iso_date cd (tx_occurred_on t)))"
    "map_of ?p (lit ''created_at'') = Some (JStr (cd_iso_instant cd (tx_created_at t)))"
    "map_of ?p (lit ''id'') = Some (JStr (tx_id t))" "map_of ?p (lit ''order_key'') = Some (JInt (tx_order_key t))"
    "map_of ?p (lit ''v'') = Some (JInt history_cursor_version)"
    unfolding get by (simp_all add: cursor_payload_def)
  have texts: "get_text cd ?p ''sig'' = ?sig" "get_text cd ?p ''household_id'' = h"
    "get_text cd ?p ''occurred_on'' = cd_iso_date cd (tx_occurred_on t)"
    "get_text cd ?p ''created_at'' = cd_iso_instant cd (tx_created_at t)" "get_text cd ?p ''id'' = tx_id t"
    "get_int cd ?p ''order_key'' = Some (tx_order_key t)" "cursor_version_of cd ?p = Some history_cursor_version"
    by (simp_all add: get_text_def get_int_def look cursor_version_of_def history_cursor_version_def)
  have "history_cursor_signature cd (filter (\<lambda>(k, _). k \<noteq> lit ''sig'') ?p) = ?sig"
    by (rule signature_cong) (rule uns)
  moreover have "?sig \<noteq> []"
    using assms(1) by (simp add: history_cursor_signature_def codec_ok_def)
  moreover have dates: "cd_parse_date cd (cd_iso_date cd (tx_occurred_on t)) = Some (tx_occurred_on t)"
    "cd_parse_instant cd (cd_iso_instant cd (tx_created_at t)) = Some (tx_created_at t)"
    using assms(1) unfolding codec_ok_def by blast+
  ultimately show ?thesis
    unfolding decode_history_cursor_def Let_def parse(1) option.case json.case texts dates
    using parse(2) assms(2,3) by (simp add: cursor_of_def)
qed

subsection \<open>Answers\<close>

definition ids_stripped :: "db \<Rightarrow> bool" where
  "ids_stripped d \<longleftrightarrow> list_all (\<lambda>t. py_strip (tx_id t) = tx_id t \<and> tx_id t \<noteq> []) (db_transactions d)"

definition read_rows :: "db \<Rightarrow> transaction list \<Rightarrow> transaction_read list" where
  "read_rows d ts = map (\<lambda>t. to_transaction_read t (linked_owner_name d (tx_owner_user_id t))) ts"

lemma in_history: "t \<in> set (history d h a) \<Longrightarrow> t \<in> set (db_transactions d)"
  by (simp add: history_def history_rows_def)

lemma decode_row:
  assumes "codec_ok cd" "ids_stripped d" "t \<in> set (history d h a)"
  shows "decode_history_cursor cd (encode_history_cursor cd t h') h = (if h = h' then Inr (cursor_of h' t) else Inl cursor_invalid)"
  using assms in_history [OF assms(3)] by (intro decode_encode) (auto simp: ids_stripped_def list_all_iff)

lemma token_not_blank:
  "codec_ok cd \<Longrightarrow> encode_history_cursor cd t h \<noteq> []"
  by (simp add: encode_history_cursor_def Let_def codec_ok_def)

text \<open>The answer to a request whose cursor names a row of the history.\<close>

definition page_of :: "cursor_codec \<Rightarrow> date \<Rightarrow> db \<Rightarrow> pystr \<Rightarrow> date \<Rightarrow> transaction list \<Rightarrow> bool \<Rightarrow> bool \<Rightarrow> history_page" where
  "page_of cd today d h a rows older newer =
     \<lparr>pg_items = read_rows d rows,
      pg_older_cursor = (case rows of [] \<Rightarrow> None | t # _ \<Rightarrow> Some (encode_history_cursor cd t h)),
      pg_newer_cursor = (if rows = [] then None else Some (encode_history_cursor cd (last rows) h)),
      pg_has_older = older, pg_has_newer = newer, pg_anchor_date = a, pg_today = today\<rparr>"

lemma older_request:
  assumes "codec_ok cd" "ids_stripped d" "unique_keys tx_id (db_transactions d)"
    and "history d (hh_id (fst ctx)) a = pre @ x # post"
  shows "list_transaction_history cd today d ctx (Some a) Dir_older
      (Some (encode_history_cursor cd x (hh_id (fst ctx)))) limit =
    Inr (page_of cd today d (hh_id (fst ctx)) a (drop (length pre - limit) pre) (limit < length pre) True)"
proof -
  have x: "x \<in> set (history d (hh_id (fst ctx)) a)" by (simp add: assms(4))
  show ?thesis
    using token_not_blank [OF assms(1)] decode_row [OF assms(1,2) x] older_rows [OF assms(3,4)]
    by (simp add: list_transaction_history_def truthy_text_def page_of_def read_rows_def Let_def)
qed

lemma newer_request:
  assumes "codec_ok cd" "ids_stripped d" "unique_keys tx_id (db_transactions d)"
    and "history d (hh_id (fst ctx)) (max a today) = pre @ x # post"
  shows "list_transaction_history cd today d ctx (Some a) Dir_newer
      (Some (encode_history_cursor cd x (hh_id (fst ctx)))) limit =
    Inr (page_of cd today d (hh_id (fst ctx)) a (take limit post) True (limit < length post))"
proof -
  have x: "x \<in> set (history d (hh_id (fst ctx)) (max a today))" by (simp add: assms(4))
  show ?thesis
    using token_not_blank [OF assms(1)] decode_row [OF assms(1,2) x] newer_rows [OF assms(3,4)]
    by (simp add: list_transaction_history_def truthy_text_def page_of_def read_rows_def Let_def)
qed

text \<open>A client that follows the older cursors, one page per unit of fuel.\<close>

fun collect_older ::
  "nat \<Rightarrow> cursor_codec \<Rightarrow> date \<Rightarrow> db \<Rightarrow> ctx \<Rightarrow> date \<Rightarrow> nat \<Rightarrow> pystr \<Rightarrow> transaction_read list option" where
  "collect_older 0 cd today d ctx a limit cursor = None"
| "collect_older (Suc fuel) cd today d ctx a limit cursor =
     (case list_transaction_history cd today d ctx (Some a) Dir_older (Some cursor) limit of
        Inl _ \<Rightarrow> None
      | Inr pg \<Rightarrow>
          (if pg_has_older pg then
             (case pg_older_cursor pg of
                None \<Rightarrow> None
              | Some c \<Rightarrow> map_option (\<lambda>rest. rest @ pg_items pg) (collect_older fuel cd today d ctx a limit c))
           else Some (pg_items pg)))"

lemma collect_older_all:
  assumes "codec_ok cd" "ids_stripped d" "unique_keys tx_id (db_transactions d)" "0 < limit"
  shows "history d (hh_id (fst ctx)) a = pre @ x # post \<Longrightarrow> length pre < fuel \<Longrightarrow>
    collect_older fuel cd today d ctx a limit (encode_history_cursor cd x (hh_id (fst ctx))) = Some (read_rows d pre)"
proof (induction fuel arbitrary: pre x post)
  case (Suc fuel)
  note req = older_request [OF assms(1-3) Suc.prems(1), of today limit]
  show ?case
  proof (cases "limit < length pre")
    case False
    then show ?thesis by (simp add: req page_of_def)
  next
    case True
    let ?k = "length pre - limit"
    from True assms(4) have k: "?k < length pre" by simp
    then have pre: "pre = take ?k pre @ pre ! ?k # drop (Suc ?k) pre" and
      dk: "drop ?k pre = pre ! ?k # drop (Suc ?k) pre"
      by (simp_all add: id_take_nth_drop Cons_nth_drop_Suc)
    have "history d (hh_id (fst ctx)) a = take ?k pre @ pre ! ?k # (drop (Suc ?k) pre @ x # post)"
      using Suc.prems(1) pre by (metis append.assoc append_Cons)
    moreover have "length (take ?k pre) < fuel" using Suc.prems(2) k assms(4) by simp
    ultimately have "collect_older fuel cd today d ctx a limit
        (encode_history_cursor cd (pre ! ?k) (hh_id (fst ctx))) = Some (read_rows d (take ?k pre))"
      by (rule Suc.IH)
    moreover have "read_rows d (take ?k pre) @ read_rows d (drop ?k pre) = read_rows d pre"
      unfolding read_rows_def map_append [symmetric] append_take_drop_id ..
    ultimately show ?thesis
      using True by (simp add: req page_of_def dk)
  qed
qed simp

end
