(* ===== verification/History_Claims.thy ===== *)
theory History_Claims
  imports Tx_History Samples "HOL-Library.Countable"
begin

text \<open>
  The properties of the transaction history: cursors come back and stay in their household,
  following the older cursors yields the whole history, and newer pages continue it.
\<close>

subsection \<open>A sample codec\<close>

instance json :: countable
  by countable_datatype

definition sample_codec :: cursor_codec where
  "sample_codec =
     \<lparr>cd_sign = (\<lambda>_. [65]), cd_token = (\<lambda>p. [int (to_nat p) + 20000]),
      cd_parse = (\<lambda>s. Some (JObj (from_nat (nat (hd s - 20000))))),
      cd_iso_date = (\<lambda>(y, m, d). [y, m, d]), cd_parse_date = (\<lambda>s. Some (s ! 0, s ! 1, s ! 2)),
      cd_iso_instant = (\<lambda>i. [i]), cd_parse_instant = (\<lambda>s. Some (hd s)),
      cd_str = (\<lambda>_. []), cd_int = (\<lambda>_. None)\<rparr>"

lemma sample_codec_ok: "codec_ok sample_codec"
proof -
  have "py_strip [int n + 20000] = [int n + 20000]" for n
    by (simp add: py_strip_def strip_by_def py_space_def)
  then show ?thesis by (auto simp: codec_ok_def sample_codec_def)
qed

lemma sample_history:
  "ids_stripped sample_db" "unique_keys tx_id (db_transactions sample_db)"
  "history sample_db (hh_id (fst sample_ctx)) (2024, 5, 2) =
     [sample_tx ''t1'' 1 ''a'', sample_tx ''t2'' 2 ''b'', sample_tx ''t3'' 2048 ''c'']"
  by code_simp+

subsection \<open>The properties\<close>

text \<open>(cursor round trip): decoding the cursor of a transaction gives back its place in the
order for the household it was made for, and the error TRANSACTION_HISTORY_CURSOR_INVALID for any
other household.\<close>

theorem history_cursor_roundtrip:
  assumes "codec_ok cd" and "py_strip (tx_id t) = tx_id t" and "tx_id t \<noteq> []"
  shows "decode_history_cursor cd (encode_history_cursor cd t h) h' =
    (if h' = h
     then Inr \<lparr>cu_household_id = h, cu_occurred_on = tx_occurred_on t, cu_order_key = tx_order_key t,
               cu_created_at = tx_created_at t, cu_transaction_id = tx_id t\<rparr>
     else Inl cursor_invalid)"
  using decode_encode [OF assms] by (simp add: cursor_of_def)

lemma history_cursor_roundtrip_witness: "decode_history_cursor sample_codec (encode_history_cursor sample_codec (sample_tx ''t1'' 1 ''a'') (lit ''h1'')) (lit ''h2'')
   = Inl cursor_invalid"
proof -
  have "py_strip (tx_id (sample_tx ''t1'' 1 ''a'')) = tx_id (sample_tx ''t1'' 1 ''a'')"
    "tx_id (sample_tx ''t1'' 1 ''a'') \<noteq> []" by code_simp+
  from history_cursor_roundtrip [OF sample_codec_ok this, of "lit ''h1''" "lit ''h2''"] show ?thesis by simp
qed

text \<open>C13 (walking back is complete): the first page, preceded by the pages a client gets by
following the older cursors, is the whole history up to the anchor in order, every transaction
once; the walk ends, with at most one request more than there are transactions.\<close>

theorem history_walk_complete:
  assumes "codec_ok cd" and "ids_stripped d" and "unique_keys tx_id (db_transactions d)" and "0 < limit"
    and "list_transaction_history cd today d ctx (Some a) Dir_initial None limit = Inr pg"
    and "length (history d (hh_id (fst ctx)) a) < fuel"
  shows "if pg_has_older pg
    then \<exists>c rest. pg_older_cursor pg = Some c \<and> collect_older fuel cd today d ctx a limit c = Some rest
      \<and> rest @ pg_items pg = read_rows d (history d (hh_id (fst ctx)) a)
    else pg_items pg = read_rows d (history d (hh_id (fst ctx)) a)"
proof -
  let ?h = "history d (hh_id (fst ctx)) a"
  let ?k = "length ?h - limit"
  have pg: "pg = page_of cd today d (hh_id (fst ctx)) a (drop ?k ?h) (limit < length ?h) (a < today)"
    using assms(5) by (simp add: list_transaction_history_def truthy_text_def initial_rows page_of_def read_rows_def Let_def)
  show ?thesis
  proof (cases "limit < length ?h")
    case False
    with pg show ?thesis by (simp add: page_of_def)
  next
    case True
    with assms(4) have k: "?k < length ?h" by simp
    then have h: "?h = take ?k ?h @ ?h ! ?k # drop (Suc ?k) ?h" and
      dk: "drop ?k ?h = ?h ! ?k # drop (Suc ?k) ?h"
      by (simp_all add: id_take_nth_drop Cons_nth_drop_Suc)
    have "collect_older fuel cd today d ctx a limit (encode_history_cursor cd (?h ! ?k) (hh_id (fst ctx)))
        = Some (read_rows d (take ?k ?h))"
      by (rule collect_older_all [OF assms(1-4) h]) (use assms(6) in simp)
    moreover have "read_rows d (take ?k ?h) @ read_rows d (drop ?k ?h) = read_rows d ?h"
      unfolding read_rows_def map_append [symmetric] append_take_drop_id ..
    ultimately show ?thesis
      using True unfolding pg by (simp add: page_of_def dk)
  qed
qed

lemma history_walk_complete_witness:
  "\<exists>pg c rest. list_transaction_history sample_codec (2024, 5, 2) sample_db sample_ctx (Some (2024, 5, 2)) Dir_initial None 2 = Inr pg
     \<and> pg_older_cursor pg = Some c
     \<and> collect_older 4 sample_codec (2024, 5, 2) sample_db sample_ctx (2024, 5, 2) 2 c = Some rest
     \<and> map tr_id (rest @ pg_items pg) = map lit [''t1'', ''t2'', ''t3'']"
proof -
  obtain pg where pg: "list_transaction_history sample_codec (2024, 5, 2) sample_db sample_ctx
      (Some (2024, 5, 2)) Dir_initial None 2 = Inr pg" "pg_has_older pg"
    by (simp add: list_transaction_history_def truthy_text_def initial_rows sample_history Let_def)
  obtain c rest where c: "pg_older_cursor pg = Some c"
      "collect_older 4 sample_codec (2024, 5, 2) sample_db sample_ctx (2024, 5, 2) 2 c = Some rest"
      "rest @ pg_items pg = read_rows sample_db (history sample_db (hh_id (fst sample_ctx)) (2024, 5, 2))"
    using history_walk_complete [OF sample_codec_ok sample_history(1,2) _ pg(1), of 4] pg(2)
    by (auto simp: sample_history(3))
  moreover have "map tr_id (read_rows sample_db (history sample_db (hh_id (fst sample_ctx)) (2024, 5, 2))) =
      map lit [''t1'', ''t2'', ''t3'']" by code_simp
  ultimately show ?thesis using pg(1) by metis
qed

text \<open>(a newer page continues the history): the page after the cursor of a row holds exactly
the next rows of the history up to the later of anchor and today, and \<open>has_newer\<close> tells whether
rows are left.\<close>

theorem newer_page_follows:
  assumes "codec_ok cd" and "ids_stripped d" and "unique_keys tx_id (db_transactions d)"
    and "history d (hh_id (fst ctx)) (max a today) = pre @ x # post"
  shows "\<exists>pg. list_transaction_history cd today d ctx (Some a) Dir_newer
      (Some (encode_history_cursor cd x (hh_id (fst ctx)))) limit = Inr pg
    \<and> pg_items pg = read_rows d (take limit post) \<and> (pg_has_newer pg \<longleftrightarrow> limit < length post)
    \<and> (pg_items pg \<noteq> [] \<longrightarrow> pg_newer_cursor pg = Some (encode_history_cursor cd (last (take limit post)) (hh_id (fst ctx))))"
  using newer_request [OF assms] by (auto simp: page_of_def read_rows_def)

lemma newer_page_follows_witness:
  "\<exists>pg. list_transaction_history sample_codec (2024, 5, 2) sample_db sample_ctx (Some (2024, 5, 1)) Dir_newer
      (Some (encode_history_cursor sample_codec (sample_tx ''t1'' 1 ''a'') (lit ''h1''))) 1 = Inr pg
     \<and> map tr_id (pg_items pg) = [lit ''t2''] \<and> pg_has_newer pg"
proof -
  have m: "max (2024, 5, 1) (2024, 5, 2) = ((2024, 5, 2) :: date)" by code_simp
  have h: "history sample_db (hh_id (fst sample_ctx)) (max (2024, 5, 1) (2024, 5, 2)) =
      [] @ sample_tx ''t1'' 1 ''a'' # [sample_tx ''t2'' 2 ''b'', sample_tx ''t3'' 2048 ''c'']"
    unfolding m sample_history(3) by simp
  have i: "hh_id (fst sample_ctx) = lit ''h1''" by code_simp
  have r: "map tr_id (read_rows sample_db (take 1 [sample_tx ''t2'' 2 ''b'', sample_tx ''t3'' 2048 ''c''])) = [lit ''t2'']"
    by code_simp
  from newer_page_follows [OF sample_codec_ok sample_history(1,2) h, of 1] r show ?thesis
    unfolding i by auto
qed

end
