(* ===== verification/Owner_Remap.thy ===== *)
theory Owner_Remap
  imports Household Holdings
begin

text \<open>
  \<open>remap_legacy_owner\<close> of \<open>backend/app/api/routes/household.py\<close>: every transaction and holding of
  the household whose bare owner name has the source's key is handed to a member, through the
  optimistic merge, in one commit.  The lemmas compute the rows it writes.
\<close>

subsection \<open>Payload and answer\<close>

record legacy_owner_remap_request =
  lr_owner_name :: pystr
  lr_target_owner_user_id :: pystr

record legacy_owner_remap_response =
  lp_source_owner_name :: pystr
  lp_target_owner_user_id :: pystr
  lp_target_owner_name :: pystr
  lp_remapped_transactions :: nat
  lp_remapped_holdings :: nat

definition validate_legacy_owner_remap :: "legacy_owner_remap_request \<Rightarrow> legacy_owner_remap_request option" where
  "validate_legacy_owner_remap p =
     (case (required_text 80 (lr_owner_name p), required_text 36 (lr_target_owner_user_id p)) of
        (Some a, Some b) \<Rightarrow> Some (p\<lparr>lr_owner_name := a, lr_target_owner_user_id := b\<rparr>)
      | _ \<Rightarrow> None)"

subsection \<open>The rows to remap\<close>

definition tx_legacy :: "pystr \<Rightarrow> pystr \<Rightarrow> transaction \<Rightarrow> bool" where
  "tx_legacy household_id owner_key t \<longleftrightarrow>
     tx_household_id t = household_id \<and> tx_owner_user_id t = None \<and> tx_owner_name t \<noteq> None
     \<and> legacy_owner_name_key (tx_owner_name t) = owner_key"

definition hd_legacy :: "pystr \<Rightarrow> pystr \<Rightarrow> holding \<Rightarrow> bool" where
  "hd_legacy household_id owner_key x \<longleftrightarrow>
     hd_household_id x = household_id \<and> hd_owner_user_id x = None \<and> hd_owner_name x \<noteq> None
     \<and> legacy_owner_name_key (hd_owner_name x) = owner_key"

text \<open>
  The loops over the candidates: each is patched against its own version; a conflict, which
  nothing catches, would be an internal error.  The value has the patched rows, the new log
  rows and the identifiers of the changed ones.
\<close>

fun merge_each ::
  "('u, 'e) entity_ops \<Rightarrow> patch_log list \<Rightarrow> pystr \<Rightarrow> pystr \<Rightarrow> 'u list \<Rightarrow> 'e list
   \<Rightarrow> http_error + ('e list \<times> patch_log list \<times> pystr list)" where
  "merge_each ops logs household_id user_id patch [] = Inr ([], [], [])"
| "merge_each ops logs household_id user_id patch (e # es) =
     (case merge_patch_or_raise ops logs e household_id (Some user_id) (op_version ops e) patch of
        Inl _ \<Rightarrow> Inl ServerError
      | Inr (_, changed_fields, e', new) \<Rightarrow>
          (case merge_each ops (logs @ new) household_id user_id patch es of
             Inl x \<Rightarrow> Inl x
           | Inr (es', new', ids) \<Rightarrow>
               Inr (e' # es', new @ new', if changed_fields = [] then ids else op_id ops e # ids)))"

text \<open>The rows of a table after the session's changed rows are written.\<close>

definition write_back :: "('r \<Rightarrow> 'k) \<Rightarrow> 'r list \<Rightarrow> 'r list \<Rightarrow> 'r list" where
  "write_back key changed rows = map (\<lambda>r. case row_get key (key r) changed of Some r' \<Rightarrow> r' | None \<Rightarrow> r) rows"

definition remap_error :: http_error where
  "remap_error = AppError 400 ''LEGACY_OWNER_REMAP_TARGET_INVALID''"

definition remap_legacy_owner ::
  "env \<Rightarrow> (db \<Rightarrow> db) \<Rightarrow> db \<Rightarrow> ctx \<Rightarrow> pystr \<Rightarrow> legacy_owner_remap_request \<Rightarrow> legacy_owner_remap_response outcome" where
  "remap_legacy_owner ev interleave d ctx user_id p =
     (let household_id = hh_id (fst ctx);
          source_owner_name = (case normalize_legacy_owner_name (Some (lr_owner_name p)) of
                                 Some n \<Rightarrow> n | None \<Rightarrow> lr_owner_name p);
          source_owner_key = legacy_owner_name_key (Some source_owner_name)
      in case locked_get d household_id (mb_id (snd ctx)) of
           None \<Rightarrow> fail d (AppError 403 ''HOUSEHOLD_ROLE_FORBIDDEN'')
         | Some actor \<Rightarrow>
        (if mb_role actor \<notin> {Role_editor, Role_co_owner, Role_owner}
         then fail d (AppError 403 ''HOUSEHOLD_ROLE_FORBIDDEN'')
         else case find (\<lambda>m. mb_user_id m = lr_target_owner_user_id p) (lock_household_members d household_id) of
           None \<Rightarrow> fail d remap_error
         | Some target_member \<Rightarrow>
        (case row_get us_id (mb_user_id target_member) (db_users d) of
           None \<Rightarrow> fail d remap_error
         | Some target_user \<Rightarrow>
        (let target_owner_name = py_strip (us_display_name target_user)
         in if target_owner_name = [] then fail d remap_error
            else case merge_each tx_ops (db_patch_logs d) household_id user_id
                        [Upd_owner_user_id (Some (us_id target_user)), Upd_owner_name (Some target_owner_name)]
                        (filter (tx_legacy household_id source_owner_key) (db_transactions d)) of
              Inl e \<Rightarrow> fail d e
            | Inr (txs, tx_logs, tx_ids) \<Rightarrow>
           (case merge_each hd_ops (db_patch_logs d @ tx_logs) household_id user_id
                   [Hupd_owner_user_id (Some (us_id target_user)), Hupd_owner_name (Some target_owner_name)]
                   (filter (hd_legacy household_id source_owner_key) (db_holdings d)) of
              Inl e \<Rightarrow> fail d e
            | Inr (hds, hd_logs, hd_ids) \<Rightarrow>
           (let c = interleave d;
                stamp_tx = (\<lambda>t. if tx_id t \<in> set tx_ids then t\<lparr>tx_updated_at := ev_db_now ev\<rparr> else t);
                stamp_hd = (\<lambda>x. if hd_id x \<in> set hd_ids then x\<lparr>hd_updated_at := ev_db_now ev\<rparr> else x);
                new_holdings = write_back hd_id (map stamp_hd hds) (db_holdings c)
            in if \<not> distinct (map (identity_index ev) new_holdings)
               then fail c (AppError 409 ''LEGACY_OWNER_REMAP_CONFLICT'')
               else done_with
                 (set_patch_logs (db_patch_logs c @ tx_logs @ hd_logs)
                   (set_holdings new_holdings
                     (set_transactions (write_back tx_id (map stamp_tx txs) (db_transactions c)) c)))
                 [(household_id, Legacy_owner_remapped source_owner_name (us_id target_user)
                     (int (length tx_ids)) (int (length hd_ids)))]
                 \<lparr>lp_source_owner_name = source_owner_name, lp_target_owner_user_id = us_id target_user,
                  lp_target_owner_name = target_owner_name,
                  lp_remapped_transactions = length tx_ids, lp_remapped_holdings = length hd_ids\<rparr>))))))"

subsection \<open>What the loops compute\<close>

text \<open>The log row of a patch against the version of the entity itself.\<close>

definition fresh_log :: "('u, 'e) entity_ops \<Rightarrow> pystr \<Rightarrow> pystr \<Rightarrow> 'u list \<Rightarrow> 'e \<Rightarrow> patch_log" where
  "fresh_log ops household_id user_id patch e =
     \<lparr>pl_household_id = household_id, pl_entity_type = op_type ops, pl_entity_id = op_id ops e,
      pl_base_version = op_version ops e, pl_resulting_version = op_version ops e + 1,
      pl_changed_fields = sort (map (op_key ops) (effective_patch ops e patch)), pl_merged = False,
      pl_conflict_fields = [], pl_actor_user_id = Some user_id\<rparr>"

context patchable
begin

lemma effective_after_set:
  "op_key ops u \<notin> op_key ops ` set us \<Longrightarrow> effective_patch ops (op_set ops u e) us = effective_patch ops e us"
  unfolding effective_patch_def by (rule filter_cong) (auto simp: same_set_other image_iff)

lemma apply_effective:
  "distinct (map (op_key ops) us) \<Longrightarrow> apply_updates ops (effective_patch ops e us) e = apply_updates ops us e"
proof (induction us arbitrary: e)
  case (Cons u us)
  then have u: "op_key ops u \<notin> op_key ops ` set us" by simp
  show ?case
  proof (cases "op_same ops u e")
    case True
    then have "effective_patch ops e (u # us) = effective_patch ops e us" "op_set ops u e = e"
      by (simp_all add: effective_patch_def set_same)
    with Cons show ?thesis by (simp add: apply_updates_def)
  next
    case False
    then have "effective_patch ops e (u # us) = u # effective_patch ops (op_set ops u e) us"
      using effective_after_set [OF u] by (simp add: effective_patch_def)
    with Cons show ?thesis by (simp add: apply_updates_def)
  qed
qed (simp add: effective_patch_def)

lemma merge_each_all:
  assumes "distinct (map (op_key ops) patch)" and "\<And>e. e \<in> set es \<Longrightarrow> \<exists>u \<in> set patch. \<not> op_same ops u e"
  shows "merge_each ops logs hh user patch es =
    Inr (map (\<lambda>e. op_set_version ops (op_version ops e + 1) (apply_updates ops patch e)) es,
         map (fresh_log ops hh user patch) es, map (op_id ops) es)"
  using assms(2)
proof (induction es arbitrary: logs)
  case (Cons e es)
  from Cons.prems have ne: "effective_patch ops e patch \<noteq> []"
    by (auto simp: effective_patch_def filter_empty_conv)
  then have nz: "sort (map (op_key ops) (effective_patch ops e patch)) \<noteq> []"
    by (simp add: sort_eq_Nil_iff)
  obtain merged flds e' row where m:
    "merge_patch_or_raise ops logs e hh (Some user) (op_version ops e) patch = Inr (merged, flds, e', row)"
    using merge_conflict_iff [of "op_version ops e" ops e logs hh "Some user" patch]
    by (metis prod_cases4 sum.exhaust)
  then have r: "flds \<noteq> []" "row = [fresh_log ops hh user patch e]"
    "e' = op_set_version ops (op_version ops e + 1) (apply_updates ops patch e)"
    using ne nz by (cases rule: merge_okE; simp add: apply_effective [OF assms(1)] fresh_log_def)+
  with Cons m show ?case by simp
qed simp

end

lemma write_back_map:
  assumes "unique_keys key rows" and "\<And>r. key (f r) = key r"
  shows "write_back key (map f (filter p rows)) rows = map (\<lambda>r. if p r then f r else r) rows"
proof -
  have get: "row_get key k (map f rs) = map_option f (row_get key k rs)" for k rs
    using assms(2) by (induction rs) simp_all
  have "row_get key (key r) (filter p rows) = (if p r then Some r else None)" if "r \<in> set rows" for r
  proof (cases "p r")
    case True
    with that row_get_unique [OF unique_keys_filter [OF assms(1)], of r p] show ?thesis by simp
  next
    case False
    have "key r \<notin> key ` set (filter p rows)"
      using assms(1) that False by (auto simp: unique_keys_def distinct_map inj_on_def)
    with False show ?thesis by (simp add: row_get_None_iff)
  qed
  then show ?thesis by (simp add: write_back_def get)
qed

definition remapped_tx :: "env \<Rightarrow> pystr \<Rightarrow> pystr \<Rightarrow> transaction \<Rightarrow> transaction" where
  "remapped_tx ev uid name t =
     t\<lparr>tx_owner_user_id := Some uid, tx_owner_name := Some name, tx_version := tx_version t + 1,
       tx_updated_at := ev_db_now ev\<rparr>"

definition remapped_hd :: "env \<Rightarrow> pystr \<Rightarrow> pystr \<Rightarrow> holding \<Rightarrow> holding" where
  "remapped_hd ev uid name x =
     x\<lparr>hd_owner_user_id := Some uid, hd_owner_name := Some name, hd_version := hd_version x + 1,
       hd_updated_at := ev_db_now ev\<rparr>"

text \<open>The log row of a remapped row: the name is a changed field unless it was the member's already.\<close>

definition remap_log :: "string \<Rightarrow> pystr \<Rightarrow> pystr \<Rightarrow> pystr \<Rightarrow> pystr \<Rightarrow> int \<Rightarrow> pystr option \<Rightarrow> patch_log" where
  "remap_log kind h user name entity_id version old_name =
     \<lparr>pl_household_id = h, pl_entity_type = kind, pl_entity_id = entity_id, pl_base_version = version,
      pl_resulting_version = version + 1,
      pl_changed_fields = (if old_name = Some name then [''owner_user_id''] else [''owner_name'', ''owner_user_id'']),
      pl_merged = False, pl_conflict_fields = [], pl_actor_user_id = Some user\<rparr>"

abbreviation remap_log_tx :: "pystr \<Rightarrow> pystr \<Rightarrow> pystr \<Rightarrow> transaction \<Rightarrow> patch_log" where
  "remap_log_tx h user name t \<equiv> remap_log ''transaction'' h user name (tx_id t) (tx_version t) (tx_owner_name t)"

abbreviation remap_log_hd :: "pystr \<Rightarrow> pystr \<Rightarrow> pystr \<Rightarrow> holding \<Rightarrow> patch_log" where
  "remap_log_hd h user name x \<equiv> remap_log ''holding'' h user name (hd_id x) (hd_version x) (hd_owner_name x)"

lemma fresh_log_legacy:
  "tx_legacy h k t \<Longrightarrow> fresh_log tx_ops hh user [Upd_owner_user_id (Some uid), Upd_owner_name (Some name)] t = remap_log_tx hh user name t"
  "hd_legacy h k x \<Longrightarrow> fresh_log hd_ops hh user [Hupd_owner_user_id (Some uid), Hupd_owner_name (Some name)] x = remap_log_hd hh user name x"
  by (simp_all add: fresh_log_def remap_log_def effective_patch_def tx_legacy_def hd_legacy_def tx_ops_def hd_ops_def)

lemma merge_each_legacy_tx:
  "merge_each tx_ops logs hh user [Upd_owner_user_id (Some uid), Upd_owner_name (Some name)]
      (filter (tx_legacy h k) ts) =
    Inr (map (\<lambda>t. t\<lparr>tx_owner_user_id := Some uid, tx_owner_name := Some name, tx_version := tx_version t + 1\<rparr>)
        (filter (tx_legacy h k) ts), map (remap_log_tx hh user name) (filter (tx_legacy h k) ts),
        map tx_id (filter (tx_legacy h k) ts))"
  by (subst tx_patch.merge_each_all) (auto simp: tx_legacy_def apply_updates_def fresh_log_legacy [of h k])

lemma merge_each_legacy_hd:
  "merge_each hd_ops logs hh user [Hupd_owner_user_id (Some uid), Hupd_owner_name (Some name)]
      (filter (hd_legacy h k) xs) =
    Inr (map (\<lambda>x. x\<lparr>hd_owner_user_id := Some uid, hd_owner_name := Some name, hd_version := hd_version x + 1\<rparr>)
        (filter (hd_legacy h k) xs), map (remap_log_hd hh user name) (filter (hd_legacy h k) xs),
        map hd_id (filter (hd_legacy h k) xs))"
  by (subst hd_patch.merge_each_all) (auto simp: hd_legacy_def apply_updates_def fresh_log_legacy [of h k])

text \<open>A successful remap, with the loops computed.\<close>

definition remap_source_name :: "legacy_owner_remap_request \<Rightarrow> pystr" where
  "remap_source_name p =
     (case normalize_legacy_owner_name (Some (lr_owner_name p)) of Some n \<Rightarrow> n | None \<Rightarrow> lr_owner_name p)"

lemma remap_ok:
  fixes d ctx p
  defines "h \<equiv> hh_id (fst ctx)" and "k \<equiv> legacy_owner_name_key (Some (remap_source_name p))"
  assumes u: "unique_keys tx_id (db_transactions d)" "unique_keys hd_id (db_holdings d)"
    and ok: "remap_legacy_owner ev id d ctx user_id p = (Inr res, d', evs)"
  obtains m tu n where
    "m \<in> set (db_members d)" "mb_household_id m = h" "mb_user_id m = lr_target_owner_user_id p"
    "tu \<in> set (db_users d)" "us_id tu = lr_target_owner_user_id p" "n = py_strip (us_display_name tu)" "n \<noteq> []"
    "distinct (map (identity_index ev) (db_holdings d'))"
    "d' = set_patch_logs (db_patch_logs d @ map (remap_log_tx h user_id n) (filter (tx_legacy h k) (db_transactions d))
                          @ map (remap_log_hd h user_id n) (filter (hd_legacy h k) (db_holdings d)))
       (set_holdings (map (\<lambda>x. if hd_legacy h k x then remapped_hd ev (us_id tu) n x else x) (db_holdings d))
         (set_transactions (map (\<lambda>t. if tx_legacy h k t then remapped_tx ev (us_id tu) n t else t) (db_transactions d)) d))"
    "res = \<lparr>lp_source_owner_name = remap_source_name p, lp_target_owner_user_id = us_id tu, lp_target_owner_name = n,
      lp_remapped_transactions = length (filter (tx_legacy h k) (db_transactions d)),
      lp_remapped_holdings = length (filter (hd_legacy h k) (db_holdings d))\<rparr>"
proof -
  note def = ok [unfolded remap_legacy_owner_def Let_def, folded h_def remap_source_name_def, folded k_def]
  obtain actor where a: "locked_get d h (mb_id (snd ctx)) = Some actor"
    "mb_role actor \<in> {Role_editor, Role_co_owner, Role_owner}"
    using def by (auto split: option.splits if_splits)
  obtain m where m: "find (\<lambda>m. mb_user_id m = lr_target_owner_user_id p) (lock_household_members d h) = Some m"
    using def a by (auto split: option.splits)
  obtain tu where tu: "row_get us_id (mb_user_id m) (db_users d) = Some tu" "py_strip (us_display_name tu) \<noteq> []"
    using def a m by (auto split: option.splits if_splits)
  let ?n = "py_strip (us_display_name tu)"
  have stamp_t: "map (\<lambda>t. if tx_id t \<in> set (map tx_id (filter (tx_legacy h k) (db_transactions d)))
        then t\<lparr>tx_updated_at := ev_db_now ev\<rparr> else t)
      (map (\<lambda>t. t\<lparr>tx_owner_user_id := Some (us_id tu), tx_owner_name := Some ?n, tx_version := tx_version t + 1\<rparr>)
        (filter (tx_legacy h k) (db_transactions d)))
    = map (remapped_tx ev (us_id tu) ?n) (filter (tx_legacy h k) (db_transactions d))"
    by (auto simp: remapped_tx_def)
  have stamp_x: "map (\<lambda>x. if hd_id x \<in> set (map hd_id (filter (hd_legacy h k) (db_holdings d)))
        then x\<lparr>hd_updated_at := ev_db_now ev\<rparr> else x)
      (map (\<lambda>x. x\<lparr>hd_owner_user_id := Some (us_id tu), hd_owner_name := Some ?n, hd_version := hd_version x + 1\<rparr>)
        (filter (hd_legacy h k) (db_holdings d)))
    = map (remapped_hd ev (us_id tu) ?n) (filter (hd_legacy h k) (db_holdings d))"
    by (auto simp: remapped_hd_def)
  have wt: "write_back tx_id (map (remapped_tx ev (us_id tu) ?n) (filter (tx_legacy h k) (db_transactions d)))
      (db_transactions d) = map (\<lambda>t. if tx_legacy h k t then remapped_tx ev (us_id tu) ?n t else t) (db_transactions d)"
    by (rule write_back_map [OF u(1)]) (simp add: remapped_tx_def)
  have wx: "write_back hd_id (map (remapped_hd ev (us_id tu) ?n) (filter (hd_legacy h k) (db_holdings d)))
      (db_holdings d) = map (\<lambda>x. if hd_legacy h k x then remapped_hd ev (us_id tu) ?n x else x) (db_holdings d)"
    by (rule write_back_map [OF u(2)]) (simp add: remapped_hd_def)
  note result = def [unfolded a(1) option.case m tu(1) merge_each_legacy_tx merge_each_legacy_hd sum.case prod.case
      stamp_t stamp_x id_apply wt wx]
  show ?thesis
  proof (rule that [of m tu ?n])
    show "m \<in> set (db_members d)" "mb_household_id m = h" "mb_user_id m = lr_target_owner_user_id p"
      using find_SomeD [OF m] by (auto simp: lock_household_members_def)
    then show "tu \<in> set (db_users d)" "us_id tu = lr_target_owner_user_id p" using row_get_SomeD [OF tu(1)] by simp_all
  qed (use result a(2) tu(2) in \<open>simp_all del: map_map split: if_splits\<close>)
qed

end
