(* ===== verification/Remap_Claims.thy ===== *)
theory Remap_Claims
  imports Owner_Remap Samples
begin

text \<open>
  The property of the legacy owner remap: it is complete, exact and recorded.
\<close>

definition sample_remap_db :: db where
  "sample_remap_db =
     sample_db\<lparr>db_transactions := [(sample_tx ''t1'' 1 ''a'')\<lparr>tx_owner_name := Some (lit '' BEN  k'')\<rparr>,
        sample_tx ''t2'' 2 ''b'']\<rparr>"

text \<open>C14 (the remap is complete): a successful remap of a name to a member of the household hands
exactly the transactions and holdings of the household with a bare owner name of the requested
name's key to the requested member, under that member's display name and with one version more;
none of them is left, every other row is as before and the identities of the holdings are still
unique.  The patch log grows by exactly one row for each of them, with its identity, versions and
changed fields and the acting user; the answer names the request's source and member and counts the
rows.\<close>

theorem legacy_owner_remap_complete:
  fixes d ctx p
  defines "h \<equiv> hh_id (fst ctx)" and "target \<equiv> lr_target_owner_user_id p"
    and "k \<equiv> legacy_owner_name_key (Some (remap_source_name p))"
  assumes "unique_keys tx_id (db_transactions d)" and "unique_keys hd_id (db_holdings d)"
    and "remap_legacy_owner ev id d ctx user_id p = (Inr res, d', evs)"
  shows "\<exists>n. n \<noteq> []
    \<and> (\<exists>m \<in> set (db_members d). mb_household_id m = h \<and> mb_user_id m = target)
    \<and> (\<exists>u \<in> set (db_users d). us_id u = target \<and> n = py_strip (us_display_name u))
    \<and> db_transactions d' = map (\<lambda>t. if tx_legacy h k t then remapped_tx ev target n t else t) (db_transactions d)
    \<and> db_holdings d' = map (\<lambda>x. if hd_legacy h k x then remapped_hd ev target n x else x) (db_holdings d)
    \<and> (\<forall>t \<in> set (db_transactions d'). \<not> tx_legacy h k t) \<and> (\<forall>x \<in> set (db_holdings d'). \<not> hd_legacy h k x)
    \<and> distinct (map (identity_index ev) (db_holdings d'))
    \<and> db_patch_logs d' = db_patch_logs d @ map (remap_log_tx h user_id n) (filter (tx_legacy h k) (db_transactions d))
        @ map (remap_log_hd h user_id n) (filter (hd_legacy h k) (db_holdings d))
    \<and> res = \<lparr>lp_source_owner_name = remap_source_name p, lp_target_owner_user_id = target, lp_target_owner_name = n,
        lp_remapped_transactions = length (filter (tx_legacy h k) (db_transactions d)),
        lp_remapped_holdings = length (filter (hd_legacy h k) (db_holdings d))\<rparr>"
proof (rule remap_ok [OF assms(4-6), folded h_def k_def target_def], goal_cases)
  case (1 m u n)
  have "\<not> tx_legacy h k (remapped_tx ev i n t)" "\<not> hd_legacy h k (remapped_hd ev i n x)" for i n t x
    by (simp_all add: tx_legacy_def remapped_tx_def hd_legacy_def remapped_hd_def)
  with 1 show ?case by (intro exI [of _ n]) auto
qed

lemma legacy_owner_remap_complete_witness:
  "\<exists>res d' evs. remap_legacy_owner sample_env id sample_remap_db sample_ctx (lit ''u1'')
      \<lparr>lr_owner_name = lit ''ben K'', lr_target_owner_user_id = lit ''u2''\<rparr> = (Inr res, d', evs)
    \<and> lp_remapped_transactions res = 1 \<and> lp_target_owner_user_id res = lit ''u2''"
proof -
  let ?p = "\<lparr>lr_owner_name = lit ''ben K'', lr_target_owner_user_id = lit ''u2''\<rparr>"
  let ?out = "remap_legacy_owner sample_env id sample_remap_db sample_ctx (lit ''u1'') ?p"
  have u: "unique_keys tx_id (db_transactions sample_remap_db)" "unique_keys hd_id (db_holdings sample_remap_db)"
    by code_simp+
  have "\<not> isl (fst ?out)" by code_simp
  then obtain res d' evs where o: "?out = (Inr res, d', evs)"
    by (metis prod_cases3 fst_conv sum.collapse(2))
  let ?h = "hh_id (fst sample_ctx)" and ?k = "legacy_owner_name_key (Some (remap_source_name ?p))"
  have c: "length (filter (tx_legacy ?h ?k) (db_transactions sample_remap_db)) = 1" by code_simp
  from legacy_owner_remap_complete [OF u o]
  have "lp_remapped_transactions res = length (filter (tx_legacy ?h ?k) (db_transactions sample_remap_db))
      \<and> lp_target_owner_user_id res = lr_target_owner_user_id ?p"
    by (elim exE conjE) (simp only: legacy_owner_remap_response.simps simp_thms)
  then have "lp_remapped_transactions res = 1" "lp_target_owner_user_id res = lit ''u2''"
    unfolding c by simp_all
  with o show ?thesis by blast
qed

end
