(* ===== verification/Price_Lease.thy ===== *)
theory Price_Lease
  imports MF_Models
begin

text \<open>
  The refresh jobs of \<open>backend/app/services/price_service.py\<close>: the status row of a household
  (\<open>PriceRefreshStatus\<close>) holds the lease of the job that may write it, its start time.  First
  the functions on the row, each of which runs under the row's lock; then the processes: workers
  with a task each, requests between \<open>_prepare_refresh_request\<close> and \<open>_ensure_refresh_task\<close>, and
  the steps they make.  A time stamp counts microseconds; \<open>db_now\<close> is the clock of the database,
  which stamps \<open>updated_at\<close> whenever a column changes.
\<close>

subsection \<open>The status row\<close>

record refresh_config =
  rc_env :: pystr
  rc_stale_seconds :: int
  rc_provider_timeout_seconds :: rat

record refresh_response =
  pr_accepted :: bool
  pr_queued :: bool
  pr_in_progress :: bool
  pr_started_at :: "instant option"
  pr_target_count :: int
  pr_completed_count :: int

definition get_or_create_refresh_state :: "pystr \<Rightarrow> refresh_status option \<Rightarrow> refresh_status" where
  "get_or_create_refresh_state household_id row =
     (case row of
        Some s \<Rightarrow> s
      | None \<Rightarrow> \<lparr>rs_household_id = household_id, rs_in_progress = False, rs_queued = False, rs_started_at = None,
                 rs_finished_at = None, rs_target_count = 0, rs_completed_count = 0, rs_refreshed_count = 0,
                 rs_last_duration_ms = None, rs_last_error = None, rs_updated_at = None\<rparr>)"

text \<open>A commit writes a changed row and stamps it; the stamp is no column the code compares.\<close>

definition commit_refresh_state :: "instant \<Rightarrow> refresh_status \<Rightarrow> refresh_status \<Rightarrow> refresh_status" where
  "commit_refresh_state db_now old new = (if new = old then old else new\<lparr>rs_updated_at := Some db_now\<rparr>)"

definition heartbeat_at :: "refresh_status \<Rightarrow> instant option" where
  "heartbeat_at s = (case rs_updated_at s of Some t \<Rightarrow> Some t | None \<Rightarrow> rs_started_at s)"

definition is_refresh_stale :: "refresh_config \<Rightarrow> refresh_status \<Rightarrow> instant \<Rightarrow> bool" where
  "is_refresh_stale cfg s now \<longleftrightarrow>
     rs_in_progress s \<and>
     (case heartbeat_at s of
        None \<Rightarrow> True
      | Some t \<Rightarrow> t < now - seconds (max 30 (rc_stale_seconds cfg)))"

text \<open>\<open>int(x)\<close> of a number rounds towards zero.\<close>

definition py_trunc :: "rat \<Rightarrow> int" where
  "py_trunc r = (if 0 \<le> r then \<lfloor>r\<rfloor> else \<lceil>r\<rceil>)"

definition min_orphan_takeover_grace_seconds :: int where
  "min_orphan_takeover_grace_seconds = 10"

definition max_orphan_takeover_grace_seconds :: int where
  "max_orphan_takeover_grace_seconds = 30"

definition orphan_takeover_grace_seconds :: "refresh_config \<Rightarrow> int" where
  "orphan_takeover_grace_seconds cfg =
     (let stale_window_seconds = max 30 (rc_stale_seconds cfg);
          provider_window_seconds = max 1 (py_trunc (rc_provider_timeout_seconds cfg * 2));
          adaptive_window = max provider_window_seconds (stale_window_seconds div 8)
      in max min_orphan_takeover_grace_seconds (min max_orphan_takeover_grace_seconds adaptive_window))"

definition local_single_worker_mode :: "refresh_config \<Rightarrow> bool" where
  "local_single_worker_mode cfg \<longleftrightarrow> py_lower (py_strip (rc_env cfg)) \<in> {lit ''dev'', lit ''test'', lit ''local''}"

definition to_refresh_response :: "refresh_status \<Rightarrow> bool \<Rightarrow> refresh_response" where
  "to_refresh_response s queued =
     \<lparr>pr_accepted = True, pr_queued = queued, pr_in_progress = rs_in_progress s, pr_started_at = rs_started_at s,
      pr_target_count = rs_target_count s, pr_completed_count = rs_completed_count s\<rparr>"

text \<open>The two conditions under which a request is queued behind the current lease.\<close>

definition must_queue :: "refresh_config \<Rightarrow> refresh_status \<Rightarrow> instant \<Rightarrow> bool \<Rightarrow> bool" where
  "must_queue cfg s now task_running \<longleftrightarrow>
     rs_in_progress s \<and> \<not> is_refresh_stale cfg s now \<and>
     (task_running \<or>
      (\<not> local_single_worker_mode cfg \<and>
       (case heartbeat_at s of
          None \<Rightarrow> True
        | Some t \<Rightarrow> now - t < seconds (orphan_takeover_grace_seconds cfg))))"

text \<open>The value: the row, the response, the lease and \<open>force_restart\<close>.\<close>

definition prepare_refresh_request ::
  "refresh_config \<Rightarrow> pystr \<Rightarrow> instant \<Rightarrow> instant \<Rightarrow> bool \<Rightarrow> refresh_status option
   \<Rightarrow> refresh_status \<times> refresh_response \<times> instant \<times> bool" where
  "prepare_refresh_request cfg household_id now db_now task_running row =
     (let s = get_or_create_refresh_state household_id row
      in if must_queue cfg s now task_running then
           (let s' = commit_refresh_state db_now s (s\<lparr>rs_queued := True\<rparr>)
            in (s', to_refresh_response s' True, (case rs_started_at s' of Some t \<Rightarrow> t | None \<Rightarrow> now), False))
         else
           (let s' = commit_refresh_state db_now s
                  (s\<lparr>rs_in_progress := True, rs_queued := False, rs_started_at := Some now, rs_target_count := 0,
                     rs_completed_count := 0, rs_refreshed_count := 0, rs_last_error := None\<rparr>)
            in (s', to_refresh_response s' False, now,
                rs_in_progress s \<and> is_refresh_stale cfg s now \<and> task_running)))"

definition lease_matches :: "refresh_status \<Rightarrow> instant \<Rightarrow> bool" where
  "lease_matches s lease_started_at \<longleftrightarrow> rs_in_progress s \<and> rs_started_at s = Some lease_started_at"

text \<open>\<open>False\<close> tells the job that it has lost the lease.\<close>

definition update_refresh_progress ::
  "pystr \<Rightarrow> int \<Rightarrow> int \<Rightarrow> instant \<Rightarrow> instant \<Rightarrow> refresh_status option \<Rightarrow> bool \<times> refresh_status option" where
  "update_refresh_progress household_id completed target lease_started_at db_now row =
     (let s = get_or_create_refresh_state household_id row
      in if \<not> lease_matches s lease_started_at then (False, row)
         else (True, Some (commit_refresh_state db_now s
                (s\<lparr>rs_target_count := max target 0,
                   rs_completed_count := max 0 (min completed (max target completed))\<rparr>))))"

text \<open>
  The end of \<open>_run_refresh_job\<close> for a job that still believes in its lease; the second component
  is the lease of the chained refresh.  \<open>int\<close> of the seconds times 1000 counts milliseconds.
\<close>

definition finish_refresh_job ::
  "pystr \<Rightarrow> instant \<Rightarrow> instant \<Rightarrow> instant \<Rightarrow> instant \<Rightarrow> int \<Rightarrow> pystr option \<Rightarrow> refresh_status option
   \<Rightarrow> refresh_status option \<times> instant option" where
  "finish_refresh_job household_id lease_started_at started finished db_now refreshed_count error_text row =
     (let s = get_or_create_refresh_state household_id row
      in if \<not> lease_matches s lease_started_at then (row, None)
         else
           (let base_started = (case rs_started_at s of Some t \<Rightarrow> t | None \<Rightarrow> started);
                s1 = s\<lparr>rs_last_duration_ms := Some (py_trunc (of_int (finished - base_started) / 1000)),
                       rs_completed_count :=
                         (if rs_completed_count s < rs_target_count s then rs_target_count s
                          else rs_completed_count s)\<rparr>
            in if rs_queued s then
                 (Some (commit_refresh_state db_now s
                    (s1\<lparr>rs_in_progress := True, rs_queued := False, rs_started_at := Some finished,
                        rs_finished_at := None, rs_target_count := 0, rs_completed_count := 0,
                        rs_refreshed_count := 0, rs_last_error := None\<rparr>)), Some finished)
               else
                 (Some (commit_refresh_state db_now s
                    (s1\<lparr>rs_in_progress := False, rs_queued := False, rs_finished_at := Some finished,
                        rs_refreshed_count := refreshed_count, rs_last_error := error_text\<rparr>)), None)))"

subsection \<open>The task map of a worker\<close>

text \<open>
  \<open>_refresh_tasks\<close> of every worker, one household: a task that is done counts as absent, as
  \<open>_has_running_refresh_task\<close> and \<open>_ensure_refresh_task\<close> remove it.  A cancelled task leaves the
  row alone (\<open>CancelledError\<close> is no \<open>Exception\<close>).
\<close>

type_synonym worker = nat

definition has_running_refresh_task :: "(worker \<times> instant) list \<Rightarrow> worker \<Rightarrow> bool" where
  "has_running_refresh_task tasks w \<longleftrightarrow> map_of tasks w \<noteq> None"

definition cleanup_refresh_task :: "worker \<Rightarrow> (worker \<times> instant) list \<Rightarrow> (worker \<times> instant) list" where
  "cleanup_refresh_task w tasks = filter (\<lambda>t. fst t \<noteq> w) tasks"

definition start_refresh_task_locked ::
  "worker \<Rightarrow> instant \<Rightarrow> (worker \<times> instant) list \<Rightarrow> (worker \<times> instant) list" where
  "start_refresh_task_locked w lease_started_at tasks = (w, lease_started_at) # cleanup_refresh_task w tasks"

definition ensure_refresh_task ::
  "worker \<Rightarrow> instant \<Rightarrow> bool \<Rightarrow> (worker \<times> instant) list \<Rightarrow> (worker \<times> instant) list" where
  "ensure_refresh_task w lease_started_at force_restart tasks =
     (if has_running_refresh_task tasks w \<and> \<not> force_restart then tasks
      else start_refresh_task_locked w lease_started_at tasks)"

subsection \<open>Workers\<close>

record refresh_world =
  rw_row :: "refresh_status option"
  rw_tasks :: "(worker \<times> instant) list"
  rw_pending :: "(worker \<times> instant \<times> bool) list"

text \<open>
  The atomic steps.  \<open>request_refresh\<close> is a prepare step, in a thread, and a later ensure step on
  the event loop; a job reports progress and finishes; a worker may die.  Every step carries the
  time its worker read, before it took the lock of the row: the times of two steps need not come
  in the order of the steps.
\<close>

datatype refresh_action =
    Act_prepare worker instant instant
  | Act_ensure nat
  | Act_progress worker int int instant
  | Act_finish worker instant instant int "pystr option"
  | Act_die worker

fun refresh_exec :: "refresh_config \<Rightarrow> pystr \<Rightarrow> refresh_action \<Rightarrow> refresh_world \<Rightarrow> refresh_world option" where
  "refresh_exec cfg hid (Act_prepare w now db_now) rw =
     (case prepare_refresh_request cfg hid now db_now (has_running_refresh_task (rw_tasks rw) w) (rw_row rw) of
        (s, response, lease, force_restart) \<Rightarrow>
          Some (rw\<lparr>rw_row := Some s,
                   rw_pending := (if force_restart \<or> \<not> pr_queued response
                                  then rw_pending rw @ [(w, lease, force_restart)] else rw_pending rw)\<rparr>))"
| "refresh_exec cfg hid (Act_ensure i) rw =
     (if i < length (rw_pending rw) then
        (case rw_pending rw ! i of (w, lease, force_restart) \<Rightarrow>
           Some (rw\<lparr>rw_tasks := ensure_refresh_task w lease force_restart (rw_tasks rw),
                    rw_pending := take i (rw_pending rw) @ drop (Suc i) (rw_pending rw)\<rparr>))
      else None)"
| "refresh_exec cfg hid (Act_progress w completed target db_now) rw =
     (case map_of (rw_tasks rw) w of
        None \<Rightarrow> None
      | Some lease \<Rightarrow>
          (case update_refresh_progress hid completed target lease db_now (rw_row rw) of
             (True, row) \<Rightarrow> Some (rw\<lparr>rw_row := row\<rparr>)
           | (False, row) \<Rightarrow> Some (rw\<lparr>rw_row := row, rw_tasks := cleanup_refresh_task w (rw_tasks rw)\<rparr>)))"
| "refresh_exec cfg hid (Act_finish w finished db_now refreshed_count error_text) rw =
     (case map_of (rw_tasks rw) w of
        None \<Rightarrow> None
      | Some lease \<Rightarrow>
          (case finish_refresh_job hid lease lease finished db_now refreshed_count error_text (rw_row rw) of
             (row, next_lease) \<Rightarrow>
               Some (rw\<lparr>rw_row := row,
                        rw_tasks := (case next_lease of
                                       Some l \<Rightarrow> start_refresh_task_locked w l (rw_tasks rw)
                                     | None \<Rightarrow> cleanup_refresh_task w (rw_tasks rw))\<rparr>)))"
| "refresh_exec cfg hid (Act_die w) rw =
     Some (rw\<lparr>rw_tasks := cleanup_refresh_task w (rw_tasks rw),
              rw_pending := filter (\<lambda>p. fst p \<noteq> w) (rw_pending rw)\<rparr>)"

fun refresh_run :: "refresh_config \<Rightarrow> pystr \<Rightarrow> refresh_action list \<Rightarrow> refresh_world \<Rightarrow> refresh_world option" where
  "refresh_run cfg hid [] rw = Some rw"
| "refresh_run cfg hid (a # as) rw =
     (case refresh_exec cfg hid a rw of None \<Rightarrow> None | Some rw' \<Rightarrow> refresh_run cfg hid as rw')"

definition refresh_init :: refresh_world where
  "refresh_init = \<lparr>rw_row = None, rw_tasks = [], rw_pending = []\<rparr>"

subsection \<open>Leases are exclusive\<close>

text \<open>The time a step may give out as a lease.\<close>

fun lease_time :: "refresh_action \<Rightarrow> instant option" where
  "lease_time (Act_prepare w now db_now) = Some now"
| "lease_time (Act_finish w finished db_now refreshed_count error_text) = Some finished"
| "lease_time _ = None"

definition refresh_leases_ok :: "(worker \<times> instant) list \<Rightarrow> (worker \<times> instant \<times> bool) list \<Rightarrow> instant set \<Rightarrow> bool" where
  "refresh_leases_ok ts ps c \<longleftrightarrow>
     distinct (map fst ts) \<and> distinct (map snd ts @ map (fst \<circ> snd) ps) \<and>
     (\<forall>t \<in> set ts. snd t \<in> c) \<and> (\<forall>p \<in> set ps. fst (snd p) \<in> c)"

text \<open>
  One task for a worker, no lease given twice, every lease among the times used so far: what makes
  the start time of the row identify a job.
\<close>

definition refresh_inv :: "instant set \<Rightarrow> refresh_world \<Rightarrow> bool" where
  "refresh_inv used rw \<longleftrightarrow> refresh_leases_ok (rw_tasks rw) (rw_pending rw) used"

lemma refresh_inv_init: "refresh_inv {} refresh_init"
  by (simp add: refresh_inv_def refresh_init_def refresh_leases_ok_def)

lemma distinct_map_filter_append:
  assumes "distinct (map f xs @ map g ys)"
  shows "distinct (map f (filter P xs) @ map g (filter Q ys))"
  using assms by (auto simp: distinct_map_filter)

lemma refresh_leases_filter:
  assumes "refresh_leases_ok ts ps c"
  shows "refresh_leases_ok (filter P ts) (filter Q ps) c"
  using assms distinct_map_filter_append [of snd ts "fst \<circ> snd" ps P Q]
  by (simp add: refresh_leases_ok_def distinct_map_filter)

lemma refresh_leases_later:
  assumes "refresh_leases_ok ts ps c" "c \<subseteq> c'"
  shows "refresh_leases_ok ts ps c'"
  using assms unfolding refresh_leases_ok_def by blast

lemma refresh_leases_cleanup:
  assumes "refresh_leases_ok ts ps c"
  shows "refresh_leases_ok (cleanup_refresh_task w ts) ps c"
  using refresh_leases_filter [OF assms, where Q = "\<lambda>_. True"] by (simp add: cleanup_refresh_task_def)

lemma refresh_leases_add_task:
  assumes "refresh_leases_ok ts ps c" "w \<notin> fst ` set ts" "\<forall>t \<in> set ts. snd t \<noteq> l" "\<forall>p \<in> set ps. fst (snd p) \<noteq> l"
    "l \<in> c"
  shows "refresh_leases_ok ((w, l) # ts) ps c"
  using assms by (auto simp: refresh_leases_ok_def)

lemma cleanup_other: "w \<notin> fst ` set (cleanup_refresh_task w ts)"
  "t \<in> set (cleanup_refresh_task w ts) \<Longrightarrow> t \<in> set ts"
  by (auto simp: cleanup_refresh_task_def)

lemma refresh_leases_start:
  assumes "refresh_leases_ok ts ps c" "\<forall>t \<in> set ts. snd t \<noteq> l" "\<forall>p \<in> set ps. fst (snd p) \<noteq> l" "l \<in> c"
  shows "refresh_leases_ok (start_refresh_task_locked w l ts) ps c"
  unfolding start_refresh_task_locked_def
  by (rule refresh_leases_add_task)
    (use assms refresh_leases_cleanup cleanup_other in blast)+

lemma refresh_leases_fresh:
  assumes "refresh_leases_ok ts ps c" "l \<notin> c"
  shows "\<forall>t \<in> set ts. snd t \<noteq> l" "\<forall>p \<in> set ps. fst (snd p) \<noteq> l"
  using assms unfolding refresh_leases_ok_def by auto

lemma refresh_leases_start_fresh:
  assumes "refresh_leases_ok ts ps c" "l \<notin> c"
  shows "refresh_leases_ok (start_refresh_task_locked w l ts) ps (insert l c)"
  using refresh_leases_start [OF refresh_leases_later [OF assms(1) subset_insertI] refresh_leases_fresh [OF assms]]
  by simp

lemma refresh_leases_ask:
  assumes "refresh_leases_ok ts ps c" "l \<notin> c"
  shows "refresh_leases_ok ts (ps @ [(w, l, f)]) (insert l c)"
  using assms refresh_leases_later [OF assms(1) subset_insertI, of l] refresh_leases_fresh [OF assms]
  by (auto simp: refresh_leases_ok_def)

lemma refresh_leases_drop:
  assumes "refresh_leases_ok ts (a @ (w, l, f) # b) c"
  shows "refresh_leases_ok ts (a @ b) c" "\<forall>t \<in> set ts. snd t \<noteq> l" "\<forall>p \<in> set (a @ b). fst (snd p) \<noteq> l" "l \<in> c"
  using assms by (auto simp: refresh_leases_ok_def)

lemma refresh_leases_ensure:
  assumes "refresh_leases_ok ts ps c" "i < length ps" "ps ! i = (w, l, f)"
  shows "refresh_leases_ok (ensure_refresh_task w l f ts) (take i ps @ drop (Suc i) ps) c"
proof -
  have "ps = take i ps @ (w, l, f) # drop (Suc i) ps"
    using assms(2,3) id_take_nth_drop [of i ps] by simp
  with assms(1) have "refresh_leases_ok ts (take i ps @ (w, l, f) # drop (Suc i) ps) c" by simp
  note d = refresh_leases_drop [OF this]
  show ?thesis using d(1) refresh_leases_start [OF d(1) d(2) d(3) d(4)]
    by (simp add: ensure_refresh_task_def)
qed

lemma commit_refresh_state_simps [simp]:
  "rs_in_progress (commit_refresh_state t old new) = rs_in_progress new"
  "rs_queued (commit_refresh_state t old new) = rs_queued new"
  "rs_started_at (commit_refresh_state t old new) = rs_started_at new"
  "rs_target_count (commit_refresh_state t old new) = rs_target_count new"
  "rs_completed_count (commit_refresh_state t old new) = rs_completed_count new"
  by (auto simp: commit_refresh_state_def)

text \<open>What a prepare step gives: a queued answer, or a lease that starts now.\<close>

lemma prepare_refresh_request_cases:
  assumes "prepare_refresh_request cfg hid now db_now run row = (s', r, lease, f)"
  obtains (queued) "must_queue cfg (get_or_create_refresh_state hid row) now run" "pr_queued r" "\<not> f"
      "rs_in_progress s'" "rs_queued s'"
      "rs_started_at s' = rs_started_at (get_or_create_refresh_state hid row)"
    | (leased) "\<not> must_queue cfg (get_or_create_refresh_state hid row) now run" "\<not> pr_queued r" "lease = now"
      "rs_in_progress s'" "\<not> rs_queued s'" "rs_started_at s' = Some now"
proof (cases "must_queue cfg (get_or_create_refresh_state hid row) now run")
  case True
  then have "rs_in_progress (get_or_create_refresh_state hid row)" by (simp add: must_queue_def)
  with True assms show ?thesis by (intro queued) (auto simp: prepare_refresh_request_def Let_def to_refresh_response_def)
next
  case False
  with assms show ?thesis by (intro leased) (auto simp: prepare_refresh_request_def Let_def to_refresh_response_def)
qed

lemma finish_refresh_job_cases:
  assumes "finish_refresh_job hid lease started finished db_now n e row = (row', next)"
  obtains (lost) "\<not> lease_matches (get_or_create_refresh_state hid row) lease" "row' = row" "next = None"
    | (chained) s' where "lease_matches (get_or_create_refresh_state hid row) lease" "row' = Some s'" "next = Some finished"
      "rs_in_progress s'" "\<not> rs_queued s'" "rs_started_at s' = Some finished"
      "rs_queued (get_or_create_refresh_state hid row)"
    | (ended) s' where "lease_matches (get_or_create_refresh_state hid row) lease" "row' = Some s'" "next = None"
      "\<not> rs_in_progress s'" "\<not> rs_queued (get_or_create_refresh_state hid row)"
  using assms
  by (auto simp: finish_refresh_job_def Let_def split: if_splits)

text \<open>A step keeps the leases apart when its time has not been used before.\<close>

lemma refresh_inv_exec:
  assumes "refresh_exec cfg hid a rw = Some rw'" "refresh_inv used rw" "set_option (lease_time a) \<inter> used = {}"
  shows "refresh_inv (set_option (lease_time a) \<union> used) rw'"
proof (cases a)
  case (Act_prepare w now db_now)
  obtain s r l f where p: "prepare_refresh_request cfg hid now db_now (has_running_refresh_task (rw_tasks rw) w) (rw_row rw) = (s, r, l, f)"
    by (metis prod_cases4)
  from p show ?thesis
    by (cases rule: prepare_refresh_request_cases)
      (use assms p Act_prepare in \<open>auto simp: refresh_inv_def intro: refresh_leases_ask refresh_leases_later [of _ _ used]\<close>)
next
  case (Act_ensure i)
  then show ?thesis using assms
    by (cases "rw_pending rw ! i") (auto simp: refresh_inv_def split: if_splits intro: refresh_leases_ensure)
next
  case (Act_progress w completed target db_now)
  with assms show ?thesis
    by (auto simp: refresh_inv_def split: option.splits prod.splits bool.splits intro: refresh_leases_cleanup)
next
  case (Act_finish w finished db_now n e)
  with assms obtain l where l: "map_of (rw_tasks rw) w = Some l" "finished \<notin> used"
    by (auto split: option.splits)
  obtain r nx where p: "finish_refresh_job hid l l finished db_now n e (rw_row rw) = (r, nx)" by force
  from p show ?thesis
    by (cases rule: finish_refresh_job_cases)
      (use assms p l Act_finish in \<open>auto simp: refresh_inv_def intro: refresh_leases_start_fresh
         refresh_leases_later [OF refresh_leases_cleanup subset_insertI]\<close>)
next
  case (Act_die w)
  then show ?thesis using assms
    by (auto simp: refresh_inv_def cleanup_refresh_task_def intro: refresh_leases_filter)
qed

text \<open>The times a run may give out as leases, in the order of its steps.\<close>

definition lease_times :: "refresh_action list \<Rightarrow> instant list" where
  "lease_times acts = List.map_filter lease_time acts"

lemma lease_times_simps [simp]:
  "lease_times [] = []"
  "lease_times (a # acts) = (case lease_time a of None \<Rightarrow> [] | Some t \<Rightarrow> [t]) @ lease_times acts"
  by (auto simp: lease_times_def List.map_filter_def split: option.splits)

lemma refresh_run_inv:
  assumes "refresh_run cfg hid acts rw = Some rw'" "refresh_inv used rw"
    and "distinct (lease_times acts)" "set (lease_times acts) \<inter> used = {}"
  shows "refresh_inv (set (lease_times acts) \<union> used) rw'"
  using assms
proof (induction acts arbitrary: rw used)
  case (Cons a acts)
  then obtain w where w: "refresh_exec cfg hid a rw = Some w" "refresh_run cfg hid acts w = Some rw'"
    by (auto split: option.splits)
  have "refresh_inv (set_option (lease_time a) \<union> used) w"
    by (rule refresh_inv_exec [OF w(1) Cons.prems(2)]) (use Cons.prems(4) in \<open>auto split: option.splits\<close>)
  from Cons.IH [OF w(2) this] Cons.prems(3,4) show ?case
    by (auto simp: Un_ac split: option.splits)
qed simp

lemma refresh_task_leases:
  assumes "refresh_inv used rw" "(w, l) \<in> set (rw_tasks rw)" "(w', l) \<in> set (rw_tasks rw)"
  shows "w = w'"
  using assms inj_onD [of snd "set (rw_tasks rw)" "(w, l)" "(w', l)"]
  by (simp add: refresh_inv_def refresh_leases_ok_def distinct_map)

lemma orphan_grace_bounds: "10 \<le> orphan_takeover_grace_seconds cfg" "orphan_takeover_grace_seconds cfg \<le> 30"
  by (simp_all add: orphan_takeover_grace_seconds_def Let_def min_orphan_takeover_grace_seconds_def
      max_orphan_takeover_grace_seconds_def)

end
