(* ===== verification/Lease_Claims.thy ===== *)
theory Lease_Claims
  imports Price_Lease
begin

text \<open>
  The properties of the price-refresh leases: one writer at a time, no request lost, takeover
  only after silence and recovery of an abandoned lease; and a run that leaves the row in progress
  without a job.
\<close>

subsection \<open>A sample run\<close>

definition prod_config :: refresh_config where
  "prod_config = \<lparr>rc_env = lit ''prod'', rc_stale_seconds = 120, rc_provider_timeout_seconds = 5\<rparr>"

text \<open>
  Worker 1 takes the first lease; its job is silent for a minute, worker 2 takes over and ends;
  the next request reaches worker 1 while its first job is still fetching.
\<close>

definition orphan_run :: "refresh_action list" where
  "orphan_run =
     [Act_prepare 1 (seconds 1) (seconds 1), Act_ensure 0,
      Act_prepare 2 (seconds 61) (seconds 61), Act_ensure 0,
      Act_finish 2 (seconds 70) (seconds 70) 3 None,
      Act_prepare 1 (seconds 71) (seconds 71), Act_ensure 0]"

subsection \<open>The properties\<close>

text \<open>C15 (one writer of the status row): in every state the workers can reach, in whatever order
their clocks and steps fall, as long as no two requests or job ends of the run read the very same
time, at most one job holds the lease of the status row; and a job that lost the lease does not
change the status row any more: its progress and its end leave it as it is and remove the job.\<close>

theorem refresh_lease_exclusion:
  assumes "refresh_run cfg hid acts refresh_init = Some rw" "distinct (lease_times acts)"
  shows "(\<forall>w l w' l' s. (w, l) \<in> set (rw_tasks rw) \<and> (w', l') \<in> set (rw_tasks rw) \<and> rw_row rw = Some s \<and>
            lease_matches s l \<and> lease_matches s l' \<longrightarrow> w = w') \<and>
         (\<forall>w l a rw'. map_of (rw_tasks rw) w = Some l \<and>
            \<not> lease_matches (get_or_create_refresh_state hid (rw_row rw)) l \<and>
            ((\<exists>c t n. a = Act_progress w c t n) \<or> (\<exists>f n k e. a = Act_finish w f n k e)) \<and>
            refresh_exec cfg hid a rw = Some rw' \<longrightarrow>
              rw_row rw' = rw_row rw \<and> rw_tasks rw' = cleanup_refresh_task w (rw_tasks rw))"
proof (intro conjI allI impI, goal_cases)
  case (1 w l w' l' s)
  then have "l = l'" unfolding lease_matches_def by auto
  with 1 show ?case using refresh_run_inv [OF assms(1) refresh_inv_init assms(2)] refresh_task_leases by blast
next
  case (2 w l a rw')
  then show ?case by (auto simp: update_refresh_progress_def finish_refresh_job_def Let_def split: if_splits)
next
  case (3 w l a rw')
  then show ?case by (auto simp: update_refresh_progress_def finish_refresh_job_def Let_def split: if_splits)
qed

lemma refresh_lease_exclusion_witness:
  "\<exists>rw. refresh_run prod_config [] (take 4 orphan_run) refresh_init = Some rw \<and>
        rw_tasks rw = [(2, seconds 61), (1, seconds 1)] \<and>
        (\<forall>c t n rw'. refresh_exec prod_config [] (Act_progress 1 c t n) rw = Some rw' \<longrightarrow>
           rw_row rw' = rw_row rw \<and> rw_tasks rw' = [(2, seconds 61)])"
proof -
  let ?run = "refresh_run prod_config [] (take 4 orphan_run) refresh_init"
  have c: "case ?run of None \<Rightarrow> False | Some rw \<Rightarrow> rw_tasks rw = [(2, seconds 61), (1, seconds 1)] \<and>
      rw_row rw \<noteq> None \<and> \<not> lease_matches (the (rw_row rw)) (seconds 1)" by code_simp
  then obtain rw where r: "?run = Some rw" by (cases "?run") auto
  have d: "distinct (lease_times (take 4 orphan_run))" by code_simp
  note x = refresh_lease_exclusion [OF r d, THEN conjunct2, rule_format, of 1 "seconds 1"]
  have t: "rw_tasks rw = [(2, seconds 61), (1, seconds 1)]" using c r by simp
  have "\<not> lease_matches (get_or_create_refresh_state [] (rw_row rw)) (seconds 1)"
    using c r by (auto simp: get_or_create_refresh_state_def)
  with x t have "rw_row rw' = rw_row rw \<and> rw_tasks rw' = [(2, seconds 61)]"
    if "refresh_exec prod_config [] (Act_progress 1 c t n) rw = Some rw'" for c t n rw'
    using that by (force simp: cleanup_refresh_task_def)
  with r t show ?thesis by blast
qed

text \<open>No request is lost: once a request has been queued behind a running refresh, every step
of any worker keeps the refresh in progress and either keeps the request queued behind the same
lease or starts a new lease, at the time of the step, for a job of the worker that made the step:
the job runs already or waits for the event loop.\<close>

theorem queued_request_is_kept:
  assumes "rw_row rw = Some s" "rs_in_progress s" "rs_queued s"
    and "refresh_exec cfg hid a rw = Some rw'"
  shows "\<exists>s'. rw_row rw' = Some s' \<and> rs_in_progress s' \<and>
           (rs_queued s' \<and> rs_started_at s' = rs_started_at s \<or>
            (\<exists>w l f. lease_time a = Some l \<and> rs_started_at s' = Some l \<and>
               (map_of (rw_tasks rw') w = Some l \<or> (w, l, f) \<in> set (rw_pending rw'))))"
proof (cases a)
  case (Act_prepare w now db_now)
  obtain s' r l f where p: "prepare_refresh_request cfg hid now db_now (has_running_refresh_task (rw_tasks rw) w) (rw_row rw) = (s', r, l, f)"
    by (metis prod_cases4)
  from p show ?thesis
  proof (cases rule: prepare_refresh_request_cases)
    case queued
    with assms p Act_prepare show ?thesis by (auto simp: get_or_create_refresh_state_def)
  next
    case leased
    then have "(w, now, f) \<in> set (rw_pending rw')" "rw_row rw' = Some s'" "lease_time a = Some now"
      using assms p Act_prepare by auto
    with leased show ?thesis by blast
  qed
next
  case (Act_ensure i)
  with assms show ?thesis by (auto split: if_splits prod.splits)
next
  case (Act_progress w completed target db_now)
  with assms show ?thesis
    by (auto simp: update_refresh_progress_def get_or_create_refresh_state_def Let_def split: option.splits if_splits)
next
  case (Act_finish w finished db_now n e)
  with assms obtain l where l: "map_of (rw_tasks rw) w = Some l" by (auto split: option.splits)
  obtain r nx where p: "finish_refresh_job hid l l finished db_now n e (rw_row rw) = (r, nx)" by force
  from p show ?thesis
    by (cases rule: finish_refresh_job_cases)
      (use assms p l Act_finish in \<open>auto simp: get_or_create_refresh_state_def start_refresh_task_locked_def\<close>)
next
  case (Act_die w)
  with assms show ?thesis by auto
qed

lemma queued_request_is_kept_witness:
  "\<exists>rw rw' s'. refresh_run prod_config [] (take 2 orphan_run @ [Act_prepare 2 (seconds 5) (seconds 5)]) refresh_init = Some rw \<and>
     refresh_exec prod_config [] (Act_finish 1 (seconds 6) (seconds 6) 3 None) rw = Some rw' \<and>
     rw_row rw' = Some s' \<and> rs_in_progress s'"
proof -
  let ?run = "refresh_run prod_config [] (take 2 orphan_run @ [Act_prepare 2 (seconds 5) (seconds 5)]) refresh_init"
  let ?a = "Act_finish 1 (seconds 6) (seconds 6) 3 None"
  have c: "case ?run of None \<Rightarrow> False | Some rw \<Rightarrow> rw_row rw \<noteq> None \<and> rs_in_progress (the (rw_row rw)) \<and>
      rs_queued (the (rw_row rw)) \<and> refresh_exec prod_config [] ?a rw \<noteq> None" by code_simp
  then obtain rw where r: "?run = Some rw" by (cases "?run") auto
  with c obtain s rw' where s: "rw_row rw = Some s" "rs_in_progress s" "rs_queued s" "refresh_exec prod_config [] ?a rw = Some rw'"
    by auto
  from queued_request_is_kept [OF s] r s(4) show ?thesis by blast
qed

text \<open>(takeover needs silence): outside the single-worker environments a request takes the lease
of a running refresh only when the row has not been written for at least ten seconds, and for more
than thirty when the own worker still has a task, which is then restarted.\<close>

theorem takeover_needs_silence:
  assumes "\<not> local_single_worker_mode cfg" "rs_in_progress s" "heartbeat_at s = Some t"
    and "prepare_refresh_request cfg hid now db_now running (Some s) = (s', r, lease, force)" "\<not> pr_queued r"
  shows "seconds 10 \<le> now - t \<and> (running \<longrightarrow> seconds 30 < now - t \<and> force) \<and>
         lease_matches s' lease \<and> lease = now"
  using assms(4)
proof (cases rule: prepare_refresh_request_cases)
  case queued
  with assms(5) show ?thesis by simp
next
  case leased
  have st: "seconds 30 < now - t" if "is_refresh_stale cfg s now"
  proof -
    have "seconds 30 \<le> seconds (max 30 (rc_stale_seconds cfg))" by (simp add: seconds_def)
    with that assms(3) show ?thesis by (simp add: is_refresh_stale_def)
  qed
  have "seconds 10 \<le> seconds (orphan_takeover_grace_seconds cfg)" using orphan_grace_bounds(1) [of cfg] by (simp add: seconds_def)
  moreover have "force \<longleftrightarrow> rs_in_progress s \<and> is_refresh_stale cfg s now \<and> running"
    using assms(4) leased by (auto simp: prepare_refresh_request_def get_or_create_refresh_state_def Let_def)
  ultimately show ?thesis using leased assms(1-3) st
    by (auto simp: must_queue_def get_or_create_refresh_state_def lease_matches_def seconds_def)
qed

lemma takeover_needs_silence_witness:
  "case prepare_refresh_request prod_config [] (seconds 61) (seconds 61) False
      (rw_row (the (refresh_run prod_config [] (take 2 orphan_run) refresh_init))) of
     (s', r, lease, force) \<Rightarrow> seconds 10 \<le> seconds 61 - seconds 1 \<and> lease_matches s' lease"
proof -
  let ?row = "rw_row (the (refresh_run prod_config [] (take 2 orphan_run) refresh_init))"
  have c: "\<not> local_single_worker_mode prod_config"
    "case ?row of None \<Rightarrow> False | Some s \<Rightarrow> rs_in_progress s \<and> heartbeat_at s = Some (seconds 1)"
    "case prepare_refresh_request prod_config [] (seconds 61) (seconds 61) False ?row of (s', r, lease, force) \<Rightarrow> \<not> pr_queued r"
    by code_simp+
  then obtain s where s: "?row = Some s" "rs_in_progress s" "heartbeat_at s = Some (seconds 1)" by (cases ?row) auto
  obtain s' r l f where p: "prepare_refresh_request prod_config [] (seconds 61) (seconds 61) False (Some s) = (s', r, l, f)"
    by (metis prod_cases4)
  with c(3) s have "\<not> pr_queued r" by simp
  from takeover_needs_silence [OF c(1) s(2,3) p this] show ?thesis unfolding s(1) p by blast
qed

text \<open>C16 (an abandoned lease is recovered after thirty seconds): when the row is idle, or has not
been written for thirty seconds, a request on a worker without a task leads to a job of that worker
that holds the lease, whatever became of the job before.  (Before that time the request is queued.)\<close>

theorem abandoned_lease_is_taken_over:
  assumes "rw_row rw = Some s" "\<not> has_running_refresh_task (rw_tasks rw) w"
    "rs_in_progress s \<longrightarrow> (case heartbeat_at s of Some t \<Rightarrow> t + seconds 30 \<le> now | None \<Rightarrow> False)"
  shows "\<exists>rw' s'. refresh_run cfg hid [Act_prepare w now db_now, Act_ensure (length (rw_pending rw))] rw = Some rw' \<and>
           rw_row rw' = Some s' \<and> lease_matches s' now \<and> map_of (rw_tasks rw') w = Some now"
proof -
  obtain s' r l f where p: "prepare_refresh_request cfg hid now db_now False (Some s) = (s', r, l, f)"
    by (metis prod_cases4)
  have g: "seconds (orphan_takeover_grace_seconds cfg) \<le> seconds 30" using orphan_grace_bounds(2) [of cfg] by (simp add: seconds_def)
  have "\<not> must_queue cfg s now False"
    using assms(3) g by (auto simp: must_queue_def split: option.splits)
  with p show ?thesis
    by (cases rule: prepare_refresh_request_cases)
      (use assms p in \<open>auto simp: get_or_create_refresh_state_def lease_matches_def ensure_refresh_task_def
        start_refresh_task_locked_def\<close>)
qed

lemma abandoned_lease_is_taken_over_witness:
  "\<exists>rw rw' s'. refresh_run prod_config [] orphan_run refresh_init = Some rw \<and>
     refresh_run prod_config [] [Act_prepare 2 (seconds 101) (seconds 101), Act_ensure 0] rw = Some rw' \<and>
     rw_row rw' = Some s' \<and> lease_matches s' (seconds 101) \<and> map_of (rw_tasks rw') 2 = Some (seconds 101)"
proof -
  let ?run = "refresh_run prod_config [] orphan_run refresh_init"
  have c: "case ?run of None \<Rightarrow> False | Some rw \<Rightarrow> rw_row rw \<noteq> None \<and> heartbeat_at (the (rw_row rw)) = Some (seconds 71) \<and>
      \<not> has_running_refresh_task (rw_tasks rw) 2 \<and> rw_pending rw = []" by code_simp
  then obtain rw where r: "?run = Some rw" by (cases "?run") auto
  with c obtain s where s: "rw_row rw = Some s" "\<not> has_running_refresh_task (rw_tasks rw) 2"
     "heartbeat_at s = Some (seconds 71)" "rw_pending rw = []"
    by auto
  have "rs_in_progress s \<longrightarrow> (case heartbeat_at s of Some t \<Rightarrow> t + seconds 30 \<le> seconds 101 | None \<Rightarrow> False)"
    by (simp add: s seconds_def)
  from abandoned_lease_is_taken_over [OF s(1,2) this, of prod_config "[]" "seconds 101"] r show ?thesis
    by (auto simp: s(4))
qed

text \<open>
  The sample run ends with the row in progress under a lease that no job holds: the new request
  was answered as accepted, but the task map of worker 1 still holds the job of the first lease.
\<close>

theorem orphaned_lease_reachable:
  "case refresh_run prod_config [] orphan_run refresh_init of
     None \<Rightarrow> False
   | Some rw \<Rightarrow>
       (case rw_row rw of
          None \<Rightarrow> False
        | Some s \<Rightarrow> rs_in_progress s \<and> rs_started_at s = Some (seconds 71) \<and>
            rw_tasks rw = [(1, seconds 1)] \<and> rw_pending rw = [])"
  by code_simp

end
