(* ===== verification/Price_Quotes.thy ===== *)
theory Price_Quotes
  imports Profile "HOL-Library.Monad_Syntax" "HOL-Library.Multiset"
begin

text \<open>
  The quotes of \<open>backend/app/services/price_service.py\<close>: symbols and keys of holdings, the three
  providers of stock prices and the one of crypto prices as parsers of their answers, the snapshot
  table with its upsert, \<open>refresh_household\<close> with its progress reports and \<open>quote_holding\<close>.  What
  the HTTP client answers, \<open>str\<close> and \<open>Decimal\<close> are parameters; an exception of a parser is \<open>None\<close>.  Prices are
  rational: \<open>NaN\<close> and infinities of \<open>Decimal\<close> and the length limits of the columns are left out.
\<close>

subsection \<open>Splitting text\<close>

text \<open>The line ends of \<open>str.splitlines\<close>; all are white space.\<close>

definition line_end :: "int \<Rightarrow> bool" where
  "line_end c \<longleftrightarrow> (10 \<le> c \<and> c \<le> 13) \<or> (28 \<le> c \<and> c \<le> 30) \<or> c = 133 \<or> c = 8232 \<or> c = 8233"

text \<open>\<open>str.isdigit\<close> on Latin-1: the decimal digits and the superscripts; false on the empty text.\<close>

definition py_isdigit :: "pystr \<Rightarrow> bool" where
  "py_isdigit s \<longleftrightarrow> s \<noteq> [] \<and> list_all (\<lambda>c. digit_cp c \<or> c \<in> {178, 179, 185}) s"

subsection \<open>Symbols and keys\<close>

record refresh_input =
  hi_id :: pystr
  hi_asset_type :: asset_type
  hi_symbol :: pystr
  hi_market_symbol :: "pystr option"
  hi_average_cost :: rat
  hi_currency :: pystr

definition to_refresh_input :: "holding \<Rightarrow> refresh_input" where
  "to_refresh_input h =
     \<lparr>hi_id = hd_id h, hi_asset_type = hd_asset_type h, hi_symbol = hd_symbol h,
      hi_market_symbol = Some (hd_market_symbol h), hi_average_cost = hd_average_cost h,
      hi_currency = hd_currency h\<rparr>"

definition symbol_of :: "refresh_input \<Rightarrow> pystr" where
  "symbol_of h =
     py_upper (py_strip (case hi_market_symbol h of Some s \<Rightarrow> if s = [] then hi_symbol h else s
                         | None \<Rightarrow> hi_symbol h))"

definition is_non_market_asset :: "asset_type \<Rightarrow> bool" where
  "is_non_market_asset a \<longleftrightarrow> a \<in> {Asset_cash, Asset_real_estate, Asset_pension, Asset_other}"

type_synonym quote_key = "asset_type \<times> pystr"

definition holding_refresh_key :: "refresh_input \<Rightarrow> quote_key" where
  "holding_refresh_key h =
     (if is_non_market_asset (hi_asset_type h)
      then (hi_asset_type h, symbol_of h @ lit ''::'' @ hi_id h)
      else (hi_asset_type h, symbol_of h))"

definition first_part :: "pystr \<Rightarrow> pystr" where
  "first_part s = takeWhile (\<lambda>c. c \<noteq> 46) s"

definition is_krx_symbol :: "refresh_input \<Rightarrow> bool" where
  "is_krx_symbol h =
     (let symbol = symbol_of h; base = first_part symbol
      in py_endswith symbol (lit ''.KR'') \<or> (length base = 6 \<and> py_isdigit base))"

definition yahoo_symbol :: "refresh_input \<Rightarrow> pystr" where
  "yahoo_symbol h =
     (let symbol = symbol_of h
      in if py_endswith symbol (lit ''.KR'') then take (length symbol - 3) symbol else symbol)"

definition stock_symbol_candidates :: "refresh_input \<Rightarrow> pystr list" where
  "stock_symbol_candidates h =
     (let base = py_lower (symbol_of h); code = first_part base; dotted = 46 \<in> set base
      in dedup ([base] @ (if \<not> dotted \<and> is_krx_symbol h then [code @ lit ''.kr''] else [])
                @ (if \<not> dotted \<and> \<not> is_krx_symbol h then [code @ lit ''.us''] else [])
                @ (if dotted then [code] else [])))"

subsection \<open>Providers\<close>

text \<open>
  An answer of the HTTP client; \<open>None\<close> in place of an answer is its exception.  \<open>hr_success\<close> says
  that \<open>raise_for_status\<close> does not raise, \<open>hr_json\<close> is the decoded body, \<open>hr_cp949\<close> what decoding
  it as CP949 gives.
\<close>

record http_reply =
  hr_status :: int
  hr_success :: bool
  hr_json :: "json option"
  hr_cp949 :: "json option"
  hr_text :: pystr

record providers =
  pv_naver :: "pystr \<Rightarrow> http_reply option"
  pv_yahoo :: "pystr \<Rightarrow> http_reply option"
  pv_stooq :: "pystr \<Rightarrow> http_reply option"
  pv_coingecko :: "pystr \<Rightarrow> http_reply option"
  pv_str :: "json \<Rightarrow> pystr"
  pv_decimal :: "pystr \<Rightarrow> rat option"

fun obj_get :: "json \<Rightarrow> string \<Rightarrow> json \<Rightarrow> json option" where
  "obj_get (JObj kvs) k dflt = Some (case map_of kvs (lit k) of Some v \<Rightarrow> v | None \<Rightarrow> dflt)"
| "obj_get _ k dflt = None"

fun index_first :: "json \<Rightarrow> json option" where
  "index_first (JList (x # xs)) = Some x"
| "index_first (JStr (c # cs)) = Some (JStr [c])"
| "index_first _ = None"

definition json_or :: "json \<Rightarrow> json \<Rightarrow> json" where
  "json_or v dflt = (if py_truthy v then v else dflt)"

definition no_value :: "json \<Rightarrow> bool" where
  "no_value v \<longleftrightarrow> v \<in> {JNull, JStr [], JStr (lit ''-'')}"

text \<open>\<open>Decimal(str(value))\<close>.\<close>

definition json_decimal :: "providers \<Rightarrow> json \<Rightarrow> rat option" where
  "json_decimal pv v = pv_decimal pv (case v of JStr s \<Rightarrow> s | _ \<Rightarrow> pv_str pv v)"

definition fetch_stock_naver :: "providers \<Rightarrow> refresh_input \<Rightarrow> rat option" where
  "fetch_stock_naver pv h = do {
     response \<leftarrow> pv_naver pv (lit ''SERVICE_ITEM:'' @ first_part (symbol_of h));
     if hr_status response \<noteq> 200 then None
     else do {
       payload \<leftarrow> (case hr_json response of Some v \<Rightarrow> Some v | None \<Rightarrow> hr_cp949 response);
       result \<leftarrow> obj_get payload ''result'' (JObj []);
       areas \<leftarrow> obj_get result ''areas'' (JList [JObj []]);
       area \<leftarrow> index_first areas;
       datas \<leftarrow> obj_get area ''datas'' (JList []);
       if \<not> py_truthy datas then None
       else do {
         node \<leftarrow> index_first datas;
         nv \<leftarrow> obj_get node ''nv'' JNull;
         if no_value nv then None else json_decimal pv nv
       }
     }
   }"

text \<open>What \<open>reversed\<close> runs over: a list, the characters of a text, the keys of an object.\<close>

fun reversed_items :: "json \<Rightarrow> json list option" where
  "reversed_items (JList xs) = Some (rev xs)"
| "reversed_items (JStr s) = Some (map (\<lambda>c. JStr [c]) (rev s))"
| "reversed_items (JObj kvs) = Some (map (JStr \<circ> fst) (rev kvs))"
| "reversed_items _ = None"

definition last_close :: "json \<Rightarrow> json option" where
  "last_close node = do {
     indicators \<leftarrow> obj_get node ''indicators'' JNull;
     quotes \<leftarrow> obj_get (json_or indicators (JObj [])) ''quote'' JNull;
     quote \<leftarrow> index_first (json_or quotes (JList [JObj []]));
     closes \<leftarrow> obj_get quote ''close'' JNull;
     items \<leftarrow> reversed_items (json_or closes (JList []));
     Some (case find (\<lambda>v. \<not> no_value v) items of Some v \<Rightarrow> v | None \<Rightarrow> JNull)
   }"

definition fetch_stock_yahoo :: "providers \<Rightarrow> refresh_input \<Rightarrow> (rat \<times> pystr option) option" where
  "fetch_stock_yahoo pv h =
     (if yahoo_symbol h = [] then None
      else do {
        response \<leftarrow> pv_yahoo pv (yahoo_symbol h);
        if hr_status response \<noteq> 200 then None
        else do {
          payload \<leftarrow> hr_json response;
          chart \<leftarrow> obj_get payload ''chart'' (JObj []);
          results \<leftarrow> obj_get chart ''result'' JNull;
          if \<not> py_truthy results then None
          else do {
            node \<leftarrow> index_first results;
            meta_value \<leftarrow> obj_get node ''meta'' (JObj []);
            let meta = json_or meta_value (JObj []);
            currency \<leftarrow> obj_get meta ''currency'' JNull;
            market_price \<leftarrow> obj_get meta ''regularMarketPrice'' JNull;
            raw_price \<leftarrow> (if no_value market_price
                          then do { close \<leftarrow> last_close node;
                                    Some (if no_value close then market_price else close) }
                          else Some market_price);
            if no_value raw_price then None
            else do {
              price \<leftarrow> json_decimal pv raw_price;
              let code = py_upper (str_or_empty (pv_str pv) currency);
              Some (price, if code = [] then None else Some code)
            }
          }
        }
      })"

definition parse_stooq :: "providers \<Rightarrow> pystr \<Rightarrow> rat option" where
  "parse_stooq pv raw_csv =
     (let rows = filter (\<lambda>line. line \<noteq> []) (map py_strip (split_on line_end raw_csv))
      in if length rows < 2 then None
         else (let cols = map py_strip (split_on (\<lambda>c. c = 44) (rows ! 1))
               in if length cols < 7 then None
                  else if cols ! 6 \<in> {lit ''N/D'', []} then None
                  else pv_decimal pv (cols ! 6)))"

fun try_stooq :: "providers \<Rightarrow> pystr list \<Rightarrow> (rat \<times> pystr) option" where
  "try_stooq pv [] = None"
| "try_stooq pv (candidate # rest) =
     (case (do { response \<leftarrow> pv_stooq pv candidate;
                 if hr_status response = 200 then parse_stooq pv (hr_text response) else None }) of
        Some price \<Rightarrow> Some (price, if py_endswith candidate (lit ''.kr'') then lit ''KRW'' else lit ''USD'')
      | None \<Rightarrow> try_stooq pv rest)"

text \<open>Price, currency and source, in the order of \<open>FetchedLiveQuote\<close>.\<close>

type_synonym fetched_quote = "rat option \<times> pystr option \<times> pystr"

definition fetch_stock :: "providers \<Rightarrow> refresh_input \<Rightarrow> fetched_quote" where
  "fetch_stock pv h =
     (let naver = (if is_krx_symbol h then fetch_stock_naver pv h else None)
      in case naver of
           Some price \<Rightarrow> (Some price, Some (lit ''KRW''), lit ''naver'')
         | None \<Rightarrow>
             (case fetch_stock_yahoo pv h of
                Some (price, Some currency) \<Rightarrow> (Some price, Some currency, lit ''yahoo'')
              | _ \<Rightarrow>
                  (case try_stooq pv (stock_symbol_candidates h) of
                     Some (price, currency) \<Rightarrow> (Some price, Some currency, lit ''stooq'')
                   | None \<Rightarrow> (None, Some (hi_currency h), lit ''unavailable''))))"

definition crypto_symbol_to_id :: "(pystr \<times> pystr) list" where
  "crypto_symbol_to_id =
     [(lit ''BTC'', lit ''bitcoin''), (lit ''ETH'', lit ''ethereum''), (lit ''XRP'', lit ''ripple''),
      (lit ''SOL'', lit ''solana''), (lit ''DOGE'', lit ''dogecoin''), (lit ''ADA'', lit ''cardano''),
      (lit ''USDT'', lit ''tether''), (lit ''USDC'', lit ''usd-coin'')]"

definition fetch_crypto :: "providers \<Rightarrow> refresh_input \<Rightarrow> fetched_quote" where
  "fetch_crypto pv h =
     (let symbol = symbol_of h;
          coin_id = (case map_of crypto_symbol_to_id symbol of Some c \<Rightarrow> c | None \<Rightarrow> py_lower symbol);
          found = do {
            response \<leftarrow> pv_coingecko pv coin_id;
            payload \<leftarrow> (if hr_success response then hr_json response else None);
            node \<leftarrow> (case payload of JObj kvs \<Rightarrow>
                        Some (case map_of kvs coin_id of Some v \<Rightarrow> v | None \<Rightarrow> JObj []) | _ \<Rightarrow> None);
            (case node of
               JObj kvs \<Rightarrow>
                 (case map_of kvs (lit ''krw'') of
                    Some v \<Rightarrow> map_option (\<lambda>price. (price, lit ''KRW'')) (json_decimal pv v)
                  | None \<Rightarrow>
                      (case map_of kvs (lit ''usd'') of
                         Some v \<Rightarrow> map_option (\<lambda>price. (price, lit ''USD'')) (json_decimal pv v)
                       | None \<Rightarrow> None))
             | _ \<Rightarrow> None)
          }
      in case found of
           Some (price, currency) \<Rightarrow> (Some price, Some currency, lit ''coingecko'')
         | None \<Rightarrow> (None, Some (hi_currency h), lit ''coingecko''))"

definition fetch_live_quote :: "providers \<Rightarrow> refresh_input \<Rightarrow> fetched_quote" where
  "fetch_live_quote pv h =
     (if hi_asset_type h = Asset_stock then fetch_stock pv h
      else if hi_asset_type h = Asset_crypto then fetch_crypto pv h
      else if is_non_market_asset (hi_asset_type h)
        then (Some (hi_average_cost h), Some (hi_currency h), lit ''manual'')
      else (None, Some (hi_currency h), lit ''unavailable''))"

subsection \<open>Snapshots\<close>

record price_snapshot =
  ps_asset_type :: asset_type
  ps_symbol :: pystr
  ps_currency :: pystr
  ps_price :: rat
  ps_source :: pystr
  ps_fetched_at :: instant

definition snap_key :: "price_snapshot \<Rightarrow> quote_key" where
  "snap_key s = (ps_asset_type s, ps_symbol s)"

text \<open>Rows of the key list, by type and upper-case symbol; a later row replaces an earlier one.\<close>

definition snapshot_map :: "price_snapshot list \<Rightarrow> quote_key list \<Rightarrow> (quote_key \<times> price_snapshot) list" where
  "snapshot_map snapshots keys =
     fold (\<lambda>row acc. dict_put (ps_asset_type row, py_upper (ps_symbol row)) row acc)
       (filter (\<lambda>row. ps_symbol row \<in> snd ` set keys \<and> ps_asset_type row \<in> fst ` set keys) snapshots) []"

text \<open>
  \<open>INSERT ... ON CONFLICT DO UPDATE\<close>; the row carries the price as the column
  \<open>Numeric(20, 8)\<close> keeps it.
\<close>

definition upsert_snapshot :: "price_snapshot \<Rightarrow> price_snapshot list \<Rightarrow> price_snapshot list" where
  "upsert_snapshot new rows =
     (if snap_key new \<in> snap_key ` set rows
      then row_update snap_key (snap_key new) (\<lambda>_. new) rows
      else rows @ [new])"

subsection \<open>Refreshing a household\<close>

record quote =
  qu_price :: "rat option"
  qu_currency :: "pystr option"
  qu_source :: pystr
  qu_fetched :: bool

type_synonym live_quote = "rat option \<times> pystr option \<times> pystr \<times> bool"

record refresh_pass =
  rp_live :: "(quote_key \<times> live_quote) list"
  rp_completed :: int
  rp_log :: "(int \<times> int) list"

text \<open>
  The progress callback: \<open>accept\<close> is false when it raises, which ends the refresh; \<open>rp_log\<close>
  lists the calls.
\<close>

definition report :: "(int \<Rightarrow> int \<Rightarrow> bool) \<Rightarrow> int \<Rightarrow> refresh_pass \<Rightarrow> (int \<times> int) list + refresh_pass" where
  "report accept total_symbols st =
     (let calls = rp_log st @ [(rp_completed st, total_symbols)]
      in if accept (rp_completed st) total_symbols then Inr (st\<lparr>rp_log := calls\<rparr>) else Inl calls)"

definition complete ::
  "(int \<Rightarrow> int \<Rightarrow> bool) \<Rightarrow> int \<Rightarrow> quote_key \<Rightarrow> live_quote \<Rightarrow> refresh_pass \<Rightarrow> (int \<times> int) list + refresh_pass" where
  "complete accept total_symbols key q st =
     report accept total_symbols (st\<lparr>rp_live := dict_put key q (rp_live st), rp_completed := rp_completed st + 1\<rparr>)"

text \<open>The holdings by key, the first of each key, in their order.\<close>

definition unique_by_symbol :: "refresh_input list \<Rightarrow> (quote_key \<times> refresh_input) list" where
  "unique_by_symbol holdings =
     fold (\<lambda>h acc. if holding_refresh_key h \<in> fst ` set acc then acc else acc @ [(holding_refresh_key h, h)])
       holdings []"

text \<open>What needs no provider: manual prices and fresh snapshots.\<close>

definition local_quote ::
  "instant \<Rightarrow> (quote_key \<times> price_snapshot) list \<Rightarrow> quote_key \<Rightarrow> refresh_input \<Rightarrow> live_quote option" where
  "local_quote stale_before snaps key h =
     (if is_non_market_asset (hi_asset_type h)
      then Some (Some (hi_average_cost h), Some (hi_currency h), lit ''manual'', False)
      else (case map_of snaps key of
              Some s \<Rightarrow> (if stale_before \<le> ps_fetched_at s
                        then Some (Some (ps_price s), Some (ps_currency s), ps_source s, False) else None)
            | None \<Rightarrow> None))"

fun local_pass ::
  "(int \<Rightarrow> int \<Rightarrow> bool) \<Rightarrow> int \<Rightarrow> instant \<Rightarrow> (quote_key \<times> price_snapshot) list \<Rightarrow> (quote_key \<times> refresh_input) list
   \<Rightarrow> refresh_pass \<Rightarrow> (int \<times> int) list + refresh_pass" where
  "local_pass accept total_symbols stale_before snaps [] st = Inr st"
| "local_pass accept total_symbols stale_before snaps ((key, h) # rest) st =
     (case local_quote stale_before snaps key h of
        None \<Rightarrow> local_pass accept total_symbols stale_before snaps rest st
      | Some q \<Rightarrow>
          (case complete accept total_symbols key q st of
             Inl calls \<Rightarrow> Inl calls
           | Inr st' \<Rightarrow> local_pass accept total_symbols stale_before snaps rest st'))"

definition network_holdings ::
  "instant \<Rightarrow> (quote_key \<times> price_snapshot) list \<Rightarrow> (quote_key \<times> refresh_input) list
   \<Rightarrow> (quote_key \<times> refresh_input) list" where
  "network_holdings stale_before snaps unique =
     filter (\<lambda>(key, h). local_quote stale_before snaps key h = None) unique"

text \<open>The loop over \<open>asyncio.as_completed\<close>, in the order of arrival.\<close>

fun network_pass ::
  "(int \<Rightarrow> int \<Rightarrow> bool) \<Rightarrow> int \<Rightarrow> (quote_key \<times> live_quote) list \<Rightarrow> refresh_pass
   \<Rightarrow> (int \<times> int) list + refresh_pass" where
  "network_pass accept total_symbols [] st = Inr st"
| "network_pass accept total_symbols ((key, q) # rest) st =
     (case complete accept total_symbols key q st of
        Inl calls \<Rightarrow> Inl calls
      | Inr st' \<Rightarrow> network_pass accept total_symbols rest st')"

definition or_currency :: "pystr option \<Rightarrow> pystr \<Rightarrow> pystr" where
  "or_currency currency fallback =
     py_upper (case currency of
        Some c \<Rightarrow> if c \<noteq> [] then c else if fallback \<noteq> [] then fallback else lit ''KRW''
      | None \<Rightarrow> if fallback \<noteq> [] then fallback else lit ''KRW'')"

definition stale_source :: "pystr \<Rightarrow> pystr" where
  "stale_source source = source @ lit '':stale''"

text \<open>The final answer for a key; the second component is the snapshot to write.\<close>

definition final_quote ::
  "(rat \<Rightarrow> rat) \<Rightarrow> instant \<Rightarrow> (quote_key \<times> price_snapshot) list \<Rightarrow> (quote_key \<times> live_quote) list
   \<Rightarrow> quote_key \<Rightarrow> refresh_input \<Rightarrow> quote \<times> price_snapshot option" where
  "final_quote store_price now snaps live key h =
     (case (case map_of live key of Some q \<Rightarrow> q
            | None \<Rightarrow> (None, Some (hi_currency h), lit ''unavailable'', False)) of
        (None, currency, source, fetched_live) \<Rightarrow>
          (case map_of snaps key of
             Some s \<Rightarrow> (\<lparr>qu_price = Some (ps_price s), qu_currency = Some (ps_currency s),
                        qu_source = stale_source (ps_source s), qu_fetched = False\<rparr>, None)
           | None \<Rightarrow> (\<lparr>qu_price = None, qu_currency = Some (hi_currency h), qu_source = lit ''unavailable'',
                      qu_fetched = fetched_live\<rparr>, None))
      | (Some price, currency, source, fetched_live) \<Rightarrow>
          (let code = or_currency currency (hi_currency h)
           in (\<lparr>qu_price = Some price, qu_currency = Some code, qu_source = source, qu_fetched = fetched_live\<rparr>,
               if fetched_live \<and> \<not> is_non_market_asset (hi_asset_type h)
               then Some \<lparr>ps_asset_type = hi_asset_type h, ps_symbol = snd key, ps_currency = code,
                          ps_price = store_price price, ps_source = source, ps_fetched_at = now\<rparr>
               else None)))"

definition write_snapshots :: "price_snapshot option list \<Rightarrow> price_snapshot list \<Rightarrow> price_snapshot list" where
  "write_snapshots news rows =
     fold (\<lambda>new rows. case new of Some s \<Rightarrow> upsert_snapshot s rows | None \<Rightarrow> rows) news rows"

text \<open>
  \<open>refresh_household\<close>: \<open>arrivals\<close> is what the network tasks give in the order they finish,
  \<open>others\<close> what other sessions do to the table meanwhile.  The calls of the callback come first;
  the result is missing when the callback raised.
\<close>

definition refresh_household ::
  "int \<Rightarrow> (rat \<Rightarrow> rat) \<Rightarrow> (int \<Rightarrow> int \<Rightarrow> bool) \<Rightarrow> instant \<Rightarrow> instant \<Rightarrow> (price_snapshot list \<Rightarrow> price_snapshot list)
   \<Rightarrow> (quote_key \<times> live_quote) list \<Rightarrow> holding list \<Rightarrow> pystr \<Rightarrow> price_snapshot list
   \<Rightarrow> (int \<times> int) list \<times> (pystr \<times> quote) list option \<times> price_snapshot list" where
  "refresh_household cache_seconds store_price accept started now others arrivals all_holdings household_id snapshots =
     (let holdings = map to_refresh_input (filter (\<lambda>h. hd_household_id h = household_id) all_holdings);
          unique = unique_by_symbol holdings;
          total_symbols = int (length unique);
          stale_before = started - seconds cache_seconds
      in case report accept total_symbols \<lparr>rp_live = [], rp_completed = 0, rp_log = []\<rparr> of
           Inl calls \<Rightarrow> (calls, None, snapshots)
         | Inr st0 \<Rightarrow>
             (let snaps = snapshot_map snapshots (map fst unique)
              in case local_pass accept total_symbols stale_before snaps unique st0 of
                   Inl calls \<Rightarrow> (calls, None, others snapshots)
                 | Inr st1 \<Rightarrow>
                     (case network_pass accept total_symbols arrivals st1 of
                        Inl calls \<Rightarrow> (calls, None, others snapshots)
                      | Inr st2 \<Rightarrow>
                          (let finals = map (\<lambda>(key, h). (key, final_quote store_price now snaps (rp_live st2) key h)) unique;
                               written = write_snapshots (map (snd \<circ> snd) finals) (others snapshots);
                               result = map (\<lambda>h. (hi_id h,
                                  case map_of finals (holding_refresh_key h) of
                                    Some (q, _) \<Rightarrow> q
                                  | None \<Rightarrow> \<lparr>qu_price = None, qu_currency = Some (hi_currency h),
                                             qu_source = lit ''unavailable'', qu_fetched = False\<rparr>)) holdings;
                               calls = rp_log st2 @ [(total_symbols, total_symbols)]
                           in if accept total_symbols total_symbols then (calls, Some result, written)
                              else (calls, None, written)))))"

subsection \<open>The quote of one holding\<close>

definition quote_holding ::
  "providers \<Rightarrow> int \<Rightarrow> (rat \<Rightarrow> rat) \<Rightarrow> instant \<Rightarrow> holding \<Rightarrow> bool \<Rightarrow> price_snapshot list
   \<Rightarrow> quote \<times> price_snapshot list" where
  "quote_holding pv cache_seconds store_price now holding force_refresh snapshots =
     (let h = to_refresh_input holding
      in if is_non_market_asset (hi_asset_type h)
         then (\<lparr>qu_price = Some (hi_average_cost h), qu_currency = Some (hi_currency h),
                qu_source = lit ''manual'', qu_fetched = False\<rparr>, snapshots)
         else
           (let symbol = symbol_of h;
                snapshot = row_get snap_key (hi_asset_type h, symbol) snapshots
            in if \<not> force_refresh then
                 (case snapshot of
                    None \<Rightarrow> (\<lparr>qu_price = None, qu_currency = Some (hi_currency h),
                             qu_source = lit ''unavailable'', qu_fetched = False\<rparr>, snapshots)
                  | Some s \<Rightarrow> (\<lparr>qu_price = Some (ps_price s), qu_currency = Some (ps_currency s),
                               qu_source = (if ps_fetched_at s < now - seconds cache_seconds
                                            then stale_source (ps_source s) else ps_source s),
                               qu_fetched = False\<rparr>, snapshots))
               else
                 (case fetch_live_quote pv h of
                    (None, _, _) \<Rightarrow>
                      (case snapshot of
                         Some s \<Rightarrow> (\<lparr>qu_price = Some (ps_price s), qu_currency = Some (ps_currency s),
                                    qu_source = stale_source (ps_source s), qu_fetched = False\<rparr>, snapshots)
                       | None \<Rightarrow> (\<lparr>qu_price = None, qu_currency = Some (hi_currency h),
                                  qu_source = lit ''unavailable'', qu_fetched = True\<rparr>, snapshots))
                  | (Some price, currency, source) \<Rightarrow>
                      (let code = or_currency currency (hi_currency h)
                       in (\<lparr>qu_price = Some price, qu_currency = Some code, qu_source = source, qu_fetched = True\<rparr>,
                           upsert_snapshot
                             \<lparr>ps_asset_type = hi_asset_type h, ps_symbol = symbol, ps_currency = code,
                              ps_price = store_price price, ps_source = source, ps_fetched_at = now\<rparr> snapshots)))))"

subsection \<open>The status of the prices of a household\<close>

record price_status =
  st_holdings_count :: nat
  st_tracked_holdings_count :: nat
  st_snapshot_count :: nat
  st_stale_count :: nat
  st_updated_at :: "instant option"
  st_refresh_in_progress :: bool
  st_refresh_queued :: bool
  st_refresh_started_at :: "instant option"
  st_refresh_finished_at :: "instant option"
  st_refresh_target_count :: int
  st_refresh_completed_count :: int
  st_refresh_refreshed_count :: int
  st_refresh_last_duration_ms :: "int option"
  st_refresh_last_error :: "pystr option"

definition price_refresh_status ::
  "int \<Rightarrow> instant \<Rightarrow> holding list \<Rightarrow> refresh_status list \<Rightarrow> price_snapshot list \<Rightarrow> pystr \<Rightarrow> price_status" where
  "price_refresh_status cache_seconds now all_holdings states snapshots household_id =
     (let holdings = map to_refresh_input (filter (\<lambda>h. hd_household_id h = household_id) all_holdings);
          keys = dedup (map (\<lambda>h. (hi_asset_type h, symbol_of h))
                   (filter (\<lambda>h. \<not> is_non_market_asset (hi_asset_type h)) holdings));
          candidates = filter (\<lambda>s. ps_asset_type s \<in> fst ` set keys \<and> ps_symbol s \<in> snd ` set keys) snapshots;
          snaps = (if keys = [] then []
                   else filter (\<lambda>s. (ps_asset_type s, py_upper (ps_symbol s)) \<in> set keys) candidates);
          stale_before = now - seconds cache_seconds;
          state = row_get rs_household_id household_id states
      in \<lparr>st_holdings_count = length holdings,
          st_tracked_holdings_count = length keys,
          st_snapshot_count = length snaps,
          st_stale_count = length (filter (\<lambda>s. ps_fetched_at s < stale_before) snaps),
          st_updated_at = (if snaps = [] then None else Some (Max (ps_fetched_at ` set snaps))),
          st_refresh_in_progress = (case state of Some s \<Rightarrow> rs_in_progress s | None \<Rightarrow> False),
          st_refresh_queued = (case state of Some s \<Rightarrow> rs_queued s | None \<Rightarrow> False),
          st_refresh_started_at = Option.bind state rs_started_at,
          st_refresh_finished_at = Option.bind state rs_finished_at,
          st_refresh_target_count = (case state of Some s \<Rightarrow> rs_target_count s | None \<Rightarrow> 0),
          st_refresh_completed_count = (case state of Some s \<Rightarrow> rs_completed_count s | None \<Rightarrow> 0),
          st_refresh_refreshed_count = (case state of Some s \<Rightarrow> rs_refreshed_count s | None \<Rightarrow> 0),
          st_refresh_last_duration_ms = Option.bind state rs_last_duration_ms,
          st_refresh_last_error =
            (case Option.bind state rs_last_error of
               Some e \<Rightarrow> if e = [] then None else Some (lit ''PRICE_REFRESH_FAILED'') | None \<Rightarrow> None)\<rparr>)"

subsection \<open>Holdings by key\<close>

definition add_first :: "('a \<Rightarrow> 'k) \<Rightarrow> 'a \<Rightarrow> ('k \<times> 'a) list \<Rightarrow> ('k \<times> 'a) list" where
  "add_first key x acc = (if key x \<in> fst ` set acc then acc else acc @ [(key x, x)])"

lemma map_of_NoneD: "map_of xs k = None \<longleftrightarrow> k \<notin> fst ` set xs"
  by (induction xs) auto

lemma add_first_lookup:
  "map_of (add_first key x acc) k =
     (case map_of acc k of Some y \<Rightarrow> Some y | None \<Rightarrow> if key x = k then Some x else None)"
proof (cases "key x \<in> fst ` set acc")
  case True
  then have "map_of acc (key x) \<noteq> None" by (simp add: map_of_NoneD)
  with True show ?thesis by (auto simp: add_first_def split: option.splits)
next
  case False
  then show ?thesis by (auto simp: add_first_def map_add_def split: option.splits)
qed

lemma add_first_keys: "distinct (map fst acc) \<Longrightarrow> distinct (map fst (add_first key x acc))"
  by (simp add: add_first_def)

lemma fold_add_first:
  "map_of (fold (add_first key) xs acc) k =
     (case map_of acc k of Some x \<Rightarrow> Some x | None \<Rightarrow> find (\<lambda>x. key x = k) xs)"
  by (induction xs arbitrary: acc) (simp_all add: add_first_lookup split: option.splits)

lemma fold_add_first_keys: "distinct (map fst acc) \<Longrightarrow> distinct (map fst (fold (add_first key) xs acc))"
  by (induction xs arbitrary: acc) (simp_all add: add_first_keys)

lemma unique_by_symbol_eq: "unique_by_symbol hs = fold (add_first holding_refresh_key) hs []"
  unfolding unique_by_symbol_def by (rule arg_cong [where f = "\<lambda>f. fold f hs []"]) (simp add: fun_eq_iff add_first_def)

lemma unique_by_symbol_lookup: "map_of (unique_by_symbol hs) k = find (\<lambda>h. holding_refresh_key h = k) hs"
  by (simp add: unique_by_symbol_eq fold_add_first)

lemma unique_by_symbol_distinct: "distinct (map fst (unique_by_symbol hs))"
  by (simp add: unique_by_symbol_eq fold_add_first_keys)

lemma unique_by_symbol_mem:
  assumes "(k, h) \<in> set (unique_by_symbol hs)"
  shows "h \<in> set hs" "holding_refresh_key h = k"
proof -
  have "map_of (unique_by_symbol hs) k = Some h"
    using assms unique_by_symbol_distinct by (simp add: map_of_eq_Some_iff)
  then have "find (\<lambda>h. holding_refresh_key h = k) hs = Some h" by (simp add: unique_by_symbol_lookup)
  then show "h \<in> set hs" "holding_refresh_key h = k" by (auto dest: find_SomeD)
qed

subsection \<open>The passes as one loop\<close>

definition local_items ::
  "instant \<Rightarrow> (quote_key \<times> price_snapshot) list \<Rightarrow> (quote_key \<times> refresh_input) list \<Rightarrow> (quote_key \<times> live_quote) list" where
  "local_items sb snaps unique =
     map (\<lambda>(k, h). (k, the (local_quote sb snaps k h))) (filter (\<lambda>(k, h). local_quote sb snaps k h \<noteq> None) unique)"

lemma local_pass_as_network:
  "local_pass accept n sb snaps unique st = network_pass accept n (local_items sb snaps unique) st"
  by (induction accept n sb snaps unique st rule: local_pass.induct)
    (auto simp: local_items_def split: option.splits sum.splits)

lemma network_pass_append:
  "network_pass accept n (xs @ ys) st =
     (case network_pass accept n xs st of Inl calls \<Rightarrow> Inl calls | Inr st' \<Rightarrow> network_pass accept n ys st')"
  by (induction accept n xs st rule: network_pass.induct) (auto split: sum.splits)

definition calls_from :: "int \<Rightarrow> nat \<Rightarrow> int \<Rightarrow> (int \<times> int) list" where
  "calls_from c m n = map (\<lambda>i. (c + 1 + int i, n)) [0..<m]"

lemma calls_from_Suc: "calls_from c (Suc m) n = (c + 1, n) # calls_from (c + 1) m n"
  unfolding calls_from_def by (simp add: upt_conv_Cons map_Suc_upt [symmetric] del: upt_Suc)

lemma network_pass_Inr:
  "network_pass accept n xs st = Inr st' \<Longrightarrow>
     rp_completed st' = rp_completed st + int (length xs) \<and>
     rp_log st' = rp_log st @ calls_from (rp_completed st) (length xs) n \<and>
     rp_live st' = fold (\<lambda>(k, q). dict_put k q) xs (rp_live st) \<and>
     list_all (\<lambda>(c, t). accept c t) (calls_from (rp_completed st) (length xs) n)"
proof (induction xs arbitrary: st)
  case (Cons x xs)
  obtain k q where x: "x = (k, q)" by (cases x)
  let ?st = "st\<lparr>rp_live := dict_put k q (rp_live st), rp_completed := rp_completed st + 1,
      rp_log := rp_log st @ [(rp_completed st + 1, n)]\<rparr>"
  from Cons.prems x have "network_pass accept n xs ?st = Inr st'" and a: "accept (rp_completed st + 1) n"
    by (auto simp: complete_def report_def Let_def split: sum.splits if_splits)
  from Cons.IH [OF this(1)] a x show ?case by (simp add: calls_from_Suc)
qed (simp add: calls_from_def)

lemma network_pass_Inl:
  "network_pass accept n xs st = Inl calls \<Longrightarrow>
     \<exists>m < length xs. calls = rp_log st @ calls_from (rp_completed st) (Suc m) n \<and>
       list_all (\<lambda>(c, t). accept c t) (calls_from (rp_completed st) m n) \<and>
       \<not> accept (rp_completed st + 1 + int m) n"
proof (induction xs arbitrary: st)
  case (Cons x xs)
  obtain k q where x: "x = (k, q)" by (cases x)
  show ?case
  proof (cases "accept (rp_completed st + 1) n")
    case False
    with Cons.prems x show ?thesis
      by (intro exI [of _ 0]) (auto simp: complete_def report_def Let_def calls_from_def)
  next
    case True
    let ?st = "st\<lparr>rp_live := dict_put k q (rp_live st), rp_completed := rp_completed st + 1,
      rp_log := rp_log st @ [(rp_completed st + 1, n)]\<rparr>"
    from True Cons.prems x have "network_pass accept n xs ?st = Inl calls"
      by (simp add: complete_def report_def Let_def)
    from Cons.IH [OF this] obtain m where "m < length xs"
      "calls = rp_log ?st @ calls_from (rp_completed ?st) (Suc m) n"
      "list_all (\<lambda>(c, t). accept c t) (calls_from (rp_completed ?st) m n)"
      "\<not> accept (rp_completed ?st + 1 + int m) n" by auto
    with True show ?thesis
      by (intro exI [of _ "Suc m"]) (simp add: calls_from_Suc ac_simps)
  qed
qed simp

lemma fold_dict_put_lookup:
  "distinct (map fst xs) \<Longrightarrow> map_of (fold (\<lambda>(k, q). dict_put k q) xs kvs) k =
     (case map_of xs k of Some q \<Rightarrow> Some q | None \<Rightarrow> map_of kvs k)"
proof (induction xs arbitrary: kvs)
  case (Cons x xs)
  obtain a q where x: "x = (a, q)" by (cases x)
  with Cons.prems have "distinct (map fst xs)" "map_of xs a = None" by (simp_all add: map_of_NoneD)
  then show ?case using Cons.IH [of "dict_put a q kvs"] by (simp add: x map_of_dict_put split: option.splits)
qed simp

subsection \<open>The snapshot table\<close>

text \<open>One row for a key, symbols in upper case.\<close>

definition snapshots_wf :: "price_snapshot list \<Rightarrow> bool" where
  "snapshots_wf rows \<longleftrightarrow> unique_keys snap_key rows \<and> (\<forall>s \<in> set rows. py_upper (ps_symbol s) = ps_symbol s)"

lemma upsert_snapshot_wf:
  assumes "snapshots_wf rows" "py_upper (ps_symbol new) = ps_symbol new"
  shows "snapshots_wf (upsert_snapshot new rows)"
proof (cases "snap_key new \<in> snap_key ` set rows")
  case True
  have "map snap_key (row_update snap_key (snap_key new) (\<lambda>_. new) rows) = map snap_key rows"
    by (simp add: row_update_def)
  moreover have "set (row_update snap_key (snap_key new) (\<lambda>_. new) rows) \<subseteq> insert new (set rows)"
    by (auto simp: row_update_def)
  ultimately show ?thesis
    using assms True by (auto simp: snapshots_wf_def upsert_snapshot_def unique_keys_def simp del: map_map)
next
  case False
  with assms show ?thesis by (simp add: snapshots_wf_def upsert_snapshot_def unique_keys_def)
qed

lemma row_get_replace:
  "row_get key k (row_update key (key new) (\<lambda>_. new) rows) =
     (if k = key new \<and> k \<in> key ` set rows then Some new else row_get key k rows)"
  by (induction rows) (auto simp: row_update_def row_get_def)

lemma upsert_snapshot_get:
  "row_get snap_key k (upsert_snapshot new rows) = (if k = snap_key new then Some new else row_get snap_key k rows)"
proof (cases "snap_key new \<in> snap_key ` set rows")
  case True
  then show ?thesis by (simp add: upsert_snapshot_def row_get_replace)
next
  case False
  then have "row_get snap_key (snap_key new) rows = None" by (simp add: row_get_None_iff)
  with False show ?thesis by (simp add: upsert_snapshot_def row_get_append split: option.splits)
qed

lemma snapshot_map_lookup:
  assumes "snapshots_wf rows" "k \<in> set keys"
  shows "map_of (snapshot_map rows keys) k = row_get snap_key k rows"
proof -
  define ok where "ok = (\<lambda>row :: price_snapshot. ps_symbol row \<in> snd ` set keys \<and> ps_asset_type row \<in> fst ` set keys)"
  have f: "map_of (fold (\<lambda>row acc. dict_put (ps_asset_type row, py_upper (ps_symbol row)) row acc) rs acc) k =
      (case row_get snap_key k rs of Some r \<Rightarrow> Some r | None \<Rightarrow> map_of acc k)" if "snapshots_wf rs" for rs acc
    using that
  proof (induction rs arbitrary: acc)
    case (Cons r rs)
    then have w: "snapshots_wf rs" and r: "py_upper (ps_symbol r) = ps_symbol r" "snap_key r \<notin> snap_key ` set rs"
      by (auto simp: snapshots_wf_def unique_keys_def)
    show ?case
    proof (cases "snap_key r = k")
      case True
      with r have "row_get snap_key k rs = None" by (simp add: row_get_None_iff)
      with True r show ?thesis by (simp add: Cons.IH [OF w] map_of_dict_put row_get_def snap_key_def)
    next
      case False
      with r show ?thesis by (auto simp: Cons.IH [OF w] map_of_dict_put row_get_def snap_key_def split: option.splits)
    qed
  qed (simp add: row_get_def)
  have w: "snapshots_wf (filter ok rows)" using assms(1) by (auto simp: snapshots_wf_def unique_keys_def distinct_map_filter)
  have "row_get snap_key k (filter ok rows) = row_get snap_key k rows"
  proof -
    have "snap_key r = k \<Longrightarrow> ok r" for r using assms(2) by (force simp: ok_def snap_key_def)
    then show ?thesis unfolding row_get_def by (induction rows) auto
  qed
  with f [OF w, of "[]"] show ?thesis by (simp add: snapshot_map_def ok_def split: option.splits)
qed

subsection \<open>The refresh\<close>

definition household_inputs :: "holding list \<Rightarrow> pystr \<Rightarrow> refresh_input list" where
  "household_inputs all_holdings household_id =
     map to_refresh_input (filter (\<lambda>h. hd_household_id h = household_id) all_holdings)"

definition known_snapshots :: "holding list \<Rightarrow> pystr \<Rightarrow> price_snapshot list \<Rightarrow> (quote_key \<times> price_snapshot) list" where
  "known_snapshots all_holdings household_id snapshots =
     snapshot_map snapshots (map fst (unique_by_symbol (household_inputs all_holdings household_id)))"

text \<open>The keys the providers are asked for.\<close>

definition awaited_keys :: "int \<Rightarrow> instant \<Rightarrow> holding list \<Rightarrow> pystr \<Rightarrow> price_snapshot list \<Rightarrow> quote_key list" where
  "awaited_keys cache_seconds started all_holdings household_id snapshots =
     map fst (network_holdings (started - seconds cache_seconds) (known_snapshots all_holdings household_id snapshots)
       (unique_by_symbol (household_inputs all_holdings household_id)))"

definition settled_items ::
  "int \<Rightarrow> instant \<Rightarrow> holding list \<Rightarrow> pystr \<Rightarrow> price_snapshot list \<Rightarrow> (quote_key \<times> live_quote) list" where
  "settled_items cache_seconds started all_holdings household_id snapshots =
     local_items (started - seconds cache_seconds) (known_snapshots all_holdings household_id snapshots)
       (unique_by_symbol (household_inputs all_holdings household_id))"

lemma items_cover:
  assumes "mset (map fst arrivals) = mset (awaited_keys cs t0 hs hid snaps)"
  shows "mset (map fst (settled_items cs t0 hs hid snaps @ arrivals)) =
      mset (map fst (unique_by_symbol (household_inputs hs hid)))"
proof -
  let ?sb = "t0 - seconds cs" and ?k = "known_snapshots hs hid snaps" and ?u = "unique_by_symbol (household_inputs hs hid)"
  let ?P = "\<lambda>(k, h). local_quote ?sb ?k k h = None"
  have p: "mset (map fst (filter (\<lambda>x. \<not> P x) xs)) + mset (map fst (filter P xs)) = mset (map fst xs)"
    for P and xs :: "('a \<times> 'b) list"
    by (induction xs) simp_all
  have "map fst (settled_items cs t0 hs hid snaps) = map fst (filter (\<lambda>x. \<not> ?P x) ?u)"
    by (simp add: settled_items_def local_items_def case_prod_beta' comp_def)
  moreover have "mset (map fst arrivals) = mset (map fst (filter ?P ?u))"
    unfolding assms awaited_keys_def network_holdings_def ..
  ultimately show ?thesis using p [of ?P ?u] by (metis map_append mset_append)
qed

lemma items_distinct:
  assumes "mset (map fst arrivals) = mset (awaited_keys cs t0 hs hid snaps)"
  shows "distinct (map fst (settled_items cs t0 hs hid snaps @ arrivals))"
    "length (settled_items cs t0 hs hid snaps @ arrivals) = length (unique_by_symbol (household_inputs hs hid))"
  using items_cover [OF assms] unique_by_symbol_distinct [of "household_inputs hs hid"]
  by (metis mset_eq_imp_distinct_iff, metis length_map mset_eq_length)

lemma refresh_household_cases:
  assumes "refresh_household cs sp accept t0 now others arrivals hs hid snaps = (calls, res, rows)"
  defines "u \<equiv> unique_by_symbol (household_inputs hs hid)"
  defines "st \<equiv> \<lparr>rp_live = [], rp_completed = 0, rp_log = [(0, int (length u))]\<rparr>"
  defines "pass \<equiv> network_pass accept (int (length u)) (settled_items cs t0 hs hid snaps @ arrivals) st"
  obtains (refused) "\<not> accept 0 (int (length u))" "calls = [(0, int (length u))]" "res = None" "rows = snaps"
    | (stopped) "accept 0 (int (length u))" "pass = Inl calls" "res = None" "rows = others snaps"
    | (finished) st2 finals where "accept 0 (int (length u))" "pass = Inr st2"
        "finals = map (\<lambda>(k, h). (k, final_quote sp now (known_snapshots hs hid snaps) (rp_live st2) k h)) u"
        "calls = rp_log st2 @ [(int (length u), int (length u))]"
        "rows = write_snapshots (map (snd \<circ> snd) finals) (others snaps)"
        "res = (if accept (int (length u)) (int (length u))
           then Some (map (\<lambda>h. (hi_id h, case map_of finals (holding_refresh_key h) of Some (q, _) \<Rightarrow> q
              | None \<Rightarrow> \<lparr>qu_price = None, qu_currency = Some (hi_currency h), qu_source = lit ''unavailable'',
                        qu_fetched = False\<rparr>)) (household_inputs hs hid))
           else None)"
proof (cases "accept 0 (int (length u))")
  case False
  with assms(1) show ?thesis
    by (intro refused) (simp_all add: refresh_household_def report_def Let_def u_def household_inputs_def)
next
  case True
  have r: "report accept (int (length u)) \<lparr>rp_live = [], rp_completed = 0, rp_log = []\<rparr> = Inr st"
    using True by (simp add: report_def st_def)
  note k = known_snapshots_def [of hs hid snaps, folded u_def]
  have pass: "pass = (case local_pass accept (int (length u)) (t0 - seconds cs) (known_snapshots hs hid snaps) u st of
      Inl calls \<Rightarrow> Inl calls | Inr st' \<Rightarrow> network_pass accept (int (length u)) arrivals st')"
    unfolding pass_def network_pass_append local_pass_as_network settled_items_def u_def ..
  note eq = assms(1) [unfolded refresh_household_def Let_def, folded household_inputs_def, folded u_def,
    unfolded r sum.case, folded k]
  show ?thesis
  proof (cases pass)
    case (Inl c)
    with eq show ?thesis using True by (intro stopped) (auto simp: pass split: sum.splits)
  next
    case (Inr st2)
    then obtain st1 where l: "local_pass accept (int (length u)) (t0 - seconds cs) (known_snapshots hs hid snaps) u st = Inr st1"
      "network_pass accept (int (length u)) arrivals st1 = Inr st2"
      by (auto simp: pass split: sum.splits)
    from eq [unfolded l sum.case] True Inr show ?thesis
      by (intro finished [OF True Inr refl]) (auto split: if_splits)
  qed
qed

text \<open>The reports of a refresh of \<open>n\<close> keys that is never refused.\<close>

definition expected_calls :: "nat \<Rightarrow> (int \<times> int) list" where
  "expected_calls n = map (\<lambda>i. (int i, int n)) [0..<Suc n] @ [(int n, int n)]"

lemma expected_calls_eq: "expected_calls n = (0, int n) # calls_from 0 n (int n) @ [(int n, int n)]"
proof -
  have "map (\<lambda>i. (int i, int n)) [0..<Suc n] = (0, int n) # map (\<lambda>i. (int (Suc i), int n)) [0..<n]"
    by (simp add: upt_conv_Cons map_Suc_upt [symmetric] del: upt_Suc)
  then show ?thesis by (simp add: expected_calls_def calls_from_def)
qed

lemma take_calls_from: "m \<le> n \<Longrightarrow> take m (calls_from c n t) = calls_from c m t"
  by (simp add: calls_from_def take_map)

lemma calls_from_length [simp]: "length (calls_from c m t) = m"
  by (simp add: calls_from_def)

lemma calls_from_snoc: "calls_from c (Suc m) t = calls_from c m t @ [(c + 1 + int m, t)]"
  by (simp add: calls_from_def)

subsection \<open>What a holding is answered\<close>

definition reference_quote ::
  "int \<Rightarrow> instant \<Rightarrow> refresh_input list \<Rightarrow> (quote_key \<times> live_quote) list \<Rightarrow> price_snapshot list \<Rightarrow> refresh_input \<Rightarrow> quote" where
  "reference_quote cs t0 inputs arrivals snaps h =
     (let k = holding_refresh_key h;
          first = (case find (\<lambda>x. holding_refresh_key x = k) inputs of Some x \<Rightarrow> x | None \<Rightarrow> h);
          known = row_get snap_key k snaps;
          fresh = (case known of Some s \<Rightarrow> t0 - seconds cs \<le> ps_fetched_at s | None \<Rightarrow> False)
      in if is_non_market_asset (hi_asset_type h)
         then \<lparr>qu_price = Some (hi_average_cost h), qu_currency = Some (or_currency (Some (hi_currency h)) (hi_currency h)),
               qu_source = lit ''manual'', qu_fetched = False\<rparr>
         else if fresh
         then (case known of Some s \<Rightarrow>
                 \<lparr>qu_price = Some (ps_price s), qu_currency = Some (or_currency (Some (ps_currency s)) (hi_currency first)),
                  qu_source = ps_source s, qu_fetched = False\<rparr>)
         else (case map_of arrivals k of
                 Some (Some p, c, source, fetched) \<Rightarrow>
                   \<lparr>qu_price = Some p, qu_currency = Some (or_currency c (hi_currency first)), qu_source = source,
                    qu_fetched = fetched\<rparr>
               | answer \<Rightarrow>
                   (case known of
                      Some s \<Rightarrow> \<lparr>qu_price = Some (ps_price s), qu_currency = Some (ps_currency s),
                                 qu_source = stale_source (ps_source s), qu_fetched = False\<rparr>
                    | None \<Rightarrow> \<lparr>qu_price = None, qu_currency = Some (hi_currency first), qu_source = lit ''unavailable'',
                              qu_fetched = (case answer of Some (_, _, _, fetched) \<Rightarrow> fetched | None \<Rightarrow> False)\<rparr>)))"

lemma map_of_map_values: "map_of (map (\<lambda>(k, h). (k, f k h)) u) k = map_option (f k) (map_of u k)"
  by (induction u) auto

lemma local_items_lookup:
  "distinct (map fst u) \<Longrightarrow> map_of (local_items sb s u) k = Option.bind (map_of u k) (local_quote sb s k)"
proof (induction u)
  case (Cons x u)
  obtain a h where x: "x = (a, h)" by (cases x)
  from Cons x have "map_of u a = None" "distinct (map fst u)" by (simp_all add: map_of_NoneD)
  with Cons.IH x show ?case by (cases "a = k"; cases "local_quote sb s a h") (auto simp: local_items_def)
qed (simp add: local_items_def)

text \<open>Holdings that share a key are equal or of a market type.\<close>

definition uuid_ids :: "holding list \<Rightarrow> bool" where
  "uuid_ids hs \<longleftrightarrow> unique_keys hd_id hs \<and> (\<forall>h \<in> set hs. length (hd_id h) = 36)"

lemma non_market_key_inj:
  assumes "uuid_ids hs" "x \<in> set hs" "y \<in> set hs" "is_non_market_asset (hd_asset_type y)"
    and "holding_refresh_key (to_refresh_input x) = holding_refresh_key (to_refresh_input y)"
  shows "x = y"
proof -
  have t: "hd_asset_type x = hd_asset_type y" using assms(5) by (simp add: holding_refresh_key_def to_refresh_input_def split: if_splits)
  then have "symbol_of (to_refresh_input x) @ lit ''::'' @ hd_id x = symbol_of (to_refresh_input y) @ lit ''::'' @ hd_id y"
    using assms(4,5) by (simp add: holding_refresh_key_def to_refresh_input_def)
  moreover have "length (hd_id x) = length (hd_id y)" using assms(1-3) by (simp add: uuid_ids_def)
  ultimately have "hd_id x = hd_id y" by (metis append.assoc append_eq_append_conv)
  with assms(1-3) show ?thesis by (auto simp: uuid_ids_def unique_keys_def distinct_map dest: inj_onD)
qed

lemma household_inputs_first:
  assumes "uuid_ids hs" "h \<in> set hs" "hd_household_id h = hid"
  obtains x where "x \<in> set hs" "hd_household_id x = hid"
    "find (\<lambda>y. holding_refresh_key y = holding_refresh_key (to_refresh_input h)) (household_inputs hs hid) = Some (to_refresh_input x)"
    "holding_refresh_key (to_refresh_input x) = holding_refresh_key (to_refresh_input h)"
    "is_non_market_asset (hd_asset_type h) \<longrightarrow> x = h"
proof -
  let ?p = "\<lambda>y. holding_refresh_key y = holding_refresh_key (to_refresh_input h)"
  have "to_refresh_input h \<in> set (household_inputs hs hid)" using assms by (simp add: household_inputs_def)
  then have "find ?p (household_inputs hs hid) \<noteq> None" by (auto simp: find_None_iff)
  then obtain y where y: "find ?p (household_inputs hs hid) = Some y" by blast
  from find_SomeD [OF y] obtain x where x: "y = to_refresh_input x" "x \<in> set hs" "hd_household_id x = hid" "?p y"
    by (auto simp: household_inputs_def)
  show ?thesis
    by (rule that [of x]) (use x y assms non_market_key_inj [of hs x h] in auto)
qed

lemma key_type: "fst (holding_refresh_key h) = hi_asset_type h"
  by (simp add: holding_refresh_key_def)

lemma input_lookup:
  assumes "uuid_ids hs" "h \<in> set hs" "hd_household_id h = hid"
  shows "map_of (map (\<lambda>h. (hi_id h, g h)) (household_inputs hs hid)) (hi_id (to_refresh_input h)) = Some (g (to_refresh_input h))"
proof (intro map_of_is_SomeI)
  show "distinct (map fst (map (\<lambda>h. (hi_id h, g h)) (household_inputs hs hid)))"
    using assms(1) by (simp add: household_inputs_def comp_def to_refresh_input_def uuid_ids_def unique_keys_def distinct_map_filter)
  show "(hi_id (to_refresh_input h), g (to_refresh_input h)) \<in> set (map (\<lambda>h. (hi_id h, g h)) (household_inputs hs hid))"
    using assms(2,3) by (auto simp: household_inputs_def)
qed

subsection \<open>What a refresh stores\<close>

lemma write_snapshots_snoc:
  "write_snapshots (news @ [new]) rows =
     (case new of Some s \<Rightarrow> upsert_snapshot s (write_snapshots news rows) | None \<Rightarrow> write_snapshots news rows)"
  by (cases new) (simp_all add: write_snapshots_def)

lemma write_snapshots_wf:
  assumes "snapshots_wf rows" "\<And>s. Some s \<in> set news \<Longrightarrow> py_upper (ps_symbol s) = ps_symbol s"
  shows "snapshots_wf (write_snapshots news rows)"
  using assms(2)
proof (induction news rule: rev_induct)
  case (snoc new news)
  then show ?case by (cases new) (simp_all add: write_snapshots_snoc upsert_snapshot_wf)
qed (simp add: write_snapshots_def assms(1))

lemma write_snapshots_get:
  assumes "Some s \<in> set news" "\<And>s'. Some s' \<in> set news \<Longrightarrow> snap_key s' = snap_key s \<Longrightarrow> s' = s"
  shows "row_get snap_key (snap_key s) (write_snapshots news rows) = Some s"
  using assms
proof (induction news rule: rev_induct)
  case (snoc new news)
  show ?case
  proof (cases "new = Some s")
    case True
    then show ?thesis by (simp add: write_snapshots_snoc upsert_snapshot_get)
  next
    case False
    with snoc have "row_get snap_key (snap_key s) (write_snapshots news rows) = Some s" by simp
    moreover have "snap_key s' \<noteq> snap_key s" if "new = Some s'" for s'
      using snoc.prems(2) [of s'] that False by auto
    ultimately show ?thesis by (cases new) (simp_all add: write_snapshots_snoc upsert_snapshot_get)
  qed
qed simp

lemma final_quote_snapshot:
  assumes "final_quote sp now snaps live k h = (q, Some s)" "k = holding_refresh_key h"
  shows "snap_key s = k" "py_upper (ps_symbol s) = ps_symbol s"
  using assms
  by (auto simp: final_quote_def holding_refresh_key_def snap_key_def symbol_of_def Let_def
      split: option.splits prod.splits if_splits)

end
