(* ===== verification/Quote_Flights.thy ===== *)
theory Quote_Flights
  imports Price_Quotes
begin

text \<open>
  The sharing of provider calls in \<open>backend/app/services/price_service.py\<close>
  (\<open>_fetch_live_quote_singleflight\<close> under \<open>_fetch_live_result_task\<close>): tasks of any refresh job that
  want the quote of one key share the future of the first.  A future is named by the task that
  made it.  A task that waits is woken in the step that completes its future.
\<close>

subsection \<open>Futures and tasks\<close>

type_synonym task_id = nat

datatype 'q flight_state =
    Flight_pending
  | Flight_result 'q
  | Flight_error
  | Flight_cancelled

text \<open>What a task ends with; a \<open>CancelledError\<close> is no \<open>Exception\<close> and cancels the task.\<close>

datatype 'q flight_outcome = Out_quote 'q | Out_error | Out_cancelled

fun awaited_outcome :: "'q flight_state \<Rightarrow> 'q flight_outcome option" where
  "awaited_outcome Flight_pending = None"
| "awaited_outcome (Flight_result q) = Some (Out_quote q)"
| "awaited_outcome Flight_error = Some Out_error"
| "awaited_outcome Flight_cancelled = Some Out_cancelled"

text \<open>\<open>_fetch_live_result_task\<close>: an exception becomes an unavailable quote, a cancellation passes.\<close>

definition fetch_live_result :: "pystr \<Rightarrow> live_quote flight_outcome \<Rightarrow> live_quote option" where
  "fetch_live_result currency out =
     (case out of
        Out_quote q \<Rightarrow> Some q
      | Out_error \<Rightarrow> Some (None, Some currency, lit ''unavailable'', True)
      | Out_cancelled \<Rightarrow> None)"

record ('k, 'q) flight_world =
  fl_flights :: "('k \<times> task_id) list"
  fl_state :: "task_id \<Rightarrow> 'q flight_state"
  fl_owners :: "(task_id \<times> 'k) list"
  fl_waiters :: "(task_id \<times> 'k \<times> task_id) list"
  fl_done :: "(task_id \<times> 'k \<times> 'q flight_outcome) list"
  fl_fetched :: "('k \<times> 'q) list"

definition no_flights :: "('k, 'q) flight_world" where
  "no_flights = \<lparr>fl_flights = [], fl_state = (\<lambda>_. Flight_pending), fl_owners = [], fl_waiters = [], fl_done = [],
     fl_fetched = []\<rparr>"

definition used_tasks :: "('k, 'q) flight_world \<Rightarrow> task_id set" where
  "used_tasks fw = fst ` set (fl_owners fw) \<union> fst ` set (fl_waiters fw) \<union> fst ` set (fl_done fw)"

text \<open>Completing the future of \<open>f\<close> wakes its waiters.\<close>

definition settle_flight :: "task_id \<Rightarrow> 'q flight_state \<Rightarrow> 'q flight_outcome \<Rightarrow> ('k, 'q) flight_world \<Rightarrow> ('k, 'q) flight_world" where
  "settle_flight f st out fw =
     fw\<lparr>fl_state := (fl_state fw)(f := st),
        fl_waiters := filter (\<lambda>(t, k, g). g \<noteq> f) (fl_waiters fw),
        fl_done := fl_done fw @ map (\<lambda>(t, k, g). (t, k, out)) (filter (\<lambda>(t, k, g). g = f) (fl_waiters fw))\<rparr>"

text \<open>The end of the owner: its outcome, and the \<open>finally\<close> that takes the flight off the map.\<close>

definition end_owner :: "task_id \<Rightarrow> 'k \<Rightarrow> 'q flight_outcome \<Rightarrow> ('k, 'q) flight_world \<Rightarrow> ('k, 'q) flight_world" where
  "end_owner t k out fw =
     fw\<lparr>fl_owners := filter (\<lambda>(u, j). u \<noteq> t) (fl_owners fw),
        fl_done := fl_done fw @ [(t, k, out)],
        fl_flights := (if map_of (fl_flights fw) k = Some t then filter (\<lambda>(j, u). j \<noteq> k) (fl_flights fw)
                       else fl_flights fw)\<rparr>"

datatype ('k, 'q) flight_action =
    Fl_start task_id 'k
  | Fl_answer task_id 'q
  | Fl_raise task_id
  | Fl_cancel task_id

text \<open>
  \<open>Fl_start\<close>: the task joins the flight of its key or becomes the owner of a new one.
  \<open>Fl_answer\<close>: the owner has a quote; \<open>set_result\<close> on a cancelled future raises.
  \<open>Fl_raise\<close>: the fetch raised an exception.  \<open>Fl_cancel\<close>: cancelling an owner sets the
  cancellation on its future; cancelling a waiter cancels the future it awaits.
\<close>

fun flight_exec :: "('k, 'q) flight_action \<Rightarrow> ('k, 'q) flight_world \<Rightarrow> ('k, 'q) flight_world option" where
  "flight_exec (Fl_start t k) fw =
     (if t \<in> used_tasks fw then None
      else (case map_of (fl_flights fw) k of
              None \<Rightarrow> Some (fw\<lparr>fl_flights := (k, t) # fl_flights fw, fl_state := (fl_state fw)(t := Flight_pending),
                              fl_owners := (t, k) # fl_owners fw\<rparr>)
            | Some f \<Rightarrow>
                (case awaited_outcome (fl_state fw f) of
                   None \<Rightarrow> Some (fw\<lparr>fl_waiters := (t, k, f) # fl_waiters fw\<rparr>)
                 | Some out \<Rightarrow> Some (fw\<lparr>fl_done := fl_done fw @ [(t, k, out)]\<rparr>))))"
| "flight_exec (Fl_answer t q) fw =
     (case map_of (fl_owners fw) t of
        None \<Rightarrow> None
      | Some k \<Rightarrow>
          (let fw' = fw\<lparr>fl_fetched := (k, q) # fl_fetched fw\<rparr>
           in if fl_state fw t = Flight_pending
              then Some (end_owner t k (Out_quote q) (settle_flight t (Flight_result q) (Out_quote q) fw'))
              else Some (end_owner t k Out_error fw')))"
| "flight_exec (Fl_raise t) fw =
     (case map_of (fl_owners fw) t of
        None \<Rightarrow> None
      | Some k \<Rightarrow>
          (if fl_state fw t = Flight_pending
           then Some (end_owner t k Out_error (settle_flight t Flight_error Out_error fw))
           else Some (end_owner t k Out_error fw)))"
| "flight_exec (Fl_cancel t) fw =
     (case map_of (fl_owners fw) t of
        Some k \<Rightarrow>
          (if fl_state fw t = Flight_pending
           then Some (end_owner t k Out_cancelled (settle_flight t Flight_cancelled Out_cancelled fw))
           else Some (end_owner t k Out_cancelled fw))
      | None \<Rightarrow>
          (case map_of (fl_waiters fw) t of
             Some (k, f) \<Rightarrow> Some (settle_flight f Flight_cancelled Out_cancelled fw)
           | None \<Rightarrow> None))"

fun flight_run :: "('k, 'q) flight_action list \<Rightarrow> ('k, 'q) flight_world \<Rightarrow> ('k, 'q) flight_world option" where
  "flight_run [] fw = Some fw"
| "flight_run (a # as) fw = (case flight_exec a fw of None \<Rightarrow> None | Some fw' \<Rightarrow> flight_run as fw')"

subsection \<open>One flight for a key\<close>

definition flights_ok :: "('k \<times> task_id) list \<Rightarrow> (task_id \<times> 'k) list \<Rightarrow> bool" where
  "flights_ok flights owners \<longleftrightarrow>
     distinct (map fst flights) \<and> distinct (map fst owners) \<and>
     (\<forall>t k. (t, k) \<in> set owners \<longleftrightarrow> (k, t) \<in> set flights)"

definition waiters_ok :: "('k, 'q) flight_world \<Rightarrow> bool" where
  "waiters_ok fw \<longleftrightarrow>
     (\<forall>t k f. (t, k, f) \<in> set (fl_waiters fw) \<longrightarrow> (f, k) \<in> set (fl_owners fw) \<and> fl_state fw f = Flight_pending)"

definition answers_ok :: "('k, 'q) flight_world \<Rightarrow> bool" where
  "answers_ok fw \<longleftrightarrow>
     (\<forall>t k q. (t, k) \<in> set (fl_owners fw) \<longrightarrow> fl_state fw t \<noteq> Flight_result q) \<and>
     (\<forall>t k q. (t, k, Out_quote q) \<in> set (fl_done fw) \<longrightarrow> (k, q) \<in> set (fl_fetched fw))"

definition flight_inv :: "('k, 'q) flight_world \<Rightarrow> bool" where
  "flight_inv fw \<longleftrightarrow> flights_ok (fl_flights fw) (fl_owners fw) \<and> waiters_ok fw \<and> answers_ok fw"

lemma flight_inv_init: "flight_inv no_flights"
  by (simp add: flight_inv_def no_flights_def flights_ok_def waiters_ok_def answers_ok_def)

lemma flights_ok_owner:
  assumes "flights_ok flights owners" "(t, k) \<in> set owners"
  shows "map_of flights k = Some t" "map_of owners t = Some k"
  using assms by (simp_all add: flights_ok_def)

lemma flights_ok_lookup:
  assumes "flights_ok flights owners" "map_of flights k = Some t"
  shows "(t, k) \<in> set owners"
  using assms map_of_SomeD [OF assms(2)] by (simp add: flights_ok_def)

lemma flights_ok_start:
  assumes "flights_ok flights owners" "map_of flights k = None" "t \<notin> fst ` set owners"
  shows "flights_ok ((k, t) # flights) ((t, k) # owners)"
  using assms by (auto simp: flights_ok_def map_of_eq_None_iff)

lemma distinct_filter_key:
  "distinct (map fst xs) \<Longrightarrow> distinct (map fst (filter P xs))"
  by (simp add: distinct_map_filter)

lemma flights_ok_end:
  assumes "flights_ok flights owners" "(t, k) \<in> set owners"
  shows "flights_ok (filter (\<lambda>(j, u). j \<noteq> k) flights) (filter (\<lambda>(u, j). u \<noteq> t) owners)"
proof -
  have "map_of flights k = Some t" "map_of owners t = Some k" using flights_ok_owner [OF assms] .
  moreover have "distinct (map fst flights)" "distinct (map fst owners)"
    and e: "\<And>u j. (u, j) \<in> set owners \<longleftrightarrow> (j, u) \<in> set flights"
    using assms(1) by (auto simp: flights_ok_def)
  ultimately have "(u, j) \<in> set owners \<Longrightarrow> u = t \<longleftrightarrow> j = k" for u j
    by (metis map_of_is_SomeI option.inject)
  with e show ?thesis
    unfolding flights_ok_def
    by (intro conjI distinct_filter_key \<open>distinct (map fst flights)\<close> \<open>distinct (map fst owners)\<close>) fastforce
qed

lemma end_owner_fields:
  assumes "flights_ok (fl_flights fw) (fl_owners fw)" "(t, k) \<in> set (fl_owners fw)"
  shows "fl_owners (end_owner t k out fw) = filter (\<lambda>(u, j). u \<noteq> t) (fl_owners fw)"
    "fl_flights (end_owner t k out fw) = filter (\<lambda>(j, u). j \<noteq> k) (fl_flights fw)"
    "fl_waiters (end_owner t k out fw) = fl_waiters fw" "fl_state (end_owner t k out fw) = fl_state fw"
    "fl_done (end_owner t k out fw) = fl_done fw @ [(t, k, out)]" "fl_fetched (end_owner t k out fw) = fl_fetched fw"
  using flights_ok_owner(1) [OF assms] by (simp_all add: end_owner_def)

lemma settle_fields:
  "fl_owners (settle_flight f st out fw) = fl_owners fw" "fl_flights (settle_flight f st out fw) = fl_flights fw"
  "fl_waiters (settle_flight f st out fw) = filter (\<lambda>(t, k, g). g \<noteq> f) (fl_waiters fw)"
  "fl_state (settle_flight f st out fw) = (fl_state fw)(f := st)"
  "fl_done (settle_flight f st out fw) = fl_done fw @ map (\<lambda>(t, k, g). (t, k, out)) (filter (\<lambda>(t, k, g). g = f) (fl_waiters fw))"
  "fl_fetched (settle_flight f st out fw) = fl_fetched fw"
  by (simp_all add: settle_flight_def)

text \<open>An owner whose future is no longer pending has no waiters.\<close>

lemma flight_inv_end:
  assumes "flight_inv fw" "(t, k) \<in> set (fl_owners fw)" "\<And>u j. (u, j, t) \<notin> set (fl_waiters fw)"
    and "\<And>q. out = Out_quote q \<Longrightarrow> (k, q) \<in> set (fl_fetched fw)"
  shows "flight_inv (end_owner t k out fw)"
proof -
  have f: "flights_ok (fl_flights fw) (fl_owners fw)" using assms(1) by (simp add: flight_inv_def)
  note fields = end_owner_fields [OF f assms(2)]
  from assms(1) have w: "waiters_ok fw" and a: "answers_ok fw" by (simp_all add: flight_inv_def)
  have "waiters_ok (end_owner t k out fw)"
    using w assms(3) unfolding waiters_ok_def fields by fastforce
  moreover have "answers_ok (end_owner t k out fw)"
    using a assms(4) unfolding answers_ok_def fields by auto
  ultimately show ?thesis
    using flights_ok_end [OF f assms(2)] unfolding flight_inv_def by (simp add: fields)
qed

lemma flight_inv_settle:
  assumes inv: "flight_inv fw" and st: "\<And>q. st \<noteq> Flight_result q" "\<And>q. out \<noteq> Out_quote q"
  shows "flight_inv (settle_flight f st out fw)"
proof -
  have "waiters_ok (settle_flight f st out fw)"
    using inv by (auto simp: flight_inv_def waiters_ok_def settle_fields)
  moreover have "answers_ok (settle_flight f st out fw)"
    using inv st by (auto simp: flight_inv_def answers_ok_def settle_fields)
  ultimately show ?thesis using inv by (simp add: flight_inv_def settle_fields)
qed

lemma flight_inv_resolve:
  assumes inv: "flight_inv fw" and t: "(t, k) \<in> set (fl_owners fw)"
    and q: "\<And>q. out = Out_quote q \<Longrightarrow> (k, q) \<in> set (fl_fetched fw)"
  shows "flight_inv (end_owner t k out (settle_flight t st out fw))"
proof -
  let ?s = "settle_flight t st out fw"
  have f: "flights_ok (fl_flights ?s) (fl_owners ?s)" "(t, k) \<in> set (fl_owners ?s)"
    using inv t by (simp_all add: flight_inv_def settle_fields)
  have key: "j = k" if "(u, j, t) \<in> set (fl_waiters fw)" for u j
  proof -
    have "(t, j) \<in> set (fl_owners fw)" "flights_ok (fl_flights fw) (fl_owners fw)"
      using that inv by (auto simp: flight_inv_def waiters_ok_def)
    with t show ?thesis using flights_ok_owner(2) by (metis option.inject)
  qed
  have w: "waiters_ok (end_owner t k out ?s)"
    using inv unfolding flight_inv_def waiters_ok_def end_owner_fields [OF f] settle_fields by fastforce
  have a: "answers_ok (end_owner t k out ?s)"
    using inv q key unfolding flight_inv_def answers_ok_def end_owner_fields [OF f] settle_fields by fastforce
  show ?thesis
    using flights_ok_end [OF f] w a unfolding flight_inv_def end_owner_fields(1,2) [OF f] by blast
qed

lemma flight_inv_exec:
  assumes "flight_exec a fw = Some fw'" "flight_inv fw"
  shows "flight_inv fw'"
proof -
  have own: "flight_inv (end_owner t k out fw)" if "map_of (fl_owners fw) t = Some k" "fl_state fw t \<noteq> Flight_pending"
    "\<And>q. out \<noteq> Out_quote q" for t k out
    using that map_of_SomeD [OF that(1)] assms(2)
    by (intro flight_inv_end) (auto simp: flight_inv_def waiters_ok_def)
  have more: "flight_inv (fw\<lparr>fl_fetched := x # fl_fetched fw\<rparr>)" for x
    using assms(2) by (auto simp: flight_inv_def waiters_ok_def answers_ok_def)
  show ?thesis
  proof (cases a)
    case (Fl_start t k)
    with assms(1) have t: "t \<notin> used_tasks fw" by (auto split: if_splits)
    show ?thesis
    proof (cases "map_of (fl_flights fw) k")
      case None
      with Fl_start assms(1) t have f: "fw' = fw\<lparr>fl_flights := (k, t) # fl_flights fw, fl_state := (fl_state fw)(t := Flight_pending),
          fl_owners := (t, k) # fl_owners fw\<rparr>" by simp
      have "flights_ok (fl_flights fw') (fl_owners fw')"
        using assms(2) None t unfolding f by (simp add: flight_inv_def used_tasks_def flights_ok_start)
      moreover have "waiters_ok fw'" "answers_ok fw'"
        using assms(2) unfolding f by (auto simp: flight_inv_def waiters_ok_def answers_ok_def)
      ultimately show ?thesis by (simp add: flight_inv_def)
    next
      case (Some f)
      have o: "(f, k) \<in> set (fl_owners fw)"
        using flights_ok_lookup [OF _ Some] assms(2) by (auto simp: flight_inv_def)
      have nr: "fl_state fw f \<noteq> Flight_result q" for q
        using o assms(2) by (auto simp: flight_inv_def answers_ok_def)
      show ?thesis
        using Fl_start assms t Some o nr
        by (cases "fl_state fw f"; auto simp: flight_inv_def waiters_ok_def answers_ok_def; blast)
    qed
  next
    case (Fl_answer t q)
    with assms(1) obtain k where k: "map_of (fl_owners fw) t = Some k" by (auto split: option.splits)
    let ?w = "fw\<lparr>fl_fetched := (k, q) # fl_fetched fw\<rparr>"
    have m: "(t, k) \<in> set (fl_owners ?w)" using map_of_SomeD [OF k] by simp
    show ?thesis
    proof (cases "fl_state fw t = Flight_pending")
      case True
      with Fl_answer assms(1) k show ?thesis
        using flight_inv_resolve [OF more m, of "Out_quote q"] by (auto simp: Let_def)
    next
      case False
      then have "(u, j, t) \<notin> set (fl_waiters ?w)" for u j
        using assms(2) by (auto simp: flight_inv_def waiters_ok_def)
      with False Fl_answer assms(1) k show ?thesis
        using flight_inv_end [OF more m, of Out_error] by (auto simp: Let_def)
    qed
  next
    case (Fl_raise t)
    then show ?thesis using assms own flight_inv_resolve [OF assms(2), of t _ Out_error]
      by (auto split: option.splits if_splits dest: map_of_SomeD)
  next
    case (Fl_cancel t)
    then show ?thesis
      using assms own flight_inv_resolve [OF assms(2), of t _ Out_cancelled]
        flight_inv_settle [OF assms(2), of Flight_cancelled Out_cancelled]
      by (auto split: option.splits if_splits dest: map_of_SomeD)
  qed
qed

lemma flight_run_inv: "flight_run acts fw = Some fw' \<Longrightarrow> flight_inv fw \<Longrightarrow> flight_inv fw'"
  by (induction acts arbitrary: fw) (auto split: option.splits intro: flight_inv_exec)

end
