(* ===== verification/Quote_Claims.thy ===== *)
theory Quote_Claims
  imports Quote_Flights
begin

text \<open>
  The properties of the price refresh: what every holding is answered, the progress reports, the
  quote read back afterwards, and the sharing of provider calls.
\<close>

subsection \<open>Samples\<close>

text \<open>Two holdings of one stock and a cash account; the stock has a quote of yesterday.\<close>

definition quoted_holding :: "string \<Rightarrow> asset_type \<Rightarrow> string \<Rightarrow> holding" where
  "quoted_holding i a symbol =
     \<lparr>hd_id = lit (''00000000-0000-0000-0000-00000000000'' @ i), hd_household_id = lit ''h1'', hd_asset_type = a,
      hd_symbol = lit symbol, hd_market_symbol = lit symbol, hd_name = lit ''Fund'', hd_type_key = None,
      hd_category = lit ''etf'', hd_owner_user_id = None, hd_owner_name = None, hd_account_name = Some [],
      hd_quantity = 3, hd_average_cost = 10, hd_currency = lit ''KRW'', hd_display_order = 1, hd_source_ref = None,
      hd_version = 4, hd_updated_at = 0\<rparr>"

definition quoted_holdings :: "holding list" where
  "quoted_holdings = [quoted_holding ''1'' Asset_stock ''aapl'', quoted_holding ''2'' Asset_stock ''AAPL '',
     quoted_holding ''3'' Asset_cash ''won'']"

definition old_snapshots :: "price_snapshot list" where
  "old_snapshots = [\<lparr>ps_asset_type = Asset_stock, ps_symbol = lit ''AAPL'', ps_currency = lit ''USD'', ps_price = 5,
     ps_source = lit ''yahoo'', ps_fetched_at = 0\<rparr>]"

definition sample_arrivals :: "(quote_key \<times> live_quote) list" where
  "sample_arrivals = [((Asset_stock, lit ''AAPL''), (Some 7, Some (lit ''usd''), lit ''yahoo'', True))]"

abbreviation sample_refresh :: "(int \<times> int) list \<times> (pystr \<times> quote) list option \<times> price_snapshot list" where
  "sample_refresh \<equiv> refresh_household 60 id (\<lambda>_ _. True) (seconds 100) (seconds 101) id sample_arrivals quoted_holdings
     (lit ''h1'') old_snapshots"

lemma sample_quotes:
  "mset (map fst sample_arrivals) = mset (awaited_keys 60 (seconds 100) quoted_holdings (lit ''h1'') old_snapshots)"
  "uuid_ids quoted_holdings" "snapshots_wf old_snapshots"
  by code_simp+

definition apple :: quote_key where
  "apple = (Asset_stock, lit ''AAPL'')"

definition apple_quote :: live_quote where
  "apple_quote = (Some 7, Some (lit ''USD''), lit ''yahoo'', True)"

text \<open>Three jobs want one quote.\<close>

definition three_jobs :: "(quote_key, live_quote) flight_action list" where
  "three_jobs = [Fl_start 1 apple, Fl_start 2 apple, Fl_start 3 apple]"

subsection \<open>The properties\<close>

text \<open>C17 (a refresh answers every holding by the rules): whatever the order in which the providers
answer, every holding of the household is answered as the reference function says: its own average
cost for a manual asset, a snapshot younger than the cache time, else the answer of the provider,
else the old snapshot marked stale, else nothing.\<close>

theorem refreshed_quotes:
  assumes arr: "mset (map fst arrivals) = mset (awaited_keys cs t0 hs hid snaps)"
    and run: "refresh_household cs sp accept t0 now others arrivals hs hid snaps = (calls, Some result, rows)"
    and wf: "snapshots_wf snaps" "uuid_ids hs"
    and h: "h \<in> set hs" "hd_household_id h = hid"
  shows "map_of result (hd_id h) =
    Some (reference_quote cs t0 (household_inputs hs hid) arrivals snaps (to_refresh_input h))"
  using run
proof (cases rule: refresh_household_cases)
  case (finished st2 finals)
  let ?u = "unique_by_symbol (household_inputs hs hid)" and ?known = "known_snapshots hs hid snaps"
  let ?i = "to_refresh_input h"
  let ?k = "holding_refresh_key ?i"
  obtain x where x: "x \<in> set hs" "hd_household_id x = hid"
    "find (\<lambda>y. holding_refresh_key y = ?k) (household_inputs hs hid) = Some (to_refresh_input x)"
    "holding_refresh_key (to_refresh_input x) = ?k" "is_non_market_asset (hd_asset_type h) \<longrightarrow> x = h"
    using household_inputs_first [OF wf(2) h] by blast
  have u: "map_of ?u ?k = Some (to_refresh_input x)" by (simp add: unique_by_symbol_lookup x)
  have t: "hi_asset_type (to_refresh_input x) = hi_asset_type ?i" using x(4) by (metis key_type)
  have "?k \<in> fst ` set ?u" using u by (metis map_of_NoneD option.distinct(1))
  then have snap: "map_of ?known ?k = row_get snap_key ?k snaps"
    unfolding known_snapshots_def by (intro snapshot_map_lookup wf) simp
  have live: "map_of (rp_live st2) ?k =
      (case local_quote (t0 - seconds cs) ?known ?k (to_refresh_input x) of Some q \<Rightarrow> Some q | None \<Rightarrow> map_of arrivals ?k)"
    using network_pass_Inr [OF finished(2)] fold_dict_put_lookup [OF items_distinct(1) [OF arr], of "[]" ?k]
    by (simp add: settled_items_def map_add_def local_items_lookup [OF unique_by_symbol_distinct] u split: option.splits)
  have f: "map_of finals ?k = Some (final_quote sp now ?known (rp_live st2) ?k (to_refresh_input x))"
    unfolding finished(3) by (simp add: map_of_map_values u)
  have "map_of (map (\<lambda>h. (hi_id h, g h)) (household_inputs hs hid)) (hi_id ?i) = Some (g ?i)" for g :: "refresh_input \<Rightarrow> quote"
    by (rule input_lookup [OF wf(2) h])
  moreover have "hi_id ?i = hd_id h" by (simp add: to_refresh_input_def)
  ultimately have r: "map_of result (hd_id h) = Some (fst (final_quote sp now ?known (rp_live st2) ?k (to_refresh_input x)))"
    using finished(6) f by (simp split: if_splits prod.split)
  show ?thesis
  proof (cases "is_non_market_asset (hi_asset_type ?i)")
    case True
    with x(5) have "x = h" by (simp add: to_refresh_input_def)
    with True r live show ?thesis by (simp add: final_quote_def local_quote_def reference_quote_def Let_def)
  next
    case False
    show ?thesis
      using False r live t
      by (auto simp: final_quote_def local_quote_def reference_quote_def snap x(3) Let_def split: option.splits prod.splits)
  qed
qed simp_all

lemma refreshed_quotes_witness:
  "\<exists>calls result rows. sample_refresh = (calls, Some result, rows) \<and>
     map_of result (hd_id (quoted_holding ''2'' Asset_stock ''AAPL '')) =
       Some \<lparr>qu_price = Some 7, qu_currency = Some (lit ''USD''), qu_source = lit ''yahoo'', qu_fetched = True\<rparr>"
proof -
  obtain calls res rows where r0: "sample_refresh = (calls, res, rows)" by (metis prod_cases3)
  have "fst (snd sample_refresh) \<noteq> None" by code_simp
  with r0 obtain result where r: "sample_refresh = (calls, Some result, rows)" by auto
  have h: "quoted_holding ''2'' Asset_stock ''AAPL '' \<in> set quoted_holdings"
    "hd_household_id (quoted_holding ''2'' Asset_stock ''AAPL '') = lit ''h1''"
    by (simp_all add: quoted_holdings_def quoted_holding_def)
  have "reference_quote 60 (seconds 100) (household_inputs quoted_holdings (lit ''h1'')) sample_arrivals old_snapshots
      (to_refresh_input (quoted_holding ''2'' Asset_stock ''AAPL '')) =
      \<lparr>qu_price = Some 7, qu_currency = Some (lit ''USD''), qu_source = lit ''yahoo'', qu_fetched = True\<rparr>" by code_simp
  with refreshed_quotes [OF sample_quotes(1) r sample_quotes(3,2) h] r show ?thesis by auto
qed

text \<open>(progress is reported in steps of one): the calls of the progress callback are a beginning
of 0, 1, ..., n, n out of the n distinct keys; the refresh succeeds exactly when none of them is
refused, and stops at the first refused one.\<close>

theorem refresh_progress:
  assumes arr: "mset (map fst arrivals) = mset (awaited_keys cs t0 hs hid snaps)"
    and run: "refresh_household cs sp accept t0 now others arrivals hs hid snaps = (calls, res, rows)"
  defines "E \<equiv> expected_calls (length (unique_by_symbol (household_inputs hs hid)))"
  shows "(\<exists>m. calls = take m E) \<and> (res \<noteq> None \<longleftrightarrow> list_all (case_prod accept) E) \<and>
         (res \<noteq> None \<longrightarrow> calls = E) \<and> (res = None \<longrightarrow> \<not> case_prod accept (last calls))"
  using run
proof (cases rule: refresh_household_cases)
  case refused
  then show ?thesis by (auto simp: E_def expected_calls_eq intro: exI [of _ 1])
next
  case stopped
  let ?n = "length (unique_by_symbol (household_inputs hs hid))"
  from network_pass_Inl [OF stopped(2)] items_distinct(2) [OF arr] obtain m where m: "m < ?n"
    "calls = (0, int ?n) # calls_from 0 (Suc m) (int ?n)" "\<not> accept (1 + int m) (int ?n)" by auto
  have c: "calls = take (Suc (Suc m)) E" using m(1,2) by (simp add: E_def expected_calls_eq take_calls_from)
  moreover have l: "last calls = (1 + int m, int ?n)" by (simp add: m(2) calls_from_snoc)
  moreover have "(1 + int m, int ?n) \<in> set E"
  proof -
    have "last calls \<in> set calls" by (rule last_in_set) (simp add: m(2))
    then have "(1 + int m, int ?n) \<in> set calls" unfolding l .
    then show ?thesis using c by (metis in_set_takeD)
  qed
  ultimately show ?thesis using m(3) stopped(3) by (auto simp: list_all_iff)
next
  case (finished st2 finals)
  let ?n = "length (unique_by_symbol (household_inputs hs hid))"
  from network_pass_Inr [OF finished(2)] items_distinct(2) [OF arr]
  have p: "rp_log st2 = (0, int ?n) # calls_from 0 ?n (int ?n)"
    "list_all (case_prod accept) (calls_from 0 ?n (int ?n))" by auto
  have e: "calls = E" using finished(4) p(1) by (simp add: E_def expected_calls_eq)
  have "\<exists>m. calls = take m E" by (rule exI [of _ "length E"]) (simp add: e)
  moreover have "list_all (case_prod accept) E \<longleftrightarrow> accept (int ?n) (int ?n)"
    using finished(1) p(2) by (simp add: E_def expected_calls_eq)
  ultimately show ?thesis using finished(4,6) e by simp
qed

lemma refresh_progress_witness:
  "fst sample_refresh = expected_calls 2 \<and> fst (snd sample_refresh) \<noteq> None"
proof -
  obtain calls res rows where r: "sample_refresh = (calls, res, rows)" by (metis prod_cases3)
  have n: "length (unique_by_symbol (household_inputs quoted_holdings (lit ''h1''))) = 2" by code_simp
  have a: "list_all (case_prod (\<lambda>_ _. True)) (expected_calls 2)" by code_simp
  from refresh_progress [OF sample_quotes(1) r] a r show ?thesis unfolding n by simp
qed

text \<open>(a refreshed price is the one shown): after a refresh whose provider answered with a price
the snapshot table is well formed and the quote of the holding, read without asking a provider
within the cache time, has the same price, currency and source as the refresh answered.\<close>

theorem refresh_then_quote:
  assumes arr: "mset (map fst arrivals) = mset (awaited_keys cs t0 hs hid snaps)"
    and run: "refresh_household cs sp accept t0 now others arrivals hs hid snaps = (calls, Some result, rows)"
    and wf: "uuid_ids hs" "snapshots_wf (others snaps)"
    and h: "h \<in> set hs" "hd_household_id h = hid" "\<not> is_non_market_asset (hd_asset_type h)"
    and live: "map_of arrivals (holding_refresh_key (to_refresh_input h)) = Some (Some price, currency, source, True)"
    and exact: "sp price = price" and soon: "later - seconds cs \<le> now"
  shows "snapshots_wf rows \<and>
    (\<exists>code. map_of result (hd_id h) = Some \<lparr>qu_price = Some price, qu_currency = Some code, qu_source = source, qu_fetched = True\<rparr> \<and>
       quote_holding pv cs sp later h False rows =
         (\<lparr>qu_price = Some price, qu_currency = Some code, qu_source = source, qu_fetched = False\<rparr>, rows))"
  using run
proof (cases rule: refresh_household_cases)
  case (finished st2 finals)
  let ?u = "unique_by_symbol (household_inputs hs hid)" and ?known = "known_snapshots hs hid snaps"
  let ?i = "to_refresh_input h"
  let ?k = "holding_refresh_key ?i"
  let ?news = "map (snd \<circ> snd) finals"
  obtain x where x: "map_of ?u ?k = Some (to_refresh_input x)" "holding_refresh_key (to_refresh_input x) = ?k"
    using household_inputs_first [OF wf(1) h(1,2)] by (metis unique_by_symbol_lookup)
  have t: "hi_asset_type (to_refresh_input x) = hd_asset_type h" using x(2) by (metis key_type to_refresh_input_def refresh_input.select_convs(2))
  have key: "?k = (hd_asset_type h, symbol_of ?i)"
    using h(3) by (simp add: holding_refresh_key_def to_refresh_input_def)
  have aw: "?k \<in> set (awaited_keys cs t0 hs hid snaps)"
    using live arr by (metis map_of_SomeD fst_conv image_eqI list.set_map mset_eq_setD)
  then have "local_quote (t0 - seconds cs) ?known ?k (to_refresh_input x) = None"
  proof -
    from aw obtain y where "(?k, y) \<in> set ?u" "local_quote (t0 - seconds cs) ?known ?k y = None"
      by (auto simp: awaited_keys_def network_holdings_def)
    moreover from this(1) have "map_of ?u ?k = Some y" using unique_by_symbol_distinct by (metis map_of_is_SomeI)
    ultimately show ?thesis using x(1) by simp
  qed
  then have lv: "map_of (rp_live st2) ?k = Some (Some price, currency, source, True)"
    using network_pass_Inr [OF finished(2)] fold_dict_put_lookup [OF items_distinct(1) [OF arr], of "[]" ?k]
    by (simp add: settled_items_def map_add_def local_items_lookup [OF unique_by_symbol_distinct] x live split: option.splits)
  define code where "code = or_currency currency (hi_currency (to_refresh_input x))"
  define new where "new = \<lparr>ps_asset_type = hd_asset_type h, ps_symbol = symbol_of ?i, ps_currency = code, ps_price = price,
    ps_source = source, ps_fetched_at = now\<rparr>"
  have f: "final_quote sp now ?known (rp_live st2) ?k (to_refresh_input x) =
      (\<lparr>qu_price = Some price, qu_currency = Some code, qu_source = source, qu_fetched = True\<rparr>, Some new)"
    using t h(3) by (simp add: final_quote_def lv [unfolded key] Let_def code_def new_def exact key)
  have mk: "map_of finals ?k = Some (\<lparr>qu_price = Some price, qu_currency = Some code, qu_source = source, qu_fetched = True\<rparr>, Some new)"
    unfolding finished(3) by (simp add: map_of_map_values x f)
  have df: "distinct (map fst finals)" unfolding finished(3)
    using unique_by_symbol_distinct [of "household_inputs hs hid"] by (simp add: comp_def case_prod_beta')
  have keys: "snap_key s = k \<and> py_upper (ps_symbol s) = ps_symbol s" if "(k, q, Some s) \<in> set finals" for k q s
  proof -
    from that obtain y where y: "(k, y) \<in> set ?u" "final_quote sp now ?known (rp_live st2) k y = (q, Some s)"
      unfolding finished(3) by auto
    from final_quote_snapshot [OF y(2)] unique_by_symbol_mem(2) [OF y(1)] show ?thesis by simp
  qed
  have w: "snapshots_wf rows" unfolding finished(5)
    by (rule write_snapshots_wf [OF wf(2)]) (use keys in auto)
  have sk: "snap_key new = ?k" by (simp add: new_def snap_key_def key)
  have inn: "Some new \<in> set ?news" using map_of_SomeD [OF mk] by force
  have "row_get snap_key (snap_key new) rows = Some new" unfolding finished(5)
  proof (rule write_snapshots_get [OF inn])
    fix s' assume s': "Some s' \<in> set ?news" "snap_key s' = snap_key new"
    then obtain k q where "(k, q, Some s') \<in> set finals" by auto
    with keys s' sk have "(?k, q, Some s') \<in> set finals" by auto
    then have "map_of finals ?k = Some (q, Some s')" using df by (metis map_of_is_SomeI)
    with mk show "s' = new" by simp
  qed
  then have g: "row_get snap_key (hd_asset_type h, symbol_of ?i) rows = Some new" using sk key by simp
  have qh: "quote_holding pv cs sp later h False rows =
      (\<lparr>qu_price = Some price, qu_currency = Some code, qu_source = source, qu_fetched = False\<rparr>, rows)"
    using h(3) g soon by (simp add: quote_holding_def Let_def to_refresh_input_def new_def)
  have "map_of (map (\<lambda>h. (hi_id h, g h)) (household_inputs hs hid)) (hi_id ?i) = Some (g ?i)" for g :: "refresh_input \<Rightarrow> quote"
    by (rule input_lookup [OF wf(1) h(1,2)])
  moreover have "hi_id ?i = hd_id h" by (simp add: to_refresh_input_def)
  ultimately have "map_of result (hd_id h) =
      Some \<lparr>qu_price = Some price, qu_currency = Some code, qu_source = source, qu_fetched = True\<rparr>"
    using finished(6) mk by (simp split: if_splits)
  with w qh show ?thesis by blast
qed simp_all

lemma refresh_then_quote_witness:
  "\<exists>calls result rows. sample_refresh = (calls, Some result, rows) \<and> snapshots_wf rows \<and>
     (\<forall>pv. qu_price (fst (quote_holding pv 60 id (seconds 150) (quoted_holding ''1'' Asset_stock ''aapl'') False rows)) = Some 7)"
proof -
  obtain calls res rows where r0: "sample_refresh = (calls, res, rows)" by (metis prod_cases3)
  have "fst (snd sample_refresh) \<noteq> None" by code_simp
  with r0 obtain result where r: "sample_refresh = (calls, Some result, rows)" by auto
  let ?h = "quoted_holding ''1'' Asset_stock ''aapl''"
  have h: "?h \<in> set quoted_holdings" "hd_household_id ?h = lit ''h1''" "\<not> is_non_market_asset (hd_asset_type ?h)"
    by (simp_all add: quoted_holdings_def quoted_holding_def is_non_market_asset_def)
  have l: "map_of sample_arrivals (holding_refresh_key (to_refresh_input ?h)) = Some (Some 7, Some (lit ''usd''), lit ''yahoo'', True)"
    by code_simp
  have w: "snapshots_wf (id old_snapshots)" using sample_quotes(3) by simp
  have "id (7 :: rat) = 7" "seconds 150 - seconds 60 \<le> seconds 101" by (simp_all add: seconds_def)
  note x = refresh_then_quote [OF sample_quotes(1) r sample_quotes(2) w h l this]
  have "qu_price (fst (quote_holding pv 60 id (seconds 150) ?h False rows)) = Some 7" for pv
    using x [of pv] by (auto simp: id_def)
  with x r show ?thesis by blast
qed

text \<open>C18 (provider calls are shared): in every reachable state at most one task fetches a key, every
waiting task waits for the running fetch of its own key, every quote handed out was fetched for
that key, and an answer that arrives while the future of its fetch is pending, that is, before any
waiter was cancelled, reaches every waiter.\<close>

theorem single_flight:
  fixes fw :: "(quote_key, live_quote) flight_world"
  assumes "flight_run acts no_flights = Some fw"
  shows "(\<forall>t u k. (t, k) \<in> set (fl_owners fw) \<and> (u, k) \<in> set (fl_owners fw) \<longrightarrow> t = u) \<and>
         (\<forall>t k f. (t, k, f) \<in> set (fl_waiters fw) \<longrightarrow> (f, k) \<in> set (fl_owners fw)) \<and>
         (\<forall>t k q. (t, k, Out_quote q) \<in> set (fl_done fw) \<longrightarrow> (k, q) \<in> set (fl_fetched fw)) \<and>
         (\<forall>t q fw'. flight_exec (Fl_answer t q) fw = Some fw' \<and> fl_state fw t = Flight_pending \<longrightarrow>
            (\<forall>u k. (u, k, t) \<in> set (fl_waiters fw) \<longrightarrow> (u, k, Out_quote q) \<in> set (fl_done fw')))"
proof -
  have inv: "flight_inv fw" using flight_run_inv [OF assms flight_inv_init] .
  then have f: "flights_ok (fl_flights fw) (fl_owners fw)" by (simp add: flight_inv_def)
  have "t = u" if "(t, k) \<in> set (fl_owners fw)" "(u, k) \<in> set (fl_owners fw)" for t u k
    using flights_ok_owner(1) [OF f that(1)] flights_ok_owner(1) [OF f that(2)] by simp
  moreover have "(f, k) \<in> set (fl_owners fw)" if "(t, k, f) \<in> set (fl_waiters fw)" for t k f
    using that inv unfolding flight_inv_def waiters_ok_def by blast
  moreover have "(k, q) \<in> set (fl_fetched fw)" if "(t, k, Out_quote q) \<in> set (fl_done fw)" for t k q
    using that inv unfolding flight_inv_def answers_ok_def by blast
  moreover have "(u, k, Out_quote q) \<in> set (fl_done fw')"
    if "flight_exec (Fl_answer t q) fw = Some fw'" "fl_state fw t = Flight_pending" "(u, k, t) \<in> set (fl_waiters fw)" for t q fw' u k
    using that by (force simp: Let_def end_owner_def settle_flight_def split: option.splits)
  ultimately show ?thesis by blast
qed

lemma single_flight_witness:
  "\<exists>fw fw' :: (quote_key, live_quote) flight_world. flight_run three_jobs no_flights = Some fw \<and>
     fl_owners fw = [(1, apple)] \<and> flight_exec (Fl_answer 1 apple_quote) fw = Some fw' \<and>
     (3, apple, Out_quote apple_quote) \<in> set (fl_done fw')"
proof -
  let ?run = "flight_run three_jobs no_flights"
  have c: "case ?run of None \<Rightarrow> False | Some fw \<Rightarrow> fl_owners fw = [(1, apple)] \<and> fl_state fw 1 = Flight_pending \<and>
      (3, apple, 1) \<in> set (fl_waiters fw) \<and> (case flight_exec (Fl_answer 1 apple_quote) fw of None \<Rightarrow> False | Some fw' \<Rightarrow> True)"
    by code_simp
  then obtain fw where r: "?run = Some fw" by (cases "?run") auto
  with c obtain fw' where f: "fl_owners fw = [(1, apple)]" "fl_state fw 1 = Flight_pending" "(3, apple, 1) \<in> set (fl_waiters fw)"
    "flight_exec (Fl_answer 1 apple_quote) fw = Some fw'" by (auto split: option.splits)
  with single_flight [OF r] r show ?thesis by blast
qed

text \<open>
  The cancellation of a waiting job cancels the shared future: the third job is cancelled too, and
  the owner, which got the quote, answers that it is unavailable.
\<close>

lemma cancelled_waiter_poisons_flight:
  "case flight_run (three_jobs @ [Fl_cancel 2, Fl_start 4 apple, Fl_answer 1 apple_quote]) no_flights of
     None \<Rightarrow> False
   | Some fw \<Rightarrow> (3, apple, Out_cancelled) \<in> set (fl_done fw) \<and> (4, apple, Out_cancelled) \<in> set (fl_done fw) \<and>
       (1, apple, Out_error) \<in> set (fl_done fw)"
  by code_simp

end
