(* ===== verification/Auth_Throttle.thy ===== *)
theory Auth_Throttle
  imports Access
begin

text \<open>
  The state of \<open>backend/app/api/routes/auth.py\<close> beside the tables of \<open>MF_Models\<close> (verification
  tokens, the two throttle tables), the settings its handlers read, the cookies they set, and its
  rate limits: registration, resending and code attempts are counted in one table, failed logins
  in another.  A function \<open>race\<close> stands for what other sessions commit before a write of this
  session becomes visible.
\<close>

subsection \<open>State and settings\<close>

record verification_token =
  vt_id :: pystr
  vt_user_id :: pystr
  vt_token_hash :: pystr
  vt_verification_code_hash :: "pystr option"
  vt_pending_password_hash :: "pystr option"
  vt_pending_display_name :: "pystr option"
  vt_registration_continuation_hash :: "pystr option"
  vt_sent_to :: pystr
  vt_expires_at :: instant
  vt_consumed_at :: "instant option"
  vt_created_at :: instant

record login_throttle =
  lt_key :: pystr
  lt_failed_count :: int
  lt_window_started_at :: instant

record register_throttle =
  rg_key :: pystr
  rg_attempt_count :: int
  rg_window_started_at :: instant

record auth_db =
  ad_db :: db
  ad_tokens :: "verification_token list"
  ad_login :: "login_throttle list"
  ad_register :: "register_throttle list"

record auth_settings =
  as_config :: config
  as_refresh_cookie_name :: pystr
  as_env :: pystr
  as_register_window_seconds :: int
  as_register_max_attempts :: int
  as_resend_cooldown_seconds :: int
  as_verification_minutes :: int
  as_verification_required :: bool
  as_strict_email :: bool
  as_unverified_ttl_hours :: int
  as_access_token_minutes :: int
  as_refresh_token_days :: int

datatype cookie_action =
    Set_auth_cookies claims claims bool
  | Clear_auth_cookies
  | Set_registration_continuation pystr instant
  | Clear_registration_continuation

text \<open>An answer, the committed state and what is done to the cookies.\<close>

type_synonym 'a auth_outcome = "(http_error + 'a) \<times> auth_db \<times> cookie_action list"

definition auth_fail :: "auth_db \<Rightarrow> http_error \<Rightarrow> 'a auth_outcome" where
  "auth_fail ad e = (Inl e, ad, [])"

definition auth_ok :: "auth_db \<Rightarrow> cookie_action list \<Rightarrow> 'a \<Rightarrow> 'a auth_outcome" where
  "auth_ok ad cookies x = (Inr x, ad, cookies)"

lemma auth_outcome_simps [simp]:
  "auth_fail ad e = (r, ad', cs) \<longleftrightarrow> r = Inl e \<and> ad' = ad \<and> cs = []"
  "auth_ok ad cookies x = (r, ad', cs) \<longleftrightarrow> r = Inr x \<and> ad' = ad \<and> cs = cookies"
  "fst (auth_fail ad e) = Inl e" "fst (auth_ok ad cookies x) = Inr x"
  "fst (snd (auth_fail ad e)) = ad" "fst (snd (auth_ok ad cookies x)) = ad"
  by (auto simp: auth_fail_def auth_ok_def)

subsection \<open>Keys\<close>

definition ip_or_unknown :: "pystr option \<Rightarrow> pystr" where
  "ip_or_unknown ip = (case ip of Some s \<Rightarrow> if s = [] then lit ''unknown'' else s | None \<Rightarrow> lit ''unknown'')"

definition register_attempt_key :: "pystr \<Rightarrow> pystr option \<Rightarrow> pystr" where
  "register_attempt_key email ip = py_lower email @ lit ''::'' @ ip_or_unknown ip"

definition register_ip_attempt_key :: "pystr option \<Rightarrow> pystr" where
  "register_ip_attempt_key ip = lit ''ip::'' @ ip_or_unknown ip"

definition resend_attempt_key :: "pystr \<Rightarrow> pystr option \<Rightarrow> pystr" where
  "resend_attempt_key email ip = lit ''resend::'' @ py_lower email @ lit ''::'' @ ip_or_unknown ip"

definition resend_ip_attempt_key :: "pystr option \<Rightarrow> pystr" where
  "resend_ip_attempt_key ip = lit ''resend-ip::'' @ ip_or_unknown ip"

definition login_attempt_key :: "pystr \<Rightarrow> pystr option \<Rightarrow> pystr" where
  "login_attempt_key email ip = py_lower email @ lit ''::'' @ ip_or_unknown ip"

definition login_ip_attempt_key :: "pystr option \<Rightarrow> pystr" where
  "login_ip_attempt_key ip = lit ''ip::'' @ ip_or_unknown ip"

definition verification_code_email_attempt_key :: "pystr \<Rightarrow> pystr" where
  "verification_code_email_attempt_key email = lit ''verify-code-email::'' @ py_lower email"

definition verification_code_challenge_attempt_key :: "pystr \<Rightarrow> pystr" where
  "verification_code_challenge_attempt_key challenge_id = lit ''verify-code-challenge::'' @ challenge_id"

definition verification_code_ip_attempt_key :: "pystr option \<Rightarrow> pystr" where
  "verification_code_ip_attempt_key ip = lit ''verify-code-ip::'' @ ip_or_unknown ip"

subsection \<open>Limits\<close>

definition login_window_seconds :: int where "login_window_seconds = 300"
definition login_max_attempts :: int where "login_max_attempts = 5"
definition login_ip_max_attempts :: int where "login_ip_max_attempts = 40"
definition resend_verification_max_attempts :: int where "resend_verification_max_attempts = 5"
definition resend_verification_ip_max_attempts :: int where "resend_verification_ip_max_attempts = 20"
definition verification_code_max_attempts :: int where "verification_code_max_attempts = 5"
definition verification_code_ip_max_attempts :: int where "verification_code_ip_max_attempts = 30"

definition should_enforce_ip_global_auth_throttle :: "auth_settings \<Rightarrow> bool" where
  "should_enforce_ip_global_auth_throttle ss \<longleftrightarrow> py_lower (as_env ss) \<noteq> lit ''test''"

definition register_ip_max_attempts :: "auth_settings \<Rightarrow> int" where
  "register_ip_max_attempts ss = max 20 (as_register_max_attempts ss * 5)"

definition resend_ip_max_attempts :: "auth_settings \<Rightarrow> int" where
  "resend_ip_max_attempts ss = max resend_verification_ip_max_attempts (as_register_max_attempts ss * 2)"

definition register_window :: "auth_settings \<Rightarrow> instant" where
  "register_window ss = seconds (max 60 (as_register_window_seconds ss))"

subsection \<open>Cleaning up\<close>

text \<open>Every thirtieth second a request removes what has expired.\<close>

definition maybe_cleanup_auth_artifacts :: "auth_settings \<Rightarrow> instant \<Rightarrow> auth_db \<Rightarrow> auth_db" where
  "maybe_cleanup_auth_artifacts ss now ad =
     (if timestamp now mod 30 \<noteq> 0 then ad
      else
        (let login_window_ttl = max 3600 (login_window_seconds * 4);
             register_window_ttl = max 3600 (max 60 (as_register_window_seconds ss) * 4)
         in ad\<lparr>ad_db := (ad_db ad)\<lparr>db_revoked := filter (\<lambda>r. \<not> rt_expires_at r \<le> now) (db_revoked (ad_db ad))\<rparr>,
               ad_login := filter (\<lambda>t. \<not> lt_window_started_at t < now - seconds login_window_ttl) (ad_login ad),
               ad_register := filter (\<lambda>t. \<not> rg_window_started_at t < now - seconds register_window_ttl) (ad_register ad)\<rparr>))"

subsection \<open>Attempts\<close>

definition bump_register :: "instant \<Rightarrow> instant \<Rightarrow> register_throttle \<Rightarrow> register_throttle" where
  "bump_register window_cutoff now t =
     t\<lparr>rg_attempt_count := (if rg_window_started_at t < window_cutoff then 1 else rg_attempt_count t + 1),
       rg_window_started_at := (if rg_window_started_at t < window_cutoff then now else rg_window_started_at t)\<rparr>"

text \<open>
  The loop of at most four tries: an \<open>UPDATE\<close>, or an \<open>INSERT\<close> that may lose against another
  session; losing rolls everything back, the clean-up included.  \<open>Inl\<close>: all tries were lost.
\<close>

fun count_register_attempt ::
  "nat \<Rightarrow> (auth_db \<Rightarrow> auth_db) \<Rightarrow> instant \<Rightarrow> pystr \<Rightarrow> instant \<Rightarrow> auth_db \<Rightarrow> auth_db \<Rightarrow> auth_db + auth_db" where
  "count_register_attempt 0 race window_cutoff key now before ad = Inl before"
| "count_register_attempt (Suc n) race window_cutoff key now before ad =
     (if key \<in> rg_key ` set (ad_register ad)
      then Inr (ad\<lparr>ad_register := row_update rg_key key (bump_register window_cutoff now) (ad_register ad)\<rparr>)
      else if key \<in> rg_key ` set (ad_register (race ad))
      then count_register_attempt n race window_cutoff key now (race before) (race before)
      else Inr ((race ad)\<lparr>ad_register := ad_register (race ad) @
             [\<lparr>rg_key = key, rg_attempt_count = 1, rg_window_started_at = now\<rparr>]\<rparr>))"

definition consume_register_throttle_attempt ::
  "auth_settings \<Rightarrow> (auth_db \<Rightarrow> auth_db) \<Rightarrow> pystr \<Rightarrow> instant \<Rightarrow> int \<Rightarrow> string \<Rightarrow> string \<Rightarrow> auth_db
   \<Rightarrow> http_error option \<times> auth_db" where
  "consume_register_throttle_attempt ss race key now max_attempts rate_limited_code unavailable_code ad =
     (let limit = max 1 max_attempts
      in case count_register_attempt 4 race (now - register_window ss) key now ad
                (maybe_cleanup_auth_artifacts ss now ad) of
           Inl ad' \<Rightarrow> (Some (AppError 503 unavailable_code), ad')
         | Inr ad' \<Rightarrow>
             (case row_get rg_key key (ad_register ad') of
                None \<Rightarrow> (None, ad')
              | Some t \<Rightarrow>
                  (if now - rg_window_started_at t \<le> register_window ss \<and> rg_attempt_count t > limit
                   then (Some (AppError 429 rate_limited_code), ad') else (None, ad'))))"

definition consume_register_attempt ::
  "auth_settings \<Rightarrow> (auth_db \<Rightarrow> auth_db) \<Rightarrow> pystr \<Rightarrow> instant \<Rightarrow> int option \<Rightarrow> auth_db \<Rightarrow> http_error option \<times> auth_db" where
  "consume_register_attempt ss race key now override ad =
     consume_register_throttle_attempt ss race key now
       (case override of Some m \<Rightarrow> if m = 0 then as_register_max_attempts ss else m | None \<Rightarrow> as_register_max_attempts ss)
       ''AUTH_REGISTER_RATE_LIMITED'' ''AUTH_REGISTER_THROTTLE_UNAVAILABLE'' ad"

definition consume_resend_attempt ::
  "auth_settings \<Rightarrow> (auth_db \<Rightarrow> auth_db) \<Rightarrow> pystr \<Rightarrow> instant \<Rightarrow> int option \<Rightarrow> auth_db \<Rightarrow> http_error option \<times> auth_db" where
  "consume_resend_attempt ss race key now override ad =
     consume_register_throttle_attempt ss race key now
       (case override of Some m \<Rightarrow> if m = 0 then resend_verification_max_attempts else m
        | None \<Rightarrow> resend_verification_max_attempts)
       ''AUTH_RESEND_RATE_LIMITED'' ''AUTH_RESEND_THROTTLE_UNAVAILABLE'' ad"

definition consume_verification_code_attempt ::
  "auth_settings \<Rightarrow> (auth_db \<Rightarrow> auth_db) \<Rightarrow> pystr \<Rightarrow> instant \<Rightarrow> int option \<Rightarrow> auth_db \<Rightarrow> http_error option \<times> auth_db" where
  "consume_verification_code_attempt ss race key now override ad =
     consume_register_throttle_attempt ss race key now
       (case override of Some m \<Rightarrow> if m = 0 then verification_code_max_attempts else m
        | None \<Rightarrow> verification_code_max_attempts)
       ''AUTH_VERIFICATION_CODE_RATE_LIMITED'' ''AUTH_VERIFICATION_CODE_THROTTLE_UNAVAILABLE'' ad"

definition consume_verification_code_attempts ::
  "auth_settings \<Rightarrow> (auth_db \<Rightarrow> auth_db) \<Rightarrow> pystr \<Rightarrow> pystr option \<Rightarrow> pystr option \<Rightarrow> instant \<Rightarrow> auth_db
   \<Rightarrow> http_error option \<times> auth_db" where
  "consume_verification_code_attempts ss race email challenge_id client_ip now ad =
     (case consume_verification_code_attempt ss race (verification_code_email_attempt_key email) now None ad of
        (Some e, ad1) \<Rightarrow> (Some e, ad1)
      | (None, ad1) \<Rightarrow>
          (case (case challenge_id of
                   Some c \<Rightarrow> if c = [] then (None, ad1)
                     else consume_verification_code_attempt ss race (verification_code_challenge_attempt_key c) now None ad1
                 | None \<Rightarrow> (None, ad1)) of
             (Some e, ad2) \<Rightarrow> (Some e, ad2)
           | (None, ad2) \<Rightarrow>
               (if should_enforce_ip_global_auth_throttle ss
                then consume_verification_code_attempt ss race (verification_code_ip_attempt_key client_ip) now
                       (Some verification_code_ip_max_attempts) ad2
                else (None, ad2))))"

text \<open>Three tries, then an \<open>UPDATE\<close> that may match nothing.\<close>

definition bump_login :: "pystr \<Rightarrow> auth_db \<Rightarrow> auth_db" where
  "bump_login key ad =
     ad\<lparr>ad_login := row_update lt_key key (\<lambda>t. t\<lparr>lt_failed_count := lt_failed_count t + 1\<rparr>) (ad_login ad)\<rparr>"

fun count_login_failure ::
  "nat \<Rightarrow> (auth_db \<Rightarrow> auth_db) \<Rightarrow> pystr \<Rightarrow> instant \<Rightarrow> auth_db \<Rightarrow> auth_db \<Rightarrow> auth_db" where
  "count_login_failure 0 race key now before ad = bump_login key ad"
| "count_login_failure (Suc n) race key now before ad =
     (if key \<in> lt_key ` set (ad_login ad) then bump_login key ad
      else if key \<in> lt_key ` set (ad_login (race ad))
      then count_login_failure n race key now (race before) (race before)
      else (race ad)\<lparr>ad_login := ad_login (race ad) @
             [\<lparr>lt_key = key, lt_failed_count = 1, lt_window_started_at = now\<rparr>]\<rparr>)"

definition record_login_failure ::
  "auth_settings \<Rightarrow> (auth_db \<Rightarrow> auth_db) \<Rightarrow> pystr \<Rightarrow> instant \<Rightarrow> auth_db \<Rightarrow> auth_db" where
  "record_login_failure ss race key now ad =
     count_login_failure 3 race key now ad (maybe_cleanup_auth_artifacts ss now ad)"

subsection \<open>How many attempts pass\<close>

text \<open>The counter of a key that is still in its window.\<close>

definition live_counter :: "auth_settings \<Rightarrow> pystr \<Rightarrow> instant \<Rightarrow> auth_db \<Rightarrow> register_throttle option" where
  "live_counter ss key now ad =
     (case row_get rg_key key (ad_register ad) of
        Some t \<Rightarrow> if rg_window_started_at t < now - register_window ss then None else Some t
      | None \<Rightarrow> None)"

lemma row_get_filter:
  "(\<And>r. row_get key k rows = Some r \<Longrightarrow> P r) \<Longrightarrow> unique_keys key rows \<Longrightarrow>
   row_get key k (filter P rows) = row_get key k rows"
proof (induction rows)
  case (Cons x rows)
  show ?case
  proof (cases "key x = k")
    case True
    with Cons.prems(1) have "P x" by simp
    with True show ?thesis by simp
  next
    case False
    with Cons show ?thesis by (auto simp: unique_keys_def)
  qed
qed simp

definition next_counter :: "auth_settings \<Rightarrow> pystr \<Rightarrow> instant \<Rightarrow> auth_db \<Rightarrow> register_throttle" where
  "next_counter ss key now ad =
     (case live_counter ss key now ad of
        Some t \<Rightarrow> t\<lparr>rg_attempt_count := rg_attempt_count t + 1\<rparr>
      | None \<Rightarrow> \<lparr>rg_key = key, rg_attempt_count = 1, rg_window_started_at = now\<rparr>)"

lemma row_get_bump:
  "row_get rg_key key (row_update rg_key key (bump_register c now) rows) =
     map_option (bump_register c now) (row_get rg_key key rows)"
  by (rule trans [OF row_get_update]) (simp_all add: bump_register_def)

lemma attempt_effect:
  assumes u: "unique_keys rg_key (ad_register ad)"
    and run: "consume_register_throttle_attempt ss id key now m limited unavailable ad = (e, ad')"
  shows "row_get rg_key key (ad_register ad') = Some (next_counter ss key now ad)"
    "unique_keys rg_key (ad_register ad')"
    "e = None \<longleftrightarrow> \<not> (now - rg_window_started_at (next_counter ss key now ad) \<le> register_window ss \<and>
                     rg_attempt_count (next_counter ss key now ad) > max 1 m)"
proof -
  let ?c = "maybe_cleanup_auth_artifacts ss now ad"
  let ?cut = "now - register_window ss"
  obtain ttl where ttl: "register_window ss \<le> ttl"
    and cl: "ad_register ?c = ad_register ad \<or>
      ad_register ?c = filter (\<lambda>t. \<not> rg_window_started_at t < now - ttl) (ad_register ad)"
    by (rule that [of "seconds (max 3600 (max 60 (as_register_window_seconds ss) * 4))"])
      (auto simp: maybe_cleanup_auth_artifacts_def Let_def register_window_def seconds_def)
  have uc: "unique_keys rg_key (ad_register ?c)"
    using u cl by (auto simp: unique_keys_def distinct_map_filter)
  have live: "live_counter ss key now ?c = live_counter ss key now ad"
  proof (cases "row_get rg_key key (ad_register ad)")
    case None
    then have "row_get rg_key key (filter P (ad_register ad)) = None" for P
      by (auto simp: row_get_None_iff)
    with None cl show ?thesis by (auto simp: live_counter_def)
  next
    case (Some t)
    show ?thesis
    proof (cases "rg_window_started_at t < now - ttl")
      case True
      then have old: "rg_window_started_at t < ?cut" using ttl by simp
      have "row_get rg_key key (filter (\<lambda>t. \<not> rg_window_started_at t < now - ttl) (ad_register ad)) = None"
      proof (rule ccontr)
        assume "\<not> ?thesis"
        then obtain r where "row_get rg_key key (filter (\<lambda>t. \<not> rg_window_started_at t < now - ttl) (ad_register ad)) = Some r" by auto
        from row_get_SomeD [OF this] have r: "r \<in> set (ad_register ad)" "rg_key r = key" "\<not> rg_window_started_at r < now - ttl" by auto
        from row_get_unique [OF u r(1)] r(2) Some have "r = t" by simp
        with r(3) True show False by simp
      qed
      with cl Some old show ?thesis by (auto simp: live_counter_def)
    next
      case False
      have "row_get rg_key key (filter (\<lambda>t. \<not> rg_window_started_at t < now - ttl) (ad_register ad)) = Some t"
        using row_get_filter [of rg_key key "ad_register ad" "\<lambda>t. \<not> rg_window_started_at t < now - ttl"] Some False u by auto
      with cl Some show ?thesis by (auto simp: live_counter_def)
    qed
  qed
  have c: "count_register_attempt 4 id ?cut key now ad ?c =
      Inr (if key \<in> rg_key ` set (ad_register ?c)
           then ?c\<lparr>ad_register := row_update rg_key key (bump_register ?cut now) (ad_register ?c)\<rparr>
           else ?c\<lparr>ad_register := ad_register ?c @ [\<lparr>rg_key = key, rg_attempt_count = 1, rg_window_started_at = now\<rparr>]\<rparr>)"
    by (simp add: eval_nat_numeral)
  define ad1 where "ad1 = (if key \<in> rg_key ` set (ad_register ?c)
           then ?c\<lparr>ad_register := row_update rg_key key (bump_register ?cut now) (ad_register ?c)\<rparr>
           else ?c\<lparr>ad_register := ad_register ?c @ [\<lparr>rg_key = key, rg_attempt_count = 1, rg_window_started_at = now\<rparr>]\<rparr>)"
  have g: "row_get rg_key key (ad_register ad1) = Some (next_counter ss key now ad)"
  proof (cases "row_get rg_key key (ad_register ?c)")
    case None
    then have "key \<notin> rg_key ` set (ad_register ?c)" by (simp add: row_get_None_iff)
    with None show ?thesis unfolding next_counter_def live [symmetric]
      by (simp add: ad1_def row_get_append live_counter_def)
  next
    case (Some t)
    then have "key \<in> rg_key ` set (ad_register ?c)" "rg_key t = key" by (auto dest: row_get_SomeD)
    with Some show ?thesis unfolding next_counter_def live [symmetric]
      by (auto simp: ad1_def row_get_bump live_counter_def bump_register_def)
  qed
  have k: "map rg_key (row_update rg_key key (bump_register ?cut now) rows) = map rg_key rows" for rows
    by (simp add: row_update_def bump_register_def)
  have u1: "unique_keys rg_key (ad_register ad1)"
    using uc k unfolding ad1_def by (auto simp: unique_keys_def simp del: map_map)
  have r: "(e, ad') = (case row_get rg_key key (ad_register ad1) of None \<Rightarrow> (None, ad1)
      | Some t \<Rightarrow> if now - rg_window_started_at t \<le> register_window ss \<and> rg_attempt_count t > max 1 m
                 then (Some (AppError 429 limited), ad1) else (None, ad1))"
    using run unfolding consume_register_throttle_attempt_def Let_def c ad1_def [symmetric] by simp
  from r g have a: "ad' = ad1" by (simp split: if_splits)
  show "row_get rg_key key (ad_register ad') = Some (next_counter ss key now ad)" using g a by simp
  show "unique_keys rg_key (ad_register ad')" using u1 a by simp
  show "e = None \<longleftrightarrow> \<not> (now - rg_window_started_at (next_counter ss key now ad) \<le> register_window ss \<and>
                     rg_attempt_count (next_counter ss key now ad) > max 1 m)"
    using r g by (auto split: if_splits)
qed

subsection \<open>Counters with a window\<close>

text \<open>
  The interface of a rate limit: a step at a time passes or not; a pass counts up in the live
  window or starts a window with at least one, and is given only below the limit; a refusal never lowers a
  live counter, unless the step resets the counter (\<open>resets\<close>).
\<close>

definition live_window :: "instant \<Rightarrow> instant \<Rightarrow> (int \<times> instant) option \<Rightarrow> (int \<times> instant) option" where
  "live_window window now c = (case c of Some (n, t) \<Rightarrow> if t < now - window then None else Some (n, t) | None \<Rightarrow> None)"

fun count_passes :: "('r \<Rightarrow> 's \<Rightarrow> bool \<times> 's) \<Rightarrow> 'r list \<Rightarrow> 's \<Rightarrow> nat" where
  "count_passes step [] s = 0"
| "count_passes step (r # rs) s =
     (case step r s of (pass, s') \<Rightarrow> (if pass then 1 else 0) + count_passes step rs s')"

fun count_resets :: "('r \<Rightarrow> 's \<Rightarrow> bool) \<Rightarrow> ('r \<Rightarrow> 's \<Rightarrow> bool \<times> 's) \<Rightarrow> 'r list \<Rightarrow> 's \<Rightarrow> nat" where
  "count_resets resets step [] s = 0"
| "count_resets resets step (r # rs) s =
     (if resets r s then 1 else 0) + count_resets resets step rs (snd (step r s))"

lemma count_resets_never [simp]: "count_resets (\<lambda>_ _. False) step rs s = 0"
  by (induction rs arbitrary: s) simp_all

locale window_counter =
  fixes counter :: "'s \<Rightarrow> (int \<times> instant) option"
    and step :: "'r \<Rightarrow> 's \<Rightarrow> bool \<times> 's"
    and resets :: "'r \<Rightarrow> 's \<Rightarrow> bool"
    and time_of :: "'r \<Rightarrow> instant"
    and ok :: "'s \<Rightarrow> bool"
    and window :: instant
    and limit :: int
  assumes limit_pos: "1 \<le> limit"
    and step_ok: "ok s \<Longrightarrow> step r s = (pass, s') \<Longrightarrow> ok s'"
    and pass_live: "ok s \<Longrightarrow> step r s = (True, s') \<Longrightarrow> live_window window (time_of r) (counter s) = Some (n, t) \<Longrightarrow>
      n < limit \<and> (\<exists>n' > n. counter s' = Some (n', t))"
    and pass_new: "ok s \<Longrightarrow> step r s = (True, s') \<Longrightarrow> live_window window (time_of r) (counter s) = None \<Longrightarrow>
      \<exists>n' \<ge> 1. counter s' = Some (n', time_of r)"
    and refuse_live: "ok s \<Longrightarrow> step r s = (False, s') \<Longrightarrow> live_window window (time_of r) (counter s) = Some (n, t) \<Longrightarrow>
      (\<exists>n' \<ge> n. counter s' = Some (n', t)) \<or> resets r s \<and> counter s' = None"
    and refuse_new: "ok s \<Longrightarrow> step r s = (False, s') \<Longrightarrow> live_window window (time_of r) (counter s) = None \<Longrightarrow>
      counter s' = counter s \<or> counter s' = None \<or> (\<exists>n' \<ge> 0. counter s' = Some (n', time_of r))"
begin

text \<open>What the counter leaves to the rest of its window.\<close>

definition room :: "(int \<times> instant) option \<Rightarrow> nat" where
  "room c = (case c of Some (n, t) \<Rightarrow> nat (limit - n) | None \<Rightarrow> nat limit)"

abbreviation "passes rs s \<equiv> count_passes step rs s"
abbreviation "extra rs s \<equiv> nat limit * count_resets resets step rs s"

lemma passes_in_window:
  assumes "ok s" "\<And>n t. counter s = Some (n, t) \<Longrightarrow> start \<le> t"
    and "\<forall>r \<in> set rs. start \<le> time_of r \<and> time_of r \<le> start + window"
  shows "passes rs s \<le> room (counter s) + extra rs s"
  using assms
proof (induction rs arbitrary: s)
  case (Cons r rs)
  obtain pass s' where st: "step r s = (pass, s')" by force
  have ok: "ok s'" using step_ok [OF Cons.prems(1) st] .
  have r: "start \<le> time_of r" "time_of r \<le> start + window" "\<forall>r \<in> set rs. start \<le> time_of r \<and> time_of r \<le> start + window"
    using Cons.prems(3) by auto
  note ih = Cons.IH [OF ok _ r(3)]
  show ?case
  proof (cases "counter s")
    case (Some c)
    obtain n t where c: "c = (n, t)" by (cases c)
    then have l: "live_window window (time_of r) (counter s) = Some (n, t)"
      using Some Cons.prems(2) r(2) by (fastforce simp: live_window_def)
    have t: "start \<le> t" using Cons.prems(2) Some c by blast
    show ?thesis
    proof (cases pass)
      case True
      with pass_live [OF Cons.prems(1) _ l] st obtain n' where p: "n < limit" "n < n'" "counter s' = Some (n', t)" by auto
      with ih t have "passes rs s' \<le> nat (limit - n') + extra rs s'" by (simp add: room_def)
      moreover have "Suc (nat (limit - n')) \<le> nat (limit - n)" using p by simp
      ultimately show ?thesis using st True Some c by (simp add: room_def)
    next
      case False
      with refuse_live [OF Cons.prems(1) _ l] st
      consider n' where "n \<le> n'" "counter s' = Some (n', t)" | "resets r s" "counter s' = None" by auto
      then show ?thesis
      proof cases
        case (1 n')
        with ih t have "passes rs s' \<le> nat (limit - n') + extra rs s'" by (simp add: room_def)
        moreover have "nat (limit - n') \<le> nat (limit - n)" using 1 by simp
        ultimately show ?thesis using st False Some c by (simp add: room_def)
      next
        case 2
        with ih have "passes rs s' \<le> nat limit + extra rs s'" by (simp add: room_def)
        with 2 st False Some c show ?thesis by (simp add: room_def)
      qed
    qed
  next
    case None
    then have l: "live_window window (time_of r) (counter s) = None" by (simp add: live_window_def)
    show ?thesis
    proof (cases pass)
      case True
      with pass_new [OF Cons.prems(1) _ l] st obtain n' where p: "1 \<le> n'" "counter s' = Some (n', time_of r)" by auto
      with ih r(1) have "passes rs s' \<le> nat (limit - n') + extra rs s'" by (simp add: room_def)
      moreover have "Suc (nat (limit - n')) \<le> nat limit" using p limit_pos by simp
      ultimately show ?thesis using st True None by (simp add: room_def)
    next
      case False
      with refuse_new [OF Cons.prems(1) _ l] st None
      have c: "counter s' = None \<or> (\<exists>n' \<ge> 0. counter s' = Some (n', time_of r))" by auto
      then have "passes rs s' \<le> room (counter s') + extra rs s'" using ih r(1) by fastforce
      moreover have "room (counter s') \<le> nat limit" using c by (auto simp: room_def)
      ultimately show ?thesis using st False None by (simp add: room_def)
    qed
  qed
qed simp

lemma passes_near_window:
  assumes "ok s" "\<forall>r \<in> set rs. start \<le> time_of r \<and> time_of r \<le> start + window"
  shows "passes rs s \<le> nat limit + (case counter s of Some (n, t) \<Rightarrow> nat (limit - n) | None \<Rightarrow> 0) + extra rs s"
  using assms
proof (induction rs arbitrary: s)
  case (Cons r rs)
  obtain pass s' where st: "step r s = (pass, s')" by force
  have ok: "ok s'" using step_ok [OF Cons.prems(1) st] .
  have r: "start \<le> time_of r" "\<forall>r \<in> set rs. start \<le> time_of r \<and> time_of r \<le> start + window" using Cons.prems(2) by auto
  note ih = Cons.IH [OF ok r(2)]
  note rest = passes_in_window [OF ok _ r(2)]
  show ?case
  proof (cases "live_window window (time_of r) (counter s)")
    case None
    show ?thesis
    proof (cases pass)
      case True
      with pass_new [OF Cons.prems(1) _ None] st obtain n' where p: "1 \<le> n'" "counter s' = Some (n', time_of r)" by auto
      with rest r(1) have "passes rs s' \<le> nat (limit - n') + extra rs s'" by (simp add: room_def)
      moreover have "Suc (nat (limit - n')) \<le> nat limit" using p limit_pos by simp
      ultimately show ?thesis using st True by simp
    next
      case False
      with refuse_new [OF Cons.prems(1) _ None] st
      consider "counter s' = counter s" | "counter s' = None" | n' where "0 \<le> n'" "counter s' = Some (n', time_of r)" by auto
      then show ?thesis
      proof cases
        case 1
        with ih st False show ?thesis by simp
      next
        case 2
        with rest have "passes rs s' \<le> nat limit + extra rs s'" by (simp add: room_def)
        with st False show ?thesis by simp
      next
        case (3 n')
        with rest r(1) have "passes rs s' \<le> nat (limit - n') + extra rs s'" by (simp add: room_def)
        moreover have "nat (limit - n') \<le> nat limit" using 3 by simp
        ultimately show ?thesis using st False by simp
      qed
    qed
  next
    case (Some c)
    obtain n t where c: "c = (n, t)" by (cases c)
    with Some have n: "counter s = Some (n, t)" by (auto simp: live_window_def split: option.splits if_splits)
    show ?thesis
    proof (cases pass)
      case True
      with pass_live [OF Cons.prems(1) _ Some [unfolded c]] st
      obtain n' where p: "n < limit" "n < n'" "counter s' = Some (n', t)" by auto
      from ih have "passes rs s' \<le> nat limit + nat (limit - n') + extra rs s'" by (simp add: p(3))
      moreover have "Suc (nat (limit - n')) \<le> nat (limit - n)" using p by simp
      ultimately show ?thesis using n st True by simp
    next
      case False
      with refuse_live [OF Cons.prems(1) _ Some [unfolded c]] st
      consider n' where "n \<le> n'" "counter s' = Some (n', t)" | "resets r s" "counter s' = None" by auto
      then show ?thesis
      proof cases
        case (1 n')
        with ih have "passes rs s' \<le> nat limit + nat (limit - n') + extra rs s'" by simp
        moreover have "nat (limit - n') \<le> nat (limit - n)" using 1 by simp
        ultimately show ?thesis using n st False by simp
      next
        case 2
        with rest have "passes rs s' \<le> nat limit + extra rs s'" by (simp add: room_def)
        with 2 st False show ?thesis by simp
      qed
    qed
  qed
qed simp

lemma passes_limited:
  assumes "ok s" "\<And>n t. counter s = Some (n, t) \<Longrightarrow> 0 \<le> n"
    and "\<forall>r \<in> set rs. start \<le> time_of r \<and> time_of r \<le> start + window"
  shows "passes rs s \<le> 2 * nat limit + extra rs s \<and> (counter s = None \<longrightarrow> passes rs s \<le> nat limit + extra rs s)"
proof (cases "counter s")
  case None
  with passes_near_window [OF assms(1,3)] show ?thesis by simp
next
  case (Some c)
  obtain n t where c: "c = (n, t)" by (cases c)
  with Some assms(2) have "0 \<le> n" by blast
  with passes_near_window [OF assms(1,3)] Some c show ?thesis by simp
qed

end

subsection \<open>The attempts counter\<close>

definition attempt_counter :: "pystr \<Rightarrow> auth_db \<Rightarrow> (int \<times> instant) option" where
  "attempt_counter key ad =
     map_option (\<lambda>r. (rg_attempt_count r, rg_window_started_at r)) (row_get rg_key key (ad_register ad))"

definition attempt_step ::
  "auth_settings \<Rightarrow> pystr \<Rightarrow> int \<Rightarrow> string \<Rightarrow> string \<Rightarrow> instant \<Rightarrow> auth_db \<Rightarrow> bool \<times> auth_db" where
  "attempt_step ss key m limited unavailable now ad =
     (case consume_register_throttle_attempt ss id key now m limited unavailable ad of (e, ad') \<Rightarrow> (e = None, ad'))"

lemma live_window_attempt:
  "live_window (register_window ss) now (attempt_counter key ad) =
     map_option (\<lambda>r. (rg_attempt_count r, rg_window_started_at r)) (live_counter ss key now ad)"
  by (auto simp: live_window_def attempt_counter_def live_counter_def split: option.split)

interpretation register_counter:
  window_counter "attempt_counter key" "attempt_step ss key m limited unavailable" "\<lambda>_ _. False" "\<lambda>t. t"
    "\<lambda>ad. unique_keys rg_key (ad_register ad)" "register_window ss" "max 1 m"
  for key ss m limited unavailable
proof (unfold_locales, goal_cases)
  case 1
  show ?case by simp
next
  case (2 s r pass s')
  then obtain e where "consume_register_throttle_attempt ss id key r m limited unavailable s = (e, s')"
    by (auto simp: attempt_step_def split: prod.splits)
  with 2(1) show ?case by (rule attempt_effect(2))
next
  case (3 s r s' n t)
  then have run: "consume_register_throttle_attempt ss id key r m limited unavailable s = (None, s')"
    by (auto simp: attempt_step_def split: prod.splits)
  from 3(3) obtain x where x: "live_counter ss key r s = Some x" "rg_attempt_count x = n" "rg_window_started_at x = t"
    by (auto simp: live_window_attempt)
  then have w: "r - t \<le> register_window ss" by (auto simp: live_counter_def split: option.splits if_splits)
  from x w attempt_effect [OF 3(1) run] show ?case by (auto simp: attempt_counter_def next_counter_def)
next
  case (4 s r s')
  then have run: "consume_register_throttle_attempt ss id key r m limited unavailable s = (None, s')"
    by (auto simp: attempt_step_def split: prod.splits)
  from 4(3) have "live_counter ss key r s = None" by (simp add: live_window_attempt)
  with attempt_effect(1) [OF 4(1) run] show ?case by (simp add: attempt_counter_def next_counter_def)
next
  case (5 s r s' n t)
  then obtain e where run: "consume_register_throttle_attempt ss id key r m limited unavailable s = (e, s')"
    by (auto simp: attempt_step_def split: prod.splits)
  from 5(3) obtain x where "live_counter ss key r s = Some x" "rg_attempt_count x = n" "rg_window_started_at x = t"
    by (auto simp: live_window_attempt)
  with attempt_effect(1) [OF 5(1) run] show ?case by (auto simp: attempt_counter_def next_counter_def)
next
  case (6 s r s')
  then obtain e where run: "consume_register_throttle_attempt ss id key r m limited unavailable s = (e, s')"
    by (auto simp: attempt_step_def split: prod.splits)
  from 6(3) have "live_counter ss key r s = None" by (simp add: live_window_attempt)
  with attempt_effect(1) [OF 6(1) run] show ?case by (simp add: attempt_counter_def next_counter_def)
qed

end
