(* ===== verification/Auth_Session.thy ===== *)
theory Auth_Session
  imports Auth_Throttle Owner_Links
begin

text \<open>
  Sessions in \<open>backend/app/api/routes/auth.py\<close>: login, refresh, logout and the profile of the
  caller, with their origin and CSRF checks.  Checking a password, decoding a JWT and \<open>str\<close> of a
  claim are parameters, as is the identifier \<open>jti\<close> of a new token.
\<close>

subsection \<open>Origin and CSRF\<close>

definition request_origin_or_referer :: "http_request \<Rightarrow> pystr option" where
  "request_origin_or_referer rq =
     (case normalize_origin (rq_headers rq (lit ''origin'')) of
        None \<Rightarrow> None
      | Some origin \<Rightarrow>
          (if origin \<noteq> [] then Some origin else normalize_origin (rq_headers rq (lit ''referer''))))"

text \<open>\<open>None\<close> is the plain return; a \<open>ValueError\<close> of \<open>urlparse\<close> is not caught.\<close>

definition verify_allowed_origin :: "config \<Rightarrow> http_request \<Rightarrow> bool \<Rightarrow> http_error option" where
  "verify_allowed_origin cf rq allow_missing =
     (case request_origin_or_referer rq of
        None \<Rightarrow> Some ServerError
      | Some origin \<Rightarrow>
          (if origin = [] then (if allow_missing then None else Some (AppError 403 ''AUTH_CSRF_ORIGIN_REQUIRED''))
           else (let allowed = map (\<lambda>item. normalize_origin (Some item)) (cf_allowed_origins cf)
                 in if None \<in> set allowed then Some ServerError
                    else if Some origin \<in> set allowed then None
                    else Some (AppError 403 ''AUTH_CSRF_ORIGIN_FORBIDDEN''))))"

definition verify_csrf_for_cookie_request :: "auth_settings \<Rightarrow> http_request \<Rightarrow> bool \<Rightarrow> http_error option" where
  "verify_csrf_for_cookie_request ss rq enforce =
     (let cf = as_config ss;
          has_cookie_auth = (text_of (rq_cookies rq (cf_access_cookie_name cf)) \<noteq> []
                             \<or> text_of (rq_cookies rq (as_refresh_cookie_name ss)) \<noteq> [])
      in if \<not> has_cookie_auth \<and> \<not> enforce then None
         else if py_upper (rq_method rq) \<in> {lit ''GET'', lit ''HEAD'', lit ''OPTIONS''} then None
         else
           (case verify_allowed_origin cf rq True of
              Some e \<Rightarrow> Some e
            | None \<Rightarrow>
                (let csrf_cookie = text_of (rq_cookies rq (cf_csrf_cookie_name cf));
                     csrf_header = text_of (rq_headers rq (cf_csrf_header_name cf))
                 in if csrf_cookie = [] \<or> csrf_header = [] then Some (AppError 403 ''AUTH_CSRF_INVALID'')
                    else (case compare_digest csrf_cookie csrf_header of
                            None \<Rightarrow> Some ServerError
                          | Some True \<Rightarrow> None
                          | Some False \<Rightarrow> Some (AppError 403 ''AUTH_CSRF_INVALID'')))))"

subsection \<open>What is told of a user\<close>

record user_read =
  ur_id :: pystr
  ur_email :: pystr
  ur_real_name :: "pystr option"
  ur_nickname :: "pystr option"
  ur_display_name_mode :: pystr
  ur_display_name :: pystr
  ur_email_verified :: bool
  ur_email_verified_at :: "instant option"
  ur_active_household_id :: "pystr option"
  ur_created_at :: instant

definition to_user_read :: "user \<Rightarrow> user_read" where
  "to_user_read u =
     \<lparr>ur_id = us_id u, ur_email = us_email u, ur_real_name = effective_user_real_name u,
      ur_nickname = normalize_optional_text (us_nickname u),
      ur_display_name_mode = normalize_display_name_mode (Some (us_display_name_mode u)),
      ur_display_name = us_display_name u, ur_email_verified = us_email_verified u,
      ur_email_verified_at = us_email_verified_at u,
      ur_active_household_id = normalize_optional_text (us_active_household_id u), ur_created_at = us_created_at u\<rparr>"

subsection \<open>Login\<close>

record login_request =
  lq_email :: pystr
  lq_password :: pystr
  lq_remember_me :: bool

definition user_by_email :: "env \<Rightarrow> auth_db \<Rightarrow> pystr \<Rightarrow> user option" where
  "user_by_email ev ad email = find (\<lambda>u. ev_sql_lower ev (us_email u) = email) (db_users (ad_db ad))"

text \<open>The \<open>UPDATE\<close> that starts a new window for counters whose window is over.\<close>

definition reset_login_windows :: "pystr list \<Rightarrow> instant \<Rightarrow> auth_db \<Rightarrow> auth_db" where
  "reset_login_windows keys now ad =
     ad\<lparr>ad_login := map (\<lambda>t. if lt_key t \<in> set keys \<and> lt_window_started_at t < now - seconds login_window_seconds
                         then t\<lparr>lt_failed_count := 0, lt_window_started_at := now\<rparr> else t) (ad_login ad)\<rparr>"

definition login_blocked :: "int \<Rightarrow> pystr \<Rightarrow> auth_db \<Rightarrow> bool" where
  "login_blocked limit key ad =
     (case row_get lt_key key (ad_login ad) of Some t \<Rightarrow> lt_failed_count t \<ge> limit | None \<Rightarrow> False)"

definition session_claims ::
  "auth_settings \<Rightarrow> instant \<Rightarrow> pystr \<Rightarrow> pystr \<Rightarrow> pystr \<Rightarrow> bool \<Rightarrow> claims \<times> claims" where
  "session_claims ss now access_jti refresh_jti user_id remember_me =
     (access_token_claims (as_access_token_minutes ss) now access_jti user_id None,
      refresh_token_claims (as_refresh_token_days ss) now refresh_jti user_id
        (Some [(lit ''remember_me'', JBool remember_me)]))"

text \<open>
  \<open>race\<close> is what other sessions commit between the counting of a failure and its commit.  The
  value is the user; the new tokens are in the cookies.
\<close>

definition login ::
  "(pystr \<Rightarrow> pystr \<Rightarrow> bool) \<Rightarrow> auth_settings \<Rightarrow> env \<Rightarrow> (auth_db \<Rightarrow> auth_db) \<Rightarrow> pystr \<Rightarrow> pystr \<Rightarrow> pystr option
   \<Rightarrow> auth_db \<Rightarrow> http_request \<Rightarrow> login_request \<Rightarrow> user_read auth_outcome" where
  "login verify_password ss ev race access_jti refresh_jti client_ip ad rq p =
     (case verify_allowed_origin (as_config ss) rq False of
        Some e \<Rightarrow> auth_fail ad e
      | None \<Rightarrow>
          (let now = ev_now ev;
               limit_key = login_attempt_key (lq_email p) client_ip;
               ip_limit_key = login_ip_attempt_key client_ip;
               enforce = should_enforce_ip_global_auth_throttle ss;
               ad1 = reset_login_windows (if enforce then [limit_key, ip_limit_key] else [limit_key]) now ad
           in if login_blocked login_max_attempts limit_key ad1 then auth_fail ad1 (AppError 429 ''AUTH_RATE_LIMITED'')
              else if enforce \<and> login_blocked login_ip_max_attempts ip_limit_key ad1
              then auth_fail ad1 (AppError 429 ''AUTH_RATE_LIMITED'')
              else
                (case user_by_email ev ad1 (py_lower (lq_email p)) of
                   Some u \<Rightarrow>
                     (if verify_password (lq_password p) (us_password_hash u) then
                        (if as_verification_required ss \<and> \<not> us_email_verified u
                         then auth_fail ad1 (AppError 403 ''AUTH_EMAIL_NOT_VERIFIED'')
                         else
                           (let ad2 = ad1\<lparr>ad_login := row_delete lt_key limit_key (ad_login ad1)\<rparr>;
                                (access, refresh) = session_claims ss now access_jti refresh_jti (us_id u) (lq_remember_me p)
                            in auth_ok ad2 [Set_auth_cookies access refresh (lq_remember_me p)] (to_user_read u)))
                      else
                        (let ad2 = record_login_failure ss race limit_key now ad1;
                             ad3 = (if enforce then record_login_failure ss race ip_limit_key now ad2 else ad2)
                         in auth_fail ad3 (AppError 401 ''AUTH_INVALID_CREDENTIALS'')))
                 | None \<Rightarrow>
                     (let ad2 = record_login_failure ss race limit_key now ad1;
                          ad3 = (if enforce then record_login_failure ss race ip_limit_key now ad2 else ad2)
                      in auth_fail ad3 (AppError 401 ''AUTH_INVALID_CREDENTIALS'')))))"

subsection \<open>Revocation\<close>

definition set_revoked :: "revoked_token list \<Rightarrow> auth_db \<Rightarrow> auth_db" where
  "set_revoked rows ad = ad\<lparr>ad_db := (ad_db ad)\<lparr>db_revoked := rows\<rparr>\<rparr>"

abbreviation revoked_rows :: "auth_db \<Rightarrow> revoked_token list" where
  "revoked_rows ad \<equiv> db_revoked (ad_db ad)"

definition upsert_revoked_token :: "pystr \<Rightarrow> int \<Rightarrow> auth_db \<Rightarrow> auth_db" where
  "upsert_revoked_token jti exp_unix ad =
     (let expires_at = seconds exp_unix
      in if jti \<in> rt_jti ` set (revoked_rows ad)
         then set_revoked (row_update rt_jti jti (\<lambda>r. r\<lparr>rt_expires_at := expires_at\<rparr>) (revoked_rows ad)) ad
         else set_revoked (revoked_rows ad @ [\<lparr>rt_jti = jti, rt_expires_at = expires_at\<rparr>]) ad)"

text \<open>\<open>int(payload.get("exp") or fallback)\<close>; \<open>None\<close> is the exception of \<open>int\<close>.\<close>

definition exp_or :: "claims \<Rightarrow> int \<Rightarrow> int option" where
  "exp_or payload fallback =
     (let v = json_get payload (lit ''exp'') in if py_truthy v then json_int v else Some fallback)"

text \<open>
  What \<open>_revoke_token\<close> is to revoke: \<open>None\<close> is an uncaught exception, \<open>Some None\<close> nothing.
\<close>

definition revocation ::
  "(json \<Rightarrow> pystr) \<Rightarrow> (pystr \<Rightarrow> claims option) \<Rightarrow> instant \<Rightarrow> int \<Rightarrow> pystr \<Rightarrow> (pystr \<times> int) option option" where
  "revocation rp decoder now fallback_exp_seconds raw_token =
     (let token = py_strip raw_token
      in if token = [] then Some None
         else
           (case decoder token of
              None \<Rightarrow> Some None
            | Some payload \<Rightarrow>
                (let jti = py_strip (str_or_empty rp (json_get payload (lit ''jti'')))
                 in if jti = [] then Some None
                    else map_option (\<lambda>e. Some (jti, e)) (exp_or payload (timestamp (now + seconds fallback_exp_seconds))))))"

definition apply_revocation :: "(pystr \<times> int) option \<Rightarrow> auth_db \<Rightarrow> auth_db" where
  "apply_revocation target ad = (case target of Some (jti, e) \<Rightarrow> upsert_revoked_token jti e ad | None \<Rightarrow> ad)"

definition access_fallback_seconds :: "auth_settings \<Rightarrow> int" where
  "access_fallback_seconds ss = max 60 (as_access_token_minutes ss * 60)"

definition refresh_fallback_seconds :: "auth_settings \<Rightarrow> int" where
  "refresh_fallback_seconds ss = max 60 (as_refresh_token_days ss * 24 * 60 * 60)"

subsection \<open>Refreshing a session\<close>

definition refresh_error :: "auth_db \<Rightarrow> nat \<Rightarrow> string \<Rightarrow> bool \<Rightarrow> 'a auth_outcome" where
  "refresh_error ad status code clear = (Inl (AppError status code), ad, if clear then [Clear_auth_cookies] else [])"

text \<open>
  \<open>race1\<close> is what other sessions commit before the refresh token is marked, \<open>race2\<close> what they
  commit until this session commits; the marked row is locked meanwhile, the row of the access
  token is not, and inserting it twice is the \<open>IntegrityError\<close>.
\<close>

definition refresh_session ::
  "(json \<Rightarrow> pystr) \<Rightarrow> (pystr \<Rightarrow> claims option) \<Rightarrow> auth_settings \<Rightarrow> env \<Rightarrow> (auth_db \<Rightarrow> auth_db) \<Rightarrow> (auth_db \<Rightarrow> auth_db)
   \<Rightarrow> pystr \<Rightarrow> pystr \<Rightarrow> auth_db \<Rightarrow> http_request \<Rightarrow> unit auth_outcome" where
  "refresh_session rp jwt_decode ss ev race1 race2 access_jti refresh_jti ad rq =
     (case verify_csrf_for_cookie_request ss rq False of
        Some e \<Rightarrow> auth_fail ad e
      | None \<Rightarrow>
     (let refresh_token = text_of (rq_cookies rq (as_refresh_cookie_name ss))
      in if refresh_token = [] then refresh_error ad 401 ''AUTH_TOKEN_MISSING'' True
         else case decode_refresh_token rp jwt_decode refresh_token of
           None \<Rightarrow> refresh_error ad 401 ''AUTH_TOKEN_INVALID'' True
         | Some payload \<Rightarrow>
     (let jti = py_strip (str_or_empty rp (json_get payload (lit ''jti'')));
          user_id = str_or_empty rp (json_get payload (lit ''sub''))
      in case row_get us_id user_id (db_users (ad_db ad)) of
           None \<Rightarrow> refresh_error ad 401 ''AUTH_USER_NOT_FOUND'' True
         | Some u \<Rightarrow>
     (if as_verification_required ss \<and> \<not> us_email_verified u
      then refresh_error ad 403 ''AUTH_EMAIL_NOT_VERIFIED'' True
      else
        (let remember_me = json_get_bool payload (lit ''remember_me'') True;
             current_access = text_of (rq_cookies rq (cf_access_cookie_name (as_config ss)));
             now = ev_now ev
         in case exp_or payload (timestamp (now + seconds (86400 * as_refresh_token_days ss))) of
              None \<Rightarrow> auth_fail ad ServerError
            | Some refresh_exp \<Rightarrow>
          (let ad1 = race1 ad
           in if jti \<in> rt_jti ` set (revoked_rows ad1)
              then refresh_error ad1 401 ''AUTH_TOKEN_INVALID'' False
              else
                (let mark = (\<lambda>x. set_revoked (revoked_rows x @ [\<lparr>rt_jti = jti, rt_expires_at = seconds refresh_exp\<rparr>]) x)
                 in case (if current_access = [] then Some None
                          else revocation rp (decode_access_token rp jwt_decode) now (access_fallback_seconds ss)
                                 current_access) of
                      None \<Rightarrow> auth_fail ad1 ServerError
                    | Some target \<Rightarrow>
                        (let ad3 = race2 ad1
                         in if (case target of Some (a, e) \<Rightarrow> a \<notin> rt_jti ` set (revoked_rows (mark ad1))
                                                  \<and> a \<in> rt_jti ` set (revoked_rows ad3)
                                | None \<Rightarrow> False)
                            then refresh_error ad3 401 ''AUTH_TOKEN_INVALID'' (jti \<notin> rt_jti ` set (revoked_rows ad3))
                            else
                              (let (access, refresh) = session_claims ss now access_jti refresh_jti (us_id u) remember_me
                               in auth_ok (apply_revocation target (mark ad3)) [Set_auth_cookies access refresh remember_me]
                                    ())))))))))"

subsection \<open>Logout\<close>

text \<open>
  Both tokens are revoked in one commit; when it fails, because another session revoked one of
  them first, everything is rolled back and the answer is the same.
\<close>

definition logout ::
  "(json \<Rightarrow> pystr) \<Rightarrow> (pystr \<Rightarrow> claims option) \<Rightarrow> auth_settings \<Rightarrow> env \<Rightarrow> (auth_db \<Rightarrow> auth_db) \<Rightarrow> auth_db
   \<Rightarrow> http_request \<Rightarrow> unit auth_outcome" where
  "logout rp jwt_decode ss ev race ad rq =
     (let has_bearer = (text_of (rq_credentials rq) \<noteq> [])
      in case (if has_bearer then None else verify_csrf_for_cookie_request ss rq True) of
           Some e \<Rightarrow> auth_fail ad e
         | None \<Rightarrow>
             (let now = ev_now ev;
                  bearer = (case rq_credentials rq of Some c \<Rightarrow> c | None \<Rightarrow> []);
                  access_token = (if bearer \<noteq> [] then bearer
                     else (case rq_cookies rq (cf_access_cookie_name (as_config ss)) of Some c \<Rightarrow> c | None \<Rightarrow> []));
                  refresh_token = (case rq_cookies rq (as_refresh_cookie_name ss) of Some c \<Rightarrow> c | None \<Rightarrow> [])
              in case revocation rp (decode_access_token rp jwt_decode) now (access_fallback_seconds ss) access_token of
                   None \<Rightarrow> auth_fail ad ServerError
                 | Some access \<Rightarrow>
                     (case revocation rp (decode_refresh_token rp jwt_decode) now (refresh_fallback_seconds ss) refresh_token of
                        None \<Rightarrow> auth_fail ad ServerError
                      | Some refresh \<Rightarrow>
                          (let lost = (\<lambda>t. case t of
                                 Some (jti, e) \<Rightarrow> jti \<notin> rt_jti ` set (revoked_rows ad) \<and> jti \<in> rt_jti ` set (revoked_rows (race ad))
                               | None \<Rightarrow> False)
                           in auth_ok (if lost access \<or> lost refresh then race ad
                                       else apply_revocation refresh (apply_revocation access (race ad)))
                                [Clear_auth_cookies] ()))))"

subsection \<open>The profile of the caller\<close>

record profile_patch =
  pp_real_name :: "pystr option option"
  pp_nickname :: "pystr option option"
  pp_display_name_mode :: "display_name_mode option option"

definition validate_profile_patch :: "profile_patch \<Rightarrow> profile_patch option" where
  "validate_profile_patch p =
     (let short = (\<lambda>v. case v of Some (Some s) \<Rightarrow> length s \<le> 120 | _ \<Rightarrow> True)
      in if \<not> short (pp_real_name p) \<or> \<not> short (pp_nickname p) then None
         else if pp_real_name p = None \<and> pp_nickname p = None \<and> pp_display_name_mode p = None then None
         else Some (p\<lparr>pp_real_name := map_option normalize_optional_text (pp_real_name p),
                     pp_nickname := map_option normalize_optional_text (pp_nickname p)\<rparr>))"

text \<open>An absent field is \<open>None\<close>, a field set to null is \<open>Some None\<close>.\<close>

definition patched_profile :: "profile_patch \<Rightarrow> user \<Rightarrow> user" where
  "patched_profile p u =
     (let u1 = (case pp_real_name p of Some v \<Rightarrow> u\<lparr>us_real_name := v\<rparr> | None \<Rightarrow> u);
          u2 = (case pp_nickname p of Some v \<Rightarrow> u1\<lparr>us_nickname := v\<rparr> | None \<Rightarrow> u1)
      in case pp_display_name_mode p of
           Some m \<Rightarrow> u2\<lparr>us_display_name_mode := lit (mode_value (case m of Some x \<Rightarrow> x | None \<Rightarrow> Mode_real_name))\<rparr>
         | None \<Rightarrow> u2)"

definition patch_me :: "env \<Rightarrow> auth_db \<Rightarrow> user \<Rightarrow> profile_patch \<Rightarrow> user_read auth_outcome" where
  "patch_me ev ad u p =
     (let d = ad_db ad;
          u1 = patched_profile p u
      in if normalize_display_name_mode (Some (us_display_name_mode u1)) = lit (mode_value Mode_nickname)
            \<and> normalize_optional_text (us_nickname u1) = None
         then auth_fail ad (AppError 400 ''AUTH_NICKNAME_REQUIRED'')
         else
           (let u2 = sync_user_display_name u1
            in if py_strip (us_display_name u2) = [] then auth_fail ad (AppError 400 ''AUTH_DISPLAY_NAME_REQUIRED'')
               else
                 (let d' = set_users (row_update us_id (us_id u) (\<lambda>_. u2) (db_users d)) d;
                      household_ids = filter (\<lambda>h. py_strip h \<noteq> [])
                        (map mb_household_id (filter (\<lambda>m. mb_user_id m = us_id u) (db_members d)));
                      clashes = List.map_filter (\<lambda>h. ensure_unique_household_member_display_name ev d' (py_strip h)
                                  (Some (us_id u)) (Some (us_display_name u2))) household_ids
                  in if py_strip (us_display_name u2) \<noteq> py_strip (us_display_name u) \<and> clashes \<noteq> []
                     then auth_fail ad (hd clashes)
                     else auth_ok (ad\<lparr>ad_db := d'\<rparr>) [] (to_user_read u2))))"

subsection \<open>The failed-login counter\<close>

definition guess_counter :: "pystr \<Rightarrow> auth_db \<Rightarrow> (int \<times> instant) option" where
  "guess_counter key ad =
     map_option (\<lambda>r. (lt_failed_count r, lt_window_started_at r)) (row_get lt_key key (ad_login ad))"

text \<open>
  A login for one address from one client: it counts when the password was compared and was
  wrong.  A login that is granted deletes the counter.
\<close>

definition guess_step ::
  "(pystr \<Rightarrow> pystr \<Rightarrow> bool) \<Rightarrow> auth_settings \<Rightarrow> pystr \<Rightarrow> pystr option \<Rightarrow> env \<times> http_request \<times> login_request \<Rightarrow> auth_db
   \<Rightarrow> bool \<times> auth_db" where
  "guess_step verify_password ss email ip r ad =
     (case r of (ev, rq, p) \<Rightarrow>
        (case login verify_password ss ev id [] [] ip ad rq (p\<lparr>lq_email := email\<rparr>) of
           (Inl e, ad', _) \<Rightarrow> (e = AppError 401 ''AUTH_INVALID_CREDENTIALS'', ad')
         | (Inr _, ad', _) \<Rightarrow> (False, ad')))"

definition login_granted ::
  "(pystr \<Rightarrow> pystr \<Rightarrow> bool) \<Rightarrow> auth_settings \<Rightarrow> pystr \<Rightarrow> pystr option \<Rightarrow> env \<times> http_request \<times> login_request \<Rightarrow> auth_db
   \<Rightarrow> bool" where
  "login_granted verify_password ss email ip r ad \<longleftrightarrow>
     (case r of (ev, rq, p) \<Rightarrow>
        \<not> isl (fst (login verify_password ss ev id [] [] ip ad rq (p\<lparr>lq_email := email\<rparr>))))"

lemma row_get_map: "(\<And>r. key (f r) = key r) \<Longrightarrow> row_get key k (map f rows) = map_option f (row_get key k rows)"
  by (induction rows) auto

lemma login_table_cleanup:
  assumes "unique_keys lt_key (ad_login ad)"
    and "\<And>r. row_get lt_key key (ad_login ad) = Some r \<Longrightarrow> now - seconds login_window_seconds \<le> lt_window_started_at r"
  shows "row_get lt_key key (ad_login (maybe_cleanup_auth_artifacts ss now ad)) = row_get lt_key key (ad_login ad)"
    "unique_keys lt_key (ad_login (maybe_cleanup_auth_artifacts ss now ad))"
  using assms row_get_filter [of lt_key key "ad_login ad" "\<lambda>t. \<not> lt_window_started_at t < now - seconds (max 3600 (login_window_seconds * 4))"]
  by (fastforce simp: maybe_cleanup_auth_artifacts_def Let_def seconds_def login_window_seconds_def unique_keys_def distinct_map_filter)+

lemma record_login_failure_effect:
  assumes "unique_keys lt_key (ad_login ad)"
    and "\<And>r. row_get lt_key key (ad_login ad) = Some r \<Longrightarrow> now - seconds login_window_seconds \<le> lt_window_started_at r"
  shows "row_get lt_key key (ad_login (record_login_failure ss id k now ad)) =
      (if key = k then Some (case row_get lt_key key (ad_login ad) of
           Some r \<Rightarrow> r\<lparr>lt_failed_count := lt_failed_count r + 1\<rparr>
         | None \<Rightarrow> \<lparr>lt_key = k, lt_failed_count = 1, lt_window_started_at = now\<rparr>)
       else row_get lt_key key (ad_login ad))"
    "unique_keys lt_key (ad_login (record_login_failure ss id k now ad))"
proof -
  let ?c = "maybe_cleanup_auth_artifacts ss now ad"
  note c = login_table_cleanup [where key = key and ss = ss, OF assms]
  have r: "record_login_failure ss id k now ad =
      (if k \<in> lt_key ` set (ad_login ?c) then bump_login k ?c
       else ?c\<lparr>ad_login := ad_login ?c @ [\<lparr>lt_key = k, lt_failed_count = 1, lt_window_started_at = now\<rparr>]\<rparr>)"
    by (simp add: record_login_failure_def eval_nat_numeral)
  have g: "row_get lt_key j (row_update lt_key k (\<lambda>t. t\<lparr>lt_failed_count := lt_failed_count t + 1\<rparr>) rows) =
      (if j = k then map_option (\<lambda>t. t\<lparr>lt_failed_count := lt_failed_count t + 1\<rparr>) (row_get lt_key j rows)
       else row_get lt_key j rows)" for j rows
    by (rule row_get_update) simp
  have n: "k \<in> lt_key ` set rows \<longleftrightarrow> row_get lt_key k rows \<noteq> None" for rows by (simp add: row_get_None_iff)
  show "row_get lt_key key (ad_login (record_login_failure ss id k now ad)) =
      (if key = k then Some (case row_get lt_key key (ad_login ad) of
           Some r \<Rightarrow> r\<lparr>lt_failed_count := lt_failed_count r + 1\<rparr>
         | None \<Rightarrow> \<lparr>lt_key = k, lt_failed_count = 1, lt_window_started_at = now\<rparr>)
       else row_get lt_key key (ad_login ad))"
    unfolding r n using c(1) by (auto simp: bump_login_def g row_get_append split: option.split)
  have "unique_keys lt_key (row_update lt_key k (\<lambda>t. t\<lparr>lt_failed_count := lt_failed_count t + 1\<rparr>) (ad_login ?c))"
    using c(2) by (simp add: unique_keys_update)
  moreover have "unique_keys lt_key (ad_login ?c @ [\<lparr>lt_key = k, lt_failed_count = 1, lt_window_started_at = now\<rparr>])"
    if "k \<notin> lt_key ` set (ad_login ?c)"
    using c(2) that by (simp add: unique_keys_def)
  ultimately show "unique_keys lt_key (ad_login (record_login_failure ss id k now ad))"
    unfolding r by (simp add: bump_login_def)
qed

lemma reset_login_effect:
  assumes "key \<in> set keys"
  shows "row_get lt_key key (ad_login (reset_login_windows keys now ad)) =
     map_option (\<lambda>t. if lt_window_started_at t < now - seconds login_window_seconds
        then t\<lparr>lt_failed_count := 0, lt_window_started_at := now\<rparr> else t) (row_get lt_key key (ad_login ad))"
proof -
  let ?f = "\<lambda>t. if lt_key t \<in> set keys \<and> lt_window_started_at t < now - seconds login_window_seconds
                then t\<lparr>lt_failed_count := 0, lt_window_started_at := now\<rparr> else t"
  have "row_get lt_key key (map ?f (ad_login ad)) = map_option ?f (row_get lt_key key (ad_login ad))"
    by (rule row_get_map) simp
  then show ?thesis
    using assms by (cases "row_get lt_key key (ad_login ad)") (auto simp: reset_login_windows_def dest: row_get_SomeD)
qed

lemma reset_login_unique:
  "unique_keys lt_key (ad_login ad) \<Longrightarrow> unique_keys lt_key (ad_login (reset_login_windows keys now ad))"
proof -
  have "map lt_key (ad_login (reset_login_windows keys now ad)) = map lt_key (ad_login ad)"
    by (simp add: reset_login_windows_def)
  then show "unique_keys lt_key (ad_login ad) \<Longrightarrow> unique_keys lt_key (ad_login (reset_login_windows keys now ad))"
    by (simp add: unique_keys_def)
qed

text \<open>The state after the window reset and what a login that fails does to it.\<close>

lemma guess_step_cases:
  assumes run: "guess_step verify_password ss email ip (ev, rq, p) ad = (pass, ad')"
    and u: "unique_keys lt_key (ad_login ad)"
  defines "key \<equiv> login_attempt_key email ip"
  obtains (same) "\<not> pass" "ad' = ad"
    | (refused) keys where "\<not> pass" "key \<in> set keys" "ad' = reset_login_windows keys (ev_now ev) ad"
    | (granted) keys where "\<not> pass" "key \<in> set keys" "login_granted verify_password ss email ip (ev, rq, p) ad"
        "ad_login ad' = row_delete lt_key key (ad_login (reset_login_windows keys (ev_now ev) ad))"
    | (wrong) keys ad1 where "pass" "key \<in> set keys" "ad1 = reset_login_windows keys (ev_now ev) ad"
        "\<not> login_blocked login_max_attempts key ad1"
        "ad' = record_login_failure ss id key (ev_now ev) ad1 \<or>
         (\<exists>k. ad' = record_login_failure ss id k (ev_now ev) (record_login_failure ss id key (ev_now ev) ad1))"
proof (cases "verify_allowed_origin (as_config ss) rq False")
  case (Some e)
  with run have "ad' = ad" "pass = (e = AppError 401 ''AUTH_INVALID_CREDENTIALS'')"
    by (auto simp: guess_step_def login_def auth_fail_def)
  moreover have "e \<noteq> AppError 401 ''AUTH_INVALID_CREDENTIALS''"
    using Some by (auto simp: verify_allowed_origin_def Let_def split: option.splits if_splits)
  ultimately show ?thesis using same by simp
next
  case None
  let ?enforce = "should_enforce_ip_global_auth_throttle ss"
  let ?keys = "if ?enforce then [key, login_ip_attempt_key ip] else [key]"
  let ?ad1 = "reset_login_windows ?keys (ev_now ev) ad"
  have k: "key \<in> set ?keys" by simp
  show ?thesis
    using run None refused [OF _ k] granted [OF _ k] wrong [OF _ k refl] same
    unfolding guess_step_def login_granted_def login_def key_def Let_def prod.case option.case
    by (simp add: auth_fail_def auth_ok_def split: if_splits option.splits prod.splits) auto
qed

lemma granted_counter: "ad_login ad' = row_delete lt_key key rows \<Longrightarrow> guess_counter key ad' = None"
  by (simp add: guess_counter_def row_get_delete)

lemma failures_counted:
  assumes u: "unique_keys lt_key (ad_login ad1)"
    and new: "\<And>r. row_get lt_key key (ad_login ad1) = Some r \<Longrightarrow> now - seconds login_window_seconds \<le> lt_window_started_at r"
    and ad': "ad' = record_login_failure ss id key now ad1 \<or>
       (\<exists>k. ad' = record_login_failure ss id k now (record_login_failure ss id key now ad1))"
  shows "unique_keys lt_key (ad_login ad')"
    "\<exists>n'. guess_counter key ad' = Some (n', case guess_counter key ad1 of Some (n, t) \<Rightarrow> t | None \<Rightarrow> now) \<and>
       (case guess_counter key ad1 of Some (n, t) \<Rightarrow> n < n' | None \<Rightarrow> 1 \<le> n')"
proof -
  let ?a = "record_login_failure ss id key now ad1"
  define r1 where "r1 = (case row_get lt_key key (ad_login ad1) of
           Some r \<Rightarrow> r\<lparr>lt_failed_count := lt_failed_count r + 1\<rparr>
         | None \<Rightarrow> \<lparr>lt_key = key, lt_failed_count = 1, lt_window_started_at = now\<rparr>)"
  have e1: "row_get lt_key key (ad_login ?a) = Some r1" "unique_keys lt_key (ad_login ?a)"
    using record_login_failure_effect [where key = key and k = key and ss = ss, OF u new] by (simp_all add: r1_def)
  have n1: "now - seconds login_window_seconds \<le> lt_window_started_at r" if "row_get lt_key key (ad_login ?a) = Some r" for r
    using that e1(1) new by (auto simp: r1_def seconds_def login_window_seconds_def split: option.splits)
  note e2 = record_login_failure_effect [where key = key and ss = ss, OF e1(2) n1]
  have "\<exists>n' \<ge> lt_failed_count r1. row_get lt_key key (ad_login ad') = Some (r1\<lparr>lt_failed_count := n'\<rparr>)"
    using ad'
  proof
    assume "ad' = ?a"
    with e1(1) show ?thesis by (intro exI [of _ "lt_failed_count r1"]) simp
  next
    assume "\<exists>k. ad' = record_login_failure ss id k now ?a"
    then obtain k where "ad' = record_login_failure ss id k now ?a" by blast
    with e2(1) [of k] e1(1) show ?thesis
      by (cases "key = k") (auto intro: exI [of _ "lt_failed_count r1 + 1"] exI [of _ "lt_failed_count r1"])
  qed
  then show "\<exists>n'. guess_counter key ad' = Some (n', case guess_counter key ad1 of Some (n, t) \<Rightarrow> t | None \<Rightarrow> now) \<and>
       (case guess_counter key ad1 of Some (n, t) \<Rightarrow> n < n' | None \<Rightarrow> 1 \<le> n')"
    by (auto simp: guess_counter_def r1_def split: option.splits)
  show "unique_keys lt_key (ad_login ad')" using ad' e1(2) e2(2) by auto
qed

lemma reset_counter:
  assumes "key \<in> set keys"
  shows "guess_counter key (reset_login_windows keys now ad) =
     (case live_window (seconds login_window_seconds) now (guess_counter key ad) of
        Some c \<Rightarrow> Some c
      | None \<Rightarrow> map_option (\<lambda>_. (0, now)) (guess_counter key ad))"
  unfolding guess_counter_def reset_login_effect [OF assms]
  by (auto simp: live_window_def split: option.split)

lemma reset_fresh:
  assumes "key \<in> set keys" "row_get lt_key key (ad_login (reset_login_windows keys now ad)) = Some r"
  shows "now - seconds login_window_seconds \<le> lt_window_started_at r"
  using assms by (auto simp: reset_login_effect seconds_def login_window_seconds_def)

lemma wrong_login_counted:
  assumes u: "unique_keys lt_key (ad_login ad)" and k: "key \<in> set keys" and a: "ad1 = reset_login_windows keys now ad"
    and ad': "ad' = record_login_failure ss id key now ad1 \<or>
       (\<exists>k. ad' = record_login_failure ss id k now (record_login_failure ss id key now ad1))"
  shows "unique_keys lt_key (ad_login ad')"
    "\<exists>n'. guess_counter key ad' = Some (n', case guess_counter key ad1 of Some (n, t) \<Rightarrow> t | None \<Rightarrow> now) \<and>
       (case guess_counter key ad1 of Some (n, t) \<Rightarrow> n < n' | None \<Rightarrow> 1 \<le> n')"
proof -
  have u1: "unique_keys lt_key (ad_login ad1)" unfolding a by (rule reset_login_unique [OF u])
  have f: "now - seconds login_window_seconds \<le> lt_window_started_at r" if "row_get lt_key key (ad_login ad1) = Some r" for r
    using reset_fresh [OF k] that unfolding a by blast
  show "unique_keys lt_key (ad_login ad')" using failures_counted(1) [OF u1 f ad'] by blast
  show "\<exists>n'. guess_counter key ad' = Some (n', case guess_counter key ad1 of Some (n, t) \<Rightarrow> t | None \<Rightarrow> now) \<and>
       (case guess_counter key ad1 of Some (n, t) \<Rightarrow> n < n' | None \<Rightarrow> 1 \<le> n')"
    using failures_counted(2) [OF u1 f ad'] by blast
qed

interpretation login_counter:
  window_counter "guess_counter (login_attempt_key email ip)" "guess_step verify_password ss email ip"
    "login_granted verify_password ss email ip" "\<lambda>(ev, rq, p). ev_now ev" "\<lambda>ad. unique_keys lt_key (ad_login ad)" "seconds login_window_seconds" login_max_attempts
  for verify_password ss email ip
proof (unfold_locales, goal_cases)
  case 1
  show ?case by (simp add: login_max_attempts_def)
next
  case (2 s r pass s')
  obtain ev rq p where r: "r = (ev, rq, p)" by (cases r)
  from 2(2) [unfolded r] 2(1) show ?case
  proof (cases rule: guess_step_cases)
    case (wrong keys ad1)
    from wrong_login_counted(1) [OF 2(1) wrong(2,3,5)] show ?thesis .
  qed (use 2(1) reset_login_unique in \<open>auto intro: unique_keys_delete\<close>)
next
  case (3 s r s' n t)
  obtain ev rq p where r: "r = (ev, rq, p)" by (cases r)
  from 3(2) [unfolded r] 3(1) show ?case
  proof (cases rule: guess_step_cases)
    case (wrong keys ad1)
    have l: "guess_counter (login_attempt_key email ip) ad1 = Some (n, t)"
      using 3(3) wrong(2) by (simp add: wrong(3) reset_counter r)
    then have "n < login_max_attempts" using wrong(4) by (auto simp: login_blocked_def guess_counter_def)
    moreover have "\<exists>n'. guess_counter (login_attempt_key email ip) s' = Some (n', t) \<and> n < n'"
      using wrong_login_counted(2) [OF 3(1) wrong(2,3,5)] unfolding l by simp
    ultimately show ?thesis by blast
  qed simp_all
next
  case (4 s r s')
  obtain ev rq p where r: "r = (ev, rq, p)" by (cases r)
  from 4(2) [unfolded r] 4(1) show ?case
  proof (cases rule: guess_step_cases)
    case (wrong keys ad1)
    have l: "guess_counter (login_attempt_key email ip) ad1 = None \<or> guess_counter (login_attempt_key email ip) ad1 = Some (0, ev_now ev)"
      using 4(3) wrong(2) by (cases "guess_counter (login_attempt_key email ip) s") (auto simp: wrong(3) reset_counter r)
    obtain n' where "guess_counter (login_attempt_key email ip) s' = Some (n', ev_now ev)" "1 \<le> n'"
      using wrong_login_counted(2) [OF 4(1) wrong(2,3,5)] l by auto
    then show ?thesis by (auto simp: r)
  qed simp_all
next
  case (5 s r s' n t)
  obtain ev rq p where r: "r = (ev, rq, p)" by (cases r)
  from 5(3) have c: "guess_counter (login_attempt_key email ip) s = Some (n, t)"
    by (auto simp: live_window_def split: option.splits if_splits)
  from 5(2) [unfolded r] 5(1) show ?case
    by (cases rule: guess_step_cases) (use 5(3) c in \<open>auto simp: reset_counter r dest: granted_counter\<close>)
next
  case (6 s r s')
  obtain ev rq p where r: "r = (ev, rq, p)" by (cases r)
  from 6(2) [unfolded r] 6(1) show ?case
    by (cases rule: guess_step_cases; cases "guess_counter (login_attempt_key email ip) s")
      (use 6(3) in \<open>auto simp: reset_counter r dest: granted_counter\<close>)
qed

subsection \<open>A token is refreshed once\<close>

definition token_jti :: "(json \<Rightarrow> pystr) \<Rightarrow> claims \<Rightarrow> pystr" where
  "token_jti rp payload = py_strip (str_or_empty rp (json_get payload (lit ''jti'')))"

text \<open>
  What any number of requests before the time \<open>T\<close> may do to the state, the requests of other
  sessions that commit in the middle of one included.
\<close>

inductive auth_reach ::
  "(json \<Rightarrow> pystr) \<Rightarrow> (pystr \<Rightarrow> claims option) \<Rightarrow> (pystr \<Rightarrow> pystr \<Rightarrow> bool) \<Rightarrow> auth_settings \<Rightarrow> instant
   \<Rightarrow> auth_db \<Rightarrow> auth_db \<Rightarrow> bool" for rp jwt_decode verify_password ss T where
  here: "auth_reach rp jwt_decode verify_password ss T ad ad"
| after_login: "auth_reach rp jwt_decode verify_password ss T ad ad' \<Longrightarrow> ev_now ev < T \<Longrightarrow>
    (\<And>x. auth_reach rp jwt_decode verify_password ss T x (race x)) \<Longrightarrow>
    auth_reach rp jwt_decode verify_password ss T ad
      (fst (snd (login verify_password ss ev race access_jti refresh_jti ip ad' rq p)))"
| after_refresh: "auth_reach rp jwt_decode verify_password ss T ad ad' \<Longrightarrow> ev_now ev < T \<Longrightarrow>
    (\<And>x. auth_reach rp jwt_decode verify_password ss T x (race1 x)) \<Longrightarrow>
    (\<And>x. auth_reach rp jwt_decode verify_password ss T x (race2 x)) \<Longrightarrow>
    auth_reach rp jwt_decode verify_password ss T ad
      (fst (snd (refresh_session rp jwt_decode ss ev race1 race2 access_jti refresh_jti ad' rq)))"
| after_logout: "auth_reach rp jwt_decode verify_password ss T ad ad' \<Longrightarrow> ev_now ev < T \<Longrightarrow>
    (\<And>x. auth_reach rp jwt_decode verify_password ss T x (race x)) \<Longrightarrow>
    auth_reach rp jwt_decode verify_password ss T ad (fst (snd (logout rp jwt_decode ss ev race ad' rq)))"
| after_attempt: "auth_reach rp jwt_decode verify_password ss T ad ad' \<Longrightarrow> now < T \<Longrightarrow>
    (\<And>x. auth_reach rp jwt_decode verify_password ss T x (race x)) \<Longrightarrow>
    auth_reach rp jwt_decode verify_password ss T ad
      (snd (consume_register_throttle_attempt ss race key now m limited unavailable ad'))"

definition revoked_until :: "pystr \<Rightarrow> instant \<Rightarrow> auth_db \<Rightarrow> bool" where
  "revoked_until jti T ad \<longleftrightarrow> (\<exists>r \<in> set (revoked_rows ad). rt_jti r = jti \<and> T \<le> rt_expires_at r)"

definition expires_at_least :: "(json \<Rightarrow> pystr) \<Rightarrow> (pystr \<Rightarrow> claims option) \<Rightarrow> pystr \<Rightarrow> instant \<Rightarrow> bool" where
  "expires_at_least rp jwt_decode jti T \<longleftrightarrow>
     (\<forall>token payload. jwt_decode token = Some payload \<and> token_jti rp payload = jti \<longrightarrow>
        (\<exists>e. json_get payload (lit ''exp'') = JInt e \<and> e \<noteq> 0 \<and> T \<le> seconds e))"

lemma revoked_until_cleanup:
  "revoked_until jti T ad \<Longrightarrow> now < T \<Longrightarrow> revoked_until jti T (maybe_cleanup_auth_artifacts ss now ad)"
  by (auto simp: revoked_until_def maybe_cleanup_auth_artifacts_def Let_def)

lemma revoked_until_other_tables [simp]:
  "revoked_until jti T (ad\<lparr>ad_register := rs\<rparr>) \<longleftrightarrow> revoked_until jti T ad"
  "revoked_until jti T (ad\<lparr>ad_login := ls\<rparr>) \<longleftrightarrow> revoked_until jti T ad"
  by (simp_all add: revoked_until_def)

lemma revoked_until_upsert:
  assumes "revoked_until jti T ad" "j = jti \<longrightarrow> T \<le> seconds e"
  shows "revoked_until jti T (upsert_revoked_token j e ad)"
proof -
  obtain r where r: "r \<in> set (revoked_rows ad)" "rt_jti r = jti" "T \<le> rt_expires_at r"
    using assms(1) by (auto simp: revoked_until_def)
  let ?f = "\<lambda>x :: revoked_token. if rt_jti x = j then x\<lparr>rt_expires_at := seconds e\<rparr> else x"
  have "?f r \<in> ?f ` set (revoked_rows ad)" "rt_jti (?f r) = jti" "T \<le> rt_expires_at (?f r)"
    using r assms(2) by auto
  then have "\<exists>x \<in> ?f ` set (revoked_rows ad). rt_jti x = jti \<and> T \<le> rt_expires_at x" by blast
  with r show ?thesis
    by (auto simp: revoked_until_def upsert_revoked_token_def set_revoked_def row_update_def Let_def)
qed

lemma revoked_until_append:
  "revoked_until jti T ad \<Longrightarrow> revoked_until jti T (set_revoked (revoked_rows ad @ rows) ad)"
  by (auto simp: revoked_until_def set_revoked_def)

lemma revocation_target:
  assumes "revocation rp decoder now f raw = Some (Some (j, e))"
  obtains token payload where "decoder token = Some payload" "token_jti rp payload = j" "exp_or payload (timestamp (now + seconds f)) = Some e"
  using assms by (auto simp: revocation_def token_jti_def Let_def split: if_splits option.splits)

lemma check_claims_same: "check_claims rp typ payload = Some q \<Longrightarrow> q = payload"
  by (simp add: check_claims_def split: if_splits)

lemma decode_jwt:
  "decode_access_token rp jwt token = Some q \<Longrightarrow> jwt token = Some q"
  "decode_refresh_token rp jwt token = Some q \<Longrightarrow> jwt token = Some q"
  by (auto simp: decode_access_token_def decode_refresh_token_def bind_eq_Some_conv dest: check_claims_same)

lemma revocation_expires:
  assumes "revocation rp decoder now f raw = Some (Some (j, e))" "expires_at_least rp jwt jti T" "j = jti"
    and "\<And>token q. decoder token = Some q \<Longrightarrow> jwt token = Some q"
  shows "T \<le> seconds e"
proof -
  from revocation_target [OF assms(1)] obtain token payload where t: "decoder token = Some payload" "token_jti rp payload = j"
    "exp_or payload (timestamp (now + seconds f)) = Some e" .
  with assms(2-4) obtain e' where "json_get payload (lit ''exp'') = JInt e'" "e' \<noteq> 0" "T \<le> seconds e'"
    unfolding expires_at_least_def by blast
  with t(3) show ?thesis by (simp add: exp_or_def)
qed

lemma revoked_until_apply:
  assumes "revoked_until jti T ad" "\<And>j e. target = Some (j, e) \<Longrightarrow> j = jti \<Longrightarrow> T \<le> seconds e"
  shows "revoked_until jti T (apply_revocation target ad)"
  using assms by (cases target) (auto simp: apply_revocation_def intro: revoked_until_upsert)

lemma count_register_revoked:
  "count_register_attempt n race c key now before ad = Inl x \<or> count_register_attempt n race c key now before ad = Inr x \<Longrightarrow>
   revoked_until jti T before \<Longrightarrow> revoked_until jti T ad \<Longrightarrow>
   (\<And>y. revoked_until jti T y \<Longrightarrow> revoked_until jti T (race y)) \<Longrightarrow> revoked_until jti T x"
  by (induction n race c key now before ad rule: count_register_attempt.induct)
    (auto split: if_splits)

lemma count_login_revoked:
  "revoked_until jti T before \<Longrightarrow> revoked_until jti T ad \<Longrightarrow>
   (\<And>y. revoked_until jti T y \<Longrightarrow> revoked_until jti T (race y)) \<Longrightarrow>
   revoked_until jti T (count_login_failure n race key now before ad)"
  by (induction n race key now before ad rule: count_login_failure.induct)
    (auto simp: bump_login_def)

lemma record_login_revoked:
  assumes "revoked_until jti T ad" "now < T" "\<And>y. revoked_until jti T y \<Longrightarrow> revoked_until jti T (race y)"
  shows "revoked_until jti T (record_login_failure ss race key now ad)"
  unfolding record_login_failure_def
  by (intro count_login_revoked assms revoked_until_cleanup)

lemma login_revoked:
  assumes "revoked_until jti T ad" "ev_now ev < T" "\<And>y. revoked_until jti T y \<Longrightarrow> revoked_until jti T (race y)"
  shows "revoked_until jti T (fst (snd (login verify_password ss ev race aj rj ip ad rq p)))"
proof -
  have r: "revoked_until jti T (reset_login_windows keys now ad)" for keys now
    using assms(1) by (simp add: reset_login_windows_def)
  note f = record_login_revoked [OF _ assms(2,3)]
  show ?thesis
    by (auto simp: login_def Let_def r assms(1) auth_fail_def auth_ok_def split: option.split prod.split intro!: f r)
qed

lemma attempt_revoked:
  assumes "revoked_until jti T ad" "now < T" "\<And>y. revoked_until jti T y \<Longrightarrow> revoked_until jti T (race y)"
  shows "revoked_until jti T (snd (consume_register_throttle_attempt ss race key now m limited unavailable ad))"
proof -
  let ?c = "count_register_attempt 4 race (now - register_window ss) key now ad (maybe_cleanup_auth_artifacts ss now ad)"
  have "?c = Inl x \<or> ?c = Inr x \<Longrightarrow> revoked_until jti T x" for x
    by (rule count_register_revoked [OF _ assms(1) revoked_until_cleanup [OF assms(1,2)] assms(3)])
  then show ?thesis
    by (auto simp: consume_register_throttle_attempt_def Let_def split: sum.split option.split)
qed

lemma refresh_session_cases:
  assumes "refresh_session rp jwt_decode ss ev race1 race2 aj rj ad rq = (res, ad', cs)"
  obtains (refused) err where "res = Inl err" "ad' = ad \<or> ad' = race1 ad \<or> ad' = race2 (race1 ad)"
    | (granted) payload e target u where "res = Inr ()"
        "decode_refresh_token rp jwt_decode (text_of (rq_cookies rq (as_refresh_cookie_name ss))) = Some payload"
        "exp_or payload (timestamp (ev_now ev + seconds (86400 * as_refresh_token_days ss))) = Some e"
        "row_get us_id (str_or_empty rp (json_get payload (lit ''sub''))) (db_users (ad_db ad)) = Some u"
        "as_verification_required ss \<longrightarrow> us_email_verified u"
        "token_jti rp payload \<notin> rt_jti ` set (revoked_rows (race1 ad))"
        "target = None \<or> (\<exists>f raw. revocation rp (decode_access_token rp jwt_decode) (ev_now ev) f raw = Some target)"
        "ad' = apply_revocation target (set_revoked (revoked_rows (race2 (race1 ad)) @
           [\<lparr>rt_jti = token_jti rp payload, rt_expires_at = seconds e\<rparr>]) (race2 (race1 ad)))"
proof -
  let ?t = "text_of (rq_cookies rq (as_refresh_cookie_name ss))"
  note run = assms [unfolded refresh_session_def Let_def token_jti_def [symmetric]]
  define bad where "bad = ((\<exists>err. res = Inl err) \<and> (ad' = ad \<or> ad' = race1 ad \<or> ad' = race2 (race1 ad)))"
  have csrf: "bad" if "verify_csrf_for_cookie_request ss rq False = Some err" for err
    using run that by (auto simp: bad_def)
  have none: "bad" if "verify_csrf_for_cookie_request ss rq False = None" "?t = [] \<or> decode_refresh_token rp jwt_decode ?t = None"
    using run that by (auto simp: bad_def refresh_error_def split: if_splits)
  show ?thesis
  proof (cases bad)
    case True
    then show ?thesis using refused unfolding bad_def by blast
  next
    case False
    with csrf none obtain payload where p: "verify_csrf_for_cookie_request ss rq False = None" "?t \<noteq> []"
      "decode_refresh_token rp jwt_decode ?t = Some payload"
      by (cases "verify_csrf_for_cookie_request ss rq False"; cases "decode_refresh_token rp jwt_decode ?t") auto
    have "row_get us_id (str_or_empty rp (json_get payload (lit ''sub''))) (db_users (ad_db ad)) \<noteq> None"
    proof
      assume "row_get us_id (str_or_empty rp (json_get payload (lit ''sub''))) (db_users (ad_db ad)) = None"
      with False run p show False by (auto simp: bad_def refresh_error_def)
    qed
    then obtain u where u: "row_get us_id (str_or_empty rp (json_get payload (lit ''sub''))) (db_users (ad_db ad)) = Some u" by auto
    have v: "as_verification_required ss \<longrightarrow> us_email_verified u"
    proof (rule ccontr)
      assume "\<not> (as_verification_required ss \<longrightarrow> us_email_verified u)"
      with False run p u show False by (auto simp: bad_def refresh_error_def)
    qed
    have "exp_or payload (timestamp (ev_now ev + seconds (86400 * as_refresh_token_days ss))) \<noteq> None"
    proof
      assume "exp_or payload (timestamp (ev_now ev + seconds (86400 * as_refresh_token_days ss))) = None"
      with False run p u v show False by (auto simp: bad_def auth_fail_def)
    qed
    then obtain e where e: "exp_or payload (timestamp (ev_now ev + seconds (86400 * as_refresh_token_days ss))) = Some e" by auto
    have j: "token_jti rp payload \<notin> rt_jti ` set (revoked_rows (race1 ad))"
    proof
      assume "token_jti rp payload \<in> rt_jti ` set (revoked_rows (race1 ad))"
      with False run p u v e show False by (auto simp: bad_def refresh_error_def)
    qed
    have g: "\<exists>target. res = Inr () \<and> (target = None \<or> (\<exists>f raw. revocation rp (decode_access_token rp jwt_decode) (ev_now ev) f raw = Some target)) \<and>
        ad' = apply_revocation target (set_revoked (revoked_rows (race2 (race1 ad)) @
           [\<lparr>rt_jti = token_jti rp payload, rt_expires_at = seconds e\<rparr>]) (race2 (race1 ad)))"
      using False run p u v e j
      by (simp add: bad_def refresh_error_def auth_fail_def auth_ok_def split: if_splits option.splits prod.splits) blast+
    then show ?thesis using granted [OF _ p(3) e u v j] by blast
  qed
qed

lemma refresh_revoked:
  assumes "revoked_until jti T ad" "expires_at_least rp jwt_decode jti T"
    and "\<And>y. revoked_until jti T y \<Longrightarrow> revoked_until jti T (race1 y)" "\<And>y. revoked_until jti T y \<Longrightarrow> revoked_until jti T (race2 y)"
  shows "revoked_until jti T (fst (snd (refresh_session rp jwt_decode ss ev race1 race2 aj rj ad rq)))"
proof -
  obtain res ad' cs where run: "refresh_session rp jwt_decode ss ev race1 race2 aj rj ad rq = (res, ad', cs)" by (metis prod_cases3)
  from run have "revoked_until jti T ad'"
  proof (cases rule: refresh_session_cases)
    case (refused err)
    then show ?thesis using assms by auto
  next
    case (granted payload e target u)
    have "T \<le> seconds e'" if "target = Some (j, e')" "j = jti" for j e'
      using granted(7) that revocation_expires [OF _ assms(2)] decode_jwt(1) by blast
    then show ?thesis unfolding granted(8) using assms by (intro revoked_until_apply revoked_until_append) auto
  qed
  with run show ?thesis by simp
qed

lemma logout_shape:
  assumes "(case g of Some e \<Rightarrow> auth_fail ad e | None \<Rightarrow>
      (case A of None \<Rightarrow> auth_fail ad e0 | Some a \<Rightarrow>
        (case R of None \<Rightarrow> auth_fail ad e0 | Some r \<Rightarrow> auth_ok (if L a r then x else f r a) c y))) = (res, ad', cs)"
  shows "ad' = ad \<or> ad' = x \<or> (\<exists>a r. A = Some a \<and> R = Some r \<and> ad' = f r a)"
  using assms by (auto split: option.splits if_splits)

lemma logout_states:
  assumes "logout rp jwt_decode ss ev race ad rq = (res, ad', cs)"
  shows "ad' = ad \<or> ad' = race ad \<or> (\<exists>a r now f raw g raw2.
      ad' = apply_revocation r (apply_revocation a (race ad)) \<and>
      revocation rp (decode_access_token rp jwt_decode) now f raw = Some a \<and>
      revocation rp (decode_refresh_token rp jwt_decode) now g raw2 = Some r)"
  using logout_shape [OF assms [unfolded logout_def Let_def]] by blast

lemma logout_revoked:
  assumes "revoked_until jti T ad" "expires_at_least rp jwt_decode jti T" "\<And>y. revoked_until jti T y \<Longrightarrow> revoked_until jti T (race y)"
  shows "revoked_until jti T (fst (snd (logout rp jwt_decode ss ev race ad rq)))"
proof -
  have e: "T \<le> seconds e" if "revocation rp (decode_access_token rp jwt_decode) now f raw = Some (Some (j, e))" "j = jti" for now f raw j e
    by (rule revocation_expires [OF that(1) assms(2) that(2)]) (rule decode_jwt)
  have e': "T \<le> seconds e" if "revocation rp (decode_refresh_token rp jwt_decode) now f raw = Some (Some (j, e))" "j = jti" for now f raw j e
    by (rule revocation_expires [OF that(1) assms(2) that(2)]) (rule decode_jwt)
  obtain res ad' cs where run: "logout rp jwt_decode ss ev race ad rq = (res, ad', cs)" by (metis prod_cases3)
  from logout_states [OF run] have "revoked_until jti T ad'"
    using assms(1,3) e e' by (auto intro!: revoked_until_apply)
  with run show ?thesis by simp
qed

lemma auth_reach_revoked:
  assumes "auth_reach rp jwt_decode verify_password ss T ad ad'" "expires_at_least rp jwt_decode jti T" "revoked_until jti T ad"
  shows "revoked_until jti T ad'"
  using assms
proof (induction rule: auth_reach.induct)
  case (after_login ad ad' ev race access_jti refresh_jti ip rq p)
  then show ?case by (intro login_revoked) auto
next
  case (after_refresh ad ad' ev race1 race2 access_jti refresh_jti rq)
  then show ?case by (intro refresh_revoked) auto
next
  case (after_logout ad ad' ev race rq)
  then show ?case by (intro logout_revoked) auto
next
  case (after_attempt ad ad' now race key m limited unavailable)
  then show ?case by (intro attempt_revoked) auto
qed

text \<open>The identifier of the refresh token a request carries.\<close>

definition request_jti :: "(json \<Rightarrow> pystr) \<Rightarrow> (pystr \<Rightarrow> claims option) \<Rightarrow> auth_settings \<Rightarrow> http_request \<Rightarrow> pystr option" where
  "request_jti rp jwt_decode ss rq =
     map_option (token_jti rp) (decode_refresh_token rp jwt_decode (text_of (rq_cookies rq (as_refresh_cookie_name ss))))"

lemma refresh_ok_marks:
  assumes run: "refresh_session rp jwt_decode ss ev race1 race2 aj rj ad rq = (Inr (), ad', cs)"
    and "request_jti rp jwt_decode ss rq = Some jti" "expires_at_least rp jwt_decode jti T"
  shows "revoked_until jti T ad' \<and> jti \<notin> rt_jti ` set (revoked_rows (race1 ad))"
  using run
proof (cases rule: refresh_session_cases)
  case (granted payload e target u)
  have j: "token_jti rp payload = jti" using assms(2) granted(2) by (simp add: request_jti_def)
  with decode_jwt(2) [OF granted(2)] assms(3) obtain e' where "json_get payload (lit ''exp'') = JInt e'" "e' \<noteq> 0" "T \<le> seconds e'"
    unfolding expires_at_least_def by blast
  with granted(3) have "T \<le> seconds e" by (simp add: exp_or_def)
  then have "revoked_until jti T (set_revoked (revoked_rows (race2 (race1 ad)) @
           [\<lparr>rt_jti = token_jti rp payload, rt_expires_at = seconds e\<rparr>]) (race2 (race1 ad)))"
    using j by (simp add: revoked_until_def set_revoked_def)
  moreover have "T \<le> seconds e'" if "target = Some (j, e')" "j = jti" for j e'
    using granted(7) that revocation_expires [OF _ assms(3)] decode_jwt(1) by blast
  ultimately show ?thesis using granted(6) j unfolding granted(8) by (auto intro: revoked_until_apply)
qed simp_all

end
