(* ===== verification/Auth_Register.thy ===== *)
theory Auth_Register
  imports Auth_Session Household
begin

text \<open>
  Registration in \<open>backend/app/api/routes/auth.py\<close>: signing up, the first household, the mailed
  verification token and code, proving them, and asking for another mail.  Hashing a password
  (with the number of the call, whose salt differs), sending a mail and the random values are
  parameters; \<open>race\<close> is what other sessions commit before a lock or a flush of this one.
\<close>

subsection \<open>Random values, mails and answers\<close>

record draws =
  dw_user_id :: pystr
  dw_household_id :: pystr
  dw_member_id :: pystr
  dw_unused_password :: pystr
  dw_continuation :: pystr
  dw_tokens :: "(pystr \<times> pystr \<times> pystr) list"

record verification_mail =
  vm_to :: pystr
  vm_token :: pystr
  vm_code :: pystr

record register_response =
  rr_registered :: bool
  rr_email :: pystr
  rr_expires_in_seconds :: "int option"
  rr_user :: "user_read option"

type_synonym 'a mail_outcome = "verification_mail list \<times> 'a auth_outcome"

definition registration_continuation_cookie :: pystr where
  "registration_continuation_cookie = lit ''mf_registration_continuation''"

definition registration_continuation_matches :: "env \<Rightarrow> http_request \<Rightarrow> verification_token \<Rightarrow> bool" where
  "registration_continuation_matches ev rq t =
     (let expected = text_of (vt_registration_continuation_hash t);
          supplied = text_of (rq_cookies rq registration_continuation_cookie)
      in expected \<noteq> [] \<and> supplied \<noteq> [] \<and> hash_opaque_token ev supplied = expected)"

subsection \<open>The first household\<close>

definition household_name_suffix :: pystr where
  "household_name_suffix = [0xC758, 32, 0xAC00, 0xACC4, 0xBD80]"

definition household_name_from_display_name :: "pystr \<Rightarrow> pystr" where
  "household_name_from_display_name display_name =
     (let s = py_strip display_name;
          prefix = (if s = [] then [0xC0AC, 0xC6A9, 0xC790] else s);
          max_prefix = max 1 (120 - length household_name_suffix)
      in take max_prefix prefix @ household_name_suffix)"

definition create_household_for_user :: "env \<Rightarrow> draws \<Rightarrow> user \<Rightarrow> household" where
  "create_household_for_user ev dw u =
     \<lparr>hh_id = dw_household_id dw, hh_name = household_name_from_display_name (us_display_name u),
      hh_base_currency = lit ''KRW'', hh_transaction_row_colors = [], hh_holding_settings = [],
      hh_created_at = ev_db_now ev\<rparr>"

definition apply_registration_real_name :: "user \<Rightarrow> pystr \<Rightarrow> user" where
  "apply_registration_real_name u real_name =
     (let u1 = u\<lparr>us_real_name := Some (py_strip real_name)\<rparr>;
          u2 = (if normalize_display_name_mode (Some (us_display_name_mode u1)) \<noteq> lit (mode_value Mode_nickname)
                   \<or> normalize_optional_text (us_nickname u1) = None
                then u1\<lparr>us_display_name_mode := lit (mode_value Mode_real_name)\<rparr> else u1)
      in sync_user_display_name u2)"

text \<open>
  The household identifier is flushed at once, the membership at the next flush, whose
  \<open>IntegrityError\<close> is the error \<open>late\<close>.  The last case is the one where another request has
  selected a household meanwhile: the new household is deleted again.
\<close>

definition ensure_default_household_membership ::
  "env \<Rightarrow> draws \<Rightarrow> http_error \<Rightarrow> user \<Rightarrow> db \<Rightarrow> http_error + db" where
  "ensure_default_household_membership ev dw late u d =
     (if us_active_household_id u \<noteq> None then Inr d
      else case find (\<lambda>m. mb_user_id m = us_id u) (db_members d) of
        Some m \<Rightarrow> Inr (select_active d (us_id u) (Some (mb_household_id m)))
      | None \<Rightarrow>
          (let h = create_household_for_user ev dw u;
               m = \<lparr>mb_id = dw_member_id dw, mb_household_id = hh_id h, mb_user_id = us_id u,
                    mb_role = Role_owner, mb_created_at = ev_db_now ev\<rparr>
           in if hh_id h \<in> hh_id ` set (db_households d) then Inl ServerError
              else if list_ex (\<lambda>r. us_id r = us_id u \<and> us_active_household_id r = None) (db_users d)
              then (if mb_id m \<in> mb_id ` set (db_members d) \<or> member_conflict d m then Inl late
                    else Inr (set_members (db_members d @ [m])
                           (select_active (set_households (db_households d @ [h]) d) (us_id u) (Some (hh_id h)))))
              else Inr d))"

subsection \<open>Deleting an account\<close>

text \<open>
  The foreign keys of \<open>db/models.py\<close>: what refers to a user or to a household by
  \<open>ON DELETE CASCADE\<close> goes with it, the rest is set to null.
\<close>

definition unless_eq :: "pystr \<Rightarrow> pystr option \<Rightarrow> pystr option" where
  "unless_eq i v = (if v = Some i then None else v)"

definition delete_user_row :: "pystr \<Rightarrow> db \<Rightarrow> db" where
  "delete_user_row i d =
     d\<lparr>db_users := row_delete us_id i (db_users d),
       db_members := row_delete mb_user_id i (db_members d),
       db_invitations := map (\<lambda>v. v\<lparr>iv_inviter_user_id := unless_eq i (iv_inviter_user_id v),
                                    iv_accepted_user_id := unless_eq i (iv_accepted_user_id v)\<rparr>) (db_invitations d),
       db_transactions := map (\<lambda>t. t\<lparr>tx_owner_user_id := unless_eq i (tx_owner_user_id t),
                                     tx_created_by_user_id := unless_eq i (tx_created_by_user_id t)\<rparr>) (db_transactions d),
       db_holdings := map (\<lambda>h. h\<lparr>hd_owner_user_id := unless_eq i (hd_owner_user_id h)\<rparr>) (db_holdings d),
       db_patch_logs := map (\<lambda>l. l\<lparr>pl_actor_user_id := unless_eq i (pl_actor_user_id l)\<rparr>) (db_patch_logs d)\<rparr>"

definition delete_household_row :: "pystr \<Rightarrow> db \<Rightarrow> db" where
  "delete_household_row i d =
     d\<lparr>db_users := map (\<lambda>u. u\<lparr>us_active_household_id := unless_eq i (us_active_household_id u)\<rparr>) (db_users d),
       db_households := row_delete hh_id i (db_households d),
       db_members := row_delete mb_household_id i (db_members d),
       db_invitations := row_delete iv_household_id i (db_invitations d),
       db_categories := row_delete ct_household_id i (db_categories d),
       db_transactions := row_delete tx_household_id i (db_transactions d),
       db_holdings := row_delete hd_household_id i (db_holdings d),
       db_patch_logs := row_delete pl_household_id i (db_patch_logs d)\<rparr>"

definition delete_if_orphan :: "pystr \<Rightarrow> db \<Rightarrow> db" where
  "delete_if_orphan i d =
     (if i \<in> mb_household_id ` set (db_members d) \<or> i \<notin> hh_id ` set (db_households d) then d
      else delete_household_row i d)"

definition delete_user_and_orphan_households :: "auth_db \<Rightarrow> user \<Rightarrow> auth_db" where
  "delete_user_and_orphan_households ad u =
     (let d = ad_db ad;
          household_ids = filter (\<lambda>h. h \<noteq> []) (map (\<lambda>m. py_strip (mb_household_id m))
            (filter (\<lambda>m. mb_user_id m = us_id u) (db_members d)))
      in ad\<lparr>ad_db := fold delete_if_orphan (remdups household_ids) (delete_user_row (us_id u) d),
            ad_tokens := row_delete vt_user_id (us_id u) (ad_tokens ad)\<rparr>)"

subsection \<open>Verification tokens\<close>

definition hash_verification_code :: "env \<Rightarrow> pystr \<Rightarrow> pystr \<Rightarrow> pystr \<Rightarrow> pystr" where
  "hash_verification_code ev token_row_id user_id code =
     hash_opaque_token ev (lit ''email-code:'' @ token_row_id @ lit '':'' @ user_id @ lit '':'' @ code)"

definition consume_pending :: "(verification_token \<Rightarrow> bool) \<Rightarrow> instant \<Rightarrow> verification_token list \<Rightarrow> verification_token list" where
  "consume_pending hit now rows =
     map (\<lambda>t. if hit t \<and> vt_consumed_at t = None then t\<lparr>vt_consumed_at := Some now\<rparr> else t) rows"

definition verification_minutes :: "auth_settings \<Rightarrow> int" where
  "verification_minutes ss = max 5 (as_verification_minutes ss)"

text \<open>
  Three tries; a clash of \<open>token_hash\<close> rolls the savepoint back and draws again, another clash
  (the row identifier, the missing user) is not caught.
\<close>

fun issue_verification_token ::
  "(pystr \<times> pystr \<times> pystr) list \<Rightarrow> env \<Rightarrow> auth_settings \<Rightarrow> user \<Rightarrow> pystr option \<Rightarrow> pystr option \<Rightarrow> pystr option
   \<Rightarrow> auth_db \<Rightarrow> http_error + (pystr \<times> pystr \<times> instant \<times> auth_db)" where
  "issue_verification_token [] ev ss u pw name cont ad = Inl (AppError 503 ''AUTH_VERIFICATION_TOKEN_ISSUE_FAILED'')"
| "issue_verification_token ((raw_token, code, row_id) # redraws) ev ss u pw name cont ad =
     (let now = ev_now ev;
          token_hash = hash_opaque_token ev raw_token;
          expires_at = now + seconds (verification_minutes ss * 60);
          rows = consume_pending (\<lambda>t. vt_user_id t = us_id u) now (ad_tokens ad);
          row = \<lparr>vt_id = row_id, vt_user_id = us_id u, vt_token_hash = token_hash,
                 vt_verification_code_hash = Some (hash_verification_code ev row_id (us_id u) code),
                 vt_pending_password_hash = pw, vt_pending_display_name = name,
                 vt_registration_continuation_hash = cont, vt_sent_to = us_email u,
                 vt_expires_at = expires_at, vt_consumed_at = None, vt_created_at = ev_db_now ev\<rparr>
      in if row_id \<in> vt_id ` set rows then Inl ServerError
         else if token_hash \<in> vt_token_hash ` set rows then issue_verification_token redraws ev ss u pw name cont ad
         else if us_id u \<notin> us_id ` set (db_users (ad_db ad)) then Inl ServerError
         else Inr (raw_token, code, expires_at, ad\<lparr>ad_tokens := rows @ [row]\<rparr>))"

text \<open>The state after a mail that had to be sent was not; \<open>None\<close>: nothing to raise.\<close>

definition raise_if_smtp_delivery_failed ::
  "env \<Rightarrow> bool \<Rightarrow> pystr \<Rightarrow> pystr option \<Rightarrow> auth_db \<Rightarrow> auth_db option" where
  "raise_if_smtp_delivery_failed ev sent raw_token cleanup_unverified_user_id ad =
     (if sent \<or> \<not> ev_blocks_email_failures ev then None
      else
        (let ad1 = (if raw_token = [] then ad
                    else ad\<lparr>ad_tokens := consume_pending (\<lambda>t. vt_token_hash t = hash_opaque_token ev raw_token)
                              (ev_now ev) (ad_tokens ad)\<rparr>)
         in Some (case cleanup_unverified_user_id of
                    None \<Rightarrow> ad1
                  | Some i \<Rightarrow>
                      (case row_get us_id i (db_users (ad_db ad1)) of
                         None \<Rightarrow> ad1
                       | Some u \<Rightarrow> (if us_email_verified u then ad1 else delete_user_and_orphan_households ad1 u)))))"

definition verification_response :: "env \<Rightarrow> pystr \<Rightarrow> instant \<Rightarrow> register_response" where
  "verification_response ev email expires_at =
     \<lparr>rr_registered = False, rr_email = email,
      rr_expires_in_seconds = Some (max 0 (timestamp (expires_at - ev_now ev))), rr_user = None\<rparr>"

definition resend_ack_response :: "auth_settings \<Rightarrow> pystr \<Rightarrow> register_response" where
  "resend_ack_response ss email =
     \<lparr>rr_registered = False, rr_email = email,
      rr_expires_in_seconds = Some (verification_minutes ss * 60), rr_user = None\<rparr>"

subsection \<open>Signing up\<close>

record register_request =
  gq_email :: pystr
  gq_password :: pystr
  gq_display_name :: pystr
  gq_remember_me :: bool

text \<open>The limits on lengths and the validator of \<open>RegisterRequest\<close>; \<open>EmailStr\<close> is checked by its library.\<close>

definition validate_register_request :: "register_request \<Rightarrow> register_request option" where
  "validate_register_request p =
     (let name = py_strip (gq_display_name p)
      in if 8 \<le> length (gq_password p) \<and> length (gq_password p) \<le> 128
            \<and> 1 \<le> length (gq_display_name p) \<and> length (gq_display_name p) \<le> 120 \<and> name \<noteq> []
         then Some (p\<lparr>gq_display_name := name\<rparr>) else None)"

definition email_already_exists :: http_error where
  "email_already_exists = AppError 409 ''AUTH_EMAIL_ALREADY_EXISTS''"

definition new_registered_user ::
  "(nat \<Rightarrow> pystr \<Rightarrow> pystr) \<Rightarrow> auth_settings \<Rightarrow> env \<Rightarrow> draws \<Rightarrow> register_request \<Rightarrow> user" where
  "new_registered_user hash_password ss ev dw p =
     (let name = py_strip (gq_display_name p);
          required = as_verification_required ss
      in sync_user_display_name
           \<lparr>us_id = dw_user_id dw, us_email = py_lower (gq_email p),
            us_password_hash = (if required then hash_password 1 (dw_unused_password dw) else hash_password 0 (gq_password p)),
            us_real_name = Some name, us_nickname = None, us_display_name_mode = lit (mode_value Mode_real_name),
            us_display_name = name, us_email_verified = \<not> required,
            us_email_verified_at = (if required then None else Some (ev_now ev)),
            us_active_household_id = None, us_created_at = ev_db_now ev\<rparr>)"

text \<open>
  The account the request goes on with: whether it is new, its row, and the state it is written
  to.  \<open>Inl\<close> has the state after the rollback.
\<close>

definition register_account ::
  "(nat \<Rightarrow> pystr \<Rightarrow> pystr) \<Rightarrow> auth_settings \<Rightarrow> env \<Rightarrow> draws \<Rightarrow> (auth_db \<Rightarrow> auth_db) \<Rightarrow> register_request \<Rightarrow> user option
   \<Rightarrow> auth_db \<Rightarrow> (auth_db \<times> http_error) + (bool \<times> user \<times> auth_db)" where
  "register_account hash_password ss ev dw race p existing ad =
     (case existing of
        None \<Rightarrow>
          (let u = new_registered_user hash_password ss ev dw p;
               ad1 = race ad;
               users = db_users (ad_db ad1)
           in if us_email u \<in> us_email ` set users \<or> us_id u \<in> us_id ` set users
              then Inl (ad1, email_already_exists) else Inr (True, u, ad1))
      | Some u \<Rightarrow>
          (if us_active_household_id u = None
           then (case row_get us_id (us_id u) (db_users (ad_db (race ad))) of
                   None \<Rightarrow> Inl (race ad, ServerError)
                 | Some locked \<Rightarrow> Inr (False, locked, race ad))
           else Inr (False, u, ad)))"

text \<open>The account with its new name and its household, not yet committed.\<close>

definition register_household ::
  "auth_settings \<Rightarrow> env \<Rightarrow> draws \<Rightarrow> register_request \<Rightarrow> bool \<Rightarrow> user \<Rightarrow> auth_db \<Rightarrow> http_error + auth_db" where
  "register_household ss ev dw p created u ad =
     (let u1 = apply_registration_real_name u (gq_display_name p);
          d = ad_db ad;
          d1 = (if created then set_users (db_users d @ [u1]) d
                else set_users (row_update us_id (us_id u) (\<lambda>_. u1) (db_users d)) d);
          late = (if as_verification_required ss then ServerError else email_already_exists)
      in map_sum id (\<lambda>d2. ad\<lparr>ad_db := d2\<rparr>) (ensure_default_household_membership ev dw late u1 d1))"

text \<open>Without verification: the credentials are final at once.\<close>

definition finalized_user ::
  "(nat \<Rightarrow> pystr \<Rightarrow> pystr) \<Rightarrow> env \<Rightarrow> register_request \<Rightarrow> user \<Rightarrow> user" where
  "finalized_user hash_password ev p u =
     (let u1 = apply_registration_real_name (u\<lparr>us_password_hash := hash_password 2 (gq_password p)\<rparr>) (gq_display_name p)
      in u1\<lparr>us_email_verified := True,
            us_email_verified_at := (case us_email_verified_at u1 of None \<Rightarrow> Some (ev_now ev) | Some t \<Rightarrow> Some t)\<rparr>)"

definition register_finalize ::
  "(nat \<Rightarrow> pystr \<Rightarrow> pystr) \<Rightarrow> auth_settings \<Rightarrow> env \<Rightarrow> pystr \<Rightarrow> pystr \<Rightarrow> register_request \<Rightarrow> pystr \<Rightarrow> auth_db \<Rightarrow> auth_db
   \<Rightarrow> register_response mail_outcome" where
  "register_finalize hash_password ss ev access_jti refresh_jti p i base ad =
     (case row_get us_id i (db_users (ad_db ad)) of
        None \<Rightarrow> ([], auth_fail base ServerError)
      | Some u \<Rightarrow>
          (let u1 = finalized_user hash_password ev p u;
               (access, refresh) = session_claims ss (ev_now ev) access_jti refresh_jti i (gq_remember_me p)
           in ([], auth_ok (ad\<lparr>ad_db := set_users (row_update us_id i (\<lambda>_. u1) (db_users (ad_db ad))) (ad_db ad)\<rparr>)
                     [Set_auth_cookies access refresh (gq_remember_me p)]
                     \<lparr>rr_registered = True, rr_email = us_email u1, rr_expires_in_seconds = None,
                      rr_user = Some (to_user_read u1)\<rparr>)))"

definition register_send ::
  "(nat \<Rightarrow> pystr \<Rightarrow> pystr) \<Rightarrow> (verification_mail \<Rightarrow> bool) \<Rightarrow> auth_settings \<Rightarrow> env \<Rightarrow> draws \<Rightarrow> register_request \<Rightarrow> bool \<Rightarrow> user
   \<Rightarrow> auth_db \<Rightarrow> auth_db \<Rightarrow> register_response mail_outcome" where
  "register_send hash_password deliver ss ev dw p created u base ad =
     (case issue_verification_token (take 3 (dw_tokens dw)) ev ss u (Some (hash_password 0 (gq_password p)))
             (Some (py_strip (gq_display_name p))) (Some (hash_opaque_token ev (dw_continuation dw))) ad of
        Inl e \<Rightarrow> ([], auth_fail base e)
      | Inr (raw_token, code, expires_at, ad1) \<Rightarrow>
          (let mail = \<lparr>vm_to = us_email u, vm_token = raw_token, vm_code = code\<rparr>
           in ([mail],
               case raise_if_smtp_delivery_failed ev (deliver mail) raw_token (if created then Some (us_id u) else None) ad1 of
                 Some ad2 \<Rightarrow> auth_fail ad2 (AppError 503 ''AUTH_EMAIL_DELIVERY_FAILED'')
               | None \<Rightarrow> auth_ok ad1 [Set_registration_continuation (dw_continuation dw) expires_at, Clear_auth_cookies]
                           (verification_response ev (us_email u) expires_at))))"

definition unverified_expired :: "auth_settings \<Rightarrow> instant \<Rightarrow> user \<Rightarrow> bool" where
  "unverified_expired ss now u \<longleftrightarrow> us_created_at u + seconds (max 1 (as_unverified_ttl_hours ss) * 3600) < now"

definition register_checked ::
  "(nat \<Rightarrow> pystr \<Rightarrow> pystr) \<Rightarrow> (verification_mail \<Rightarrow> bool) \<Rightarrow> auth_settings \<Rightarrow> env \<Rightarrow> draws \<Rightarrow> (auth_db \<Rightarrow> auth_db)
   \<Rightarrow> pystr \<Rightarrow> pystr \<Rightarrow> auth_db \<Rightarrow> register_request \<Rightarrow> register_response mail_outcome" where
  "register_checked hash_password deliver ss ev dw race access_jti refresh_jti ad p =
     (let found = user_by_email ev ad (py_lower (gq_email p))
      in if case found of Some u \<Rightarrow> us_email_verified u | None \<Rightarrow> False then ([], auth_fail ad email_already_exists)
         else
           (let (existing, ad1) =
              (case found of
                 None \<Rightarrow> (None, ad)
               | Some u \<Rightarrow> (if unverified_expired ss (ev_now ev) u then (None, delete_user_and_orphan_households ad u)
                           else (Some u, ad)))
            in case register_account hash_password ss ev dw race p existing ad1 of
                 Inl (base, e) \<Rightarrow> ([], auth_fail base e)
               | Inr (created, u, base) \<Rightarrow>
                   (case register_household ss ev dw p created u base of
                      Inl e \<Rightarrow> ([], auth_fail base e)
                    | Inr ad2 \<Rightarrow>
                        (if \<not> as_verification_required ss
                         then register_finalize hash_password ss ev access_jti refresh_jti p (us_id u) base ad2
                         else register_send hash_password deliver ss ev dw p created u base ad2))))"

definition register ::
  "(nat \<Rightarrow> pystr \<Rightarrow> pystr) \<Rightarrow> (verification_mail \<Rightarrow> bool) \<Rightarrow> auth_settings \<Rightarrow> env \<Rightarrow> draws \<Rightarrow> (auth_db \<Rightarrow> auth_db)
   \<Rightarrow> pystr \<Rightarrow> pystr \<Rightarrow> pystr option \<Rightarrow> auth_db \<Rightarrow> register_request \<Rightarrow> register_response mail_outcome" where
  "register hash_password deliver ss ev dw race access_jti refresh_jti client_ip ad p =
     (let now = ev_now ev
      in case consume_register_attempt ss race (register_attempt_key (py_lower (gq_email p)) client_ip) now None ad of
           (Some e, ad1) \<Rightarrow> ([], auth_fail ad1 e)
         | (None, ad1) \<Rightarrow>
             (case (if should_enforce_ip_global_auth_throttle ss
                    then consume_register_attempt ss race (register_ip_attempt_key client_ip) now
                           (Some (register_ip_max_attempts ss)) ad1
                    else (None, ad1)) of
                (Some e, ad2) \<Rightarrow> ([], auth_fail ad2 e)
              | (None, ad2) \<Rightarrow>
                  (if as_strict_email ss \<and> \<not> as_verification_required ss
                   then ([], auth_fail ad2 (AppError 503 ''AUTH_EMAIL_VERIFICATION_CONFIG_INVALID''))
                   else register_checked hash_password deliver ss ev dw race access_jti refresh_jti ad2 p)))"

subsection \<open>Proving the mail\<close>

record verify_request =
  vq_token :: "pystr option"
  vq_email :: "pystr option"
  vq_code :: "pystr option"
  vq_password :: "pystr option"
  vq_display_name :: "pystr option"
  vq_remember_me :: bool

definition within_length :: "nat \<Rightarrow> nat \<Rightarrow> pystr option \<Rightarrow> bool" where
  "within_length lo hi v = (case v of None \<Rightarrow> True | Some s \<Rightarrow> lo \<le> length s \<and> length s \<le> hi)"

text \<open>The validators of \<open>VerifyEmailRequest\<close>; \<open>EmailStr\<close> is checked by its library.\<close>

definition validate_verify_request :: "verify_request \<Rightarrow> verify_request option" where
  "validate_verify_request p =
     (let p1 = p\<lparr>vq_token := normalize_optional_text (vq_token p), vq_code := normalize_optional_text (vq_code p),
                 vq_display_name := map_option py_strip (vq_display_name p)\<rparr>;
          has_token = (vq_token p1 \<noteq> None);
          has_email = truthy_text (vq_email p1);
          has_code = (vq_code p1 \<noteq> None)
      in if within_length 12 512 (vq_token p1) \<and> within_length 6 6 (vq_code p1)
            \<and> (case vq_code p1 of None \<Rightarrow> True | Some c \<Rightarrow> list_all digit_cp c)
            \<and> within_length 8 128 (vq_password p) \<and> within_length 1 120 (vq_display_name p)
            \<and> vq_display_name p1 \<noteq> Some []
            \<and> \<not> (has_token \<and> (has_email \<or> has_code)) \<and> (has_token \<or> has_email \<and> has_code)
         then Some p1 else None)"

definition token_invalid :: http_error where
  "token_invalid = AppError 400 ''AUTH_VERIFICATION_TOKEN_INVALID''"

definition code_invalid :: http_error where
  "code_invalid = AppError 400 ''AUTH_VERIFICATION_CODE_INVALID''"

definition set_consumed :: "pystr \<Rightarrow> instant \<Rightarrow> auth_db \<Rightarrow> auth_db" where
  "set_consumed row_id now ad =
     ad\<lparr>ad_tokens := row_update vt_id row_id (\<lambda>t. t\<lparr>vt_consumed_at := Some now\<rparr>) (ad_tokens ad)\<rparr>"

definition pending_verification_by_token ::
  "env \<Rightarrow> auth_db \<Rightarrow> pystr \<Rightarrow> (auth_db \<times> http_error) + verification_token" where
  "pending_verification_by_token ev ad raw_token =
     (case row_get vt_token_hash (hash_opaque_token ev raw_token) (ad_tokens ad) of
        None \<Rightarrow> Inl (ad, token_invalid)
      | Some t \<Rightarrow>
          (if vt_consumed_at t \<noteq> None then Inl (ad, token_invalid)
           else if vt_expires_at t < ev_now ev
           then Inl (set_consumed (vt_id t) (ev_now ev) ad, AppError 400 ''AUTH_VERIFICATION_TOKEN_EXPIRED'')
           else Inr t))"

fun newest :: "verification_token list \<Rightarrow> verification_token option" where
  "newest [] = None"
| "newest (t # ts) =
     (case newest ts of None \<Rightarrow> Some t | Some s \<Rightarrow> if vt_created_at t < vt_created_at s then Some s else Some t)"

definition latest_pending_verification_for_user :: "auth_db \<Rightarrow> pystr \<Rightarrow> verification_token option" where
  "latest_pending_verification_for_user ad i =
     newest (filter (\<lambda>t. vt_user_id t = i \<and> vt_consumed_at t = None) (ad_tokens ad))"

definition latest_verification_for_user :: "auth_db \<Rightarrow> pystr \<Rightarrow> verification_token option" where
  "latest_verification_for_user ad i = newest (filter (\<lambda>t. vt_user_id t = i) (ad_tokens ad))"

text \<open>The attempt is counted before the code is looked at; the row is read again after it.\<close>

definition pending_verification_by_code ::
  "auth_settings \<Rightarrow> env \<Rightarrow> (auth_db \<Rightarrow> auth_db) \<Rightarrow> pystr option \<Rightarrow> auth_db \<Rightarrow> pystr \<Rightarrow> pystr
   \<Rightarrow> (auth_db \<times> http_error) + (verification_token \<times> auth_db)" where
  "pending_verification_by_code ss ev race client_ip ad email code =
     (let user = user_by_email ev ad (py_lower email);
          row = (case user of None \<Rightarrow> None | Some u \<Rightarrow> latest_pending_verification_for_user ad (us_id u))
      in case consume_verification_code_attempts ss race (py_lower email) (map_option vt_id row) client_ip (ev_now ev) ad of
           (Some e, ad1) \<Rightarrow> Inl (ad1, e)
         | (None, ad1) \<Rightarrow>
             (case (user, row) of
                (Some u, Some t0) \<Rightarrow>
                  (case row_get vt_id (vt_id t0) (ad_tokens ad1) of
                     None \<Rightarrow> Inl (ad1, code_invalid)
                   | Some t \<Rightarrow>
                       (if vt_consumed_at t \<noteq> None then Inl (ad1, code_invalid)
                        else if vt_expires_at t < ev_now ev
                        then Inl (set_consumed (vt_id t) (ev_now ev) ad1, AppError 400 ''AUTH_VERIFICATION_CODE_EXPIRED'')
                        else if truthy_text (vt_verification_code_hash t)
                                \<and> vt_verification_code_hash t = Some (hash_verification_code ev (vt_id t) (us_id u) code)
                        then Inr (t, ad1) else Inl (ad1, code_invalid)))
              | _ \<Rightarrow> Inl (ad1, code_invalid)))"

text \<open>The password hash the account gets; \<open>None\<close> with the error when nothing proves one.\<close>

definition proven_password_hash ::
  "(nat \<Rightarrow> pystr \<Rightarrow> pystr) \<Rightarrow> env \<Rightarrow> http_request \<Rightarrow> verification_token \<Rightarrow> pystr option \<Rightarrow> http_error + pystr" where
  "proven_password_hash hash_password ev rq t password =
     (let pending = text_of (vt_pending_password_hash t)
      in if pending \<noteq> [] then
           (if registration_continuation_matches ev rq t then Inr pending
            else if truthy_text password then Inr (hash_password 0 (the password))
            else Inl (AppError 409 ''AUTH_REGISTRATION_PASSWORD_SETUP_REQUIRED''))
         else if truthy_text password then Inr (hash_password 0 (the password))
         else Inl (AppError 400 ''AUTH_VERIFICATION_PASSWORD_REQUIRED''))"

text \<open>The columns of the row that the unit of work found changed.\<close>

definition flush_user :: "user \<Rightarrow> user \<Rightarrow> user \<Rightarrow> user" where
  "flush_user old new r =
     (let col = (\<lambda>f. if f new = f old then f r else f new :: pystr);
          opt = (\<lambda>f. if f new = f old then f r else f new :: pystr option)
      in r\<lparr>us_password_hash := col us_password_hash, us_real_name := opt us_real_name, us_nickname := opt us_nickname,
           us_display_name_mode := col us_display_name_mode, us_display_name := col us_display_name,
           us_email_verified := (if us_email_verified new = us_email_verified old then us_email_verified r else us_email_verified new),
           us_email_verified_at := (if us_email_verified_at new = us_email_verified_at old then us_email_verified_at r
                                    else us_email_verified_at new),
           us_active_household_id := opt us_active_household_id\<rparr>)"

definition verified_user :: "instant \<Rightarrow> db \<Rightarrow> verification_token \<Rightarrow> pystr option \<Rightarrow> pystr \<Rightarrow> user \<Rightarrow> user" where
  "verified_user now d t request_name password_hash u =
     (let u1 = u\<lparr>us_password_hash := password_hash\<rparr>;
          name = py_strip (case vt_pending_display_name t of
                   Some n \<Rightarrow> if n = [] then (case request_name of Some r \<Rightarrow> r | None \<Rightarrow> []) else n
                 | None \<Rightarrow> (case request_name of Some r \<Rightarrow> r | None \<Rightarrow> []));
          u2 = (if name \<noteq> [] then apply_registration_real_name u1 name else u1);
          u3 = u2\<lparr>us_email_verified := True, us_email_verified_at := Some now\<rparr>
      in if us_active_household_id u3 = None
         then (case find (\<lambda>m. mb_user_id m = us_id u) (db_members d) of
                 Some m \<Rightarrow> u3\<lparr>us_active_household_id := Some (mb_household_id m)\<rparr>
               | None \<Rightarrow> u3)
         else u3)"

text \<open>After the token was found: \<open>race\<close> commits until its row is consumed.\<close>

definition verify_with ::
  "(nat \<Rightarrow> pystr \<Rightarrow> pystr) \<Rightarrow> auth_settings \<Rightarrow> env \<Rightarrow> (auth_db \<Rightarrow> auth_db) \<Rightarrow> pystr \<Rightarrow> pystr \<Rightarrow> http_error
   \<Rightarrow> verification_token \<Rightarrow> auth_db \<Rightarrow> http_request \<Rightarrow> verify_request \<Rightarrow> user_read auth_outcome" where
  "verify_with hash_password ss ev race access_jti refresh_jti invalid t ad rq p =
     (case row_get us_id (vt_user_id t) (db_users (ad_db ad)) of
        None \<Rightarrow> auth_fail ad (AppError 404 ''AUTH_USER_NOT_FOUND'')
      | Some u \<Rightarrow>
          (if us_email_verified u then auth_fail ad invalid
           else case proven_password_hash hash_password ev rq t (vq_password p) of
                  Inl e \<Rightarrow> auth_fail ad e
                | Inr password_hash \<Rightarrow>
                    (let ad1 = race ad;
                         now = ev_now ev
                     in if length (filter (\<lambda>x. vt_id x = vt_id t \<and> vt_consumed_at x = None) (ad_tokens ad1)) \<noteq> 1
                        then auth_fail ad1 invalid
                        else
                          (let ad2 = ad1\<lparr>ad_tokens := consume_pending (\<lambda>x. vt_id x = vt_id t) now (ad_tokens ad1)\<rparr>;
                               u1 = verified_user now (ad_db ad2) t (vq_display_name p) password_hash u
                           in case row_get us_id (us_id u) (db_users (ad_db ad2)) of
                                None \<Rightarrow> auth_fail ad1 ServerError
                              | Some r \<Rightarrow>
                                  (let r1 = flush_user u u1 r;
                                       d = set_users (row_update us_id (us_id u) (\<lambda>_. r1) (db_users (ad_db ad2))) (ad_db ad2);
                                       (access, refresh) = session_claims ss now access_jti refresh_jti (us_id u) (vq_remember_me p)
                                   in auth_ok (ad2\<lparr>ad_db := d\<rparr>)
                                        [Set_auth_cookies access refresh (vq_remember_me p), Clear_registration_continuation]
                                        (to_user_read r1))))))"

definition verify_email ::
  "(nat \<Rightarrow> pystr \<Rightarrow> pystr) \<Rightarrow> auth_settings \<Rightarrow> env \<Rightarrow> (auth_db \<Rightarrow> auth_db) \<Rightarrow> pystr \<Rightarrow> pystr \<Rightarrow> pystr option
   \<Rightarrow> auth_db \<Rightarrow> http_request \<Rightarrow> verify_request \<Rightarrow> user_read auth_outcome" where
  "verify_email hash_password ss ev race access_jti refresh_jti client_ip ad rq p =
     (case verify_allowed_origin (as_config ss) rq False of
        Some e \<Rightarrow> auth_fail ad e
      | None \<Rightarrow>
          (if truthy_text (vq_token p) then
             (case pending_verification_by_token ev ad (the (vq_token p)) of
                Inl (ad1, e) \<Rightarrow> auth_fail ad1 e
              | Inr t \<Rightarrow> verify_with hash_password ss ev race access_jti refresh_jti token_invalid t ad rq p)
           else
             (case pending_verification_by_code ss ev race client_ip ad
                     (case vq_email p of Some e \<Rightarrow> e | None \<Rightarrow> []) (case vq_code p of Some c \<Rightarrow> c | None \<Rightarrow> []) of
                Inl (ad1, e) \<Rightarrow> auth_fail ad1 e
              | Inr (t, ad1) \<Rightarrow> verify_with hash_password ss ev race access_jti refresh_jti code_invalid t ad1 rq p)))"

subsection \<open>Another mail\<close>

text \<open>
  What the new token takes over from the last one: the pending password and name, the hash of the
  continuation, and whether the browser gets a new secret; \<open>None\<close>: the pending password has no
  continuation, and nothing is sent.
\<close>

definition resend_credentials ::
  "env \<Rightarrow> draws \<Rightarrow> http_request \<Rightarrow> verification_token option \<Rightarrow> (pystr option \<times> pystr option \<times> pystr option \<times> bool) option" where
  "resend_credentials ev dw rq source =
     (case source of
        None \<Rightarrow> Some (None, None, None, False)
      | Some t \<Rightarrow>
          (let pw = normalize_optional_text (vt_pending_password_hash t);
               name = normalize_optional_text (vt_pending_display_name t);
               previous = text_of (vt_registration_continuation_hash t)
           in if pw = None then Some (None, name, None, False)
              else if previous = [] then None
              else if registration_continuation_matches ev rq t
              then Some (pw, name, Some (hash_opaque_token ev (dw_continuation dw)), True)
              else Some (pw, name, Some previous, False)))"

definition resend_send ::
  "(verification_mail \<Rightarrow> bool) \<Rightarrow> auth_settings \<Rightarrow> env \<Rightarrow> draws \<Rightarrow> http_request \<Rightarrow> pystr \<Rightarrow> user \<Rightarrow> auth_db \<Rightarrow> register_response mail_outcome" where
  "resend_send deliver ss ev dw rq email u ad =
     (let ack = resend_ack_response ss email;
          latest = latest_pending_verification_for_user ad (us_id u);
          cooldown = max 0 (as_resend_cooldown_seconds ss);
          source = (case latest of Some t \<Rightarrow> Some t | None \<Rightarrow> latest_verification_for_user ad (us_id u))
      in if case latest of Some t \<Rightarrow> vt_created_at t + seconds cooldown > ev_now ev | None \<Rightarrow> False
         then ([], auth_ok ad [Clear_auth_cookies] ack)
         else
           (case resend_credentials ev dw rq source of
              None \<Rightarrow> ([], auth_ok ad [Clear_auth_cookies, Clear_registration_continuation] ack)
            | Some (pw, name, cont, fresh) \<Rightarrow>
                (case issue_verification_token (take 3 (dw_tokens dw)) ev ss u pw name cont ad of
                   Inl e \<Rightarrow> ([], auth_fail ad e)
                 | Inr (raw_token, code, expires_at, ad1) \<Rightarrow>
                     (let mail = \<lparr>vm_to = us_email u, vm_token = raw_token, vm_code = code\<rparr>
                      in ([mail],
                          case raise_if_smtp_delivery_failed ev (deliver mail) raw_token None ad1 of
                            Some ad2 \<Rightarrow> auth_fail ad2 (AppError 503 ''AUTH_EMAIL_DELIVERY_FAILED'')
                          | None \<Rightarrow>
                              auth_ok ad1 ((if fresh then [Set_registration_continuation (dw_continuation dw) expires_at] else [])
                                           @ [Clear_auth_cookies])
                                (verification_response ev (us_email u) expires_at))))))"

definition resend_verification ::
  "(verification_mail \<Rightarrow> bool) \<Rightarrow> auth_settings \<Rightarrow> env \<Rightarrow> draws \<Rightarrow> (auth_db \<Rightarrow> auth_db) \<Rightarrow> pystr option \<Rightarrow> auth_db
   \<Rightarrow> http_request \<Rightarrow> pystr \<Rightarrow> register_response mail_outcome" where
  "resend_verification deliver ss ev dw race client_ip ad rq email =
     (let now = ev_now ev
      in case consume_resend_attempt ss race (resend_attempt_key (py_lower email) client_ip) now None ad of
           (Some e, ad1) \<Rightarrow> ([], auth_fail ad1 e)
         | (None, ad1) \<Rightarrow>
             (case (if should_enforce_ip_global_auth_throttle ss
                    then consume_resend_attempt ss race (resend_ip_attempt_key client_ip) now
                           (Some (resend_ip_max_attempts ss)) ad1
                    else (None, ad1)) of
                (Some e, ad2) \<Rightarrow> ([], auth_fail ad2 e)
              | (None, ad2) \<Rightarrow>
                  (case user_by_email ev ad2 (py_lower email) of
                     None \<Rightarrow> ([], auth_ok ad2 [Clear_auth_cookies] (resend_ack_response ss (py_lower email)))
                   | Some u \<Rightarrow>
                       (if us_email_verified u
                        then ([], auth_ok ad2 [Clear_auth_cookies] (resend_ack_response ss (py_lower email)))
                        else resend_send deliver ss ev dw rq (py_lower email) u (race ad2)))))"

subsection \<open>What counting an attempt keeps\<close>

lemma count_register_keeps:
  assumes "\<And>y. P y \<Longrightarrow> P (race y)" "\<And>y rs. P y \<Longrightarrow> P (y\<lparr>ad_register := rs\<rparr>)"
  shows "P before \<Longrightarrow> P ad \<Longrightarrow>
    (case count_register_attempt n race c key now before ad of Inl x \<Rightarrow> P x | Inr x \<Rightarrow> P x)"
  by (induction n arbitrary: before ad) (use assms in auto)

lemma attempt_keeps:
  assumes "P ad" "\<And>y. P y \<Longrightarrow> P (race y)" "\<And>y rs. P y \<Longrightarrow> P (y\<lparr>ad_register := rs\<rparr>)"
    and "\<And>y. P y \<Longrightarrow> P (maybe_cleanup_auth_artifacts ss now y)"
  shows "P (snd (consume_register_throttle_attempt ss race key now m limited unavailable ad))"
proof -
  have k: "case count_register_attempt 4 race (now - register_window ss) key now ad (maybe_cleanup_auth_artifacts ss now ad) of
      Inl x \<Rightarrow> P x | Inr x \<Rightarrow> P x"
    by (rule count_register_keeps [where P = P]) (use assms in auto)
  show ?thesis
    using k unfolding consume_register_throttle_attempt_def Let_def
    by (auto split: sum.splits option.splits)
qed

lemma code_attempts_keep:
  assumes "P ad" "\<And>y. P y \<Longrightarrow> P (race y)" "\<And>y rs. P y \<Longrightarrow> P (y\<lparr>ad_register := rs\<rparr>)"
    and "\<And>y. P y \<Longrightarrow> P (maybe_cleanup_auth_artifacts ss now y)"
  shows "P (snd (consume_verification_code_attempts ss race email ch ip now ad))"
proof -
  have k: "P x \<Longrightarrow> P (snd (consume_verification_code_attempt ss race key now m x))" for x key m
    unfolding consume_verification_code_attempt_def by (rule attempt_keeps [where P = P]) (use assms in auto)
  obtain e1 x1 where 1: "consume_verification_code_attempt ss race (verification_code_email_attempt_key email) now None ad = (e1, x1)"
    by fastforce
  with k [OF assms(1)] have P1: "P x1" by (metis snd_conv)
  define c2 where "c2 = (case ch of Some c \<Rightarrow> if c = [] then (None, x1)
      else consume_verification_code_attempt ss race (verification_code_challenge_attempt_key c) now None x1 | None \<Rightarrow> (None, x1))"
  obtain e2 x2 where 2: "c2 = (e2, x2)" by fastforce
  have "P (snd c2)" unfolding c2_def by (auto split: option.split intro: k P1)
  with 2 have P2: "P x2" by simp
  have "P (snd (case e2 of Some e \<Rightarrow> (Some e, x2) | None \<Rightarrow> if should_enforce_ip_global_auth_throttle ss
      then consume_verification_code_attempt ss race (verification_code_ip_attempt_key ip) now (Some verification_code_ip_max_attempts) x2
      else (None, x2)))"
    by (auto split: option.split intro: k P2)
  then show ?thesis
    unfolding consume_verification_code_attempts_def 1 using P1
    by (cases e1) (simp_all add: c2_def [symmetric] 2 split: option.split option.split_asm)
qed

subsection \<open>The invariant of the account tables\<close>

definition tokens_inv :: "verification_token list \<Rightarrow> bool" where
  "tokens_inv rows \<longleftrightarrow> unique_keys vt_id rows \<and> unique_keys vt_token_hash rows
     \<and> unique_keys vt_user_id (filter (\<lambda>t. vt_consumed_at t = None) rows)"

definition users_inv :: "user list \<Rightarrow> bool" where
  "users_inv rows \<longleftrightarrow> unique_keys us_id rows \<and> unique_keys us_email rows"

definition auth_inv :: "(pystr \<Rightarrow> pystr) \<Rightarrow> auth_db \<Rightarrow> bool" where
  "auth_inv lower ad \<longleftrightarrow> household_inv lower (ad_db ad) \<and> users_inv (db_users (ad_db ad)) \<and> tokens_inv (ad_tokens ad)"

lemma auth_inv_register [simp]: "auth_inv lower (ad\<lparr>ad_register := rs\<rparr>) = auth_inv lower ad"
  by (simp add: auth_inv_def)

lemma auth_inv_cleanup [simp]: "auth_inv lower (maybe_cleanup_auth_artifacts ss now ad) = auth_inv lower ad"
  by (simp add: auth_inv_def maybe_cleanup_auth_artifacts_def Let_def household_inv_def)

lemma tokens_inv_map:
  assumes "tokens_inv rows" "\<And>t. vt_id (f t) = vt_id t \<and> vt_token_hash (f t) = vt_token_hash t \<and> vt_user_id (f t) = vt_user_id t"
    and "\<And>t. vt_consumed_at (f t) = None \<Longrightarrow> vt_consumed_at t = None"
  shows "tokens_inv (map f rows)"
proof -
  have "map vt_id (map f rows) = map vt_id rows" "map vt_token_hash (map f rows) = map vt_token_hash rows"
    using assms(2) by simp_all
  moreover have "distinct (map vt_user_id (filter (\<lambda>t. vt_consumed_at t = None) (map f rows)))"
    by (rule distinct_map_filter_weaken [where p = "\<lambda>t. vt_consumed_at t = None"])
      (use assms in \<open>auto simp: tokens_inv_def unique_keys_def\<close>)
  ultimately show ?thesis using assms(1) unfolding tokens_inv_def unique_keys_def by (simp del: map_map)
qed

lemma tokens_inv_consume: "tokens_inv rows \<Longrightarrow> tokens_inv (consume_pending hit now rows)"
  unfolding consume_pending_def by (rule tokens_inv_map) (auto split: if_splits)

lemma tokens_inv_set_consumed: "tokens_inv (ad_tokens ad) \<Longrightarrow> tokens_inv (ad_tokens (set_consumed i now ad))"
  unfolding set_consumed_def row_update_def by (simp, rule tokens_inv_map) (auto split: if_splits)

lemma tokens_inv_filter: "tokens_inv rows \<Longrightarrow> tokens_inv (filter p rows)"
proof -
  assume a: "tokens_inv rows"
  have "filter (\<lambda>t. vt_consumed_at t = None) (filter p rows) = filter p (filter (\<lambda>t. vt_consumed_at t = None) rows)"
    by (simp add: conj_commute)
  with a show ?thesis unfolding tokens_inv_def by (simp only: unique_keys_filter)
qed

lemma tokens_inv_delete: "tokens_inv rows \<Longrightarrow> tokens_inv (row_delete vt_user_id i rows)"
  unfolding row_delete_def by (rule tokens_inv_filter)

lemma consume_pending_none:
  assumes "t \<in> set (consume_pending hit now rows)" "vt_consumed_at t = None"
  shows "\<not> hit t"
proof -
  from assms(1) obtain x where "t = (if hit x \<and> vt_consumed_at x = None then x\<lparr>vt_consumed_at := Some now\<rparr> else x)"
    unfolding consume_pending_def set_map by blast
  with assms(2) show ?thesis by (cases "hit x \<and> vt_consumed_at x = None") auto
qed

lemma issue_verification_token_cases:
  assumes "issue_verification_token ds ev ss u pw name cont ad = Inr (raw_token, code, expires_at, ad')"
  obtains row_id rows where "(raw_token, code, row_id) \<in> set ds" "expires_at = ev_now ev + seconds (verification_minutes ss * 60)"
    "rows = consume_pending (\<lambda>t. vt_user_id t = us_id u) (ev_now ev) (ad_tokens ad)"
    "row_id \<notin> vt_id ` set rows" "hash_opaque_token ev raw_token \<notin> vt_token_hash ` set rows"
    "us_id u \<in> us_id ` set (db_users (ad_db ad))"
    "ad' = ad\<lparr>ad_tokens := rows @
       [\<lparr>vt_id = row_id, vt_user_id = us_id u, vt_token_hash = hash_opaque_token ev raw_token,
         vt_verification_code_hash = Some (hash_verification_code ev row_id (us_id u) code),
         vt_pending_password_hash = pw, vt_pending_display_name = name,
         vt_registration_continuation_hash = cont, vt_sent_to = us_email u,
         vt_expires_at = expires_at, vt_consumed_at = None, vt_created_at = ev_db_now ev\<rparr>]\<rparr>"
  using assms
proof (induction ds ev ss u pw name cont ad arbitrary: thesis rule: issue_verification_token.induct)
  case (2 raw code' row_id more ev ss u pw name cont ad)
  let ?rows = "consume_pending (\<lambda>t. vt_user_id t = us_id u) (ev_now ev) (ad_tokens ad)"
  show ?case
  proof (cases "hash_opaque_token ev raw \<in> vt_token_hash ` set ?rows")
    case True
    show ?thesis
    proof (rule "2.IH" [OF refl refl refl refl refl], goal_cases)
      case 3
      show ?case by (rule "2.prems"(1)) (use 3 in auto)
    qed (use "2.prems"(2) True in \<open>auto simp: Let_def split: if_splits\<close>)
  next
    case False
    show ?thesis by (rule "2.prems"(1)) (use "2.prems"(2) False in \<open>auto simp: Let_def split: if_splits\<close>)
  qed
qed simp

lemma issue_inv:
  assumes "auth_inv lower ad" "issue_verification_token ds ev ss u pw name cont ad = Inr (raw_token, code, expires_at, ad')"
  shows "auth_inv lower ad'"
  using assms(2)
proof (cases rule: issue_verification_token_cases)
  case (1 row_id rows)
  have "tokens_inv rows" unfolding 1(3) by (rule tokens_inv_consume) (use assms(1) in \<open>simp add: auth_inv_def\<close>)
  moreover have "us_id u \<notin> vt_user_id ` {t \<in> set rows. vt_consumed_at t = None}"
    unfolding 1(3) by (auto dest: consume_pending_none)
  ultimately have "tokens_inv (ad_tokens ad')"
    using 1(4,5) unfolding 1(7) tokens_inv_def unique_keys_def by (simp add: image_iff)
  then show ?thesis using assms(1) by (simp add: auth_inv_def 1(7))
qed

subsection \<open>Deleting keeps the invariant\<close>

lemma delete_user_row_inv:
  assumes "household_inv lower d" shows "household_inv lower (delete_user_row i d)"
proof -
  let ?f = "\<lambda>v. v\<lparr>iv_inviter_user_id := unless_eq i (iv_inviter_user_id v),
                   iv_accepted_user_id := unless_eq i (iv_accepted_user_id v)\<rparr>"
  let ?d = "d\<lparr>db_invitations := map ?f (db_invitations d)\<rparr>"
  have "household_inv lower ?d"
    by (rule household_inv_invitations [OF assms, where f = ?f]) simp_all
  then show ?thesis
    by (rule household_inv_members)
      (use assms in \<open>auto simp: delete_user_row_def household_inv_def unique_keys_filter row_delete_def distinct_map_filter\<close>)
qed

lemma delete_household_row_inv:
  assumes "household_inv lower d" shows "household_inv lower (delete_household_row i d)"
proof -
  have f: "filter p (row_delete key i rows) = row_delete key i (filter p rows)" for p key and rows :: "'r list"
    unfolding row_delete_def filter_filter by (simp add: conj_commute)
  have d: "distinct (map g (row_delete key i rows))" if "distinct (map g rows)" for g key and rows :: "'r list"
    using that unfolding row_delete_def by (rule distinct_map_filter)
  have u: "unique_keys g (row_delete key i rows)" if "unique_keys g rows" for g key and rows :: "'r list"
    using that unfolding row_delete_def by (rule unique_keys_filter)
  show ?thesis
    using assms by (simp add: household_inv_def delete_household_row_def u f d list_all_iff)
qed

lemma delete_if_orphan_inv: "household_inv lower d \<Longrightarrow> household_inv lower (delete_if_orphan i d)"
  by (simp add: delete_if_orphan_def delete_household_row_inv)

lemma users_inv_map:
  "users_inv rows \<Longrightarrow> (\<And>u. us_id (f u) = us_id u \<and> us_email (f u) = us_email u) \<Longrightarrow> users_inv (map f rows)"
  by (simp add: users_inv_def unique_keys_def comp_def)

lemma users_inv_delete: "users_inv rows \<Longrightarrow> users_inv (row_delete us_id i rows)"
  by (simp add: users_inv_def unique_keys_delete) (simp add: row_delete_def unique_keys_filter)

lemma users_inv_update:
  assumes "users_inv rows" "\<And>u. u \<in> set rows \<Longrightarrow> us_id u = i \<Longrightarrow> us_id (f u) = i \<and> us_email (f u) = us_email u"
  shows "users_inv (row_update us_id i f rows)"
proof -
  have "map us_id (row_update us_id i f rows) = map us_id rows" "map us_email (row_update us_id i f rows) = map us_email rows"
    unfolding row_update_def by (auto simp: assms(2))
  with assms(1) show ?thesis unfolding users_inv_def unique_keys_def by simp
qed

lemma delete_orphans_users: "users_inv (db_users d) \<Longrightarrow> users_inv (db_users (fold delete_if_orphan is d))"
proof (induction "is" arbitrary: d)
  case (Cons i "is")
  have "users_inv (db_users (delete_if_orphan i d))"
    using Cons.prems by (auto simp: delete_if_orphan_def delete_household_row_def intro: users_inv_map)
  with Cons.IH show ?case by simp
qed simp

lemma delete_orphans_inv: "household_inv lower d \<Longrightarrow> household_inv lower (fold delete_if_orphan is d)"
  by (induction "is" arbitrary: d) (simp_all add: delete_if_orphan_inv)

lemma delete_account_inv: "auth_inv lower ad \<Longrightarrow> auth_inv lower (delete_user_and_orphan_households ad u)"
  unfolding auth_inv_def delete_user_and_orphan_households_def Let_def
  by (simp add: delete_orphans_inv delete_user_row_inv tokens_inv_delete delete_orphans_users)
    (simp add: delete_orphans_users delete_user_row_def users_inv_delete)

subsection \<open>The first household keeps the invariant\<close>

lemma bootstrap_select_inv:
  "household_inv lower (select_active d i h) = household_inv lower d"
  "users_inv (db_users d) \<Longrightarrow> users_inv (db_users (select_active d i h))"
  by (auto simp: select_active_def household_inv_def intro!: users_inv_update)

lemma ensure_default_inv:
  assumes "ensure_default_household_membership ev dw late u d = Inr d'" "household_inv lower d" "users_inv (db_users d)"
  shows "household_inv lower d' \<and> users_inv (db_users d')"
proof -
  let ?m = "\<lparr>mb_id = dw_member_id dw, mb_household_id = dw_household_id dw, mb_user_id = us_id u, mb_role = Role_owner,
             mb_created_at = ev_db_now ev\<rparr>"
  have new: "household_inv lower (set_members (db_members d @ [?m]) (select_active (set_households hs d) i h))"
    if "dw_member_id dw \<notin> mb_id ` set (db_members d)" "\<not> member_conflict d ?m" for hs i h
  proof (rule household_inv_members [OF assms(2)])
    show "unique_keys mb_id (db_members (set_members (db_members d @ [?m]) (select_active (set_households hs d) i h)))"
      using assms(2) that(1) by (simp add: household_inv_def unique_keys_append row_get_None_iff)
    show "distinct (map (\<lambda>m. (mb_household_id m, mb_user_id m))
        (db_members (set_members (db_members d @ [?m]) (select_active (set_households hs d) i h))))"
      using assms(2) that(2)
      by (auto simp: household_inv_def member_conflict_def find_membership_def find_None_iff)
  qed (simp add: select_active_def)
  from assms(1) have "d' = d \<or> (\<exists>h. d' = select_active d (us_id u) h) \<or>
      (\<exists>hs h. d' = set_members (db_members d @ [?m]) (select_active (set_households hs d) (us_id u) h)
        \<and> dw_member_id dw \<notin> mb_id ` set (db_members d) \<and> \<not> member_conflict d ?m)"
    unfolding ensure_default_household_membership_def Let_def create_household_for_user_def
    by (auto split: if_splits option.splits simp del: not_None_eq)
  moreover have "users_inv (db_users (select_active (set_households hs d) i h))" for hs i h
    by (rule bootstrap_select_inv(2)) (simp add: assms(3))
  ultimately show ?thesis
    using assms(2,3) new by (auto simp: bootstrap_select_inv)
qed

subsection \<open>The handlers keep the invariant\<close>

lemma apply_real_name_keys [simp]:
  "us_id (apply_registration_real_name u n) = us_id u" "us_email (apply_registration_real_name u n) = us_email u"
  "us_active_household_id (apply_registration_real_name u n) = us_active_household_id u"
  "us_password_hash (apply_registration_real_name u n) = us_password_hash u"
  "us_email_verified (apply_registration_real_name u n) = us_email_verified u"
  by (simp_all add: apply_registration_real_name_def sync_user_display_name_def Let_def)

lemma new_registered_user_keys [simp]:
  "us_id (new_registered_user hp ss ev dw p) = dw_user_id dw"
  "us_email (new_registered_user hp ss ev dw p) = py_lower (gq_email p)"
  "us_active_household_id (new_registered_user hp ss ev dw p) = None"
  by (simp_all add: new_registered_user_def sync_user_display_name_def Let_def)

lemma finalized_user_keys [simp]:
  "us_id (finalized_user hp ev p u) = us_id u" "us_email (finalized_user hp ev p u) = us_email u"
  by (simp_all add: finalized_user_def Let_def)

lemma user_by_email_in: "user_by_email ev ad email = Some u \<Longrightarrow> u \<in> set (db_users (ad_db ad))"
  unfolding user_by_email_def by (drule find_SomeD) simp

text \<open>Overwriting a row by one of the same identifier and address.\<close>

lemma users_inv_overwrite:
  assumes "users_inv rows" "r \<in> set rows" "us_id u = us_id r" "us_email u = us_email r"
  shows "users_inv (row_update us_id (us_id r) (\<lambda>_. u) rows)"
proof (rule users_inv_update [OF assms(1)])
  fix x assume x: "x \<in> set rows" "us_id x = us_id r"
  with assms(1) have "row_get us_id (us_id r) rows = Some x" "row_get us_id (us_id r) rows = Some r"
    using row_get_unique [of us_id rows] assms(2) by (metis users_inv_def)+
  then have "x = r" by simp
  with assms(3,4) show "us_id u = us_id r \<and> us_email u = us_email x" by simp
qed

lemma register_account_props:
  assumes "auth_inv lower ad" "\<And>x. auth_inv lower x \<Longrightarrow> auth_inv lower (race x)"
    and "\<And>u. existing = Some u \<Longrightarrow> u \<in> set (db_users (ad_db ad))"
  shows "case register_account hp ss ev dw race p existing ad of
      Inl (base, e) \<Rightarrow> auth_inv lower base
    | Inr (created, u, base) \<Rightarrow> auth_inv lower base \<and>
        (if created then us_id u \<notin> us_id ` set (db_users (ad_db base)) \<and> us_email u \<notin> us_email ` set (db_users (ad_db base))
           \<and> u = new_registered_user hp ss ev dw p \<and> existing = None
         else u \<in> set (db_users (ad_db base)))"
  using assms by (auto simp: register_account_def Let_def split: option.split dest: row_get_SomeD)

lemma register_household_inv:
  assumes "auth_inv lower base"
    and "if created then us_id u \<notin> us_id ` set (db_users (ad_db base)) \<and> us_email u \<notin> us_email ` set (db_users (ad_db base))
         else u \<in> set (db_users (ad_db base))"
    and "register_household ss ev dw p created u base = Inr ad"
  shows "auth_inv lower ad"
proof -
  let ?u = "apply_registration_real_name u (gq_display_name p)"
  define d1 where "d1 = (if created then set_users (db_users (ad_db base) @ [?u]) (ad_db base)
                else set_users (row_update us_id (us_id u) (\<lambda>_. ?u) (db_users (ad_db base))) (ad_db base))"
  from assms(3) obtain d2 where d2: "ensure_default_household_membership ev dw
      (if as_verification_required ss then ServerError else email_already_exists) ?u d1 = Inr d2" "ad = base\<lparr>ad_db := d2\<rparr>"
    unfolding register_household_def Let_def d1_def [symmetric] by (auto simp: map_sum_def split: sum.splits)
  have u: "users_inv (db_users (ad_db base))" and h: "household_inv lower (ad_db base)"
    using assms(1) by (simp_all add: auth_inv_def)
  have "users_inv (db_users d1)"
  proof (cases created)
    case True
    with assms(2) u show ?thesis by (simp add: d1_def users_inv_def unique_keys_append row_get_None_iff)
  next
    case False
    with assms(2) users_inv_overwrite [OF u, of u ?u] show ?thesis by (simp add: d1_def)
  qed
  moreover have "household_inv lower d1" using h by (simp add: d1_def household_inv_def)
  ultimately show ?thesis
    using ensure_default_inv [OF d2(1)] assms(1) by (simp add: d2(2) auth_inv_def)
qed

lemma smtp_failure_inv:
  "raise_if_smtp_delivery_failed ev sent tok cl ad = Some ad' \<Longrightarrow> auth_inv lower ad \<Longrightarrow> auth_inv lower ad'"
proof -
  have t: "auth_inv lower (ad\<lparr>ad_tokens := consume_pending hit now (ad_tokens ad)\<rparr>)" if "auth_inv lower ad" for hit now
    using that by (simp add: auth_inv_def tokens_inv_consume)
  assume "raise_if_smtp_delivery_failed ev sent tok cl ad = Some ad'" "auth_inv lower ad"
  then show ?thesis
    unfolding raise_if_smtp_delivery_failed_def Let_def
    by (auto split: if_splits option.splits intro: t delete_account_inv)
qed

lemma register_send_inv:
  assumes "auth_inv lower base" "auth_inv lower ad"
  shows "auth_inv lower (fst (snd (snd (register_send hp deliver ss ev dw p created u base ad))))"
  using assms unfolding register_send_def Let_def
  by (auto split: sum.split option.split dest: issue_inv intro: smtp_failure_inv)

lemma register_finalize_inv:
  assumes "auth_inv lower base" "auth_inv lower ad"
  shows "auth_inv lower (fst (snd (snd (register_finalize hp ss ev aj rj p i base ad))))"
proof (cases "row_get us_id i (db_users (ad_db ad))")
  case None
  with assms show ?thesis by (simp add: register_finalize_def)
next
  case (Some u)
  then have u: "u \<in> set (db_users (ad_db ad))" "us_id u = i" by (auto dest: row_get_SomeD)
  have "users_inv (row_update us_id (us_id u) (\<lambda>_. finalized_user hp ev p u) (db_users (ad_db ad)))"
    by (rule users_inv_overwrite) (use assms(2) u in \<open>simp_all add: auth_inv_def\<close>)
  with Some u assms(2) show ?thesis
    by (simp add: register_finalize_def Let_def auth_inv_def household_inv_def split: prod.split)
qed

lemma register_checked_inv:
  assumes "auth_inv lower ad" "\<And>x. auth_inv lower x \<Longrightarrow> auth_inv lower (race x)"
  shows "auth_inv lower (fst (snd (snd (register_checked hp deliver ss ev dw race aj rj ad p))))"
proof -
  have go: "auth_inv lower (fst (snd (snd (case register_account hp ss ev dw race p existing ad1 of
        Inl (base, e) \<Rightarrow> ([], auth_fail base e)
      | Inr (created, u, base) \<Rightarrow>
          (case register_household ss ev dw p created u base of
             Inl e \<Rightarrow> ([], auth_fail base e)
           | Inr ad2 \<Rightarrow> if \<not> as_verification_required ss
               then register_finalize hp ss ev aj rj p (us_id u) base ad2
               else register_send hp deliver ss ev dw p created u base ad2)))))"
    if "auth_inv lower ad1" "\<And>u. existing = Some u \<Longrightarrow> u \<in> set (db_users (ad_db ad1))" for existing ad1
  proof -
    have props: "case register_account hp ss ev dw race p existing ad1 of
        Inl (base, e) \<Rightarrow> auth_inv lower base
      | Inr (created, u, base) \<Rightarrow> auth_inv lower base \<and>
          (if created then us_id u \<notin> us_id ` set (db_users (ad_db base)) \<and> us_email u \<notin> us_email ` set (db_users (ad_db base))
             \<and> u = new_registered_user hp ss ev dw p \<and> existing = None
           else u \<in> set (db_users (ad_db base)))"
      by (rule register_account_props) (use that assms(2) in auto)
    show ?thesis
    proof (cases "register_account hp ss ev dw race p existing ad1")
      case (Inl x)
      with props show ?thesis by (cases x) simp
    next
      case (Inr x)
      obtain created u base where x: "x = (created, u, base)" by (cases x)
      with props Inr have base: "auth_inv lower base" and
        new: "if created then us_id u \<notin> us_id ` set (db_users (ad_db base)) \<and> us_email u \<notin> us_email ` set (db_users (ad_db base))
          else u \<in> set (db_users (ad_db base))"
        by (auto split: if_splits)
      show ?thesis
        using register_household_inv [OF base new] base
        by (cases "register_household ss ev dw p created u base")
          (simp_all add: Inr x register_send_inv register_finalize_inv)
    qed
  qed
  note users = user_by_email_in delete_account_inv
  show ?thesis
    unfolding register_checked_def Let_def
    by (auto split: option.split prod.split simp: assms(1) intro!: go users(2) dest: users(1)
        split: if_splits simp del: not_None_eq)
qed

lemma flush_user_keys [simp]: "us_id (flush_user old new r) = us_id r" "us_email (flush_user old new r) = us_email r"
  by (simp_all add: flush_user_def Let_def)

lemma attempt_inv:
  assumes "auth_inv lower ad" "\<And>x. auth_inv lower x \<Longrightarrow> auth_inv lower (race x)"
  shows "auth_inv lower (snd (consume_register_attempt ss race key now m ad))"
    "auth_inv lower (snd (consume_resend_attempt ss race key now m ad))"
    "auth_inv lower (snd (consume_verification_code_attempts ss race email ch ip now ad))"
proof -
  show "auth_inv lower (snd (consume_register_attempt ss race key now m ad))"
    unfolding consume_register_attempt_def by (rule attempt_keeps) (use assms in simp_all)
  show "auth_inv lower (snd (consume_resend_attempt ss race key now m ad))"
    unfolding consume_resend_attempt_def by (rule attempt_keeps) (use assms in simp_all)
  show "auth_inv lower (snd (consume_verification_code_attempts ss race email ch ip now ad))"
    by (rule code_attempts_keep) (use assms in simp_all)
qed

text \<open>Two limits in a row, as the handlers ask for them.\<close>

lemma two_attempts:
  assumes "P (snd c1)" "\<And>ad1. c1 = (None, ad1) \<Longrightarrow> P ad1 \<Longrightarrow> P (snd (c2 ad1))"
    and "\<And>ad e. P ad \<Longrightarrow> P (st (refuse ad e))" "\<And>ad. P ad \<Longrightarrow> P (st (go ad))"
  shows "P (st (case c1 of (Some e, ad1) \<Rightarrow> refuse ad1 e
      | (None, ad1) \<Rightarrow> (case c2 ad1 of (Some e, ad2) \<Rightarrow> refuse ad2 e | (None, ad2) \<Rightarrow> go ad2)))"
proof -
  obtain e1 ad1 where 1: "c1 = (e1, ad1)" by (cases c1)
  obtain e2 ad2 where 2: "c2 ad1 = (e2, ad2)" by (cases "c2 ad1")
  have "P ad1" using assms(1) 1 by simp
  moreover have "P ad2" if "e1 = None" using assms(2) [of ad1] that 1 2 \<open>P ad1\<close> by simp
  ultimately show ?thesis using assms(3,4) by (cases e1; cases e2) (simp_all add: 1 2)
qed

lemma register_inv:
  assumes "auth_inv lower ad" "\<And>x. auth_inv lower x \<Longrightarrow> auth_inv lower (race x)"
  shows "auth_inv lower (fst (snd (snd (register hp deliver ss ev dw race aj rj ip ad p))))"
  unfolding register_def Let_def
  by (rule two_attempts [where P = "auth_inv lower" and st = "\<lambda>x. fst (snd (snd x))" and refuse = "\<lambda>ad e. ([], auth_fail ad e)"])
    (use assms in \<open>auto intro: attempt_inv register_checked_inv\<close>)

lemma resend_send_inv:
  assumes "auth_inv lower ad"
  shows "auth_inv lower (fst (snd (snd (resend_send deliver ss ev dw rq email u ad))))"
  using assms unfolding resend_send_def Let_def
  by (auto split: sum.split option.split prod.split dest: issue_inv intro: smtp_failure_inv)

lemma resend_inv:
  assumes "auth_inv lower ad" "\<And>x. auth_inv lower x \<Longrightarrow> auth_inv lower (race x)"
  shows "auth_inv lower (fst (snd (snd (resend_verification deliver ss ev dw race ip ad rq email))))"
  unfolding resend_verification_def Let_def
  by (rule two_attempts [where P = "auth_inv lower" and st = "\<lambda>x. fst (snd (snd x))" and refuse = "\<lambda>ad e. ([], auth_fail ad e)"])
    (use assms in \<open>auto intro: attempt_inv resend_send_inv split: option.split\<close>)

lemma set_consumed_inv: "auth_inv lower ad \<Longrightarrow> auth_inv lower (set_consumed i now ad)"
proof -
  assume "auth_inv lower ad"
  moreover have "ad_db (set_consumed i now ad) = ad_db ad" by (simp add: set_consumed_def)
  ultimately show ?thesis by (simp add: auth_inv_def tokens_inv_set_consumed)
qed

lemma verify_with_inv:
  assumes "auth_inv lower ad" "\<And>x. auth_inv lower x \<Longrightarrow> auth_inv lower (race x)"
  shows "auth_inv lower (fst (snd (verify_with hp ss ev race aj rj invalid t ad rq p)))"
proof -
  define ad2 where "ad2 = (race ad)\<lparr>ad_tokens := consume_pending (\<lambda>x. vt_id x = vt_id t) (ev_now ev) (ad_tokens (race ad))\<rparr>"
  have 2: "auth_inv lower ad2" using assms by (simp add: ad2_def auth_inv_def tokens_inv_consume)
  have written: "auth_inv lower (ad2\<lparr>ad_db := set_users (row_update us_id i (\<lambda>_. flush_user u v r) (db_users (ad_db ad2))) (ad_db ad2)\<rparr>)"
    if "row_get us_id i (db_users (ad_db ad2)) = Some r" for i u v r
  proof -
    from that have r: "r \<in> set (db_users (ad_db ad2))" "us_id r = i" by (auto dest: row_get_SomeD)
    have "users_inv (row_update us_id (us_id r) (\<lambda>_. flush_user u v r) (db_users (ad_db ad2)))"
      by (rule users_inv_overwrite) (use 2 r in \<open>simp_all add: auth_inv_def\<close>)
    with 2 r show ?thesis by (simp add: auth_inv_def household_inv_def)
  qed
  show ?thesis
    unfolding verify_with_def Let_def ad2_def [symmetric]
    by (auto simp: assms split: option.split sum.split prod.split intro: written)
qed

lemma pending_by_code_inv:
  assumes "auth_inv lower ad" "\<And>x. auth_inv lower x \<Longrightarrow> auth_inv lower (race x)"
  shows "case pending_verification_by_code ss ev race ip ad email code of
      Inl (ad1, e) \<Rightarrow> auth_inv lower ad1 | Inr (t, ad1) \<Rightarrow> auth_inv lower ad1"
proof -
  define row where "row = (case user_by_email ev ad (py_lower email) of None \<Rightarrow> None
    | Some u \<Rightarrow> latest_pending_verification_for_user ad (us_id u))"
  obtain e ad1 where c: "consume_verification_code_attempts ss race (py_lower email) (map_option vt_id row) ip (ev_now ev) ad = (e, ad1)"
    by fastforce
  have "auth_inv lower (snd (consume_verification_code_attempts ss race (py_lower email) (map_option vt_id row) ip (ev_now ev) ad))"
    by (rule attempt_inv(3)) (use assms in simp_all)
  with c have 1: "auth_inv lower ad1" by simp
  show ?thesis
  proof (cases "e = None \<and> user_by_email ev ad (py_lower email) \<noteq> None \<and> row \<noteq> None")
    case True
    then obtain u t0 where "e = None" "user_by_email ev ad (py_lower email) = Some u" "row = Some t0" by auto
    with 1 show ?thesis
      unfolding pending_verification_by_code_def Let_def row_def [symmetric] c
      by (simp add: set_consumed_inv split: option.split)
  next
    case False
    with 1 show ?thesis
      unfolding pending_verification_by_code_def Let_def row_def [symmetric] c
      by (cases e; cases "user_by_email ev ad (py_lower email)"; cases row) simp_all
  qed
qed

lemma verify_email_inv:
  assumes "auth_inv lower ad" "\<And>x. auth_inv lower x \<Longrightarrow> auth_inv lower (race x)"
  shows "auth_inv lower (fst (snd (verify_email hp ss ev race aj rj ip ad rq p)))"
proof -
  have t: "case pending_verification_by_token ev ad raw of Inl (ad1, e) \<Rightarrow> auth_inv lower ad1 | Inr t \<Rightarrow> True" for raw
    using assms(1) by (auto simp: pending_verification_by_token_def split: option.split intro: set_consumed_inv)
  have c: "case pending_verification_by_code ss ev race ip ad email code of
      Inl (ad1, e) \<Rightarrow> auth_inv lower ad1 | Inr (t, ad1) \<Rightarrow> auth_inv lower ad1" for email code
    by (rule pending_by_code_inv) (use assms in auto)
  show ?thesis
  proof (cases "verify_allowed_origin (as_config ss) rq False")
    case None
    show ?thesis
    proof (cases "truthy_text (vq_token p)")
      case True
      with None t [of "the (vq_token p)"] show ?thesis
        by (cases "pending_verification_by_token ev ad (the (vq_token p))")
          (auto simp: verify_email_def assms intro!: verify_with_inv)
    next
      case False
      define email where "email = (case vq_email p of Some e \<Rightarrow> e | None \<Rightarrow> [])"
      define code where "code = (case vq_code p of Some c \<Rightarrow> c | None \<Rightarrow> [])"
      from None False c [of email code] show ?thesis
        by (cases "pending_verification_by_code ss ev race ip ad email code")
          (auto simp: verify_email_def email_def [symmetric] code_def [symmetric] assms intro!: verify_with_inv)
    qed
  qed (simp add: verify_email_def assms(1))
qed

subsection \<open>What a verification proves\<close>

definition secret_proved :: "env \<Rightarrow> verify_request \<Rightarrow> verification_token \<Rightarrow> bool" where
  "secret_proved ev p t \<longleftrightarrow>
     (case vq_token p of Some raw \<Rightarrow> vt_token_hash t = hash_opaque_token ev raw | None \<Rightarrow> False) \<or>
     vt_verification_code_hash t =
       Some (hash_verification_code ev (vt_id t) (vt_user_id t) (case vq_code p of Some c \<Rightarrow> c | None \<Rightarrow> []))"

text \<open>The row \<open>i\<close>, if there is one, belongs to the user \<open>user_id\<close>.\<close>

definition owned_by :: "pystr \<Rightarrow> pystr \<Rightarrow> auth_db \<Rightarrow> bool" where
  "owned_by i user_id ad \<longleftrightarrow> list_all (\<lambda>t. vt_id t = i \<longrightarrow> vt_user_id t = user_id) (ad_tokens ad)"

lemma owned_by_other_tables [simp]:
  "owned_by i u (ad\<lparr>ad_register := rs\<rparr>) = owned_by i u ad"
  "owned_by i u (maybe_cleanup_auth_artifacts ss now ad) = owned_by i u ad"
  by (simp_all add: owned_by_def maybe_cleanup_auth_artifacts_def Let_def)

lemma verify_with_ok:
  assumes "verify_with hp ss ev race aj rj invalid t ad rq p = (Inr r, ad', cs)"
  shows "ur_id r = vt_user_id t \<and> ur_email_verified r \<and> (\<exists>h. proven_password_hash hp ev rq t (vq_password p) = Inr h) \<and>
    (\<forall>x \<in> set (ad_tokens ad'). vt_id x = vt_id t \<longrightarrow> vt_consumed_at x \<noteq> None)"
proof -
  have c: "\<forall>x \<in> set (consume_pending (\<lambda>x. vt_id x = i) now rows). vt_id x = i \<longrightarrow> vt_consumed_at x \<noteq> None" for i now rows
    using consume_pending_none by blast
  from assms obtain u h where u: "row_get us_id (vt_user_id t) (db_users (ad_db ad)) = Some u" "\<not> us_email_verified u"
    "proven_password_hash hp ev rq t (vq_password p) = Inr h"
    unfolding verify_with_def by (auto split: option.splits if_splits sum.splits)
  define ad2 where "ad2 = (race ad)\<lparr>ad_tokens := consume_pending (\<lambda>x. vt_id x = vt_id t) (ev_now ev) (ad_tokens (race ad))\<rparr>"
  from assms u obtain r0 where r0: "row_get us_id (us_id u) (db_users (ad_db ad2)) = Some r0"
    "r = to_user_read (flush_user u (verified_user (ev_now ev) (ad_db ad2) t (vq_display_name p) h u) r0)"
    "ad_tokens ad' = ad_tokens ad2"
    unfolding verify_with_def Let_def ad2_def [symmetric]
    by (auto split: option.splits if_splits prod.splits)
  have "us_email_verified (flush_user u (verified_user now d t n h u) r0)" for now d n
    using u(2) by (simp add: flush_user_def verified_user_def Let_def split: option.split)
  with r0 u row_get_SomeD [OF u(1)] row_get_SomeD [OF r0(1)] c show ?thesis
    by (auto simp: to_user_read_def ad2_def)
qed

lemma newest_in: "newest ts = Some t \<Longrightarrow> t \<in> set ts"
  by (induction ts arbitrary: t) (auto split: option.splits if_splits)

lemma pending_by_token_ok:
  assumes "pending_verification_by_token ev ad raw = Inr t"
  shows "t \<in> set (ad_tokens ad) \<and> vt_token_hash t = hash_opaque_token ev raw \<and> vt_consumed_at t = None \<and> ev_now ev \<le> vt_expires_at t"
  using assms by (auto simp: pending_verification_by_token_def split: option.splits if_splits dest: row_get_SomeD)

lemma pending_by_code_ok:
  assumes "pending_verification_by_code ss ev race ip ad email code = Inr (t, ad1)"
  obtains u t0 where "user_by_email ev ad (py_lower email) = Some u" "t0 \<in> set (ad_tokens ad)" "vt_user_id t0 = us_id u"
    "vt_id t = vt_id t0" "t \<in> set (ad_tokens ad1)" "vt_consumed_at t = None" "ev_now ev \<le> vt_expires_at t"
    "vt_verification_code_hash t = Some (hash_verification_code ev (vt_id t) (us_id u) code)"
    "ad1 = snd (consume_verification_code_attempts ss race (py_lower email) (Some (vt_id t0)) ip (ev_now ev) ad)"
proof -
  define row where "row = (case user_by_email ev ad (py_lower email) of None \<Rightarrow> None
    | Some u \<Rightarrow> latest_pending_verification_for_user ad (us_id u))"
  obtain e x where c: "consume_verification_code_attempts ss race (py_lower email) (map_option vt_id row) ip (ev_now ev) ad = (e, x)"
    by fastforce
  note run = assms [unfolded pending_verification_by_code_def Let_def row_def [symmetric] c]
  from run obtain u t0 where u: "e = None" "user_by_email ev ad (py_lower email) = Some u" "row = Some t0"
    by (cases e; cases "user_by_email ev ad (py_lower email)"; cases row) auto
  then have t0: "t0 \<in> set (ad_tokens ad)" "vt_user_id t0 = us_id u"
    by (auto simp: row_def latest_pending_verification_for_user_def dest: newest_in)
  from run u have g: "row_get vt_id (vt_id t0) (ad_tokens x) = Some t" "ad1 = x" and
    t: "vt_consumed_at t = None" "ev_now ev \<le> vt_expires_at t"
      "vt_verification_code_hash t = Some (hash_verification_code ev (vt_id t) (us_id u) code)"
    by (auto split: option.splits if_splits)
  have "t \<in> set (ad_tokens ad1)" "vt_id t = vt_id t0" using row_get_SomeD [OF g(1)] g(2) by auto
  moreover have "ad1 = snd (consume_verification_code_attempts ss race (py_lower email) (Some (vt_id t0)) ip (ev_now ev) ad)"
    using c u g(2) by simp
  ultimately show thesis using that [OF u(2) t0] t by blast
qed

subsection \<open>From the mail to the account\<close>

lemma flush_user_self [simp]:
  "us_password_hash (flush_user u v u) = us_password_hash v" "us_email_verified (flush_user u v u) = us_email_verified v"
  by (simp_all add: flush_user_def Let_def)

lemma verified_user_fields [simp]:
  "us_password_hash (verified_user now d t n h u) = h" "us_email_verified (verified_user now d t n h u)"
  by (simp_all add: verified_user_def Let_def split: option.split)

lemma new_registered_user_verified [simp]:
  "us_email_verified (new_registered_user hp ss ev dw p) \<longleftrightarrow> \<not> as_verification_required ss"
  by (simp add: new_registered_user_def sync_user_display_name_def Let_def)

lemma ensure_default_row:
  assumes "ensure_default_household_membership ev dw late u d = Inr d'" "row_get us_id i (db_users d) = Some r"
  shows "\<exists>h. row_get us_id i (db_users d') = Some (r\<lparr>us_active_household_id := h\<rparr>)"
proof -
  let ?f = "\<lambda>h r. r\<lparr>us_active_household_id := h\<rparr>"
  have "db_users d' = db_users d \<or> (\<exists>h. db_users d' = row_update us_id (us_id u) (?f h) (db_users d))"
    using assms(1) unfolding ensure_default_household_membership_def Let_def
    by (auto simp: select_active_def split: if_splits option.splits simp del: not_None_eq)
  then show ?thesis
  proof
    assume "db_users d' = db_users d"
    then show ?thesis by (intro exI [of _ "us_active_household_id r"]) (simp add: assms(2))
  next
    assume "\<exists>h. db_users d' = row_update us_id (us_id u) (?f h) (db_users d)"
    then obtain h where "db_users d' = row_update us_id (us_id u) (?f h) (db_users d)" ..
    then have "row_get us_id i (db_users d') = Some (if i = us_id u then ?f h r else r)"
      using assms(2) by (auto simp: row_get_update)
    then show ?thesis
      by (intro exI [of _ "if i = us_id u then h else us_active_household_id r"]) simp
  qed
qed

lemma register_household_row:
  assumes "register_household ss ev dw p created u base = Inr ad"
    and "if created then us_id u \<notin> us_id ` set (db_users (ad_db base)) else u \<in> set (db_users (ad_db base))"
  shows "\<exists>h. row_get us_id (us_id u) (db_users (ad_db ad)) = Some ((apply_registration_real_name u (gq_display_name p))\<lparr>us_active_household_id := h\<rparr>)"
    "ad_tokens ad = ad_tokens base"
proof -
  let ?u = "apply_registration_real_name u (gq_display_name p)"
  define d1 where "d1 = (if created then set_users (db_users (ad_db base) @ [?u]) (ad_db base)
                else set_users (row_update us_id (us_id u) (\<lambda>_. ?u) (db_users (ad_db base))) (ad_db base))"
  from assms(1) obtain d2 where d2: "ensure_default_household_membership ev dw
      (if as_verification_required ss then ServerError else email_already_exists) ?u d1 = Inr d2" "ad = base\<lparr>ad_db := d2\<rparr>"
    unfolding register_household_def Let_def d1_def [symmetric] by (auto simp: map_sum_def split: sum.splits)
  have over: "u \<in> set rows \<Longrightarrow> row_get us_id (us_id u) (row_update us_id (us_id u) (\<lambda>_. ?u) rows) = Some ?u" for rows
    by (induction rows) (auto simp: row_update_def)
  have "row_get us_id (us_id u) (db_users d1) = Some ?u"
  proof (cases created)
    case True
    with assms(2) have "row_get us_id (us_id u) (db_users (ad_db base)) = None" by (simp add: row_get_None_iff)
    with True show ?thesis by (simp add: d1_def row_get_append)
  next
    case False
    with assms(2) over show ?thesis by (simp add: d1_def)
  qed
  from ensure_default_row [OF d2(1) this] d2(2) show
    "\<exists>h. row_get us_id (us_id u) (db_users (ad_db ad)) = Some (?u\<lparr>us_active_household_id := h\<rparr>)"
    "ad_tokens ad = ad_tokens base" by simp_all
qed

lemma register_reaches:
  assumes "register hp deliver ss ev dw id aj rj ip ad p = (mails, Inr resp, ad', cs)" "auth_inv lower ad"
  obtains ad2 where "register_checked hp deliver ss ev dw id aj rj ad2 p = (mails, Inr resp, ad', cs)" "auth_inv lower ad2"
proof -
  define c1 where "c1 = consume_register_attempt ss id (register_attempt_key (py_lower (gq_email p)) ip) (ev_now ev) None ad"
  define c2 where "c2 = (\<lambda>ad1. if should_enforce_ip_global_auth_throttle ss
      then consume_register_attempt ss id (register_ip_attempt_key ip) (ev_now ev) (Some (register_ip_max_attempts ss)) ad1
      else (None, ad1))"
  obtain e1 ad1 where 1: "c1 = (e1, ad1)" by (cases c1)
  obtain e2 ad2 where 2: "c2 ad1 = (e2, ad2)" by (cases "c2 ad1")
  have k: "auth_inv lower (snd (consume_register_attempt ss id key now m x))" if "auth_inv lower x" for key now m x
    by (rule attempt_inv(1)) (use that in simp_all)
  have "auth_inv lower (snd c1)" unfolding c1_def by (rule k) (rule assms(2))
  with 1 have "auth_inv lower ad1" by simp
  then have "auth_inv lower (snd (c2 ad1))" unfolding c2_def by (auto intro: k)
  with 2 have i: "auth_inv lower ad2" by simp
  from assms(1) have "register_checked hp deliver ss ev dw id aj rj ad2 p = (mails, Inr resp, ad', cs)"
    unfolding register_def Let_def c1_def [symmetric] 1 c2_def [symmetric]
    using 2 [unfolded c2_def] by (cases e1; cases e2) (auto split: if_splits)
  then show thesis using i by (rule that)
qed

lemma register_checked_cases:
  assumes "register_checked hp deliver ss ev dw id aj rj ad p = (mails, Inr resp, ad', cs)" "as_verification_required ss" "auth_inv lower ad"
  obtains created u base existing ad1 where "register_account hp ss ev dw id p existing ad1 = Inr (created, u, base)"
    "\<forall>x. existing = Some x \<longrightarrow> x \<in> set (db_users (ad_db ad1)) \<and> \<not> us_email_verified x" "auth_inv lower ad1"
    "(case register_household ss ev dw p created u base of
           Inl e \<Rightarrow> ([], auth_fail base e)
         | Inr ad3 \<Rightarrow> register_send hp deliver ss ev dw p created u base ad3) = (mails, Inr resp, ad', cs)"
proof -
  obtain found where found: "user_by_email ev ad (py_lower (gq_email p)) = found" by simp
  define go where "go = (case found of None \<Rightarrow> (None, ad)
      | Some u \<Rightarrow> (if unverified_expired ss (ev_now ev) u then (None, delete_user_and_orphan_households ad u) else (Some u, ad)))"
  obtain existing ad1 where e: "go = (existing, ad1)" by (cases go)
  have u: "\<not> (case found of Some u \<Rightarrow> us_email_verified u | None \<Rightarrow> False)"
    using assms(1) by (auto simp: register_checked_def Let_def found split: option.splits)
  have ex: "\<forall>x. existing = Some x \<longrightarrow> x \<in> set (db_users (ad_db ad1)) \<and> \<not> us_email_verified x"
    using e u found user_by_email_in by (auto simp: go_def split: option.splits if_splits)
  have i: "auth_inv lower ad1"
    using e assms(3) delete_account_inv by (auto simp: go_def split: option.splits if_splits)
  have req: "(if \<not> as_verification_required ss then A else B) = B" for A B :: "register_response mail_outcome"
    using assms(2) by simp
  have run: "(case register_account hp ss ev dw id p existing ad1 of
        Inl (base, e) \<Rightarrow> ([], auth_fail base e)
      | Inr (created, u, base) \<Rightarrow>
          (case register_household ss ev dw p created u base of
             Inl e \<Rightarrow> ([], auth_fail base e)
           | Inr ad3 \<Rightarrow> register_send hp deliver ss ev dw p created u base ad3)) = (mails, Inr resp, ad', cs)"
    using assms(1) u unfolding register_checked_def Let_def found go_def [symmetric] e req by simp
  then obtain created u base where acc: "register_account hp ss ev dw id p existing ad1 = Inr (created, u, base)"
    by (cases "register_account hp ss ev dw id p existing ad1") auto
  show thesis by (rule that [OF acc ex i]) (use run acc in auto)
qed

text \<open>A registration that was mailed, run alone.\<close>

lemma register_mailed:
  assumes "register hp deliver ss ev dw id aj rj ip ad p = ([mail], Inr resp, ad', cs)"
    and "as_verification_required ss" "auth_inv lower ad"
  obtains u rows row_id h where "rr_email resp = us_email u" "\<not> us_email_verified u"
    "row_get us_id (us_id u) (db_users (ad_db ad')) = Some ((apply_registration_real_name u (gq_display_name p))\<lparr>us_active_household_id := h\<rparr>)"
    "hash_opaque_token ev (vm_token mail) \<notin> vt_token_hash ` set rows" "row_id \<notin> vt_id ` set rows"
    "vm_to mail = us_email u"
    "ad_tokens ad' = rows @
       [\<lparr>vt_id = row_id, vt_user_id = us_id u, vt_token_hash = hash_opaque_token ev (vm_token mail),
         vt_verification_code_hash = Some (hash_verification_code ev row_id (us_id u) (vm_code mail)),
         vt_pending_password_hash = Some (hp 0 (gq_password p)), vt_pending_display_name = Some (py_strip (gq_display_name p)),
         vt_registration_continuation_hash = Some (hash_opaque_token ev (dw_continuation dw)), vt_sent_to = us_email u,
         vt_expires_at = ev_now ev + seconds (verification_minutes ss * 60), vt_consumed_at = None,
         vt_created_at = ev_db_now ev\<rparr>]"
proof -
  obtain ad2 where checked: "register_checked hp deliver ss ev dw id aj rj ad2 p = ([mail], Inr resp, ad', cs)"
    and inv2: "auth_inv lower ad2"
    by (rule register_reaches [OF assms(1,3)])
  obtain created u base existing ad1 where acc: "register_account hp ss ev dw id p existing ad1 = Inr (created, u, base)"
    and ex: "\<forall>x. existing = Some x \<longrightarrow> x \<in> set (db_users (ad_db ad1)) \<and> \<not> us_email_verified x" and inv1: "auth_inv lower ad1"
    and fin: "(case register_household ss ev dw p created u base of
           Inl e \<Rightarrow> ([], auth_fail base e)
         | Inr ad3 \<Rightarrow> register_send hp deliver ss ev dw p created u base ad3) = ([mail], Inr resp, ad', cs)"
    by (rule register_checked_cases [OF checked assms(2) inv2])
  have props: "if created then us_id u \<notin> us_id ` set (db_users (ad_db base)) else u \<in> set (db_users (ad_db base))"
    and unver: "\<not> us_email_verified u"
  proof -
    have "x = y" if "row_get us_id (us_id y) (db_users (ad_db ad1)) = Some x" "y \<in> set (db_users (ad_db ad1))" for x y
      using row_get_unique [of us_id "db_users (ad_db ad1)" y] inv1 that by (simp add: auth_inv_def users_inv_def)
    with acc ex assms(2) show "if created then us_id u \<notin> us_id ` set (db_users (ad_db base)) else u \<in> set (db_users (ad_db base))"
      "\<not> us_email_verified u"
      by (auto simp: register_account_def Let_def split: option.splits if_splits)
  qed
  from fin obtain ad3 where hh: "register_household ss ev dw p created u base = Inr ad3"
    and send: "register_send hp deliver ss ev dw p created u base ad3 = ([mail], Inr resp, ad', cs)"
    by (auto split: sum.splits)
  note row = register_household_row [OF hh props]
  from send obtain raw code exp where issue: "issue_verification_token (take 3 (dw_tokens dw)) ev ss u (Some (hp 0 (gq_password p)))
             (Some (py_strip (gq_display_name p))) (Some (hash_opaque_token ev (dw_continuation dw))) ad3 = Inr (raw, code, exp, ad')"
    and mail: "mail = \<lparr>vm_to = us_email u, vm_token = raw, vm_code = code\<rparr>" "rr_email resp = us_email u"
    by (auto simp: register_send_def Let_def verification_response_def split: sum.splits option.splits)
  from issue show ?thesis
  proof (cases rule: issue_verification_token_cases)
    case (1 row_id rows)
    from row(1) obtain h where "row_get us_id (us_id u) (db_users (ad_db ad')) =
        Some ((apply_registration_real_name u (gq_display_name p))\<lparr>us_active_household_id := h\<rparr>)"
      unfolding 1(7) by auto
    with 1 show ?thesis by (intro that [of u h rows row_id]) (simp_all add: mail unver)
  qed
qed

definition plain_text :: "pystr \<Rightarrow> bool" where
  "plain_text s \<longleftrightarrow> s \<noteq> [] \<and> py_strip s = s"

lemma verify_with_quiet:
  assumes "row_get us_id (vt_user_id t) (db_users (ad_db ad)) = Some w" "\<not> us_email_verified w"
    "proven_password_hash hp ev rq t (vq_password p) = Inr h"
    "length (filter (\<lambda>x. vt_id x = vt_id t \<and> vt_consumed_at x = None) (ad_tokens ad)) = 1"
  shows "\<exists>cs. verify_with hp ss ev id aj rj invalid t ad rq p =
    (Inr (to_user_read (flush_user w (verified_user (ev_now ev) (ad_db ad) t (vq_display_name p) h w) w)),
     ad\<lparr>ad_tokens := consume_pending (\<lambda>x. vt_id x = vt_id t) (ev_now ev) (ad_tokens ad),
        ad_db := set_users (row_update us_id (vt_user_id t)
          (\<lambda>_. flush_user w (verified_user (ev_now ev) (ad_db ad) t (vq_display_name p) h w) w) (db_users (ad_db ad))) (ad_db ad)\<rparr>, cs)"
proof -
  have "us_id w = vt_user_id t" using assms(1) by (auto dest: row_get_SomeD)
  with assms show ?thesis by (simp add: verify_with_def Let_def auth_ok_def split: prod.split)
qed

end
