(* ===== verification/Auth_Claims.thy ===== *)
theory Auth_Claims
  imports Auth_Register Samples
begin

text \<open>
  The properties of authentication: the limits on attempts and on password guesses, the single
  use of a refresh token, the invariant of the account tables, and what a verification proves.
\<close>

subsection \<open>Samples\<close>

definition sample_settings :: auth_settings where
  "sample_settings =
     \<lparr>as_config = \<lparr>cf_allowed_origins = [lit ''https://app.io''], cf_csrf_cookie_name = lit ''csrf'',
        cf_csrf_header_name = lit ''x-csrf'', cf_access_cookie_name = lit ''access''\<rparr>,
      as_refresh_cookie_name = lit ''refresh'', as_env = lit ''prod'', as_register_window_seconds = 60,
      as_register_max_attempts = 3, as_resend_cooldown_seconds = 60, as_verification_minutes = 30,
      as_verification_required = True, as_strict_email = True, as_unverified_ttl_hours = 24,
      as_access_token_minutes = 15, as_refresh_token_days = 14\<rparr>"

definition sample_auth :: auth_db where
  "sample_auth = \<lparr>ad_db = sample_db, ad_tokens = [], ad_login = [], ad_register = []\<rparr>"

definition sample_request :: http_request where
  "sample_request =
     \<lparr>rq_method = lit ''POST'',
      rq_headers = (\<lambda>n. if n = lit ''origin'' then Some (lit ''https://app.io'') else
                        if n = lit ''x-csrf'' then Some (lit ''c1'') else None),
      rq_cookies = (\<lambda>n. if n = lit ''csrf'' then Some (lit ''c1'') else
                        if n = lit ''refresh'' then Some (lit ''rt'') else None),
      rq_credentials = None\<rparr>"

definition sample_jwt :: "pystr \<Rightarrow> claims option" where
  "sample_jwt token =
     (if token = lit ''rt''
      then Some [(lit ''sub'', JStr (lit ''u1'')), (lit ''typ'', JStr (lit ''refresh'')),
                 (lit ''jti'', JStr (lit ''j1'')), (lit ''exp'', JInt 1020)]
      else None)"

definition env_at :: "int \<Rightarrow> env" where
  "env_at t = sample_env\<lparr>ev_now := seconds t\<rparr>"

lemmas auth_sample_defs = sample_settings_def sample_auth_def sample_request_def sample_jwt_def env_at_def

definition no_text :: "json \<Rightarrow> pystr" where "no_text j = []"

definition wrong_guess :: "int \<Rightarrow> env \<times> http_request \<times> login_request" where
  "wrong_guess t = (env_at t, sample_request, \<lparr>lq_email = [], lq_password = lit ''guess'', lq_remember_me = False\<rparr>)"

subsection \<open>A sample registration\<close>

definition sample_hash :: "pystr \<Rightarrow> pystr" where
  "sample_hash s = 104 # map (\<lambda>c. if py_space c then 95 else c) s"

definition register_env :: "int \<Rightarrow> env" where
  "register_env t = (env_at t)\<lparr>ev_hash_token := sample_hash\<rparr>"

definition sample_draws :: draws where
  "sample_draws =
     \<lparr>dw_user_id = lit ''u9'', dw_household_id = lit ''h9'', dw_member_id = lit ''m9'',
      dw_unused_password = lit ''unused'', dw_continuation = lit ''secret'',
      dw_tokens = [(lit ''raw-token-12'', lit ''123456'', lit ''vt1'')]\<rparr>"

definition sample_register :: register_request where
  "sample_register = \<lparr>gq_email = lit ''New@x.io'', gq_password = lit ''password'', gq_display_name = lit ''Eve'', gq_remember_me = True\<rparr>"

definition sample_verify :: verify_request where
  "sample_verify = \<lparr>vq_token = Some (lit ''raw-token-12''), vq_email = None, vq_code = None, vq_password = None,
     vq_display_name = None, vq_remember_me = True\<rparr>"

definition browser_request :: http_request where
  "browser_request = sample_request\<lparr>rq_cookies := (\<lambda>n. if n = registration_continuation_cookie then Some (lit ''secret'') else None)\<rparr>"

lemma plain_sample_hash: "plain_text (sample_hash s)"
proof -
  have *: "\<forall>c \<in> set (sample_hash s). \<not> py_space c" by (auto simp: sample_hash_def py_space_def)
  have d: "dropWhile p xs = xs" if "\<forall>c \<in> set xs. \<not> p c" for p and xs :: pystr
    using that by (cases xs) auto
  have "py_strip (sample_hash s) = sample_hash s"
    unfolding py_strip_def strip_by_def using * by (simp add: d)
  then show ?thesis by (simp add: plain_text_def sample_hash_def)
qed

lemma sample_auth_inv: "auth_inv id sample_auth"
  by code_simp

lemma sample_registration:
  "case register (\<lambda>n. sample_hash) (\<lambda>_. True) sample_settings (register_env 1000) sample_draws id (lit ''a'') (lit ''b'') None
      sample_auth sample_register of
     (mails, r, ad', cs) \<Rightarrow> map vm_token mails = [lit ''raw-token-12''] \<and>
       (case r of Inl _ \<Rightarrow> False | Inr resp \<Rightarrow> rr_email resp = lit ''new@x.io'')
       \<and> map (\<lambda>m. (mb_household_id m, mb_role m)) (filter (\<lambda>m. mb_user_id m = lit ''u9'') (db_members (ad_db ad'))) = [(lit ''h9'', Role_owner)]"
  by code_simp

definition pending_sample :: auth_db where
  "pending_sample =
     fst (snd (snd (register (\<lambda>n. sample_hash) (\<lambda>_. True) sample_settings (register_env 1000) sample_draws id (lit ''a'') (lit ''b'') None
       sample_auth sample_register)))"

definition code_verify :: verify_request where
  "code_verify = \<lparr>vq_token = None, vq_email = Some (lit ''new@x.io''), vq_code = Some (lit ''123456''),
     vq_password = Some (lit ''password2''), vq_display_name = None, vq_remember_me = True\<rparr>"

subsection \<open>The properties\<close>

text \<open>C19 (attempts are limited): of any number of attempts on one key (registration, resending, code
entry) in a time of the length of the window, at most the limit pass when the key has no counter
yet, and at most twice the limit whatever its counter is.\<close>

theorem throttle_limits_attempts:
  assumes "unique_keys rg_key (ad_register ad)" "\<forall>r \<in> set (ad_register ad). 0 \<le> rg_attempt_count r"
    and "\<forall>t \<in> set ts. start \<le> t \<and> t \<le> start + register_window ss"
  shows "count_passes (attempt_step ss key m limited unavailable) ts ad \<le> 2 * nat (max 1 m) \<and>
         (key \<notin> rg_key ` set (ad_register ad) \<longrightarrow>
            count_passes (attempt_step ss key m limited unavailable) ts ad \<le> nat (max 1 m))"
proof -
  have nonneg: "0 \<le> n" if "attempt_counter key ad = Some (n, t)" for n t
    using that assms(2) by (auto simp: attempt_counter_def dest: row_get_SomeD)
  note limited_passes = register_counter.passes_limited
    [where key = key and m = m and limited = limited and unavailable = unavailable, OF assms(1) nonneg assms(3)]
  have "attempt_counter key ad = None \<longleftrightarrow> key \<notin> rg_key ` set (ad_register ad)"
    by (simp add: attempt_counter_def row_get_None_iff)
  with limited_passes show ?thesis by simp
qed

lemma throttle_limits_attempts_witness:
  "count_passes (attempt_step sample_settings (lit ''k'') 2 ''LIMITED'' ''DOWN'') (map seconds [1000, 1001, 1002, 1059]) sample_auth = 2
   \<and> nat (max 1 2) = (2::nat)"
proof -
  have h: "unique_keys rg_key (ad_register sample_auth)" "\<forall>r \<in> set (ad_register sample_auth). 0 \<le> rg_attempt_count r"
    "\<forall>t \<in> set (map seconds [1000, 1001, 1002, 1059]). seconds 1000 \<le> t \<and> t \<le> seconds 1000 + register_window sample_settings"
    by code_simp+
  from throttle_limits_attempts [OF h, of "lit ''k''" 2 "''LIMITED''" "''DOWN''"]
  have "count_passes (attempt_step sample_settings (lit ''k'') 2 ''LIMITED'' ''DOWN'') (map seconds [1000, 1001, 1002, 1059]) sample_auth \<le> 2"
    by (simp add: sample_auth_def)
  moreover have "2 \<le> count_passes (attempt_step sample_settings (lit ''k'') 2 ''LIMITED'' ''DOWN'') (map seconds [1000, 1001, 1002, 1059]) sample_auth"
    by code_simp
  ultimately show ?thesis by simp
qed

text \<open>C20 (password guesses are limited): of any sequence of logins for one address from one client
within five minutes, whatever else differs in the requests, at most five wrong passwords reach the
password check when the counter of the key is new, and at most ten whatever it is, plus at most
five for every login of the sequence that is granted, because a granted login deletes the counter;
the rest is refused unread.  Whoever does not know the password has no granted login and at most
ten tries.\<close>

theorem login_guesses_limited:
  assumes "unique_keys lt_key (ad_login ad)" "\<forall>r \<in> set (ad_login ad). 0 \<le> lt_failed_count r"
    and "\<forall>(ev, rq, p) \<in> set rs. start \<le> ev_now ev \<and> ev_now ev \<le> start + seconds login_window_seconds"
  shows "count_passes (guess_step verify_password ss email ip) rs ad \<le>
           10 + 5 * count_resets (login_granted verify_password ss email ip) (guess_step verify_password ss email ip) rs ad \<and>
         (login_attempt_key email ip \<notin> lt_key ` set (ad_login ad) \<longrightarrow>
            count_passes (guess_step verify_password ss email ip) rs ad \<le>
              5 + 5 * count_resets (login_granted verify_password ss email ip) (guess_step verify_password ss email ip) rs ad)"
proof -
  let ?key = "login_attempt_key email ip"
  have nonneg: "0 \<le> n" if "guess_counter ?key ad = Some (n, t)" for n t
    using that assms(2) by (auto simp: guess_counter_def dest: row_get_SomeD)
  have times: "\<forall>r \<in> set rs. start \<le> (case r of (ev, rq, p) \<Rightarrow> ev_now ev) \<and>
      (case r of (ev, rq, p) \<Rightarrow> ev_now ev) \<le> start + seconds login_window_seconds"
    using assms(3) by auto
  have "guess_counter ?key ad = None \<longleftrightarrow> ?key \<notin> lt_key ` set (ad_login ad)"
    by (simp add: guess_counter_def row_get_None_iff)
  with login_counter.passes_limited [where email = email and ip = ip and verify_password = verify_password and ss = ss,
      OF assms(1) nonneg times]
  show ?thesis by (simp add: login_max_attempts_def)
qed

text \<open>
  Eleven wrong guesses with a right one after the fourth: the first four and five of the rest
  reach the check.
\<close>

definition mixed_guesses :: "(env \<times> http_request \<times> login_request) list" where
  "mixed_guesses = map wrong_guess [1000, 1001, 1002, 1003] @
     [(env_at 1004, sample_request, \<lparr>lq_email = [], lq_password = [], lq_remember_me = False\<rparr>)] @
     map wrong_guess [1005, 1006, 1007, 1008, 1009, 1010, 1011]"

lemma login_guesses_limited_witness:
  "count_passes (guess_step (=) sample_settings (lit ''u1@x.io'') None) mixed_guesses sample_auth = 9 \<and>
   count_resets (login_granted (=) sample_settings (lit ''u1@x.io'') None) (guess_step (=) sample_settings (lit ''u1@x.io'') None)
     mixed_guesses sample_auth = 1 \<and> (9::nat) \<le> 5 + 5 * 1"
proof -
  let ?passes = "count_passes (guess_step (=) sample_settings (lit ''u1@x.io'') None) mixed_guesses sample_auth"
  let ?granted = "count_resets (login_granted (=) sample_settings (lit ''u1@x.io'') None)
    (guess_step (=) sample_settings (lit ''u1@x.io'') None) mixed_guesses sample_auth"
  have h: "unique_keys lt_key (ad_login sample_auth)" "\<forall>r \<in> set (ad_login sample_auth). 0 \<le> lt_failed_count r"
    "\<forall>(ev, rq, p) \<in> set mixed_guesses.
       seconds 1000 \<le> ev_now ev \<and> ev_now ev \<le> seconds 1000 + seconds login_window_seconds"
    by (code_simp, code_simp, simp add: mixed_guesses_def wrong_guess_def env_at_def seconds_def login_window_seconds_def)
  have c: "?passes = 9" "?granted = 1" by code_simp+
  from login_guesses_limited [OF h, of "(=)" sample_settings "lit ''u1@x.io''" None]
  have "?passes \<le> 5 + 5 * ?granted" by (simp add: sample_auth_def)
  with c show ?thesis by simp
qed

text \<open>C21 (a refresh token is used once): after a request with a refresh token is granted, every later
request with it is refused, whatever logins, refreshes, logouts and counted attempts of any session
run before and in the middle of it, as long as they run before the token expires.\<close>

theorem refresh_token_used_once:
  assumes exp: "expires_at_least rp jwt_decode jti T"
    and first: "refresh_session rp jwt_decode ss ev race1 race2 aj rj ad rq = (Inr (), ad1, cs)" "request_jti rp jwt_decode ss rq = Some jti"
    and between: "auth_reach rp jwt_decode verify_password ss T ad1 ad2"
    and again: "request_jti rp jwt_decode ss rq2 = Some jti" "\<And>x. auth_reach rp jwt_decode verify_password ss T x (race3 x)"
  shows "\<exists>e. fst (refresh_session rp jwt_decode ss ev2 race3 race4 aj2 rj2 ad2 rq2) = Inl e"
proof (cases "fst (refresh_session rp jwt_decode ss ev2 race3 race4 aj2 rj2 ad2 rq2)")
  case (Inr x)
  then obtain ad3 cs3 where ok: "refresh_session rp jwt_decode ss ev2 race3 race4 aj2 rj2 ad2 rq2 = (Inr (), ad3, cs3)"
    by (cases "refresh_session rp jwt_decode ss ev2 race3 race4 aj2 rj2 ad2 rq2") auto
  have "revoked_until jti T ad1" using refresh_ok_marks [OF first exp] by blast
  then have "revoked_until jti T ad2" by (rule auth_reach_revoked [OF between exp])
  then have "revoked_until jti T (race3 ad2)" by (rule auth_reach_revoked [OF again(2) exp])
  with refresh_ok_marks [OF ok again(1) exp] show ?thesis by (force simp: revoked_until_def)
qed simp

lemma refresh_token_used_once_witness:
  "case refresh_session no_text sample_jwt sample_settings (env_at 1000) id id (lit ''a'') (lit ''b'') sample_auth sample_request of
     (r, ad1, _) \<Rightarrow> r = Inr () \<and>
       (\<exists>e. fst (refresh_session no_text sample_jwt sample_settings (env_at 1001) id id (lit ''c'') (lit ''d'') ad1 sample_request) = Inl e)"
proof -
  have "expires_at_least no_text sample_jwt (lit ''j1'') (seconds 1020)"
    by (auto simp: expires_at_least_def sample_jwt_def json_get_def lit_def)
  moreover have "case refresh_session no_text sample_jwt sample_settings (env_at 1000) id id (lit ''a'') (lit ''b'') sample_auth sample_request of
     (r, ad1, _) \<Rightarrow> r = Inr ()" by code_simp
  then obtain ad1 cs where run: "refresh_session no_text sample_jwt sample_settings (env_at 1000) id id (lit ''a'') (lit ''b'') sample_auth sample_request = (Inr (), ad1, cs)"
    by (auto split: prod.splits)
  moreover have "request_jti no_text sample_jwt sample_settings sample_request = Some (lit ''j1'')" by code_simp
  ultimately have "\<exists>e. fst (refresh_session no_text sample_jwt sample_settings (env_at 1001) id id (lit ''c'') (lit ''d'') ad1 sample_request) = Inl e"
    by (intro refresh_token_used_once [where T = "seconds 1020" and verify_password = "(=)" and jti = "lit ''j1''"])
      (auto intro: auth_reach.here simp: id_def)
  with run show ?thesis by simp
qed

text \<open>
  The table of revoked tokens forgets a token at its expiry, but a JWT is accepted for five more
  seconds (\<open>JWT_CLOCK_SKEW_LEEWAY_SECONDS\<close>): after a clean-up at 1020 the used token refreshes
  a second session at 1021.
\<close>

lemma used_token_returns_in_leeway:
  "case refresh_session no_text sample_jwt sample_settings (env_at 1000) id id (lit ''a'') (lit ''b'') sample_auth sample_request of
     (r, ad1, _) \<Rightarrow> r = Inr () \<and>
       (case consume_register_attempt sample_settings id (lit ''k'') (seconds 1020) None ad1 of
          (e, ad2) \<Rightarrow> e = None \<and>
            fst (refresh_session no_text sample_jwt sample_settings (env_at 1021) id id (lit ''c'') (lit ''d'') ad2 sample_request) = Inr ())"
  by code_simp

text \<open>C22 (account tables stay well formed): signing up, asking for another mail and proving a
mail keep the tables well formed, whatever well-formed states other sessions commit meanwhile:
unique identifiers and addresses, the membership invariant, unique token hashes, and at most one
token per account that is not consumed, so only the latest mail counts.\<close>

theorem account_invariant:
  assumes "auth_inv lower ad" "\<And>x. auth_inv lower x \<Longrightarrow> auth_inv lower (race x)"
  shows "auth_inv lower (fst (snd (snd (register hash_password deliver ss ev dw race access_jti refresh_jti client_ip ad p)))) \<and>
    auth_inv lower (fst (snd (snd (resend_verification deliver ss ev dw race client_ip ad rq email)))) \<and>
    auth_inv lower (fst (snd (verify_email hash_password ss ev race access_jti refresh_jti client_ip ad rq q)))"
  by (intro conjI register_inv resend_inv verify_email_inv) (use assms in auto)

lemma account_invariant_witness:
  "auth_inv id (fst (snd (snd (register (\<lambda>n. sample_hash) (\<lambda>_. True) sample_settings (register_env 1000) sample_draws id
      (lit ''a'') (lit ''b'') None sample_auth sample_register))))"
  using account_invariant [OF sample_auth_inv, of id "\<lambda>n. sample_hash" "\<lambda>_. True" sample_settings "register_env 1000" sample_draws
      "lit ''a''" "lit ''b''" None sample_register]
  by simp

text \<open>C23 (an address is verified only with proof): when a verification succeeds there was a token of that
account, not consumed and not expired, whose mailed secret or whose six digits for that account
the request presented; the password was proved by the cookie of the registering browser or set by
the request; and the token is consumed afterwards.\<close>

theorem verification_needs_proof:
  assumes run: "verify_email hash_password ss ev race access_jti refresh_jti client_ip ad rq p = (Inr r, ad', cs)"
    and ids: "unique_keys vt_id (ad_tokens ad)"
    and race: "\<And>i user_id x. i \<in> vt_id ` set (ad_tokens ad) \<Longrightarrow> owned_by i user_id x \<Longrightarrow> owned_by i user_id (race x)"
  shows "\<exists>t. vt_id t \<in> vt_id ` set (ad_tokens ad) \<and> vt_user_id t = ur_id r \<and> vt_consumed_at t = None \<and>
    ev_now ev \<le> vt_expires_at t \<and> secret_proved ev p t \<and>
    (\<exists>h. proven_password_hash hash_password ev rq t (vq_password p) = Inr h) \<and>
    (\<forall>x \<in> set (ad_tokens ad'). vt_id x = vt_id t \<longrightarrow> vt_consumed_at x \<noteq> None)"
proof (cases "truthy_text (vq_token p)")
  case True
  with run obtain t where t: "pending_verification_by_token ev ad (the (vq_token p)) = Inr t"
    "verify_with hash_password ss ev race access_jti refresh_jti token_invalid t ad rq p = (Inr r, ad', cs)"
    unfolding verify_email_def by (auto split: option.splits sum.splits prod.splits)
  with True pending_by_token_ok [OF t(1)] verify_with_ok [OF t(2)] show ?thesis
    by (intro exI [of _ t]) (auto simp: secret_proved_def truthy_text_def)
next
  case False
  with run obtain t ad1 where t: "pending_verification_by_code ss ev race client_ip ad
      (case vq_email p of Some e \<Rightarrow> e | None \<Rightarrow> []) (case vq_code p of Some c \<Rightarrow> c | None \<Rightarrow> []) = Inr (t, ad1)"
    "verify_with hash_password ss ev race access_jti refresh_jti code_invalid t ad1 rq p = (Inr r, ad', cs)"
    unfolding verify_email_def by (auto split: option.splits sum.splits prod.splits)
  obtain u t0 where e: "user_by_email ev ad (py_lower (case vq_email p of Some e \<Rightarrow> e | None \<Rightarrow> [])) = Some u" and u: "t0 \<in> set (ad_tokens ad)" "vt_user_id t0 = us_id u"
    "vt_id t = vt_id t0" "t \<in> set (ad_tokens ad1)" "vt_consumed_at t = None" "ev_now ev \<le> vt_expires_at t"
    "vt_verification_code_hash t = Some (hash_verification_code ev (vt_id t) (us_id u) (case vq_code p of Some c \<Rightarrow> c | None \<Rightarrow> []))"
    "ad1 = snd (consume_verification_code_attempts ss race (py_lower (case vq_email p of Some e \<Rightarrow> e | None \<Rightarrow> [])) (Some (vt_id t0)) client_ip (ev_now ev) ad)"
    by (rule pending_by_code_ok [OF t(1)])
  have "x = t0" if "x \<in> set (ad_tokens ad)" "vt_id x = vt_id t0" for x
    by (metis ids option.inject row_get_unique that u(1))
  then have own: "owned_by (vt_id t0) (us_id u) ad" unfolding owned_by_def list_all_iff using u(2) by blast
  have "owned_by (vt_id t0) (us_id u) ad1"
    unfolding u(8) by (rule code_attempts_keep) (use own race u(1) in auto)
  with u(3,4) have "vt_user_id t = us_id u" by (auto simp: owned_by_def list_all_iff)
  with u verify_with_ok [OF t(2)] show ?thesis by (intro exI [of _ t]) (auto simp: secret_proved_def)
qed

lemma verification_needs_proof_witness:
  "\<exists>t. vt_id t \<in> vt_id ` set (ad_tokens pending_sample) \<and> vt_user_id t = lit ''u9'' \<and> secret_proved (register_env 1100) code_verify t"
proof -
  have "case verify_email (\<lambda>n. sample_hash) sample_settings (register_env 1100) id (lit ''c'') (lit ''d'') None pending_sample
      sample_request code_verify of (r, _, _) \<Rightarrow> (case r of Inl _ \<Rightarrow> False | Inr x \<Rightarrow> ur_id x = lit ''u9'')"
    by code_simp
  then obtain r ad' cs where run: "verify_email (\<lambda>n. sample_hash) sample_settings (register_env 1100) id (lit ''c'') (lit ''d'') None
      pending_sample sample_request code_verify = (Inr r, ad', cs)" "ur_id r = lit ''u9''"
    by (auto split: sum.splits)
  have "unique_keys vt_id (ad_tokens pending_sample)" by code_simp
  from verification_needs_proof [OF run(1) this] run(2) show ?thesis by auto
qed

text \<open>C24 (the mailed token verifies the account): after a registration that mailed a token, the same
browser, within the lifetime of the token and with no other session in between, verifies the
registered address with it, and the account gets the password chosen at registration.\<close>

theorem mailed_token_verifies:
  assumes reg: "register hash_password deliver ss ev dw id access_jti refresh_jti client_ip ad p = ([mail], Inr resp, ad', cs)"
    and req: "as_verification_required ss" and inv: "auth_inv lower ad"
    and hashes: "\<And>s. plain_text (ev_hash_token ev s)" "\<And>n s. plain_text (hash_password n s)" "ev_hash_token ev2 = ev_hash_token ev"
    and secrets: "py_strip (dw_continuation dw) \<noteq> []" "vm_token mail \<noteq> []"
    and browser: "verify_allowed_origin (as_config ss) rq False = None"
      "rq_cookies rq registration_continuation_cookie = Some (dw_continuation dw)" "vq_token q = Some (vm_token mail)"
    and time: "ev_now ev2 \<le> ev_now ev + seconds (verification_minutes ss * 60)"
  shows "\<exists>r ad2 cs2. verify_email hash_password ss ev2 id access_jti2 refresh_jti2 client_ip2 ad' rq q = (Inr r, ad2, cs2) \<and>
    ur_email r = rr_email resp \<and> ur_email_verified r \<and>
    (\<exists>u. row_get us_id (ur_id r) (db_users (ad_db ad2)) = Some u \<and> us_password_hash u = hash_password 0 (gq_password p))"
proof -
  obtain u rows row_id h where m: "rr_email resp = us_email u" "\<not> us_email_verified u"
    "row_get us_id (us_id u) (db_users (ad_db ad')) = Some ((apply_registration_real_name u (gq_display_name p))\<lparr>us_active_household_id := h\<rparr>)"
    "hash_opaque_token ev (vm_token mail) \<notin> vt_token_hash ` set rows" "row_id \<notin> vt_id ` set rows"
    "vm_to mail = us_email u"
    "ad_tokens ad' = rows @
       [\<lparr>vt_id = row_id, vt_user_id = us_id u, vt_token_hash = hash_opaque_token ev (vm_token mail),
         vt_verification_code_hash = Some (hash_verification_code ev row_id (us_id u) (vm_code mail)),
         vt_pending_password_hash = Some (hash_password 0 (gq_password p)), vt_pending_display_name = Some (py_strip (gq_display_name p)),
         vt_registration_continuation_hash = Some (hash_opaque_token ev (dw_continuation dw)), vt_sent_to = us_email u,
         vt_expires_at = ev_now ev + seconds (verification_minutes ss * 60), vt_consumed_at = None,
         vt_created_at = ev_db_now ev\<rparr>]"
    by (rule register_mailed [OF reg req inv])
  define t where "t = \<lparr>vt_id = row_id, vt_user_id = us_id u, vt_token_hash = hash_opaque_token ev (vm_token mail),
         vt_verification_code_hash = Some (hash_verification_code ev row_id (us_id u) (vm_code mail)),
         vt_pending_password_hash = Some (hash_password 0 (gq_password p)), vt_pending_display_name = Some (py_strip (gq_display_name p)),
         vt_registration_continuation_hash = Some (hash_opaque_token ev (dw_continuation dw)), vt_sent_to = us_email u,
         vt_expires_at = ev_now ev + seconds (verification_minutes ss * 60), vt_consumed_at = None,
         vt_created_at = ev_db_now ev\<rparr>"
  define w where "w = (apply_registration_real_name u (gq_display_name p))\<lparr>us_active_household_id := h\<rparr>"
  have tokens: "ad_tokens ad' = rows @ [t]" using m(7) by (simp add: t_def)
  have hash: "hash_opaque_token ev2 s = hash_opaque_token ev s" for s by (simp add: hash_opaque_token_def hashes(3))
  have plain: "hash_opaque_token ev s \<noteq> []" "py_strip (hash_opaque_token ev s) = hash_opaque_token ev s"
    "hash_password n s \<noteq> []" "py_strip (hash_password n s) = hash_password n s" for n s
    using hashes(1,2) by (simp_all add: hash_opaque_token_def plain_text_def)
  have "row_get vt_token_hash (hash_opaque_token ev (vm_token mail)) rows = None" using m(4) by (simp add: row_get_None_iff)
  then have found: "pending_verification_by_token ev2 ad' (vm_token mail) = Inr t"
    using time by (simp add: pending_verification_by_token_def tokens hash row_get_append t_def)
  have match: "registration_continuation_matches ev2 rq t"
    using browser(2) secrets(1) plain by (simp add: registration_continuation_matches_def text_of_def t_def hash)
      (simp add: hash_opaque_token_def)
  have pw: "proven_password_hash hash_password ev2 rq t (vq_password q) = Inr (hash_password 0 (gq_password p))"
    using match plain by (simp add: proven_password_hash_def text_of_def t_def)
  have one: "length (filter (\<lambda>x. vt_id x = vt_id t \<and> vt_consumed_at x = None) (ad_tokens ad')) = 1"
    using m(5) by (auto simp: tokens t_def filter_empty_conv)
  have w: "row_get us_id (us_id u) (db_users (ad_db ad')) = Some w" "us_id w = us_id u" "us_email w = us_email u" "\<not> us_email_verified w"
    using m(2,3) by (simp_all add: w_def)
  define v where "v = flush_user w (verified_user (ev_now ev2) (ad_db ad') t (vq_display_name q) (hash_password 0 (gq_password p)) w) w"
  have v: "us_id v = us_id u" "us_email v = us_email u" "us_email_verified v" "us_password_hash v = hash_password 0 (gq_password p)"
    using w by (simp_all add: v_def)
  define ad2 where "ad2 = ad'\<lparr>ad_tokens := consume_pending (\<lambda>x. vt_id x = vt_id t) (ev_now ev2) (ad_tokens ad'),
    ad_db := set_users (row_update us_id (us_id u) (\<lambda>_. v) (db_users (ad_db ad'))) (ad_db ad')\<rparr>"
  have tu: "vt_user_id t = us_id u" by (simp add: t_def)
  from verify_with_quiet [OF w(1) [folded tu] w(4) pw one, where ss = ss and aj = access_jti2 and rj = refresh_jti2 and invalid = token_invalid]
  obtain cs2 where "verify_with hash_password ss ev2 id access_jti2 refresh_jti2 token_invalid t ad' rq q = (Inr (to_user_read v), ad2, cs2)"
    unfolding v_def ad2_def tu by blast
  then have run: "verify_email hash_password ss ev2 id access_jti2 refresh_jti2 client_ip2 ad' rq q = (Inr (to_user_read v), ad2, cs2)"
    using browser(1,3) secrets(2) found by (simp add: verify_email_def truthy_text_def)
  have "row_get us_id (us_id u) (row_update us_id (us_id u) (\<lambda>_. v) us) = Some v" if "row_get us_id (us_id u) us = Some w" for us
    using that v(1) by (induction us) (auto simp: row_update_def split: if_splits)
  then have "row_get us_id (us_id u) (db_users (ad_db ad2)) = Some v" using w by (simp add: ad2_def)
  with run v m(1) show ?thesis by (auto simp: to_user_read_def)
qed

lemma mailed_token_verifies_witness:
  "case register (\<lambda>n. sample_hash) (\<lambda>_. True) sample_settings (register_env 1000) sample_draws id (lit ''a'') (lit ''b'') None
      sample_auth sample_register of
     (mails, _, ad', _) \<Rightarrow>
       (\<exists>r ad2 cs2. verify_email (\<lambda>n. sample_hash) sample_settings (register_env 1100) id (lit ''c'') (lit ''d'') None ad' browser_request
          sample_verify = (Inr r, ad2, cs2) \<and> ur_email r = lit ''new@x.io'' \<and> ur_email_verified r)"
proof -
  let ?reg = "register (\<lambda>n. sample_hash) (\<lambda>_. True) sample_settings (register_env 1000) sample_draws id (lit ''a'') (lit ''b'') None
      sample_auth sample_register"
  obtain mails r ad' cs where reg: "?reg = (mails, r, ad', cs)" by (metis prod_cases4)
  with sample_registration obtain mail resp where m: "mails = [mail]" "vm_token mail = lit ''raw-token-12''" "r = Inr resp"
    "rr_email resp = lit ''new@x.io''" by (auto split: sum.splits)
  note reg = reg [unfolded m(1,3)]
  have hash: "ev_hash_token (register_env t) = sample_hash" for t by (simp add: register_env_def)
  have side: "as_verification_required sample_settings" "py_strip (dw_continuation sample_draws) \<noteq> []"
    "verify_allowed_origin (as_config sample_settings) browser_request False = None"
    "rq_cookies browser_request registration_continuation_cookie = Some (dw_continuation sample_draws)"
    "vq_token sample_verify = Some (lit ''raw-token-12'')"
    "ev_now (register_env 1100) \<le> ev_now (register_env 1000) + seconds (verification_minutes sample_settings * 60)"
    by code_simp+
  have "\<exists>r ad2 cs2. verify_email (\<lambda>n. sample_hash) sample_settings (register_env 1100) id (lit ''c'') (lit ''d'') None ad' browser_request
          sample_verify = (Inr r, ad2, cs2) \<and> ur_email r = rr_email resp \<and> ur_email_verified r \<and>
      (\<exists>u. row_get us_id (ur_id r) (db_users (ad_db ad2)) = Some u \<and> us_password_hash u = sample_hash (gq_password sample_register))"
    by (rule mailed_token_verifies [OF reg _ sample_auth_inv])
      (simp_all add: m plain_sample_hash hash side)
  with reg m show ?thesis by auto
qed

end
