(* ===== verification/Ws_Tickets.thy ===== *)
theory Ws_Tickets
  imports Access Ws_Hub
begin

text \<open>
  The web-socket endpoint of \<open>backend/app/main.py\<close> with its single-use tickets: issuing one
  (\<open>_issue_ws_ticket\<close> of \<open>routes/household.py\<close>), finding it among the requested protocols,
  spending it in the table \<open>used_ws_tickets\<close>, admitting the member's socket to the hub, and the
  loop that checks the membership again and again.  \<open>jwt_decode now\<close> is the library's check of
  signature and times at the instant \<open>now\<close>.  One spending is one database transaction and is
  one step here.
\<close>

subsection \<open>Tickets\<close>

record used_ws_ticket =
  ut_jti :: pystr
  ut_household_id :: pystr
  ut_expires_at :: instant

record ws_db =
  wd_db :: db
  wd_used :: "used_ws_ticket list"

definition ws_ticket_ttl :: int where
  "ws_ticket_ttl = 30"

definition issue_ws_ticket :: "(claims \<Rightarrow> pystr) \<Rightarrow> instant \<Rightarrow> pystr \<Rightarrow> ctx \<Rightarrow> pystr \<times> int" where
  "issue_ws_ticket jwt_encode now jti c =
     (case c of (household, member) \<Rightarrow>
        (jwt_encode (ws_ticket_claims ws_ticket_ttl now jti (mb_user_id member) (hh_id household)), ws_ticket_ttl))"

text \<open>\<open>datetime.fromtimestamp\<close> ends with the year 9999.\<close>

definition max_timestamp :: int where
  "max_timestamp = 253402300799"

definition ticket_exp :: "claims \<Rightarrow> int option" where
  "ticket_exp payload =
     (let v = json_get payload (lit ''exp'') in if py_truthy v then json_int v else Some 0)"

definition ticket_jti :: "(json \<Rightarrow> pystr) \<Rightarrow> claims \<Rightarrow> pystr" where
  "ticket_jti rp payload = py_strip (str_or_empty rp (json_get payload (lit ''jti'')))"

text \<open>The insertion of a used ticket: its key must be new and its household must exist.\<close>

definition spend_ticket :: "pystr \<Rightarrow> pystr \<Rightarrow> int \<Rightarrow> int \<Rightarrow> ws_db \<Rightarrow> ws_db option" where
  "spend_ticket household_id jti expiry now_ts d =
     (let left = filter (\<lambda>r. \<not> ut_expires_at r \<le> seconds now_ts) (wd_used d);
          row = \<lparr>ut_jti = jti, ut_household_id = household_id, ut_expires_at = seconds expiry\<rparr>
      in if jti \<in> ut_jti ` set left \<or> household_id \<notin> hh_id ` set (db_households (wd_db d)) then None
         else Some (d\<lparr>wd_used := left @ [row]\<rparr>))"

definition validate_ws_ticket ::
  "(json \<Rightarrow> pystr) \<Rightarrow> (instant \<Rightarrow> pystr \<Rightarrow> claims option) \<Rightarrow> instant \<Rightarrow> pystr \<Rightarrow> pystr option \<Rightarrow> ws_db
   \<Rightarrow> claims option \<times> ws_db" where
  "validate_ws_ticket rp jwt_decode now household_id ticket d =
     (if \<not> truthy_text ticket then (None, d)
      else case decode_ws_ticket rp (jwt_decode now) (the ticket) of
        None \<Rightarrow> (None, d)
      | Some payload \<Rightarrow>
          if str_or_empty rp (json_get payload (lit ''household_id'')) \<noteq> household_id then (None, d)
          else
            (case ticket_exp payload of
               None \<Rightarrow> (None, d)
             | Some expiry \<Rightarrow>
                 (let jti = ticket_jti rp payload; now_ts = timestamp now
                  in if jti = [] \<or> expiry \<le> 0 \<or> expiry \<le> now_ts \<or> max_timestamp < expiry then (None, d)
                     else case spend_ticket household_id jti expiry now_ts d of
                       None \<Rightarrow> (None, d)
                     | Some d' \<Rightarrow> (Some payload, d'))))"

subsection \<open>The endpoint\<close>

definition ticket_prefix :: pystr where
  "ticket_prefix = lit ''ticket.''"

definition extract_ws_ticket :: "pystr option \<Rightarrow> (pystr \<times> pystr) option" where
  "extract_ws_ticket header =
     (let raw = (case header of Some s \<Rightarrow> s | None \<Rightarrow> []);
          requested = filter (\<lambda>x. x \<noteq> []) (map py_strip (split_on (\<lambda>c. c = 44) raw))
      in map_option (\<lambda>p. (drop (length ticket_prefix) p, p)) (find (\<lambda>p. py_startswith p ticket_prefix) requested))"

definition ws_member_exists :: "pystr \<Rightarrow> pystr \<Rightarrow> db \<Rightarrow> bool" where
  "ws_member_exists household_id user_id d \<longleftrightarrow>
     list_ex (\<lambda>m. mb_household_id m = household_id \<and> mb_user_id m = user_id) (db_members d)"

text \<open>
  A socket is closed with 1008 or accepted with the protocol it asked for and registered in the
  hub; \<open>race\<close> is what other requests commit between the two database sessions.
\<close>

definition open_household_ws ::
  "(json \<Rightarrow> pystr) \<Rightarrow> (instant \<Rightarrow> pystr \<Rightarrow> claims option) \<Rightarrow> instant \<Rightarrow> (ws_db \<Rightarrow> ws_db) \<Rightarrow> pystr \<Rightarrow> pystr option
   \<Rightarrow> socket \<Rightarrow> ws_db \<Rightarrow> hub \<Rightarrow> (pystr \<times> pystr option) option \<times> ws_db \<times> hub" where
  "open_household_ws rp jwt_decode now race household_id header s d hb =
     (let (ticket, selected) = (case extract_ws_ticket header of
                                  Some (t, p) \<Rightarrow> (Some t, Some p) | None \<Rightarrow> (None, None))
      in case validate_ws_ticket rp jwt_decode now household_id ticket d of
           (None, d1) \<Rightarrow> (None, d1, hb)
         | (Some payload, d1) \<Rightarrow>
             (let user_id = py_strip (str_or_empty rp (json_get payload (lit ''sub'')));
                  d2 = race d1
              in if user_id = [] then (None, d1, hb)
                 else if \<not> ws_member_exists household_id user_id (wd_db d2) then (None, d2, hb)
                 else (Some (user_id, selected), d2, hub_connect household_id user_id s hb)))"

text \<open>
  One turn of the loop: \<open>wt_woken\<close> is the time after \<open>wait_for\<close>, with or without a text;
  when a check is due the table is read at \<open>wt_checked\<close>, and \<open>wt_resumed\<close> is the time read for
  the next deadline.  \<open>member t\<close> says whether the row exists at \<open>t\<close>.  All times are in microseconds.
\<close>

record ws_turn =
  wt_woken :: instant
  wt_checked :: instant
  wt_resumed :: instant

datatype ws_end = Ws_closed instant | Ws_open instant

definition recheck_interval :: "int \<Rightarrow> int" where
  "recheck_interval ws_membership_recheck_micros = max 200000 ws_membership_recheck_micros"

fun ws_turns :: "int \<Rightarrow> (instant \<Rightarrow> bool) \<Rightarrow> instant \<Rightarrow> ws_turn list \<Rightarrow> ws_end" where
  "ws_turns interval member next_recheck_at [] = Ws_open next_recheck_at"
| "ws_turns interval member next_recheck_at (t # ts) =
     (if next_recheck_at \<le> wt_woken t then
        (if \<not> member (wt_checked t) then Ws_closed (wt_checked t)
         else ws_turns interval member (wt_resumed t + interval) ts)
      else ws_turns interval member next_recheck_at ts)"

text \<open>
  The times of an event loop that is never more than \<open>delay\<close> late: \<open>wait_for\<close> ends by the
  deadline, the check is read and answered in time.
\<close>

fun prompt_turns :: "int \<Rightarrow> int \<Rightarrow> instant \<Rightarrow> instant \<Rightarrow> ws_turn list \<Rightarrow> bool" where
  "prompt_turns delay interval start next_recheck_at [] \<longleftrightarrow> True"
| "prompt_turns delay interval start next_recheck_at (t # ts) \<longleftrightarrow>
     start \<le> wt_woken t \<and> wt_woken t \<le> max start next_recheck_at + delay
     \<and> (if next_recheck_at \<le> wt_woken t
        then wt_woken t \<le> wt_checked t \<and> wt_checked t \<le> wt_woken t + delay
          \<and> wt_checked t \<le> wt_resumed t \<and> wt_resumed t \<le> wt_checked t + delay
          \<and> prompt_turns delay interval (wt_resumed t) (wt_resumed t + interval) ts
        else prompt_turns delay interval (wt_woken t) next_recheck_at ts)"

subsection \<open>Spending\<close>

text \<open>
  What happens to the table while a ticket of household \<open>h\<close> is alive: other tickets are spent by
  clocks not later than \<open>T\<close>, and any other request changes the database, where the rows of a
  deleted household go with it and a deleted household does not come back.
\<close>

inductive ws_reach ::
  "(json \<Rightarrow> pystr) \<Rightarrow> (instant \<Rightarrow> pystr \<Rightarrow> claims option) \<Rightarrow> pystr \<Rightarrow> instant \<Rightarrow> ws_db \<Rightarrow> ws_db \<Rightarrow> bool"
  for rp jwt_decode h T d where
  start: "ws_reach rp jwt_decode h T d d"
| validation: "ws_reach rp jwt_decode h T d d' \<Longrightarrow> now \<le> T \<Longrightarrow>
    ws_reach rp jwt_decode h T d (snd (validate_ws_ticket rp jwt_decode now household_id ticket d'))"
| other: "ws_reach rp jwt_decode h T d d' \<Longrightarrow>
    (h \<in> hh_id ` set (db_households db') \<longrightarrow> h \<in> hh_id ` set (db_households (wd_db d'))) \<Longrightarrow>
    ws_reach rp jwt_decode h T d
      (d'\<lparr>wd_db := db',
         wd_used := filter (\<lambda>r. ut_household_id r \<in> hh_id ` set (db_households db')) (wd_used d')\<rparr>)"

definition ticket_spent :: "pystr \<Rightarrow> pystr \<Rightarrow> int \<Rightarrow> ws_db \<Rightarrow> bool" where
  "ticket_spent h jti expiry d \<longleftrightarrow>
     h \<notin> hh_id ` set (db_households (wd_db d))
     \<or> \<lparr>ut_jti = jti, ut_household_id = h, ut_expires_at = seconds expiry\<rparr> \<in> set (wd_used d)"

lemma validate_ws_ticket_SomeD:
  assumes "validate_ws_ticket rp dec now h ticket d = (Some payload, d')"
  shows "\<exists>tok expiry. ticket = Some tok \<and> dec now tok = Some payload \<and> ticket_exp payload = Some expiry
    \<and> timestamp now < expiry \<and> str_or_empty rp (json_get payload (lit ''household_id'')) = h
    \<and> spend_ticket h (ticket_jti rp payload) expiry (timestamp now) d = Some d'"
  using assms
  by (auto simp: validate_ws_ticket_def truthy_text_def decode_ws_ticket_def bind_eq_Some_conv Let_def
      dest!: check_claims_SomeD split: if_splits option.splits)

lemma validate_ws_ticket_state:
  "snd (validate_ws_ticket rp dec now h ticket d) = d
   \<or> (\<exists>jti expiry. spend_ticket h jti expiry (timestamp now) d = Some (snd (validate_ws_ticket rp dec now h ticket d)))"
  by (auto simp: validate_ws_ticket_def Let_def split: option.splits)

lemma spend_ticket_spent:
  "spend_ticket h jti expiry now_ts d = Some d' \<Longrightarrow> ticket_spent h jti expiry d'"
  by (auto simp: spend_ticket_def ticket_spent_def Let_def split: if_splits)

lemma spend_ticket_keeps:
  "spend_ticket h' jti' expiry' now_ts d = Some d' \<Longrightarrow> now_ts < expiry \<Longrightarrow> ticket_spent h jti expiry d \<Longrightarrow>
   ticket_spent h jti expiry d'"
  by (auto simp: spend_ticket_def ticket_spent_def Let_def seconds_def split: if_splits)

lemma spent_ticket_refused:
  "ticket_spent h jti expiry d \<Longrightarrow> now_ts < expiry \<Longrightarrow> spend_ticket h jti expiry' now_ts d = None"
  by (force simp: spend_ticket_def ticket_spent_def Let_def seconds_def)

lemma timestamp_mono: "a \<le> b \<Longrightarrow> timestamp a \<le> timestamp b"
  by (simp add: timestamp_def zdiv_mono1)

lemma ws_reach_spent:
  "ws_reach rp dec h T d d' \<Longrightarrow> timestamp T < expiry \<Longrightarrow> ticket_spent h jti expiry d \<Longrightarrow> ticket_spent h jti expiry d'"
proof (induction rule: ws_reach.induct)
  case (validation d' now household_id ticket)
  from validation.hyps(2) validation.prems(1) have "timestamp now < expiry"
    using timestamp_mono [of now T] by simp
  with validate_ws_ticket_state [of rp dec now household_id ticket d'] validation.IH validation.prems
  show ?case by (auto dest: spend_ticket_keeps)
next
  case (other d' db')
  then show ?case by (auto simp: ticket_spent_def)
qed auto

text \<open>A ticket just issued passes the checks of the endpoint while its time lasts.\<close>

lemma issued_ticket_valid:
  assumes "jwt_decode now (fst (issue_ws_ticket jwt_encode t0 jti (household, member)))
      = Some (ws_ticket_claims ws_ticket_ttl t0 jti (mb_user_id member) (hh_id household))"
    and "py_strip jti = jti" "jti \<noteq> []" "hh_id household \<noteq> []" "jwt_encode (ws_ticket_claims ws_ticket_ttl t0 jti (mb_user_id member) (hh_id household)) \<noteq> []"
    and "0 \<le> t0" "now < t0 + seconds 29" "t0 + seconds 30 \<le> seconds max_timestamp"
    and "jti \<notin> ut_jti ` set (wd_used d)" "hh_id household \<in> hh_id ` set (db_households (wd_db d))"
  shows "\<exists>d'. validate_ws_ticket rp jwt_decode now (hh_id household)
      (Some (fst (issue_ws_ticket jwt_encode t0 jti (household, member)))) d
      = (Some (ws_ticket_claims ws_ticket_ttl t0 jti (mb_user_id member) (hh_id household)), d')"
proof -
  let ?c = "ws_ticket_claims ws_ticket_ttl t0 jti (mb_user_id member) (hh_id household)"
  let ?e = "timestamp (t0 + seconds 30)"
  have jti: "json_get ?c (lit ''jti'') = JStr jti" and ty: "json_get ?c (lit ''typ'') = JStr (lit ''ws_ticket'')"
    by (rule claims_jti claims_typ)+
  have hh: "json_get ?c (lit ''household_id'') = JStr (hh_id household)"
    and ex: "json_get ?c (lit ''exp'') = JInt ?e"
    by (simp_all add: json_get_def ws_ticket_claims_def ws_ticket_ttl_def lit_def)
  have e: "?e = timestamp t0 + 30" "0 < ?e" "timestamp now < ?e" "?e \<le> max_timestamp"
    using assms(6-8) by (auto simp: timestamp_def seconds_def max_timestamp_def)
  have "ticket_exp ?c = Some ?e" "ticket_jti rp ?c = jti"
    using e assms(2,3) by (simp_all add: ticket_exp_def ticket_jti_def ex jti str_or_empty_def Let_def)
  moreover have "check_claims rp ''ws_ticket'' ?c = Some ?c"
    using assms(2,3) by (simp add: check_claims_def ty jti str_or_empty_def)
  moreover have "jti \<notin> ut_jti ` set (filter (\<lambda>r. \<not> ut_expires_at r \<le> seconds (timestamp now)) (wd_used d))"
    using assms(9) by auto
  ultimately show ?thesis
    using assms e
    by (simp add: validate_ws_ticket_def issue_ws_ticket_def truthy_text_def decode_ws_ticket_def
        hh str_or_empty_def spend_ticket_def Let_def)
qed

subsection \<open>The properties\<close>

lemma ws_turns_bounded:
  assumes "prompt_turns delay interval start nxt ts" "\<forall>t. r \<le> t \<longrightarrow> \<not> member t"
    and "0 \<le> delay" "0 \<le> interval" "start \<le> r + interval + delay" "nxt \<le> r + interval + delay"
  shows "case ws_turns interval member nxt ts of
      Ws_closed t \<Rightarrow> t \<le> r + interval + 3 * delay
    | Ws_open n \<Rightarrow> n \<le> r + interval + delay \<and> (ts \<noteq> [] \<longrightarrow> wt_woken (last ts) \<le> r + interval + delay)"
  using assms
proof (induction ts arbitrary: start nxt)
  case (Cons t ts)
  show ?case
  proof (cases "nxt \<le> wt_woken t")
    case late: True
    show ?thesis
    proof (cases "member (wt_checked t)")
      case True
      with Cons.prems(2) have "wt_checked t < r" by (meson not_le)
      with Cons.prems late True Cons.IH [of "wt_resumed t" "wt_resumed t + interval"]
      show ?thesis by (auto split: ws_end.splits)
    next
      case False
      with late Cons.prems show ?thesis by (auto simp: max_def split: if_splits)
    qed
  next
    case False
    with Cons.prems Cons.IH [of "wt_woken t" nxt] show ?thesis by (auto split: ws_end.splits)
  qed
qed auto

definition sample_ws_household :: household where
  "sample_ws_household = \<lparr>hh_id = lit ''h1'', hh_name = lit ''home'', hh_base_currency = lit ''KRW'',
     hh_transaction_row_colors = [], hh_holding_settings = [], hh_created_at = 0\<rparr>"

definition sample_ws_db :: ws_db where
  "sample_ws_db = \<lparr>wd_db = \<lparr>db_users = [], db_revoked = [], db_households = [sample_ws_household],
     db_members = [], db_invitations = [], db_categories = [], db_transactions = [], db_holdings = [],
     db_patch_logs = []\<rparr>, wd_used = []\<rparr>"

definition sample_ws_decode :: "instant \<Rightarrow> pystr \<Rightarrow> claims option" where
  "sample_ws_decode now t = (if t = [1] then Some (ws_ticket_claims 30 0 (lit ''j1'') (lit ''u1'') (lit ''h1'')) else None)"

text \<open>C25 (a web-socket ticket opens one socket): once a ticket has been accepted, no later
presentation of it is, for any household, whatever tickets are spent and whatever other requests do
in between, by clocks that do not run ahead of the later presentation; deleting the expired rows does not
forget it too early, because an expired ticket is refused without the leeway of the JWT library.\<close>

theorem ws_ticket_single_use:
  assumes "validate_ws_ticket rp jwt_decode now h (Some ticket) d = (Some payload, d1)"
    and "ws_reach rp jwt_decode h T d1 d2" and "T \<le> now2"
    and "\<forall>t p. jwt_decode t ticket = Some p \<longrightarrow> p = payload"
  shows "validate_ws_ticket rp jwt_decode now2 h2 (Some ticket) d2 = (None, d2)"
proof (rule ccontr)
  assume "validate_ws_ticket rp jwt_decode now2 h2 (Some ticket) d2 \<noteq> (None, d2)"
  then obtain p d3 where again: "validate_ws_ticket rp jwt_decode now2 h2 (Some ticket) d2 = (Some p, d3)"
    by (auto simp: validate_ws_ticket_def Let_def split: if_splits option.splits)
  from validate_ws_ticket_SomeD [OF assms(1)] obtain expiry where
    e: "ticket_exp payload = Some expiry" "str_or_empty rp (json_get payload (lit ''household_id'')) = h"
      "spend_ticket h (ticket_jti rp payload) expiry (timestamp now) d = Some d1" by blast
  from validate_ws_ticket_SomeD [OF again] assms(4) e(1,2)
  have a: "timestamp now2 < expiry" "spend_ticket h (ticket_jti rp payload) expiry (timestamp now2) d2 = Some d3"
    by auto
  have "timestamp T < expiry" using a(1) timestamp_mono [OF assms(3)] by simp
  from ws_reach_spent [OF assms(2) this spend_ticket_spent [OF e(3)]] spent_ticket_refused [OF _ a(1)] a(2)
  show False by simp
qed

lemma ws_ticket_single_use_witness:
  "let (p, d1) = validate_ws_ticket (\<lambda>_. []) sample_ws_decode (seconds 5) (lit ''h1'') (Some [1]) sample_ws_db
   in p \<noteq> None \<and> validate_ws_ticket (\<lambda>_. []) sample_ws_decode (seconds 6) (lit ''h1'') (Some [1]) d1 = (None, d1)"
proof -
  have "case validate_ws_ticket (\<lambda>_. []) sample_ws_decode (seconds 5) (lit ''h1'') (Some [1]) sample_ws_db of
      (p, d1) \<Rightarrow> p = Some (ws_ticket_claims 30 0 (lit ''j1'') (lit ''u1'') (lit ''h1''))" by code_simp
  then obtain d1 where first: "validate_ws_ticket (\<lambda>_. []) sample_ws_decode (seconds 5) (lit ''h1'') (Some [1]) sample_ws_db
      = (Some (ws_ticket_claims 30 0 (lit ''j1'') (lit ''u1'') (lit ''h1'')), d1)"
    by (cases "validate_ws_ticket (\<lambda>_. []) sample_ws_decode (seconds 5) (lit ''h1'') (Some [1]) sample_ws_db") auto
  have "\<forall>t p. sample_ws_decode t [1] = Some p \<longrightarrow> p = ws_ticket_claims 30 0 (lit ''j1'') (lit ''u1'') (lit ''h1'')"
    by (simp add: sample_ws_decode_def)
  with ws_ticket_single_use [OF first ws_reach.start, of "seconds 6" "seconds 6"] first
  show ?thesis by simp
qed

text \<open>(a removed member's socket is closed in time): when a membership ends at \<open>r\<close> for good,
a socket admitted by a check at \<open>c0\<close> is closed at most one recheck interval and three delays of the event
loop later, and no turn of its loop wakes after that without closing it: while the socket is open the last turn
woke at most one interval and one delay after \<open>r\<close>, texts of the client notwithstanding.\<close>

theorem removed_member_socket_closes:
  assumes "\<forall>t. r \<le> t \<longrightarrow> \<not> member t" and "member c0" and "start \<le> c0 + delay" and "0 \<le> delay"
    and "prompt_turns delay (recheck_interval m) start (start + recheck_interval m) ts"
  shows "case ws_turns (recheck_interval m) member (start + recheck_interval m) ts of
      Ws_closed t \<Rightarrow> t \<le> r + recheck_interval m + 3 * delay
    | Ws_open n \<Rightarrow> ts \<noteq> [] \<longrightarrow> wt_woken (last ts) \<le> r + recheck_interval m + delay"
proof -
  have "c0 < r" using assms(1,2) by (meson not_le)
  moreover have "0 \<le> recheck_interval m" by (simp add: recheck_interval_def)
  ultimately show ?thesis
    using ws_turns_bounded [OF assms(5,1,4)] assms(3,4) by (auto split: ws_end.splits)
qed

lemma removed_member_socket_closes_witness:
  "ws_turns (recheck_interval 1000000) (\<lambda>t. t < 1500000) 1000000
     [\<lparr>wt_woken = 400000, wt_checked = 0, wt_resumed = 0\<rparr>, \<lparr>wt_woken = 1000000, wt_checked = 1000010, wt_resumed = 1000020\<rparr>,
      \<lparr>wt_woken = 2000020, wt_checked = 2000030, wt_resumed = 2000030\<rparr>] = Ws_closed 2000030
   \<and> (2000030 :: int) \<le> 1500000 + recheck_interval 1000000 + 3 * 100"
  using removed_member_socket_closes [of 1500000 "\<lambda>t. t < 1500000" 0 0 100 1000000
     "[\<lparr>wt_woken = 400000, wt_checked = 0, wt_resumed = 0\<rparr>, \<lparr>wt_woken = 1000000, wt_checked = 1000010, wt_resumed = 1000020\<rparr>,
       \<lparr>wt_woken = 2000020, wt_checked = 2000030, wt_resumed = 2000030\<rparr>]"]
  by (simp add: recheck_interval_def)

end
