(* ===== verification/Number_Text.thy ===== *)
theory Number_Text
  imports Profile
begin

text \<open>
  Numbers and dates as Python writes and reads them: \<open>str\<close> of an integer, \<open>date.isoformat\<close>,
  \<open>Decimal(text)\<close>, \<open>format(value, "f")\<close>, \<open>Decimal.quantize\<close> to four places and the division
  of the default context (28 digits, half to even).  A \<open>Decimal\<close> is a rational number or \<open>NaN\<close>;
  infinities and the digits of other scripts are read as text that is no number.
\<close>

subsection \<open>Integers and dates\<close>

text \<open>The digits of a number that is not negative.\<close>

function nat_text :: "int \<Rightarrow> pystr" where
  "nat_text n = (if n < 10 then [48 + n] else nat_text (n div 10) @ [48 + n mod 10])"
  by pat_completeness auto
termination by (relation "measure nat") auto

declare nat_text.simps [simp del]

definition int_text :: "int \<Rightarrow> pystr" where
  "int_text n = (if n < 0 then 45 # nat_text (- n) else nat_text n)"

definition digit_text :: "int \<Rightarrow> int \<Rightarrow> int" where
  "digit_text n p = 48 + (n div p) mod 10"

definition iso_date :: "date \<Rightarrow> pystr" where
  "iso_date dt =
     (case dt of (y, m, d) \<Rightarrow>
        [digit_text y 1000, digit_text y 100, digit_text y 10, digit_text y 1, 45,
         digit_text m 10, digit_text m 1, 45, digit_text d 10, digit_text d 1])"

text \<open>The number a text of digits stands for.\<close>

definition digits_value :: "pystr \<Rightarrow> int" where
  "digits_value ds = foldl (\<lambda>acc c. acc * 10 + (c - 48)) 0 ds"

lemma digits_value_snoc: "digits_value (ds @ [c]) = digits_value ds * 10 + (c - 48)"
  by (simp add: digits_value_def)

lemma nat_text_digits: "0 \<le> n \<Longrightarrow> c \<in> set (nat_text n) \<Longrightarrow> digit_cp c"
proof (induction n rule: nat_text.induct)
  case (1 n)
  show ?case
  proof (cases "n < 10")
    case True
    with 1(2,3) show ?thesis by (simp add: nat_text.simps [of n] digit_cp_def)
  next
    case False
    have "0 \<le> n mod 10" "n mod 10 \<le> 9" by simp_all
    with False 1 show ?thesis by (auto simp: nat_text.simps [of n] digit_cp_def)
  qed
qed

lemma nat_text_not_Nil [simp]: "nat_text n \<noteq> []"
  by (simp add: nat_text.simps [of n])

lemma digits_value_nat_text: "0 \<le> n \<Longrightarrow> digits_value (nat_text n) = n"
proof (induction n rule: nat_text.induct)
  case (1 n)
  show ?case
  proof (cases "n < 10")
    case True
    with 1(2) show ?thesis by (simp add: nat_text.simps [of n] digits_value_def)
  next
    case False
    with 1 show ?thesis
      by (simp add: nat_text.simps [of n] digits_value_snoc)
  qed
qed

lemma nat_text_eq_iff: "0 \<le> m \<Longrightarrow> 0 \<le> n \<Longrightarrow> nat_text m = nat_text n \<longleftrightarrow> m = n"
  by (metis digits_value_nat_text)

subsection \<open>Reading a decimal\<close>

datatype num = Num rat | NaN

definition nan_text :: "pystr \<Rightarrow> bool" where
  "nan_text t \<longleftrightarrow>
     (let u = (if py_startswith t (lit ''snan'') then drop 4 t else if py_startswith t (lit ''nan'') then drop 3 t else [120])
      in list_all digit_cp u)"

text \<open>Digits, a point and digits, with at least one digit.\<close>

definition plain_decimal :: "pystr \<Rightarrow> (rat \<times> pystr) option" where
  "plain_decimal t =
     (let whole = takeWhile digit_cp t; rest = dropWhile digit_cp t;
          pointed = (rest \<noteq> [] \<and> hd rest = 46);
          frac = (if pointed then takeWhile digit_cp (tl rest) else []);
          rest' = (if pointed then dropWhile digit_cp (tl rest) else rest)
      in if whole @ frac = [] then None
         else Some (of_int (digits_value (whole @ frac)) / 10 ^ length frac, rest'))"

definition exponent_of :: "pystr \<Rightarrow> int option" where
  "exponent_of t =
     (case t of
        [] \<Rightarrow> Some 0
      | c # cs \<Rightarrow>
          if c \<noteq> 101 then None
          else
            (let negative = (cs \<noteq> [] \<and> hd cs = 45);
                 ds = (if cs \<noteq> [] \<and> (hd cs = 45 \<or> hd cs = 43) then tl cs else cs)
             in if ds = [] \<or> \<not> list_all digit_cp ds then None
                else Some (if negative then - digits_value ds else digits_value ds)))"

definition scale10 :: "rat \<Rightarrow> int \<Rightarrow> rat" where
  "scale10 q e = (if 0 \<le> e then q * 10 ^ nat e else q / 10 ^ nat (- e))"

definition py_decimal :: "pystr \<Rightarrow> num option" where
  "py_decimal s =
     (let t = py_lower (filter (\<lambda>c. c \<noteq> 95) (py_strip s));
          negative = (t \<noteq> [] \<and> hd t = 45);
          u = (if t \<noteq> [] \<and> (hd t = 45 \<or> hd t = 43) then tl t else t)
      in if nan_text u then Some NaN
         else
           (case plain_decimal u of
              None \<Rightarrow> None
            | Some (q, rest) \<Rightarrow>
                map_option (\<lambda>e. Num (scale10 (if negative then - q else q) e)) (exponent_of rest)))"

subsection \<open>Rounding and writing\<close>

definition round_half_even :: "rat \<Rightarrow> int" where
  "round_half_even q =
     (let f = \<lfloor>q\<rfloor>; r = q - of_int f
      in if r < 1 / 2 then f else if 1 / 2 < r then f + 1 else if even f then f else f + 1)"

text \<open>\<open>value.quantize(Decimal("0.0001"))\<close>; \<open>None\<close> is \<open>InvalidOperation\<close>: more than 28 digits.\<close>

definition quantize4 :: "rat \<Rightarrow> rat option" where
  "quantize4 q =
     (let n = round_half_even (q * 10000)
      in if \<bar>n\<bar> < 10 ^ 28 then Some (of_int n / 10000) else None)"

text \<open>The number of digits before the point; zero or negative below one.\<close>

function digit_count :: "int \<Rightarrow> int" where
  "digit_count n = (if n \<le> 0 then 0 else 1 + digit_count (n div 10))"
  by pat_completeness auto
termination by (relation "measure nat") auto

declare digit_count.simps [simp del]

definition magnitude :: "rat \<Rightarrow> int" where
  "magnitude q =
     (case quotient_of \<bar>q\<bar> of
        (n, d) \<Rightarrow> (let e = digit_count n - digit_count d
                    in if scale10 1 e \<le> \<bar>q\<bar> then e + 1 else e))"

definition div28 :: "rat \<Rightarrow> rat \<Rightarrow> rat" where
  "div28 a b =
     (let q = a / b
      in if q = 0 then 0
         else (let shift = 28 - magnitude q in scale10 (of_int (round_half_even (scale10 q shift))) (- shift)))"

text \<open>\<open>format(value.normalize(), "f")\<close> for values of at most 28 digits.\<close>

fun frac_text :: "nat \<Rightarrow> rat \<Rightarrow> pystr" where
  "frac_text 0 f = []"
| "frac_text (Suc n) f =
     (if f = 0 then [] else (let d = \<lfloor>f * 10\<rfloor> in (48 + d) # frac_text n (f * 10 - of_int d)))"

definition fixed_text :: "rat \<Rightarrow> pystr" where
  "fixed_text q =
     (let a = \<bar>q\<bar>; w = \<lfloor>a\<rfloor>; f = a - of_int w
      in (if q < 0 then [45] else []) @ nat_text w
         @ (if f = 0 then [] else 46 # frac_text 28 f))"

lemma round_half_even_int [simp]: "round_half_even (of_int n) = n"
  by (simp add: round_half_even_def)

lemma round_half_even_nonneg: "0 \<le> q \<Longrightarrow> 0 \<le> round_half_even q"
  by (auto simp: round_half_even_def Let_def)

lemma quantize4_SomeD:
  assumes "quantize4 q = Some r"
  shows "\<exists>n :: int. r = of_int n / 10000" and "0 \<le> q \<Longrightarrow> 0 \<le> r"
proof -
  have r: "r = of_int (round_half_even (q * 10000)) / 10000"
    using assms by (auto simp: quantize4_def Let_def split: if_splits)
  then show "\<exists>n :: int. r = of_int n / 10000" by blast
  show "0 \<le> r" if "0 \<le> q"
    unfolding r using round_half_even_nonneg [of "q * 10000"] that by simp
qed

lemma py_decimal_samples:
  "py_decimal (lit ''12000.0'') = Some (Num 12000)" "py_decimal (lit ''-1.5E+2'') = Some (Num (-150))"
  "py_decimal (lit ''NaN'') = Some NaN" "py_decimal (lit ''=SUM(F10)'') = None"
  by code_simp+

lemma fixed_text_samples: "fixed_text 12000 = lit ''12000''" "fixed_text (- 25 / 2) = lit ''-12.5''"
  by code_simp+

lemma div28_sample: "quantize4 (div28 100000 3) = Some (333333333 / 10000)"
  by code_simp

end
