(* ===== verification/Workbook.thy ===== *)
theory Workbook
  imports Number_Text "HOL-Library.Monad_Syntax"
begin

text \<open>
  Reading a workbook, \<open>backend/app/services/importer.py\<close>: the values of cells as texts, dates and
  amounts, the bounds of sheets, the metrics over formulas and the texts derived from a row (flow
  type, owner, symbols).  A cell is what the spreadsheet library delivers, a workbook the list of
  its sheets; a float is represented by its \<open>repr\<close>, any other object by its \<open>str\<close>.
  \<open>datetime.fromisoformat\<close> and the SHA-256 digest are parameters.  \<open>None\<close> as the result of a
  parser is an exception that nobody catches.  Texts in Hangul are lists of code points.
\<close>

subsection \<open>Cells\<close>

datatype cell =
    Blank
  | Bool_cell bool
  | Int_cell int
  | Float_cell pystr
  | Text_cell pystr
  | Date_cell date pystr
  | Other_cell pystr

record sheet =
  sh_title :: pystr
  sh_rows :: "cell list list"
  sh_max_row :: "int option"
  sh_max_column :: "int option"
  sh_merged :: int
  sh_charts :: int

record import_settings =
  is_max_sheets :: int
  is_max_rows :: int
  is_max_columns :: int

record import_env =
  ie_settings :: import_settings
  ie_from_iso :: "pystr \<Rightarrow> date option"
  ie_sha :: "pystr \<Rightarrow> pystr"
  ie_new_id :: "nat \<Rightarrow> pystr"
  ie_env :: env

record import_issue =
  ii_severity :: string
  ii_code :: string
  ii_sheet :: "pystr option"
  ii_row :: "int option"
  ii_detail :: "pystr list"

definition import_warning :: "string \<Rightarrow> pystr \<Rightarrow> int option \<Rightarrow> import_issue" where
  "import_warning code sheet row =
     \<lparr>ii_severity = ''warning'', ii_code = code, ii_sheet = Some sheet, ii_row = row, ii_detail = []\<rparr>"

definition none_if_empty :: "pystr \<Rightarrow> pystr option" where
  "none_if_empty s = (if s = [] then None else Some s)"

definition text_or :: "pystr option \<Rightarrow> pystr \<Rightarrow> pystr" where
  "text_or v dflt = (case v of Some s \<Rightarrow> if s = [] then dflt else s | None \<Rightarrow> dflt)"

text \<open>\<open>str(value)\<close>.\<close>

fun cell_str :: "cell \<Rightarrow> pystr" where
  "cell_str Blank = lit ''None''"
| "cell_str (Bool_cell b) = (if b then lit ''True'' else lit ''False'')"
| "cell_str (Int_cell n) = int_text n"
| "cell_str (Float_cell s) = s"
| "cell_str (Text_cell s) = s"
| "cell_str (Date_cell _ s) = s"
| "cell_str (Other_cell s) = s"

definition cell_text :: "cell \<Rightarrow> pystr option" where
  "cell_text v =
     (if v = Blank then None
      else none_if_empty (map (\<lambda>c. if c = 10 then 32 else c) (py_strip (cell_str v))))"

definition to_date :: "import_env \<Rightarrow> cell \<Rightarrow> date option" where
  "to_date ie v =
     (case v of
        Date_cell d _ \<Rightarrow> Some d
      | Text_cell s \<Rightarrow> (let t = py_strip s in if t = [] then None else ie_from_iso ie t)
      | _ \<Rightarrow> None)"

text \<open>The outer \<open>None\<close> is \<open>InvalidOperation\<close> of \<open>Decimal(str(value))\<close>, which only a Boolean causes.\<close>

definition to_decimal :: "cell \<Rightarrow> num option option" where
  "to_decimal v =
     (case v of
        Blank \<Rightarrow> Some None
      | Bool_cell b \<Rightarrow> map_option Some (py_decimal (cell_str v))
      | Int_cell n \<Rightarrow> Some (Some (Num (of_int n)))
      | Float_cell s \<Rightarrow> map_option Some (py_decimal s)
      | Text_cell s \<Rightarrow>
          (let t = filter (\<lambda>c. c \<noteq> 44) (py_strip s)
           in Some (if t = [] \<or> t = lit ''-'' \<or> t = lit ''N/A'' \<or> t = lit '' '' then None else py_decimal t))
      | _ \<Rightarrow> Some None)"

text \<open>\<open>value and value > 0\<close>, or the negation of \<open>value is None or value <= 0\<close>: comparing \<open>NaN\<close> raises.\<close>

definition positive :: "num option \<Rightarrow> bool option" where
  "positive v = (case v of None \<Rightarrow> Some False | Some NaN \<Rightarrow> None | Some (Num q) \<Rightarrow> Some (0 < q))"

definition num_truthy :: "num option \<Rightarrow> bool" where
  "num_truthy v \<longleftrightarrow> v \<noteq> None \<and> v \<noteq> Some (Num 0)"

definition num_value :: "num option \<Rightarrow> rat" where
  "num_value v = (case v of Some (Num q) \<Rightarrow> q | _ \<Rightarrow> 0)"

definition row_value :: "cell list \<Rightarrow> nat \<Rightarrow> cell" where
  "row_value vals column_index =
     (if column_index = 0 \<or> length vals < column_index then Blank else vals ! (column_index - 1))"

subsection \<open>Sheets\<close>

definition month_sheet :: "pystr \<Rightarrow> bool" where
  "month_sheet title \<longleftrightarrow>
     list_ex (\<lambda>n. title = nat_text n \<or> title = nat_text n @ [10]) [1, 2, 3, 4, 5, 6, 7, 8, 9, 10, 11, 12]"

definition find_sheet :: "sheet list \<Rightarrow> pystr \<Rightarrow> sheet option" where
  "find_sheet wb name = find (\<lambda>ws. sh_title ws = name) wb"

definition upper_bound :: "int option \<Rightarrow> int \<Rightarrow> int" where
  "upper_bound n cap = (case n of Some k \<Rightarrow> if 0 < k then min k cap else cap | None \<Rightarrow> cap)"

definition upper_bound_with_issue :: "import_env \<Rightarrow> sheet \<Rightarrow> int \<times> import_issue list" where
  "upper_bound_with_issue ie ws =
     (let row_cap = max 1 (is_max_rows (ie_settings ie))
      in (upper_bound (sh_max_row ws) row_cap,
          (case sh_max_row ws of
             Some n \<Rightarrow> if row_cap < n
                       then [import_warning ''IMPORT_ROW_LIMIT_TRUNCATED'' (sh_title ws) (Some (row_cap + 1))] else []
           | None \<Rightarrow> [])))"

fun number_from :: "int \<Rightarrow> 'a list \<Rightarrow> (int \<times> 'a) list" where
  "number_from i [] = []"
| "number_from i (x # xs) = (i, x) # number_from (i + 1) xs"

definition iter_rows_values :: "sheet \<Rightarrow> nat \<Rightarrow> int \<Rightarrow> nat \<Rightarrow> (int \<times> cell list) list" where
  "iter_rows_values ws min_row max_row max_col =
     number_from (int min_row)
       (map (take max_col) (take (nat (max_row - int min_row + 1)) (drop (min_row - 1) (sh_rows ws))))"

subsection \<open>Metrics\<close>

function column_letter :: "int \<Rightarrow> pystr" where
  "column_letter n = (if n \<le> 0 then [] else column_letter ((n - 1) div 26) @ [65 + (n - 1) mod 26])"
  by pat_completeness auto
termination by (relation "measure nat") auto

declare column_letter.simps [simp del]

definition coordinate :: "int \<Rightarrow> int \<Rightarrow> pystr" where
  "coordinate row col = column_letter col @ int_text row"

fun is_formula :: "cell \<Rightarrow> bool" where
  "is_formula (Text_cell (c # _)) \<longleftrightarrow> c = 61"
| "is_formula _ \<longleftrightarrow> False"

definition sheet_formulas :: "import_env \<Rightarrow> sheet \<Rightarrow> (pystr \<times> pystr) list" where
  "sheet_formulas ie ws =
     (let row_limit = upper_bound (sh_max_row ws) (is_max_rows (ie_settings ie));
          col_limit = upper_bound (sh_max_column ws) (is_max_columns (ie_settings ie))
      in concat (map (\<lambda>(r, vals). map (\<lambda>(c, v). (coordinate r c, py_strip (cell_str v)))
                   (filter (\<lambda>(c, v). is_formula v) (number_from 1 vals)))
           (iter_rows_values ws 1 row_limit (nat col_limit))))"

record metrics =
  mt_sheets :: nat
  mt_formula_cells :: nat
  mt_merged_ranges :: int
  mt_chart_count :: int
  mt_mismatch_count :: nat
  mt_mismatch_cells :: "pystr list"
  mt_issues :: "import_issue list"

definition month_formulas :: "import_env \<Rightarrow> sheet list \<Rightarrow> (pystr \<times> (pystr \<times> pystr) list) list" where
  "month_formulas ie wb =
     filter (\<lambda>(_, by_coord). by_coord \<noteq> [])
       (map (\<lambda>ws. (sh_title ws, sheet_formulas ie ws)) (filter (\<lambda>ws. month_sheet (sh_title ws)) wb))"

definition coord_values :: "(pystr \<times> (pystr \<times> pystr) list) list \<Rightarrow> pystr \<Rightarrow> pystr list" where
  "coord_values months coord = dedup (List.map_filter (\<lambda>(_, by_coord). map_of by_coord coord) months)"

definition mismatch_cells :: "(pystr \<times> (pystr \<times> pystr) list) list \<Rightarrow> pystr list" where
  "mismatch_cells months =
     filter (\<lambda>coord. 1 < length (coord_values months coord))
       (sort (dedup (concat (map (\<lambda>(_, by_coord). map fst by_coord) months))))"

definition collect_metrics :: "import_env \<Rightarrow> sheet list \<Rightarrow> metrics" where
  "collect_metrics ie wb =
     (let months = month_formulas ie wb; mismatch = mismatch_cells months
      in \<lparr>mt_sheets = length wb,
          mt_formula_cells = sum_list (map (\<lambda>ws. length (sheet_formulas ie ws)) wb),
          mt_merged_ranges = sum_list (map sh_merged wb), mt_chart_count = sum_list (map sh_charts wb),
          mt_mismatch_count = length mismatch, mt_mismatch_cells = take 200 mismatch,
          mt_issues =
            (if mismatch = [] then []
             else [\<lparr>ii_severity = ''warning'', ii_code = ''MONTH_FORMULA_MISMATCH'', ii_sheet = None, ii_row = None,
                    ii_detail = int_text (int (length mismatch)) # take 30 mismatch\<rparr>])
            @ (if lit ''2'' \<in> set (map fst months)
               then [\<lparr>ii_severity = ''info'', ii_code = ''FEB_RANGE_OUTLIER_RISK'', ii_sheet = Some (lit ''2''),
                      ii_row = None, ii_detail = []\<rparr>] else [])\<rparr>)"

subsection \<open>Texts derived from a row\<close>

fun py_contains :: "pystr \<Rightarrow> pystr \<Rightarrow> bool" where
  "py_contains needle [] \<longleftrightarrow> needle = []"
| "py_contains needle (c # cs) \<longleftrightarrow> py_startswith (c # cs) needle \<or> py_contains needle cs"

definition contains_any :: "pystr list \<Rightarrow> pystr \<Rightarrow> bool" where
  "contains_any needles s \<longleftrightarrow> list_ex (\<lambda>n. py_contains n s) needles"

definition income_words :: "pystr list" where
  "income_words = [[49688, 51077], [44553, 50668], [48372, 45320, 49828]]"

definition transfer_words :: "pystr list" where
  "transfer_words = [[51060, 52404]]"

definition investment_words :: "pystr list" where
  "investment_words = [[51200, 52629], [53804, 51088], [51452, 49885], [50672, 44552]]"

definition guess_flow_type :: "pystr \<Rightarrow> flow_type" where
  "guess_flow_type txt =
     (let src = py_lower (filter (\<lambda>c. c \<noteq> 32) txt)
      in if contains_any income_words src then Flow_income
         else if contains_any transfer_words src then Flow_transfer
         else if contains_any investment_words src then Flow_investment
         else Flow_expense)"

definition owner_daeng :: pystr where
  "owner_daeng = [45845]"

definition owner_jji :: pystr where
  "owner_jji = [52236]"

definition owner_in_text :: "pystr \<Rightarrow> pystr option" where
  "owner_in_text txt =
     (let v = py_strip txt
      in if py_startswith v owner_daeng then Some owner_daeng
         else if py_startswith v owner_jji then Some owner_jji
         else if contains_any [owner_daeng @ lit '':'', owner_daeng @ lit '' -''] v then Some owner_daeng
         else if contains_any [owner_jji @ lit '':'', owner_jji @ lit '' -''] v then Some owner_jji
         else None)"

definition extract_owner_name :: "pystr option \<Rightarrow> pystr option \<Rightarrow> pystr option \<Rightarrow> pystr option" where
  "extract_owner_name major minor memo =
     (case List.map_filter (\<lambda>v. Option.bind v owner_in_text) [memo, minor, major] of
        [] \<Rightarrow> None | x # _ \<Rightarrow> Some x)"

definition krx_code :: "pystr \<Rightarrow> bool" where
  "krx_code s \<longleftrightarrow> length s = 6 \<and> list_all (\<lambda>c. digit_cp c \<or> (65 \<le> c \<and> c \<le> 90)) s"

definition normalize_stock_symbol :: "pystr \<Rightarrow> pystr option \<Rightarrow> pystr" where
  "normalize_stock_symbol code market =
     (let t = py_upper (py_strip code); m = py_upper (text_or market [])
      in if m \<in> {lit ''KRX'', lit ''KOSDAQ''} \<and> 46 \<notin> set t \<and> krx_code t then t @ lit ''.KR'' else t)"

definition token_char :: "int \<Rightarrow> bool" where
  "token_char c \<longleftrightarrow> (65 \<le> c \<and> c \<le> 90) \<or> (97 \<le> c \<and> c \<le> 122) \<or> digit_cp c \<or> (44032 \<le> c \<and> c \<le> 55203)"

text \<open>\<open>re.sub\<close> of every run of other characters by a hyphen.\<close>

fun hyphen_runs :: "bool \<Rightarrow> pystr \<Rightarrow> pystr" where
  "hyphen_runs inside [] = []"
| "hyphen_runs inside (c # cs) =
     (if token_char c then c # hyphen_runs False cs
      else if inside then hyphen_runs True cs else 45 # hyphen_runs True cs)"

definition build_cash_symbol :: "pystr \<Rightarrow> pystr option \<Rightarrow> int \<Rightarrow> pystr \<Rightarrow> pystr" where
  "build_cash_symbol name account row_idx prefix =
     (let digits = filter (\<lambda>c. digit_cp c \<or> c \<in> {178, 179, 185}) (text_or account []);
          token = (if 6 \<le> length digits then drop (length digits - 12) digits
                   else py_upper (strip_by (\<lambda>c. c = 45) (hyphen_runs False name)));
          token' = (if token = [] then lit ''ROW'' @ int_text row_idx else token)
      in take 40 (prefix @ [45] @ token'))"

subsection \<open>The key of a transaction\<close>

text \<open>
  Trailing zeros are cut from the whole text, also from a number without a point, as the code
  does.
\<close>

definition decimal_key :: "rat \<Rightarrow> pystr" where
  "decimal_key q =
     (let rstrip = (\<lambda>c s. rev (dropWhile (\<lambda>x. x = c) (rev s)));
          trimmed = rstrip 46 (rstrip 48 (fixed_text q))
      in if trimmed = [] \<or> trimmed = lit ''-0'' then lit ''0'' else trimmed)"

definition dedupe_payload ::
  "date \<Rightarrow> flow_type \<Rightarrow> pystr \<Rightarrow> pystr \<Rightarrow> rat \<Rightarrow> pystr \<Rightarrow> pystr option \<Rightarrow> pystr" where
  "dedupe_payload occurred_on flow major minor amount memo owner_name =
     join_with [124]
       [iso_date occurred_on, lit (flow_value flow), py_strip major, py_strip minor, decimal_key amount,
        py_strip memo, py_strip (text_or owner_name [])]"

definition transaction_dedupe_hash ::
  "import_env \<Rightarrow> date \<Rightarrow> flow_type \<Rightarrow> pystr \<Rightarrow> pystr \<Rightarrow> rat \<Rightarrow> pystr \<Rightarrow> pystr option \<Rightarrow> pystr" where
  "transaction_dedupe_hash ie occurred_on flow major minor amount memo owner_name =
     take 16 (ie_sha ie (dedupe_payload occurred_on flow major minor amount memo owner_name))"

lemma row_value_blank: "length vals < k \<Longrightarrow> row_value vals k = Blank"
  by (simp add: row_value_def)

lemma cell_text_not_Nil: "cell_text v = Some t \<Longrightarrow> t \<noteq> []"
  by (auto simp: cell_text_def none_if_empty_def split: if_splits)

lemma to_decimal_total: "to_decimal v = None \<Longrightarrow> (\<exists>b. v = Bool_cell b) \<or> (\<exists>s. v = Float_cell s \<and> py_decimal s = None)"
  by (auto simp: to_decimal_def Let_def split: cell.splits)

text \<open>Amounts that differ by a power of ten have the same key.\<close>

lemma decimal_key_tenfold: "decimal_key 12000 = decimal_key 1200" "decimal_key 12000 = decimal_key 12"
  by code_simp+

end
