(* ===== verification/Workbook_Parse.thy ===== *)
theory Workbook_Parse
  imports Workbook
begin

text \<open>
  The parsers of \<open>backend/app/services/importer.py\<close>: categories, transactions of the month sheets
  with their deduplication hash and ordinal, and the four sheets of holdings.  \<open>None\<close> is an
  exception that ends the import: a Boolean where an amount is expected, the comparison of a
  \<open>NaN\<close>, or a number too long for \<open>quantize\<close>.
\<close>

subsection \<open>Categories\<close>

definition category_sheet :: pystr where
  "category_sheet = [44032, 44228, 48512, 32, 48516, 47448]"

definition parse_category_row :: "cell list \<Rightarrow> (flow_type \<times> pystr \<times> pystr) option" where
  "parse_category_row vals =
     (case (cell_text (row_value vals 3), cell_text (row_value vals 4)) of
        (Some major, Some minor) \<Rightarrow> Some (guess_flow_type major, major, minor)
      | _ \<Rightarrow> None)"

definition parse_categories ::
  "import_env \<Rightarrow> sheet list \<Rightarrow> (flow_type \<times> pystr \<times> pystr) list \<times> import_issue list" where
  "parse_categories ie wb =
     (case find_sheet wb category_sheet of
        None \<Rightarrow> ([], [import_warning ''CATEGORY_SHEET_MISSING'' category_sheet None])
      | Some ws \<Rightarrow>
          (let (upper, issues) = upper_bound_with_issue ie ws
           in (dedup (List.map_filter (\<lambda>(_, vals). parse_category_row vals) (iter_rows_values ws 5 upper 4)), issues)))"

subsection \<open>Transactions\<close>

record parsed_transaction =
  pt_source_ref :: pystr
  pt_dedupe_hash :: pystr
  pt_dedupe_ordinal :: int
  pt_occurred_on :: date
  pt_flow_type :: flow_type
  pt_major :: pystr
  pt_minor :: pystr
  pt_amount :: rat
  pt_memo :: pystr
  pt_owner_name :: "pystr option"

datatype tx_row = Row_skipped | Row_issue import_issue | Row_ok parsed_transaction

definition default_minor :: pystr where
  "default_minor = [44592, 53440]"

text \<open>The row before its ordinal is known.\<close>

definition parse_tx_row :: "import_env \<Rightarrow> pystr \<Rightarrow> int \<Rightarrow> cell list \<Rightarrow> tx_row option" where
  "parse_tx_row ie title row_idx vals =
     (let occurred_on = to_date ie (row_value vals 2);
          major = cell_text (row_value vals 3);
          minor = cell_text (row_value vals 4);
          memo = text_or (cell_text (row_value vals 5)) []
      in case to_decimal (row_value vals 6) of
           None \<Rightarrow> None
         | Some amount \<Rightarrow>
             (if occurred_on = None \<and> (major \<noteq> None \<or> minor \<noteq> None \<or> memo \<noteq> [] \<or> num_truthy amount)
              then Some (Row_issue (import_warning ''TX_DATE_MISSING'' title (Some row_idx)))
              else case (occurred_on, major) of
                (Some day, Some mj) \<Rightarrow>
                  (case positive amount of
                     None \<Rightarrow> None
                   | Some False \<Rightarrow> Some Row_skipped
                   | Some True \<Rightarrow>
                       (let q = num_value amount
                        in if q \<noteq> of_int \<lfloor>q\<rfloor>
                           then Some (Row_issue (import_warning ''TX_AMOUNT_NON_INTEGER'' title (Some row_idx)))
                           else
                             (let flow = guess_flow_type mj;
                                  owner = extract_owner_name (Some mj) minor (Some memo);
                                  mn = text_or minor default_minor
                              in Some (Row_ok \<lparr>pt_source_ref = [],
                                   pt_dedupe_hash = transaction_dedupe_hash ie day flow mj mn q memo owner,
                                   pt_dedupe_ordinal = 0, pt_occurred_on = day, pt_flow_type = flow, pt_major = mj,
                                   pt_minor = mn, pt_amount = q, pt_memo = memo, pt_owner_name = owner\<rparr>))))
              | _ \<Rightarrow> Some Row_skipped))"

record tx_parse =
  xp_rows :: "parsed_transaction list"
  xp_issues :: "import_issue list"
  xp_counts :: "pystr \<Rightarrow> int"

definition tx_source_text :: "pystr \<Rightarrow> int \<Rightarrow> pystr" where
  "tx_source_text dedupe_hash ordinal = lit ''excel:tx:'' @ dedupe_hash @ [58] @ int_text ordinal"

definition number_tx :: "parsed_transaction \<Rightarrow> tx_parse \<Rightarrow> tx_parse" where
  "number_tx r st =
     (let h = pt_dedupe_hash r; ordinal = xp_counts st h + 1
      in st\<lparr>xp_counts := (xp_counts st)(h := ordinal),
            xp_rows := xp_rows st
              @ [r\<lparr>pt_source_ref := tx_source_text h ordinal, pt_dedupe_ordinal := ordinal\<rparr>]\<rparr>)"

fun parse_tx_rows :: "import_env \<Rightarrow> pystr \<Rightarrow> (int \<times> cell list) list \<Rightarrow> tx_parse \<Rightarrow> tx_parse option" where
  "parse_tx_rows ie title [] st = Some st"
| "parse_tx_rows ie title ((row_idx, vals) # rows) st =
     (case parse_tx_row ie title row_idx vals of
        None \<Rightarrow> None
      | Some Row_skipped \<Rightarrow> parse_tx_rows ie title rows st
      | Some (Row_issue i) \<Rightarrow> parse_tx_rows ie title rows (st\<lparr>xp_issues := xp_issues st @ [i]\<rparr>)
      | Some (Row_ok r) \<Rightarrow> parse_tx_rows ie title rows (number_tx r st))"

fun parse_tx_sheets :: "import_env \<Rightarrow> sheet list \<Rightarrow> tx_parse \<Rightarrow> tx_parse option" where
  "parse_tx_sheets ie [] st = Some st"
| "parse_tx_sheets ie (ws # wss) st =
     (if \<not> month_sheet (sh_title ws) then parse_tx_sheets ie wss st
      else (let (upper, issues) = upper_bound_with_issue ie ws
            in case parse_tx_rows ie (sh_title ws) (iter_rows_values ws 10 upper 6)
                      (st\<lparr>xp_issues := xp_issues st @ issues\<rparr>) of
                 None \<Rightarrow> None
               | Some st' \<Rightarrow> parse_tx_sheets ie wss st'))"

definition parse_transactions ::
  "import_env \<Rightarrow> sheet list \<Rightarrow> (parsed_transaction list \<times> import_issue list) option" where
  "parse_transactions ie wb =
     map_option (\<lambda>st. (xp_rows st, xp_issues st))
       (parse_tx_sheets ie wb \<lparr>xp_rows = [], xp_issues = [], xp_counts = (\<lambda>_. 0)\<rparr>)"

subsection \<open>Holdings\<close>

record parsed_holding =
  ph_asset_type :: asset_type
  ph_symbol :: pystr
  ph_market_symbol :: pystr
  ph_name :: pystr
  ph_category :: pystr
  ph_owner_name :: "pystr option"
  ph_account_name :: "pystr option"
  ph_quantity :: rat
  ph_average_cost :: rat
  ph_currency :: pystr
  ph_source_ref :: pystr

text \<open>A row adds a holding, an issue or nothing.\<close>

type_synonym holding_row = "parsed_holding list \<times> import_issue list"

definition holding_source_text :: "pystr \<Rightarrow> int \<Rightarrow> pystr" where
  "holding_source_text name row_idx = lit ''excel:'' @ name @ [58] @ int_text row_idx"

definition one_holding :: "pystr \<Rightarrow> int \<Rightarrow> parsed_holding \<Rightarrow> holding_row" where
  "one_holding sheet row_idx h = ([h\<lparr>ph_source_ref := holding_source_text sheet row_idx\<rparr>], [])"

definition join_parts :: "pystr option list \<Rightarrow> pystr" where
  "join_parts parts = join_with (lit '' / '') (filter (\<lambda>p. p \<noteq> []) (List.map_filter id parts))"

fun gather_rows :: "((int \<times> cell list) \<Rightarrow> holding_row option) \<Rightarrow> (int \<times> cell list) list \<Rightarrow> holding_row option" where
  "gather_rows f [] = Some ([], [])"
| "gather_rows f (r # rs) =
     (case f r of
        None \<Rightarrow> None
      | Some (hs, is) \<Rightarrow> map_option (\<lambda>(hs', is'). (hs @ hs', is @ is')) (gather_rows f rs))"

text \<open>A parser of one sheet: nothing without the sheet; a note on rows cut off comes first.\<close>

definition parse_sheet ::
  "import_env \<Rightarrow> sheet list \<Rightarrow> pystr \<Rightarrow> nat \<Rightarrow> nat \<Rightarrow> ((int \<times> cell list) list \<Rightarrow> holding_row option)
   \<Rightarrow> holding_row option" where
  "parse_sheet ie wb name min_row max_col rows =
     (case find_sheet wb name of
        None \<Rightarrow> Some ([], [])
      | Some ws \<Rightarrow>
          (let (upper, issues) = upper_bound_with_issue ie ws
           in map_option (\<lambda>(hs, is). (hs, issues @ is)) (rows (iter_rows_values ws min_row upper max_col))))"

definition stock_sheet :: pystr where
  "stock_sheet = [50, 41, 32, 51452, 49885, 53804, 51088]"

definition default_stock_category :: pystr where
  "default_stock_category = [51452, 49885]"

definition krw :: pystr where
  "krw = lit ''KRW''"

definition parse_stock_row :: "int \<times> cell list \<Rightarrow> holding_row option" where
  "parse_stock_row rv =
     (let (row_idx, vals) = rv;
          market = cell_text (row_value vals 2);
          account = cell_text (row_value vals 3);
          category = text_or (cell_text (row_value vals 4)) default_stock_category;
          item_name = cell_text (row_value vals 5);
          code = cell_text (row_value vals 6)
      in case (to_decimal (row_value vals 7), to_decimal (row_value vals 8), to_decimal (row_value vals 9)) of
           (Some avg_cost, Some quantity, Some invested) \<Rightarrow>
             (if code = None then Some ([], [])
              else case positive quantity of
                None \<Rightarrow> None
              | Some False \<Rightarrow> Some ([], [])
              | Some True \<Rightarrow>
                  (let symbol = normalize_stock_symbol (the code) market;
                       owner = extract_owner_name account item_name item_name;
                       finish = (\<lambda>used_invested average_cost. one_holding stock_sheet row_idx
                         \<lparr>ph_asset_type = Asset_stock, ph_symbol = symbol, ph_market_symbol = symbol,
                          ph_name = text_or item_name symbol, ph_category = category, ph_owner_name = owner,
                          ph_account_name = account, ph_quantity = num_value quantity,
                          ph_average_cost = average_cost,
                          ph_currency = (if used_invested \<or> py_endswith symbol (lit ''.KR'') then krw else lit ''USD''),
                          ph_source_ref = []\<rparr>)
                   in case positive avg_cost of
                        None \<Rightarrow> None
                      | Some True \<Rightarrow> map_option (finish False) (quantize4 (num_value avg_cost))
                      | Some False \<Rightarrow>
                          (case positive invested of
                             None \<Rightarrow> None
                           | Some True \<Rightarrow> map_option (finish True) (quantize4 (div28 (num_value invested) (num_value quantity)))
                           | Some False \<Rightarrow>
                               Some ([], [import_warning ''HOLDING_COST_MISSING'' stock_sheet (Some row_idx)]))))
         | _ \<Rightarrow> None)"

definition parse_stock_holdings :: "import_env \<Rightarrow> sheet list \<Rightarrow> holding_row option" where
  "parse_stock_holdings ie wb = parse_sheet ie wb stock_sheet 7 9 (gather_rows parse_stock_row)"

definition cash_sheet :: pystr where
  "cash_sheet = [51, 41, 32, 51200, 52629, 32, 48143, 32, 54788, 44552, 49457]"

definition default_cash_group :: pystr where
  "default_cash_group = [54788, 44552, 49457]"

definition parse_cash_row :: "pystr \<Rightarrow> int \<times> cell list \<Rightarrow> holding_row option" where
  "parse_cash_row grp rv =
     (let (row_idx, vals) = rv;
          item_name = cell_text (row_value vals 3);
          bank = cell_text (row_value vals 4);
          account = cell_text (row_value vals 5)
      in case to_decimal (row_value vals 8) of
           None \<Rightarrow> None
         | Some amount \<Rightarrow>
             (if item_name = None then Some ([], [])
              else case positive amount of
                None \<Rightarrow> None
              | Some False \<Rightarrow> Some ([], [])
              | Some True \<Rightarrow>
                  (let symbol = build_cash_symbol (the item_name) account row_idx (lit ''CASH'');
                       owner = extract_owner_name (Some grp) item_name item_name;
                       account_name = (if join_parts [bank, account] = [] then bank else Some (join_parts [bank, account]))
                   in map_option (\<lambda>average_cost. one_holding cash_sheet row_idx
                        \<lparr>ph_asset_type = Asset_cash, ph_symbol = symbol, ph_market_symbol = symbol,
                         ph_name = join_parts [Some grp, item_name, bank], ph_category = grp,
                         ph_owner_name = owner, ph_account_name = account_name, ph_quantity = 1,
                         ph_average_cost = average_cost, ph_currency = krw, ph_source_ref = []\<rparr>)
                        (quantize4 (num_value amount)))))"

text \<open>The group of a row is the last one named at or above it.\<close>

fun with_groups :: "(pystr option \<Rightarrow> bool) \<Rightarrow> pystr \<Rightarrow> (int \<times> cell list) list \<Rightarrow> (pystr \<times> (int \<times> cell list)) list" where
  "with_groups names_group grp [] = []"
| "with_groups names_group grp ((i, vals) # rows) =
     (let v = cell_text (row_value vals 2);
          g = (if names_group v then text_or v [] else grp)
      in (g, (i, vals)) # with_groups names_group g rows)"

fun gather_grouped ::
  "(pystr \<Rightarrow> int \<times> cell list \<Rightarrow> holding_row option) \<Rightarrow> (pystr \<times> (int \<times> cell list)) list \<Rightarrow> holding_row option" where
  "gather_grouped f [] = Some ([], [])"
| "gather_grouped f ((g, r) # rs) =
     (case f g r of
        None \<Rightarrow> None
      | Some (hs, is) \<Rightarrow> map_option (\<lambda>(hs', is'). (hs @ hs', is @ is')) (gather_grouped f rs))"

definition parse_cash_holdings :: "import_env \<Rightarrow> sheet list \<Rightarrow> holding_row option" where
  "parse_cash_holdings ie wb =
     parse_sheet ie wb cash_sheet 7 8
       (\<lambda>rows. gather_grouped parse_cash_row (with_groups (\<lambda>v. v \<noteq> None) default_cash_group rows))"

definition pension_sheet :: pystr where
  "pension_sheet = [52, 41, 32, 50672, 44552]"

definition default_pension_group :: pystr where
  "default_pension_group = [50672, 44552]"

definition total_word :: pystr where
  "total_word = [54633, 44228]"

definition parse_pension_row :: "pystr \<Rightarrow> int \<times> cell list \<Rightarrow> holding_row option" where
  "parse_pension_row grp rv =
     (let (row_idx, vals) = rv;
          company = cell_text (row_value vals 3);
          item_type = cell_text (row_value vals 4);
          item_name = cell_text (row_value vals 5);
          code = cell_text (row_value vals 6)
      in case (to_decimal (row_value vals 8), to_decimal (row_value vals 9)) of
           (Some qty, Some paid) \<Rightarrow>
             (case positive paid of
                None \<Rightarrow> None
              | Some False \<Rightarrow> Some ([], [])
              | Some True \<Rightarrow>
                  (let owner = extract_owner_name (Some grp) item_name item_name;
                       finish = (\<lambda>symbol quantity average_cost. one_holding pension_sheet row_idx
                         \<lparr>ph_asset_type = Asset_pension, ph_symbol = symbol, ph_market_symbol = symbol,
                          ph_name = text_or item_name symbol, ph_category = grp, ph_owner_name = owner,
                          ph_account_name = company, ph_quantity = quantity, ph_average_cost = average_cost,
                          ph_currency = krw, ph_source_ref = []\<rparr>);
                       etf = (item_type \<noteq> None \<and> py_contains (lit ''ETF'') (the item_type) \<and> code \<noteq> None)
                   in case (if etf then positive qty else Some False) of
                        None \<Rightarrow> None
                      | Some True \<Rightarrow>
                          map_option (finish (normalize_stock_symbol (the code) (Some (lit ''KRX''))) (num_value qty))
                            (quantize4 (div28 (num_value paid) (num_value qty)))
                      | Some False \<Rightarrow>
                          map_option (finish (build_cash_symbol (text_or item_name (lit ''pension'')) code row_idx
                              (lit ''PENSION'')) 1)
                            (quantize4 (num_value paid))))
         | _ \<Rightarrow> None)"

definition parse_pension_holdings :: "import_env \<Rightarrow> sheet list \<Rightarrow> holding_row option" where
  "parse_pension_holdings ie wb =
     parse_sheet ie wb pension_sheet 7 9
       (\<lambda>rows. gather_grouped parse_pension_row
          (with_groups (\<lambda>v. v \<noteq> None \<and> \<not> py_contains total_word (the v)) default_pension_group rows))"

definition estate_sheet :: pystr where
  "estate_sheet = [49, 41, 32, 48512, 46041, 49328]"

definition estate_word :: pystr where
  "estate_word = [48512, 46041, 49328]"

text \<open>Prices below a million are given in units of ten thousand won.\<close>

definition estate_price :: "rat \<Rightarrow> rat option" where
  "estate_price sell_price =
     Option.bind (quantize4 sell_price) (\<lambda>q. if q < 1000000 then quantize4 (q * 10000) else Some q)"

fun parse_estate_rows ::
  "(pystr \<times> pystr \<times> rat) list \<Rightarrow> (int \<times> cell list) list \<Rightarrow> holding_row option" where
  "parse_estate_rows seen [] = Some ([], [])"
| "parse_estate_rows seen ((row_idx, vals) # rows) =
     (let district = cell_text (row_value vals 2);
          neighborhood = cell_text (row_value vals 3);
          complex_name = cell_text (row_value vals 4)
      in case to_decimal (row_value vals 10) of
           None \<Rightarrow> None
         | Some sell_price \<Rightarrow>
             (if complex_name = None then parse_estate_rows seen rows
              else case positive sell_price of
                None \<Rightarrow> None
              | Some False \<Rightarrow> parse_estate_rows seen rows
              | Some True \<Rightarrow>
                  (if district \<noteq> None \<and> py_contains total_word (the district) then parse_estate_rows seen rows
                   else case estate_price (num_value sell_price) of
                     None \<Rightarrow> None
                   | Some normalized \<Rightarrow>
                       (let name = the complex_name;
                            account_name = (if join_parts [district, neighborhood] = [] then estate_word
                                            else join_parts [district, neighborhood]);
                            key = (name, account_name, normalized);
                            symbol = build_cash_symbol (name @ [45] @ int_text row_idx) (Some account_name) row_idx (lit ''RE'')
                        in if key \<in> set seen then parse_estate_rows seen rows
                           else map_option (\<lambda>(hs, is). (fst (one_holding estate_sheet row_idx
                               \<lparr>ph_asset_type = Asset_real_estate, ph_symbol = symbol, ph_market_symbol = symbol,
                                ph_name = name, ph_category = estate_word, ph_owner_name = None,
                                ph_account_name = Some account_name, ph_quantity = 1, ph_average_cost = normalized,
                                ph_currency = krw, ph_source_ref = []\<rparr>) @ hs, is))
                              (parse_estate_rows (key # seen) rows)))))"

definition parse_real_estate_holdings :: "import_env \<Rightarrow> sheet list \<Rightarrow> holding_row option" where
  "parse_real_estate_holdings ie wb = parse_sheet ie wb estate_sheet 12 10 (parse_estate_rows [])"

definition parse_holdings :: "import_env \<Rightarrow> sheet list \<Rightarrow> holding_row option" where
  "parse_holdings ie wb =
     (case (parse_stock_holdings ie wb, parse_cash_holdings ie wb, parse_pension_holdings ie wb,
            parse_real_estate_holdings ie wb) of
        (Some a, Some b, Some c, Some e) \<Rightarrow>
          Some (fst a @ fst b @ fst c @ fst e, snd a @ snd b @ snd c @ snd e)
      | _ \<Rightarrow> None)"

subsection \<open>Parsed transactions\<close>

text \<open>Ordinals count the rows of equal hash, starting behind the counts given.\<close>

fun ordinals_from :: "(pystr \<Rightarrow> int) \<Rightarrow> parsed_transaction list \<Rightarrow> bool" where
  "ordinals_from c [] \<longleftrightarrow> True"
| "ordinals_from c (r # rs) \<longleftrightarrow>
     pt_dedupe_ordinal r = c (pt_dedupe_hash r) + 1
     \<and> ordinals_from (c(pt_dedupe_hash r := c (pt_dedupe_hash r) + 1)) rs"

fun counts_after :: "(pystr \<Rightarrow> int) \<Rightarrow> parsed_transaction list \<Rightarrow> pystr \<Rightarrow> int" where
  "counts_after c [] = c"
| "counts_after c (r # rs) = counts_after (c(pt_dedupe_hash r := c (pt_dedupe_hash r) + 1)) rs"

definition parsed_row_ok :: "import_env \<Rightarrow> parsed_transaction \<Rightarrow> bool" where
  "parsed_row_ok ie r \<longleftrightarrow>
     0 < pt_amount r \<and> pt_amount r = of_int \<lfloor>pt_amount r\<rfloor> \<and> pt_major r \<noteq> [] \<and> pt_minor r \<noteq> []
     \<and> pt_flow_type r = guess_flow_type (pt_major r)
     \<and> pt_dedupe_hash r = transaction_dedupe_hash ie (pt_occurred_on r) (pt_flow_type r) (pt_major r) (pt_minor r)
          (pt_amount r) (pt_memo r) (pt_owner_name r)
     \<and> pt_source_ref r = tx_source_text (pt_dedupe_hash r) (pt_dedupe_ordinal r) \<and> 1 \<le> pt_dedupe_ordinal r"

definition tx_parse_ok :: "import_env \<Rightarrow> tx_parse \<Rightarrow> bool" where
  "tx_parse_ok ie st \<longleftrightarrow>
     ordinals_from (\<lambda>_. 0) (xp_rows st) \<and> xp_counts st = counts_after (\<lambda>_. 0) (xp_rows st)
     \<and> list_all (parsed_row_ok ie) (xp_rows st)"

lemma ordinals_from_append:
  "ordinals_from c (xs @ ys) \<longleftrightarrow> ordinals_from c xs \<and> ordinals_from (counts_after c xs) ys"
  by (induction xs arbitrary: c) auto

lemma counts_after_append: "counts_after c (xs @ ys) = counts_after (counts_after c xs) ys"
  by (induction xs arbitrary: c) auto

lemma counts_after_ge: "c h \<le> counts_after c rs h"
proof (induction rs arbitrary: c)
  case (Cons r rs)
  have "c h \<le> (c(pt_dedupe_hash r := c (pt_dedupe_hash r) + 1)) h" by simp
  also have "\<dots> \<le> counts_after (c(pt_dedupe_hash r := c (pt_dedupe_hash r) + 1)) rs h" by (rule Cons)
  finally show ?case by simp
qed simp

lemma ordinals_above: "ordinals_from c rs \<Longrightarrow> r \<in> set rs \<Longrightarrow> c (pt_dedupe_hash r) < pt_dedupe_ordinal r"
proof (induction rs arbitrary: c)
  case (Cons x rs)
  let ?c = "c(pt_dedupe_hash x := c (pt_dedupe_hash x) + 1)"
  show ?case
  proof (cases "r = x")
    case False
    with Cons.prems have "ordinals_from ?c rs" "r \<in> set rs" by auto
    then have "?c (pt_dedupe_hash r) < pt_dedupe_ordinal r" by (rule Cons.IH)
    moreover have "c (pt_dedupe_hash r) \<le> ?c (pt_dedupe_hash r)" by simp
    ultimately show ?thesis by linarith
  qed (use Cons in simp)
qed simp

lemma ordinals_distinct:
  "ordinals_from c rs \<Longrightarrow> distinct (map (\<lambda>r. (pt_dedupe_hash r, pt_dedupe_ordinal r)) rs)"
proof (induction rs arbitrary: c)
  case (Cons x rs)
  let ?c = "c(pt_dedupe_hash x := c (pt_dedupe_hash x) + 1)"
  have "pt_dedupe_ordinal x < pt_dedupe_ordinal r" if "r \<in> set rs" "pt_dedupe_hash r = pt_dedupe_hash x" for r
    using ordinals_above [of ?c rs r] Cons.prems that by simp
  with Cons show ?case by fastforce
qed simp

lemma tx_source_text_inj:
  assumes "tx_source_text h m = tx_source_text h' n" "1 \<le> m" "1 \<le> n"
  shows "h = h' \<and> m = n"
proof -
  have nocolon: "58 \<notin> set (nat_text k)" if "1 \<le> k" for k
    using nat_text_digits [of k 58] that by (auto simp: digit_cp_def)
  have split: "rev (takeWhile (\<lambda>c. c \<noteq> 58) (rev (xs @ 58 # ys))) = ys
      \<and> rev (tl (dropWhile (\<lambda>c. c \<noteq> 58) (rev (xs @ 58 # ys)))) = xs" if "58 \<notin> set ys" for xs ys :: pystr
  proof -
    have no: "c \<noteq> 58" if "c \<in> set (rev ys)" for c using that \<open>58 \<notin> set ys\<close> by auto
    show ?thesis
      using takeWhile_append2 [of "rev ys" "\<lambda>c. c \<noteq> 58" "58 # rev xs", OF no]
        dropWhile_append2 [of "rev ys" "\<lambda>c. c \<noteq> 58" "58 # rev xs", OF no] by simp
  qed
  have "h @ 58 # nat_text m = h' @ 58 # nat_text n"
    using assms by (simp add: tx_source_text_def int_text_def)
  then have "nat_text m = nat_text n \<and> h = h'"
    using split [OF nocolon [OF assms(2)], of h] split [OF nocolon [OF assms(3)], of h'] by metis
  with nat_text_eq_iff [of m n] assms(2,3) show ?thesis by simp
qed

lemma parse_tx_row_ok:
  assumes "parse_tx_row ie title i vals = Some (Row_ok r)"
  shows "parsed_row_ok ie (r\<lparr>pt_source_ref := tx_source_text (pt_dedupe_hash r) n, pt_dedupe_ordinal := n\<rparr>) \<longleftrightarrow> 1 \<le> n"
proof -
  have "text_or v default_minor \<noteq> []" for v
    by (simp add: text_or_def default_minor_def split: option.split)
  then show ?thesis
    using assms
    by (auto simp: parse_tx_row_def parsed_row_ok_def Let_def positive_def num_value_def
        split: option.splits if_splits bool.splits num.splits dest: cell_text_not_Nil)
qed

lemma number_tx_ok:
  assumes "tx_parse_ok ie st" "parse_tx_row ie title i vals = Some (Row_ok r)"
  shows "tx_parse_ok ie (number_tx r st)"
proof -
  have "0 \<le> xp_counts st (pt_dedupe_hash r)"
    using assms(1) counts_after_ge [of "\<lambda>_. 0"] by (simp add: tx_parse_ok_def)
  with assms parse_tx_row_ok [OF assms(2)] show ?thesis
    by (simp add: tx_parse_ok_def number_tx_def Let_def ordinals_from_append counts_after_append)
qed

lemma tx_parse_ok_issues [simp]: "tx_parse_ok ie (st\<lparr>xp_issues := is\<rparr>) \<longleftrightarrow> tx_parse_ok ie st"
  by (simp add: tx_parse_ok_def)

lemma parse_tx_rows_ok: "parse_tx_rows ie title rows st = Some st' \<Longrightarrow> tx_parse_ok ie st \<Longrightarrow> tx_parse_ok ie st'"
  by (induction ie title rows st rule: parse_tx_rows.induct)
    (auto simp: number_tx_ok split: option.splits tx_row.splits)

lemma parse_tx_sheets_ok: "parse_tx_sheets ie wb st = Some st' \<Longrightarrow> tx_parse_ok ie st \<Longrightarrow> tx_parse_ok ie st'"
proof (induction ie wb st rule: parse_tx_sheets.induct)
  case (2 ie ws wss st)
  then show ?case
    by (auto simp: Let_def split: if_splits option.splits prod.splits dest!: parse_tx_rows_ok)
qed simp

lemma parse_transactions_ok:
  assumes "parse_transactions ie wb = Some (rows, issues)"
  shows "ordinals_from (\<lambda>_. 0) rows" "list_all (parsed_row_ok ie) rows" "distinct (map pt_source_ref rows)"
proof -
  obtain st where st: "parse_tx_sheets ie wb \<lparr>xp_rows = [], xp_issues = [], xp_counts = \<lambda>_. 0\<rparr> = Some st"
    "rows = xp_rows st"
    using assms by (auto simp: parse_transactions_def)
  have ok: "tx_parse_ok ie st"
    by (rule parse_tx_sheets_ok [OF st(1)]) (simp add: tx_parse_ok_def)
  then show o: "ordinals_from (\<lambda>_. 0) rows" and a: "list_all (parsed_row_ok ie) rows"
    by (simp_all add: tx_parse_ok_def st(2))
  have "inj_on pt_source_ref (set rows)"
  proof (rule inj_onI)
    fix r r'
    assume r: "r \<in> set rows" "r' \<in> set rows" and eq: "pt_source_ref r = pt_source_ref r'"
    then have "pt_dedupe_hash r = pt_dedupe_hash r' \<and> pt_dedupe_ordinal r = pt_dedupe_ordinal r'"
      using a tx_source_text_inj by (auto simp: list_all_iff parsed_row_ok_def)
    with ordinals_distinct [OF o] r show "r = r'"
      by (auto simp: distinct_map inj_on_def)
  qed
  with ordinals_distinct [OF o] show "distinct (map pt_source_ref rows)"
    by (simp add: distinct_map)
qed

end
