(* ===== verification/Workbook_Apply.thy ===== *)
theory Workbook_Apply
  imports Workbook_Parse Holdings Tx_Order
begin

text \<open>
  Applying a parsed workbook to a household, \<open>backend/app/services/importer.py\<close>: categories,
  transactions with their order keys and owners, holdings with the unit of work of the session,
  and \<open>run\<close>.  The session holds changed holdings back until the next flush, where updates go
  out in the order of their identifiers, each under the unique index, and before an insertion.
  An import is one database transaction; other sessions do not write to the household meanwhile.
\<close>

type_synonym category_names = "flow_type \<times> pystr \<times> pystr"

text \<open>The session's database and the number of identifiers drawn.\<close>

record imp =
  im_db :: db
  im_next :: nat

subsection \<open>Categories\<close>

definition category_names :: "category \<Rightarrow> category_names" where
  "category_names c = (ct_flow_type c, ct_major c, ct_minor c)"

definition insert_category :: "import_env \<Rightarrow> pystr \<Rightarrow> category_names \<Rightarrow> int \<Rightarrow> imp \<Rightarrow> pystr \<times> imp" where
  "insert_category ie household_id key sort_order st =
     (let (flow, major, minor) = key; i = ie_new_id ie (im_next st)
      in (i, \<lparr>im_db = set_categories (db_categories (im_db st)
                @ [\<lparr>ct_id = i, ct_household_id = household_id, ct_flow_type = flow, ct_major = major, ct_minor = minor,
                   ct_sort_order = sort_order, ct_created_at = ev_db_now (ie_env ie)\<rparr>]) (im_db st),
              im_next = im_next st + 1\<rparr>))"

type_synonym category_map = "(category_names \<times> pystr) list"

fun upsert_rows ::
  "import_env \<Rightarrow> pystr \<Rightarrow> int \<Rightarrow> category_names list \<Rightarrow> category_map \<Rightarrow> nat \<Rightarrow> imp \<Rightarrow> category_map \<times> nat \<times> imp" where
  "upsert_rows ie household_id idx [] by_key inserted st = (by_key, inserted, st)"
| "upsert_rows ie household_id idx (key # rows) by_key inserted st =
     (if map_of by_key key \<noteq> None then upsert_rows ie household_id (idx + 1) rows by_key inserted st
      else (let (i, st') = insert_category ie household_id key (idx + 1) st
            in upsert_rows ie household_id (idx + 1) rows (by_key @ [(key, i)]) (inserted + 1) st'))"

definition household_category_map :: "db \<Rightarrow> pystr \<Rightarrow> category_map" where
  "household_category_map d household_id =
     map (\<lambda>c. (category_names c, ct_id c)) (filter (\<lambda>c. ct_household_id c = household_id) (db_categories d))"

definition upsert_categories ::
  "import_env \<Rightarrow> pystr \<Rightarrow> category_names list \<Rightarrow> imp \<Rightarrow> category_map \<times> nat \<times> imp" where
  "upsert_categories ie household_id rows st =
     upsert_rows ie household_id 0 rows (household_category_map (im_db st) household_id) 0 st"

subsection \<open>Owners\<close>

type_synonym owner_lookup = "(pystr \<times> pystr) list"

definition load_owner_lookup :: "db \<Rightarrow> pystr \<Rightarrow> owner_lookup" where
  "load_owner_lookup d household_id =
     filter (\<lambda>(k, _). k \<noteq> [])
       (map (\<lambda>u. (legacy_owner_name_key (Some (us_display_name u)), us_id u)) (member_user_rows d household_id))"

datatype owner_match = Owner_empty | Owner_linked | Owner_ambiguous | Owner_invalid

definition holder_text :: "pystr option \<Rightarrow> pystr" where
  "holder_text v = py_strip (text_or v [])"

definition resolve_owner_from_lookup :: "owner_lookup \<Rightarrow> pystr option \<Rightarrow> pystr option \<times> pystr \<times> owner_match" where
  "resolve_owner_from_lookup lookup v =
     (let key = legacy_owner_name_key v; user_ids = map snd (filter (\<lambda>(k, _). k = key) lookup)
      in if key = [] then (None, [], Owner_empty)
         else case user_ids of
           [] \<Rightarrow> (None, holder_text v, Owner_invalid)
         | [i] \<Rightarrow> (Some i, holder_text v, Owner_linked)
         | _ \<Rightarrow> (None, holder_text v, Owner_ambiguous))"

subsection \<open>Transactions\<close>

record applied_tx =
  at_id :: pystr
  at_occurred_on :: date
  at_memo :: pystr
  at_source_ref :: "pystr option"

record tx_apply =
  ta_st :: imp
  ta_map :: category_map
  ta_sources :: "pystr list"
  ta_counts :: "pystr \<Rightarrow> int"
  ta_order :: "date \<Rightarrow> int option"
  ta_added :: nat
  ta_skipped :: nat
  ta_refs :: "applied_tx list"

definition stored_hash :: "import_env \<Rightarrow> db \<Rightarrow> transaction \<Rightarrow> pystr option" where
  "stored_hash ie d t =
     (let i = py_strip (text_or (tx_category_id t) [])
      in if i = [] then None
         else map_option (\<lambda>c. transaction_dedupe_hash ie (tx_occurred_on t) (tx_flow_type t) (ct_major c) (ct_minor c)
                            (tx_amount t) (tx_memo t) (tx_owner_name t))
                (row_get ct_id i (db_categories d)))"

definition household_transactions :: "db \<Rightarrow> pystr \<Rightarrow> transaction list" where
  "household_transactions d household_id = filter (\<lambda>t. tx_household_id t = household_id) (db_transactions d)"

definition existing_sources :: "db \<Rightarrow> pystr \<Rightarrow> pystr list" where
  "existing_sources d household_id =
     filter (\<lambda>s. s \<noteq> []) (List.map_filter tx_source_ref (household_transactions d household_id))"

definition existing_count :: "import_env \<Rightarrow> db \<Rightarrow> pystr \<Rightarrow> pystr \<Rightarrow> int" where
  "existing_count ie d household_id h =
     int (length (filter (\<lambda>t. stored_hash ie d t = Some h) (household_transactions d household_id)))"

definition imported_transaction ::
  "import_env \<Rightarrow> pystr \<Rightarrow> pystr \<Rightarrow> pystr option \<Rightarrow> int \<Rightarrow> parsed_transaction \<Rightarrow> pystr \<Rightarrow> transaction" where
  "imported_transaction ie household_id category_id owner_user_id order_key row i =
     \<lparr>tx_id = i, tx_household_id = household_id, tx_category_id = Some category_id, tx_flow_type = pt_flow_type row,
      tx_occurred_on = pt_occurred_on row, tx_amount = pt_amount row, tx_installment_months = None,
      tx_currency = krw, tx_memo = pt_memo row, tx_order_key = order_key, tx_owner_user_id = owner_user_id,
      tx_owner_name = pt_owner_name row, tx_source_ref = Some (pt_source_ref row), tx_version = 1,
      tx_created_by_user_id = None, tx_created_at = ev_db_now (ie_env ie), tx_updated_at = ev_db_now (ie_env ie)\<rparr>"

text \<open>\<open>category_map.get(key)\<close>, or a new category behind all others.\<close>

definition category_for ::
  "import_env \<Rightarrow> pystr \<Rightarrow> category_names \<Rightarrow> category_map \<Rightarrow> imp \<Rightarrow> pystr \<times> category_map \<times> imp" where
  "category_for ie household_id key cm st =
     (case map_of cm key of
        Some i \<Rightarrow> (i, cm, st)
      | None \<Rightarrow> (let (i, st') = insert_category ie household_id key (int (length cm) + 1) st
                 in (i, cm @ [(key, i)], st')))"

definition apply_tx_row ::
  "import_env \<Rightarrow> pystr \<Rightarrow> owner_lookup \<Rightarrow> parsed_transaction \<Rightarrow> tx_apply \<Rightarrow> tx_apply" where
  "apply_tx_row ie household_id lookup row ta =
     (let same_hash = ta_counts ta (pt_dedupe_hash row)
      in if pt_source_ref row \<in> set (ta_sources ta) \<or> pt_dedupe_ordinal row \<le> same_hash
         then ta\<lparr>ta_skipped := ta_skipped ta + 1\<rparr>
         else
           (let (category_id, cm, st) = category_for ie household_id
                  (pt_flow_type row, pt_major row, pt_minor row) (ta_map ta) (ta_st ta);
                owner_user_id = fst (resolve_owner_from_lookup lookup (pt_owner_name row));
                day = pt_occurred_on row;
                order_key = (case ta_order ta day of
                               Some k \<Rightarrow> k | None \<Rightarrow> next_append_order_key (im_db st) household_id day None);
                i = ie_new_id ie (im_next st);
                t = imported_transaction ie household_id category_id owner_user_id order_key row i
            in \<lparr>ta_st = \<lparr>im_db = set_transactions (db_transactions (im_db st) @ [t]) (im_db st),
                         im_next = im_next st + 1\<rparr>,
                ta_map = cm, ta_sources = pt_source_ref row # ta_sources ta,
                ta_counts = (ta_counts ta)(pt_dedupe_hash row := max same_hash (pt_dedupe_ordinal row)),
                ta_order = (ta_order ta)(day \<mapsto> order_key + transaction_order_step),
                ta_added = ta_added ta + 1, ta_skipped = ta_skipped ta,
                ta_refs = ta_refs ta @ [\<lparr>at_id = i, at_occurred_on = day, at_memo = tx_memo t,
                                         at_source_ref = tx_source_ref t\<rparr>]\<rparr>))"

definition start_tx_apply :: "import_env \<Rightarrow> pystr \<Rightarrow> category_map \<Rightarrow> imp \<Rightarrow> tx_apply" where
  "start_tx_apply ie household_id cm st =
     \<lparr>ta_st = st, ta_map = cm, ta_sources = existing_sources (im_db st) household_id,
      ta_counts = existing_count ie (im_db st) household_id, ta_order = (\<lambda>_. None),
      ta_added = 0, ta_skipped = 0, ta_refs = []\<rparr>"

definition apply_transactions ::
  "import_env \<Rightarrow> pystr \<Rightarrow> category_map \<Rightarrow> parsed_transaction list \<Rightarrow> imp \<Rightarrow> tx_apply" where
  "apply_transactions ie household_id cm rows st =
     fold (apply_tx_row ie household_id (load_owner_lookup (im_db st) household_id)) rows
       (start_tx_apply ie household_id cm st)"

subsection \<open>Holdings and the unit of work\<close>

type_synonym holding_key = "asset_type \<times> pystr \<times> pystr \<times> pystr"

definition holding_key ::
  "asset_type \<Rightarrow> pystr \<Rightarrow> pystr option \<Rightarrow> pystr option \<Rightarrow> pystr option \<Rightarrow> holding_key" where
  "holding_key asset market_symbol owner_user_id owner_name account_name =
     (asset, py_upper (py_strip market_symbol),
      (if holder_text owner_user_id = [] then holder_text owner_name else holder_text owner_user_id),
      holder_text account_name)"

definition row_key :: "holding \<Rightarrow> holding_key" where
  "row_key x = holding_key (hd_asset_type x) (hd_market_symbol x) (hd_owner_user_id x) (hd_owner_name x)
                 (hd_account_name x)"

definition normalize_version :: "int \<Rightarrow> int" where
  "normalize_version v = (if 0 < v then v else 1)"

text \<open>One \<open>UPDATE\<close> of a flush; \<open>None\<close> is the \<open>IntegrityError\<close> of the unique index.\<close>

definition flush_row :: "import_env \<Rightarrow> holding \<Rightarrow> db \<Rightarrow> db option" where
  "flush_row ie x d =
     (case row_get hd_id (hd_id x) (db_holdings d) of
        None \<Rightarrow> Some d
      | Some y \<Rightarrow>
          if y = x then Some d
          else (let z = x\<lparr>hd_updated_at := ev_db_now (ie_env ie)\<rparr>
                in if identity_conflict (ie_env ie) d z then None
                   else Some (set_holdings (row_update hd_id (hd_id x) (\<lambda>_. z) (db_holdings d)) d)))"

fun flush_rows :: "import_env \<Rightarrow> holding list \<Rightarrow> db \<Rightarrow> db option" where
  "flush_rows ie [] d = Some d"
| "flush_rows ie (x # xs) d = Option.bind (flush_row ie x d) (flush_rows ie xs)"

definition flush_holdings :: "import_env \<Rightarrow> holding list \<Rightarrow> db \<Rightarrow> db option" where
  "flush_holdings ie live d = flush_rows ie (sort_key hd_id live) d"

text \<open>The objects of the session after a flush have what the table has.\<close>

definition refresh_live :: "db \<Rightarrow> holding list \<Rightarrow> holding list" where
  "refresh_live d live =
     map (\<lambda>x. case row_get hd_id (hd_id x) (db_holdings d) of Some y \<Rightarrow> y | None \<Rightarrow> x) live"

record applied_holding =
  ah_id :: pystr
  ah_name :: pystr
  ah_category :: pystr
  ah_source_ref :: "pystr option"
  ah_added :: bool

record hold_apply =
  ha_st :: imp
  ha_live :: "holding list"
  ha_by_key :: "holding_key \<Rightarrow> pystr option"
  ha_by_ref :: "pystr \<Rightarrow> pystr option"
  ha_added :: nat
  ha_updated :: nat
  ha_refs :: "applied_holding list"
  ha_invalid :: "pystr list"
  ha_ambiguous :: "pystr list"

definition note_owner :: "pystr \<Rightarrow> owner_match \<Rightarrow> hold_apply \<Rightarrow> hold_apply" where
  "note_owner name m ha =
     (case m of
        Owner_ambiguous \<Rightarrow> ha\<lparr>ha_ambiguous := List.insert name (ha_ambiguous ha)\<rparr>
      | Owner_invalid \<Rightarrow> ha\<lparr>ha_invalid := List.insert name (ha_invalid ha)\<rparr>
      | _ \<Rightarrow> ha)"

definition imported_holding ::
  "import_env \<Rightarrow> pystr \<Rightarrow> pystr option \<Rightarrow> pystr \<Rightarrow> parsed_holding \<Rightarrow> pystr \<Rightarrow> holding" where
  "imported_holding ie household_id owner_user_id owner row i =
     \<lparr>hd_id = i, hd_household_id = household_id, hd_asset_type = ph_asset_type row, hd_symbol = ph_symbol row,
      hd_market_symbol = ph_market_symbol row, hd_name = ph_name row, hd_type_key = None,
      hd_category = ph_category row, hd_owner_user_id = owner_user_id, hd_owner_name = Some owner,
      hd_account_name = Some (holder_text (ph_account_name row)), hd_quantity = ph_quantity row,
      hd_average_cost = ph_average_cost row, hd_currency = ph_currency row, hd_display_order = 100,
      hd_source_ref = Some (ph_source_ref row), hd_version = 1, hd_updated_at = ev_db_now (ie_env ie)\<rparr>"

text \<open>The assignments of the attribute loop.\<close>

definition overwrite_holding :: "pystr option \<Rightarrow> pystr \<Rightarrow> parsed_holding \<Rightarrow> holding \<Rightarrow> holding" where
  "overwrite_holding owner_user_id owner row x =
     x\<lparr>hd_symbol := ph_symbol row, hd_market_symbol := ph_market_symbol row, hd_name := ph_name row,
       hd_category := ph_category row, hd_owner_user_id := owner_user_id, hd_owner_name := Some owner,
       hd_account_name := Some (holder_text (ph_account_name row)), hd_quantity := ph_quantity row,
       hd_average_cost := ph_average_cost row, hd_currency := ph_currency row,
       hd_source_ref := Some (ph_source_ref row)\<rparr>"

definition holding_ref :: "bool \<Rightarrow> holding \<Rightarrow> applied_holding" where
  "holding_ref added x =
     \<lparr>ah_id = hd_id x, ah_name = hd_name x, ah_category = hd_category x, ah_source_ref = hd_source_ref x,
      ah_added = added\<rparr>"

definition add_holding ::
  "import_env \<Rightarrow> pystr \<Rightarrow> pystr option \<Rightarrow> pystr \<Rightarrow> holding_key \<Rightarrow> parsed_holding \<Rightarrow> hold_apply \<Rightarrow> hold_apply option" where
  "add_holding ie household_id owner_user_id owner key row ha =
     Option.bind (flush_holdings ie (ha_live ha) (im_db (ha_st ha)))
       (\<lambda>d. let i = ie_new_id ie (im_next (ha_st ha));
                x = imported_holding ie household_id owner_user_id owner row i
            in if identity_conflict (ie_env ie) d x then None
               else Some (ha\<lparr>ha_st := \<lparr>im_db = set_holdings (db_holdings d @ [x]) d, im_next = im_next (ha_st ha) + 1\<rparr>,
                            ha_live := refresh_live d (ha_live ha) @ [x],
                            ha_by_key := (ha_by_key ha)(key \<mapsto> i),
                            ha_by_ref := (ha_by_ref ha)(ph_source_ref row \<mapsto> i),
                            ha_added := ha_added ha + 1, ha_refs := ha_refs ha @ [holding_ref True x]\<rparr>))"

definition update_holding ::
  "pystr option \<Rightarrow> pystr \<Rightarrow> parsed_holding \<Rightarrow> holding \<Rightarrow> hold_apply \<Rightarrow> hold_apply" where
  "update_holding owner_user_id owner row x ha =
     (let y = overwrite_holding owner_user_id owner row x;
          changed = (y \<noteq> x);
          z = (if changed then y\<lparr>hd_version := normalize_version (hd_version x) + 1\<rparr> else x);
          old_key = row_key x; new_key = row_key z;
          popped = (if old_key \<noteq> new_key \<and> ha_by_key ha old_key = Some (hd_id x)
                    then (ha_by_key ha)(old_key := None) else ha_by_key ha)
      in ha\<lparr>ha_live := row_update hd_id (hd_id x) (\<lambda>_. z) (ha_live ha),
            ha_by_key := popped(new_key \<mapsto> hd_id x),
            ha_by_ref := (ha_by_ref ha)(ph_source_ref row \<mapsto> hd_id x),
            ha_updated := ha_updated ha + (if changed then 1 else 0),
            ha_refs := ha_refs ha @ (if changed then [holding_ref False z] else [])\<rparr>)"

definition apply_holding_row ::
  "import_env \<Rightarrow> pystr \<Rightarrow> owner_lookup \<Rightarrow> parsed_holding \<Rightarrow> hold_apply \<Rightarrow> hold_apply option" where
  "apply_holding_row ie household_id lookup row ha =
     (let (owner_user_id, owner, m) = resolve_owner_from_lookup lookup (ph_owner_name row);
          ha1 = note_owner owner m ha;
          key = holding_key (ph_asset_type row) (ph_market_symbol row) owner_user_id (Some owner)
                  (Some (holder_text (ph_account_name row)));
          by_ref = (if ph_source_ref row = [] then None else ha_by_ref ha1 (ph_source_ref row));
          entity = (case by_ref of Some i \<Rightarrow> Some i | None \<Rightarrow> ha_by_key ha1 key)
      in case Option.bind entity (\<lambda>i. row_get hd_id i (ha_live ha1)) of
           None \<Rightarrow> add_holding ie household_id owner_user_id owner key row ha1
         | Some x \<Rightarrow> Some (update_holding owner_user_id owner row x ha1))"

fun apply_holding_rows ::
  "import_env \<Rightarrow> pystr \<Rightarrow> owner_lookup \<Rightarrow> parsed_holding list \<Rightarrow> hold_apply \<Rightarrow> hold_apply option" where
  "apply_holding_rows ie household_id lookup [] ha = Some ha"
| "apply_holding_rows ie household_id lookup (row # rows) ha =
     Option.bind (apply_holding_row ie household_id lookup row ha) (apply_holding_rows ie household_id lookup rows)"

text \<open>A dictionary comprehension: of equal keys the last entry counts.\<close>

definition last_entry :: "('k \<times> 'v) list \<Rightarrow> 'k \<Rightarrow> 'v option" where
  "last_entry kvs = map_of (rev kvs)"

definition start_hold_apply :: "pystr \<Rightarrow> imp \<Rightarrow> hold_apply" where
  "start_hold_apply household_id st =
     (let live = map (\<lambda>x. x\<lparr>hd_version := normalize_version (hd_version x)\<rparr>)
                   (filter (\<lambda>x. hd_household_id x = household_id) (db_holdings (im_db st)))
      in \<lparr>ha_st = st, ha_live = live, ha_by_key = last_entry (map (\<lambda>x. (row_key x, hd_id x)) live),
          ha_by_ref = last_entry (map (\<lambda>x. (the (hd_source_ref x), hd_id x))
                        (filter (\<lambda>x. truthy_text (hd_source_ref x)) live)),
          ha_added = 0, ha_updated = 0, ha_refs = [], ha_invalid = [], ha_ambiguous = []\<rparr>)"

definition owner_issue :: "string \<Rightarrow> pystr \<Rightarrow> import_issue" where
  "owner_issue code name =
     \<lparr>ii_severity = ''warning'', ii_code = code, ii_sheet = None, ii_row = None, ii_detail = [name]\<rparr>"

definition apply_issues :: "hold_apply \<Rightarrow> import_issue list" where
  "apply_issues ha =
     map (owner_issue ''HOLDING_OWNER_NOT_MEMBER'') (sort (ha_invalid ha))
     @ map (owner_issue ''HOLDING_OWNER_AMBIGUOUS'') (sort (ha_ambiguous ha))"

definition apply_holdings ::
  "import_env \<Rightarrow> pystr \<Rightarrow> parsed_holding list \<Rightarrow> imp \<Rightarrow> hold_apply option" where
  "apply_holdings ie household_id rows st =
     apply_holding_rows ie household_id (load_owner_lookup (im_db st) household_id) rows
       (start_hold_apply household_id st)"

subsection \<open>The whole import\<close>

datatype import_mode = Dry_run | Apply

text \<open>What \<open>load_workbook\<close> does, and the exceptions the caller tells apart.\<close>

datatype loaded = Loaded "sheet list" | Load_value_error | Load_error

datatype import_exn = Too_many_sheets | Value_error | Other_error

record import_report =
  ir_metrics :: metrics
  ir_category_rows :: nat
  ir_transaction_rows :: nat
  ir_holding_rows :: nat
  ir_applied_categories :: nat
  ir_applied_transactions :: nat
  ir_applied_holdings_added :: nat
  ir_applied_holdings_updated :: nat
  ir_skipped_transactions :: nat
  ir_transaction_refs :: "applied_tx list"
  ir_holding_refs :: "applied_holding list"
  ir_issues :: "import_issue list"

text \<open>
  The answer and the session: its database and the holdings not yet flushed.  The caller commits.
\<close>

definition run_import ::
  "import_env \<Rightarrow> pystr \<Rightarrow> loaded \<Rightarrow> import_mode \<Rightarrow> imp \<Rightarrow> import_exn + (import_report \<times> imp \<times> holding list)" where
  "run_import ie household_id loaded mode st =
     (case loaded of
        Load_value_error \<Rightarrow> Inl Value_error
      | Load_error \<Rightarrow> Inl Other_error
      | Loaded wb \<Rightarrow>
          if is_max_sheets (ie_settings ie) < int (length wb) then Inl Too_many_sheets
          else
            (let mt = collect_metrics ie wb;
                 (categories, category_issues) = parse_categories ie wb
             in case (parse_transactions ie wb, parse_holdings ie wb) of
                  (Some (tx_rows, tx_issues), Some (holding_rows, holding_issues)) \<Rightarrow>
                    (let report = (\<lambda>ic ta_n sk had hup trefs hrefs his.
                           \<lparr>ir_metrics = mt, ir_category_rows = length categories,
                            ir_transaction_rows = length tx_rows, ir_holding_rows = length holding_rows,
                            ir_applied_categories = ic, ir_applied_transactions = ta_n,
                            ir_applied_holdings_added = had, ir_applied_holdings_updated = hup,
                            ir_skipped_transactions = sk, ir_transaction_refs = trefs, ir_holding_refs = hrefs,
                            ir_issues = mt_issues mt @ category_issues @ tx_issues @ holding_issues @ his\<rparr>)
                     in case mode of
                          Dry_run \<Rightarrow> Inr (report 0 0 0 0 0 [] [] [], st, [])
                        | Apply \<Rightarrow>
                            (let (cm, inserted, st1) = upsert_categories ie household_id categories st;
                                 ta = apply_transactions ie household_id cm tx_rows st1
                             in case apply_holdings ie household_id holding_rows (ta_st ta) of
                                  None \<Rightarrow> Inl Other_error
                                | Some ha \<Rightarrow>
                                    Inr (report inserted (ta_added ta) (ta_skipped ta) (ha_added ha) (ha_updated ha)
                                           (ta_refs ta) (ha_refs ha) (apply_issues ha), ha_st ha, ha_live ha)))
                | _ \<Rightarrow> Inl Other_error))"

text \<open>\<open>db.commit()\<close>: the last flush; \<open>None\<close> is its \<open>IntegrityError\<close>.\<close>

definition commit_import :: "import_env \<Rightarrow> imp \<Rightarrow> holding list \<Rightarrow> db option" where
  "commit_import ie st live = flush_holdings ie live (im_db st)"

end
