(* ===== verification/Workbook_Plan.thy ===== *)
theory Workbook_Plan
  imports Workbook_Apply
begin

text \<open>
  What an import is to do, decided once: the transactions of the workbook that are new, with their order
  keys.  The loop of \<open>_apply_transactions\<close> follows this plan, and a second import of the same workbook finds
  nothing to do.
\<close>

subsection \<open>What an import is to do\<close>

text \<open>
  The rows to add, decided once against the stored transactions, and their order keys: after the last
  key of the day in steps, in the order of the workbook.
\<close>

definition to_import :: "import_env \<Rightarrow> db \<Rightarrow> pystr \<Rightarrow> parsed_transaction \<Rightarrow> bool" where
  "to_import ie d household_id r \<longleftrightarrow>
     pt_source_ref r \<notin> set (existing_sources d household_id)
     \<and> existing_count ie d household_id (pt_dedupe_hash r) < pt_dedupe_ordinal r"

fun plan_keys :: "(date \<Rightarrow> int) \<Rightarrow> parsed_transaction list \<Rightarrow> (parsed_transaction \<times> int) list" where
  "plan_keys next_key [] = []"
| "plan_keys next_key (r # rs) =
     (let day = pt_occurred_on r; k = next_key day
      in (r, k) # plan_keys (next_key(day := k + transaction_order_step)) rs)"

type_synonym tx_view =
  "category_names option \<times> pystr \<times> flow_type \<times> date \<times> rat \<times> pystr \<times> pystr option \<times> pystr option \<times> pystr option \<times> int"

definition stored_view :: "db \<Rightarrow> transaction \<Rightarrow> tx_view" where
  "stored_view d t =
     (Option.bind (tx_category_id t) (\<lambda>i. map_option category_names (row_get ct_id i (db_categories d))),
      tx_household_id t, tx_flow_type t, tx_occurred_on t, tx_amount t, tx_memo t, tx_owner_user_id t,
      tx_owner_name t, tx_source_ref t, tx_order_key t)"

definition planned_view :: "pystr \<Rightarrow> owner_lookup \<Rightarrow> parsed_transaction \<times> int \<Rightarrow> tx_view" where
  "planned_view household_id lookup rk =
     (let (r, k) = rk
      in (Some (pt_flow_type r, pt_major r, pt_minor r), household_id, pt_flow_type r, pt_occurred_on r, pt_amount r,
          pt_memo r, fst (resolve_owner_from_lookup lookup (pt_owner_name r)), pt_owner_name r,
          Some (pt_source_ref r), k))"

definition import_plan :: "import_env \<Rightarrow> db \<Rightarrow> pystr \<Rightarrow> parsed_transaction list \<Rightarrow> tx_view list" where
  "import_plan ie d household_id rows =
     map (planned_view household_id (load_owner_lookup d household_id))
       (plan_keys (\<lambda>day. next_append_order_key d household_id day None)
          (filter (to_import ie d household_id) rows))"

subsection \<open>Identifiers and categories\<close>

text \<open>The identifiers still to come are new, as \<open>uuid4\<close> makes them.\<close>

definition fresh_ids :: "import_env \<Rightarrow> imp \<Rightarrow> bool" where
  "fresh_ids ie st \<longleftrightarrow>
     inj (ie_new_id ie)
     \<and> (\<forall>n \<ge> im_next st. ie_new_id ie n \<notin> ct_id ` set (db_categories (im_db st))
          \<and> ie_new_id ie n \<notin> tx_id ` set (db_transactions (im_db st))
          \<and> ie_new_id ie n \<notin> hd_id ` set (db_holdings (im_db st)))"

definition map_ok :: "category_map \<Rightarrow> db \<Rightarrow> bool" where
  "map_ok cm d \<longleftrightarrow>
     (\<forall>key i. map_of cm key = Some i \<longrightarrow> map_option category_names (row_get ct_id i (db_categories d)) = Some key)"

definition grows :: "db \<Rightarrow> db \<Rightarrow> bool" where
  "grows d d' \<longleftrightarrow> (\<exists>cs ts. db_categories d' = db_categories d @ cs \<and> db_transactions d' = db_transactions d @ ts)
     \<and> db_members d' = db_members d \<and> db_users d' = db_users d \<and> db_holdings d' = db_holdings d"

lemma grows_refl [simp]: "grows d d"
  by (simp add: grows_def)

lemma grows_trans: "grows a b \<Longrightarrow> grows b c \<Longrightarrow> grows a c"
  by (auto simp: grows_def)

lemma grows_category: "grows d d' \<Longrightarrow> row_get ct_id i (db_categories d) = Some c \<Longrightarrow>
   row_get ct_id i (db_categories d') = Some c"
  by (auto simp: grows_def row_get_append)

lemma map_ok_grows:
  assumes "map_ok cm d" "grows d d'"
  shows "map_ok cm d'"
  unfolding map_ok_def
proof (intro allI impI)
  fix key i
  assume "map_of cm key = Some i"
  with assms(1) obtain c where "row_get ct_id i (db_categories d) = Some c" "category_names c = key"
    unfolding map_ok_def by blast
  with grows_category [OF assms(2)] show "map_option category_names (row_get ct_id i (db_categories d')) = Some key"
    by simp
qed

lemma insert_category_facts:
  assumes "insert_category ie h key n st = (i, st')" "fresh_ids ie st"
  shows "grows (im_db st) (im_db st')" "fresh_ids ie st'"
    "map_option category_names (row_get ct_id i (db_categories (im_db st'))) = Some key"
    "db_transactions (im_db st') = db_transactions (im_db st)"
proof -
  obtain flow major minor where key: "key = (flow, major, minor)" by (cases key) auto
  have i: "i = ie_new_id ie (im_next st)"
    using assms(1) by (auto simp: insert_category_def key Let_def)
  have st': "st' = \<lparr>im_db = set_categories (db_categories (im_db st)
      @ [\<lparr>ct_id = i, ct_household_id = h, ct_flow_type = flow, ct_major = major, ct_minor = minor,
         ct_sort_order = n, ct_created_at = ev_db_now (ie_env ie)\<rparr>]) (im_db st), im_next = im_next st + 1\<rparr>"
    using assms(1) by (auto simp: insert_category_def key Let_def)
  have new: "i \<notin> ct_id ` set (db_categories (im_db st))"
    using assms(2) by (auto simp: fresh_ids_def i)
  show "grows (im_db st) (im_db st')" "db_transactions (im_db st') = db_transactions (im_db st)"
    by (simp_all add: st' grows_def)
  show "map_option category_names (row_get ct_id i (db_categories (im_db st'))) = Some key"
    using iffD2 [OF row_get_None_iff new] by (simp add: st' row_get_append category_names_def key)
  have "i \<noteq> ie_new_id ie m" if "im_next st + 1 \<le> m" for m
  proof -
    have "im_next st \<noteq> m" using that by simp
    with assms(2) show ?thesis unfolding i fresh_ids_def by (auto dest: injD)
  qed
  with assms(2) show "fresh_ids ie st'"
    by (auto simp: fresh_ids_def st')
qed

lemma map_of_snoc: "map_of (xs @ [(k, v)]) j = (case map_of xs j of Some w \<Rightarrow> Some w | None \<Rightarrow> if j = k then Some v else None)"
  by (simp add: map_add_def split: option.split)

lemma map_ok_snoc:
  assumes "map_ok cm d" "map_option category_names (row_get ct_id i (db_categories d)) = Some key"
  shows "map_ok (cm @ [(key, i)]) d"
proof -
  have "map_option category_names (row_get ct_id j (db_categories d)) = Some k"
    if "map_of (cm @ [(key, i)]) k = Some j" for k j
  proof (cases "map_of cm k")
    case None
    with that have "k = key" "j = i" unfolding map_of_snoc by (simp_all split: if_splits)
    with assms(2) show ?thesis by simp
  next
    case (Some w)
    with that have "map_of cm k = Some j" unfolding map_of_snoc by simp
    with assms(1) show ?thesis unfolding map_ok_def by blast
  qed
  then show ?thesis unfolding map_ok_def by blast
qed

lemma category_for_facts:
  assumes "category_for ie h key cm st = (i, cm', st')" "fresh_ids ie st" "map_ok cm (im_db st)"
  shows "grows (im_db st) (im_db st')" "fresh_ids ie st'" "map_ok cm' (im_db st')"
    "map_option category_names (row_get ct_id i (db_categories (im_db st'))) = Some key"
    "db_transactions (im_db st') = db_transactions (im_db st)"
    "set (map fst cm) \<union> {key} = set (map fst cm')"
proof -
  have "grows (im_db st) (im_db st') \<and> fresh_ids ie st' \<and> map_ok cm' (im_db st')
    \<and> map_option category_names (row_get ct_id i (db_categories (im_db st'))) = Some key
    \<and> db_transactions (im_db st') = db_transactions (im_db st) \<and> set (map fst cm) \<union> {key} = set (map fst cm')"
  proof (cases "map_of cm key")
    case None
    then obtain st1 where ins: "insert_category ie h key (int (length cm) + 1) st = (i, st1)"
      and e: "cm' = cm @ [(key, i)]" "st' = st1"
      using assms(1) by (auto simp: category_for_def split: prod.splits)
    note f = insert_category_facts [OF ins assms(2)]
    show ?thesis
      using f map_ok_snoc [OF map_ok_grows [OF assms(3) f(1)] f(3)] by (simp add: e)
  next
    case (Some j)
    then have e: "cm' = cm" "st' = st" "j = i" using assms(1) by (simp_all add: category_for_def)
    have "key \<in> set (map fst cm)" using map_of_SomeD [OF Some] by force
    with Some assms(2,3) show ?thesis by (auto simp: e map_ok_def)
  qed
  then show "grows (im_db st) (im_db st')" "fresh_ids ie st'" "map_ok cm' (im_db st')"
    "map_option category_names (row_get ct_id i (db_categories (im_db st'))) = Some key"
    "db_transactions (im_db st') = db_transactions (im_db st)"
    "set (map fst cm) \<union> {key} = set (map fst cm')" by blast+
qed

subsection \<open>The loop and the plan\<close>

lemma next_append_other_day:
  assumes "\<forall>t \<in> set ts. tx_occurred_on t \<noteq> day" "db_transactions d' = db_transactions d @ ts"
  shows "next_append_order_key d' h day None = next_append_order_key d h day None"
proof -
  have "filter (\<lambda>t. on_day h day t \<and> (truthy_text None \<longrightarrow> Some (tx_id t) \<noteq> None)) ts = []"
    using assms(1) by (auto simp: filter_empty_conv on_day_def)
  then show ?thesis
    by (simp add: next_append_order_key_def assms(2) Let_def)
qed

lemma next_append_same: "db_transactions d' = db_transactions d \<Longrightarrow> next_append_order_key d' h day x = next_append_order_key d h day x"
  by (simp add: next_append_order_key_def)

definition next_key :: "pystr \<Rightarrow> tx_apply \<Rightarrow> date \<Rightarrow> int" where
  "next_key h ta day =
     (case ta_order ta day of Some k \<Rightarrow> k | None \<Rightarrow> next_append_order_key (im_db (ta_st ta)) h day None)"

text \<open>One added row.\<close>

lemma apply_added_row:
  assumes "pt_source_ref r \<notin> set (ta_sources ta)" "ta_counts ta (pt_dedupe_hash r) < pt_dedupe_ordinal r"
    and "fresh_ids ie (ta_st ta)" "map_ok (ta_map ta) (im_db (ta_st ta))"
    and def: "ta' = apply_tx_row ie h lookup r ta"
  shows "\<exists>t. db_transactions (im_db (ta_st ta')) = db_transactions (im_db (ta_st ta)) @ [t]
      \<and> stored_view (im_db (ta_st ta')) t = planned_view h lookup (r, next_key h ta (pt_occurred_on r))"
    and "grows (im_db (ta_st ta)) (im_db (ta_st ta'))" and "fresh_ids ie (ta_st ta')"
    and "map_ok (ta_map ta') (im_db (ta_st ta'))"
    and "next_key h ta' = (next_key h ta)(pt_occurred_on r := next_key h ta (pt_occurred_on r) + transaction_order_step)"
    and "ta_sources ta' = pt_source_ref r # ta_sources ta" and "ta_added ta' = ta_added ta + 1"
    and "ta_skipped ta' = ta_skipped ta"
    and "ta_counts ta' = (ta_counts ta)(pt_dedupe_hash r := pt_dedupe_ordinal r)"
    and "set (map fst (ta_map ta)) \<subseteq> set (map fst (ta_map ta'))"
proof -
  let ?key = "(pt_flow_type r, pt_major r, pt_minor r)" and ?day = "pt_occurred_on r"
  obtain c cm st where cat: "category_for ie h ?key (ta_map ta) (ta_st ta) = (c, cm, st)"
    by (metis prod_cases3)
  note f = category_for_facts [OF cat assms(3,4)]
  define i where "i = ie_new_id ie (im_next st)"
  define k where "k = next_key h ta ?day"
  define t where "t = imported_transaction ie h c (fst (resolve_owner_from_lookup lookup (pt_owner_name r))) k r i"
  define d' where "d' = set_transactions (db_transactions (im_db st) @ [t]) (im_db st)"
  have k: "(case ta_order ta ?day of Some k \<Rightarrow> k | None \<Rightarrow> next_append_order_key (im_db st) h ?day None) = k"
    using next_append_same [OF f(5)] by (simp add: k_def next_key_def split: option.split)
  have ta': "ta' = \<lparr>ta_st = \<lparr>im_db = d', im_next = im_next st + 1\<rparr>, ta_map = cm,
      ta_sources = pt_source_ref r # ta_sources ta,
      ta_counts = (ta_counts ta)(pt_dedupe_hash r := max (ta_counts ta (pt_dedupe_hash r)) (pt_dedupe_ordinal r)),
      ta_order = (ta_order ta)(?day \<mapsto> k + transaction_order_step), ta_added = ta_added ta + 1,
      ta_skipped = ta_skipped ta,
      ta_refs = ta_refs ta @ [\<lparr>at_id = i, at_occurred_on = ?day, at_memo = tx_memo t, at_source_ref = tx_source_ref t\<rparr>]\<rparr>"
    using assms(1,2) by (simp add: def apply_tx_row_def cat k Let_def t_def i_def d'_def)
  have st: "im_db (ta_st ta') = d'" by (simp add: ta')
  have grow: "grows (im_db st) d'" by (simp add: d'_def grows_def)
  have cat': "db_categories d' = db_categories (im_db st)" by (simp add: d'_def)
  have "stored_view d' t = planned_view h lookup (r, k)"
    using f(4) by (simp add: stored_view_def planned_view_def t_def imported_transaction_def cat')
  then show "\<exists>t. db_transactions (im_db (ta_st ta')) = db_transactions (im_db (ta_st ta)) @ [t]
      \<and> stored_view (im_db (ta_st ta')) t = planned_view h lookup (r, next_key h ta ?day)"
    using f(5) by (intro exI [of _ t]) (simp add: st d'_def k_def)
  show "grows (im_db (ta_st ta)) (im_db (ta_st ta'))"
    unfolding st by (rule grows_trans [OF f(1) grow])
  show "map_ok (ta_map ta') (im_db (ta_st ta'))"
    using map_ok_grows [OF f(3) grow] by (simp add: ta')
  have "i \<noteq> ie_new_id ie m" if "im_next st + 1 \<le> m" for m
  proof -
    have "im_next st \<noteq> m" using that by simp
    with f(2) show ?thesis unfolding i_def fresh_ids_def by (auto dest: injD)
  qed
  with f(2) show "fresh_ids ie (ta_st ta')"
    by (auto simp: fresh_ids_def ta' d'_def t_def imported_transaction_def)
  show "next_key h ta' = (next_key h ta)(?day := next_key h ta ?day + transaction_order_step)"
  proof
    fix day
    have "next_append_order_key d' h day None = next_append_order_key (im_db (ta_st ta)) h day None" if "day \<noteq> ?day"
      by (rule next_append_other_day [where ts = "[t]"]) (use f(5) that in \<open>auto simp: d'_def t_def imported_transaction_def\<close>)
    moreover have "ta_order ta' = (ta_order ta)(?day \<mapsto> k + transaction_order_step)" by (simp add: ta')
    ultimately show "next_key h ta' day = ((next_key h ta)(?day := next_key h ta ?day + transaction_order_step)) day"
      by (cases "ta_order ta day") (auto simp: next_key_def [of h ta' day] next_key_def [of h ta day] st k_def)
  qed
  show "ta_sources ta' = pt_source_ref r # ta_sources ta" "ta_added ta' = ta_added ta + 1"
    "ta_skipped ta' = ta_skipped ta" by (simp_all add: ta')
  show "ta_counts ta' = (ta_counts ta)(pt_dedupe_hash r := pt_dedupe_ordinal r)"
    using assms(2) by (simp add: ta' max_def)
  show "set (map fst (ta_map ta)) \<subseteq> set (map fst (ta_map ta'))"
    using f(6) by (auto simp: ta')
qed

lemma apply_skipped_row:
  "pt_source_ref r \<in> set (ta_sources ta) \<or> pt_dedupe_ordinal r \<le> ta_counts ta (pt_dedupe_hash r) \<Longrightarrow>
   apply_tx_row ie h lookup r ta = ta\<lparr>ta_skipped := ta_skipped ta + 1\<rparr>"
  by (auto simp: apply_tx_row_def Let_def)

text \<open>
  The loop against the one-shot decision: \<open>srcs\<close> and \<open>before\<close> are the sources and counts before it, \<open>c\<close>
  counts the rows of each hash met so far.
\<close>

lemma apply_rows_follow_plan:
  assumes "ordinals_from c rows" "distinct (map pt_source_ref rows)"
    and "\<forall>r \<in> set rows. pt_source_ref r \<in> set (ta_sources ta) \<longleftrightarrow> pt_source_ref r \<in> srcs"
    and "\<forall>h. before h \<le> ta_counts ta h \<and> ta_counts ta h \<le> max (before h) (c h)"
    and "fresh_ids ie (ta_st ta)" "map_ok (ta_map ta) (im_db (ta_st ta))"
  shows "\<exists>ts. db_transactions (im_db (ta_st (fold (apply_tx_row ie hid lookup) rows ta)))
        = db_transactions (im_db (ta_st ta)) @ ts
      \<and> map (stored_view (im_db (ta_st (fold (apply_tx_row ie hid lookup) rows ta)))) ts
        = map (planned_view hid lookup) (plan_keys (next_key hid ta)
            (filter (\<lambda>r. pt_source_ref r \<notin> srcs \<and> before (pt_dedupe_hash r) < pt_dedupe_ordinal r) rows))
      \<and> grows (im_db (ta_st ta)) (im_db (ta_st (fold (apply_tx_row ie hid lookup) rows ta)))
      \<and> ta_added (fold (apply_tx_row ie hid lookup) rows ta) = ta_added ta + length ts
      \<and> ta_skipped (fold (apply_tx_row ie hid lookup) rows ta) + length ts = ta_skipped ta + length rows"
  using assms
proof (induction rows arbitrary: c ta)
  case Nil
  show ?case by simp
next
  case (Cons r rows)
  let ?h = "pt_dedupe_hash r"
  let ?c = "c(?h := c ?h + 1)"
  let ?sel = "\<lambda>r. pt_source_ref r \<notin> srcs \<and> before (pt_dedupe_hash r) < pt_dedupe_ordinal r"
  let ?ta = "apply_tx_row ie hid lookup r ta"
  have ord: "pt_dedupe_ordinal r = c ?h + 1" and rest: "ordinals_from ?c rows" "distinct (map pt_source_ref rows)"
    using Cons.prems(1,2) by auto
  have src: "pt_source_ref r \<in> set (ta_sources ta) \<longleftrightarrow> pt_source_ref r \<in> srcs"
    using Cons.prems(3) by simp
  have cnt: "before ?h \<le> ta_counts ta ?h" "ta_counts ta ?h \<le> max (before ?h) (c ?h)"
    using Cons.prems(4) by auto
  show ?case
  proof (cases "?sel r")
    case True
    then have notin: "pt_source_ref r \<notin> set (ta_sources ta)" and less: "ta_counts ta ?h < pt_dedupe_ordinal r"
      using src cnt ord by auto
    note a = apply_added_row [OF notin less Cons.prems(5,6) refl, of hid lookup]
    obtain t where t: "db_transactions (im_db (ta_st ?ta)) = db_transactions (im_db (ta_st ta)) @ [t]"
      "stored_view (im_db (ta_st ?ta)) t = planned_view hid lookup (r, next_key hid ta (pt_occurred_on r))"
      using a(1) by blast
    have s: "\<forall>x \<in> set rows. pt_source_ref x \<in> set (ta_sources ?ta) \<longleftrightarrow> pt_source_ref x \<in> srcs"
      using Cons.prems(2,3) unfolding a(6) by (metis image_eqI list.set_intros(2) list.simps(9) distinct.simps(2) set_map set_ConsD)
    have n: "\<forall>h. before h \<le> ta_counts ?ta h \<and> ta_counts ?ta h \<le> max (before h) (?c h)"
      using Cons.prems(4) True ord by (auto simp: a(9))
    from Cons.IH [OF rest s n a(3,4)] obtain ts where
      ts: "db_transactions (im_db (ta_st (fold (apply_tx_row ie hid lookup) rows ?ta))) = db_transactions (im_db (ta_st ?ta)) @ ts"
        "map (stored_view (im_db (ta_st (fold (apply_tx_row ie hid lookup) rows ?ta)))) ts
         = map (planned_view hid lookup) (plan_keys (next_key hid ?ta) (filter ?sel rows))"
        "grows (im_db (ta_st ?ta)) (im_db (ta_st (fold (apply_tx_row ie hid lookup) rows ?ta)))"
        "ta_added (fold (apply_tx_row ie hid lookup) rows ?ta) = ta_added ?ta + length ts"
        "ta_skipped (fold (apply_tx_row ie hid lookup) rows ?ta) + length ts = ta_skipped ?ta + length rows"
      by blast
    let ?d = "im_db (ta_st (fold (apply_tx_row ie hid lookup) rows ?ta))"
    have kept: "stored_view ?d t = stored_view (im_db (ta_st ?ta)) t"
    proof -
      have "fst (stored_view (im_db (ta_st ?ta)) t) = Some (pt_flow_type r, pt_major r, pt_minor r)"
        by (simp add: t(2) planned_view_def)
      then obtain i x where "tx_category_id t = Some i" "row_get ct_id i (db_categories (im_db (ta_st ?ta))) = Some x"
        by (auto simp: stored_view_def bind_eq_Some_conv)
      with grows_category [OF ts(3)] show ?thesis by (simp add: stored_view_def)
    qed
    show ?thesis
    proof (intro exI [of _ "t # ts"] conjI)
      show "map (stored_view (im_db (ta_st (fold (apply_tx_row ie hid lookup) (r # rows) ta)))) (t # ts)
        = map (planned_view hid lookup) (plan_keys (next_key hid ta) (filter ?sel (r # rows)))"
        using True ts(2) kept t(2) by (simp add: Let_def a(5))
      show "grows (im_db (ta_st ta)) (im_db (ta_st (fold (apply_tx_row ie hid lookup) (r # rows) ta)))"
        using grows_trans [OF a(2) ts(3)] by simp
    qed (use ts t a in simp_all)
  next
    case False
    then have skip: "pt_source_ref r \<in> set (ta_sources ta) \<or> pt_dedupe_ordinal r \<le> ta_counts ta ?h"
      using src cnt by auto
    note e = apply_skipped_row [OF skip, of ie hid lookup]
    have n: "\<forall>h. before h \<le> ta_counts ?ta h \<and> ta_counts ?ta h \<le> max (before h) (?c h)"
      using Cons.prems(4) by (auto simp: e le_max_iff_disj)
    have "next_key hid ?ta = next_key hid ta"
      unfolding e by (simp add: next_key_def fun_eq_iff split: option.split)
    moreover have "filter ?sel (r # rows) = filter ?sel rows" using False by (simp only: filter.simps if_False)
    ultimately show ?thesis
      using Cons.IH [OF rest _ n] Cons.prems(3,5,6) by (simp add: e del: filter.simps)
  qed
qed

lemma apply_row_fresh:
  assumes "fresh_ids ie (ta_st ta)" "map_ok (ta_map ta) (im_db (ta_st ta))"
  shows "fresh_ids ie (ta_st (apply_tx_row ie h lookup r ta))
    \<and> map_ok (ta_map (apply_tx_row ie h lookup r ta)) (im_db (ta_st (apply_tx_row ie h lookup r ta)))"
proof (cases "pt_source_ref r \<in> set (ta_sources ta) \<or> pt_dedupe_ordinal r \<le> ta_counts ta (pt_dedupe_hash r)")
  case True
  with assms show ?thesis by (simp add: apply_skipped_row)
next
  case False
  then have "pt_source_ref r \<notin> set (ta_sources ta)" "ta_counts ta (pt_dedupe_hash r) < pt_dedupe_ordinal r" by auto
  from apply_added_row(3,4) [OF this assms refl] show ?thesis by blast
qed

lemma apply_rows_fresh:
  "fresh_ids ie (ta_st ta) \<Longrightarrow> map_ok (ta_map ta) (im_db (ta_st ta)) \<Longrightarrow>
   fresh_ids ie (ta_st (fold (apply_tx_row ie h lookup) rows ta))"
proof (induction rows arbitrary: ta)
  case (Cons r rows)
  with apply_row_fresh [OF Cons.prems, of h lookup r] show ?case by simp
qed simp

subsection \<open>Categories of the workbook\<close>

lemma household_map_ok:
  assumes "unique_keys ct_id (db_categories d)"
  shows "map_ok (household_category_map d h) d"
  unfolding map_ok_def
proof (intro allI impI)
  fix key i
  assume "map_of (household_category_map d h) key = Some i"
  then have "(key, i) \<in> set (household_category_map d h)" by (rule map_of_SomeD)
  then obtain c where c: "c \<in> set (db_categories d)" "key = category_names c" "i = ct_id c"
    by (auto simp: household_category_map_def)
  with row_get_unique [OF assms c(1)] show "map_option category_names (row_get ct_id i (db_categories d)) = Some key"
    by simp
qed

lemma upsert_rows_facts:
  "upsert_rows ie h idx rows cm n st = (cm', n', st') \<Longrightarrow> fresh_ids ie st \<Longrightarrow> map_ok cm (im_db st) \<Longrightarrow>
   grows (im_db st) (im_db st') \<and> fresh_ids ie st' \<and> map_ok cm' (im_db st')
   \<and> db_transactions (im_db st') = db_transactions (im_db st)"
proof (induction ie h idx rows cm n st arbitrary: cm' n' st' rule: upsert_rows.induct)
  case (2 ie h idx key rows cm n st)
  show ?case
  proof (cases "map_of cm key")
    case None
    obtain i st1 where ins: "insert_category ie h key (idx + 1) st = (i, st1)" by fastforce
    note f = insert_category_facts [OF ins "2.prems"(2)]
    have "upsert_rows ie h (idx + 1) rows (cm @ [(key, i)]) (n + 1) st1 = (cm', n', st')"
      using "2.prems"(1) None ins by simp
    from "2.IH"(2) [OF _ ins [symmetric] refl this f(2) map_ok_snoc [OF map_ok_grows [OF "2.prems"(3) f(1)] f(3)]]
      None f(1,4) show ?thesis by (auto intro: grows_trans)
  qed (use 2 in simp)
qed simp

lemma upsert_categories_facts:
  assumes "upsert_categories ie h rows st = (cm, n, st')" "fresh_ids ie st" "unique_keys ct_id (db_categories (im_db st))"
  shows "grows (im_db st) (im_db st')" "fresh_ids ie st'" "map_ok cm (im_db st')"
    "db_transactions (im_db st') = db_transactions (im_db st)"
  using upsert_rows_facts [OF assms(1) [unfolded upsert_categories_def] assms(2) household_map_ok [OF assms(3)]]
  by blast+

text \<open>The keys of the map are those of the household's categories, all along.\<close>

definition map_covers :: "pystr \<Rightarrow> category_map \<Rightarrow> db \<Rightarrow> bool" where
  "map_covers h cm d \<longleftrightarrow>
     set (map fst cm) = category_names ` {c \<in> set (db_categories d). ct_household_id c = h}"

lemma insert_category_covers:
  assumes "insert_category ie h key n st = (i, st')" "map_covers h cm (im_db st)"
  shows "map_covers h (cm @ [(key, i)]) (im_db st')"
proof -
  obtain flow major minor where key: "key = (flow, major, minor)" by (cases key) auto
  obtain c where c: "db_categories (im_db st') = db_categories (im_db st) @ [c]" "ct_household_id c = h"
    "category_names c = key"
    using assms(1) by (auto simp: insert_category_def key Let_def category_names_def)
  have "{x \<in> set (db_categories (im_db st')). ct_household_id x = h}
      = insert c {x \<in> set (db_categories (im_db st)). ct_household_id x = h}"
    using c(1,2) by auto
  with assms(2) c(3) show ?thesis
    by (simp add: map_covers_def)
qed

lemma map_of_None: "map_of cm key = None \<longleftrightarrow> key \<notin> set (map fst cm)"
  by (simp add: map_of_eq_None_iff)

lemma upsert_rows_covers:
  "upsert_rows ie h idx rows cm n st = (cm', n', st') \<Longrightarrow> map_covers h cm (im_db st) \<Longrightarrow>
   map_covers h cm' (im_db st') \<and> set rows \<union> set (map fst cm) = set (map fst cm')"
proof (induction ie h idx rows cm n st arbitrary: cm' n' st' rule: upsert_rows.induct)
  case (2 ie h idx key rows cm n st)
  show ?case
  proof (cases "map_of cm key")
    case None
    obtain i st1 where ins: "insert_category ie h key (idx + 1) st = (i, st1)" by fastforce
    have "upsert_rows ie h (idx + 1) rows (cm @ [(key, i)]) (n + 1) st1 = (cm', n', st')"
      using "2.prems"(1) None ins by simp
    from "2.IH"(2) [OF _ ins [symmetric] refl this insert_category_covers [OF ins "2.prems"(2)]] None
    show ?thesis by auto
  next
    case (Some j)
    then have "key \<in> set (map fst cm)" using map_of_None [of cm key] by auto
    with 2 Some show ?thesis by auto
  qed
qed simp

lemma household_map_covers: "map_covers h (household_category_map d h) d"
  by (auto simp: map_covers_def household_category_map_def)

lemma upsert_rows_nothing:
  "set rows \<subseteq> set (map fst cm) \<Longrightarrow> upsert_rows ie h idx rows cm n st = (cm, n, st)"
proof (induction ie h idx rows cm n st rule: upsert_rows.induct)
  case (2 ie h idx key rows cm n st)
  then have "map_of cm key \<noteq> None" using map_of_None [of cm key] by auto
  with 2 show ?case by simp
qed simp

subsection \<open>A second import\<close>

lemma skip_all:
  "\<forall>r \<in> set rows. pt_source_ref r \<in> set (ta_sources ta) \<or> pt_dedupe_ordinal r \<le> ta_counts ta (pt_dedupe_hash r) \<Longrightarrow>
   fold (apply_tx_row ie h lookup) rows ta = ta\<lparr>ta_skipped := ta_skipped ta + length rows\<rparr>"
proof (induction rows arbitrary: ta)
  case (Cons r rows)
  then have "apply_tx_row ie h lookup r ta = ta\<lparr>ta_skipped := ta_skipped ta + 1\<rparr>"
    by (intro apply_skipped_row) simp
  with Cons show ?case by simp
qed simp

lemma start_tx_apply_facts [simp]:
  "ta_st (start_tx_apply ie h cm st) = st" "ta_map (start_tx_apply ie h cm st) = cm"
  "ta_sources (start_tx_apply ie h cm st) = existing_sources (im_db st) h"
  "ta_counts (start_tx_apply ie h cm st) = existing_count ie (im_db st) h"
  "ta_added (start_tx_apply ie h cm st) = 0" "ta_skipped (start_tx_apply ie h cm st) = 0"
  "next_key h (start_tx_apply ie h cm st) = (\<lambda>day. next_append_order_key (im_db st) h day None)"
  by (simp_all add: start_tx_apply_def next_key_def fun_eq_iff)

lemma apply_transactions_plan:
  assumes "ordinals_from (\<lambda>_. 0) rows" "distinct (map pt_source_ref rows)" "fresh_ids ie st" "map_ok cm (im_db st)"
  shows "\<exists>ts. db_transactions (im_db (ta_st (apply_transactions ie h cm rows st))) = db_transactions (im_db st) @ ts
      \<and> map (stored_view (im_db (ta_st (apply_transactions ie h cm rows st)))) ts = import_plan ie (im_db st) h rows
      \<and> grows (im_db st) (im_db (ta_st (apply_transactions ie h cm rows st)))
      \<and> ta_added (apply_transactions ie h cm rows st) = length ts
      \<and> ta_skipped (apply_transactions ie h cm rows st) + length ts = length rows"
proof -
  have "\<forall>k. existing_count ie (im_db st) h k \<le> ta_counts (start_tx_apply ie h cm st) k
      \<and> ta_counts (start_tx_apply ie h cm st) k \<le> max (existing_count ie (im_db st) h k) 0"
    by simp
  from apply_rows_follow_plan [OF assms(1,2), where ta = "start_tx_apply ie h cm st" and srcs = "set (existing_sources (im_db st) h)"
      and before = "existing_count ie (im_db st) h" and ie = ie and hid = h and lookup = "load_owner_lookup (im_db st) h", OF _ this]
    assms(3,4)
  show ?thesis
    by (simp add: apply_transactions_def import_plan_def to_import_def [abs_def])
qed

lemma apply_transactions_fresh:
  "fresh_ids ie st \<Longrightarrow> map_ok cm (im_db st) \<Longrightarrow> fresh_ids ie (ta_st (apply_transactions ie h cm rows st))"
  by (simp add: apply_transactions_def apply_rows_fresh)

text \<open>Rows of both tables are only added.\<close>

definition extends :: "db \<Rightarrow> db \<Rightarrow> bool" where
  "extends d d' \<longleftrightarrow> (\<exists>cs ts. db_categories d' = db_categories d @ cs \<and> db_transactions d' = db_transactions d @ ts)"

lemma grows_extends: "grows d d' \<Longrightarrow> extends d d'"
  by (auto simp: grows_def extends_def)

lemma extends_trans: "extends a b \<Longrightarrow> extends b c \<Longrightarrow> extends a c"
  by (auto simp: extends_def)

lemma extends_category: "extends d d' \<Longrightarrow> row_get ct_id i (db_categories d) = Some c \<Longrightarrow>
   row_get ct_id i (db_categories d') = Some c"
  by (auto simp: extends_def row_get_append)

lemma existing_count_extends:
  assumes "extends d d'"
  shows "existing_count ie d h k \<le> existing_count ie d' h k"
proof -
  obtain ts where ts: "db_transactions d' = db_transactions d @ ts" using assms by (auto simp: extends_def)
  have keep: "stored_hash ie d' t = Some k" if "stored_hash ie d t = Some k" for t
    using that extends_category [OF assms] by (auto simp: stored_hash_def Let_def split: if_splits)
  have "length (filter (\<lambda>t. stored_hash ie d t = Some k) xs) \<le> length (filter (\<lambda>t. stored_hash ie d' t = Some k) xs)" for xs
    by (induction xs) (auto simp: keep)
  from this [of "household_transactions d h"] show ?thesis
    by (simp add: existing_count_def household_transactions_def ts)
qed

lemma existing_sources_extends:
  "extends d d' \<Longrightarrow> s \<in> set (existing_sources d h) \<Longrightarrow> s \<in> set (existing_sources d' h)"
  by (auto simp: extends_def existing_sources_def household_transactions_def List.map_filter_def)

lemma plan_keys_rows: "map fst (plan_keys b rs) = rs"
  by (induction rs arbitrary: b) (simp_all add: Let_def)

lemma imported_source:
  assumes "db_transactions d' = db_transactions d @ ts" "map (stored_view d') ts = import_plan ie d h rows"
    and "r \<in> set rows" "to_import ie d h r" "pt_source_ref r \<noteq> []"
  shows "pt_source_ref r \<in> set (existing_sources d' h)"
proof -
  have "r \<in> set (map fst (plan_keys (\<lambda>day. next_append_order_key d h day None) (filter (to_import ie d h) rows)))"
    using assms(3,4) by (simp add: plan_keys_rows)
  then obtain k where "(r, k) \<in> set (plan_keys (\<lambda>day. next_append_order_key d h day None) (filter (to_import ie d h) rows))"
    by auto
  then have "planned_view h (load_owner_lookup d h) (r, k) \<in> set (map (stored_view d') ts)"
    unfolding assms(2) import_plan_def by auto
  then obtain t where "t \<in> set ts" "stored_view d' t = planned_view h (load_owner_lookup d h) (r, k)" by auto
  then have "tx_source_ref t = Some (pt_source_ref r)" "tx_household_id t = h" "t \<in> set (db_transactions d')"
    using assms(1) by (auto simp: stored_view_def planned_view_def)
  with assms(5) show ?thesis
    by (force simp: existing_sources_def household_transactions_def List.map_filter_def)
qed

lemma second_apply_skips:
  assumes parsed: "parse_transactions ie wb = Some (rows, issues)"
    and "fresh_ids ie st" "map_ok cm (im_db st)"
    and d': "extends (im_db (ta_st (apply_transactions ie h cm rows st))) (im_db st2)"
    and ie': "\<And>d k. existing_count ie' d h k = existing_count ie d h k"
  shows "apply_transactions ie' h cm2 rows st2
    = (start_tx_apply ie' h cm2 st2)\<lparr>ta_skipped := length rows\<rparr>"
proof -
  note p = parse_transactions_ok [OF parsed]
  let ?d1 = "im_db (ta_st (apply_transactions ie h cm rows st))"
  from apply_transactions_plan [OF p(1,3) assms(2,3)] obtain ts where ts:
    "db_transactions ?d1 = db_transactions (im_db st) @ ts"
    "map (stored_view ?d1) ts = import_plan ie (im_db st) h rows" "grows (im_db st) ?d1" by blast
  have "pt_source_ref r \<in> set (existing_sources (im_db st2) h)
      \<or> pt_dedupe_ordinal r \<le> existing_count ie' (im_db st2) h (pt_dedupe_hash r)" if r: "r \<in> set rows" for r
  proof (cases "to_import ie (im_db st) h r")
    case True
    have "pt_source_ref r \<noteq> []"
      using p(2) r by (auto simp: list_all_iff parsed_row_ok_def tx_source_text_def lit_def)
    from existing_sources_extends [OF d' imported_source [OF ts(1,2) r True this]] show ?thesis ..
  next
    case False
    with existing_sources_extends [OF extends_trans [OF grows_extends [OF ts(3)] d']]
      existing_count_extends [OF extends_trans [OF grows_extends [OF ts(3)] d'], of ie h "pt_dedupe_hash r"]
    show ?thesis by (auto simp: to_import_def ie')
  qed
  then show ?thesis
    unfolding apply_transactions_def by (subst skip_all) simp_all
qed

end
