(* ===== verification/Workbook_Holdings.thy ===== *)
theory Workbook_Holdings
  imports Workbook_Plan
begin

text \<open>
  The loop of \<open>_apply_holdings\<close> over the session's objects and the flushes of the unit of work: the unique
  index holds after every flush, no holding is lost, no other household is touched.
\<close>

subsection \<open>Flushing\<close>

definition unstamped :: "holding \<Rightarrow> holding" where
  "unstamped x = x\<lparr>hd_updated_at := 0\<rparr>"

definition identities_ok :: "import_env \<Rightarrow> db \<Rightarrow> bool" where
  "identities_ok ie d \<longleftrightarrow>
     unique_keys hd_id (db_holdings d) \<and> distinct (map (identity_index (ie_env ie)) (db_holdings d))"

definition same_others :: "pystr \<Rightarrow> db \<Rightarrow> db \<Rightarrow> bool" where
  "same_others h d d' \<longleftrightarrow>
     filter (\<lambda>x. hd_household_id x \<noteq> h) (db_holdings d') = filter (\<lambda>x. hd_household_id x \<noteq> h) (db_holdings d)
     \<and> db_transactions d' = db_transactions d \<and> db_categories d' = db_categories d
     \<and> db_users d' = db_users d \<and> db_members d' = db_members d"

lemma same_others_refl [simp]: "same_others h d d"
  by (simp add: same_others_def)

lemma same_others_trans: "same_others h a b \<Longrightarrow> same_others h b c \<Longrightarrow> same_others h a c"
  by (simp add: same_others_def)

lemma unstamped_fields:
  "unstamped x = unstamped y \<Longrightarrow> hd_id x = hd_id y \<and> hd_household_id x = hd_household_id y
     \<and> hd_asset_type x = hd_asset_type y \<and> hd_version x = hd_version y"
  by (cases x; cases y) (simp add: unstamped_def)

lemma distinct_map_replace:
  assumes "distinct (map f xs)" "unique_keys k xs" "\<forall>y \<in> set xs. k y \<noteq> i \<longrightarrow> f y \<noteq> f z"
  shows "distinct (map f (row_update k i (\<lambda>_. z) xs))"
  using assms
proof (induction xs)
  case (Cons x xs)
  have u: "unique_keys k xs" using Cons.prems(2) by (simp add: unique_keys_def)
  have IH: "distinct (map f (row_update k i (\<lambda>_. z) xs))"
    by (rule Cons.IH) (use Cons.prems u in auto)
  show ?case
  proof (cases "k x = i")
    case True
    then have "\<forall>y \<in> set xs. k y \<noteq> i" using Cons.prems(2) by (force simp: unique_keys_def image_iff)
    moreover from this have "row_update k i (\<lambda>_. z) xs = xs" by (auto simp: row_update_def intro: map_idI)
    ultimately show ?thesis using True IH Cons.prems(3) by (auto simp: row_update_def)
  next
    case False
    then have "f x \<noteq> f z" using Cons.prems(3) by simp
    with False IH Cons.prems(1) show ?thesis by (auto simp: row_update_def split: if_splits)
  qed
qed (simp add: row_update_def)

lemma flush_row_facts:
  assumes "flush_row ie x d = Some d'" "identities_ok ie d" "hd_household_id x = h"
    and "\<forall>y \<in> set (db_holdings d). hd_id y = hd_id x \<longrightarrow> hd_household_id y = h"
  shows "identities_ok ie d'" "same_others h d d'" "map hd_id (db_holdings d') = map hd_id (db_holdings d)"
    "map hd_household_id (db_holdings d') = map hd_household_id (db_holdings d)"
    "\<forall>k. k \<noteq> hd_id x \<longrightarrow> row_get hd_id k (db_holdings d') = row_get hd_id k (db_holdings d)"
    "\<forall>y. row_get hd_id (hd_id x) (db_holdings d) = Some y \<longrightarrow>
       map_option unstamped (row_get hd_id (hd_id x) (db_holdings d')) = Some (unstamped x)"
proof -
  let ?z = "x\<lparr>hd_updated_at := ev_db_now (ie_env ie)\<rparr>"
  have "d' = d \<and> (\<forall>y. row_get hd_id (hd_id x) (db_holdings d) = Some y \<longrightarrow> y = x)
    \<or> \<not> identity_conflict (ie_env ie) d ?z \<and> d' = set_holdings (row_update hd_id (hd_id x) (\<lambda>_. ?z) (db_holdings d)) d"
  proof (cases "row_get hd_id (hd_id x) (db_holdings d)")
    case None
    with assms(1) show ?thesis by (simp add: flush_row_def)
  next
    case (Some y)
    with assms(1) show ?thesis by (cases "y = x") (simp_all add: flush_row_def Let_def split: if_splits)
  qed
  then have "identities_ok ie d' \<and> same_others h d d' \<and> map hd_id (db_holdings d') = map hd_id (db_holdings d)
    \<and> map hd_household_id (db_holdings d') = map hd_household_id (db_holdings d)
    \<and> (\<forall>k. k \<noteq> hd_id x \<longrightarrow> row_get hd_id k (db_holdings d') = row_get hd_id k (db_holdings d))
    \<and> (\<forall>y. row_get hd_id (hd_id x) (db_holdings d) = Some y \<longrightarrow>
       map_option unstamped (row_get hd_id (hd_id x) (db_holdings d')) = Some (unstamped x))"
  proof (elim disjE conjE, goal_cases)
    case 1
    then have "\<forall>y. row_get hd_id (hd_id x) (db_holdings d) = Some y \<longrightarrow>
       map_option unstamped (row_get hd_id (hd_id x) (db_holdings d')) = Some (unstamped x)"
      by (metis option.simps(9))
    with 1(1) assms(2) show ?case by simp
  next
    case 2
    let ?rows = "db_holdings d"
    have ids: "map hd_id (row_update hd_id (hd_id x) (\<lambda>_. ?z) ?rows) = map hd_id ?rows"
      by (simp add: row_update_def)
    have hh: "map hd_household_id (row_update hd_id (hd_id x) (\<lambda>_. ?z) ?rows) = map hd_household_id ?rows"
      using assms(3,4) by (auto simp: row_update_def)
    have other: "filter (\<lambda>x. hd_household_id x \<noteq> h) (row_update hd_id (hd_id x) (\<lambda>_. ?z) rows)
        = filter (\<lambda>x. hd_household_id x \<noteq> h) rows" if "set rows \<subseteq> set ?rows" for rows
      using that assms(3,4) by (induction rows) (auto simp: row_update_def)
    have get: "row_get hd_id k (row_update hd_id (hd_id x) (\<lambda>_. ?z) rows)
        = (if k = hd_id x then (if k \<in> hd_id ` set rows then Some ?z else None) else row_get hd_id k rows)" for k rows
      by (induction rows) (auto simp: row_update_def)
    have "distinct (map (identity_index (ie_env ie)) (row_update hd_id (hd_id x) (\<lambda>_. ?z) ?rows))"
    proof (rule distinct_map_replace)
      show "\<forall>y \<in> set ?rows. hd_id y \<noteq> hd_id x \<longrightarrow> identity_index (ie_env ie) y \<noteq> identity_index (ie_env ie) ?z"
        using 2(1) unfolding identity_conflict_def by auto
    qed (use assms(2) in \<open>auto simp: identities_ok_def\<close>)
    with 2 assms(2) show ?case
      by (simp add: identities_ok_def same_others_def unique_keys_def ids hh other get unstamped_def row_get_None_iff)
  qed
  then show "identities_ok ie d'" "same_others h d d'" "map hd_id (db_holdings d') = map hd_id (db_holdings d)"
    "map hd_household_id (db_holdings d') = map hd_household_id (db_holdings d)"
    "\<forall>k. k \<noteq> hd_id x \<longrightarrow> row_get hd_id k (db_holdings d') = row_get hd_id k (db_holdings d)"
    "\<forall>y. row_get hd_id (hd_id x) (db_holdings d) = Some y \<longrightarrow>
       map_option unstamped (row_get hd_id (hd_id x) (db_holdings d')) = Some (unstamped x)"
    by blast+
qed

lemma household_of_ids:
  assumes "map hd_id ys = map hd_id xs" "map hd_household_id ys = map hd_household_id xs"
    and "\<forall>y \<in> set xs. hd_id y = i \<longrightarrow> hd_household_id y = h"
  shows "\<forall>y \<in> set ys. hd_id y = i \<longrightarrow> hd_household_id y = h"
  using assms
proof (induction ys arbitrary: xs)
  case (Cons y ys)
  then show ?case by (cases xs) auto
qed simp

lemma flush_rows_facts:
  assumes "flush_rows ie xs d = Some d'" "identities_ok ie d" "\<forall>x \<in> set xs. hd_household_id x = h"
    and "\<forall>x \<in> set xs. \<forall>y \<in> set (db_holdings d). hd_id y = hd_id x \<longrightarrow> hd_household_id y = h" "distinct (map hd_id xs)"
  shows "identities_ok ie d' \<and> same_others h d d' \<and> map hd_id (db_holdings d') = map hd_id (db_holdings d)
    \<and> map hd_household_id (db_holdings d') = map hd_household_id (db_holdings d)
    \<and> (\<forall>k. k \<notin> hd_id ` set xs \<longrightarrow> row_get hd_id k (db_holdings d') = row_get hd_id k (db_holdings d))
    \<and> (\<forall>x \<in> set xs. hd_id x \<in> hd_id ` set (db_holdings d) \<longrightarrow>
         map_option unstamped (row_get hd_id (hd_id x) (db_holdings d')) = Some (unstamped x))"
  using assms
proof (induction xs arbitrary: d)
  case (Cons x xs)
  from Cons.prems(1) obtain d1 where d1: "flush_row ie x d = Some d1" "flush_rows ie xs d1 = Some d'"
    unfolding flush_rows.simps bind_eq_Some_conv by blast
  have hx: "hd_household_id x = h" "\<forall>y \<in> set (db_holdings d). hd_id y = hd_id x \<longrightarrow> hd_household_id y = h"
    using Cons.prems(3,4) by (meson list.set_intros(1))+
  note f = flush_row_facts [OF d1(1) Cons.prems(2) hx]
  have "\<forall>x \<in> set xs. \<forall>y \<in> set (db_holdings d1). hd_id y = hd_id x \<longrightarrow> hd_household_id y = h"
    using household_of_ids [OF f(3,4)] Cons.prems(4) by (meson list.set_intros(2))
  from Cons.IH [OF d1(2) f(1) _ this] Cons.prems(3,5)
  have g: "identities_ok ie d'" "same_others h d1 d'" "map hd_id (db_holdings d') = map hd_id (db_holdings d1)"
    "map hd_household_id (db_holdings d') = map hd_household_id (db_holdings d1)"
    "\<forall>k. k \<notin> hd_id ` set xs \<longrightarrow> row_get hd_id k (db_holdings d') = row_get hd_id k (db_holdings d1)"
    "\<forall>x \<in> set xs. hd_id x \<in> hd_id ` set (db_holdings d1) \<longrightarrow>
         map_option unstamped (row_get hd_id (hd_id x) (db_holdings d')) = Some (unstamped x)" by auto
  have ids: "hd_id ` set (db_holdings d1) = hd_id ` set (db_holdings d)"
    using f(3) by (metis set_map)
  have "map_option unstamped (row_get hd_id (hd_id x) (db_holdings d')) = Some (unstamped x)"
    if mem: "hd_id x \<in> hd_id ` set (db_holdings d)"
  proof -
    obtain y where "row_get hd_id (hd_id x) (db_holdings d) = Some y"
      using mem row_get_None_iff [of hd_id "hd_id x" "db_holdings d"] by auto
    with f(6) have "map_option unstamped (row_get hd_id (hd_id x) (db_holdings d1)) = Some (unstamped x)" by blast
    moreover have "hd_id x \<notin> hd_id ` set xs" using Cons.prems(5) by simp
    ultimately show ?thesis using g(5) by simp
  qed
  moreover have "row_get hd_id k (db_holdings d') = row_get hd_id k (db_holdings d)" if "k \<notin> hd_id ` set (x # xs)" for k
    using that f(5) g(5) by simp
  moreover have "map hd_id (db_holdings d') = map hd_id (db_holdings d)"
    "map hd_household_id (db_holdings d') = map hd_household_id (db_holdings d)"
    using f(3,4) g(3,4) by simp_all
  ultimately show ?case using g(1,6) same_others_trans [OF f(2) g(2)] by (simp add: ids)
qed simp

subsection \<open>The loop over holdings\<close>

definition kept_holding :: "holding \<Rightarrow> holding \<Rightarrow> bool" where
  "kept_holding x y \<longleftrightarrow> hd_id y = hd_id x \<and> hd_asset_type y = hd_asset_type x \<and> hd_version x \<le> hd_version y"

definition live_ok :: "import_env \<Rightarrow> pystr \<Rightarrow> db \<Rightarrow> imp \<Rightarrow> holding list \<Rightarrow> bool" where
  "live_ok ie h d0 st live \<longleftrightarrow>
     identities_ok ie (im_db st) \<and> same_others h d0 (im_db st) \<and> fresh_ids ie st \<and> distinct (map hd_id live)
     \<and> (\<forall>x \<in> set live. hd_household_id x = h \<and> 1 \<le> hd_version x)
     \<and> hd_id ` set live = hd_id ` {x \<in> set (db_holdings (im_db st)). hd_household_id x = h}
     \<and> (\<forall>x \<in> set (db_holdings d0). hd_household_id x = h \<longrightarrow> (\<exists>y \<in> set live. kept_holding x y))"

lemma live_okD:
  assumes "live_ok ie h d0 st live"
  shows "identities_ok ie (im_db st)" "same_others h d0 (im_db st)" "fresh_ids ie st" "distinct (map hd_id live)"
  using assms by (simp_all add: live_ok_def)

lemma fresh_idsD:
  assumes "fresh_ids ie st"
  shows "inj (ie_new_id ie)" "\<forall>n \<ge> im_next st. ie_new_id ie n \<notin> ct_id ` set (db_categories (im_db st))
          \<and> ie_new_id ie n \<notin> tx_id ` set (db_transactions (im_db st)) \<and> ie_new_id ie n \<notin> hd_id ` set (db_holdings (im_db st))"
  using assms by (simp_all add: fresh_ids_def)

lemma normalize_version_pos: "1 \<le> normalize_version v" "v \<le> normalize_version v"
  by (simp_all add: normalize_version_def)

lemma holdings_of_same_id:
  assumes "unique_keys hd_id rows" "x \<in> set rows" "y \<in> set rows" "hd_id x = hd_id y"
  shows "x = y"
  using assms by (auto simp: unique_keys_def distinct_map dest: inj_onD)

lemma live_in_household:
  assumes "live_ok ie h d0 st live"
  shows "\<forall>x \<in> set live. \<forall>y \<in> set (db_holdings (im_db st)). hd_id y = hd_id x \<longrightarrow> hd_household_id y = h"
proof (intro ballI impI)
  fix x y
  assume x: "x \<in> set live" and y: "y \<in> set (db_holdings (im_db st))" "hd_id y = hd_id x"
  have "hd_id x \<in> hd_id ` {x \<in> set (db_holdings (im_db st)). hd_household_id x = h}"
    using assms imageI [OF x, of hd_id] unfolding live_ok_def by blast
  then obtain z where "z \<in> set (db_holdings (im_db st))" "hd_household_id z = h" "hd_id z = hd_id x"
    by auto
  moreover have "unique_keys hd_id (db_holdings (im_db st))"
    using assms by (simp add: live_ok_def identities_ok_def)
  ultimately show "hd_household_id y = h" using holdings_of_same_id y by metis
qed

lemma flush_holdings_facts:
  assumes "flush_holdings ie live (im_db st) = Some d'" "live_ok ie h d0 st live"
  shows "identities_ok ie d'" "same_others h (im_db st) d'" "map hd_id (db_holdings d') = map hd_id (db_holdings (im_db st))"
    "map hd_household_id (db_holdings d') = map hd_household_id (db_holdings (im_db st))"
    "\<forall>x \<in> set live. \<exists>y. row_get hd_id (hd_id x) (db_holdings d') = Some y \<and> unstamped y = unstamped x"
proof -
  have ids: "\<forall>x \<in> set live. hd_id x \<in> hd_id ` set (db_holdings (im_db st))"
    using assms(2) unfolding live_ok_def by blast
  have "\<forall>x \<in> set (sort_key hd_id live). hd_household_id x = h" "distinct (map hd_id (sort_key hd_id live))"
    "\<forall>x \<in> set (sort_key hd_id live). \<forall>y \<in> set (db_holdings (im_db st)). hd_id y = hd_id x \<longrightarrow> hd_household_id y = h"
    using assms(2) live_in_household [OF assms(2)] by (simp_all add: live_ok_def distinct_map inj_on_def)
  from flush_rows_facts [OF assms(1) [unfolded flush_holdings_def] _ this(1,3,2)] assms(2)
  show "identities_ok ie d'" "same_others h (im_db st) d'" "map hd_id (db_holdings d') = map hd_id (db_holdings (im_db st))"
    "map hd_household_id (db_holdings d') = map hd_household_id (db_holdings (im_db st))"
    "\<forall>x \<in> set live. \<exists>y. row_get hd_id (hd_id x) (db_holdings d') = Some y \<and> unstamped y = unstamped x"
    using ids by (simp_all add: live_ok_def)
qed

lemma household_ids_flushed:
  assumes "map hd_id ys = map hd_id xs" "map hd_household_id ys = map hd_household_id xs"
  shows "hd_id ` {x \<in> set ys. hd_household_id x = h} = hd_id ` {x \<in> set xs. hd_household_id x = h}"
  using assms
proof (induction ys arbitrary: xs)
  case (Cons y ys)
  then obtain x xs' where xs: "xs = x # xs'" "hd_id x = hd_id y" "hd_household_id x = hd_household_id y"
    "map hd_id ys = map hd_id xs'" "map hd_household_id ys = map hd_household_id xs'"
    by (cases xs) auto
  have split: "hd_id ` {x \<in> set (z # zs). hd_household_id x = h}
      = (if hd_household_id z = h then {hd_id z} else {}) \<union> hd_id ` {x \<in> set zs. hd_household_id x = h}" for z zs
    by auto
  show ?case
    unfolding split xs(1) using Cons.IH [OF xs(4,5)] xs(2,3) by simp
qed simp

lemma refresh_live_facts:
  assumes "\<forall>x \<in> set live. \<exists>y. row_get hd_id (hd_id x) (db_holdings d) = Some y \<and> unstamped y = unstamped x"
  shows "map unstamped (refresh_live d live) = map unstamped live"
  using assms by (induction live) (auto simp: refresh_live_def)

lemma unstamped_map_ids:
  assumes "map unstamped ys = map unstamped xs"
  shows "map hd_id ys = map hd_id xs" "\<forall>y \<in> set ys. \<exists>x \<in> set xs. unstamped y = unstamped x"
    "\<forall>x \<in> set xs. \<exists>y \<in> set ys. unstamped y = unstamped x"
proof -
  show "map hd_id ys = map hd_id xs"
    using assms
  proof (induction ys arbitrary: xs)
    case (Cons y ys)
    then obtain x xs' where "xs = x # xs'" "unstamped y = unstamped x" "map unstamped ys = map unstamped xs'"
      by (cases xs) auto
    with Cons.IH unstamped_fields [of y x] show ?case by simp
  qed simp
  show "\<forall>y \<in> set ys. \<exists>x \<in> set xs. unstamped y = unstamped x" "\<forall>x \<in> set xs. \<exists>y \<in> set ys. unstamped y = unstamped x"
  proof -
    have eq: "unstamped ` set ys = unstamped ` set xs" using arg_cong [OF assms, of set] by simp
    show "\<forall>y \<in> set ys. \<exists>x \<in> set xs. unstamped y = unstamped x"
      using eq by (metis imageE imageI)
    show "\<forall>x \<in> set xs. \<exists>y \<in> set ys. unstamped y = unstamped x"
      using eq by (metis imageE imageI)
  qed
qed

lemma kept_unstamped: "kept_holding x y \<Longrightarrow> unstamped z = unstamped y \<Longrightarrow> kept_holding x z"
  using unstamped_fields [of z y] by (simp add: kept_holding_def)

lemma add_holding_ok:
  assumes "add_holding ie h uid owner key row ha = Some ha'" "live_ok ie h d0 (ha_st ha) (ha_live ha)"
  shows "live_ok ie h d0 (ha_st ha') (ha_live ha')"
    "length (db_holdings (im_db (ha_st ha'))) = length (db_holdings (im_db (ha_st ha))) + 1"
    "ha_added ha' = ha_added ha + 1"
proof -
  let ?i = "ie_new_id ie (im_next (ha_st ha))"
  let ?x = "imported_holding ie h uid owner row ?i"
  from assms(1) obtain d where d: "flush_holdings ie (ha_live ha) (im_db (ha_st ha)) = Some d"
    and nc: "\<not> identity_conflict (ie_env ie) d ?x"
    and st: "ha_st ha' = \<lparr>im_db = set_holdings (db_holdings d @ [?x]) d, im_next = im_next (ha_st ha) + 1\<rparr>"
    and live: "ha_live ha' = refresh_live d (ha_live ha) @ [?x]" and added: "ha_added ha' = ha_added ha + 1"
    by (auto simp: add_holding_def bind_eq_Some_conv Let_def split: if_splits)
  note f = flush_holdings_facts [OF d assms(2)]
  have ids: "hd_id ` set (db_holdings d) = hd_id ` set (db_holdings (im_db (ha_st ha)))"
    using f(3) by (metis set_map)
  have i: "?i \<notin> hd_id ` set (db_holdings d)"
    using fresh_idsD(2) [OF live_okD(3) [OF assms(2)]] unfolding ids by simp
  note u = unstamped_map_ids [OF refresh_live_facts [OF f(5)]]
  have x: "hd_id ?x = ?i" "hd_household_id ?x = h" "hd_version ?x = 1"
    by (simp_all add: imported_holding_def)
  have liveids: "hd_id ` set (ha_live ha) = hd_id ` {x \<in> set (db_holdings d). hd_household_id x = h}"
    unfolding household_ids_flushed [OF f(3,4)] using assms(2) by (simp add: live_ok_def)
  have "identities_ok ie (set_holdings (db_holdings d @ [?x]) d)"
  proof -
    have "hd_id ?x \<notin> hd_id ` set (db_holdings d)" using i x(1) by simp
    with nc have "identity_index (ie_env ie) ?x \<notin> identity_index (ie_env ie) ` set (db_holdings d)"
      by (simp only: identity_conflict_insert not_not simp_thms)
    moreover have "row_get hd_id (hd_id ?x) (db_holdings d) = None" using i x(1) by (simp add: row_get_None_iff)
    ultimately show ?thesis using f(1) by (simp add: identities_ok_def unique_keys_append)
  qed
  moreover have "same_others h d0 (set_holdings (db_holdings d @ [?x]) d)"
    using same_others_trans [of h d0 "im_db (ha_st ha)" d] f(2) assms(2) x(2) by (simp add: live_ok_def same_others_def)
  moreover have "fresh_ids ie (ha_st ha')"
  proof -
    note inj = fresh_idsD(1) [OF live_okD(3) [OF assms(2)]] and new = fresh_idsD(2) [OF live_okD(3) [OF assms(2)]]
    have "ie_new_id ie m \<noteq> ?i" if "im_next (ha_st ha) + 1 \<le> m" for m
      using inj_eq [OF inj, of m "im_next (ha_st ha)"] that by simp
    moreover have "db_transactions d = db_transactions (im_db (ha_st ha))" "db_categories d = db_categories (im_db (ha_st ha))"
      using f(2) by (simp_all add: same_others_def)
    ultimately show ?thesis
      using inj new ids by (simp add: st fresh_ids_def x)
  qed
  moreover have "distinct (map hd_id (ha_live ha'))"
    using u(1) assms(2) i liveids by (auto simp: live live_ok_def x)
  moreover have "\<forall>x \<in> set (ha_live ha'). hd_household_id x = h \<and> 1 \<le> hd_version x"
  proof
    fix y
    assume "y \<in> set (ha_live ha')"
    then consider "y = ?x" | z where "z \<in> set (ha_live ha)" "unstamped y = unstamped z"
      using u(2) by (auto simp: live)
    then show "hd_household_id y = h \<and> 1 \<le> hd_version y"
    proof cases
      case 1
      then show ?thesis using x by simp
    next
      case 2
      with assms(2) have "hd_household_id z = h \<and> 1 \<le> hd_version z" unfolding live_ok_def by blast
      with unstamped_fields [OF 2(2)] show ?thesis by simp
    qed
  qed
  moreover have "hd_id ` set (ha_live ha') = hd_id ` {x \<in> set (db_holdings d @ [?x]). hd_household_id x = h}"
  proof -
    have "hd_id ` set (refresh_live d (ha_live ha)) = hd_id ` set (ha_live ha)"
      using u(1) by (metis set_map)
    moreover have "{z \<in> set (db_holdings d @ [?x]). hd_household_id z = h}
        = insert ?x {z \<in> set (db_holdings d). hd_household_id z = h}"
      using x(2) by auto
    ultimately show ?thesis using liveids by (simp add: live)
  qed
  moreover have "\<exists>y \<in> set (ha_live ha'). kept_holding z y" if "z \<in> set (db_holdings d0)" "hd_household_id z = h" for z
  proof -
    from that assms(2) obtain y where y: "y \<in> set (ha_live ha)" "kept_holding z y" unfolding live_ok_def by blast
    with u(3) obtain w where "w \<in> set (refresh_live d (ha_live ha))" "unstamped w = unstamped y" by blast
    with kept_unstamped [OF y(2)] show ?thesis by (auto simp: live)
  qed
  ultimately show "live_ok ie h d0 (ha_st ha') (ha_live ha')"
    by (simp add: live_ok_def st)
  show "length (db_holdings (im_db (ha_st ha'))) = length (db_holdings (im_db (ha_st ha))) + 1"
    using arg_cong [OF f(3), of length] by (simp add: st)
  show "ha_added ha' = ha_added ha + 1" by (rule added)
qed

lemma update_holding_ok:
  assumes "live_ok ie h d0 (ha_st ha) (ha_live ha)" "row_get hd_id i (ha_live ha) = Some x"
  shows "live_ok ie h d0 (ha_st (update_holding uid owner row x ha)) (ha_live (update_holding uid owner row x ha))"
    "ha_st (update_holding uid owner row x ha) = ha_st ha"
    "ha_added (update_holding uid owner row x ha) = ha_added ha"
proof -
  let ?y = "overwrite_holding uid owner row x"
  define z where "z = (if ?y \<noteq> x then ?y\<lparr>hd_version := normalize_version (hd_version x) + 1\<rparr> else x)"
  have z: "hd_id z = hd_id x" "hd_household_id z = hd_household_id x" "kept_holding x z" "1 \<le> hd_version x \<longrightarrow> 1 \<le> hd_version z"
    using normalize_version_pos [of "hd_version x"]
    by (auto simp: z_def overwrite_holding_def kept_holding_def)
  show st: "ha_st (update_holding uid owner row x ha) = ha_st ha" "ha_added (update_holding uid owner row x ha) = ha_added ha"
    by (simp_all add: update_holding_def Let_def)
  have live: "ha_live (update_holding uid owner row x ha) = row_update hd_id (hd_id x) (\<lambda>_. z) (ha_live ha)"
    by (simp add: update_holding_def Let_def z_def)
  have x: "x \<in> set (ha_live ha)" using row_get_SomeD [OF assms(2)] by simp
  have ids: "map hd_id (row_update hd_id (hd_id x) (\<lambda>_. z) (ha_live ha)) = map hd_id (ha_live ha)"
    using z(1) by (simp add: row_update_def)
  have same: "w = x" if "w \<in> set (ha_live ha)" "hd_id w = hd_id x" for w
    using holdings_of_same_id [of "ha_live ha" w x] assms(1) that x by (simp add: live_ok_def unique_keys_def)
  have "\<forall>w \<in> set (row_update hd_id (hd_id x) (\<lambda>_. z) (ha_live ha)). hd_household_id w = h \<and> 1 \<le> hd_version w"
    using assms(1) x z by (auto simp: live_ok_def set_row_update)
  moreover have "\<exists>w \<in> set (row_update hd_id (hd_id x) (\<lambda>_. z) (ha_live ha)). kept_holding v w"
    if "v \<in> set (db_holdings d0)" "hd_household_id v = h" for v
  proof -
    from that assms(1) obtain y where y: "y \<in> set (ha_live ha)" "kept_holding v y" unfolding live_ok_def by blast
    show ?thesis
    proof (cases "hd_id y = hd_id x")
      case True
      with same [OF y(1)] y(2) z(3) have "kept_holding v z" by (auto simp: kept_holding_def)
      with x show ?thesis by (force simp: set_row_update)
    next
      case False
      with y show ?thesis by (force simp: set_row_update)
    qed
  qed
  moreover have "hd_id ` set (row_update hd_id (hd_id x) (\<lambda>_. z) (ha_live ha)) = hd_id ` set (ha_live ha)"
    using ids by (metis set_map)
  ultimately show "live_ok ie h d0 (ha_st (update_holding uid owner row x ha)) (ha_live (update_holding uid owner row x ha))"
    using assms(1) ids unfolding live st(1) by (simp add: live_ok_def)
qed

lemma note_owner_facts [simp]:
  "ha_st (note_owner n m ha) = ha_st ha" "ha_live (note_owner n m ha) = ha_live ha" "ha_added (note_owner n m ha) = ha_added ha"
  by (simp_all add: note_owner_def split: owner_match.split)

lemma apply_holding_row_ok:
  assumes "apply_holding_row ie h lookup row ha = Some ha'" "live_ok ie h d0 (ha_st ha) (ha_live ha)"
  shows "live_ok ie h d0 (ha_st ha') (ha_live ha')
    \<and> length (db_holdings (im_db (ha_st ha'))) + ha_added ha = length (db_holdings (im_db (ha_st ha))) + ha_added ha'"
proof -
  obtain uid owner m where r: "resolve_owner_from_lookup lookup (ph_owner_name row) = (uid, owner, m)"
    by (metis prod_cases3)
  let ?ha = "note_owner owner m ha"
  have ok: "live_ok ie h d0 (ha_st ?ha) (ha_live ?ha)" using assms(2) by simp
  from assms(1) consider key where "add_holding ie h uid owner key row ?ha = Some ha'"
    | i x where "row_get hd_id i (ha_live ?ha) = Some x" "ha' = update_holding uid owner row x ?ha"
    unfolding apply_holding_row_def r Let_def prod.case
    by (auto simp only: split: option.splits simp: bind_eq_Some_conv simp del: note_owner_facts)
  then show ?thesis
  proof cases
    case 1
    from add_holding_ok [OF this ok] show ?thesis by simp
  next
    case 2
    from update_holding_ok [OF ok 2(1), of uid owner row] show ?thesis by (simp add: 2(2))
  qed
qed

lemma apply_holding_rows_ok:
  "apply_holding_rows ie h lookup rows ha = Some ha' \<Longrightarrow> live_ok ie h d0 (ha_st ha) (ha_live ha) \<Longrightarrow>
   live_ok ie h d0 (ha_st ha') (ha_live ha')
   \<and> length (db_holdings (im_db (ha_st ha'))) + ha_added ha = length (db_holdings (im_db (ha_st ha))) + ha_added ha'"
proof (induction rows arbitrary: ha)
  case (Cons row rows)
  from Cons.prems(1) obtain ha1 where s: "apply_holding_row ie h lookup row ha = Some ha1"
    "apply_holding_rows ie h lookup rows ha1 = Some ha'"
    by (auto simp: bind_eq_Some_conv)
  from apply_holding_row_ok [OF s(1) Cons.prems(2)] Cons.IH [OF s(2)] show ?case by simp
qed simp

lemma start_hold_apply_ok:
  assumes "identities_ok ie (im_db st)" "fresh_ids ie st"
  shows "live_ok ie h (im_db st) (ha_st (start_hold_apply h st)) (ha_live (start_hold_apply h st))"
    "ha_st (start_hold_apply h st) = st" "ha_added (start_hold_apply h st) = 0"
proof -
  have live: "ha_live (start_hold_apply h st) = map (\<lambda>x. x\<lparr>hd_version := normalize_version (hd_version x)\<rparr>)
      (filter (\<lambda>x. hd_household_id x = h) (db_holdings (im_db st)))"
    by (simp add: start_hold_apply_def Let_def)
  show st: "ha_st (start_hold_apply h st) = st" "ha_added (start_hold_apply h st) = 0"
    by (simp_all add: start_hold_apply_def Let_def)
  have ids: "map hd_id (ha_live (start_hold_apply h st)) = map hd_id (filter (\<lambda>x. hd_household_id x = h) (db_holdings (im_db st)))"
    by (simp add: live)
  have "distinct (map hd_id (filter (\<lambda>x. hd_household_id x = h) (db_holdings (im_db st))))"
    using unique_keys_filter [of hd_id "db_holdings (im_db st)"] assms(1) unfolding identities_ok_def unique_keys_def by blast
  moreover have "hd_id ` set (ha_live (start_hold_apply h st)) = hd_id ` {x \<in> set (db_holdings (im_db st)). hd_household_id x = h}"
    using ids by (metis set_map set_filter)
  moreover have "\<exists>y \<in> set (ha_live (start_hold_apply h st)). kept_holding x y"
    if "x \<in> set (db_holdings (im_db st))" "hd_household_id x = h" for x
  proof (rule bexI)
    let ?y = "x\<lparr>hd_version := normalize_version (hd_version x)\<rparr>"
    show "kept_holding x ?y" using normalize_version_pos(2) [of "hd_version x"] by (simp add: kept_holding_def)
    show "?y \<in> set (ha_live (start_hold_apply h st))" unfolding live using that by simp
  qed
  ultimately show "live_ok ie h (im_db st) (ha_st (start_hold_apply h st)) (ha_live (start_hold_apply h st))"
    using assms normalize_version_pos(1) by (auto simp: live_ok_def st(1) ids) (auto simp: live)
qed

lemma committed_holdings:
  assumes "apply_holdings ie h rows st = Some ha" "commit_import ie (ha_st ha) (ha_live ha) = Some d'"
    and "identities_ok ie (im_db st)" "fresh_ids ie st"
  shows "identities_ok ie d'" "same_others h (im_db st) d'"
    "length (db_holdings d') = length (db_holdings (im_db st)) + ha_added ha"
    "\<forall>x \<in> set (db_holdings (im_db st)). hd_household_id x = h \<longrightarrow> (\<exists>y \<in> set (db_holdings d'). kept_holding x y)"
    "\<forall>x \<in> set (ha_live ha). \<exists>y \<in> set (db_holdings d'). unstamped y = unstamped x"
proof -
  note s = start_hold_apply_ok [OF assms(3,4), of h]
  from apply_holding_rows_ok [OF assms(1) [unfolded apply_holdings_def] s(1)]
  have ok: "live_ok ie h (im_db st) (ha_st ha) (ha_live ha)"
    and len: "length (db_holdings (im_db (ha_st ha))) = length (db_holdings (im_db st)) + ha_added ha"
    by (simp_all add: s(2,3))
  note f = flush_holdings_facts [OF assms(2) [unfolded commit_import_def] ok]
  show "identities_ok ie d'" by (rule f(1))
  show "same_others h (im_db st) d'" by (rule same_others_trans [OF live_okD(2) [OF ok] f(2)])
  show "length (db_holdings d') = length (db_holdings (im_db st)) + ha_added ha"
    using arg_cong [OF f(3), of length] len by simp
  show live: "\<forall>x \<in> set (ha_live ha). \<exists>y \<in> set (db_holdings d'). unstamped y = unstamped x"
    using f(5) by (meson row_get_SomeD)
  show "\<forall>x \<in> set (db_holdings (im_db st)). hd_household_id x = h \<longrightarrow> (\<exists>y \<in> set (db_holdings d'). kept_holding x y)"
  proof (intro ballI impI)
    fix x
    assume "x \<in> set (db_holdings (im_db st))" "hd_household_id x = h"
    with ok obtain y where y: "y \<in> set (ha_live ha)" "kept_holding x y" unfolding live_ok_def by blast
    with live obtain z where "z \<in> set (db_holdings d')" "unstamped z = unstamped y" by blast
    with kept_unstamped [OF y(2)] show "\<exists>y \<in> set (db_holdings d'). kept_holding x y" by blast
  qed
qed

end
