(* ===== verification/Import_Claims.thy ===== *)
theory Import_Claims
  imports Workbook_Holdings
begin

text \<open>
  Properties of the workbook import (\<open>backend/app/services/importer.py\<close>) with their witnesses, and three
  inputs on which the code misbehaves.
\<close>

subsection \<open>Reading does not depend on clock and identifiers\<close>

definition same_reader :: "import_env \<Rightarrow> import_env \<Rightarrow> bool" where
  "same_reader ie ie' \<longleftrightarrow>
     ie_settings ie' = ie_settings ie \<and> ie_from_iso ie' = ie_from_iso ie \<and> ie_sha ie' = ie_sha ie"

lemma same_reader_rows:
  assumes "same_reader ie ie'"
  shows "upper_bound_with_issue ie' ws = upper_bound_with_issue ie ws"
    "transaction_dedupe_hash ie' a b c e f g o' = transaction_dedupe_hash ie a b c e f g o'"
    "parse_tx_row ie' title i vals = parse_tx_row ie title i vals"
    "existing_count ie' d h k = existing_count ie d h k"
proof -
  show u: "upper_bound_with_issue ie' ws = upper_bound_with_issue ie ws"
    using assms by (simp add: same_reader_def upper_bound_with_issue_def)
  have t: "transaction_dedupe_hash ie' = transaction_dedupe_hash ie"
    using assms by (intro ext) (simp add: same_reader_def transaction_dedupe_hash_def)
  then show "transaction_dedupe_hash ie' a b c e f g o' = transaction_dedupe_hash ie a b c e f g o'" by simp
  have d: "to_date ie' = to_date ie"
    using assms by (intro ext) (simp add: same_reader_def to_date_def Let_def split: cell.split)
  show "parse_tx_row ie' title i vals = parse_tx_row ie title i vals"
    unfolding parse_tx_row_def t d ..
  show "existing_count ie' d h k = existing_count ie d h k"
    unfolding existing_count_def stored_hash_def t ..
qed

lemma same_reader_parse_rows:
  assumes "same_reader ie ie'"
  shows "parse_tx_rows ie' title rows st = parse_tx_rows ie title rows st"
proof (induction rows arbitrary: st)
  case (Cons r rows)
  then show ?case
    by (cases r) (simp add: same_reader_rows(3) [OF assms] split: option.split tx_row.split)
qed simp

lemma same_reader_parse_sheets:
  assumes "same_reader ie ie'"
  shows "parse_tx_sheets ie' wb st = parse_tx_sheets ie wb st"
proof (induction wb arbitrary: st)
  case (Cons ws wss)
  show ?case
    by (simp add: same_reader_rows(1) [OF assms] same_reader_parse_rows [OF assms] Cons split: prod.split option.split)
qed simp

lemma same_reader_parse:
  assumes "same_reader ie ie'"
  shows "parse_categories ie' wb = parse_categories ie wb"
    "parse_transactions ie' wb = parse_transactions ie wb" "parse_holdings ie' wb = parse_holdings ie wb"
proof -
  show "parse_categories ie' wb = parse_categories ie wb"
    by (simp add: parse_categories_def same_reader_rows(1) [OF assms] split: option.split)
  show "parse_transactions ie' wb = parse_transactions ie wb"
    by (simp add: parse_transactions_def same_reader_parse_sheets [OF assms])
  have "parse_sheet ie' = parse_sheet ie"
    by (intro ext) (simp add: parse_sheet_def same_reader_rows(1) [OF assms] split: option.split)
  then show "parse_holdings ie' wb = parse_holdings ie wb"
    by (simp add: parse_holdings_def parse_stock_holdings_def parse_cash_holdings_def parse_pension_holdings_def
        parse_real_estate_holdings_def)
qed

subsection \<open>The steps of an import\<close>

lemma run_import_steps:
  assumes "run_import ie h (Loaded wb) Apply st = Inr (rep, st', live)"
  obtains tx_rows tx_issues h_rows h_issues cm n st1 ha where
    "parse_transactions ie wb = Some (tx_rows, tx_issues)" "parse_holdings ie wb = Some (h_rows, h_issues)"
    "upsert_categories ie h (fst (parse_categories ie wb)) st = (cm, n, st1)"
    "apply_holdings ie h h_rows (ta_st (apply_transactions ie h cm tx_rows st1)) = Some ha"
    "st' = ha_st ha" "live = ha_live ha" "ir_applied_categories rep = n" "ir_transaction_rows rep = length tx_rows"
    "ir_applied_transactions rep = ta_added (apply_transactions ie h cm tx_rows st1)"
    "ir_skipped_transactions rep = ta_skipped (apply_transactions ie h cm tx_rows st1)"
    "ir_applied_holdings_added rep = ha_added ha"
  using assms
  by (auto simp: run_import_def Let_def split: if_splits option.splits prod.splits)

lemma apply_holdings_tables:
  assumes "apply_holdings ie h rows st = Some ha" "identities_ok ie (im_db st)" "fresh_ids ie st"
  shows "same_others h (im_db st) (im_db (ha_st ha))" "fresh_ids ie (ha_st ha)"
proof -
  note s = start_hold_apply_ok [OF assms(2,3), of h]
  from apply_holding_rows_ok [OF assms(1) [unfolded apply_holdings_def] s(1)]
  have "live_ok ie h (im_db st) (ha_st ha) (ha_live ha)" by simp
  then show "same_others h (im_db st) (im_db (ha_st ha))" "fresh_ids ie (ha_st ha)"
    by (simp_all add: live_ok_def)
qed

text \<open>
  From the tables before an import to those after its commit: categories and transactions only
  grow, the other tables of people stay.
\<close>

lemma imported_tables:
  assumes "run_import ie h (Loaded wb) Apply st = Inr (rep, st', live)" "commit_import ie st' live = Some d'"
    and "unique_keys ct_id (db_categories (im_db st))" "identities_ok ie (im_db st)" "fresh_ids ie st"
  obtains tx_rows tx_issues cm n st1 where
    "parse_transactions ie wb = Some (tx_rows, tx_issues)"
    "upsert_categories ie h (fst (parse_categories ie wb)) st = (cm, n, st1)"
    "db_transactions d' = db_transactions (im_db (ta_st (apply_transactions ie h cm tx_rows st1)))"
    "db_categories d' = db_categories (im_db (ta_st (apply_transactions ie h cm tx_rows st1)))"
    "db_members d' = db_members (im_db st)" "db_users d' = db_users (im_db st)"
    "fresh_ids ie st1" "map_ok cm (im_db st1)" "grows (im_db st) (im_db st1)"
    "grows (im_db st1) (im_db (ta_st (apply_transactions ie h cm tx_rows st1)))"
    "identities_ok ie d'" "same_others h (im_db (ta_st (apply_transactions ie h cm tx_rows st1))) d'"
    "length (db_holdings d') = length (db_holdings (im_db st)) + ir_applied_holdings_added rep"
    "\<forall>x \<in> set (db_holdings (im_db st)). hd_household_id x = h \<longrightarrow> (\<exists>y \<in> set (db_holdings d'). kept_holding x y)"
    "ir_transaction_rows rep = length tx_rows"
    "ir_applied_transactions rep = ta_added (apply_transactions ie h cm tx_rows st1)"
    "ir_skipped_transactions rep = ta_skipped (apply_transactions ie h cm tx_rows st1)"
proof -
  obtain tx_rows tx_issues h_rows h_issues cm n st1 ha where s:
    "parse_transactions ie wb = Some (tx_rows, tx_issues)" "parse_holdings ie wb = Some (h_rows, h_issues)"
    "upsert_categories ie h (fst (parse_categories ie wb)) st = (cm, n, st1)"
    "apply_holdings ie h h_rows (ta_st (apply_transactions ie h cm tx_rows st1)) = Some ha"
    "st' = ha_st ha" "live = ha_live ha" "ir_transaction_rows rep = length tx_rows"
    "ir_applied_transactions rep = ta_added (apply_transactions ie h cm tx_rows st1)"
    "ir_skipped_transactions rep = ta_skipped (apply_transactions ie h cm tx_rows st1)"
    "ir_applied_holdings_added rep = ha_added ha"
    by (rule run_import_steps [OF assms(1)])
  let ?ta = "apply_transactions ie h cm tx_rows st1"
  note u = upsert_categories_facts [OF s(3) assms(5,3)]
  note p = parse_transactions_ok [OF s(1)]
  have g: "grows (im_db st1) (im_db (ta_st ?ta))"
    using apply_transactions_plan [OF p(1,3) u(2,3)] by blast
  have fr: "fresh_ids ie (ta_st ?ta)"
    by (rule apply_transactions_fresh [OF u(2,3)])
  have hold: "db_holdings (im_db (ta_st ?ta)) = db_holdings (im_db st)"
    using u(1) g by (simp add: grows_def)
  then have "identities_ok ie (im_db (ta_st ?ta))" using assms(4) by (simp add: identities_ok_def)
  note c = committed_holdings [OF s(4) assms(2) [unfolded s(5,6)] this fr]
  show ?thesis
    by (rule that [OF s(1,3)])
      (use c u g s hold in \<open>simp_all add: same_others_def grows_def\<close>)
qed

subsection \<open>A sample\<close>

definition sample_import_env :: import_env where
  "sample_import_env =
     \<lparr>ie_settings = \<lparr>is_max_sheets = 64, is_max_rows = 5000, is_max_columns = 64\<rparr>, ie_from_iso = (\<lambda>_. None),
      ie_sha = rev, ie_new_id = (\<lambda>n. [1000 + int n]),
      ie_env = \<lparr>ev_now = 5, ev_db_now = 5, ev_new_id = [], ev_sql_lower = py_lower, ev_sql_upper = py_upper,
        ev_sql_trim = py_strip, ev_hash_token = id, ev_invite_window_seconds = 0, ev_invite_max_attempts = 0,
        ev_invite_token_hours = 0, ev_blocks_email_failures = False\<rparr>\<rparr>"

definition sample_import_start :: imp where
  "sample_import_start =
     \<lparr>im_db = \<lparr>db_users = [], db_revoked = [], db_households = [], db_members = [], db_invitations = [],
        db_categories = [], db_transactions = [], db_holdings = [], db_patch_logs = []\<rparr>, im_next = 0\<rparr>"

definition month_of :: "pystr \<Rightarrow> cell list list \<Rightarrow> sheet" where
  "month_of title rows =
     \<lparr>sh_title = title, sh_rows = replicate 9 [] @ rows, sh_max_row = Some (int (length rows) + 9), sh_max_column = None,
      sh_merged = 0, sh_charts = 0\<rparr>"

definition stocks_of :: "cell list list \<Rightarrow> sheet" where
  "stocks_of rows =
     \<lparr>sh_title = stock_sheet, sh_rows = replicate 6 [] @ rows, sh_max_row = Some (int (length rows) + 6), sh_max_column = None,
      sh_merged = 0, sh_charts = 0\<rparr>"

definition spend_cells :: "int \<Rightarrow> cell list" where
  "spend_cells n = [Blank, Date_cell (2024, 1, 5) [], Text_cell (lit ''food''), Text_cell (lit ''lunch''), Blank, Int_cell n]"

definition stock_cells :: "string \<Rightarrow> cell list" where
  "stock_cells code = [Blank, Text_cell (lit ''US''), Blank, Blank, Text_cell (lit ''share''), Text_cell (lit code),
     Int_cell 10, Int_cell 2, Blank]"

definition sample_workbook :: "sheet list" where
  "sample_workbook = [month_of (lit ''1'') [spend_cells 5000], stocks_of [stock_cells ''AAA'']]"

text \<open>The first import of the sample, and the tables it leaves.\<close>

lemma sample_import_runs:
  "case run_import sample_import_env (lit ''h1'') (Loaded sample_workbook) Apply sample_import_start of
     Inl _ \<Rightarrow> False
   | Inr (rep, st, live) \<Rightarrow>
       ir_applied_transactions rep = 1 \<and> ir_applied_holdings_added rep = 1
       \<and> (case commit_import sample_import_env st live of
            None \<Rightarrow> False
          | Some d \<Rightarrow>
              map ct_id (db_categories d) = [[1000]] \<and> map tx_id (db_transactions d) = [[1001]]
              \<and> map hd_id (db_holdings d) = [[1002]]
              \<and> (case run_import sample_import_env (lit ''h1'') (Loaded sample_workbook) Apply \<lparr>im_db = d, im_next = 3\<rparr> of
                 Inl _ \<Rightarrow> False
               | Inr (rep2, st2, live2) \<Rightarrow>
                   ir_skipped_transactions rep2 = 1 \<and> commit_import sample_import_env st2 live2 \<noteq> None))"
  by code_simp

lemma sample_fresh: "fresh_ids sample_import_env sample_import_start"
  by (simp add: fresh_ids_def sample_import_env_def sample_import_start_def inj_def)

lemma sample_identities: "identities_ok sample_import_env (im_db sample_import_start)"
  "unique_keys ct_id (db_categories (im_db sample_import_start))"
  by (simp_all add: identities_ok_def sample_import_start_def unique_keys_def)

text \<open>
  The reference of a holding is the number of its row.  When a row above is removed from the
  sheet, the next import overwrites the wrong holding, and the unique index refuses it.
\<close>

lemma removed_row_breaks_reimport:
  "case run_import sample_import_env (lit ''h1'')
       (Loaded [stocks_of [stock_cells ''AAA'', stock_cells ''BBB'']]) Apply sample_import_start of
     Inl _ \<Rightarrow> False
   | Inr (rep, st, live) \<Rightarrow>
       (case commit_import sample_import_env st live of
          None \<Rightarrow> False
        | Some d \<Rightarrow>
            (case run_import sample_import_env (lit ''h1'') (Loaded [stocks_of [stock_cells ''BBB'']]) Apply
                    \<lparr>im_db = d, im_next = 2\<rparr> of
               Inl _ \<Rightarrow> False
             | Inr (rep2, st2, live2) \<Rightarrow> commit_import sample_import_env st2 live2 = None))"
  by code_simp

text \<open>
  A holding that moved up by a row is found by its identity, but is still known under its old
  reference: the next row overwrites it.  The import reports two updates and keeps one of the two
  holdings of the sheet; a second import of the same sheet adds the other.
\<close>

lemma moved_row_swallows_holding:
  "case run_import sample_import_env (lit ''h1'') (Loaded [stocks_of [[], stock_cells ''AAA'']]) Apply sample_import_start of
     Inl _ \<Rightarrow> False
   | Inr (rep, st, live) \<Rightarrow>
       (case commit_import sample_import_env st live of
          None \<Rightarrow> False
        | Some d \<Rightarrow>
            (case run_import sample_import_env (lit ''h1'') (Loaded [stocks_of [stock_cells ''AAA'', stock_cells ''BBB'']]) Apply
                    \<lparr>im_db = d, im_next = 2\<rparr> of
               Inl _ \<Rightarrow> False
             | Inr (rep2, st2, live2) \<Rightarrow>
                 ir_applied_holdings_added rep2 = 0 \<and>
                 (case commit_import sample_import_env st2 live2 of
                    None \<Rightarrow> False
                  | Some d2 \<Rightarrow> map hd_symbol (db_holdings d2) = [lit ''BBB''] \<and>
                      (case run_import sample_import_env (lit ''h1'')
                              (Loaded [stocks_of [stock_cells ''AAA'', stock_cells ''BBB'']]) Apply \<lparr>im_db = d2, im_next = 4\<rparr> of
                         Inl _ \<Rightarrow> False
                       | Inr (rep3, _) \<Rightarrow> ir_applied_holdings_added rep3 = 1))))"
  by code_simp

text \<open>An amount ten times a stored one, on the same day in the same category, counts as its duplicate.\<close>

lemma tenfold_amount_is_skipped:
  "case run_import sample_import_env (lit ''h1'') (Loaded [month_of (lit ''1'') [spend_cells 5000]]) Apply
          sample_import_start of
     Inl _ \<Rightarrow> False
   | Inr (rep, st, live) \<Rightarrow>
       (case run_import sample_import_env (lit ''h1'') (Loaded [month_of (lit ''1'') [spend_cells 50000]]) Apply st of
          Inl _ \<Rightarrow> False
        | Inr (rep2, st2, live2) \<Rightarrow> ir_applied_transactions rep2 = 0 \<and> ir_skipped_transactions rep2 = 1)"
  by code_simp

text \<open>A Boolean in the amount column, or the text NaN, ends the whole import with an exception nobody expects.\<close>

lemma odd_amount_aborts_import:
  "run_import sample_import_env (lit ''h1'')
     (Loaded [month_of (lit ''1'') [spend_cells 5000, [Blank, Date_cell (2024, 1, 5) [], Text_cell (lit ''food''), Blank, Blank, v]]])
     mode sample_import_start = Inl Other_error"
  if "v \<in> {Bool_cell True, Text_cell (lit ''NaN'')}"
proof -
  have "\<forall>v \<in> {Bool_cell True, Text_cell (lit ''NaN'')}. parse_transactions sample_import_env
     [month_of (lit ''1'') [spend_cells 5000, [Blank, Date_cell (2024, 1, 5) [], Text_cell (lit ''food''), Blank, Blank, v]]] = None"
    by code_simp
  with that have "parse_transactions sample_import_env
     [month_of (lit ''1'') [spend_cells 5000, [Blank, Date_cell (2024, 1, 5) [], Text_cell (lit ''food''), Blank, Blank, v]]] = None"
    by (rule bspec [rotated])
  then show ?thesis
    by (simp add: run_import_def sample_import_env_def [THEN arg_cong, of ie_settings] Let_def split: prod.split)
qed

subsection \<open>The properties\<close>

text \<open>C26 (an import adds what its plan says): the loop of \<open>_apply_transactions\<close>, which updates the
known references and counts row by row and asks the table for the last order key of a day once, adds exactly
the rows a one-shot decision against the stored transactions selects: those whose reference is unknown and whose
ordinal exceeds the number of stored transactions with the same hash.  Each has the category of its names, the
owner of its name, and an order key after all keys of its day, in the order of the workbook; the report counts
the added and the skipped rows.\<close>

theorem workbook_import_follows_plan:
  assumes "run_import ie h (Loaded wb) Apply st = Inr (rep, st', live)" "commit_import ie st' live = Some d'"
    and "unique_keys ct_id (db_categories (im_db st))" "identities_ok ie (im_db st)" "fresh_ids ie st"
  shows "let (_, _, st1) = upsert_categories ie h (fst (parse_categories ie wb)) st
    in \<exists>tx_rows tx_issues ts. parse_transactions ie wb = Some (tx_rows, tx_issues)
      \<and> db_transactions d' = db_transactions (im_db st) @ ts
      \<and> map (stored_view d') ts = import_plan ie (im_db st1) h tx_rows
      \<and> ir_applied_transactions rep = length ts \<and> ir_skipped_transactions rep + length ts = length tx_rows"
proof -
  obtain tx_rows tx_issues cm n st1 where t:
    "parse_transactions ie wb = Some (tx_rows, tx_issues)"
    "upsert_categories ie h (fst (parse_categories ie wb)) st = (cm, n, st1)"
    "db_transactions d' = db_transactions (im_db (ta_st (apply_transactions ie h cm tx_rows st1)))"
    "db_categories d' = db_categories (im_db (ta_st (apply_transactions ie h cm tx_rows st1)))"
    "fresh_ids ie st1" "map_ok cm (im_db st1)"
    "ir_applied_transactions rep = ta_added (apply_transactions ie h cm tx_rows st1)"
    "ir_skipped_transactions rep = ta_skipped (apply_transactions ie h cm tx_rows st1)"
    by (rule imported_tables [OF assms])
  note p = parse_transactions_ok [OF t(1)]
  note u = upsert_categories_facts [OF t(2) assms(5,3)]
  have view: "stored_view d' = stored_view (im_db (ta_st (apply_transactions ie h cm tx_rows st1)))"
    unfolding stored_view_def t(4) ..
  from apply_transactions_plan [OF p(1,3) t(5,6), of h] show ?thesis
    by (auto simp: t u(4) view)
qed

text \<open>C27 (transactions are imported once): importing the same workbook again, later and with other
identifiers, adds no category and no transaction and reports every transaction row as skipped; nothing
in these two tables changes.  Of the holdings this says nothing: \<open>moved_row_swallows_holding\<close> is a
second import that adds one.\<close>

theorem second_import_skips_transactions:
  assumes "run_import ie h (Loaded wb) Apply st = Inr (rep, st', live)" "commit_import ie st' live = Some d"
    and "unique_keys ct_id (db_categories (im_db st))" "identities_ok ie (im_db st)" "fresh_ids ie st"
    and "same_reader ie ie'" "identity_index (ie_env ie') = identity_index (ie_env ie)" "fresh_ids ie' \<lparr>im_db = d, im_next = n\<rparr>"
    and "run_import ie' h (Loaded wb) Apply \<lparr>im_db = d, im_next = n\<rparr> = Inr (rep2, st2, live2)"
    and "commit_import ie' st2 live2 = Some d2"
  shows "ir_applied_categories rep2 = 0 \<and> ir_applied_transactions rep2 = 0
    \<and> ir_skipped_transactions rep2 = ir_transaction_rows rep2
    \<and> db_transactions d2 = db_transactions d \<and> db_categories d2 = db_categories d"
proof -
  obtain tx_rows tx_issues cm k st1 where t:
    "parse_transactions ie wb = Some (tx_rows, tx_issues)"
    "upsert_categories ie h (fst (parse_categories ie wb)) st = (cm, k, st1)"
    "db_transactions d = db_transactions (im_db (ta_st (apply_transactions ie h cm tx_rows st1)))"
    "db_categories d = db_categories (im_db (ta_st (apply_transactions ie h cm tx_rows st1)))"
    "fresh_ids ie st1" "map_ok cm (im_db st1)" "identities_ok ie d"
    "grows (im_db st1) (im_db (ta_st (apply_transactions ie h cm tx_rows st1)))"
    by (rule imported_tables [OF assms(1-5)])
  let ?st = "\<lparr>im_db = d, im_next = n\<rparr>" and ?d1 = "im_db (ta_st (apply_transactions ie h cm tx_rows st1))"
  note r = same_reader_parse [OF assms(6)]
  obtain tx_issues2 h_rows2 h_issues2 cm2 k2 st12 ha2 where s:
    "parse_holdings ie' wb = Some (h_rows2, h_issues2)"
    "upsert_categories ie' h (fst (parse_categories ie wb)) ?st = (cm2, k2, st12)"
    "apply_holdings ie' h h_rows2 (ta_st (apply_transactions ie' h cm2 tx_rows st12)) = Some ha2"
    "st2 = ha_st ha2" "live2 = ha_live ha2" "ir_applied_categories rep2 = k2" "ir_transaction_rows rep2 = length tx_rows"
    "ir_applied_transactions rep2 = ta_added (apply_transactions ie' h cm2 tx_rows st12)"
    "ir_skipped_transactions rep2 = ta_skipped (apply_transactions ie' h cm2 tx_rows st12)"
    using run_import_steps [OF assms(9)] t(1) unfolding r by (metis fst_conv option.inject prod.inject)
  have "set (fst (parse_categories ie wb)) \<subseteq> category_names ` {c \<in> set (db_categories (im_db st1)). ct_household_id c = h}"
    using upsert_rows_covers [OF t(2) [unfolded upsert_categories_def] household_map_covers] unfolding map_covers_def by blast
  also have "\<dots> \<subseteq> category_names ` {c \<in> set (db_categories d). ct_household_id c = h}"
    using t(4,8) by (auto simp: grows_def)
  also have "\<dots> = set (map fst (household_category_map d h))"
    by (auto simp: household_category_map_def)
  finally have up: "cm2 = household_category_map d h" "k2 = 0" "st12 = ?st"
    using s(2) upsert_rows_nothing [of "fst (parse_categories ie wb)" "household_category_map d h" ie' h 0 0 ?st]
    by (simp_all add: upsert_categories_def)
  have ta2: "apply_transactions ie' h cm2 tx_rows ?st = (start_tx_apply ie' h cm2 ?st)\<lparr>ta_skipped := length tx_rows\<rparr>"
    by (rule second_apply_skips [OF t(1,5,6) _ same_reader_rows(4) [OF assms(6)]]) (use t(3,4) in \<open>simp add: extends_def\<close>)
  have start: "ta_st (apply_transactions ie' h cm2 tx_rows ?st) = ?st" by (simp add: ta2)
  have ids: "identities_ok ie' (im_db ?st)" using t(7) assms(7) by (simp add: identities_ok_def)
  have "apply_holdings ie' h h_rows2 ?st = Some ha2" using s(3) by (simp add: up(3) start)
  note c = committed_holdings [OF this assms(10) [unfolded s(4,5)] ids assms(8)]
  show ?thesis
    using c(2) ta2 [unfolded up(1)] by (simp add: s up same_others_def)
qed

text \<open>The sample, taken apart for the witnesses.\<close>

lemma sample_imports:
  obtains rep st live d rep2 st2 live2 d2 where
    "run_import sample_import_env (lit ''h1'') (Loaded sample_workbook) Apply sample_import_start = Inr (rep, st, live)"
    "commit_import sample_import_env st live = Some d" "ir_applied_transactions rep = 1" "ir_applied_holdings_added rep = 1"
    "run_import sample_import_env (lit ''h1'') (Loaded sample_workbook) Apply \<lparr>im_db = d, im_next = 3\<rparr> = Inr (rep2, st2, live2)"
    "commit_import sample_import_env st2 live2 = Some d2" "ir_skipped_transactions rep2 = 1"
    "fresh_ids sample_import_env \<lparr>im_db = d, im_next = 3\<rparr>"
proof -
  obtain rep st live where 1:
    "run_import sample_import_env (lit ''h1'') (Loaded sample_workbook) Apply sample_import_start = Inr (rep, st, live)"
    using sample_import_runs by (auto split: sum.splits)
  obtain d where 2: "commit_import sample_import_env st live = Some d"
    using sample_import_runs by (auto simp: 1 split: option.splits)
  obtain rep2 st2 live2 where 3:
    "run_import sample_import_env (lit ''h1'') (Loaded sample_workbook) Apply \<lparr>im_db = d, im_next = 3\<rparr> = Inr (rep2, st2, live2)"
    using sample_import_runs by (auto simp: 1 2 split: sum.splits)
  have 4: "ir_applied_transactions rep = 1" "ir_applied_holdings_added rep = 1" "ir_skipped_transactions rep2 = 1"
    "commit_import sample_import_env st2 live2 \<noteq> None" "map ct_id (db_categories d) = [[1000]]"
    "map tx_id (db_transactions d) = [[1001]]" "map hd_id (db_holdings d) = [[1002]]"
    using sample_import_runs by (simp_all add: 1 2 3)
  then obtain d2 where 5: "commit_import sample_import_env st2 live2 = Some d2" by blast
  have "ct_id ` set (db_categories d) = {[1000]}" "tx_id ` set (db_transactions d) = {[1001]}"
    "hd_id ` set (db_holdings d) = {[1002]}"
    using arg_cong [OF 4(5), of set] arg_cong [OF 4(6), of set] arg_cong [OF 4(7), of set] by simp_all
  then have "fresh_ids sample_import_env \<lparr>im_db = d, im_next = 3\<rparr>"
    by (simp add: fresh_ids_def sample_import_env_def inj_def)
  from that [OF 1 2 4(1,2) 3 5 4(3) this] show ?thesis .
qed

lemma workbook_import_follows_plan_witness:
  "\<exists>rep st live d ts. run_import sample_import_env (lit ''h1'') (Loaded sample_workbook) Apply sample_import_start
       = Inr (rep, st, live) \<and> commit_import sample_import_env st live = Some d
     \<and> db_transactions d = ts \<and> length ts = 1"
proof -
  obtain rep st live d where r:
    "run_import sample_import_env (lit ''h1'') (Loaded sample_workbook) Apply sample_import_start = Inr (rep, st, live)"
    "commit_import sample_import_env st live = Some d" "ir_applied_transactions rep = 1"
    by (rule sample_imports)
  from workbook_import_follows_plan [OF r(1,2) sample_identities(2,1) sample_fresh] r(3)
  have "length (db_transactions d) = 1"
    by (auto simp: sample_import_start_def split: prod.splits)
  with r show ?thesis by blast
qed

lemma second_import_skips_transactions_witness:
  "\<exists>rep st live d rep2 st2 live2 d2.
     run_import sample_import_env (lit ''h1'') (Loaded sample_workbook) Apply sample_import_start = Inr (rep, st, live)
     \<and> commit_import sample_import_env st live = Some d \<and> ir_applied_transactions rep = 1
     \<and> run_import sample_import_env (lit ''h1'') (Loaded sample_workbook) Apply \<lparr>im_db = d, im_next = 3\<rparr> = Inr (rep2, st2, live2)
     \<and> ir_applied_transactions rep2 = 0"
proof -
  obtain rep st live d rep2 st2 live2 d2 where r:
    "run_import sample_import_env (lit ''h1'') (Loaded sample_workbook) Apply sample_import_start = Inr (rep, st, live)"
    "commit_import sample_import_env st live = Some d" "ir_applied_transactions rep = 1"
    "run_import sample_import_env (lit ''h1'') (Loaded sample_workbook) Apply \<lparr>im_db = d, im_next = 3\<rparr> = Inr (rep2, st2, live2)"
    "commit_import sample_import_env st2 live2 = Some d2"
    "fresh_ids sample_import_env \<lparr>im_db = d, im_next = 3\<rparr>"
    by (rule sample_imports)
  have "same_reader sample_import_env sample_import_env" by (simp add: same_reader_def)
  from second_import_skips_transactions [OF r(1,2) sample_identities(2,1) sample_fresh this refl r(6,4,5)] r
  show ?thesis by blast
qed

text \<open>C28 (an import keeps the holdings in order): a committed import leaves identifiers and identities
unique, adds as many holdings as it reports, loses none (each keeps its identifier and asset type and its version
does not decrease) and does not touch the holdings of other households.\<close>

theorem workbook_import_keeps_holdings:
  assumes "run_import ie h (Loaded wb) Apply st = Inr (rep, st', live)" "commit_import ie st' live = Some d'"
    and "unique_keys ct_id (db_categories (im_db st))" "identities_ok ie (im_db st)" "fresh_ids ie st"
  shows "identities_ok ie d'
    \<and> length (db_holdings d') = length (db_holdings (im_db st)) + ir_applied_holdings_added rep
    \<and> (\<forall>x \<in> set (db_holdings (im_db st)). hd_household_id x = h \<longrightarrow>
          (\<exists>y \<in> set (db_holdings d'). hd_id y = hd_id x \<and> hd_asset_type y = hd_asset_type x \<and> hd_version x \<le> hd_version y))
    \<and> filter (\<lambda>x. hd_household_id x \<noteq> h) (db_holdings d') = filter (\<lambda>x. hd_household_id x \<noteq> h) (db_holdings (im_db st))"
proof -
  obtain tx_rows cm st1 where t:
    "identities_ok ie d'" "same_others h (im_db (ta_st (apply_transactions ie h cm tx_rows st1))) d'"
    "length (db_holdings d') = length (db_holdings (im_db st)) + ir_applied_holdings_added rep"
    "\<forall>x \<in> set (db_holdings (im_db st)). hd_household_id x = h \<longrightarrow> (\<exists>y \<in> set (db_holdings d'). kept_holding x y)"
    "grows (im_db st) (im_db st1)" "grows (im_db st1) (im_db (ta_st (apply_transactions ie h cm tx_rows st1)))"
    by (rule imported_tables [OF assms])
  from grows_trans [OF t(5,6)] t(1-4) show ?thesis
    by (simp add: same_others_def grows_def kept_holding_def)
qed

lemma workbook_import_keeps_holdings_witness:
  "\<exists>rep st live d. run_import sample_import_env (lit ''h1'') (Loaded sample_workbook) Apply sample_import_start
       = Inr (rep, st, live) \<and> commit_import sample_import_env st live = Some d \<and> length (db_holdings d) = 1"
proof -
  obtain rep st live d where r:
    "run_import sample_import_env (lit ''h1'') (Loaded sample_workbook) Apply sample_import_start = Inr (rep, st, live)"
    "commit_import sample_import_env st live = Some d" "ir_applied_holdings_added rep = 1"
    by (rule sample_imports)
  from workbook_import_keeps_holdings [OF r(1,2) sample_identities(2,1) sample_fresh] r
  show ?thesis by (auto simp: sample_import_start_def)
qed

text \<open>C29 (what the parser delivers): every parsed row has a positive whole amount, a major and a minor
category, the flow type of its major, its hash and its reference; equal hashes are numbered from one without gaps
and no reference occurs twice.\<close>

theorem parsed_transactions_wellformed:
  assumes "parse_transactions ie wb = Some (rows, issues)"
  shows "list_all (parsed_row_ok ie) rows \<and> ordinals_from (\<lambda>_. 0) rows \<and> distinct (map pt_source_ref rows)"
  using parse_transactions_ok [OF assms] by blast

lemma parsed_transactions_wellformed_witness:
  "\<exists>rows. map pt_amount rows = [5000] \<and> list_all (parsed_row_ok sample_import_env) rows"
proof -
  have "case parse_transactions sample_import_env sample_workbook of
      None \<Rightarrow> False | Some (rows, issues) \<Rightarrow> map pt_amount rows = [5000]" by code_simp
  then obtain rows issues where r: "parse_transactions sample_import_env sample_workbook = Some (rows, issues)"
    "map pt_amount rows = [5000]" by (auto split: option.splits)
  from parsed_transactions_wellformed [OF r(1)] r(2) show ?thesis by (intro exI [of _ rows]) simp
qed

end
