(* ===== verification/Import_Lock.thy ===== *)
theory Import_Lock
  imports Workbook_Holdings
begin

text \<open>
  The execution lock of imports, \<open>backend/app/api/routes/imports.py\<close>: one row per household with the
  instant of its last renewal, taken over when it is older than the timeout; the process guard of
  SQLite; the guarded import with its error mapping; the checks of the uploaded file.  Every database
  session commits on its own, so the lock is also given as a step relation over several jobs.
\<close>

subsection \<open>The row of a household\<close>

type_synonym lock_row = "instant option"

definition lock_timeout_seconds :: "int \<Rightarrow> int" where
  "lock_timeout_seconds import_lock_timeout_seconds = max 30 import_lock_timeout_seconds"

definition lock_heartbeat_interval_seconds :: "int \<Rightarrow> int" where
  "lock_heartbeat_interval_seconds import_lock_timeout_seconds =
     max 5 (min 15 (lock_timeout_seconds import_lock_timeout_seconds div 3))"

datatype lock_state = Lock_free | Lock_stale instant | Lock_busy

definition read_lock :: "int \<Rightarrow> instant \<Rightarrow> lock_row \<Rightarrow> lock_state" where
  "read_lock timeout now row =
     (case row of
        None \<Rightarrow> Lock_free
      | Some a \<Rightarrow> if a < now - seconds (lock_timeout_seconds timeout) then Lock_stale a else Lock_busy)"

definition delete_if_at :: "instant \<Rightarrow> lock_row \<Rightarrow> lock_row" where
  "delete_if_at a row = (if row = Some a then None else row)"

text \<open>\<open>None\<close> is a conflict: no row had the old value, or a row is already there.\<close>

definition renew_import_lock_lease :: "instant \<Rightarrow> instant \<Rightarrow> lock_row \<Rightarrow> lock_row option" where
  "renew_import_lock_lease acquired_at now row = (if row = Some acquired_at then Some (Some now) else None)"

definition insert_lock :: "instant \<Rightarrow> lock_row \<Rightarrow> lock_row option" where
  "insert_lock now row = (if row = None then Some (Some now) else None)"

definition is_import_lock_current :: "instant \<Rightarrow> lock_row \<Rightarrow> bool" where
  "is_import_lock_current acquired_at row \<longleftrightarrow> row = Some acquired_at"

definition release_import_lock :: "instant \<Rightarrow> lock_row \<Rightarrow> lock_row" where
  "release_import_lock acquired_at row = delete_if_at acquired_at row"

definition already_running :: http_error where
  "already_running = AppError 429 ''IMPORT_ALREADY_RUNNING''"

text \<open>\<open>race1\<close> and \<open>race2\<close> are what other sessions do to the row before the deletion and before the insertion.\<close>

definition acquire_import_lock ::
  "int \<Rightarrow> instant \<Rightarrow> instant \<Rightarrow> (lock_row \<Rightarrow> lock_row) \<Rightarrow> (lock_row \<Rightarrow> lock_row) \<Rightarrow> lock_row
   \<Rightarrow> (http_error + instant) \<times> lock_row" where
  "acquire_import_lock timeout now1 now2 race1 race2 row =
     (let insert = (\<lambda>r. let r' = race2 r in
            case insert_lock now2 r' of None \<Rightarrow> (Inl already_running, r') | Some r'' \<Rightarrow> (Inr now2, r''))
      in case read_lock timeout now1 row of
           Lock_busy \<Rightarrow> (Inl already_running, row)
         | Lock_free \<Rightarrow> insert row
         | Lock_stale a \<Rightarrow>
             (let r = race1 row
              in if r \<noteq> Some a then (Inl already_running, r) else insert (delete_if_at a r)))"

subsection \<open>The file\<close>

datatype archive = Bad_archive | Entries "int list"

record upload_limits =
  ul_max_upload_bytes :: int
  ul_max_zip_entries :: int
  ul_max_uncompressed_bytes :: int

fun expanded_ok :: "int \<Rightarrow> int \<Rightarrow> int list \<Rightarrow> bool" where
  "expanded_ok limit expanded [] \<longleftrightarrow> True"
| "expanded_ok limit expanded (n # ns) \<longleftrightarrow> expanded + n \<le> limit \<and> expanded_ok limit (expanded + n) ns"

definition validate_workbook_archive :: "upload_limits \<Rightarrow> archive \<Rightarrow> http_error option" where
  "validate_workbook_archive ul ar =
     (case ar of
        Bad_archive \<Rightarrow> Some (AppError 400 ''IMPORT_WORKBOOK_INVALID_ARCHIVE'')
      | Entries sizes \<Rightarrow>
          if ul_max_zip_entries ul < int (length sizes) then Some (AppError 413 ''IMPORT_ARCHIVE_TOO_COMPLEX'')
          else if \<not> expanded_ok (ul_max_uncompressed_bytes ul) 0 sizes
          then Some (AppError 413 ''IMPORT_ARCHIVE_EXPANDS_TOO_LARGE'') else None)"

record upload_file =
  uf_exists :: bool
  uf_suffix :: pystr
  uf_size :: int
  uf_archive :: archive

definition validate_workbook_file :: "upload_limits \<Rightarrow> upload_file \<Rightarrow> http_error option" where
  "validate_workbook_file ul f =
     (if \<not> uf_exists f then Some (AppError 404 ''IMPORT_WORKBOOK_NOT_FOUND'')
      else if py_lower (uf_suffix f) \<noteq> lit ''.xlsx'' then Some (AppError 400 ''IMPORT_WORKBOOK_EXTENSION_INVALID'')
      else if ul_max_upload_bytes ul < uf_size f then Some (AppError 413 ''IMPORT_FILE_TOO_LARGE'')
      else validate_workbook_archive ul (uf_archive f))"

text \<open>Chunks are copied until their sum exceeds the limit; the parts of a path are compared after \<open>resolve\<close>.\<close>

fun copy_upload_with_limit :: "int \<Rightarrow> int \<Rightarrow> pystr list \<Rightarrow> http_error + pystr" where
  "copy_upload_with_limit max_bytes written [] = Inr []"
| "copy_upload_with_limit max_bytes written (chunk # chunks) =
     (if chunk = [] then Inr []
      else (let written' = written + int (length chunk)
            in if max_bytes < written' then Inl (AppError 413 ''IMPORT_FILE_TOO_LARGE'')
               else case copy_upload_with_limit max_bytes written' chunks of
                 Inl e \<Rightarrow> Inl e | Inr rest \<Rightarrow> Inr (chunk @ rest)))"

definition ensure_allowed_path :: "pystr list \<Rightarrow> pystr list \<Rightarrow> http_error + pystr list" where
  "ensure_allowed_path allowed_root candidate =
     (if take (length allowed_root) candidate = allowed_root then Inr candidate
      else Inl (AppError 400 ''IMPORT_PATH_NOT_ALLOWED''))"

text \<open>
  \<open>resolve\<close> makes a path absolute against the project root and removes links and dots; \<open>default_path\<close> is the first
  workbook of the folder \<open>legacy\<close>, if there is one.
\<close>

definition resolve_workbook_path ::
  "(pystr \<Rightarrow> pystr list) \<Rightarrow> pystr list option \<Rightarrow> pystr list \<Rightarrow> pystr option \<Rightarrow> http_error + pystr list" where
  "resolve_workbook_path resolve default_path allowed_root path_text =
     (if truthy_text path_text then ensure_allowed_path allowed_root (resolve (the path_text))
      else case default_path of
        None \<Rightarrow> Inl (AppError 404 ''IMPORT_WORKBOOK_NOT_FOUND'')
      | Some p \<Rightarrow> ensure_allowed_path allowed_root p)"

subsection \<open>The guarded import\<close>

record guard_state =
  gs_db :: db
  gs_lock :: "pystr \<Rightarrow> lock_row"
  gs_registry :: "pystr list"

text \<open>
  What happens around one import: the dialect, the lock file of the system, the clock, the steps of others
  on the lock row, and the heartbeat thread (whether it failed, and its last lease).
\<close>

record surroundings =
  sr_sqlite :: bool
  sr_os_lock :: bool
  sr_timeout :: int
  sr_now1 :: instant
  sr_now2 :: instant
  sr_race1 :: "lock_row \<Rightarrow> lock_row"
  sr_race2 :: "lock_row \<Rightarrow> lock_row"
  sr_beat :: "instant \<Rightarrow> bool \<times> instant"
  sr_meanwhile :: "lock_row \<Rightarrow> lock_row"

definition acquire_process_guard :: "surroundings \<Rightarrow> pystr \<Rightarrow> import_mode \<Rightarrow> guard_state \<Rightarrow> (http_error + guard_state)" where
  "acquire_process_guard sr household_id mode gs =
     (if mode = Dry_run \<or> \<not> sr_sqlite sr then Inr gs
      else (let h = py_strip household_id
            in if h = [] \<or> h \<in> set (gs_registry gs) \<or> \<not> sr_os_lock sr then Inl already_running
               else Inr (gs\<lparr>gs_registry := h # gs_registry gs\<rparr>)))"

definition release_process_guard :: "surroundings \<Rightarrow> pystr \<Rightarrow> import_mode \<Rightarrow> guard_state \<Rightarrow> guard_state" where
  "release_process_guard sr household_id mode gs =
     (if mode = Dry_run \<or> \<not> sr_sqlite sr then gs
      else gs\<lparr>gs_registry := removeAll (py_strip household_id) (gs_registry gs)\<rparr>)"

definition import_error :: "import_exn \<Rightarrow> http_error" where
  "import_error e =
     (case e of
        Too_many_sheets \<Rightarrow> AppError 400 ''IMPORT_WORKBOOK_TOO_MANY_SHEETS''
      | Value_error \<Rightarrow> AppError 400 ''IMPORT_WORKBOOK_INVALID''
      | Other_error \<Rightarrow> AppError 500 ''IMPORT_PROCESS_INTERNAL_ERROR'')"

text \<open>The lease of the heartbeat: none on SQLite and for a dry run.\<close>

definition last_lease :: "surroundings \<Rightarrow> import_mode \<Rightarrow> instant \<Rightarrow> bool \<times> instant" where
  "last_lease sr mode acquired_at =
     (if mode = Apply \<and> \<not> sr_sqlite sr then sr_beat sr acquired_at else (False, acquired_at))"

definition guarded_result ::
  "import_env \<Rightarrow> pystr \<Rightarrow> loaded \<Rightarrow> import_mode \<Rightarrow> nat \<Rightarrow> bool \<Rightarrow> db \<Rightarrow> (http_error + import_report) \<times> db" where
  "guarded_result ie household_id loaded mode n lock_kept d =
     (case run_import ie household_id loaded mode \<lparr>im_db = d, im_next = n\<rparr> of
        Inl e \<Rightarrow> (Inl (import_error e), d)
      | Inr (rep, st, live) \<Rightarrow>
          if mode = Dry_run then (Inr rep, d)
          else if \<not> lock_kept then (Inl (AppError 409 ''IMPORT_LOCK_LOST''), d)
          else case commit_import ie st live of
            None \<Rightarrow> (Inl (AppError 500 ''IMPORT_PROCESS_INTERNAL_ERROR''), d)
          | Some d' \<Rightarrow> (Inr rep, d'))"

definition run_import_with_guard ::
  "import_env \<Rightarrow> surroundings \<Rightarrow> pystr \<Rightarrow> loaded \<Rightarrow> import_mode \<Rightarrow> nat \<Rightarrow> guard_state
   \<Rightarrow> (http_error + import_report) \<times> guard_state" where
  "run_import_with_guard ie sr household_id loaded mode n gs =
     (case acquire_process_guard sr household_id mode gs of
        Inl e \<Rightarrow> (Inl e, gs)
      | Inr gs1 \<Rightarrow>
          (let (acquired, row) = acquire_import_lock (sr_timeout sr) (sr_now1 sr) (sr_now2 sr) (sr_race1 sr) (sr_race2 sr)
                 (gs_lock gs1 household_id);
               gs2 = gs1\<lparr>gs_lock := (gs_lock gs1)(household_id := row)\<rparr>
           in case acquired of
                Inl e \<Rightarrow> (Inl e, release_process_guard sr household_id mode gs2)
              | Inr t \<Rightarrow>
                  (let (failed, lease) = last_lease sr mode t;
                       row' = sr_meanwhile sr row;
                       (result, d') = guarded_result ie household_id loaded mode n
                          (\<not> failed \<and> is_import_lock_current lease row') (gs_db gs2)
                   in (result, release_process_guard sr household_id mode
                         (gs2\<lparr>gs_db := d', gs_lock := (gs_lock gs2)(household_id := release_import_lock lease row')\<rparr>)))))"

lemma guarded_result_cases:
  assumes "guarded_result ie h ld mode n kept d = (r, d')"
  shows "(\<exists>e. r = Inl e) \<longrightarrow> d' = d"
    and "r = Inr rep \<Longrightarrow> mode = Dry_run \<Longrightarrow> d' = d"
    and "r = Inr rep \<Longrightarrow> mode = Apply \<Longrightarrow> kept \<and>
      (\<exists>st live. run_import ie h ld Apply \<lparr>im_db = d, im_next = n\<rparr> = Inr (rep, st, live) \<and> commit_import ie st live = Some d')"
proof -
  have a: "(case r of Inl e \<Rightarrow> d' = d
    | Inr rep \<Rightarrow> (if mode = Dry_run then d' = d
        else kept \<and> (\<exists>st live. run_import ie h ld mode \<lparr>im_db = d, im_next = n\<rparr> = Inr (rep, st, live)
          \<and> commit_import ie st live = Some d')))"
    using assms by (auto simp: guarded_result_def split: sum.splits prod.splits if_splits option.splits)
  then show "(\<exists>e. r = Inl e) \<longrightarrow> d' = d" by auto
  show "r = Inr rep \<Longrightarrow> mode = Dry_run \<Longrightarrow> d' = d" using a by simp
  show "r = Inr rep \<Longrightarrow> mode = Apply \<Longrightarrow> kept \<and>
      (\<exists>st live. run_import ie h ld Apply \<lparr>im_db = d, im_next = n\<rparr> = Inr (rep, st, live) \<and> commit_import ie st live = Some d')"
    using a by simp
qed

lemma process_guard_roundtrip:
  assumes "acquire_process_guard sr h mode gs = Inr gs1"
  shows "gs_db gs1 = gs_db gs" "gs_lock gs1 = gs_lock gs"
    "gs_registry (release_process_guard sr h mode (gs1\<lparr>gs_db := d, gs_lock := l\<rparr>)) = gs_registry gs"
    "gs_registry (release_process_guard sr h mode (gs1\<lparr>gs_lock := l\<rparr>)) = gs_registry gs"
  using assms by (auto simp: acquire_process_guard_def release_process_guard_def Let_def split: if_splits)

lemma release_process_guard_keeps [simp]:
  "gs_db (release_process_guard sr h mode gs) = gs_db gs" "gs_lock (release_process_guard sr h mode gs) = gs_lock gs"
  by (simp_all add: release_process_guard_def)

subsection \<open>Several jobs\<close>

text \<open>
  The database sessions of the jobs of one household, each an atomic step at a time that does not
  go back.  \<open>Holding a\<close>: the job believes in the lease \<open>a\<close>; \<open>Checked a\<close>: it has found the lease in the
  row and is about to commit.  A job may end or crash at any time.
\<close>

datatype lock_phase = Lk_idle | Lk_stale instant | Lk_free | Holding instant | Checked instant | Lk_lost instant

record lock_world =
  lw_row :: lock_row
  lw_now :: instant
  lw_jobs :: "nat \<Rightarrow> lock_phase"

definition lock_start :: "instant \<Rightarrow> lock_world" where
  "lock_start t0 = \<lparr>lw_row = None, lw_now = t0, lw_jobs = (\<lambda>_. Lk_idle)\<rparr>"

definition set_job :: "nat \<Rightarrow> lock_phase \<Rightarrow> lock_world \<Rightarrow> lock_world" where
  "set_job j p w = w\<lparr>lw_jobs := (lw_jobs w)(j := p)\<rparr>"

inductive lock_step :: "int \<Rightarrow> lock_world \<Rightarrow> lock_world \<Rightarrow> bool" for timeout where
  tick: "lw_now w \<le> t \<Longrightarrow> lock_step timeout w (w\<lparr>lw_now := t\<rparr>)"
| look: "lw_jobs w j = Lk_idle \<Longrightarrow>
    lock_step timeout w (set_job j (case read_lock timeout (lw_now w) (lw_row w) of
        Lock_free \<Rightarrow> Lk_free | Lock_stale a \<Rightarrow> Lk_stale a | Lock_busy \<Rightarrow> Lk_idle) w)"
| take_over: "lw_jobs w j = Lk_stale a \<Longrightarrow>
    lock_step timeout w (set_job j (if lw_row w = Some a then Lk_free else Lk_idle) (w\<lparr>lw_row := delete_if_at a (lw_row w)\<rparr>))"
| insert: "lw_jobs w j = Lk_free \<Longrightarrow>
    lock_step timeout w (case insert_lock (lw_now w) (lw_row w) of
        None \<Rightarrow> set_job j Lk_idle w
      | Some row \<Rightarrow> set_job j (Holding (lw_now w)) (w\<lparr>lw_row := row\<rparr>))"
| renew: "lw_jobs w j = Holding a \<Longrightarrow>
    lock_step timeout w (case renew_import_lock_lease a (lw_now w) (lw_row w) of
        None \<Rightarrow> set_job j (Lk_lost a) w
      | Some row \<Rightarrow> set_job j (Holding (lw_now w)) (w\<lparr>lw_row := row\<rparr>))"
| check: "lw_jobs w j = Holding a \<Longrightarrow>
    lock_step timeout w (set_job j (if is_import_lock_current a (lw_row w) then Checked a else Lk_lost a) w)"
| release: "lw_jobs w j \<in> {Holding a, Checked a, Lk_lost a} \<Longrightarrow>
    lock_step timeout w (set_job j Lk_idle (w\<lparr>lw_row := release_import_lock a (lw_row w)\<rparr>))"
| crash: "lock_step timeout w (set_job j Lk_idle w)"

definition lease_of :: "lock_phase \<Rightarrow> instant option" where
  "lease_of p = (case p of Holding a \<Rightarrow> Some a | Checked a \<Rightarrow> Some a | Lk_lost a \<Rightarrow> Some a | _ \<Rightarrow> None)"

definition old_lease :: "int \<Rightarrow> instant \<Rightarrow> instant \<Rightarrow> bool" where
  "old_lease timeout a t \<longleftrightarrow> a + seconds (lock_timeout_seconds timeout) < t"

text \<open>
  A lease that is not in the row was taken over when it was old; two leases are a timeout apart.
\<close>

definition lock_inv :: "int \<Rightarrow> lock_world \<Rightarrow> bool" where
  "lock_inv timeout w \<longleftrightarrow>
     (\<forall>b. lw_row w = Some b \<longrightarrow> b \<le> lw_now w)
     \<and> (\<forall>j a. lw_jobs w j = Lk_stale a \<longrightarrow> old_lease timeout a (lw_now w))
     \<and> (\<forall>j a. lease_of (lw_jobs w j) = Some a \<longrightarrow>
          (case lw_row w of None \<Rightarrow> old_lease timeout a (lw_now w) | Some b \<Rightarrow> a = b \<or> old_lease timeout a b))
     \<and> (\<forall>i j a b. i \<noteq> j \<longrightarrow> lease_of (lw_jobs w i) = Some a \<longrightarrow> lease_of (lw_jobs w j) = Some b \<longrightarrow>
          old_lease timeout a b \<or> old_lease timeout b a)"

lemma old_lease_later: "old_lease timeout a t \<Longrightarrow> t \<le> t' \<Longrightarrow> old_lease timeout a t'"
  by (simp add: old_lease_def)

lemma old_lease_irrefl: "\<not> old_lease timeout a a"
  by (simp add: old_lease_def seconds_def lock_timeout_seconds_def)

lemma lease_of_simps [simp]:
  "lease_of Lk_idle = None" "lease_of (Lk_stale a) = None" "lease_of Lk_free = None"
  "lease_of (Holding a) = Some a" "lease_of (Checked a) = Some a" "lease_of (Lk_lost a) = Some a"
  by (simp_all add: lease_of_def)

lemma lock_invD:
  assumes "lock_inv timeout w"
  shows "lw_row w = Some b \<Longrightarrow> b \<le> lw_now w"
    and "lw_jobs w j = Lk_stale a \<Longrightarrow> old_lease timeout a (lw_now w)"
    and "lease_of (lw_jobs w j) = Some a \<Longrightarrow> lw_row w = None \<Longrightarrow> old_lease timeout a (lw_now w)"
    and "lease_of (lw_jobs w j) = Some a \<Longrightarrow> lw_row w = Some b \<Longrightarrow> a = b \<or> old_lease timeout a b"
    and "i \<noteq> j \<Longrightarrow> lease_of (lw_jobs w i) = Some a \<Longrightarrow> lease_of (lw_jobs w j) = Some b \<Longrightarrow>
      old_lease timeout a b \<or> old_lease timeout b a"
  using assms unfolding lock_inv_def by (auto split: option.splits)

lemma lock_invI:
  assumes "\<And>b. lw_row w = Some b \<Longrightarrow> b \<le> lw_now w"
    and "\<And>j a. lw_jobs w j = Lk_stale a \<Longrightarrow> old_lease timeout a (lw_now w)"
    and "\<And>j a. lease_of (lw_jobs w j) = Some a \<Longrightarrow> lw_row w = None \<Longrightarrow> old_lease timeout a (lw_now w)"
    and "\<And>j a b. lease_of (lw_jobs w j) = Some a \<Longrightarrow> lw_row w = Some b \<Longrightarrow> a = b \<or> old_lease timeout a b"
    and "\<And>i j a b. i \<noteq> j \<Longrightarrow> lease_of (lw_jobs w i) = Some a \<Longrightarrow> lease_of (lw_jobs w j) = Some b \<Longrightarrow>
      old_lease timeout a b \<or> old_lease timeout b a"
  shows "lock_inv timeout w"
  using assms unfolding lock_inv_def by (auto split: option.splits)

text \<open>A job that gives up its lease, or keeps it, with the row as it was.\<close>

lemma lock_inv_weaker:
  assumes "lock_inv timeout w" "lease_of p \<in> {None, lease_of (lw_jobs w j)}"
    and "\<And>a. p = Lk_stale a \<Longrightarrow> old_lease timeout a (lw_now w)"
  shows "lock_inv timeout (set_job j p w)"
proof -
  have l: "lease_of (lw_jobs w i) = Some a" if "lease_of (lw_jobs (set_job j p w) i) = Some a" for i a
    using that assms(2) by (auto simp: set_job_def split: if_splits)
  have same: "lw_row (set_job j p w) = lw_row w" "lw_now (set_job j p w) = lw_now w"
    by (simp_all add: set_job_def)
  show ?thesis
  proof (rule lock_invI, unfold same, goal_cases)
    case (2 i b)
    with assms(3) lock_invD(2) [OF assms(1)] show ?case by (auto simp: set_job_def split: if_splits)
  qed (use lock_invD(1,3,4,5) [OF assms(1)] l in blast)+
qed

text \<open>The row is emptied: by a takeover of an old lease, or by the holder.\<close>

lemma lock_inv_delete:
  assumes "lock_inv timeout w" "lease_of p = None" "\<And>a. p = Lk_stale a \<Longrightarrow> old_lease timeout a (lw_now w)"
    and "old_lease timeout a (lw_now w) \<or> lease_of (lw_jobs w j) = Some a"
  shows "lock_inv timeout (set_job j p (w\<lparr>lw_row := delete_if_at a (lw_row w)\<rparr>))"
proof (cases "lw_row w = Some a")
  case False
  with lock_inv_weaker [OF assms(1), of p j] assms(2,3) show ?thesis
    by (simp add: delete_if_at_def)
next
  case True
  have old: "old_lease timeout b (lw_now w)" if "lease_of (lw_jobs w i) = Some b" "i \<noteq> j" for i b
  proof -
    from lock_invD(4) [OF assms(1) that(1) True] consider "b = a" | "old_lease timeout b a" by blast
    then show ?thesis
    proof cases
      case 1
      show ?thesis
      proof (rule ccontr)
        assume no: "\<not> old_lease timeout b (lw_now w)"
        with assms(4) 1 have "lease_of (lw_jobs w j) = Some a" by simp
        from lock_invD(5) [OF assms(1) that(2,1) this] 1 old_lease_irrefl show False by blast
      qed
    next
      case 2
      from this lock_invD(1) [OF assms(1) True] show ?thesis by (rule old_lease_later)
    qed
  qed
  show ?thesis
  proof (rule lock_invI, goal_cases)
    case (2 i b)
    with assms(3) lock_invD(2) [OF assms(1)] show ?case by (auto simp: set_job_def split: if_splits)
  next
    case (3 i b)
    with old assms(2) show ?case by (auto simp: set_job_def split: if_splits)
  next
    case (5 i k b c)
    with lock_invD(5) [OF assms(1)] assms(2) show ?case by (auto simp: set_job_def split: if_splits)
  qed (auto simp: set_job_def True delete_if_at_def)
qed

text \<open>A job writes the present time into the row, as its first lease or its next one.\<close>

lemma lock_inv_write:
  assumes "lock_inv timeout w"
    and "lw_row w = None \<or> (\<exists>a. lw_row w = Some a \<and> lease_of (lw_jobs w j) = Some a)"
  shows "lock_inv timeout (set_job j (Holding (lw_now w)) (w\<lparr>lw_row := Some (lw_now w)\<rparr>))"
proof -
  have old: "old_lease timeout b (lw_now w)" if "lease_of (lw_jobs w i) = Some b" "i \<noteq> j" for i b
  proof (cases "lw_row w")
    case None
    with lock_invD(3) [OF assms(1) that(1)] show ?thesis by simp
  next
    case (Some a)
    with assms(2) have "lease_of (lw_jobs w j) = Some a" by simp
    from lock_invD(5) [OF assms(1) that(2,1) this] lock_invD(4) [OF assms(1) that(1) Some] old_lease_irrefl
    have "old_lease timeout b a" by blast
    from this lock_invD(1) [OF assms(1) Some] show ?thesis by (rule old_lease_later)
  qed
  show ?thesis
  proof (rule lock_invI, goal_cases)
    case (2 i b)
    with lock_invD(2) [OF assms(1)] show ?case by (auto simp: set_job_def split: if_splits)
  next
    case (4 i b c)
    with old show ?case by (auto simp: set_job_def split: if_splits)
  next
    case (5 i k b c)
    with lock_invD(5) [OF assms(1)] old show ?case by (auto simp: set_job_def split: if_splits)
  qed (auto simp: set_job_def)
qed

lemma lock_step_inv: "lock_step timeout w w' \<Longrightarrow> lock_inv timeout w \<Longrightarrow> lock_inv timeout w'"
proof (induction rule: lock_step.induct)
  case (tick w t)
  have later: "old_lease timeout a (lw_now w) \<Longrightarrow> old_lease timeout a t" for a
    using tick.hyps by (rule old_lease_later [rotated])
  have "b \<le> t" if "lw_row w = Some b" for b
    using lock_invD(1) [OF tick.prems that] tick.hyps by (rule order_trans)
  then show ?case
    using lock_invD(2-5) [OF tick.prems] later by (intro lock_invI) auto
next
  case (look w j)
  then show ?case
    by (intro lock_inv_weaker)
      (auto simp: read_lock_def old_lease_def split: lock_state.splits option.splits if_splits)
next
  case (take_over w j a)
  from lock_invD(2) [OF take_over.prems take_over.hyps] show ?case
    by (intro lock_inv_delete take_over.prems) (auto split: if_splits)
next
  case (insert w j)
  show ?case
  proof (cases "lw_row w")
    case None
    with lock_inv_write [OF insert.prems, of j] show ?thesis by (simp add: insert_lock_def)
  next
    case (Some b)
    with lock_inv_weaker [OF insert.prems, of Lk_idle j] show ?thesis by (simp add: insert_lock_def)
  qed
next
  case (renew w j a)
  show ?case
  proof (cases "lw_row w = Some a")
    case True
    with lock_inv_write [OF renew.prems, of j] renew.hyps show ?thesis by (simp add: renew_import_lock_lease_def)
  next
    case False
    with lock_inv_weaker [OF renew.prems, of "Lk_lost a" j] renew.hyps show ?thesis
      by (simp add: renew_import_lock_lease_def)
  qed
next
  case (check w j a)
  then show ?case by (intro lock_inv_weaker) (auto split: if_splits)
next
  case (release w j a)
  then have "lease_of (lw_jobs w j) = Some a" by auto
  with release.prems show ?case
    unfolding release_import_lock_def by (intro lock_inv_delete) auto
next
  case (crash w j)
  then show ?case by (intro lock_inv_weaker) auto
qed

text \<open>C30 (one import at a time, within the timeout): two jobs that both believe in their lease have
leases more than the timeout (at least thirty seconds) apart.  A job that has found its lease in the
row still has it there until the timeout after its last renewal has passed, and every other job that
believes in a lease then has one that is older by more than the timeout.  A job that stalls for longer
between its check and its commit is not covered: it commits without holding the lock.\<close>

theorem import_lock_exclusion:
  assumes "(lock_step timeout)\<^sup>*\<^sup>* (lock_start t0) w"
  shows "(\<forall>i j a b. i \<noteq> j \<longrightarrow> lw_jobs w i \<in> {Holding a, Checked a} \<longrightarrow> lw_jobs w j \<in> {Holding b, Checked b} \<longrightarrow>
        seconds (lock_timeout_seconds timeout) < \<bar>a - b\<bar>)
    \<and> (\<forall>i a. lw_jobs w i = Checked a \<longrightarrow> lw_now w \<le> a + seconds (lock_timeout_seconds timeout) \<longrightarrow>
        lw_row w = Some a \<and> (\<forall>j b. j \<noteq> i \<longrightarrow> lw_jobs w j \<in> {Holding b, Checked b} \<longrightarrow>
          b + seconds (lock_timeout_seconds timeout) < a))"
proof -
  have inv: "lock_inv timeout w"
  proof (rule rtranclp_keeps [where P = "lock_inv timeout", OF assms])
    show "lock_inv timeout (lock_start t0)" by (simp add: lock_inv_def lock_start_def)
  qed (rule lock_step_inv)
  have lease: "lease_of (lw_jobs w i) = Some a" if "lw_jobs w i \<in> {Holding a, Checked a}" for i a
    using that by auto
  have pos: "0 < seconds (lock_timeout_seconds timeout)"
    by (simp add: seconds_def lock_timeout_seconds_def)
  have apart: "seconds (lock_timeout_seconds timeout) < \<bar>a - b\<bar>"
    if "i \<noteq> j" "lw_jobs w i \<in> {Holding a, Checked a}" "lw_jobs w j \<in> {Holding b, Checked b}" for i j a b
    using lock_invD(5) [OF inv that(1) lease [OF that(2)] lease [OF that(3)]] pos by (auto simp: old_lease_def)
  have row: "lw_row w = Some a \<and> (\<forall>j b. j \<noteq> i \<longrightarrow> lw_jobs w j \<in> {Holding b, Checked b} \<longrightarrow>
          b + seconds (lock_timeout_seconds timeout) < a)"
    if c: "lw_jobs w i = Checked a" "lw_now w \<le> a + seconds (lock_timeout_seconds timeout)" for i a
  proof -
    have l: "lease_of (lw_jobs w i) = Some a" using c(1) by simp
    have r: "lw_row w = Some a"
    proof (cases "lw_row w")
      case None
      with lock_invD(3) [OF inv l None] c(2) show ?thesis by (simp add: old_lease_def)
    next
      case (Some b)
      with lock_invD(4) [OF inv l Some] lock_invD(1) [OF inv Some] c(2) show ?thesis by (auto simp: old_lease_def)
    qed
    moreover have "b + seconds (lock_timeout_seconds timeout) < a"
      if "j \<noteq> i" "lw_jobs w j \<in> {Holding b, Checked b}" for j b
      using lock_invD(4) [OF inv lease [OF that(2)] r] lock_invD(5) [OF inv that(1) lease [OF that(2)] l] old_lease_irrefl
      by (auto simp: old_lease_def)
    ultimately show ?thesis by blast
  qed
  show ?thesis using apart row by blast
qed

text \<open>A run: job 0 acquires the lock, job 1 is refused, job 0 checks its lease.\<close>

lemma sample_lock_run:
  "(lock_step 600)\<^sup>*\<^sup>* (lock_start 7)
     \<lparr>lw_row = Some 7, lw_now = 7, lw_jobs = (\<lambda>_. Lk_idle)(0 := Checked 7)\<rparr>"
proof -
  have 1: "lock_step 600 (lock_start 7) (set_job 0 Lk_free (lock_start 7))"
    using lock_step.look [of "lock_start 7" 0 600] by (simp add: lock_start_def read_lock_def)
  have 2: "lock_step 600 (set_job 0 Lk_free (lock_start 7)) (set_job 0 (Holding 7) ((lock_start 7)\<lparr>lw_row := Some 7\<rparr>))"
    using lock_step.insert [of "set_job 0 Lk_free (lock_start 7)" 0 600]
    by (simp add: lock_start_def set_job_def insert_lock_def)
  have 3: "lock_step 600 (set_job 0 (Holding 7) ((lock_start 7)\<lparr>lw_row := Some 7\<rparr>))
      \<lparr>lw_row = Some 7, lw_now = 7, lw_jobs = (\<lambda>_. Lk_idle)(0 := Checked 7)\<rparr>"
    using lock_step.check [of "set_job 0 (Holding 7) ((lock_start 7)\<lparr>lw_row := Some 7\<rparr>)" 0 7 600]
    by (simp add: lock_start_def set_job_def is_import_lock_current_def)
  show ?thesis
  proof (rule converse_rtranclp_into_rtranclp [where r = "lock_step 600"], rule 1)
    show "(lock_step 600)\<^sup>*\<^sup>* (set_job 0 Lk_free (lock_start 7))
        \<lparr>lw_row = Some 7, lw_now = 7, lw_jobs = (\<lambda>_. Lk_idle)(0 := Checked 7)\<rparr>"
      using rtranclp.rtrancl_into_rtrancl [where r = "lock_step 600", OF rtranclp.rtrancl_into_rtrancl
          [where r = "lock_step 600", OF rtranclp.rtrancl_refl 2] 3] .
  qed
qed

lemma import_lock_exclusion_witness:
  "lw_row \<lparr>lw_row = Some 7, lw_now = 7, lw_jobs = (\<lambda>_. Lk_idle)(0 := Checked 7)\<rparr> = Some (7 :: instant)"
proof -
  have "seconds (lock_timeout_seconds 600) = 600000000"
    by (simp add: seconds_def lock_timeout_seconds_def)
  from import_lock_exclusion [OF sample_lock_run] this show ?thesis by (simp add: fun_upd_apply)
qed

text \<open>C31 (a guarded import is all or nothing): whatever happens to the lock row meanwhile, an error leaves the
data as it was and is one of five; an answer to a dry run changes nothing, an answer to an applied import has committed
exactly what the importer made of the data it started from; the lease of the job is gone from the row, other households'
rows and the process registry are as before.\<close>

theorem guarded_import_all_or_nothing:
  shows "case run_import_with_guard ie sr h ld mode n gs of (result, gs') \<Rightarrow>
      (case result of
         Inl e \<Rightarrow> gs_db gs' = gs_db gs
           \<and> e \<in> {already_running, AppError 409 ''IMPORT_LOCK_LOST'', AppError 500 ''IMPORT_PROCESS_INTERNAL_ERROR'',
                   AppError 400 ''IMPORT_WORKBOOK_TOO_MANY_SHEETS'', AppError 400 ''IMPORT_WORKBOOK_INVALID''}
       | Inr rep \<Rightarrow>
           (if mode = Dry_run then gs_db gs' = gs_db gs
            else \<exists>st live. run_import ie h ld Apply \<lparr>im_db = gs_db gs, im_next = n\<rparr> = Inr (rep, st, live)
                   \<and> commit_import ie st live = Some (gs_db gs'))
           \<and> gs_lock gs' h \<noteq> Some (snd (last_lease sr mode (sr_now2 sr))))
      \<and> gs_registry gs' = gs_registry gs \<and> (gs_lock gs')(h := None) = (gs_lock gs)(h := None)"
proof (cases "acquire_process_guard sr h mode gs")
  case (Inl e)
  then have "e = already_running" by (auto simp: acquire_process_guard_def Let_def split: if_splits)
  with Inl show ?thesis by (simp add: run_import_with_guard_def)
next
  case (Inr gs1)
  note g = process_guard_roundtrip [OF Inr]
  obtain acquired row where a: "acquire_import_lock (sr_timeout sr) (sr_now1 sr) (sr_now2 sr) (sr_race1 sr) (sr_race2 sr)
      (gs_lock gs1 h) = (acquired, row)" by fastforce
  show ?thesis
  proof (cases acquired)
    case (Inl e)
    with a have "e = already_running"
      by (auto simp: acquire_import_lock_def Let_def split: lock_state.splits option.splits if_splits)
    moreover have "run_import_with_guard ie sr h ld mode n gs
        = (Inl e, release_process_guard sr h mode (gs1\<lparr>gs_lock := (gs_lock gs1)(h := row)\<rparr>))"
      by (simp add: run_import_with_guard_def Inr a Inl)
    ultimately show ?thesis by (simp add: g)
  next
    case t: (Inr t)
    with a have now: "t = sr_now2 sr"
      by (auto simp: acquire_import_lock_def Let_def split: lock_state.splits option.splits if_splits)
    obtain failed lease where l: "last_lease sr mode t = (failed, lease)" by fastforce
    let ?row = "sr_meanwhile sr row"
    obtain result d' where r: "guarded_result ie h ld mode n (\<not> failed \<and> is_import_lock_current lease ?row) (gs_db gs) = (result, d')"
      by fastforce
    have run: "run_import_with_guard ie sr h ld mode n gs = (result, release_process_guard sr h mode
        (gs1\<lparr>gs_db := d', gs_lock := (gs_lock gs1)(h := release_import_lock lease ?row)\<rparr>))"
      by (simp add: run_import_with_guard_def Inr a t l r g(1) Let_def)
    have gone: "release_import_lock lease ?row \<noteq> Some lease"
      by (simp add: release_import_lock_def delete_if_at_def)
    show ?thesis
    proof (cases result)
      case (Inl e)
      with r have "d' = gs_db gs \<and> e \<in> {AppError 409 ''IMPORT_LOCK_LOST'', AppError 500 ''IMPORT_PROCESS_INTERNAL_ERROR'',
                   AppError 400 ''IMPORT_WORKBOOK_TOO_MANY_SHEETS'', AppError 400 ''IMPORT_WORKBOOK_INVALID''}"
        by (auto simp: guarded_result_def import_error_def split: sum.splits prod.splits if_splits option.splits import_exn.splits)
      with Inl show ?thesis by (simp add: run g(2,3))
    next
      case (Inr rep)
      with guarded_result_cases(2,3) [OF r Inr] l gone
        g(3) [of "(gs_lock gs1)(h := release_import_lock lease ?row)" d'] show ?thesis
        unfolding run by (cases mode) (simp_all add: g(2) now)
    qed
  qed
qed

end
