(* ===== verification/Migration_Package.thy ===== *)
theory Migration_Package
  imports Household Number_Text Workbook_Apply
begin

text \<open>
  The household transfer package, \<open>backend/app/services/migration_package.py\<close>: the JSON document an
  export writes, the ZIP archive around it with its manifest, and \<open>load_package\<close> with the
  validators of the document.  The ZIP format, the JSON text and SHA-256 are parameters, and so are
  what pydantic makes of an integer, a date or a time stamp in a JSON document and \<open>str\<close> of a value that is
  not a text.
\<close>

subsection \<open>What the standard library and pydantic do\<close>

datatype zip_read = Data pystr | Bad_member | Unreadable

record zip_member =
  zm_filename :: pystr
  zm_file_size :: int
  zm_data :: zip_read

datatype zip_file = Bad_zip | Zip "zip_member list"

record package_env =
  pe_open_zip :: "pystr \<Rightarrow> zip_file"
  pe_write_zip :: "(pystr \<times> pystr) list \<Rightarrow> pystr"
  pe_dumps :: "json \<Rightarrow> pystr"
  pe_parse :: "pystr \<Rightarrow> json option"
  pe_sha256 :: "pystr \<Rightarrow> pystr"
  pe_str :: "json \<Rightarrow> pystr"
  pe_int :: "json \<Rightarrow> int option"
  pe_date :: "json \<Rightarrow> date option"
  pe_datetime_ok :: "json \<Rightarrow> bool"
  pe_now_iso :: pystr
  pe_stamp :: pystr
  pe_env_name :: pystr
  pe_max_zip_entries :: int
  pe_max_uncompressed_bytes :: int

text \<open>\<open>json.dumps(\<dots>, sort_keys=True)\<close> writes the objects in the order of their keys.\<close>

function sort_json :: "json \<Rightarrow> json" where
  "sort_json (JObj kvs) = JObj (sort_key fst (map (\<lambda>kv. (fst kv, sort_json (snd kv))) kvs))"
| "sort_json (JList xs) = JList (map sort_json xs)"
| "sort_json JNull = JNull"
| "sort_json (JBool b) = JBool b"
| "sort_json (JInt n) = JInt n"
| "sort_json (JFloat r) = JFloat r"
| "sort_json (JStr s) = JStr s"
  by pat_completeness auto
termination
proof (relation "measure size", goal_cases)
  case (2 kvs kv)
  then have "size (snd kv) < Suc (size_list (size_prod (\<lambda>x. 0) size) kvs)"
    by (induction kvs) (auto simp: less_Suc_eq)
  then show ?case by simp
next
  case (3 xs x)
  then have "size x < Suc (size_list size xs)" by (induction xs) (auto simp: less_Suc_eq)
  then show ?case by simp
qed simp

definition dump_json :: "package_env \<Rightarrow> json \<Rightarrow> pystr" where
  "dump_json pe j = pe_dumps pe (sort_json j)"

text \<open>An error of the handler itself, or any other exception.\<close>

datatype package_exn = Refused http_error | Unexpected

subsection \<open>Numbers and names\<close>

definition decimal_to_text :: "rat \<Rightarrow> pystr option" where
  "decimal_to_text v =
     (let n = round_half_even (v * 10 ^ 8)
      in if \<bar>n\<bar> < 10 ^ 28 then Some (fixed_text (of_int n / 10 ^ 8)) else None)"

definition file_char :: "int \<Rightarrow> bool" where
  "file_char c \<longleftrightarrow> digit_cp c \<or> (65 \<le> c \<and> c \<le> 90) \<or> (97 \<le> c \<and> c \<le> 122) \<or> c \<in> {45, 46, 95}"

text \<open>\<open>_FILE_NAME_SAFE_RE.sub("-", text)\<close>.\<close>

fun safe_runs :: "bool \<Rightarrow> pystr \<Rightarrow> pystr" where
  "safe_runs inside [] = []"
| "safe_runs inside (c # cs) =
     (if file_char c then c # safe_runs False cs else (if inside then [] else [45]) @ safe_runs True cs)"

definition sanitize_filename_token :: "pystr \<Rightarrow> pystr \<Rightarrow> pystr" where
  "sanitize_filename_token value fallback =
     (let t = take 32 (py_lower (strip_by (\<lambda>c. c = 45) (safe_runs False (py_strip value))))
      in if t = [] then fallback else t)"

definition invalid_package :: package_exn where
  "invalid_package = Refused (AppError 400 ''MIGRATION_PACKAGE_INVALID'')"

text \<open>A comparison with \<open>NaN\<close> raises \<open>InvalidOperation\<close> outside the handler.\<close>

definition parse_decimal_where :: "(rat \<Rightarrow> bool) \<Rightarrow> pystr \<Rightarrow> package_exn + rat" where
  "parse_decimal_where ok value =
     (case py_decimal (py_strip value) of
        None \<Rightarrow> Inl invalid_package
      | Some NaN \<Rightarrow> Inl Unexpected
      | Some (Num q) \<Rightarrow> if ok q then Inr q else Inl invalid_package)"

definition parse_positive_decimal :: "pystr \<Rightarrow> package_exn + rat" where
  "parse_positive_decimal = parse_decimal_where (\<lambda>q. 0 < q)"

definition parse_non_negative_decimal :: "pystr \<Rightarrow> package_exn + rat" where
  "parse_non_negative_decimal = parse_decimal_where (\<lambda>q. 0 \<le> q)"

definition parse_positive_krw_transaction_amount :: "pystr \<Rightarrow> package_exn + rat" where
  "parse_positive_krw_transaction_amount value =
     (case parse_positive_decimal value of
        Inl e \<Rightarrow> Inl e
      | Inr q \<Rightarrow> if q = of_int \<lfloor>q\<rfloor> then Inr q else Inl invalid_package)"

subsection \<open>The document\<close>

record package_category =
  pc_flow_type :: flow_type
  pc_major :: pystr
  pc_minor :: pystr
  pc_sort_order :: int

record package_transaction =
  pk_occurred_on :: date
  pk_flow_type :: flow_type
  pk_category_major :: pystr
  pk_category_minor :: pystr
  pk_amount :: pystr
  pk_installment_months :: "int option"
  pk_currency :: pystr
  pk_memo :: pystr
  pk_owner_name :: "pystr option"
  pk_source_ref :: pystr
  pk_order_key :: "int option"

record package_holding =
  pg_asset_type :: asset_type
  pg_symbol :: pystr
  pg_market_symbol :: pystr
  pg_name :: pystr
  pg_type_key :: "pystr option"
  pg_category :: pystr
  pg_owner_name :: "pystr option"
  pg_account_name :: pystr
  pg_quantity :: pystr
  pg_average_cost :: pystr
  pg_currency :: pystr
  pg_display_order :: int
  pg_source_ref :: pystr

record package_payload =
  pp_schema_version :: int
  pp_source_env :: pystr
  pp_source_household_id :: pystr
  pp_source_household_name :: pystr
  pp_name :: pystr
  pp_base_currency :: pystr
  pp_transaction_row_colors :: "(pystr \<times> pystr) list"
  pp_holding_settings :: "(pystr \<times> json) list"
  pp_categories :: "package_category list"
  pp_transactions :: "package_transaction list"
  pp_holdings :: "package_holding list"

record package_manifest =
  pm_kind :: pystr
  pm_schema_version :: int
  pm_payload_sha256 :: pystr
  pm_payload_size_bytes :: int

subsection \<open>Export\<close>

text \<open>\<open>str(value or fallback).strip()\<close>, and the currency texts.\<close>

definition text_of :: "pystr option \<Rightarrow> pystr" where
  "text_of v = py_strip (case v of Some s \<Rightarrow> s | None \<Rightarrow> [])"

definition export_currency :: "pystr \<Rightarrow> pystr" where
  "export_currency c =
     (let t = take 8 (py_upper (py_strip (if c = [] then lit ''KRW'' else c))) in if t = [] then lit ''KRW'' else t)"

definition etc_text :: pystr where
  "etc_text = [44592, 53440]"

definition or_else :: "pystr \<Rightarrow> pystr \<Rightarrow> pystr" where
  "or_else t dflt = (if t = [] then dflt else t)"

definition json_opt :: "('a \<Rightarrow> json) \<Rightarrow> 'a option \<Rightarrow> json" where
  "json_opt f v = (case v of None \<Rightarrow> JNull | Some x \<Rightarrow> f x)"

definition or_default :: "int \<Rightarrow> int \<Rightarrow> int" where
  "or_default n dflt = (if n = 0 then dflt else n)"

definition none_if_zero :: "int \<Rightarrow> int option" where
  "none_if_zero n = (if n = 0 then None else Some n)"

definition export_categories :: "db \<Rightarrow> pystr \<Rightarrow> category list" where
  "export_categories d household_id =
     sort_key (\<lambda>c. (lit (flow_value (ct_flow_type c)), ct_major c, ct_minor c))
       (filter (\<lambda>c. ct_household_id c = household_id) (db_categories d))"

definition export_transactions :: "db \<Rightarrow> pystr \<Rightarrow> transaction list" where
  "export_transactions d household_id =
     sort_key (\<lambda>t. (tx_occurred_on t, tx_order_key t, tx_created_at t, tx_id t))
       (filter (\<lambda>t. tx_household_id t = household_id) (db_transactions d))"

definition export_holdings :: "db \<Rightarrow> pystr \<Rightarrow> holding list" where
  "export_holdings d household_id =
     sort_key (\<lambda>x. (hd_display_order x, hd_updated_at x, hd_id x))
       (filter (\<lambda>x. hd_household_id x = household_id) (db_holdings d))"

definition category_json :: "category \<Rightarrow> json" where
  "category_json c = JObj
     [(lit ''flow_type'', JStr (lit (flow_value (ct_flow_type c)))), (lit ''major'', JStr (py_strip (ct_major c))),
      (lit ''minor'', JStr (py_strip (ct_minor c))), (lit ''sort_order'', JInt (or_default (ct_sort_order c) 100))]"

text \<open>\<open>item.category\<close>: the row the category link names.\<close>

definition category_of :: "db \<Rightarrow> transaction \<Rightarrow> category option" where
  "category_of d t = Option.bind (tx_category_id t) (\<lambda>i. row_get ct_id i (db_categories d))"

definition export_major :: "db \<Rightarrow> transaction \<Rightarrow> pystr" where
  "export_major d t = or_else (text_of (map_option ct_major (category_of d t))) etc_text"

definition export_minor :: "db \<Rightarrow> transaction \<Rightarrow> pystr" where
  "export_minor d t = or_else (text_of (map_option ct_minor (category_of d t))) etc_text"

definition export_tx_ref :: "transaction \<Rightarrow> pystr" where
  "export_tx_ref t = or_else (text_of (tx_source_ref t)) (lit ''migration:tx:'' @ tx_id t)"

definition transaction_json :: "db \<Rightarrow> transaction \<Rightarrow> json option" where
  "transaction_json d t =
     map_option (\<lambda>amount. JObj
       [(lit ''occurred_on'', JStr (iso_date (tx_occurred_on t))),
        (lit ''flow_type'', JStr (lit (flow_value (tx_flow_type t)))),
        (lit ''category_major'', JStr (export_major d t)), (lit ''category_minor'', JStr (export_minor d t)),
        (lit ''amount'', JStr amount), (lit ''installment_months'', json_opt JInt (tx_installment_months t)),
        (lit ''currency'', JStr (export_currency (tx_currency t))), (lit ''memo'', JStr (tx_memo t)),
        (lit ''owner_name'', json_opt JStr (normalize_optional_text (tx_owner_name t))),
        (lit ''source_ref'', JStr (export_tx_ref t)), (lit ''order_key'', json_opt JInt (none_if_zero (tx_order_key t)))])
       (decimal_to_text (tx_amount t))"

definition export_hd_ref :: "holding \<Rightarrow> pystr" where
  "export_hd_ref x = or_else (text_of (hd_source_ref x)) (lit ''migration:holding:'' @ hd_id x)"

definition holding_json :: "holding \<Rightarrow> json option" where
  "holding_json x =
     (case (decimal_to_text (hd_quantity x), decimal_to_text (hd_average_cost x)) of
        (Some quantity, Some average_cost) \<Rightarrow> Some (JObj
          [(lit ''asset_type'', JStr (lit (asset_value (hd_asset_type x)))), (lit ''symbol'', JStr (py_strip (hd_symbol x))),
           (lit ''market_symbol'', JStr (py_strip (hd_market_symbol x))), (lit ''name'', JStr (py_strip (hd_name x))),
           (lit ''type_key'', json_opt JStr (normalize_optional_text (hd_type_key x))),
           (lit ''category'', JStr (or_else (py_strip (or_else (hd_category x) etc_text)) etc_text)),
           (lit ''owner_name'', json_opt JStr (normalize_optional_text (hd_owner_name x))),
           (lit ''account_name'', JStr (text_of (hd_account_name x))),
           (lit ''quantity'', JStr quantity), (lit ''average_cost'', JStr average_cost),
           (lit ''currency'', JStr (export_currency (hd_currency x))),
           (lit ''display_order'', JInt (or_default (hd_display_order x) 100)),
           (lit ''source_ref'', JStr (export_hd_ref x))])
      | _ \<Rightarrow> None)"

text \<open>\<open>None\<close> is an exception: a colour the normalisation rejects, a number of more than 28 digits.\<close>

definition payload_json :: "package_env \<Rightarrow> db \<Rightarrow> household \<Rightarrow> json option" where
  "payload_json pe d h =
     (let i = hh_id h; source_name = py_strip (hh_name h) in
      case (normalize_transaction_row_colors (Some (hh_transaction_row_colors h)),
            those (map (transaction_json d) (export_transactions d i)), those (map holding_json (export_holdings d i))) of
        (Some colors, Some txs, Some hds) \<Rightarrow> Some (JObj
          [(lit ''kind'', JStr (lit ''moneyflow-household-transfer'')), (lit ''schema_version'', JInt 2),
           (lit ''exported_at'', JStr (pe_now_iso pe)),
           (lit ''source'', JObj [(lit ''env'', JStr (py_lower (py_strip (pe_env_name pe)))),
              (lit ''household_id'', JStr i), (lit ''household_name'', JStr source_name)]),
           (lit ''household_settings'', JObj [(lit ''name'', JStr source_name),
              (lit ''base_currency'', JStr (export_currency (hh_base_currency h))),
              (lit ''transaction_row_colors'', JObj (map (\<lambda>(k, v). (k, JStr v)) colors)),
              (lit ''holding_settings'',
                 JObj (holding_settings_json (normalize_holding_settings (pe_str pe) (JObj (hh_holding_settings h)))))]),
           (lit ''categories'', JList (map category_json (export_categories d i))),
           (lit ''transactions'', JList txs), (lit ''holdings'', JList hds)])
      | _ \<Rightarrow> None)"

definition manifest_json :: "package_env \<Rightarrow> household \<Rightarrow> pystr \<Rightarrow> json" where
  "manifest_json pe h payload_bytes = JObj
     [(lit ''kind'', JStr (lit ''moneyflow-household-transfer-manifest'')), (lit ''schema_version'', JInt 2),
      (lit ''payload_sha256'', JStr (pe_sha256 pe payload_bytes)),
      (lit ''payload_size_bytes'', JInt (int (length payload_bytes))),
      (lit ''exported_at'', JStr (pe_now_iso pe)), (lit ''source_env'', JStr (py_lower (py_strip (pe_env_name pe)))),
      (lit ''source_household_id'', JStr (hh_id h)), (lit ''source_household_name'', JStr (py_strip (hh_name h)))]"

definition package_filename :: "package_env \<Rightarrow> household \<Rightarrow> pystr" where
  "package_filename pe h =
     lit ''moneyflow-transfer-'' @ sanitize_filename_token (py_lower (py_strip (pe_env_name pe))) (lit ''env'') @ lit ''-''
     @ sanitize_filename_token (py_strip (hh_name h)) (lit ''household'') @ lit ''-'' @ pe_stamp pe @ lit ''.zip''"

definition manifest_member :: pystr where
  "manifest_member = lit ''manifest.json''"

definition payload_member :: pystr where
  "payload_member = lit ''payload.json''"

definition export_package :: "package_env \<Rightarrow> db \<Rightarrow> household \<Rightarrow> (pystr \<times> pystr) option" where
  "export_package pe d h =
     map_option (\<lambda>payload.
       (let payload_bytes = dump_json pe payload; manifest_bytes = dump_json pe (manifest_json pe h payload_bytes)
        in (pe_write_zip pe [(manifest_member, manifest_bytes), (payload_member, payload_bytes)], package_filename pe h)))
       (payload_json pe d h)"

subsection \<open>Validators\<close>

text \<open>\<open>None\<close> is a \<open>ValidationError\<close>.  A validator with \<open>mode="before"\<close> does not run on a default.\<close>

definition field_of :: "(pystr \<times> json) list \<Rightarrow> string \<Rightarrow> (json \<Rightarrow> 'a option) \<Rightarrow> 'a option" where
  "field_of obj name f = Option.bind (map_of obj (lit name)) f"

definition field_or :: "(pystr \<times> json) list \<Rightarrow> string \<Rightarrow> 'a \<Rightarrow> (json \<Rightarrow> 'a option) \<Rightarrow> 'a option" where
  "field_or obj name dflt f = (case map_of obj (lit name) of None \<Rightarrow> Some dflt | Some v \<Rightarrow> f v)"

definition obj_of :: "json \<Rightarrow> (pystr \<times> json) list option" where
  "obj_of v = (case v of JObj kvs \<Rightarrow> Some kvs | _ \<Rightarrow> None)"

definition list_of :: "json \<Rightarrow> json list option" where
  "list_of v = (case v of JList xs \<Rightarrow> Some xs | _ \<Rightarrow> None)"

definition trim_text :: "package_env \<Rightarrow> nat \<Rightarrow> nat \<Rightarrow> json \<Rightarrow> pystr option" where
  "trim_text pe lo hi v =
     (let t = py_strip (str_or_empty (pe_str pe) v) in if lo \<le> length t \<and> length t \<le> hi then Some t else None)"

definition memo_text :: "package_env \<Rightarrow> json \<Rightarrow> pystr option" where
  "memo_text pe v = (let t = str_or_empty (pe_str pe) v in if length t \<le> 5000 then Some t else None)"

definition optional_text :: "package_env \<Rightarrow> nat \<Rightarrow> json \<Rightarrow> pystr option option" where
  "optional_text pe hi v =
     (let t = normalize_optional_text (Some (str_or_empty (pe_str pe) v)) in if max_len hi t then Some t else None)"

definition int_in :: "package_env \<Rightarrow> int \<Rightarrow> int \<Rightarrow> json \<Rightarrow> int option" where
  "int_in pe lo hi v = Option.bind (pe_int pe v) (\<lambda>n. if lo \<le> n \<and> n \<le> hi then Some n else None)"

definition opt_int :: "package_env \<Rightarrow> (int \<Rightarrow> bool) \<Rightarrow> json \<Rightarrow> int option option" where
  "opt_int pe ok v =
     (if v = JNull then Some None
      else Option.bind (pe_int pe v) (\<lambda>n. if ok n then Some (Some n) else None))"

definition flow_types :: "flow_type list" where
  "flow_types = [Flow_income, Flow_expense, Flow_investment, Flow_transfer]"

definition asset_types :: "asset_type list" where
  "asset_types = [Asset_stock, Asset_crypto, Asset_cash, Asset_real_estate, Asset_pension, Asset_other]"

definition flow_of :: "json \<Rightarrow> flow_type option" where
  "flow_of v = (case v of JStr s \<Rightarrow> find (\<lambda>f. lit (flow_value f) = s) flow_types | _ \<Rightarrow> None)"

definition asset_of :: "json \<Rightarrow> asset_type option" where
  "asset_of v = (case v of JStr s \<Rightarrow> find (\<lambda>a. lit (asset_value a) = s) asset_types | _ \<Rightarrow> None)"

definition str_of :: "json \<Rightarrow> pystr option" where
  "str_of v = (case v of JStr s \<Rightarrow> Some s | _ \<Rightarrow> None)"

definition colors_of :: "json \<Rightarrow> (pystr \<times> pystr) list option" where
  "colors_of v = Option.bind (obj_of v) (\<lambda>kvs. those (map (\<lambda>(k, c). map_option (Pair k) (str_of c)) kvs))"

definition read_category :: "package_env \<Rightarrow> json \<Rightarrow> package_category option" where
  "read_category pe v = do {
     obj \<leftarrow> obj_of v;
     flow \<leftarrow> field_of obj ''flow_type'' flow_of;
     major \<leftarrow> field_of obj ''major'' (trim_text pe 1 120);
     minor \<leftarrow> field_of obj ''minor'' (trim_text pe 1 120);
     sort_order \<leftarrow> field_or obj ''sort_order'' 100 (int_in pe 1 9999);
     Some \<lparr>pc_flow_type = flow, pc_major = major, pc_minor = minor, pc_sort_order = sort_order\<rparr>
   }"

definition read_transaction :: "package_env \<Rightarrow> json \<Rightarrow> package_transaction option" where
  "read_transaction pe v = do {
     obj \<leftarrow> obj_of v;
     occurred_on \<leftarrow> field_of obj ''occurred_on'' (pe_date pe);
     flow \<leftarrow> field_of obj ''flow_type'' flow_of;
     major \<leftarrow> field_of obj ''category_major'' (trim_text pe 1 120);
     minor \<leftarrow> field_of obj ''category_minor'' (trim_text pe 1 120);
     amount \<leftarrow> field_of obj ''amount'' (trim_text pe 1 64);
     months \<leftarrow> field_or obj ''installment_months'' None (opt_int pe (\<lambda>n. 2 \<le> n \<and> n \<le> 120));
     currency \<leftarrow> field_of obj ''currency'' (trim_text pe 1 8);
     memo \<leftarrow> field_or obj ''memo'' [] (memo_text pe);
     owner_name \<leftarrow> field_or obj ''owner_name'' None (optional_text pe 80);
     source_ref \<leftarrow> field_of obj ''source_ref'' (trim_text pe 1 120);
     order_key \<leftarrow> field_or obj ''order_key'' None (opt_int pe (\<lambda>n. 1 \<le> n));
     (if months \<noteq> None \<and> flow \<noteq> Flow_expense then None
      else Some \<lparr>pk_occurred_on = occurred_on, pk_flow_type = flow, pk_category_major = major,
             pk_category_minor = minor, pk_amount = amount, pk_installment_months = months, pk_currency = currency,
             pk_memo = memo, pk_owner_name = owner_name, pk_source_ref = source_ref, pk_order_key = order_key\<rparr>)
   }"

definition read_holding :: "package_env \<Rightarrow> json \<Rightarrow> package_holding option" where
  "read_holding pe v = do {
     obj \<leftarrow> obj_of v;
     asset \<leftarrow> field_of obj ''asset_type'' asset_of;
     symbol \<leftarrow> field_of obj ''symbol'' (trim_text pe 1 40);
     market_symbol \<leftarrow> field_of obj ''market_symbol'' (trim_text pe 1 40);
     name \<leftarrow> field_of obj ''name'' (trim_text pe 1 120);
     type_key \<leftarrow> field_or obj ''type_key'' None (optional_text pe 80);
     category \<leftarrow> field_or obj ''category'' etc_text (trim_text pe 1 80);
     owner_name \<leftarrow> field_or obj ''owner_name'' None (optional_text pe 80);
     account_name \<leftarrow> field_or obj ''account_name'' [] (trim_text pe 0 120);
     quantity \<leftarrow> field_of obj ''quantity'' (trim_text pe 1 64);
     average_cost \<leftarrow> field_of obj ''average_cost'' (trim_text pe 1 64);
     currency \<leftarrow> field_of obj ''currency'' (trim_text pe 1 8);
     display_order \<leftarrow> field_or obj ''display_order'' 100 (int_in pe 1 9999);
     source_ref \<leftarrow> field_of obj ''source_ref'' (trim_text pe 1 120);
     Some \<lparr>pg_asset_type = asset, pg_symbol = symbol, pg_market_symbol = market_symbol, pg_name = name,
           pg_type_key = type_key, pg_category = category, pg_owner_name = owner_name, pg_account_name = account_name,
           pg_quantity = quantity, pg_average_cost = average_cost, pg_currency = currency,
           pg_display_order = display_order, pg_source_ref = source_ref\<rparr>
   }"

definition read_rows :: "(json \<Rightarrow> 'a option) \<Rightarrow> json \<Rightarrow> 'a list option" where
  "read_rows f v = Option.bind (list_of v) (\<lambda>xs. those (map f xs))"

definition read_source :: "package_env \<Rightarrow> json \<Rightarrow> (pystr \<times> pystr \<times> pystr) option" where
  "read_source pe v = do {
     obj \<leftarrow> obj_of v;
     env \<leftarrow> field_or obj ''env'' [] (trim_text pe 0 32);
     household_id \<leftarrow> field_of obj ''household_id'' (trim_text pe 1 36);
     household_name \<leftarrow> field_of obj ''household_name'' (trim_text pe 1 120);
     Some (env, household_id, household_name)
   }"

definition read_household_settings ::
  "package_env \<Rightarrow> json \<Rightarrow> (pystr \<times> pystr \<times> (pystr \<times> pystr) list \<times> (pystr \<times> json) list) option" where
  "read_household_settings pe v = do {
     obj \<leftarrow> obj_of v;
     name \<leftarrow> field_of obj ''name'' (trim_text pe 1 120);
     base_currency \<leftarrow> field_of obj ''base_currency'' (trim_text pe 1 8);
     colors \<leftarrow> field_or obj ''transaction_row_colors'' [] colors_of;
     holding_settings \<leftarrow> field_or obj ''holding_settings'' [] obj_of;
     Some (name, base_currency, colors, holding_settings)
   }"

text \<open>The kind and the version beside the document itself.\<close>

definition read_payload :: "package_env \<Rightarrow> json \<Rightarrow> (pystr \<times> package_payload) option" where
  "read_payload pe v = do {
     obj \<leftarrow> obj_of v;
     kind \<leftarrow> field_of obj ''kind'' (trim_text pe 1 80);
     schema_version \<leftarrow> field_of obj ''schema_version'' (\<lambda>n. Option.bind (pe_int pe n) (\<lambda>n. if 1 \<le> n then Some n else None));
     _ \<leftarrow> field_of obj ''exported_at'' (\<lambda>t. if pe_datetime_ok pe t then Some () else None);
     (env, household_id, household_name) \<leftarrow> field_of obj ''source'' (read_source pe);
     (name, base_currency, colors, holding_settings) \<leftarrow> field_of obj ''household_settings'' (read_household_settings pe);
     categories \<leftarrow> field_of obj ''categories'' (read_rows (read_category pe));
     transactions \<leftarrow> field_of obj ''transactions'' (read_rows (read_transaction pe));
     holdings \<leftarrow> field_of obj ''holdings'' (read_rows (read_holding pe));
     Some (kind, \<lparr>pp_schema_version = schema_version, pp_source_env = env, pp_source_household_id = household_id,
       pp_source_household_name = household_name, pp_name = name, pp_base_currency = base_currency,
       pp_transaction_row_colors = colors, pp_holding_settings = holding_settings, pp_categories = categories,
       pp_transactions = transactions, pp_holdings = holdings\<rparr>)
   }"

definition read_manifest :: "package_env \<Rightarrow> json \<Rightarrow> package_manifest option" where
  "read_manifest pe v = do {
     obj \<leftarrow> obj_of v;
     kind \<leftarrow> field_of obj ''kind'' (trim_text pe 1 120);
     schema_version \<leftarrow> field_of obj ''schema_version'' (\<lambda>n. Option.bind (pe_int pe n) (\<lambda>n. if 1 \<le> n then Some n else None));
     sha \<leftarrow> field_of obj ''payload_sha256'' (trim_text pe 64 64);
     size_bytes \<leftarrow> field_of obj ''payload_size_bytes'' (\<lambda>n. Option.bind (pe_int pe n) (\<lambda>n. if 1 \<le> n then Some n else None));
     _ \<leftarrow> field_of obj ''exported_at'' (\<lambda>t. if pe_datetime_ok pe t then Some () else None);
     _ \<leftarrow> field_or obj ''source_env'' [] (trim_text pe 0 32);
     _ \<leftarrow> field_of obj ''source_household_id'' (trim_text pe 1 36);
     _ \<leftarrow> field_of obj ''source_household_name'' (trim_text pe 1 120);
     Some \<lparr>pm_kind = kind, pm_schema_version = schema_version, pm_payload_sha256 = sha,
           pm_payload_size_bytes = size_bytes\<rparr>
   }"

subsection \<open>Loading\<close>

definition package_error :: "nat \<Rightarrow> string \<Rightarrow> package_exn" where
  "package_error status code = Refused (AppError status code)"

definition invalid_archive :: package_exn where
  "invalid_archive = package_error 400 ''MIGRATION_PACKAGE_INVALID_ARCHIVE''"

text \<open>\<open>archive.read\<close> takes the last member of a name.\<close>

definition read_member :: "zip_member list \<Rightarrow> pystr \<Rightarrow> package_exn + pystr" where
  "read_member members name =
     (case find (\<lambda>z. zm_filename z = name) (rev members) of
        None \<Rightarrow> Inl Unexpected
      | Some z \<Rightarrow> (case zm_data z of Data b \<Rightarrow> Inr b | Bad_member \<Rightarrow> Inl invalid_archive | Unreadable \<Rightarrow> Inl Unexpected))"

definition read_archive :: "package_env \<Rightarrow> zip_file \<Rightarrow> package_exn + (pystr \<times> pystr)" where
  "read_archive pe file =
     (case file of
        Bad_zip \<Rightarrow> Inl invalid_archive
      | Zip members \<Rightarrow>
          if members = [] then Inl (package_error 400 ''MIGRATION_PACKAGE_EMPTY'')
          else if pe_max_zip_entries pe < int (length members)
          then Inl (package_error 413 ''MIGRATION_PACKAGE_ARCHIVE_TOO_COMPLEX'')
          else if \<not> {manifest_member, payload_member} \<subseteq> zm_filename ` set members then Inl invalid_archive
          else if pe_max_uncompressed_bytes pe < sum_list (map zm_file_size members)
          then Inl (package_error 413 ''MIGRATION_PACKAGE_TOO_LARGE'')
          else (case read_member members manifest_member of
                  Inl e \<Rightarrow> Inl e
                | Inr manifest_bytes \<Rightarrow>
                    (case read_member members payload_member of
                       Inl e \<Rightarrow> Inl e
                     | Inr payload_bytes \<Rightarrow> Inr (manifest_bytes, payload_bytes))))"

definition schema_unsupported :: package_exn where
  "schema_unsupported = package_error 400 ''MIGRATION_PACKAGE_SCHEMA_UNSUPPORTED''"

definition load_package :: "package_env \<Rightarrow> zip_file \<Rightarrow> package_exn + package_payload" where
  "load_package pe file =
     (case read_archive pe file of
        Inl e \<Rightarrow> Inl e
      | Inr (manifest_bytes, payload_bytes) \<Rightarrow>
          (case Option.bind (pe_parse pe manifest_bytes) (read_manifest pe) of
             None \<Rightarrow> Inl (package_error 400 ''MIGRATION_PACKAGE_INVALID_MANIFEST'')
           | Some manifest \<Rightarrow>
               if pm_kind manifest \<noteq> lit ''moneyflow-household-transfer-manifest''
                  \<or> pm_schema_version manifest \<notin> {1, 2} then Inl schema_unsupported
               else if pe_sha256 pe payload_bytes \<noteq> pm_payload_sha256 manifest
                  \<or> pm_payload_size_bytes manifest \<noteq> int (length payload_bytes)
               then Inl (package_error 400 ''MIGRATION_PACKAGE_HASH_MISMATCH'')
               else (case Option.bind (pe_parse pe payload_bytes) (read_payload pe) of
                       None \<Rightarrow> Inl invalid_package
                     | Some (kind, payload) \<Rightarrow>
                         if kind \<noteq> lit ''moneyflow-household-transfer'' \<or> pp_schema_version payload \<notin> {1, 2}
                            \<or> pp_schema_version payload \<noteq> pm_schema_version manifest
                         then Inl schema_unsupported else Inr payload)))"

end
