(* ===== verification/Migration_Transfer.thy ===== *)
theory Migration_Transfer
  imports Migration_Package Import_Lock
begin

text \<open>
  Applying a transfer package to a household: \<open>run_transfer\<close> of
  \<open>backend/app/services/migration_package.py\<close>, and the guarded run and the endpoint of
  \<open>backend/app/api/routes/imports.py\<close>.  An applied package replaces the categories, transactions,
  holdings and patch logs of the household; the owners of rows are linked again by display name.
\<close>

subsection \<open>Owners\<close>

definition ids_of_key :: "owner_lookup \<Rightarrow> pystr \<Rightarrow> pystr list" where
  "ids_of_key lookup key = dedup (map snd (filter (\<lambda>(k, _). k = key) lookup))"

definition resolved_owner :: "owner_lookup \<Rightarrow> pystr \<Rightarrow> pystr option" where
  "resolved_owner lookup key = (case ids_of_key lookup key of [i] \<Rightarrow> Some i | _ \<Rightarrow> None)"

definition ambiguous_owner :: "owner_lookup \<Rightarrow> pystr \<Rightarrow> bool" where
  "ambiguous_owner lookup key \<longleftrightarrow> 1 < length (ids_of_key lookup key)"

definition owner_user_id_for :: "owner_lookup \<Rightarrow> pystr option \<Rightarrow> pystr option" where
  "owner_user_id_for lookup owner_name =
     (if truthy_text owner_name then resolved_owner lookup (legacy_owner_name_key owner_name) else None)"

definition package_owner_names :: "package_payload \<Rightarrow> pystr list" where
  "package_owner_names p =
     filter (\<lambda>k. k \<noteq> []) (map legacy_owner_name_key
       (map pk_owner_name (pp_transactions p) @ map pg_owner_name (pp_holdings p)))"

definition owner_names_where :: "(pystr \<Rightarrow> bool) \<Rightarrow> package_payload \<Rightarrow> pystr list" where
  "owner_names_where ok p = sort (remdups (filter ok (package_owner_names p)))"

definition package_issue :: "string \<Rightarrow> int option \<Rightarrow> pystr list \<Rightarrow> import_issue" where
  "package_issue code row detail =
     \<lparr>ii_severity = ''warning'', ii_code = code, ii_sheet = None, ii_row = row, ii_detail = detail\<rparr>"

definition names_issue :: "string \<Rightarrow> pystr list \<Rightarrow> import_issue list" where
  "names_issue code names =
     (if names = [] then [] else [package_issue code None (int_text (int (length names)) # take 10 names)])"

subsection \<open>Categories\<close>

definition pc_names :: "package_category \<Rightarrow> category_names" where
  "pc_names c = (pc_flow_type c, pc_major c, pc_minor c)"

definition pk_names :: "package_transaction \<Rightarrow> category_names" where
  "pk_names t = (pk_flow_type t, pk_category_major t, pk_category_minor t)"

fun category_sort_orders ::
  "int \<Rightarrow> (category_names \<times> int) list \<Rightarrow> package_category list \<Rightarrow> (category_names \<times> int) list \<times> import_issue list" where
  "category_sort_orders index acc [] = (acc, [])"
| "category_sort_orders index acc (row # rows) =
     (if map_of acc (pc_names row) \<noteq> None
      then (let (acc', issues) = category_sort_orders (index + 1) acc rows
            in (acc', package_issue ''MIGRATION_CATEGORY_DUPLICATED'' (Some index)
                  [lit ''FlowType.'' @ lit (flow_value (pc_flow_type row)), pc_major row, pc_minor row] # issues))
      else category_sort_orders (index + 1) (acc @ [(pc_names row, pc_sort_order row)]) rows)"

definition add_tx_category :: "package_transaction \<Rightarrow> (category_names \<times> int) list \<Rightarrow> (category_names \<times> int) list" where
  "add_tx_category t acc = (if map_of acc (pk_names t) \<noteq> None then acc else acc @ [(pk_names t, 100)])"

subsection \<open>Prepared rows\<close>

record prepared_tx =
  pr_payload_index :: int
  pr_category_key :: category_names
  pr_occurred_on :: date
  pr_amount :: rat
  pr_installment_months :: "int option"
  pr_currency :: pystr
  pr_memo :: pystr
  pr_owner_user_id :: "pystr option"
  pr_owner_name :: "pystr option"
  pr_source_ref :: pystr
  pr_order_key :: "int option"

definition prepared_tx :: "owner_lookup \<Rightarrow> int \<Rightarrow> rat \<Rightarrow> package_transaction \<Rightarrow> prepared_tx" where
  "prepared_tx lookup index amount row =
     (let owner_name = normalize_optional_text (pk_owner_name row)
      in \<lparr>pr_payload_index = index, pr_category_key = pk_names row, pr_occurred_on = pk_occurred_on row,
          pr_amount = amount, pr_installment_months = pk_installment_months row,
          pr_currency = export_currency (pk_currency row), pr_memo = pk_memo row,
          pr_owner_user_id = owner_user_id_for lookup owner_name, pr_owner_name = owner_name,
          pr_source_ref = pk_source_ref row,
          pr_order_key = Option.bind (pk_order_key row) none_if_zero\<rparr>)"

fun prepare_transactions ::
  "owner_lookup \<Rightarrow> int \<Rightarrow> pystr set \<Rightarrow> package_transaction list \<Rightarrow> package_exn + (prepared_tx list \<times> import_issue list)" where
  "prepare_transactions lookup index seen [] = Inr ([], [])"
| "prepare_transactions lookup index seen (row # rows) =
     (if pk_source_ref row \<in> seen
      then (case prepare_transactions lookup (index + 1) seen rows of
              Inl e \<Rightarrow> Inl e
            | Inr (ps, issues) \<Rightarrow>
                Inr (ps, package_issue ''MIGRATION_TX_SOURCE_REF_DUPLICATED'' (Some index) [pk_source_ref row] # issues))
      else (case parse_positive_krw_transaction_amount (pk_amount row) of
              Inl e \<Rightarrow> Inl e
            | Inr amount \<Rightarrow>
                (case prepare_transactions lookup (index + 1) (insert (pk_source_ref row) seen) rows of
                   Inl e \<Rightarrow> Inl e
                 | Inr (ps, issues) \<Rightarrow> Inr (prepared_tx lookup index amount row # ps, issues))))"

type_synonym package_identity = "asset_type \<times> pystr \<times> pystr \<times> pystr \<times> pystr"

definition package_identity :: "owner_lookup \<Rightarrow> package_holding \<Rightarrow> package_identity" where
  "package_identity lookup row =
     (let owner_name = normalize_optional_text (pg_owner_name row)
      in (pg_asset_type row, py_upper (py_strip (pg_market_symbol row)),
          text_or (owner_user_id_for lookup owner_name) [], py_strip (text_or owner_name []),
          py_strip (pg_account_name row)))"

type_synonym prepared_holding = "package_holding \<times> pystr option \<times> pystr \<times> rat \<times> rat"

fun prepare_holdings ::
  "owner_lookup \<Rightarrow> int \<Rightarrow> package_identity set \<Rightarrow> package_holding list
   \<Rightarrow> package_exn + (prepared_holding list \<times> import_issue list)" where
  "prepare_holdings lookup index seen [] = Inr ([], [])"
| "prepare_holdings lookup index seen (row # rows) =
     (case (parse_positive_decimal (pg_quantity row), parse_non_negative_decimal (pg_average_cost row)) of
        (Inl e, _) \<Rightarrow> Inl e
      | (_, Inl e) \<Rightarrow> Inl e
      | (Inr quantity, Inr average_cost) \<Rightarrow>
          (let owner_name = normalize_optional_text (pg_owner_name row); i = package_identity lookup row
           in if i \<in> seen
              then (case prepare_holdings lookup (index + 1) seen rows of
                      Inl e \<Rightarrow> Inl e
                    | Inr (ps, issues) \<Rightarrow>
                        Inr (ps, package_issue ''MIGRATION_HOLDING_DUPLICATED'' (Some index)
                                   [lit ''AssetType.'' @ lit (asset_value (pg_asset_type row)), pg_market_symbol row,
                                    text_or owner_name []] # issues))
              else (case prepare_holdings lookup (index + 1) (insert i seen) rows of
                      Inl e \<Rightarrow> Inl e
                    | Inr (ps, issues) \<Rightarrow>
                        Inr ((row, owner_user_id_for lookup owner_name, text_or owner_name [], quantity, average_cost) # ps,
                             issues))))"

subsection \<open>Applying\<close>

definition clear_household :: "pystr \<Rightarrow> db \<Rightarrow> db" where
  "clear_household household_id d =
     d\<lparr>db_transactions := filter (\<lambda>t. tx_household_id t \<noteq> household_id) (db_transactions d),
       db_holdings := filter (\<lambda>x. hd_household_id x \<noteq> household_id) (db_holdings d),
       db_categories := filter (\<lambda>c. ct_household_id c \<noteq> household_id) (db_categories d),
       db_patch_logs := filter (\<lambda>l. pl_household_id l \<noteq> household_id) (db_patch_logs d)\<rparr>"

definition transfer_household ::
  "package_env \<Rightarrow> package_payload \<Rightarrow> (pystr \<times> pystr) list \<Rightarrow> household \<Rightarrow> household" where
  "transfer_household pe p colors h =
     h\<lparr>hh_name := pp_name p, hh_base_currency := pp_base_currency p, hh_transaction_row_colors := colors,
       hh_holding_settings := holding_settings_json (normalize_holding_settings (pe_str pe) (JObj (pp_holding_settings p)))\<rparr>"

fun insert_categories ::
  "import_env \<Rightarrow> pystr \<Rightarrow> (category_names \<times> int) list \<Rightarrow> category_map \<Rightarrow> imp \<Rightarrow> category_map \<times> imp" where
  "insert_categories ie household_id [] cm st = (cm, st)"
| "insert_categories ie household_id ((key, sort_order) # rows) cm st =
     (let (i, st') = insert_category ie household_id key sort_order st
      in insert_categories ie household_id rows (cm @ [(key, i)]) st')"

definition ordered_key :: "prepared_tx \<Rightarrow> date \<times> int \<times> int" where
  "ordered_key row =
     (pr_occurred_on row, (case pr_order_key row of Some k \<Rightarrow> k | None \<Rightarrow> 2 ^ 63 - 1), pr_payload_index row)"

definition transferred_tx ::
  "import_env \<Rightarrow> pystr \<Rightarrow> pystr \<Rightarrow> category_map \<Rightarrow> int \<Rightarrow> pystr \<Rightarrow> prepared_tx \<Rightarrow> transaction" where
  "transferred_tx ie household_id actor_user_id cm order_key i row =
     \<lparr>tx_id = i, tx_household_id = household_id, tx_category_id = map_of cm (pr_category_key row),
      tx_flow_type = fst (pr_category_key row), tx_occurred_on = pr_occurred_on row, tx_amount = pr_amount row,
      tx_installment_months = pr_installment_months row, tx_currency = pr_currency row, tx_memo = pr_memo row,
      tx_order_key = order_key, tx_owner_user_id = pr_owner_user_id row, tx_owner_name = pr_owner_name row,
      tx_source_ref = Some (pr_source_ref row), tx_version = 1, tx_created_by_user_id = Some actor_user_id,
      tx_created_at = ev_db_now (ie_env ie), tx_updated_at = ev_db_now (ie_env ie)\<rparr>"

definition transfer_tx ::
  "import_env \<Rightarrow> pystr \<Rightarrow> pystr \<Rightarrow> category_map \<Rightarrow> prepared_tx \<Rightarrow> (date \<Rightarrow> int option) \<times> imp
   \<Rightarrow> (date \<Rightarrow> int option) \<times> imp" where
  "transfer_tx ie household_id actor_user_id cm row acc =
     (let (next_order_keys, st) = acc; day = pr_occurred_on row; d = im_db st;
          order_key = (case next_order_keys day of Some k \<Rightarrow> k | None \<Rightarrow> next_append_order_key d household_id day None);
          t = transferred_tx ie household_id actor_user_id cm order_key (ie_new_id ie (im_next st)) row
      in (next_order_keys(day \<mapsto> order_key + transaction_order_step),
          \<lparr>im_db = set_transactions (db_transactions d @ [t]) d, im_next = im_next st + 1\<rparr>))"

definition transferred_holding :: "import_env \<Rightarrow> pystr \<Rightarrow> pystr \<Rightarrow> prepared_holding \<Rightarrow> holding" where
  "transferred_holding ie household_id i p =
     (case p of (row, owner_user_id, owner_name, quantity, average_cost) \<Rightarrow>
        \<lparr>hd_id = i, hd_household_id = household_id, hd_asset_type = pg_asset_type row, hd_symbol = pg_symbol row,
         hd_market_symbol = pg_market_symbol row, hd_name = pg_name row, hd_type_key = pg_type_key row,
         hd_category = pg_category row, hd_owner_user_id = owner_user_id, hd_owner_name = Some owner_name,
         hd_account_name = Some (pg_account_name row), hd_quantity = quantity, hd_average_cost = average_cost,
         hd_currency = export_currency (pg_currency row), hd_display_order = pg_display_order row,
         hd_source_ref = Some (pg_source_ref row), hd_version = 1, hd_updated_at = ev_db_now (ie_env ie)\<rparr>)"

text \<open>The insertions of the commit, in the order of creation; \<open>None\<close> is the \<open>IntegrityError\<close> of the unique index.\<close>

fun insert_holdings :: "import_env \<Rightarrow> pystr \<Rightarrow> prepared_holding list \<Rightarrow> imp \<Rightarrow> imp option" where
  "insert_holdings ie household_id [] st = Some st"
| "insert_holdings ie household_id (p # ps) st =
     (let x = transferred_holding ie household_id (ie_new_id ie (im_next st)) p
      in if identity_conflict (ie_env ie) (im_db st) x then None
         else insert_holdings ie household_id ps
                \<lparr>im_db = set_holdings (db_holdings (im_db st) @ [x]) (im_db st), im_next = im_next st + 1\<rparr>)"

record migration_report =
  mr_package_name :: pystr
  mr_mode :: import_mode
  mr_replace_existing :: bool
  mr_schema_version :: int
  mr_source_env :: "pystr option"
  mr_source_household_name :: pystr
  mr_category_rows :: nat
  mr_transaction_rows :: nat
  mr_holding_rows :: nat
  mr_applied_categories :: nat
  mr_applied_transactions :: nat
  mr_applied_holdings :: nat
  mr_owner_names_unmatched :: nat
  mr_owner_names_ambiguous :: nat
  mr_issues :: "import_issue list"

text \<open>The transactions are pending with the holdings; nothing else of the session reads them before the commit.\<close>

definition apply_transfer ::
  "import_env \<Rightarrow> package_env \<Rightarrow> pystr \<Rightarrow> pystr \<Rightarrow> package_payload \<Rightarrow> (category_names \<times> int) list \<Rightarrow> prepared_tx list
   \<Rightarrow> imp \<Rightarrow> package_exn + imp" where
  "apply_transfer ie pe household_id actor_user_id p orders txs st =
     (case normalize_transaction_row_colors (Some (pp_transaction_row_colors p)) of
        None \<Rightarrow> Inl Unexpected
      | Some colors \<Rightarrow>
          (let d = clear_household household_id (im_db st);
               d1 = set_households (row_update hh_id household_id (transfer_household pe p colors) (db_households d)) d;
               (cm, st1) = insert_categories ie household_id orders [] (st\<lparr>im_db := d1\<rparr>)
           in Inr (snd (fold (transfer_tx ie household_id actor_user_id cm) (sort_key ordered_key txs) (\<lambda>_. None, st1)))))"

definition run_transfer ::
  "import_env \<Rightarrow> package_env \<Rightarrow> pystr \<Rightarrow> pystr \<Rightarrow> pystr \<Rightarrow> package_payload \<Rightarrow> import_mode \<Rightarrow> bool \<Rightarrow> imp
   \<Rightarrow> package_exn + (migration_report \<times> imp \<times> prepared_holding list)" where
  "run_transfer ie pe household_id actor_user_id package_name p mode replace_existing st =
     (let lookup = load_owner_lookup (im_db st) household_id;
          ambiguous = owner_names_where (ambiguous_owner lookup) p;
          unmatched = owner_names_where (\<lambda>k. resolved_owner lookup k = None \<and> \<not> ambiguous_owner lookup k) p;
          (orders0, category_issues) = category_sort_orders 1 [] (pp_categories p);
          orders = fold add_tx_category (pp_transactions p) orders0
      in case prepare_transactions lookup 1 {} (pp_transactions p) of
           Inl e \<Rightarrow> Inl e
         | Inr (txs, tx_issues) \<Rightarrow>
             (case prepare_holdings lookup 1 {} (pp_holdings p) of
                Inl e \<Rightarrow> Inl e
              | Inr (hds, hd_issues) \<Rightarrow>
                  (let report = (\<lambda>nc nt nh.
                         \<lparr>mr_package_name = package_name, mr_mode = mode, mr_replace_existing = replace_existing,
                          mr_schema_version = pp_schema_version p,
                          mr_source_env = none_if_empty (py_lower (py_strip (pp_source_env p))),
                          mr_source_household_name = pp_source_household_name p,
                          mr_category_rows = length (pp_categories p), mr_transaction_rows = length (pp_transactions p),
                          mr_holding_rows = length (pp_holdings p), mr_applied_categories = nc,
                          mr_applied_transactions = nt, mr_applied_holdings = nh,
                          mr_owner_names_unmatched = length unmatched, mr_owner_names_ambiguous = length ambiguous,
                          mr_issues = names_issue ''MIGRATION_OWNER_NAME_AMBIGUOUS'' ambiguous
                            @ names_issue ''MIGRATION_OWNER_NAME_UNMATCHED'' unmatched
                            @ category_issues @ tx_issues @ hd_issues\<rparr>)
                   in case mode of
                        Dry_run \<Rightarrow> Inr (report 0 0 0, st, [])
                      | Apply \<Rightarrow>
                          if \<not> replace_existing then Inl (package_error 400 ''MIGRATION_APPLY_REPLACE_REQUIRED'')
                          else (case apply_transfer ie pe household_id actor_user_id p orders txs st of
                                  Inl e \<Rightarrow> Inl e
                                | Inr st' \<Rightarrow> Inr (report (length orders) (length txs) (length hds), st', hds)))))"

subsection \<open>The guarded run and the endpoint\<close>

definition package_failure :: "package_exn \<Rightarrow> http_error" where
  "package_failure e =
     (case e of Refused h \<Rightarrow> h | Unexpected \<Rightarrow> AppError 500 ''MIGRATION_PACKAGE_INTERNAL_ERROR'')"

record upload_job =
  uj_household_id :: pystr
  uj_actor_user_id :: pystr
  uj_package_name :: pystr
  uj_mode :: import_mode
  uj_replace_existing :: bool

definition migration_result ::
  "import_env \<Rightarrow> package_env \<Rightarrow> upload_job \<Rightarrow> zip_file \<Rightarrow> nat \<Rightarrow> bool \<Rightarrow> db \<Rightarrow> (http_error + migration_report) \<times> db" where
  "migration_result ie pe uj file n lock_kept d =
     (case load_package pe file of
        Inl e \<Rightarrow> (Inl (package_failure e), d)
      | Inr p \<Rightarrow>
          (case run_transfer ie pe (uj_household_id uj) (uj_actor_user_id uj) (uj_package_name uj) p (uj_mode uj)
                  (uj_replace_existing uj) \<lparr>im_db = d, im_next = n\<rparr> of
             Inl e \<Rightarrow> (Inl (package_failure e), d)
           | Inr (rep, st, pending) \<Rightarrow>
               if uj_mode uj = Dry_run then (Inr rep, d)
               else if \<not> lock_kept then (Inl (AppError 409 ''IMPORT_LOCK_LOST''), d)
               else (case insert_holdings ie (uj_household_id uj) pending st of
                       None \<Rightarrow> (Inl (package_failure Unexpected), d)
                     | Some st' \<Rightarrow> (Inr rep, im_db st'))))"

text \<open>A dry run takes neither the process guard nor the lock.\<close>

definition run_migration_package_with_guard ::
  "import_env \<Rightarrow> package_env \<Rightarrow> surroundings \<Rightarrow> upload_job \<Rightarrow> zip_file \<Rightarrow> nat \<Rightarrow> guard_state
   \<Rightarrow> (http_error + migration_report) \<times> guard_state" where
  "run_migration_package_with_guard ie pe sr uj file n gs =
     (let h = uj_household_id uj; mode = uj_mode uj in
      case acquire_process_guard sr h mode gs of
        Inl e \<Rightarrow> (Inl e, gs)
      | Inr gs1 \<Rightarrow>
          if mode = Dry_run then
            (let (result, d') = migration_result ie pe uj file n True (gs_db gs1) in (result, gs1\<lparr>gs_db := d'\<rparr>))
          else
            (let (acquired, row) = acquire_import_lock (sr_timeout sr) (sr_now1 sr) (sr_now2 sr) (sr_race1 sr) (sr_race2 sr)
                   (gs_lock gs1 h);
                 gs2 = gs1\<lparr>gs_lock := (gs_lock gs1)(h := row)\<rparr>
             in case acquired of
                  Inl e \<Rightarrow> (Inl e, release_process_guard sr h mode gs2)
                | Inr t \<Rightarrow>
                    (let (failed, lease) = last_lease sr mode t;
                         row' = sr_meanwhile sr row;
                         (result, d') = migration_result ie pe uj file n
                            (\<not> failed \<and> is_import_lock_current lease row') (gs_db gs2)
                     in (result, release_process_guard sr h mode
                           (gs2\<lparr>gs_db := d', gs_lock := (gs_lock gs2)(h := release_import_lock lease row')\<rparr>)))))"

text \<open>\<open>Path(file_name).suffix\<close>.\<close>

definition path_name :: "pystr \<Rightarrow> pystr" where
  "path_name f =
     (case rev (filter (\<lambda>part. part \<noteq> [] \<and> part \<noteq> [46]) (split_on (\<lambda>c. c = 47) f)) of [] \<Rightarrow> [] | n # _ \<Rightarrow> n)"

definition path_suffix :: "pystr \<Rightarrow> pystr" where
  "path_suffix f =
     (let r = rev (path_name f); ext = takeWhile (\<lambda>c. c \<noteq> 46) r; rest = drop (length ext) r
      in if ext = [] \<or> length rest \<le> 1 then [] else 46 # rev ext)"

definition import_migration_package_upload ::
  "import_env \<Rightarrow> package_env \<Rightarrow> surroundings \<Rightarrow> upload_limits \<Rightarrow> pystr \<Rightarrow> pystr list \<Rightarrow> upload_job \<Rightarrow> nat \<Rightarrow> guard_state
   \<Rightarrow> (http_error + migration_report) \<times> guard_state" where
  "import_migration_package_upload ie pe sr ul file_name chunks uj n gs =
     (if py_lower (path_suffix (py_strip file_name)) \<noteq> lit ''.zip''
      then (Inl (AppError 400 ''MIGRATION_PACKAGE_EXTENSION_INVALID''), gs)
      else if uj_mode uj = Apply \<and> \<not> uj_replace_existing uj
      then (Inl (AppError 400 ''MIGRATION_APPLY_REPLACE_REQUIRED''), gs)
      else (case copy_upload_with_limit (ul_max_upload_bytes ul) 0 chunks of
              Inl e \<Rightarrow> (Inl e, gs)
            | Inr bytes \<Rightarrow>
                run_migration_package_with_guard ie pe sr (uj\<lparr>uj_package_name := py_strip file_name\<rparr>)
                  (pe_open_zip pe bytes) n gs))"

end
