(* ===== verification/Migration_Reading.thy ===== *)
theory Migration_Reading
  imports Migration_Transfer
begin

text \<open>
  What an exported document is read as: a written number is read as the number, a sorted object has the
  fields of the object, every row of a portable household is read back as the row it was made of, and
  the archive with its manifest loads.  \<open>portable_household\<close> collects the bounds of the validators that
  the rows of the household have to satisfy.
\<close>

subsection \<open>Numbers\<close>

lemma digits_value_append: "digits_value (xs @ ys) = digits_value xs * 10 ^ length ys + digits_value ys"
proof (induction ys rule: rev_induct)
  case (snoc y ys)
  have "digits_value (xs @ ys @ [y]) = digits_value (xs @ ys) * 10 + (y - 48)"
    using digits_value_snoc [of "xs @ ys" y] by simp
  with snoc show ?case by (simp add: digits_value_snoc algebra_simps)
qed (simp add: digits_value_def)

lemma digits_value_Cons: "digits_value (c # cs) = (c - 48) * 10 ^ length cs + digits_value cs"
  using digits_value_append [of "[c]" cs] by (simp add: digits_value_def)

lemma frac_text_0: "frac_text n 0 = []"
  by (cases n) simp_all

text \<open>The text of a fraction below one that ends within the given number of places.\<close>

lemma frac_text_value:
  assumes "0 \<le> f" "f < 1" "f * 10 ^ n \<in> \<int>"
  shows "list_all digit_cp (frac_text n f)" "of_int (digits_value (frac_text n f)) / 10 ^ length (frac_text n f) = f"
    "length (frac_text n f) \<le> n"
proof -
  have "list_all digit_cp (frac_text n f) \<and> length (frac_text n f) \<le> n
    \<and> of_int (digits_value (frac_text n f)) / 10 ^ length (frac_text n f) = f"
    using assms
  proof (induction n arbitrary: f)
    case 0
    then obtain k where k: "f = of_int k" by (auto elim: Ints_cases)
    with 0 have "k = 0" by simp
    with k show ?case by (simp add: digits_value_def)
  next
    case (Suc n)
    show ?case
    proof (cases "f = 0")
      case True
      then show ?thesis by (simp add: digits_value_def)
    next
      case False
      define d where "d = \<lfloor>f * 10\<rfloor>"
      define g where "g = f * 10 - of_int d"
      have d: "0 \<le> d" "d \<le> 9" using Suc.prems by (simp_all add: d_def floor_le_iff)
      have g: "0 \<le> g" "g < 1" unfolding g_def d_def by (simp_all add: floor_less_iff) linarith+
      have "g * 10 ^ n = f * 10 ^ Suc n - of_int (d * 10 ^ n)"
        by (simp add: g_def algebra_simps)
      then have "g * 10 ^ n \<in> \<int>" using Suc.prems(3) by simp
      note IH = Suc.IH [OF g this]
      have dc: "digit_cp (48 + d)" using d by (simp add: digit_cp_def)
      have t: "frac_text (Suc n) f = (48 + d) # frac_text n g"
        using False by (simp add: g_def d_def Let_def)
      have "of_int (digits_value (frac_text (Suc n) f)) / 10 ^ length (frac_text (Suc n) f) = (of_int d + g) / 10"
      proof -
        let ?l = "length (frac_text n g)" and ?v = "of_int (digits_value (frac_text n g)) :: rat"
        have v: "?v / 10 ^ ?l = g" using IH by blast
        have "of_int (digits_value (frac_text (Suc n) f)) / 10 ^ length (frac_text (Suc n) f)
            = (of_int d * 10 ^ ?l + ?v) / (10 * 10 ^ ?l)"
          unfolding t digits_value_Cons by simp
        also have "\<dots> = (of_int d + ?v / 10 ^ ?l) / 10" by (simp add: add_divide_distrib)
        finally show ?thesis unfolding v .
      qed
      also have "\<dots> = f" by (simp add: g_def)
      finally have v: "of_int (digits_value (frac_text (Suc n) f)) / 10 ^ length (frac_text (Suc n) f) = f" .
      have "list_all digit_cp (frac_text (Suc n) f)" "length (frac_text (Suc n) f) \<le> Suc n"
        unfolding t using IH dc by simp_all
      with v show ?thesis by blast
    qed
  qed
  then show "list_all digit_cp (frac_text n f)" "of_int (digits_value (frac_text n f)) / 10 ^ length (frac_text n f) = f"
    "length (frac_text n f) \<le> n" by simp_all
qed

lemma length_nat_text: "0 \<le> n \<Longrightarrow> n < 10 ^ k \<Longrightarrow> 0 < k \<Longrightarrow> length (nat_text n) \<le> k"
proof (induction k arbitrary: n)
  case (Suc k)
  show ?case
  proof (cases "n < 10")
    case True
    then show ?thesis by (simp add: nat_text.simps [of n])
  next
    case False
    then have "0 < k" using Suc.prems by (cases k) simp_all
    moreover have "n div 10 < 10 ^ k" using Suc.prems by (simp add: div_less_iff_less_mult)
    ultimately have "length (nat_text (n div 10)) \<le> k" using Suc.IH Suc.prems by simp
    with False show ?thesis by (simp add: nat_text.simps [of n])
  qed
qed simp

definition numeral_cp :: "int \<Rightarrow> bool" where
  "numeral_cp c \<longleftrightarrow> digit_cp c \<or> c = 46"

lemma strip_nothing: "\<forall>c \<in> set s. \<not> p c \<Longrightarrow> strip_by p s = s"
proof -
  assume "\<forall>c \<in> set s. \<not> p c"
  then have "dropWhile p s = s" "dropWhile p (rev s) = rev s"
    by (auto simp: dropWhile_eq_self_iff) (metis hd_in_set set_rev rev_is_Nil_conv)
  then show ?thesis by (simp add: strip_by_def)
qed

lemma numeral_text_plain:
  assumes "\<forall>c \<in> set s. numeral_cp c"
  shows "py_strip s = s" "py_lower (filter (\<lambda>c. c \<noteq> 95) s) = s"
proof -
  have "\<forall>c \<in> set s. \<not> py_space c" "\<forall>c \<in> set s. lower_cp c = c" "\<forall>c \<in> set s. c \<noteq> 95"
    using assms by (auto simp: numeral_cp_def digit_cp_def py_space_def lower_cp_def)
  then show "py_strip s = s" "py_lower (filter (\<lambda>c. c \<noteq> 95) s) = s"
    by (simp_all add: py_strip_def strip_nothing py_lower_def map_idI cong: map_cong)
qed

lemma takeWhile_all: "\<forall>c \<in> set xs. p c \<Longrightarrow> takeWhile p xs = xs \<and> dropWhile p xs = []"
  by (simp add: takeWhile_eq_all_conv)

text \<open>The written form of a number is read as the number.\<close>

lemma fixed_text_reads:
  assumes "0 \<le> q" "q * 10 ^ 28 \<in> \<int>"
  shows "\<forall>c \<in> set (fixed_text q). numeral_cp c" "py_decimal (fixed_text q) = Some (Num q)" "fixed_text q \<noteq> []"
    "q < 10 ^ k \<Longrightarrow> 0 < k \<Longrightarrow> length (fixed_text q) \<le> k + 29"
proof -
  define w where "w = \<lfloor>q\<rfloor>"
  define f where "f = q - of_int w"
  have w: "0 \<le> w" and f: "0 \<le> f" "f < 1" using assms(1) by (simp_all add: w_def f_def) linarith
  have "f * 10 ^ 28 = q * 10 ^ 28 - of_int (w * 10 ^ 28)" by (simp add: f_def algebra_simps)
  with assms(2) have fi: "f * 10 ^ 28 \<in> \<int>" by (metis Ints_diff Ints_of_int)
  define fs where "fs = frac_text 28 f"
  note ff = frac_text_value [OF f fi, folded fs_def]
  have t: "fixed_text q = nat_text w @ (if f = 0 then [] else 46 # fs)"
    using assms(1) by (simp add: fixed_text_def Let_def w_def f_def fs_def)
  have dg: "\<forall>c \<in> set (nat_text w). digit_cp c" "\<forall>c \<in> set fs. digit_cp c"
    using nat_text_digits [OF w] ff(1) by (auto simp: list_all_iff)
  have val: "of_int (digits_value (nat_text w @ fs)) / 10 ^ length fs = q"
    using ff(2) by (simp add: digits_value_append digits_value_nat_text [OF w] add_divide_distrib f_def)
  have fs0: "fs = []" if "f = 0" unfolding fs_def that by (rule frac_text_0)
  show chars: "\<forall>c \<in> set (fixed_text q). numeral_cp c"
    using dg by (auto simp: t numeral_cp_def)
  show ne: "fixed_text q \<noteq> []" by (simp add: t)
  obtain c cs where c: "nat_text w = c # cs" by (cases "nat_text w") auto
  with dg have c1: "48 \<le> c" "c \<le> 57" by (simp_all add: digit_cp_def)
  have pl: "plain_decimal (fixed_text q) = Some (q, [])"
  proof (cases "f = 0")
    case True
    then show ?thesis using val fs0
      by (simp add: plain_decimal_def t takeWhile_all [OF dg(1)])
  next
    case False
    have "takeWhile digit_cp (nat_text w @ 46 # fs) = nat_text w" "dropWhile digit_cp (nat_text w @ 46 # fs) = 46 # fs"
      using dg(1) by (simp_all add: takeWhile_append2 dropWhile_append2 digit_cp_def)
    with False val show ?thesis
      by (simp add: plain_decimal_def t takeWhile_all [OF dg(2)])
  qed
  have "py_decimal (fixed_text q) = map_option (\<lambda>e. Num (scale10 q e)) (exponent_of [])"
    using pl c1 unfolding py_decimal_def numeral_text_plain [OF chars]
    by (simp add: t c nan_text_def py_startswith_def lit_def digit_cp_def)
  then show "py_decimal (fixed_text q) = Some (Num q)" by (simp add: exponent_of_def scale10_def)
  show "length (fixed_text q) \<le> k + 29" if "q < 10 ^ k" "0 < k"
  proof -
    have "w < 10 ^ k" using that(1) by (simp add: w_def floor_less_iff)
    then have "length (nat_text w) \<le> k" using length_nat_text [OF w _ that(2)] by simp
    then show ?thesis using ff(3) by (simp add: t)
  qed
qed

lemma decimal_text_reads:
  assumes "0 \<le> v" "v * 10 ^ 8 \<in> \<int>" "v < 10 ^ 20"
  shows "decimal_to_text v = Some (fixed_text v)" "py_strip (fixed_text v) = fixed_text v" "fixed_text v \<noteq> []"
    "length (fixed_text v) \<le> 64" "py_decimal (fixed_text v) = Some (Num v)"
proof -
  obtain n where n: "v * 10 ^ 8 = of_int n" using assms(2) by (auto elim: Ints_cases)
  have v: "v = of_int n / 10 ^ 8" by (simp add: n [symmetric])
  have "v * 10 ^ 8 < 10 ^ 20 * 10 ^ 8" using assms(3) by simp
  then have "(of_int n :: rat) < of_int (10 ^ 28)" unfolding n by simp
  then have lt: "n < 10 ^ 28" by (rule iffD1 [OF of_int_less_iff])
  have "(0 :: rat) \<le> of_int n" using assms(1) by (simp add: n [symmetric])
  then have "0 \<le> n" by simp
  with lt show "decimal_to_text v = Some (fixed_text v)"
    unfolding decimal_to_text_def n round_half_even_int Let_def v [symmetric] by simp
  have "v * 10 ^ 28 = of_int (n * 10 ^ 20)" by (simp add: v)
  then have i: "v * 10 ^ 28 \<in> \<int>" by (metis Ints_of_int)
  note r = fixed_text_reads [OF assms(1) i]
  show "fixed_text v \<noteq> []" "py_decimal (fixed_text v) = Some (Num v)" by (rule r)+
  show "py_strip (fixed_text v) = fixed_text v" by (rule numeral_text_plain(1) [OF r(1)])
  show "length (fixed_text v) \<le> 64" using r(4) [OF assms(3)] by simp
qed

subsection \<open>Reading sorted objects\<close>

definition sorted_obj :: "(pystr \<times> json) list \<Rightarrow> (pystr \<times> json) list" where
  "sorted_obj kvs = sort_key fst (map (\<lambda>kv. (fst kv, sort_json (snd kv))) kvs)"

lemma sort_json_obj: "sort_json (JObj kvs) = JObj (sorted_obj kvs)"
  by (simp add: sorted_obj_def)

declare sort_json.simps(1) [simp del]

lemma map_of_sorted_obj:
  assumes "distinct (map fst kvs)"
  shows "map_of (sorted_obj kvs) k = map_option sort_json (map_of kvs k)"
proof -
  let ?f = "\<lambda>kv. (fst kv, sort_json (snd kv))"
  have d: "distinct (map fst (map ?f kvs))" using assms by (simp add: comp_def)
  have "mset (map fst (sorted_obj kvs)) = mset (map fst (map ?f kvs))"
    unfolding sorted_obj_def mset_map mset_sort ..
  then have "distinct (map fst (sorted_obj kvs))" using d by (metis mset_eq_imp_distinct_iff)
  then have "map_of (sorted_obj kvs) = map_of (map ?f kvs)"
    using map_of_inject_set [OF _ d] by (simp add: sorted_obj_def)
  moreover have "map_of (map ?f kvs) k = map_option sort_json (map_of kvs k)" by (induction kvs) auto
  ultimately show ?thesis by simp
qed

lemma trim_text_JStr: "trim_text pe lo hi (JStr s) = (if lo \<le> length (py_strip s) \<and> length (py_strip s) \<le> hi then Some (py_strip s) else None)"
  by (simp add: trim_text_def str_or_empty_def Let_def)

lemma optional_text_json: "max_len hi (normalize_optional_text v) \<Longrightarrow>
   optional_text pe hi (json_opt JStr (normalize_optional_text v)) = Some (normalize_optional_text v)"
  by (cases "normalize_optional_text v")
     (auto simp: optional_text_def json_opt_def str_or_empty_def normalize_optional_text_def Let_def
       normalize_optional_text_stripped dest: normalize_optional_text_SomeD split: if_splits)

lemma sort_json_opt [simp]: "sort_json (json_opt JStr v) = json_opt JStr v" "sort_json (json_opt JInt w) = json_opt JInt w"
  by (simp_all add: json_opt_def split: option.split)

lemma flow_of_value [simp]: "flow_of (JStr (lit (flow_value f))) = Some f"
  by (cases f) (simp_all add: flow_of_def flow_types_def)

lemma asset_of_value [simp]: "asset_of (JStr (lit (asset_value a))) = Some a"
  by (cases a) (simp_all add: asset_of_def asset_types_def)

lemma opt_int_json:
  "(\<And>n. pe_int pe (JInt n) = Some n) \<Longrightarrow> (\<forall>n. v = Some n \<longrightarrow> ok n) \<Longrightarrow> opt_int pe ok (json_opt JInt v) = Some v"
  by (cases v) (simp_all add: opt_int_def json_opt_def)

lemma py_strip_lit_flow [simp]: "py_strip (lit (flow_value f)) = lit (flow_value f)"
  by (cases f) (simp_all add: lit_def py_strip_def strip_by_def py_space_def)

lemmas row_reading = obj_of_def sort_json_obj map_of_sorted_obj field_of_def field_or_def trim_text_JStr
  optional_text_json opt_int_json int_in_def memo_text_def str_or_empty_def Let_def

definition exported_text :: "nat \<Rightarrow> pystr \<Rightarrow> bool" where
  "exported_text n s \<longleftrightarrow> py_strip s = s \<and> s \<noteq> [] \<and> length s \<le> n"

lemma exported_textD: "exported_text n s \<Longrightarrow> py_strip s = s \<and> 1 \<le> length s \<and> length s \<le> n"
  by (cases s) (auto simp: exported_text_def)

definition portable_category :: "category \<Rightarrow> bool" where
  "portable_category c \<longleftrightarrow>
     exported_text 120 (ct_major c) \<and> exported_text 120 (ct_minor c) \<and> 1 \<le> ct_sort_order c \<and> ct_sort_order c \<le> 9999"

definition category_row :: "category \<Rightarrow> package_category" where
  "category_row c =
     \<lparr>pc_flow_type = ct_flow_type c, pc_major = ct_major c, pc_minor = ct_minor c, pc_sort_order = ct_sort_order c\<rparr>"

definition ints_ok :: "package_env \<Rightarrow> bool" where
  "ints_ok pe \<longleftrightarrow> (\<forall>n. pe_int pe (JInt n) = Some n)"

lemma read_category_row:
  assumes "portable_category c" "ints_ok pe"
  shows "read_category pe (sort_json (category_json c)) = Some (category_row c)"
  using assms exported_textD [of 120 "ct_major c"] exported_textD [of 120 "ct_minor c"]
  by (simp add: read_category_def category_json_def row_reading portable_category_def ints_ok_def category_row_def
      or_default_def)

definition portable_row :: "db \<Rightarrow> transaction \<Rightarrow> bool" where
  "portable_row d t \<longleftrightarrow>
     length (export_major d t) \<le> 120 \<and> length (export_minor d t) \<le> 120
     \<and> krw_amount_ok (tx_amount t) \<and> tx_amount t < 10 ^ 20 \<and> installment_range (tx_installment_months t)
     \<and> (tx_installment_months t = None \<or> tx_flow_type t = Flow_expense)
     \<and> length (py_upper (py_strip (tx_currency t))) \<le> 8 \<and> length (tx_memo t) \<le> 5000
     \<and> max_len 80 (normalize_optional_text (tx_owner_name t)) \<and> exported_text 120 (export_tx_ref t)
     \<and> 1 \<le> tx_order_key t"

definition portable_tx :: "package_env \<Rightarrow> db \<Rightarrow> transaction \<Rightarrow> bool" where
  "portable_tx pe d t \<longleftrightarrow>
     pe_date pe (JStr (iso_date (tx_occurred_on t))) = Some (tx_occurred_on t) \<and> portable_row d t"

definition tx_row :: "db \<Rightarrow> transaction \<Rightarrow> package_transaction" where
  "tx_row d t =
     \<lparr>pk_occurred_on = tx_occurred_on t, pk_flow_type = tx_flow_type t, pk_category_major = export_major d t,
      pk_category_minor = export_minor d t, pk_amount = fixed_text (tx_amount t),
      pk_installment_months = tx_installment_months t, pk_currency = export_currency (tx_currency t),
      pk_memo = tx_memo t, pk_owner_name = normalize_optional_text (tx_owner_name t),
      pk_source_ref = export_tx_ref t, pk_order_key = Some (tx_order_key t)\<rparr>"

lemma text_of_strip [simp]: "py_strip (text_of v) = text_of v"
  by (simp add: text_of_def)

lemma or_else_strip: "py_strip t = t \<Longrightarrow> py_strip u = u \<Longrightarrow> py_strip (or_else t u) = or_else t u"
  by (simp add: or_else_def)

lemma or_else_not_Nil: "u \<noteq> [] \<Longrightarrow> or_else t u \<noteq> []"
  by (simp add: or_else_def)

lemma etc_text_strip [simp]: "py_strip etc_text = etc_text" "etc_text \<noteq> []"
  by (simp_all add: etc_text_def py_strip_def strip_by_def py_space_def)

lemma export_names_strip [simp]:
  "py_strip (export_major d t) = export_major d t" "py_strip (export_minor d t) = export_minor d t"
  "export_major d t \<noteq> []" "export_minor d t \<noteq> []"
  by (simp_all add: export_major_def export_minor_def or_else_strip or_else_not_Nil)

lemma krw_text: "py_strip (lit ''KRW'') = lit ''KRW''" "py_upper (lit ''KRW'') = lit ''KRW''" "length (lit ''KRW'') = 3"
  by (simp_all add: lit_def py_strip_def strip_by_def py_space_def py_upper_def upper_cp_def)

lemma export_currency_text:
  assumes "length (py_upper (py_strip c)) \<le> 8"
  shows "py_strip (export_currency c) = export_currency c" "export_currency c \<noteq> []" "length (export_currency c) \<le> 8"
    "export_currency (export_currency c) = export_currency c"
proof -
  have e: "export_currency c = (if c = [] \<or> py_strip c = [] then lit ''KRW'' else py_upper (py_strip c))"
    using assms by (auto simp: export_currency_def Let_def krw_text)
  show "py_strip (export_currency c) = export_currency c" "export_currency c \<noteq> []" "length (export_currency c) \<le> 8"
    using assms by (simp_all add: e krw_text py_strip_upper)
  show "export_currency (export_currency c) = export_currency c"
    unfolding e using assms by (auto simp: export_currency_def Let_def krw_text py_strip_upper)
qed

lemma pos_length: "s \<noteq> [] \<Longrightarrow> Suc 0 \<le> length s"
  by (cases s) simp_all

lemma krw_amount_text:
  assumes "krw_amount_ok a" "a < 10 ^ 20"
  shows "0 \<le> a" "a * 10 ^ 8 \<in> \<int>"
proof -
  from assms have a: "0 < a" "a = of_int \<lfloor>a\<rfloor>" by (auto simp: krw_amount_ok_def)
  then show "0 \<le> a" by simp
  have "a * 10 ^ 8 = of_int (\<lfloor>a\<rfloor> * 10 ^ 8)" using a(2) by simp
  then show "a * 10 ^ 8 \<in> \<int>" by (metis Ints_of_int)
qed

lemma read_tx_row:
  assumes "portable_tx pe d t" "ints_ok pe"
  shows "Option.bind (transaction_json d t) (\<lambda>j. read_transaction pe (sort_json j)) = Some (tx_row d t)"
proof -
  have k: "0 \<le> tx_amount t" "tx_amount t * 10 ^ 8 \<in> \<int>" "tx_amount t < 10 ^ 20"
    using assms(1) krw_amount_text by (auto simp: portable_tx_def portable_row_def)
  note a = decimal_text_reads [OF k]
  have c: "length (py_upper (py_strip (tx_currency t))) \<le> 8" using assms(1) by (simp add: portable_tx_def portable_row_def)
  have r: "exported_text 120 (export_tx_ref t)" using assms(1) by (simp add: portable_tx_def portable_row_def)
  have 1: "none_if_zero (tx_order_key t) = Some (tx_order_key t)" using assms(1) by (simp add: portable_tx_def portable_row_def none_if_zero_def)
  have i: "opt_int pe (\<lambda>n. 2 \<le> n \<and> n \<le> 120) (json_opt JInt (tx_installment_months t)) = Some (tx_installment_months t)"
    "opt_int pe ((\<le>) 1) (json_opt JInt (Some (tx_order_key t))) = Some (Some (tx_order_key t))"
    using assms by (auto simp: ints_ok_def portable_tx_def portable_row_def installment_range_def intro!: opt_int_json)
  have dt: "pe_date pe (JStr (iso_date (tx_occurred_on t))) = Some (tx_occurred_on t)"
    using assms(1) by (simp add: portable_tx_def portable_row_def)
  have f: "tx_installment_months t = None \<or> tx_flow_type t = Flow_expense"
    using assms(1) by (simp add: portable_tx_def portable_row_def)
  have l: "length (export_major d t) \<le> 120" "length (export_minor d t) \<le> 120" "length (tx_memo t) \<le> 5000"
    "max_len 80 (normalize_optional_text (tx_owner_name t))" using assms(1) by (simp_all add: portable_tx_def portable_row_def)
  show ?thesis
    using exported_textD [OF r] f
    by (auto simp: transaction_json_def a read_transaction_def sort_json_obj obj_of_def field_of_def field_or_def map_of_sorted_obj
      dt trim_text_JStr pos_length l i export_currency_text [OF c] memo_text_def str_or_empty_def optional_text_json 1 tx_row_def Let_def)
qed

definition decimal_ok :: "rat \<Rightarrow> bool" where
  "decimal_ok v \<longleftrightarrow> 0 \<le> v \<and> v * 10 ^ 8 = of_int \<lfloor>v * 10 ^ 8\<rfloor> \<and> v < 10 ^ 20"

lemma decimal_okD: "decimal_ok v \<Longrightarrow> 0 \<le> v" "decimal_ok v \<Longrightarrow> v * 10 ^ 8 \<in> \<int>" "decimal_ok v \<Longrightarrow> v < 10 ^ 20"
  unfolding decimal_ok_def by (metis Ints_of_int)+

definition export_hd_category :: "holding \<Rightarrow> pystr" where
  "export_hd_category x = or_else (py_strip (or_else (hd_category x) etc_text)) etc_text"

definition portable_holding :: "holding \<Rightarrow> bool" where
  "portable_holding x \<longleftrightarrow>
     exported_text 40 (hd_symbol x) \<and> exported_text 40 (hd_market_symbol x) \<and> exported_text 120 (hd_name x)
     \<and> max_len 80 (normalize_optional_text (hd_type_key x)) \<and> length (export_hd_category x) \<le> 80
     \<and> max_len 80 (normalize_optional_text (hd_owner_name x)) \<and> length (text_of (hd_account_name x)) \<le> 120
     \<and> decimal_ok (hd_quantity x) \<and> 0 < hd_quantity x \<and> decimal_ok (hd_average_cost x)
     \<and> length (py_upper (py_strip (hd_currency x))) \<le> 8 \<and> 1 \<le> hd_display_order x \<and> hd_display_order x \<le> 9999
     \<and> exported_text 120 (export_hd_ref x)"

definition holding_row :: "holding \<Rightarrow> package_holding" where
  "holding_row x =
     \<lparr>pg_asset_type = hd_asset_type x, pg_symbol = hd_symbol x, pg_market_symbol = hd_market_symbol x,
      pg_name = hd_name x, pg_type_key = normalize_optional_text (hd_type_key x), pg_category = export_hd_category x,
      pg_owner_name = normalize_optional_text (hd_owner_name x), pg_account_name = text_of (hd_account_name x),
      pg_quantity = fixed_text (hd_quantity x), pg_average_cost = fixed_text (hd_average_cost x),
      pg_currency = export_currency (hd_currency x), pg_display_order = hd_display_order x,
      pg_source_ref = export_hd_ref x\<rparr>"

lemma read_holding_row:
  assumes "portable_holding x" "ints_ok pe"
  shows "Option.bind (holding_json x) (\<lambda>j. read_holding pe (sort_json j)) = Some (holding_row x)"
proof -
  have d: "decimal_ok (hd_quantity x)" "decimal_ok (hd_average_cost x)" using assms(1) by (simp_all add: portable_holding_def)
  note q = decimal_text_reads [OF decimal_okD [OF d(1)]] and a = decimal_text_reads [OF decimal_okD [OF d(2)]]
  have c: "length (py_upper (py_strip (hd_currency x))) \<le> 8" using assms(1) by (simp add: portable_holding_def)
  have e: "py_strip (export_hd_category x) = export_hd_category x" "export_hd_category x \<noteq> []"
    by (simp_all add: export_hd_category_def or_else_strip or_else_not_Nil)
  have r: "exported_text 120 (export_hd_ref x)" "exported_text 40 (hd_symbol x)" "exported_text 40 (hd_market_symbol x)"
    "exported_text 120 (hd_name x)" using assms(1) by (simp_all add: portable_holding_def)
  have o: "1 \<le> hd_display_order x" "hd_display_order x \<le> 9999" using assms(1) by (simp_all add: portable_holding_def)
  have l: "length (export_hd_category x) \<le> 80" "length (text_of (hd_account_name x)) \<le> 120"
    "max_len 80 (normalize_optional_text (hd_owner_name x))" "max_len 80 (normalize_optional_text (hd_type_key x))"
    using assms(1) by (simp_all add: portable_holding_def)
  have i: "int_in pe 1 9999 (JInt (or_default (hd_display_order x) 100)) = Some (hd_display_order x)"
    using o assms(2) by (simp add: int_in_def or_default_def ints_ok_def)
  show ?thesis
    using exported_textD [OF r(1)] exported_textD [OF r(2)] exported_textD [OF r(3)] exported_textD [OF r(4)]
    by (simp add: holding_json_def q a read_holding_def sort_json_obj obj_of_def field_of_def field_or_def map_of_sorted_obj
      trim_text_JStr pos_length l i e export_currency_text [OF c] optional_text_json holding_row_def
      flip: export_hd_category_def)
qed

lemma those_bind:
  assumes "\<forall>x \<in> set xs. Option.bind (f x) g = Some (h x)"
  shows "\<exists>js. those (map f xs) = Some js \<and> those (map g js) = Some (map h xs)"
  using assms
proof (induction xs)
  case (Cons x xs)
  then obtain js where "those (map f xs) = Some js" "those (map g js) = Some (map h xs)" by auto
  moreover from Cons.prems obtain j where "f x = Some j" "g j = Some (h x)" by (auto simp: bind_eq_Some_conv)
  ultimately show ?case by auto
qed simp

lemma those_map_Some: "(\<And>x. x \<in> set xs \<Longrightarrow> f x = Some (g x)) \<Longrightarrow> those (map f xs) = Some (map g xs)"
  by (induction xs) auto

subsection \<open>The whole document\<close>

definition portable_household :: "package_env \<Rightarrow> db \<Rightarrow> household \<Rightarrow> bool" where
  "portable_household pe d h \<longleftrightarrow>
     ints_ok pe \<and> pe_datetime_ok pe (JStr (pe_now_iso pe)) \<and> length (py_lower (py_strip (pe_env_name pe))) \<le> 32
     \<and> py_strip (py_lower (py_strip (pe_env_name pe))) = py_lower (py_strip (pe_env_name pe))
     \<and> exported_text 36 (hh_id h) \<and> exported_text 120 (py_strip (hh_name h))
     \<and> length (py_upper (py_strip (hh_base_currency h))) \<le> 8
     \<and> normalize_transaction_row_colors (Some (hh_transaction_row_colors h)) \<noteq> None
     \<and> list_all portable_category (export_categories d (hh_id h))
     \<and> list_all (portable_tx pe d) (export_transactions d (hh_id h))
     \<and> list_all portable_holding (export_holdings d (hh_id h))"

lemma colors_of_sorted:
  assumes "distinct (map fst colors)"
  shows "\<exists>cs. colors_of (sort_json (JObj (map (\<lambda>(k, v). (k, JStr v)) colors))) = Some cs \<and> set cs = set colors"
proof -
  let ?g = "\<lambda>(k, c). map_option (Pair k) (str_of c)"
  let ?o = "sorted_obj (map (\<lambda>(k, v). (k, JStr v)) colors)"
  have set_o: "set ?o = (\<lambda>(k, v). (k, JStr v)) ` set colors"
    by (auto simp: sorted_obj_def image_image case_prod_beta)
  have "those (map ?g ?o) = Some (map (\<lambda>(k, j). (k, the (str_of j))) ?o)"
    by (rule those_map_Some) (auto simp: set_o str_of_def)
  moreover have "set (map (\<lambda>(k, j). (k, the (str_of j))) ?o) = set colors"
    unfolding set_map set_o by (auto simp: str_of_def image_image case_prod_beta)
  ultimately show ?thesis
    by (simp add: colors_of_def sort_json_obj obj_of_def)
qed

lemma hex_color_strip: "hex_color c \<Longrightarrow> py_strip c = c"
proof -
  assume h: "hex_color c"
  then obtain a cs where c: "c = a # cs" by (cases c) (auto simp: hex_color_def)
  with h have "\<forall>x \<in> set c. \<not> py_space x"
    by (auto simp: hex_color_def list_all_iff hex_digit_cp_def digit_cp_def py_space_def)
  then show ?thesis by (simp add: py_strip_def strip_nothing)
qed

definition color_entry_ok :: "pystr \<times> pystr \<Rightarrow> bool" where
  "color_entry_ok kv \<longleftrightarrow> py_lower (py_strip (fst kv)) \<in> set flow_values \<and> hex_color (py_strip (snd kv))"

lemma merge_row_colors_total:
  "\<forall>kv \<in> set items. color_entry_ok kv \<Longrightarrow> merge_row_colors merged items \<noteq> None"
  by (induction merged items rule: merge_row_colors.induct) (auto simp: color_entry_ok_def Let_def)

lemma flow_values_plain: "k \<in> set flow_values \<Longrightarrow> py_lower (py_strip k) = k"
proof -
  have "\<forall>k \<in> set flow_values. py_lower (py_strip k) = k" by code_simp
  then show "k \<in> set flow_values \<Longrightarrow> py_lower (py_strip k) = k" by blast
qed

lemma merge_row_colors_ok:
  assumes "merge_row_colors merged items = Some out" "\<forall>kv \<in> set merged. color_entry_ok kv" "distinct (map fst merged)"
  shows "(\<forall>kv \<in> set out. color_entry_ok kv) \<and> distinct (map fst out)"
  using assms
proof (induction merged items rule: merge_row_colors.induct)
  case (2 merged raw_key raw_color items)
  let ?k = "py_lower (py_strip raw_key)" and ?c = "py_upper (py_strip raw_color)"
  from 2(2) have k: "?k \<in> set flow_values" "hex_color (py_strip raw_color)"
    and m: "merge_row_colors (dict_put ?k ?c merged) items = Some out"
    by (auto simp: Let_def split: if_splits)
  have "color_entry_ok (?k, ?c)"
    using k flow_values_plain [OF k(1)] hex_color_upper [OF k(2)] hex_color_strip [OF hex_color_upper [OF k(2)]]
    by (simp add: color_entry_ok_def)
  then have "\<forall>kv \<in> set (dict_put ?k ?c merged). color_entry_ok kv"
    using 2(3) set_dict_put [of ?k ?c merged] by blast
  moreover have "\<not> ?k \<notin> set flow_values" "\<not> \<not> hex_color (py_strip raw_color)" using k by simp_all
  ultimately show ?case using 2(1) [OF refl refl] m distinct_dict_put [OF 2(4)] by blast
qed simp

lemma default_colors_ok: "\<forall>kv \<in> set default_transaction_row_colors. color_entry_ok kv"
  "distinct (map fst default_transaction_row_colors)"
  by code_simp+

lemma normalized_colors_ok:
  assumes "normalize_transaction_row_colors v = Some out"
  shows "\<forall>kv \<in> set out. color_entry_ok kv" "distinct (map fst out)"
proof -
  have "merge_row_colors default_transaction_row_colors (case v of None \<Rightarrow> [] | Some items \<Rightarrow> items) = Some out"
    using assms by (simp add: normalize_transaction_row_colors_def split: option.splits)
  from merge_row_colors_ok [OF this default_colors_ok]
  show "\<forall>kv \<in> set out. color_entry_ok kv" "distinct (map fst out)" by simp_all
qed

definition loads_as :: "package_env \<Rightarrow> db \<Rightarrow> household \<Rightarrow> package_payload \<Rightarrow> bool" where
  "loads_as pe d h p \<longleftrightarrow>
     pp_schema_version p = 2 \<and> pp_name p = py_strip (hh_name h) \<and> pp_base_currency p = export_currency (hh_base_currency h)
     \<and> normalize_transaction_row_colors (Some (pp_transaction_row_colors p)) \<noteq> None
     \<and> pp_categories p = map category_row (export_categories d (hh_id h))
     \<and> pp_transactions p = map (tx_row d) (export_transactions d (hh_id h))
     \<and> pp_holdings p = map holding_row (export_holdings d (hh_id h))"

lemma read_rows_sorted:
  "read_rows f (sort_json (JList js)) = those (map (\<lambda>j. f (sort_json j)) js)"
  by (simp add: read_rows_def list_of_def comp_def)

lemma payload_reads:
  assumes "portable_household pe d h"
  shows "\<exists>j p. payload_json pe d h = Some j \<and> read_payload pe (sort_json j) = Some (lit ''moneyflow-household-transfer'', p)
    \<and> loads_as pe d h p"
proof -
  have P: "ints_ok pe" "pe_datetime_ok pe (JStr (pe_now_iso pe))" "exported_text 36 (hh_id h)"
    "exported_text 120 (py_strip (hh_name h))" "length (py_upper (py_strip (hh_base_currency h))) \<le> 8"
    "length (py_lower (py_strip (pe_env_name pe))) \<le> 32"
    "py_strip (py_lower (py_strip (pe_env_name pe))) = py_lower (py_strip (pe_env_name pe))"
    using assms by (simp_all add: portable_household_def)
  obtain colors where colors: "normalize_transaction_row_colors (Some (hh_transaction_row_colors h)) = Some colors"
    using assms by (auto simp: portable_household_def)
  note ck = normalized_colors_ok [OF colors]
  obtain cs where cs: "colors_of (sort_json (JObj (map (\<lambda>(k, v). (k, JStr v)) colors))) = Some cs" "set cs = set colors"
    using colors_of_sorted [OF ck(2)] by blast
  have cn: "normalize_transaction_row_colors (Some cs) \<noteq> None"
    using merge_row_colors_total [of cs] ck(1) cs(2) by (simp add: normalize_transaction_row_colors_def)
  obtain txs where txs: "those (map (transaction_json d) (export_transactions d (hh_id h))) = Some txs"
      "those (map (\<lambda>j. read_transaction pe (sort_json j)) txs) = Some (map (tx_row d) (export_transactions d (hh_id h)))"
    using those_bind [of "export_transactions d (hh_id h)" "transaction_json d" "\<lambda>j. read_transaction pe (sort_json j)" "tx_row d"]
      read_tx_row assms P(1) by (auto simp: portable_household_def list_all_iff)
  obtain hds where hds: "those (map holding_json (export_holdings d (hh_id h))) = Some hds"
      "those (map (\<lambda>j. read_holding pe (sort_json j)) hds) = Some (map holding_row (export_holdings d (hh_id h)))"
    using those_bind [of "export_holdings d (hh_id h)" holding_json "\<lambda>j. read_holding pe (sort_json j)" holding_row]
      read_holding_row assms P(1) by (auto simp: portable_household_def list_all_iff)
  have cats: "those (map (\<lambda>j. read_category pe (sort_json j)) (map category_json (export_categories d (hh_id h))))
      = Some (map category_row (export_categories d (hh_id h)))"
    unfolding map_map comp_def
    by (rule those_map_Some) (use read_category_row assms P(1) in \<open>auto simp: portable_household_def list_all_iff\<close>)
  let ?settings = "holding_settings_json (normalize_holding_settings (pe_str pe) (JObj (hh_holding_settings h)))"
  let ?hs = "JObj [(lit ''name'', JStr (py_strip (hh_name h))),
              (lit ''base_currency'', JStr (export_currency (hh_base_currency h))),
              (lit ''transaction_row_colors'', JObj (map (\<lambda>(k, v). (k, JStr v)) colors)),
              (lit ''holding_settings'', JObj ?settings)]"
  let ?src = "JObj [(lit ''env'', JStr (py_lower (py_strip (pe_env_name pe)))),
              (lit ''household_id'', JStr (hh_id h)), (lit ''household_name'', JStr (py_strip (hh_name h)))]"
  have src: "read_source pe (sort_json ?src) = Some (py_lower (py_strip (pe_env_name pe)), hh_id h, py_strip (hh_name h))"
    using exported_textD [OF P(3)] exported_textD [OF P(4)] P(6,7)
    by (simp add: read_source_def sort_json_obj obj_of_def field_of_def field_or_def map_of_sorted_obj trim_text_JStr)
  have hs: "read_household_settings pe (sort_json ?hs)
      = Some (py_strip (hh_name h), export_currency (hh_base_currency h), cs, sorted_obj ?settings)"
    using exported_textD [OF P(4)] cs(1)
    by (simp add: read_household_settings_def sort_json_obj obj_of_def field_of_def field_or_def map_of_sorted_obj
        trim_text_JStr export_currency_text [OF P(5)] pos_length)
  let ?k = "lit ''moneyflow-household-transfer''"
  have k: "py_strip ?k = ?k" "length ?k = 28" by code_simp+
  have n: "pe_int pe (JInt 2) = Some 2" using P(1) by (simp add: ints_ok_def)
  let ?j = "JObj [(lit ''kind'', JStr ?k), (lit ''schema_version'', JInt 2), (lit ''exported_at'', JStr (pe_now_iso pe)),
           (lit ''source'', ?src), (lit ''household_settings'', ?hs),
           (lit ''categories'', JList (map category_json (export_categories d (hh_id h)))),
           (lit ''transactions'', JList txs), (lit ''holdings'', JList hds)]"
  have j: "payload_json pe d h = Some ?j"
    by (simp add: payload_json_def colors txs(1) hds(1) Let_def)
  let ?o = "[(lit ''kind'', JStr ?k), (lit ''schema_version'', JInt 2), (lit ''exported_at'', JStr (pe_now_iso pe)),
           (lit ''source'', ?src), (lit ''household_settings'', ?hs),
           (lit ''categories'', JList (map category_json (export_categories d (hh_id h)))),
           (lit ''transactions'', JList txs), (lit ''holdings'', JList hds)]"
  have o: "obj_of (sort_json ?j) = Some (sorted_obj ?o)" by (simp add: sort_json_obj obj_of_def)
  have d: "distinct (map fst ?o)" by simp
  have "\<exists>p. read_payload pe (sort_json ?j) = Some (?k, p) \<and> loads_as pe d h p"
    unfolding read_payload_def o using cn
    by (simp add: field_of_def map_of_sorted_obj [OF d] trim_text_JStr k n P(2) src hs read_rows_sorted cats [unfolded map_map] txs(2) hds(2)
        loads_as_def del: sort_json.simps(1,2))
  with j show ?thesis by blast
qed

subsection \<open>The archive\<close>

text \<open>What the standard library documents: an archive, a JSON text and a digest read back as written.\<close>

definition library_ok :: "package_env \<Rightarrow> bool" where
  "library_ok pe \<longleftrightarrow>
     (\<forall>ms. pe_open_zip pe (pe_write_zip pe ms)
        = Zip (map (\<lambda>(n, b). \<lparr>zm_filename = n, zm_file_size = int (length b), zm_data = Data b\<rparr>) ms))
     \<and> (\<forall>j. pe_parse pe (pe_dumps pe j) = Some j \<and> pe_dumps pe j \<noteq> [])
     \<and> (\<forall>b. length (pe_sha256 pe b) = 64 \<and> py_strip (pe_sha256 pe b) = pe_sha256 pe b)"

definition package_fits :: "package_env \<Rightarrow> db \<Rightarrow> household \<Rightarrow> bool" where
  "package_fits pe d h \<longleftrightarrow>
     2 \<le> pe_max_zip_entries pe
     \<and> (case payload_json pe d h of
          None \<Rightarrow> False
        | Some j \<Rightarrow> int (length (dump_json pe (manifest_json pe h (dump_json pe j))) + length (dump_json pe j))
                    \<le> pe_max_uncompressed_bytes pe)"

lemma manifest_reads:
  assumes "portable_household pe d h" "library_ok pe" "b \<noteq> []"
  shows "read_manifest pe (sort_json (manifest_json pe h b))
    = Some \<lparr>pm_kind = lit ''moneyflow-household-transfer-manifest'', pm_schema_version = 2,
            pm_payload_sha256 = pe_sha256 pe b, pm_payload_size_bytes = int (length b)\<rparr>"
proof -
  let ?k = "lit ''moneyflow-household-transfer-manifest''"
  have k: "py_strip ?k = ?k" "length ?k = 37" by code_simp+
  have P: "exported_text 36 (hh_id h)" "exported_text 120 (py_strip (hh_name h))" "pe_datetime_ok pe (JStr (pe_now_iso pe))"
    "length (py_lower (py_strip (pe_env_name pe))) \<le> 32"
    "py_strip (py_lower (py_strip (pe_env_name pe))) = py_lower (py_strip (pe_env_name pe))"
    "\<And>n. pe_int pe (JInt n) = Some n"
    using assms(1) by (simp_all add: portable_household_def ints_ok_def)
  have s: "length (pe_sha256 pe b) = 64" "py_strip (pe_sha256 pe b) = pe_sha256 pe b"
    using assms(2) by (simp_all add: library_ok_def)
  show ?thesis
    using exported_textD [OF P(1)] exported_textD [OF P(2)] assms(3)
    by (simp add: manifest_json_def read_manifest_def sort_json_obj obj_of_def field_of_def field_or_def map_of_sorted_obj
        trim_text_JStr k s P pos_length)
qed

lemma exported_package_loads:
  assumes "portable_household pe d h" "library_ok pe" "package_fits pe d h"
  shows "\<exists>bytes file_name p. export_package pe d h = Some (bytes, file_name)
    \<and> load_package pe (pe_open_zip pe bytes) = Inr p \<and> loads_as pe d h p"
proof -
  from payload_reads [OF assms(1)] obtain j p where j: "payload_json pe d h = Some j"
    and p: "read_payload pe (sort_json j) = Some (lit ''moneyflow-household-transfer'', p)" and l: "loads_as pe d h p"
    by blast
  let ?b = "dump_json pe j"
  let ?m = "dump_json pe (manifest_json pe h ?b)"
  let ?zip = "pe_write_zip pe [(manifest_member, ?m), (payload_member, ?b)]"
  have parse: "pe_parse pe (dump_json pe x) = Some (sort_json x)" and ne: "dump_json pe x \<noteq> []" for x
    using assms(2) by (simp_all add: library_ok_def dump_json_def)
  have open_: "pe_open_zip pe ?zip = Zip [\<lparr>zm_filename = manifest_member, zm_file_size = int (length ?m), zm_data = Data ?m\<rparr>,
      \<lparr>zm_filename = payload_member, zm_file_size = int (length ?b), zm_data = Data ?b\<rparr>]"
    using assms(2) by (simp add: library_ok_def)
  have names: "manifest_member \<noteq> payload_member" by (simp add: manifest_member_def payload_member_def)
  have archive: "read_archive pe (pe_open_zip pe ?zip) = Inr (?m, ?b)"
    using assms(3) names by (simp add: open_ read_archive_def package_fits_def j read_member_def)
  have v: "pp_schema_version p = 2" using l by (simp add: loads_as_def)
  have "load_package pe (pe_open_zip pe ?zip) = Inr p"
    by (simp add: load_package_def archive parse manifest_reads [OF assms(1,2) ne] p v del: sort_json.simps)
  with l show ?thesis by (simp add: export_package_def j Let_def)
qed

subsection \<open>Preparing the rows\<close>

lemma amount_reads:
  assumes "krw_amount_ok a" "a < 10 ^ 20"
  shows "parse_positive_krw_transaction_amount (fixed_text a) = Inr a"
proof -
  note k = krw_amount_text [OF assms]
  note r = decimal_text_reads [OF k assms(2)]
  have "0 < a" "a = of_int \<lfloor>a\<rfloor>" using assms(1) by (simp_all add: krw_amount_ok_def)
  then show ?thesis
    by (simp add: parse_positive_krw_transaction_amount_def parse_positive_decimal_def parse_decimal_where_def r)
qed

definition prepared :: "owner_lookup \<Rightarrow> db \<Rightarrow> int \<Rightarrow> transaction \<Rightarrow> prepared_tx" where
  "prepared lookup d index t = prepared_tx lookup index (tx_amount t) (tx_row d t)"

fun prepare_all :: "owner_lookup \<Rightarrow> db \<Rightarrow> int \<Rightarrow> transaction list \<Rightarrow> prepared_tx list" where
  "prepare_all lookup d index [] = []"
| "prepare_all lookup d index (t # ts) = prepared lookup d index t # prepare_all lookup d (index + 1) ts"

lemma prepare_transactions_all:
  assumes "list_all (portable_tx pe d) ts" "distinct (map export_tx_ref ts)" "export_tx_ref ` set ts \<inter> seen = {}"
  shows "prepare_transactions lookup index seen (map (tx_row d) ts) = Inr (prepare_all lookup d index ts, [])"
  using assms
proof (induction ts arbitrary: index seen)
  case (Cons t ts)
  have t: "krw_amount_ok (tx_amount t)" "tx_amount t < 10 ^ 20" using Cons.prems(1) by (simp_all add: portable_tx_def portable_row_def)
  have r: "pk_source_ref (tx_row d t) = export_tx_ref t" "pk_amount (tx_row d t) = fixed_text (tx_amount t)"
    by (simp_all add: tx_row_def)
  have IH: "prepare_transactions lookup (index + 1) (insert (export_tx_ref t) seen) (map (tx_row d) ts)
      = Inr (prepare_all lookup d (index + 1) ts, [])"
    by (rule Cons.IH) (use Cons.prems in auto)
  show ?case using Cons.prems(3) amount_reads [OF t] IH by (simp add: r prepared_def)
qed simp

definition prepared_hd :: "owner_lookup \<Rightarrow> holding \<Rightarrow> prepared_holding" where
  "prepared_hd lookup x =
     (let name = normalize_optional_text (hd_owner_name x)
      in (holding_row x, owner_user_id_for lookup name, text_or name [], hd_quantity x, hd_average_cost x))"

lemma prepare_holdings_all:
  assumes "list_all portable_holding xs" "distinct (map (\<lambda>x. package_identity lookup (holding_row x)) xs)"
    "(\<lambda>x. package_identity lookup (holding_row x)) ` set xs \<inter> seen = {}"
  shows "prepare_holdings lookup index seen (map holding_row xs) = Inr (map (prepared_hd lookup) xs, [])"
  using assms
proof (induction xs arbitrary: index seen)
  case (Cons x xs)
  have d: "decimal_ok (hd_quantity x)" "0 < hd_quantity x" "decimal_ok (hd_average_cost x)"
    using Cons.prems(1) by (simp_all add: portable_holding_def)
  note q = decimal_text_reads [OF decimal_okD [OF d(1)]] and a = decimal_text_reads [OF decimal_okD [OF d(3)]]
  have r: "pg_quantity (holding_row x) = fixed_text (hd_quantity x)" "pg_average_cost (holding_row x) = fixed_text (hd_average_cost x)"
    "pg_owner_name (holding_row x) = normalize_optional_text (hd_owner_name x)"
    by (simp_all add: holding_row_def)
  have n: "parse_positive_decimal (fixed_text (hd_quantity x)) = Inr (hd_quantity x)"
    "parse_non_negative_decimal (fixed_text (hd_average_cost x)) = Inr (hd_average_cost x)"
    using d(2) decimal_okD(1) [OF d(3)]
    by (simp_all add: parse_positive_decimal_def parse_non_negative_decimal_def parse_decimal_where_def q a)
  have IH: "prepare_holdings lookup (index + 1) (insert (package_identity lookup (holding_row x)) seen) (map holding_row xs)
      = Inr (map (prepared_hd lookup) xs, [])"
    by (rule Cons.IH) (use Cons.prems in auto)
  show ?case using Cons.prems(3) IH by (simp add: r n prepared_hd_def Let_def)
qed simp

end
