(* ===== verification/Migration_Move.thy ===== *)
theory Migration_Move
  imports Migration_Reading Workbook_Plan
begin

text \<open>
  What applying a transfer package makes of the database: the inserted categories, transactions and
  holdings with their content, the rows of other households, and the result of a guarded run.
\<close>

subsection \<open>Categories of the target\<close>

lemma category_sort_orders_distinct:
  assumes "distinct (map fst acc @ map pc_names rows)"
  shows "category_sort_orders i acc rows = (acc @ map (\<lambda>c. (pc_names c, pc_sort_order c)) rows, [])"
  using assms
proof (induction i acc rows rule: category_sort_orders.induct)
  case (2 i acc row rows)
  then have "map_of acc (pc_names row) = None" by (auto simp: map_of_eq_None_iff)
  moreover have "distinct (map fst (acc @ [(pc_names row, pc_sort_order row)]) @ map pc_names rows)" using 2(3) by simp
  ultimately show ?case using 2(2) by simp
qed simp

lemma fold_add_tx_category:
  "distinct (map fst acc) \<Longrightarrow> distinct (map fst (fold add_tx_category ts acc))
    \<and> map_of (fold add_tx_category ts acc) n
      = (case map_of acc n of Some s \<Rightarrow> Some s | None \<Rightarrow> if n \<in> pk_names ` set ts then Some 100 else None)"
proof (induction ts arbitrary: acc)
  case (Cons t ts)
  have d: "distinct (map fst (add_tx_category t acc))"
    using Cons.prems by (auto simp: add_tx_category_def map_of_eq_None_iff)
  have m: "map_of (add_tx_category t acc) n
      = (case map_of acc n of Some s \<Rightarrow> Some s | None \<Rightarrow> if n = pk_names t then Some 100 else None)"
    by (cases "map_of acc (pk_names t)") (auto simp: add_tx_category_def map_of_snoc simp del: map_of_append split: option.splits)
  show ?case using Cons.IH [OF d] by (auto simp: m split: option.splits)
qed (simp split: option.splits)

definition category_entry :: "category \<Rightarrow> category_names \<times> int" where
  "category_entry c = (category_names c, ct_sort_order c)"

lemma insert_categories_shape:
  assumes "insert_categories ie h rows cm st = (cm', st')"
  shows "\<exists>cs. im_db st' = set_categories (db_categories (im_db st) @ cs) (im_db st) \<and> map category_entry cs = rows
          \<and> (\<forall>c \<in> set cs. ct_household_id c = h)"
  using assms
proof (induction ie h rows cm st arbitrary: cm' st' rule: insert_categories.induct)
  case (1 ie h cm st)
  then show ?case by (auto intro: exI [of _ "[]"])
next
  case (2 ie h key n rows cm st)
  obtain i st1 where i: "insert_category ie h key n st = (i, st1)" by fastforce
  obtain flow major minor where key: "key = (flow, major, minor)" by (cases key) auto
  let ?c = "\<lparr>ct_id = i, ct_household_id = h, ct_flow_type = flow, ct_major = major, ct_minor = minor,
         ct_sort_order = n, ct_created_at = ev_db_now (ie_env ie)\<rparr>"
  have st1: "im_db st1 = set_categories (db_categories (im_db st) @ [?c]) (im_db st)"
    using i by (auto simp: insert_category_def key Let_def)
  have "insert_categories ie h rows (cm @ [(key, i)]) st1 = (cm', st')" using 2(2) i by simp
  from 2(1) [OF i [symmetric] refl this] obtain cs
    where cs: "im_db st' = set_categories (db_categories (im_db st1) @ cs) (im_db st1)"
      "map category_entry cs = rows" "\<forall>c \<in> set cs. ct_household_id c = h" by blast
  have "im_db st' = set_categories (db_categories (im_db st) @ (?c # cs)) (im_db st)" by (simp add: cs(1) st1)
  moreover have "map category_entry (?c # cs) = (key, n) # rows" using cs(2) by (simp add: category_entry_def category_names_def key)
  moreover have "\<forall>c \<in> set (?c # cs). ct_household_id c = h" using cs(3) by simp
  ultimately show ?case by (intro exI [of _ "?c # cs"] conjI)
qed

lemma insert_categories_map:
  assumes "insert_categories ie h rows cm st = (cm', st')" "fresh_ids ie st" "map_ok cm (im_db st)"
  shows "map_ok cm' (im_db st') \<and> fst ` set cm' = fst ` set cm \<union> fst ` set rows"
  using assms
proof (induction ie h rows cm st arbitrary: cm' st' rule: insert_categories.induct)
  case (2 ie h key n rows cm st)
  obtain i st1 where i: "insert_category ie h key n st = (i, st1)" by fastforce
  note f = insert_category_facts [OF i 2(3)]
  have "map_ok (cm @ [(key, i)]) (im_db st1)"
    by (rule map_ok_snoc [OF map_ok_grows [OF 2(4) f(1)] f(3)])
  moreover have "insert_categories ie h rows (cm @ [(key, i)]) st1 = (cm', st')" using 2(2) i by simp
  ultimately have "map_ok cm' (im_db st') \<and> fst ` set cm' = fst ` set (cm @ [(key, i)]) \<union> fst ` set rows"
    using 2(1) [OF i [symmetric] refl _ f(2)] by blast
  then show ?case by auto
qed auto

subsection \<open>Transactions of the target\<close>

definition moved_tx :: "import_env \<Rightarrow> pystr \<Rightarrow> pystr \<Rightarrow> category_map \<Rightarrow> prepared_tx \<Rightarrow> transaction \<Rightarrow> bool" where
  "moved_tx ie h a cm p r \<longleftrightarrow> r = transferred_tx ie h a cm (tx_order_key r) (tx_id r) p"

definition later_key :: "transaction \<Rightarrow> transaction \<Rightarrow> bool" where
  "later_key t r \<longleftrightarrow> (tx_occurred_on t = tx_occurred_on r \<longrightarrow> tx_order_key t < tx_order_key r)"

lemma transfer_fold:
  assumes "fold (transfer_tx ie h a cm) ps (nk, st) = (nk', st')"
    and "\<forall>t \<in> set (db_transactions (im_db st)). tx_household_id t = h \<longrightarrow> (\<exists>k. nk (tx_occurred_on t) = Some k \<and> tx_order_key t < k)"
  shows "\<exists>rs. im_db st' = set_transactions (db_transactions (im_db st) @ rs) (im_db st)
    \<and> list_all2 (moved_tx ie h a cm) ps rs \<and> sorted_wrt later_key rs
    \<and> (\<forall>r \<in> set rs. tx_household_id r = h \<and> (\<forall>t \<in> set (db_transactions (im_db st)). tx_household_id t = h \<longrightarrow> later_key t r))
    \<and> im_next st' = im_next st + length ps \<and> tx_id ` set rs \<subseteq> ie_new_id ie ` {im_next st ..< im_next st'}"
  using assms
proof (induction ps arbitrary: nk st)
  case Nil
  then show ?case by (auto intro!: exI [of _ "[]"])
next
  case (Cons p ps)
  let ?day = "pr_occurred_on p"
  define k where "k = (case nk ?day of Some k \<Rightarrow> k | None \<Rightarrow> next_append_order_key (im_db st) h ?day None)"
  define r where "r = transferred_tx ie h a cm k (ie_new_id ie (im_next st)) p"
  define st1 where "st1 = \<lparr>im_db = set_transactions (db_transactions (im_db st) @ [r]) (im_db st), im_next = im_next st + 1\<rparr>"
  have r: "tx_household_id r = h" "tx_occurred_on r = ?day" "tx_order_key r = k" "tx_id r = ie_new_id ie (im_next st)"
    by (simp_all add: r_def transferred_tx_def)
  have step: "transfer_tx ie h a cm p (nk, st) = (nk(?day \<mapsto> k + transaction_order_step), st1)"
    by (simp add: transfer_tx_def Let_def k_def r_def st1_def)
  have below: "later_key t r" if "t \<in> set (db_transactions (im_db st))" "tx_household_id t = h" for t
    using Cons.prems(2) that by (auto simp: later_key_def r k_def)
  have inv: "\<forall>t \<in> set (db_transactions (im_db st1)). tx_household_id t = h \<longrightarrow>
      (\<exists>j. (nk(?day \<mapsto> k + transaction_order_step)) (tx_occurred_on t) = Some j \<and> tx_order_key t < j)"
  proof (intro ballI impI)
    fix t assume t: "t \<in> set (db_transactions (im_db st1))" "tx_household_id t = h"
    show "\<exists>j. (nk(?day \<mapsto> k + transaction_order_step)) (tx_occurred_on t) = Some j \<and> tx_order_key t < j"
    proof (cases "t = r")
      case True
      then show ?thesis by (simp add: r transaction_order_step_def)
    next
      case False
      with t have o: "t \<in> set (db_transactions (im_db st))" by (simp add: st1_def)
      show ?thesis using below [OF o t(2)] Cons.prems(2) o t(2)
        by (auto simp: later_key_def r transaction_order_step_def)
    qed
  qed
  have "fold (transfer_tx ie h a cm) ps (nk(?day \<mapsto> k + transaction_order_step), st1) = (nk', st')"
    using Cons.prems(1) by (simp add: step)
  from Cons.IH [OF this inv] obtain rs where rs: "im_db st' = set_transactions (db_transactions (im_db st1) @ rs) (im_db st1)"
    "list_all2 (moved_tx ie h a cm) ps rs" "sorted_wrt later_key rs"
    "\<forall>x \<in> set rs. tx_household_id x = h \<and> (\<forall>t \<in> set (db_transactions (im_db st1)). tx_household_id t = h \<longrightarrow> later_key t x)"
    "im_next st' = im_next st1 + length ps" "tx_id ` set rs \<subseteq> ie_new_id ie ` {im_next st1 ..< im_next st'}" by blast
  have "moved_tx ie h a cm p r" by (simp add: moved_tx_def r_def transferred_tx_def)
  moreover have "\<forall>x \<in> set rs. later_key r x" using rs(4) r(1) by (simp add: st1_def)
  moreover have "im_db st' = set_transactions (db_transactions (im_db st) @ (r # rs)) (im_db st)" by (simp add: rs(1) st1_def)
  moreover have "tx_id ` set (r # rs) \<subseteq> ie_new_id ie ` {im_next st ..< im_next st'}"
    using rs(5,6) by (auto simp: r(4) st1_def)
  ultimately show ?case
    using rs below r(1) by (intro exI [of _ "r # rs"]) (auto simp: st1_def)
qed

lemma prepare_all_sorted:
  assumes "sorted (map (\<lambda>t. (tx_occurred_on t, tx_order_key t)) ts)" "list_all (portable_tx pe d) ts"
  shows "sorted (map ordered_key (prepare_all lookup d index ts))"
proof -
  have key: "ordered_key (prepared lookup d i t) = (tx_occurred_on t, tx_order_key t, i)" if "portable_tx pe d t" for i t
    using that by (auto simp: ordered_key_def prepared_def prepared_tx_def tx_row_def Let_def portable_tx_def portable_row_def none_if_zero_def)
  have later: "\<exists>t j. p = prepared lookup d j t \<and> t \<in> set ts \<and> i \<le> j" if "p \<in> set (prepare_all lookup d i ts)" for p i ts
    using that
  proof (induction ts arbitrary: i)
    case (Cons u us)
    then consider "p = prepared lookup d i u" | "p \<in> set (prepare_all lookup d (i + 1) us)" by auto
    then show ?case
    proof cases
      case 2
      then show ?thesis using Cons.IH [of "i + 1"] by force
    qed auto
  qed simp
  show ?thesis using assms
  proof (induction ts arbitrary: index)
    case (Cons t ts)
    have "ordered_key (prepared lookup d index t) \<le> ordered_key p" if "p \<in> set (prepare_all lookup d (index + 1) ts)" for p
    proof -
      from later [OF that] obtain u j where u: "p = prepared lookup d j u" "u \<in> set ts" "index + 1 \<le> j" by blast
      have "(tx_occurred_on t, tx_order_key t) \<le> (tx_occurred_on u, tx_order_key u)" using Cons.prems(1) u(2) by auto
      moreover have "portable_tx pe d t" "portable_tx pe d u" using Cons.prems(2) u(2) by (auto simp: list_all_iff)
      ultimately show ?thesis using u(3) by (auto simp: u(1) key less_eq_prod_def)
    qed
    with Cons show ?case by simp
  qed simp
qed

lemma prepare_all_rel: "list_all2 (\<lambda>p t. \<exists>i. p = prepared lookup d i t) (prepare_all lookup d index ts) ts"
  by (induction ts arbitrary: index) auto

subsection \<open>Holdings of the target\<close>

lemma insert_holdings_facts:
  assumes "insert_holdings ie h ps st = Some st'"
  shows "\<exists>xs. im_db st' = set_holdings (db_holdings (im_db st) @ xs) (im_db st)
    \<and> list_all2 (\<lambda>p x. x = transferred_holding ie h (hd_id x) p) ps xs"
  using assms
proof (induction ie h ps st rule: insert_holdings.induct)
  case (2 ie h p ps st)
  let ?x = "transferred_holding ie h (ie_new_id ie (im_next st)) p"
  let ?st = "\<lparr>im_db = set_holdings (db_holdings (im_db st) @ [?x]) (im_db st), im_next = im_next st + 1\<rparr>"
  from 2(2) have c: "\<not> identity_conflict (ie_env ie) (im_db st) ?x" and s: "insert_holdings ie h ps ?st = Some st'"
    by (simp_all add: Let_def split: if_splits)
  from 2(1) [OF refl c s] obtain xs where xs: "im_db st' = set_holdings (db_holdings (im_db ?st) @ xs) (im_db ?st)"
    "list_all2 (\<lambda>p x. x = transferred_holding ie h (hd_id x) p) ps xs" by blast
  have "?x = transferred_holding ie h (hd_id ?x) p" by (simp add: transferred_holding_def split: prod.split)
  with xs show ?case by (intro exI [of _ "?x # xs"]) simp
qed (auto intro: exI [of _ "[]"])

lemma insert_holdings_succeeds:
  assumes "distinct (map (\<lambda>p. identity_index (ie_env ie) (transferred_holding ie h [] p)) ps)"
    and "\<forall>y \<in> set (db_holdings (im_db st)). identity_index (ie_env ie) y
          \<notin> (\<lambda>p. identity_index (ie_env ie) (transferred_holding ie h [] p)) ` set ps"
  shows "insert_holdings ie h ps st \<noteq> None"
  using assms
proof (induction ie h ps st rule: insert_holdings.induct)
  case (2 ie h p ps st)
  let ?ix = "identity_index (ie_env ie)"
  let ?x = "transferred_holding ie h (ie_new_id ie (im_next st)) p"
  have same: "?ix (transferred_holding ie h i q) = ?ix (transferred_holding ie h [] q)" for i q
    by (cases q) (simp add: transferred_holding_def identity_index_def Let_def cong: if_cong)
  have sp: "?ix ?x = ?ix (transferred_holding ie h [] p)" by (rule same)
  have c: "\<not> identity_conflict (ie_env ie) (im_db st) ?x"
    using 2(3) sp by (auto simp: identity_conflict_def)
  have "insert_holdings ie h ps \<lparr>im_db = set_holdings (db_holdings (im_db st) @ [?x]) (im_db st), im_next = im_next st + 1\<rparr> \<noteq> None"
    by (rule 2(1) [OF refl c]) (use 2(2,3) sp in auto)
  with c show ?case by simp
qed simp

subsection \<open>What a household holds\<close>

text \<open>The content of rows without identifiers, owners as names, order keys and time stamps.\<close>

definition tx_content where
  "tx_content d t =
     (tx_occurred_on t, tx_flow_type t, (export_major d t, export_minor d t), tx_amount t, tx_installment_months t,
      export_currency (tx_currency t), tx_memo t, normalize_optional_text (tx_owner_name t), export_tx_ref t)"

definition hd_content where
  "hd_content x =
     (hd_asset_type x, (hd_symbol x, hd_market_symbol x, hd_name x), normalize_optional_text (hd_type_key x),
      export_hd_category x, normalize_optional_text (hd_owner_name x), text_of (hd_account_name x),
      (hd_quantity x, hd_average_cost x), export_currency (hd_currency x), hd_display_order x, export_hd_ref x)"

definition category_orders :: "db \<Rightarrow> pystr \<Rightarrow> category_names \<Rightarrow> int option" where
  "category_orders d h = map_of (map category_entry (filter (\<lambda>c. ct_household_id c = h) (db_categories d)))"

definition tx_names :: "db \<Rightarrow> transaction \<Rightarrow> category_names" where
  "tx_names d t = (tx_flow_type t, export_major d t, export_minor d t)"

lemma exported_text_id: "exported_text n s \<Longrightarrow> text_of (Some s) = s" "exported_text n s \<Longrightarrow> or_else (py_strip s) u = s"
  by (auto simp: exported_text_def text_of_def or_else_def)

lemma moved_tx_content:
  assumes m: "moved_tx ie h a cm (prepared lookup d i t) r" and pt: "portable_tx pe d t"
    and cm: "map_ok cm d'" "tx_names d t \<in> fst ` set cm"
  shows "tx_content d' r = tx_content d t" "tx_owner_user_id r = owner_user_id_for lookup (normalize_optional_text (tx_owner_name t))"
proof -
  let ?p = "prepared lookup d i t"
  from m obtain k q where r: "r = transferred_tx ie h a cm k q ?p" by (auto simp: moved_tx_def)
  have key: "pr_category_key ?p = tx_names d t"
    by (simp add: prepared_def prepared_tx_def Let_def pk_names_def tx_row_def tx_names_def)
  obtain j where j: "map_of cm (tx_names d t) = Some j"
    using cm(2) by (metis map_of_eq_None_iff not_Some_eq)
  with cm(1) have "map_option category_names (row_get ct_id j (db_categories d')) = Some (tx_names d t)"
    unfolding map_ok_def by blast
  then obtain c where c: "row_get ct_id j (db_categories d') = Some c" "category_names c = tx_names d t" by auto
  have cat: "category_of d' r = Some c"
    using j c(1) by (simp add: r category_of_def transferred_tx_def key)
  have names: "export_major d' r = export_major d t" "export_minor d' r = export_minor d t"
    using c(2) by (simp_all add: export_major_def [of d'] export_minor_def [of d'] cat text_of_def or_else_def
        category_names_def tx_names_def)
  have ref: "exported_text 120 (export_tx_ref t)" "length (py_upper (py_strip (tx_currency t))) \<le> 8"
    using pt by (simp_all add: portable_tx_def portable_row_def)
  have "export_tx_ref r = export_tx_ref t"
    using exported_text_id [OF ref(1)] ref(1)
    by (simp add: export_tx_ref_def [of r]) (simp add: r transferred_tx_def prepared_def prepared_tx_def tx_row_def Let_def
        or_else_def exported_text_def)
  then show "tx_content d' r = tx_content d t"
    "tx_owner_user_id r = owner_user_id_for lookup (normalize_optional_text (tx_owner_name t))"
    by (simp_all add: tx_content_def names) (simp_all add: r transferred_tx_def prepared_def prepared_tx_def tx_row_def
        Let_def key tx_names_def pk_names_def export_currency_text [OF ref(2)])
qed

lemma moved_holding_content:
  assumes "x' = transferred_holding ie h i (prepared_hd lookup x)" "portable_holding x"
  shows "hd_content x' = hd_content x" "hd_household_id x' = h"
    "hd_owner_user_id x' = owner_user_id_for lookup (normalize_optional_text (hd_owner_name x))"
proof -
  have c: "length (py_upper (py_strip (hd_currency x))) \<le> 8" and r: "exported_text 120 (export_hd_ref x)"
    using assms(2) by (simp_all add: portable_holding_def)
  have name: "normalize_optional_text (Some (text_or (normalize_optional_text (hd_owner_name x)) []))
      = normalize_optional_text (hd_owner_name x)"
    by (cases "normalize_optional_text (hd_owner_name x)")
       (auto simp: text_or_def normalize_optional_text_stripped dest: normalize_optional_text_SomeD
         simp: normalize_optional_text_def [of "Some []"])
  have cat: "export_hd_category x' = export_hd_category x"
    by (simp add: assms(1) transferred_holding_def prepared_hd_def holding_row_def Let_def export_hd_category_def or_else_strip
        or_else_def)
  have "hd_source_ref x' = Some (export_hd_ref x)"
    by (simp add: assms(1) transferred_holding_def prepared_hd_def holding_row_def Let_def)
  then have ref: "export_hd_ref x' = export_hd_ref x"
    using r exported_text_id [OF r] by (simp add: export_hd_ref_def [of x'] or_else_def exported_text_def)
  show "hd_content x' = hd_content x"
    unfolding hd_content_def cat ref
    by (simp add: assms(1) transferred_holding_def prepared_hd_def holding_row_def Let_def name export_currency_text [OF c] text_of_def)
  show "hd_household_id x' = h"
    "hd_owner_user_id x' = owner_user_id_for lookup (normalize_optional_text (hd_owner_name x))"
    by (simp_all add: assms(1) transferred_holding_def prepared_hd_def Let_def)
qed

subsection \<open>The whole move\<close>

definition source_unique :: "db \<Rightarrow> pystr \<Rightarrow> bool" where
  "source_unique d i \<longleftrightarrow>
     distinct (map category_names (filter (\<lambda>c. ct_household_id c = i) (db_categories d)))
     \<and> distinct (map export_tx_ref (export_transactions d i))"

definition identities_free :: "import_env \<Rightarrow> owner_lookup \<Rightarrow> pystr \<Rightarrow> holding list \<Rightarrow> bool" where
  "identities_free ie lookup k xs \<longleftrightarrow>
     distinct (map (\<lambda>x. package_identity lookup (holding_row x)) xs)
     \<and> distinct (map (\<lambda>x. identity_index (ie_env ie) (transferred_holding ie k [] (prepared_hd lookup x))) xs)"

definition others_kept :: "pystr \<Rightarrow> db \<Rightarrow> db \<Rightarrow> bool" where
  "others_kept k d d' \<longleftrightarrow>
     filter (\<lambda>t. tx_household_id t \<noteq> k) (db_transactions d') = filter (\<lambda>t. tx_household_id t \<noteq> k) (db_transactions d)
     \<and> filter (\<lambda>x. hd_household_id x \<noteq> k) (db_holdings d') = filter (\<lambda>x. hd_household_id x \<noteq> k) (db_holdings d)
     \<and> filter (\<lambda>c. ct_household_id c \<noteq> k) (db_categories d') = filter (\<lambda>c. ct_household_id c \<noteq> k) (db_categories d)
     \<and> filter (\<lambda>l. pl_household_id l \<noteq> k) (db_patch_logs d') = filter (\<lambda>l. pl_household_id l \<noteq> k) (db_patch_logs d)
     \<and> row_delete hh_id k (db_households d') = row_delete hh_id k (db_households d)
     \<and> db_users d' = db_users d \<and> db_members d' = db_members d \<and> db_invitations d' = db_invitations d"

lemma filter_own_others: "\<forall>r \<in> set rs. f r = k \<Longrightarrow> filter (\<lambda>r. f r \<noteq> k) rs = []" "\<forall>r \<in> set rs. f r = k \<Longrightarrow> filter (\<lambda>r. f r = k) rs = rs"
  by (simp_all add: filter_empty_conv filter_id_conv)

lemma cleared_filters [simp]:
  "filter (\<lambda>r. f r \<noteq> k) (filter (\<lambda>r. f r \<noteq> k) rs) = filter (\<lambda>r. f r \<noteq> k) rs"
  "filter (\<lambda>r. f r = k) (filter (\<lambda>r. f r \<noteq> k) rs) = []"
  by (simp_all add: filter_filter)

text \<open>What applying prepared rows makes of the database.\<close>

lemma apply_transfer_facts:
  assumes a: "apply_transfer ie pe k actor p orders txs \<lparr>im_db = d, im_next = n\<rparr> = Inr st'"
  shows "\<exists>cm cs rs colors. (fresh_ids ie \<lparr>im_db = d, im_next = n\<rparr> \<longrightarrow> map_ok cm (im_db st') \<and> fst ` set cm = fst ` set orders)
    \<and> map category_entry cs = orders \<and> (\<forall>c \<in> set cs. ct_household_id c = k)
    \<and> list_all2 (moved_tx ie k actor cm) (sort_key ordered_key txs) rs \<and> sorted_wrt later_key rs
    \<and> (\<forall>r \<in> set rs. tx_household_id r = k)
    \<and> im_db st' = (clear_household k d)\<lparr>db_categories := db_categories (clear_household k d) @ cs,
        db_transactions := db_transactions (clear_household k d) @ rs,
        db_households := row_update hh_id k (transfer_household pe p colors) (db_households d)\<rparr>"
proof -
  from a obtain colors where colors: "normalize_transaction_row_colors (Some (pp_transaction_row_colors p)) = Some colors"
    by (auto simp: apply_transfer_def split: option.splits)
  let ?d0 = "clear_household k d"
  let ?d1 = "set_households (row_update hh_id k (transfer_household pe p colors) (db_households ?d0)) ?d0"
  let ?st1 = "\<lparr>im_db = ?d1, im_next = n\<rparr>"
  obtain cm st2 where ic: "insert_categories ie k orders [] ?st1 = (cm, st2)" by fastforce
  obtain nk st3 where fd: "fold (transfer_tx ie k actor cm) (sort_key ordered_key txs) (\<lambda>_. None, st2) = (nk, st3)" by fastforce
  have st': "st' = st3"
    using a by (simp add: apply_transfer_def colors ic fd Let_def)
  from insert_categories_shape [OF ic] obtain cs where C: "im_db st2 = set_categories (db_categories ?d1 @ cs) ?d1"
    "map category_entry cs = orders" "\<forall>c \<in> set cs. ct_household_id c = k" by auto
  have mp: "map_ok cm (im_db st2) \<and> fst ` set cm = fst ` set orders" if "fresh_ids ie \<lparr>im_db = d, im_next = n\<rparr>"
  proof -
    have "fresh_ids ie ?st1" using that by (auto simp: fresh_ids_def clear_household_def)
    moreover have "map_ok [] ?d1" by (simp add: map_ok_def)
    ultimately show ?thesis using insert_categories_map [OF ic] by auto
  qed
  have none: "\<forall>t \<in> set (db_transactions (im_db st2)). tx_household_id t = k \<longrightarrow> (\<exists>j. None = Some j \<and> tx_order_key t < j)"
    by (simp add: C(1) clear_household_def)
  from transfer_fold [OF fd none] obtain rs where R: "im_db st3 = set_transactions (db_transactions (im_db st2) @ rs) (im_db st2)"
    "list_all2 (moved_tx ie k actor cm) (sort_key ordered_key txs) rs" "sorted_wrt later_key rs"
    "\<forall>r \<in> set rs. tx_household_id r = k" by blast
  have "map_ok cm (im_db st3) = map_ok cm (im_db st2)" by (simp add: map_ok_def R(1))
  moreover have "im_db st3 = ?d0\<lparr>db_categories := db_categories ?d0 @ cs, db_transactions := db_transactions ?d0 @ rs,
        db_households := row_update hh_id k (transfer_household pe p colors) (db_households d)\<rparr>"
    by (simp add: R(1) C(1) clear_household_def)
  ultimately show ?thesis unfolding st' using mp C(2,3) R(2-4)
    by (intro exI [of _ cm] exI [of _ cs] exI [of _ rs] exI [of _ colors] conjI impI) auto
qed

lemma distinct_mset: "mset xs = mset ys \<Longrightarrow> distinct xs = distinct ys"
  by (rule mset_eq_imp_distinct_iff)

lemma map_of_mset: "mset xs = mset ys \<Longrightarrow> distinct (map fst xs) \<Longrightarrow> map_of xs = map_of ys"
proof -
  assume m: "mset xs = mset ys" and d: "distinct (map fst xs)"
  have "distinct (map fst ys)" using d distinct_mset [of "map fst xs" "map fst ys"] m by simp
  then show "map_of xs = map_of ys" using map_of_inject_set [OF d] mset_eq_setD [OF m] by simp
qed

lemma row_delete_update: "(\<And>r. key r = k \<Longrightarrow> key (f r) = k) \<Longrightarrow> row_delete key k (row_update key k f rs) = row_delete key k rs"
  by (induction rs) (auto simp: row_delete_def row_update_def)

lemma pair_le: "a \<le> c \<Longrightarrow> (a = c \<Longrightarrow> b < d) \<Longrightarrow> (a, b, x) \<le> (c, d, y)"
  for a c :: "'a :: linorder" and b d :: "'b :: linorder" and x y :: "'c :: linorder"
  by (cases "a = c") (auto simp: less_eq_prod_def)

lemma pair_le_parts: "(a, b, x) \<le> (c, d, y) \<Longrightarrow> (a, b) \<le> (c, d)" "(a, b, x) \<le> (c, d, y) \<Longrightarrow> a \<le> c"
  for a c :: "'a :: linorder" and b d :: "'b :: linorder" and x y :: "'c :: linorder"
  by (auto simp: less_eq_prod_def)

lemma later_sorted:
  assumes "sorted_wrt later_key rs" "sorted (map tx_occurred_on rs)"
  shows "sorted (map (\<lambda>t. (tx_occurred_on t, tx_order_key t, tx_created_at t, tx_id t)) rs)"
  using assms
proof (induction rs)
  case (Cons r rs)
  have "(tx_occurred_on r, tx_order_key r, tx_created_at r, tx_id r) \<le> (tx_occurred_on x, tx_order_key x, tx_created_at x, tx_id x)"
    if "x \<in> set rs" for x
    by (rule pair_le) (use Cons.prems that in \<open>simp_all add: later_key_def del: less_eq_prod_simp\<close>)
  moreover have "sorted (map (\<lambda>t. (tx_occurred_on t, tx_order_key t, tx_created_at t, tx_id t)) rs)"
    by (rule Cons.IH) (use Cons.prems in simp_all)
  ultimately show ?case by (simp add: sorted_simps(2) del: less_eq_prod_simp)
qed simp

lemma moved_txs_content:
  assumes "list_all2 (moved_tx ie k a cm) (prepare_all lookup d i ts) rs" "map_ok cm d'"
    "\<forall>t \<in> set ts. portable_tx pe d t \<and> tx_names d t \<in> fst ` set cm"
  shows "map (tx_content d') rs = map (tx_content d) ts"
  using assms
proof (induction ts arbitrary: i rs)
  case (Cons t ts)
  then obtain r rs' where r: "rs = r # rs'" "moved_tx ie k a cm (prepared lookup d i t) r"
    "list_all2 (moved_tx ie k a cm) (prepare_all lookup d (i + 1) ts) rs'"
    by (auto simp: list_all2_Cons1)
  with Cons show ?case using moved_tx_content(1) [OF r(2) _ Cons.prems(2), where pe = pe] by (simp add: r(1))
qed simp

lemma moved_holdings_content:
  assumes "list_all2 (\<lambda>p x. x = transferred_holding ie k (hd_id x) p) (map (prepared_hd lookup) xs) ys" "list_all portable_holding xs"
  shows "map hd_content ys = map hd_content xs" "\<forall>y \<in> set ys. hd_household_id y = k"
proof -
  have "map hd_content ys = map hd_content xs \<and> (\<forall>y \<in> set ys. hd_household_id y = k)"
    using assms
  proof (induction xs arbitrary: ys)
    case (Cons x xs)
    then obtain y ys' where y: "ys = y # ys'" "y = transferred_holding ie k (hd_id y) (prepared_hd lookup x)"
      "list_all2 (\<lambda>p x. x = transferred_holding ie k (hd_id x) p) (map (prepared_hd lookup) xs) ys'"
      by (auto simp: list_all2_Cons1)
    with Cons show ?case using moved_holding_content(1,2) [OF y(2)] by (simp add: y(1))
  qed simp
  then show "map hd_content ys = map hd_content xs" "\<forall>y \<in> set ys. hd_household_id y = k" by simp_all
qed

text \<open>The transfer of an exported document, up to the insertion of the holdings.\<close>

lemma run_transfer_of_export:
  assumes source: "portable_household pe d h" "source_unique d (hh_id h)" and p: "loads_as pe d h p"
    and free: "identities_free ie (load_owner_lookup d0 k) k (export_holdings d (hh_id h))"
  shows "\<exists>report orders st1. run_transfer ie pe k actor name p Apply True \<lparr>im_db = d0, im_next = n\<rparr>
      = Inr (report, st1, map (prepared_hd (load_owner_lookup d0 k)) (export_holdings d (hh_id h)))
    \<and> apply_transfer ie pe k actor p orders (prepare_all (load_owner_lookup d0 k) d 1 (export_transactions d (hh_id h)))
        \<lparr>im_db = d0, im_next = n\<rparr> = Inr st1
    \<and> distinct (map fst orders)
    \<and> map_of orders = (\<lambda>m. case category_orders d (hh_id h) m of Some s \<Rightarrow> Some s
        | None \<Rightarrow> if m \<in> tx_names d ` set (export_transactions d (hh_id h)) then Some 100 else None)"
proof -
  let ?i = "hh_id h" and ?lookup = "load_owner_lookup d0 k"
  let ?ts = "export_transactions d ?i" and ?xs = "export_holdings d ?i"
  have port: "list_all (portable_tx pe d) ?ts" "list_all portable_holding ?xs"
    using source(1) by (simp_all add: portable_household_def)
  have P: "pp_categories p = map category_row (export_categories d ?i)"
    "pp_transactions p = map (tx_row d) ?ts" "pp_holdings p = map holding_row ?xs"
    using p by (simp_all add: loads_as_def)
  obtain colors0 where colors0: "normalize_transaction_row_colors (Some (pp_transaction_row_colors p)) = Some colors0"
    using p by (auto simp: loads_as_def)
  let ?own = "filter (\<lambda>c. ct_household_id c = ?i) (db_categories d)"
  have cm: "mset (export_categories d ?i) = mset ?own" by (simp add: export_categories_def)
  have entry: "pc_names (category_row c) = category_names c" "pc_sort_order (category_row c) = ct_sort_order c" for c
    by (simp_all add: pc_names_def category_row_def category_names_def)
  have dist: "distinct (map category_names (export_categories d ?i))"
    using source(2) distinct_mset [of "map category_names (export_categories d ?i)" "map category_names ?own"] cm
    by (simp add: source_unique_def)
  let ?orders0 = "map category_entry (export_categories d ?i)"
  have cso: "category_sort_orders 1 [] (pp_categories p) = (?orders0, [])"
    using category_sort_orders_distinct [of "[]" "pp_categories p" 1] dist by (simp add: P entry comp_def category_entry_def)
  have d0: "distinct (map fst ?orders0)" using dist by (simp add: comp_def category_entry_def)
  define orders where "orders = fold add_tx_category (pp_transactions p) ?orders0"
  have names: "pk_names ` set (pp_transactions p) = tx_names d ` set ?ts"
    by (simp add: P pk_names_def tx_row_def tx_names_def image_image)
  have src_orders: "map_of ?orders0 = category_orders d ?i"
    unfolding category_orders_def by (rule map_of_mset) (use cm d0 in simp_all)
  have o: "distinct (map fst orders)" "map_of orders = (\<lambda>m. case category_orders d ?i m of Some s \<Rightarrow> Some s
      | None \<Rightarrow> if m \<in> tx_names d ` set ?ts then Some 100 else None)"
    using fold_add_tx_category [OF d0, of "pp_transactions p"] by (simp_all add: orders_def names src_orders fun_eq_iff)
  let ?ps = "prepare_all ?lookup d 1 ?ts"
  have pt: "prepare_transactions ?lookup 1 {} (pp_transactions p) = Inr (?ps, [])"
    unfolding P by (rule prepare_transactions_all [OF port(1)]) (use source(2) in \<open>simp_all add: source_unique_def\<close>)
  have ph: "prepare_holdings ?lookup 1 {} (pp_holdings p) = Inr (map (prepared_hd ?lookup) ?xs, [])"
    unfolding P by (rule prepare_holdings_all [OF port(2)]) (use free in \<open>simp_all add: identities_free_def\<close>)
  obtain st1 where at: "apply_transfer ie pe k actor p orders ?ps \<lparr>im_db = d0, im_next = n\<rparr> = Inr st1"
    by (cases "apply_transfer ie pe k actor p orders ?ps \<lparr>im_db = d0, im_next = n\<rparr>")
      (auto simp: apply_transfer_def colors0 Let_def split: prod.splits)
  then have "\<exists>report. run_transfer ie pe k actor name p Apply True \<lparr>im_db = d0, im_next = n\<rparr>
      = Inr (report, st1, map (prepared_hd ?lookup) ?xs)"
    by (simp add: run_transfer_def cso orders_def [symmetric] pt ph Let_def)
  with at o show ?thesis by blast
qed


text \<open>The database an applied package leaves.\<close>

definition replaced :: "upload_job \<Rightarrow> migration_report \<Rightarrow> db \<Rightarrow> db \<Rightarrow> bool" where
  "replaced uj rep d d' \<longleftrightarrow>
     others_kept (uj_household_id uj) d d'
     \<and> length (filter (\<lambda>t. tx_household_id t = uj_household_id uj) (db_transactions d')) = mr_applied_transactions rep
     \<and> length (filter (\<lambda>x. hd_household_id x = uj_household_id uj) (db_holdings d')) = mr_applied_holdings rep
     \<and> length (filter (\<lambda>c. ct_household_id c = uj_household_id uj) (db_categories d')) = mr_applied_categories rep
     \<and> filter (\<lambda>l. pl_household_id l = uj_household_id uj) (db_patch_logs d') = []"

lemma transferred_household: "hd_household_id (transferred_holding ie k i p) = k"
  by (cases p) (simp add: transferred_holding_def)

lemma transferred_households:
  assumes "list_all2 (\<lambda>p x. x = transferred_holding ie k (hd_id x) p) ps ys"
  shows "\<forall>y \<in> set ys. hd_household_id y = k"
  using assms
proof (induction rule: list_all2_induct)
  case (Cons p ps y ys)
  have "hd_household_id y = k" by (subst Cons(1)) (rule transferred_household)
  with Cons(3) show ?case by simp
qed simp

lemma run_transfer_report:
  assumes "run_transfer ie pe k actor name p mode replace st = Inr (rep, st', pending)"
  shows "mr_mode rep = mode"
    "mode = Apply \<Longrightarrow> \<exists>orders txs. apply_transfer ie pe k actor p orders txs st = Inr st'
      \<and> mr_applied_categories rep = length orders \<and> mr_applied_transactions rep = length txs
      \<and> mr_applied_holdings rep = length pending \<and> replace"
proof -
  let ?lookup = "load_owner_lookup (im_db st) k"
  obtain orders0 ci where c: "category_sort_orders 1 [] (pp_categories p) = (orders0, ci)" by fastforce
  obtain txs ti where t: "prepare_transactions ?lookup 1 {} (pp_transactions p) = Inr (txs, ti)"
    using assms by (cases "prepare_transactions ?lookup 1 {} (pp_transactions p)") (auto simp: run_transfer_def c Let_def)
  obtain hds hi where h: "prepare_holdings ?lookup 1 {} (pp_holdings p) = Inr (hds, hi)"
    using assms by (cases "prepare_holdings ?lookup 1 {} (pp_holdings p)") (auto simp: run_transfer_def c t Let_def)
  show "mr_mode rep = mode"
    using assms by (cases mode) (auto simp: run_transfer_def c t h Let_def split: if_splits sum.splits)
  show "\<exists>orders txs. apply_transfer ie pe k actor p orders txs st = Inr st'
      \<and> mr_applied_categories rep = length orders \<and> mr_applied_transactions rep = length txs
      \<and> mr_applied_holdings rep = length pending \<and> replace" if "mode = Apply"
  proof -
    let ?orders = "fold add_tx_category (pp_transactions p) orders0"
    have "apply_transfer ie pe k actor p ?orders txs st = Inr st' \<and> mr_applied_categories rep = length ?orders
        \<and> mr_applied_transactions rep = length txs \<and> mr_applied_holdings rep = length pending \<and> replace"
      using assms that by (auto simp: run_transfer_def c t h Let_def split: if_splits sum.splits)
    then show ?thesis by blast
  qed
qed

lemma migration_result_cases:
  assumes "migration_result ie pe uj file n kept d = (result, d')"
  shows "case result of
      Inl e \<Rightarrow> d' = d
    | Inr rep \<Rightarrow> mr_mode rep = uj_mode uj
        \<and> (if uj_mode uj = Dry_run then d' = d else kept \<and> uj_replace_existing uj \<and> replaced uj rep d d')"
proof (cases result)
  case (Inl e)
  with assms show ?thesis
    by (auto simp: migration_result_def split: sum.splits prod.splits if_splits option.splits)
next
  case (Inr rep)
  let ?k = "uj_household_id uj"
  obtain p where l: "load_package pe file = Inr p"
    using assms Inr by (cases "load_package pe file") (simp_all add: migration_result_def)
  let ?run = "run_transfer ie pe ?k (uj_actor_user_id uj) (uj_package_name uj) p (uj_mode uj) (uj_replace_existing uj)
      \<lparr>im_db = d, im_next = n\<rparr>"
  obtain rep' st pending where rt': "?run = Inr (rep', st, pending)"
    using assms Inr l by (cases ?run) (auto simp: migration_result_def)
  have rest: "rep' = rep \<and> (if uj_mode uj = Dry_run then d' = d
      else kept \<and> (\<exists>st'. insert_holdings ie ?k pending st = Some st' \<and> d' = im_db st'))"
    using assms unfolding Inr by (simp add: migration_result_def l rt' split: if_splits option.splits)
  then have rt: "?run = Inr (rep, st, pending)" using rt' by simp
  note report = run_transfer_report [OF rt]
  show ?thesis
  proof (cases "uj_mode uj = Dry_run")
    case True
    with rest report(1) show ?thesis by (simp add: Inr)
  next
    case False
    then have ap: "uj_mode uj = Apply" by (cases "uj_mode uj") auto
    from False rest obtain st' where st': "insert_holdings ie ?k pending st = Some st'" "d' = im_db st'" "kept" by auto
    obtain orders txs where at: "apply_transfer ie pe ?k (uj_actor_user_id uj) p orders txs \<lparr>im_db = d, im_next = n\<rparr> = Inr st"
      and c: "mr_applied_categories rep = length orders" "mr_applied_transactions rep = length txs"
        "mr_applied_holdings rep = length pending" "uj_replace_existing uj"
      using report(2) [OF ap] by blast
    obtain cm cs rs colors where F: "map category_entry cs = orders" "\<forall>c \<in> set cs. ct_household_id c = ?k"
      "list_all2 (moved_tx ie ?k (uj_actor_user_id uj) cm) (sort_key ordered_key txs) rs" "\<forall>r \<in> set rs. tx_household_id r = ?k"
      "im_db st = (clear_household ?k d)\<lparr>db_categories := db_categories (clear_household ?k d) @ cs,
        db_transactions := db_transactions (clear_household ?k d) @ rs,
        db_households := row_update hh_id ?k (transfer_household pe p colors) (db_households d)\<rparr>"
      using apply_transfer_facts [OF at] by blast
    obtain ys where Y: "im_db st' = set_holdings (db_holdings (im_db st) @ ys) (im_db st)"
      "list_all2 (\<lambda>p x. x = transferred_holding ie ?k (hd_id x) p) pending ys"
      using insert_holdings_facts [OF st'(1)] by blast
    have yk: "\<forall>y \<in> set ys. hd_household_id y = ?k"
      by (rule transferred_households [OF Y(2)])
    have len: "length rs = length txs" "length ys = length pending" "length cs = length orders"
      using list_all2_lengthD [OF F(3)] list_all2_lengthD [OF Y(2)] F(1) by auto
    have hh: "row_delete hh_id ?k (row_update hh_id ?k (transfer_household pe p colors) (db_households d)) = row_delete hh_id ?k (db_households d)"
      by (rule row_delete_update) (simp add: transfer_household_def)
    have "replaced uj rep d d'"
      using F(2,4) yk
      by (simp add: replaced_def others_kept_def st'(2) Y(1) F(5) clear_household_def filter_own_others hh c len)
    with report(1) ap c(4) st'(3) show ?thesis by (simp add: Inr)
  qed
qed


end
