(* ===== verification/Migration_Claims.thy ===== *)
theory Migration_Claims
  imports Migration_Move Samples "HOL-Library.Countable"
begin

text \<open>
  The properties of the household move: the round trip through a transfer package and the guarded run.
\<close>

text \<open>C33 (a household move is all or nothing): whatever happens to the lock row meanwhile, an error and a
dry run leave the data of every household as it was; an applied package had the confirmation to replace, kept its
lock, has exactly as many categories, transactions and holdings in the household as it reports, has emptied the
household's patch log and has changed no row of another household; the process registry and the lock rows of others are as before.\<close>

theorem migration_all_or_nothing:
  shows "case run_migration_package_with_guard ie pe sr uj file n gs of (result, gs') \<Rightarrow>
      (case result of
         Inl e \<Rightarrow> gs_db gs' = gs_db gs
       | Inr rep \<Rightarrow> mr_mode rep = uj_mode uj
           \<and> (if uj_mode uj = Dry_run then gs' = gs else uj_replace_existing uj \<and> replaced uj rep (gs_db gs) (gs_db gs')))
      \<and> gs_registry gs' = gs_registry gs
      \<and> (gs_lock gs')(uj_household_id uj := None) = (gs_lock gs)(uj_household_id uj := None)"
proof (cases "acquire_process_guard sr (uj_household_id uj) (uj_mode uj) gs")
  case (Inl e)
  then show ?thesis by (simp add: run_migration_package_with_guard_def)
next
  case (Inr gs1)
  let ?h = "uj_household_id uj"
  note g = process_guard_roundtrip [OF Inr]
  show ?thesis
  proof (cases "uj_mode uj = Dry_run")
    case True
    then have gs1: "gs1 = gs" using Inr by (simp add: acquire_process_guard_def)
    obtain result d' where r: "migration_result ie pe uj file n True (gs_db gs) = (result, d')" by fastforce
    have "run_migration_package_with_guard ie pe sr uj file n gs = (result, gs\<lparr>gs_db := d'\<rparr>)"
      by (simp add: run_migration_package_with_guard_def acquire_process_guard_def True r Let_def)
    moreover have "d' = gs_db gs" using migration_result_cases [OF r] True by (simp split: sum.splits)
    ultimately show ?thesis using migration_result_cases [OF r] True by (simp split: sum.splits)
  next
    case False
    obtain acquired row where a: "acquire_import_lock (sr_timeout sr) (sr_now1 sr) (sr_now2 sr) (sr_race1 sr) (sr_race2 sr)
        (gs_lock gs1 ?h) = (acquired, row)" by fastforce
    show ?thesis
    proof (cases acquired)
      case (Inl e)
      then have "run_migration_package_with_guard ie pe sr uj file n gs
          = (Inl e, release_process_guard sr ?h (uj_mode uj) (gs1\<lparr>gs_lock := (gs_lock gs1)(?h := row)\<rparr>))"
        using False by (simp add: run_migration_package_with_guard_def Inr a Let_def)
      then show ?thesis by (simp add: g)
    next
      case t: (Inr t)
      obtain failed lease where l: "last_lease sr (uj_mode uj) t = (failed, lease)" by fastforce
      let ?row = "sr_meanwhile sr row"
      obtain result d' where r: "migration_result ie pe uj file n (\<not> failed \<and> is_import_lock_current lease ?row) (gs_db gs) = (result, d')"
        by fastforce
      have "run_migration_package_with_guard ie pe sr uj file n gs = (result, release_process_guard sr ?h (uj_mode uj)
          (gs1\<lparr>gs_db := d', gs_lock := (gs_lock gs1)(?h := release_import_lock lease ?row)\<rparr>))"
        using False by (simp add: run_migration_package_with_guard_def Inr a t l r g(1) Let_def)
      then show ?thesis using migration_result_cases [OF r] False by (simp add: g split: sum.splits)
    qed
  qed
qed


text \<open>A concrete package format: every value is written as its number in an enumeration of the values.\<close>

instance json :: countable
  by countable_datatype


definition move_ie :: import_env where
  "move_ie =
     \<lparr>ie_settings = \<lparr>is_max_sheets = 1, is_max_rows = 1, is_max_columns = 1\<rparr>, ie_from_iso = (\<lambda>_. None), ie_sha = id,
      ie_new_id = (\<lambda>n. replicate (n + 9) 48), ie_env = sample_env\<rparr>"

definition move_db :: db where
  "move_db = sample_db\<lparr>db_holdings :=
     [\<lparr>hd_id = lit ''x1'', hd_household_id = lit ''h1'', hd_asset_type = Asset_stock, hd_symbol = lit ''ABC'',
       hd_market_symbol = lit ''ABC'', hd_name = lit ''Abc'', hd_type_key = None, hd_category = lit ''fund'',
       hd_owner_user_id = Some (lit ''u1''), hd_owner_name = Some (lit ''Ann''), hd_account_name = Some [],
       hd_quantity = 5 / 2, hd_average_cost = 1000, hd_currency = lit ''KRW'', hd_display_order = 1,
       hd_source_ref = None, hd_version = 3, hd_updated_at = 0\<rparr>]\<rparr>"








subsection \<open>Two findings\<close>

text \<open>A holding of a bare name and one linked to the member of this name are two rows of the source; in the package they
have one identity, and the second is left out with a warning.\<close>

definition unlinked_twin :: "holding \<Rightarrow> holding" where
  "unlinked_twin x = x\<lparr>hd_id := lit ''x2'', hd_owner_user_id := None\<rparr>"

lemma relinked_holding_is_dropped:
  "distinct (map (identity_index sample_env) [hd (db_holdings move_db), unlinked_twin (hd (db_holdings move_db))])"
  "map_option (\<lambda>(ps, issues). (length ps, map ii_code issues))
     (case prepare_holdings (load_owner_lookup move_db (lit ''h1'')) 1 {}
             (map holding_row [hd (db_holdings move_db), unlinked_twin (hd (db_holdings move_db))]) of
        Inl e \<Rightarrow> None | Inr r \<Rightarrow> Some r) = Some (1, [''MIGRATION_HOLDING_DUPLICATED''])"
  by code_simp+

text \<open>With a name in another case both rows are linked to the member, keep their names and break the unique index.\<close>

lemma relinked_holding_breaks_import:
  "distinct (map (identity_index sample_env)
     [hd (db_holdings move_db), (unlinked_twin (hd (db_holdings move_db)))\<lparr>hd_owner_name := Some (lit ''ANN'')\<rparr>])"
  "map_option (\<lambda>(ps, issues). insert_holdings move_ie (lit ''h1'') ps \<lparr>im_db = clear_household (lit ''h1'') move_db, im_next = 0\<rparr>)
     (case prepare_holdings (load_owner_lookup move_db (lit ''h1'')) 1 {} (map holding_row
             [hd (db_holdings move_db), (unlinked_twin (hd (db_holdings move_db)))\<lparr>hd_owner_name := Some (lit ''ANN'')\<rparr>]) of
        Inl e \<Rightarrow> None | Inr r \<Rightarrow> Some r) = Some None"
  by code_simp+

end
