(* ===== verification/Exchange_Rates.thy ===== *)
theory Exchange_Rates
  imports Price_Quotes Number_Text
begin

text \<open>
  Exchange rates, \<open>backend/app/services/fx_service.py\<close>: the cached rate of a currency pair, the answer of the
  provider, the fall-back to a stale rate and the upsert of a new one; and the arithmetic of \<open>Decimal\<close> in the
  default context of 28 digits.  The clock and the provider's answers are functions of the number of the
  request; other sessions may write rates while the provider is asked.
\<close>

subsection \<open>Arithmetic of 28 digits\<close>

definition round28 :: "rat \<Rightarrow> rat" where
  "round28 q =
     (if q = 0 then 0
      else (let shift = 28 - magnitude q in scale10 (of_int (round_half_even (scale10 q shift))) (- shift)))"

definition add28 :: "rat \<Rightarrow> rat \<Rightarrow> rat" where
  "add28 a b = round28 (a + b)"

definition mul28 :: "rat \<Rightarrow> rat \<Rightarrow> rat" where
  "mul28 a b = round28 (a * b)"

text \<open>\<open>value.quantize(Decimal("0.01"))\<close>; \<open>None\<close> is \<open>InvalidOperation\<close>.\<close>

definition quantize2 :: "rat \<Rightarrow> rat option" where
  "quantize2 q = (let n = round_half_even (q * 100) in if \<bar>n\<bar> < 10 ^ 28 then Some (of_int n / 100) else None)"

subsection \<open>The rate of a pair\<close>

record fx_rate =
  fr_base_currency :: pystr
  fr_quote_currency :: pystr
  fr_rate :: rat
  fr_source :: pystr
  fr_fetched_at :: instant

definition fx_key :: "fx_rate \<Rightarrow> pystr \<times> pystr" where
  "fx_key r = (fr_base_currency r, fr_quote_currency r)"

record fx_state =
  fs_rows :: "fx_rate list"
  fs_calls :: nat

record fx_env =
  fe_now :: "nat \<Rightarrow> instant"
  fe_later :: "nat \<Rightarrow> instant"
  fe_reply :: "nat \<Rightarrow> pystr \<Rightarrow> http_reply option"
  fe_race :: "nat \<Rightarrow> fx_rate list \<Rightarrow> fx_rate list"
  fe_cache_seconds :: int
  fe_str :: "json \<Rightarrow> pystr"
  fe_decimal :: "pystr \<Rightarrow> rat option"
  fe_store :: "rat \<Rightarrow> rat option"

text \<open>\<open>target in (None, 0)\<close>.\<close>

definition no_rate :: "json \<Rightarrow> bool" where
  "no_rate v \<longleftrightarrow> v \<in> {JNull, JInt 0, JFloat 0, JBool False}"

definition fetch_rate :: "fx_env \<Rightarrow> nat \<Rightarrow> pystr \<Rightarrow> pystr \<Rightarrow> (rat \<times> pystr) option" where
  "fetch_rate fe n base quote =
     (case fe_reply fe n quote of
        None \<Rightarrow> None
      | Some r \<Rightarrow>
          if \<not> hr_success r then None
          else (case Option.bind (hr_json r) (\<lambda>payload. obj_get payload ''rates'' JNull) of
                  Some (JObj rates) \<Rightarrow>
                    (let target = json_get rates base
                     in if no_rate target then None
                        else map_option (\<lambda>q. (q, lit ''open.er-api''))
                               (fe_decimal fe (case target of JStr s \<Rightarrow> s | _ \<Rightarrow> fe_str fe target)))
                | _ \<Rightarrow> None))"

definition upsert_rate :: "fx_rate \<Rightarrow> fx_rate list \<Rightarrow> fx_rate list" where
  "upsert_rate r rows =
     (if row_get fx_key (fx_key r) rows = None then rows @ [r] else row_update fx_key (fx_key r) (\<lambda>_. r) rows)"

text \<open>
  \<open>None\<close> in place of the rate is an exception: of the provider's answer with no row to fall back to, or of the
  column \<open>Numeric(20, 8)\<close> that keeps the rate (\<open>fe_store\<close>).
\<close>

definition get_rate :: "fx_env \<Rightarrow> pystr \<Rightarrow> pystr \<Rightarrow> fx_state \<Rightarrow> (rat \<times> pystr) option \<times> fx_state" where
  "get_rate fe base_currency quote_currency st =
     (let base = py_upper base_currency; quote = py_upper quote_currency
      in if base = quote then (Some (1, lit ''identity''), st)
         else
           (let n = fs_calls st; row = row_get fx_key (base, quote) (fs_rows st);
                stale_before = fe_now fe n - seconds (fe_cache_seconds fe);
                ask = (case fetch_rate fe n base quote of
                         None \<Rightarrow>
                           (map_option (\<lambda>r. (fr_rate r, fr_source r @ lit '':stale'')) row,
                            st\<lparr>fs_rows := fe_race fe n (fs_rows st), fs_calls := n + 1\<rparr>)
                       | Some (rate, source) \<Rightarrow>
                           (case fe_store fe rate of
                              None \<Rightarrow> (None, st\<lparr>fs_rows := fe_race fe n (fs_rows st), fs_calls := n + 1\<rparr>)
                            | Some stored \<Rightarrow>
                                (Some (rate, source),
                                 st\<lparr>fs_rows := upsert_rate
                                      \<lparr>fr_base_currency = base, fr_quote_currency = quote, fr_rate = stored,
                                       fr_source = source, fr_fetched_at = fe_later fe n\<rparr> (fe_race fe n (fs_rows st)),
                                    fs_calls := n + 1\<rparr>)))
            in case row of
                 None \<Rightarrow> ask
               | Some r \<Rightarrow> if stale_before \<le> fr_fetched_at r
                           then (Some (fr_rate r, fr_source r), st\<lparr>fs_calls := n + 1\<rparr>) else ask))"

subsection \<open>Sums that stay exact\<close>

lemma scale10_int: "scale10 (of_int n) (int k) = of_int (n * 10 ^ k)"
  by (simp add: scale10_def)

lemma digit_count_bounds: "0 < n \<Longrightarrow> 10 ^ nat (digit_count n - 1) \<le> n \<and> n < 10 ^ nat (digit_count n) \<and> 1 \<le> digit_count n"
proof (induction n rule: digit_count.induct)
  case (1 n)
  show ?case
  proof (cases "n < 10")
    case True
    with 1(2) have "n div 10 = 0" by simp
    with True 1(2) show ?thesis by (simp add: digit_count.simps [of n] digit_count.simps [of 0])
  next
    case False
    then have pos: "0 < n div 10" by simp
    then have IH: "10 ^ nat (digit_count (n div 10) - 1) \<le> n div 10" "n div 10 < 10 ^ nat (digit_count (n div 10))"
      "1 \<le> digit_count (n div 10)" using 1 by simp_all
    define c where "c = digit_count (n div 10)"
    obtain m where m: "nat c = Suc m" using IH(3) by (cases "nat c") (auto simp: c_def)
    have e: "digit_count n = 1 + c" using 1(2) by (simp add: digit_count.simps [of n] c_def)
    have "nat (digit_count n - 1) = Suc m" "nat (digit_count n) = Suc (Suc m)" "nat (c - 1) = m"
      using m IH(3) by (simp_all add: e c_def nat_add_distrib)
    moreover have "10 * 10 ^ m \<le> n" "n < 10 * (10 * 10 ^ m)"
      using IH(1,2) m calculation(3) unfolding c_def by simp_all
    ultimately show ?thesis using e IH(3) by (simp add: c_def)
  qed
qed

lemma scale10_powi: "scale10 q e = q * 10 powi e"
proof (cases "0 \<le> e")
  case False
  then have "(10::rat) powi e = inverse (10 ^ nat (- e))" by (simp only: power_int_def if_False power_inverse)
  with False show ?thesis by (simp only: scale10_def if_False divide_inverse)
qed (simp only: scale10_def power_int_def if_True)

lemma scale10_add: "scale10 (scale10 q a) b = scale10 q (a + b)"
proof -
  have "(10::rat) powi (a + b) = 10 powi a * 10 powi b" by (rule power_int_add) simp
  then show ?thesis unfolding scale10_powi by (simp only: mult.assoc)
qed

lemma scale10_mono: "a \<le> b \<Longrightarrow> scale10 1 a \<le> scale10 1 b"
  unfolding scale10_powi mult_1_left by (rule power_int_increasing) simp_all

lemma magnitude_lower:
  assumes "q \<noteq> 0"
  shows "scale10 1 (magnitude q - 1) \<le> \<bar>q\<bar>"
proof -
  obtain n d where nd: "quotient_of \<bar>q\<bar> = (n, d)" by (cases "quotient_of \<bar>q\<bar>") auto
  then have d: "0 < d" and q: "\<bar>q\<bar> = of_int n / of_int d"
    by (auto dest: quotient_of_denom_pos quotient_of_div)
  have n: "0 < n"
  proof (rule ccontr)
    assume "\<not> 0 < n"
    then have "(of_int n / of_int d :: rat) \<le> 0" using d by (simp add: divide_nonpos_pos)
    with q assms show False by simp
  qed
  define a b where "a = digit_count n" and "b = digit_count d"
  have A: "10 ^ nat (a - 1) \<le> n" "1 \<le> a" and B: "d < 10 ^ nat b" "1 \<le> b"
    using digit_count_bounds [OF n] digit_count_bounds [OF d] by (simp_all add: a_def b_def)
  have "(10::rat) ^ nat (a - 1) \<le> of_int n" using A(1) by (metis of_int_le_iff of_int_numeral of_int_power)
  moreover have "of_int d \<le> (10::rat) ^ nat b" using B(1) by (metis of_int_le_iff of_int_numeral of_int_power less_imp_le)
  ultimately have "(10::rat) ^ nat (a - 1) / 10 ^ nat b \<le> of_int n / of_int d"
    using d n by (intro frac_le) simp_all
  moreover have "scale10 1 (a - b - 1) = (10::rat) ^ nat (a - 1) / 10 ^ nat b"
  proof -
    have "scale10 (scale10 1 (a - 1)) (- b) = scale10 1 (a - 1 + - b)" by (rule scale10_add)
    moreover have "scale10 1 (a - 1) = (10::rat) ^ nat (a - 1)" using A(2) by (simp add: scale10_def)
    moreover have "scale10 x (- b) = x / 10 ^ nat b" for x using B(2) by (simp add: scale10_def)
    ultimately show ?thesis by (simp add: algebra_simps)
  qed
  ultimately have low: "scale10 1 (a - b - 1) \<le> \<bar>q\<bar>" by (simp add: q)
  have "magnitude q = (if scale10 1 (a - b) \<le> \<bar>q\<bar> then a - b + 1 else a - b)"
    by (simp add: magnitude_def nd Let_def a_def b_def)
  with low show ?thesis by auto
qed

lemma magnitude_le:
  assumes "q \<noteq> 0" "\<bar>q\<bar> < 10 ^ k"
  shows "magnitude q \<le> int k"
proof (rule ccontr)
  assume "\<not> magnitude q \<le> int k"
  then have "scale10 1 (int k) \<le> scale10 1 (magnitude q - 1)" by (intro scale10_mono) simp
  with magnitude_lower [OF assms(1)] assms(2) show False by (simp add: scale10_def)
qed

text \<open>An amount of whole cents.\<close>

definition in_cents :: "rat \<Rightarrow> bool" where
  "in_cents q \<longleftrightarrow> q * 100 = of_int \<lfloor>q * 100\<rfloor>"

lemma in_cents_iff: "in_cents q \<longleftrightarrow> q * 100 \<in> \<int>"
  unfolding in_cents_def by (metis Ints_cases Ints_of_int floor_of_int)

lemma in_cents_simps [simp, intro]:
  "in_cents 0" "in_cents a \<Longrightarrow> in_cents b \<Longrightarrow> in_cents (a + b)" "in_cents a \<Longrightarrow> in_cents b \<Longrightarrow> in_cents (a - b)"
  "in_cents (of_int n / 100)"
  by (simp_all add: in_cents_iff distrib_right left_diff_distrib)

lemma in_cents_sum_list: "(\<And>x. x \<in> set xs \<Longrightarrow> in_cents (f x)) \<Longrightarrow> in_cents (sum_list (map f xs))"
  by (induction xs) simp_all

lemma round28_exact:
  assumes "in_cents q" "\<bar>q\<bar> < 10 ^ 26"
  shows "round28 q = q"
proof (cases "q = 0")
  case False
  define k where "k = nat (26 - magnitude q)"
  have k: "28 - magnitude q = 2 + int k" using magnitude_le [OF False assms(2)] by (simp add: k_def)
  obtain c where c: "q * 100 = of_int c" using assms(1) by (auto simp: in_cents_iff elim: Ints_cases)
  have "scale10 q (2 + int k) = of_int (c * 10 ^ k)"
    using c by (simp add: scale10_def nat_add_distrib power_add algebra_simps)
  moreover have "scale10 (scale10 q (2 + int k)) (- (2 + int k)) = q" by (simp only: scale10_add) (simp add: scale10_def)
  ultimately have "scale10 (of_int (round_half_even (scale10 q (2 + int k)))) (- (2 + int k)) = q"
    by (simp only: round_half_even_int)
  then show ?thesis unfolding round28_def Let_def k using False by (simp only: if_False)
qed (simp add: round28_def)

lemma add28_exact: "in_cents a \<Longrightarrow> in_cents b \<Longrightarrow> \<bar>a + b\<bar> < 10 ^ 26 \<Longrightarrow> add28 a b = a + b"
  by (simp add: add28_def round28_exact)

lemma quantize2_cents: "quantize2 q = Some r \<Longrightarrow> in_cents r"
  unfolding quantize2_def Let_def by (metis in_cents_simps(4) option.distinct(1) option.inject)

end
