(* ===== verification/Dashboard.thy ===== *)
theory Dashboard
  imports Exchange_Rates Categories Price_Lease Access
begin

text \<open>
  The dashboard, \<open>backend/app/services/dashboard.py\<close> and \<open>api/routes/dashboard.py\<close>: the totals and the trend of
  the transactions of a household over a month or a range of days, and the portfolio of its holdings valued in
  won by the quotes and the exchange rates.  A \<open>GROUP BY\<close> gives one row per key with the exact sum; Python adds
  in the 28 digits of \<open>Decimal\<close>.
\<close>

subsection \<open>Totals by flow\<close>

definition sub28 :: "rat \<Rightarrow> rat \<Rightarrow> rat" where
  "sub28 a b = round28 (a - b)"

type_synonym flow_totals = "flow_type \<Rightarrow> rat"

definition empty_totals :: flow_totals where
  "empty_totals = (\<lambda>_. 0)"

record overview_totals =
  ck_income :: rat
  ck_expense :: rat
  ck_investment :: rat
  ck_transfer :: rat
  ck_net_cashflow :: rat

definition net_cashflow :: "flow_totals \<Rightarrow> rat" where
  "net_cashflow totals = sub28 (sub28 (totals Flow_income) (totals Flow_expense)) (totals Flow_investment)"

definition with_net :: "flow_totals \<Rightarrow> overview_totals" where
  "with_net totals =
     \<lparr>ck_income = totals Flow_income, ck_expense = totals Flow_expense, ck_investment = totals Flow_investment,
      ck_transfer = totals Flow_transfer, ck_net_cashflow = net_cashflow totals\<rparr>"

record trend_point =
  de_month :: pystr
  de_income :: rat
  de_expense :: rat
  de_investment :: rat
  de_transfer :: rat
  de_net_cashflow :: rat

definition to_trend_point :: "pystr \<Rightarrow> flow_totals \<Rightarrow> trend_point" where
  "to_trend_point month totals =
     \<lparr>de_month = month, de_income = totals Flow_income, de_expense = totals Flow_expense,
      de_investment = totals Flow_investment, de_transfer = totals Flow_transfer,
      de_net_cashflow = net_cashflow totals\<rparr>"

definition group_sums :: "(transaction \<Rightarrow> 'k) \<Rightarrow> transaction list \<Rightarrow> ('k \<times> rat) list" where
  "group_sums key rows =
     map (\<lambda>k. (k, sum_list (map tx_amount (filter (\<lambda>t. key t = k) rows)))) (dedup (map key rows))"

definition add_totals :: "(flow_type \<times> rat) list \<Rightarrow> flow_totals \<Rightarrow> flow_totals" where
  "add_totals groups totals = fold (\<lambda>(flow, amount) t. t(flow := add28 (t flow) amount)) groups totals"

type_synonym trend_bucket = "(pystr \<times> flow_totals) list"

definition bucket_add :: "pystr \<Rightarrow> flow_type \<Rightarrow> rat \<Rightarrow> trend_bucket \<Rightarrow> trend_bucket" where
  "bucket_add key flow amount bucket =
     (let t = (case map_of bucket key of Some t \<Rightarrow> t | None \<Rightarrow> empty_totals)
      in dict_put key (t(flow := add28 (t flow) amount)) bucket)"

definition trend_of :: "trend_bucket \<Rightarrow> trend_point list" where
  "trend_of bucket = map (\<lambda>(key, t). to_trend_point key t) (sort_key fst bucket)"

subsection \<open>The overview\<close>

record overview_response =
  ov_household_id :: pystr
  ov_filter_mode :: string
  ov_year :: "int option"
  ov_month :: "int option"
  ov_start_date :: "date option"
  ov_end_date :: "date option"
  ov_min_available_month :: pystr
  ov_max_available_month :: pystr
  ov_totals :: overview_totals
  ov_trend :: "trend_point list"

text \<open>The loop that moves a month below January into the years before.\<close>

function fallback_start :: "int \<Rightarrow> int \<Rightarrow> int \<times> int" where
  "fallback_start year month = (if month \<le> 0 then fallback_start (year - 1) (month + 12) else (year, month))"
  by pat_completeness auto
termination by (relation "measure (\<lambda>(year, month). nat (1 - month))") auto

declare fallback_start.simps [simp del]

text \<open>\<open>None\<close> is the \<open>ValueError\<close> of \<open>date\<close>.\<close>

definition month_bounds :: "db \<Rightarrow> pystr \<Rightarrow> date \<Rightarrow> (pystr \<times> pystr) option" where
  "month_bounds d household_id fallback_date =
     (case fallback_start (fst fallback_date) (fst (snd fallback_date) - 23) of
        (fallback_year, fallback_month) \<Rightarrow>
          (case mk_date fallback_year fallback_month 1 of
             None \<Rightarrow> None
           | Some default_minimum \<Rightarrow>
               (let minimum = (case sort (map tx_occurred_on
                                  (filter (\<lambda>t. tx_household_id t = household_id) (db_transactions d))) of
                                 first_tx # _ \<Rightarrow> first_tx | [] \<Rightarrow> default_minimum)
                in Some (month_key (if fallback_date < minimum then fallback_date else minimum),
                         month_key fallback_date))))"

definition rows_between :: "db \<Rightarrow> pystr \<Rightarrow> (date \<Rightarrow> bool) \<Rightarrow> transaction list" where
  "rows_between d household_id period =
     filter (\<lambda>t. tx_household_id t = household_id \<and> period (tx_occurred_on t)) (db_transactions d)"

definition trend_groups_month :: "int \<Rightarrow> ((int \<times> flow_type) \<times> rat) list \<Rightarrow> trend_bucket \<Rightarrow> trend_bucket" where
  "trend_groups_month year groups bucket =
     fold (\<lambda>((month, flow), amount) b.
        if month < 1 \<or> 12 < month then b else bucket_add (month_key (year, month, 1)) flow amount b) groups bucket"

definition overview_month :: "db \<Rightarrow> date \<Rightarrow> pystr \<Rightarrow> int \<Rightarrow> int \<Rightarrow> overview_response option" where
  "overview_month d today household_id year month =
     (case month_bounds d household_id today of
        None \<Rightarrow> None
      | Some (min_month, max_month) \<Rightarrow>
          (let year_start = (year, 1, 1); year_end = (year + 1, 1, 1);
               month_start = (year, month, 1);
               month_end = (year + (if month = 12 then 1 else 0), if month = 12 then 1 else month + 1, 1);
               totals = add_totals (group_sums tx_flow_type
                          (rows_between d household_id (\<lambda>o'. month_start \<le> o' \<and> o' < month_end))) empty_totals;
               trend_bucket = trend_groups_month year
                 (group_sums (\<lambda>t. (fst (snd (tx_occurred_on t)), tx_flow_type t))
                    (rows_between d household_id (\<lambda>o'. year_start \<le> o' \<and> o' < year_end)))
                 (map (\<lambda>idx. (month_key (year, idx, 1), empty_totals)) [1..12])
           in Some \<lparr>ov_household_id = household_id, ov_filter_mode = ''month'', ov_year = Some year,
                    ov_month = Some month, ov_start_date = None, ov_end_date = None,
                    ov_min_available_month = min_month, ov_max_available_month = max_month,
                    ov_totals = with_net totals, ov_trend = trend_of trend_bucket\<rparr>))"

definition trend_groups_range :: "((int \<times> int \<times> flow_type) \<times> rat) list \<Rightarrow> trend_bucket \<Rightarrow> trend_bucket" where
  "trend_groups_range groups bucket =
     fold (\<lambda>((year, month, flow), amount) b.
        if year \<le> 0 \<or> month < 1 \<or> 12 < month then b
        else bucket_add (month_key (year, month, 1)) flow amount b) groups bucket"

definition overview_range :: "db \<Rightarrow> date \<Rightarrow> pystr \<Rightarrow> date \<Rightarrow> date \<Rightarrow> overview_response option" where
  "overview_range d today household_id start_date end_date =
     (case month_bounds d household_id today of
        None \<Rightarrow> None
      | Some (min_month, max_month) \<Rightarrow>
          (let rows = rows_between d household_id (\<lambda>o'. start_date \<le> o' \<and> o' \<le> end_date);
               totals = add_totals (group_sums tx_flow_type rows) empty_totals;
               trend_bucket = trend_groups_range
                 (group_sums (\<lambda>t. (fst (tx_occurred_on t), fst (snd (tx_occurred_on t)), tx_flow_type t)) rows) []
           in Some \<lparr>ov_household_id = household_id, ov_filter_mode = ''range'', ov_year = None, ov_month = None,
                    ov_start_date = Some start_date, ov_end_date = Some end_date,
                    ov_min_available_month = min_month, ov_max_available_month = max_month,
                    ov_totals = with_net totals, ov_trend = trend_of trend_bucket\<rparr>))"

text \<open>The query parameters of the endpoint; \<open>None\<close> is a validation error (status 400).\<close>

record overview_query =
  oq_year :: "int option"
  oq_month :: "int option"
  oq_start_date :: "date option"
  oq_end_date :: "date option"

definition overview_query_ok :: "overview_query \<Rightarrow> bool" where
  "overview_query_ok q \<longleftrightarrow>
     (case oq_year q of None \<Rightarrow> True | Some y \<Rightarrow> 1970 \<le> y \<and> y \<le> 2100)
     \<and> (case oq_month q of None \<Rightarrow> True | Some m \<Rightarrow> 1 \<le> m \<and> m \<le> 12)"

definition overview :: "db \<Rightarrow> date \<Rightarrow> ctx \<Rightarrow> overview_query \<Rightarrow> (http_error + overview_response) option" where
  "overview d today ctx q =
     (if \<not> overview_query_ok q then None
      else Some
       (let answer = (\<lambda>r. case r of None \<Rightarrow> Inl ServerError | Some o' \<Rightarrow> Inr o')
        in case (oq_start_date q, oq_end_date q) of
             (Some start_date, Some end_date) \<Rightarrow>
               (if end_date < start_date then Inl (HttpDetail 400 ''start_date must be <= end_date'')
                else answer (overview_range d today (hh_id (fst ctx)) start_date end_date))
           | (None, None) \<Rightarrow>
               answer (overview_month d today (hh_id (fst ctx))
                         (case oq_year q of Some y \<Rightarrow> y | None \<Rightarrow> fst today)
                         (case oq_month q of Some m \<Rightarrow> m | None \<Rightarrow> fst (snd today)))
           | _ \<Rightarrow> Inl (HttpDetail 400 ''start_date and end_date must be provided together'')))"

subsection \<open>The portfolio\<close>

record portfolio_item =
  pi_holding_id :: pystr
  pi_asset_type :: asset_type
  pi_type_key :: "pystr option"
  pi_symbol :: pystr
  pi_market_symbol :: pystr
  pi_name :: pystr
  pi_category :: pystr
  pi_owner_name :: "pystr option"
  pi_account_name :: "pystr option"
  pi_quantity :: rat
  pi_average_cost :: rat
  pi_currency :: pystr
  pi_display_order :: int
  pi_latest_price :: "rat option"
  pi_latest_price_currency :: pystr
  pi_market_value_krw :: rat
  pi_invested_krw :: rat
  pi_gain_loss_krw :: rat
  pi_source :: pystr

record krw_values =
  kv_market_value :: rat
  kv_invested :: rat
  kv_gain_loss :: rat

record portfolio_slice =
  cs_category :: pystr
  cs_market_value_krw :: rat
  cs_invested_krw :: rat
  cs_gain_loss_krw :: rat
  cs_weight_ratio :: rat

record portfolio_response =
  po_household_id :: pystr
  po_base_currency :: pystr
  po_as_of :: instant
  po_total_market_value_krw :: rat
  po_total_invested_krw :: rat
  po_total_gain_loss_krw :: rat
  po_items :: "portfolio_item list"
  po_categories :: "portfolio_slice list"

text \<open>
  What the service takes from outside: the settings and the clock of the quotes, the exchange rates and the time
  of the answer.  The quotes come from \<open>quote_holding\<close> without a forced refresh, which reads the snapshots only.
\<close>

record portfolio_env =
  qe_providers :: providers
  qe_cache_seconds :: int
  qe_store_price :: "rat \<Rightarrow> rat"
  qe_now :: "pystr \<Rightarrow> instant"
  qe_fx :: fx_env
  qe_as_of :: instant

definition to_krw :: "fx_env \<Rightarrow> rat \<Rightarrow> pystr \<Rightarrow> fx_state \<Rightarrow> (http_error + rat) \<times> fx_state" where
  "to_krw fe amount currency st =
     (let code = py_upper (if currency = [] then lit ''KRW'' else currency);
          cents = (\<lambda>v. case quantize2 v of None \<Rightarrow> Inl ServerError | Some r \<Rightarrow> Inr r)
      in if code = lit ''KRW'' then (cents amount, st)
         else (case get_rate fe (lit ''KRW'') code st of
                 (None, st') \<Rightarrow> (Inl (AppErrorCtx 503 ''FX_RATE_UNAVAILABLE'' [code]), st')
               | (Some (rate, _), st') \<Rightarrow> (cents (mul28 amount rate), st')))"

definition or_none :: "pystr \<Rightarrow> pystr option" where
  "or_none s = (if py_strip s = [] then None else Some (py_strip s))"

definition portfolio_owner_name :: "db \<Rightarrow> holding \<Rightarrow> pystr option" where
  "portfolio_owner_name d h = map_option us_display_name (Option.bind (hd_owner_user_id h) (\<lambda>u. row_get us_id u (db_users d)))"

definition item_owner_name :: "db \<Rightarrow> holding \<Rightarrow> pystr option" where
  "item_owner_name d h =
     or_none (case portfolio_owner_name d h of
        Some (c # cs) \<Rightarrow> c # cs
      | _ \<Rightarrow> (case hd_owner_name h of Some s \<Rightarrow> s | None \<Rightarrow> []))"

text \<open>One turn of the loop over the holdings: its item.\<close>

definition value_holding ::
  "portfolio_env \<Rightarrow> db \<Rightarrow> price_snapshot list \<Rightarrow> holding \<Rightarrow> fx_state \<Rightarrow> (http_error + portfolio_item) \<times> fx_state" where
  "value_holding pe d snapshots h st =
     (let q = fst (quote_holding (qe_providers pe) (qe_cache_seconds pe) (qe_store_price pe) (qe_now pe (hd_id h)) h
                     False snapshots);
          invested_native = mul28 (hd_quantity h) (hd_average_cost h);
          market_native = (case qu_price q of None \<Rightarrow> invested_native | Some p \<Rightarrow> mul28 (hd_quantity h) p);
          price_currency = (case (qu_price q, qu_currency q) of
                              (Some _, Some (c # cs)) \<Rightarrow> c # cs | _ \<Rightarrow> hd_currency h)
      in case to_krw (qe_fx pe) invested_native (hd_currency h) st of
           (Inl e, st1) \<Rightarrow> (Inl e, st1)
         | (Inr invested_krw, st1) \<Rightarrow>
             (case to_krw (qe_fx pe) market_native price_currency st1 of
                (Inl e, st2) \<Rightarrow> (Inl e, st2)
              | (Inr market_krw, st2) \<Rightarrow>
                  (Inr \<lparr>pi_holding_id = hd_id h, pi_asset_type = hd_asset_type h,
                        pi_type_key = or_none (case hd_type_key h of Some s \<Rightarrow> s | None \<Rightarrow> []),
                        pi_symbol = hd_symbol h, pi_market_symbol = hd_market_symbol h, pi_name = hd_name h,
                        pi_category = hd_category h, pi_owner_name = item_owner_name d h,
                        pi_account_name = hd_account_name h, pi_quantity = hd_quantity h,
                        pi_average_cost = hd_average_cost h, pi_currency = hd_currency h,
                        pi_display_order = hd_display_order h, pi_latest_price = qu_price q,
                        pi_latest_price_currency = price_currency, pi_market_value_krw = market_krw,
                        pi_invested_krw = invested_krw, pi_gain_loss_krw = sub28 market_krw invested_krw,
                        pi_source = qu_source q\<rparr>, st2)))"

record portfolio_sums =
  sw_items :: "portfolio_item list"
  sw_total_market :: rat
  sw_total_invested :: rat
  sw_category_bucket :: "(pystr \<times> krw_values) list"

definition add_item :: "portfolio_item \<Rightarrow> portfolio_sums \<Rightarrow> portfolio_sums" where
  "add_item i w =
     (let bucket = (case map_of (sw_category_bucket w) (pi_category i) of
                      Some v \<Rightarrow> v | None \<Rightarrow> \<lparr>kv_market_value = 0, kv_invested = 0, kv_gain_loss = 0\<rparr>)
      in \<lparr>sw_items = sw_items w @ [i],
          sw_total_market = add28 (sw_total_market w) (pi_market_value_krw i),
          sw_total_invested = add28 (sw_total_invested w) (pi_invested_krw i),
          sw_category_bucket = dict_put (pi_category i)
            \<lparr>kv_market_value = add28 (kv_market_value bucket) (pi_market_value_krw i),
             kv_invested = add28 (kv_invested bucket) (pi_invested_krw i),
             kv_gain_loss = add28 (kv_gain_loss bucket) (pi_gain_loss_krw i)\<rparr> (sw_category_bucket w)\<rparr>)"

fun portfolio_loop ::
  "portfolio_env \<Rightarrow> db \<Rightarrow> price_snapshot list \<Rightarrow> holding list \<Rightarrow> portfolio_sums \<Rightarrow> fx_state
   \<Rightarrow> (http_error + portfolio_sums) \<times> fx_state" where
  "portfolio_loop pe d snapshots [] w st = (Inr w, st)"
| "portfolio_loop pe d snapshots (h # hs) w st =
     (case value_holding pe d snapshots h st of
        (Inl e, st') \<Rightarrow> (Inl e, st')
      | (Inr i, st') \<Rightarrow> portfolio_loop pe d snapshots hs (add_item i w) st')"

text \<open>\<open>None\<close> is \<open>InvalidOperation\<close>.\<close>

definition portfolio_slice_of :: "rat \<Rightarrow> pystr \<times> krw_values \<Rightarrow> portfolio_slice option" where
  "portfolio_slice_of total_market nv =
     map_option (\<lambda>weight. \<lparr>cs_category = fst nv, cs_market_value_krw = kv_market_value (snd nv),
         cs_invested_krw = kv_invested (snd nv), cs_gain_loss_krw = kv_gain_loss (snd nv), cs_weight_ratio = weight\<rparr>)
       (if 0 < total_market then quantize4 (div28 (kv_market_value (snd nv)) total_market) else Some 0)"

fun portfolio_slices :: "rat \<Rightarrow> (pystr \<times> krw_values) list \<Rightarrow> portfolio_slice list option" where
  "portfolio_slices total_market [] = Some []"
| "portfolio_slices total_market (nv # rest) =
     (case portfolio_slice_of total_market nv of
        None \<Rightarrow> None
      | Some s \<Rightarrow> map_option ((#) s) (portfolio_slices total_market rest))"

definition portfolio ::
  "portfolio_env \<Rightarrow> db \<Rightarrow> household \<Rightarrow> price_snapshot list \<Rightarrow> fx_state \<Rightarrow> (http_error + portfolio_response) \<times> fx_state" where
  "portfolio pe d h snapshots st =
     (case portfolio_loop pe d snapshots (filter (\<lambda>x. hd_household_id x = hh_id h) (db_holdings d))
             \<lparr>sw_items = [], sw_total_market = 0, sw_total_invested = 0, sw_category_bucket = []\<rparr> st of
        (Inl e, st') \<Rightarrow> (Inl e, st')
      | (Inr w, st') \<Rightarrow>
          (case portfolio_slices (sw_total_market w) (sort_key (\<lambda>nv. - kv_market_value (snd nv)) (sw_category_bucket w)) of
             None \<Rightarrow> (Inl ServerError, st')
           | Some categories \<Rightarrow>
               (Inr \<lparr>po_household_id = hh_id h, po_base_currency = hh_base_currency h, po_as_of = qe_as_of pe,
                     po_total_market_value_krw = sw_total_market w, po_total_invested_krw = sw_total_invested w,
                     po_total_gain_loss_krw = sub28 (sw_total_market w) (sw_total_invested w),
                     po_items = sw_items w, po_categories = categories\<rparr>, st')))"

definition portfolio_endpoint ::
  "portfolio_env \<Rightarrow> db \<Rightarrow> ctx \<Rightarrow> bool option \<Rightarrow> price_snapshot list \<Rightarrow> fx_state
   \<Rightarrow> (http_error + portfolio_response) \<times> fx_state" where
  "portfolio_endpoint pe d ctx refresh_prices snapshots st =
     (if refresh_prices = Some True then (Inl (AppError 400 ''DASHBOARD_PORTFOLIO_REFRESH_PRICES_UNSUPPORTED''), st)
      else portfolio pe d (fst ctx) snapshots st)"

subsection \<open>The routes of the prices\<close>

text \<open>
  \<open>api/routes/prices.py\<close>: the answer of a refresh request and of the status, from what \<open>request_refresh\<close> and
  \<open>status\<close> give.
\<close>

record price_refresh_answer =
  ra_household_id :: pystr
  ra_refresh :: refresh_response

definition request_price_refresh :: "ctx \<Rightarrow> refresh_response \<Rightarrow> price_refresh_answer" where
  "request_price_refresh ctx refresh_job = \<lparr>ra_household_id = hh_id (fst ctx), ra_refresh = refresh_job\<rparr>"

definition refresh_prices :: "ctx \<Rightarrow> refresh_response \<Rightarrow> http_error + price_refresh_answer" where
  "refresh_prices ctx refresh_job =
     (case require_editor_household ctx of Inl e \<Rightarrow> Inl e | Inr c \<Rightarrow> Inr (request_price_refresh c refresh_job))"

record price_status_answer =
  sa_household_id :: pystr
  sa_cache_seconds :: int
  sa_fx_base_currency :: pystr
  sa_status :: price_status

definition price_status_endpoint ::
  "int \<Rightarrow> instant \<Rightarrow> db \<Rightarrow> refresh_status list \<Rightarrow> price_snapshot list \<Rightarrow> ctx \<Rightarrow> price_status_answer" where
  "price_status_endpoint cache_seconds now d states snapshots ctx =
     \<lparr>sa_household_id = hh_id (fst ctx), sa_cache_seconds = cache_seconds,
      sa_fx_base_currency = hh_base_currency (fst ctx),
      sa_status = price_refresh_status cache_seconds now (db_holdings d) states snapshots (hh_id (fst ctx))\<rparr>"

end
