(* ===== verification/Dashboard_Claims.thy ===== *)
theory Dashboard_Claims
  imports Dashboard Samples
begin

text \<open>
  What the dashboard and the exchange rates promise: the overview is the ledger of the period summed by flow and
  by month, the portfolio adds up item by item and category by category, and a rate fetched once answers the
  requests of its cache time.
\<close>

subsection \<open>Sample data\<close>

definition dash_db :: db where
  "dash_db = sample_db\<lparr>
     db_transactions := [sample_tx ''t1'' 1 ''a'',
       (sample_tx ''t2'' 2 ''pay'')\<lparr>tx_flow_type := Flow_income, tx_occurred_on := (2024, 4, 30), tx_amount := 25 / 2\<rparr>,
       (sample_tx ''t3'' 1 ''old'')\<lparr>tx_occurred_on := (2023, 12, 31)\<rparr>]\<rparr>"

definition dash_query :: overview_query where
  "dash_query = \<lparr>oq_year = None, oq_month = None, oq_start_date = Some (2024, 4, 1), oq_end_date = Some (2024, 5, 31)\<rparr>"

definition coin :: holding where
  "coin = \<lparr>hd_id = lit ''a2'', hd_household_id = lit ''h1'', hd_asset_type = Asset_crypto, hd_symbol = lit ''BTC'',
     hd_market_symbol = lit ''btc'', hd_name = lit ''coin'', hd_type_key = None, hd_category = lit ''risky'',
     hd_owner_user_id = Some (lit ''u2''), hd_owner_name = None, hd_account_name = None, hd_quantity = 1 / 8,
     hd_average_cost = 100, hd_currency = lit ''USD'', hd_display_order = 1, hd_source_ref = None, hd_version = 1,
     hd_updated_at = 0\<rparr>"

definition port_env :: portfolio_env where
  "port_env =
     \<lparr>qe_providers = \<lparr>pv_naver = \<lambda>_. None, pv_yahoo = \<lambda>_. None, pv_stooq = \<lambda>_. None, pv_coingecko = \<lambda>_. None,
        pv_str = \<lambda>_. [], pv_decimal = \<lambda>_. None\<rparr>,
      qe_cache_seconds = 60, qe_store_price = id, qe_now = \<lambda>_. seconds 100,
      qe_fx = \<lparr>fe_now = \<lambda>n. seconds (100 + int n), fe_later = \<lambda>n. seconds (101 + int n), fe_reply = \<lambda>_ _. None,
        fe_race = \<lambda>_ rows. rows, fe_cache_seconds = 60, fe_str = \<lambda>_. lit ''1300.5'',
        fe_decimal = \<lambda>_. Some (2601 / 2), fe_store = Some\<rparr>,
      qe_as_of = seconds 100\<rparr>"

definition port_db :: db where
  "port_db = sample_db\<lparr>db_holdings :=
     [coin\<lparr>hd_id := lit ''a1'', hd_asset_type := Asset_cash, hd_category := lit ''cash'', hd_quantity := 3,
           hd_average_cost := 1001 / 2, hd_currency := lit ''krw''\<rparr>, coin]\<rparr>"

definition port_snaps :: "price_snapshot list" where
  "port_snaps = [\<lparr>ps_asset_type = Asset_crypto, ps_symbol = lit ''BTC'', ps_currency = lit ''USD'', ps_price = 120,
     ps_source = lit ''coingecko'', ps_fetched_at = seconds 90\<rparr>]"

definition port_rates :: fx_state where
  "port_rates = \<lparr>fs_rows = [\<lparr>fr_base_currency = lit ''KRW'', fr_quote_currency = lit ''USD'', fr_rate = 2601 / 2,
     fr_source = lit ''open.er-api'', fr_fetched_at = seconds 50\<rparr>], fs_calls = 0\<rparr>"

subsection \<open>Groups\<close>

lemma map_of_group_sums:
  "map_of (group_sums key rows) k =
     (if k \<in> key ` set rows then Some (sum_list (map tx_amount (filter (\<lambda>t. key t = k) rows))) else None)"
proof -
  have "map_of (map (\<lambda>k. (k, f k)) ks) k = (if k \<in> set ks then Some (f k) else None)" for f :: "'a \<Rightarrow> rat" and ks
    by (induction ks) auto
  then show ?thesis by (simp add: group_sums_def)
qed

lemma distinct_group_sums: "distinct (map fst (group_sums key rows))"
  by (simp add: group_sums_def comp_def)

lemma add_totals_lookup:
  "distinct (map fst groups) \<Longrightarrow>
     add_totals groups t f = (case map_of groups f of None \<Rightarrow> t f | Some a \<Rightarrow> add28 (t f) a)"
proof (induction groups arbitrary: t)
  case (Cons g groups)
  obtain f' a where g: "g = (f', a)" by (cases g)
  have "add_totals (g # groups) t = add_totals groups (t(f' := add28 (t f') a))" by (simp add: add_totals_def g)
  moreover have "map_of groups f' = None" "distinct (map fst groups)" using Cons.prems by (simp_all add: g map_of_NoneD)
  ultimately show ?case using Cons.IH
    by (cases "f = f'") (simp_all add: g split: option.split)
qed (simp add: add_totals_def)

definition bucket_adds :: "((pystr \<times> flow_type) \<times> rat) list \<Rightarrow> trend_bucket \<Rightarrow> trend_bucket" where
  "bucket_adds groups bucket = fold (\<lambda>((key, flow), amount). bucket_add key flow amount) groups bucket"

lemma bucket_adds_distinct:
  "distinct (map fst bucket) \<Longrightarrow> distinct (map fst (bucket_adds groups bucket))"
  by (induction groups arbitrary: bucket) (auto simp: bucket_adds_def bucket_add_def Let_def distinct_dict_put)

lemma bucket_adds_keys: "fst ` set (bucket_adds groups bucket) = fst ` set bucket \<union> (fst \<circ> fst) ` set groups"
proof (induction groups arbitrary: bucket)
  case (Cons g groups)
  obtain k f a where g: "g = ((k, f), a)" by (cases g) auto
  have "bucket_adds (g # groups) bucket = bucket_adds groups (bucket_add k f a bucket)"
    by (simp add: bucket_adds_def g)
  with Cons g show ?case by (simp add: bucket_add_def Let_def keys_dict_put)
qed (simp add: bucket_adds_def)

definition bucket_value :: "trend_bucket \<Rightarrow> pystr \<Rightarrow> flow_totals" where
  "bucket_value bucket key = (case map_of bucket key of Some t \<Rightarrow> t | None \<Rightarrow> empty_totals)"

lemma bucket_adds_value:
  "distinct (map fst groups) \<Longrightarrow>
     bucket_value (bucket_adds groups bucket) k f
     = (case map_of groups (k, f) of None \<Rightarrow> bucket_value bucket k f | Some a \<Rightarrow> add28 (bucket_value bucket k f) a)"
proof (induction groups arbitrary: bucket)
  case (Cons g groups)
  obtain k' f' a where g: "g = ((k', f'), a)" by (cases g) auto
  have e: "bucket_adds (g # groups) bucket = bucket_adds groups (bucket_add k' f' a bucket)"
    by (simp add: bucket_adds_def g)
  have v: "bucket_value (bucket_add k' f' a bucket) k f
      = (if (k, f) = (k', f') then add28 (bucket_value bucket k f) a else bucket_value bucket k f)"
    by (auto simp: bucket_value_def bucket_add_def map_of_dict_put Let_def)
  have n: "map_of groups (k', f') = None" "distinct (map fst groups)" using Cons.prems by (simp_all add: g map_of_NoneD)
  show ?case unfolding e Cons.IH [OF n(2)] v using n(1) by (cases "(k, f) = (k', f')") (auto simp: g)
qed (simp add: bucket_adds_def)

text \<open>Trend points in the order of their months, by the values of the bucket.\<close>

lemma trend_of_eq:
  assumes "distinct (map fst bucket)"
  shows "trend_of bucket = map (\<lambda>k. to_trend_point k (bucket_value bucket k)) (sort (map fst bucket))"
proof -
  have "map fst (sort_key fst bucket) = sort (map fst bucket)"
    by (rule properties_for_sort [symmetric]) (simp_all only: mset_map mset_sort sorted_sort_key)
  then have "map (\<lambda>k. to_trend_point k (bucket_value bucket k)) (sort (map fst bucket))
      = map (\<lambda>kt. to_trend_point (fst kt) (bucket_value bucket (fst kt))) (sort_key fst bucket)"
    by (metis (no_types, lifting) List.map.compositionality map_map comp_apply map_eq_conv)
  also have "\<dots> = trend_of bucket"
    unfolding trend_of_def
  proof (rule map_cong [OF refl])
    fix kt assume "kt \<in> set (sort_key fst bucket)"
    then have "map_of bucket (fst kt) = Some (snd kt)" using assms by (simp add: map_of_eq_Some_iff)
    then show "to_trend_point (fst kt) (bucket_value bucket (fst kt)) = (case kt of (k, t) \<Rightarrow> to_trend_point k t)"
      by (simp add: bucket_value_def split_beta)
  qed
  finally show ?thesis by simp
qed

lemma dedup_map_inj: "inj_on h (set xs) \<Longrightarrow> dedup (map h xs) = map h (dedup xs)"
proof (induction xs)
  case (Cons x xs)
  then have i: "inj_on h (set xs)" and n: "h y = h x \<longleftrightarrow> y = x" if "y \<in> set xs" for y
    using that by (auto simp: inj_on_def)
  have "inj_on h (set xs)" using Cons.prems by (simp add: inj_on_def)
  moreover have "filter (\<lambda>y. h y \<noteq> h x) (dedup xs) = filter (\<lambda>y. y \<noteq> x) (dedup xs)"
    by (rule filter_cong) (simp_all add: n)
  ultimately show ?case using Cons.IH by (simp add: filter_map comp_def)
qed simp

lemma group_sums_map:
  assumes "inj_on h (key ` set rows)"
  shows "map (\<lambda>(k, a). (h k, a)) (group_sums key rows) = group_sums (\<lambda>t. h (key t)) rows"
proof -
  have "filter (\<lambda>t. key t = k) rows = filter (\<lambda>t. h (key t) = h k) rows" if "k \<in> key ` set rows" for k
    using assms that by (intro filter_cong) (auto simp: inj_on_def)
  moreover have "dedup (map (\<lambda>t. h (key t)) rows) = map h (dedup (map key rows))"
    using dedup_map_inj [of h "map key rows"] assms by (simp add: comp_def)
  ultimately show ?thesis by (simp add: group_sums_def comp_def)
qed

lemma month_key_eq_iff: "month_key (y, m, a) = month_key (y', m', b) \<longleftrightarrow> y = y' \<and> m = m'"
proof
  assume "month_key (y, m, a) = month_key (y', m', b)"
  then have e: "y div 1000 = y' div 1000" "(y div 100) mod 10 = (y' div 100) mod 10"
    "(y div 10) mod 10 = (y' div 10) mod 10" "y mod 10 = y' mod 10" "m div 10 = m' div 10" "m mod 10 = m' mod 10"
    by (simp_all add: month_key_def)
  have "n = 1000 * (n div 1000) + 100 * ((n div 100) mod 10) + 10 * ((n div 10) mod 10) + n mod 10" for n :: int
  proof -
    have "n div 100 = n div 10 div 10" "n div 1000 = n div 100 div 10" by (simp_all add: div_mult2_eq [symmetric])
    then show ?thesis using div_mult_mod_eq [of n 10] div_mult_mod_eq [of "n div 10" 10] div_mult_mod_eq [of "n div 100" 10]
      by linarith
  qed
  then have "y = y'" using e by metis
  moreover have "m = m'" using e(5,6) by (metis div_mult_mod_eq)
  ultimately show "y = y' \<and> m = m'" by simp
qed (simp add: month_key_def)

subsection \<open>The ledger of a period\<close>

definition flow_sum :: "flow_type \<Rightarrow> transaction list \<Rightarrow> rat" where
  "flow_sum flow rows = sum_list (map tx_amount (filter (\<lambda>t. tx_flow_type t = flow) rows))"

definition flow_net :: "transaction list \<Rightarrow> rat" where
  "flow_net rows = flow_sum Flow_income rows - flow_sum Flow_expense rows - flow_sum Flow_investment rows"

definition ledger_totals :: "transaction list \<Rightarrow> overview_totals" where
  "ledger_totals rows =
     \<lparr>ck_income = flow_sum Flow_income rows, ck_expense = flow_sum Flow_expense rows,
      ck_investment = flow_sum Flow_investment rows, ck_transfer = flow_sum Flow_transfer rows,
      ck_net_cashflow = flow_net rows\<rparr>"

definition ledger_point :: "pystr \<Rightarrow> transaction list \<Rightarrow> trend_point" where
  "ledger_point month rows =
     (let in_month = filter (\<lambda>t. month_key (tx_occurred_on t) = month) rows
      in \<lparr>de_month = month, de_income = flow_sum Flow_income in_month, de_expense = flow_sum Flow_expense in_month,
          de_investment = flow_sum Flow_investment in_month, de_transfer = flow_sum Flow_transfer in_month,
          de_net_cashflow = flow_net in_month\<rparr>)"

definition ledger_trend :: "transaction list \<Rightarrow> trend_point list" where
  "ledger_trend rows =
     map (\<lambda>m. ledger_point m rows) (sort (dedup (map (\<lambda>t. month_key (tx_occurred_on t)) rows)))"

text \<open>Amounts of whole cents whose absolute values add up to less than \<open>10 ^ 26\<close>: 28 digits hold every sum.\<close>

definition amounts_fit :: "transaction list \<Rightarrow> bool" where
  "amounts_fit rows \<longleftrightarrow>
     list_all (\<lambda>t. in_cents (tx_amount t)) rows \<and> sum_list (map (\<lambda>t. \<bar>tx_amount t\<bar>) rows) < 10 ^ 26"

lemma sum_list_bound:
  fixes f g :: "'a \<Rightarrow> rat"
  shows "(\<And>x. x \<in> set xs \<Longrightarrow> \<bar>f x\<bar> \<le> g x) \<Longrightarrow> \<bar>sum_list (map f xs)\<bar> \<le> sum_list (map g xs)"
proof (induction xs)
  case (Cons x xs)
  then have "\<bar>sum_list (map f xs)\<bar> \<le> sum_list (map g xs)" "\<bar>f x\<bar> \<le> g x" by simp_all
  then show ?case by (simp add: abs_le_iff)
qed simp

lemma sum_list_filter_if:
  fixes f :: "'a \<Rightarrow> rat"
  shows "sum_list (map f (filter P xs)) = sum_list (map (\<lambda>x. if P x then f x else 0) xs)"
  by (induction xs) simp_all

lemma amounts_fit_filter: "amounts_fit rows \<Longrightarrow> amounts_fit (filter P rows)"
proof -
  assume a: "amounts_fit rows"
  have "\<bar>sum_list (map (\<lambda>t. if P t then \<bar>tx_amount t\<bar> else 0) rows)\<bar> \<le> sum_list (map (\<lambda>t. \<bar>tx_amount t\<bar>) rows)"
    by (rule sum_list_bound) simp
  with a show ?thesis by (auto simp: amounts_fit_def list_all_iff sum_list_filter_if)
qed

lemma amounts_fit_sum:
  assumes "amounts_fit rows"
  shows "in_cents (sum_list (map tx_amount (filter P rows)))" "\<bar>sum_list (map tx_amount (filter P rows))\<bar> < 10 ^ 26"
proof -
  show "in_cents (sum_list (map tx_amount (filter P rows)))"
    using assms by (intro in_cents_sum_list) (auto simp: amounts_fit_def list_all_iff)
  have "\<bar>sum_list (map tx_amount (filter P rows))\<bar> \<le> sum_list (map (\<lambda>t. \<bar>tx_amount t\<bar>) (filter P rows))"
    by (rule sum_list_bound) simp
  with amounts_fit_filter [OF assms, of P] show "\<bar>sum_list (map tx_amount (filter P rows))\<bar> < 10 ^ 26"
    by (simp add: amounts_fit_def)
qed

lemma net_cashflow_exact:
  assumes "amounts_fit rows" "\<And>f. t f = flow_sum f rows"
  shows "net_cashflow t = flow_net rows"
proof -
  let ?S = "sum_list (map (\<lambda>t. \<bar>tx_amount t\<bar>) rows)"
  have c: "in_cents (flow_sum f rows)" for f using amounts_fit_sum(1) [OF assms(1)] by (simp add: flow_sum_def)
  have d: "flow_sum f rows = sum_list (map (\<lambda>t. if tx_flow_type t = f then tx_amount t else 0) rows)" for f
    by (simp add: flow_sum_def sum_list_filter_if)
  have "\<bar>flow_sum Flow_income rows - flow_sum Flow_expense rows\<bar> \<le> ?S"
    unfolding d sum_list_subtractf [symmetric] by (rule sum_list_bound) simp
  moreover have "\<bar>flow_net rows\<bar> \<le> ?S"
    unfolding d flow_net_def sum_list_subtractf [symmetric] by (rule sum_list_bound) simp
  moreover have "?S < 10 ^ 26" using assms(1) by (simp add: amounts_fit_def)
  ultimately show ?thesis
    unfolding net_cashflow_def sub28_def assms(2) flow_net_def by (simp add: round28_exact c)
qed

subsection \<open>The overview of a range of days\<close>

definition real_date :: "date \<Rightarrow> bool" where
  "real_date dt \<longleftrightarrow> (case dt of (y, m, d) \<Rightarrow> mk_date y m d = Some dt)"

lemma real_date_parts: "real_date (y, m, d) \<Longrightarrow> 1 \<le> y \<and> 1 \<le> m \<and> m \<le> 12"
  by (simp add: real_date_def mk_date_def split: if_splits)

lemma add_totals_ledger:
  assumes "amounts_fit rows"
  shows "with_net (add_totals (group_sums tx_flow_type rows) empty_totals) = ledger_totals rows"
proof -
  let ?t = "add_totals (group_sums tx_flow_type rows) empty_totals"
  have t: "?t f = flow_sum f rows" for f
  proof (cases "f \<in> tx_flow_type ` set rows")
    case False
    then have "filter (\<lambda>t. tx_flow_type t = f) rows = []" by (auto simp: filter_empty_conv)
    with False show ?thesis
      by (simp add: add_totals_lookup distinct_group_sums map_of_group_sums empty_totals_def flow_sum_def)
  next
    case True
    with amounts_fit_sum [OF assms, of "\<lambda>t. tx_flow_type t = f"] show ?thesis
      by (simp add: add_totals_lookup distinct_group_sums map_of_group_sums empty_totals_def flow_sum_def add28_exact)
  qed
  show ?thesis by (simp add: with_net_def ledger_totals_def t net_cashflow_exact [OF assms t])
qed

lemma bucket_ledger_point:
  assumes "amounts_fit rows" "\<And>f. bucket_value bucket k f = 0"
  shows "to_trend_point k (bucket_value (bucket_adds (group_sums (\<lambda>t. (month_key (tx_occurred_on t), tx_flow_type t)) rows) bucket) k)
       = ledger_point k rows"
proof -
  let ?key = "\<lambda>t. (month_key (tx_occurred_on t), tx_flow_type t)"
  let ?b = "bucket_adds (group_sums ?key rows) bucket"
  let ?rows = "filter (\<lambda>t. month_key (tx_occurred_on t) = k) rows"
  have v: "bucket_value ?b k f = flow_sum f ?rows" for f
  proof (cases "(k, f) \<in> ?key ` set rows")
    case False
    then have "filter (\<lambda>t. tx_flow_type t = f) ?rows = []" by (auto simp: filter_empty_conv)
    with False assms(2) show ?thesis
      by (simp add: bucket_adds_value distinct_group_sums map_of_group_sums flow_sum_def)
  next
    case True
    have "filter (\<lambda>t. ?key t = (k, f)) rows = filter (\<lambda>t. tx_flow_type t = f) ?rows" by (auto intro: filter_cong)
    with True assms(2) amounts_fit_sum [OF assms(1), of "\<lambda>t. ?key t = (k, f)"] show ?thesis
      by (simp add: bucket_adds_value distinct_group_sums map_of_group_sums flow_sum_def add28_exact)
  qed
  show ?thesis
    by (simp add: to_trend_point_def ledger_point_def Let_def v net_cashflow_exact [OF amounts_fit_filter [OF assms(1)] v])
qed

lemma trend_range_ledger:
  assumes "amounts_fit rows" "list_all (\<lambda>t. real_date (tx_occurred_on t)) rows"
  shows "trend_of (trend_groups_range
           (group_sums (\<lambda>t. (fst (tx_occurred_on t), fst (snd (tx_occurred_on t)), tx_flow_type t)) rows) [])
         = ledger_trend rows"
proof -
  let ?key = "\<lambda>t. (fst (tx_occurred_on t), fst (snd (tx_occurred_on t)), tx_flow_type t)"
  let ?mkey = "\<lambda>t. (month_key (tx_occurred_on t), tx_flow_type t)"
  let ?h = "\<lambda>(y, m, f). (month_key (y, m, 1), f :: flow_type)"
  have h: "?h (?key t) = ?mkey t" for t
    by (cases "tx_occurred_on t") (simp add: month_key_def)
  have inj: "inj_on ?h (?key ` set rows)"
    by (auto simp: inj_on_def month_key_eq_iff)
  let ?g = "group_sums ?key rows"
  have "trend_groups_range ?g [] = bucket_adds (map (\<lambda>(k, a). (?h k, a)) ?g) []"
  proof -
    have ok: "\<not> (y \<le> 0 \<or> m < 1 \<or> 12 < m)" if "((y, m, f), a) \<in> set ?g" for y m f a
    proof -
      from that have "(y, m, f) \<in> ?key ` set rows" by (auto simp: group_sums_def)
      then obtain t where "t \<in> set rows" and t: "(y, m, f) = ?key t" by auto
      with assms(2) have "real_date (tx_occurred_on t)" by (simp add: list_all_iff)
      with t real_date_parts [of y m "snd (snd (tx_occurred_on t))"] show ?thesis by simp
    qed
    have "fold (\<lambda>((y, m, f), a) b. if y \<le> 0 \<or> m < 1 \<or> 12 < m then b else bucket_add (month_key (y, m, 1)) f a b) gs b
        = fold (\<lambda>((k, f), a). bucket_add k f a) (map (\<lambda>(k, a). (?h k, a)) gs) b"
      if "set gs \<subseteq> set ?g" for gs b
      using that
    proof (induction gs arbitrary: b)
      case (Cons x gs)
      obtain y m f a where x: "x = ((y, m, f), a)" by (cases x) auto
      with Cons ok [of y m f a] show ?case by simp
    qed simp
    then show ?thesis by (simp add: trend_groups_range_def bucket_adds_def)
  qed
  also have "map (\<lambda>(k, a). (?h k, a)) ?g = group_sums ?mkey rows" unfolding group_sums_map [OF inj] h ..
  finally have b: "trend_groups_range ?g [] = bucket_adds (group_sums ?mkey rows) []" .
  let ?b = "bucket_adds (group_sums ?mkey rows) []"
  have d: "distinct (map fst ?b)" by (rule bucket_adds_distinct) simp
  have "set (map fst ?b) = set (dedup (map (\<lambda>t. month_key (tx_occurred_on t)) rows))"
    by (simp add: bucket_adds_keys group_sums_def image_image)
  then have s: "sort (map fst ?b) = sort (dedup (map (\<lambda>t. month_key (tx_occurred_on t)) rows))"
    by (intro sorted_distinct_set_unique) (simp_all only: set_sort sorted_sort distinct_sort d distinct_dedup)
  show ?thesis
    unfolding b trend_of_eq [OF d] s ledger_trend_def
    by (intro map_cong refl bucket_ledger_point assms) (simp add: bucket_value_def empty_totals_def)
qed

lemma sum_by_key:
  fixes f :: "'a \<Rightarrow> rat"
  assumes "distinct ks" "g ` set xs \<subseteq> set ks"
  shows "sum_list (map (\<lambda>k. sum_list (map f (filter (\<lambda>x. g x = k) xs))) ks) = sum_list (map f xs)"
  using assms(2)
proof (induction xs)
  case (Cons x xs)
  have "sum_list (map (\<lambda>k. sum_list (map f (filter (\<lambda>x. g x = k) (x # xs)))) ks)
      = sum_list (map (\<lambda>k. (if g x = k then f x else 0) + sum_list (map f (filter (\<lambda>x. g x = k) xs))) ks)"
    by (rule arg_cong [where f = sum_list]) simp
  also have "\<dots> = sum_list (map (\<lambda>k. if g x = k then f x else 0) ks) + sum_list (map f xs)"
    using Cons by (simp add: sum_list_addf)
  also have "sum_list (map (\<lambda>k. if g x = k then f x else 0) ks) = f x"
    using assms(1) Cons.prems by (simp add: sum_list_distinct_conv_sum_set)
  finally show ?case by simp
qed simp

lemma ledger_trend_adds_up:
  "sum_list (map de_income (ledger_trend rows)) = flow_sum Flow_income rows"
  "sum_list (map de_expense (ledger_trend rows)) = flow_sum Flow_expense rows"
  "sum_list (map de_investment (ledger_trend rows)) = flow_sum Flow_investment rows"
  "sum_list (map de_transfer (ledger_trend rows)) = flow_sum Flow_transfer rows"
  "sum_list (map de_net_cashflow (ledger_trend rows)) = flow_net rows"
proof -
  let ?month = "\<lambda>t. month_key (tx_occurred_on t)"
  let ?ks = "sort (dedup (map ?month rows))"
  have e: "sum_list (map (\<lambda>k. flow_sum f (filter (\<lambda>t. ?month t = k) rows)) ?ks) = flow_sum f rows" for f
    using sum_by_key [of ?ks ?month "filter (\<lambda>t. tx_flow_type t = f) rows" tx_amount]
    by (auto simp: flow_sum_def conj_commute)
  show "sum_list (map de_income (ledger_trend rows)) = flow_sum Flow_income rows"
    "sum_list (map de_expense (ledger_trend rows)) = flow_sum Flow_expense rows"
    "sum_list (map de_investment (ledger_trend rows)) = flow_sum Flow_investment rows"
    "sum_list (map de_transfer (ledger_trend rows)) = flow_sum Flow_transfer rows"
    using e by (simp_all add: ledger_trend_def ledger_point_def Let_def comp_def)
  show "sum_list (map de_net_cashflow (ledger_trend rows)) = flow_net rows"
    using e by (simp add: ledger_trend_def ledger_point_def Let_def comp_def flow_net_def sum_list_subtractf)
qed

text \<open>C34 (the overview refines the ledger): the overview of a range of days refines the ledger of the household: while the amounts are whole
  cents that 28 digits can hold, the grouped queries and the additions of \<open>Decimal\<close> give for every flow the exact
  sum of its transactions in the range, one trend point per month that has transactions, in the order of the
  months, with the exact sums of that month, the net being income less expenses less investments; and the points
  add up to the totals.
\<close>

theorem overview_refines_ledger:
  assumes "overview d today ctx q = Some (Inr o')" "oq_start_date q = Some s" "oq_end_date q = Some e"
    and "rows = rows_between d (hh_id (fst ctx)) (\<lambda>day. s \<le> day \<and> day \<le> e)"
    and "amounts_fit rows" "list_all (\<lambda>t. real_date (tx_occurred_on t)) rows"
  shows "s \<le> e \<and> ov_totals o' = ledger_totals rows \<and> ov_trend o' = ledger_trend rows
    \<and> sum_list (map de_income (ov_trend o')) = ck_income (ov_totals o')
    \<and> sum_list (map de_expense (ov_trend o')) = ck_expense (ov_totals o')
    \<and> sum_list (map de_investment (ov_trend o')) = ck_investment (ov_totals o')
    \<and> sum_list (map de_transfer (ov_trend o')) = ck_transfer (ov_totals o')
    \<and> sum_list (map de_net_cashflow (ov_trend o')) = ck_net_cashflow (ov_totals o')"
proof -
  from assms(1-3) have "s \<le> e" and "overview_range d today (hh_id (fst ctx)) s e = Some o'"
    by (auto simp: overview_def Let_def split: if_splits option.splits)
  then have "ov_totals o' = with_net (add_totals (group_sums tx_flow_type rows) empty_totals)"
    and "ov_trend o' = trend_of (trend_groups_range (group_sums
           (\<lambda>t. (fst (tx_occurred_on t), fst (snd (tx_occurred_on t)), tx_flow_type t)) rows) [])"
    using assms(4) by (auto simp: overview_range_def Let_def split: option.splits)
  then have "ov_totals o' = ledger_totals rows" "ov_trend o' = ledger_trend rows"
    by (simp_all only: add_totals_ledger [OF assms(5)] trend_range_ledger [OF assms(5,6)])
  with \<open>s \<le> e\<close> show ?thesis by (simp add: ledger_trend_adds_up ledger_totals_def)
qed

theorem overview_refines_ledger_witness:
  "\<exists>o'. overview dash_db (2024, 5, 20) sample_ctx dash_query = Some (Inr o')
     \<and> map (\<lambda>p. (de_month p, de_net_cashflow p)) (ov_trend o') = [(lit ''2024-04'', 25 / 2), (lit ''2024-05'', - 10)]
     \<and> ck_net_cashflow (ov_totals o') = 5 / 2
     \<and> sum_list (map de_net_cashflow (ov_trend o')) = ck_net_cashflow (ov_totals o')"
proof -
  let ?rows = "rows_between dash_db (hh_id (fst sample_ctx)) (\<lambda>day. (2024, 4, 1) \<le> day \<and> day \<le> (2024, 5, 31))"
  have "case overview dash_db (2024, 5, 20) sample_ctx dash_query of Some (Inr _) \<Rightarrow> True | _ \<Rightarrow> False" by code_simp
  then obtain o' where o': "overview dash_db (2024, 5, 20) sample_ctx dash_query = Some (Inr o')"
    by (auto split: option.splits sum.splits)
  have "amounts_fit ?rows \<and> list_all (\<lambda>t. real_date (tx_occurred_on t)) ?rows" by code_simp
  then have fits: "amounts_fit ?rows" "list_all (\<lambda>t. real_date (tx_occurred_on t)) ?rows" by blast+
  have q: "oq_start_date dash_query = Some (2024, 4, 1)" "oq_end_date dash_query = Some (2024, 5, 31)"
    by (simp_all add: dash_query_def)
  have p: "ov_totals o' = ledger_totals ?rows" "ov_trend o' = ledger_trend ?rows"
    "sum_list (map de_net_cashflow (ov_trend o')) = ck_net_cashflow (ov_totals o')"
    using overview_refines_ledger [OF o' q refl fits] by blast+
  have "map (\<lambda>p. (de_month p, de_net_cashflow p)) (ledger_trend ?rows)
      = [(lit ''2024-04'', 25 / 2), (lit ''2024-05'', - 10)] \<and> ck_net_cashflow (ledger_totals ?rows) = 5 / 2"
    by code_simp
  with o' p show ?thesis by metis
qed

subsection \<open>The tally of the portfolio\<close>

definition valued :: "portfolio_item \<Rightarrow> bool" where
  "valued i \<longleftrightarrow> in_cents (pi_market_value_krw i) \<and> in_cents (pi_invested_krw i)
     \<and> pi_gain_loss_krw i = sub28 (pi_market_value_krw i) (pi_invested_krw i)"

definition volume :: "portfolio_item list \<Rightarrow> rat" where
  "volume is = sum_list (map (\<lambda>i. \<bar>pi_market_value_krw i\<bar> + \<bar>pi_invested_krw i\<bar>) is)"

definition items_fit :: "portfolio_item list \<Rightarrow> bool" where
  "items_fit is \<longleftrightarrow> list_all valued is \<and> volume is < 10 ^ 26"

lemma to_krw_cents: "to_krw fe amount c st = (Inr v, st') \<Longrightarrow> in_cents v"
  by (auto simp: to_krw_def Let_def dest: quantize2_cents split: if_splits option.splits prod.splits)

lemma value_holding_valued:
  "value_holding pe d snaps h st = (Inr i, st') \<Longrightarrow> valued i \<and> pi_holding_id i = hd_id h \<and> pi_category i = hd_category h"
  unfolding value_holding_def Let_def
  by (auto simp: valued_def dest: to_krw_cents split: prod.splits sum.splits)

lemma portfolio_loop_items:
  "portfolio_loop pe d snaps hs w st = (Inr w', st') \<Longrightarrow>
     \<exists>is. w' = fold add_item is w \<and> list_all valued is \<and> map pi_holding_id is = map hd_id hs"
proof (induction hs arbitrary: w st)
  case (Cons h hs)
  then obtain i st1 where v: "value_holding pe d snaps h st = (Inr i, st1)"
    and l: "portfolio_loop pe d snaps hs (add_item i w) st1 = (Inr w', st')"
    by (auto split: prod.splits sum.splits)
  from Cons.IH [OF l] obtain "is" where "w' = fold add_item is (add_item i w)" "list_all valued is"
    "map pi_holding_id is = map hd_id hs" by blast
  with value_holding_valued [OF v] show ?case by (intro exI [of _ "i # is"]) simp
qed simp

lemma volume_filter: "volume (filter P is) \<le> volume is"
  by (induction "is") (auto simp: volume_def)

lemma items_fit_filter: "items_fit is \<Longrightarrow> items_fit (filter P is)"
  using volume_filter [of P "is"] by (auto simp: items_fit_def list_all_iff)

lemma volume_nonneg: "0 \<le> volume is"
  by (induction "is") (simp_all add: volume_def)

lemma items_fit_appendD: "items_fit (is @ js) \<Longrightarrow> items_fit is"
  using volume_nonneg [of js] by (simp add: items_fit_def volume_def)

lemma items_fit_sums:
  assumes "items_fit is"
  shows "in_cents (sum_list (map pi_market_value_krw is))" "in_cents (sum_list (map pi_invested_krw is))"
    "\<bar>sum_list (map pi_market_value_krw is)\<bar> < 10 ^ 26" "\<bar>sum_list (map pi_invested_krw is)\<bar> < 10 ^ 26"
    "sum_list (map pi_gain_loss_krw is) = sum_list (map pi_market_value_krw is) - sum_list (map pi_invested_krw is)"
    "\<bar>sum_list (map pi_gain_loss_krw is)\<bar> < 10 ^ 26"
proof -
  have v: "valued i" if "i \<in> set is" for i using assms that by (simp add: items_fit_def list_all_iff)
  then show "in_cents (sum_list (map pi_market_value_krw is))" "in_cents (sum_list (map pi_invested_krw is))"
    by (auto intro!: in_cents_sum_list simp: valued_def)
  have V: "volume is < 10 ^ 26" using assms by (simp add: items_fit_def)
  have le: "\<bar>sum_list (map f is)\<bar> \<le> volume is"
    if "\<And>i. \<bar>f i\<bar> \<le> \<bar>pi_market_value_krw i\<bar> + \<bar>pi_invested_krw i\<bar>" for f
    unfolding volume_def by (rule sum_list_bound) (rule that)
  show "\<bar>sum_list (map pi_market_value_krw is)\<bar> < 10 ^ 26" "\<bar>sum_list (map pi_invested_krw is)\<bar> < 10 ^ 26"
    using V le [of pi_market_value_krw] le [of pi_invested_krw] by simp_all
  have "pi_gain_loss_krw i = pi_market_value_krw i - pi_invested_krw i" if "i \<in> set is" for i
  proof -
    have "\<bar>pi_market_value_krw i\<bar> + \<bar>pi_invested_krw i\<bar> \<le> volume is"
      unfolding volume_def using that by (intro member_le_sum_list) auto
    then have "\<bar>pi_market_value_krw i - pi_invested_krw i\<bar> < 10 ^ 26" using V by linarith
    with v [OF that] show ?thesis by (simp add: valued_def sub28_def round28_exact)
  qed
  then have "map pi_gain_loss_krw is = map (\<lambda>i. pi_market_value_krw i - pi_invested_krw i) is" by simp
  then show g: "sum_list (map pi_gain_loss_krw is) = sum_list (map pi_market_value_krw is) - sum_list (map pi_invested_krw is)"
    by (simp only: sum_list_subtractf)
  have "\<bar>sum_list (map (\<lambda>i. pi_market_value_krw i - pi_invested_krw i) is)\<bar> \<le> volume is" by (rule le) simp
  then show "\<bar>sum_list (map pi_gain_loss_krw is)\<bar> < 10 ^ 26" using V by (simp add: g sum_list_subtractf)
qed

definition exact_values :: "portfolio_item list \<Rightarrow> krw_values" where
  "exact_values is =
     \<lparr>kv_market_value = sum_list (map pi_market_value_krw is), kv_invested = sum_list (map pi_invested_krw is),
      kv_gain_loss = sum_list (map pi_gain_loss_krw is)\<rparr>"

definition of_category :: "pystr \<Rightarrow> portfolio_item list \<Rightarrow> portfolio_item list" where
  "of_category c is = filter (\<lambda>i. pi_category i = c) is"

definition tallied :: "portfolio_item list \<Rightarrow> portfolio_sums \<Rightarrow> bool" where
  "tallied is w \<longleftrightarrow> sw_items w = is
     \<and> sw_total_market w = sum_list (map pi_market_value_krw is)
     \<and> sw_total_invested w = sum_list (map pi_invested_krw is)
     \<and> distinct (map fst (sw_category_bucket w))
     \<and> (\<forall>c. map_of (sw_category_bucket w) c
            = (if c \<in> pi_category ` set is then Some (exact_values (of_category c is)) else None))"

lemma tallied_add:
  assumes "tallied is w" "items_fit (is @ [i])"
  shows "tallied (is @ [i]) (add_item i w)"
proof -
  let ?is = "of_category (pi_category i) (is @ [i])"
  have add: "add28 (sum_list (map f js)) (f i) = sum_list (map f (js @ [i]))"
    if "f \<in> {pi_market_value_krw, pi_invested_krw, pi_gain_loss_krw}" "items_fit (js @ [i])" for f js
  proof -
    have i: "in_cents (pi_market_value_krw i)" "in_cents (pi_invested_krw i)"
      using that(2) by (auto simp: items_fit_def valued_def)
    have "items_fit [i]" using that(2) volume_nonneg [of js] by (simp add: items_fit_def volume_def)
    from items_fit_sums(5) [OF this] i have "in_cents (pi_gain_loss_krw i)" by simp
    moreover note i
    moreover have "in_cents (sum_list (map pi_gain_loss_krw js))"
      using items_fit_sums [OF items_fit_appendD [OF that(2)]] by simp
    ultimately show ?thesis
      using that items_fit_sums [OF that(2)] items_fit_sums [OF items_fit_appendD [OF that(2)]]
      by (auto simp: add28_exact)
  qed
  have bucket: "(case map_of (sw_category_bucket w) (pi_category i) of
        Some v \<Rightarrow> v | None \<Rightarrow> \<lparr>kv_market_value = 0, kv_invested = 0, kv_gain_loss = 0\<rparr>)
      = exact_values (of_category (pi_category i) is)"
  proof (cases "pi_category i \<in> pi_category ` set is")
    case False
    then have "of_category (pi_category i) is = []" by (simp add: of_category_def filter_empty_conv image_iff) metis
    with False assms(1) show ?thesis by (simp add: tallied_def exact_values_def)
  qed (use assms(1) in \<open>simp add: tallied_def\<close>)
  have "items_fit ?is" unfolding of_category_def by (rule items_fit_filter [OF assms(2)])
  then have f: "items_fit (of_category (pi_category i) is @ [i])" by (simp add: of_category_def)
  have new: "exact_values ?is = \<lparr>kv_market_value = add28 (kv_market_value b) (pi_market_value_krw i),
             kv_invested = add28 (kv_invested b) (pi_invested_krw i),
             kv_gain_loss = add28 (kv_gain_loss b) (pi_gain_loss_krw i)\<rparr>"
    if "b = exact_values (of_category (pi_category i) is)" for b
    unfolding that exact_values_def krw_values.select_convs
    by (subst (1 2 3) add) (use f in \<open>simp_all add: of_category_def\<close>)
  have other: "of_category c (is @ [i]) = of_category c is" if "c \<noteq> pi_category i" for c
    using that by (simp add: of_category_def)
  show ?thesis
    unfolding tallied_def add_item_def bucket Let_def portfolio_sums.select_convs new [OF refl, symmetric]
  proof (intro conjI allI)
    show "sw_items w @ [i] = is @ [i]" using assms(1) by (simp add: tallied_def)
    show "add28 (sw_total_market w) (pi_market_value_krw i) = sum_list (map pi_market_value_krw (is @ [i]))"
      "add28 (sw_total_invested w) (pi_invested_krw i) = sum_list (map pi_invested_krw (is @ [i]))"
      using assms(1) add [OF _ assms(2)] by (simp_all add: tallied_def)
    show "distinct (map fst (dict_put (pi_category i) (exact_values ?is) (sw_category_bucket w)))"
      using assms(1) by (intro distinct_dict_put) (simp add: tallied_def)
    show "map_of (dict_put (pi_category i) (exact_values ?is) (sw_category_bucket w)) c
        = (if c \<in> pi_category ` set (is @ [i]) then Some (exact_values (of_category c (is @ [i]))) else None)" for c
      using assms(1) other [of c] by (auto simp: map_of_dict_put tallied_def)
  qed
qed

lemma tallied_fold:
  assumes "items_fit is" "tallied [] w"
  shows "tallied is (fold add_item is w)"
  using assms(1)
proof (induction "is" rule: rev_induct)
  case (snoc i "is")
  with tallied_add [of "is" "fold add_item is w" i] items_fit_appendD [of "is" "[i]"] show ?case by simp
qed (simp add: assms(2))

lemma portfolio_slices_SomeD:
  "portfolio_slices total_market nvs = Some ss \<Longrightarrow>
     map (\<lambda>s. (cs_category s, \<lparr>kv_market_value = cs_market_value_krw s, kv_invested = cs_invested_krw s,
                               kv_gain_loss = cs_gain_loss_krw s\<rparr>)) ss = nvs"
  by (induction nvs arbitrary: ss) (auto simp: portfolio_slice_of_def split: option.splits if_splits)

text \<open>C35 (the portfolio adds up): while the values in won fit the 28 digits of \<open>Decimal\<close>, the answer
  lists every holding of the household once, each with a gain of its market value less what was invested, to the
  cent; the totals are the sums over the items; and the slices are the categories of the items, each once, the
  greatest market value first, with the exact sums of their items.
\<close>

theorem portfolio_adds_up:
  assumes "portfolio pe d h snapshots st = (Inr r, st')" "volume (po_items r) < 10 ^ 26"
  shows "map pi_holding_id (po_items r) = map hd_id (filter (\<lambda>x. hd_household_id x = hh_id h) (db_holdings d))
    \<and> po_total_market_value_krw r = sum_list (map pi_market_value_krw (po_items r))
    \<and> po_total_invested_krw r = sum_list (map pi_invested_krw (po_items r))
    \<and> po_total_gain_loss_krw r = sum_list (map pi_gain_loss_krw (po_items r))
    \<and> po_total_gain_loss_krw r = po_total_market_value_krw r - po_total_invested_krw r
    \<and> distinct (map cs_category (po_categories r))
    \<and> cs_category ` set (po_categories r) = pi_category ` set (po_items r)
    \<and> sorted (map (\<lambda>s. - cs_market_value_krw s) (po_categories r))
    \<and> list_all (\<lambda>s. \<lparr>kv_market_value = cs_market_value_krw s, kv_invested = cs_invested_krw s,
                    kv_gain_loss = cs_gain_loss_krw s\<rparr> = exact_values (of_category (cs_category s) (po_items r)))
        (po_categories r)"
proof -
  let ?w0 = "\<lparr>sw_items = [], sw_total_market = 0, sw_total_invested = 0, sw_category_bucket = []\<rparr>"
  let ?hs = "filter (\<lambda>x. hd_household_id x = hh_id h) (db_holdings d)"
  from assms(1) obtain w where l: "portfolio_loop pe d snapshots ?hs ?w0 st = (Inr w, st')"
    and s: "portfolio_slices (sw_total_market w) (sort_key (\<lambda>nv. - kv_market_value (snd nv)) (sw_category_bucket w))
              = Some (po_categories r)"
    and r: "po_items r = sw_items w" "po_total_market_value_krw r = sw_total_market w"
      "po_total_invested_krw r = sw_total_invested w"
      "po_total_gain_loss_krw r = sub28 (sw_total_market w) (sw_total_invested w)"
    by (auto simp: portfolio_def split: prod.splits sum.splits option.splits)
  from portfolio_loop_items [OF l] obtain "is" where w: "w = fold add_item is ?w0" and v: "list_all valued is"
    and ids: "map pi_holding_id is = map hd_id ?hs" by blast
  have items: "sw_items (fold add_item is w0) = sw_items w0 @ is" for w0
    by (induction "is" arbitrary: w0) (simp_all add: add_item_def Let_def)
  then have i: "po_items r = is" using r(1) w by simp
  then have f: "items_fit is" using v assms(2) by (simp add: items_fit_def)
  have t: "tallied is w" unfolding w by (rule tallied_fold [OF f]) (simp add: tallied_def)
  define nvs where "nvs = sort_key (\<lambda>nv. - kv_market_value (snd nv)) (sw_category_bucket w)"
  define of_slice where "of_slice = (\<lambda>s :: portfolio_slice. (cs_category s, \<lparr>kv_market_value = cs_market_value_krw s,
      kv_invested = cs_invested_krw s, kv_gain_loss = cs_gain_loss_krw s\<rparr>))"
  have ss: "map of_slice (po_categories r) = nvs"
    using portfolio_slices_SomeD [OF s] by (simp add: of_slice_def nvs_def)
  have names: "map fst nvs = map cs_category (po_categories r)"
    unfolding ss [symmetric] by (simp add: of_slice_def)
  have d: "distinct (map fst nvs)"
    using t by (simp add: nvs_def tallied_def distinct_map inj_on_def)
  have slice: "snd nv = exact_values (of_category (fst nv) is) \<and> fst nv \<in> pi_category ` set is" if "nv \<in> set nvs" for nv
  proof -
    have "distinct (map fst (sw_category_bucket w))" "(fst nv, snd nv) \<in> set (sw_category_bucket w)"
      using that t by (simp_all add: nvs_def tallied_def)
    then have "map_of (sw_category_bucket w) (fst nv) = Some (snd nv)" by (simp only: map_of_eq_Some_iff)
    with t show ?thesis by (auto simp: tallied_def split: if_splits)
  qed
  have keys: "fst ` set nvs = pi_category ` set is"
  proof
    show "fst ` set nvs \<subseteq> pi_category ` set is" using slice by auto
    show "pi_category ` set is \<subseteq> fst ` set nvs"
    proof
      fix c assume "c \<in> pi_category ` set is"
      with t have "map_of (sw_category_bucket w) c \<noteq> None" by (simp add: tallied_def)
      then show "c \<in> fst ` set nvs" by (simp add: map_of_NoneD nvs_def)
    qed
  qed
  have "sorted (map (\<lambda>nv. - kv_market_value (snd nv)) nvs)" by (simp add: nvs_def)
  then have "sorted (map (\<lambda>s. - cs_market_value_krw s) (po_categories r))"
    unfolding ss [symmetric] by (simp add: of_slice_def comp_def)
  moreover have "list_all (\<lambda>s. snd (of_slice s) = exact_values (of_category (cs_category s) is)) (po_categories r)"
    using slice ss by (fastforce simp: list_all_iff of_slice_def)
  moreover have "sub28 (sw_total_market w) (sw_total_invested w) = sum_list (map pi_gain_loss_krw is)"
    using t items_fit_sums [OF f] unfolding sub28_def by (intro trans [OF round28_exact]) (auto simp: tallied_def)
  moreover have "distinct (map cs_category (po_categories r))" using d unfolding names .
  moreover have "cs_category ` set (po_categories r) = pi_category ` set is"
    using keys names by (metis list.set_map)
  moreover have "sw_total_market w = sum_list (map pi_market_value_krw is)"
    "sw_total_invested w = sum_list (map pi_invested_krw is)" using t by (simp_all add: tallied_def)
  ultimately show ?thesis unfolding i r using ids items_fit_sums(5) [OF f] by (simp add: of_slice_def)
qed

theorem portfolio_adds_up_witness:
  "\<exists>r st'. portfolio port_env port_db sample_household port_snaps port_rates = (Inr r, st')
     \<and> po_total_market_value_krw r = 21009 \<and> map cs_category (po_categories r) = [lit ''risky'', lit ''cash'']
     \<and> po_total_market_value_krw r = sum_list (map pi_market_value_krw (po_items r))
     \<and> map pi_holding_id (po_items r) = [lit ''a1'', lit ''a2'']"
proof -
  have "case fst (portfolio port_env port_db sample_household port_snaps port_rates) of Inl _ \<Rightarrow> False
      | Inr r \<Rightarrow> volume (po_items r) < 10 ^ 26 \<and> po_total_market_value_krw r = 21009
          \<and> map cs_category (po_categories r) = [lit ''risky'', lit ''cash'']" by code_simp
  then obtain r st' where r: "portfolio port_env port_db sample_household port_snaps port_rates = (Inr r, st')"
    and v: "volume (po_items r) < 10 ^ 26" and c: "po_total_market_value_krw r = 21009"
      "map cs_category (po_categories r) = [lit ''risky'', lit ''cash'']"
    by (cases "portfolio port_env port_db sample_household port_snaps port_rates") (auto split: sum.splits)
  have "map hd_id (filter (\<lambda>x. hd_household_id x = hh_id sample_household) (db_holdings port_db)) = [lit ''a1'', lit ''a2'']"
    by code_simp
  with portfolio_adds_up [OF r v] r c show ?thesis by auto
qed

subsection \<open>Rates that are fetched once\<close>

lemma row_get_upsert_rate:
  "row_get fx_key k (upsert_rate r rows) = (if k = fx_key r then Some r else row_get fx_key k rows)"
proof (cases "fx_key r \<in> fx_key ` set rows")
  case True
  then show ?thesis by (simp add: upsert_rate_def row_get_None_iff row_get_replace)
next
  case False
  then have "row_get fx_key (fx_key r) rows = None" by (simp add: row_get_None_iff)
  then show ?thesis by (simp add: upsert_rate_def row_get_append split: option.splits)
qed

lemma unique_upsert_rate: "unique_keys fx_key rows \<Longrightarrow> unique_keys fx_key (upsert_rate r rows)"
proof -
  have "map fx_key (row_update fx_key (fx_key r) (\<lambda>_. r) rows) = map fx_key rows"
    by (induction rows) (simp_all add: row_update_def)
  then show "unique_keys fx_key rows \<Longrightarrow> unique_keys fx_key (upsert_rate r rows)"
    by (auto simp: upsert_rate_def unique_keys_append) (simp add: unique_keys_def)
qed

text \<open>The row of a pair is still good enough for the request about to be made.\<close>

definition fresh_rate :: "fx_env \<Rightarrow> fx_state \<Rightarrow> pystr \<Rightarrow> pystr \<Rightarrow> bool" where
  "fresh_rate fe st base quote \<longleftrightarrow>
     (case row_get fx_key (base, quote) (fs_rows st) of
        None \<Rightarrow> False
      | Some r \<Rightarrow> fe_now fe (fs_calls st) - seconds (fe_cache_seconds fe) \<le> fr_fetched_at r)"

text \<open>(a rate is asked for once per cache time): when the pair has no fresh row, the provider answers
  and the column takes the rate, the request gives the provider's rate and leaves one row for the pair, other pairs
  as they were; every later request for the same pair, in whatever case it is written, is answered with the stored
  rate and asks nobody while no more than the cache time has passed since the fetch.
\<close>

theorem fetched_rate_is_reused:
  assumes "base = py_upper base_currency" "quote = py_upper quote_currency" "base \<noteq> quote"
    and "\<not> fresh_rate fe st base quote" "fetch_rate fe (fs_calls st) base quote = Some (rate, source)"
    and "fe_store fe rate = Some stored" "unique_keys fx_key (fe_race fe (fs_calls st) (fs_rows st))"
    and "get_rate fe base_currency quote_currency st = (answer, st')"
    and "py_upper base_currency' = base" "py_upper quote_currency' = quote"
    and "fe_now fe (fs_calls st') \<le> fe_later fe (fs_calls st) + seconds (fe_cache_seconds fe)"
  shows "answer = Some (rate, source) \<and> unique_keys fx_key (fs_rows st')
    \<and> (\<forall>k. (row_get fx_key k (fs_rows st') = row_get fx_key k (fe_race fe (fs_calls st) (fs_rows st))) \<or> k = (base, quote))
    \<and> get_rate fe base_currency' quote_currency' st' = (Some (stored, source), st'\<lparr>fs_calls := fs_calls st' + 1\<rparr>)"
proof -
  let ?r = "\<lparr>fr_base_currency = base, fr_quote_currency = quote, fr_rate = stored, fr_source = source,
      fr_fetched_at = fe_later fe (fs_calls st)\<rparr>"
  let ?st = "st\<lparr>fs_rows := upsert_rate ?r (fe_race fe (fs_calls st) (fs_rows st)), fs_calls := fs_calls st + 1\<rparr>"
  have "get_rate fe base_currency quote_currency st = (Some (rate, source), ?st)"
    using assms(3-6) unfolding get_rate_def assms(1,2) [symmetric] Let_def
    by (auto simp: fresh_rate_def split: option.splits)
  then have a: "answer = Some (rate, source)" and st': "st' = ?st" using assms(8) by simp_all
  have k: "fx_key ?r = (base, quote)" by (simp add: fx_key_def)
  have row: "row_get fx_key (base, quote) (fs_rows st') = Some ?r" by (simp add: st' row_get_upsert_rate k)
  have "get_rate fe base_currency' quote_currency' st' = (Some (stored, source), st'\<lparr>fs_calls := fs_calls st' + 1\<rparr>)"
    unfolding get_rate_def assms(9,10) Let_def row using assms(3,11) by simp
  moreover have "unique_keys fx_key (fs_rows st')" by (simp add: st' unique_upsert_rate assms(7))
  moreover have "row_get fx_key j (fs_rows st') = row_get fx_key j (fe_race fe (fs_calls st) (fs_rows st)) \<or> j = (base, quote)" for j
    by (simp add: st' row_get_upsert_rate k)
  ultimately show ?thesis using a by blast
qed

definition answering :: fx_env where
  "answering = (qe_fx port_env)\<lparr>fe_reply := \<lambda>_ _. Some
     \<lparr>hr_status = 200, hr_success = True,
      hr_json = Some (JObj [(lit ''rates'', JObj [(lit ''KRW'', JFloat (2601 / 2))])]), hr_cp949 = None, hr_text = []\<rparr>\<rparr>"

theorem fetched_rate_is_reused_witness:
  "let st = \<lparr>fs_rows = [], fs_calls = 0\<rparr>; st' = snd (get_rate answering (lit ''KRW'') (lit ''usd'') st)
   in fst (get_rate answering (lit ''KRW'') (lit ''usd'') st) = Some (2601 / 2, lit ''open.er-api'')
      \<and> get_rate answering (lit ''krw'') (lit ''USD'') st'
        = (Some (2601 / 2, lit ''open.er-api''), st'\<lparr>fs_calls := 2\<rparr>)"
proof -
  let ?st = "\<lparr>fs_rows = [], fs_calls = 0\<rparr>"
  obtain a st' where g: "get_rate answering (lit ''KRW'') (lit ''usd'') ?st = (a, st')" by fastforce
  have up: "py_upper (lit ''KRW'') = lit ''KRW''" "py_upper (lit ''krw'') = lit ''KRW''"
    "py_upper (lit ''usd'') = lit ''USD''" "py_upper (lit ''USD'') = lit ''USD''" by code_simp+
  have ne: "lit ''KRW'' \<noteq> lit ''USD''" by simp
  have fetch: "fetch_rate answering 0 (lit ''KRW'') (lit ''USD'') = Some (2601 / 2, lit ''open.er-api'')" by code_simp
  have calls: "fs_calls (snd (get_rate answering (lit ''KRW'') (lit ''usd'') ?st)) = 1" by code_simp
  then have c: "fs_calls st' = 1" by (simp add: g)
  have env: "fe_store answering (2601 / 2) = Some (2601 / 2)" "fe_race answering 0 [] = []"
    "fe_now answering 1 \<le> fe_later answering 0 + seconds (fe_cache_seconds answering)"
    by (simp_all add: answering_def port_env_def seconds_def)
  have "a = Some (2601 / 2, lit ''open.er-api'')
      \<and> get_rate answering (lit ''krw'') (lit ''USD'') st' = (Some (2601 / 2, lit ''open.er-api''), st'\<lparr>fs_calls := fs_calls st' + 1\<rparr>)"
    using fetched_rate_is_reused [of "lit ''KRW''" "lit ''KRW''" "lit ''USD''" "lit ''usd''" answering ?st "2601 / 2"
        "lit ''open.er-api''" "2601 / 2" a st' "lit ''krw''" "lit ''USD''"]
    by (simp add: up ne fetch env c g fresh_rate_def row_get_def unique_keys_def del: One_nat_def)
  then show ?thesis by (simp add: g c Let_def)
qed

end
