(* ===== verification/Toss_Parse.thy ===== *)
theory Toss_Parse
  imports Number_Text Workbook Price_Quotes
begin

text \<open>
  The text recognised on a screenshot of the Toss app, \<open>backend/app/services/toss_screenshot_importer.py\<close>: the
  four regular expressions as functions, the pending row that the loop over the lines fills, and the marks of
  duplicates.  SHA-1 and the word characters of \<open>re\<close> are parameters; \<open>\d\<close> is the ASCII digits.  Amounts are
  whole won; the sign of a zero is dropped.
\<close>

subsection \<open>Regular expressions\<close>

text \<open>
  \<open>search\<close>: the leftmost match with the text before it; a match sees the character before it.  \<open>\<^verbatim>\<open>\d\<close>\<close>, white space
  and the literals of the patterns are disjoint, so a greedy match never has to give a character back.
\<close>

fun re_search :: "(int option \<Rightarrow> pystr \<Rightarrow> 'a option) \<Rightarrow> int option \<Rightarrow> pystr \<Rightarrow> (pystr \<times> 'a) option" where
  "re_search start prev [] = None"
| "re_search start prev (c # cs) =
     (case start prev (c # cs) of
        Some x \<Rightarrow> Some ([], x)
      | None \<Rightarrow> map_option (\<lambda>(pre_text, x). (c # pre_text, x)) (re_search start (Some c) cs))"

definition digits_upto2 :: "pystr \<Rightarrow> pystr" where
  "digits_upto2 s = takeWhile digit_cp (take 2 s)"

text \<open>One or two digits, white space and a letter: the number and the rest.\<close>

definition number_before :: "int \<Rightarrow> pystr \<Rightarrow> (int \<times> pystr) option" where
  "number_before letter s =
     (let ds = digits_upto2 s
      in if ds = [] then None
         else (case dropWhile py_space (drop (length ds) s) of
                 [] \<Rightarrow> None
               | c # rest \<Rightarrow> if c = letter then Some (digits_value ds, rest) else None))"

definition date_header_at :: "pystr \<Rightarrow> (int \<times> int) option" where
  "date_header_at s =
     (case number_before 50900 s of
        None \<Rightarrow> None
      | Some (month, rest) \<Rightarrow> map_option (\<lambda>(day, _). (month, day)) (number_before 51068 (dropWhile py_space rest)))"

definition minute_at :: "pystr \<Rightarrow> (pystr \<times> pystr) option" where
  "minute_at s =
     (case s of
        a # b # c # rest \<Rightarrow> if a = 58 \<and> 48 \<le> b \<and> b \<le> 53 \<and> digit_cp c then Some ([b, c], rest) else None
      | _ \<Rightarrow> None)"

text \<open>The digits of the hour, those of the minute and the rest; the alternatives in their order.\<close>

definition hour_minute :: "nat \<Rightarrow> pystr \<Rightarrow> (pystr \<times> pystr \<times> pystr) option" where
  "hour_minute n s = map_option (\<lambda>(minute, rest). (take n s, minute, rest)) (minute_at (drop n s))"

definition time_at :: "pystr \<Rightarrow> (pystr \<times> pystr \<times> pystr) option" where
  "time_at s =
     (let two = (case s of a # b # _ \<Rightarrow> if (a = 48 \<or> a = 49) \<and> digit_cp b then hour_minute 2 s else None | _ \<Rightarrow> None);
          one = (case s of a # _ \<Rightarrow> if digit_cp a then hour_minute 1 s else None | _ \<Rightarrow> None);
          twenty = (case s of a # b # _ \<Rightarrow> if a = 50 \<and> 48 \<le> b \<and> b \<le> 51 then hour_minute 2 s else None | _ \<Rightarrow> None)
      in case two of Some m \<Rightarrow> Some m | None \<Rightarrow> (case one of Some m \<Rightarrow> Some m | None \<Rightarrow> twenty))"

text \<open>\<open>_TIME.sub("", text)\<close>: the number counts the characters of a match still to be dropped.\<close>

fun drop_times :: "nat \<Rightarrow> pystr \<Rightarrow> pystr" where
  "drop_times k [] = []"
| "drop_times (Suc k) (c # cs) = drop_times k cs"
| "drop_times 0 (c # cs) =
     (case time_at (c # cs) of
        Some (_, _, rest) \<Rightarrow> drop_times (length cs - length rest) cs
      | None \<Rightarrow> c # drop_times 0 cs)"

text \<open>Digits with commas, white space and the sign of the won: the rest.\<close>

definition won_body :: "pystr \<Rightarrow> pystr option" where
  "won_body s =
     (case s of
        [] \<Rightarrow> None
      | c # _ \<Rightarrow>
          if \<not> digit_cp c then None
          else (case dropWhile py_space (dropWhile (\<lambda>c. digit_cp c \<or> c = 44) s) of
                  [] \<Rightarrow> None
                | w # rest \<Rightarrow> if w = 50896 then Some rest else None))"

text \<open>The matched text and the rest.\<close>

definition signed_at :: "pystr \<Rightarrow> (pystr \<times> pystr) option" where
  "signed_at s =
     (case s of
        [] \<Rightarrow> None
      | c # cs \<Rightarrow>
          if c = 43 \<or> c = 45
          then map_option (\<lambda>rest. (take (length s - length rest) s, rest)) (won_body (dropWhile py_space cs))
          else None)"

definition unsigned_at :: "(int \<Rightarrow> bool) \<Rightarrow> int option \<Rightarrow> pystr \<Rightarrow> (pystr \<times> pystr) option" where
  "unsigned_at word prev s =
     (if (case prev of None \<Rightarrow> False | Some c \<Rightarrow> c = 43 \<or> c = 45 \<or> word c) then None
      else map_option (\<lambda>rest. (take (length s - length rest) s, rest)) (won_body s))"

definition unsigned_full :: "pystr \<Rightarrow> bool" where
  "unsigned_full s \<longleftrightarrow> won_body s = Some []"

subsection \<open>Values\<close>

text \<open>\<open>None\<close> is \<open>InvalidOperation\<close>: white space other than a blank inside the number.\<close>

definition parse_won :: "pystr \<Rightarrow> rat option" where
  "parse_won s =
     (case py_decimal (py_strip (filter (\<lambda>c. c \<noteq> 50896 \<and> c \<noteq> 44 \<and> c \<noteq> 32) s)) of
        Some (Num q) \<Rightarrow> Some q
      | _ \<Rightarrow> None)"

definition normalize_time :: "pystr \<Rightarrow> pystr \<Rightarrow> pystr" where
  "normalize_time hour minute = [digit_text (digits_value hour) 10, digit_text (digits_value hour) 1, 58] @ minute"

definition normalize_key :: "pystr \<Rightarrow> pystr" where
  "normalize_key s = filter (\<lambda>c. \<not> py_space c) (py_lower (py_strip s))"

definition strip_bars :: "pystr \<Rightarrow> pystr" where
  "strip_bars s = strip_by (\<lambda>c. c = 32 \<or> c = 124) s"

text \<open>\<open>str(amount)\<close> of a whole number, and \<open>str(balance or "")\<close>.\<close>

definition won_text :: "rat \<Rightarrow> pystr" where
  "won_text q = int_text \<lfloor>q\<rfloor>"

definition balance_text :: "rat option \<Rightarrow> pystr" where
  "balance_text b = (case b of Some q \<Rightarrow> if q = 0 then [] else won_text q | None \<Rightarrow> [])"

subsection \<open>Flow and category\<close>

record toss_env =
  ts_word :: "int \<Rightarrow> bool"
  ts_sha1 :: "pystr \<Rightarrow> pystr"

record toss_category =
  tk_id :: pystr
  tk_flow_type :: flow_type
  tk_major :: pystr
  tk_minor :: pystr

record toss_recommendation =
  tm_major :: pystr
  tm_minor :: pystr
  tm_reason :: string

definition infer_flow_type :: "pystr \<Rightarrow> pystr \<Rightarrow> rat \<Rightarrow> flow_type" where
  "infer_flow_type item_name detail signed_amount =
     (let s = item_name @ [32] @ detail
      in if contains_any [[44553, 50668], [52880, 49884, 48177], [54872, 44553],
                          [54644, 51648, 32, 45224, 51008, 44552, 50529], [51077, 44552]] s then Flow_income
         else if contains_any [[52397, 50557], [51613, 44428], [51452, 49885], [51613, 44144, 44552], [44277, 47784]] s
           then Flow_investment
         else if contains_any [[51060, 52404], [49569, 44552], [47784, 51076, 53685, 51109]] s then Flow_transfer
         else if 0 < signed_amount then Flow_income else Flow_expense)"

definition category_fits :: "flow_type \<Rightarrow> pystr \<Rightarrow> toss_category \<Rightarrow> bool" where
  "category_fits flow s k \<longleftrightarrow>
     tk_flow_type k = flow
     \<and> ((normalize_key (tk_minor k) \<noteq> [] \<and> py_contains (normalize_key (tk_minor k)) s)
        \<or> (normalize_key (tk_major k) \<noteq> [] \<and> py_contains (normalize_key (tk_major k)) s))"

definition match_category_id :: "toss_category list \<Rightarrow> flow_type \<Rightarrow> pystr \<Rightarrow> pystr \<Rightarrow> pystr option" where
  "match_category_id categories flow item_name detail =
     map_option tk_id (find (category_fits flow (normalize_key (item_name @ [32] @ detail))) categories)"

definition recommend_category :: "flow_type \<Rightarrow> pystr \<Rightarrow> pystr \<Rightarrow> toss_recommendation" where
  "recommend_category flow item_name detail =
     (let s = item_name @ [32] @ detail;
          advice = (\<lambda>major minor reason. \<lparr>tm_major = major, tm_minor = minor, tm_reason = reason\<rparr>)
      in if flow = Flow_income then advice [49688, 51077] [44592, 53440, 49688, 51077] ''income_fallback''
         else if contains_any [[50976, 53916, 48652], [45348, 51060, 48260, 54540, 47084, 49828], [47716, 48260, 49901]] s
           then advice [44396, 46021] [47716, 48260, 49901] ''subscription_keyword''
         else if contains_any [lit ''CU'', [54200, 51032, 51216], [52852, 54168], [52964, 54588]] s
           then advice [49373, 54876] [49885, 48708] ''merchant_keyword''
         else if flow = Flow_investment then advice [53804, 51088] [44592, 53440, 53804, 51088] ''investment_fallback''
         else if flow = Flow_transfer then advice [51060, 52404] [44592, 53440, 51060, 52404] ''transfer_fallback''
         else advice [51648, 52636] [44592, 53440, 51648, 52636] ''expense_fallback'')"

subsection \<open>Rows\<close>

record toss_row =
  tw_row_id :: pystr
  tw_occurred_on :: date
  tw_time :: pystr
  tw_item_name :: pystr
  tw_detail :: pystr
  tw_amount :: rat
  tw_signed_amount :: rat
  tw_balance :: "rat option"
  tw_flow_type :: flow_type
  tw_category_id :: "pystr option"
  tw_recommendation :: "toss_recommendation option"
  tw_included :: bool
  tw_duplicate_group_id :: "pystr option"
  tw_exclusion_reason :: "string option"

record toss_excluded =
  tl_item_name :: pystr
  tl_raw_text :: pystr
  tl_exclusion_reason :: string

record pending_row =
  tq_occurred_on :: "date option"
  tq_item_name :: pystr
  tq_time :: pystr
  tq_detail :: pystr
  tq_signed_amount :: "rat option"
  tq_balance :: "rat option"
  tq_raw_lines :: "pystr list"

definition fresh_pending :: "date option \<Rightarrow> pending_row" where
  "fresh_pending day =
     \<lparr>tq_occurred_on = day, tq_item_name = [], tq_time = [], tq_detail = [], tq_signed_amount = None,
      tq_balance = None, tq_raw_lines = []\<rparr>"

definition row_hash :: "toss_env \<Rightarrow> pystr list \<Rightarrow> pystr" where
  "row_hash te parts = ts_sha1 te (join_with [124] (map normalize_key parts))"

record toss_result =
  tz_rows :: "toss_row list"
  tz_excluded :: "toss_excluded list"

definition flush_pending :: "toss_env \<Rightarrow> toss_category list \<Rightarrow> pending_row \<Rightarrow> toss_result \<Rightarrow> toss_result" where
  "flush_pending te categories p out =
     (if tq_item_name p = [] \<and> tq_time p = [] \<and> tq_signed_amount p = None then out
      else
        (case (tq_occurred_on p, tq_signed_amount p, tq_balance p) of
           (Some day, Some signed_amount, Some balance) \<Rightarrow>
             (if tq_time p = [] \<or> tq_item_name p = [] then
                out\<lparr>tz_excluded := tz_excluded out @
                  [\<lparr>tl_item_name = tq_item_name p, tl_raw_text = py_strip (join_with [10] (tq_raw_lines p)),
                    tl_exclusion_reason = ''missing_required_fields''\<rparr>]\<rparr>
              else
                (let flow = infer_flow_type (tq_item_name p) (tq_detail p) signed_amount;
                     category_id = match_category_id categories flow (tq_item_name p) (tq_detail p);
                     row_key = row_hash te [iso_date day, tq_time p, tq_item_name p, won_text signed_amount,
                                            balance_text (Some balance)]
                 in out\<lparr>tz_rows := tz_rows out @
                      [\<lparr>tw_row_id = lit ''toss-row-'' @ take 16 row_key, tw_occurred_on = day, tw_time = tq_time p,
                        tw_item_name = tq_item_name p, tw_detail = tq_detail p, tw_amount = \<bar>signed_amount\<bar>,
                        tw_signed_amount = signed_amount, tw_balance = Some balance, tw_flow_type = flow,
                        tw_category_id = category_id,
                        tw_recommendation = (if category_id \<noteq> None \<and> category_id \<noteq> Some [] then None
                          else Some (recommend_category flow (tq_item_name p) (tq_detail p))),
                        tw_included = True, tw_duplicate_group_id = None, tw_exclusion_reason = None\<rparr>]\<rparr>))
         | _ \<Rightarrow>
             out\<lparr>tz_excluded := tz_excluded out @
               [\<lparr>tl_item_name = tq_item_name p, tl_raw_text = py_strip (join_with [10] (tq_raw_lines p)),
                 tl_exclusion_reason = ''missing_required_fields''\<rparr>]\<rparr>))"

subsection \<open>The loop over the lines\<close>

text \<open>A line that begins a day.\<close>

definition date_line ::
  "toss_env \<Rightarrow> toss_category list \<Rightarrow> int \<Rightarrow> pystr \<Rightarrow> int \<Rightarrow> int \<Rightarrow> pending_row \<times> toss_result \<Rightarrow> pending_row \<times> toss_result" where
  "date_line te categories base_year line month day st =
     (let out = flush_pending te categories (fst st) (snd st)
      in case mk_date base_year month day of
           Some dt \<Rightarrow> (fresh_pending (Some dt), out)
         | None \<Rightarrow> (fresh_pending None,
                    out\<lparr>tz_excluded := tz_excluded out @
                      [\<lparr>tl_item_name = line, tl_raw_text = line, tl_exclusion_reason = ''invalid_date_header''\<rparr>]\<rparr>))"

text \<open>The time of a line and the texts around it.\<close>

definition take_time :: "pystr \<Rightarrow> (pystr \<times> pystr \<times> pystr) option \<Rightarrow> pending_row \<Rightarrow> pending_row" where
  "take_time line signed_match p =
     (case re_search (\<lambda>_. time_at) None line of
        Some (pre_text, hour, minute, rest) \<Rightarrow>
          (if tq_time p \<noteq> [] then p
           else
             (let time_end = length line - length rest;
                  signed_start = (case signed_match of Some (pre, _) \<Rightarrow> length pre | None \<Rightarrow> length line);
                  before_time = strip_bars pre_text;
                  after_time = strip_bars (take (signed_start - time_end) rest);
                  p1 = p\<lparr>tq_time := normalize_time hour minute\<rparr>;
                  p2 = (if before_time \<noteq> [] \<and> tq_item_name p1 = [] then p1\<lparr>tq_item_name := before_time\<rparr> else p1)
              in if after_time \<noteq> [] then p2\<lparr>tq_detail := after_time\<rparr> else p2))
      | None \<Rightarrow> p)"

definition take_prefix :: "pystr \<Rightarrow> pending_row \<Rightarrow> pending_row" where
  "take_prefix pre p =
     (if tq_item_name p \<noteq> [] then p
      else (let s = strip_bars (drop_times 0 (strip_bars pre)) in if s \<noteq> [] then p\<lparr>tq_item_name := s\<rparr> else p))"

definition close_row ::
  "toss_env \<Rightarrow> toss_category list \<Rightarrow> pystr \<Rightarrow> pending_row \<Rightarrow> toss_result \<Rightarrow> (pending_row \<times> toss_result) option" where
  "close_row te categories amount p out =
     map_option (\<lambda>balance. (fresh_pending (tq_occurred_on p),
                            flush_pending te categories (p\<lparr>tq_balance := Some balance\<rparr>) out)) (parse_won amount)"

text \<open>\<open>None\<close> is an exception.\<close>

definition toss_line ::
  "toss_env \<Rightarrow> toss_category list \<Rightarrow> int \<Rightarrow> pystr \<Rightarrow> pending_row \<times> toss_result \<Rightarrow> (pending_row \<times> toss_result) option" where
  "toss_line te categories base_year line st =
     (case re_search (\<lambda>_. date_header_at) None line of
        Some (_, month, day) \<Rightarrow> Some (date_line te categories base_year line month day st)
      | None \<Rightarrow>
          (let p0 = (fst st)\<lparr>tq_raw_lines := tq_raw_lines (fst st) @ [line]\<rparr>;
               out = snd st;
               signed_match = re_search (\<lambda>_. signed_at) None line;
               p = take_time line signed_match p0
           in case signed_match of
                Some (pre, amount, rest) \<Rightarrow>
                  (case parse_won amount of
                     None \<Rightarrow> None
                   | Some signed_amount \<Rightarrow>
                       (let p' = (take_prefix pre p)\<lparr>tq_signed_amount := Some signed_amount\<rparr>
                        in case re_search (unsigned_at (ts_word te)) None rest of
                             Some (_, balance, _) \<Rightarrow> close_row te categories balance p' out
                           | None \<Rightarrow> Some (p', out)))
              | None \<Rightarrow>
                  (if tq_signed_amount p \<noteq> None \<and> tq_balance p = None \<and> unsigned_full line
                   then close_row te categories line p out
                   else if re_search (\<lambda>_. time_at) None line \<noteq> None then Some (p, out)
                   else if unsigned_full line then Some (p, out)
                   else if tq_item_name p = [] then Some (p\<lparr>tq_item_name := line\<rparr>, out)
                   else if tq_detail p = [] \<and> tq_time p \<noteq> [] then Some (p\<lparr>tq_detail := line\<rparr>, out)
                   else Some (p, out))))"

fun toss_lines ::
  "toss_env \<Rightarrow> toss_category list \<Rightarrow> int \<Rightarrow> pystr list \<Rightarrow> pending_row \<times> toss_result \<Rightarrow> (pending_row \<times> toss_result) option" where
  "toss_lines te categories base_year [] st = Some st"
| "toss_lines te categories base_year (line # rest) st =
     Option.bind (toss_line te categories base_year line st) (toss_lines te categories base_year rest)"

definition clean_lines :: "pystr \<Rightarrow> pystr list" where
  "clean_lines s = filter (\<lambda>line. line \<noteq> []) (map py_strip (split_on line_end s))"

subsection \<open>Duplicates\<close>

text \<open>
  The groups of equal keys with more than one row, numbered from 1 in the order of their first rows: their rows are
  named and taken out.
\<close>

definition duplicate_keys :: "'k list \<Rightarrow> 'k list" where
  "duplicate_keys keys = filter (\<lambda>k. 1 < length (filter (\<lambda>j. j = k) keys)) (dedup keys)"

definition duplicate_name :: "'k list \<Rightarrow> 'k \<Rightarrow> pystr option" where
  "duplicate_name keys k =
     map_option (\<lambda>(i, _). lit ''dup-'' @ nat_text (i + 1))
       (find (\<lambda>(i, j). j = k) (zip (map int [0..<length (duplicate_keys keys)]) (duplicate_keys keys)))"

definition toss_row_key :: "toss_env \<Rightarrow> toss_row \<Rightarrow> pystr" where
  "toss_row_key te r =
     row_hash te [iso_date (tw_occurred_on r), tw_time r, normalize_key (tw_item_name r), won_text (tw_signed_amount r),
                  balance_text (tw_balance r)]"

definition mark_duplicate_groups :: "toss_env \<Rightarrow> toss_row list \<Rightarrow> toss_row list" where
  "mark_duplicate_groups te rows =
     map (\<lambda>r. case duplicate_name (map (toss_row_key te) rows) (toss_row_key te r) of
                None \<Rightarrow> r
              | Some g \<Rightarrow> r\<lparr>tw_duplicate_group_id := Some g, tw_included := False,
                           tw_exclusion_reason := Some ''duplicate_candidate''\<rparr>) rows"

definition parse_toss_ocr_text :: "toss_env \<Rightarrow> pystr \<Rightarrow> toss_category list \<Rightarrow> int \<Rightarrow> toss_result option" where
  "parse_toss_ocr_text te s categories base_year =
     map_option (\<lambda>(p, out). let out' = flush_pending te categories p out
                             in out'\<lparr>tz_rows := mark_duplicate_groups te (tz_rows out')\<rparr>)
       (toss_lines te categories base_year (clean_lines s) (fresh_pending None, \<lparr>tz_rows = [], tz_excluded = []\<rparr>))"

end
