(* ===== verification/Toss_Import.thy ===== *)
theory Toss_Import
  imports Toss_Parse Migration_Transfer Access
begin

text \<open>
  The two endpoints of the screenshot import, \<open>backend/app/api/routes/imports.py\<close>: the preview that reads images and
  signs the reference of every row, and the application of the reviewed rows.  The recognition program, SHA-1 and the
  keyed hash are parameters; files are their names and sizes.
\<close>

subsection \<open>Uploads and recognition\<close>

text \<open>What running the recognition program gives: it is missing, it is too slow, or it ends with a code.\<close>

datatype ocr_process = Ocr_not_found | Ocr_timeout | Ocr_completed int pystr

datatype ocr_error = Ocr_unavailable_error | Ocr_failed_error

definition extract_text_from_image :: "ocr_process \<Rightarrow> ocr_error + pystr" where
  "extract_text_from_image p =
     (case p of
        Ocr_not_found \<Rightarrow> Inl Ocr_unavailable_error
      | Ocr_timeout \<Rightarrow> Inl Ocr_failed_error
      | Ocr_completed returncode stdout \<Rightarrow> if returncode \<noteq> 0 then Inl Ocr_failed_error else Inr stdout)"

record toss_upload =
  tu_filename :: "pystr option"
  tu_size :: int
  tu_process :: ocr_process

record toss_settings =
  tg_allowed_extensions :: pystr
  tg_max_image_bytes :: int
  tg_max_images :: int

definition toss_allowed_extensions :: "pystr \<Rightarrow> pystr list" where
  "toss_allowed_extensions raw = map (py_lower \<circ> py_strip) (filter (\<lambda>s. py_strip s \<noteq> []) (split_on (\<lambda>c. c = 44) raw))"

definition upload_name :: "toss_upload \<Rightarrow> pystr" where
  "upload_name f = (case tu_filename f of Some s \<Rightarrow> py_strip s | None \<Rightarrow> [])"

definition validate_toss_image_file :: "toss_settings \<Rightarrow> toss_upload \<Rightarrow> http_error option" where
  "validate_toss_image_file tg f =
     (if py_lower (path_suffix (upload_name f)) \<notin> set (toss_allowed_extensions (tg_allowed_extensions tg))
      then Some (AppError 400 ''TOSS_IMPORT_IMAGE_EXTENSION_INVALID'') else None)"

definition copy_toss_upload_with_limit :: "toss_settings \<Rightarrow> toss_upload \<Rightarrow> http_error option" where
  "copy_toss_upload_with_limit tg f =
     (if tg_max_image_bytes tg < tu_size f then Some (AppError 413 ''TOSS_IMPORT_IMAGE_TOO_LARGE'') else None)"

definition load_toss_category_options :: "db \<Rightarrow> pystr \<Rightarrow> toss_category list" where
  "load_toss_category_options d household_id =
     map (\<lambda>k. \<lparr>tk_id = ct_id k, tk_flow_type = ct_flow_type k, tk_major = ct_major k, tk_minor = ct_minor k\<rparr>)
       (filter (\<lambda>k. ct_household_id k = household_id) (db_categories d))"

subsection \<open>The rows of the preview\<close>

record toss_import_row = toss_row +
  ty_source_ref :: pystr
  ty_source_ref_signature :: pystr
  ty_source_image_name :: "pystr option"
  ty_source_image_index :: int

record toss_excluded_candidate = toss_excluded +
  tx_source_image_name :: "pystr option"
  tx_source_image_index :: int

record toss_keys =
  tt_env :: toss_env
  tt_sign :: "pystr \<Rightarrow> pystr"

definition time_pattern :: "pystr \<Rightarrow> bool" where
  "time_pattern s \<longleftrightarrow>
     (case s of
        [a, b, c, d, e] \<Rightarrow> ((a = 48 \<or> a = 49) \<and> digit_cp b \<or> a = 50 \<and> 48 \<le> b \<and> b \<le> 51) \<and> c = 58
                          \<and> 48 \<le> d \<and> d \<le> 53 \<and> digit_cp e
      | _ \<Rightarrow> False)"

text \<open>The constraints of the schema \<open>TossImportRow\<close>.\<close>

definition toss_row_valid :: "toss_import_row \<Rightarrow> bool" where
  "toss_row_valid r \<longleftrightarrow>
     tw_row_id r \<noteq> [] \<and> length (tw_row_id r) \<le> 120 \<and> ty_source_ref r \<noteq> [] \<and> length (ty_source_ref r) \<le> 120
     \<and> length (ty_source_ref_signature r) = 64 \<and> max_len 255 (ty_source_image_name r) \<and> 0 \<le> ty_source_image_index r
     \<and> time_pattern (tw_time r) \<and> tw_item_name r \<noteq> [] \<and> length (tw_item_name r) \<le> 200 \<and> length (tw_detail r) \<le> 500
     \<and> 0 < tw_amount r \<and> tw_balance r \<noteq> None \<and> max_len 36 (tw_category_id r)
     \<and> max_len 80 (tw_duplicate_group_id r)
     \<and> (case tw_exclusion_reason r of None \<Rightarrow> True | Some s \<Rightarrow> length s \<le> 120)
     \<and> (case tw_recommendation r of
          None \<Rightarrow> True
        | Some m \<Rightarrow> tm_major m \<noteq> [] \<and> length (tm_major m) \<le> 120 \<and> tm_minor m \<noteq> [] \<and> length (tm_minor m) \<le> 120
                   \<and> tm_reason m \<noteq> [] \<and> length (tm_reason m) \<le> 120)"

definition normalize_toss_row :: "toss_import_row \<Rightarrow> toss_import_row" where
  "normalize_toss_row r =
     r\<lparr>tw_category_id := (case tw_category_id r of
                            None \<Rightarrow> None | Some s \<Rightarrow> if py_strip s = [] then None else Some (py_strip s)),
       tw_item_name := py_strip (tw_item_name r), tw_detail := py_strip (tw_detail r)\<rparr>"

text \<open>\<open>None\<close> is a \<open>ValidationError\<close>.\<close>

definition toss_row_schema :: "toss_import_row \<Rightarrow> toss_import_row option" where
  "toss_row_schema r = (if toss_row_valid r then Some (normalize_toss_row r) else None)"

definition source_ref_from_parsed_row :: "toss_keys \<Rightarrow> toss_row \<Rightarrow> int \<Rightarrow> int \<Rightarrow> pystr" where
  "source_ref_from_parsed_row tt r image_index row_index =
     lit ''toss:'' @ ts_sha1 (tt_env tt)
       (join_with [124] [tw_row_id r, nat_text image_index, nat_text row_index])"

definition to_toss_row_schema ::
  "toss_keys \<Rightarrow> pystr option \<Rightarrow> int \<Rightarrow> toss_row \<Rightarrow> int \<Rightarrow> toss_import_row option" where
  "to_toss_row_schema tt image_name image_index r row_index =
     (let source_ref = source_ref_from_parsed_row tt r image_index row_index
      in toss_row_schema
           (toss_row.extend
              (r\<lparr>tw_row_id := tw_row_id r @ [45] @ nat_text image_index @ [45] @ nat_text row_index\<rparr>)
              (toss_import_row.fields source_ref (tt_sign tt source_ref) image_name image_index)))"

definition to_toss_excluded_schema ::
  "pystr option \<Rightarrow> int \<Rightarrow> toss_excluded \<Rightarrow> toss_excluded_candidate option" where
  "to_toss_excluded_schema image_name image_index c =
     (if max_len 255 image_name \<and> 0 \<le> image_index \<and> length (tl_item_name c) \<le> 200 \<and> length (tl_raw_text c) \<le> 1000
      then Some (toss_excluded.extend
                  (c\<lparr>tl_exclusion_reason := (if tl_exclusion_reason c = [] then ''unrecognized'' else tl_exclusion_reason c)\<rparr>)
                  (toss_excluded_candidate.fields image_name image_index))
      else None)"

definition review_key :: "toss_import_row \<Rightarrow> pystr" where
  "review_key r =
     join_with [124] [iso_date (tw_occurred_on r), tw_time r, join_with [32] (py_split (py_lower (py_strip (tw_item_name r)))),
                      won_text (tw_signed_amount r), balance_text (tw_balance r)]"

definition mark_toss_duplicate_candidates :: "toss_import_row list \<Rightarrow> toss_import_row list" where
  "mark_toss_duplicate_candidates rows =
     map (\<lambda>r. case duplicate_name (map review_key rows) (review_key r) of
                None \<Rightarrow> r
              | Some g \<Rightarrow> r\<lparr>tw_duplicate_group_id := Some g, tw_included := False,
                           tw_exclusion_reason := Some ''duplicate_candidate''\<rparr>) rows"

definition toss_duplicate_candidate_count :: "toss_import_row list \<Rightarrow> nat" where
  "toss_duplicate_candidate_count rows =
     length (filter (\<lambda>r. tw_duplicate_group_id r \<noteq> None \<and> tw_duplicate_group_id r \<noteq> Some []) rows)"

subsection \<open>The preview\<close>

text \<open>The rows and candidates of one image.\<close>

definition preview_image ::
  "toss_keys \<Rightarrow> toss_settings \<Rightarrow> toss_category list \<Rightarrow> int \<Rightarrow> int \<Rightarrow> toss_upload
   \<Rightarrow> http_error + (toss_import_row list \<times> toss_excluded_candidate list)" where
  "preview_image tt tg categories base_year image_index f =
     (case validate_toss_image_file tg f of
        Some e \<Rightarrow> Inl e
      | None \<Rightarrow>
          (case copy_toss_upload_with_limit tg f of
             Some e \<Rightarrow> Inl e
           | None \<Rightarrow>
               (case extract_text_from_image (tu_process f) of
                  Inl Ocr_unavailable_error \<Rightarrow> Inl (AppError 503 ''TOSS_OCR_UNAVAILABLE'')
                | Inl Ocr_failed_error \<Rightarrow> Inl (AppError 400 ''TOSS_OCR_FAILED'')
                | Inr s \<Rightarrow>
                    (let image_name = (if upload_name f = [] then None else Some (upload_name f))
                     in case parse_toss_ocr_text (tt_env tt) s categories base_year of
                          None \<Rightarrow> Inl ServerError
                        | Some parsed \<Rightarrow>
                            (let rows = map (\<lambda>(i, r). to_toss_row_schema tt image_name image_index r i)
                                          (zip (map int [0..<length (tz_rows parsed)]) (tz_rows parsed));
                                 excluded = map (to_toss_excluded_schema image_name image_index) (tz_excluded parsed)
                             in if None \<in> set rows \<or> None \<in> set excluded then Inl ServerError
                                else Inr (map the rows, map the excluded))))))"

fun preview_images ::
  "toss_keys \<Rightarrow> toss_settings \<Rightarrow> toss_category list \<Rightarrow> int \<Rightarrow> int \<Rightarrow> toss_upload list
   \<Rightarrow> http_error + (toss_import_row list \<times> toss_excluded_candidate list)" where
  "preview_images tt tg categories base_year image_index [] = Inr ([], [])"
| "preview_images tt tg categories base_year image_index (f # fs) =
     (case preview_image tt tg categories base_year image_index f of
        Inl e \<Rightarrow> Inl e
      | Inr (rows, excluded) \<Rightarrow>
          (case preview_images tt tg categories base_year (image_index + 1) fs of
             Inl e \<Rightarrow> Inl e
           | Inr (rows', excluded') \<Rightarrow> Inr (rows @ rows', excluded @ excluded')))"

record toss_preview =
  tv_rows :: "toss_import_row list"
  tv_excluded_candidates :: "toss_excluded_candidate list"
  tv_image_count :: nat
  tv_parsed_rows :: nat
  tv_excluded_count :: nat
  tv_duplicate_candidates :: nat

definition preview_toss_screenshots ::
  "toss_keys \<Rightarrow> toss_settings \<Rightarrow> int \<Rightarrow> db \<Rightarrow> ctx \<Rightarrow> toss_upload list \<Rightarrow> http_error + toss_preview" where
  "preview_toss_screenshots tt tg base_year d ctx files =
     (if files = [] then Inl (AppError 400 ''TOSS_IMPORT_IMAGE_REQUIRED'')
      else if tg_max_images tg < int (length files) then Inl (AppError 413 ''TOSS_IMPORT_TOO_MANY_IMAGES'')
      else (case preview_images tt tg (load_toss_category_options d (hh_id (fst ctx))) base_year 0 files of
              Inl e \<Rightarrow> Inl e
            | Inr (rows, excluded) \<Rightarrow>
                (let marked = mark_toss_duplicate_candidates rows
                 in Inr \<lparr>tv_rows = marked, tv_excluded_candidates = excluded, tv_image_count = length files,
                         tv_parsed_rows = length marked, tv_excluded_count = length excluded,
                         tv_duplicate_candidates = toss_duplicate_candidate_count marked\<rparr>)))"

subsection \<open>Applying the reviewed rows\<close>

record toss_apply_env =
  tn_sign :: "pystr \<Rightarrow> pystr"
  tn_new_id :: "nat \<Rightarrow> pystr"
  tn_db_now :: instant
  tn_meanwhile :: "db \<Rightarrow> db"

text \<open>\<open>compare_digest\<close> raises on a text that is not ASCII.\<close>

definition verified_toss_source_ref :: "toss_apply_env \<Rightarrow> toss_import_row \<Rightarrow> http_error + pystr" where
  "verified_toss_source_ref tn r =
     (let source_ref = py_strip (ty_source_ref r)
      in case compare_digest (ty_source_ref_signature r) (tn_sign tn source_ref) of
           None \<Rightarrow> Inl ServerError
         | Some same \<Rightarrow> if same then Inr source_ref else Inl (AppError 400 ''TOSS_IMPORT_SOURCE_REF_INVALID''))"

definition ensure_toss_category_matches :: "db \<Rightarrow> pystr \<Rightarrow> pystr option \<Rightarrow> flow_type \<Rightarrow> http_error option" where
  "ensure_toss_category_matches d household_id category_id flow =
     (case category_id of
        None \<Rightarrow> None
      | Some [] \<Rightarrow> None
      | Some i \<Rightarrow>
          (case row_get ct_id i (db_categories d) of
             None \<Rightarrow> Some (AppError 400 ''CATEGORY_INVALID'')
           | Some k \<Rightarrow>
               if ct_household_id k \<noteq> household_id then Some (AppError 400 ''CATEGORY_INVALID'')
               else if ct_flow_type k \<noteq> flow then Some (AppError 400 ''TRANSACTION_CATEGORY_FLOW_TYPE_MISMATCH'')
               else None))"

definition toss_transaction_memo :: "toss_import_row \<Rightarrow> pystr" where
  "toss_transaction_memo r =
     join_with (lit '' | '') (filter (\<lambda>s. s \<noteq> []) (map py_strip
       ([tw_time r, tw_item_name r] @ (if tw_detail r = [] then [] else [tw_detail r]))))"

record toss_apply =
  tf_created :: "transaction list"
  tf_seen :: "pystr list"
  tf_next_keys :: "date \<Rightarrow> int option"
  tf_applied :: int
  tf_skipped :: int

definition toss_order_key :: "db \<Rightarrow> pystr \<Rightarrow> date \<Rightarrow> toss_apply \<Rightarrow> int" where
  "toss_order_key d household_id day st =
     (case tf_next_keys st day of
        Some k \<Rightarrow> k
      | None \<Rightarrow>
          (let keys = map tx_order_key (filter (\<lambda>t. tx_household_id t = household_id \<and> tx_occurred_on t = day)
                        (db_transactions d))
           in (if keys = [] then 0 else Max (set keys)) + 1024))"

definition toss_transaction ::
  "toss_apply_env \<Rightarrow> pystr \<Rightarrow> pystr \<Rightarrow> toss_import_row \<Rightarrow> pystr \<Rightarrow> int \<Rightarrow> pystr option \<Rightarrow> pystr option \<Rightarrow> nat \<Rightarrow> transaction" where
  "toss_transaction tn household_id user_id r source_ref order_key owner_user_id owner_name n =
     \<lparr>tx_id = tn_new_id tn n, tx_household_id = household_id, tx_category_id = tw_category_id r,
      tx_flow_type = tw_flow_type r, tx_occurred_on = tw_occurred_on r, tx_amount = tw_amount r,
      tx_installment_months = None, tx_currency = lit ''KRW'', tx_memo = toss_transaction_memo r,
      tx_order_key = order_key, tx_owner_user_id = owner_user_id, tx_owner_name = owner_name,
      tx_source_ref = Some source_ref, tx_version = 1, tx_created_by_user_id = Some user_id,
      tx_created_at = tn_db_now tn, tx_updated_at = tn_db_now tn\<rparr>"

definition skip_row :: "toss_apply \<Rightarrow> toss_apply" where
  "skip_row st = st\<lparr>tf_skipped := tf_skipped st + 1\<rparr>"

definition apply_toss_row ::
  "toss_apply_env \<Rightarrow> db \<Rightarrow> pystr \<Rightarrow> pystr \<Rightarrow> toss_import_row \<Rightarrow> toss_apply \<Rightarrow> http_error + toss_apply" where
  "apply_toss_row tn d household_id user_id r st =
     (if \<not> tw_included r then Inr (skip_row st)
      else
        (case verified_toss_source_ref tn r of
           Inl e \<Rightarrow> Inl e
         | Inr source_ref \<Rightarrow>
             if source_ref \<in> set (tf_seen st) then Inr (skip_row st)
             else if by_source_ref d household_id source_ref \<noteq> None then Inr (skip_row st)
             else
               (case ensure_toss_category_matches d household_id (tw_category_id r) (tw_flow_type r) of
                  Some e \<Rightarrow> Inl e
                | None \<Rightarrow>
                    (case resolve_owner_fields d household_id None None ''TRANSACTION_OWNER_INVALID'' of
                       Inl e \<Rightarrow> Inl e
                     | Inr (owner_user_id, owner_name) \<Rightarrow>
                         (let key = toss_order_key d household_id (tw_occurred_on r) st;
                              t = toss_transaction tn household_id user_id r source_ref key owner_user_id owner_name
                                    (length (tf_created st))
                          in Inr \<lparr>tf_created = tf_created st @ [t], tf_seen = source_ref # tf_seen st,
                                  tf_next_keys = (tf_next_keys st)(tw_occurred_on r \<mapsto> key + 1024),
                                  tf_applied = tf_applied st + 1, tf_skipped = tf_skipped st\<rparr>)))))"

fun apply_toss_rows ::
  "toss_apply_env \<Rightarrow> db \<Rightarrow> pystr \<Rightarrow> pystr \<Rightarrow> toss_import_row list \<Rightarrow> toss_apply \<Rightarrow> http_error + toss_apply" where
  "apply_toss_rows tn d household_id user_id [] st = Inr st"
| "apply_toss_rows tn d household_id user_id (r # rs) st =
     (case apply_toss_row tn d household_id user_id r st of
        Inl e \<Rightarrow> Inl e
      | Inr st' \<Rightarrow> apply_toss_rows tn d household_id user_id rs st')"

record toss_applied =
  tb_applied_transactions :: int
  tb_skipped_transactions :: int
  tb_created_transaction_ids :: "pystr list"

text \<open>
  \<open>tn_meanwhile\<close> is what other sessions commit between the checks of this one and its commit, which an
  \<open>IntegrityError\<close> of the unique reference or of the category ends.
\<close>

definition apply_toss_screenshots ::
  "toss_apply_env \<Rightarrow> db \<Rightarrow> ctx \<Rightarrow> pystr \<Rightarrow> toss_import_row list \<Rightarrow> toss_applied outcome" where
  "apply_toss_screenshots tn d ctx user_id rows =
     (let household_id = hh_id (fst ctx)
      in case apply_toss_rows tn d household_id user_id rows
                \<lparr>tf_created = [], tf_seen = [], tf_next_keys = (\<lambda>_. None), tf_applied = 0, tf_skipped = 0\<rparr> of
           Inl e \<Rightarrow> fail d e
         | Inr st \<Rightarrow>
             (let c = tn_meanwhile tn d
              in if list_ex (\<lambda>t. by_source_ref c household_id (the (tx_source_ref t)) \<noteq> None
                               \<or> \<not> category_fk_ok c (tx_category_id t)) (tf_created st)
                 then fail c (AppError 409 ''TOSS_IMPORT_SOURCE_REF_CONFLICT'')
                 else done_with (set_transactions (db_transactions c @ tf_created st) c)
                        (map (\<lambda>t. (household_id, Transaction_created (tx_id t) (tx_version t))) (tf_created st))
                        \<lparr>tb_applied_transactions = tf_applied st, tb_skipped_transactions = tf_skipped st,
                         tb_created_transaction_ids = map tx_id (tf_created st)\<rparr>))"

text \<open>The payload of the endpoint; \<open>None\<close> is a validation error (status 400).\<close>

definition toss_payload :: "toss_import_row list \<Rightarrow> toss_import_row list option" where
  "toss_payload rows = (if list_all toss_row_valid rows then Some (map normalize_toss_row rows) else None)"

end
