(* ===== verification/Toss_Claims.thy ===== *)
theory Toss_Claims
  imports Toss_Import Samples
begin

text \<open>
  What the screenshot import promises: rows read from an image are complete, and the reviewed rows are applied once.
\<close>

subsection \<open>Rows of an image\<close>

definition toss_row_ok :: "toss_category list \<Rightarrow> int \<Rightarrow> toss_row \<Rightarrow> bool" where
  "toss_row_ok categories base_year r \<longleftrightarrow>
     fst (tw_occurred_on r) = base_year \<and> time_pattern (tw_time r) \<and> tw_item_name r \<noteq> []
     \<and> tw_amount r = \<bar>tw_signed_amount r\<bar> \<and> tw_balance r \<noteq> None
     \<and> (case tw_category_id r of
          None \<Rightarrow> tw_recommendation r \<noteq> None
        | Some i \<Rightarrow> list_ex (\<lambda>k. tk_id k = i \<and> tk_flow_type k = tw_flow_type r) categories)"

definition pending_ok :: "int \<Rightarrow> pending_row \<Rightarrow> bool" where
  "pending_ok base_year p \<longleftrightarrow>
     (tq_time p = [] \<or> time_pattern (tq_time p))
     \<and> (case tq_occurred_on p of None \<Rightarrow> True | Some dt \<Rightarrow> fst dt = base_year)"

definition toss_state_ok :: "toss_category list \<Rightarrow> int \<Rightarrow> pending_row \<times> toss_result \<Rightarrow> bool" where
  "toss_state_ok categories base_year st \<longleftrightarrow>
     pending_ok base_year (fst st) \<and> list_all (toss_row_ok categories base_year) (tz_rows (snd st))"

lemma match_category_id_SomeD:
  "match_category_id categories flow item detail = Some i \<Longrightarrow>
     list_ex (\<lambda>k. tk_id k = i \<and> tk_flow_type k = flow) categories"
  by (auto simp: match_category_id_def category_fits_def list_ex_iff dest!: find_SomeD)

lemma flush_pending_ok:
  assumes "pending_ok base_year p" "list_all (toss_row_ok categories base_year) (tz_rows out)"
  shows "list_all (toss_row_ok categories base_year) (tz_rows (flush_pending te categories p out))"
  using assms
  by (auto simp: flush_pending_def Let_def toss_row_ok_def pending_ok_def dest: match_category_id_SomeD
      split: option.splits prod.splits)

lemma fresh_pending_ok: "pending_ok base_year (fresh_pending day) \<longleftrightarrow> (case day of None \<Rightarrow> True | Some dt \<Rightarrow> fst dt = base_year)"
  by (simp add: pending_ok_def fresh_pending_def)

lemma time_at_pattern:
  assumes "time_at s = Some (hour, minute, rest)"
  shows "time_pattern (normalize_time hour minute)"
proof -
  have hm: "hour = take n s \<and> (\<exists>b c. minute = [b, c] \<and> 48 \<le> b \<and> b \<le> 53 \<and> digit_cp c)"
    if "hour_minute n s = Some (hour, minute, rest)" for n
    using that by (auto simp: hour_minute_def minute_at_def split: list.splits if_splits)
  consider (two) a b r where "s = a # b # r" "a = 48 \<or> a = 49" "digit_cp b" "hour_minute 2 s = Some (hour, minute, rest)"
    | (one) a r where "s = a # r" "digit_cp a" "hour_minute 1 s = Some (hour, minute, rest)"
    | (twenty) b r where "s = 50 # b # r" "48 \<le> b" "b \<le> 51" "hour_minute 2 s = Some (hour, minute, rest)"
    using assms by (auto simp: time_at_def Let_def split: list.splits if_splits option.splits)
  then show ?thesis
  proof cases
    case two
    with hm [of 2] show ?thesis
      by (auto simp: normalize_time_def digits_value_def digit_text_def time_pattern_def digit_cp_def)
  next
    case one
    with hm [of 1] show ?thesis
      by (auto simp: normalize_time_def digits_value_def digit_text_def time_pattern_def digit_cp_def)
  next
    case twenty
    then have "b = 48 \<or> b = 49 \<or> b = 50 \<or> b = 51" by linarith
    with twenty hm [of 2] show ?thesis
      by (auto simp: normalize_time_def digits_value_def digit_text_def time_pattern_def digit_cp_def)
  qed
qed

lemma re_search_SomeD: "re_search start prev s = Some (p, x) \<Longrightarrow> \<exists>prev' s'. start prev' s' = Some x"
  by (induction start prev s arbitrary: p rule: re_search.induct) (auto split: option.splits)

lemma take_time_ok: "pending_ok base_year p \<Longrightarrow> pending_ok base_year (take_time line sm p)"
  by (auto simp: take_time_def pending_ok_def Let_def split: option.splits dest!: re_search_SomeD time_at_pattern)

lemma close_row_ok:
  assumes "close_row te categories amount p out = Some st'" "pending_ok base_year p"
    "list_all (toss_row_ok categories base_year) (tz_rows out)"
  shows "toss_state_ok categories base_year st'"
proof -
  have "pending_ok base_year (p\<lparr>tq_balance := Some b\<rparr>)" for b using assms(2) by (simp add: pending_ok_def)
  with assms show ?thesis
    by (auto simp: close_row_def toss_state_ok_def fresh_pending_def intro!: flush_pending_ok) (simp add: pending_ok_def)
qed

lemma toss_line_ok:
  assumes "toss_line te categories base_year line st = Some st'" "toss_state_ok categories base_year st"
  shows "toss_state_ok categories base_year st'"
proof (cases "re_search (\<lambda>_. date_header_at) None line")
  case (Some x)
  obtain pre_text month day where x: "x = (pre_text, month, day)" by (cases x)
  have "st' = date_line te categories base_year line month day st" using assms(1) Some x by (simp add: toss_line_def)
  moreover have "fst dt = base_year" if "mk_date base_year month day = Some dt" for dt
    using that by (auto simp: mk_date_def split: if_splits)
  ultimately show ?thesis using assms(2)
    by (auto simp: date_line_def toss_state_ok_def fresh_pending_ok Let_def intro!: flush_pending_ok split: option.splits)
next
  case None
  let ?p0 = "(fst st)\<lparr>tq_raw_lines := tq_raw_lines (fst st) @ [line]\<rparr>"
  let ?sm = "re_search (\<lambda>_. signed_at) None line"
  let ?p = "take_time line ?sm ?p0"
  have p: "pending_ok base_year ?p"
    using assms(2) by (intro take_time_ok) (simp add: toss_state_ok_def pending_ok_def)
  then have q: "pending_ok base_year ((take_prefix pre ?p)\<lparr>tq_signed_amount := a\<rparr>)" for pre a
    by (auto simp: take_prefix_def pending_ok_def Let_def)
  have out: "list_all (toss_row_ok categories base_year) (tz_rows (snd st))" using assms(2) by (simp add: toss_state_ok_def)
  have r: "toss_state_ok categories base_year (?p\<lparr>tq_item_name := s\<rparr>, snd st)"
    "toss_state_ok categories base_year (?p\<lparr>tq_detail := s\<rparr>, snd st)" "toss_state_ok categories base_year (?p, snd st)" for s
    using p out by (simp_all add: toss_state_ok_def pending_ok_def)
  show ?thesis
  proof (cases ?sm)
    case sm: None
    with assms(1) None p out r show ?thesis
      by (auto simp: toss_line_def Let_def split: if_splits intro: close_row_ok)
  next
    case sm: (Some x)
    obtain pre amount rest where x: "x = (pre, amount, rest)" by (cases x)
    let ?q = "\<lambda>a. (take_prefix pre ?p)\<lparr>tq_signed_amount := Some a\<rparr>"
    have "toss_state_ok categories base_year (?q a, snd st)" for a
      using q [of "Some a" pre] out by (simp add: toss_state_ok_def)
    with assms(1) None sm x q out show ?thesis
      by (auto simp: toss_line_def Let_def split: option.splits intro: close_row_ok)
  qed
qed

text \<open>Every row an image gives is complete, dated in the year it was read for, with a category of its flow or an advice.\<close>

lemma parsed_toss_rows_ok:
  assumes "parse_toss_ocr_text te s categories base_year = Some out"
  shows "list_all (toss_row_ok categories base_year) (tz_rows out)"
proof -
  have lines: "toss_lines te categories base_year ls st = Some st' \<Longrightarrow> toss_state_ok categories base_year st \<Longrightarrow>
      toss_state_ok categories base_year st'" for ls st st'
    by (induction te categories base_year ls st rule: toss_lines.induct)
      (auto simp: bind_eq_Some_conv dest: toss_line_ok)
  from assms obtain p out0 where
    l: "toss_lines te categories base_year (clean_lines s) (fresh_pending None, \<lparr>tz_rows = [], tz_excluded = []\<rparr>) = Some (p, out0)"
    and o: "tz_rows out = mark_duplicate_groups te (tz_rows (flush_pending te categories p out0))"
    by (auto simp: parse_toss_ocr_text_def Let_def)
  have "toss_state_ok categories base_year (p, out0)"
    by (rule lines [OF l]) (simp add: toss_state_ok_def fresh_pending_ok)
  then have "list_all (toss_row_ok categories base_year) (tz_rows (flush_pending te categories p out0))"
    by (intro flush_pending_ok) (simp_all add: toss_state_ok_def)
  then show ?thesis
    unfolding o by (auto simp: mark_duplicate_groups_def list_all_iff toss_row_ok_def split: option.splits)
qed

text \<open>
  A label written next to the balance takes its thousands away: between a letter and a digit there is no word
  boundary, so the search goes on and finds the digits after the comma.
\<close>

lemma balance_loses_thousands:
  assumes "word 50529" "\<not> word 44"
  shows "re_search (unsigned_at word) None ([51092, 50529] @ lit ''1,200'' @ [50896])
       = Some ([51092, 50529] @ lit ''1,'', lit ''200'' @ [50896], [])"
  using assms by (simp add: unsigned_at_def won_body_def digit_cp_def py_space_def lit_def)

text \<open>
  A row that the image's own grouping took out, but whose text differs from every other row of the review, keeps the
  group name of its image, which may by then be the name of another group.
\<close>

lemma review_keeps_image_groups:
  assumes "r \<in> set rows" "duplicate_name (map review_key rows) (review_key r) = None"
  shows "r \<in> set (mark_toss_duplicate_candidates rows)"
proof -
  let ?f = "\<lambda>r. case duplicate_name (map review_key rows) (review_key r) of None \<Rightarrow> r
    | Some g \<Rightarrow> r\<lparr>tw_duplicate_group_id := Some g, tw_included := False, tw_exclusion_reason := Some ''duplicate_candidate''\<rparr>"
  have "?f r \<in> ?f ` set rows" using assms(1) by (rule imageI)
  moreover have "?f r = r" using assms(2) by simp
  ultimately show ?thesis by (simp only: mark_toss_duplicate_candidates_def list.set_map)
qed

subsection \<open>Applying the reviewed rows\<close>

definition row_ref :: "toss_import_row \<Rightarrow> pystr" where
  "row_ref r = py_strip (ty_source_ref r)"

definition signed_row :: "toss_apply_env \<Rightarrow> toss_import_row \<Rightarrow> bool" where
  "signed_row tn r \<longleftrightarrow> compare_digest (ty_source_ref_signature r) (tn_sign tn (row_ref r)) = Some True"

definition has_ref :: "db \<Rightarrow> pystr \<Rightarrow> pystr \<Rightarrow> bool" where
  "has_ref d household_id ref \<longleftrightarrow> by_source_ref d household_id ref \<noteq> None"

lemma has_ref_iff: "has_ref d h ref \<longleftrightarrow> (\<exists>t \<in> set (db_transactions d). tx_household_id t = h \<and> tx_source_ref t = Some ref)"
  by (auto simp: has_ref_def by_source_ref_def find_None_iff)

definition row_becomes :: "toss_apply_env \<Rightarrow> pystr \<Rightarrow> pystr \<Rightarrow> toss_import_row \<Rightarrow> transaction \<Rightarrow> bool" where
  "row_becomes tn household_id user_id r t \<longleftrightarrow>
     tw_included r \<and> signed_row tn r \<and> tx_source_ref t = Some (row_ref r) \<and> tx_household_id t = household_id
     \<and> tx_occurred_on t = tw_occurred_on r \<and> tx_flow_type t = tw_flow_type r \<and> tx_amount t = tw_amount r
     \<and> tx_category_id t = tw_category_id r \<and> tx_memo t = toss_transaction_memo r \<and> tx_currency t = lit ''KRW''
     \<and> tx_installment_months t = None \<and> tx_owner_user_id t = None \<and> tx_owner_name t = None
     \<and> tx_created_by_user_id t = Some user_id \<and> tx_version t = 1"

text \<open>
  The rows that are to be stored, in their order: included, with a reference the household does not have and no earlier
  included row has.
\<close>

fun fresh_rows :: "db \<Rightarrow> pystr \<Rightarrow> pystr set \<Rightarrow> toss_import_row list \<Rightarrow> toss_import_row list" where
  "fresh_rows d h seen [] = []"
| "fresh_rows d h seen (r # rs) =
     (if tw_included r \<and> row_ref r \<notin> seen \<and> \<not> has_ref d h (row_ref r)
      then r # fresh_rows d h (insert (row_ref r) seen) rs else fresh_rows d h seen rs)"

lemma fresh_rows_snoc:
  "fresh_rows d h seen (rs @ [r]) = fresh_rows d h seen rs @
     (if tw_included r \<and> row_ref r \<notin> seen \<union> row_ref ` set (fresh_rows d h seen rs) \<and> \<not> has_ref d h (row_ref r)
      then [r] else [])"
  by (induction rs arbitrary: seen) auto

lemma fresh_rows_set:
  "r \<in> set (fresh_rows d h seen rs) \<Longrightarrow> r \<in> set rs \<and> tw_included r \<and> row_ref r \<notin> seen \<and> \<not> has_ref d h (row_ref r)"
  by (induction rs arbitrary: seen) (auto split: if_splits)

lemma fresh_rows_distinct: "distinct (map row_ref (fresh_rows d h seen rs))"
  by (induction rs arbitrary: seen) (auto dest: fresh_rows_set)

lemma fresh_rows_cover:
  "r \<in> set rs \<Longrightarrow> tw_included r \<Longrightarrow> has_ref d h (row_ref r) \<or> row_ref r \<in> seen \<union> row_ref ` set (fresh_rows d h seen rs)"
  by (induction rs arbitrary: seen) auto

text \<open>What holds after some rows: what was created, for which rows, and what was counted.\<close>

definition applied_so_far ::
  "toss_apply_env \<Rightarrow> db \<Rightarrow> pystr \<Rightarrow> pystr \<Rightarrow> toss_import_row list \<Rightarrow> toss_apply \<Rightarrow> bool" where
  "applied_so_far tn d h u ps st \<longleftrightarrow>
     tf_applied st = int (length (tf_created st)) \<and> tf_applied st + tf_skipped st = int (length ps)
     \<and> set (tf_seen st) = row_ref ` set (fresh_rows d h {} ps)
     \<and> list_all2 (row_becomes tn h u) (fresh_rows d h {} ps) (tf_created st)
     \<and> list_all (\<lambda>r. tw_included r \<longrightarrow> signed_row tn r) ps"

lemma apply_toss_row_step:
  assumes "applied_so_far tn d h u ps st" "apply_toss_row tn d h u r st = Inr st'"
  shows "applied_so_far tn d h u (ps @ [r]) st'"
proof (cases "tw_included r")
  case False
  with assms(2) have "st' = skip_row st" by (simp add: apply_toss_row_def)
  with assms(1) False show ?thesis by (simp add: applied_so_far_def skip_row_def fresh_rows_snoc)
next
  case True
  with assms(2) have sig: "signed_row tn r"
    and ref: "verified_toss_source_ref tn r = Inr (row_ref r)"
    by (auto simp: apply_toss_row_def verified_toss_source_ref_def Let_def signed_row_def row_ref_def split: if_splits option.splits)
  show ?thesis
  proof (cases "row_ref r \<in> set (tf_seen st) \<or> has_ref d h (row_ref r)")
    case skip: True
    then have "apply_toss_row tn d h u r st = Inr (skip_row st)"
      using True ref by (auto simp: apply_toss_row_def has_ref_def)
    then have "st' = skip_row st" using assms(2) by simp
    with assms(1) sig skip show ?thesis by (auto simp: applied_so_far_def skip_row_def fresh_rows_snoc)
  next
    case new: False
    from assms(2) True ref new obtain key where
      st': "st' = \<lparr>tf_created = tf_created st @ [toss_transaction tn h u r (row_ref r) key None None (length (tf_created st))],
        tf_seen = row_ref r # tf_seen st, tf_next_keys = (tf_next_keys st)(tw_occurred_on r \<mapsto> key + 1024),
        tf_applied = tf_applied st + 1, tf_skipped = tf_skipped st\<rparr>"
      by (auto simp: apply_toss_row_def has_ref_def Let_def resolve_owner_fields_def normalize_optional_text_def
          split: option.splits sum.splits)
    have "row_becomes tn h u r (toss_transaction tn h u r (row_ref r) key None None (length (tf_created st)))"
      using True sig by (simp add: row_becomes_def toss_transaction_def)
    moreover have "fresh_rows d h {} (ps @ [r]) = fresh_rows d h {} ps @ [r]"
      using assms(1) True new by (auto simp: applied_so_far_def fresh_rows_snoc)
    ultimately show ?thesis
      using assms(1) sig unfolding st' applied_so_far_def by (auto intro: list_all2_appendI)
  qed
qed

lemma apply_toss_rows_result:
  "apply_toss_rows tn d h u rs st = Inr st' \<Longrightarrow> applied_so_far tn d h u ps st \<Longrightarrow> applied_so_far tn d h u (ps @ rs) st'"
proof (induction rs arbitrary: ps st)
  case (Cons r rs)
  then obtain st1 where s: "apply_toss_row tn d h u r st = Inr st1" "apply_toss_rows tn d h u rs st1 = Inr st'"
    by (auto split: sum.splits)
  from Cons.IH [OF s(2) apply_toss_row_step [OF Cons.prems(2) s(1)]] show ?case by simp
qed simp

text \<open>Rows whose references are all stored are all skipped.\<close>

lemma apply_toss_rows_skip:
  assumes "list_all (\<lambda>r. \<not> tw_included r \<or> signed_row tn r \<and> has_ref d h (row_ref r)) rs"
  shows "apply_toss_rows tn d h u rs st = Inr (st\<lparr>tf_skipped := tf_skipped st + int (length rs)\<rparr>)"
  using assms
proof (induction rs arbitrary: st)
  case (Cons r rs)
  have "apply_toss_row tn d h u r st = Inr (skip_row st)"
    using Cons.prems by (auto simp: apply_toss_row_def verified_toss_source_ref_def Let_def signed_row_def row_ref_def has_ref_def)
  with Cons show ?case by (simp add: skip_row_def)
qed simp

text \<open>The references of the stored transactions; with them stored, every included row has its reference stored.\<close>

lemma stored_refs:
  "list_all2 (row_becomes tn h u) rs created \<Longrightarrow> map tx_source_ref created = map (Some \<circ> row_ref) rs"
  "list_all2 (row_becomes tn h u) rs created \<Longrightarrow> \<forall>t \<in> set created. tx_household_id t = h \<and> tx_version t = 1"
  by (induction rule: list_all2_induct) (simp_all add: row_becomes_def)

lemma included_rows_stored:
  assumes stored: "list_all2 (row_becomes tn h u) (fresh_rows d h {} rows) created"
    and "set (db_transactions d) \<subseteq> set txs" and r: "r \<in> set rows" "tw_included r"
  shows "has_ref (set_transactions (txs @ created) c) h (row_ref r)"
proof (cases "has_ref d h (row_ref r)")
  case True
  with assms(2) show ?thesis by (auto simp: has_ref_iff)
next
  case False
  with fresh_rows_cover [OF r, of d h "{}"] have "Some (row_ref r) \<in> set (map (Some \<circ> row_ref) (fresh_rows d h {} rows))" by auto
  then obtain t where "t \<in> set created" "tx_source_ref t = Some (row_ref r)"
    unfolding stored_refs(1) [OF stored, symmetric] by auto
  with stored_refs(2) [OF stored] show ?thesis by (auto simp: has_ref_iff)
qed

text \<open>The keys of one day go up, above those of the rows already there.\<close>

definition keys_rise :: "db \<Rightarrow> pystr \<Rightarrow> toss_apply \<Rightarrow> bool" where
  "keys_rise d h st \<longleftrightarrow>
     sorted_wrt (\<lambda>a b. tx_occurred_on a = tx_occurred_on b \<longrightarrow> tx_order_key a < tx_order_key b) (tf_created st)
     \<and> (\<forall>t \<in> set (tf_created st). case tf_next_keys st (tx_occurred_on t) of None \<Rightarrow> False | Some k \<Rightarrow> tx_order_key t < k)
     \<and> (\<forall>day k. tf_next_keys st day = Some k \<longrightarrow>
          (\<forall>x \<in> set (db_transactions d). on_day h day x \<longrightarrow> tx_order_key x < k))
     \<and> (\<forall>t \<in> set (tf_created st). \<forall>x \<in> set (db_transactions d). on_day h (tx_occurred_on t) x \<longrightarrow> tx_order_key x < tx_order_key t)"

lemma toss_order_key_above:
  assumes "keys_rise d h st" "x \<in> set (db_transactions d)" "on_day h day x"
  shows "tx_order_key x < toss_order_key d h day st"
proof (cases "tf_next_keys st day")
  case None
  let ?keys = "map tx_order_key (filter (\<lambda>t. tx_household_id t = h \<and> tx_occurred_on t = day) (db_transactions d))"
  have m: "tx_order_key x \<in> set ?keys" using assms(2,3) by (auto simp: on_day_def)
  then have "tx_order_key x \<le> Max (set ?keys)" by (intro Max_ge) simp_all
  moreover have "?keys \<noteq> []" using m by (metis list.set(1) empty_iff)
  then have "toss_order_key d h day st = Max (set ?keys) + 1024"
    unfolding toss_order_key_def None Let_def by (simp only: option.case if_False)
  ultimately show ?thesis by linarith
next
  case (Some k)
  have "\<forall>x \<in> set (db_transactions d). on_day h day x \<longrightarrow> tx_order_key x < k"
    using assms(1) Some unfolding keys_rise_def by blast
  with Some assms(2,3) show ?thesis by (simp add: toss_order_key_def)
qed

lemma keys_rise_step:
  assumes "keys_rise d h st" "apply_toss_row tn d h u r st = Inr st'"
  shows "keys_rise d h st'"
proof -
  let ?key = "toss_order_key d h (tw_occurred_on r) st"
  have same: "keys_rise d h (skip_row st)" using assms(1) by (simp add: keys_rise_def skip_row_def)
  have new: "keys_rise d h \<lparr>tf_created = tf_created st @ [t], tf_seen = s,
      tf_next_keys = (tf_next_keys st)(tw_occurred_on r \<mapsto> ?key + 1024), tf_applied = a, tf_skipped = b\<rparr>"
    if t: "tx_occurred_on t = tw_occurred_on r" "tx_order_key t = ?key" for t s a b
  proof -
    have above: "tx_order_key c < ?key" if "c \<in> set (tf_created st)" "tx_occurred_on c = tw_occurred_on r" for c
      using assms(1) that by (fastforce simp: keys_rise_def toss_order_key_def split: option.splits)
    have db: "\<And>x. x \<in> set (db_transactions d) \<Longrightarrow> on_day h (tw_occurred_on r) x \<Longrightarrow> tx_order_key x < ?key"
      by (rule toss_order_key_above [OF assms(1)])
    show ?thesis
      using assms(1) t above db unfolding keys_rise_def
      by (auto simp: sorted_wrt_append split: option.splits) fastforce+
  qed
  from assms(2) same new show ?thesis
    by (auto simp: apply_toss_row_def Let_def toss_transaction_def split: if_splits sum.splits option.splits)
qed

lemma keys_rise_rows: "apply_toss_rows tn d h u rs st = Inr st' \<Longrightarrow> keys_rise d h st \<Longrightarrow> keys_rise d h st'"
  by (induction rs arbitrary: st) (auto split: sum.splits dest: keys_rise_step)

text \<open>C36 (screenshots are applied once): an application of reviewed rows that answers has checked the signature of every
included row and has stored, beside what was there, exactly one transaction for every included row whose reference the
household did not have and no earlier included row has, in the order of the rows and with the values of the row; it counts
them as applied and all other rows as skipped, answers and reports them, stores no reference twice, and lets the keys of a
day rise above those already there.  Sending the same rows again, by any member and with any identifiers, stores nothing,
answers with every row skipped and sends no event.\<close>

theorem toss_apply_once:
  assumes "apply_toss_screenshots tn d ctx u rows = (Inr ans, d', evs)"
    and "set (db_transactions d) \<subseteq> set (db_transactions (tn_meanwhile tn d))"
    and "tn_sign tn2 = tn_sign tn" "tn_meanwhile tn2 d' = d'"
  shows "(\<exists>created. d' = set_transactions (db_transactions (tn_meanwhile tn d) @ created) (tn_meanwhile tn d)
      \<and> list_all (\<lambda>r. \<not> tw_included r \<or> signed_row tn r) rows
      \<and> list_all2 (row_becomes tn (hh_id (fst ctx)) u) (fresh_rows d (hh_id (fst ctx)) {} rows) created
      \<and> tb_applied_transactions ans = int (length created)
      \<and> tb_applied_transactions ans + tb_skipped_transactions ans = int (length rows)
      \<and> tb_created_transaction_ids ans = map tx_id created
      \<and> evs = map (\<lambda>t. (hh_id (fst ctx), Transaction_created (tx_id t) 1)) created
      \<and> distinct (map tx_source_ref created)
      \<and> sorted_wrt (\<lambda>a b. tx_occurred_on a \<noteq> tx_occurred_on b \<or> tx_order_key a < tx_order_key b) created
      \<and> list_all (\<lambda>t. list_all (\<lambda>x. \<not> on_day (hh_id (fst ctx)) (tx_occurred_on t) x \<or> tx_order_key x < tx_order_key t)
                    (db_transactions d)) created)
    \<and> apply_toss_screenshots tn2 d' ctx u2 rows
      = done_with d' [] \<lparr>tb_applied_transactions = 0, tb_skipped_transactions = int (length rows), tb_created_transaction_ids = []\<rparr>"
proof -
  let ?h = "hh_id (fst ctx)" and ?c = "tn_meanwhile tn d"
  let ?st0 = "\<lparr>tf_created = [], tf_seen = [], tf_next_keys = (\<lambda>_. None), tf_applied = 0, tf_skipped = 0\<rparr>"
  let ?fresh = "fresh_rows d ?h {} rows"
  from assms(1) obtain st where loop: "apply_toss_rows tn d ?h u rows ?st0 = Inr st"
    and d': "d' = set_transactions (db_transactions ?c @ tf_created st) ?c"
    and ans: "ans = \<lparr>tb_applied_transactions = tf_applied st, tb_skipped_transactions = tf_skipped st,
                     tb_created_transaction_ids = map tx_id (tf_created st)\<rparr>"
    and evs: "evs = map (\<lambda>t. (?h, Transaction_created (tx_id t) (tx_version t))) (tf_created st)"
    by (auto simp: apply_toss_screenshots_def Let_def split: sum.splits if_splits)
  have "applied_so_far tn d ?h u [] ?st0" by (simp add: applied_so_far_def)
  from apply_toss_rows_result [OF loop this] have A: "applied_so_far tn d ?h u rows st" by simp
  then have stored: "list_all2 (row_becomes tn ?h u) ?fresh (tf_created st)"
    and signed: "list_all (\<lambda>r. \<not> tw_included r \<or> signed_row tn r) rows"
    by (simp_all add: applied_so_far_def list_all_iff)
  have "keys_rise d ?h ?st0" by (simp add: keys_rise_def)
  from keys_rise_rows [OF loop this] have K: "keys_rise d ?h st" .
  note refs = stored_refs [OF stored]
  have skipped: "list_all (\<lambda>r. \<not> tw_included r \<or> signed_row tn2 r \<and> has_ref d' ?h (row_ref r)) rows"
    using signed assms(3) included_rows_stored [OF stored assms(2)] by (auto simp: list_all_iff signed_row_def d')
  have second: "apply_toss_screenshots tn2 d' ctx u2 rows
      = done_with d' [] \<lparr>tb_applied_transactions = 0, tb_skipped_transactions = int (length rows), tb_created_transaction_ids = []\<rparr>"
    by (simp add: apply_toss_screenshots_def Let_def apply_toss_rows_skip [OF skipped] assms(4) d' [symmetric])
  have distinct: "distinct (map tx_source_ref (tf_created st))"
    unfolding refs(1) using fresh_rows_distinct [of d ?h "{}" rows] by (simp add: distinct_map comp_inj_on_iff [symmetric])
  have "sorted_wrt (\<lambda>a b. tx_occurred_on a \<noteq> tx_occurred_on b \<or> tx_order_key a < tx_order_key b) (tf_created st)"
    using K by (auto simp: keys_rise_def elim!: sorted_wrt_mono_rel [rotated])
  moreover have "list_all (\<lambda>t. list_all (\<lambda>x. \<not> on_day ?h (tx_occurred_on t) x \<or> tx_order_key x < tx_order_key t)
      (db_transactions d)) (tf_created st)"
    using K by (auto simp: keys_rise_def list_all_iff)
  moreover have "tf_applied st = int (length (tf_created st))" "tf_applied st + tf_skipped st = int (length rows)"
    using A by (simp_all add: applied_so_far_def)
  ultimately show ?thesis
    using second stored signed distinct refs(2) d' by (intro conjI exI [of _ "tf_created st"]) (simp_all add: ans evs)
qed

definition toss_sample_row :: "string \<Rightarrow> toss_import_row" where
  "toss_sample_row ref =
     \<lparr>tw_row_id = lit ''r'', tw_occurred_on = (2024, 5, 1), tw_time = lit ''09:05'', tw_item_name = lit ''cafe'',
      tw_detail = [], tw_amount = 10, tw_signed_amount = - 10, tw_balance = Some 5, tw_flow_type = Flow_expense,
      tw_category_id = Some (lit ''c1''), tw_recommendation = None, tw_included = True,
      tw_duplicate_group_id = None, tw_exclusion_reason = None, ty_source_ref = lit ref,
      ty_source_ref_signature = rev (lit ref), ty_source_image_name = None, ty_source_image_index = 0\<rparr>"

definition toss_sample_rows :: "toss_import_row list" where
  "toss_sample_rows =
     [toss_sample_row ''toss:1'', toss_sample_row ''toss:2'', toss_sample_row ''toss:1'',
      (toss_sample_row ''toss:3'')\<lparr>tw_included := False\<rparr>]"

definition toss_sample_env :: toss_apply_env where
  "toss_sample_env =
     \<lparr>tn_sign = rev, tn_new_id = (\<lambda>n. lit ''n'' @ nat_text (int n)), tn_db_now = seconds 1000, tn_meanwhile = id\<rparr>"

theorem toss_apply_once_witness:
  "\<exists>d'. fst (apply_toss_screenshots toss_sample_env sample_db sample_ctx (lit ''u1'') toss_sample_rows)
          = Inr \<lparr>tb_applied_transactions = 2, tb_skipped_transactions = 2, tb_created_transaction_ids = [lit ''n0'', lit ''n1'']\<rparr>
      \<and> outcome_db (apply_toss_screenshots toss_sample_env sample_db sample_ctx (lit ''u1'') toss_sample_rows) = d'
      \<and> apply_toss_screenshots toss_sample_env d' sample_ctx (lit ''u2'') toss_sample_rows
        = done_with d' [] \<lparr>tb_applied_transactions = 0, tb_skipped_transactions = 4, tb_created_transaction_ids = []\<rparr>"
proof -
  have f: "fst (apply_toss_screenshots toss_sample_env sample_db sample_ctx (lit ''u1'') toss_sample_rows)
      = Inr \<lparr>tb_applied_transactions = 2, tb_skipped_transactions = 2, tb_created_transaction_ids = [lit ''n0'', lit ''n1'']\<rparr>"
    by code_simp
  then obtain d' evs where a: "apply_toss_screenshots toss_sample_env sample_db sample_ctx (lit ''u1'') toss_sample_rows
      = (Inr \<lparr>tb_applied_transactions = 2, tb_skipped_transactions = 2, tb_created_transaction_ids = [lit ''n0'', lit ''n1'']\<rparr>, d', evs)"
    by (metis prod.exhaust fst_conv)
  have m: "tn_meanwhile toss_sample_env e = e" for e by (simp add: toss_sample_env_def)
  from toss_apply_once [OF a _ refl m, of "lit ''u2''"] a f show ?thesis
    by (simp add: m outcome_db_def toss_sample_rows_def)
qed

end
