(* ===== verification/Error_Responses.thy ===== *)
theory Error_Responses
  imports MF_Models Profile Number_Text
begin

text \<open>
  What the client sees of an error, \<open>backend/app/main.py\<close>: the three exception handlers turn an \<open>HTTPException\<close>, a
  validation error and any other exception into one payload of code, message, action and context.  The details are
  JSON values; \<open>str\<close> of a value that is no text and \<open>str.isalnum\<close> are parameters.
\<close>

subsection \<open>Defaults\<close>

definition default_error_message :: "int \<Rightarrow> pystr" where
  "default_error_message status_code =
     (if status_code = 400 then
        [50836, 52397, 32, 44050, 51060, 32, 50732, 48148, 47476, 51648, 32, 50506, 49845, 45768, 45796, 46]
      else if status_code = 401 then
        [51064, 51613, 51060, 32, 54596, 50836, 54633, 45768, 45796, 46]
      else if status_code = 403 then
        [50836, 52397, 32, 44428, 54620, 51060, 32, 50630, 49845, 45768, 45796, 46]
      else if status_code = 404 then
        [50836, 52397, 32, 45824, 49345, 51012, 32, 52286, 51012, 32, 49688, 32, 50630, 49845, 45768, 45796, 46]
      else if status_code = 409 then
        [50836, 52397, 32, 52649, 46028, 51060, 32, 48156, 49373, 54664, 49845, 45768, 45796, 46]
      else if status_code = 413 then
        [50836, 52397, 32, 53356, 44592, 32, 51228, 54620, 51012, 32, 52488, 44284, 54664, 49845, 45768, 45796,
          46]
      else if status_code = 429 then
        [50836, 52397, 51060, 32, 45320, 47924, 32, 47566, 49845, 45768, 45796, 46]
      else if 500 \<le> status_code then
        [49436, 48260, 32, 52376, 47532, 32, 51473, 32, 47928, 51228, 44032, 32, 48156, 49373, 54664, 49845,
          45768, 45796, 46]
      else
        [50836, 52397, 32, 52376, 47532, 32, 51473, 32, 50724, 47448, 44032, 32, 48156, 49373, 54664, 49845,
          45768, 45796, 46])"

definition default_error_action :: "int \<Rightarrow> pystr" where
  "default_error_action status_code =
     (if status_code \<in> {400, 409, 413} then
        [51077, 47141, 44050, 51012, 32, 54869, 51064, 54620, 32, 46244, 32, 45796, 49884, 32, 49884, 46020,
          54644, 32, 51452, 49464, 50836, 46]
      else if status_code \<in> {401, 403} then
        [47196, 44536, 51064, 32, 49345, 53468, 32, 46608, 45716, 32, 44428, 54620, 51012, 32, 54869, 51064,
          54644, 32, 51452, 49464, 50836, 46]
      else if status_code = 404 then
        [44221, 47196, 50752, 32, 50836, 52397, 32, 45824, 49345, 51012, 32, 45796, 49884, 32, 54869, 51064,
          54644, 32, 51452, 49464, 50836, 46]
      else if 500 \<le> status_code then
        [51104, 49884, 32, 54980, 32, 45796, 49884, 32, 49884, 46020, 54644, 32, 51452, 49464, 50836, 46]
      else
        [45796, 49884, 32, 49884, 46020, 54644, 32, 51452, 49464, 50836, 46])"

definition explicit_codes :: "(string \<times> string) list" where
  "explicit_codes =
     [(''missing token'', ''AUTH_TOKEN_MISSING''),
      (''invalid token'', ''AUTH_TOKEN_INVALID''),
      (''user not found'', ''AUTH_USER_NOT_FOUND''),
      (''household membership missing'', ''HOUSEHOLD_MEMBERSHIP_MISSING''),
      (''household not found'', ''HOUSEHOLD_NOT_FOUND''),
      (''invalid credentials'', ''AUTH_INVALID_CREDENTIALS''),
      (''email already exists'', ''AUTH_EMAIL_ALREADY_EXISTS''),
      (''holding already exists'', ''HOLDING_ALREADY_EXISTS''),
      (''holding not found'', ''HOLDING_NOT_FOUND''),
      (''transaction not found'', ''TRANSACTION_NOT_FOUND''),
      (''invalid category_id'', ''CATEGORY_INVALID''),
      (''workbook not found'', ''IMPORT_WORKBOOK_NOT_FOUND''),
      (''workbook must be .xlsx'', ''IMPORT_WORKBOOK_EXTENSION_INVALID''),
      (''start_date and end_date must be provided together'', ''FILTER_DATE_RANGE_INVALID''),
      (''start_date must be <= end_date'', ''FILTER_DATE_ORDER_INVALID''),
      (''month filter requires year'', ''FILTER_MONTH_REQUIRES_YEAR''),
      (''frontend build missing'', ''FRONTEND_BUILD_MISSING''),
      (''not found'', ''RESOURCE_NOT_FOUND''),
      (''code'', ''REQUEST_VALIDATION_FAILED''),
      (''code'', ''INTERNAL_SERVER_ERROR'')]"

subsection \<open>Codes\<close>

record error_env =
  ee_str :: "json \<Rightarrow> pystr"
  ee_alnum :: "int \<Rightarrow> bool"

definition json_str :: "error_env \<Rightarrow> json \<Rightarrow> pystr" where
  "json_str ee v = (case v of JStr s \<Rightarrow> s | _ \<Rightarrow> ee_str ee v)"

text \<open>The words of a text in upper case, joined by underscores.\<close>

definition code_token :: "error_env \<Rightarrow> pystr \<Rightarrow> pystr" where
  "code_token ee normalized =
     join_with [95] (filter (\<lambda>item. item \<noteq> [])
       (split_on (\<lambda>c. c = 95) (strip_by (\<lambda>c. c = 95)
         (map (\<lambda>c. if ee_alnum ee c then c else 95) (py_upper normalized)))))"

definition http_code :: "int \<Rightarrow> pystr" where
  "http_code status_code = lit ''HTTP_'' @ int_text status_code"

definition code_from_text :: "error_env \<Rightarrow> int \<Rightarrow> pystr \<Rightarrow> pystr" where
  "code_from_text ee status_code s =
     (let normalized = py_lower (py_strip s)
      in case map_of (map (\<lambda>(k, v). (lit k, lit v)) explicit_codes) normalized of
           Some code \<Rightarrow> code
         | None \<Rightarrow> if code_token ee normalized \<noteq> [] then code_token ee normalized else http_code status_code)"

record error_payload =
  ep_code :: pystr
  ep_message :: pystr
  ep_action :: pystr
  ep_context :: "json option"

definition detail_text :: "error_env \<Rightarrow> json \<Rightarrow> pystr" where
  "detail_text ee v = (if py_truthy v then json_str ee v else [])"

definition detail_key :: "(pystr \<times> json) list \<Rightarrow> string \<Rightarrow> json" where
  "detail_key kvs k = (case map_of kvs (lit k) of Some v \<Rightarrow> v | None \<Rightarrow> JNull)"

definition normalize_http_error :: "error_env \<Rightarrow> int \<Rightarrow> json \<Rightarrow> error_payload" where
  "normalize_http_error ee status_code detail =
     (case detail of
        JObj kvs \<Rightarrow>
          (let has_error_contract = list_ex (\<lambda>k. lit k \<in> fst ` set kvs) [''code'', ''message'', ''action'', ''context''];
               or_default = (\<lambda>s dflt. if s = [] then dflt else s);
               stripped = (\<lambda>k. py_strip (detail_text ee (detail_key kvs k)))
           in \<lparr>ep_code = or_default (py_upper (stripped ''code'')) (http_code status_code),
               ep_message = or_default (stripped ''message'') (default_error_message status_code),
               ep_action = or_default (stripped ''action'') (default_error_action status_code),
               ep_context = (if detail_key kvs ''context'' \<noteq> JNull then Some (detail_key kvs ''context'')
                             else if \<not> has_error_contract \<and> kvs \<noteq> [] then Some detail else None)\<rparr>)
      | _ \<Rightarrow>
          \<lparr>ep_code = code_from_text ee status_code (py_strip (detail_text ee detail)),
           ep_message = default_error_message status_code, ep_action = default_error_action status_code,
           ep_context = None\<rparr>)"

subsection \<open>Handlers\<close>

type_synonym error_answer = "int \<times> error_payload"

definition http_exception_handler :: "error_env \<Rightarrow> int \<Rightarrow> json \<Rightarrow> error_answer" where
  "http_exception_handler ee status_code detail = (status_code, normalize_http_error ee status_code detail)"

definition validation_exception_handler :: error_answer where
  "validation_exception_handler =
     (400, \<lparr>ep_code = lit ''REQUEST_VALIDATION_FAILED'', ep_message = default_error_message 400,
            ep_action = default_error_action 400, ep_context = None\<rparr>)"

definition unhandled_exception_handler :: error_answer where
  "unhandled_exception_handler =
     (500, \<lparr>ep_code = lit ''INTERNAL_SERVER_ERROR'', ep_message = default_error_message 500,
            ep_action = default_error_action 500, ep_context = None\<rparr>)"

text \<open>
  The detail of an error of the model: \<open>app_error\<close> gives an object, which carries the texts and the context
  \<open>ctx\<close> the model leaves out; the conflict of a patch is the dump of \<open>PatchConflict\<close>.
\<close>

definition app_error_detail :: "string \<Rightarrow> pystr \<Rightarrow> pystr \<Rightarrow> (pystr \<times> json) list \<Rightarrow> json" where
  "app_error_detail code message action ctx =
     JObj ([(lit ''code'', JStr (lit code)), (lit ''message'', JStr message), (lit ''action'', JStr action)]
           @ (if ctx = [] then [] else [(lit ''context'', JObj ctx)]))"

definition conflict_detail :: "string \<Rightarrow> pystr \<Rightarrow> int \<Rightarrow> string list \<Rightarrow> json \<Rightarrow> json" where
  "conflict_detail entity_type entity_id current_version conflict_fields current_data =
     JObj [(lit ''entity_type'', JStr (lit entity_type)), (lit ''entity_id'', JStr entity_id),
           (lit ''current_version'', JInt current_version),
           (lit ''conflict_fields'', JList (map (JStr \<circ> lit) conflict_fields)), (lit ''current_data'', current_data)]"

definition answer_of ::
  "error_env \<Rightarrow> pystr \<Rightarrow> pystr \<Rightarrow> (pystr \<times> json) list \<Rightarrow> json \<Rightarrow> http_error \<Rightarrow> error_answer" where
  "answer_of ee message action ctx current_data e =
     (case e of
        AppError n code \<Rightarrow> http_exception_handler ee (int n) (app_error_detail code message action [])
      | AppErrorCtx n code _ \<Rightarrow> http_exception_handler ee (int n) (app_error_detail code message action ctx)
      | HttpDetail n detail \<Rightarrow> http_exception_handler ee (int n) (JStr (lit detail))
      | PatchConflict entity_type entity_id version conflict_fields \<Rightarrow>
          http_exception_handler ee 409 (conflict_detail entity_type entity_id version conflict_fields current_data)
      | ServerError \<Rightarrow> unhandled_exception_handler)"

subsection \<open>What every answer has\<close>

lemma http_code_not_Nil [simp]: "http_code n \<noteq> []"
  by (simp add: http_code_def lit_def)

lemma code_from_text_not_Nil: "code_from_text ee n s \<noteq> []"
proof -
  have "map_of (map (\<lambda>(k, v). (lit k, lit v)) explicit_codes) t = Some code \<Longrightarrow> code \<noteq> []" for t code
    by (auto simp: explicit_codes_def split: if_splits)
  then show ?thesis by (auto simp: code_from_text_def Let_def split: option.splits)
qed

text \<open>No error without a code.\<close>

lemma error_has_code: "ep_code (snd (answer_of ee message action ctx current_data e)) \<noteq> []"
proof -
  have "ep_code (normalize_http_error ee n detail) \<noteq> []" for n detail
    by (cases detail) (simp_all add: normalize_http_error_def Let_def code_from_text_not_Nil)
  then show ?thesis
    by (cases e) (simp_all add: answer_of_def http_exception_handler_def unhandled_exception_handler_def)
qed

lemma error_status_kept: "fst (answer_of ee message action ctx current_data e) = int (error_status e)"
  by (cases e) (simp_all add: answer_of_def http_exception_handler_def unhandled_exception_handler_def)

text \<open>The code of \<open>app_error\<close> reaches the client as it is written, when it is written in upper case.\<close>

lemma app_error_code_kept:
  assumes "py_upper (py_strip (lit code)) = lit code" "code \<noteq> []"
  shows "ep_code (snd (answer_of ee message action ctx current_data (AppError n code))) = lit code"
proof -
  have "py_strip (lit code) \<noteq> []"
  proof
    assume "py_strip (lit code) = []"
    then have "lit code = py_upper []" using assms(1) by metis
    with assms(2) show False by (simp add: py_upper_def)
  qed
  with assms show ?thesis
    by (simp add: answer_of_def http_exception_handler_def app_error_detail_def normalize_http_error_def Let_def
        detail_key_def detail_text_def json_str_def)
qed

text \<open>The client of a refused patch gets the whole conflict, under the code of the status.\<close>

lemma conflict_reaches_client:
  "ep_code (snd (answer_of ee message action ctx data (PatchConflict t i v names))) = lit ''HTTP_409''"
  "ep_context (snd (answer_of ee message action ctx data (PatchConflict t i v names)))
   = Some (conflict_detail t i v names data)"
proof -
  have "http_code 409 = lit ''HTTP_409''" by code_simp
  then show "ep_code (snd (answer_of ee message action ctx data (PatchConflict t i v names))) = lit ''HTTP_409''"
    by (simp add: answer_of_def http_exception_handler_def conflict_detail_def normalize_http_error_def Let_def
        detail_key_def detail_text_def py_strip_def strip_by_def py_upper_def)
  show "ep_context (snd (answer_of ee message action ctx data (PatchConflict t i v names)))
      = Some (conflict_detail t i v names data)"
    by (simp add: answer_of_def http_exception_handler_def conflict_detail_def normalize_http_error_def Let_def
        detail_key_def)
qed

end
