(* ===== verification/Session_Cookies.thy ===== *)
theory Session_Cookies
  imports Auth_Register
begin

text \<open>
  Cookies and debug answers: what the cookie actions of \<open>api/routes/auth.py\<close> write into a response, when a token is
  answered in the body, and the guard of \<open>api/debug_tokens.py\<close> that lets a verification token leave the server; also
  the version route of \<open>api/routes/system.py\<close>.  The encoding of tokens, \<open>urlparse\<close> and \<open>ipaddress\<close> are parameters.
\<close>

subsection \<open>Cookies\<close>

record cookie =
  co_key :: pystr
  co_value :: pystr
  co_httponly :: bool
  co_secure :: bool
  co_samesite :: pystr
  co_max_age :: "int option"

datatype cookie_change = Cookie_set cookie | Cookie_deleted pystr

record cookie_settings =
  cg_secure :: bool
  cg_samesite :: pystr

definition set_auth_cookies ::
  "auth_settings \<Rightarrow> cookie_settings \<Rightarrow> pystr \<Rightarrow> pystr \<Rightarrow> pystr \<Rightarrow> bool \<Rightarrow> cookie_change list" where
  "set_auth_cookies st cg access_token refresh_token csrf_token remember_me =
     (let minutes_age = max 60 (as_access_token_minutes st * 60);
          days_age = max 60 (as_refresh_token_days st * 24 * 60 * 60);
          cookie = (\<lambda>key value httponly age.
             Cookie_set \<lparr>co_key = key, co_value = value, co_httponly = httponly, co_secure = cg_secure cg,
                         co_samesite = cg_samesite cg, co_max_age = (if remember_me then Some age else None)\<rparr>)
      in [cookie (cf_access_cookie_name (as_config st)) access_token True minutes_age,
          cookie (as_refresh_cookie_name st) refresh_token True days_age,
          cookie (cf_csrf_cookie_name (as_config st)) csrf_token False days_age])"

definition clear_auth_cookies :: "auth_settings \<Rightarrow> cookie_change list" where
  "clear_auth_cookies st =
     [Cookie_deleted (cf_access_cookie_name (as_config st)), Cookie_deleted (as_refresh_cookie_name st),
      Cookie_deleted (cf_csrf_cookie_name (as_config st))]"

definition set_registration_continuation_cookie ::
  "cookie_settings \<Rightarrow> pystr \<Rightarrow> instant \<Rightarrow> instant \<Rightarrow> cookie_change list" where
  "set_registration_continuation_cookie cg secret now expires_at =
     [Cookie_set \<lparr>co_key = registration_continuation_cookie, co_value = secret, co_httponly = True,
                  co_secure = cg_secure cg, co_samesite = cg_samesite cg,
                  co_max_age = Some (max 60 ((expires_at - now) div 1000000))\<rparr>]"

definition clear_registration_continuation_cookie :: "cookie_change list" where
  "clear_registration_continuation_cookie = [Cookie_deleted registration_continuation_cookie]"

text \<open>What a cookie action of a handler does to the response.\<close>

fun cookie_changes ::
  "auth_settings \<Rightarrow> cookie_settings \<Rightarrow> (claims \<Rightarrow> pystr) \<Rightarrow> pystr \<Rightarrow> instant \<Rightarrow> cookie_action \<Rightarrow> cookie_change list" where
  "cookie_changes st cg encode csrf now (Set_auth_cookies access refresh remember_me) =
     set_auth_cookies st cg (encode access) (encode refresh) csrf remember_me"
| "cookie_changes st cg encode csrf now Clear_auth_cookies = clear_auth_cookies st"
| "cookie_changes st cg encode csrf now (Set_registration_continuation secret expires_at) =
     set_registration_continuation_cookie cg secret now expires_at"
| "cookie_changes st cg encode csrf now Clear_registration_continuation = clear_registration_continuation_cookie"

definition should_include_body_token :: "auth_settings \<Rightarrow> http_request option \<Rightarrow> bool" where
  "should_include_body_token st request =
     (case request of
        None \<Rightarrow> False
      | Some rq \<Rightarrow>
          py_lower (as_env st) = lit ''test''
          \<and> py_lower (Access.text_of (rq_headers rq (lit ''x-auth-token-mode'')))
            \<in> {lit ''body'', lit ''bearer'', lit ''response''})"

subsection \<open>Debug tokens\<close>

text \<open>\<open>urlparse(text).hostname\<close>, and loopback, private and link-local of an address.\<close>

record host_env =
  he_hostname :: "pystr \<Rightarrow> pystr"
  he_ip :: "pystr \<Rightarrow> (bool \<times> bool \<times> bool) option"

record debug_settings =
  dg_return_verify_token :: bool
  dg_env :: pystr
  dg_frontend_base_url :: pystr
  dg_allowed_origins :: "pystr list"

definition hostname_from_value :: "host_env \<Rightarrow> pystr option \<Rightarrow> pystr" where
  "hostname_from_value he value =
     (let s = Access.text_of value
      in if s = [] then []
         else py_lower (py_strip (he_hostname he
                (if list_ex (\<lambda>n. py_startswith (drop n s) (lit ''://'')) [0..<length s] then s else lit ''//'' @ s))))"

definition is_local_debug_host :: "host_env \<Rightarrow> pystr \<Rightarrow> bool" where
  "is_local_debug_host he hostname =
     (let host = strip_by (\<lambda>c. c = 91 \<or> c = 93) (py_lower (py_strip hostname))
      in if host = [] then True
         else if host \<in> {lit ''localhost'', lit ''testserver'', lit ''host.docker.internal''}
                 \<or> py_endswith host (lit ''.localhost'') then True
         else (case he_ip he host of
                 None \<Rightarrow> 46 \<notin> set host
               | Some (is_loopback, is_private, is_link_local) \<Rightarrow> is_loopback \<or> is_private \<or> is_link_local))"

definition debug_context_hostnames :: "host_env \<Rightarrow> debug_settings \<Rightarrow> http_request option \<Rightarrow> pystr list" where
  "debug_context_hostnames he dg request =
     filter (\<lambda>h. h \<noteq> [])
       ((case request of
           None \<Rightarrow> []
         | Some rq \<Rightarrow> map (\<lambda>name. hostname_from_value he (rq_headers rq (lit name))) [''host'', ''origin'', ''referer''])
        @ [hostname_from_value he (Some (dg_frontend_base_url dg))]
        @ map (\<lambda>origin. hostname_from_value he (Some origin)) (dg_allowed_origins dg))"

definition is_debug_token_opted_in :: "http_request option \<Rightarrow> bool" where
  "is_debug_token_opted_in request =
     (case request of
        None \<Rightarrow> False
      | Some rq \<Rightarrow> py_lower (Access.text_of (rq_headers rq (lit ''x-debug-token-opt-in'')))
                 \<in> {lit ''1'', lit ''true'', lit ''yes'', lit ''y'', lit ''on''})"

definition debug_token_response_enabled :: "host_env \<Rightarrow> debug_settings \<Rightarrow> http_request option \<Rightarrow> bool" where
  "debug_token_response_enabled he dg request =
     (if \<not> dg_return_verify_token dg then False
      else if py_lower (py_strip (dg_env dg)) \<notin> {lit ''test'', lit ''local''} then False
      else if \<not> is_debug_token_opted_in request then False
      else list_all (is_local_debug_host he) (debug_context_hostnames he dg request))"

definition maybe_debug_verification_token ::
  "host_env \<Rightarrow> debug_settings \<Rightarrow> pystr \<Rightarrow> http_request option \<Rightarrow> pystr option" where
  "maybe_debug_verification_token he dg token request =
     (if debug_token_response_enabled he dg request then Some token else None)"

subsection \<open>The version of the client\<close>

definition normalize_client_version :: "pystr \<Rightarrow> pystr" where
  "normalize_client_version value =
     (let s = py_strip value; t = (if py_startswith s (lit ''v'') then drop 1 s else s)
      in if t = [] then lit ''0.0.0'' else t)"

subsection \<open>What the guards promise\<close>

text \<open>Scripts never read the session: only the CSRF cookie is open to them, and logging out deletes all that logging in set.\<close>

lemma session_cookies_closed:
  assumes "Cookie_set c \<in> set (set_auth_cookies st cg a r csrf remember)"
  shows "Cookie_deleted (co_key c) \<in> set (clear_auth_cookies st)"
    and "co_httponly c \<or> (co_key c = cf_csrf_cookie_name (as_config st) \<and> co_value c = csrf)"
    and "co_max_age c = None \<longleftrightarrow> \<not> remember"
  using assms by (auto simp: set_auth_cookies_def clear_auth_cookies_def Let_def)

text \<open>
  A token leaves only in a test or local environment, to a client that asks for it, with every host of the request and
  of the settings local: a name with a dot that is no local address keeps it in.
\<close>

lemma debug_token_stays_local:
  assumes "maybe_debug_verification_token he dg token request = Some t"
  shows "t = token \<and> dg_return_verify_token dg \<and> py_lower (py_strip (dg_env dg)) \<in> {lit ''test'', lit ''local''}
    \<and> is_debug_token_opted_in request
    \<and> list_all (is_local_debug_host he) (debug_context_hostnames he dg request)"
  using assms by (simp add: maybe_debug_verification_token_def debug_token_response_enabled_def split: if_splits)

lemma public_name_is_not_local:
  assumes "py_lower (py_strip h) = h" "strip_by (\<lambda>c. c = 91 \<or> c = 93) h = h" "46 \<in> set h" "he_ip he h = None"
    "h \<noteq> lit ''host.docker.internal''" "\<not> py_endswith h (lit ''.localhost'')"
  shows "\<not> is_local_debug_host he h"
proof -
  have "46 \<notin> set (lit ''localhost'')" "46 \<notin> set (lit ''testserver'')" by (simp_all add: lit_def)
  then have "h \<noteq> []" "h \<noteq> lit ''localhost''" "h \<noteq> lit ''testserver''" using assms(3) by auto
  then show ?thesis unfolding is_local_debug_host_def assms(1,2) Let_def using assms(3-6) by simp
qed

end
