(* ===== verification/Runtime_Settings.thy ===== *)
theory Runtime_Settings
  imports Workbook
begin

text \<open>
  The settings of a process, \<open>backend/app/core/config.py\<close>: the fields its validator reads and the validator, which
  normalises them or refuses to start.  \<open>urlparse\<close> and the addresses of the machine are parameters; the fields no
  check reads are left out.
\<close>

subsection \<open>Fields\<close>

record settings =
  se_env :: pystr
  se_secret_key :: pystr
  se_auth_csrf_cookie_name :: pystr
  se_auth_csrf_header_name :: pystr
  se_auth_cookie_samesite :: pystr
  se_auth_cookie_secure :: bool
  se_forwarded_allow_ips :: pystr
  se_cors_origins :: pystr
  se_database_url :: pystr
  se_auth_email_verification_required :: bool
  se_auth_debug_return_verify_token :: bool
  se_ws_membership_recheck_seconds :: rat
  se_frontend_base_url :: pystr
  se_email_delivery_mode :: pystr
  se_smtp_host :: pystr
  se_smtp_port :: int
  se_smtp_user :: pystr
  se_smtp_pass :: pystr
  se_smtp_starttls :: bool
  se_smtp_ssl :: bool
  se_smtp_from_email :: pystr
  se_smtp_account_label :: pystr

text \<open>\<open>urlparse\<close>: scheme, network location and host name; the addresses \<open>_get_local_ips\<close> finds.\<close>

record settings_env =
  sv_scheme :: "pystr \<Rightarrow> pystr"
  sv_netloc :: "pystr \<Rightarrow> pystr"
  sv_hostname :: "pystr \<Rightarrow> pystr"
  sv_local_ips :: "pystr list"

definition comma_items :: "pystr \<Rightarrow> pystr list" where
  "comma_items s = filter (\<lambda>item. item \<noteq> []) (map py_strip (split_on (\<lambda>c. c = 44) s))"

definition allowed_origins :: "settings \<Rightarrow> pystr list" where
  "allowed_origins s = comma_items (se_cors_origins s)"

definition is_strict_email_environment :: "settings \<Rightarrow> bool" where
  "is_strict_email_environment s \<longleftrightarrow> py_lower (py_strip (se_env s)) \<notin> {lit ''local'', lit ''test''}"

definition blocks_email_delivery_failures :: "settings \<Rightarrow> bool" where
  "blocks_email_delivery_failures s \<longleftrightarrow> is_strict_email_environment s \<or> se_email_delivery_mode s = lit ''smtp''"

definition settings_origin :: "settings_env \<Rightarrow> pystr \<Rightarrow> pystr" where
  "settings_origin sv value =
     (let s = py_strip value
      in if s = [] \<or> sv_scheme sv s = [] \<or> sv_netloc sv s = [] then []
         else py_lower (sv_scheme sv s) @ lit ''://'' @ py_lower (sv_netloc sv s))"

subsection \<open>The validator\<close>

definition insecure_default_secret_key :: pystr where
  "insecure_default_secret_key = lit ''change-this-secret-key-please-at-least-32-bytes''"

definition weak_markers :: "pystr list" where
  "weak_markers = [lit ''replace-this-secret-key'', lit ''change-this-secret'', lit ''change-this-to-a-random-secret'',
                   lit ''change_me'', lit ''your-secret'']"

definition secret_key_strong :: "pystr \<Rightarrow> bool" where
  "secret_key_strong key \<longleftrightarrow>
     32 \<le> length key \<and> py_lower key \<noteq> insecure_default_secret_key \<and> \<not> contains_any weak_markers (py_lower key)"

text \<open>\<open>None\<close> is a \<open>ValueError\<close>: the process does not start.\<close>

definition check_secret :: "settings \<Rightarrow> settings option" where
  "check_secret s =
     (if length (se_secret_key s) < 32 \<or> \<not> secret_key_strong (py_strip (se_secret_key s)) then None
      else Some (s\<lparr>se_secret_key := py_strip (se_secret_key s)\<rparr>))"

definition check_cookies :: "settings \<Rightarrow> settings option" where
  "check_cookies s =
     (let samesite = py_lower (py_strip (se_auth_cookie_samesite s));
          csrf_header = py_lower (py_strip (se_auth_csrf_header_name s));
          csrf_cookie = py_strip (se_auth_csrf_cookie_name s)
      in if samesite \<notin> {lit ''lax'', lit ''strict'', lit ''none''}
            \<or> (samesite = lit ''none'' \<and> \<not> se_auth_cookie_secure s) \<or> csrf_header = [] \<or> csrf_cookie = [] then None
         else Some (s\<lparr>se_auth_cookie_samesite := samesite, se_auth_csrf_header_name := csrf_header,
                      se_auth_csrf_cookie_name := csrf_cookie,
                      se_env := (let e = py_lower (py_strip (se_env s)) in if e = [] then lit ''local'' else e)\<rparr>))"

text \<open>\<open>mode_was_supplied\<close> says that the delivery mode was given and is no default.\<close>

definition check_email_mode :: "bool \<Rightarrow> settings \<Rightarrow> settings option" where
  "check_email_mode mode_was_supplied s =
     (let mode = py_lower (py_strip (se_email_delivery_mode s)); strict = is_strict_email_environment s
      in if mode \<notin> {lit ''log'', lit ''smtp''} \<or> (strict \<and> mode_was_supplied \<and> mode \<noteq> lit ''smtp'')
            \<or> (strict \<and> \<not> se_auth_email_verification_required s) \<or> (strict \<and> se_auth_debug_return_verify_token s) then None
         else Some (s\<lparr>se_email_delivery_mode := (if strict then lit ''smtp'' else mode)\<rparr>))"

definition check_smtp :: "settings \<Rightarrow> settings option" where
  "check_smtp s =
     (if se_email_delivery_mode s \<noteq> lit ''smtp'' then Some s
      else if py_strip (se_smtp_host s) = [] \<or> py_strip (se_smtp_from_email s) = []
              \<or> py_strip (se_smtp_account_label s) = [] \<or> se_smtp_port s \<le> 0 \<or> 65535 < se_smtp_port s
              \<or> (se_smtp_ssl s \<and> se_smtp_starttls s)
              \<or> (is_strict_email_environment s \<and> (py_strip (se_smtp_user s) \<noteq> [] \<or> py_strip (se_smtp_pass s) \<noteq> [])
                 \<and> \<not> se_smtp_ssl s \<and> \<not> se_smtp_starttls s) then None
      else Some (s\<lparr>se_smtp_host := py_strip (se_smtp_host s), se_smtp_from_email := py_strip (se_smtp_from_email s),
                   se_smtp_account_label := py_strip (se_smtp_account_label s)\<rparr>))"

definition is_production :: "settings \<Rightarrow> bool" where
  "is_production s \<longleftrightarrow> se_env s \<in> {lit ''prod'', lit ''production''}"

definition add_missing :: "'a list \<Rightarrow> 'a list \<Rightarrow> 'a list" where
  "add_missing news xs = fold (\<lambda>x acc. if x \<in> set acc then acc else acc @ [x]) news xs"

definition check_origins :: "settings_env \<Rightarrow> settings \<Rightarrow> (pystr list \<times> settings) option" where
  "check_origins sv s =
     (let given = map (settings_origin sv) (allowed_origins s);
          prod = is_production s;
          origins = (if prod then given
                     else add_missing (map (\<lambda>ip. lit ''http://'' @ ip @ lit '':5173'') (sv_local_ips sv)) given);
          allow_ips = (if prod then comma_items (se_forwarded_allow_ips s)
                       else add_missing (sv_local_ips sv) (comma_items (se_forwarded_allow_ips s)));
          frontend_origin = settings_origin sv (se_frontend_base_url s);
          forwarded = join_with [44] (comma_items (join_with [44] allow_ips))
      in if origins = [] \<or> [] \<in> set origins \<or> frontend_origin = [] \<or> forwarded = [] then None
         else Some (origins, s\<lparr>se_cors_origins := join_with [44] origins, se_frontend_base_url := frontend_origin,
                               se_forwarded_allow_ips := forwarded\<rparr>))"

definition overly_broad_ranges :: "pystr list" where
  "overly_broad_ranges = map lit [''0.0.0.0'', ''0.0.0.0/0'', ''0/0'', ''::'', ''::/0'', ''10.0.0.0/8'', ''172.16.0.0/12'',
                                  ''192.168.0.0/16'', ''fc00::/7'']"

definition production_ok :: "settings_env \<Rightarrow> pystr list \<Rightarrow> settings \<Rightarrow> bool" where
  "production_ok sv origins s \<longleftrightarrow>
     (let url = py_lower (py_strip (se_database_url s));
          entries = map py_lower (comma_items (se_forwarded_allow_ips s))
      in url \<noteq> [] \<and> \<not> py_startswith url (lit ''sqlite'') \<and> py_startswith url (lit ''postgresql'')
         \<and> \<not> se_auth_debug_return_verify_token s \<and> se_auth_cookie_secure s
         \<and> lit ''*'' \<notin> set entries \<and> \<not> list_ex (\<lambda>e. e \<in> set overly_broad_ranges) entries
         \<and> se_email_delivery_mode s \<noteq> lit ''log'' \<and> se_frontend_base_url s \<in> set origins
         \<and> list_all (\<lambda>origin. py_lower (sv_hostname sv origin) \<notin> {lit ''localhost'', lit ''127.0.0.1''}
                              \<and> sv_scheme sv origin = lit ''https'') origins
         \<and> sv_scheme sv (se_frontend_base_url s) = lit ''https'')"

definition validate_settings :: "settings_env \<Rightarrow> bool \<Rightarrow> settings \<Rightarrow> settings option" where
  "validate_settings sv mode_was_supplied s =
     (case Option.bind (Option.bind (Option.bind (Option.bind (check_secret s) check_cookies)
             (check_email_mode mode_was_supplied)) check_smtp) (check_origins sv) of
        None \<Rightarrow> None
      | Some (origins, s') \<Rightarrow>
          if (is_production s' \<and> \<not> production_ok sv origins s') \<or> se_ws_membership_recheck_seconds s' \<le> 0 then None
          else Some (s'\<lparr>se_ws_membership_recheck_seconds := max (1 / 5) (se_ws_membership_recheck_seconds s')\<rparr>))"

subsection \<open>What a running process may rely on\<close>

lemma settings_accepted:
  assumes "validate_settings sv supplied s = Some s'"
  shows "secret_key_strong (se_secret_key s')"
    and "se_auth_cookie_samesite s' = lit ''none'' \<Longrightarrow> se_auth_cookie_secure s'"
    and "se_auth_csrf_header_name s' \<noteq> []" and "se_auth_csrf_cookie_name s' \<noteq> []"
    and "1 / 5 \<le> se_ws_membership_recheck_seconds s'"
    and "is_strict_email_environment s' \<Longrightarrow> se_email_delivery_mode s' = lit ''smtp'' \<and> se_smtp_host s' \<noteq> []
           \<and> se_auth_email_verification_required s' \<and> \<not> se_auth_debug_return_verify_token s'"
proof -
  from assms obtain s1 s2 s3 s4 s5 origins where
    1: "check_secret s = Some s1" and 2: "check_cookies s1 = Some s2" and 3: "check_email_mode supplied s2 = Some s3"
    and 4: "check_smtp s3 = Some s4" and 5: "check_origins sv s4 = Some (origins, s5)"
    and s': "s' = s5\<lparr>se_ws_membership_recheck_seconds := max (1 / 5) (se_ws_membership_recheck_seconds s5)\<rparr>"
    by (auto simp: validate_settings_def bind_eq_Some_conv split: option.splits if_splits)
  have e1: "s1 = s\<lparr>se_secret_key := py_strip (se_secret_key s)\<rparr>" "secret_key_strong (py_strip (se_secret_key s))"
    using 1 by (auto simp: check_secret_def split: if_splits)
  have keep4: "se_secret_key s4 = se_secret_key s3" "se_auth_cookie_samesite s4 = se_auth_cookie_samesite s3"
    "se_auth_cookie_secure s4 = se_auth_cookie_secure s3" "se_auth_csrf_header_name s4 = se_auth_csrf_header_name s3"
    "se_auth_csrf_cookie_name s4 = se_auth_csrf_cookie_name s3" "se_env s4 = se_env s3"
    "se_email_delivery_mode s4 = se_email_delivery_mode s3"
    "se_auth_email_verification_required s4 = se_auth_email_verification_required s3"
    "se_auth_debug_return_verify_token s4 = se_auth_debug_return_verify_token s3"
    "se_email_delivery_mode s3 = lit ''smtp'' \<Longrightarrow> se_smtp_host s4 \<noteq> []"
    using 4 by (auto simp: check_smtp_def split: if_splits)
  have keep5: "se_secret_key s5 = se_secret_key s4" "se_auth_cookie_samesite s5 = se_auth_cookie_samesite s4"
    "se_auth_cookie_secure s5 = se_auth_cookie_secure s4" "se_auth_csrf_header_name s5 = se_auth_csrf_header_name s4"
    "se_auth_csrf_cookie_name s5 = se_auth_csrf_cookie_name s4" "se_env s5 = se_env s4"
    "se_email_delivery_mode s5 = se_email_delivery_mode s4" "se_smtp_host s5 = se_smtp_host s4"
    "se_auth_email_verification_required s5 = se_auth_email_verification_required s4"
    "se_auth_debug_return_verify_token s5 = se_auth_debug_return_verify_token s4"
    using 5 by (auto simp: check_origins_def Let_def split: if_splits)
  have keep3: "se_secret_key s3 = se_secret_key s2" "se_auth_cookie_samesite s3 = se_auth_cookie_samesite s2"
    "se_auth_cookie_secure s3 = se_auth_cookie_secure s2" "se_auth_csrf_header_name s3 = se_auth_csrf_header_name s2"
    "se_auth_csrf_cookie_name s3 = se_auth_csrf_cookie_name s2" "se_env s3 = se_env s2"
    "is_strict_email_environment s2 \<Longrightarrow> se_email_delivery_mode s3 = lit ''smtp''
       \<and> se_auth_email_verification_required s3 \<and> \<not> se_auth_debug_return_verify_token s3"
    using 3 by (auto simp: check_email_mode_def Let_def split: if_splits)
  have e2: "se_secret_key s2 = se_secret_key s1" "se_auth_csrf_header_name s2 \<noteq> []" "se_auth_csrf_cookie_name s2 \<noteq> []"
    "se_auth_cookie_samesite s2 = lit ''none'' \<Longrightarrow> se_auth_cookie_secure s2"
    using 2 by (auto simp: check_cookies_def Let_def split: if_splits)
  show "secret_key_strong (se_secret_key s')" using e1 by (simp add: s' keep5 keep4 keep3 e2)
  show "se_auth_cookie_samesite s' = lit ''none'' \<Longrightarrow> se_auth_cookie_secure s'"
    using e2(4) by (simp add: s' keep5 keep4 keep3)
  show "se_auth_csrf_header_name s' \<noteq> []" "se_auth_csrf_cookie_name s' \<noteq> []"
    using e2(2,3) by (simp_all add: s' keep5 keep4 keep3)
  show "1 / 5 \<le> se_ws_membership_recheck_seconds s'" by (simp add: s')
  show "is_strict_email_environment s' \<Longrightarrow> se_email_delivery_mode s' = lit ''smtp'' \<and> se_smtp_host s' \<noteq> []
      \<and> se_auth_email_verification_required s' \<and> \<not> se_auth_debug_return_verify_token s'"
    using keep3(7) keep4(10) by (simp add: is_strict_email_environment_def s' keep5 keep4(1-9) keep3(6))
qed

text \<open>
  A process of the production environment sends its cookies over TLS only, never answers with a verification token,
  stores in PostgreSQL, trusts no wildcard or global range of proxies and admits https origins only, its own among them.
\<close>

lemma production_settings_safe:
  assumes "validate_settings sv supplied s = Some s'" "is_production s'"
  shows "se_auth_cookie_secure s' \<and> \<not> se_auth_debug_return_verify_token s'
    \<and> py_startswith (py_lower (py_strip (se_database_url s'))) (lit ''postgresql'')
    \<and> lit ''*'' \<notin> set (map py_lower (comma_items (se_forwarded_allow_ips s')))
    \<and> (\<exists>origins. se_cors_origins s' = join_with [44] origins \<and> se_frontend_base_url s' \<in> set origins
         \<and> list_all (\<lambda>origin. sv_scheme sv origin = lit ''https'') origins)"
proof -
  from assms obtain s4 s5 origins where 5: "check_origins sv s4 = Some (origins, s5)"
    and s': "s' = s5\<lparr>se_ws_membership_recheck_seconds := max (1 / 5) (se_ws_membership_recheck_seconds s5)\<rparr>"
    and ok: "is_production s5 \<longrightarrow> production_ok sv origins s5"
    by (auto simp: validate_settings_def split: option.splits if_splits prod.splits bind_splits)
  have "se_cors_origins s5 = join_with [44] origins"
    using 5 by (auto simp: check_origins_def Let_def split: if_splits)
  moreover have "production_ok sv origins s5" using ok assms(2) by (auto simp: s' is_production_def)
  ultimately show ?thesis
    by (auto simp: s' production_ok_def Let_def list_all_iff intro!: exI [of _ origins])
qed

end
