(* ===== verification/Job_Specs.thy ===== *)
theory Job_Specs
  imports Number_Text "HOL-Library.AList" "HOL-Library.Multiset"
begin

text \<open>
  The end-to-end test scheduler (\<open>scripts/e2e_scheduler\<close>), from what Playwright lists to the jobs
  of a run: \<open>discovery_parser.py\<close>, \<open>project_profiles.py\<close>, \<open>model.py\<close>, \<open>history.py\<close>,
  \<open>resource_locks.py\<close> and \<open>job_builder.py\<close>.  Seconds are rationals, so sums and medians are
  exact; a path is the list of its parts in POSIX form; the resolution of a file against the
  repository, SHA-256 and the group of a test are parameters.
\<close>

subsection \<open>Projects, tests, jobs\<close>

type_synonym path = "pystr list"

definition as_posix :: "path \<Rightarrow> pystr" where
  "as_posix p = (case p of [] \<Rightarrow> lit ''.''
     | r # rest \<Rightarrow> (if r = lit ''/'' then r @ join_with (lit ''/'') rest else join_with (lit ''/'') p))"

datatype scheduler_error =
    Unknown_project_profile pystr
  | Unknown_project pystr
  | Empty_discovery
  | Spec_path_outside_repository path
  | Duplicate_discovered_test pystr
  | Unassigned_logical_group pystr
  | Duplicate_test_selector pystr
  | Discovered_test_identity pystr
  | Spec_path_outside_test_directory path
  | Manifest_project_profile pystr
  | Manifest_job_metadata pystr string
  | Manifest_test_coverage "pystr list" "pystr list" "pystr list"
  | Invalid_resource_lock_declaration string
  | Unknown_resource_lock pystr
  | Invalid_duration pystr rat
  | Invalid_boundary_duration pystr rat
  | Duration_history_format string

record project_profile =
  pf_name :: pystr
  pf_browser :: pystr
  pf_viewport :: "(int \<times> int) option"

definition project_profiles :: "project_profile list" where
  "project_profiles =
     [\<lparr>pf_name = lit ''desktop-chromium'', pf_browser = lit ''chromium'', pf_viewport = Some (1280, 720)\<rparr>,
      \<lparr>pf_name = lit ''tablet-chromium'', pf_browser = lit ''chromium'', pf_viewport = Some (834, 1194)\<rparr>,
      \<lparr>pf_name = lit ''mobile-chromium'', pf_browser = lit ''chromium'', pf_viewport = Some (393, 727)\<rparr>,
      \<lparr>pf_name = lit ''matrix-chromium'', pf_browser = lit ''chromium'', pf_viewport = Some (1280, 720)\<rparr>,
      \<lparr>pf_name = lit ''matrix-firefox'', pf_browser = lit ''firefox'', pf_viewport = Some (1280, 720)\<rparr>,
      \<lparr>pf_name = lit ''matrix-webkit'', pf_browser = lit ''webkit'', pf_viewport = Some (1280, 720)\<rparr>]"

definition profile_of :: "pystr \<Rightarrow> scheduler_error + project_profile" where
  "profile_of project = (case find (\<lambda>p. pf_name p = project) project_profiles of
     Some p \<Rightarrow> Inr p | None \<Rightarrow> Inl (Unknown_project_profile project))"

record discovered_test =
  dt_test_id :: pystr
  dt_project :: pystr
  dt_spec_path :: path
  dt_line :: int
  dt_title_path :: "pystr list"
  dt_browser :: pystr
  dt_viewport :: "(int \<times> int) option"
  dt_estimated_seconds :: rat

record job_spec =
  js_job_id :: pystr
  js_project :: pystr
  js_spec_path :: path
  js_logical_group :: pystr
  js_tests :: "discovered_test list"
  js_locks :: "pystr set"
  js_estimated_seconds :: rat

record run_manifest =
  rm_run_id :: pystr
  rm_tests :: "discovered_test list"
  rm_jobs :: "job_spec list"
  rm_playwright_args :: "pystr list"
  rm_benchmark_invocation_id :: "pystr option"
  rm_benchmark_label :: "pystr option"

subsection \<open>What Playwright lists\<close>

record spec_input =
  si_title :: pystr
  si_file :: pystr
  si_line :: int
  si_projects :: "pystr list"

datatype suite = Suite (su_title: pystr) (su_specs: "spec_input list") (su_suites: "suite list")

definition title_separator :: pystr where
  "title_separator = [32, 8250, 32]"

definition canonical_test_id :: "pystr \<Rightarrow> path \<Rightarrow> int \<Rightarrow> pystr list \<Rightarrow> pystr" where
  "canonical_test_id project spec_path line title_path =
     project @ lit ''::'' @ as_posix spec_path @ lit '':'' @ int_text line @ lit ''::'' @ join_with title_separator title_path"

definition test_sort_key :: "discovered_test \<Rightarrow> pystr \<times> pystr \<times> int \<times> pystr list" where
  "test_sort_key t = (dt_project t, as_posix (dt_spec_path t), dt_line t, dt_title_path t)"

fun collect_projects ::
  "project_profile list \<Rightarrow> path \<Rightarrow> int \<Rightarrow> pystr list \<Rightarrow> pystr list \<Rightarrow> scheduler_error + discovered_test list" where
  "collect_projects profiles spec_path line title_path [] = Inr []"
| "collect_projects profiles spec_path line title_path (name # names) =
     (case find (\<lambda>p. pf_name p = name) (rev profiles) of
        None \<Rightarrow> Inl (Unknown_project name)
      | Some p \<Rightarrow>
          (case collect_projects profiles spec_path line title_path names of
             Inl e \<Rightarrow> Inl e
           | Inr rest \<Rightarrow>
               Inr (\<lparr>dt_test_id = canonical_test_id (pf_name p) spec_path line title_path, dt_project = pf_name p,
                     dt_spec_path = spec_path, dt_line = line, dt_title_path = title_path,
                     dt_browser = pf_browser p, dt_viewport = pf_viewport p, dt_estimated_seconds = 30\<rparr> # rest)))"

fun collect_specs ::
  "(pystr \<Rightarrow> scheduler_error + path) \<Rightarrow> project_profile list \<Rightarrow> pystr list \<Rightarrow> spec_input list
   \<Rightarrow> scheduler_error + discovered_test list" where
  "collect_specs relative profiles titles [] = Inr []"
| "collect_specs relative profiles titles (spec # specs) =
     (case relative (si_file spec) of
        Inl e \<Rightarrow> Inl e
      | Inr spec_path \<Rightarrow>
          (case collect_projects profiles spec_path (si_line spec) (titles @ [si_title spec]) (si_projects spec) of
             Inl e \<Rightarrow> Inl e
           | Inr own \<Rightarrow>
               (case collect_specs relative profiles titles specs of
                  Inl e \<Rightarrow> Inl e
                | Inr rest \<Rightarrow> Inr (own @ rest))))"

fun collect_suite_tests ::
    "(pystr \<Rightarrow> scheduler_error + path) \<Rightarrow> project_profile list \<Rightarrow> pystr list \<Rightarrow> bool \<Rightarrow> suite
     \<Rightarrow> scheduler_error + discovered_test list"
  and collect_suites ::
    "(pystr \<Rightarrow> scheduler_error + path) \<Rightarrow> project_profile list \<Rightarrow> pystr list \<Rightarrow> bool \<Rightarrow> suite list
     \<Rightarrow> scheduler_error + discovered_test list" where
  "collect_suite_tests relative profiles parent_titles include_suite_title (Suite title specs suites) =
     (let titles = parent_titles @ (if include_suite_title then [title] else [])
      in case collect_specs relative profiles titles specs of
           Inl e \<Rightarrow> Inl e
         | Inr own \<Rightarrow>
             (case collect_suites relative profiles titles True suites of
                Inl e \<Rightarrow> Inl e
              | Inr rest \<Rightarrow> Inr (own @ rest)))"
| "collect_suites relative profiles parent_titles include_suite_title [] = Inr []"
| "collect_suites relative profiles parent_titles include_suite_title (suite # suites) =
     (case collect_suite_tests relative profiles parent_titles include_suite_title suite of
        Inl e \<Rightarrow> Inl e
      | Inr own \<Rightarrow>
          (case collect_suites relative profiles parent_titles include_suite_title suites of
             Inl e \<Rightarrow> Inl e
           | Inr rest \<Rightarrow> Inr (own @ rest)))"

fun first_error :: "('a \<Rightarrow> 'e option) \<Rightarrow> 'a list \<Rightarrow> 'e option" where
  "first_error f [] = None"
| "first_error f (x # xs) = (case f x of Some e \<Rightarrow> Some e | None \<Rightarrow> first_error f xs)"

text \<open>The first identifier that was seen before.\<close>

fun repeated :: "pystr set \<Rightarrow> pystr list \<Rightarrow> pystr option" where
  "repeated seen [] = None"
| "repeated seen (x # xs) = (if x \<in> seen then Some x else repeated (insert x seen) xs)"

definition discover_tests ::
  "(pystr \<Rightarrow> scheduler_error + path) \<Rightarrow> project_profile list \<Rightarrow> pystr list \<Rightarrow> suite list
   \<Rightarrow> scheduler_error + discovered_test list" where
  "discover_tests relative profiles configured suites =
     (case first_error (\<lambda>name. if name \<in> pf_name ` set profiles then None else Some (Unknown_project name)) configured of
        Some e \<Rightarrow> Inl e
      | None \<Rightarrow>
          (case collect_suites relative profiles [] False suites of
             Inl e \<Rightarrow> Inl e
           | Inr discovered \<Rightarrow>
               (if discovered = [] then Inl Empty_discovery
                else case repeated {} (map dt_test_id discovered) of
                       Some i \<Rightarrow> Inl (Duplicate_discovered_test i)
                     | None \<Rightarrow> Inr (sort_key test_sort_key discovered))))"

subsection \<open>The manifest of a run\<close>

definition check_test_profile :: "discovered_test \<Rightarrow> scheduler_error option" where
  "check_test_profile t =
     (case profile_of (dt_project t) of
        Inl e \<Rightarrow> Some e
      | Inr p \<Rightarrow> (if (dt_browser t, dt_viewport t) \<noteq> (pf_browser p, pf_viewport p)
                  then Some (Manifest_project_profile (dt_test_id t)) else None))"

definition check_job_metadata :: "job_spec \<Rightarrow> scheduler_error option" where
  "check_job_metadata j =
     (if list_ex (\<lambda>t. dt_project t \<noteq> js_project j) (js_tests j)
      then Some (Manifest_job_metadata (js_job_id j) ''assigned test project differs from job project'')
      else if list_ex (\<lambda>t. dt_spec_path t \<noteq> js_spec_path j) (js_tests j)
      then Some (Manifest_job_metadata (js_job_id j) ''assigned test spec differs from job spec'')
      else None)"

definition check_coverage :: "discovered_test list \<Rightarrow> job_spec list \<Rightarrow> scheduler_error option" where
  "check_coverage tests jobs =
     (let expected = map dt_test_id tests;
          assigned = map dt_test_id (concat (map js_tests jobs));
          missing = sort (filter (\<lambda>i. count_list assigned i = 0) (dedup expected));
          duplicates = sort (filter (\<lambda>i. 1 < count_list expected i \<or> 1 < count_list assigned i) (dedup (expected @ assigned)));
          foreign = sort (filter (\<lambda>i. i \<notin> set expected) (dedup assigned))
      in if missing \<noteq> [] \<or> duplicates \<noteq> [] \<or> foreign \<noteq> []
         then Some (Manifest_test_coverage missing duplicates foreign) else None)"

definition check_manifest :: "run_manifest \<Rightarrow> scheduler_error option" where
  "check_manifest m =
     (case first_error check_test_profile (rm_tests m) of
        Some e \<Rightarrow> Some e
      | None \<Rightarrow>
          (case first_error check_job_metadata (rm_jobs m) of
             Some e \<Rightarrow> Some e
           | None \<Rightarrow> check_coverage (rm_tests m) (rm_jobs m)))"

definition expected_projects :: "run_manifest \<Rightarrow> pystr set" where
  "expected_projects m = dt_project ` set (rm_tests m)"

definition expected_test_ids :: "run_manifest \<Rightarrow> pystr set" where
  "expected_test_ids m = dt_test_id ` set (rm_tests m)"

subsection \<open>Measured durations\<close>

record duration_record =
  du_test_id :: pystr
  du_spec_path :: path
  du_seconds :: rat
  du_samples :: "rat list"

record browser_overhead_record =
  bo_browser :: pystr
  bo_samples :: "rat list"

record duration_result =
  dr_test_id :: pystr
  dr_spec_path :: path
  dr_seconds :: rat
  dr_complete :: bool
  dr_browser :: "pystr option"
  dr_job_boundary_seconds :: "rat option"

record duration_history =
  hs_records :: "duration_record list"
  hs_browser_overheads :: "browser_overhead_record list"
  hs_version :: int

definition median :: "rat list \<Rightarrow> rat" where
  "median xs =
     (let s = sort xs; n = length xs
      in if odd n then s ! (n div 2) else (s ! (n div 2 - 1) + s ! (n div 2)) / 2)"

definition default_estimated_seconds :: rat where
  "default_estimated_seconds = 30"

definition estimate :: "duration_history \<Rightarrow> pystr \<Rightarrow> path \<Rightarrow> rat" where
  "estimate h test_id spec_path =
     (case find (\<lambda>r. du_test_id r = test_id) (hs_records h) of
        Some r \<Rightarrow> du_seconds r
      | None \<Rightarrow>
          (let spec_durations = map du_seconds (filter (\<lambda>r. du_spec_path r = spec_path) (hs_records h))
           in if spec_durations \<noteq> [] then median spec_durations else default_estimated_seconds))"

definition browser_overhead :: "duration_history \<Rightarrow> pystr \<Rightarrow> rat" where
  "browser_overhead h browser =
     (let samples = (case find (\<lambda>r. bo_browser r = browser) (hs_browser_overheads h) of
                       Some r \<Rightarrow> bo_samples r | None \<Rightarrow> [])
      in if samples \<noteq> [] then median samples else 0)"

definition sample_limit :: nat where
  "sample_limit = 5"

definition append_sample :: "rat list \<Rightarrow> rat \<Rightarrow> rat list" where
  "append_sample samples v = (let s = samples @ [v] in drop (length s - sample_limit) s)"

definition verify_unique :: "duration_history \<Rightarrow> scheduler_error option" where
  "verify_unique h =
     (if \<not> distinct (map du_test_id (hs_records h)) then Some (Duration_history_format ''duplicate test_id'')
      else if \<not> distinct (map bo_browser (hs_browser_overheads h)) then Some (Duration_history_format ''duplicate browser'')
      else None)"

text \<open>The two dictionaries of \<open>with_results\<close>: records by test, values of this run by browser.\<close>

fun merge_results ::
  "int \<Rightarrow> duration_result list \<Rightarrow> (pystr \<times> duration_record) list \<Rightarrow> (pystr \<times> rat list) list
   \<Rightarrow> scheduler_error + ((pystr \<times> duration_record) list \<times> (pystr \<times> rat list) list)" where
  "merge_results version [] merged overheads = Inr (merged, overheads)"
| "merge_results version (r # rs) merged overheads =
     (if dr_seconds r \<le> 0 then Inl (Invalid_duration (dr_test_id r) (dr_seconds r))
      else
        let previous_samples = (case map_of merged (dr_test_id r) of
                                  Some p \<Rightarrow> (if version = 2 then du_samples p else []) | None \<Rightarrow> []);
            samples = append_sample previous_samples (dr_seconds r);
            merged = AList.update (dr_test_id r)
                       \<lparr>du_test_id = dr_test_id r, du_spec_path = dr_spec_path r, du_seconds = median samples,
                        du_samples = samples\<rparr> merged
        in case dr_job_boundary_seconds r of
             None \<Rightarrow> merge_results version rs merged overheads
           | Some boundary \<Rightarrow>
               (let browser = (case dr_browser r of Some b \<Rightarrow> (if b \<noteq> [] then b else lit ''unknown'') | None \<Rightarrow> lit ''unknown'')
                in if boundary < 0 then Inl (Invalid_boundary_duration browser boundary)
                   else merge_results version rs merged
                          (AList.update browser
                             ((case map_of overheads browser of Some vs \<Rightarrow> vs | None \<Rightarrow> []) @ [boundary]) overheads)))"

definition merge_overhead ::
  "(pystr \<times> rat list) \<Rightarrow> (pystr \<times> browser_overhead_record) list \<Rightarrow> (pystr \<times> browser_overhead_record) list" where
  "merge_overhead bv overheads =
     (let previous = (case map_of overheads (fst bv) of Some r \<Rightarrow> bo_samples r | None \<Rightarrow> [])
      in AList.update (fst bv)
           \<lparr>bo_browser = fst bv, bo_samples = append_sample previous (median (snd bv))\<rparr> overheads)"

definition with_results :: "duration_history \<Rightarrow> duration_result list \<Rightarrow> scheduler_error + duration_history" where
  "with_results h results =
     (let complete = filter dr_complete results
      in if complete = [] then Inr h
         else
           (case merge_results (hs_version h) complete
                   (if hs_version h = 2
                    then fold (\<lambda>r m. AList.update (du_test_id r) r m) (hs_records h) [] else []) [] of
              Inl e \<Rightarrow> Inl e
            | Inr (merged, run_values) \<Rightarrow>
                Inr \<lparr>hs_records = sort_key du_test_id (map snd merged),
                     hs_browser_overheads = sort_key bo_browser (map snd
                       (fold merge_overhead run_values
                          (fold (\<lambda>r m. AList.update (bo_browser r) r m) (hs_browser_overheads h) []))),
                     hs_version = 2\<rparr>))"

subsection \<open>Locks on shared resources\<close>

definition playwright_test_dir :: path where
  "playwright_test_dir = [lit ''e2e'', lit ''specs'']"

datatype shared_resource_lock =
  Mail_server | Registration_rate_state | Global_version_config | Migration_package_lock | Legacy_evidence_root

fun lock_value :: "shared_resource_lock \<Rightarrow> pystr" where
  "lock_value Mail_server = lit ''mail-server''"
| "lock_value Registration_rate_state = lit ''registration-rate-state''"
| "lock_value Global_version_config = lit ''global-version-config''"
| "lock_value Migration_package_lock = lit ''migration-package''"
| "lock_value Legacy_evidence_root = lit ''legacy-evidence-root''"

definition shared_locks :: "shared_resource_lock list" where
  "shared_locks = [Mail_server, Registration_rate_state, Global_version_config, Migration_package_lock, Legacy_evidence_root]"

record lock_candidate =
  lc_project :: pystr
  lc_spec_path :: path
  lc_logical_group :: pystr
  lc_tests :: "discovered_test list"

record lock_declaration =
  ld_project :: "pystr option"
  ld_spec_path :: path
  ld_logical_group :: pystr
  ld_locks :: "pystr list"

definition under_test_dir :: "path \<Rightarrow> bool" where
  "under_test_dir p \<longleftrightarrow> take (length playwright_test_dir) p = playwright_test_dir"

definition validate_declaration :: "lock_declaration \<Rightarrow> scheduler_error option" where
  "validate_declaration d =
     (if (case ld_project d of Some p \<Rightarrow> py_strip p = [] | None \<Rightarrow> False)
      then Some (Invalid_resource_lock_declaration ''project selector is blank'')
      else if py_strip (ld_logical_group d) = []
      then Some (Invalid_resource_lock_declaration ''logical group selector is blank'')
      else if ld_locks d = [] then Some (Invalid_resource_lock_declaration ''lock set is empty'')
      else if take 1 (ld_spec_path d) = [lit ''/''] \<or> lit ''..'' \<in> set (ld_spec_path d) \<or> \<not> under_test_dir (ld_spec_path d)
      then Some (Invalid_resource_lock_declaration ''spec path is outside e2e/specs'')
      else if \<not> py_endswith (lit ''.spec.js'') (last (ld_spec_path d))
      then Some (Invalid_resource_lock_declaration ''spec path is not a Playwright spec'')
      else None)"

fun resolve_declared_locks :: "pystr list \<Rightarrow> scheduler_error + pystr set" where
  "resolve_declared_locks [] = Inr {}"
| "resolve_declared_locks (n # ns) =
     (if n \<notin> lock_value ` set shared_locks then Inl (Unknown_resource_lock n)
      else case resolve_declared_locks ns of Inl e \<Rightarrow> Inl e | Inr ls \<Rightarrow> Inr (insert n ls))"

definition lock_matches :: "lock_declaration \<Rightarrow> lock_candidate \<Rightarrow> bool" where
  "lock_matches d c \<longleftrightarrow>
     (ld_project d = None \<or> ld_project d = Some (lc_project c)) \<and> ld_spec_path d = lc_spec_path c
     \<and> ld_logical_group d = lc_logical_group c"

definition lock_resolver :: "lock_declaration list \<Rightarrow> scheduler_error + lock_declaration list" where
  "lock_resolver declarations =
     (case first_error (\<lambda>d. case validate_declaration d of Some e \<Rightarrow> Some e
             | None \<Rightarrow> (case resolve_declared_locks (ld_locks d) of Inl e \<Rightarrow> Some e | Inr _ \<Rightarrow> None)) declarations of
        Some e \<Rightarrow> Inl e | None \<Rightarrow> Inr declarations)"

fun resolve_locks :: "lock_declaration list \<Rightarrow> lock_candidate \<Rightarrow> scheduler_error + pystr set" where
  "resolve_locks [] c = Inr {}"
| "resolve_locks (d # ds) c =
     (if \<not> lock_matches d c then resolve_locks ds c
      else case resolve_declared_locks (ld_locks d) of
             Inl e \<Rightarrow> Inl e
           | Inr ls \<Rightarrow> (case resolve_locks ds c of Inl e \<Rightarrow> Inl e | Inr rest \<Rightarrow> Inr (ls \<union> rest)))"

definition current_lock_declarations :: "lock_declaration list" where
  "current_lock_declarations = []"

subsection \<open>Jobs\<close>

type_synonym job_key = "pystr \<times> path \<times> pystr"

record job_groups =
  jg_grouped :: "(job_key \<times> discovered_test list) list"
  jg_selectors :: "((pystr \<times> path \<times> int) \<times> pystr) list"
  jg_assigned :: "pystr set"

definition group_key :: "(discovered_test \<Rightarrow> pystr option) \<Rightarrow> discovered_test \<Rightarrow> job_key" where
  "group_key resolve t = (dt_project t, dt_spec_path t, case resolve t of Some g \<Rightarrow> g | None \<Rightarrow> [])"

definition group_test ::
  "duration_history \<Rightarrow> (discovered_test \<Rightarrow> pystr option) \<Rightarrow> discovered_test \<Rightarrow> job_groups \<Rightarrow> scheduler_error + job_groups" where
  "group_test h resolve t g =
     (if dt_test_id t \<in> jg_assigned g then Inl (Duplicate_discovered_test (dt_test_id t))
      else case resolve t of
             None \<Rightarrow> Inl (Unassigned_logical_group (dt_test_id t))
           | Some logical_group \<Rightarrow>
               (if py_strip logical_group = [] then Inl (Unassigned_logical_group (dt_test_id t))
                else
                  let selector_key = (dt_project t, dt_spec_path t, dt_line t);
                      key = (dt_project t, dt_spec_path t, logical_group);
                      estimated = t\<lparr>dt_estimated_seconds := estimate h (dt_test_id t) (dt_spec_path t)\<rparr>;
                      tests = (case map_of (jg_grouped g) key of Some ts \<Rightarrow> ts | None \<Rightarrow> [])
                  in if map_of (jg_selectors g) selector_key \<notin> {None, Some logical_group}
                     then Inl (Duplicate_test_selector (as_posix (dt_spec_path t) @ lit '':'' @ int_text (dt_line t)))
                     else Inr \<lparr>jg_grouped = AList.update key (tests @ [estimated]) (jg_grouped g),
                               jg_selectors = AList.update selector_key logical_group (jg_selectors g),
                               jg_assigned = insert (dt_test_id t) (jg_assigned g)\<rparr>))"

fun group_tests ::
  "duration_history \<Rightarrow> (discovered_test \<Rightarrow> pystr option) \<Rightarrow> discovered_test list \<Rightarrow> job_groups \<Rightarrow> scheduler_error + job_groups" where
  "group_tests h resolve [] g = Inr g"
| "group_tests h resolve (t # ts) g =
     (case group_test h resolve t g of Inl e \<Rightarrow> Inl e | Inr g' \<Rightarrow> group_tests h resolve ts g')"

definition job_id_of :: "(pystr \<Rightarrow> pystr) \<Rightarrow> job_key \<Rightarrow> pystr" where
  "job_id_of sha256_hex k =
     (case k of (project, spec_path, logical_group) \<Rightarrow>
        lit ''job-'' @ take 16 (sha256_hex (project @ [0] @ as_posix spec_path @ [0] @ logical_group)))"

definition build_job ::
  "(pystr \<Rightarrow> pystr) \<Rightarrow> duration_history \<Rightarrow> (lock_candidate \<Rightarrow> scheduler_error + pystr set) \<Rightarrow> job_key \<times> discovered_test list
   \<Rightarrow> scheduler_error + job_spec" where
  "build_job sha256_hex h resolve_job_locks kt =
     (case kt of ((project, spec_path, logical_group), tests) \<Rightarrow>
       (let sorted_tests = sort_key test_sort_key tests
        in case resolve_job_locks \<lparr>lc_project = project, lc_spec_path = spec_path, lc_logical_group = logical_group,
                                   lc_tests = sorted_tests\<rparr> of
             Inl e \<Rightarrow> Inl e
           | Inr locks \<Rightarrow>
               Inr \<lparr>js_job_id = job_id_of sha256_hex (project, spec_path, logical_group), js_project = project,
                    js_spec_path = spec_path, js_logical_group = logical_group, js_tests = sorted_tests,
                    js_locks = locks,
                    js_estimated_seconds = sum_list (map dt_estimated_seconds sorted_tests)
                      + browser_overhead h (dt_browser (hd sorted_tests))\<rparr>))"

fun build_each :: "('a \<Rightarrow> 'e + 'b) \<Rightarrow> 'a list \<Rightarrow> 'e + 'b list" where
  "build_each f [] = Inr []"
| "build_each f (x # xs) =
     (case f x of Inl e \<Rightarrow> Inl e
      | Inr y \<Rightarrow> (case build_each f xs of Inl e \<Rightarrow> Inl e | Inr ys \<Rightarrow> Inr (y # ys)))"

definition job_sort_key :: "job_spec \<Rightarrow> pystr \<times> pystr \<times> pystr" where
  "job_sort_key j = (js_project j, as_posix (js_spec_path j), js_logical_group j)"

definition build_jobs ::
  "(pystr \<Rightarrow> pystr) \<Rightarrow> discovered_test list \<Rightarrow> duration_history \<Rightarrow> (discovered_test \<Rightarrow> pystr option)
   \<Rightarrow> (lock_candidate \<Rightarrow> scheduler_error + pystr set) \<Rightarrow> scheduler_error + job_spec list" where
  "build_jobs sha256_hex discovered h resolve resolve_job_locks =
     (case group_tests h resolve discovered \<lparr>jg_grouped = [], jg_selectors = [], jg_assigned = {}\<rparr> of
        Inl e \<Rightarrow> Inl e
      | Inr g \<Rightarrow>
          (case build_each (build_job sha256_hex h resolve_job_locks) (jg_grouped g) of
             Inl e \<Rightarrow> Inl e
           | Inr jobs \<Rightarrow> Inr (sort_key job_sort_key jobs)))"

definition test_selector :: "discovered_test \<Rightarrow> scheduler_error + pystr" where
  "test_selector t =
     (if canonical_test_id (dt_project t) (dt_spec_path t) (dt_line t) (dt_title_path t) \<noteq> dt_test_id t
      then Inl (Discovered_test_identity (dt_test_id t))
      else if \<not> under_test_dir (dt_spec_path t) then Inl (Spec_path_outside_test_directory (dt_spec_path t))
      else Inr (lit ''['' @ dt_project t @ lit '']'' @ title_separator
             @ as_posix (drop (length playwright_test_dir) (dt_spec_path t)) @ lit '':'' @ int_text (dt_line t)
             @ title_separator @ join_with title_separator (dt_title_path t)))"

definition test_list_text :: "job_spec \<Rightarrow> scheduler_error + pystr" where
  "test_list_text j =
     (case build_each test_selector (js_tests j) of
        Inl e \<Rightarrow> Inl e
      | Inr selectors \<Rightarrow> Inr (join_with [10] selectors @ [10]))"

subsection \<open>Every discovered test is in one job\<close>

lemma first_error_None_iff: "first_error f xs = None \<longleftrightarrow> (\<forall>x \<in> set xs. f x = None)"
  by (induction xs) (auto split: option.splits)

lemma repeated_None_iff: "repeated seen xs = None \<longleftrightarrow> distinct xs \<and> seen \<inter> set xs = {}"
  by (induction xs arbitrary: seen) auto

lemma build_each_Inr_iff: "build_each f xs = Inr ys \<longleftrightarrow> list_all2 (\<lambda>x y. f x = Inr y) xs ys"
proof (induction xs arbitrary: ys)
  case (Cons x xs)
  show ?case
    by (cases "f x"; cases "build_each f xs") (auto simp: list_all2_Cons1 Cons.IH [symmetric])
qed auto

text \<open>A test without its estimate, which \<open>build_jobs\<close> replaces.\<close>

definition unestimated :: "discovered_test \<Rightarrow> discovered_test" where
  "unestimated t = t\<lparr>dt_estimated_seconds := 0\<rparr>"

lemma unestimated_fields [simp]:
  "dt_test_id (unestimated t) = dt_test_id t" "dt_project (unestimated t) = dt_project t"
  "dt_spec_path (unestimated t) = dt_spec_path t" "dt_line (unestimated t) = dt_line t"
  "dt_title_path (unestimated t) = dt_title_path t"
  "unestimated (t\<lparr>dt_estimated_seconds := e\<rparr>) = unestimated t"
  by (simp_all add: unestimated_def)

lemma unestimated_eqD:
  assumes "unestimated t = unestimated u"
  shows "dt_test_id t = dt_test_id u" "dt_project t = dt_project u" "dt_spec_path t = dt_spec_path u"
    "dt_line t = dt_line u" "dt_title_path t = dt_title_path u"
  using arg_cong [OF assms, of dt_test_id] arg_cong [OF assms, of dt_project] arg_cong [OF assms, of dt_spec_path]
    arg_cong [OF assms, of dt_line] arg_cong [OF assms, of dt_title_path] by simp_all

definition test_selector_key :: "discovered_test \<Rightarrow> pystr \<times> path \<times> int" where
  "test_selector_key t = (dt_project t, dt_spec_path t, dt_line t)"

definition groups_ok :: "discovered_test list \<Rightarrow> job_groups \<Rightarrow> bool" where
  "groups_ok ts g \<longleftrightarrow>
     distinct (map fst (jg_grouped g)) \<and> distinct (map dt_test_id ts) \<and> jg_assigned g = dt_test_id ` set ts
     \<and> image_mset unestimated (mset (concat (map snd (jg_grouped g)))) = image_mset unestimated (mset ts)
     \<and> (\<forall>(k, us) \<in> set (jg_grouped g). us \<noteq> []
         \<and> (\<forall>u \<in> set us. dt_project u = fst k \<and> dt_spec_path u = fst (snd k)
              \<and> map_of (jg_selectors g) (test_selector_key u) = Some (snd (snd k))))"

lemma mset_concat_update:
  "mset (concat (map snd (AList.update k ((case map_of al k of Some ts \<Rightarrow> ts | None \<Rightarrow> []) @ [x]) al)))
     = add_mset x (mset (concat (map snd al)))"
  by (induction al) auto

lemma map_of_update: "map_of (AList.update k v al) = (map_of al)(k \<mapsto> v)"
  by (rule update_conv')

lemma group_test_ok:
  assumes "group_test h resolve t g = Inr g'" "groups_ok ts g"
  shows "groups_ok (ts @ [t]) g'"
proof -
  from assms(1) obtain lg where new: "dt_test_id t \<notin> jg_assigned g"
    and sel: "map_of (jg_selectors g) (test_selector_key t) \<in> {None, Some lg}"
    and g': "g' = (let key = (dt_project t, dt_spec_path t, lg);
        tests = (case map_of (jg_grouped g) key of Some ts \<Rightarrow> ts | None \<Rightarrow> [])
      in \<lparr>jg_grouped = AList.update key (tests @ [t\<lparr>dt_estimated_seconds := estimate h (dt_test_id t) (dt_spec_path t)\<rparr>]) (jg_grouped g),
          jg_selectors = AList.update (test_selector_key t) lg (jg_selectors g),
          jg_assigned = insert (dt_test_id t) (jg_assigned g)\<rparr>)"
    by (auto simp: group_test_def Let_def test_selector_key_def split: if_splits option.splits)
  let ?e = "t\<lparr>dt_estimated_seconds := estimate h (dt_test_id t) (dt_spec_path t)\<rparr>"
  let ?k = "(dt_project t, dt_spec_path t, lg)"
  have d: "distinct (map fst (jg_grouped g))" using assms(2) by (simp add: groups_ok_def)
  have ek: "test_selector_key ?e = test_selector_key t" by (simp add: test_selector_key_def)
  have old: "us \<noteq> [] \<and> (\<forall>u \<in> set us. dt_project u = fst k \<and> dt_spec_path u = fst (snd k)
              \<and> map_of (jg_selectors g') (test_selector_key u) = Some (snd (snd k)))"
    if "(k, us) \<in> set (jg_grouped g)" for k us
    using assms(2) that sel unfolding g' groups_ok_def by (fastforce simp: Let_def map_of_update)
  have "us \<noteq> [] \<and> (\<forall>u \<in> set us. dt_project u = fst k \<and> dt_spec_path u = fst (snd k)
              \<and> map_of (jg_selectors g') (test_selector_key u) = Some (snd (snd k)))"
    if m: "(k, us) \<in> set (jg_grouped g')" for k us
  proof (cases "k = ?k")
    case True
    have "distinct (map fst (jg_grouped g'))" by (simp add: g' Let_def d distinct_update)
    then have "map_of (jg_grouped g') ?k = Some us" using m True by simp
    then have us: "us = (case map_of (jg_grouped g) ?k of Some ts \<Rightarrow> ts | None \<Rightarrow> []) @ [?e]"
      by (simp add: g' Let_def map_of_update)
    have new: "map_of (jg_selectors g') (test_selector_key ?e) = Some lg"
      by (simp add: g' Let_def map_of_update ek)
    show ?thesis
    proof (cases "map_of (jg_grouped g) ?k")
      case None
      then show ?thesis using new by (simp add: us True)
    next
      case (Some ws)
      then show ?thesis using new old [OF map_of_SomeD [OF Some]] by (simp add: us True)
    qed
  next
    case False
    have "distinct (map fst (jg_grouped g'))" by (simp add: g' Let_def d distinct_update)
    then have "map_of (jg_grouped g') k = Some us" using m by simp
    then have "map_of (jg_grouped g) k = Some us" using False by (simp add: g' Let_def map_of_update)
    then show ?thesis by (intro old map_of_SomeD)
  qed
  moreover have "distinct (map fst (jg_grouped g'))" by (simp add: g' Let_def d distinct_update)
  moreover have "image_mset unestimated (mset (concat (map snd (jg_grouped g')))) = image_mset unestimated (mset (ts @ [t]))"
    using assms(2) by (simp add: g' Let_def mset_concat_update groups_ok_def)
  moreover have "distinct (map dt_test_id (ts @ [t]))" "jg_assigned g' = dt_test_id ` set (ts @ [t])"
    using assms(2) new by (simp_all add: groups_ok_def g' Let_def)
  ultimately show ?thesis unfolding groups_ok_def by blast
qed

lemma group_tests_ok: "group_tests h resolve us g = Inr g' \<Longrightarrow> groups_ok ts g \<Longrightarrow> groups_ok (ts @ us) g'"
proof (induction us arbitrary: ts g)
  case (Cons u us)
  then obtain g1 where g1: "group_test h resolve u g = Inr g1" "group_tests h resolve us g1 = Inr g'"
    by (auto split: sum.splits)
  show ?case using Cons.IH [OF g1(2) group_test_ok [OF g1(1) Cons.prems(2)]] by simp
qed simp

definition job_key_of :: "job_spec \<Rightarrow> job_key" where
  "job_key_of j = (js_project j, js_spec_path j, js_logical_group j)"

lemma build_job_fields:
  assumes "build_job sha h locks (k, us) = Inr j"
  shows "js_job_id j = job_id_of sha k" "js_project j = fst k" "js_spec_path j = fst (snd k)"
    "js_logical_group j = snd (snd k)" "js_tests j = sort_key test_sort_key us"
    "job_key_of j = k"
  using assms by (auto simp: build_job_def Let_def job_key_of_def split: sum.splits prod.splits)

lemma mset_concat_sort: "mset (concat (map f (sort_key g xs))) = mset (concat (map f xs))"
  by (simp add: mset_concat flip: sum_mset_sum_list)

lemma build_each_tests:
  assumes "list_all2 (\<lambda>kt j. build_job sha h locks kt = Inr j) kts jobs"
  shows "mset (concat (map js_tests jobs)) = mset (concat (map snd kts))"
    "map js_job_id jobs = map (job_id_of sha) (map fst kts)"
    "map job_key_of jobs = map fst kts"
  using assms by (induction rule: list_all2_induct) (auto simp: build_job_fields)

text \<open>What the tests and the jobs of a run owe each other.\<close>

definition partitioned :: "(pystr \<Rightarrow> pystr) \<Rightarrow> discovered_test list \<Rightarrow> job_spec list \<Rightarrow> bool" where
  "partitioned sha tests jobs \<longleftrightarrow>
     distinct (map dt_test_id tests)
     \<and> image_mset unestimated (mset (concat (map js_tests jobs))) = image_mset unestimated (mset tests)
     \<and> distinct (map job_key_of jobs)
     \<and> (\<forall>j \<in> set jobs. js_tests j \<noteq> [] \<and> js_job_id j = job_id_of sha (job_key_of j)
          \<and> (\<forall>t \<in> set (js_tests j). dt_project t = js_project j \<and> dt_spec_path t = js_spec_path j))
     \<and> (\<forall>j \<in> set jobs. \<forall>i \<in> set jobs. \<forall>t \<in> set (js_tests j). \<forall>u \<in> set (js_tests i).
          test_selector_key t = test_selector_key u \<longrightarrow> js_logical_group j = js_logical_group i)"

lemma build_jobs_partitioned:
  assumes "build_jobs sha tests h resolve locks = Inr jobs"
  shows "partitioned sha tests jobs"
proof -
  from assms obtain g js where g: "group_tests h resolve tests \<lparr>jg_grouped = [], jg_selectors = [], jg_assigned = {}\<rparr> = Inr g"
    and js: "build_each (build_job sha h locks) (jg_grouped g) = Inr js" and jobs: "jobs = sort_key job_sort_key js"
    by (auto simp: build_jobs_def split: sum.splits)
  have "groups_ok [] \<lparr>jg_grouped = [], jg_selectors = [], jg_assigned = {}\<rparr>" by (simp add: groups_ok_def)
  from group_tests_ok [OF g this] have ok: "groups_ok tests g" by simp
  note l = js [unfolded build_each_Inr_iff]
  have each: "\<exists>k us. (k, us) \<in> set (jg_grouped g) \<and> build_job sha h locks (k, us) = Inr j" if "j \<in> set jobs" for j
  proof -
    have "j \<in> set js" using that jobs by simp
    then obtain i where i: "i < length js" "j = js ! i" by (metis in_set_conv_nth)
    then have "i < length (jg_grouped g)" "build_job sha h locks (jg_grouped g ! i) = Inr j"
      using l by (simp_all add: list_all2_conv_all_nth)
    then show ?thesis by (metis nth_mem surj_pair)
  qed
  have job: "js_tests j \<noteq> [] \<and> js_job_id j = job_id_of sha (job_key_of j)
      \<and> (\<forall>t \<in> set (js_tests j). dt_project t = js_project j \<and> dt_spec_path t = js_spec_path j
           \<and> map_of (jg_selectors g) (test_selector_key t) = Some (js_logical_group j))" if j: "j \<in> set jobs" for j
  proof -
    obtain k us where k: "(k, us) \<in> set (jg_grouped g)" "build_job sha h locks (k, us) = Inr j" using each [OF j] by blast
    have ne: "us \<noteq> []" using ok k(1) by (auto simp: groups_ok_def)
    then have "sort_key test_sort_key us \<noteq> []" by (metis set_empty set_sort)
    then show ?thesis using ok k(1) unfolding groups_ok_def by (auto simp: build_job_fields [OF k(2)])
  qed
  have perm: "mset (concat (map js_tests jobs)) = mset (concat (map snd (jg_grouped g)))"
    unfolding jobs mset_concat_sort by (rule build_each_tests(1) [OF l])
  have keys: "mset (map job_key_of jobs)
      = mset (map job_key_of js)"
    unfolding jobs by simp
  have "distinct (map job_key_of jobs)"
    using ok unfolding mset_eq_imp_distinct_iff [OF keys] build_each_tests(3) [OF l] by (simp add: groups_ok_def)
  moreover have "js_logical_group j = js_logical_group i"
    if "j \<in> set jobs" "i \<in> set jobs" "t \<in> set (js_tests j)" "u \<in> set (js_tests i)"
      "test_selector_key t = test_selector_key u" for i j t u
    using job [OF that(1)] job [OF that(2)] that(3-5) by (metis option.inject)
  moreover have "distinct (map dt_test_id tests)"
    "image_mset unestimated (mset (concat (map snd (jg_grouped g)))) = image_mset unestimated (mset tests)"
    using ok by (simp_all add: groups_ok_def)
  moreover have "js_tests j \<noteq> [] \<and> js_job_id j = job_id_of sha (job_key_of j)
      \<and> (\<forall>t \<in> set (js_tests j). dt_project t = js_project j \<and> dt_spec_path t = js_spec_path j)" if "j \<in> set jobs" for j
    using job [OF that] by blast
  ultimately show ?thesis unfolding partitioned_def perm by (intro conjI ballI impI) (assumption | blast)+
qed

text \<open>A partition passes the checks of \<open>RunManifest\<close>.\<close>

lemma image_mset_unestimated_set:
  assumes "image_mset unestimated (mset ts) = image_mset unestimated (mset us)"
  shows "mset (map dt_test_id ts) = mset (map dt_test_id us)" "t \<in> set ts \<Longrightarrow> \<exists>u \<in> set us. unestimated t = unestimated u"
proof -
  have "image_mset dt_test_id (image_mset unestimated (mset ts)) = image_mset dt_test_id (image_mset unestimated (mset us))"
    using assms by simp
  then show "mset (map dt_test_id ts) = mset (map dt_test_id us)" by (simp add: multiset.map_comp comp_def)
  show "\<exists>u \<in> set us. unestimated t = unestimated u" if "t \<in> set ts"
    using arg_cong [OF assms, of set_mset] that by (metis image_iff image_mset.compositionality set_image_mset set_mset_mset)
qed

lemma test_selector_key_eqD:
  "test_selector_key t = test_selector_key u \<Longrightarrow> dt_project t = dt_project u \<and> dt_spec_path t = dt_spec_path u"
  by (simp add: test_selector_key_def)

lemma count_list_distinct: "distinct xs \<Longrightarrow> count_list xs x = (if x \<in> set xs then 1 else 0)"
  by (induction xs) auto

lemma partitioned_manifest:
  assumes "partitioned sha tests jobs" "\<forall>t \<in> set tests. check_test_profile t = None"
    "rm_tests m = tests" "rm_jobs m = jobs"
  shows "check_manifest m = None"
proof -
  let ?js = "concat (map js_tests jobs)"
  have ids: "mset (map dt_test_id ?js) = mset (map dt_test_id tests)"
    using assms(1) by (intro image_mset_unestimated_set) (simp add: partitioned_def)
  have d: "distinct (map dt_test_id tests)" using assms(1) by (simp add: partitioned_def)
  then have d': "distinct (map dt_test_id ?js)" using mset_eq_imp_distinct_iff [OF ids] by simp
  have s: "set (map dt_test_id ?js) = set (map dt_test_id tests)" by (rule mset_eq_setD [OF ids])
  have "check_coverage tests jobs = None"
    using s unfolding check_coverage_def Let_def
    by (simp add: count_list_distinct [OF d] count_list_distinct [OF d'] filter_empty_conv del: set_map)
  moreover have "check_job_metadata j = None" if "j \<in> set jobs" for j
    using assms(1) that by (auto simp: check_job_metadata_def partitioned_def list_ex_iff)
  ultimately show ?thesis using assms(2) by (simp add: check_manifest_def assms(3,4) first_error_None_iff [THEN iffD2])
qed

subsection \<open>What discovery hands over\<close>

definition discovered_ok :: "project_profile list \<Rightarrow> discovered_test \<Rightarrow> bool" where
  "discovered_ok profiles t \<longleftrightarrow>
     dt_test_id t = canonical_test_id (dt_project t) (dt_spec_path t) (dt_line t) (dt_title_path t)
     \<and> (\<exists>p \<in> set profiles. pf_name p = dt_project t \<and> pf_browser p = dt_browser t \<and> pf_viewport p = dt_viewport t)"

lemma collect_projects_ok:
  "collect_projects profiles p l tp names = Inr ts \<Longrightarrow> t \<in> set ts \<Longrightarrow> discovered_ok profiles t"
proof (induction names arbitrary: ts)
  case (Cons n names)
  from Cons.prems(1) obtain pr rest where pr: "find (\<lambda>p. pf_name p = n) (rev profiles) = Some pr"
    and rest: "collect_projects profiles p l tp names = Inr rest"
    and ts: "ts = \<lparr>dt_test_id = canonical_test_id (pf_name pr) p l tp, dt_project = pf_name pr, dt_spec_path = p, dt_line = l,
        dt_title_path = tp, dt_browser = pf_browser pr, dt_viewport = pf_viewport pr, dt_estimated_seconds = 30\<rparr> # rest"
    by (auto split: option.splits sum.splits)
  show ?case
    using Cons.IH [OF rest] Cons.prems(2) find_SomeD [OF pr] by (auto simp: ts discovered_ok_def)
qed simp

lemma collect_specs_ok:
  "collect_specs rel profiles titles specs = Inr ts \<Longrightarrow> t \<in> set ts \<Longrightarrow> discovered_ok profiles t"
  by (induction specs arbitrary: ts) (auto split: sum.splits intro: collect_projects_ok)

lemma collect_suites_ok:
  "collect_suite_tests rel profiles titles incl suite = Inr ts \<Longrightarrow> \<forall>t \<in> set ts. discovered_ok profiles t"
  "collect_suites rel profiles titles incl suites = Inr ts \<Longrightarrow> \<forall>t \<in> set ts. discovered_ok profiles t"
proof (induction rel profiles titles incl suite and rel profiles titles incl suites arbitrary: ts and ts
    rule: collect_suite_tests_collect_suites.induct)
  case (1 rel profiles titles incl title specs suites)
  then show ?case by (fastforce simp: Let_def split: sum.splits dest: collect_specs_ok)
next
  case (3 rel profiles titles incl suite suites)
  then show ?case by (fastforce split: sum.splits)
qed simp

lemma discover_tests_ok:
  assumes "discover_tests rel profiles configured suites = Inr ts"
  shows "t \<in> set ts \<Longrightarrow> discovered_ok profiles t" "distinct (map dt_test_id ts)" "ts \<noteq> []"
    "sorted (map test_sort_key ts)"
proof -
  from assms obtain ds where ds: "collect_suites rel profiles [] False suites = Inr ds" "ds \<noteq> []"
    "repeated {} (map dt_test_id ds) = None" and ts: "ts = sort_key test_sort_key ds"
    by (auto simp: discover_tests_def split: option.splits sum.splits if_splits)
  show "t \<in> set ts \<Longrightarrow> discovered_ok profiles t" using collect_suites_ok(2) [OF ds(1)] by (simp add: ts)
  have "mset (map dt_test_id ts) = mset (map dt_test_id ds)" by (simp add: ts)
  from mset_eq_imp_distinct_iff [OF this] show "distinct (map dt_test_id ts)"
    using ds(3) by (simp add: repeated_None_iff)
  show "ts \<noteq> []" using ds(2) by (metis ts set_empty set_sort)
  show "sorted (map test_sort_key ts)" by (simp add: ts)
qed

lemma discovered_profile_ok: "discovered_ok project_profiles t \<Longrightarrow> check_test_profile t = None"
proof -
  have "list_all (\<lambda>p. profile_of (pf_name p) = Inr p) project_profiles" by code_simp
  then show "discovered_ok project_profiles t \<Longrightarrow> check_test_profile t = None"
    by (auto simp: discovered_ok_def check_test_profile_def list_all_iff)
qed

lemma test_list_written:
  assumes "\<forall>t \<in> set (js_tests j). dt_test_id t = canonical_test_id (dt_project t) (dt_spec_path t) (dt_line t) (dt_title_path t)
      \<and> under_test_dir (dt_spec_path t)"
  shows "\<exists>text. test_list_text j = Inr text"
proof -
  have "\<exists>ys. build_each test_selector ts = Inr ys" if "\<forall>t \<in> set ts. \<exists>y. test_selector t = Inr y" for ts
    using that by (induction ts) auto
  moreover have "\<forall>t \<in> set (js_tests j). \<exists>y. test_selector t = Inr y"
    using assms by (simp add: test_selector_def)
  ultimately show ?thesis by (fastforce simp: test_list_text_def)
qed

end
