(* ===== verification/Job_Groups.thy ===== *)
theory Job_Groups
  imports Job_Specs
begin

text \<open>
  The logical groups of the two large specifications (\<open>logical_groups.py\<close>): the tables of titles, the
  index over them, which refuses a title of two groups, and the resolver that \<open>build_jobs\<close> uses.
\<close>

definition transaction_spec :: path where
  "transaction_spec = [lit ''e2e'', lit ''specs'', lit ''transactions.spec.js'']"

definition mobile_matrix_spec :: path where
  "mobile_matrix_spec = [lit ''e2e'', lit ''specs'', lit ''mobile-browser-matrix.spec.js'']"

definition transaction_groups :: "(string \<times> string list) list" where
  "transaction_groups =
    [(''tx-entry-category-owner'',
      [''mobile quick entry creates an expense through one-screen staged buttons'',
       ''issue 193: desktop transaction entry selects category through staged buttons'',
       ''issue 193: inline transaction edit searches category in one step'',
       ''issue 194: desktop transaction entry does not expose the removed category quick picker'',
       ''issue 194: inline transaction edit creates and applies a missing category inline'',
       ''issue 195: transaction entry keeps a compatible category when type changes'',
       ''issue 195: transaction entry offers a category restore when type clears selection'',
       ''issue 195: inline transaction edit restores the original category after type change'',
       ''mobile quick entry selected category button remains readable while hovered'',
       ''mobile quick entry defaults owner to current user over recent other member'',
       ''desktop transaction entry defaults owner and exposes quick member selection'',
       ''mobile quick entry keeps owner override and filters staged category choices'',
       ''issue 82: mobile staged category buttons stay readable at 320px'']),
     (''tx-entry-form-context'',
      [''mobile quick entry locks save while a transaction submit is pending'',
       ''transaction entry primary path stays shallow across mobile tablet and desktop'',
       ''desktop transaction entry keeps repeat context after save'',
       ''issue 212: mobile transaction quick amount requests a numeric keypad'',
       ''mobile quick entry keeps repeat context and returns focus to amount'',
       ''mobile quick entry rejects decimal KRW amount immediately'',
       ''mobile quick entry keeps all fields and actions in one non-scrolling sheet'',
       ''issue 192: mobile quick entry asks before closing a dirty draft and preserves it'',
       ''mobile quick entry restores the active field instead of jumping back to amount'',
       ''transaction sheet return focus does not override a newer ledger focus'',
       ''mobile quick entry stays usable across viewport and Korean font fallbacks'',
       ''issue 234: mobile transaction add keeps context visible without secondary details'',
       ''mobile transaction add keeps actions reachable with many staged category options'',
       ''issue 237: mobile transaction edit keeps completion controls in the first viewport'']),
     (''tx-entry-crud-validation'',
      [''mobile normal add clears stale anchored insert fields after cancelled insert'',
       ''issue 315: transaction installment input creates, edits, clears, and hides for non-expense'',
       ''issue 248: extracted transactions page keeps entry and inline edit wiring live'',
       ''desktop inline insert locks save while a transaction POST is pending'',
       ''transactions flow: create, inline edit, delete, responsive'',
       ''transactions form keeps grouped number format'',
       ''transactions form rejects decimal KRW amount before rounding can occur'',
       ''transactions inline edit rejects decimal KRW amount before rounding can occur'']),
     (''tx-selection-interactions'',
      [''desktop transaction row click and sweep selection keep toolbar summary stable'',
       ''transaction selection persists through passive websocket transaction refresh'',
       ''issue 233: desktop transaction rows expose keyboard selection'',
       ''desktop transaction sticky column titles and sweep auto-scroll selection toggle work'',
       ''mobile transaction row selection, touch scroll, and sticky ledger head survive Korean font viewports'',
       ''issue 221: mobile transaction status chips keep clear action in viewport'',
       ''issue 273: desktop transaction row double-click opens inline edit only from row body'',
       ''transaction selection toolbar bulk deletes multiple rows in one request'',
       ''transaction ledger selection toolbar stays overflow-free at 820px and 1100px'']),
     (''tx-ledger-actions-clearance'',
      [''transaction add action and sticky toolbar stay reachable after ledger scroll'',
       ''issue 211: transaction add opens a visible sheet from a scrolled list'',
       ''issue 222: mobile transaction add action does not cover ledger rows'',
       ''issue 223: desktop transaction add action does not cover bottom row actions'',
       ''issue 224: desktop transaction row edit and delete targets stay comfortable'',
       ''issue 227: 1024px transaction row actions stay inside the viewport'']),
     (''tx-ledger-readability'',
      [''transaction mobile meta text keeps readable contrast'',
       ''mobile transaction category flow summaries wrap long leading labels'',
       ''transaction ledger stays readable in landscape compact width'',
       ''issue 198: mobile collapsed transaction row keeps key details and actions visible'',
       ''issue 220: mobile collapsed transaction row scans as one ledger line'',
       ''mobile collapsed transaction row keeps large KRW amount readable'',
       ''issue #249: mobile transaction sticky stack uses measured heights'',
       ''mobile transaction expanded row keeps details readable with filter panel open'',
       ''transactions list affordance: top filters, compact ledger, ownerless marker'']),
     (''tx-month-date-filter-loading'',
      [''issue 196: transaction save clears hiding filters and reveals the saved row'',
       ''mobile transaction month stepper keeps usable touch targets'',
       ''issue 197: transaction month direct input clearly marks unapplied changes until Enter'',
       ''issue 213: mobile transaction add defaults to today outside visible month context'',
       ''issue 228: mobile transaction filters use ledger headers without duplicate generic toggle'',
       ''transaction date controls use unambiguous ISO text fields'',
       ''issue 219: mobile inline transaction date edit uses numeric ISO assistance'',
       ''issue 230: narrow mobile transaction date filters keep ISO placeholders readable'',
       ''mobile transaction filter panel stays visible after list scroll'',
       ''transactions default ledger stays monthly without continuous-history chrome'',
       ''issue 287: Android PWA transaction ledger uses monthly dense rows'',
       ''issue 287: monthly transaction ledger loads every paged row'',
       ''issue 287: stale monthly transaction refresh cannot replace the active month''])]"

definition mobile_matrix_groups :: "(string \<times> string list) list" where
  "mobile_matrix_groups =
    [(''mobile-core-profiles'',
      [''cross-browser mobile matrix traverses core screens without layout or accessibility regressions'']),
     (''mobile-modal-focus'',
      [''MUI-006 transaction sheet owns keyboard focus and restores its trigger'',
       ''MUI-006 holding sheet owns keyboard focus and restores its trigger'',
       ''MUI-006 holding focus survives tablet modal-inline orientation transitions'',
       ''MUI-006 holding focus survives tablet inline-modal orientation transitions'',
       ''MUI-006 dirty sheet keeps the nested alertdialog topmost'']),
     (''mobile-import-accessibility'',
      [''MUI-002 import file pickers expose keyboard and switch controls'',
       ''MUI-003 Toss review keeps every editable column reachable by touch and keyboard'']),
     (''mobile-semantics-status'',
      [''MUI-008 collaboration tabs and import mode group expose truthful keyboard semantics'',
       ''MUI-009 blocking errors and non-blocking statuses expose distinct live-region contracts'',
       ''W1 status groups do not add inert keyboard stops'']),
     (''mobile-orientation-zoom'',
      [''portrait-landscape transition preserves transaction task state'',
       ''W1 MUI-001 keeps user zoom enabled in Chromium and WebKit'']),
     (''mobile-typography-touch-layout'',
      [''W1 MUI-005 keeps short-landscape form text at 16px in WebKit'',
       ''W1 MUI-005 keeps 1024px touch form text readable without flattening hierarchy in WebKit'',
       ''W1 MUI-007 exposes 44px core targets across mobile work surfaces'',
       ''W1 MUI-011 keeps the first dashboard task visible and charts readable in landscape''])]"

text \<open>\<open>Inl\<close> is the title that belongs to two groups.\<close>

fun index_group :: "'g \<Rightarrow> 't list \<Rightarrow> ('t \<times> 'g) list \<Rightarrow> 't + ('t \<times> 'g) list" where
  "index_group g [] indexed = Inr indexed"
| "index_group g (title # titles) indexed =
     (if title \<in> fst ` set indexed then Inl title else index_group g titles (indexed @ [(title, g)]))"

fun index_titles :: "('g \<times> 't list) list \<Rightarrow> ('t \<times> 'g) list \<Rightarrow> 't + ('t \<times> 'g) list" where
  "index_titles [] indexed = Inr indexed"
| "index_titles ((g, titles) # groups) indexed =
     (case index_group g titles indexed of Inl t \<Rightarrow> Inl t | Inr indexed' \<Rightarrow> index_titles groups indexed')"

definition group_of_title :: "(string \<times> string list) list \<Rightarrow> pystr \<Rightarrow> pystr option" where
  "group_of_title groups title =
     (case index_titles groups [] of
        Inl _ \<Rightarrow> None
      | Inr indexed \<Rightarrow> map_option (\<lambda>p. lit (snd p)) (find (\<lambda>p. lit (fst p) = title) indexed))"

definition current_group :: "discovered_test \<Rightarrow> pystr option" where
  "current_group t =
     (if dt_spec_path t = transaction_spec then
        (if dt_title_path t = [] then None else group_of_title transaction_groups (last (dt_title_path t)))
      else if dt_spec_path t = mobile_matrix_spec then
        (if dt_title_path t = [] then None else group_of_title mobile_matrix_groups (last (dt_title_path t)))
      else Some (lit ''spec:'' @ as_posix (dt_spec_path t)))"

text \<open>The index is the table read the other way round, and it exists exactly when no title comes twice.\<close>

definition title_pairs :: "('g \<times> 't list) list \<Rightarrow> ('t \<times> 'g) list" where
  "title_pairs groups = concat (map (\<lambda>(g, ts). map (\<lambda>t. (t, g)) ts) groups)"

lemma index_group_Inr_iff:
  "index_group g ts ix = Inr ix' \<longleftrightarrow> ix' = ix @ map (\<lambda>t. (t, g)) ts \<and> distinct ts \<and> set ts \<inter> fst ` set ix = {}"
  by (induction ts arbitrary: ix) auto

lemma index_titles_Inr_iff:
  assumes "distinct (map fst ix)"
  shows "index_titles gs ix = Inr ix' \<longleftrightarrow> ix' = ix @ title_pairs gs \<and> distinct (map fst (ix @ title_pairs gs))"
  using assms
proof (induction gs arbitrary: ix)
  case (Cons gt gs)
  obtain g ts where gt: "gt = (g, ts)" by force
  have p: "title_pairs (gt # gs) = map (\<lambda>t. (t, g)) ts @ title_pairs gs" by (simp add: title_pairs_def gt)
  show ?case
  proof (cases "index_group g ts ix")
    case (Inl t)
    have "index_group g ts ix \<noteq> Inr (ix @ map (\<lambda>t. (t, g)) ts)" using Inl by simp
    then have "\<not> distinct (map fst (ix @ title_pairs (gt # gs)))"
      unfolding index_group_Inr_iff p by (auto simp: comp_def)
    then show ?thesis by (simp add: gt Inl)
  next
    case (Inr ix2)
    then have ix2: "ix2 = ix @ map (\<lambda>t. (t, g)) ts" "distinct ts" "set ts \<inter> fst ` set ix = {}"
      by (simp_all add: index_group_Inr_iff)
    then have d: "distinct (map fst ix2)" using Cons.prems by (auto simp: comp_def)
    have a: "ix @ title_pairs (gt # gs) = ix2 @ title_pairs gs" using ix2(1) p by simp
    show ?thesis unfolding a using Cons.IH [OF d] by (simp add: gt Inr [unfolded gt])
  qed
qed (auto simp: title_pairs_def)

text \<open>Three letters tell the titles of the transaction specification apart.\<close>

definition three_letters :: "string \<Rightarrow> int" where
  "three_letters t = of_char (t ! 6) + 256 * of_char (t ! 37) + 65536 * of_char (t ! 42)"

lemma distinct_three_letters:
  "distinct (map (\<lambda>p. three_letters (fst p)) ps) \<Longrightarrow> distinct (map fst ps)"
  using distinct_map [of three_letters "map fst ps"] by (simp add: comp_def)

lemma titles_distinct:
  "distinct (map fst (title_pairs transaction_groups))" "distinct (map fst (title_pairs mobile_matrix_groups))"
  by (rule distinct_three_letters; code_simp) code_simp

lemma group_of_title_iff:
  assumes "distinct (map fst (title_pairs gs))"
  shows "group_of_title gs title = Some g \<longleftrightarrow> (\<exists>h ts t. (h, ts) \<in> set gs \<and> t \<in> set ts \<and> title = lit t \<and> g = lit h)"
proof -
  have ix: "index_titles gs [] = Inr (title_pairs gs)"
    using index_titles_Inr_iff [of "[]" gs] assms by simp
  let ?f = "find (\<lambda>p. lit (fst p) = title) (title_pairs gs)"
  have found: "?f = Some p" if "p \<in> set (title_pairs gs)" "lit (fst p) = title" for p
    using assms that by (intro find_unique_key [where key = fst]) (auto simp: unique_keys_def)
  have "group_of_title gs title = map_option (\<lambda>p. lit (snd p)) ?f" by (simp add: group_of_title_def ix)
  also have "\<dots> = Some g \<longleftrightarrow> (\<exists>p. ?f = Some p \<and> g = lit (snd p))" by auto
  also have "\<dots> \<longleftrightarrow> (\<exists>p \<in> set (title_pairs gs). lit (fst p) = title \<and> g = lit (snd p))"
    using found find_SomeD [of _ "title_pairs gs"] by blast
  also have "\<dots> \<longleftrightarrow> (\<exists>h ts t. (h, ts) \<in> set gs \<and> t \<in> set ts \<and> title = lit t \<and> g = lit h)"
    by (fastforce simp: title_pairs_def)
  finally show ?thesis .
qed

text \<open>A test of the two specifications has a group exactly when its title is listed; other tests always have one.\<close>

lemma current_group_listed:
  assumes "dt_spec_path t \<in> {transaction_spec, mobile_matrix_spec}" "dt_title_path t \<noteq> []"
  shows "current_group t = Some g \<longleftrightarrow>
    (\<exists>h ts s. (h, ts) \<in> set (if dt_spec_path t = transaction_spec then transaction_groups else mobile_matrix_groups)
       \<and> s \<in> set ts \<and> last (dt_title_path t) = lit s \<and> g = lit h)"
  using assms by (auto simp: current_group_def group_of_title_iff [OF titles_distinct(1)]
      group_of_title_iff [OF titles_distinct(2)])

lemma current_group_other:
  "dt_spec_path t \<notin> {transaction_spec, mobile_matrix_spec} \<Longrightarrow> \<exists>g. current_group t = Some g \<and> py_strip g \<noteq> []"
  by (auto simp: current_group_def py_strip_def strip_by_Nil_iff lit_def py_space_def)

end
