(* ===== verification/Job_Queue.thy ===== *)
theory Job_Queue
  imports Job_Specs
begin

text \<open>
  Workers and the queue of the scheduler: which worker may run which project
  (\<open>worker_affinity.py\<close>), the capacity that follows the load of the host (\<open>resources.py\<close>,
  \<open>adaptive.py\<close>, \<open>adaptive_worker_pool.py\<close>) and the queue of eligible jobs with its locks and
  assignments (\<open>queue.py\<close>, \<open>queue_contracts.py\<close>, \<open>queue_timing.py\<close>, \<open>locks.py\<close>).  Times and loads
  are rationals; the clock, the sampler and the start of a capsule are arguments.
\<close>

subsection \<open>Affinity\<close>

type_synonym worker_projects = "(pystr \<times> pystr set) list"

fun chromium_projects_of :: "pystr list \<Rightarrow> scheduler_error + pystr set" where
  "chromium_projects_of [] = Inr {}"
| "chromium_projects_of (p # ps) =
     (case profile_of p of
        Inl e \<Rightarrow> Inl e
      | Inr pf \<Rightarrow>
          (case chromium_projects_of ps of
             Inl e \<Rightarrow> Inl e
           | Inr cs \<Rightarrow> Inr (if pf_browser pf = lit ''chromium'' then insert p cs else cs)))"

definition projects_of :: "job_spec list \<Rightarrow> pystr set" where
  "projects_of jobs = js_project ` set jobs"

definition plan_worker_projects :: "pystr list \<Rightarrow> job_spec list \<Rightarrow> scheduler_error + worker_projects" where
  "plan_worker_projects worker_ids jobs =
     (if worker_ids = [] then Inr []
      else case chromium_projects_of (map js_project jobs) of
             Inl e \<Rightarrow> Inl e
           | Inr chromium_projects \<Rightarrow>
               (let projects = projects_of jobs;
                    cross_browser_projects = projects - chromium_projects
                in Inr (if cross_browser_projects = {} \<or> chromium_projects = {} then map (\<lambda>w. (w, projects)) worker_ids
                        else if length worker_ids < 2 then [(hd worker_ids, projects)]
                        else map (\<lambda>w. (w, if w = last worker_ids then cross_browser_projects else chromium_projects))
                               worker_ids)))"

definition plan_adaptive_worker_projects ::
  "pystr list \<Rightarrow> pystr list \<Rightarrow> job_spec list \<Rightarrow> scheduler_error + worker_projects" where
  "plan_adaptive_worker_projects warm_worker_ids reserve_worker_ids jobs =
     (case plan_worker_projects warm_worker_ids jobs of
        Inl e \<Rightarrow> Inl e
      | Inr warm_projects \<Rightarrow>
          (case chromium_projects_of (map js_project jobs) of
             Inl e \<Rightarrow> Inl e
           | Inr chromium_projects \<Rightarrow>
               (let reserve_projects = (if chromium_projects \<noteq> {} then chromium_projects else projects_of jobs)
                in Inr (fold (\<lambda>w. AList.update w reserve_projects) reserve_worker_ids warm_projects))))"

definition adaptive_capacity_worker_order :: "pystr list \<Rightarrow> pystr list \<Rightarrow> pystr list" where
  "adaptive_capacity_worker_order warm_worker_ids reserve_worker_ids =
     (if warm_worker_ids = [] then reserve_worker_ids
      else last warm_worker_ids # butlast warm_worker_ids @ reserve_worker_ids)"

definition projects_get :: "worker_projects \<Rightarrow> pystr \<Rightarrow> pystr set" where
  "projects_get m w = (case map_of m w of Some ps \<Rightarrow> ps | None \<Rightarrow> {})"

definition plan_worker_fallback_projects ::
  "pystr list \<Rightarrow> job_spec list \<Rightarrow> worker_projects \<Rightarrow> scheduler_error + worker_projects" where
  "plan_worker_fallback_projects worker_ids jobs primary_projects =
     (case chromium_projects_of (map js_project jobs) of
        Inl e \<Rightarrow> Inl e
      | Inr chromium_projects \<Rightarrow>
          (let cross_browser_projects = projects_of jobs - chromium_projects;
               chromium_workers = filter (\<lambda>w. projects_get primary_projects w \<inter> chromium_projects \<noteq> {}
                 \<and> projects_get primary_projects w \<inter> cross_browser_projects = {}) worker_ids;
               tail_assistant = (if chromium_workers \<noteq> [] then Some (last chromium_workers) else None)
           in Inr (map (\<lambda>(w, projects).
                 (w, if chromium_projects \<noteq> {} \<and> projects \<inter> cross_browser_projects \<noteq> {} \<and> projects \<inter> chromium_projects = {}
                     then chromium_projects
                     else if Some w = tail_assistant \<and> cross_browser_projects \<noteq> {} then cross_browser_projects
                     else {})) primary_projects)))"

definition browser_engine_order :: "pystr list" where
  "browser_engine_order = [lit ''chromium'', lit ''firefox'', lit ''webkit'']"

definition browser_engines_for_projects :: "pystr list \<Rightarrow> scheduler_error + pystr list" where
  "browser_engines_for_projects projects =
     (case build_each profile_of projects of
        Inl e \<Rightarrow> Inl e
      | Inr profiles \<Rightarrow>
          (let ordered = filter (\<lambda>e. e \<in> pf_browser ` set profiles) browser_engine_order
           in Inr (if ordered \<noteq> [] then ordered else [lit ''chromium''])))"

text \<open>\<open>dict.fromkeys\<close> keeps the first of equal engines.\<close>

definition browser_engines_for_affinity :: "pystr list \<Rightarrow> pystr list \<Rightarrow> scheduler_error + pystr list" where
  "browser_engines_for_affinity primary_projects fallback_projects =
     (case browser_engines_for_projects primary_projects of
        Inl e \<Rightarrow> Inl e
      | Inr first \<Rightarrow>
          (case browser_engines_for_projects fallback_projects of
             Inl e \<Rightarrow> Inl e
           | Inr rest \<Rightarrow> Inr (rev (remdups (rev (first @ rest))))))"

subsection \<open>Capacity\<close>

record resource_sample =
  sa_cpu_percent :: rat
  sa_available_memory_percent :: rat
  sa_backend_p95_ms :: rat
  sa_recent_worker_crashes :: int
  sa_recent_unexpected_failures :: int

record adaptive_policy =
  ap_minimum :: int
  ap_maximum :: int
  ap_cooldown_seconds :: rat

datatype capacity_error =
    Adaptive_policy_config int int rat
  | Capacity_out_of_bounds int int int

definition default_policy :: adaptive_policy where
  "default_policy = \<lparr>ap_minimum = 4, ap_maximum = 10, ap_cooldown_seconds = 60\<rparr>"

definition new_policy :: "int \<Rightarrow> int \<Rightarrow> rat \<Rightarrow> capacity_error + adaptive_policy" where
  "new_policy minimum maximum cooldown_seconds =
     (if \<not> (4 \<le> minimum \<and> minimum \<le> maximum \<and> maximum \<le> 10) \<or> cooldown_seconds < 0
      then Inl (Adaptive_policy_config minimum maximum cooldown_seconds)
      else Inr \<lparr>ap_minimum = minimum, ap_maximum = maximum, ap_cooldown_seconds = cooldown_seconds\<rparr>)"

definition next_capacity ::
  "adaptive_policy \<Rightarrow> int \<Rightarrow> resource_sample \<Rightarrow> rat \<Rightarrow> int \<Rightarrow> int \<Rightarrow> bool \<Rightarrow> capacity_error + int" where
  "next_capacity p current s elapsed_seconds pressure_streak healthy_streak expansion_allowed =
     (if \<not> (ap_minimum p \<le> current \<and> current \<le> ap_maximum p)
      then Inl (Capacity_out_of_bounds current (ap_minimum p) (ap_maximum p))
      else
        let immediate_reduction = sa_available_memory_percent s < 15 \<or> sa_backend_p95_ms s > 750
              \<or> sa_recent_worker_crashes s > 0 \<or> sa_recent_unexpected_failures s > 0;
            sustained_pressure = sa_cpu_percent s \<ge> 92 \<and> sa_available_memory_percent s < 20
              \<and> sa_backend_p95_ms s > 500 \<and> pressure_streak \<ge> 2;
            healthy = sa_cpu_percent s \<le> 75 \<and> sa_available_memory_percent s \<ge> 25 \<and> sa_backend_p95_ms s \<le> 350
        in Inr (if immediate_reduction \<or> sustained_pressure then max (ap_minimum p) (current - 1)
                else if expansion_allowed \<and> healthy \<and> healthy_streak \<ge> 3 \<and> elapsed_seconds \<ge> ap_cooldown_seconds p
                then min (ap_maximum p) (current + 1)
                else current))"

record capacity_decision =
  cd_elapsed_seconds :: rat
  cd_previous :: int
  cd_capacity :: int
  cd_reason :: string
  cd_sample :: "resource_sample option"

record capacity_controller =
  cc_policy :: adaptive_policy
  cc_capacity :: int
  cc_started :: rat
  cc_sample_interval :: rat
  cc_last_sampled :: rat
  cc_last_capacity_change :: rat
  cc_decisions :: "capacity_decision list"
  cc_recent_crashes :: int
  cc_recent_failures :: int
  cc_pressure_streak :: int
  cc_healthy_streak :: int
  cc_expansion_blocked :: bool

definition new_controller ::
  "rat \<Rightarrow> int \<Rightarrow> int \<Rightarrow> adaptive_policy \<Rightarrow> rat \<Rightarrow> capacity_error + capacity_controller" where
  "new_controller now initial started_capsules requested interval =
     (case new_policy (ap_minimum requested) (min (ap_maximum requested) started_capsules) (ap_cooldown_seconds requested) of
        Inl e \<Rightarrow> Inl e
      | Inr policy \<Rightarrow>
          (if \<not> (ap_minimum policy \<le> initial \<and> initial \<le> ap_maximum policy)
           then Inl (Capacity_out_of_bounds initial (ap_minimum policy) (ap_maximum policy))
           else Inr \<lparr>cc_policy = policy, cc_capacity = initial, cc_started = now, cc_sample_interval = max 0 interval,
                     cc_last_sampled = now - max 0 interval, cc_last_capacity_change = now,
                     cc_decisions = [\<lparr>cd_elapsed_seconds = 0, cd_previous = initial, cd_capacity = initial,
                                     cd_reason = ''initial'', cd_sample = None\<rparr>],
                     cc_recent_crashes = 0, cc_recent_failures = 0, cc_pressure_streak = 0, cc_healthy_streak = 0,
                     cc_expansion_blocked = False\<rparr>))"

definition is_sustained_pressure :: "resource_sample \<Rightarrow> bool" where
  "is_sustained_pressure s \<longleftrightarrow>
     sa_cpu_percent s \<ge> 92 \<and> sa_available_memory_percent s < 20 \<and> sa_backend_p95_ms s > 500"

definition is_healthy :: "resource_sample \<Rightarrow> bool" where
  "is_healthy s \<longleftrightarrow>
     sa_cpu_percent s \<le> 75 \<and> sa_available_memory_percent s \<ge> 25 \<and> sa_backend_p95_ms s \<le> 350
     \<and> sa_recent_worker_crashes s = 0 \<and> sa_recent_unexpected_failures s = 0"

definition record_decision ::
  "rat \<Rightarrow> int \<Rightarrow> string \<Rightarrow> resource_sample option \<Rightarrow> capacity_controller \<Rightarrow> capacity_controller" where
  "record_decision now previous reason sample c =
     c\<lparr>cc_last_sampled := now,
       cc_decisions := cc_decisions c @ [\<lparr>cd_elapsed_seconds = max 0 (now - cc_started c), cd_previous = previous,
                                          cd_capacity = cc_capacity c, cd_reason = reason, cd_sample = sample\<rparr>]\<rparr>"

text \<open>The sampler answers a sample or raises \<open>OSError\<close> (\<open>None\<close>).\<close>

definition assignment_capacity ::
  "rat \<Rightarrow> resource_sample option \<Rightarrow> capacity_controller \<Rightarrow> capacity_error + (int \<times> capacity_controller)" where
  "assignment_capacity now sampled c =
     (if now - cc_last_sampled c < cc_sample_interval c then Inr (cc_capacity c, c)
      else case sampled of
             None \<Rightarrow>
               Inr (cc_capacity c, record_decision now (cc_capacity c) ''sampler-error'' None
                      (c\<lparr>cc_pressure_streak := 0, cc_healthy_streak := 0\<rparr>))
           | Some s0 \<Rightarrow>
               (let previous = cc_capacity c;
                    s = s0\<lparr>sa_recent_worker_crashes := sa_recent_worker_crashes s0 + cc_recent_crashes c,
                           sa_recent_unexpected_failures := sa_recent_unexpected_failures s0 + cc_recent_failures c\<rparr>;
                    blocked = (cc_expansion_blocked c \<or> sa_recent_worker_crashes s \<noteq> 0 \<or> sa_recent_unexpected_failures s \<noteq> 0);
                    pressure = (if is_sustained_pressure s then cc_pressure_streak c + 1 else 0);
                    healthy = (if is_healthy s then cc_healthy_streak c + 1 else 0)
                in case next_capacity (cc_policy c) previous s (max 0 (now - cc_last_capacity_change c)) pressure healthy
                          (\<not> blocked) of
                     Inl e \<Rightarrow> Inl e
                   | Inr capacity \<Rightarrow>
                       (let changed = (capacity \<noteq> previous);
                            reason = (if capacity < previous then ''overloaded''
                                      else if previous < capacity then ''healthy'' else ''stable'')
                        in Inr (capacity,
                             (record_decision now previous reason (Some s)
                               (c\<lparr>cc_capacity := capacity, cc_expansion_blocked := blocked,
                                  cc_pressure_streak := (if changed then 0 else pressure),
                                  cc_healthy_streak := (if changed then 0 else healthy),
                                  cc_last_capacity_change := (if changed then now else cc_last_capacity_change c)\<rparr>))
                               \<lparr>cc_recent_crashes := 0, cc_recent_failures := 0\<rparr>))))"

definition wait_timeout_seconds :: "rat \<Rightarrow> capacity_controller \<Rightarrow> rat" where
  "wait_timeout_seconds now c =
     (let remaining = ap_cooldown_seconds (cc_policy c) - (now - cc_last_sampled c)
      in max (1 / 20) (min (cc_sample_interval c) (max 0 remaining)))"

definition record_worker_crash :: "capacity_controller \<Rightarrow> capacity_controller" where
  "record_worker_crash c = c\<lparr>cc_recent_crashes := cc_recent_crashes c + 1, cc_expansion_blocked := True\<rparr>"

definition record_unexpected_failure :: "capacity_controller \<Rightarrow> capacity_controller" where
  "record_unexpected_failure c = c\<lparr>cc_recent_failures := cc_recent_failures c + 1, cc_expansion_blocked := True\<rparr>"

record worker_pool =
  wp_controller :: capacity_controller
  wp_reserve :: "pystr list"
  wp_capacity_order :: "pystr list"
  wp_active :: "pystr set"
  wp_stopped :: bool

definition new_pool :: "capacity_controller \<Rightarrow> pystr list \<Rightarrow> pystr list \<Rightarrow> worker_pool" where
  "new_pool c warm_worker_ids reserve_worker_ids =
     \<lparr>wp_controller = c, wp_reserve = reserve_worker_ids,
      wp_capacity_order = adaptive_capacity_worker_order warm_worker_ids reserve_worker_ids,
      wp_active = set warm_worker_ids, wp_stopped = False\<rparr>"

text \<open>
  The candidates in the order of the pool, each started while the desired number is not active; a
  worker passed over stays unsuitable.  The flag tells whether a capsule did not start.
\<close>

fun activate :: "int \<Rightarrow> (pystr \<Rightarrow> bool) \<Rightarrow> pystr list \<Rightarrow> pystr list \<Rightarrow> pystr set \<Rightarrow> pystr set \<times> bool" where
  "activate desired starts reserve [] active = (active, False)"
| "activate desired starts reserve (w # ws) active =
     (if desired \<le> int (card active) then (active, False)
      else if w \<notin> active \<and> w \<in> set reserve
      then (if starts w then activate desired starts reserve ws (insert w active) else (active, True))
      else activate desired starts reserve ws active)"

datatype pool_answer = Pool_capacity int | Pool_crash

definition pool_assignment_capacity ::
  "rat \<Rightarrow> resource_sample option \<Rightarrow> (pystr \<Rightarrow> bool) \<Rightarrow> worker_pool \<Rightarrow> capacity_error + (pool_answer \<times> worker_pool)" where
  "pool_assignment_capacity now sampled starts p =
     (case assignment_capacity now sampled (wp_controller p) of
        Inl e \<Rightarrow> Inl e
      | Inr (desired, c) \<Rightarrow>
          (let (active, failed) = activate desired starts (wp_reserve p) (wp_capacity_order p) (wp_active p);
               p' = p\<lparr>wp_controller := c, wp_active := active\<rparr>
           in Inr (if failed then Pool_crash else Pool_capacity (min desired (int (card active))), p')))"

definition worker_is_enabled :: "worker_pool \<Rightarrow> pystr \<Rightarrow> int \<Rightarrow> bool" where
  "worker_is_enabled p w capacity \<longleftrightarrow>
     w \<in> wp_active p \<and> w \<in> set (take (nat capacity) (wp_capacity_order p))"

definition stop_waiters :: "worker_pool \<Rightarrow> worker_pool" where
  "stop_waiters p = p\<lparr>wp_stopped := True\<rparr>"

subsection \<open>The queue\<close>

datatype queue_error =
    Duplicate_job_id pystr
  | Duplicate_terminal_job pystr
  | Assignment_owner pystr pystr pystr
  | Lost_assignment pystr pystr
  | Worker_already_assigned pystr pystr

record job_queue =
  jq_pending :: "job_spec list"
  jq_active_locks :: "pystr set"
  jq_assignments :: "(pystr \<times> (pystr \<times> job_spec)) list"
  jq_worker_jobs :: "(pystr \<times> pystr) list"
  jq_terminal :: "pystr set"
  jq_total :: nat
  jq_accepting :: bool
  jq_worker_projects :: "worker_projects option"
  jq_fallback_projects :: "worker_projects option"
  jq_primary_job_ids :: "(pystr \<times> pystr set) list option"

definition new_queue ::
  "job_spec list \<Rightarrow> worker_projects option \<Rightarrow> worker_projects option \<Rightarrow> queue_error + job_queue" where
  "new_queue jobs worker_projects fallback_projects =
     (case repeated {} (map js_job_id jobs) of
        Some i \<Rightarrow> Inl (Duplicate_job_id i)
      | None \<Rightarrow>
          Inr \<lparr>jq_pending = jobs, jq_active_locks = {}, jq_assignments = [], jq_worker_jobs = [], jq_terminal = {},
               jq_total = length jobs, jq_accepting = True, jq_worker_projects = worker_projects,
               jq_fallback_projects = fallback_projects,
               jq_primary_job_ids = map_option (map (\<lambda>(w, projects).
                 (w, js_job_id ` set (filter (\<lambda>j. js_project j \<in> projects) jobs)))) worker_projects\<rparr>)"

definition locks_are_compatible :: "pystr set \<Rightarrow> pystr set \<Rightarrow> bool" where
  "locks_are_compatible active requested \<longleftrightarrow> active \<inter> requested = {}"

definition set_get :: "(pystr \<times> pystr set) list option \<Rightarrow> pystr \<Rightarrow> pystr set" where
  "set_get m w = (case m of None \<Rightarrow> {} | Some ps \<Rightarrow> projects_get ps w)"

definition worker_can_run :: "job_queue \<Rightarrow> pystr \<Rightarrow> job_spec \<Rightarrow> bool" where
  "worker_can_run q w j \<longleftrightarrow>
     jq_worker_projects q = None \<or> js_project j \<in> set_get (jq_worker_projects q) w
     \<or> (js_project j \<in> set_get (jq_fallback_projects q) w \<and> set_get (jq_primary_job_ids q) w \<subseteq> jq_terminal q)"

text \<open>Longest processing time first.\<close>

definition lpt_key :: "job_spec \<Rightarrow> rat \<times> pystr" where
  "lpt_key j = (- js_estimated_seconds j, js_job_id j)"

definition eligible :: "job_queue \<Rightarrow> pystr \<Rightarrow> job_spec \<Rightarrow> bool" where
  "eligible q w j \<longleftrightarrow> locks_are_compatible (jq_active_locks q) (js_locks j) \<and> worker_can_run q w j"

definition next_job :: "job_queue \<Rightarrow> pystr \<Rightarrow> job_spec option" where
  "next_job q w = find (eligible q w) (sort_key lpt_key (jq_pending q))"

definition take_job :: "pystr \<Rightarrow> job_spec \<Rightarrow> job_queue \<Rightarrow> job_queue" where
  "take_job w j q =
     q\<lparr>jq_pending := remove1 j (jq_pending q), jq_active_locks := jq_active_locks q \<union> js_locks j,
       jq_assignments := AList.update (js_job_id j) (w, j) (jq_assignments q),
       jq_worker_jobs := AList.update w (js_job_id j) (jq_worker_jobs q)\<rparr>"

text \<open>The choice of \<open>_try_assign\<close> under the condition, without its timing.\<close>

definition assign_next :: "bool \<Rightarrow> int \<Rightarrow> pystr \<Rightarrow> job_queue \<Rightarrow> job_spec option \<times> job_queue" where
  "assign_next enabled capacity w q =
     (if \<not> jq_accepting q then (None, q)
      else case (if int (length (jq_assignments q)) < capacity \<and> enabled then next_job q w else None) of
             None \<Rightarrow> (None, q)
           | Some j \<Rightarrow> (Some j, take_job w j q))"

definition all_terminal :: "job_queue \<Rightarrow> bool" where
  "all_terminal q \<longleftrightarrow> card (jq_terminal q) = jq_total q"

definition stop_queue :: "job_queue \<Rightarrow> job_queue" where
  "stop_queue q = q\<lparr>jq_accepting := False\<rparr>"

definition finish_job :: "pystr \<Rightarrow> pystr \<Rightarrow> job_queue \<Rightarrow> queue_error + job_queue" where
  "finish_job w job_id q =
     (if job_id \<in> jq_terminal q then Inl (Duplicate_terminal_job job_id)
      else case map_of (jq_assignments q) job_id of
             None \<Rightarrow> Inl (Lost_assignment w job_id)
           | Some (owner, j) \<Rightarrow>
               (if owner \<noteq> w then Inl (Assignment_owner job_id owner w)
                else Inr (q\<lparr>jq_assignments := AList.delete job_id (jq_assignments q),
                            jq_worker_jobs := AList.delete w (jq_worker_jobs q),
                            jq_active_locks := jq_active_locks q - js_locks j,
                            jq_terminal := insert job_id (jq_terminal q)\<rparr>)))"

subsection \<open>Waiting and its timing\<close>

datatype wait_reason = Reason_eligible | Reason_affinity | Reason_lock | Reason_capacity | Reason_no_pending

definition wait_reason_of :: "bool \<Rightarrow> int \<Rightarrow> pystr \<Rightarrow> job_queue \<Rightarrow> wait_reason" where
  "wait_reason_of enabled capacity w q =
     (if capacity \<le> int (length (jq_assignments q)) \<or> \<not> enabled then Reason_capacity
      else
        let compatible = filter (worker_can_run q w) (jq_pending q)
        in if compatible = [] then (if jq_pending q \<noteq> [] then Reason_affinity else Reason_no_pending)
           else if list_ex (\<lambda>j. locks_are_compatible (jq_active_locks q) (js_locks j)) compatible then Reason_eligible
           else Reason_lock)"

record queue_timing =
  qt_started_at :: rat
  qt_assignment :: rat
  qt_eligible_idle :: rat
  qt_affinity_blocked :: rat
  qt_lock_blocked :: rat
  qt_capacity_blocked :: rat
  qt_avoidable_idle_count :: int

definition new_timing :: "rat \<Rightarrow> queue_timing" where
  "new_timing started_at =
     \<lparr>qt_started_at = started_at, qt_assignment = 0, qt_eligible_idle = 0, qt_affinity_blocked = 0,
      qt_lock_blocked = 0, qt_capacity_blocked = 0, qt_avoidable_idle_count = 0\<rparr>"

definition record_assignment :: "rat \<Rightarrow> queue_timing \<Rightarrow> queue_timing" where
  "record_assignment t m = m\<lparr>qt_assignment := qt_assignment m + max t 0\<rparr>"

definition record_wait :: "wait_reason \<Rightarrow> rat \<Rightarrow> queue_timing \<Rightarrow> queue_timing" where
  "record_wait reason t m =
     (let elapsed = max t 0
      in case reason of
           Reason_eligible \<Rightarrow>
             m\<lparr>qt_eligible_idle := qt_eligible_idle m + elapsed,
               qt_avoidable_idle_count := qt_avoidable_idle_count m + (if 1 / 4 \<le> elapsed then 1 else 0)\<rparr>
         | Reason_affinity \<Rightarrow> m\<lparr>qt_affinity_blocked := qt_affinity_blocked m + elapsed\<rparr>
         | Reason_lock \<Rightarrow> m\<lparr>qt_lock_blocked := qt_lock_blocked m + elapsed\<rparr>
         | Reason_capacity \<Rightarrow> m\<lparr>qt_capacity_blocked := qt_capacity_blocked m + elapsed\<rparr>
         | Reason_no_pending \<Rightarrow> m)"

record queue_metrics =
  qm_queue_wait :: rat
  qm_assignment :: rat
  qm_eligible_idle :: rat
  qm_affinity_blocked :: rat
  qm_lock_blocked :: rat
  qm_capacity_blocked :: rat
  qm_avoidable_idle_count :: int

definition finish_timing :: "rat \<Rightarrow> queue_timing \<Rightarrow> queue_metrics" where
  "finish_timing finished_at m =
     \<lparr>qm_queue_wait = max (finished_at - qt_started_at m) 0, qm_assignment = qt_assignment m,
      qm_eligible_idle = qt_eligible_idle m, qm_affinity_blocked = qt_affinity_blocked m,
      qm_lock_blocked = qt_lock_blocked m, qm_capacity_blocked = qt_capacity_blocked m,
      qm_avoidable_idle_count = qt_avoidable_idle_count m\<rparr>"

text \<open>The whole of \<open>_try_assign\<close>; the three readings of the clock are arguments.\<close>

definition try_assign ::
  "rat \<Rightarrow> rat \<Rightarrow> rat \<Rightarrow> bool \<Rightarrow> int \<Rightarrow> pystr \<Rightarrow> queue_timing \<Rightarrow> job_queue
   \<Rightarrow> (job_spec \<times> queue_metrics) option \<times> queue_timing \<times> job_queue" where
  "try_assign started_at assigned_at finished_at enabled capacity w m q =
     (let m' = record_assignment (assigned_at - started_at) m
      in case assign_next enabled capacity w q of
           (None, q') \<Rightarrow> (None, m', q')
         | (Some j, q') \<Rightarrow> (Some (j, finish_timing finished_at m'), m', q'))"

end
