(* ===== verification/Job_Pool.thy ===== *)
theory Job_Pool
  imports Job_Queue
begin

text \<open>
  The workers over the queue (\<open>run_worker_pool\<close> and \<open>_worker_loop\<close> of \<open>runner_worker.py\<close>,
  \<open>acquire_assignment\<close> of \<open>queue.py\<close>), cut where the code takes and leaves a lock: one event is what one
  thread does between two waits.  A notification moves every waiting worker; without a controller of the
  capacity nothing else does.
\<close>

subsection \<open>The world of a run\<close>

datatype worker_phase =
    Wp_inactive
  | Wp_ask
  | Wp_head
  | Wp_read
  | Wp_try int
  | Wp_wait
  | Wp_run job_spec
  | Wp_ended

record pool_world =
  pw_queue :: job_queue
  pw_phase :: "pystr \<Rightarrow> worker_phase"
  pw_pool :: "worker_pool option"
  pw_results :: "(pystr \<times> pystr) list"
  pw_crashes :: "pystr list"
  pw_interrupted :: bool

datatype pool_event =
    Ev_activate pystr
  | Ev_ask pystr
  | Ev_head pystr
  | Ev_read pystr rat "resource_sample option" "pystr \<Rightarrow> bool"
  | Ev_try pystr
  | Ev_timeout pystr
  | Ev_done pystr int
  | Ev_crash pystr
  | Ev_interrupt

definition set_phase :: "pystr \<Rightarrow> worker_phase \<Rightarrow> pool_world \<Rightarrow> pool_world" where
  "set_phase w p x = x\<lparr>pw_phase := (pw_phase x)(w := p)\<rparr>"

definition notify_all :: "pool_world \<Rightarrow> pool_world" where
  "notify_all x = x\<lparr>pw_phase := (\<lambda>w. case pw_phase x w of Wp_wait \<Rightarrow> Wp_head | p \<Rightarrow> p)\<rparr>"

text \<open>A worker that gets no assignment returns.\<close>

definition leave :: "pystr \<Rightarrow> pool_world \<Rightarrow> pool_world" where
  "leave w x = set_phase w Wp_ended (x\<lparr>pw_pool := map_option stop_waiters (pw_pool x)\<rparr>)"

text \<open>The handlers of \<open>_worker_loop\<close>: the queue stops, and a job that was not finished is aborted.\<close>

definition crash_worker :: "pystr \<Rightarrow> pystr option \<Rightarrow> pool_world \<Rightarrow> pool_world" where
  "crash_worker w job_id x =
     (let q1 = stop_queue (pw_queue x);
          q2 = (case job_id of
                  None \<Rightarrow> q1
                | Some i \<Rightarrow> (case finish_job w i q1 of Inl _ \<Rightarrow> q1 | Inr q \<Rightarrow> q))
      in set_phase w Wp_ended (notify_all
           (x\<lparr>pw_queue := q2,
              pw_pool := map_option (\<lambda>p. stop_waiters (p\<lparr>wp_controller := record_worker_crash (wp_controller p)\<rparr>)) (pw_pool x),
              pw_crashes := pw_crashes x @ [w]\<rparr>)))"

definition note_result :: "int \<Rightarrow> pool_world \<Rightarrow> pool_world" where
  "note_result return_code x =
     (if return_code \<noteq> 0
      then x\<lparr>pw_pool := map_option (\<lambda>p. p\<lparr>wp_controller := record_unexpected_failure (wp_controller p)\<rparr>) (pw_pool x)\<rparr>
      else x)"

fun pool_exec :: "pystr list \<Rightarrow> pool_event \<Rightarrow> pool_world \<Rightarrow> pool_world option" where
  "pool_exec ws (Ev_activate w) x =
     (case (pw_phase x w, pw_pool x) of
        (Wp_inactive, Some p) \<Rightarrow>
          (if w \<notin> set ws then None
           else if w \<in> wp_active p then Some (set_phase w Wp_ask x)
           else if wp_stopped p then Some (set_phase w Wp_ended x)
           else None)
      | _ \<Rightarrow> None)"
| "pool_exec ws (Ev_ask w) x =
     (if w \<in> set ws \<and> pw_phase x w = Wp_ask
      then Some (if w \<in> fst ` set (jq_worker_jobs (pw_queue x)) then crash_worker w None x else set_phase w Wp_head x)
      else None)"
| "pool_exec ws (Ev_head w) x =
     (if w \<in> set ws \<and> pw_phase x w = Wp_head
      then Some (if \<not> jq_accepting (pw_queue x) \<or> all_terminal (pw_queue x) then leave w x else set_phase w Wp_read x)
      else None)"
| "pool_exec ws (Ev_read w now sampled starts) x =
     (if w \<in> set ws \<and> pw_phase x w = Wp_read
      then (case pw_pool x of
              None \<Rightarrow> Some (set_phase w (Wp_try (int (jq_total (pw_queue x)))) x)
            | Some p \<Rightarrow>
                (case pool_assignment_capacity now sampled starts p of
                   Inl e \<Rightarrow> Some (crash_worker w None x)
                 | Inr (Pool_crash, p') \<Rightarrow> Some (crash_worker w None (x\<lparr>pw_pool := Some p'\<rparr>))
                 | Inr (Pool_capacity c, p') \<Rightarrow> Some (set_phase w (Wp_try c) (x\<lparr>pw_pool := Some p'\<rparr>))))
      else None)"
| "pool_exec ws (Ev_try w) x =
     (case pw_phase x w of
        Wp_try c \<Rightarrow>
          (if w \<notin> set ws then None
           else
             let enabled = (case pw_pool x of None \<Rightarrow> True | Some p \<Rightarrow> worker_is_enabled p w c)
             in case assign_next enabled c w (pw_queue x) of
                  (Some j, q) \<Rightarrow> Some (set_phase w (Wp_run j) (x\<lparr>pw_queue := q\<rparr>))
                | (None, q) \<Rightarrow>
                    Some (if \<not> jq_accepting q \<or> all_terminal q then leave w x else set_phase w Wp_wait x))
      | _ \<Rightarrow> None)"
| "pool_exec ws (Ev_timeout w) x =
     (if w \<in> set ws \<and> pw_phase x w = Wp_wait \<and> pw_pool x \<noteq> None then Some (set_phase w Wp_head x) else None)"
| "pool_exec ws (Ev_done w return_code) x =
     (case pw_phase x w of
        Wp_run j \<Rightarrow>
          (if w \<notin> set ws then None
           else
             let x1 = note_result return_code x
             in case finish_job w (js_job_id j) (pw_queue x1) of
                  Inl e \<Rightarrow> Some (crash_worker w (Some (js_job_id j)) x1)
                | Inr q \<Rightarrow> Some (set_phase w Wp_ask (notify_all
                             (x1\<lparr>pw_queue := q, pw_results := pw_results x1 @ [(w, js_job_id j)]\<rparr>))))
      | _ \<Rightarrow> None)"
| "pool_exec ws (Ev_crash w) x =
     (case pw_phase x w of
        Wp_run j \<Rightarrow> (if w \<in> set ws then Some (crash_worker w (Some (js_job_id j)) x) else None)
      | _ \<Rightarrow> None)"
| "pool_exec ws Ev_interrupt x =
     (if pw_interrupted x then None
      else Some (notify_all (x\<lparr>pw_queue := stop_queue (pw_queue x), pw_pool := map_option stop_waiters (pw_pool x),
                              pw_interrupted := True\<rparr>)))"

definition pool_init :: "job_queue \<Rightarrow> worker_pool option \<Rightarrow> pool_world" where
  "pool_init q pool =
     \<lparr>pw_queue = q, pw_phase = (\<lambda>w. if pool = None then Wp_ask else Wp_inactive), pw_pool = pool, pw_results = [],
      pw_crashes = [], pw_interrupted = False\<rparr>"

fun pool_run :: "pystr list \<Rightarrow> pool_event list \<Rightarrow> pool_world \<Rightarrow> pool_world option" where
  "pool_run ws [] x = Some x"
| "pool_run ws (e # es) x = (case pool_exec ws e x of None \<Rightarrow> None | Some y \<Rightarrow> pool_run ws es y)"

lemma pool_run_keeps:
  assumes "pool_run ws es x = Some y" "P x" "\<And>e x y. pool_exec ws e x = Some y \<Longrightarrow> P x \<Longrightarrow> P y"
  shows "P y"
  using assms(1,2) by (induction es arbitrary: x) (auto split: option.splits intro: assms(3))

lemma phase_simps [simp]:
  "pw_queue (set_phase w p x) = pw_queue x" "pw_pool (set_phase w p x) = pw_pool x"
  "pw_results (set_phase w p x) = pw_results x" "pw_crashes (set_phase w p x) = pw_crashes x"
  "pw_interrupted (set_phase w p x) = pw_interrupted x"
  "pw_phase (set_phase w p x) v = (if v = w then p else pw_phase x v)"
  "pw_queue (notify_all x) = pw_queue x" "pw_pool (notify_all x) = pw_pool x"
  "pw_results (notify_all x) = pw_results x" "pw_crashes (notify_all x) = pw_crashes x"
  "pw_interrupted (notify_all x) = pw_interrupted x"
  "pw_phase (notify_all x) v = Wp_run j \<longleftrightarrow> pw_phase x v = Wp_run j"
  "pw_phase (notify_all x) v = Wp_ended \<longleftrightarrow> pw_phase x v = Wp_ended"
  "pw_phase (notify_all x) v \<noteq> Wp_wait"
  by (simp_all add: set_phase_def notify_all_def split: worker_phase.split)

subsection \<open>What holds of the queue\<close>

definition queue_inv :: "job_spec list \<Rightarrow> job_queue \<Rightarrow> bool" where
  "queue_inv jobs q \<longleftrightarrow>
     distinct (map fst (jq_assignments q)) \<and> distinct (map fst (jq_worker_jobs q))
     \<and> jq_pending q = filter (\<lambda>j. js_job_id j \<notin> fst ` set (jq_assignments q) \<union> jq_terminal q) jobs
     \<and> jq_terminal q \<subseteq> js_job_id ` set jobs \<and> jq_total q = length jobs
     \<and> (\<forall>i w j. (i, w, j) \<in> set (jq_assignments q) \<longrightarrow> j \<in> set jobs \<and> i = js_job_id j \<and> i \<notin> jq_terminal q)
     \<and> jq_active_locks q = (\<Union>(i, w, j) \<in> set (jq_assignments q). js_locks j)
     \<and> (\<forall>i w j i' w' j'. (i, w, j) \<in> set (jq_assignments q) \<longrightarrow> (i', w', j') \<in> set (jq_assignments q) \<longrightarrow> i \<noteq> i'
          \<longrightarrow> js_locks j \<inter> js_locks j' = {})
     \<and> (\<forall>w i. (w, i) \<in> set (jq_worker_jobs q) \<longleftrightarrow> (\<exists>j. (i, w, j) \<in> set (jq_assignments q)))"

lemma queue_invD:
  assumes "queue_inv jobs q"
  shows "distinct (map fst (jq_assignments q))" "distinct (map fst (jq_worker_jobs q))"
    "jq_pending q = filter (\<lambda>j. js_job_id j \<notin> fst ` set (jq_assignments q) \<union> jq_terminal q) jobs"
    "jq_terminal q \<subseteq> js_job_id ` set jobs" "jq_total q = length jobs"
    "jq_active_locks q = (\<Union>(i, w, j) \<in> set (jq_assignments q). js_locks j)"
    "(w, i) \<in> set (jq_worker_jobs q) \<longleftrightarrow> (\<exists>j. (i, w, j) \<in> set (jq_assignments q))"
  using assms by (simp_all only: queue_inv_def)

lemma queue_inv_assigned:
  assumes "queue_inv jobs q" "(i, w, j) \<in> set (jq_assignments q)"
  shows "j \<in> set jobs" "i = js_job_id j" "i \<notin> jq_terminal q"
  using assms unfolding queue_inv_def by blast+

lemma queue_inv_locks:
  assumes "queue_inv jobs q" "(i, w, j) \<in> set (jq_assignments q)" "(i', w', j') \<in> set (jq_assignments q)" "i \<noteq> i'"
  shows "js_locks j \<inter> js_locks j' = {}"
proof -
  have "\<forall>i w j i' w' j'. (i, w, j) \<in> set (jq_assignments q) \<longrightarrow> (i', w', j') \<in> set (jq_assignments q) \<longrightarrow> i \<noteq> i'
          \<longrightarrow> js_locks j \<inter> js_locks j' = {}"
    using assms(1) unfolding queue_inv_def by (elim conjE)
  then show ?thesis using assms(2-4) by metis
qed

lemma set_AList_update:
  "distinct (map fst al) \<Longrightarrow> k \<notin> fst ` set al \<Longrightarrow> set (AList.update k v al) = insert (k, v) (set al)"
  by (induction al) auto

lemma set_AList_delete: "set (AList.delete k al) = {p \<in> set al. fst p \<noteq> k}"
  by (auto simp: AList.delete_eq)

lemma next_job_SomeD:
  assumes "next_job q w = Some j"
  shows "j \<in> set (jq_pending q)" "js_locks j \<inter> jq_active_locks q = {}" "worker_can_run q w j"
  using find_SomeD [OF assms [unfolded next_job_def]] by (auto simp: eligible_def locks_are_compatible_def)

text \<open>The chosen job is a longest one among the eligible.\<close>

lemma next_job_longest:
  assumes "next_job q w = Some j" "k \<in> set (jq_pending q)" "eligible q w k"
  shows "lpt_key j \<le> lpt_key k" "js_estimated_seconds k \<le> js_estimated_seconds j"
proof -
  have *: "find p xs = Some j \<Longrightarrow> sorted (map f xs) \<Longrightarrow> k \<in> set xs \<Longrightarrow> p k \<Longrightarrow> f j \<le> f k"
    for p :: "job_spec \<Rightarrow> bool" and f :: "job_spec \<Rightarrow> rat \<times> pystr" and xs
    by (induction xs) (auto split: if_splits)
  show "lpt_key j \<le> lpt_key k" using *[OF assms(1) [unfolded next_job_def], of lpt_key] assms(2,3) by simp
  then show "js_estimated_seconds k \<le> js_estimated_seconds j" by (auto simp: lpt_key_def less_eq_prod_def)
qed

lemma remove1_filter_pending:
  assumes "distinct (map js_job_id jobs)" "j \<in> set jobs" "P j"
  shows "remove1 j (filter P jobs) = filter (\<lambda>k. P k \<and> js_job_id k \<noteq> js_job_id j) jobs"
  using assms
proof (induction jobs)
  case (Cons k jobs)
  show ?case
  proof (cases "k = j")
    case True
    then have "\<forall>i \<in> set jobs. js_job_id i \<noteq> js_job_id j" using Cons.prems(1) by (auto simp: image_iff)
    then show ?thesis using True Cons.prems(3) by (auto intro: filter_cong)
  next
    case False
    then have "js_job_id k \<noteq> js_job_id j" using Cons.prems(1,2) by force
    then show ?thesis using Cons False by auto
  qed
qed simp

lemma take_job_inv:
  assumes inv: "queue_inv jobs q" and d: "distinct (map js_job_id jobs)"
    and j: "j \<in> set (jq_pending q)" "js_locks j \<inter> jq_active_locks q = {}" and w: "w \<notin> fst ` set (jq_worker_jobs q)"
  shows "queue_inv jobs (take_job w j q)"
    "set (jq_assignments (take_job w j q)) = insert (js_job_id j, w, j) (set (jq_assignments q))"
proof -
  note i = queue_invD [OF inv]
  have new: "j \<in> set jobs" "js_job_id j \<notin> fst ` set (jq_assignments q)" "js_job_id j \<notin> jq_terminal q"
    using j(1) unfolding i(3) by auto
  have a: "set (jq_assignments (take_job w j q)) = insert (js_job_id j, w, j) (set (jq_assignments q))"
    and b: "set (jq_worker_jobs (take_job w j q)) = insert (w, js_job_id j) (set (jq_worker_jobs q))"
    using i(1,2) new(2) w by (simp_all add: take_job_def set_AList_update)
  show "set (jq_assignments (take_job w j q)) = insert (js_job_id j, w, j) (set (jq_assignments q))" by (rule a)
  have rest: "jq_terminal (take_job w j q) = jq_terminal q" "jq_total (take_job w j q) = jq_total q"
    "jq_active_locks (take_job w j q) = jq_active_locks q \<union> js_locks j"
    by (simp_all add: take_job_def)
  have apart: "js_locks k \<inter> js_locks j = {}" if "(i', v, k) \<in> set (jq_assignments q)" for i' v k
    using j(2) that unfolding i(6) by fastforce
  show "queue_inv jobs (take_job w j q)"
    unfolding queue_inv_def a b rest
  proof (intro conjI allI impI)
    show "distinct (map fst (jq_assignments (take_job w j q)))" "distinct (map fst (jq_worker_jobs (take_job w j q)))"
      using i(1,2) by (simp_all add: take_job_def distinct_update)
    show "jq_pending (take_job w j q) =
        filter (\<lambda>k. js_job_id k \<notin> fst ` insert (js_job_id j, w, j) (set (jq_assignments q)) \<union> jq_terminal q) jobs"
      using new remove1_filter_pending [OF d new(1), of "\<lambda>k. js_job_id k \<notin> fst ` set (jq_assignments q) \<union> jq_terminal q"]
      by (auto simp: take_job_def i(3) intro: filter_cong)
    show "jq_terminal q \<subseteq> js_job_id ` set jobs" "jq_total q = length jobs" by (rule i)+
    show "jq_active_locks q \<union> js_locks j = (\<Union>(i, w, j) \<in> insert (js_job_id j, w, j) (set (jq_assignments q)). js_locks j)"
      unfolding i(6) by auto
    fix k v l
    assume "(k, v, l) \<in> insert (js_job_id j, w, j) (set (jq_assignments q))"
    then show "l \<in> set jobs" "k = js_job_id l" "k \<notin> jq_terminal q"
      using new queue_inv_assigned [OF inv] by auto
  next
    fix k v l k' v' l'
    assume "(k, v, l) \<in> insert (js_job_id j, w, j) (set (jq_assignments q))"
      "(k', v', l') \<in> insert (js_job_id j, w, j) (set (jq_assignments q))" "k \<noteq> k'"
    then consider "(k, v, l) \<in> set (jq_assignments q)" "(k', v', l') \<in> set (jq_assignments q)"
      | "(k, v, l) \<in> set (jq_assignments q)" "l' = j" | "l = j" "(k', v', l') \<in> set (jq_assignments q)"
      by blast
    then show "js_locks l \<inter> js_locks l' = {}"
    proof cases
      case 1
      then show ?thesis using \<open>k \<noteq> k'\<close> by (rule queue_inv_locks [OF inv])
    next
      case 2
      then show ?thesis using apart by blast
    next
      case 3
      then show ?thesis using apart [of k' v' l'] by (simp add: Int_commute)
    qed
  next
    fix v k
    show "(v, k) \<in> insert (w, js_job_id j) (set (jq_worker_jobs q)) \<longleftrightarrow>
        (\<exists>l. (k, v, l) \<in> insert (js_job_id j, w, j) (set (jq_assignments q)))"
      using i(7) by auto
  qed
qed

lemma finish_job_inv:
  assumes inv: "queue_inv jobs q" and d: "distinct (map js_job_id jobs)" and a: "(js_job_id j, w, j) \<in> set (jq_assignments q)"
  obtains q' where "finish_job w (js_job_id j) q = Inr q'" "queue_inv jobs q'"
    "set (jq_assignments q') = set (jq_assignments q) - {(js_job_id j, w, j)}"
    "jq_terminal q' = insert (js_job_id j) (jq_terminal q)" "js_job_id j \<notin> jq_terminal q"
    "jq_pending q' = jq_pending q" "jq_accepting q' = jq_accepting q" "jq_total q' = jq_total q"
    "jq_worker_projects q' = jq_worker_projects q" "jq_fallback_projects q' = jq_fallback_projects q"
    "jq_primary_job_ids q' = jq_primary_job_ids q"
proof -
  note i = queue_invD [OF inv] and own = queue_inv_assigned [OF inv a]
  define q' where "q' = q\<lparr>jq_assignments := AList.delete (js_job_id j) (jq_assignments q),
      jq_worker_jobs := AList.delete w (jq_worker_jobs q), jq_active_locks := jq_active_locks q - js_locks j,
      jq_terminal := insert (js_job_id j) (jq_terminal q)\<rparr>"
  have m: "map_of (jq_assignments q) (js_job_id j) = Some (w, j)" using i(1) a by simp
  have run: "finish_job w (js_job_id j) q = Inr q'" using own(3) m by (simp add: finish_job_def q'_def)
  have one: "p = (js_job_id j, w, j)" if "p \<in> set (jq_assignments q)" "fst p = js_job_id j" for p
  proof -
    have "map_of (jq_assignments q) (fst p) = Some (snd p)"
      by (rule map_of_is_SomeI [OF i(1)]) (simp add: that(1))
    with m that(2) show ?thesis by (cases p) simp
  qed
  have asg: "set (jq_assignments q') = set (jq_assignments q) - {(js_job_id j, w, j)}"
  proof -
    have "fst p \<noteq> js_job_id j \<longleftrightarrow> p \<noteq> (js_job_id j, w, j)" if "p \<in> set (jq_assignments q)" for p
      using one [OF that] by auto
    moreover have "set (jq_assignments q') = {p \<in> set (jq_assignments q). fst p \<noteq> js_job_id j}"
      by (simp add: q'_def set_AList_delete)
    ultimately show ?thesis by blast
  qed
  have busy: "v \<noteq> w" if "(k, v, l) \<in> set (jq_assignments q)" "k \<noteq> js_job_id j" for k v l
  proof
    assume "v = w"
    then have "(w, k) \<in> set (jq_worker_jobs q)" "(w, js_job_id j) \<in> set (jq_worker_jobs q)"
      using that(1) a i(7) by blast+
    then show False using that(2) eq_key_imp_eq_value [OF i(2)] by blast
  qed
  have wj: "set (jq_worker_jobs q') = {p \<in> set (jq_worker_jobs q). fst p \<noteq> w}" by (simp add: q'_def set_AList_delete)
  have apart: "js_locks l \<inter> js_locks j = {}" if "(k, v, l) \<in> set (jq_assignments q) - {(js_job_id j, w, j)}" for k v l
    using that one queue_inv_locks [OF inv _ a, of k v l] by fastforce
  have "queue_inv jobs q'"
    unfolding queue_inv_def asg wj
  proof (intro conjI allI impI)
    show "distinct (map fst (jq_assignments q'))" "distinct (map fst (jq_worker_jobs q'))"
      using i(1,2) by (simp_all add: q'_def distinct_delete)
    have "fst ` (set (jq_assignments q) - {(js_job_id j, w, j)}) \<union> jq_terminal q' = fst ` set (jq_assignments q) \<union> jq_terminal q"
      using a by (force simp: q'_def)
    then show "jq_pending q' = filter (\<lambda>k. js_job_id k \<notin> fst ` (set (jq_assignments q) - {(js_job_id j, w, j)}) \<union> jq_terminal q') jobs"
      by (simp add: q'_def i(3))
    show "jq_terminal q' \<subseteq> js_job_id ` set jobs" "jq_total q' = length jobs"
      using i(4,5) own(1) by (auto simp: q'_def)
    show "jq_active_locks q' = (\<Union>(i, w, j) \<in> set (jq_assignments q) - {(js_job_id j, w, j)}. js_locks j)"
      using apart a by (fastforce simp: q'_def i(6))
    fix k v l
    assume k: "(k, v, l) \<in> set (jq_assignments q) - {(js_job_id j, w, j)}"
    then show "l \<in> set jobs" "k = js_job_id l" using queue_inv_assigned [OF inv] by blast+
    show "k \<notin> jq_terminal q'" using k one queue_inv_assigned(3) [OF inv] by (force simp: q'_def)
  next
    fix k v l k' v' l'
    assume "(k, v, l) \<in> set (jq_assignments q) - {(js_job_id j, w, j)}"
      "(k', v', l') \<in> set (jq_assignments q) - {(js_job_id j, w, j)}" "k \<noteq> k'"
    then show "js_locks l \<inter> js_locks l' = {}" using queue_inv_locks [OF inv] by blast
  next
    fix v k
    show "(v, k) \<in> {p \<in> set (jq_worker_jobs q). fst p \<noteq> w} \<longleftrightarrow>
        (\<exists>l. (k, v, l) \<in> set (jq_assignments q) - {(js_job_id j, w, j)})"
    proof
      assume "(v, k) \<in> {p \<in> set (jq_worker_jobs q). fst p \<noteq> w}"
      then show "\<exists>l. (k, v, l) \<in> set (jq_assignments q) - {(js_job_id j, w, j)}" using i(7) by auto
    next
      assume "\<exists>l. (k, v, l) \<in> set (jq_assignments q) - {(js_job_id j, w, j)}"
      then obtain l where l: "(k, v, l) \<in> set (jq_assignments q)" "(k, v, l) \<noteq> (js_job_id j, w, j)" by blast
      then have "k \<noteq> js_job_id j" using one [of "(k, v, l)"] by auto
      then show "(v, k) \<in> {p \<in> set (jq_worker_jobs q). fst p \<noteq> w}" using l(1) busy i(7) by auto
    qed
  qed
  then show thesis
    by (rule that [OF run]) (simp_all add: asg, simp_all add: q'_def own(3))
qed

subsection \<open>What holds of a run\<close>

definition settled :: "job_queue \<Rightarrow> bool" where
  "settled q \<longleftrightarrow> \<not> jq_accepting q \<or> all_terminal q"

definition pool_inv :: "job_spec list \<Rightarrow> pool_world \<Rightarrow> bool" where
  "pool_inv jobs x \<longleftrightarrow>
     queue_inv jobs (pw_queue x)
     \<and> (\<forall>w j. pw_phase x w = Wp_run j \<longleftrightarrow> (js_job_id j, w, j) \<in> set (jq_assignments (pw_queue x)))
     \<and> distinct (map snd (pw_results x)) \<and> snd ` set (pw_results x) \<subseteq> jq_terminal (pw_queue x)
     \<and> (pw_crashes x = [] \<longrightarrow> jq_terminal (pw_queue x) = snd ` set (pw_results x))
     \<and> (jq_accepting (pw_queue x) \<or> pw_interrupted x \<or> pw_crashes x \<noteq> [])
     \<and> (\<forall>w. pw_phase x w = Wp_ended \<longrightarrow> settled (pw_queue x))
     \<and> (\<forall>p. pw_pool x = Some p \<longrightarrow> wp_stopped p \<longrightarrow> settled (pw_queue x))"

lemma pool_invD:
  assumes "pool_inv jobs x"
  shows "queue_inv jobs (pw_queue x)"
    "pw_phase x w = Wp_run j \<longleftrightarrow> (js_job_id j, w, j) \<in> set (jq_assignments (pw_queue x))"
    "distinct (map snd (pw_results x))" "snd ` set (pw_results x) \<subseteq> jq_terminal (pw_queue x)"
    "pw_crashes x = [] \<Longrightarrow> jq_terminal (pw_queue x) = snd ` set (pw_results x)"
    "jq_accepting (pw_queue x) \<or> pw_interrupted x \<or> pw_crashes x \<noteq> []"
    "pw_phase x w = Wp_ended \<Longrightarrow> settled (pw_queue x)"
    "pw_pool x = Some p \<Longrightarrow> wp_stopped p \<Longrightarrow> settled (pw_queue x)"
proof -
  show "pw_phase x w = Wp_ended \<Longrightarrow> settled (pw_queue x)"
    using assms unfolding pool_inv_def by (elim conjE) blast
qed (use assms in \<open>simp_all add: pool_inv_def\<close>)

lemma pool_invI:
  assumes "queue_inv jobs (pw_queue x)"
    and "\<And>w j. pw_phase x w = Wp_run j \<longleftrightarrow> (js_job_id j, w, j) \<in> set (jq_assignments (pw_queue x))"
    and "distinct (map snd (pw_results x))" "snd ` set (pw_results x) \<subseteq> jq_terminal (pw_queue x)"
    and "pw_crashes x = [] \<Longrightarrow> jq_terminal (pw_queue x) = snd ` set (pw_results x)"
    and "jq_accepting (pw_queue x) \<or> pw_interrupted x \<or> pw_crashes x \<noteq> []"
    and "\<And>w. pw_phase x w = Wp_ended \<Longrightarrow> settled (pw_queue x)"
    and "\<And>p. pw_pool x = Some p \<Longrightarrow> wp_stopped p \<Longrightarrow> settled (pw_queue x)"
  shows "pool_inv jobs x"
  unfolding pool_inv_def using assms by (intro conjI allI impI; assumption?) simp_all

lemma pool_inv_phase:
  assumes "pool_inv jobs x" "\<And>j. pw_phase x w \<noteq> Wp_run j" "\<And>j. p \<noteq> Wp_run j" "p = Wp_ended \<Longrightarrow> settled (pw_queue x)"
  shows "pool_inv jobs (set_phase w p x)"
proof -
  have "(js_job_id j, w, j) \<notin> set (jq_assignments (pw_queue x))" for j
    using pool_invD(2) [OF assms(1)] assms(2) by blast
  then show ?thesis
    using assms(3,4) pool_invD [OF assms(1)] by (intro pool_invI) (auto split: if_splits)
qed

lemma pool_inv_notify: "pool_inv jobs x \<Longrightarrow> pool_inv jobs (notify_all x)"
  using pool_invD [of jobs x] by (intro pool_invI) simp_all

lemma pool_inv_pool:
  assumes "pool_inv jobs x" "\<And>p. pool = Some p \<Longrightarrow> wp_stopped p \<Longrightarrow> settled (pw_queue x)"
  shows "pool_inv jobs (x\<lparr>pw_pool := pool\<rparr>)"
  using assms(2) pool_invD [OF assms(1)] by (intro pool_invI) simp_all

lemma pool_inv_leave:
  assumes "pool_inv jobs x" "\<And>j. pw_phase x w \<noteq> Wp_run j" "settled (pw_queue x)"
  shows "pool_inv jobs (leave w x)"
  unfolding leave_def using assms by (intro pool_inv_phase pool_inv_pool) simp_all

lemma queue_inv_stop: "queue_inv jobs q \<Longrightarrow> queue_inv jobs (stop_queue q)"
  by (simp add: queue_inv_def stop_queue_def)

lemma pool_inv_stop:
  assumes "pool_inv jobs x" "i \<or> c \<noteq> []" "c \<noteq> [] \<or> c = pw_crashes x"
  shows "pool_inv jobs (x\<lparr>pw_queue := stop_queue (pw_queue x), pw_pool := pool, pw_crashes := c, pw_interrupted := i\<rparr>)"
proof (rule pool_invI, goal_cases)
  case 1
  show ?case using queue_inv_stop [OF pool_invD(1) [OF assms(1)]] by simp
qed (use assms(2,3) pool_invD(2-6) [OF assms(1)] in \<open>auto simp: stop_queue_def settled_def\<close>)

lemma idle_no_job:
  assumes "pool_inv jobs x" "\<And>j. pw_phase x w \<noteq> Wp_run j"
  shows "w \<notin> fst ` set (jq_worker_jobs (pw_queue x))"
proof
  assume "w \<in> fst ` set (jq_worker_jobs (pw_queue x))"
  then obtain i where "(w, i) \<in> set (jq_worker_jobs (pw_queue x))" by force
  then obtain j where j: "(i, w, j) \<in> set (jq_assignments (pw_queue x))"
    using queue_invD(7) [OF pool_invD(1) [OF assms(1)]] by blast
  then show False
    using queue_inv_assigned(2) [OF pool_invD(1) [OF assms(1)] j] pool_invD(2) [OF assms(1)] assms(2) by blast
qed

text \<open>A job comes to its end: by its result or by an abortion.\<close>

lemma pool_inv_finish:
  assumes inv: "pool_inv jobs x" and d: "distinct (map js_job_id jobs)" and run: "pw_phase x w = Wp_run j"
    and q: "finish_job w (js_job_id j) (pw_queue x) = Inr q'" and p: "\<And>j. p \<noteq> Wp_run j" "p \<noteq> Wp_ended"
    and r: "r = pw_results x @ [(w, js_job_id j)] \<or> r = pw_results x \<and> pw_crashes x \<noteq> []"
  shows "pool_inv jobs (set_phase w p (x\<lparr>pw_queue := q', pw_results := r\<rparr>))"
proof -
  have a: "(js_job_id j, w, j) \<in> set (jq_assignments (pw_queue x))" using pool_invD(2) [OF inv] run by simp
  obtain q2 where q2: "finish_job w (js_job_id j) (pw_queue x) = Inr q2" "queue_inv jobs q2"
    "set (jq_assignments q2) = set (jq_assignments (pw_queue x)) - {(js_job_id j, w, j)}"
    "jq_terminal q2 = insert (js_job_id j) (jq_terminal (pw_queue x))" "js_job_id j \<notin> jq_terminal (pw_queue x)"
    "jq_accepting q2 = jq_accepting (pw_queue x)" "jq_total q2 = jq_total (pw_queue x)"
    by (rule finish_job_inv [OF pool_invD(1) [OF inv] d a])
  have q': "q' = q2" using q q2(1) by simp
  have t: "jq_terminal (pw_queue x) \<subseteq> js_job_id ` set jobs" by (rule queue_invD(4) [OF pool_invD(1) [OF inv]])
  have "\<not> all_terminal (pw_queue x)"
  proof
    assume "all_terminal (pw_queue x)"
    moreover have "card (js_job_id ` set jobs) = length jobs" using distinct_card [OF d] by simp
    ultimately have "jq_terminal (pw_queue x) = js_job_id ` set jobs"
      using t queue_invD(5) [OF pool_invD(1) [OF inv]] by (intro card_subset_eq) (simp_all add: all_terminal_def)
    then show False using q2(5) queue_inv_assigned(1) [OF pool_invD(1) [OF inv] a] by blast
  qed
  then have s: "settled (pw_queue x) \<Longrightarrow> settled q2" by (simp add: settled_def q2(6))
  have ph: "pw_phase (set_phase w p (x\<lparr>pw_queue := q', pw_results := r\<rparr>)) v = Wp_run l
      \<longleftrightarrow> (js_job_id l, v, l) \<in> set (jq_assignments q2)" for v l
  proof (cases "v = w")
    case True
    have "l = j" if "(js_job_id l, w, l) \<in> set (jq_assignments (pw_queue x))"
      using pool_invD(2) [OF inv, of w l] run that by simp
    then show ?thesis using p(1) True by (auto simp: q2(3))
  next
    case False
    then show ?thesis using pool_invD(2) [OF inv, of v l] by (simp add: q2(3))
  qed
  have sub: "i \<in> jq_terminal (pw_queue x)" if "(v, i) \<in> set (pw_results x)" for v i
    using that pool_invD(4) [OF inv] by force
  have res: "distinct (map snd r)" "snd ` set r \<subseteq> jq_terminal q2"
    "pw_crashes x = [] \<Longrightarrow> jq_terminal q2 = snd ` set r"
    using r q2(4,5) pool_invD(3,5) [OF inv] sub by (auto dest: sub)
  show ?thesis
  proof (rule pool_invI, goal_cases)
    case (2 v l)
    show ?case using ph by (simp add: q')
  next
    case (7 v)
    then show ?case using p(2) s pool_invD(7) [OF inv] by (auto simp: q' split: if_splits)
  next
    case (8 p)
    then show ?case using s pool_invD(8) [OF inv] by (simp add: q')
  qed (use q2 res pool_invD(6) [OF inv] in \<open>simp_all add: q'\<close>)
qed

lemma pool_inv_crash:
  assumes inv: "pool_inv jobs x" and d: "distinct (map js_job_id jobs)"
    and i: "(job_id = None \<and> (\<forall>j. pw_phase x w \<noteq> Wp_run j)) \<or> (\<exists>j. job_id = Some (js_job_id j) \<and> pw_phase x w = Wp_run j)"
  shows "pool_inv jobs (crash_worker w job_id x)"
proof -
  define pool where "pool = map_option (\<lambda>p. stop_waiters (p\<lparr>wp_controller := record_worker_crash (wp_controller p)\<rparr>)) (pw_pool x)"
  define y where "y = x\<lparr>pw_queue := stop_queue (pw_queue x), pw_pool := pool, pw_crashes := pw_crashes x @ [w],
      pw_interrupted := pw_interrupted x\<rparr>"
  have y: "pool_inv jobs y" unfolding y_def by (rule pool_inv_stop [OF inv]) simp_all
  have sy: "settled (pw_queue y)" "pw_phase y = pw_phase x" "pw_crashes y \<noteq> []" "pw_results y = pw_results x"
    by (simp_all add: y_def settled_def stop_queue_def)
  from i show ?thesis
  proof
    assume n: "job_id = None \<and> (\<forall>j. pw_phase x w \<noteq> Wp_run j)"
    then have c: "crash_worker w job_id x = set_phase w Wp_ended (notify_all y)"
      by (simp add: crash_worker_def y_def pool_def Let_def)
    show ?thesis unfolding c using y n sy by (intro pool_inv_phase pool_inv_notify) simp_all
  next
    assume "\<exists>j. job_id = Some (js_job_id j) \<and> pw_phase x w = Wp_run j"
    then obtain j where j: "job_id = Some (js_job_id j)" "pw_phase y w = Wp_run j" by (auto simp: sy)
    have a: "(js_job_id j, w, j) \<in> set (jq_assignments (pw_queue y))" using pool_invD(2) [OF y] j(2) by simp
    obtain q' where q': "finish_job w (js_job_id j) (pw_queue y) = Inr q'" "jq_accepting q' = jq_accepting (pw_queue y)"
      by (rule finish_job_inv [OF pool_invD(1) [OF y] d a])
    have f: "pool_inv jobs (set_phase w Wp_ask (y\<lparr>pw_queue := q', pw_results := pw_results y\<rparr>))"
      by (rule pool_inv_finish [OF y d j(2) q'(1)]) (simp_all add: sy)
    have "pw_queue y = stop_queue (pw_queue x)" by (simp add: y_def)
    then have c: "crash_worker w job_id x
        = set_phase w Wp_ended (notify_all (set_phase w Wp_ask (y\<lparr>pw_queue := q', pw_results := pw_results y\<rparr>)))"
      using q'(1) by (auto simp: crash_worker_def y_def pool_def Let_def j(1) set_phase_def notify_all_def fun_eq_iff)
    have "settled q'" using q'(2) by (simp add: settled_def y_def stop_queue_def)
    then show ?thesis unfolding c by (intro pool_inv_phase [OF pool_inv_notify [OF f]]) simp_all
  qed
qed

lemma assign_next_cases:
  assumes "assign_next enabled c w q = (r, q')"
  obtains (none) "r = None" "q' = q" "jq_accepting q \<Longrightarrow> enabled \<Longrightarrow> int (length (jq_assignments q)) < c \<Longrightarrow> next_job q w = None"
  | (job) j where "r = Some j" "q' = take_job w j q" "next_job q w = Some j" "jq_accepting q"
proof (cases "jq_accepting q \<and> int (length (jq_assignments q)) < c \<and> enabled")
  case True
  show thesis
  proof (cases "next_job q w")
    case None
    then show thesis using assms that(1) True by (simp add: assign_next_def)
  next
    case (Some j)
    show thesis by (rule that(2) [of j]) (use assms True Some in \<open>simp_all add: assign_next_def\<close>)
  qed
next
  case False
  then have "assign_next enabled c w q = (None, q)" by (auto simp: assign_next_def)
  then show thesis using assms that(1) False by auto
qed

lemma take_job_fields [simp]:
  "jq_terminal (take_job w j q) = jq_terminal q" "jq_total (take_job w j q) = jq_total q"
  "jq_accepting (take_job w j q) = jq_accepting q" "jq_worker_projects (take_job w j q) = jq_worker_projects q"
  "jq_fallback_projects (take_job w j q) = jq_fallback_projects q" "jq_primary_job_ids (take_job w j q) = jq_primary_job_ids q"
  "settled (take_job w j q) = settled q" "all_terminal (take_job w j q) = all_terminal q"
  by (simp_all add: take_job_def settled_def all_terminal_def)

lemma pool_inv_take:
  assumes inv: "pool_inv jobs x" and d: "distinct (map js_job_id jobs)" and w: "\<And>j. pw_phase x w \<noteq> Wp_run j"
    and j: "next_job (pw_queue x) w = Some j"
  shows "pool_inv jobs (set_phase w (Wp_run j) (x\<lparr>pw_queue := take_job w j (pw_queue x)\<rparr>))"
proof -
  note t = take_job_inv [OF pool_invD(1) [OF inv] d next_job_SomeD(1,2) [OF j] idle_no_job [OF inv w]]
  have no: "(js_job_id l, w, l) \<notin> set (jq_assignments (pw_queue x))" for l
    using pool_invD(2) [OF inv] w by blast
  have ph: "pw_phase (set_phase w (Wp_run j) (x\<lparr>pw_queue := take_job w j (pw_queue x)\<rparr>)) v = Wp_run l
      \<longleftrightarrow> (js_job_id l, v, l) \<in> insert (js_job_id j, w, j) (set (jq_assignments (pw_queue x)))" for v l
    using no pool_invD(2) [OF inv, of v l] by auto
  show ?thesis
  proof (rule pool_invI, goal_cases)
    case (2 v l)
    show ?case using ph by (simp add: t(2))
  next
    case (7 v)
    then show ?case using pool_invD(7) [OF inv] by (simp split: if_splits)
  qed (use t(1) pool_invD(3-6,8) [OF inv] in simp_all)
qed

lemma pool_exec_inv:
  assumes "pool_exec ws e x = Some y" "distinct (map js_job_id jobs)" "pool_inv jobs x"
  shows "pool_inv jobs y"
proof (cases e)
  case (Ev_activate w)
  with assms(1,3) show ?thesis
    by (auto split: worker_phase.splits option.splits if_splits intro!: pool_inv_phase dest: pool_invD(8))
next
  case (Ev_ask w)
  then have w: "pw_phase x w = Wp_ask" using assms(1) by (auto split: if_splits)
  have c: "pool_inv jobs (crash_worker w None x)" using w by (intro pool_inv_crash [OF assms(3,2)]) simp
  have "pool_inv jobs (set_phase w Wp_head x)" using w by (intro pool_inv_phase [OF assms(3)]) simp_all
  with c assms(1) Ev_ask show ?thesis by (auto split: if_splits)
next
  case (Ev_head w)
  then have w: "pw_phase x w = Wp_head" using assms(1) by (auto split: if_splits)
  have "pool_inv jobs (set_phase w Wp_read x)" using w by (intro pool_inv_phase [OF assms(3)]) simp_all
  moreover have "settled (pw_queue x) \<Longrightarrow> pool_inv jobs (leave w x)" using w by (intro pool_inv_leave [OF assms(3)]) simp_all
  ultimately show ?thesis using assms(1) Ev_head by (auto simp: settled_def split: if_splits)
next
  case (Ev_read w now sampled starts)
  then have w: "pw_phase x w = Wp_read" using assms(1) by (auto split: if_splits)
  have attempt: "pool_inv jobs (set_phase w (Wp_try c) z)" if "pool_inv jobs z" "pw_phase z = pw_phase x" for c z
    using that w by (intro pool_inv_phase) simp_all
  have crash: "pool_inv jobs (crash_worker w None z)" if "pool_inv jobs z" "pw_phase z = pw_phase x" for z
    using that w by (intro pool_inv_crash [OF _ assms(2)]) simp_all
  have keep: "pool_inv jobs (x\<lparr>pw_pool := Some p'\<rparr>)"
    if "pw_pool x = Some p" "pool_assignment_capacity now sampled starts p = Inr (a, p')" for p p' a
  proof (intro pool_inv_pool [OF assms(3)])
    fix r assume "Some p' = Some r" "wp_stopped r"
    then have "wp_stopped p" using that(2)
      by (auto simp: pool_assignment_capacity_def Let_def split: sum.splits prod.splits)
    then show "settled (pw_queue x)" using pool_invD(8) [OF assms(3) that(1)] by simp
  qed
  show ?thesis
  proof (cases "pw_pool x")
    case None
    then show ?thesis using assms(1,3) Ev_read w attempt by (auto split: if_splits)
  next
    case (Some p)
    show ?thesis
    proof (cases "pool_assignment_capacity now sampled starts p")
      case (Inl err)
      then show ?thesis using assms(1,3) Ev_read w crash Some by (auto split: if_splits)
    next
      case (Inr ap)
      obtain a p' where ap: "ap = (a, p')" by force
      show ?thesis
        using assms(1) Ev_read w Some Inr [unfolded ap] keep [OF Some Inr [unfolded ap]] attempt crash
        by (cases a) (auto split: if_splits)
    qed
  qed
next
  case (Ev_try w)
  then obtain c where c: "pw_phase x w = Wp_try c" using assms(1) by (auto split: worker_phase.splits)
  define en where "en = (case pw_pool x of None \<Rightarrow> True | Some p \<Rightarrow> worker_is_enabled p w c)"
  obtain r q where rq: "assign_next en c w (pw_queue x) = (r, q)" by force
  then show ?thesis
  proof (cases rule: assign_next_cases)
    case none
    have "pool_inv jobs (set_phase w Wp_wait x)" using c by (intro pool_inv_phase [OF assms(3)]) simp_all
    moreover have "settled (pw_queue x) \<Longrightarrow> pool_inv jobs (leave w x)" using c by (intro pool_inv_leave [OF assms(3)]) simp_all
    ultimately show ?thesis
      using assms(1) Ev_try c rq none(1,2) by (auto simp: en_def [symmetric] settled_def split: if_splits)
  next
    case (job j)
    have "pool_inv jobs (set_phase w (Wp_run j) (x\<lparr>pw_queue := take_job w j (pw_queue x)\<rparr>))"
      using c by (intro pool_inv_take [OF assms(3,2) _ job(3)]) simp
    then show ?thesis using assms(1) Ev_try c rq job(1,2) by (auto simp: en_def [symmetric] split: if_splits)
  qed
next
  case (Ev_timeout w)
  with assms(1,3) show ?thesis by (auto split: if_splits intro!: pool_inv_phase)
next
  case (Ev_done w rc)
  then obtain j where j: "pw_phase x w = Wp_run j" using assms(1) by (auto split: worker_phase.splits)
  define x1 where "x1 = note_result rc x"
  have same: "pw_queue x1 = pw_queue x" "pw_phase x1 = pw_phase x" "pw_results x1 = pw_results x"
    by (simp_all add: x1_def note_result_def)
  have x1: "pool_inv jobs x1"
    unfolding x1_def note_result_def using assms(3)
    by (auto intro!: pool_inv_pool dest: pool_invD(8))
  have a: "(js_job_id j, w, j) \<in> set (jq_assignments (pw_queue x1))" using pool_invD(2) [OF x1] j same by simp
  obtain q' where q': "finish_job w (js_job_id j) (pw_queue x1) = Inr q'"
    by (rule finish_job_inv [OF pool_invD(1) [OF x1] assms(2) a])
  let ?z = "x1\<lparr>pw_queue := q', pw_results := pw_results x1 @ [(w, js_job_id j)]\<rparr>"
  have "pool_inv jobs (notify_all (set_phase w Wp_ask ?z))"
    using j same by (intro pool_inv_notify pool_inv_finish [OF x1 assms(2) _ q']) simp_all
  moreover have "notify_all (set_phase w Wp_ask ?z) = set_phase w Wp_ask (notify_all ?z)"
    by (auto simp: notify_all_def set_phase_def fun_eq_iff)
  ultimately show ?thesis using assms(1) Ev_done j q' by (auto simp: x1_def [symmetric] split: if_splits)
next
  case (Ev_crash w)
  then obtain j where j: "pw_phase x w = Wp_run j" "y = crash_worker w (Some (js_job_id j)) x"
    using assms(1) by (auto split: worker_phase.splits if_splits)
  then show ?thesis by (auto intro: pool_inv_crash [OF assms(3,2)])
next
  case Ev_interrupt
  have "pool_inv jobs (x\<lparr>pw_queue := stop_queue (pw_queue x), pw_pool := map_option stop_waiters (pw_pool x),
      pw_crashes := pw_crashes x, pw_interrupted := True\<rparr>)"
    by (rule pool_inv_stop [OF assms(3)]) simp_all
  then show ?thesis using assms(1) Ev_interrupt by (auto split: if_splits intro!: pool_inv_notify)
qed

lemma new_queue_fields:
  assumes "new_queue jobs wp fb = Inr q"
  shows "distinct (map js_job_id jobs)"
    "q = \<lparr>jq_pending = jobs, jq_active_locks = {}, jq_assignments = [], jq_worker_jobs = [], jq_terminal = {},
               jq_total = length jobs, jq_accepting = True, jq_worker_projects = wp, jq_fallback_projects = fb,
               jq_primary_job_ids = map_option (map (\<lambda>(w, projects).
                 (w, js_job_id ` set (filter (\<lambda>j. js_project j \<in> projects) jobs)))) wp\<rparr>"
  using assms by (auto simp: new_queue_def repeated_None_iff split: option.splits)

lemma pool_inv_init:
  assumes "new_queue jobs wp fb = Inr q" "\<And>p. pool = Some p \<Longrightarrow> \<not> wp_stopped p"
  shows "pool_inv jobs (pool_init q pool)"
  using assms(2) unfolding pool_inv_def queue_inv_def new_queue_fields(2) [OF assms(1)] by (auto simp: pool_init_def)

lemma pool_run_inv:
  assumes "new_queue jobs wp fb = Inr q" "\<And>p. pool = Some p \<Longrightarrow> \<not> wp_stopped p"
    and "pool_run ws es (pool_init q pool) = Some x"
  shows "pool_inv jobs x"
  by (rule pool_run_keeps [where P = "pool_inv jobs", OF assms(3) pool_inv_init [OF assms(1,2)]])
    (simp_all add: pool_exec_inv new_queue_fields(1) [OF assms(1)])

subsection \<open>The lane that is never stranded\<close>

text \<open>
  The last warm worker, the one for the browsers other than Chromium: when nothing runs, it may take some
  pending job, one of its own projects or, once they are all done, a Chromium job.
\<close>

definition affinity :: "job_spec list \<Rightarrow> worker_projects \<Rightarrow> worker_projects \<Rightarrow> job_queue \<Rightarrow> bool" where
  "affinity jobs wp fb q \<longleftrightarrow> jq_worker_projects q = Some wp \<and> jq_fallback_projects q = Some fb
     \<and> jq_primary_job_ids q = Some (map (\<lambda>(w, projects).
          (w, js_job_id ` set (filter (\<lambda>j. js_project j \<in> projects) jobs))) wp)"

lemma affinity_kept:
  assumes "pool_exec ws e x = Some y" "affinity jobs wp fb (pw_queue x)"
  shows "affinity jobs wp fb (pw_queue y)"
proof -
  have stop: "affinity jobs wp fb (stop_queue q) = affinity jobs wp fb q" for q
    by (simp add: affinity_def stop_queue_def)
  have fin: "finish_job w i q = Inr q' \<Longrightarrow> affinity jobs wp fb q' = affinity jobs wp fb q" for w i q q'
    by (auto simp: finish_job_def affinity_def split: if_splits option.splits)
  have crash: "affinity jobs wp fb (pw_queue (crash_worker w i z)) = affinity jobs wp fb (pw_queue z)" for w i z
    by (auto simp: crash_worker_def Let_def stop fin split: option.splits sum.splits)
  have take: "affinity jobs wp fb (take_job w j q) = affinity jobs wp fb q" for w j q by (simp add: affinity_def)
  have nxt: "assign_next en c w q = (r, q') \<Longrightarrow> affinity jobs wp fb q' = affinity jobs wp fb q" for en c w q r q'
    by (erule assign_next_cases) (simp_all add: take)
  have noted: "pw_queue (note_result rc z) = pw_queue z" for rc z by (simp add: note_result_def)
  show ?thesis
  proof (cases e)
    case (Ev_try w)
    then show ?thesis using assms
      by (auto simp: Let_def leave_def nxt split: worker_phase.splits if_splits prod.splits option.splits)
  next
    case (Ev_done w rc)
    then show ?thesis using assms
      by (auto simp: Let_def crash noted fin split: worker_phase.splits if_splits sum.splits)
  qed (use assms in \<open>auto simp: crash leave_def stop split: worker_phase.splits option.splits if_splits sum.splits
         prod.splits pool_answer.splits\<close>)
qed

lemma chromium_projects_subset:
  "chromium_projects_of ps = Inr cs \<Longrightarrow> cs \<subseteq> set ps"
  by (induction ps arbitrary: cs) (auto split: sum.splits if_splits)

lemma map_of_graph: "map_of (map (\<lambda>w. (w, f w)) ws) v = (if v \<in> set ws then Some (f v) else None)"
  by (induction ws) auto

lemma map_of_pairs: "map_of (map (\<lambda>(w, ps). (w, g w ps)) al) v = map_option (g v) (map_of al v)"
  by (induction al) auto

lemma fallback_of_cross_lane:
  assumes "plan_worker_fallback_projects ws jobs wp = Inr fb" "chromium_projects_of (map js_project jobs) = Inr cs"
    and "map_of wp w = Some (projects_of jobs - cs)" "projects_of jobs - cs \<noteq> {}" "cs \<noteq> {}"
  shows "map_of fb w = Some cs"
proof -
  define D where "D = projects_of jobs - cs"
  have D: "map_of wp w = Some D" "D \<noteq> {}" "D \<inter> cs = {}" using assms(3,4) by (auto simp: D_def)
  obtain T where "fb = map (\<lambda>(w, ps). (w, if cs \<noteq> {} \<and> ps \<inter> D \<noteq> {} \<and> ps \<inter> cs = {} then cs
      else if Some w = T \<and> D \<noteq> {} then D else {})) wp"
    using assms(1) unfolding plan_worker_fallback_projects_def assms(2) sum.case Let_def D_def [symmetric] by blast
  then show ?thesis using D assms(5) by (simp add: map_of_pairs)
qed

lemma cross_lane_runs:
  assumes plan: "plan_worker_projects ws jobs = Inr wp0" and ws: "ws \<noteq> []" "distinct ws"
    and wp: "map_of wp (last ws) = map_of wp0 (last ws)"
    and fb: "plan_worker_fallback_projects ws jobs wp = Inr fb"
    and aff: "affinity jobs wp fb q" and inv: "queue_inv jobs q" and idle: "jq_assignments q = []" and pend: "jq_pending q \<noteq> []"
  shows "next_job q (last ws) \<noteq> None"
proof -
  let ?w = "last ws"
  from plan ws(1) obtain cs where cs: "chromium_projects_of (map js_project jobs) = Inr cs"
    by (auto simp: plan_worker_projects_def split: sum.splits)
  have csub: "cs \<subseteq> projects_of jobs" using chromium_projects_subset [OF cs] by (simp add: projects_of_def)
  let ?cross = "projects_of jobs - cs"
  have locks: "jq_active_locks q = {}" using queue_invD(6) [OF inv] idle by simp
  have pending: "jq_pending q = filter (\<lambda>j. js_job_id j \<notin> jq_terminal q) jobs" using queue_invD(3) [OF inv] idle by simp
  have proj: "js_project j \<in> projects_of jobs" if "j \<in> set (jq_pending q)" for j
    using that unfolding pending by (auto simp: projects_of_def)
  have "\<exists>j \<in> set (jq_pending q). worker_can_run q ?w j"
  proof (cases "?cross = {} \<or> cs = {} \<or> length ws < 2")
    case True
    have "map_of wp0 ?w = Some (projects_of jobs)"
      using plan ws True by (cases ws) (auto simp: plan_worker_projects_def cs Let_def map_of_graph)
    then have "set_get (jq_worker_projects q) ?w = projects_of jobs"
      using aff wp by (simp add: affinity_def set_get_def projects_get_def)
    then show ?thesis using pend proj by (auto simp: worker_can_run_def dest: hd_in_set)
  next
    case False
    have m: "map_of wp ?w = Some ?cross"
      using plan ws False wp by (auto simp: plan_worker_projects_def cs Let_def map_of_graph)
    have own: "set_get (jq_worker_projects q) ?w = ?cross"
      using aff m by (simp add: affinity_def set_get_def projects_get_def)
    show ?thesis
    proof (cases "\<exists>j \<in> set (jq_pending q). js_project j \<in> ?cross")
      case True
      then show ?thesis using own by (auto simp: worker_can_run_def)
    next
      case none: False
      have "map_of fb ?w = Some cs"
        using False by (intro fallback_of_cross_lane [OF fb cs m]) simp_all
      then have f: "set_get (jq_fallback_projects q) ?w = cs"
        using aff by (simp add: affinity_def set_get_def projects_get_def)
      have "set_get (jq_primary_job_ids q) ?w = js_job_id ` set (filter (\<lambda>j. js_project j \<in> ?cross) jobs)"
        using aff m by (simp add: affinity_def set_get_def projects_get_def map_of_pairs)
      moreover have "js_job_id j \<in> jq_terminal q" if "j \<in> set jobs" "js_project j \<in> ?cross" for j
        using none that unfolding pending by auto
      ultimately have "set_get (jq_primary_job_ids q) ?w \<subseteq> jq_terminal q" by auto
      moreover obtain j where j: "j \<in> set (jq_pending q)" using pend by (meson hd_in_set)
      moreover have "js_project j \<in> cs" using none proj [OF j] j by blast
      ultimately show ?thesis using f by (auto simp: worker_can_run_def)
    qed
  qed
  then obtain j where j: "j \<in> set (jq_pending q)" "eligible q ?w j"
    by (auto simp: eligible_def locks_are_compatible_def locks)
  then show ?thesis unfolding next_job_def by (auto simp: find_None_iff)
qed

text \<open>Without a controller of the capacity a worker waits only for a job that cannot be had.\<close>

definition wait_ok :: "pool_world \<Rightarrow> bool" where
  "wait_ok x \<longleftrightarrow> pw_pool x = None \<and> (\<forall>w. pw_phase x w \<noteq> Wp_inactive)
     \<and> (\<forall>w c. pw_phase x w = Wp_try c \<longrightarrow> c = int (jq_total (pw_queue x)))
     \<and> (\<forall>w. pw_phase x w = Wp_wait \<longrightarrow> \<not> settled (pw_queue x)
          \<and> (jq_total (pw_queue x) \<le> length (jq_assignments (pw_queue x)) \<or> next_job (pw_queue x) w = None))"

lemma next_job_None_iff: "next_job q w = None \<longleftrightarrow> (\<forall>j \<in> set (jq_pending q). \<not> eligible q w j)"
  by (auto simp: next_job_def find_None_iff)

lemma next_job_None_take: "next_job q v = None \<Longrightarrow> next_job (take_job w j q) v = None"
  unfolding next_job_None_iff
  by (auto simp: take_job_def eligible_def locks_are_compatible_def worker_can_run_def dest: notin_set_remove1)

lemma length_update: "length al \<le> length (AList.update k v al)"
  by (induction al) auto

lemma take_job_length: "length (jq_assignments q) \<le> length (jq_assignments (take_job w j q))"
  by (simp add: take_job_def length_update)

lemma wait_ok_take: "wait_ok x \<Longrightarrow> wait_ok (x\<lparr>pw_queue := take_job w j (pw_queue x)\<rparr>)"
  using take_job_length [of "pw_queue x" w j] next_job_None_take [of "pw_queue x" _ w j]
  by (simp add: wait_ok_def) (meson le_trans)

lemma notify_phases:
  "pw_phase (notify_all x) v = Wp_try c \<longleftrightarrow> pw_phase x v = Wp_try c"
  "pw_phase (notify_all x) v = Wp_inactive \<longleftrightarrow> pw_phase x v = Wp_inactive"
  by (simp_all add: notify_all_def split: worker_phase.split)

lemma finish_job_total: "finish_job w i q = Inr q' \<Longrightarrow> jq_total q' = jq_total q"
  by (auto simp: finish_job_def split: if_splits option.splits)

lemma wait_ok_crash: "wait_ok x \<Longrightarrow> wait_ok (crash_worker w i x)"
  by (auto simp: wait_ok_def crash_worker_def Let_def notify_phases stop_queue_def finish_job_total
      split: option.splits sum.splits)

lemma wait_ok_phase:
  assumes "wait_ok x" "p \<noteq> Wp_inactive" "\<And>c. p = Wp_try c \<Longrightarrow> c = int (jq_total (pw_queue x))" "p \<noteq> Wp_wait"
  shows "wait_ok (set_phase w p x)"
  using assms by (auto simp: wait_ok_def)

lemma wait_ok_exec:
  assumes "pool_exec ws e x = Some y" "wait_ok x"
  shows "wait_ok y"
proof -
  have pool: "pw_pool x = None" using assms(2) by (simp add: wait_ok_def)
  have leave: "wait_ok (leave w x)" for w
    unfolding leave_def using assms(2) pool by (intro wait_ok_phase) (simp_all add: wait_ok_def)
  show ?thesis
  proof (cases e)
    case (Ev_try w)
    then obtain c where c: "pw_phase x w = Wp_try c" using assms(1) by (auto split: worker_phase.splits)
    then have ct: "c = int (jq_total (pw_queue x))" using assms(2) by (simp add: wait_ok_def)
    obtain r q where rq: "assign_next True c w (pw_queue x) = (r, q)" by force
    then show ?thesis
    proof (cases rule: assign_next_cases)
      case none
      have "\<not> settled (pw_queue x) \<Longrightarrow> wait_ok (set_phase w Wp_wait x)"
        using assms(2) none(3) by (cases "jq_total (pw_queue x) \<le> length (jq_assignments (pw_queue x))")
          (simp_all add: wait_ok_def settled_def ct not_le)
      then show ?thesis
        using assms(1) Ev_try c rq none(1,2) leave by (auto simp: pool settled_def split: if_splits)
    next
      case (job j)
      have "wait_ok (x\<lparr>pw_queue := take_job w j (pw_queue x)\<rparr>)"
        using assms(2) by (intro wait_ok_take)
      then have "wait_ok (set_phase w (Wp_run j) (x\<lparr>pw_queue := take_job w j (pw_queue x)\<rparr>))"
        by (rule wait_ok_phase) simp_all
      then show ?thesis using assms(1) Ev_try c rq job(1,2) by (auto simp: pool split: if_splits)
    qed
  next
    case (Ev_done w rc)
    then obtain j where j: "pw_phase x w = Wp_run j" using assms(1) by (auto split: worker_phase.splits)
    have n: "wait_ok (note_result rc x)" using assms(2) by (simp add: note_result_def wait_ok_def)
    have "wait_ok (set_phase w Wp_ask (notify_all (z\<lparr>pw_queue := q, pw_results := r\<rparr>)))"
      if "wait_ok z" "jq_total q = jq_total (pw_queue z)" for z q r
      using that by (auto simp: wait_ok_def notify_phases)
    then show ?thesis
      using assms(1) Ev_done j n wait_ok_crash [OF n] finish_job_total
      by (auto simp: Let_def split: if_splits sum.splits)
  next
    case Ev_interrupt
    then show ?thesis using assms by (auto simp: wait_ok_def notify_phases stop_queue_def split: if_splits)
  qed (use assms pool leave in \<open>auto split: if_splits worker_phase.splits intro!: wait_ok_phase wait_ok_crash\<close>)
qed

end
