(* ===== verification/Job_Capacity.thy ===== *)
theory Job_Capacity
  imports Job_Queue
begin

text \<open>
  How the capacity of an adaptive run moves (\<open>adaptive.py\<close>, \<open>resources.py\<close>): the readings and the
  reports of workers as a list of events.
\<close>

datatype capacity_event =
    Cap_reading rat "resource_sample option"
  | Cap_crash
  | Cap_failure

fun capacity_exec :: "capacity_event \<Rightarrow> capacity_controller \<Rightarrow> capacity_error + capacity_controller" where
  "capacity_exec (Cap_reading now sampled) c =
     (case assignment_capacity now sampled c of Inl e \<Rightarrow> Inl e | Inr (_, c') \<Rightarrow> Inr c')"
| "capacity_exec Cap_crash c = Inr (record_worker_crash c)"
| "capacity_exec Cap_failure c = Inr (record_unexpected_failure c)"

fun capacity_run :: "capacity_event list \<Rightarrow> capacity_controller \<Rightarrow> capacity_error + capacity_controller" where
  "capacity_run [] c = Inr c"
| "capacity_run (e # es) c = (case capacity_exec e c of Inl err \<Rightarrow> Inl err | Inr c' \<Rightarrow> capacity_run es c')"

definition reading_times :: "capacity_event list \<Rightarrow> rat list" where
  "reading_times es = concat (map (\<lambda>e. case e of Cap_reading t _ \<Rightarrow> [t] | _ \<Rightarrow> []) es)"

definition capacity_inv :: "rat \<Rightarrow> capacity_controller \<Rightarrow> bool" where
  "capacity_inv now c \<longleftrightarrow>
     4 \<le> ap_minimum (cc_policy c) \<and> ap_minimum (cc_policy c) \<le> cc_capacity c \<and> cc_capacity c \<le> ap_maximum (cc_policy c)
     \<and> ap_maximum (cc_policy c) \<le> 10 \<and> 0 \<le> ap_cooldown_seconds (cc_policy c)
     \<and> cc_started c \<le> cc_last_capacity_change c \<and> cc_last_capacity_change c \<le> now
     \<and> cc_decisions c \<noteq> [] \<and> cd_capacity (last (cc_decisions c)) = cc_capacity c
     \<and> successively (\<lambda>d e. cd_previous e = cd_capacity d) (cc_decisions c)
     \<and> (\<forall>d \<in> set (cc_decisions c). \<bar>cd_capacity d - cd_previous d\<bar> \<le> 1
          \<and> (cd_previous d < cd_capacity d \<longrightarrow> (\<exists>s. cd_sample d = Some s \<and> is_healthy s))
          \<and> (cd_capacity d \<noteq> cd_previous d \<longrightarrow> cd_elapsed_seconds d \<le> cc_last_capacity_change c - cc_started c))
     \<and> sorted_wrt (\<lambda>d e. cd_capacity d \<noteq> cd_previous d \<and> cd_previous e < cd_capacity e \<longrightarrow>
          ap_cooldown_seconds (cc_policy c) \<le> cd_elapsed_seconds e - cd_elapsed_seconds d) (cc_decisions c)"

lemma next_capacity_ok:
  assumes "ap_minimum p \<le> current" "current \<le> ap_maximum p"
  obtains n where "next_capacity p current s elapsed pressure healthy allowed = Inr n"
    "ap_minimum p \<le> n" "n \<le> ap_maximum p" "\<bar>n - current\<bar> \<le> 1"
    "current < n \<Longrightarrow> allowed \<and> 3 \<le> healthy \<and> ap_cooldown_seconds p \<le> elapsed
       \<and> sa_cpu_percent s \<le> 75 \<and> sa_available_memory_percent s \<ge> 25 \<and> sa_backend_p95_ms s \<le> 350
       \<and> sa_recent_worker_crashes s \<le> 0 \<and> sa_recent_unexpected_failures s \<le> 0"
  using assms by (force simp: next_capacity_def Let_def split: if_splits)

lemma new_controller_inv:
  assumes "new_controller now initial started requested interval = Inr c"
  shows "capacity_inv now c" "cc_policy c = requested\<lparr>ap_maximum := min (ap_maximum requested) started\<rparr>"
    "cc_capacity c = initial" "cc_started c = now"
  using assms by (auto simp: new_controller_def new_policy_def capacity_inv_def split: if_splits sum.splits)

lemma capacity_inv_decision:
  assumes inv: "capacity_inv now c" and t: "now \<le> t"
    and n: "ap_minimum (cc_policy c) \<le> n" "n \<le> ap_maximum (cc_policy c)" "\<bar>n - cc_capacity c\<bar> \<le> 1"
    and up: "cc_capacity c < n \<Longrightarrow> ap_cooldown_seconds (cc_policy c) \<le> max 0 (t - cc_last_capacity_change c)
        \<and> (\<exists>s. sample = Some s \<and> is_healthy s)"
    and c': "cc_policy c' = cc_policy c" "cc_capacity c' = n" "cc_started c' = cc_started c"
      "cc_last_capacity_change c' = (if n \<noteq> cc_capacity c then t else cc_last_capacity_change c)"
      "cc_decisions c' = cc_decisions c @ [\<lparr>cd_elapsed_seconds = max 0 (t - cc_started c), cd_previous = cc_capacity c,
                                            cd_capacity = n, cd_reason = reason, cd_sample = sample\<rparr>]"
  shows "capacity_inv t c'"
proof -
  note i = inv [unfolded capacity_inv_def]
  have chg: "cd_elapsed_seconds d \<le> cc_last_capacity_change c - cc_started c"
    if "d \<in> set (cc_decisions c)" "cd_capacity d \<noteq> cd_previous d" for d
    using i that by blast
  have late: "cc_started c \<le> cc_last_capacity_change c" "cc_last_capacity_change c \<le> t" using i t by auto
  have old: "cd_elapsed_seconds d \<le> cc_last_capacity_change c' - cc_started c'"
    if "d \<in> set (cc_decisions c)" "cd_capacity d \<noteq> cd_previous d" for d
    using chg [OF that] late unfolding c' by auto
  have pair: "ap_cooldown_seconds (cc_policy c) \<le> max 0 (t - cc_started c) - cd_elapsed_seconds d"
    if "d \<in> set (cc_decisions c)" "cd_capacity d \<noteq> cd_previous d" "cc_capacity c < n" for d
    using chg [OF that(1,2)] up [OF that(3)] late by (auto simp: max_def split: if_splits)
  show ?thesis
    unfolding capacity_inv_def c'(1,2,5)
  proof (intro conjI)
    show "successively (\<lambda>d e. cd_previous e = cd_capacity d) (cc_decisions c @
        [\<lparr>cd_elapsed_seconds = max 0 (t - cc_started c), cd_previous = cc_capacity c, cd_capacity = n, cd_reason = reason,
          cd_sample = sample\<rparr>])"
      using i by (simp add: successively_append_iff)
    show "sorted_wrt (\<lambda>d e. cd_capacity d \<noteq> cd_previous d \<and> cd_previous e < cd_capacity e \<longrightarrow>
          ap_cooldown_seconds (cc_policy c) \<le> cd_elapsed_seconds e - cd_elapsed_seconds d) (cc_decisions c @
        [\<lparr>cd_elapsed_seconds = max 0 (t - cc_started c), cd_previous = cc_capacity c, cd_capacity = n, cd_reason = reason,
          cd_sample = sample\<rparr>])"
      using i pair by (simp add: sorted_wrt_append)
    show "cc_started c' \<le> cc_last_capacity_change c'" "cc_last_capacity_change c' \<le> t"
      using late unfolding c' by auto
    show "\<forall>d \<in> set (cc_decisions c @
        [\<lparr>cd_elapsed_seconds = max 0 (t - cc_started c), cd_previous = cc_capacity c, cd_capacity = n, cd_reason = reason,
          cd_sample = sample\<rparr>]). \<bar>cd_capacity d - cd_previous d\<bar> \<le> 1
          \<and> (cd_previous d < cd_capacity d \<longrightarrow> (\<exists>s. cd_sample d = Some s \<and> is_healthy s))
          \<and> (cd_capacity d \<noteq> cd_previous d \<longrightarrow> cd_elapsed_seconds d \<le> cc_last_capacity_change c' - cc_started c')"
    proof
      fix d
      assume "d \<in> set (cc_decisions c @ [\<lparr>cd_elapsed_seconds = max 0 (t - cc_started c), cd_previous = cc_capacity c,
          cd_capacity = n, cd_reason = reason, cd_sample = sample\<rparr>])"
      then consider "d \<in> set (cc_decisions c)" | "d = \<lparr>cd_elapsed_seconds = max 0 (t - cc_started c),
          cd_previous = cc_capacity c, cd_capacity = n, cd_reason = reason, cd_sample = sample\<rparr>" by auto
      then show "\<bar>cd_capacity d - cd_previous d\<bar> \<le> 1
          \<and> (cd_previous d < cd_capacity d \<longrightarrow> (\<exists>s. cd_sample d = Some s \<and> is_healthy s))
          \<and> (cd_capacity d \<noteq> cd_previous d \<longrightarrow> cd_elapsed_seconds d \<le> cc_last_capacity_change c' - cc_started c')"
      proof cases
        case 1
        then show ?thesis using i old by blast
      next
        case 2
        then show ?thesis using n(3) up late unfolding c' by (simp add: max_def)
      qed
    qed
  qed (use i n in simp_all)
qed

lemma capacity_exec_inv:
  assumes inv: "capacity_inv now c" and t: "\<And>t s. e = Cap_reading t s \<Longrightarrow> now \<le> t"
  obtains c' where "capacity_exec e c = Inr c'" "capacity_inv (case e of Cap_reading t _ \<Rightarrow> t | _ \<Rightarrow> now) c'"
    "cc_policy c' = cc_policy c" "cc_expansion_blocked c \<Longrightarrow> cc_expansion_blocked c' \<and> cc_capacity c' \<le> cc_capacity c"
    "e \<in> {Cap_crash, Cap_failure} \<Longrightarrow> cc_expansion_blocked c' \<and> cc_capacity c' = cc_capacity c"
proof (cases e)
  case (Cap_reading u sampled)
  note u = t [OF Cap_reading]
  have cap: "ap_minimum (cc_policy c) \<le> cc_capacity c" "cc_capacity c \<le> ap_maximum (cc_policy c)"
    using inv by (simp_all add: capacity_inv_def)
  have later: "capacity_inv u c" using inv u by (auto simp: capacity_inv_def)
  show thesis
  proof (cases "u - cc_last_sampled c < cc_sample_interval c")
    case True
    then show thesis by (intro that [of c]) (simp_all add: Cap_reading assignment_capacity_def later)
  next
    case fresh: False
    show thesis
    proof (cases sampled)
      case None
      let ?c = "record_decision u (cc_capacity c) ''sampler-error'' None (c\<lparr>cc_pressure_streak := 0, cc_healthy_streak := 0\<rparr>)"
      have "capacity_inv u ?c"
        by (rule capacity_inv_decision [OF inv u cap, of None]) (simp_all add: record_decision_def)
      then show thesis
        by (intro that [of ?c]) (simp_all add: Cap_reading assignment_capacity_def fresh None record_decision_def)
    next
      case (Some s0)
      define s where "s = s0\<lparr>sa_recent_worker_crashes := sa_recent_worker_crashes s0 + cc_recent_crashes c,
                           sa_recent_unexpected_failures := sa_recent_unexpected_failures s0 + cc_recent_failures c\<rparr>"
      define blocked where "blocked = (cc_expansion_blocked c \<or> sa_recent_worker_crashes s \<noteq> 0 \<or> sa_recent_unexpected_failures s \<noteq> 0)"
      define pressure where "pressure = (if is_sustained_pressure s then cc_pressure_streak c + 1 else 0)"
      define healthy where "healthy = (if is_healthy s then cc_healthy_streak c + 1 else 0)"
      obtain n where n: "next_capacity (cc_policy c) (cc_capacity c) s (max 0 (u - cc_last_capacity_change c)) pressure healthy
          (\<not> blocked) = Inr n" "ap_minimum (cc_policy c) \<le> n" "n \<le> ap_maximum (cc_policy c)" "\<bar>n - cc_capacity c\<bar> \<le> 1"
        and up: "cc_capacity c < n \<Longrightarrow> \<not> blocked \<and> 3 \<le> healthy
          \<and> ap_cooldown_seconds (cc_policy c) \<le> max 0 (u - cc_last_capacity_change c)"
        using next_capacity_ok [OF cap] by metis
      have well: "is_healthy s" if "cc_capacity c < n" using up [OF that] by (simp add: healthy_def split: if_splits)
      define c' where "c' = (record_decision u (cc_capacity c)
            (if n < cc_capacity c then ''overloaded'' else if cc_capacity c < n then ''healthy'' else ''stable'') (Some s)
            (c\<lparr>cc_capacity := n, cc_expansion_blocked := blocked,
               cc_pressure_streak := (if n \<noteq> cc_capacity c then 0 else pressure),
               cc_healthy_streak := (if n \<noteq> cc_capacity c then 0 else healthy),
               cc_last_capacity_change := (if n \<noteq> cc_capacity c then u else cc_last_capacity_change c)\<rparr>))
               \<lparr>cc_recent_crashes := 0, cc_recent_failures := 0\<rparr>"
      have run: "capacity_exec e c = Inr c'"
        using n(1) fresh
        by (simp add: Cap_reading Some assignment_capacity_def Let_def c'_def pressure_def healthy_def blocked_def s_def)
      have "capacity_inv u c'"
        by (rule capacity_inv_decision [OF inv u n(2-4), of "Some s"])
          (use up well in \<open>simp_all add: c'_def record_decision_def\<close>)
      moreover have "cc_policy c' = cc_policy c" "cc_expansion_blocked c' = blocked" "cc_capacity c' = n"
        by (simp_all add: c'_def record_decision_def)
      moreover have "blocked \<Longrightarrow> n \<le> cc_capacity c" using up by (cases "cc_capacity c < n") auto
      ultimately show thesis by (intro that [OF run]) (simp_all add: Cap_reading, simp add: blocked_def)
    qed
  qed
qed (use that inv in \<open>auto simp: record_worker_crash_def record_unexpected_failure_def capacity_inv_def\<close>)

lemma capacity_run_inv:
  assumes "capacity_inv now c" "sorted (now # reading_times es)"
  shows "\<exists>c' t. capacity_run es c = Inr c' \<and> capacity_inv t c' \<and> cc_policy c' = cc_policy c
    \<and> (cc_expansion_blocked c \<longrightarrow> cc_expansion_blocked c' \<and> cc_capacity c' \<le> cc_capacity c)
    \<and> now \<le> t \<and> t \<in> insert now (set (reading_times es))"
  using assms
proof (induction es arbitrary: now c)
  case Nil
  then show ?case by auto
next
  case (Cons e es)
  have t: "now \<le> t" if "e = Cap_reading t s" for t s using Cons.prems(2) that by (simp add: reading_times_def)
  obtain c1 where c1: "capacity_exec e c = Inr c1" "capacity_inv (case e of Cap_reading t _ \<Rightarrow> t | _ \<Rightarrow> now) c1"
    "cc_policy c1 = cc_policy c" "cc_expansion_blocked c \<Longrightarrow> cc_expansion_blocked c1 \<and> cc_capacity c1 \<le> cc_capacity c"
    by (rule capacity_exec_inv [OF Cons.prems(1) t]) blast+
  have "sorted ((case e of Cap_reading t _ \<Rightarrow> t | _ \<Rightarrow> now) # reading_times es)"
    using Cons.prems(2) by (cases e) (auto simp: reading_times_def)
  from Cons.IH [OF c1(2) this] obtain c2 t where c2: "capacity_run es c1 = Inr c2" "capacity_inv t c2"
    "cc_policy c2 = cc_policy c1" "cc_expansion_blocked c1 \<longrightarrow> cc_expansion_blocked c2 \<and> cc_capacity c2 \<le> cc_capacity c1"
    "(case e of Cap_reading t _ \<Rightarrow> t | _ \<Rightarrow> now) \<le> t"
    "t \<in> insert (case e of Cap_reading t _ \<Rightarrow> t | _ \<Rightarrow> now) (set (reading_times es))"
    by blast
  have "now \<le> t" using c2(5) t by (cases e) force+
  moreover have "t \<in> insert now (set (reading_times (e # es)))" using c2(6) by (cases e) (auto simp: reading_times_def)
  ultimately show ?case using c1 c2 by fastforce
qed

lemma capacity_run_append:
  "capacity_run (es @ fs) c = (case capacity_run es c of Inl e \<Rightarrow> Inl e | Inr c' \<Rightarrow> capacity_run fs c')"
  by (induction es arbitrary: c) (auto split: sum.splits)

lemma blocked_after:
  assumes "capacity_run es c = Inr c'" "cc_expansion_blocked c \<or> set es \<inter> {Cap_crash, Cap_failure} \<noteq> {}"
  shows "cc_expansion_blocked c'"
  using assms
proof (induction es arbitrary: c)
  case (Cons e es)
  then obtain c1 where c1: "capacity_exec e c = Inr c1" "capacity_run es c1 = Inr c'" by (auto split: sum.splits)
  have "cc_expansion_blocked c \<or> e \<in> {Cap_crash, Cap_failure} \<Longrightarrow> cc_expansion_blocked c1"
    using c1(1) by (cases e) (auto simp: record_worker_crash_def record_unexpected_failure_def assignment_capacity_def
        record_decision_def Let_def split: sum.splits option.splits if_splits)
  then show ?case using Cons.prems(2) by (intro Cons.IH [OF c1(2)]) auto
qed simp

end
