(* ===== verification/Job_Claims.thy ===== *)
theory Job_Claims
  imports Job_Groups Job_Pool Job_Capacity
begin

text \<open>
  The properties of the test scheduler: jobs partition the discovered tests, running jobs share no lock and
  no job runs twice, every run without a controller of the capacity ends with a result for every job, and
  the capacity follows the load slowly and within its bounds.
\<close>

subsection \<open>Every test is in one job\<close>

text \<open>C37 (every discovered test runs in exactly one job): from the tests that discovery returns and the jobs
  built from them, whatever the history, the groups and the locks, the manifest of the run is accepted; every
  job has tests of its own project and file only, the jobs contain every discovered test exactly once and
  nothing else, no selector of a test list reaches into a second job, every test list can be
  written when the files lie under the test directory, and the identifiers of the jobs differ as long as the
  shortened digests of their keys do.\<close>

theorem every_test_in_one_job:
  assumes "discover_tests relative project_profiles configured suites = Inr tests"
    and "build_jobs sha tests h resolve locks = Inr jobs"
    and "rm_tests m = tests" "rm_jobs m = jobs"
  shows "check_manifest m = None
    \<and> image_mset unestimated (mset (concat (map js_tests jobs))) = image_mset unestimated (mset tests)
    \<and> distinct (map dt_test_id (concat (map js_tests jobs)))
    \<and> (\<forall>j \<in> set jobs. js_tests j \<noteq> []
        \<and> (\<forall>t \<in> set (js_tests j). dt_project t = js_project j \<and> dt_spec_path t = js_spec_path j))
    \<and> (\<forall>j \<in> set jobs. \<forall>i \<in> set jobs. \<forall>t \<in> set (js_tests j). \<forall>u \<in> set (js_tests i).
        test_selector_key t = test_selector_key u \<longrightarrow> j = i)
    \<and> ((\<forall>t \<in> set tests. under_test_dir (dt_spec_path t)) \<longrightarrow> (\<forall>j \<in> set jobs. \<exists>text. test_list_text j = Inr text))
    \<and> (inj_on (job_id_of sha) (job_key_of ` set jobs) \<longrightarrow> distinct (map js_job_id jobs))"
proof (intro conjI)
  note d = discover_tests_ok [OF assms(1)] and p = build_jobs_partitioned [OF assms(2)]
  have ids: "mset (map dt_test_id (concat (map js_tests jobs))) = mset (map dt_test_id tests)"
    using p by (intro image_mset_unestimated_set) (simp add: partitioned_def)
  show "check_manifest m = None"
    using d(1) by (intro partitioned_manifest [OF p _ assms(3,4)]) (simp add: discovered_profile_ok)
  show "image_mset unestimated (mset (concat (map js_tests jobs))) = image_mset unestimated (mset tests)"
    using p by (simp add: partitioned_def)
  show "distinct (map dt_test_id (concat (map js_tests jobs)))"
    using mset_eq_imp_distinct_iff [OF ids] d(2) by simp
  show "\<forall>j \<in> set jobs. js_tests j \<noteq> []
      \<and> (\<forall>t \<in> set (js_tests j). dt_project t = js_project j \<and> dt_spec_path t = js_spec_path j)"
    using p by (simp add: partitioned_def)
  have keys: "inj_on job_key_of (set jobs)" "distinct jobs"
    using p by (auto simp: partitioned_def distinct_map)
  show "\<forall>j \<in> set jobs. \<forall>i \<in> set jobs. \<forall>t \<in> set (js_tests j). \<forall>u \<in> set (js_tests i).
      test_selector_key t = test_selector_key u \<longrightarrow> j = i"
  proof (intro ballI impI)
    fix j i t u
    assume *: "j \<in> set jobs" "i \<in> set jobs" "t \<in> set (js_tests j)" "u \<in> set (js_tests i)"
      "test_selector_key t = test_selector_key u"
    then have "js_logical_group j = js_logical_group i"
      using p unfolding partitioned_def by blast
    moreover have "js_project j = js_project i" "js_spec_path j = js_spec_path i"
      using p *(1-4) test_selector_key_eqD [OF *(5)] unfolding partitioned_def by metis+
    ultimately show "j = i" using *(1,2) by (intro inj_onD [OF keys(1)]) (simp_all add: job_key_of_def)
  qed
  show "(\<forall>t \<in> set tests. under_test_dir (dt_spec_path t)) \<longrightarrow> (\<forall>j \<in> set jobs. \<exists>text. test_list_text j = Inr text)"
  proof (intro impI ballI test_list_written)
    fix j t
    assume u: "\<forall>t \<in> set tests. under_test_dir (dt_spec_path t)" and j: "j \<in> set jobs" "t \<in> set (js_tests j)"
    then obtain s where s: "s \<in> set tests" "unestimated t = unestimated s"
      using p image_mset_unestimated_set(2) [of "concat (map js_tests jobs)" tests t] by (auto simp: partitioned_def)
    then show "dt_test_id t = canonical_test_id (dt_project t) (dt_spec_path t) (dt_line t) (dt_title_path t)
        \<and> under_test_dir (dt_spec_path t)"
      using u d(1) [OF s(1)] unestimated_eqD [OF s(2)] by (simp add: discovered_ok_def)
  qed
  have "map js_job_id jobs = map (job_id_of sha) (map job_key_of jobs)"
    using p by (simp add: partitioned_def)
  then show "inj_on (job_id_of sha) (job_key_of ` set jobs)
      \<longrightarrow> distinct (map js_job_id jobs)"
    using p by (simp add: partitioned_def distinct_map [of "job_id_of sha"] del: map_map)
qed

definition sample_suites :: "suite list" where
  "sample_suites =
     [Suite (lit ''a.spec.js'')
        [\<lparr>si_title = lit ''opens'', si_file = lit ''a.spec.js'', si_line = 3, si_projects = [lit ''desktop-chromium'', lit ''matrix-firefox'']\<rparr>]
        [Suite (lit ''forms'')
           [\<lparr>si_title = lit ''saves'', si_file = lit ''a.spec.js'', si_line = 9, si_projects = [lit ''desktop-chromium'']\<rparr>] []]]"

definition sample_relative :: "pystr \<Rightarrow> scheduler_error + path" where
  "sample_relative f = Inr (playwright_test_dir @ [f])"

definition sample_digest :: "pystr \<Rightarrow> pystr" where
  "sample_digest s = [foldl (\<lambda>a c. a * 31 + c) 7 s]"

definition no_history :: duration_history where
  "no_history = \<lparr>hs_records = [], hs_browser_overheads = [], hs_version = 2\<rparr>"

definition sample_tests :: "discovered_test list" where
  "sample_tests = (case discover_tests sample_relative project_profiles [lit ''desktop-chromium''] sample_suites of Inr ts \<Rightarrow> ts | Inl _ \<Rightarrow> [])"

definition sample_jobs :: "job_spec list" where
  "sample_jobs = (case build_jobs sample_digest sample_tests no_history current_group (resolve_locks current_lock_declarations) of
     Inr js \<Rightarrow> js | Inl _ \<Rightarrow> [])"

theorem every_test_in_one_job_witness:
  "map dt_line (concat (map js_tests sample_jobs)) = [3, 9, 3] \<and> length sample_jobs = 2
   \<and> distinct (map dt_test_id (concat (map js_tests sample_jobs)))
   \<and> check_manifest \<lparr>rm_run_id = lit ''r'', rm_tests = sample_tests, rm_jobs = sample_jobs, rm_playwright_args = [],
       rm_benchmark_invocation_id = None, rm_benchmark_label = None\<rparr> = None"
proof -
  have "discover_tests sample_relative project_profiles [lit ''desktop-chromium''] sample_suites = Inr sample_tests"
    "build_jobs sample_digest sample_tests no_history current_group (resolve_locks current_lock_declarations) = Inr sample_jobs"
    "map dt_line (concat (map js_tests sample_jobs)) = [3, 9, 3] \<and> length sample_jobs = 2"
    by code_simp+
  then show ?thesis
    using every_test_in_one_job [where m = "\<lparr>rm_run_id = lit ''r'', rm_tests = sample_tests, rm_jobs = sample_jobs,
        rm_playwright_args = [], rm_benchmark_invocation_id = None, rm_benchmark_label = None\<rparr>"] by simp
qed

subsection \<open>Runs end\<close>

fun phase_rank :: "worker_phase \<Rightarrow> nat" where
  "phase_rank Wp_inactive = 6"
| "phase_rank Wp_ask = 6"
| "phase_rank Wp_head = 5"
| "phase_rank Wp_read = 4"
| "phase_rank (Wp_try c) = 3"
| "phase_rank (Wp_run j) = 2"
| "phase_rank Wp_wait = 1"
| "phase_rank Wp_ended = 0"

lemma phase_rank_le: "phase_rank p \<le> 6"
  by (cases p) simp_all

definition work_left :: "pool_world \<Rightarrow> nat" where
  "work_left x = (jq_total (pw_queue x) - card (jq_terminal (pw_queue x))) + (if pw_interrupted x then 0 else 1)
     + length (jq_pending (pw_queue x))"

definition pool_measure :: "pystr list \<Rightarrow> pool_world \<Rightarrow> nat" where
  "pool_measure ws x = work_left x * (7 * card (set ws) + 1) + (\<Sum>w \<in> set ws. phase_rank (pw_phase x w))"

lemma rank_sum_le: "(\<Sum>w \<in> set ws. phase_rank (pw_phase x w)) \<le> 6 * card (set ws)"
  using sum_bounded_above [of "set ws" "\<lambda>w. phase_rank (pw_phase x w)" 6] phase_rank_le by simp

lemma measure_work:
  assumes "work_left y < work_left x"
  shows "pool_measure ws y < pool_measure ws x"
proof -
  have "(work_left y + 1) * (7 * card (set ws) + 1) \<le> work_left x * (7 * card (set ws) + 1)"
    using assms by (intro mult_le_mono1) simp
  then show ?thesis using rank_sum_le [of y ws] by (simp add: pool_measure_def)
qed

lemma measure_phase:
  assumes "w \<in> set ws" "phase_rank p < phase_rank (pw_phase x w)" "pw_phase y = (pw_phase x)(w := p)" "work_left y = work_left x"
  shows "pool_measure ws y < pool_measure ws x"
proof -
  have "(\<Sum>v \<in> set ws. phase_rank (pw_phase y v)) < (\<Sum>v \<in> set ws. phase_rank (pw_phase x v))"
    using assms(1-3) by (intro sum_strict_mono_ex1) auto
  then show ?thesis by (simp add: pool_measure_def assms(4))
qed

lemma work_left_simps [simp]:
  "work_left (set_phase w p x) = work_left x" "work_left (notify_all x) = work_left x"
  by (simp_all add: work_left_def)

lemma finish_less_work:
  assumes inv: "pool_inv jobs x" and d: "distinct (map js_job_id jobs)" and run: "pw_phase x w = Wp_run j"
  obtains q' where "finish_job w (js_job_id j) (pw_queue x) = Inr q'"
    "\<And>pool r c. work_left (x\<lparr>pw_queue := q', pw_pool := pool, pw_results := r, pw_crashes := c\<rparr>) < work_left x"
proof -
  have a: "(js_job_id j, w, j) \<in> set (jq_assignments (pw_queue x))" using pool_invD(2) [OF inv] run by simp
  obtain q' where q': "finish_job w (js_job_id j) (pw_queue x) = Inr q'" "queue_inv jobs q'"
    "jq_terminal q' = insert (js_job_id j) (jq_terminal (pw_queue x))" "js_job_id j \<notin> jq_terminal (pw_queue x)"
    "jq_pending q' = jq_pending (pw_queue x)" "jq_total q' = jq_total (pw_queue x)"
    by (rule finish_job_inv [OF pool_invD(1) [OF inv] d a])
  have fin: "finite (jq_terminal q')" using finite_subset [OF queue_invD(4) [OF q'(2)]] by simp
  then have "card (jq_terminal q') = card (jq_terminal (pw_queue x)) + 1" using q'(3,4) by simp
  moreover have "card (jq_terminal q') \<le> jq_total q'"
  proof -
    have "card (jq_terminal q') \<le> card (js_job_id ` set jobs)" by (intro card_mono queue_invD(4) [OF q'(2)]) simp
    also have "\<dots> \<le> length jobs" using card_image_le [of "set jobs" js_job_id] card_length [of jobs] by simp
    finally show ?thesis using queue_invD(5) [OF q'(2)] by simp
  qed
  ultimately show thesis by (intro that [OF q'(1)]) (simp add: work_left_def q'(5,6))
qed

lemma crash_less_work:
  assumes "pool_inv jobs x" "distinct (map js_job_id jobs)" "pw_phase x w = Wp_run j"
  shows "work_left (crash_worker w (Some (js_job_id j)) x) < work_left x"
proof -
  obtain q' where q': "finish_job w (js_job_id j) (pw_queue x) = Inr q'"
    "\<And>pool r c. work_left (x\<lparr>pw_queue := q', pw_pool := pool, pw_results := r, pw_crashes := c\<rparr>) < work_left x"
    by (rule finish_less_work [OF assms]) blast
  have f: "finish_job w (js_job_id j) (stop_queue (pw_queue x)) = Inr (stop_queue q')"
    using q'(1) by (auto simp: finish_job_def stop_queue_def split: if_splits option.splits)
  show ?thesis using q'(2) [where r = "pw_results x"]
    by (simp add: crash_worker_def f) (simp add: work_left_def stop_queue_def)
qed

lemma pool_exec_measure:
  assumes "pool_exec ws e x = Some y" "distinct (map js_job_id jobs)" "pool_inv jobs x" "wait_ok x"
  shows "pool_measure ws y < pool_measure ws x"
proof -
  have pool: "pw_pool x = None" and act: "pw_phase x w \<noteq> Wp_inactive" for w
    using assms(4) by (simp_all add: wait_ok_def)
  have leave: "leave w x = set_phase w Wp_ended x" for w
    using pool by (cases x) (simp add: leave_def set_phase_def)
  have step: "pool_measure ws (set_phase w p x) < pool_measure ws x"
    if "w \<in> set ws" "phase_rank p < phase_rank (pw_phase x w)" for w p
    by (rule measure_phase [OF that]) (simp_all add: set_phase_def work_left_def)
  show ?thesis
  proof (cases e)
    case (Ev_activate w)
    then show ?thesis using assms(1) pool by (auto split: worker_phase.splits)
  next
    case (Ev_ask w)
    then have "pw_phase x w = Wp_ask" using assms(1) by (auto split: if_splits)
    then have "w \<notin> fst ` set (jq_worker_jobs (pw_queue x))" by (intro idle_no_job [OF assms(3)]) simp
    then show ?thesis using assms(1) Ev_ask step by (auto split: if_splits)
  next
    case (Ev_head w)
    then show ?thesis using assms(1) step by (auto simp: leave split: if_splits)
  next
    case (Ev_read w now sampled starts)
    then show ?thesis using assms(1) step by (auto simp: pool split: if_splits)
  next
    case (Ev_try w)
    then obtain c where c: "pw_phase x w = Wp_try c" using assms(1) by (auto split: worker_phase.splits)
    then have w: "w \<in> set ws" using assms(1) Ev_try by (auto split: if_splits)
    obtain r q where rq: "assign_next True c w (pw_queue x) = (r, q)" by force
    then show ?thesis
    proof (cases rule: assign_next_cases)
      case none
      then show ?thesis using assms(1) Ev_try c w rq step [OF w] by (auto simp: pool leave split: if_splits)
    next
      case (job j)
      have "length (jq_pending (take_job w j (pw_queue x))) < length (jq_pending (pw_queue x))"
        using next_job_SomeD(1) [OF job(3)] length_pos_if_in_set [OF next_job_SomeD(1) [OF job(3)]]
        by (simp add: take_job_def length_remove1)
      then have "work_left (set_phase w (Wp_run j) (x\<lparr>pw_queue := take_job w j (pw_queue x)\<rparr>)) < work_left x"
        by (simp add: work_left_def)
      then show ?thesis using assms(1) Ev_try c w rq job(1,2) measure_work by (auto simp: pool)
    qed
  next
    case (Ev_timeout w)
    then show ?thesis using assms(1) pool by simp
  next
    case (Ev_done w rc)
    then obtain j where j: "pw_phase x w = Wp_run j" using assms(1) by (auto split: worker_phase.splits)
    have n: "note_result rc x = x" by (simp add: note_result_def pool)
    obtain q' where q': "finish_job w (js_job_id j) (pw_queue x) = Inr q'"
      "\<And>pool r c. work_left (x\<lparr>pw_queue := q', pw_pool := pool, pw_results := r, pw_crashes := c\<rparr>) < work_left x"
      by (rule finish_less_work [OF assms(3,2) j]) blast
    show ?thesis
      using assms(1) Ev_done j q'(1) q'(2) [where pool = "pw_pool x" and c = "pw_crashes x"] n
      by (auto split: if_splits intro!: measure_work)
  next
    case (Ev_crash w)
    then show ?thesis using assms(1) crash_less_work [OF assms(3,2)]
      by (auto split: worker_phase.splits if_splits intro!: measure_work)
  next
    case Ev_interrupt
    then show ?thesis using assms(1)
      by (auto split: if_splits intro!: measure_work simp: work_left_def stop_queue_def)
  qed
qed

lemma pool_run_bound:
  assumes "pool_run ws es x = Some y" "distinct (map js_job_id jobs)" "pool_inv jobs x" "wait_ok x"
  shows "length es + pool_measure ws y \<le> pool_measure ws x"
  using assms
proof (induction es arbitrary: x)
  case (Cons e es)
  then obtain z where z: "pool_exec ws e x = Some z" "pool_run ws es z = Some y" by (auto split: option.splits)
  have "length es + pool_measure ws y \<le> pool_measure ws z"
    by (rule Cons.IH [OF z(2) Cons.prems(2) pool_exec_inv [OF z(1) Cons.prems(2,3)] wait_ok_exec [OF z(1) Cons.prems(4)]])
  then show ?case using pool_exec_measure [OF z(1) Cons.prems(2-4)] by simp
qed simp

text \<open>A worker whose next event does not exist waits or has returned.\<close>

lemma quiet_phases:
  assumes "\<forall>e. e \<noteq> Ev_interrupt \<longrightarrow> pool_exec ws e x = None" "wait_ok x" "w \<in> set ws"
  shows "pw_phase x w \<in> {Wp_wait, Wp_ended}"
proof (cases "pw_phase x w")
  case Wp_inactive
  then show ?thesis using assms(2) by (simp add: wait_ok_def)
next
  case Wp_ask
  then show ?thesis using spec [OF assms(1), of "Ev_ask w"] assms(3) by simp
next
  case Wp_head
  then show ?thesis using spec [OF assms(1), of "Ev_head w"] assms(3) by simp
next
  case Wp_read
  have "pw_pool x = None" using assms(2) by (simp add: wait_ok_def)
  then show ?thesis using spec [OF assms(1), of "Ev_read w t s (\<lambda>_. True)" for t s] Wp_read assms(3) by simp
next
  case (Wp_try c)
  then show ?thesis using spec [OF assms(1), of "Ev_try w"] assms(3) by (auto simp: Let_def split: prod.splits option.splits)
next
  case (Wp_run j)
  then show ?thesis using spec [OF assms(1), of "Ev_crash w"] assms(3) by simp
qed simp_all

lemma all_terminal_iff:
  assumes "queue_inv jobs q" "distinct (map js_job_id jobs)"
  shows "all_terminal q \<longleftrightarrow> jq_terminal q = js_job_id ` set jobs"
proof -
  have c: "card (js_job_id ` set jobs) = length jobs" using distinct_card [OF assms(2)] by simp
  show ?thesis
    unfolding all_terminal_def queue_invD(5) [OF assms(1)]
    using card_subset_eq [OF _ queue_invD(4) [OF assms(1)]] c by auto
qed

lemma only_workers_run:
  assumes "pool_exec ws e x = Some y" "\<forall>w j. pw_phase x w = Wp_run j \<longrightarrow> w \<in> set ws"
  shows "\<forall>w j. pw_phase y w = Wp_run j \<longrightarrow> w \<in> set ws"
proof -
  have crash: "pw_phase (crash_worker w i z) v = Wp_run j \<Longrightarrow> pw_phase z v = Wp_run j" for w i z v j
    by (auto simp: crash_worker_def Let_def split: if_splits option.splits sum.splits)
  have ret: "pw_phase (note_result rc z) = pw_phase z" for rc z by (simp add: note_result_def)
  show ?thesis
  proof (cases e)
    case (Ev_done w rc)
    then show ?thesis using assms
      by (auto simp: Let_def ret split: worker_phase.splits if_splits sum.splits dest!: crash)
  next
    case (Ev_try w)
    then show ?thesis using assms
      by (auto simp: Let_def leave_def split: worker_phase.splits if_splits option.splits prod.splits)
  qed (use assms in \<open>auto simp: leave_def split: worker_phase.splits option.splits if_splits sum.splits prod.splits
        pool_answer.splits dest!: crash\<close>)
qed

lemma quiet_ended:
  assumes quiet: "\<forall>e. e \<noteq> Ev_interrupt \<longrightarrow> pool_exec ws e x = None"
    and inv: "pool_inv jobs x" and d: "distinct (map js_job_id jobs)" and wok: "wait_ok x"
    and ws: "ws \<noteq> []" "distinct ws" and plan: "plan_worker_projects ws jobs = Inr wp"
    and fb: "plan_worker_fallback_projects ws jobs wp = Inr fb" and aff: "affinity jobs wp fb (pw_queue x)"
    and own: "\<forall>w j. pw_phase x w = Wp_run j \<longrightarrow> w \<in> set ws"
  shows "settled (pw_queue x) \<and> (\<forall>w \<in> set ws. pw_phase x w = Wp_ended)"
proof -
  let ?q = "pw_queue x"
  note ph = quiet_phases [OF quiet wok]
  have s: "settled ?q"
  proof (rule ccontr)
    assume n: "\<not> settled ?q"
    then have wait: "pw_phase x w = Wp_wait" if "w \<in> set ws" for w using ph [OF that] pool_invD(7) [OF inv] by auto
    have "jq_assignments ?q = []"
    proof (rule ccontr)
      assume "jq_assignments ?q \<noteq> []"
      then obtain i w j where a: "(i, w, j) \<in> set (jq_assignments ?q)" by (cases "jq_assignments ?q") auto
      then have "pw_phase x w = Wp_run j"
        using pool_invD(2) [OF inv] queue_inv_assigned(2) [OF pool_invD(1) [OF inv] a] by blast
      then show False using own wait by fastforce
    qed
    moreover have pend: "jq_pending ?q \<noteq> []"
    proof
      assume "jq_pending ?q = []"
      then have "js_job_id ` set jobs \<subseteq> jq_terminal ?q"
        using queue_invD(3) [OF pool_invD(1) [OF inv]] \<open>jq_assignments ?q = []\<close> by (auto simp: filter_empty_conv)
      then have "all_terminal ?q"
        using all_terminal_iff [OF pool_invD(1) [OF inv] d] queue_invD(4) [OF pool_invD(1) [OF inv]] by blast
      then show False using n by (simp add: settled_def)
    qed
    ultimately have "next_job ?q (last ws) \<noteq> None"
      by (intro cross_lane_runs [OF plan ws refl fb aff pool_invD(1) [OF inv]])
    moreover have "jq_total ?q \<le> length (jq_assignments ?q) \<or> next_job ?q (last ws) = None"
      using wok wait [of "last ws"] ws(1) by (simp add: wait_ok_def)
    moreover have "jq_total ?q \<noteq> 0"
      using pend queue_invD(3,5) [OF pool_invD(1) [OF inv]] by (cases jobs) auto
    ultimately show False using \<open>jq_assignments ?q = []\<close> by simp
  qed
  moreover have "pw_phase x w = Wp_ended" if "w \<in> set ws" for w
    using ph [OF that] s wok by (auto simp: wait_ok_def)
  ultimately show ?thesis by blast
qed

text \<open>What a run from the planned start keeps.\<close>

lemma planned_run:
  assumes "new_queue jobs (Some wp) (Some fb) = Inr q" "pool_run ws es (pool_init q None) = Some x"
  shows "distinct (map js_job_id jobs)" "pool_inv jobs x" "wait_ok x" "affinity jobs wp fb (pw_queue x)"
    "\<forall>w j. pw_phase x w = Wp_run j \<longrightarrow> w \<in> set ws"
    "length es \<le> (2 * length jobs + 1) * (7 * card (set ws) + 1) + 6 * card (set ws)"
proof -
  note q = new_queue_fields [OF assms(1)]
  show d: "distinct (map js_job_id jobs)" by (rule q(1))
  have i: "pool_inv jobs (pool_init q None)" by (rule pool_inv_init [OF assms(1)]) simp
  show "pool_inv jobs x" by (rule pool_run_inv [OF assms(1) _ assms(2)]) simp
  have w: "wait_ok (pool_init q None)" by (simp add: wait_ok_def pool_init_def)
  show "wait_ok x" by (rule pool_run_keeps [where P = wait_ok, OF assms(2) w wait_ok_exec])
  show "affinity jobs wp fb (pw_queue x)"
    by (rule pool_run_keeps [where P = "\<lambda>x. affinity jobs wp fb (pw_queue x)", OF assms(2) _ affinity_kept])
      (simp_all add: pool_init_def q(2) affinity_def)
  show "\<forall>w j. pw_phase x w = Wp_run j \<longrightarrow> w \<in> set ws"
    by (rule pool_run_keeps [where P = "\<lambda>x. \<forall>w j. pw_phase x w = Wp_run j \<longrightarrow> w \<in> set ws", OF assms(2) _ only_workers_run])
      (simp_all add: pool_init_def)
  have "length es \<le> pool_measure ws (pool_init q None)" using pool_run_bound [OF assms(2) d i w] by simp
  also have "\<dots> \<le> (2 * length jobs + 1) * (7 * card (set ws) + 1) + 6 * card (set ws)"
    using rank_sum_le [of "pool_init q None" ws]
    by (simp add: pool_measure_def work_left_def) (simp add: pool_init_def q(2))
  finally show "length es \<le> (2 * length jobs + 1) * (7 * card (set ws) + 1) + 6 * card (set ws)" .
qed

text \<open>C38 (every job gets its result): with the projects planned for the workers and without a controller
  of the capacity (a run that is not adaptive), a run of the pool has a bounded number of events, however
  the workers interleave, crash or are interrupted; and once no worker can go on, all of them have returned,
  and unless one crashed or the run was interrupted, every job has exactly one result.  With a controller a
  waiting worker asks again without bound.\<close>

theorem every_job_gets_its_result:
  assumes "plan_worker_projects ws jobs = Inr wp" "plan_worker_fallback_projects ws jobs wp = Inr fb"
    and "ws \<noteq> []" "distinct ws" "new_queue jobs (Some wp) (Some fb) = Inr q"
    and "pool_run ws es (pool_init q None) = Some x"
  shows "length es \<le> (2 * length jobs + 1) * (7 * length ws + 1) + 6 * length ws
    \<and> ((\<forall>e. e \<noteq> Ev_interrupt \<longrightarrow> pool_exec ws e x = None) \<longrightarrow>
        (\<forall>w \<in> set ws. pw_phase x w = Wp_ended)
        \<and> (pw_crashes x = [] \<and> \<not> pw_interrupted x \<longrightarrow>
             mset (map snd (pw_results x)) = mset (map js_job_id jobs)))"
proof (intro conjI impI)
  note r = planned_run [OF assms(5,6)]
  show "length es \<le> (2 * length jobs + 1) * (7 * length ws + 1) + 6 * length ws"
    using r(6) distinct_card [OF assms(4)] by simp
  assume quiet: "\<forall>e. e \<noteq> Ev_interrupt \<longrightarrow> pool_exec ws e x = None"
  note e = quiet_ended [OF quiet r(2,1,3) assms(3,4,1,2) r(4,5)]
  show "\<forall>w \<in> set ws. pw_phase x w = Wp_ended" using e by blast
  assume c: "pw_crashes x = [] \<and> \<not> pw_interrupted x"
  then have "jq_accepting (pw_queue x)" using pool_invD(6) [OF r(2)] by simp
  then have "jq_terminal (pw_queue x) = js_job_id ` set jobs"
    using e all_terminal_iff [OF pool_invD(1) [OF r(2)] r(1)] by (simp add: settled_def)
  then have "snd ` set (pw_results x) = js_job_id ` set jobs" using pool_invD(5) [OF r(2)] c by simp
  then show "mset (map snd (pw_results x)) = mset (map js_job_id jobs)"
    using pool_invD(3) [OF r(2)] r(1) by (simp only: set_eq_iff_mset_eq_distinct [symmetric] set_map)
qed

subsection \<open>Jobs that run together\<close>

text \<open>C39 (running jobs share no lock): at every moment of a run, with or without a controller of the
  capacity, two workers never run the same job nor two jobs that share a lock, every job is in exactly one
  of three places (pending, running, done), no job is started again once it is done, and no job has two
  results.\<close>

theorem running_jobs_share_no_lock:
  assumes "new_queue jobs wp fb = Inr q" "pool \<in> {None, Some (new_pool c warm reserve)}"
    and "pool_run ws es (pool_init q pool) = Some x"
  shows "(\<forall>v w i j. pw_phase x v = Wp_run i \<and> pw_phase x w = Wp_run j \<and> v \<noteq> w \<longrightarrow>
            js_job_id i \<noteq> js_job_id j \<and> js_locks i \<inter> js_locks j = {})
    \<and> (\<forall>j \<in> set jobs. (j \<in> set (jq_pending (pw_queue x))) =
          (\<not> (\<exists>w. pw_phase x w = Wp_run j) \<and> js_job_id j \<notin> jq_terminal (pw_queue x)))
    \<and> (\<forall>w j. pw_phase x w = Wp_run j \<longrightarrow> j \<in> set jobs \<and> js_job_id j \<notin> jq_terminal (pw_queue x))
    \<and> distinct (map snd (pw_results x)) \<and> snd ` set (pw_results x) \<subseteq> jq_terminal (pw_queue x)
    \<and> jq_terminal (pw_queue x) \<subseteq> js_job_id ` set jobs"
proof -
  have "pool_inv jobs x" by (rule pool_run_inv [OF assms(1) _ assms(3)]) (use assms(2) in \<open>auto simp: new_pool_def\<close>)
  note i = pool_invD [OF this] and d = new_queue_fields(1) [OF assms(1)]
  note q = queue_invD [OF i(1)]
  have apart: "js_job_id k \<noteq> js_job_id j \<and> js_locks k \<inter> js_locks j = {}"
    if "pw_phase x v = Wp_run k" "pw_phase x w = Wp_run j" "v \<noteq> w" for v w k j
  proof -
    have a: "(js_job_id k, v, k) \<in> set (jq_assignments (pw_queue x))" "(js_job_id j, w, j) \<in> set (jq_assignments (pw_queue x))"
      using that(1,2) i(2) by simp_all
    have "js_job_id k \<noteq> js_job_id j" using a that(3) eq_key_imp_eq_value [OF q(1)] by force
    then show ?thesis using queue_inv_locks [OF i(1) a] by simp
  qed
  have pending: "(j \<in> set (jq_pending (pw_queue x))) =
      (\<not> (\<exists>w. pw_phase x w = Wp_run j) \<and> js_job_id j \<notin> jq_terminal (pw_queue x))" if j: "j \<in> set jobs" for j
  proof -
    have "js_job_id j \<in> fst ` set (jq_assignments (pw_queue x)) \<longleftrightarrow> (\<exists>w. pw_phase x w = Wp_run j)"
    proof
      assume "js_job_id j \<in> fst ` set (jq_assignments (pw_queue x))"
      then obtain w k where k: "(js_job_id j, w, k) \<in> set (jq_assignments (pw_queue x))" by force
      then have "k = j"
        using queue_inv_assigned(1,2) [OF i(1) k] j d by (auto simp: distinct_map dest: inj_onD)
      then show "\<exists>w. pw_phase x w = Wp_run j" using k i(2) by blast
    next
      assume "\<exists>w. pw_phase x w = Wp_run j"
      then show "js_job_id j \<in> fst ` set (jq_assignments (pw_queue x))" using i(2) by force
    qed
    then show ?thesis using j unfolding q(3) by auto
  qed
  have running: "j \<in> set jobs \<and> js_job_id j \<notin> jq_terminal (pw_queue x)" if "pw_phase x w = Wp_run j" for w j
    using that i(2) queue_inv_assigned(1,3) [OF i(1)] by blast
  show ?thesis using apart pending running i(3,4) q(4) by blast
qed

subsection \<open>The capacity of an adaptive run\<close>

text \<open>C40 (the capacity moves slowly and within its bounds): however the load, the sampler and the workers
  behave, a controller that was accepted never fails; its capacity stays between the policy's minimum and
  maximum, at most ten and never above the number of capsules; each decision starts from the one before and
  moves by at most one; it grows only on a healthy sample, at least the cooldown after the last change, and
  never again once a worker crashed or a job failed.\<close>

theorem capacity_moves_slowly:
  assumes "new_controller start initial started requested interval = Inr c0" "sorted (start # reading_times es)"
  shows "\<exists>c. capacity_run es c0 = Inr c
    \<and> max 4 (ap_minimum requested) \<le> cc_capacity c \<and> cc_capacity c \<le> min 10 (min (ap_maximum requested) started)
    \<and> cd_capacity (last (cc_decisions c)) = cc_capacity c
    \<and> successively (\<lambda>d e. cd_previous e = cd_capacity d) (cc_decisions c)
    \<and> (\<forall>d \<in> set (cc_decisions c). \<bar>cd_capacity d - cd_previous d\<bar> \<le> 1
         \<and> (cd_previous d < cd_capacity d \<longrightarrow> (\<exists>s. cd_sample d = Some s \<and> is_healthy s)))
    \<and> sorted_wrt (\<lambda>d e. cd_capacity d \<noteq> cd_previous d \<and> cd_previous e < cd_capacity e \<longrightarrow>
         ap_cooldown_seconds requested \<le> cd_elapsed_seconds e - cd_elapsed_seconds d) (cc_decisions c)
    \<and> (\<forall>es1 es2 c1. es = es1 @ es2 \<and> set es1 \<inter> {Cap_crash, Cap_failure} \<noteq> {} \<and> capacity_run es1 c0 = Inr c1 \<longrightarrow>
         cc_capacity c \<le> cc_capacity c1)"
proof -
  note n = new_controller_inv [OF assms(1)]
  obtain c t where c: "capacity_run es c0 = Inr c" "capacity_inv t c" "cc_policy c = cc_policy c0"
    using capacity_run_inv [OF n(1) assms(2)] by blast
  have grow: "cc_capacity c \<le> cc_capacity c1"
    if e: "es = es1 @ es2" "set es1 \<inter> {Cap_crash, Cap_failure} \<noteq> {}" "capacity_run es1 c0 = Inr c1" for es1 es2 c1
  proof -
    have r: "reading_times es = reading_times es1 @ reading_times es2" by (simp add: e(1) reading_times_def)
    have "sorted (start # reading_times es1)" using assms(2) by (auto simp: r sorted_append)
    from capacity_run_inv [OF n(1) this] obtain u where u: "capacity_inv u c1" "u \<in> insert start (set (reading_times es1))"
      using e(3) by auto
    have "sorted (u # reading_times es2)" using assms(2) u(2) by (auto simp: r sorted_append)
    from capacity_run_inv [OF u(1) this] show ?thesis
      using c(1) blocked_after [OF e(3)] e(2) by (auto simp: e(1) capacity_run_append e(3))
  qed
  show ?thesis
    using c(1,2) grow unfolding capacity_inv_def c(3) n(2) by (intro exI [of _ c]) auto
qed

text \<open>
  In an adaptive run the worker of the other browsers stays enabled at every capacity, so when nothing runs
  and a job is pending its next attempt gets one.
\<close>

lemma map_of_fold_update:
  "v \<notin> set ws \<Longrightarrow> map_of (fold (\<lambda>w. AList.update w ps) ws m) v = map_of m v"
  by (induction ws arbitrary: m) (auto simp: map_of_update)

lemma adaptive_lane_served:
  assumes "plan_adaptive_worker_projects warm reserve jobs = Inr wp" "plan_worker_fallback_projects warm jobs wp = Inr fb"
    and "warm \<noteq> []" "distinct (warm @ reserve)" "affinity jobs wp fb q" "queue_inv jobs q"
    and "jq_assignments q = []" "jq_pending q \<noteq> []" "jq_accepting q"
    and "wp_capacity_order p = adaptive_capacity_worker_order warm reserve" "set warm \<subseteq> wp_active p" "1 \<le> c"
  shows "\<exists>j q'. assign_next (worker_is_enabled p (last warm) c) c (last warm) q = (Some j, q')"
proof -
  from assms(1) obtain wp0 ps where wp0: "plan_worker_projects warm jobs = Inr wp0"
    and wp: "wp = fold (\<lambda>w. AList.update w ps) reserve wp0"
    by (auto simp: plan_adaptive_worker_projects_def Let_def split: sum.splits)
  have "last warm \<notin> set reserve" using assms(4) last_in_set [OF assms(3)] by auto
  then have "map_of wp (last warm) = map_of wp0 (last warm)" by (simp add: wp map_of_fold_update)
  from cross_lane_runs [OF wp0 assms(3) _ this assms(2,5-8)] assms(4)
  obtain j where "next_job q (last warm) = Some j" by auto
  moreover have "worker_is_enabled p (last warm) c"
    using assms(3,10-12) by (cases "nat c") (auto simp: worker_is_enabled_def adaptive_capacity_worker_order_def)
  ultimately show ?thesis using assms(7,9,12) by (simp add: assign_next_def)
qed

subsection \<open>A run of two workers\<close>

definition tiny_job :: "string \<Rightarrow> string \<Rightarrow> rat \<Rightarrow> pystr set \<Rightarrow> job_spec" where
  "tiny_job i project secs locks =
     \<lparr>js_job_id = lit i, js_project = lit project, js_spec_path = [lit ''s''], js_logical_group = lit ''g'', js_tests = [],
      js_locks = locks, js_estimated_seconds = secs\<rparr>"

definition lane_jobs :: "job_spec list" where
  "lane_jobs = [tiny_job ''c'' ''desktop-chromium'' 20 {}, tiny_job ''f'' ''matrix-firefox'' 30 {}]"

definition sample_workers :: "pystr list" where
  "sample_workers = [lit ''a'', lit ''b'']"

definition sample_plan :: "worker_projects \<times> worker_projects" where
  "sample_plan = (case plan_worker_projects sample_workers lane_jobs of
     Inl _ \<Rightarrow> ([], [])
   | Inr wp \<Rightarrow> (wp, case plan_worker_fallback_projects sample_workers lane_jobs wp of Inl _ \<Rightarrow> [] | Inr fb \<Rightarrow> fb))"

definition sample_queue :: job_queue where
  "sample_queue = (case new_queue lane_jobs (Some (fst sample_plan)) (Some (snd sample_plan)) of Inr q \<Rightarrow> q | Inl _ \<Rightarrow> undefined)"

definition turn :: "pystr \<Rightarrow> pool_event list" where
  "turn w = [Ev_ask w, Ev_head w, Ev_read w 0 None (\<lambda>_. True), Ev_try w]"

definition sample_run :: "pool_event list" where
  "sample_run = (let a = lit ''a''; b = lit ''b''
     in turn a @ turn b @ [Ev_done b 0] @ turn b @ [Ev_done a 1, Ev_ask a, Ev_head a, Ev_head b])"

lemma sample_plan_ok:
  "plan_worker_projects sample_workers lane_jobs = Inr (fst sample_plan)"
  "plan_worker_fallback_projects sample_workers lane_jobs (fst sample_plan) = Inr (snd sample_plan)"
  "new_queue lane_jobs (Some (fst sample_plan)) (Some (snd sample_plan)) = Inr sample_queue"
  by code_simp+

lemma sample_run_ends:
  "case pool_run sample_workers sample_run (pool_init sample_queue None) of
     None \<Rightarrow> False
   | Some x \<Rightarrow> pw_results x = [(lit ''b'', lit ''f''), (lit ''a'', lit ''c'')]
       \<and> pw_crashes x = [] \<and> \<not> pw_interrupted x \<and> list_all (\<lambda>w. pw_phase x w = Wp_ended) sample_workers"
  by code_simp

lemma ended_quiet:
  assumes "\<forall>w \<in> set ws. pw_phase x w = Wp_ended" "e \<noteq> Ev_interrupt"
  shows "pool_exec ws e x = None"
  using assms by (cases e) (auto split: worker_phase.splits option.splits)

text \<open>Both workers of the sample run return, and its two jobs have their results.\<close>

theorem every_job_gets_its_result_witness:
  "\<exists>x. pool_run sample_workers sample_run (pool_init sample_queue None) = Some x \<and> length sample_run \<le> 87
     \<and> mset (map snd (pw_results x)) = mset (map js_job_id lane_jobs) \<and> length lane_jobs = 2"
proof -
  obtain x where x: "pool_run sample_workers sample_run (pool_init sample_queue None) = Some x"
    "pw_crashes x = []" "\<not> pw_interrupted x" "\<forall>w \<in> set sample_workers. pw_phase x w = Wp_ended"
    using sample_run_ends by (auto split: option.splits simp: list_all_iff)
  have l: "length lane_jobs = 2" by code_simp
  have d: "sample_workers \<noteq> []" "distinct sample_workers" "length sample_workers = 2" by code_simp+
  show ?thesis
    using every_job_gets_its_result [OF sample_plan_ok(1,2) d(1,2) sample_plan_ok(3) x(1)] ended_quiet [OF x(4)] x l d(3)
    by auto
qed

text \<open>Two jobs that need the mail server: the second waits while the first runs.\<close>

definition mail_jobs :: "job_spec list" where
  "mail_jobs = [tiny_job ''m'' ''desktop-chromium'' 20 {lock_value Mail_server}, tiny_job ''n'' ''tablet-chromium'' 30 {lock_value Mail_server}]"

definition mail_queue :: job_queue where
  "mail_queue = (case new_queue mail_jobs None None of Inr q \<Rightarrow> q | Inl _ \<Rightarrow> undefined)"

theorem running_jobs_share_no_lock_witness:
  "\<exists>x j. pool_run sample_workers (turn (lit ''a'') @ turn (lit ''b'')) (pool_init mail_queue None) = Some x
     \<and> pw_phase x (lit ''a'') = Wp_run j \<and> pw_phase x (lit ''b'') = Wp_wait
     \<and> js_job_id j \<notin> jq_terminal (pw_queue x) \<and> length (jq_pending (pw_queue x)) = 1"
proof -
  have q: "new_queue mail_jobs None None = Inr mail_queue" by code_simp
  have "case pool_run sample_workers (turn (lit ''a'') @ turn (lit ''b'')) (pool_init mail_queue None) of
      None \<Rightarrow> False
    | Some x \<Rightarrow> (case pw_phase x (lit ''a'') of Wp_run j \<Rightarrow> True | _ \<Rightarrow> False)
        \<and> pw_phase x (lit ''b'') = Wp_wait \<and> length (jq_pending (pw_queue x)) = 1" by code_simp
  then obtain x j where x: "pool_run sample_workers (turn (lit ''a'') @ turn (lit ''b'')) (pool_init mail_queue None) = Some x"
    "pw_phase x (lit ''a'') = Wp_run j" "pw_phase x (lit ''b'') = Wp_wait" "length (jq_pending (pw_queue x)) = 1"
    by (auto split: option.splits worker_phase.splits)
  show ?thesis using running_jobs_share_no_lock [OF q _ x(1)] x by blast
qed

definition calm_sample :: resource_sample where
  "calm_sample = \<lparr>sa_cpu_percent = 40, sa_available_memory_percent = 50, sa_backend_p95_ms = 100,
     sa_recent_worker_crashes = 0, sa_recent_unexpected_failures = 0\<rparr>"

definition calm_events :: "capacity_event list" where
  "calm_events = [Cap_reading 60 (Some calm_sample), Cap_reading 65 (Some calm_sample), Cap_reading 70 (Some calm_sample),
     Cap_crash, Cap_reading 140 (Some calm_sample)]"

theorem capacity_moves_slowly_witness:
  "\<exists>c0 c. new_controller 0 4 10 default_policy 5 = Inr c0 \<and> capacity_run calm_events c0 = Inr c
     \<and> map cd_capacity (cc_decisions c) = [4, 4, 4, 5, 4] \<and> cc_capacity c \<le> 10
     \<and> cd_capacity (last (cc_decisions c)) = cc_capacity c"
proof -
  have "case new_controller 0 4 10 default_policy 5 of Inl _ \<Rightarrow> False
    | Inr c0 \<Rightarrow> (case capacity_run calm_events c0 of Inl _ \<Rightarrow> False
        | Inr c \<Rightarrow> map cd_capacity (cc_decisions c) = [4, 4, 4, 5, 4])" by code_simp
  then obtain c0 c where c: "new_controller 0 4 10 default_policy 5 = Inr c0" "capacity_run calm_events c0 = Inr c"
    "map cd_capacity (cc_decisions c) = [4, 4, 4, 5, 4]" by (auto split: sum.splits)
  have "sorted (0 # reading_times calm_events)" by code_simp
  from capacity_moves_slowly [OF c(1) this] show ?thesis using c by auto
qed

end
