(* ===== verification/Spec2Isabelle.thy ===== *)
theory Spec2Isabelle
  imports Transaction_Claims Access_Claims Household_Claims Holding_Claims Category_Claims Ws_Hub History_Claims Remap_Claims Lease_Claims Quote_Claims Auth_Claims Ws_Tickets Import_Claims Import_Lock Migration_Claims Dashboard_Claims Toss_Claims Error_Responses Session_Cookies Runtime_Settings Job_Claims
begin

text \<open>
  The money-flow service: a household ledger over HTTP, written in Python (FastAPI, SQLAlchemy, pydantic).  This
  development models the backend under \<open>backend/app\<close>, and the scheduler of its browser tests, and states what makes it correct.

  How the program works.  A request passes the guards of \<open>api/deps.py\<close> (token, CSRF check, household, role) and
  reaches a handler of \<open>api/routes\<close>, which validates its payload (\<open>schemas.py\<close>), reads and writes the tables of
  \<open>db/models.py\<close> in one session and ends with a commit or with an error of the contract in \<open>core/errors.py\<close>; after
  a commit it hands events to the web-socket hub of the household (\<open>services/ws_hub.py\<close>).  The services behind the
  handlers merge concurrent patches, link owners, price holdings, import workbooks and screenshots, move whole
  households and sum the dashboard.

  How it is modelled.  A table is a list of records, one per row, in the order of insertion; the database is the
  record \<open>db\<close>, extended by the tables of one component where only that component uses them (\<open>auth_db\<close>,
  \<open>guard_state\<close>, \<open>fx_state\<close>, lists of snapshots).  A handler is a function from a state and a request to an
  \<open>outcome\<close>: an error or a value, the committed state and the events.  An exception nobody handles is
  \<open>ServerError\<close>; \<open>None\<close> from a validator is a validation error, which \<open>main.py\<close> answers with status 400.  Text is
  a list of code points (\<open>pystr\<close>), a dictionary an association list in insertion order, \<open>Decimal\<close> a rational (with
  its rounding to 28 digits where the code computes with it), an instant a number of microseconds.  Where sessions
  interleave, the change other sessions make between two statements is an argument of the handler, or the code is cut
  into the atomic steps of a transition relation.

  \<^bold>\<open>Theories, by component\<close>

  Shared.  \<open>MF_Prelude\<close>: text, dates, the error contract, tables with the locale \<open>db_table\<close>.  \<open>MF_Models\<close>: the
  schema and the interpretations of \<open>db_table\<close> for its tables.  \<open>Number_Text\<close>: numbers and dates as text, parsing
  of decimals, rounding.  \<open>Samples\<close>: a small household for the witnesses.  \<open>Error_Responses\<close>: the exception handlers
  of \<open>main.py\<close>; every error has a code and keeps its status, a refused patch reaches the client whole.
  \<open>Runtime_Settings\<close>: the validator of \<open>core/config.py\<close>; what a started process, and one in production, may rely on.

  Ledger.  \<open>Profile\<close> and \<open>Holding_Settings\<close>: \<open>services/profile.py\<close>.  \<open>Owner_Links\<close>: \<open>services/owner_links.py\<close>.
  \<open>Merge\<close>: \<open>services/merge.py\<close> over an abstract entity (locale \<open>patchable\<close>, interpreted for transactions and
  holdings).  \<open>Tx_Order\<close>: order keys of a day.  \<open>Transactions\<close>: create, patch, delete, list of
  \<open>routes/transactions.py\<close>.  \<open>Tx_History\<close>: signed cursors and pages (locale \<open>keyset\<close>).  \<open>Holdings\<close>,
  \<open>Categories\<close>: their routes.  The properties are in \<open>Transaction_Claims\<close> (no silent overwrite, placement, replay,
  invariant, isolation of households), \<open>History_Claims\<close> (a walk over the pages ends and misses nothing),
  \<open>Holding_Claims\<close> (invariant, duplicates as the index sees them), \<open>Category_Claims\<close> (every request exactly,
  invariant over every run).

  People.  \<open>Access\<close>: tokens of \<open>core/security.py\<close> and the guards.  \<open>Household\<close>: members and invitations of
  \<open>routes/household.py\<close>; \<open>Owner_Remap\<close>: its remap of legacy owners.  \<open>Auth_Throttle\<close>, \<open>Auth_Session\<close>,
  \<open>Auth_Register\<close>: \<open>routes/auth.py\<close> (rate limits with the locale \<open>window_counter\<close>, sessions, registration and
  verification).  \<open>Session_Cookies\<close>: what the cookie actions write, the guard of debug tokens
  (\<open>api/debug_tokens.py\<close>).  \<open>Ws_Hub\<close>, \<open>Ws_Tickets\<close>: the hub and the socket endpoint with its tickets.  The
  properties are in \<open>Access_Claims\<close>, \<open>Household_Claims\<close> (one owner at least, who may do what, complete removal),
  \<open>Remap_Claims\<close>, \<open>Auth_Claims\<close> (limits on attempts and guesses, single use, what verification proves) and at the
  end of \<open>Ws_Hub\<close> and \<open>Ws_Tickets\<close>.

  Prices.  \<open>Price_Lease\<close>: the refresh row, leases and workers of \<open>services/price_service.py\<close> as atomic steps,
  each with the time its worker read.
  \<open>Price_Quotes\<close>, \<open>Quote_Flights\<close>: providers, snapshots, a refresh and the sharing of provider calls.
  \<open>Exchange_Rates\<close>: \<open>services/fx_service.py\<close>.  \<open>Dashboard\<close>: \<open>services/dashboard.py\<close> with its routes and those
  of the prices.  The properties are in \<open>Lease_Claims\<close>, \<open>Quote_Claims\<close> and \<open>Dashboard_Claims\<close> (the overview refines
  the exact ledger, the portfolio adds up).

  Imports.  \<open>Workbook\<close>, \<open>Workbook_Parse\<close>, \<open>Workbook_Apply\<close>, \<open>Workbook_Holdings\<close>: \<open>services/importer.py\<close>;
  \<open>Workbook_Plan\<close>: the abstract plan the import follows.  \<open>Import_Lock\<close>: the lock, the guard and the upload checks
  of \<open>routes/imports.py\<close>.  \<open>Migration_Package\<close>, \<open>Migration_Transfer\<close>: \<open>services/migration_package.py\<close>;
  \<open>Migration_Reading\<close>, \<open>Migration_Move\<close>: what an exported package is read as and becomes.  \<open>Toss_Parse\<close>,
  \<open>Toss_Import\<close>: \<open>services/toss_screenshot_importer.py\<close> and its endpoints.  The properties are in \<open>Import_Claims\<close>,
  at the end of \<open>Import_Lock\<close>, in \<open>Migration_Claims\<close> and \<open>Toss_Claims\<close>.

  Test scheduler (\<open>scripts/e2e_scheduler\<close>).  \<open>Job_Specs\<close>: discovery of the browser tests, the manifest of a run,
  the duration history, resource locks and the building of jobs.  \<open>Job_Groups\<close>: the tables of \<open>logical_groups.py\<close>.
  \<open>Job_Queue\<close>: affinity of workers, adaptive capacity and the queue.  \<open>Job_Pool\<close>: \<open>acquire_assignment\<close> and the
  worker loop as events of an interleaved run, with the invariant of queue and workers; \<open>Job_Capacity\<close>: runs of the
  capacity controller.  The properties are in \<open>Job_Claims\<close>: every test is in one job, running jobs share no lock,
  every run ends with a result for every job, the capacity moves slowly.

  A property carries its identifier C1 to C40 in the text before it; the witness after it applies it to concrete data.
  The behaviour behind a finding of the manifest is a lemma of the component's theory wherever it is short to state.

  \<^bold>\<open>Bounds and fuel\<close>

  \<open>allocate_loop\<close> of \<open>Tx_Order\<close> runs at most twice, as the code's \<open>range(2)\<close>; after a rebalancing the keys are a
  step of 1024 apart, so the second turn finds room.  \<open>count_register_attempt\<close> and \<open>count_login_failure\<close> of
  \<open>Auth_Throttle\<close> have the attempts of the code's retry loops (four and three), \<open>issue_verification_token\<close> its
  three.  \<open>collect_older\<close> of \<open>Tx_History\<close> is the walk of a client, one page per unit of fuel; more fuel than the
  history has rows is enough, and the property proves that the walk returns.  Every other loop recurs on its data or
  on a measure (\<open>fallback_start\<close>, \<open>digit_count\<close>, \<open>nat_text\<close>).

  \<^bold>\<open>Parameters and what is assumed of them\<close>

  Code outside the repository is an argument of the definitions: JWT encoding and decoding, HMAC and SHA digests,
  password hashing, \<open>lower\<close>, \<open>upper\<close> and \<open>trim\<close> of the database engine, the conversions of pydantic, JSON and ZIP,
  openpyxl as the grid it reads, the answers of price and exchange-rate providers, \<open>urlparse\<close> and \<open>ipaddress\<close>, the
  recognition program of screenshots, the mail server, the clock and the source of fresh identifiers.  A property that
  needs something of them says so as a hypothesis (a decoder inverts its encoder, a digest is the one that was
  signed, an identifier is fresh, an amount fits the digits of \<open>Decimal\<close>, two refresh requests or job ends of a
  household never read the very same microsecond), and its witness has a concrete function
  in its place.

  \<^bold>\<open>Not modelled, and why\<close>

  Lengths and rounding of columns, the overflow of integer columns and \<open>NaN\<close> or infinite decimals (except where a
  definition states them): the model has no database engine.  Case and digits of scripts beyond Latin-1: the tables of
  Unicode are not part of the source.  The second read of a row under a lock sees the committed row, which the argument
  for other sessions stands for.  Texts shown to the user and mails, cookie paths, log lines and metrics carry no state.
  Temporary files, their removal and the thread of the import heartbeat, which is a function of the lease it keeps.
  Mail delivery, schema upgrades, static files, the orchestrator, the processes and artefacts of the test scheduler
  (a wake-up of its workers is a notification or, under a controller, a time-out) and the operator scripts are
  operating system, network and DDL calls around the service; the frontend is JavaScript.  They are listed in the
  manifest with their reasons.
\<close>

end
